(* ===== verification/Systems.thy ===== *)
theory Systems
  imports Prelude
begin

text \<open>
  The two interfaces the components share. \<open>guarded_system\<close> is a transition system with an
  invariant: a component proves the initial case and one case per step, and receives the
  invariant in every reachable state. \<open>refined_system\<close> adds an abstraction to a more
  abstract system and transports reachability along it.
\<close>

section \<open>Transition systems with an invariant\<close>

locale guarded_system =
  fixes start :: "'s \<Rightarrow> bool"
    and step :: "'s \<Rightarrow> 's \<Rightarrow> bool"
    and inv :: "'s \<Rightarrow> bool"
  assumes inv_start: "start s \<Longrightarrow> inv s"
    and inv_step: "inv s \<Longrightarrow> step s t \<Longrightarrow> inv t"
begin

lemma inv_steps: "inv s \<Longrightarrow> step\<^sup>*\<^sup>* s t \<Longrightarrow> inv t"
  by (rotate_tac, induction rule: rtranclp_induct) (blast intro: inv_step)+

lemma inv_reachable: "start s \<Longrightarrow> step\<^sup>*\<^sup>* s t \<Longrightarrow> inv t"
  by (blast intro: inv_steps inv_start)

end

section \<open>Refinement of an abstract system\<close>

locale refined_system = guarded_system +
  fixes astart :: "'a \<Rightarrow> bool"
    and astep :: "'a \<Rightarrow> 'a \<Rightarrow> bool"
    and abs :: "'s \<Rightarrow> 'a"
  assumes abs_start: "start s \<Longrightarrow> astart (abs s)"
    and abs_step: "inv s \<Longrightarrow> step s t \<Longrightarrow> astep\<^sup>*\<^sup>* (abs s) (abs t)"
begin

lemma abs_steps:
  assumes "start s" and "step\<^sup>*\<^sup>* s t"
  shows "astep\<^sup>*\<^sup>* (abs s) (abs t)"
  using assms(2)
proof (induction rule: rtranclp_induct)
  case (step t u)
  have "inv t" using assms(1) step.hyps(1) by (rule inv_reachable)
  then have "astep\<^sup>*\<^sup>* (abs t) (abs u)" using step.hyps(2) by (rule abs_step)
  with step.IH show ?case by (rule rtranclp_trans)
qed simp

lemma abs_reachable:
  assumes "start s" and "step\<^sup>*\<^sup>* s t"
  shows "\<exists>a. astart a \<and> astep\<^sup>*\<^sup>* a (abs t)"
  using abs_start [OF assms(1)] abs_steps [OF assms] by blast

end

end
