(* ===== verification/Capacity.thy ===== *)
theory Capacity
  imports Systems
begin

text \<open>
  The capacity limiter \<open>_AdjustableCapacity\<close> of \<open>src/app/service.py\<close> (lines 480--552): a
  semaphore whose limit can change while tasks wait. The state of the object is a
  \<open>capacity\<close>; its futures are kept beside the deque of waiters, under the number of the
  task that waits. \<open>cap_step\<close> interleaves any number of tasks on one event loop: between two
  steps no other code runs, as in the source, where only \<open>await waiter\<close> gives up control.
\<close>

section \<open>The limiter\<close>

datatype future = Pending | Granted | Cancelled

record capacity =
  cap_limit :: int
  cap_in_use :: int
  cap_waiters :: "nat list"
  cap_future :: "nat \<Rightarrow> future"

definition new_capacity :: "int \<Rightarrow> capacity" where
  "new_capacity limit =
     \<lparr>cap_limit = max 1 limit, cap_in_use = 0, cap_waiters = [], cap_future = (\<lambda>_. Pending)\<rparr>"

text \<open>\<open>_wake_waiters\<close>: pop waiters while a slot is free; a future that is done is skipped.\<close>

function wake_waiters :: "capacity \<Rightarrow> capacity" where
  "wake_waiters c =
     (case cap_waiters c of
        [] \<Rightarrow> c
      | w # ws \<Rightarrow>
          if cap_in_use c < cap_limit c then
            (if cap_future c w \<noteq> Pending then wake_waiters (c\<lparr>cap_waiters := ws\<rparr>)
             else wake_waiters (c\<lparr>cap_waiters := ws, cap_in_use := cap_in_use c + 1,
                                  cap_future := (cap_future c)(w := Granted)\<rparr>))
          else c)"
  by pat_completeness auto
termination
  by (relation "measure (\<lambda>c. length (cap_waiters c))") auto

declare wake_waiters.simps [simp del]

definition set_limit :: "int \<Rightarrow> capacity \<Rightarrow> capacity" where
  "set_limit limit c = wake_waiters (c\<lparr>cap_limit := max 1 limit\<rparr>)"

text \<open>
  The part of \<open>acquire\<close> before \<open>await\<close>: \<open>True\<close> when the slot is taken at once, \<open>False\<close>
  when the task now waits on its future.
\<close>

definition acquire :: "nat \<Rightarrow> capacity \<Rightarrow> bool \<times> capacity" where
  "acquire i c =
     (if cap_in_use c < cap_limit c \<and> cap_waiters c = [] then
        (True, c\<lparr>cap_in_use := cap_in_use c + 1\<rparr>)
      else
        (False, wake_waiters (c\<lparr>cap_waiters := cap_waiters c @ [i],
                                cap_future := (cap_future c)(i := Pending)\<rparr>)))"

text \<open>The \<open>except BaseException\<close> branch of \<open>acquire\<close>, entered when the task is cancelled.\<close>

definition acquire_cancelled :: "nat \<Rightarrow> capacity \<Rightarrow> capacity" where
  "acquire_cancelled i c =
     (if cap_future c i \<noteq> Pending \<and> cap_future c i \<noteq> Cancelled then
        wake_waiters (c\<lparr>cap_in_use := max 0 (cap_in_use c - 1)\<rparr>)
      else
        c\<lparr>cap_waiters := remove1 i (cap_waiters c),
          cap_future := (cap_future c)(i := Cancelled)\<rparr>)"

datatype capacity_error = Released_too_often

definition release :: "capacity \<Rightarrow> (capacity_error, capacity) result" where
  "release c =
     (if cap_in_use c \<le> 0 then Inl Released_too_often
      else Inr (wake_waiters (c\<lparr>cap_in_use := cap_in_use c - 1\<rparr>)))"

text \<open>\<open>_capacity_semaphore\<close>: one limiter per key, resized when it exists already.\<close>

definition capacity_semaphore ::
    "('k \<rightharpoonup> capacity) \<Rightarrow> 'k \<Rightarrow> int \<Rightarrow> ('k \<rightharpoonup> capacity) \<times> capacity" where
  "capacity_semaphore cache key limit =
     (case cache key of
        None \<Rightarrow> let l = new_capacity limit in (cache(key \<mapsto> l), l)
      | Some l \<Rightarrow> let l' = set_limit limit l in (cache(key \<mapsto> l'), l'))"

section \<open>Facts about waking\<close>

lemma wake_waiters_limit [simp]: "cap_limit (wake_waiters c) = cap_limit c"
  by (induction c rule: wake_waiters.induct)
    (subst wake_waiters.simps, auto split: list.splits)

lemma wake_waiters_settles:
  "cap_waiters (wake_waiters c) \<noteq> [] \<Longrightarrow> cap_limit c \<le> cap_in_use (wake_waiters c)"
proof (induction c rule: wake_waiters.induct)
  case (1 c)
  show ?case
    using 1 by (subst (asm) wake_waiters.simps, subst wake_waiters.simps)
      (auto split: list.splits if_splits)
qed

lemma wake_waiters_in_use:
  "cap_in_use c \<le> cap_in_use (wake_waiters c) \<and>
   cap_in_use (wake_waiters c) \<le> max (cap_in_use c) (cap_limit c)"
proof (induction c rule: wake_waiters.induct)
  case (1 c)
  show ?case
    by (subst (1 2) wake_waiters.simps) (use 1 in \<open>auto split: list.splits\<close>)
qed

section \<open>Tasks on one event loop\<close>

text \<open>
  A task is outside \<open>acquire\<close>, suspended in \<open>await waiter\<close>, about to run the cancellation
  branch, or past \<open>acquire\<close> and before its \<open>release\<close>.
\<close>

datatype phase = Outside | Suspended | Unwinding | Inside

record cap_system =
  sys_cap :: capacity
  sys_phase :: "nat \<Rightarrow> phase"

text \<open>
  One rule per atomic piece of code. \<open>task_cancel\<close> is \<open>Task.cancel\<close>: asyncio cancels the
  awaited future when it is still pending; a future that already has its result stays done
  and the task sees the cancellation when it resumes.
\<close>

inductive cap_step :: "cap_system \<Rightarrow> cap_system \<Rightarrow> bool" where
  enter_now: "sys_phase s i = Outside \<Longrightarrow> acquire i (sys_cap s) = (True, c) \<Longrightarrow>
     cap_step s (s\<lparr>sys_cap := c, sys_phase := (sys_phase s)(i := Inside)\<rparr>)"
| enter_wait: "sys_phase s i = Outside \<Longrightarrow> acquire i (sys_cap s) = (False, c) \<Longrightarrow>
     cap_step s (s\<lparr>sys_cap := c, sys_phase := (sys_phase s)(i := Suspended)\<rparr>)"
| resume: "sys_phase s i = Suspended \<Longrightarrow> cap_future (sys_cap s) i = Granted \<Longrightarrow>
     cap_step s (s\<lparr>sys_phase := (sys_phase s)(i := Inside)\<rparr>)"
| task_cancel: "sys_phase s i = Suspended \<Longrightarrow>
     cap_step s (s\<lparr>sys_cap := (sys_cap s)\<lparr>cap_future := (cap_future (sys_cap s))
        (i := (if cap_future (sys_cap s) i = Pending then Cancelled else cap_future (sys_cap s) i))\<rparr>,
        sys_phase := (sys_phase s)(i := Unwinding)\<rparr>)"
| unwind: "sys_phase s i = Unwinding \<Longrightarrow>
     cap_step s (s\<lparr>sys_cap := acquire_cancelled i (sys_cap s),
        sys_phase := (sys_phase s)(i := Outside)\<rparr>)"
| leave: "sys_phase s i = Inside \<Longrightarrow> release (sys_cap s) = Inr c \<Longrightarrow>
     cap_step s (s\<lparr>sys_cap := c, sys_phase := (sys_phase s)(i := Outside)\<rparr>)"
| resize: "cap_step s (s\<lparr>sys_cap := set_limit n (sys_cap s)\<rparr>)"

definition cap_start :: "cap_system \<Rightarrow> bool" where
  "cap_start s = (\<exists>n. s = \<lparr>sys_cap = new_capacity n, sys_phase = (\<lambda>_. Outside)\<rparr>)"

text \<open>The tasks that own a slot: those inside, and those whose future has been granted.\<close>

definition owners :: "(nat \<Rightarrow> phase) \<Rightarrow> (nat \<Rightarrow> future) \<Rightarrow> nat set" where
  "owners ph fu = {i. ph i = Inside \<or> (ph i \<in> {Suspended, Unwinding} \<and> fu i = Granted)}"

definition waiting_ok :: "(nat \<Rightarrow> phase) \<Rightarrow> capacity \<Rightarrow> bool" where
  "waiting_ok ph c \<longleftrightarrow>
     finite (owners ph (cap_future c)) \<and>
     cap_in_use c = int (card (owners ph (cap_future c))) \<and>
     distinct (cap_waiters c) \<and>
     (\<forall>i. i \<in> set (cap_waiters c) \<longrightarrow> ph i \<in> {Suspended, Unwinding} \<and> cap_future c i \<noteq> Granted) \<and>
     (\<forall>i. ph i = Suspended \<and> cap_future c i \<noteq> Granted \<longrightarrow>
          cap_future c i = Pending \<and> i \<in> set (cap_waiters c)) \<and>
     (\<forall>i. ph i = Unwinding \<longrightarrow> cap_future c i \<noteq> Pending)"

definition cap_inv :: "cap_system \<Rightarrow> bool" where
  "cap_inv s \<longleftrightarrow>
     waiting_ok (sys_phase s) (sys_cap s) \<and> 1 \<le> cap_limit (sys_cap s) \<and>
     (cap_waiters (sys_cap s) \<noteq> [] \<longrightarrow> cap_limit (sys_cap s) \<le> cap_in_use (sys_cap s))"

text \<open>Granting a pending waiter turns exactly that task into an owner.\<close>

lemma owners_grant:
  "ph w = Suspended \<Longrightarrow> owners ph (fu(w := Granted)) = insert w (owners ph fu)"
  by (auto simp: owners_def)

lemma wake_waiters_ok: "waiting_ok ph c \<Longrightarrow> waiting_ok ph (wake_waiters c)"
proof (induction c rule: wake_waiters.induct)
  case (1 c)
  show ?case
  proof (cases "cap_waiters c")
    case Nil
    with 1 show ?thesis by (simp add: wake_waiters.simps [of c])
  next
    case (Cons w ws)
    note ok = "1.prems" [unfolded waiting_ok_def]
    consider (stop) "\<not> cap_in_use c < cap_limit c"
      | (skip) "cap_in_use c < cap_limit c" "cap_future c w \<noteq> Pending"
      | (grant) "cap_in_use c < cap_limit c" "cap_future c w = Pending" by blast
    then show ?thesis
    proof cases
      case stop
      with Cons "1.prems" show ?thesis by (simp add: wake_waiters.simps [of c])
    next
      case skip
      have "ph w \<noteq> Suspended" using ok Cons skip by auto
      then have "waiting_ok ph (c\<lparr>cap_waiters := ws\<rparr>)"
        using ok Cons by (auto simp: waiting_ok_def)
      with "1.IH"(1) [OF Cons skip] skip Cons show ?thesis
        by (simp add: wake_waiters.simps [of c])
    next
      case grant
      have ph: "ph w = Suspended" using ok Cons grant by auto
      have new: "w \<notin> owners ph (cap_future c)" using ph grant by (simp add: owners_def)
      have "waiting_ok ph (c\<lparr>cap_waiters := ws, cap_in_use := cap_in_use c + 1,
              cap_future := (cap_future c)(w := Granted)\<rparr>)"
        using ok Cons ph new by (auto simp: waiting_ok_def owners_grant)
      with "1.IH"(2) [OF Cons grant(1)] grant Cons show ?thesis
        by (simp add: wake_waiters.simps [of c])
    qed
  qed
qed

text \<open>After any wake-up the queue is empty or every slot is taken.\<close>

lemma cap_inv_wake:
  "waiting_ok ph c \<Longrightarrow> 1 \<le> cap_limit c \<Longrightarrow>
   cap_inv (s\<lparr>sys_cap := wake_waiters c, sys_phase := ph\<rparr>)"
  using wake_waiters_settles [of c] by (auto simp: cap_inv_def wake_waiters_ok)

lemma cap_inv_start: "cap_start s \<Longrightarrow> cap_inv s"
  by (auto simp: cap_start_def cap_inv_def waiting_ok_def owners_def new_capacity_def)

section \<open>Every step keeps the invariant\<close>

lemma cap_inv_acquire_now:
  assumes "cap_inv s" "sys_phase s i = Outside" "acquire i (sys_cap s) = (True, c)"
  shows "cap_inv (s\<lparr>sys_cap := c, sys_phase := (sys_phase s)(i := Inside)\<rparr>)"
proof -
  have c: "c = (sys_cap s)\<lparr>cap_in_use := cap_in_use (sys_cap s) + 1\<rparr>"
    and w: "cap_waiters (sys_cap s) = []"
    using assms(3) by (auto simp: acquire_def split: if_splits)
  have o: "owners ((sys_phase s)(i := Inside)) fu = insert i (owners (sys_phase s) fu)" for fu
    using assms(2) by (auto simp: owners_def)
  have new: "i \<notin> owners (sys_phase s) fu" for fu using assms(2) by (simp add: owners_def)
  show ?thesis using assms(1,2) c w new by (auto simp: cap_inv_def waiting_ok_def o)
qed

lemma cap_inv_acquire_wait:
  assumes "cap_inv s" "sys_phase s i = Outside" "acquire i (sys_cap s) = (False, c)"
  shows "cap_inv (s\<lparr>sys_cap := c, sys_phase := (sys_phase s)(i := Suspended)\<rparr>)"
proof -
  let ?q = "(sys_cap s)\<lparr>cap_waiters := cap_waiters (sys_cap s) @ [i],
                cap_future := (cap_future (sys_cap s))(i := Pending)\<rparr>"
  have c: "c = wake_waiters ?q" using assms(3) by (auto simp: acquire_def split: if_splits)
  have o: "owners ((sys_phase s)(i := Suspended)) ((cap_future (sys_cap s))(i := Pending)) =
           owners (sys_phase s) (cap_future (sys_cap s))"
    using assms(2) by (auto simp: owners_def)
  have "i \<notin> set (cap_waiters (sys_cap s))"
    using assms(1,2) by (auto simp: cap_inv_def waiting_ok_def)
  then have "waiting_ok ((sys_phase s)(i := Suspended)) ?q"
    using assms(1) by (auto simp: cap_inv_def waiting_ok_def o)
  then show ?thesis using assms(1) c cap_inv_wake [of _ ?q s] by (simp add: cap_inv_def)
qed

lemma cap_inv_resume:
  assumes "cap_inv s" "sys_phase s i = Suspended" "cap_future (sys_cap s) i = Granted"
  shows "cap_inv (s\<lparr>sys_phase := (sys_phase s)(i := Inside)\<rparr>)"
proof -
  have o: "owners ((sys_phase s)(i := Inside)) (cap_future (sys_cap s)) =
           owners (sys_phase s) (cap_future (sys_cap s))"
    using assms(2,3) by (auto simp: owners_def)
  show ?thesis using assms by (auto simp: cap_inv_def waiting_ok_def o)
qed

lemma cap_inv_task_cancel:
  assumes "cap_inv s" "sys_phase s i = Suspended"
  shows "cap_inv (s\<lparr>sys_cap := (sys_cap s)\<lparr>cap_future := (cap_future (sys_cap s))
        (i := (if cap_future (sys_cap s) i = Pending then Cancelled else cap_future (sys_cap s) i))\<rparr>,
        sys_phase := (sys_phase s)(i := Unwinding)\<rparr>)"
proof -
  have o: "owners ((sys_phase s)(i := Unwinding)) ((cap_future (sys_cap s))
        (i := (if cap_future (sys_cap s) i = Pending then Cancelled else cap_future (sys_cap s) i)))
      = owners (sys_phase s) (cap_future (sys_cap s))"
    using assms(2) by (auto simp: owners_def)
  show ?thesis using assms by (auto simp: cap_inv_def waiting_ok_def o)
qed

lemma waiting_ok_drop_owner:
  assumes ok: "waiting_ok ph c" and own: "i \<in> owners ph (cap_future c)"
  shows "waiting_ok (ph(i := Outside)) (c\<lparr>cap_in_use := cap_in_use c - 1\<rparr>)"
proof -
  have o: "owners (ph(i := Outside)) (cap_future c) = owners ph (cap_future c) - {i}"
    by (auto simp: owners_def)
  have "0 < card (owners ph (cap_future c))"
    using ok own by (auto simp: waiting_ok_def card_gt_0_iff)
  then have n: "int (card (owners ph (cap_future c) - {i})) = cap_in_use c - 1"
    using ok own by (simp add: waiting_ok_def of_nat_diff)
  have "i \<notin> set (cap_waiters c)" using ok own by (auto simp: waiting_ok_def owners_def)
  then show ?thesis using ok n by (auto simp: waiting_ok_def o)
qed

lemma in_use_positive:
  "waiting_ok ph c \<Longrightarrow> i \<in> owners ph (cap_future c) \<Longrightarrow> 0 < cap_in_use c"
  by (auto simp: waiting_ok_def card_gt_0_iff)

lemma cap_inv_unwind:
  assumes inv: "cap_inv s" and ph: "sys_phase s i = Unwinding"
  shows "cap_inv (s\<lparr>sys_cap := acquire_cancelled i (sys_cap s),
        sys_phase := (sys_phase s)(i := Outside)\<rparr>)"
proof (cases "cap_future (sys_cap s) i = Granted")
  case True
  then have own: "i \<in> owners (sys_phase s) (cap_future (sys_cap s))"
    using ph by (simp add: owners_def)
  have ok: "waiting_ok (sys_phase s) (sys_cap s)" using inv by (simp add: cap_inv_def)
  have "acquire_cancelled i (sys_cap s) =
      wake_waiters ((sys_cap s)\<lparr>cap_in_use := cap_in_use (sys_cap s) - 1\<rparr>)"
    using True in_use_positive [OF ok own] by (simp add: acquire_cancelled_def)
  then show ?thesis
    using waiting_ok_drop_owner [OF ok own] inv
      cap_inv_wake [of _ "(sys_cap s)\<lparr>cap_in_use := cap_in_use (sys_cap s) - 1\<rparr>" s]
    by (simp add: cap_inv_def)
next
  case False
  have o: "owners ((sys_phase s)(i := Outside)) ((cap_future (sys_cap s))(i := Cancelled)) =
           owners (sys_phase s) (cap_future (sys_cap s))"
    using False ph by (auto simp: owners_def)
  have "acquire_cancelled i (sys_cap s) =
      (sys_cap s)\<lparr>cap_waiters := remove1 i (cap_waiters (sys_cap s)),
          cap_future := (cap_future (sys_cap s))(i := Cancelled)\<rparr>"
    using False by (cases "cap_future (sys_cap s) i") (auto simp: acquire_cancelled_def)
  then show ?thesis
    using inv ph by (auto simp: cap_inv_def waiting_ok_def o set_remove1_eq)
qed

lemma cap_inv_leave:
  assumes inv: "cap_inv s" and ph: "sys_phase s i = Inside" and r: "release (sys_cap s) = Inr c"
  shows "cap_inv (s\<lparr>sys_cap := c, sys_phase := (sys_phase s)(i := Outside)\<rparr>)"
proof -
  have own: "i \<in> owners (sys_phase s) (cap_future (sys_cap s))" using ph by (simp add: owners_def)
  have ok: "waiting_ok (sys_phase s) (sys_cap s)" using inv by (simp add: cap_inv_def)
  have "c = wake_waiters ((sys_cap s)\<lparr>cap_in_use := cap_in_use (sys_cap s) - 1\<rparr>)"
    using r by (auto simp: release_def split: if_splits)
  then show ?thesis
    using waiting_ok_drop_owner [OF ok own] inv
      cap_inv_wake [of _ "(sys_cap s)\<lparr>cap_in_use := cap_in_use (sys_cap s) - 1\<rparr>" s]
    by (simp add: cap_inv_def)
qed

lemma cap_inv_resize:
  assumes "cap_inv s"
  shows "cap_inv (s\<lparr>sys_cap := set_limit n (sys_cap s)\<rparr>)"
proof -
  have "waiting_ok (sys_phase s) ((sys_cap s)\<lparr>cap_limit := max 1 n\<rparr>)"
    using assms by (auto simp: cap_inv_def waiting_ok_def)
  then show ?thesis
    using cap_inv_wake [of "sys_phase s" "(sys_cap s)\<lparr>cap_limit := max 1 n\<rparr>" s]
    by (simp add: set_limit_def)
qed

lemma cap_inv_step: "cap_inv s \<Longrightarrow> cap_step s t \<Longrightarrow> cap_inv t"
  by (rotate_tac, induction rule: cap_step.induct)
    (simp_all only: cap_inv_acquire_now cap_inv_acquire_wait cap_inv_resume cap_inv_task_cancel
      cap_inv_unwind cap_inv_leave cap_inv_resize)

interpretation capacity_system: guarded_system cap_start cap_step cap_inv
  by unfold_locales (blast intro: cap_inv_start cap_inv_step)+

inductive_cases cap_step_cases: "cap_step s t"

section \<open>Properties\<close>

text \<open>
  A limiter whose limit has never been raised above \<open>n\<close>: the reachable states of the steps
  that only resize within \<open>n\<close>.
\<close>

definition cap_step_upto :: "int \<Rightarrow> cap_system \<Rightarrow> cap_system \<Rightarrow> bool" where
  "cap_step_upto n s t \<longleftrightarrow> cap_step s t \<and> cap_limit (sys_cap t) \<le> n"

definition cap_bound :: "int \<Rightarrow> cap_system \<Rightarrow> bool" where
  "cap_bound n s \<longleftrightarrow> cap_inv s \<and> cap_limit (sys_cap s) \<le> n \<and> cap_in_use (sys_cap s) \<le> n"

lemma cap_bound_start: "cap_start s \<Longrightarrow> cap_limit (sys_cap s) \<le> n \<Longrightarrow> cap_bound n s"
  using cap_inv_start [of s]
  by (auto simp: cap_bound_def cap_start_def new_capacity_def)

lemma in_use_wake_bound:
  "cap_in_use c \<le> n \<Longrightarrow> cap_limit c \<le> n \<Longrightarrow> cap_in_use (wake_waiters c) \<le> n"
  using wake_waiters_in_use [of c] by auto

lemma cap_bound_step: "cap_bound n s \<Longrightarrow> cap_step_upto n s t \<Longrightarrow> cap_bound n t"
proof -
  assume b: "cap_bound n s" and st: "cap_step_upto n s t"
  then have step: "cap_step s t" and lim: "cap_limit (sys_cap t) \<le> n"
    by (simp_all add: cap_step_upto_def)
  have inv: "cap_inv t" using b step cap_inv_step by (auto simp: cap_bound_def)
  have "0 \<le> n" using b by (auto simp: cap_bound_def cap_inv_def)
  from step b lim this have "cap_in_use (sys_cap t) \<le> n"
    by (cases rule: cap_step.cases)
      (auto simp: cap_bound_def acquire_def acquire_cancelled_def release_def set_limit_def
        intro!: in_use_wake_bound split: if_splits)
  with inv lim show ?thesis by (simp add: cap_bound_def)
qed

interpretation bounded_capacity:
    guarded_system "\<lambda>s. cap_start s \<and> cap_limit (sys_cap s) \<le> n" "cap_step_upto n" "cap_bound n"
  by unfold_locales (blast intro: cap_bound_start cap_bound_step)+

lemma owners_card_le:
  "cap_inv s \<Longrightarrow> card {i. sys_phase s i = Inside} \<le> nat (cap_in_use (sys_cap s))"
proof -
  assume "cap_inv s"
  then have f: "finite (owners (sys_phase s) (cap_future (sys_cap s)))"
    and n: "cap_in_use (sys_cap s) = int (card (owners (sys_phase s) (cap_future (sys_cap s))))"
    by (simp_all add: cap_inv_def waiting_ok_def)
  have "card {i. sys_phase s i = Inside} \<le> card (owners (sys_phase s) (cap_future (sys_cap s)))"
    by (rule card_mono [OF f]) (auto simp: owners_def)
  with n show ?thesis by simp
qed

text \<open>
  at no reachable point do more tasks hold a slot than the largest limit the object has
  had; with the limit 1 of a repository lock this is mutual exclusion of Borg commands.
\<close>

theorem holders_bounded:
  assumes "cap_start s" and "cap_limit (sys_cap s) \<le> n" and "(cap_step_upto n)\<^sup>*\<^sup>* s t"
  shows "card {i. sys_phase t i = Inside} \<le> nat n"
proof -
  have "cap_bound n t" using assms by (intro bounded_capacity.inv_reachable) auto
  then show ?thesis using owners_card_le [of t] by (auto simp: cap_bound_def)
qed

text \<open>A run for the witnesses: task 0 takes the only slot, task 1 waits for it.\<close>

definition demo_start :: cap_system where
  "demo_start = \<lparr>sys_cap = new_capacity 1, sys_phase = (\<lambda>_. Outside)\<rparr>"

definition demo_held :: cap_system where
  "demo_held = demo_start\<lparr>sys_cap := (new_capacity 1)\<lparr>cap_in_use := 1\<rparr>,
     sys_phase := (\<lambda>_. Outside)(0 := Inside)\<rparr>"

definition demo_queued :: cap_system where
  "demo_queued = demo_held\<lparr>sys_cap := (new_capacity 1)\<lparr>cap_in_use := 1, cap_waiters := [1],
       cap_future := (\<lambda>_. Pending)(1 := Pending)\<rparr>,
     sys_phase := (\<lambda>_. Outside)(0 := Inside, 1 := Suspended)\<rparr>"

lemma demo_cap_start: "cap_start demo_start"
  by (auto simp: cap_start_def demo_start_def)

lemma demo_step_held: "cap_step demo_start demo_held"
  using cap_step.enter_now [of demo_start 0 "(new_capacity 1)\<lparr>cap_in_use := 1\<rparr>"]
  by (simp add: demo_start_def demo_held_def acquire_def new_capacity_def)

lemma demo_step_queued: "cap_step demo_held demo_queued"
  using cap_step.enter_wait [of demo_held 1 "sys_cap demo_queued"]
  by (simp add: demo_start_def demo_held_def demo_queued_def acquire_def new_capacity_def
      wake_waiters.simps)

lemma demo_run_queued: "cap_step\<^sup>*\<^sup>* demo_start demo_queued"
  using demo_step_held demo_step_queued by (meson rtranclp.rtrancl_into_rtrancl rtranclp.rtrancl_refl)

lemma demo_run_bounded: "(cap_step_upto 1)\<^sup>*\<^sup>* demo_start demo_queued"
proof -
  have "cap_step_upto 1 demo_start demo_held" "cap_step_upto 1 demo_held demo_queued"
    using demo_step_held demo_step_queued
    by (simp_all add: cap_step_upto_def demo_start_def demo_held_def demo_queued_def new_capacity_def)
  then show ?thesis by (meson rtranclp.rtrancl_into_rtrancl rtranclp.rtrancl_refl)
qed

theorem holders_bounded_witness:
  "card {i. sys_phase demo_queued i = Inside} \<le> 1 \<and> sys_phase demo_queued 0 = Inside"
  using holders_bounded [OF demo_cap_start _ demo_run_bounded]
  by (simp add: demo_queued_def demo_start_def new_capacity_def)

text \<open>
  no wake-up is lost. Whenever a task is still suspended on a pending future, every slot
  of the current limit is in use, also after cancellations and live changes of the limit.
\<close>

theorem no_lost_wakeup:
  assumes "cap_start s" and "cap_step\<^sup>*\<^sup>* s t"
    and "sys_phase t i = Suspended" and "cap_future (sys_cap t) i = Pending"
  shows "cap_limit (sys_cap t) \<le> cap_in_use (sys_cap t)"
proof -
  have "cap_inv t" using assms(1,2) by (rule capacity_system.inv_reachable)
  then show ?thesis using assms(3,4) by (auto simp: cap_inv_def waiting_ok_def)
qed

theorem no_lost_wakeup_witness:
  "cap_limit (sys_cap demo_queued) \<le> cap_in_use (sys_cap demo_queued)"
  by (rule no_lost_wakeup [OF demo_cap_start demo_run_queued, of 1])
    (simp_all add: demo_queued_def)

text \<open>a task that holds a slot can always release it; the \<open>ValueError\<close> is unreachable.\<close>

theorem release_never_fails:
  assumes "cap_start s" and "cap_step\<^sup>*\<^sup>* s t" and "sys_phase t i = Inside"
  shows "release (sys_cap t) \<noteq> Inl Released_too_often"
proof -
  have "cap_inv t" using assms(1,2) by (rule capacity_system.inv_reachable)
  then have "0 < cap_in_use (sys_cap t)"
    using assms(3) by (intro in_use_positive [of "sys_phase t" _ i]) (auto simp: cap_inv_def owners_def)
  then show ?thesis by (simp add: release_def)
qed

theorem release_never_fails_witness: "release (sys_cap demo_queued) \<noteq> Inl Released_too_often"
  by (rule release_never_fails [OF demo_cap_start demo_run_queued, of 0]) (simp add: demo_queued_def)

text \<open>
  waking is first come, first served: exactly the first waiters of the deque whose future
  is still pending are granted, as many as there are free slots.
\<close>

theorem wake_waiters_fifo:
  assumes "distinct (cap_waiters c)"
  shows "cap_future (wake_waiters c) i =
    (if i \<in> set (take (nat (cap_limit c - cap_in_use c))
                   (filter (\<lambda>w. cap_future c w = Pending) (cap_waiters c)))
     then Granted else cap_future c i)"
  using assms
proof (induction c rule: wake_waiters.induct)
  case (1 c)
  show ?case
  proof (cases "cap_waiters c")
    case Nil
    then show ?thesis by (simp add: wake_waiters.simps [of c])
  next
    case (Cons w ws)
    have dist: "distinct ws" and new: "w \<notin> set ws" using "1.prems" Cons by auto
    consider (stop) "\<not> cap_in_use c < cap_limit c"
      | (skip) "cap_in_use c < cap_limit c" "cap_future c w \<noteq> Pending"
      | (grant) "cap_in_use c < cap_limit c" "cap_future c w = Pending" by blast
    then show ?thesis
    proof cases
      case grant
      have n: "nat (cap_limit c - cap_in_use c) = Suc (nat (cap_limit c - (cap_in_use c + 1)))"
        using grant by simp
      have f: "filter (\<lambda>v. ((cap_future c)(w := Granted)) v = Pending) ws =
               filter (\<lambda>v. cap_future c v = Pending) ws"
        using new by (auto intro: filter_cong)
      show ?thesis
        using "1.IH"(2) [OF Cons grant(1)] grant Cons dist new f
        by (auto simp: wake_waiters.simps [of c] n dest: in_set_takeD)
    qed (use "1.IH"(1) [OF Cons] Cons dist in \<open>auto simp: wake_waiters.simps [of c]\<close>)
  qed
qed

theorem wake_waiters_fifo_witness:
  "cap_future (wake_waiters ((new_capacity 1)\<lparr>cap_waiters := [4, 2]\<rparr>)) 4 = Granted \<and>
   cap_future (wake_waiters ((new_capacity 1)\<lparr>cap_waiters := [4, 2]\<rparr>)) 2 = Pending"
  using wake_waiters_fifo [of "(new_capacity 1)\<lparr>cap_waiters := [4, 2]\<rparr>"]
  by (simp add: new_capacity_def)

end
