(* ===== verification/Tables.thy ===== *)
theory Tables
  imports Prelude
begin

text \<open>
  Database tables. A table is the list of its rows; a row carries its integer primary key.
  The \<open>row_store\<close> interface states what the components rely on (what a lookup returns after an
  insert, an update or a delete, and that keys stay unique); \<open>table_get\<close> and its companions
  provide it for any row type. SQLite gives a new row the largest key plus one.
\<close>

section \<open>JSON values\<close>

text \<open>The result of \<open>json.loads\<close>; objects keep the order of their members.\<close>

datatype json =
    JNull
  | JBool bool
  | JInt int
  | JFloat rat
  | JStr string
  | JList "json list"
  | JObj "(string \<times> json) list"

text \<open>An integer of JSON that is not one of Python's booleans.\<close>

fun json_int :: "json \<Rightarrow> int option" where
  "json_int (JInt n) = Some n"
| "json_int _ = None"

section \<open>Rows and keys\<close>

definition table_get :: "('r \<Rightarrow> nat) \<Rightarrow> 'r list \<Rightarrow> nat \<Rightarrow> 'r option" where
  "table_get key rows i = find (\<lambda>r. key r = i) rows"

definition table_insert :: "'r list \<Rightarrow> 'r \<Rightarrow> 'r list" where
  "table_insert rows r = rows @ [r]"

definition table_modify :: "('r \<Rightarrow> nat) \<Rightarrow> nat \<Rightarrow> ('r \<Rightarrow> 'r) \<Rightarrow> 'r list \<Rightarrow> 'r list" where
  "table_modify key i f rows = map (\<lambda>r. if key r = i then f r else r) rows"

definition table_remove :: "('r \<Rightarrow> nat) \<Rightarrow> nat \<Rightarrow> 'r list \<Rightarrow> 'r list" where
  "table_remove key i rows = filter (\<lambda>r. key r \<noteq> i) rows"

definition next_key :: "('r \<Rightarrow> nat) \<Rightarrow> 'r list \<Rightarrow> nat" where
  "next_key key rows = Suc (fold (\<lambda>r m. max m (key r)) rows 0)"

definition unique_keys :: "('r \<Rightarrow> nat) \<Rightarrow> 'r list \<Rightarrow> bool" where
  "unique_keys key rows = distinct (map key rows)"

text \<open>\<open>ORDER BY id\<close>.\<close>

definition by_key :: "('r \<Rightarrow> nat) \<Rightarrow> 'r list \<Rightarrow> 'r list" where
  "by_key key rows = sort_key key rows"

lemma fold_max_ge: "m \<le> fold (\<lambda>r m. max m (key r)) rows (m :: nat)"
proof (induction rows arbitrary: m)
  case (Cons r rows)
  have "max m (key r) \<le> fold (\<lambda>r m. max m (key r)) rows (max m (key r))" by (rule Cons.IH)
  then show ?case by simp
qed simp

lemma fold_max_key: "r \<in> set rows \<Longrightarrow> key r \<le> fold (\<lambda>r m. max m (key r)) rows (m :: nat)"
proof (induction rows arbitrary: m)
  case (Cons a rows)
  show ?case
  proof (cases "r \<in> set rows")
    case True
    then show ?thesis using Cons.IH by simp
  next
    case False
    then have "r = a" using Cons.prems by simp
    then show ?thesis using fold_max_ge [of "max m (key a)" key rows] by simp
  qed
qed simp

lemma key_less_next: "r \<in> set rows \<Longrightarrow> key r < next_key key rows"
  using fold_max_key [of r rows key 0] by (simp add: next_key_def)

lemma next_key_fresh: "next_key key rows \<notin> set (map key rows)"
  using key_less_next [of _ rows key] by fastforce

lemma table_get_SomeD: "table_get key rows i = Some r \<Longrightarrow> r \<in> set rows \<and> key r = i"
  by (auto simp: table_get_def find_Some_iff)

lemma table_get_None_iff: "table_get key rows i = None \<longleftrightarrow> i \<notin> set (map key rows)"
  by (auto simp: table_get_def find_None_iff)

lemma table_get_eq_Some:
  "unique_keys key rows \<Longrightarrow> table_get key rows i = Some r \<longleftrightarrow> r \<in> set rows \<and> key r = i"
proof (induction rows)
  case (Cons a rows)
  then show ?case by (auto simp: table_get_def unique_keys_def)
qed (simp add: table_get_def)

lemma table_get_insert:
  "key r \<notin> set (map key rows) \<Longrightarrow>
   table_get key (table_insert rows r) i = (if i = key r then Some r else table_get key rows i)"
  by (induction rows) (auto simp: table_get_def table_insert_def)

lemma table_get_modify:
  "(\<And>r. key (f r) = key r) \<Longrightarrow>
   table_get key (table_modify key i f rows) j =
     (if j = i then map_option f (table_get key rows i) else table_get key rows j)"
  by (induction rows) (auto simp: table_get_def table_modify_def)

lemma table_get_remove:
  "table_get key (table_remove key i rows) j = (if j = i then None else table_get key rows j)"
  by (induction rows) (auto simp: table_get_def table_remove_def)

lemma keys_modify: "(\<And>r. key (f r) = key r) \<Longrightarrow> map key (table_modify key i f rows) = map key rows"
  by (auto simp: table_modify_def)

lemma unique_insert:
  "unique_keys key rows \<Longrightarrow> key r \<notin> set (map key rows) \<Longrightarrow> unique_keys key (table_insert rows r)"
  by (auto simp: unique_keys_def table_insert_def)

lemma unique_modify:
  "(\<And>r. key (f r) = key r) \<Longrightarrow> unique_keys key rows \<Longrightarrow> unique_keys key (table_modify key i f rows)"
  by (simp add: unique_keys_def keys_modify)

lemma unique_remove: "unique_keys key rows \<Longrightarrow> unique_keys key (table_remove key i rows)"
  by (auto simp: unique_keys_def table_remove_def distinct_map_filter)

lemma set_by_key [simp]: "set (by_key key rows) = set rows"
  by (simp add: by_key_def)

lemma sorted_by_key: "sorted (map key (by_key key rows))"
  by (simp add: by_key_def)

lemma distinct_by_key: "unique_keys key rows \<Longrightarrow> distinct (map key (by_key key rows))"
  by (simp add: unique_keys_def by_key_def distinct_map)

section \<open>The interface\<close>

locale row_store =
  fixes key :: "'r \<Rightarrow> nat"
    and get :: "'s \<Rightarrow> nat \<Rightarrow> 'r option"
    and insert :: "'s \<Rightarrow> 'r \<Rightarrow> 's"
    and modify :: "nat \<Rightarrow> ('r \<Rightarrow> 'r) \<Rightarrow> 's \<Rightarrow> 's"
    and remove :: "nat \<Rightarrow> 's \<Rightarrow> 's"
    and fresh :: "'s \<Rightarrow> nat"
    and valid :: "'s \<Rightarrow> bool"
  assumes get_key: "get s i = Some r \<Longrightarrow> key r = i"
    and get_fresh: "get s (fresh s) = None"
    and get_insert: "get s (key r) = None \<Longrightarrow>
      get (insert s r) i = (if i = key r then Some r else get s i)"
    and get_modify: "(\<And>r. key (f r) = key r) \<Longrightarrow>
      get (modify i f s) j = (if j = i then map_option f (get s i) else get s j)"
    and get_remove: "get (remove i s) j = (if j = i then None else get s j)"
    and valid_insert: "valid s \<Longrightarrow> get s (key r) = None \<Longrightarrow> valid (insert s r)"
    and valid_modify: "(\<And>r. key (f r) = key r) \<Longrightarrow> valid s \<Longrightarrow> valid (modify i f s)"
    and valid_remove: "valid s \<Longrightarrow> valid (remove i s)"
begin

lemma get_insert_fresh:
  "key r = fresh s \<Longrightarrow> get (insert s r) i = (if i = fresh s then Some r else get s i)"
  using get_insert [of s r i] get_fresh [of s] by simp

lemma valid_insert_fresh: "valid s \<Longrightarrow> key r = fresh s \<Longrightarrow> valid (insert s r)"
  using valid_insert [of s r] get_fresh [of s] by simp

lemma insert_keeps: "get s i = Some r' \<Longrightarrow> key r = fresh s \<Longrightarrow> get (insert s r) i = Some r'"
  using get_insert_fresh [of r s i] get_fresh [of s] by auto

lemma modify_twice:
  assumes "\<And>r. key (f r) = key r" and "\<And>r. key (g r) = key r"
  shows "get (modify i g (modify i f s)) j = get (modify i (g \<circ> f) s) j"
  using assms by (simp add: get_modify option.map_comp)

end

text \<open>Every list of rows with a key is a row store.\<close>

interpretation list_store:
  row_store key "table_get key" table_insert "table_modify key" "table_remove key"
    "next_key key" "unique_keys key" for key :: "'r \<Rightarrow> nat"
proof
  fix s :: "'r list" and i r assume "table_get key s i = Some r"
  then show "key r = i" by (auto dest: table_get_SomeD)
next
  fix s :: "'r list" show "table_get key s (next_key key s) = None"
    by (subst table_get_None_iff) (rule next_key_fresh)
qed (auto simp: table_get_insert table_get_modify table_get_remove table_get_None_iff
      unique_insert unique_modify unique_remove)

end
