(* ===== verification/Model.thy ===== *)
theory Model
  imports Tables
begin

text \<open>
  The manager database of \<open>src/app/models.py\<close> as records and lists of rows, the settings of
  \<open>src/app/schemas.py\<close> that the modelled code reads, and file system paths. The columns
  that only record something for display (creation and update times, command previews, the log
  copy and the warning summary of a run) are left out, and a text column that holds JSON is kept
  in its decoded form. Times are integers, in
  microseconds. A JSON column holds \<open>None\<close> when its text does not parse.
\<close>

type_synonym time = int

abbreviation seconds :: "int \<Rightarrow> time" where "seconds n \<equiv> n * 1000000"

section \<open>Paths\<close>

text \<open>An absolute path is the list of its parts below the root.\<close>

type_synonym path = "string list"

definition path_of_string :: "string \<Rightarrow> path" where
  "path_of_string s = filter (\<lambda>p. p \<noteq> [] \<and> p \<noteq> ''.'') (split_on (CHR ''/'') s)"

definition path_string :: "path \<Rightarrow> string" where
  "path_string p = (if p = [] then ''/'' else concat (map (\<lambda>w. CHR ''/'' # w) p))"

text \<open>\<open>q == p or q in p.parents\<close>.\<close>

definition path_within :: "path \<Rightarrow> path \<Rightarrow> bool" where
  "path_within q p = (take (length q) p = q)"

text \<open>\<open>len(path.parts)\<close>: the root counts as a part.\<close>

definition path_depth :: "path \<Rightarrow> nat" where
  "path_depth p = Suc (length p)"

lemma path_within_refl [simp]: "path_within p p"
  by (simp add: path_within_def)

lemma path_within_iff: "path_within q p \<longleftrightarrow> (\<exists>z. p = q @ z)"
  by (auto simp: path_within_def) (metis append_take_drop_id)

lemma path_within_trans: "path_within a b \<Longrightarrow> path_within b c \<Longrightarrow> path_within a c"
  by (auto simp: path_within_iff)

lemma path_within_same_depth:
  assumes "path_within a p" and "path_within b p" and "path_depth a = path_depth b"
  shows "a = b"
proof -
  have "take (length a) p = a" "take (length b) p = b" "length a = length b"
    using assms by (simp_all only: path_within_def path_depth_def)
  then show ?thesis by metis
qed

section \<open>Rows\<close>

record host =
  ho_id :: nat
  ho_name :: string
  ho_address :: string
  ho_port :: int
  ho_username :: string
  ho_enabled :: bool
  ho_host_key :: "string option"
  ho_repository_ready :: bool
  ho_borg_version :: "string option"
  ho_borg_version_status :: "string option"
  ho_borg_checked_at :: "time option"

record repository =
  rp_id :: nat
  rp_name :: string
  rp_enabled :: bool
  rp_location :: string
  rp_passphrase_env :: "string option"
  rp_encryption_mode :: string
  rp_storage_path :: "string option"
  rp_external_public_key :: "string option"
  rp_external_fingerprint :: "string option"
  rp_validation_error :: "string option"
  rp_validation_details :: "string option"
  rp_validated_at :: "time option"
  rp_initialized :: bool
  rp_size_bytes :: "int option"
  rp_original_size_bytes :: "int option"
  rp_compressed_size_bytes :: "int option"
  rp_deduplicated_size_bytes :: "int option"
  rp_size_checked_at :: "time option"
  rp_guard_enabled :: "bool option"
  rp_guard_threshold :: "int option"
  rp_ext_total_bytes :: "int option"
  rp_ext_used_bytes :: "int option"
  rp_ext_free_bytes :: "int option"
  rp_ext_usage_percent :: "rat option"
  rp_ext_path :: "string option"
  rp_ext_checked_at :: "time option"
  rp_ext_error :: "string option"
  rp_extra_env :: "(string \<times> string) list"

record job =
  jb_id :: nat
  jb_name :: string
  jb_host_id :: nat
  jb_repository_id :: nat
  jb_source_paths :: "string list"
  jb_exclude_patterns :: "string list"
  jb_archive_template :: string
  jb_archive_prefix :: "string option"
  jb_archive_prefix_history :: "string list"
  jb_compression :: string
  jb_prune_options :: "(string \<times> json) list option"
  jb_create_options :: "(string \<times> json) list"
  jb_manual_prune :: bool
  jb_manual_compact :: bool
  jb_enabled :: bool
  jb_source_size_bytes :: "int option"
  jb_source_file_count :: "int option"
  jb_source_checked_at :: "time option"
  jb_source_origin :: "string option"
  jb_source_detail :: "(string \<times> json) list"

record schedule =
  sc_id :: nat
  sc_name :: string
  sc_expressions :: string
  sc_target_mode :: string
  sc_target_host_ids :: "nat list"
  sc_target_repository_id :: "nat option"
  sc_target_job_ids :: "nat list"
  sc_parallel_limit :: int
  sc_enabled :: bool

record access =
  ac_id :: nat
  ac_host_id :: nat
  ac_repository_id :: nat
  ac_public_key :: "string option"

text \<open>The six texts the code stores in \<open>Run.status\<close> and the two of \<open>Run.trigger_type\<close>.\<close>

datatype run_status = Queued | Running | Success | Warning | Failed | Stopped

datatype trigger = Manual | Scheduled

record run =
  rn_id :: nat
  rn_job_id :: "nat option"
  rn_job_name :: "string option"
  rn_repository_id :: "nat option"
  rn_action :: string
  rn_status :: run_status
  rn_output :: string
  rn_error :: string
  rn_borg_version :: "string option"
  rn_trigger :: trigger
  rn_schedule_name :: "string option"
  rn_schedule_id :: "nat option"
  rn_schedule_limit :: int
  rn_archive_name :: "string option"
  rn_original_size :: "int option"
  rn_compressed_size :: "int option"
  rn_deduplicated_size :: "int option"
  rn_file_count :: "int option"
  rn_source_size :: "int option"
  rn_source_files :: "int option"
  rn_network_download :: "int option"
  rn_network_upload :: "int option"
  rn_restore_total_size :: "int option"
  rn_restore_processed_size :: "int option"
  rn_restore_total_files :: "int option"
  rn_restore_processed_files :: "int option"
  rn_started_at :: "time option"
  rn_finished_at :: "time option"

text \<open>A queued manual run with the column defaults.\<close>

definition blank_run :: run where
  "blank_run =
     \<lparr>rn_id = 0, rn_job_id = None, rn_job_name = None, rn_repository_id = None,
      rn_action = [], rn_status = Queued, rn_output = [], rn_error = [],
      rn_borg_version = None, rn_trigger = Manual,
      rn_schedule_name = None, rn_schedule_id = None, rn_schedule_limit = 0,
      rn_archive_name = None, rn_original_size = None, rn_compressed_size = None,
      rn_deduplicated_size = None, rn_file_count = None, rn_source_size = None,
      rn_source_files = None, rn_network_download = None, rn_network_upload = None,
      rn_restore_total_size = None, rn_restore_processed_size = None,
      rn_restore_total_files = None, rn_restore_processed_files = None,
      rn_started_at = None, rn_finished_at = None\<rparr>"

record archive_mount =
  am_id :: nat
  am_repository_id :: nat
  am_archive :: string
  am_mount_path :: string
  am_status :: string
  am_error :: string

section \<open>The database\<close>

record manager_db =
  db_hosts :: "host list"
  db_repositories :: "repository list"
  db_jobs :: "job list"
  db_schedules :: "schedule list"
  db_access :: "access list"
  db_runs :: "run list"
  db_mounts :: "archive_mount list"

abbreviation get_host where "get_host db \<equiv> table_get ho_id (db_hosts db)"
abbreviation get_repository where "get_repository db \<equiv> table_get rp_id (db_repositories db)"
abbreviation get_job where "get_job db \<equiv> table_get jb_id (db_jobs db)"
abbreviation get_schedule where "get_schedule db \<equiv> table_get sc_id (db_schedules db)"
abbreviation get_run where "get_run db \<equiv> table_get rn_id (db_runs db)"

text \<open>\<open>row.repository\<close> of a run: the row its foreign key names.\<close>

definition run_repository :: "manager_db \<Rightarrow> run \<Rightarrow> repository option" where
  "run_repository db r =
     (case rn_repository_id r of None \<Rightarrow> None | Some i \<Rightarrow> get_repository db i)"

definition insert_run :: "run \<Rightarrow> manager_db \<Rightarrow> manager_db" where
  "insert_run r db = db\<lparr>db_runs := table_insert (db_runs db) r\<rparr>"

definition modify_run :: "nat \<Rightarrow> (run \<Rightarrow> run) \<Rightarrow> manager_db \<Rightarrow> manager_db" where
  "modify_run i f db = db\<lparr>db_runs := table_modify rn_id i f (db_runs db)\<rparr>"

definition remove_run :: "nat \<Rightarrow> manager_db \<Rightarrow> manager_db" where
  "remove_run i db = db\<lparr>db_runs := table_remove rn_id i (db_runs db)\<rparr>"

definition modify_repository :: "nat \<Rightarrow> (repository \<Rightarrow> repository) \<Rightarrow> manager_db \<Rightarrow> manager_db" where
  "modify_repository i f db = db\<lparr>db_repositories := table_modify rp_id i f (db_repositories db)\<rparr>"

definition modify_host :: "nat \<Rightarrow> (host \<Rightarrow> host) \<Rightarrow> manager_db \<Rightarrow> manager_db" where
  "modify_host i f db = db\<lparr>db_hosts := table_modify ho_id i f (db_hosts db)\<rparr>"

definition modify_job :: "nat \<Rightarrow> (job \<Rightarrow> job) \<Rightarrow> manager_db \<Rightarrow> manager_db" where
  "modify_job i f db = db\<lparr>db_jobs := table_modify jb_id i f (db_jobs db)\<rparr>"

definition next_run_id :: "manager_db \<Rightarrow> nat" where
  "next_run_id db = next_key rn_id (db_runs db)"

definition valid_runs :: "manager_db \<Rightarrow> bool" where
  "valid_runs db = unique_keys rn_id (db_runs db)"

text \<open>\<open>Run.status.in_(["queued", "running"])\<close>.\<close>

definition unfinished :: "run \<Rightarrow> bool" where
  "unfinished r = (rn_status r = Queued \<or> rn_status r = Running)"

interpretation run_store:
  row_store rn_id "\<lambda>db. get_run db" "\<lambda>db r. insert_run r db" modify_run remove_run
    next_run_id valid_runs
proof
  fix s :: manager_db and i r assume "get_run s i = Some r"
  then show "rn_id r = i" by (auto dest: table_get_SomeD)
next
  fix s :: manager_db show "get_run s (next_run_id s) = None"
    unfolding next_run_id_def by (rule list_store.get_fresh)
next
  fix s i and f :: "run \<Rightarrow> run"
  assume "\<And>r. rn_id (f r) = rn_id r" and "valid_runs s"
  then show "valid_runs (modify_run i f s)"
    by (simp add: modify_run_def valid_runs_def unique_modify)
qed (auto simp: insert_run_def modify_run_def remove_run_def valid_runs_def
      table_get_insert table_get_modify table_get_remove table_get_None_iff
      unique_insert unique_remove)

lemma get_run_modify_repository [simp]: "get_run (modify_repository i f db) j = get_run db j"
  by (simp add: modify_repository_def)

section \<open>Errors\<close>

text \<open>
  The exceptions of the functions that queue, cancel and repeat runs, one constructor per
  \<open>raise\<close>: a \<open>LookupError\<close> for a row that does not exist and a \<open>ValueError\<close> with its message
  otherwise. \<open>Command_error\<close> is an exception of the command builders.
\<close>

datatype queue_error =
    Job_missing | Run_missing | Repository_missing
  | Repository_disabled | Repository_uninitialized | Repository_unavailable | Repository_in_use
  | Job_in_use | Access_missing | Guard_unreadable string | Guard_tripped string rat int string
  | Retention_missing | Unsupported_action string | Chain_token_missing
  | Not_cancellable | Task_inactive | Not_repeatable | Command_error string

section \<open>Settings\<close>

record settings =
  st_max_parallel_runs :: int
  st_source_stats_limit :: int
  st_mount_limits :: "(string \<times> int) list"
  st_external_limits :: "(string \<times> int) list"
  st_size_after_run :: bool
  st_compact_after_prune :: bool
  st_guard_enabled :: bool
  st_guard_threshold :: int

section \<open>Example rows\<close>

text \<open>Concrete rows for the witnesses of the other theories.\<close>

definition sample_repository :: repository where
  "sample_repository =
     \<lparr>rp_id = 1, rp_name = ''main'', rp_enabled = True, rp_location = ''/repositories/main'',
      rp_passphrase_env = None,
      rp_encryption_mode = ''repokey-blake2'', rp_storage_path = Some ''/repositories/main'',
      rp_external_public_key = None, rp_external_fingerprint = None,
      rp_validation_error = None, rp_validation_details = None, rp_validated_at = None,
      rp_initialized = True, rp_size_bytes = None, rp_original_size_bytes = None,
      rp_compressed_size_bytes = None, rp_deduplicated_size_bytes = None,
      rp_size_checked_at = None, rp_guard_enabled = None, rp_guard_threshold = None,
      rp_ext_total_bytes = None, rp_ext_used_bytes = None, rp_ext_free_bytes = None,
      rp_ext_usage_percent = None, rp_ext_path = None, rp_ext_checked_at = None,
      rp_ext_error = None, rp_extra_env = []\<rparr>"

definition sample_job :: job where
  "sample_job =
     \<lparr>jb_id = 1, jb_name = ''web'', jb_host_id = 1, jb_repository_id = 1,
      jb_source_paths = [''/srv''], jb_exclude_patterns = [],
      jb_archive_template = ''{hostname}-{now}'', jb_archive_prefix = None,
      jb_archive_prefix_history = [], jb_compression = ''zstd,6'',
      jb_prune_options = Some [(''daily'', JInt 7)], jb_create_options = [], jb_manual_prune = True,
      jb_manual_compact = True, jb_enabled = True, jb_source_size_bytes = None,
      jb_source_file_count = None, jb_source_checked_at = None, jb_source_origin = None, jb_source_detail = []\<rparr>"

definition sample_run :: run where
  "sample_run = blank_run\<lparr>rn_id := 1, rn_job_id := Some 1, rn_repository_id := Some 1, rn_action := ''backup''\<rparr>"

definition sample_settings :: settings where
  "sample_settings =
     \<lparr>st_max_parallel_runs = 0, st_source_stats_limit = 1, st_mount_limits = [],
      st_external_limits = [], st_size_after_run = True, st_compact_after_prune = True,
      st_guard_enabled = True, st_guard_threshold = 95\<rparr>"

definition sample_db :: manager_db where
  "sample_db = \<lparr>db_hosts = [], db_repositories = [sample_repository], db_jobs = [sample_job],
     db_schedules = [], db_access = [], db_runs = [], db_mounts = []\<rparr>"

end
