(* ===== verification/StorageGuard.thy ===== *)
theory StorageGuard
  imports Model "HOL-Library.Product_Lexorder"
begin

text \<open>
  Mount points, disk usage and the storage guard of \<open>src/app/storage_guard.py\<close>. What the
  operating system reports is an argument: the size of a file system, the text of
  \<open>/proc/self/mountinfo\<close>, the directory entries of the repository root and the resolution of
  a path (\<open>None\<close> where the call raises \<open>OSError\<close>).
\<close>

section \<open>The guard\<close>

definition effective_storage_guard :: "repository \<Rightarrow> settings \<Rightarrow> bool \<times> int \<times> string" where
  "effective_storage_guard r st =
     (let managed = truthy (rp_storage_path r);
          enabled = (case rp_guard_enabled r of
             None \<Rightarrow> managed \<and> st_guard_enabled st
           | Some b \<Rightarrow> b);
          source = (case rp_guard_enabled r of
             None \<Rightarrow> if managed then ''global'' else ''external-default''
           | Some b \<Rightarrow> ''repository'');
          threshold = (case rp_guard_threshold r of
             None \<Rightarrow> st_guard_threshold st
           | Some t \<Rightarrow> if t = 0 then st_guard_threshold st else t);
          source = (if rp_guard_threshold r \<noteq> None then ''repository'' else source)
      in (enabled, max 1 (min 100 threshold), source))"

text \<open>\<open>shutil.disk_usage\<close> and the summary the code derives from it.\<close>

record disk_usage =
  du_total :: int
  du_used :: int
  du_free :: int

record usage =
  us_total :: int
  us_used :: int
  us_free :: int
  us_percent :: rat

definition storage_usage :: "disk_usage \<Rightarrow> usage" where
  "storage_usage d =
     (let percent = (if du_total d \<noteq> 0 then of_int (du_used d) * 100 / of_int (du_total d) else 100)
      in \<lparr>us_total = du_total d, us_used = du_used d, us_free = du_free d,
          us_percent = round_tenth percent\<rparr>)"

record storage_status =
  ss_usage :: usage
  ss_path :: string
  ss_enabled :: bool
  ss_threshold :: int
  ss_source :: string
  ss_blocked :: bool

definition guard_blocks :: "bool \<Rightarrow> rat \<Rightarrow> int \<Rightarrow> bool" where
  "guard_blocks enabled percent threshold = (enabled \<and> of_int threshold \<le> percent)"

text \<open>
  \<open>repository_storage_status\<close>: no status for a repository without a managed path, and the
  \<open>OSError\<close> of the disk query as \<open>Inl\<close>.
\<close>

definition repository_storage_status ::
    "(string \<Rightarrow> disk_usage option) \<Rightarrow> repository \<Rightarrow> settings \<Rightarrow> (string, storage_status option) result" where
  "repository_storage_status disk r st =
     (case rp_storage_path r of
        None \<Rightarrow> Inr None
      | Some p \<Rightarrow>
          if p = [] then Inr None
          else (case effective_storage_guard r st of (enabled, threshold, source) \<Rightarrow>
            (case disk p of
               None \<Rightarrow> Inl p
             | Some d \<Rightarrow> (let u = storage_usage d in
                 Inr (Some \<lparr>ss_usage = u, ss_path = path_string (path_of_string p), ss_enabled = enabled,
                      ss_threshold = threshold, ss_source = source,
                      ss_blocked = guard_blocks enabled (us_percent u) threshold\<rparr>)))))"

section \<open>Mount points\<close>

definition octal_digit :: "char \<Rightarrow> bool" where
  "octal_digit c = (is_digit c \<and> digit_value c < 8)"

text \<open>\<open>_decode_mount_path\<close>: a backslash and three octal digits stand for one character.\<close>

fun decode_mount_path :: "string \<Rightarrow> string" where
  "decode_mount_path (c # x # y # z # s) =
     (if c = CHR 0x5C \<and> octal_digit x \<and> octal_digit y \<and> octal_digit z
      then char_of (64 * digit_value x + 8 * digit_value y + digit_value z) # decode_mount_path s
      else c # decode_mount_path (x # y # z # s))"
| "decode_mount_path s = s"

text \<open>A child of the repository root; \<open>None\<close> where its \<open>stat\<close> or \<open>resolve\<close> raises.\<close>

record dir_child =
  ch_is_dir :: bool
  ch_is_mount :: bool
  ch_device :: "int option"
  ch_resolved :: "path option"

definition mountinfo_path :: "(string \<Rightarrow> path option) \<Rightarrow> string \<Rightarrow> path option" where
  "mountinfo_path resolve line =
     (let fields = split_ws (before_first '' - '' line) in
      if length fields < 5 then None else resolve (decode_mount_path (fields ! 4)))"

definition child_mount :: "int \<Rightarrow> dir_child \<Rightarrow> path option" where
  "child_mount root_device ch =
     (if \<not> ch_is_dir ch then None
      else if ch_is_mount ch then ch_resolved ch
      else (case ch_device ch of
              None \<Rightarrow> None
            | Some d \<Rightarrow> if d \<noteq> root_device then ch_resolved ch else None))"

text \<open>
  \<open>mounted_filesystems_below\<close>: the root, the mount points below it in \<open>mountinfo\<close> (its lines,
  none when it cannot be read) and the children on another device (\<open>None\<close> when the root
  itself cannot be listed).
\<close>

definition mounted_filesystems_below ::
    "path \<Rightarrow> string list \<Rightarrow> (string \<Rightarrow> path option) \<Rightarrow> (int \<times> dir_child list) option \<Rightarrow> path list" where
  "mounted_filesystems_below base lines resolve listing =
     (let listed = filter (path_within base) (List.map_filter (mountinfo_path resolve) lines);
          children = (case listing of
             None \<Rightarrow> []
           | Some (dev, chs) \<Rightarrow> List.map_filter (child_mount dev) chs)
      in sort_key (\<lambda>p. (path_depth p, path_string p)) (remdups (base # listed @ children)))"

text \<open>\<open>_matching_mount\<close>: \<open>max\<close> keeps the first of several candidates of the same depth.\<close>

fun deeper_mount :: "path option \<Rightarrow> path \<Rightarrow> path option" where
  "deeper_mount None m = Some m"
| "deeper_mount (Some b) m = (if path_depth b < path_depth m then Some m else Some b)"

definition matching_mount :: "path \<Rightarrow> path list \<Rightarrow> path option" where
  "matching_mount p mounts = foldl deeper_mount None (filter (\<lambda>m. path_within m p) mounts)"

text \<open>\<open>repository_mount_path\<close>; an unresolvable path is taken as written.\<close>

definition resolved_path :: "(string \<Rightarrow> path option) \<Rightarrow> string \<Rightarrow> path" where
  "resolved_path resolve p = (case resolve p of None \<Rightarrow> path_of_string p | Some q \<Rightarrow> q)"

definition repository_mount_path ::
    "(string \<Rightarrow> path option) \<Rightarrow> string option \<Rightarrow> path list \<Rightarrow> path option" where
  "repository_mount_path resolve storage_path mounts =
     (if truthy storage_path
      then matching_mount (resolved_path resolve (or_empty storage_path)) mounts
      else None)"

subsection \<open>The match is the most specific mount\<close>

lemma foldl_deeper_Some: "\<exists>m. foldl deeper_mount (Some b) ms = Some m"
  by (induction ms arbitrary: b) auto

lemma foldl_deeper_spec:
  "foldl deeper_mount (Some b) ms = Some m \<Longrightarrow>
   m \<in> insert b (set ms) \<and> (\<forall>m' \<in> insert b (set ms). path_depth m' \<le> path_depth m)"
proof (induction ms arbitrary: b)
  case (Cons a ms)
  show ?case
  proof (cases "path_depth b < path_depth a")
    case True
    with Cons.prems have "foldl deeper_mount (Some a) ms = Some m" by simp
    from Cons.IH [OF this] True show ?thesis by auto
  next
    case False
    with Cons.prems have "foldl deeper_mount (Some b) ms = Some m" by simp
    from Cons.IH [OF this] False show ?thesis by auto
  qed
qed simp

lemma matching_mount_None_iff:
  "matching_mount p ms = None \<longleftrightarrow> (\<forall>m \<in> set ms. \<not> path_within m p)"
proof (cases "filter (\<lambda>m. path_within m p) ms")
  case Nil
  then show ?thesis by (auto simp: matching_mount_def filter_empty_conv)
next
  case (Cons a cs)
  moreover have "a \<in> set ms \<and> path_within a p" using Cons by (metis filter_eq_ConsD in_set_conv_decomp)
  ultimately show ?thesis using foldl_deeper_Some [of a cs] by (auto simp: matching_mount_def)
qed

lemma matching_mount_SomeD:
  assumes "matching_mount p ms = Some m"
  shows "m \<in> set ms \<and> path_within m p \<and>
         (\<forall>m' \<in> set ms. path_within m' p \<longrightarrow> path_depth m' \<le> path_depth m)"
proof (cases "filter (\<lambda>m. path_within m p) ms")
  case Nil
  with assms show ?thesis by (simp add: matching_mount_def)
next
  case (Cons a cs)
  with assms have "foldl deeper_mount (Some a) cs = Some m" by (simp add: matching_mount_def)
  from foldl_deeper_spec [OF this]
  have m: "m \<in> set (filter (\<lambda>m. path_within m p) ms)"
    and d: "\<forall>m' \<in> set (filter (\<lambda>m. path_within m p) ms). path_depth m' \<le> path_depth m"
    by (simp_all add: Cons)
  from m d show ?thesis by simp
qed

lemma matching_mount_unique:
  assumes "m \<in> set ms" and "path_within m p"
    and "\<And>m'. m' \<in> set ms \<Longrightarrow> path_within m' p \<Longrightarrow> path_depth m' \<le> path_depth m"
  shows "matching_mount p ms = Some m"
proof -
  obtain n where n: "matching_mount p ms = Some n"
    using assms(1,2) matching_mount_None_iff [of p ms] by auto
  from matching_mount_SomeD [OF n] assms have "path_depth n = path_depth m" "path_within n p"
    by (auto intro: antisym)
  with assms(2) have "n = m" by (metis path_within_same_depth)
  with n show ?thesis by simp
qed

section \<open>All repository file systems\<close>

record repository_entry =
  re_id :: nat
  re_name :: string
  re_path :: string
  re_enabled :: bool
  re_threshold :: int
  re_source :: string
  re_blocked :: bool

text \<open>
  A row of the overview. The guard columns of the row itself are only set for a mount without
  repositories.
\<close>

record fs_row =
  fr_path :: string
  fr_usage :: usage
  fr_repositories :: "repository_entry list"
  fr_blocked :: bool
  fr_limit :: int
  fr_guard :: "(bool \<times> int \<times> string) option"

definition new_fs_row :: "settings \<Rightarrow> path \<Rightarrow> usage \<Rightarrow> fs_row" where
  "new_fs_row st p u =
     \<lparr>fr_path = path_string p, fr_usage = u, fr_repositories = [], fr_blocked = False,
      fr_limit = (case map_of (st_mount_limits st) (path_string p) of None \<Rightarrow> 0 | Some n \<Rightarrow> n),
      fr_guard = None\<rparr>"

type_synonym fs_rows = "(path \<times> fs_row) list"

definition initial_fs_rows :: "(path \<Rightarrow> disk_usage option) \<Rightarrow> settings \<Rightarrow> path list \<Rightarrow> fs_rows" where
  "initial_fs_rows disk st mounts =
     List.map_filter (\<lambda>m. case disk m of None \<Rightarrow> None
        | Some d \<Rightarrow> Some (m, new_fs_row st m (storage_usage d))) mounts"

definition add_entry :: "settings \<Rightarrow> repository \<Rightarrow> string \<Rightarrow> fs_row \<Rightarrow> fs_row" where
  "add_entry st r p row =
     (case effective_storage_guard r st of (enabled, threshold, source) \<Rightarrow>
       (let blocked = guard_blocks enabled (us_percent (fr_usage row)) threshold in
        row\<lparr>fr_repositories := fr_repositories row @
              [\<lparr>re_id = rp_id r, re_name = rp_name r, re_path = p, re_enabled = enabled,
                re_threshold = threshold, re_source = source, re_blocked = blocked\<rparr>],
            fr_blocked := fr_blocked row \<or> blocked\<rparr>))"

definition add_repository ::
    "(string \<Rightarrow> path option) \<Rightarrow> (path \<Rightarrow> disk_usage option) \<Rightarrow> settings \<Rightarrow> fs_rows \<Rightarrow> repository \<Rightarrow> fs_rows" where
  "add_repository resolve disk st rows r =
     (if \<not> rp_enabled r then rows
      else case rp_storage_path r of
        None \<Rightarrow> rows
      | Some p \<Rightarrow>
          if p = [] then rows
          else (let q = resolved_path resolve p in
            case matching_mount q (map fst rows) of
              Some m \<Rightarrow> map (\<lambda>(k, row). (k, if k = m then add_entry st r p row else row)) rows
            | None \<Rightarrow>
                (case disk q of
                   None \<Rightarrow> rows
                 | Some d \<Rightarrow>
                     dict_set q (add_entry st r p (new_fs_row st q (storage_usage d))) rows)))"

definition finish_row :: "settings \<Rightarrow> fs_row \<Rightarrow> fs_row" where
  "finish_row st row =
     (if fr_repositories row = [] then
        row\<lparr>fr_guard := Some (st_guard_enabled st, st_guard_threshold st, ''global''),
            fr_blocked := guard_blocks (st_guard_enabled st) (us_percent (fr_usage row))
                            (st_guard_threshold st)\<rparr>
      else row)"

definition repository_storage_filesystems ::
    "(string \<Rightarrow> path option) \<Rightarrow> (path \<Rightarrow> disk_usage option) \<Rightarrow> settings \<Rightarrow> path list \<Rightarrow>
     repository list \<Rightarrow> fs_row list" where
  "repository_storage_filesystems resolve disk st mounts repositories =
     sort_key fr_path (map (\<lambda>(p, row). finish_row st row)
       (foldl (add_repository resolve disk st) (initial_fs_rows disk st mounts) repositories))"

text \<open>While rows are filled, a row is blocked exactly when one of its repositories is.\<close>

definition row_ok :: "fs_row \<Rightarrow> bool" where
  "row_ok row \<longleftrightarrow> (fr_blocked row \<longleftrightarrow> (\<exists>e \<in> set (fr_repositories row). re_blocked e)) \<and>
     (\<forall>e \<in> set (fr_repositories row).
        re_blocked e \<longleftrightarrow> guard_blocks (re_enabled e) (us_percent (fr_usage row)) (re_threshold e))"

lemma row_ok_new: "row_ok (new_fs_row st p u)"
  by (simp add: row_ok_def new_fs_row_def)

lemma row_ok_add: "row_ok row \<Longrightarrow> row_ok (add_entry st r p row)"
  by (auto simp: row_ok_def add_entry_def Let_def split: prod.splits)

lemma add_repository_ok:
  assumes "\<forall>x \<in> set rows. row_ok (snd x)"
  shows "\<forall>x \<in> set (add_repository resolve disk st rows r). row_ok (snd x)"
proof -
  have set_ok: "row_ok v \<Longrightarrow> \<forall>x \<in> set d. row_ok (snd x) \<Longrightarrow> \<forall>x \<in> set (dict_set k v d). row_ok (snd x)"
    for k v and d :: fs_rows
    by (induction k v d rule: dict_set.induct) auto
  show ?thesis
    using assms set_ok [OF row_ok_add [OF row_ok_new] assms]
    by (auto simp: add_repository_def Let_def row_ok_add split: option.splits if_splits)
qed

lemma foldl_add_repository_ok:
  "\<forall>x \<in> set rows. row_ok (snd x) \<Longrightarrow>
   \<forall>x \<in> set (foldl (add_repository resolve disk st) rows rs). row_ok (snd x)"
  by (induction rs arbitrary: rows) (auto dest: add_repository_ok)

lemma initial_rows_ok: "\<forall>x \<in> set (initial_fs_rows disk st mounts). row_ok (snd x)"
  by (auto simp: initial_fs_rows_def List.map_filter_def row_ok_new split: option.splits)

section \<open>Properties\<close>

text \<open>
  whatever is configured, the effective threshold is a percentage between 1 and 100, and an
  external repository is only ever guarded after an explicit choice for that repository.
\<close>

theorem effective_guard_sound:
  assumes "effective_storage_guard r st = (enabled, threshold, source)"
  shows "1 \<le> threshold \<and> threshold \<le> 100 \<and>
    (enabled \<and> \<not> truthy (rp_storage_path r) \<longrightarrow> rp_guard_enabled r = Some True \<and> source = ''repository'')"
  using assms by (auto simp: effective_storage_guard_def Let_def split: option.splits if_splits)

theorem effective_guard_sound_witness:
  "effective_storage_guard (sample_repository\<lparr>rp_storage_path := None, rp_guard_threshold := Some 250\<rparr>)
     sample_settings = (False, 100, ''repository'') \<and> (1::int) \<le> 100"
  using effective_guard_sound
    [of "sample_repository\<lparr>rp_storage_path := None, rp_guard_threshold := Some 250\<rparr>" sample_settings]
  by (simp add: effective_storage_guard_def sample_repository_def)

text \<open>
  the file system a repository is attributed to is a visible mount that contains it, and no
  visible mount that contains it is deeper; without such a mount there is none.
\<close>

theorem matching_mount_most_specific:
  "matching_mount p ms = Some m \<longleftrightarrow>
     m \<in> set ms \<and> path_within m p \<and>
     (\<forall>m'. m' \<in> set ms \<and> path_within m' p \<longrightarrow> path_depth m' \<le> path_depth m)"
  using matching_mount_SomeD [of p ms m] matching_mount_unique [of m ms p] by blast

theorem matching_mount_most_specific_witness:
  "matching_mount [''repositories'', ''nas'', ''a''] [[''repositories''], [''repositories'', ''nas'']]
     = Some [''repositories'', ''nas'']"
  by (subst matching_mount_most_specific) (auto simp: path_within_def path_depth_def)

text \<open>
  in the overview of repository file systems a row with repositories is blocked exactly
  when the guard of one of them trips at the usage of that file system, and a row without
  repositories exactly when the global guard does.
\<close>

theorem filesystem_rows_blocked:
  assumes "row \<in> set (repository_storage_filesystems resolve disk st mounts rs)"
  shows "fr_blocked row \<longleftrightarrow>
    (if fr_repositories row = []
     then guard_blocks (st_guard_enabled st) (us_percent (fr_usage row)) (st_guard_threshold st)
     else (\<exists>e \<in> set (fr_repositories row).
             guard_blocks (re_enabled e) (us_percent (fr_usage row)) (re_threshold e)))"
proof -
  obtain p r where pr: "(p, r) \<in> set (foldl (add_repository resolve disk st)
        (initial_fs_rows disk st mounts) rs)" and row: "row = finish_row st r"
    using assms by (auto simp: repository_storage_filesystems_def)
  from pr have "row_ok r"
    using bspec [OF foldl_add_repository_ok [OF initial_rows_ok] pr] by simp
  then show ?thesis by (auto simp: row finish_row_def row_ok_def)
qed

definition sample_disk :: "path \<Rightarrow> disk_usage option" where
  "sample_disk p = Some \<lparr>du_total = 100, du_used = 96, du_free = 4\<rparr>"

definition sample_fs_rows :: "fs_row list" where
  "sample_fs_rows = repository_storage_filesystems (\<lambda>p. Some (path_of_string p)) sample_disk
     sample_settings [[''repositories'']] [sample_repository]"

lemma sample_fs_rows_eq:
  "sample_fs_rows = [add_entry sample_settings sample_repository ''/repositories/main''
     (new_fs_row sample_settings [''repositories''] (storage_usage \<lparr>du_total = 100, du_used = 96, du_free = 4\<rparr>))]"
  by code_simp

theorem filesystem_rows_blocked_witness: "fr_blocked (hd sample_fs_rows)"
proof -
  have "hd sample_fs_rows \<in> set (repository_storage_filesystems (\<lambda>p. Some (path_of_string p))
      sample_disk sample_settings [[''repositories'']] [sample_repository])"
    using sample_fs_rows_eq by (simp add: sample_fs_rows_def)
  from filesystem_rows_blocked [OF this] show ?thesis
    by (simp add: sample_fs_rows_eq) (simp add: add_entry_def new_fs_row_def guard_blocks_def
        effective_storage_guard_def sample_repository_def sample_settings_def storage_usage_def
        round_tenth_def round_half_even_def)
qed

end
