(* ===== verification/ArchiveMounts.thy ===== *)
theory ArchiveMounts
  imports Model
begin

text \<open>
  Archive mounts: \<open>src/app/archive_mounts.py\<close>. The lines of \<open>/proc/self/mountinfo\<close>,
  \<open>/etc/fuse.conf\<close> and \<open>/proc/self/status\<close> are arguments (no lines when the file cannot be
  read), as are the answers of the file system. \<open>fold_ascii\<close> stands for the NFKD
  normalisation of \<open>unicodedata\<close> followed by dropping what is not ASCII, \<open>sha256\<close> for the hex
  digest; nothing is assumed of either.
\<close>

section \<open>The mount table\<close>

definition mountinfo_unescape :: "string \<Rightarrow> string" where
  "mountinfo_unescape s =
     py_replace [CHR 0x5C, CHR ''1'', CHR ''3'', CHR ''4''] [CHR 0x5C]
       (py_replace [CHR 0x5C, CHR ''0'', CHR ''1'', CHR ''2''] [CHR 0x0A]
         (py_replace [CHR 0x5C, CHR ''0'', CHR ''1'', CHR ''1''] [CHR 0x09]
           (py_replace [CHR 0x5C, CHR ''0'', CHR ''4'', CHR ''0''] '' '' s)))"

record mountinfo_row =
  mi_path :: path
  mi_optional :: "string list"
  mi_filesystem :: string
  mi_source :: string

definition parse_mountinfo_line :: "string \<Rightarrow> mountinfo_row option" where
  "parse_mountinfo_line line =
     (if \<not> contains '' - '' line then None
      else (let pre = before_first '' - '' line;
                fields = split_ws pre;
                tail = split_ws (drop (length pre + 3) line)
            in if length fields < 6 \<or> length tail < 3 then None
               else Some \<lparr>mi_path = path_of_string (mountinfo_unescape (fields ! 4)),
                          mi_optional = drop 6 fields, mi_filesystem = tail ! 0,
                          mi_source = tail ! 1\<rparr>))"

definition mountinfo_rows :: "string list \<Rightarrow> mountinfo_row list" where
  "mountinfo_rows lines = List.map_filter parse_mountinfo_line lines"

text \<open>The first row of the path decides.\<close>

definition archive_mount_is_active :: "string list \<Rightarrow> string \<Rightarrow> bool" where
  "archive_mount_is_active lines p =
     (case find (\<lambda>row. mi_path row = path_of_string p) (mountinfo_rows lines) of
        None \<Rightarrow> False
      | Some row \<Rightarrow> starts_with ''fuse'' (mi_filesystem row))"

section \<open>Capability\<close>

definition fuse_user_allow_other_enabled :: "string list \<Rightarrow> bool" where
  "fuse_user_allow_other_enabled lines =
     list_ex (\<lambda>line. py_strip (takeWhile (\<lambda>c. c \<noteq> CHR ''#'') line) = ''user_allow_other'') lines"

text \<open>\<open>int(text, 16)\<close> on hex digits, the only notation the kernel writes.\<close>

definition parse_hex :: "string \<Rightarrow> nat option" where
  "parse_hex s =
     (if s \<noteq> [] \<and> list_all is_hex s then Some (fold (\<lambda>c n. 16 * n + hex_value c) s 0) else None)"

text \<open>Bit 21 of the effective capabilities; the first \<open>CapEff:\<close> line decides.\<close>

definition cap_eff_has_sys_admin :: "string list \<Rightarrow> bool" where
  "cap_eff_has_sys_admin lines =
     (case find (starts_with ''CapEff:'') lines of
        None \<Rightarrow> False
      | Some line \<Rightarrow>
          (case parse_hex (py_strip (drop 7 line)) of None \<Rightarrow> False | Some v \<Rightarrow> odd (v div 2 ^ 21)))"

fun first_deepest :: "mountinfo_row option \<Rightarrow> mountinfo_row \<Rightarrow> mountinfo_row option" where
  "first_deepest None r = Some r"
| "first_deepest (Some b) r =
     (if path_depth (mi_path b) < path_depth (mi_path r) then Some r else Some b)"

definition mount_root_propagation :: "path \<Rightarrow> string list \<Rightarrow> string" where
  "mount_root_propagation base lines =
     (case foldl first_deepest None (filter (\<lambda>r. path_within (mi_path r) base) (mountinfo_rows lines)) of
        None \<Rightarrow> ''unknown''
      | Some r \<Rightarrow>
          if list_ex (starts_with ''shared:'') (mi_optional r) then ''shared''
          else if list_ex (starts_with ''master:'') (mi_optional r) then ''slave''
          else ''private'')"

record mount_facts =
  mf_enabled :: bool
  mf_absolute :: bool
  mf_exists :: bool
  mf_symlink :: bool
  mf_accessible :: bool
  mf_fuse_device :: bool
  mf_fusermount :: bool
  mf_mountinfo :: "string list"
  mf_status :: "string list"
  mf_fuse_conf :: "string list"
  mf_root :: path

datatype mount_issue =
    Mounts_disabled | Root_relative | Root_missing | Root_symlink | Root_not_writable
  | No_fuse_device | No_fusermount | No_sys_admin | No_allow_other | Not_shared

definition capability_issues :: "mount_facts \<Rightarrow> mount_issue list" where
  "capability_issues f =
     (if mf_enabled f then [] else [Mounts_disabled]) @
     (if mf_absolute f then [] else [Root_relative]) @
     (if \<not> mf_exists f then [Root_missing]
      else if mf_symlink f then [Root_symlink]
      else if \<not> mf_accessible f then [Root_not_writable] else []) @
     (if mf_fuse_device f then [] else [No_fuse_device]) @
     (if mf_fusermount f then [] else [No_fusermount]) @
     (if cap_eff_has_sys_admin (mf_status f) then [] else [No_sys_admin]) @
     (if fuse_user_allow_other_enabled (mf_fuse_conf f) then [] else [No_allow_other]) @
     (if mf_exists f \<and> mount_root_propagation (mf_root f) (mf_mountinfo f) = ''shared''
      then [] else [Not_shared])"

definition require_archive_mount_capability :: "mount_facts \<Rightarrow> (mount_issue list, unit) result" where
  "require_archive_mount_capability f =
     (if capability_issues f = [] then Inr () else Inl (capability_issues f))"

section \<open>Mount paths\<close>

definition slug_char :: "char \<Rightarrow> bool" where
  "slug_char c = (is_alnum c \<or> c \<in> {CHR ''.'', CHR ''_'', CHR ''-''})"

definition slug_edge :: "char \<Rightarrow> bool" where
  "slug_edge c = (c \<in> {CHR ''.'', CHR ''-'', CHR ''_''})"

text \<open>\<open>re.sub("[^A-Za-z0-9._-]+", "-", s)\<close>: a run of other characters becomes one dash.\<close>

fun dash_runs :: "bool \<Rightarrow> string \<Rightarrow> string" where
  "dash_runs inside [] = []"
| "dash_runs inside (c # s) =
     (if slug_char c then c # dash_runs False s
      else if inside then dash_runs True s else CHR ''-'' # dash_runs True s)"

definition slug :: "(string \<Rightarrow> string) \<Rightarrow> string \<Rightarrow> nat \<Rightarrow> string \<Rightarrow> string" where
  "slug fold_ascii fallback max_length s =
     (let t = rstrip_by slug_edge (take max_length
                (strip_by slug_edge (dash_runs False (fold_ascii s)))) in
      if t = [] then fallback else t)"

datatype mount_path_error = Unsaved_repository | Invalid_archive | Relative_root | Invalid_path

definition valid_mount_archive :: "string \<Rightarrow> bool" where
  "valid_mount_archive a =
     (a \<noteq> [] \<and> \<not> starts_with ''-'' a \<and> \<not> contains ''::'' a \<and>
      \<not> list_ex (\<lambda>c. char_code c \<in> {0, 10, 13, 47}) a)"

definition repository_component :: "(string \<Rightarrow> string) \<Rightarrow> int \<Rightarrow> string \<Rightarrow> string" where
  "repository_component fold_ascii i name =
     slug fold_ascii ''repository'' 64 name @ ''-r'' @ str_nat (nat i)"

definition archive_component :: "(string \<Rightarrow> string) \<Rightarrow> (string \<Rightarrow> string) \<Rightarrow> string \<Rightarrow> string" where
  "archive_component fold_ascii sha256 a =
     slug fold_ascii ''archive'' 80 a @ ''-'' @ take 12 (sha256 a)"

definition archive_mount_path ::
    "(string \<Rightarrow> string) \<Rightarrow> (string \<Rightarrow> string) \<Rightarrow> path option \<Rightarrow> int \<Rightarrow> string \<Rightarrow> string \<Rightarrow>
     (mount_path_error, path) result" where
  "archive_mount_path fold_ascii sha256 base i name a =
     (if i \<le> 0 then Inl Unsaved_repository
      else if \<not> valid_mount_archive a then Inl Invalid_archive
      else case base of
        None \<Rightarrow> Inl Relative_root
      | Some b \<Rightarrow>
          (let p = b @ [repository_component fold_ascii i name, archive_component fold_ascii sha256 a] in
           if ''..'' \<in> set p then Inl Invalid_path else Inr p))"

subsection \<open>A slug is a plain file name\<close>

lemma dash_runs_chars: "c \<in> set (dash_runs b s) \<Longrightarrow> slug_char c"
  by (induction b s rule: dash_runs.induct) (auto simp: slug_char_def split: if_splits)

lemma strip_by_set: "set (strip_by P s) \<subseteq> set s"
  by (auto simp: strip_by_def rstrip_by_def lstrip_by_def dest!: set_dropWhileD)

lemma strip_by_hd: "strip_by P s = c # t \<Longrightarrow> \<not> P c"
proof -
  assume eq: "strip_by P s = c # t"
  have "strip_by P s = take (length (strip_by P s)) (dropWhile P s)"
    by (simp add: strip_by_def rstrip_by_def lstrip_by_def)
      (metis append_eq_conv_conj length_rev rev_append rev_rev_ident takeWhile_dropWhile_id)
  then obtain u where "dropWhile P s = c # u" using eq by (cases "dropWhile P s") auto
  then show "\<not> P c" using hd_dropWhile [of P s] by simp
qed

lemma rstrip_by_prefix: "\<exists>u. s = rstrip_by P s @ u"
  by (metis rev_append rev_rev_ident rstrip_by_def takeWhile_dropWhile_id)

lemma slug_safe:
  assumes "fallback = c # f" and "is_alnum c" and "\<forall>x \<in> set f. slug_char x"
  shows "\<exists>h t. slug fold_ascii fallback n s = h # t \<and> is_alnum h \<and> (\<forall>x \<in> set (h # t). slug_char x)"
proof -
  let ?base = "strip_by slug_edge (dash_runs False (fold_ascii s))"
  let ?t = "rstrip_by slug_edge (take n ?base)"
  show ?thesis
  proof (cases ?t)
    case Nil
    then show ?thesis using assms by (auto simp: slug_def Let_def slug_char_def)
  next
    case (Cons h t)
    obtain u where u: "take n ?base = (h # t) @ u"
      using rstrip_by_prefix [of "take n ?base" slug_edge] Cons by auto
    then have prefix: "?base = h # t @ u @ drop n ?base"
      by (metis append_Cons append_assoc append_take_drop_id)
    then have "\<not> slug_edge h" by (rule strip_by_hd)
    moreover have chars: "\<forall>x \<in> set (h # t). slug_char x"
      using prefix strip_by_set [of slug_edge "dash_runs False (fold_ascii s)"] dash_runs_chars
      by (metis Un_iff insert_iff list.simps(15) set_append subsetD)
    ultimately have "is_alnum h" by (auto simp: slug_char_def slug_edge_def)
    with chars Cons show ?thesis by (simp add: slug_def)
  qed
qed

text \<open>The number of a repository can be read off its directory name.\<close>

lemma repository_component_inject:
  assumes "repository_component f i a = repository_component g j b" and "0 < i" and "0 < j"
  shows "i = j"
proof -
  have rev_word: "takeWhile (\<lambda>c. c \<noteq> CHR ''-'') (rev (s @ ''-r'' @ str_nat n)) = rev (CHR ''r'' # str_nat n)" for s n
  proof -
    have "CHR ''-'' \<notin> set (str_nat n)"
      using str_nat_digits [of "CHR ''-''" n] by (auto simp: is_digit_def char_code_def)
    then have "\<forall>x \<in> set (rev (str_nat n) @ ''r''). x \<noteq> CHR ''-''" by auto
    then have "takeWhile (\<lambda>c. c \<noteq> CHR ''-'') ((rev (str_nat n) @ ''r'') @ CHR ''-'' # rev s) =
        (rev (str_nat n) @ ''r'') @ takeWhile (\<lambda>c. c \<noteq> CHR ''-'') (CHR ''-'' # rev s)"
      by (intro takeWhile_append2) auto
    then show ?thesis by simp
  qed
  have "rev (CHR ''r'' # str_nat (nat i)) = rev (CHR ''r'' # str_nat (nat j))"
    using assms(1) rev_word [symmetric] unfolding repository_component_def by metis
  with assms(2,3) show ?thesis by simp
qed

section \<open>Properties\<close>

text \<open>
  an archive is only ever mounted inside the configured root, exactly two directories deep,
  under two names made of letters, digits, dots, dashes and underscores that begin with a
  letter or a digit: neither a repository name nor an archive name can leave the root.
\<close>

theorem archive_mount_path_contained:
  assumes "archive_mount_path fold_ascii sha256 (Some b) i name a = Inr p"
    and "\<forall>c \<in> set (sha256 a). slug_char c"
  shows "\<exists>r m. p = b @ [r, m] \<and> (\<forall>w \<in> {r, m}. w \<noteq> [] \<and> is_alnum (hd w) \<and> (\<forall>c \<in> set w. slug_char c))"
proof -
  have p: "p = b @ [repository_component fold_ascii i name, archive_component fold_ascii sha256 a]"
    using assms(1) by (simp add: archive_mount_path_def Let_def split: if_splits)
  obtain h t where h: "slug fold_ascii ''repository'' 64 name = h # t" "is_alnum h" "\<forall>x \<in> set (h # t). slug_char x"
    using slug_safe [of "''repository''" "CHR ''r''" "''epository''" fold_ascii 64 name]
    by (auto simp: is_alnum_def is_alpha_def is_lower_def char_code_def slug_char_def)
  obtain g u where g: "slug fold_ascii ''archive'' 80 a = g # u" "is_alnum g" "\<forall>x \<in> set (g # u). slug_char x"
    using slug_safe [of "''archive''" "CHR ''a''" "''rchive''" fold_ascii 80 a]
    by (auto simp: is_alnum_def is_alpha_def is_lower_def char_code_def slug_char_def)
  have digits: "\<forall>c \<in> set (str_nat (nat i)). slug_char c"
    using str_nat_digits by (auto simp: slug_char_def is_alnum_def)
  have r: "\<forall>c \<in> set (repository_component fold_ascii i name). slug_char c"
    using h digits by (auto simp: repository_component_def slug_char_def is_alnum_def is_alpha_def is_lower_def char_code_def)
  have m: "\<forall>c \<in> set (archive_component fold_ascii sha256 a). slug_char c"
    using g assms(2) by (auto simp: archive_component_def dest: in_set_takeD) (simp add: slug_char_def)
  from r m h(1,2) g(1,2) show ?thesis
    by (auto simp: p repository_component_def archive_component_def)
qed

theorem archive_mount_path_contained_witness:
  "\<exists>r m. [''archive-mounts'', ''NAS-main-r7'', ''web-2024-abc''] = [''archive-mounts''] @ [r, m] \<and>
     (\<forall>w \<in> {r, m}. w \<noteq> [] \<and> is_alnum (hd w) \<and> (\<forall>c \<in> set w. slug_char c))"
  by (rule archive_mount_path_contained [of "\<lambda>s. s" "\<lambda>_. ''abc''" _ 7 "''../NAS main''" "''web:2024''"]) code_simp+

text \<open>
  two saved repositories never share a mount directory, whatever their names are reduced to.
\<close>

theorem archive_mount_paths_of_repositories_differ:
  assumes "archive_mount_path fold_ascii sha256 (Some b) i name a = Inr (b @ [d, m])"
    and "archive_mount_path fold_ascii sha256 (Some b) j name' a' = Inr (b @ [d, m'])"
  shows "i = j"
proof -
  have "repository_component fold_ascii i name = d" "0 < i" "repository_component fold_ascii j name' = d" "0 < j"
    using assms by (simp_all add: archive_mount_path_def Let_def split: if_splits)
  then show ?thesis using repository_component_inject by metis
qed

theorem archive_mount_paths_of_repositories_differ_witness: "(7 :: int) = 7"
  by (rule archive_mount_paths_of_repositories_differ
        [of "\<lambda>s. s" "\<lambda>_. ''abc''" "[''m'']" 7 "''a b''" "''x''" "''a-b-r7''" "''x-abc''" 7 "''a/b''" "''x''" "''x-abc''"])
    code_simp+

end
