(* ===== verification/ExternalLocation.thy ===== *)
theory ExternalLocation
  imports Prelude
begin

text \<open>
  Locations of external repositories: \<open>src/app/external_repository.py\<close>. The standard library
  functions the code calls (\<open>urlsplit\<close> with its \<open>hostname\<close>, \<open>username\<close> and \<open>port\<close>, and
  \<open>unquote\<close>) are written out; two leaves of them are parameters: \<open>ip_ok\<close>, whether a text in
  brackets is an IP address for \<open>ipaddress\<close>, and \<open>utf8\<close>, the decoding of bytes to text.
\<close>

section \<open>\<open>urllib.parse\<close>\<close>

record split_url =
  su_scheme :: string
  su_netloc :: string
  su_path :: string

datatype url_error = Invalid_url | Invalid_port

definition url_control :: "char \<Rightarrow> bool" where
  "url_control c = (char_code c \<le> 32)"

definition url_unsafe :: "char \<Rightarrow> bool" where
  "url_unsafe c = (char_code c \<in> {9, 10, 13})"

definition scheme_char :: "char \<Rightarrow> bool" where
  "scheme_char c = (is_alnum c \<or> c \<in> {CHR ''+'', CHR ''-'', CHR ''.''})"

definition split_scheme :: "string \<Rightarrow> string \<times> string" where
  "split_scheme url =
     (case py_partition (CHR '':'') url of (pre, found, post) \<Rightarrow>
        if found \<and> pre \<noteq> [] \<and> is_alpha (hd pre) \<and> list_all scheme_char pre
        then (py_lower pre, post) else ([], url))"

text \<open>The network location ends at the first slash, question mark or hash.\<close>

definition netloc_end :: "char \<Rightarrow> bool" where
  "netloc_end c = (c \<in> {CHR ''/'', CHR ''?'', CHR ''#''})"

definition netloc_ok :: "(string \<Rightarrow> bool) \<Rightarrow> string \<Rightarrow> bool" where
  "netloc_ok ip_ok netloc =
     (let opened = CHR ''['' \<in> set netloc; closed = CHR '']'' \<in> set netloc in
      (opened \<longleftrightarrow> closed) \<and>
      (opened \<longrightarrow> (case py_partition (CHR ''['') netloc of (_, _, rest) \<Rightarrow>
         case py_partition (CHR '']'') rest of (inner, _, _) \<Rightarrow> ip_ok inner)))"

definition urlsplit :: "(string \<Rightarrow> bool) \<Rightarrow> string \<Rightarrow> (url_error, split_url) result" where
  "urlsplit ip_ok location =
     (case split_scheme (filter (\<lambda>c. \<not> url_unsafe c) (lstrip_by url_control location)) of
        (scheme, url) \<Rightarrow>
          (let has_netloc = starts_with ''//'' url;
               netloc = (if has_netloc then takeWhile (\<lambda>c. \<not> netloc_end c) (drop 2 url) else []);
               rest = (if has_netloc then dropWhile (\<lambda>c. \<not> netloc_end c) (drop 2 url) else url);
               path = takeWhile (\<lambda>c. c \<noteq> CHR ''?'') (takeWhile (\<lambda>c. c \<noteq> CHR ''#'') rest)
           in if netloc_ok ip_ok netloc
              then Inr \<lparr>su_scheme = scheme, su_netloc = netloc, su_path = path\<rparr>
              else Inl Invalid_url))"

definition url_hostinfo :: "split_url \<Rightarrow> string \<times> string" where
  "url_hostinfo u =
     (case py_rpartition (CHR ''@'') (su_netloc u) of (_, _, hostinfo) \<Rightarrow>
      case py_partition (CHR ''['') hostinfo of (_, bracket, bracketed) \<Rightarrow>
        if bracket then
          (case py_partition (CHR '']'') bracketed of (host, _, rest) \<Rightarrow>
           case py_partition (CHR '':'') rest of (_, _, port) \<Rightarrow> (host, port))
        else (case py_partition (CHR '':'') hostinfo of (host, _, port) \<Rightarrow> (host, port)))"

text \<open>\<open>hostname\<close>: \<open>None\<close> is the empty text; a zone after \<open>%\<close> keeps its case.\<close>

definition url_hostname :: "split_url \<Rightarrow> string" where
  "url_hostname u =
     (case py_partition (CHR ''%'') (fst (url_hostinfo u)) of (host, zone, rest) \<Rightarrow>
        py_lower host @ (if zone then CHR ''%'' # rest else []))"

definition url_username :: "split_url \<Rightarrow> string option" where
  "url_username u =
     (case py_rpartition (CHR ''@'') (su_netloc u) of (userinfo, found, _) \<Rightarrow>
        if found then (case py_partition (CHR '':'') userinfo of (user, _, _) \<Rightarrow> Some user) else None)"

definition url_port :: "split_url \<Rightarrow> (url_error, nat option) result" where
  "url_port u =
     (let port = snd (url_hostinfo u) in
      if port = [] then Inr None
      else if \<not> list_all is_digit port \<or> 65535 < digits_value port then Inl Invalid_port
      else Inr (Some (digits_value port)))"

fun percent_bytes :: "string \<Rightarrow> string" where
  "percent_bytes (c # x # y # s) =
     (if c = CHR ''%'' \<and> is_hex x \<and> is_hex y
      then char_of (16 * hex_value x + hex_value y) # percent_bytes s
      else c # percent_bytes (x # y # s))"
| "percent_bytes s = s"

text \<open>\<open>unquote\<close> decodes every maximal run of ASCII characters on its own.\<close>

function unquote :: "(string \<Rightarrow> string) \<Rightarrow> string \<Rightarrow> string" where
  "unquote utf8 [] = []"
| "unquote utf8 (c # s) =
     (if is_ascii c
      then utf8 (percent_bytes (takeWhile is_ascii (c # s))) @ unquote utf8 (dropWhile is_ascii (c # s))
      else c # unquote utf8 s)"
  by pat_completeness auto
termination
  by (relation "measure (\<lambda>(utf8, s). length s)") (auto simp: le_imp_less_Suc length_dropWhile_le)

section \<open>Probe targets\<close>

record probe_target =
  pt_host :: string
  pt_port :: nat
  pt_username :: string
  pt_path :: string

text \<open>\<open>parsed.port or 22\<close>: port 0 becomes 22 as well.\<close>

definition port_or_22 :: "nat option \<Rightarrow> nat" where
  "port_or_22 p = (case p of None \<Rightarrow> 22 | Some n \<Rightarrow> if n = 0 then 22 else n)"

definition probe_path :: "string \<Rightarrow> string" where
  "probe_path raw =
     (if starts_with ''/./'' raw then ''./'' @ drop 3 raw
      else if raw = ''/.'' then ''.''
      else if starts_with ''/~/'' raw then ''./'' @ drop 3 raw
      else if raw = ''/~'' then ''.''
      else if raw = [] then ''.'' else raw)"

text \<open>
  The regular expression of an scp-style location, \<open>user@host:path\<close>: the user has no slash,
  at sign or colon, the host is a text in brackets or has no slash and colon, and the path is
  one line. The result is the three groups.
\<close>

definition scp_path :: "string \<Rightarrow> string option" where
  "scp_path s =
     Option.bind (expect (CHR '':'') s) (\<lambda>rest.
       let path = takeWhile (\<lambda>c. c \<noteq> newline) rest; tail = dropWhile (\<lambda>c. c \<noteq> newline) rest in
       if path \<noteq> [] \<and> (tail = [] \<or> tail = [newline]) then Some path else None)"

definition scp_bracket_host :: "string \<Rightarrow> (string \<times> string) option" where
  "scp_bracket_host s =
     Option.bind (expect (CHR ''['') s) (\<lambda>rest.
       let inner = takeWhile (\<lambda>c. c \<noteq> CHR '']'') rest;
           tail = dropWhile (\<lambda>c. c \<noteq> CHR '']'') rest in
       if inner \<noteq> [] \<and> tail \<noteq> []
       then map_option (Pair (CHR ''['' # inner @ '']'')) (scp_path (tl tail)) else None)"

definition scp_user_char :: "char \<Rightarrow> bool" where
  "scp_user_char c = (c \<noteq> CHR ''/'' \<and> c \<noteq> CHR ''@'' \<and> c \<noteq> CHR '':'')"

definition scp_host_char :: "char \<Rightarrow> bool" where
  "scp_host_char c = (c \<noteq> CHR ''/'' \<and> c \<noteq> CHR '':'')"

definition scp_plain_host :: "string \<Rightarrow> (string \<times> string) option" where
  "scp_plain_host s =
     (let host = takeWhile scp_host_char s in
      if host \<noteq> [] then map_option (Pair host) (scp_path (dropWhile scp_host_char s)) else None)"

definition scp_match :: "string \<Rightarrow> (string \<times> string \<times> string) option" where
  "scp_match s =
     (let user = takeWhile scp_user_char s in
      if user = [] then None
      else Option.bind (expect (CHR ''@'') (dropWhile scp_user_char s)) (\<lambda>rest.
        map_option (Pair user)
          (case scp_bracket_host rest of Some m \<Rightarrow> Some m | None \<Rightarrow> scp_plain_host rest)))"

record url_env =
  ue_ip_ok :: "string \<Rightarrow> bool"
  ue_utf8 :: "string \<Rightarrow> string"

definition storage_probe_target_from_location ::
    "url_env \<Rightarrow> string \<Rightarrow> (url_error, probe_target option) result" where
  "storage_probe_target_from_location env location =
     try_bind (urlsplit (ue_ip_ok env) location) (\<lambda>u.
       if su_scheme u = ''ssh'' \<and> url_hostname u \<noteq> [] \<and> truthy (url_username u) then
         (let raw = unquote (ue_utf8 env) (su_path u) in
          try_bind (url_port u) (\<lambda>port.
            Inr (Some \<lparr>pt_host = url_hostname u, pt_port = port_or_22 port,
              pt_username = unquote (ue_utf8 env) (or_empty (url_username u)),
              pt_path = probe_path raw\<rparr>)))
       else Inr (case scp_match location of
           None \<Rightarrow> None
         | Some (user, host, path) \<Rightarrow>
             (let p = unquote (ue_utf8 env) path in
              Some \<lparr>pt_host = strip_by (\<lambda>c. c = CHR ''['' \<or> c = CHR '']'') host, pt_port = 22,
                    pt_username = user, pt_path = (if p = [] then ''.'' else p)\<rparr>)))"

text \<open>\<open>external_filesystem_parallel_identity\<close>: the key and the label of a remote file system.\<close>

definition identity_label :: "probe_target \<Rightarrow> string \<Rightarrow> string" where
  "identity_label t mount =
     (let host = py_casefold (pt_host t);
          shown = (if CHR '':'' \<in> set host \<and> \<not> starts_with ''['' host
                   then CHR ''['' # host @ '']'' else host)
      in pt_username t @ ''@'' @ shown @ '':'' @ str_nat (pt_port t) @ '' '' @ [CHR 0xB7] @ '' '' @ mount)"

definition external_filesystem_parallel_identity ::
    "url_env \<Rightarrow> string \<Rightarrow> string option \<Rightarrow> (url_error, (string \<times> string) option) result" where
  "external_filesystem_parallel_identity env location mount_point =
     try_bind (storage_probe_target_from_location env location) (\<lambda>target.
       let mount = py_strip (or_empty mount_point) in
       Inr (case target of
           None \<Rightarrow> None
         | Some t \<Rightarrow>
             if mount = [] \<or> list_ex (\<lambda>c. char_code c \<in> {0, 10, 13}) mount then None
             else Some (''external:'' @ identity_label t mount, identity_label t mount)))"

text \<open>\<open>repository_location_uses_ssh\<close> and \<open>ssh_target_from_location\<close>.\<close>

definition scp_prefix :: "string \<Rightarrow> bool" where
  "scp_prefix s =
     (takeWhile scp_user_char s \<noteq> [] \<and>
      (case expect (CHR ''@'') (dropWhile scp_user_char s) of
         None \<Rightarrow> False
       | Some rest \<Rightarrow>
           takeWhile scp_host_char rest \<noteq> [] \<and>
           (case expect (CHR '':'') (dropWhile scp_host_char rest) of
              None \<Rightarrow> False
            | Some path \<Rightarrow> path \<noteq> [] \<and> hd path \<noteq> newline)))"

definition repository_location_uses_ssh :: "url_env \<Rightarrow> string \<Rightarrow> (url_error, bool) result" where
  "repository_location_uses_ssh env location =
     try_bind (urlsplit (ue_ip_ok env) location) (\<lambda>u.
       Inr (su_scheme u = ''ssh'' \<or> scp_prefix location))"

definition ssh_target_from_location ::
    "url_env \<Rightarrow> string \<Rightarrow> (url_error, (string \<times> nat) option) result" where
  "ssh_target_from_location env location =
     try_bind (urlsplit (ue_ip_ok env) location) (\<lambda>u.
       if su_scheme u \<noteq> ''ssh'' \<or> url_hostname u = [] then Inr None
       else try_bind (url_port u) (\<lambda>port. Inr (Some (url_hostname u, port_or_22 port))))"

section \<open>Facts\<close>

text \<open>Only a mount point makes an identity; the port of a target is never 0.\<close>

lemma identity_needs_mount:
  "external_filesystem_parallel_identity env location m = Inr (Some k) \<Longrightarrow>
   py_strip (or_empty m) \<noteq> [] \<and> fst k = ''external:'' @ snd k"
  by (auto simp: external_filesystem_parallel_identity_def try_bind_Inr_iff Let_def
      split: option.splits if_splits)

lemma port_or_22_positive: "0 < port_or_22 p"
  by (simp add: port_or_22_def split: option.split)

lemma url_port_range: "url_port u = Inr (Some n) \<Longrightarrow> n \<le> 65535"
  by (auto simp: url_port_def Let_def split: if_splits)

definition plain_url_env :: url_env where
  "plain_url_env = \<lparr>ue_ip_ok = (\<lambda>_. True), ue_utf8 = (\<lambda>s. s)\<rparr>"

end
