(* ===== verification/Chains.thy ===== *)
theory Chains
  imports Prelude
begin

text \<open>
  The maintenance chain reservations of \<open>src/app/service.py\<close> (lines 195--245). A manual backup
  that is followed by prune and compact reserves its repository: the reservations of one
  physical repository form a queue ordered by the run that started each chain, and every run
  of a chain carries the token of its reservation.
\<close>

section \<open>State and operations\<close>

record reservation =
  rs_token :: string
  rs_root :: nat
  rs_started :: bool

text \<open>
  \<open>_repository_chain_reservations\<close>, a dictionary in insertion order, and
  \<open>_run_chain_tokens\<close>.
\<close>

record chain_state =
  ch_queues :: "(string \<times> reservation list) list"
  ch_tokens :: "nat \<rightharpoonup> string"

definition no_chains :: chain_state where
  "no_chains = \<lparr>ch_queues = [], ch_tokens = (\<lambda>_. None)\<rparr>"

definition chain_queue :: "chain_state \<Rightarrow> string \<Rightarrow> reservation list" where
  "chain_queue st key = (case map_of (ch_queues st) key of None \<Rightarrow> [] | Some q \<Rightarrow> q)"

definition register_repository_chain :: "string \<Rightarrow> nat \<Rightarrow> string \<Rightarrow> chain_state \<Rightarrow> chain_state" where
  "register_repository_chain key run_id token st =
     st\<lparr>ch_queues := dict_set key
          (sort_key rs_root (chain_queue st key @
             [\<lparr>rs_token = token, rs_root = run_id, rs_started = False\<rparr>])) (ch_queues st),
        ch_tokens := (ch_tokens st)(run_id \<mapsto> token)\<rparr>"

definition register_chain_run :: "nat \<Rightarrow> string option \<Rightarrow> chain_state \<Rightarrow> chain_state" where
  "register_chain_run run_id token st =
     (if truthy token then st\<lparr>ch_tokens := (ch_tokens st)(run_id \<mapsto> or_empty token)\<rparr> else st)"

text \<open>The nested loops of \<open>_mark_repository_chain_started\<close>: the first match is marked.\<close>

fun start_item :: "string \<Rightarrow> nat \<Rightarrow> reservation list \<Rightarrow> reservation list option" where
  "start_item token run_id [] = None"
| "start_item token run_id (r # q) =
     (if rs_token r = token \<and> rs_root r = run_id then Some (r\<lparr>rs_started := True\<rparr> # q)
      else map_option (Cons r) (start_item token run_id q))"

fun start_in_queues :: "string \<Rightarrow> nat \<Rightarrow> (string \<times> reservation list) list \<Rightarrow> (string \<times> reservation list) list" where
  "start_in_queues token run_id [] = []"
| "start_in_queues token run_id ((key, q) # qs) =
     (case start_item token run_id q of
        Some q' \<Rightarrow> (key, q') # qs
      | None \<Rightarrow> (key, q) # start_in_queues token run_id qs)"

definition mark_repository_chain_started :: "nat \<Rightarrow> chain_state \<Rightarrow> chain_state" where
  "mark_repository_chain_started run_id st =
     (case ch_tokens st run_id of
        None \<Rightarrow> st
      | Some token \<Rightarrow>
          if token = [] then st
          else st\<lparr>ch_queues := start_in_queues token run_id (ch_queues st)\<rparr>)"

definition release_repository_chain :: "string \<Rightarrow> chain_state \<Rightarrow> chain_state" where
  "release_repository_chain token st =
     \<lparr>ch_queues = filter (\<lambda>(key, q). q \<noteq> [])
        (map (\<lambda>(key, q). (key, filter (\<lambda>r. rs_token r \<noteq> token) q)) (ch_queues st)),
      ch_tokens = (\<lambda>i. if ch_tokens st i = Some token then None else ch_tokens st i)\<rparr>"

text \<open>\<open>_repository_chain_snapshot\<close>: the first reservation of every queue, and the tokens.\<close>

definition chain_snapshot :: "chain_state \<Rightarrow> (string \<rightharpoonup> reservation) \<times> (nat \<rightharpoonup> string)" where
  "chain_snapshot st =
     (map_of (map (\<lambda>(key, q). (key, hd q)) (filter (\<lambda>(key, q). q \<noteq> []) (ch_queues st))), ch_tokens st)"

definition chain_owner :: "chain_state \<Rightarrow> string \<Rightarrow> reservation option" where
  "chain_owner st key = fst (chain_snapshot st) key"

section \<open>Queues are non-empty and ordered\<close>

definition queue_ordered :: "reservation list \<Rightarrow> bool" where
  "queue_ordered q \<longleftrightarrow> sorted (map rs_root q) \<and> distinct (map rs_root q)"

definition chains_wf :: "chain_state \<Rightarrow> bool" where
  "chains_wf st \<longleftrightarrow> distinct (map fst (ch_queues st)) \<and>
     (\<forall>(key, q) \<in> set (ch_queues st). q \<noteq> [] \<and> queue_ordered q)"

lemma chains_wf_empty [simp]: "chains_wf no_chains"
  by (simp add: chains_wf_def no_chains_def)

lemma chain_owner_eq:
  assumes "distinct (map fst (ch_queues st))"
  shows "chain_owner st key = (case chain_queue st key of [] \<Rightarrow> None | r # _ \<Rightarrow> Some r)"
proof -
  have "map_of (map (\<lambda>(key, q). (key, hd q)) (filter (\<lambda>(key, q). q \<noteq> []) qs)) key =
        (case (case map_of qs key of None \<Rightarrow> [] | Some q \<Rightarrow> q) of [] \<Rightarrow> None | r # _ \<Rightarrow> Some r)"
    if "distinct (map fst qs)" for qs :: "(string \<times> reservation list) list"
    using that
  proof (induction qs)
    case (Cons x qs)
    obtain k q where x: "x = (k, q)" by (cases x)
    have "map_of qs key = None" if "k = key"
      using Cons.prems that x by (auto simp: map_of_eq_None_iff)
    with Cons x show ?case by (cases q) auto
  qed simp
  from this [OF assms] show ?thesis
    by (simp add: chain_owner_def chain_snapshot_def chain_queue_def)
qed

lemma chain_queue_in:
  "chain_queue st key = q \<Longrightarrow> q \<noteq> [] \<Longrightarrow> (key, q) \<in> set (ch_queues st)"
  by (auto simp: chain_queue_def split: option.splits dest: map_of_SomeD)

lemma chain_queue_ordered: "chains_wf st \<Longrightarrow> queue_ordered (chain_queue st key)"
  by (cases "chain_queue st key = []")
    (auto simp: chains_wf_def queue_ordered_def dest!: chain_queue_in [OF refl])

lemma chain_queue_eqI: "chains_wf st \<Longrightarrow> (key, q) \<in> set (ch_queues st) \<Longrightarrow> chain_queue st key = q"
  by (auto simp: chains_wf_def chain_queue_def dest: map_of_is_SomeI)

section \<open>What each operation does to a queue\<close>

lemma chain_queue_register:
  "chain_queue (register_repository_chain key run_id token st) k =
     (if k = key then sort_key rs_root (chain_queue st key @
        [\<lparr>rs_token = token, rs_root = run_id, rs_started = False\<rparr>]) else chain_queue st k)"
  by (simp add: register_repository_chain_def chain_queue_def)

lemma start_item_map: 
  "start_item token run_id q = Some q' \<Longrightarrow>
   map rs_root q' = map rs_root q \<and> map rs_token q' = map rs_token q"
  by (induction q arbitrary: q') (auto split: if_splits)

lemma start_item_None: 
  "start_item token run_id q = None \<longleftrightarrow> (\<forall>r \<in> set q. \<not> (rs_token r = token \<and> rs_root r = run_id))"
  by (induction q) auto

lemma start_item_eq:
  "distinct (map rs_root q) \<Longrightarrow> start_item token run_id q = Some q' \<Longrightarrow>
   q' = map (\<lambda>r. if rs_token r = token \<and> rs_root r = run_id then r\<lparr>rs_started := True\<rparr> else r) q"
proof (induction q arbitrary: q')
  case (Cons r q)
  show ?case
  proof (cases "rs_token r = token \<and> rs_root r = run_id")
    case True
    with Cons.prems have "\<forall>s \<in> set q. \<not> (rs_token s = token \<and> rs_root s = run_id)"
      by (metis distinct.simps(2) imageI list.set_map list.simps(9))
    then have "map (\<lambda>r. if rs_token r = token \<and> rs_root r = run_id then r\<lparr>rs_started := True\<rparr> else r) q = q"
      by (intro map_idI) auto
    with True Cons.prems show ?thesis by simp
  next
    case False
    with Cons show ?thesis by auto
  qed
qed simp

lemma start_in_queues_set:
  "(key, q) \<in> set (start_in_queues token run_id qs) \<Longrightarrow>
   (key, q) \<in> set qs \<or> (\<exists>q0. (key, q0) \<in> set qs \<and> start_item token run_id q0 = Some q)"
  by (induction token run_id qs rule: start_in_queues.induct) (auto split: option.splits)

lemma start_in_queues_keys [simp]:
  "map fst (start_in_queues token run_id qs) = map fst qs"
  by (induction token run_id qs rule: start_in_queues.induct) (auto split: option.splits)

text \<open>Marking finds the reservation when it exists once.\<close>

lemma start_in_queues_found:
  assumes "distinct (map fst qs)" and "map_of qs key = Some q"
    and "start_item token run_id q = Some q'"
    and "\<And>k p. map_of qs k = Some p \<Longrightarrow> k \<noteq> key \<Longrightarrow> start_item token run_id p = None"
  shows "map_of (start_in_queues token run_id qs) = (map_of qs)(key \<mapsto> q')"
  using assms
proof (induction token run_id qs rule: start_in_queues.induct)
  case (2 token run_id k p qs)
  show ?case
  proof (cases "k = key")
    case True
    with 2 show ?thesis by auto
  next
    case False
    then have "start_item token run_id p = None" using 2(5) [of k p] by simp
    moreover have "map_of (start_in_queues token run_id qs) = (map_of qs)(key \<mapsto> q')"
    proof (rule 2(1))
      fix k' p' assume "map_of qs k' = Some p'" and "k' \<noteq> key"
      moreover from this 2(2) have "k' \<noteq> k" by (auto dest: map_of_SomeD simp: rev_image_eqI)
      ultimately show "start_item token run_id p' = None" using 2(5) [of k' p'] by simp
    qed (use 2 False calculation in auto)
    ultimately show ?thesis using False by (auto simp: fun_eq_iff)
  qed
qed simp

lemma chain_queue_release:
  assumes "distinct (map fst (ch_queues st))"
  shows "chain_queue (release_repository_chain token st) key =
         filter (\<lambda>r. rs_token r \<noteq> token) (chain_queue st key)"
proof -
  have "(case map_of (filter (\<lambda>(key, q). q \<noteq> [])
           (map (\<lambda>(key, q). (key, filter (\<lambda>r. rs_token r \<noteq> token) q)) qs)) key of
           None \<Rightarrow> [] | Some q \<Rightarrow> q) =
        filter (\<lambda>r. rs_token r \<noteq> token) (case map_of qs key of None \<Rightarrow> [] | Some q \<Rightarrow> q)"
    if "distinct (map fst qs)" for qs :: "(string \<times> reservation list) list"
    using that
  proof (induction qs)
    case (Cons x qs)
    obtain k q where x: "x = (k, q)" by (cases x)
    have "map_of qs key = None" if "k = key"
      using Cons.prems that x by (auto simp: map_of_eq_None_iff)
    with Cons x show ?case by (auto split: option.splits)
  qed simp
  from this [OF assms] show ?thesis
    by (simp add: release_repository_chain_def chain_queue_def)
qed

section \<open>The operations keep the queues ordered\<close>

lemma queue_ordered_insert:
  assumes "queue_ordered q" and "rs_root r \<notin> rs_root ` set q"
  shows "queue_ordered (sort_key rs_root (q @ [r]))"
proof -
  have "distinct (map rs_root (q @ [r]))" using assms by (auto simp: queue_ordered_def)
  then have "distinct (map rs_root (sort_key rs_root (q @ [r])))"
    by (metis distinct_map distinct_sort set_sort)
  then show ?thesis by (simp add: queue_ordered_def del: sort_key_simps)
qed

lemma sort_key_append_largest:
  fixes f :: "'a \<Rightarrow> 'b :: linorder"
  assumes "sorted (map f q)" and "\<forall>x \<in> set q. f x \<le> f r"
  shows "sort_key f (q @ [r]) = q @ [r]"
  by (rule sort_key_id_if_sorted) (use assms in \<open>auto simp: sorted_append\<close>)

lemma register_chains_wf:
  assumes "chains_wf st" and "\<forall>r \<in> set (chain_queue st key). rs_root r \<noteq> run_id"
  shows "chains_wf (register_repository_chain key run_id token st)"
proof -
  let ?q = "sort_key rs_root (chain_queue st key @
      [\<lparr>rs_token = token, rs_root = run_id, rs_started = False\<rparr>])"
  have "set ?q \<noteq> {}" by simp
  then have ne: "?q \<noteq> []" by (metis set_empty)
  have ord: "queue_ordered ?q"
    by (rule queue_ordered_insert) (use assms chain_queue_ordered in auto)
  have ds: "(k, p) \<in> set (dict_set key ?q d) \<Longrightarrow> (k, p) \<in> set d \<or> (k, p) = (key, ?q)" for k p d
    by (induction d) (auto split: if_splits)
  show ?thesis
    using assms(1) ne ord ds by (fastforce simp: chains_wf_def register_repository_chain_def distinct_dict_set)
qed

lemma mark_chains_wf:
  assumes "chains_wf st" shows "chains_wf (mark_repository_chain_started run_id st)"
proof -
  have "q \<noteq> [] \<and> queue_ordered q"
    if "(key, q) \<in> set (start_in_queues token run_id (ch_queues st))" for key q token
    using start_in_queues_set [OF that] assms
    by (auto simp: chains_wf_def queue_ordered_def dest!: start_item_map)
  then have "chains_wf (st\<lparr>ch_queues := start_in_queues token run_id (ch_queues st)\<rparr>)" for token
    using assms by (simp add: chains_wf_def case_prod_beta) (metis prod.collapse)
  with assms show ?thesis
    by (simp add: mark_repository_chain_started_def split: option.split)
qed

lemma release_chains_wf:
  assumes "chains_wf st" shows "chains_wf (release_repository_chain token st)"
proof -
  let ?kept = "map (\<lambda>(key, q). (key, filter (\<lambda>r. rs_token r \<noteq> token) q)) (ch_queues st)"
  have "map fst ?kept = map fst (ch_queues st)"
    by (simp add: case_prod_beta comp_def)
  then have "distinct (map fst ?kept)"
    using assms by (simp only: chains_wf_def)
  then have keys: "distinct (map fst (ch_queues (release_repository_chain token st)))"
    by (simp add: release_repository_chain_def distinct_map_filter)
  have queues: "p \<noteq> [] \<and> queue_ordered p"
    if p: "(key, p) \<in> set (ch_queues (release_repository_chain token st))" for key p
  proof -
    from p obtain q where "p = filter (\<lambda>r. rs_token r \<noteq> token) q" and "(key, q) \<in> set (ch_queues st)"
      and "p \<noteq> []"
      by (auto simp: release_repository_chain_def)
    with assms show ?thesis
      by (auto simp: chains_wf_def queue_ordered_def sorted_filter_key distinct_map_filter)
  qed
  from keys queues show ?thesis unfolding chains_wf_def by blast
qed

lemma register_run_chains_wf: "chains_wf st \<Longrightarrow> chains_wf (register_chain_run run_id token st)"
  by (simp add: chains_wf_def register_chain_run_def)

lemma chain_queue_register_run [simp]:
  "chain_queue (register_chain_run run_id token st) key = chain_queue st key"
  by (simp add: chain_queue_def register_chain_run_def)

lemmas chains_wf_intros = register_chains_wf mark_chains_wf release_chains_wf register_run_chains_wf

end
