(* ===== verification/ExecPlan.thy ===== *)
theory ExecPlan
  imports StorageGuard ArchiveMounts ExternalLocation Chains
begin

text \<open>
  The queue planner of \<open>src/app/service.py\<close>: which queued runs may start now
  (\<open>_execution_plan\<close>), the claim of a slot (\<open>_claim_execution_turn\<close>) and the second admission
  path used by archive refreshes (\<open>_repository_run_blocker\<close>). The planner first derives keys
  for every unfinished run with a live task, then decides the queued runs in the order of
  their ids. The keys are computed here by \<open>planned_rows\<close> and the decision by \<open>plan_rows\<close>, in
  the order of the source.
\<close>

section \<open>Keys of a run\<close>

text \<open>
  What the planner reads from outside the database: path resolution (\<open>None\<close> where it raises),
  the mounts of the repository root, the lines of \<open>mountinfo\<close> and the leaves of URL parsing.
\<close>

record plan_env =
  pe_resolve :: "string \<Rightarrow> path option"
  pe_mounts :: "path list"
  pe_mountinfo :: "string list"
  pe_url :: url_env

definition managed_target :: "plan_env \<Rightarrow> string \<Rightarrow> string" where
  "managed_target env p =
     (case pe_resolve env p of Some q \<Rightarrow> path_string q | None \<Rightarrow> py_strip p)"

definition repository_execution_key :: "plan_env \<Rightarrow> repository option \<Rightarrow> nat option \<Rightarrow> string" where
  "repository_execution_key env r i =
     (case r of
        None \<Rightarrow> ''repository-id:'' @ (case i of None \<Rightarrow> ''None'' | Some n \<Rightarrow> str_nat n)
      | Some r \<Rightarrow>
          if truthy (rp_storage_path r)
          then ''managed:'' @ managed_target env (or_empty (rp_storage_path r))
          else (let location = rstrip_by (\<lambda>c. c = CHR ''/'') (py_strip (rp_location r)) in
            if location \<noteq> [] then ''external:'' @ location
            else ''repository-id:'' @ str_nat (rp_id r)))"

text \<open>\<open>_repository_mount_key\<close>; an invalid URL raises.\<close>

definition repository_mount_key ::
    "plan_env \<Rightarrow> repository option \<Rightarrow> (url_error, string option) result" where
  "repository_mount_key env r =
     (case r of
        None \<Rightarrow> Inr None
      | Some r \<Rightarrow>
          if truthy (rp_storage_path r)
          then Inr (map_option path_string
                 (repository_mount_path (pe_resolve env) (rp_storage_path r) (pe_mounts env)))
          else try_bind (external_filesystem_parallel_identity (pe_url env) (rp_location r) (rp_ext_path r))
                 (\<lambda>k. Inr (map_option fst k)))"

definition mount_parallel_limit :: "settings \<Rightarrow> string \<Rightarrow> int" where
  "mount_parallel_limit st key =
     (let limits = (if starts_with ''external:'' key then st_external_limits st else st_mount_limits st)
      in clamp 0 64 (case map_of limits key of None \<Rightarrow> 0 | Some n \<Rightarrow> n))"

definition source_stats_parallel_limit :: "settings \<Rightarrow> int" where
  "source_stats_parallel_limit st =
     clamp 1 64 (if st_source_stats_limit st = 0 then 1 else st_source_stats_limit st)"

definition run_schedule_key :: "run \<Rightarrow> string option" where
  "run_schedule_key r =
     (if rn_trigger r \<noteq> Scheduled then None
      else case rn_schedule_id r of
        Some (Suc n) \<Rightarrow> Some (''schedule-id:'' @ str_nat (Suc n))
      | _ \<Rightarrow> (let name = py_casefold (py_strip (or_empty (rn_schedule_name r))) in
              if name \<noteq> [] then Some (''schedule-name:'' @ name) else None))"

text \<open>A row with its keys; a source scan has neither a repository nor a mount key.\<close>

record planned =
  pl_run :: run
  pl_name :: string
  pl_repository :: "string option"
  pl_mount :: "string option"

abbreviation pl_id :: "planned \<Rightarrow> nat" where "pl_id p \<equiv> rn_id (pl_run p)"
abbreviation pl_schedule :: "planned \<Rightarrow> string option" where "pl_schedule p \<equiv> run_schedule_key (pl_run p)"

definition is_source_stats :: "run \<Rightarrow> bool" where
  "is_source_stats r = (rn_action r = ''source-stats'')"

definition row_repository_key :: "plan_env \<Rightarrow> manager_db \<Rightarrow> run \<Rightarrow> string option" where
  "row_repository_key env db r =
     (if rn_repository_id r \<noteq> None \<and> \<not> is_source_stats r
      then Some (repository_execution_key env (run_repository db r) (rn_repository_id r)) else None)"

definition planned_row :: "plan_env \<Rightarrow> manager_db \<Rightarrow> run \<Rightarrow> (url_error, planned) result" where
  "planned_row env db r =
     try_bind (if is_source_stats r then Inr None else repository_mount_key env (run_repository db r))
       (\<lambda>mount. Inr \<lparr>pl_run = r,
           pl_name = (case run_repository db r of None \<Rightarrow> ''Repository'' | Some p \<Rightarrow> rp_name p),
           pl_repository = row_repository_key env db r, pl_mount = mount\<rparr>)"

fun planned_rows :: "plan_env \<Rightarrow> manager_db \<Rightarrow> run list \<Rightarrow> (url_error, planned list) result" where
  "planned_rows env db [] = Inr []"
| "planned_rows env db (r # rs) =
     try_bind (planned_row env db r) (\<lambda>p.
       try_bind (planned_rows env db rs) (\<lambda>ps. Inr (p # ps)))"

section \<open>Live tasks and archive mounts\<close>

text \<open>
  \<open>_active_run_tasks\<close> (a task is alive when it is not done and its loop is open) and
  \<open>_executing_run_ids\<close>. Stale tasks are dropped.
\<close>

record live_tasks =
  lv_tasks :: "(nat \<times> bool) list"
  lv_executing :: "nat list"

definition drop_stale_tasks :: "live_tasks \<Rightarrow> live_tasks" where
  "drop_stale_tasks lv = lv\<lparr>lv_tasks := filter snd (lv_tasks lv)\<rparr>"

definition live_run_ids :: "live_tasks \<Rightarrow> nat option \<Rightarrow> nat list" where
  "live_run_ids lv current =
     map fst (filter snd (lv_tasks lv)) @ lv_executing lv @ (case current of None \<Rightarrow> [] | Some i \<Rightarrow> [i])"

definition mount_active :: "plan_env \<Rightarrow> archive_mount \<Rightarrow> bool" where
  "mount_active env m =
     (am_status m = ''mounting'' \<or> archive_mount_is_active (pe_mountinfo env) (am_mount_path m))"

text \<open>The repositories with an active mount, and the mount rows with the others marked stale.\<close>

definition scan_archive_mounts :: "plan_env \<Rightarrow> archive_mount list \<Rightarrow> nat list \<times> archive_mount list" where
  "scan_archive_mounts env ms =
     (map am_repository_id (filter (mount_active env) ms),
      map (\<lambda>m. if mount_active env m \<or> am_status m = ''stale'' then m
               else m\<lparr>am_status := ''stale'', am_error :=
                 ''Mount ist nicht mehr im Container aktiv. Eintrag kann entfernt werden.''\<rparr>) ms)"

section \<open>Limits\<close>

record plan_limits =
  lm_mounted :: "nat list"
  lm_reservations :: "string \<rightharpoonup> reservation"
  lm_tokens :: "nat \<rightharpoonup> string"
  lm_mount :: "string \<Rightarrow> int"
  lm_schedule :: "string \<Rightarrow> int"
  lm_source_stats :: int
  lm_global :: int

text \<open>\<open>mount_limits\<close>: only positive limits of the mounts in use are entered; 0 means none.\<close>

definition mount_limits :: "settings \<Rightarrow> planned list \<Rightarrow> string \<Rightarrow> int" where
  "mount_limits st ps key =
     (if key \<in> set (List.map_filter pl_mount ps) then mount_parallel_limit st key else 0)"

text \<open>\<open>schedule_limits\<close>: the smallest positive limit among the rows of a schedule; 0 means none.\<close>

fun schedule_limits :: "planned list \<Rightarrow> (string \<Rightarrow> int) \<Rightarrow> string \<Rightarrow> int" where
  "schedule_limits [] acc = acc"
| "schedule_limits (p # ps) acc =
     schedule_limits ps
       (let limit = rn_schedule_limit (pl_run p) in
        case pl_schedule p of
          None \<Rightarrow> acc
        | Some key \<Rightarrow> if 0 < limit
            then acc(key := (if acc key \<noteq> 0 then min (acc key) limit else limit)) else acc)"

section \<open>The decision\<close>

record occupancy =
  oc_repository :: "string \<Rightarrow> nat list"
  oc_mount :: "string \<Rightarrow> nat list"
  oc_schedule :: "string \<Rightarrow> nat list"
  oc_source_stats :: "nat list"
  oc_global :: "nat list"

definition no_occupants :: occupancy where
  "no_occupants = \<lparr>oc_repository = (\<lambda>_. []), oc_mount = (\<lambda>_. []), oc_schedule = (\<lambda>_. []),
     oc_source_stats = [], oc_global = []\<rparr>"

text \<open>Entering a row: its repository, its mount when that is limited, its schedule.\<close>

definition group_add_key :: "string option \<Rightarrow> nat \<Rightarrow> (string \<Rightarrow> nat list) \<Rightarrow> string \<Rightarrow> nat list" where
  "group_add_key k i g = (case k of None \<Rightarrow> g | Some key \<Rightarrow> group_add key i g)"

definition occupy :: "plan_limits \<Rightarrow> planned \<Rightarrow> occupancy \<Rightarrow> occupancy" where
  "occupy lm p oc =
     \<lparr>oc_repository = group_add_key (pl_repository p) (pl_id p) (oc_repository oc),
      oc_mount = (case pl_mount p of
          None \<Rightarrow> oc_mount oc
        | Some key \<Rightarrow> if 0 < lm_mount lm key then group_add key (pl_id p) (oc_mount oc) else oc_mount oc),
      oc_schedule = group_add_key (pl_schedule p) (pl_id p) (oc_schedule oc),
      oc_source_stats = oc_source_stats oc @ (if is_source_stats (pl_run p) then [pl_id p] else []),
      oc_global = oc_global oc @ [pl_id p]\<rparr>"

datatype blocker_kind =
  Archive_mount | Maintenance_chain | Repository_busy | Mount_full | Schedule_full | Source_stats_full | Global_full

record blocker =
  bl_kind :: blocker_kind
  bl_run :: nat
  bl_limit :: int
  bl_what :: string

definition min_id :: "nat list \<Rightarrow> nat" where
  "min_id ids = (case ids of [] \<Rightarrow> 0 | i # is \<Rightarrow> fold min is i)"

definition key_occupants :: "string option \<Rightarrow> (string \<Rightarrow> nat list) \<Rightarrow> nat list" where
  "key_occupants k g = (case k of None \<Rightarrow> [] | Some key \<Rightarrow> g key)"

definition key_limit :: "string option \<Rightarrow> (string \<Rightarrow> int) \<Rightarrow> int" where
  "key_limit k g = (case k of None \<Rightarrow> 0 | Some key \<Rightarrow> g key)"

definition full :: "int \<Rightarrow> nat list \<Rightarrow> bool" where
  "full limit occupants \<longleftrightarrow> 0 < limit \<and> limit \<le> int (length occupants)"

text \<open>A reservation shuts out a run of another chain once it has started or when it is older.\<close>

definition reserved_against :: "plan_limits \<Rightarrow> planned \<Rightarrow> reservation option" where
  "reserved_against lm p =
     (case pl_repository p of
        None \<Rightarrow> None
      | Some key \<Rightarrow>
          (case lm_reservations lm key of
             None \<Rightarrow> None
           | Some r \<Rightarrow>
               if lm_tokens lm (pl_id p) \<noteq> Some (rs_token r) \<and> (rs_started r \<or> rs_root r < pl_id p)
               then Some r else None))"

text \<open>The conditions of the loop body in their order; \<open>None\<close> lets the run start.\<close>

definition block_reason :: "plan_limits \<Rightarrow> occupancy \<Rightarrow> planned \<Rightarrow> blocker option" where
  "block_reason lm oc p =
     (let repository = key_occupants (pl_repository p) (oc_repository oc);
          mount = key_occupants (pl_mount p) (oc_mount oc);
          mount_limit = key_limit (pl_mount p) (lm_mount lm);
          schedule = key_occupants (pl_schedule p) (oc_schedule oc);
          schedule_limit = key_limit (pl_schedule p) (lm_schedule lm);
          stats = oc_source_stats oc
      in if (case rn_repository_id (pl_run p) of None \<Rightarrow> False | Some i \<Rightarrow> i \<in> set (lm_mounted lm)) \<and>
            \<not> is_source_stats (pl_run p)
         then Some \<lparr>bl_kind = Archive_mount, bl_run = 0, bl_limit = 0, bl_what = pl_name p\<rparr>
         else if reserved_against lm p \<noteq> None
         then Some \<lparr>bl_kind = Maintenance_chain, bl_run = rs_root (the (reserved_against lm p)),
                    bl_limit = 0, bl_what = pl_name p\<rparr>
         else if repository \<noteq> []
         then Some \<lparr>bl_kind = Repository_busy, bl_run = min_id repository, bl_limit = 1, bl_what = pl_name p\<rparr>
         else if full mount_limit mount
         then Some \<lparr>bl_kind = Mount_full, bl_run = min_id mount, bl_limit = mount_limit,
                    bl_what = or_empty (pl_mount p)\<rparr>
         else if full schedule_limit schedule
         then Some \<lparr>bl_kind = Schedule_full, bl_run = min_id schedule, bl_limit = schedule_limit,
                    bl_what = (if truthy (rn_schedule_name (pl_run p))
                               then or_empty (rn_schedule_name (pl_run p)) else ''Zeitplan'')\<rparr>
         else if is_source_stats (pl_run p) \<and> lm_source_stats lm \<le> int (length stats)
         then Some \<lparr>bl_kind = Source_stats_full, bl_run = min_id stats, bl_limit = lm_source_stats lm, bl_what = []\<rparr>
         else if full (lm_global lm) (oc_global oc)
         then Some \<lparr>bl_kind = Global_full, bl_run = min_id (oc_global oc), bl_limit = lm_global lm, bl_what = []\<rparr>
         else None)"

record plan =
  pn_selected :: "nat list"
  pn_blockers :: "(nat \<times> blocker) list"

fun plan_queue :: "plan_limits \<Rightarrow> occupancy \<Rightarrow> planned list \<Rightarrow> plan" where
  "plan_queue lm oc [] = \<lparr>pn_selected = [], pn_blockers = []\<rparr>"
| "plan_queue lm oc (p # ps) =
     (case block_reason lm oc p of
        Some b \<Rightarrow> (let pl = plan_queue lm oc ps in pl\<lparr>pn_blockers := (pl_id p, b) # pn_blockers pl\<rparr>)
      | None \<Rightarrow> (let pl = plan_queue lm (occupy lm p oc) ps in pl\<lparr>pn_selected := pl_id p # pn_selected pl\<rparr>))"

definition running_rows :: "planned list \<Rightarrow> planned list" where
  "running_rows ps = filter (\<lambda>p. rn_status (pl_run p) = Running) ps"

definition queued_rows :: "planned list \<Rightarrow> planned list" where
  "queued_rows ps = filter (\<lambda>p. rn_status (pl_run p) = Queued) ps"

definition running_occupancy :: "plan_limits \<Rightarrow> planned list \<Rightarrow> occupancy" where
  "running_occupancy lm ps = fold (occupy lm) (running_rows ps) no_occupants"

definition plan_rows :: "plan_limits \<Rightarrow> planned list \<Rightarrow> plan" where
  "plan_rows lm ps = plan_queue lm (running_occupancy lm ps) (queued_rows ps)"

definition plan_limits_of :: "settings \<Rightarrow> chain_state \<Rightarrow> nat list \<Rightarrow> planned list \<Rightarrow> plan_limits" where
  "plan_limits_of st chs mounted ps =
     \<lparr>lm_mounted = mounted, lm_reservations = fst (chain_snapshot chs),
      lm_tokens = snd (chain_snapshot chs), lm_mount = mount_limits st ps,
      lm_schedule = schedule_limits ps (\<lambda>_. 0), lm_source_stats = source_stats_parallel_limit st,
      lm_global = st_max_parallel_runs st\<rparr>"

text \<open>The unfinished runs with a live task, in the order of their ids.\<close>

definition plan_candidates :: "manager_db \<Rightarrow> live_tasks \<Rightarrow> nat option \<Rightarrow> run list" where
  "plan_candidates db lv current =
     filter (\<lambda>r. rn_id r \<in> set (live_run_ids lv current)) (by_key rn_id (filter unfinished (db_runs db)))"

definition execution_plan ::
    "plan_env \<Rightarrow> settings \<Rightarrow> chain_state \<Rightarrow> live_tasks \<Rightarrow> nat option \<Rightarrow> manager_db \<Rightarrow>
     (url_error, plan) result" where
  "execution_plan env st chs lv current db =
     try_bind (planned_rows env db (plan_candidates db lv current)) (\<lambda>ps.
       Inr (plan_rows (plan_limits_of st chs (fst (scan_archive_mounts env (db_mounts db))) ps) ps))"

section \<open>Claims\<close>

text \<open>
  The state of the process: database, reservations and tasks. \<open>_claim_execution_turn\<close> returns
  whether the slot was claimed, the reason when the plan refused it, and the new state. A
  refused claim does not commit the marking of stale mounts, but the plan has dropped the
  stale tasks.
\<close>

record manager =
  mg_db :: manager_db
  mg_chains :: chain_state
  mg_live :: live_tasks

definition start_run :: "time \<Rightarrow> run \<Rightarrow> run" where
  "start_run now r = r\<lparr>rn_status := Running, rn_started_at := Some now\<rparr>"

definition commit_mount_scan :: "plan_env \<Rightarrow> manager_db \<Rightarrow> manager_db" where
  "commit_mount_scan env db = db\<lparr>db_mounts := snd (scan_archive_mounts env (db_mounts db))\<rparr>"

definition claim_execution_turn ::
    "plan_env \<Rightarrow> settings \<Rightarrow> time \<Rightarrow> nat \<Rightarrow> manager \<Rightarrow>
     (url_error, bool \<times> blocker option \<times> manager) result" where
  "claim_execution_turn env st now i m =
     (case get_run (mg_db m) i of
        None \<Rightarrow> Inr (False, None, m)
      | Some r \<Rightarrow>
          if rn_status r \<noteq> Queued then Inr (False, None, m)
          else try_bind (execution_plan env st (mg_chains m) (mg_live m) (Some i) (mg_db m)) (\<lambda>pl.
            let m' = m\<lparr>mg_live := drop_stale_tasks (mg_live m)\<rparr> in
            if i \<notin> set (pn_selected pl) then Inr (False, map_of (pn_blockers pl) i, m')
            else Inr (True, None,
              m'\<lparr>mg_db := modify_run i (start_run now) (commit_mount_scan env (mg_db m)),
                 mg_chains := mark_repository_chain_started i (mg_chains m)\<rparr>)))"

text \<open>
  \<open>_repository_run_blocker\<close>: an earlier unfinished run, or any running one, of the same
  physical repository.
\<close>

definition execution_key_by_id :: "plan_env \<Rightarrow> manager_db \<Rightarrow> nat \<Rightarrow> string" where
  "execution_key_by_id env db i = repository_execution_key env (get_repository db i) (Some i)"

definition repository_run_blocker :: "plan_env \<Rightarrow> manager_db \<Rightarrow> nat \<Rightarrow> nat \<Rightarrow> nat option" where
  "repository_run_blocker env db i repository =
     (let rows = by_key rn_id (filter (\<lambda>r. unfinished r \<and> rn_id r \<noteq> i) (db_runs db));
          ids = map rn_id (filter (\<lambda>r.
            repository_execution_key env (run_repository db r) (rn_repository_id r) =
              execution_key_by_id env db repository \<and>
            (rn_status r = Running \<or> rn_id r < i)) rows)
      in if ids = [] then None else Some (min_id ids))"

end
