(* ===== verification/PlanCorrect.thy ===== *)
theory PlanCorrect
  imports ExecPlan
begin

text \<open>
  What the planner of \<open>ExecPlan\<close> guarantees: one run per physical repository, the limits of
  mounts, schedules, source scans and of the whole manager, a truthful reason for every
  refused run, and that the first queued run starts when nothing runs.
\<close>

section \<open>Selected and refused rows\<close>

fun chosen :: "plan_limits \<Rightarrow> occupancy \<Rightarrow> planned list \<Rightarrow> planned list" where
  "chosen lm oc [] = []"
| "chosen lm oc (p # ps) =
     (if block_reason lm oc p = None then p # chosen lm (occupy lm p oc) ps else chosen lm oc ps)"

text \<open>The occupancy a row of the queue is decided with, after the rows before it.\<close>

definition occupancy_after :: "plan_limits \<Rightarrow> occupancy \<Rightarrow> planned list \<Rightarrow> occupancy" where
  "occupancy_after lm oc ps = fold (occupy lm) (chosen lm oc ps) oc"

lemma occupancy_after_simps [simp]:
  "occupancy_after lm oc [] = oc"
  "occupancy_after lm oc (p # ps) =
     occupancy_after lm (if block_reason lm oc p = None then occupy lm p oc else oc) ps"
  by (simp_all add: occupancy_after_def)

lemma occupancy_after_append:
  "occupancy_after lm oc (ps @ qs) = occupancy_after lm (occupancy_after lm oc ps) qs"
  by (induction ps arbitrary: oc) auto

lemma plan_queue_selected: "pn_selected (plan_queue lm oc ps) = map pl_id (chosen lm oc ps)"
  by (induction lm oc ps rule: plan_queue.induct) (auto simp: Let_def split: option.splits)

lemma chosen_subset: "set (chosen lm oc ps) \<subseteq> set ps"
  by (induction ps arbitrary: oc) auto

lemma chosen_append:
  "chosen lm oc (ps @ qs) = chosen lm oc ps @ chosen lm (occupancy_after lm oc ps) qs"
  by (induction ps arbitrary: oc) auto

lemma chosen_split:
  "p \<in> set (chosen lm oc ps) \<Longrightarrow>
   \<exists>pre post. ps = pre @ p # post \<and> block_reason lm (occupancy_after lm oc pre) p = None"
proof (induction ps arbitrary: oc)
  case (Cons q ps)
  let ?oc = "if block_reason lm oc q = None then occupy lm q oc else oc"
  consider "p = q" "block_reason lm oc q = None" | "p \<in> set (chosen lm ?oc ps)"
    using Cons.prems by (auto split: if_splits)
  then show ?case
  proof cases
    case 1
    then show ?thesis by (intro exI [of _ "[]"] exI [of _ ps]) simp
  next
    case 2
    from Cons.IH [OF this] obtain pre post
      where "ps = pre @ p # post" "block_reason lm (occupancy_after lm ?oc pre) p = None" by blast
    then show ?thesis by (intro exI [of _ "q # pre"] exI [of _ post]) simp
  qed
qed simp

lemma refused_split:
  "(i, b) \<in> set (pn_blockers (plan_queue lm oc ps)) \<Longrightarrow>
   \<exists>pre p post. ps = pre @ p # post \<and> pl_id p = i \<and>
     block_reason lm (occupancy_after lm oc pre) p = Some b"
proof (induction lm oc ps rule: plan_queue.induct)
  case (2 lm oc q ps)
  show ?case
  proof (cases "block_reason lm oc q")
    case None
    with 2 obtain pre p post where "ps = pre @ p # post" "pl_id p = i"
      "block_reason lm (occupancy_after lm (occupy lm q oc) pre) p = Some b"
      by (auto simp: Let_def)
    with None show ?thesis by (intro exI [of _ "q # pre"] exI [of _ p] exI [of _ post]) simp
  next
    case (Some c)
    show ?thesis
    proof (cases "(i, b) = (pl_id q, c)")
      case True
      with Some show ?thesis by (intro exI [of _ "[]"] exI [of _ q] exI [of _ ps]) simp
    next
      case False
      with Some 2 obtain pre p post where "ps = pre @ p # post" "pl_id p = i"
        "block_reason lm (occupancy_after lm oc pre) p = Some b"
        by (auto simp: Let_def)
      with Some show ?thesis by (intro exI [of _ "q # pre"] exI [of _ p] exI [of _ post]) simp
    qed
  qed
qed simp

lemma plan_queue_ids:
  "set (pn_selected (plan_queue lm oc ps)) \<union> fst ` set (pn_blockers (plan_queue lm oc ps)) = pl_id ` set ps"
  by (induction lm oc ps rule: plan_queue.induct) (auto simp: Let_def split: option.splits)

lemma plan_queue_disjoint:
  "distinct (map pl_id ps) \<Longrightarrow>
   set (pn_selected (plan_queue lm oc ps)) \<inter> fst ` set (pn_blockers (plan_queue lm oc ps)) = {} \<and>
   distinct (pn_selected (plan_queue lm oc ps)) \<and> distinct (map fst (pn_blockers (plan_queue lm oc ps)))"
proof (induction lm oc ps rule: plan_queue.induct)
  case (2 lm oc p ps)
  have sub: "pl_id p \<notin> set (pn_selected (plan_queue lm oc' ps)) \<and>
      pl_id p \<notin> fst ` set (pn_blockers (plan_queue lm oc' ps))" for oc'
    using plan_queue_ids [of lm oc' ps] 2(3) by auto
  show ?case
    using 2 sub by (cases "block_reason lm oc p") (auto simp: Let_def)
qed simp

lemma chosen_by_id:
  "distinct (map pl_id ps) \<Longrightarrow>
   filter (\<lambda>p. pl_id p \<in> set (pn_selected (plan_queue lm oc ps))) ps = chosen lm oc ps"
proof (induction ps arbitrary: oc)
  case (Cons p ps)
  have fresh: "pl_id p \<notin> pl_id ` set (chosen lm oc' ps)" for oc'
    using chosen_subset [of lm oc' ps] Cons.prems by auto
  have ne: "\<forall>q \<in> set ps. pl_id q \<noteq> pl_id p" using Cons.prems by (auto simp: image_iff)
  from ne have drop: "filter (\<lambda>q. pl_id q = pl_id p \<or> pl_id q \<in> S) ps = filter (\<lambda>q. pl_id q \<in> S) ps" for S
    by (intro filter_cong) auto
  show ?case
    using Cons fresh drop by (cases "block_reason lm oc p") (auto simp: plan_queue_selected Let_def)
qed simp

section \<open>Contents of the occupancy\<close>

lemma occupied_repository:
  "oc_repository (fold (occupy lm) ps oc) key =
     oc_repository oc key @ map pl_id (filter (\<lambda>p. pl_repository p = Some key) ps)"
  by (induction ps arbitrary: oc)
    (auto simp: occupy_def group_add_key_def group_add_apply split: option.splits)

lemma occupied_schedule:
  "oc_schedule (fold (occupy lm) ps oc) key =
     oc_schedule oc key @ map pl_id (filter (\<lambda>p. pl_schedule p = Some key) ps)"
  by (induction ps arbitrary: oc)
    (auto simp: occupy_def group_add_key_def group_add_apply split: option.splits)

lemma occupied_mount:
  "0 < lm_mount lm key \<Longrightarrow>
   oc_mount (fold (occupy lm) ps oc) key =
     oc_mount oc key @ map pl_id (filter (\<lambda>p. pl_mount p = Some key) ps)"
  by (induction ps arbitrary: oc)
    (auto simp: occupy_def group_add_apply split: option.splits)

lemma occupied_source_stats:
  "oc_source_stats (fold (occupy lm) ps oc) =
     oc_source_stats oc @ map pl_id (filter (\<lambda>p. is_source_stats (pl_run p)) ps)"
  by (induction ps arbitrary: oc) (auto simp: occupy_def)

lemma occupied_global: "oc_global (fold (occupy lm) ps oc) = oc_global oc @ map pl_id ps"
  by (induction ps arbitrary: oc) (auto simp: occupy_def)

lemma no_occupants_simps [simp]:
  "oc_repository no_occupants key = []" "oc_mount no_occupants key = []"
  "oc_schedule no_occupants key = []" "oc_source_stats no_occupants = []" "oc_global no_occupants = []"
  by (simp_all add: no_occupants_def)

lemmas occupied [plan_simps] =
  occupied_repository occupied_schedule occupied_mount occupied_source_stats occupied_global

section \<open>When a row may start\<close>

lemma block_reason_None:
  "block_reason lm oc p = None \<longleftrightarrow>
     (is_source_stats (pl_run p) \<or> (case rn_repository_id (pl_run p) of None \<Rightarrow> True | Some i \<Rightarrow> i \<notin> set (lm_mounted lm))) \<and>
     reserved_against lm p = None \<and>
     key_occupants (pl_repository p) (oc_repository oc) = [] \<and>
     \<not> full (key_limit (pl_mount p) (lm_mount lm)) (key_occupants (pl_mount p) (oc_mount oc)) \<and>
     \<not> full (key_limit (pl_schedule p) (lm_schedule lm)) (key_occupants (pl_schedule p) (oc_schedule oc)) \<and>
     \<not> (is_source_stats (pl_run p) \<and> lm_source_stats lm \<le> int (length (oc_source_stats oc))) \<and>
     \<not> full (lm_global lm) (oc_global oc)"
  by (auto simp: block_reason_def Let_def split: option.splits)

text \<open>The reason a row is refused for, as a fact about the occupancy.\<close>

fun reason_holds :: "plan_limits \<Rightarrow> occupancy \<Rightarrow> planned \<Rightarrow> blocker_kind \<Rightarrow> bool" where
  "reason_holds lm oc p Archive_mount \<longleftrightarrow>
     (\<exists>i. rn_repository_id (pl_run p) = Some i \<and> i \<in> set (lm_mounted lm)) \<and> \<not> is_source_stats (pl_run p)"
| "reason_holds lm oc p Maintenance_chain \<longleftrightarrow> reserved_against lm p \<noteq> None"
| "reason_holds lm oc p Repository_busy \<longleftrightarrow> key_occupants (pl_repository p) (oc_repository oc) \<noteq> []"
| "reason_holds lm oc p Mount_full \<longleftrightarrow>
     full (key_limit (pl_mount p) (lm_mount lm)) (key_occupants (pl_mount p) (oc_mount oc))"
| "reason_holds lm oc p Schedule_full \<longleftrightarrow>
     full (key_limit (pl_schedule p) (lm_schedule lm)) (key_occupants (pl_schedule p) (oc_schedule oc))"
| "reason_holds lm oc p Source_stats_full \<longleftrightarrow>
     is_source_stats (pl_run p) \<and> lm_source_stats lm \<le> int (length (oc_source_stats oc))"
| "reason_holds lm oc p Global_full \<longleftrightarrow> full (lm_global lm) (oc_global oc)"

lemma if_Some_elim:
  "(if c then Some x else y) = Some z \<Longrightarrow> (c \<Longrightarrow> x = z \<Longrightarrow> P) \<Longrightarrow> (\<not> c \<Longrightarrow> y = Some z \<Longrightarrow> P) \<Longrightarrow> P"
  by (simp split: if_splits)

lemma block_reason_holds: "block_reason lm oc p = Some b \<Longrightarrow> reason_holds lm oc p (bl_kind b)"
  unfolding block_reason_def Let_def by (elim if_Some_elim) (auto split: option.splits)

text \<open>The run and the limit a refusal names.\<close>

fun reason_run :: "plan_limits \<Rightarrow> occupancy \<Rightarrow> planned \<Rightarrow> blocker_kind \<Rightarrow> nat" where
  "reason_run lm oc p Archive_mount = 0"
| "reason_run lm oc p Maintenance_chain = rs_root (the (reserved_against lm p))"
| "reason_run lm oc p Repository_busy = min_id (key_occupants (pl_repository p) (oc_repository oc))"
| "reason_run lm oc p Mount_full = min_id (key_occupants (pl_mount p) (oc_mount oc))"
| "reason_run lm oc p Schedule_full = min_id (key_occupants (pl_schedule p) (oc_schedule oc))"
| "reason_run lm oc p Source_stats_full = min_id (oc_source_stats oc)"
| "reason_run lm oc p Global_full = min_id (oc_global oc)"

fun reason_limit :: "plan_limits \<Rightarrow> planned \<Rightarrow> blocker_kind \<Rightarrow> int" where
  "reason_limit lm p Mount_full = key_limit (pl_mount p) (lm_mount lm)"
| "reason_limit lm p Schedule_full = key_limit (pl_schedule p) (lm_schedule lm)"
| "reason_limit lm p Source_stats_full = lm_source_stats lm"
| "reason_limit lm p Global_full = lm_global lm"
| "reason_limit lm p Repository_busy = 1"
| "reason_limit lm p _ = 0"

lemma block_reason_run: "block_reason lm oc p = Some b \<Longrightarrow> bl_run b = reason_run lm oc p (bl_kind b)"
  unfolding block_reason_def Let_def by (elim if_Some_elim) auto

lemma block_reason_limit: "block_reason lm oc p = Some b \<Longrightarrow> bl_limit b = reason_limit lm p (bl_kind b)"
  unfolding block_reason_def Let_def by (elim if_Some_elim) auto

lemma min_id_Min: "ids \<noteq> [] \<Longrightarrow> min_id ids = Min (set ids)"
  by (cases ids) (simp_all add: min_id_def Min.set_eq_fold [symmetric] del: list.set)

lemma min_id_in: "ids \<noteq> [] \<Longrightarrow> min_id ids \<in> set ids"
  by (simp add: min_id_Min)

lemma min_id_le: "i \<in> set ids \<Longrightarrow> min_id ids \<le> i"
  by (cases "ids = []") (auto simp: min_id_Min)

section \<open>The whole plan\<close>

text \<open>The rows that hold a slot once the plan is carried out: the running and the selected ones.\<close>

definition admitted :: "plan_limits \<Rightarrow> planned list \<Rightarrow> planned list" where
  "admitted lm ps = filter (\<lambda>p. rn_status (pl_run p) = Running \<or>
     rn_status (pl_run p) = Queued \<and> pl_id p \<in> set (pn_selected (plan_rows lm ps))) ps"

definition chosen_rows :: "plan_limits \<Rightarrow> planned list \<Rightarrow> planned list" where
  "chosen_rows lm ps = chosen lm (running_occupancy lm ps) (queued_rows ps)"

text \<open>The number of admitted rows, split into running and chosen ones.\<close>

lemma length_filter_or:
  "(\<And>x. x \<in> set xs \<Longrightarrow> \<not> (P x \<and> Q x)) \<Longrightarrow>
   length (filter (\<lambda>x. P x \<or> Q x) xs) = length (filter P xs) + length (filter Q xs)"
  by (induction xs) auto

lemma distinct_queued: "distinct (map pl_id ps) \<Longrightarrow> distinct (map pl_id (queued_rows ps))"
  by (simp add: queued_rows_def distinct_map_filter)

lemma chosen_rows_eq:
  assumes "distinct (map pl_id ps)"
  shows "chosen_rows lm ps =
    filter (\<lambda>p. rn_status (pl_run p) = Queued \<and> pl_id p \<in> set (pn_selected (plan_rows lm ps))) ps"
proof -
  have "chosen_rows lm ps =
      filter (\<lambda>p. pl_id p \<in> set (pn_selected (plan_rows lm ps))) (queued_rows ps)"
    using chosen_by_id [OF distinct_queued [OF assms]] by (simp add: chosen_rows_def plan_rows_def)
  then show ?thesis by (simp add: queued_rows_def conj_commute)
qed

lemma admitted_count:
  assumes "distinct (map pl_id ps)"
  shows "length (filter P (admitted lm ps)) =
         length (filter P (running_rows ps)) + length (filter P (chosen_rows lm ps))"
proof -
  have "filter P (admitted lm ps) = filter (\<lambda>p. (P p \<and> rn_status (pl_run p) = Running) \<or>
      (P p \<and> rn_status (pl_run p) = Queued \<and> pl_id p \<in> set (pn_selected (plan_rows lm ps)))) ps"
    by (auto simp: admitted_def intro!: filter_cong)
  moreover have "length \<dots> = length (filter (\<lambda>p. P p \<and> rn_status (pl_run p) = Running) ps) +
      length (filter (\<lambda>p. P p \<and> rn_status (pl_run p) = Queued \<and>
        pl_id p \<in> set (pn_selected (plan_rows lm ps))) ps)"
    by (rule length_filter_or) auto
  ultimately show ?thesis
    by (simp add: running_rows_def chosen_rows_eq [OF assms] conj_ac)
qed

lemma admitted_mem:
  "p \<in> set (admitted lm ps) \<longleftrightarrow> p \<in> set ps \<and> (rn_status (pl_run p) = Running \<or>
     rn_status (pl_run p) = Queued \<and> pl_id p \<in> set (pn_selected (plan_rows lm ps)))"
  by (auto simp: admitted_def)

text \<open>Occupants before a queued row are decided: the running rows and the rows chosen so far.\<close>

lemma occupancy_before:
  "occupancy_after lm (running_occupancy lm ps) pre =
     fold (occupy lm) (running_rows ps @ chosen lm (running_occupancy lm ps) pre) no_occupants"
  by (simp add: occupancy_after_def running_occupancy_def)

lemma key_occupants_None [simp]: "key_occupants None g = []"
  and key_occupants_Some [simp]: "key_occupants (Some k) g = g k"
  and key_limit_None [simp]: "key_limit None h = 0"
  and key_limit_Some [simp]: "key_limit (Some k) h = h k"
  by (simp_all add: key_occupants_def key_limit_def)

text \<open>A counted group never exceeds its limit by admitting queued rows.\<close>

lemma chosen_count_le:
  assumes "\<And>p oc. block_reason lm oc p = None \<Longrightarrow> P p \<Longrightarrow> int (length (occupants oc)) < limit"
    and "\<And>rows oc. length (occupants (fold (occupy lm) rows oc)) = length (occupants oc) + length (filter P rows)"
  shows "int (length (occupants oc)) + int (length (filter P (chosen lm oc ps))) \<le>
         max limit (int (length (occupants oc)))"
proof (induction ps arbitrary: oc)
  case (Cons p ps)
  have step: "length (occupants (occupy lm p oc)) = length (occupants oc) + (if P p then 1 else 0)"
    using assms(2) [of "[p]" oc] by simp
  show ?case
  proof (cases "block_reason lm oc p = None")
    case True
    with Cons.IH [of "occupy lm p oc"] step assms(1) [of oc p] show ?thesis by auto
  next
    case False
    then obtain b where "block_reason lm oc p = Some b" by auto
    with Cons.IH [of oc] show ?thesis by simp
  qed
qed simp

lemma admitted_count_le:
  assumes "distinct (map pl_id ps)"
    and "\<And>p oc. block_reason lm oc p = None \<Longrightarrow> P p \<Longrightarrow> int (length (occupants oc)) < limit"
    and "\<And>rows oc. length (occupants (fold (occupy lm) rows oc)) = length (occupants oc) + length (filter P rows)"
    and "occupants no_occupants = []"
  shows "int (length (filter P (admitted lm ps))) \<le> max limit (int (length (filter P (running_rows ps))))"
  using chosen_count_le [where P = P and occupants = occupants and limit = limit
      and oc = "running_occupancy lm ps" and ps = "queued_rows ps", OF assms(2,3)]
    assms(3) [of "running_rows ps" no_occupants] assms(4)
  by (simp add: admitted_count [OF assms(1)] running_occupancy_def chosen_rows_def)

lemma chosen_row_free:
  assumes "p \<in> set (chosen_rows lm ps)"
  obtains pre post where "queued_rows ps = pre @ p # post"
    and "block_reason lm (occupancy_after lm (running_occupancy lm ps) pre) p = None"
  using chosen_split assms unfolding chosen_rows_def by blast

lemma admitted_cases:
  assumes "distinct (map pl_id ps)" and "q \<in> set (admitted lm ps)"
  shows "q \<in> set (running_rows ps) \<or> q \<in> set (chosen_rows lm ps)"
  using assms(2) by (auto simp: admitted_mem running_rows_def chosen_rows_eq [OF assms(1)])

text \<open>The repository of a chosen row is not occupied by a running or an earlier chosen one.\<close>

lemma repository_free:
  assumes "block_reason lm (occupancy_after lm (running_occupancy lm ps) pre) p = None"
    and "pl_repository p = Some key"
    and "q \<in> set (running_rows ps) \<or> q \<in> set (chosen lm (running_occupancy lm ps) pre)"
  shows "pl_repository q \<noteq> Some key"
proof -
  have "oc_repository (occupancy_after lm (running_occupancy lm ps) pre) key = []"
    using assms(1,2) by (simp add: block_reason_None)
  then have "filter (\<lambda>p. pl_repository p = Some key)
      (running_rows ps @ chosen lm (running_occupancy lm ps) pre) = []"
    by (simp add: occupancy_before occupied_repository)
  then show ?thesis using assms(3) by (auto simp: filter_empty_conv)
qed

lemma single_admitted:
  assumes d: "distinct (map pl_id ps)" and p: "p \<in> set (chosen_rows lm ps)"
    and key: "pl_repository p = Some key"
    and q: "q \<in> set (admitted lm ps)" and same: "pl_repository q = Some key"
  shows "q = p"
proof -
  obtain pre post where split: "queued_rows ps = pre @ p # post"
    and free: "block_reason lm (occupancy_after lm (running_occupancy lm ps) pre) p = None"
    using p by (rule chosen_row_free)
  let ?oc = "occupancy_after lm (running_occupancy lm ps) pre"
  have rows: "chosen_rows lm ps =
      chosen lm (running_occupancy lm ps) pre @ p # chosen lm (occupy lm p ?oc) post"
    using free by (simp add: chosen_rows_def split chosen_append)
  have "q \<notin> set (chosen lm (occupy lm p ?oc) post)"
  proof
    assume "q \<in> set (chosen lm (occupy lm p ?oc) post)"
    then obtain mid rest where "post = mid @ q # rest"
      and later: "block_reason lm (occupancy_after lm (running_occupancy lm ps) (pre @ p # mid)) q = None"
      using chosen_split [of q lm "occupy lm p ?oc" post] free by (auto simp: occupancy_after_append)
    moreover have "p \<in> set (chosen lm (running_occupancy lm ps) (pre @ p # mid))"
      using free by (simp add: chosen_append)
    ultimately show False using repository_free [OF later same] key by blast
  qed
  moreover have "q \<notin> set (running_rows ps)" "q \<notin> set (chosen lm (running_occupancy lm ps) pre)"
    using repository_free [OF free key] same by blast+
  ultimately show ?thesis
    using admitted_cases [OF d q] rows by auto
qed

text \<open>The rows that occupy before a queued row is decided are admitted in the end.\<close>

lemma before_admitted:
  fixes lm :: plan_limits
  assumes d: "distinct (map pl_id ps)" and split: "queued_rows ps = pre @ p # post"
  defines "before \<equiv> running_rows ps @ chosen lm (running_occupancy lm ps) pre"
  shows "set before \<subseteq> set (admitted lm ps)"
    and "length (filter P before) \<le> length (filter P (admitted lm ps))"
proof -
  obtain rest where rest: "chosen_rows lm ps = chosen lm (running_occupancy lm ps) pre @ rest"
    unfolding chosen_rows_def split chosen_append by blast
  have "set (chosen_rows lm ps) \<subseteq> set (admitted lm ps)"
    by (auto simp: chosen_rows_eq [OF d] admitted_mem)
  moreover have "set (running_rows ps) \<subseteq> set (admitted lm ps)"
    by (auto simp: running_rows_def admitted_mem)
  ultimately show "set before \<subseteq> set (admitted lm ps)" by (auto simp: before_def rest)
  show "length (filter P before) \<le> length (filter P (admitted lm ps))"
    by (simp add: admitted_count [OF d] before_def rest)
qed

lemma min_id_filter:
  "filter P rows \<noteq> [] \<Longrightarrow> set rows \<subseteq> A \<Longrightarrow> \<exists>q \<in> A. pl_id q = min_id (map pl_id (filter P rows)) \<and> P q"
  using min_id_in [of "map pl_id (filter P rows)"] by auto

lemma full_nonempty: "full n xs \<Longrightarrow> xs \<noteq> []"
  by (auto simp: full_def)

lemma group_full:
  assumes "full n (map pl_id (filter P rows))" and "set rows \<subseteq> A"
  shows "\<exists>q \<in> A. pl_id q = min_id (map pl_id (filter P rows)) \<and> P q"
  using min_id_filter [OF _ assms(2)] full_nonempty [OF assms(1)] by force

lemma reason_facts:
  assumes blocked: "block_reason lm (fold (occupy lm) before no_occupants) p = Some b"
    and sub: "set before \<subseteq> set rows"
    and count: "\<And>P. length (filter P before) \<le> length (filter P rows)"
  shows "case bl_kind b of
       Archive_mount \<Rightarrow> \<exists>r. rn_repository_id (pl_run p) = Some r \<and> r \<in> set (lm_mounted lm)
     | Maintenance_chain \<Rightarrow> \<exists>key r. pl_repository p = Some key \<and> lm_reservations lm key = Some r \<and>
         rs_root r = bl_run b \<and> lm_tokens lm (pl_id p) \<noteq> Some (rs_token r)
     | Repository_busy \<Rightarrow> \<exists>q \<in> set rows. pl_id q = bl_run b \<and>
         pl_repository q = pl_repository p \<and> pl_repository p \<noteq> None
     | Mount_full \<Rightarrow> (\<exists>q \<in> set rows. pl_id q = bl_run b \<and> pl_mount q = pl_mount p) \<and>
         bl_limit b \<le> int (length (filter (\<lambda>q. pl_mount q = pl_mount p) rows))
     | Schedule_full \<Rightarrow> (\<exists>q \<in> set rows. pl_id q = bl_run b \<and> pl_schedule q = pl_schedule p) \<and>
         bl_limit b \<le> int (length (filter (\<lambda>q. pl_schedule q = pl_schedule p) rows))
     | Source_stats_full \<Rightarrow> is_source_stats (pl_run p) \<and>
         bl_limit b \<le> int (length (filter (\<lambda>q. is_source_stats (pl_run q)) rows))
     | Global_full \<Rightarrow> (\<exists>q \<in> set rows. pl_id q = bl_run b) \<and> bl_limit b \<le> int (length rows)"
proof -
  note facts = block_reason_holds [OF blocked] block_reason_run [OF blocked] block_reason_limit [OF blocked]
  show ?thesis
  proof (cases "bl_kind b")
    case Archive_mount
    with facts show ?thesis by simp
  next
    case Maintenance_chain
    with facts obtain r where "reserved_against lm p = Some r" "bl_run b = rs_root r" by auto
    with Maintenance_chain show ?thesis
      by (auto simp: reserved_against_def split: if_splits option.splits)
  next
    case Repository_busy
    with facts(1) obtain key where key: "pl_repository p = Some key"
        "filter (\<lambda>q. pl_repository q = Some key) before \<noteq> []"
      by (cases "pl_repository p") (simp_all add: plan_simps)
    with min_id_filter [OF key(2) sub] facts(2) Repository_busy show ?thesis
      by (auto simp: plan_simps)
  next
    case Mount_full
    with facts(1) obtain key where key: "pl_mount p = Some key" and pos: "0 < lm_mount lm key"
      by (cases "pl_mount p") (auto simp: full_def)
    with facts Mount_full have f: "full (bl_limit b) (map pl_id (filter (\<lambda>q. pl_mount q = Some key) before))"
        "bl_run b = min_id (map pl_id (filter (\<lambda>q. pl_mount q = Some key) before))"
      by (simp_all add: plan_simps)
    from group_full [OF f(1) sub] count [of "\<lambda>q. pl_mount q = Some key"] f key Mount_full show ?thesis
      by (auto simp: full_def)
  next
    case Schedule_full
    with facts(1) obtain key where key: "pl_schedule p = Some key"
      by (cases "pl_schedule p") (auto simp: full_def)
    with facts Schedule_full have f: "full (bl_limit b) (map pl_id (filter (\<lambda>q. pl_schedule q = Some key) before))"
        "bl_run b = min_id (map pl_id (filter (\<lambda>q. pl_schedule q = Some key) before))"
      by (simp_all add: plan_simps)
    from group_full [OF f(1) sub] count [of "\<lambda>q. pl_schedule q = Some key"] f key Schedule_full show ?thesis
      by (auto simp: full_def)
  next
    case Source_stats_full
    with facts count [of "\<lambda>q. is_source_stats (pl_run q)"] show ?thesis by (simp add: plan_simps)
  next
    case Global_full
    with facts have f: "full (bl_limit b) (map pl_id (filter (\<lambda>_. True) before))"
        "bl_run b = min_id (map pl_id (filter (\<lambda>_. True) before))"
      by (simp_all add: plan_simps)
    from group_full [OF f(1) sub] count [of "\<lambda>_. True"] f Global_full show ?thesis
      by (auto simp: full_def)
  qed
qed

lemma refused_at:
  "block_reason lm (occupancy_after lm oc pre) p = Some b \<Longrightarrow>
   (pl_id p, b) \<in> set (pn_blockers (plan_queue lm oc (pre @ p # post)))"
  by (induction pre arbitrary: oc) (auto simp: Let_def split: option.splits)

text \<open>Admitting more rows never frees a slot.\<close>

lemma full_grows:
  "key_occupants k (oc_repository oc) \<noteq> [] \<Longrightarrow> key_occupants k (oc_repository (fold (occupy lm) rows oc)) \<noteq> []"
  "full (key_limit k (lm_mount lm)) (key_occupants k (oc_mount oc)) \<Longrightarrow>
   full (key_limit k (lm_mount lm)) (key_occupants k (oc_mount (fold (occupy lm) rows oc)))"
  "full n (oc_global oc) \<Longrightarrow> full n (oc_global (fold (occupy lm) rows oc))"
  by (cases k; auto simp: plan_simps full_def)+

section \<open>Example rows\<close>

definition demo_row :: "nat \<Rightarrow> run_status \<Rightarrow> string \<Rightarrow> planned" where
  "demo_row i status target =
     \<lparr>pl_run = sample_run\<lparr>rn_id := i, rn_status := status\<rparr>, pl_name = target,
      pl_repository = Some (''managed:/repositories/'' @ target), pl_mount = Some ''/repositories''\<rparr>"

definition demo_rows :: "planned list" where
  "demo_rows = [demo_row 1 Running ''a'', demo_row 2 Queued ''a'', demo_row 3 Queued ''b'', demo_row 4 Queued ''c'']"

definition demo_limits :: "int \<Rightarrow> plan_limits" where
  "demo_limits n = \<lparr>lm_mounted = [], lm_reservations = (\<lambda>_. None), lm_tokens = (\<lambda>_. None),
     lm_mount = (\<lambda>_. n), lm_schedule = (\<lambda>_. 0), lm_source_stats = 1, lm_global = 0\<rparr>"

lemma demo_distinct: "distinct (map pl_id demo_rows)"
  by code_simp

text \<open>A schedule that is full with run 1 holds run 2 back, and run 3 of the same repository passes.\<close>

definition scheduled_row :: "nat \<Rightarrow> run_status \<Rightarrow> string \<Rightarrow> planned" where
  "scheduled_row i status target = (demo_row i status target)
     \<lparr>pl_run := sample_run\<lparr>rn_id := i, rn_status := status, rn_trigger := Scheduled, rn_schedule_id := Some 7\<rparr>\<rparr>"

definition overtaking_rows :: "planned list" where
  "overtaking_rows = [(scheduled_row 1 Running ''b'')\<lparr>pl_mount := Some ''/m2''\<rparr>,
     scheduled_row 2 Queued ''a'', demo_row 3 Queued ''a'']"

section \<open>The four limits\<close>

lemma mount_count_le:
  "distinct (map pl_id ps) \<Longrightarrow> 0 < lm_mount lm m \<Longrightarrow>
     int (length (filter (\<lambda>p. pl_mount p = Some m) (admitted lm ps))) \<le>
     max (lm_mount lm m) (int (length (filter (\<lambda>p. pl_mount p = Some m) (running_rows ps))))"
  by (rule admitted_count_le [where occupants = "\<lambda>oc. oc_mount oc m"])
    (auto simp: block_reason_None full_def occupied_mount)

lemma schedule_count_le:
  "distinct (map pl_id ps) \<Longrightarrow> 0 < lm_schedule lm s \<Longrightarrow>
     int (length (filter (\<lambda>p. pl_schedule p = Some s) (admitted lm ps))) \<le>
     max (lm_schedule lm s) (int (length (filter (\<lambda>p. pl_schedule p = Some s) (running_rows ps))))"
  by (rule admitted_count_le [where occupants = "\<lambda>oc. oc_schedule oc s"])
    (auto simp: block_reason_None full_def occupied_schedule)

lemma source_stats_count_le:
  "distinct (map pl_id ps) \<Longrightarrow>
     int (length (filter (\<lambda>p. is_source_stats (pl_run p)) (admitted lm ps))) \<le>
     max (lm_source_stats lm) (int (length (filter (\<lambda>p. is_source_stats (pl_run p)) (running_rows ps))))"
  by (rule admitted_count_le [where occupants = oc_source_stats])
    (auto simp: block_reason_None occupied_source_stats)

lemma global_count_le:
  "distinct (map pl_id ps) \<Longrightarrow> 0 < lm_global lm \<Longrightarrow>
     int (length (filter (\<lambda>_. True) (admitted lm ps))) \<le>
     max (lm_global lm) (int (length (filter (\<lambda>_. True) (running_rows ps))))"
  by (rule admitted_count_le [where occupants = oc_global])
    (auto simp: block_reason_None full_def occupied_global)

section \<open>Properties\<close>

text \<open>
  C2: the planner never lets two runs into one physical repository. A queued run that it
  selects is the only run of its repository among the running and the selected ones.
\<close>

theorem plan_one_run_per_repository:
  assumes "distinct (map pl_id ps)"
    and "p \<in> set (admitted lm ps)" and "rn_status (pl_run p) = Queued"
    and "pl_repository p = Some key"
  shows "{q \<in> set (admitted lm ps). pl_repository q = Some key} = {p}"
proof -
  have "p \<in> set (chosen_rows lm ps)"
    using assms(2,3) by (simp add: admitted_mem chosen_rows_eq [OF assms(1)])
  then show ?thesis using single_admitted [OF assms(1) _ assms(4)] assms(2,4) by blast
qed

theorem plan_one_run_per_repository_witness:
  "{q \<in> set (admitted (demo_limits 2) demo_rows).
      pl_repository q = Some ''managed:/repositories/b''} = {demo_row 3 Queued ''b''}"
  by (rule plan_one_run_per_repository [OF demo_distinct]) code_simp+

text \<open>
  C4: every configured limit holds. Once a plan is carried out, the runs on a limited file
  system, of a limited schedule, the source scans and all runs together number at most the
  limit, unless more were already running when the limit was lowered.
\<close>

theorem plan_limits_respected:
  assumes d: "distinct (map pl_id ps)"
  shows "(0 < lm_mount lm m \<longrightarrow>
       int (length (filter (\<lambda>p. pl_mount p = Some m) (admitted lm ps))) \<le>
       max (lm_mount lm m) (int (length (filter (\<lambda>p. pl_mount p = Some m) (running_rows ps))))) \<and>
    (0 < lm_schedule lm s \<longrightarrow>
       int (length (filter (\<lambda>p. pl_schedule p = Some s) (admitted lm ps))) \<le>
       max (lm_schedule lm s) (int (length (filter (\<lambda>p. pl_schedule p = Some s) (running_rows ps))))) \<and>
    int (length (filter (\<lambda>p. is_source_stats (pl_run p)) (admitted lm ps))) \<le>
       max (lm_source_stats lm) (int (length (filter (\<lambda>p. is_source_stats (pl_run p)) (running_rows ps)))) \<and>
    (0 < lm_global lm \<longrightarrow>
       int (length (filter (\<lambda>_. True) (admitted lm ps))) \<le>
       max (lm_global lm) (int (length (filter (\<lambda>_. True) (running_rows ps)))))"
  using mount_count_le [OF d, of lm m] schedule_count_le [OF d, of lm s]
    source_stats_count_le [OF d, of lm] global_count_le [OF d, of lm]
  by blast

theorem plan_limits_respected_witness:
  "length (filter (\<lambda>p. pl_mount p = Some ''/repositories'') (admitted (demo_limits 2) demo_rows)) \<le> 2"
proof -
  have "length (filter (\<lambda>p. pl_mount p = Some ''/repositories'') (running_rows demo_rows)) = 1" by code_simp
  then show ?thesis
    using plan_limits_respected [OF demo_distinct, of "demo_limits 2" "''/repositories''" "''s''"]
    by (simp add: demo_limits_def)
qed

text \<open>
  every queued run is either selected or refused, exactly once, and the plan mentions no
  other run.
\<close>

theorem plan_decides_every_queued_run:
  assumes "distinct (map pl_id ps)"
  shows "distinct (pn_selected (plan_rows lm ps) @ map fst (pn_blockers (plan_rows lm ps))) \<and>
    set (pn_selected (plan_rows lm ps) @ map fst (pn_blockers (plan_rows lm ps))) =
      pl_id ` set (queued_rows ps)"
proof -
  note plan_queue_ids [of lm "running_occupancy lm ps" "queued_rows ps"]
    plan_queue_disjoint [OF distinct_queued [OF assms], of lm "running_occupancy lm ps"]
  then show ?thesis by (auto simp: plan_rows_def)
qed

theorem plan_decides_every_queued_run_witness:
  "set (pn_selected (plan_rows (demo_limits 2) demo_rows) @
      map fst (pn_blockers (plan_rows (demo_limits 2) demo_rows))) = {2, 3, 4}"
proof -
  have "pl_id ` set (queued_rows demo_rows) = {2, 3, 4}" by code_simp
  then show ?thesis using plan_decides_every_queued_run [OF demo_distinct] by simp
qed

text \<open>
  the reason a run is refused for is true. A run refused for its repository names a
  running or selected run of that very repository; a run refused for a limit names a holder
  of the same group, and the group really holds as many runs as the limit says.
\<close>

theorem plan_reasons_truthful:
  assumes d: "distinct (map pl_id ps)" and b: "(i, b) \<in> set (pn_blockers (plan_rows lm ps))"
  shows "\<exists>p \<in> set (queued_rows ps). pl_id p = i \<and>
    (case bl_kind b of
       Archive_mount \<Rightarrow> \<exists>r. rn_repository_id (pl_run p) = Some r \<and> r \<in> set (lm_mounted lm)
     | Maintenance_chain \<Rightarrow> \<exists>key r. pl_repository p = Some key \<and> lm_reservations lm key = Some r \<and>
         rs_root r = bl_run b \<and> lm_tokens lm i \<noteq> Some (rs_token r)
     | Repository_busy \<Rightarrow> \<exists>q \<in> set (admitted lm ps). pl_id q = bl_run b \<and>
         pl_repository q = pl_repository p \<and> pl_repository p \<noteq> None
     | Mount_full \<Rightarrow> (\<exists>q \<in> set (admitted lm ps). pl_id q = bl_run b \<and> pl_mount q = pl_mount p) \<and>
         bl_limit b \<le> int (length (filter (\<lambda>q. pl_mount q = pl_mount p) (admitted lm ps)))
     | Schedule_full \<Rightarrow> (\<exists>q \<in> set (admitted lm ps). pl_id q = bl_run b \<and> pl_schedule q = pl_schedule p) \<and>
         bl_limit b \<le> int (length (filter (\<lambda>q. pl_schedule q = pl_schedule p) (admitted lm ps)))
     | Source_stats_full \<Rightarrow> is_source_stats (pl_run p) \<and>
         bl_limit b \<le> int (length (filter (\<lambda>q. is_source_stats (pl_run q)) (admitted lm ps)))
     | Global_full \<Rightarrow> (\<exists>q \<in> set (admitted lm ps). pl_id q = bl_run b) \<and>
         bl_limit b \<le> int (length (admitted lm ps)))"
proof -
  obtain pre p post where split: "queued_rows ps = pre @ p # post" and p: "pl_id p = i"
    and blocked: "block_reason lm (occupancy_after lm (running_occupancy lm ps) pre) p = Some b"
    using refused_split b unfolding plan_rows_def by blast
  define before where "before = running_rows ps @ chosen lm (running_occupancy lm ps) pre"
  have blocked: "block_reason lm (fold (occupy lm) before no_occupants) p = Some b"
    using blocked by (simp add: occupancy_before before_def)
  have adm: "set before \<subseteq> set (admitted lm ps)"
    "\<And>P. length (filter P before) \<le> length (filter P (admitted lm ps))"
    using before_admitted [OF d split] by (simp_all add: before_def)
  have "p \<in> set (queued_rows ps)" by (simp add: split)
  moreover note reason_facts [OF blocked adm]
  ultimately show ?thesis using p by blast
qed

theorem plan_reasons_truthful_witness:
  "\<exists>q \<in> set (admitted (demo_limits 2) demo_rows). pl_id q = 1 \<and> pl_repository q = Some ''managed:/repositories/a''"
proof -
  let ?b = "\<lparr>bl_kind = Repository_busy, bl_run = 1, bl_limit = 1, bl_what = ''a''\<rparr>"
  have b: "(2, ?b) \<in> set (pn_blockers (plan_rows (demo_limits 2) demo_rows))" by code_simp
  from plan_reasons_truthful [OF demo_distinct b] obtain p
    where "p \<in> set (queued_rows demo_rows)" "pl_id p = 2"
      and q: "\<exists>q \<in> set (admitted (demo_limits 2) demo_rows). pl_id q = 1 \<and> pl_repository q = pl_repository p"
    by auto
  then have "pl_repository p = Some ''managed:/repositories/a''"
    by (auto simp: queued_rows_def demo_rows_def demo_row_def)
  with q show ?thesis by simp
qed

text \<open>
  C7: the queue cannot stall by itself. When no run is running, the first queued run is
  selected, whatever the limits are, unless its repository has an active archive mount or is
  reserved for another maintenance chain.
\<close>

theorem plan_starts_first_run:
  assumes "running_rows ps = []" and "queued_rows ps = p # rest"
    and "0 < lm_source_stats lm" and "reserved_against lm p = None"
    and "\<And>r. rn_repository_id (pl_run p) = Some r \<Longrightarrow> r \<notin> set (lm_mounted lm)"
  shows "pl_id p \<in> set (pn_selected (plan_rows lm ps))"
proof -
  have empty: "running_occupancy lm ps = no_occupants"
    by (simp add: running_occupancy_def assms(1))
  have "key_occupants k (\<lambda>_. []) = []" for k by (cases k) simp_all
  then have "block_reason lm no_occupants p = None"
    using assms(3-5) by (auto simp: block_reason_None no_occupants_def full_def split: option.splits)
  then show ?thesis by (simp add: plan_rows_def assms(2) empty Let_def)
qed

theorem plan_starts_first_run_witness:
  "5 \<in> set (pn_selected (plan_rows (demo_limits 1) [demo_row 5 Queued ''a'', demo_row 6 Queued ''a'']))"
  using plan_starts_first_run [of "[demo_row 5 Queued ''a'', demo_row 6 Queued ''a'']" "demo_row 5 Queued ''a''"
      "[demo_row 6 Queued ''a'']" "demo_limits 1"]
  by (simp add: demo_row_def demo_limits_def running_rows_def queued_rows_def reserved_against_def)

text \<open>
  C8: in the queue of one physical repository a run is only overtaken for a reason of its own.
  When a later run of the same repository and file system is selected, the earlier one was
  refused because of an archive mount, a maintenance chain, its schedule's limit or the
  limit of source scans.
\<close>

theorem plan_overtakes_only_for_cause:
  assumes "queued_rows ps = pre @ p # mid @ q # post"
    and "distinct (map pl_id ps)"
    and "pl_repository p = pl_repository q" and "pl_mount p = pl_mount q"
    and "pl_id q \<in> set (pn_selected (plan_rows lm ps))" and "pl_repository q \<noteq> None"
  shows "\<exists>b. (pl_id p, b) \<in> set (pn_blockers (plan_rows lm ps)) \<and>
    bl_kind b \<in> {Archive_mount, Maintenance_chain, Schedule_full, Source_stats_full}"
proof -
  let ?ro = "running_occupancy lm ps"
  let ?oc = "occupancy_after lm ?ro"
  have d: "distinct (map pl_id (queued_rows ps))" using assms(2) by (rule distinct_queued)
  note disjoint = plan_queue_disjoint [OF d, of lm ?ro]
  have q_free: "block_reason lm (?oc (pre @ p # mid)) q = None"
  proof (cases "block_reason lm (?oc (pre @ p # mid)) q")
    case (Some b)
    then have "(pl_id q, b) \<in> set (pn_blockers (plan_queue lm ?ro ((pre @ p # mid) @ q # post)))"
      by (rule refused_at)
    with disjoint assms(1,5) show ?thesis by (force simp: plan_rows_def)
  qed
  have later: "\<exists>rows. ?oc (pre @ p # mid) = fold (occupy lm) rows (?oc pre)"
    by (simp add: occupancy_after_append) (auto simp: occupancy_after_def intro: exI [of _ "_ # _"])
  have p_not: "block_reason lm (?oc pre) p \<noteq> None"
  proof
    assume "block_reason lm (?oc pre) p = None"
    then have "p \<in> set (chosen lm ?ro (pre @ p # mid))" by (simp add: chosen_append)
    moreover obtain key where "pl_repository q = Some key" using assms(6) by blast
    ultimately show False using repository_free [OF q_free, of key p] assms(3) by simp
  qed
  then obtain b where b: "block_reason lm (?oc pre) p = Some b" by auto
  have "bl_kind b \<notin> {Repository_busy, Mount_full, Global_full}"
    using block_reason_holds [OF b] q_free later assms(3,4) by (auto simp: block_reason_None full_grows)
  then have "bl_kind b \<in> {Archive_mount, Maintenance_chain, Schedule_full, Source_stats_full}"
    by (cases "bl_kind b") simp_all
  moreover have "(pl_id p, b) \<in> set (pn_blockers (plan_rows lm ps))"
    using refused_at [OF b, of "mid @ q # post"] by (simp add: plan_rows_def assms(1))
  ultimately show ?thesis by blast
qed

theorem plan_overtakes_only_for_cause_witness:
  "\<exists>b. (2, b) \<in> set (pn_blockers (plan_rows ((demo_limits 1)\<lparr>lm_schedule := (\<lambda>_. 1)\<rparr>) overtaking_rows)) \<and>
    bl_kind b \<in> {Archive_mount, Maintenance_chain, Schedule_full, Source_stats_full}"
proof -
  have "queued_rows overtaking_rows = [] @ scheduled_row 2 Queued ''a'' # [] @ demo_row 3 Queued ''a'' # []"
    "distinct (map pl_id overtaking_rows)"
    "3 \<in> set (pn_selected (plan_rows ((demo_limits 1)\<lparr>lm_schedule := (\<lambda>_. 1)\<rparr>) overtaking_rows))"
    by code_simp+
  from plan_overtakes_only_for_cause [OF this(1,2), of "(demo_limits 1)\<lparr>lm_schedule := (\<lambda>_. 1)\<rparr>"] this(3)
  show ?thesis by (simp add: scheduled_row_def demo_row_def)
qed

end
