(* ===== verification/RunQueue.thy ===== *)
theory RunQueue
  imports PlanCorrect Systems
begin

text \<open>
  The run queue as a transition system: runs are stored and tracked, claim their turn, start
  as an archive refresh, finish, and maintenance chains are released, in any order. Each step
  is one stretch of the source without an \<open>await\<close>. The settings may be different at every claim, and
  every other request may change the rest of the database, but it neither moves the place of a repository with
  unfinished runs or a reserved chain nor deletes such runs or the root of such a chain: \<open>update_repository\<close>
  and \<open>cleanup_run_history\<close> do not check all of that, see \<open>relocation_breaks_exclusion\<close>. An execution
  that ends also records the end of its run. Mounts come and go between claims, but paths keep being resolved
  alike.
\<close>

section \<open>Task bookkeeping\<close>

text \<open>\<open>_active_run_tasks[run_id] = task\<close>, done in the stretch that stores the run.\<close>

definition track_task :: "nat \<Rightarrow> manager \<Rightarrow> manager" where
  "track_task i m = m\<lparr>mg_live := (mg_live m)\<lparr>lv_tasks := dict_set i True (lv_tasks (mg_live m))\<rparr>\<rparr>"

text \<open>\<open>_executing_run_ids.add(run_id)\<close> at the start of \<open>execute_run\<close>, and its \<open>finally\<close> part.\<close>

definition enter_execution :: "nat \<Rightarrow> manager \<Rightarrow> manager" where
  "enter_execution i m = m\<lparr>mg_live := (mg_live m)\<lparr>lv_executing := i # lv_executing (mg_live m)\<rparr>\<rparr>"

definition leave_execution :: "nat \<Rightarrow> manager \<Rightarrow> manager" where
  "leave_execution i m = m\<lparr>mg_live :=
     \<lparr>lv_tasks = dict_pop i (lv_tasks (mg_live m)),
      lv_executing = filter (\<lambda>j. j \<noteq> i) (lv_executing (mg_live m))\<rparr>\<rparr>"

definition store_run :: "run \<Rightarrow> manager \<Rightarrow> manager" where
  "store_run r m = m\<lparr>mg_db := insert_run r (mg_db m)\<rparr>"

definition change_run :: "nat \<Rightarrow> (run \<Rightarrow> run) \<Rightarrow> manager \<Rightarrow> manager" where
  "change_run i f m = m\<lparr>mg_db := modify_run i f (mg_db m)\<rparr>"

definition change_chains :: "(chain_state \<Rightarrow> chain_state) \<Rightarrow> manager \<Rightarrow> manager" where
  "change_chains f m = m\<lparr>mg_chains := f (mg_chains m)\<rparr>"

definition finish_run :: "run_status \<Rightarrow> time \<Rightarrow> run \<Rightarrow> run" where
  "finish_run s now r = r\<lparr>rn_status := s, rn_finished_at := Some now\<rparr>"

definition is_live :: "manager \<Rightarrow> nat \<Rightarrow> bool" where
  "is_live m i \<longleftrightarrow> i \<in> set (live_run_ids (mg_live m) None)"

text \<open>
  The start of \<open>execute_repository_archive_refresh\<close>, up to the commit of the running status; the
  code does not await between the check for blockers and that commit. \<open>present\<close> answers whether
  a managed repository is there. A refused run ends as failed.
\<close>

datatype refresh_start = Gone | Waiting nat | Refused queue_error | Started manager

definition start_archive_refresh ::
    "plan_env \<Rightarrow> (repository \<Rightarrow> bool) \<Rightarrow> time \<Rightarrow> nat \<Rightarrow> nat \<Rightarrow> manager \<Rightarrow> refresh_start" where
  "start_archive_refresh env present now i repository m =
     (case get_run (mg_db m) i of
        None \<Rightarrow> Gone
      | Some r \<Rightarrow>
          if rn_status r \<noteq> Queued then Gone
          else case repository_run_blocker env (mg_db m) i repository of
            Some b \<Rightarrow> Waiting b
          | None \<Rightarrow>
              (case get_repository (mg_db m) repository of
                 None \<Rightarrow> Refused Repository_missing
               | Some p \<Rightarrow>
                   if \<not> rp_enabled p then Refused Repository_disabled
                   else if \<not> rp_initialized p then Refused Repository_uninitialized
                   else if truthy (rp_storage_path p) \<and> \<not> present p then Refused Repository_unavailable
                   else Started (change_run i (start_run now) m)))"

section \<open>Steps\<close>

text \<open>A run whose repository must not move: it is unfinished or the root of a reserved chain.\<close>

definition pinned_run :: "manager \<Rightarrow> run \<Rightarrow> bool" where
  "pinned_run m r \<longleftrightarrow> rn_status r \<in> {Queued, Running} \<or> (\<exists>k. \<exists>c \<in> set (chain_queue (mg_chains m) k). rs_root c = rn_id r)"

text \<open>
  Another request: pinned runs stay, with the places of their repositories; other runs may lose their
  references (\<open>delete_job\<close>, \<open>delete_repository\<close>) or be deleted (\<open>cleanup_run_history\<close>).
\<close>

definition other_change :: "plan_env \<Rightarrow> manager \<Rightarrow> (run \<Rightarrow> bool) \<Rightarrow> (run \<Rightarrow> run) \<Rightarrow> manager_db \<Rightarrow> bool" where
  "other_change env m keep f db \<longleftrightarrow> db_runs db = map f (filter keep (db_runs (mg_db m))) \<and>
     (\<forall>r \<in> set (db_runs (mg_db m)). rn_id (f r) = rn_id r \<and> rn_status (f r) = rn_status r \<and>
        (pinned_run m r \<longrightarrow> keep r \<and> f r = r \<and> row_repository_key env db r = row_repository_key env (mg_db m) r))"

inductive queue_step :: "plan_env \<Rightarrow> manager \<Rightarrow> manager \<Rightarrow> bool" for env where
  Submit:
    "rn_id r = next_run_id (mg_db m) \<Longrightarrow> rn_status r = Queued \<Longrightarrow>
     queue_step env m (track_task (rn_id r) (change_chains (register_chain_run (rn_id r) token) (store_run r m)))"
| Submit_chain:
    "rn_id r = next_run_id (mg_db m) \<Longrightarrow> rn_status r = Queued \<Longrightarrow>
     row_repository_key env (mg_db m) r = Some key \<Longrightarrow> token \<noteq> [] \<Longrightarrow>
     \<forall>k. \<forall>s \<in> set (chain_queue (mg_chains m) k). rs_token s \<noteq> token \<Longrightarrow>
     queue_step env m (track_task (rn_id r)
       (change_chains (register_repository_chain key (rn_id r) token) (store_run r m)))"
| Record:
    "rn_id r = next_run_id (mg_db m) \<Longrightarrow> rn_status r = Failed \<Longrightarrow> queue_step env m (store_run r m)"
| Enter: "is_live m i \<Longrightarrow> queue_step env m (enter_execution i m)"
| Claim:
    "pe_resolve view = pe_resolve env \<Longrightarrow> is_live m i \<Longrightarrow>
     claim_execution_turn view st now i m = Inr (claimed, reason, m') \<Longrightarrow> queue_step env m m'"
| Refresh:
    "is_live m i \<Longrightarrow> get_run (mg_db m) i = Some r \<Longrightarrow> rn_repository_id r = Some repository \<Longrightarrow>
     start_archive_refresh env present now i repository m = Started m' \<Longrightarrow> queue_step env m m'"
| Finish:
    "s \<notin> {Queued, Running} \<Longrightarrow> queue_step env m (leave_execution i (change_run i (finish_run s now) m))"
| Release: "queue_step env m (change_chains (release_repository_chain token) m)"
| Elsewhere: "other_change env m keep f db \<Longrightarrow> queue_step env m (m\<lparr>mg_db := db\<rparr>)"

inductive_cases queue_stepE: "queue_step env m m'"

text \<open>After a start of the process no run is running and no chain exists.\<close>

definition queue_start :: "manager \<Rightarrow> bool" where
  "queue_start m \<longleftrightarrow> valid_runs (mg_db m) \<and> mg_chains m = no_chains \<and>
     (\<forall>r \<in> set (db_runs (mg_db m)). rn_status r \<noteq> Running)"

section \<open>Mutual exclusion\<close>

definition holds_repository :: "plan_env \<Rightarrow> manager \<Rightarrow> string \<Rightarrow> run \<Rightarrow> bool" where
  "holds_repository env m key r \<longleftrightarrow> r \<in> set (db_runs (mg_db m)) \<and> rn_status r = Running \<and>
     row_repository_key env (mg_db m) r = Some key"

definition running_live :: "manager \<Rightarrow> bool" where
  "running_live m \<longleftrightarrow> (\<forall>r \<in> set (db_runs (mg_db m)). rn_status r = Running \<longrightarrow> is_live m (rn_id r))"

definition exclusive :: "plan_env \<Rightarrow> manager \<Rightarrow> bool" where
  "exclusive env m \<longleftrightarrow> (\<forall>key r s. holds_repository env m key r \<and> holds_repository env m key s \<longrightarrow> r = s)"

definition queue_inv :: "plan_env \<Rightarrow> manager \<Rightarrow> bool" where
  "queue_inv env m \<longleftrightarrow> valid_runs (mg_db m) \<and> running_live m \<and> exclusive env m"

subsection \<open>What the operations change\<close>

lemma manager_simps [simp]:
  "mg_db (track_task i m) = mg_db m" "mg_chains (track_task i m) = mg_chains m"
  "mg_db (enter_execution i m) = mg_db m" "mg_chains (enter_execution i m) = mg_chains m"
  "mg_db (leave_execution i m) = mg_db m" "mg_chains (leave_execution i m) = mg_chains m"
  "mg_db (store_run r m) = insert_run r (mg_db m)" "mg_chains (store_run r m) = mg_chains m"
  "mg_live (store_run r m) = mg_live m"
  "mg_db (change_run i f m) = modify_run i f (mg_db m)" "mg_chains (change_run i f m) = mg_chains m"
  "mg_live (change_run i f m) = mg_live m"
  "mg_db (change_chains g m) = mg_db m" "mg_chains (change_chains g m) = g (mg_chains m)"
  "mg_live (change_chains g m) = mg_live m"
  by (simp_all add: track_task_def enter_execution_def leave_execution_def store_run_def
      change_run_def change_chains_def)

lemma runs_simps [simp]:
  "db_runs (insert_run r db) = db_runs db @ [r]"
  "db_runs (modify_run i f db) = map (\<lambda>r. if rn_id r = i then f r else r) (db_runs db)"
  "db_runs (commit_mount_scan env db) = db_runs db"
  by (simp_all add: insert_run_def table_insert_def modify_run_def table_modify_def commit_mount_scan_def)

lemma repositories_simps [simp]:
  "db_repositories (insert_run r db) = db_repositories db"
  "db_repositories (modify_run i f db) = db_repositories db"
  "db_repositories (commit_mount_scan env db) = db_repositories db"
  by (simp_all add: insert_run_def modify_run_def commit_mount_scan_def)

lemma row_repository_key_cong:
  "db_repositories db = db_repositories db' \<Longrightarrow> row_repository_key env db r = row_repository_key env db' r"
  by (auto simp: row_repository_key_def run_repository_def split: option.split)

lemma row_repository_key_simps [simp]:
  "row_repository_key env (insert_run s db) r = row_repository_key env db r"
  "row_repository_key env (modify_run i f db) r = row_repository_key env db r"
  "row_repository_key env (commit_mount_scan env' db) r = row_repository_key env db r"
  by (auto intro: row_repository_key_cong)

lemma row_repository_key_run [simp]:
  "row_repository_key env db (start_run now r) = row_repository_key env db r"
  "row_repository_key env db (finish_run s now r) = row_repository_key env db r"
  by (simp_all add: row_repository_key_def run_repository_def start_run_def finish_run_def is_source_stats_def)

lemma run_change_simps [simp]:
  "rn_id (start_run now r) = rn_id r" "rn_status (start_run now r) = Running"
  "rn_id (finish_run s now r) = rn_id r" "rn_status (finish_run s now r) = s"
  by (simp_all add: start_run_def finish_run_def)

lemma is_live_simps [simp]:
  "is_live (store_run r m) i = is_live m i"
  "is_live (change_chains g m) i = is_live m i"
  "is_live (change_run j f m) i = is_live m i"
  "is_live (enter_execution j m) i \<longleftrightarrow> i = j \<or> is_live m i"
  by (auto simp: is_live_def live_run_ids_def enter_execution_def)

lemma alive_dict_set:
  "fst ` {x \<in> set (dict_set j True d). snd x} = insert j (fst ` {x \<in> set d. snd x})"
proof (induction d)
  case (Cons x d)
  obtain k b where x: "x = (k, b)" by (cases x)
  have split: "{y \<in> set ((k, b) # e). snd y} = (if b then {(k, b)} else {}) \<union> {y \<in> set e. snd y}"
    for k b and e :: "('a \<times> bool) list" by auto
  show ?case
    using Cons by (cases b) (simp_all add: x split image_Un insert_commute del: list.set)
qed force

lemma is_live_track [simp]: "is_live (track_task j m) i \<longleftrightarrow> i = j \<or> is_live m i"
  using alive_dict_set [of j "lv_tasks (mg_live m)"]
  by (auto simp: is_live_def live_run_ids_def track_task_def)

lemma is_live_leave [simp]: "is_live (leave_execution j m) i \<longleftrightarrow> i \<noteq> j \<and> is_live m i"
  by (force simp: is_live_def live_run_ids_def leave_execution_def dict_pop_def)

lemma is_live_drop_stale:
  "mg_live m' = drop_stale_tasks (mg_live m) \<Longrightarrow> is_live m' i = is_live m i"
  by (simp add: is_live_def live_run_ids_def drop_stale_tasks_def)

subsection \<open>Claims keep the exclusion\<close>

lemma planned_rows_map:
  "planned_rows env db rs = Inr ps \<Longrightarrow>
   map pl_run ps = rs \<and> map pl_repository ps = map (row_repository_key env db) rs"
  by (induction rs arbitrary: ps) (auto simp: try_bind_Inr_iff planned_row_def)

lemma planned_rows_key:
  "planned_rows env db rs = Inr ps \<Longrightarrow> p \<in> set ps \<Longrightarrow>
   pl_run p \<in> set rs \<and> pl_repository p = row_repository_key env db (pl_run p)"
  by (induction rs arbitrary: ps) (auto simp: try_bind_Inr_iff planned_row_def)

text \<open>A successful claim, taken apart.\<close>

lemma claim_success:
  assumes "claim_execution_turn env st now i m = Inr (True, reason, m')"
  obtains r ps lm p where "get_run (mg_db m) i = Some r" and "rn_status r = Queued"
    and "planned_rows env (mg_db m) (plan_candidates (mg_db m) (mg_live m) (Some i)) = Inr ps"
    and "lm = plan_limits_of st (mg_chains m) (fst (scan_archive_mounts env (db_mounts (mg_db m)))) ps"
    and "i \<in> set (pn_selected (plan_rows lm ps))"
    and "mg_db m' = modify_run i (start_run now) (commit_mount_scan env (mg_db m))"
    and "mg_chains m' = mark_repository_chain_started i (mg_chains m)"
    and "mg_live m' = drop_stale_tasks (mg_live m)"
  using assms
  by (auto simp: claim_execution_turn_def try_bind_Inr_iff execution_plan_def Let_def
      split: option.splits if_splits)

lemma claim_failure:
  assumes "claim_execution_turn env st now i m = Inr (False, reason, m')"
  shows "mg_db m' = mg_db m \<and> mg_chains m' = mg_chains m \<and>
         (mg_live m' = mg_live m \<or> mg_live m' = drop_stale_tasks (mg_live m))"
  using assms
  by (auto simp: claim_execution_turn_def try_bind_Inr_iff Let_def split: option.splits if_splits)

lemma plan_candidates_set:
  "r \<in> set (plan_candidates db lv (Some i)) \<longleftrightarrow>
     r \<in> set (db_runs db) \<and> unfinished r \<and> (rn_id r \<in> set (live_run_ids lv None) \<or> rn_id r = i)"
  by (auto simp: plan_candidates_def by_key_def live_run_ids_def)

lemma plan_candidates_distinct:
  "valid_runs db \<Longrightarrow> distinct (map rn_id (plan_candidates db lv c))"
proof -
  assume "valid_runs db"
  then have "distinct (map rn_id (filter unfinished (db_runs db)))"
    by (simp add: valid_runs_def unique_keys_def distinct_map_filter)
  then have "distinct (map rn_id (by_key rn_id (filter unfinished (db_runs db))))"
    by (simp add: by_key_def distinct_map)
  then show ?thesis by (simp add: plan_candidates_def distinct_map_filter)
qed

text \<open>A claimed run finds no running run of its repository.\<close>

lemma claim_repository_free:
  assumes inv: "valid_runs (mg_db m)" "running_live m"
    and claim: "claim_execution_turn env st now i m = Inr (True, reason, m')"
    and i: "get_run (mg_db m) i = Some r" and key: "row_repository_key env (mg_db m) r = Some key"
  shows "\<not> holds_repository env m key s"
proof
  assume s: "holds_repository env m key s"
  from claim i obtain ps lm where q: "rn_status r = Queued"
    and ps: "planned_rows env (mg_db m) (plan_candidates (mg_db m) (mg_live m) (Some i)) = Inr ps"
    and sel: "i \<in> set (pn_selected (plan_rows lm ps))"
    by (elim claim_success) auto
  let ?rows = "plan_candidates (mg_db m) (mg_live m) (Some i)"
  have runs: "map pl_run ps = ?rows" using planned_rows_map [OF ps] by simp
  have d: "distinct (map pl_id ps)"
    using plan_candidates_distinct [OF inv(1)] runs by (metis (mono_tags, lifting) list.map_comp comp_def map_eq_conv)
  have key_of: "pl_repository p = row_repository_key env (mg_db m) (pl_run p)" if "p \<in> set ps" for p
    using planned_rows_key [OF ps that] by simp
  have ri: "rn_id r = i" "r \<in> set (db_runs (mg_db m))" using i by (auto dest: table_get_SomeD)
  have "r \<in> set ?rows" using ri q by (simp add: plan_candidates_set unfinished_def)
  then obtain p where p: "p \<in> set ps" "pl_run p = r" using runs by (metis imageE list.set_map)
  have "s \<in> set ?rows"
    using s inv(2) by (auto simp: plan_candidates_set holds_repository_def running_live_def unfinished_def is_live_def)
  then obtain t where t: "t \<in> set ps" "pl_run t = s" using runs by (metis imageE list.set_map)
  have "p \<in> set (chosen_rows lm ps)" using p q sel ri by (simp add: chosen_rows_eq [OF d])
  moreover have "t \<in> set (admitted lm ps)" using t s by (simp add: admitted_mem holds_repository_def)
  moreover have "pl_repository p = Some key" "pl_repository t = Some key"
    using key_of p t key s by (auto simp: holds_repository_def)
  ultimately have "t = p" using single_admitted [OF d] by blast
  with p t q s show False by (simp add: holds_repository_def)
qed

text \<open>Nor does a run that starts as an archive refresh.\<close>

lemma refresh_repository_free:
  assumes valid: "valid_runs (mg_db m)"
    and start: "start_archive_refresh env present now i rep m = Started m'"
    and i: "get_run (mg_db m) i = Some r" and rep: "rn_repository_id r = Some rep" and key: "row_repository_key env (mg_db m) r = Some key"
  shows "\<not> holds_repository env m key s"
proof
  assume s: "holds_repository env m key s"
  have q: "rn_status r = Queued" and free: "repository_run_blocker env (mg_db m) i rep = None"
    using start i by (auto simp: start_archive_refresh_def split: option.splits if_splits)
  have "key = execution_key_by_id env (mg_db m) rep"
    using key rep by (auto simp: row_repository_key_def execution_key_by_id_def run_repository_def split: if_splits)
  moreover have "key = repository_execution_key env (run_repository (mg_db m) s) (rn_repository_id s)"
    using s by (auto simp: holds_repository_def row_repository_key_def split: if_splits)
  moreover have "rn_id s \<noteq> i"
  proof
    assume "rn_id s = i"
    then have "get_run (mg_db m) i = Some s"
      using s valid by (simp add: holds_repository_def valid_runs_def table_get_eq_Some)
    then show False using s i q by (simp add: holds_repository_def)
  qed
  ultimately have "rn_id s \<in> set (map rn_id (filter (\<lambda>r.
      repository_execution_key env (run_repository (mg_db m) r) (rn_repository_id r) =
        execution_key_by_id env (mg_db m) rep \<and> (rn_status r = Running \<or> rn_id r < i))
      (by_key rn_id (filter (\<lambda>r. unfinished r \<and> rn_id r \<noteq> i) (db_runs (mg_db m))))))"
    using s by (auto simp: holds_repository_def by_key_def unfinished_def)
  with free show False by (auto simp: repository_run_blocker_def Let_def filter_empty_conv split: if_splits)
qed

subsection \<open>The invariant\<close>

text \<open>Starting a run whose repository is free keeps the exclusion.\<close>

lemma start_keeps_inv:
  assumes inv: "queue_inv env m" and i: "get_run (mg_db m) i = Some r" and live: "is_live m i"
    and free: "\<And>key s. row_repository_key env (mg_db m) r = Some key \<Longrightarrow> \<not> holds_repository env m key s"
    and runs: "db_runs (mg_db m') = db_runs (modify_run i (start_run now) (mg_db m))"
    and repositories: "db_repositories (mg_db m') = db_repositories (mg_db m)"
    and lives: "\<And>j. is_live m' j = is_live m j"
  shows "queue_inv env m'"
proof -
  have valid: "valid_runs (mg_db m)" using inv by (simp add: queue_inv_def)
  have keys: "row_repository_key env (mg_db m') s = row_repository_key env (mg_db m) s" for s
    by (rule row_repository_key_cong) (rule repositories)
  have "valid_runs (mg_db m')"
    using run_store.valid_modify [of "start_run now" "mg_db m" i] valid runs by (simp add: valid_runs_def)
  moreover have "running_live m'"
    using inv live by (auto simp: queue_inv_def running_live_def runs lives)
  moreover have holds: "holds_repository env m' key s \<Longrightarrow>
      holds_repository env m key s \<or> s = start_run now r \<and> row_repository_key env (mg_db m) r = Some key" for key s
  proof -
    assume h: "holds_repository env m' key s"
    then obtain t where t: "t \<in> set (db_runs (mg_db m))" "s = (if rn_id t = i then start_run now t else t)"
      by (auto simp: holds_repository_def runs)
    have "t = r" if "rn_id t = i"
    proof -
      have "get_run (mg_db m) i = Some t"
        using that t(1) valid by (simp add: valid_runs_def table_get_eq_Some)
      with i show ?thesis by simp
    qed
    with h t show ?thesis by (auto simp: holds_repository_def keys split: if_splits)
  qed
  have "exclusive env m'"
    unfolding exclusive_def
  proof (intro allI impI)
    fix key s t assume st: "holds_repository env m' key s \<and> holds_repository env m' key t"
    with holds [of key s] holds [of key t] free [of key] inv show "s = t"
      unfolding queue_inv_def exclusive_def by blast
  qed
  ultimately show ?thesis by (simp add: queue_inv_def)
qed

lemma stop_keeps_inv:
  assumes inv: "queue_inv env m" and s: "s \<noteq> Running"
  shows "queue_inv env (leave_execution i (change_run i (finish_run s now) m))"
proof -
  have "valid_runs (modify_run i (finish_run s now) (mg_db m))"
    using inv by (auto simp: queue_inv_def intro: run_store.valid_modify)
  moreover have "holds_repository env (leave_execution i (change_run i (finish_run s now) m)) key r \<Longrightarrow>
      holds_repository env m key r" for key r
    using s by (auto simp: holds_repository_def split: if_splits)
  then have "exclusive env (leave_execution i (change_run i (finish_run s now) m))"
    using inv unfolding queue_inv_def exclusive_def by blast
  moreover have "running_live (leave_execution i (change_run i (finish_run s now) m))"
    using inv s by (auto simp: queue_inv_def running_live_def)
  ultimately show ?thesis by (simp add: queue_inv_def)
qed

lemma insert_keeps_inv:
  assumes inv: "queue_inv env m" and r: "rn_id r = next_run_id (mg_db m)" "rn_status r \<noteq> Running"
    and db: "mg_db m' = insert_run r (mg_db m)" and live: "\<And>j. is_live m j \<Longrightarrow> is_live m' j"
  shows "queue_inv env m'"
proof -
  have "valid_runs (mg_db m')"
    using inv r by (simp add: db queue_inv_def run_store.valid_insert_fresh)
  moreover have "holds_repository env m' key s = holds_repository env m key s" for key s
    using r(2) by (auto simp: holds_repository_def db)
  ultimately show ?thesis
    using inv r(2) live by (auto simp: queue_inv_def exclusive_def running_live_def db)
qed

lemma same_db_keeps_inv:
  assumes "queue_inv env m" and "mg_db m' = mg_db m" and "\<And>j. is_live m j \<Longrightarrow> is_live m' j"
  shows "queue_inv env m'"
  using assms by (auto simp: queue_inv_def exclusive_def running_live_def holds_repository_def)

lemma other_change_runs:
  assumes "other_change env m keep f db"
  shows "valid_runs (mg_db m) \<Longrightarrow> valid_runs db"
    and "holds_repository env (m\<lparr>mg_db := db\<rparr>) key r = holds_repository env m key r"
proof -
  have runs: "db_runs db = map f (filter keep (db_runs (mg_db m)))"
    and row: "\<And>r. r \<in> set (db_runs (mg_db m)) \<Longrightarrow> rn_id (f r) = rn_id r \<and> rn_status (f r) = rn_status r \<and>
      (pinned_run m r \<longrightarrow> keep r \<and> f r = r \<and> row_repository_key env db r = row_repository_key env (mg_db m) r)"
    using assms by (simp_all add: other_change_def)
  have "map rn_id (db_runs db) = map rn_id (filter keep (db_runs (mg_db m)))" using row by (simp add: runs)
  then show "valid_runs (mg_db m) \<Longrightarrow> valid_runs db"
    using distinct_map_filter [of rn_id "db_runs (mg_db m)" keep] by (simp add: valid_runs_def unique_keys_def)
  have pinned: "pinned_run m s" if "rn_status s = Running" for s using that by (simp add: pinned_run_def)
  show "holds_repository env (m\<lparr>mg_db := db\<rparr>) key r = holds_repository env m key r"
    using row pinned by (force simp: holds_repository_def runs)
qed

lemma other_change_keeps_inv:
  assumes inv: "queue_inv env m" and change: "other_change env m keep f db"
  shows "queue_inv env (m\<lparr>mg_db := db\<rparr>)"
proof -
  have "running_live (m\<lparr>mg_db := db\<rparr>)"
    using inv change by (auto simp: queue_inv_def running_live_def other_change_def is_live_def)
  then show ?thesis
    using inv other_change_runs [OF change] by (simp add: queue_inv_def exclusive_def)
qed

text \<open>Whoever resolves paths alike sees the same places; only the mounts may differ.\<close>

lemma same_keys: "pe_resolve view = pe_resolve env \<Longrightarrow> row_repository_key view = row_repository_key env"
  by (intro ext) (simp add: row_repository_key_def repository_execution_key_def managed_target_def split: option.split)

lemma same_holders:
  assumes "pe_resolve view = pe_resolve env"
  shows "holds_repository view m key r = holds_repository env m key r"
  unfolding holds_repository_def same_keys [OF assms] ..

lemma same_inv:
  assumes "pe_resolve view = pe_resolve env"
  shows "queue_inv view m = queue_inv env m"
  unfolding queue_inv_def exclusive_def same_holders [OF assms] ..

lemma claim_keeps_inv:
  assumes inv: "queue_inv env m" and live: "is_live m i" and turn: "claim_execution_turn env st now i m = Inr (claimed, reason, m')"
  shows "queue_inv env m'"
proof (cases claimed)
  case True
  with turn have claim: "claim_execution_turn env st now i m = Inr (True, reason, m')" by simp
  then obtain r where r: "get_run (mg_db m) i = Some r"
    and m': "mg_db m' = modify_run i (start_run now) (commit_mount_scan env (mg_db m))"
      "mg_live m' = drop_stale_tasks (mg_live m)"
    by (rule claim_success)
  show ?thesis
  proof (rule start_keeps_inv [OF inv r live, where now = now])
    show "\<not> holds_repository env m key s" if "row_repository_key env (mg_db m) r = Some key" for key s
      using claim_repository_free [OF _ _ claim r that] inv by (simp add: queue_inv_def)
  qed (simp_all add: m' is_live_drop_stale)
next
  case False
  with turn have "claim_execution_turn env st now i m = Inr (False, reason, m')" by simp
  note m' = claim_failure [OF this]
  then have "is_live m' j = is_live m j" for j
    using is_live_drop_stale [of m' m j] by (auto simp: is_live_def)
  with m' show ?thesis by (intro same_db_keeps_inv [OF inv]) auto
qed

lemma queue_inv_step:
  assumes inv: "queue_inv env m" and step: "queue_step env m m'"
  shows "queue_inv env m'"
  using step
proof cases
  case (Submit r token)
  then show ?thesis by (intro insert_keeps_inv [OF inv, of r]) auto
next
  case (Submit_chain r key token)
  then show ?thesis by (intro insert_keeps_inv [OF inv, of r]) auto
next
  case (Record r)
  then show ?thesis by (intro insert_keeps_inv [OF inv, of r]) auto
next
  case (Enter i)
  then show ?thesis by (intro same_db_keeps_inv [OF inv]) auto
next
  case (Claim view i st now claimed reason)
  note same = same_inv [OF Claim(1)]
  have "queue_inv view m'" by (rule claim_keeps_inv [OF _ Claim(2,3)]) (unfold same, rule inv)
  then show ?thesis unfolding same .
next
  case (Refresh i r repository present now)
  then have m': "m' = change_run i (start_run now) m"
    by (auto simp: start_archive_refresh_def split: option.splits if_splits)
  show ?thesis
  proof (rule start_keeps_inv [OF inv Refresh(2,1), where now = now])
    show "\<not> holds_repository env m key s" if "row_repository_key env (mg_db m) r = Some key" for key s
      using refresh_repository_free [OF _ Refresh(4,2,3) that] inv by (simp add: queue_inv_def)
  qed (simp_all add: m')
next
  case (Finish s i now)
  then show ?thesis using stop_keeps_inv [OF inv, of s i now] by auto
next
  case (Release token)
  then show ?thesis by (intro same_db_keeps_inv [OF inv]) auto
next
  case (Elsewhere keep f db)
  then show ?thesis using other_change_keeps_inv [OF inv] by simp
qed

interpretation run_queue: guarded_system queue_start "queue_step env" "queue_inv env" for env
proof
  fix m assume "queue_start m"
  then show "queue_inv env m"
    by (auto simp: queue_start_def queue_inv_def running_live_def exclusive_def holds_repository_def)
qed (rule queue_inv_step)

section \<open>The queue implements a lock per repository\<close>

text \<open>
  The specification: for each physical repository the runs that hold it. A repository nobody holds can be
  taken by one run, and a holder can give it back; nothing else happens, so no repository ever has two holders.
\<close>

type_synonym lock_table = "string \<Rightarrow> nat set"

inductive lock_step :: "lock_table \<Rightarrow> lock_table \<Rightarrow> bool" where
  Take: "locks key = {} \<Longrightarrow> lock_step locks (locks(key := {i}))"
| Give_back: "i \<in> locks key \<Longrightarrow> lock_step locks (locks(key := locks key - {i}))"

text \<open>What the database shows: all running runs of the repository, however many there are.\<close>

definition held_locks :: "plan_env \<Rightarrow> manager \<Rightarrow> lock_table" where
  "held_locks env m key =
     rn_id ` set (filter (\<lambda>r. rn_status r = Running \<and> row_repository_key env (mg_db m) r = Some key) (db_runs (mg_db m)))"

lemma held_locks_eq: "held_locks env m key = rn_id ` {r. holds_repository env m key r}"
  by (auto simp: held_locks_def holds_repository_def)

lemma held_locks_cong:
  "(\<And>r. holds_repository env m key r = holds_repository env m' key r) \<Longrightarrow> held_locks env m' key = held_locks env m key"
  by (simp add: held_locks_eq)

text \<open>The specification excludes two holders, so the refinement says that there are none.\<close>

lemma lock_steps_single: "lock_step\<^sup>*\<^sup>* (\<lambda>_. {}) locks \<Longrightarrow> i \<in> locks key \<Longrightarrow> j \<in> locks key \<Longrightarrow> i = j"
proof -
  have "\<forall>key i j. i \<in> locks key \<longrightarrow> j \<in> locks key \<longrightarrow> i = j" if "lock_step\<^sup>*\<^sup>* (\<lambda>_. {}) locks"
    using that by (induction rule: rtranclp_induct) (auto elim!: lock_step.cases split: if_splits)
  then show "lock_step\<^sup>*\<^sup>* (\<lambda>_. {}) locks \<Longrightarrow> i \<in> locks key \<Longrightarrow> j \<in> locks key \<Longrightarrow> i = j" by blast
qed

text \<open>Starting a run takes the lock of its repository, finishing one gives it back.\<close>

lemma start_takes_lock:
  assumes inv: "queue_inv env m" and inv': "queue_inv env m'" and i: "get_run (mg_db m) i = Some r"
    and queued: "rn_status r = Queued"
    and free: "\<And>key s. row_repository_key env (mg_db m) r = Some key \<Longrightarrow> \<not> holds_repository env m key s"
    and runs: "db_runs (mg_db m') = db_runs (modify_run i (start_run now) (mg_db m))"
    and repositories: "db_repositories (mg_db m') = db_repositories (mg_db m)"
  shows "lock_step\<^sup>=\<^sup>= (held_locks env m) (held_locks env m')"
proof -
  have keys: "row_repository_key env (mg_db m') s = row_repository_key env (mg_db m) s" for s
    by (rule row_repository_key_cong) (rule repositories)
  have ri: "r \<in> set (db_runs (mg_db m))" "rn_id r = i" using i by (auto dest: table_get_SomeD)
  have same_row: "t = r" if "t \<in> set (db_runs (mg_db m))" "rn_id t = i" for t
  proof -
    have "get_run (mg_db m) i = Some t"
      using that inv by (simp add: queue_inv_def valid_runs_def table_get_eq_Some)
    with i show ?thesis by simp
  qed
  have holds: "holds_repository env m' key s \<longleftrightarrow>
      holds_repository env m key s \<or> s = start_run now r \<and> row_repository_key env (mg_db m) r = Some key"
    for key s
    using ri queued same_row by (force simp: holds_repository_def runs keys split: if_splits)
  show ?thesis
  proof (cases "row_repository_key env (mg_db m) r")
    case None
    then have "held_locks env m' = held_locks env m" using holds by (intro ext held_locks_cong) simp
    then show ?thesis by simp
  next
    case (Some key)
    have "held_locks env m key = {}" using free [OF Some] by (simp add: held_locks_eq)
    moreover have "held_locks env m' = (held_locks env m)(key := {i})"
      using holds Some free [OF Some] ri by (auto simp: held_locks_eq fun_eq_iff)
    ultimately show ?thesis using lock_step.Take [of "held_locks env m" key i] by auto
  qed
qed

lemma stop_gives_back:
  assumes inv: "queue_inv env m" and s: "s \<noteq> Running"
  shows "lock_step\<^sup>=\<^sup>= (held_locks env m)
    (held_locks env (leave_execution i (change_run i (finish_run s now) m)))"
proof -
  let ?m = "leave_execution i (change_run i (finish_run s now) m)"
  have holds: "holds_repository env ?m key r \<longleftrightarrow> holds_repository env m key r \<and> rn_id r \<noteq> i" for key r
    using s by (force simp: holds_repository_def split: if_splits)
  then have less: "held_locks env ?m key = held_locks env m key - {i}" for key by (auto simp: held_locks_eq)
  show ?thesis
  proof (cases "\<exists>key. i \<in> held_locks env m key")
    case False
    then have "held_locks env ?m = held_locks env m" using less by (intro ext) auto
    then show ?thesis by simp
  next
    case True
    then obtain key where key: "i \<in> held_locks env m key" by blast
    have only: "k = key" if held: "i \<in> held_locks env m k" for k
    proof -
      obtain t where t: "holds_repository env m k t" "rn_id t = i" using held by (auto simp: held_locks_eq)
      moreover obtain r where r: "holds_repository env m key r" "rn_id r = i" using key by (auto simp: held_locks_eq)
      ultimately have "get_run (mg_db m) i = Some t" "get_run (mg_db m) i = Some r"
        using inv by (simp_all add: holds_repository_def queue_inv_def valid_runs_def table_get_eq_Some)
      then show ?thesis using t(1) r(1) by (simp add: holds_repository_def)
    qed
    have "held_locks env ?m = (held_locks env m)(key := held_locks env m key - {i})"
      using less only by (auto simp: fun_eq_iff)
    then show ?thesis using lock_step.Give_back [of i "held_locks env m" key, OF key] by auto
  qed
qed

lemma claim_locks:
  assumes inv: "queue_inv env m" and live: "is_live m i" and turn: "claim_execution_turn env st now i m = Inr (claimed, reason, m')"
  shows "lock_step\<^sup>=\<^sup>= (held_locks env m) (held_locks env m')"
proof (cases claimed)
  case True
  with turn have claim: "claim_execution_turn env st now i m = Inr (True, reason, m')" by simp
  then obtain r where r: "get_run (mg_db m) i = Some r" "rn_status r = Queued"
    and m': "mg_db m' = modify_run i (start_run now) (commit_mount_scan env (mg_db m))"
    by (rule claim_success)
  show ?thesis
  proof (rule start_takes_lock [OF inv claim_keeps_inv [OF inv live turn] r, where now = now])
    show "\<not> holds_repository env m key s" if "row_repository_key env (mg_db m) r = Some key" for key s
      using claim_repository_free [OF _ _ claim r(1) that] inv by (simp add: queue_inv_def)
  qed (simp_all add: m')
next
  case False
  with turn have "claim_execution_turn env st now i m = Inr (False, reason, m')" by simp
  then have "held_locks env m' = held_locks env m"
    by (intro ext held_locks_cong) (simp add: holds_repository_def claim_failure)
  then show ?thesis by simp
qed

lemma queue_step_locks:
  assumes inv: "queue_inv env m" and step: "queue_step env m m'"
  shows "lock_step\<^sup>=\<^sup>= (held_locks env m) (held_locks env m')"
proof -
  have inv': "queue_inv env m'" using inv step by (rule queue_inv_step)
  have same: "lock_step\<^sup>=\<^sup>= (held_locks env m) (held_locks env m')"
    if "\<And>key r. holds_repository env m key r = holds_repository env m' key r"
  proof -
    have "held_locks env m' = held_locks env m" using held_locks_cong [OF that] by (intro ext) blast
    then show ?thesis by simp
  qed
  from step show ?thesis
  proof cases
    case (Submit r token)
    then show ?thesis by (intro same) (auto simp: holds_repository_def)
  next
    case (Submit_chain r key token)
    then show ?thesis by (intro same) (auto simp: holds_repository_def)
  next
    case (Record r)
    then show ?thesis by (intro same) (auto simp: holds_repository_def)
  next
    case (Enter i)
    then show ?thesis by (intro same) (auto simp: holds_repository_def)
  next
    case (Claim view i st now claimed reason)
    note same_view = same_inv [OF Claim(1)]
    have "lock_step\<^sup>=\<^sup>= (held_locks view m) (held_locks view m')"
      by (rule claim_locks [OF _ Claim(2,3)]) (unfold same_view, rule inv)
    moreover have "held_locks view = held_locks env"
      by (intro ext) (simp only: held_locks_eq same_holders [OF Claim(1)])
    ultimately show ?thesis by simp
  next
    case (Refresh i r repository present now)
    then have q: "rn_status r = Queued" and m': "m' = change_run i (start_run now) m"
      by (auto simp: start_archive_refresh_def split: option.splits if_splits)
    show ?thesis
    proof (rule start_takes_lock [OF inv inv' Refresh(2) q, where now = now])
      show "\<not> holds_repository env m key s" if "row_repository_key env (mg_db m) r = Some key" for key s
        using refresh_repository_free [OF _ Refresh(4,2,3) that] inv by (simp add: queue_inv_def)
    qed (simp_all add: m')
  next
    case (Finish s i now)
    then show ?thesis using stop_gives_back [OF inv, of s i now] by auto
  next
    case (Release token)
    then show ?thesis by (intro same) (auto simp: holds_repository_def)
  next
    case (Elsewhere keep f db)
    then show ?thesis by (intro same) (simp add: other_change_runs(2))
  qed
qed

interpretation run_queue_locks:
  refined_system queue_start "queue_step env" "queue_inv env" "\<lambda>locks. locks = (\<lambda>_. {})"
    lock_step "held_locks env" for env
proof
  fix m assume "queue_start m"
  then show "held_locks env m = (\<lambda>_. {})"
    by (intro ext) (auto simp: queue_start_def held_locks_def)
next
  fix m m' assume "queue_inv env m" "queue_step env m m'"
  then have "lock_step\<^sup>=\<^sup>= (held_locks env m) (held_locks env m')" by (rule queue_step_locks)
  then show "lock_step\<^sup>*\<^sup>* (held_locks env m) (held_locks env m')" by auto
qed

section \<open>Maintenance chains\<close>

text \<open>A run that claims its turn is not shut out by the reservation of its repository.\<close>

lemma claim_not_reserved:
  assumes claim: "claim_execution_turn env st now i m = Inr (True, reason, m')"
    and i: "get_run (mg_db m) i = Some r" and key: "row_repository_key env (mg_db m) r = Some key"
    and valid: "valid_runs (mg_db m)"
    and owner: "chain_owner (mg_chains m) key = Some c"
  shows "ch_tokens (mg_chains m) i = Some (rs_token c) \<or> \<not> rs_started c \<and> i \<le> rs_root c"
proof -
  from claim i obtain ps lm where q: "rn_status r = Queued"
    and ps: "planned_rows env (mg_db m) (plan_candidates (mg_db m) (mg_live m) (Some i)) = Inr ps"
    and lm: "lm = plan_limits_of st (mg_chains m) (fst (scan_archive_mounts env (db_mounts (mg_db m)))) ps"
    and sel: "i \<in> set (pn_selected (plan_rows lm ps))"
    by (elim claim_success) auto
  have "i \<in> set (map pl_id (chosen_rows lm ps))"
    using sel by (simp add: plan_rows_def plan_queue_selected chosen_rows_def)
  then obtain p where p: "p \<in> set (chosen_rows lm ps)" "pl_id p = i" by auto
  then have "reserved_against lm p = None"
    by (elim chosen_row_free) (simp add: block_reason_None)
  have "p \<in> set ps"
    using p(1) chosen_subset unfolding chosen_rows_def queued_rows_def by force
  then have "pl_run p \<in> set (db_runs (mg_db m))" "pl_repository p = row_repository_key env (mg_db m) (pl_run p)"
    using planned_rows_key [OF ps] plan_candidates_set by blast+
  moreover have "pl_run p = r"
  proof -
    have "get_run (mg_db m) i = Some (pl_run p)"
      using calculation(1) p(2) valid by (simp add: valid_runs_def table_get_eq_Some)
    with i show ?thesis by simp
  qed
  ultimately have "pl_repository p = Some key" using key by simp
  with \<open>reserved_against lm p = None\<close> owner p(2) show ?thesis
    by (auto simp: reserved_against_def lm plan_limits_of_def chain_owner_def chain_snapshot_def split: if_splits)
qed

definition chain_inv :: "plan_env \<Rightarrow> manager \<Rightarrow> bool" where
  "chain_inv env m \<longleftrightarrow> valid_runs (mg_db m) \<and> chains_wf (mg_chains m) \<and>
     (\<forall>key. \<forall>c \<in> set (chain_queue (mg_chains m) key). rs_token c \<noteq> [] \<and>
        ch_tokens (mg_chains m) (rs_root c) = Some (rs_token c) \<and>
        (\<exists>r. get_run (mg_db m) (rs_root c) = Some r \<and> row_repository_key env (mg_db m) r = Some key)) \<and>
     (\<forall>key. \<forall>c \<in> set (chain_queue (mg_chains m) key). \<forall>k. \<forall>d \<in> set (chain_queue (mg_chains m) k).
        rs_token c = rs_token d \<longrightarrow> key = k \<and> c = d) \<and>
     (\<forall>key. \<forall>c \<in> set (tl (chain_queue (mg_chains m) key)). \<not> rs_started c)"

lemma chain_invD:
  assumes "chain_inv env m" and "c \<in> set (chain_queue (mg_chains m) key)"
  shows "rs_token c \<noteq> []" and "ch_tokens (mg_chains m) (rs_root c) = Some (rs_token c)"
    and "\<exists>r. get_run (mg_db m) (rs_root c) = Some r \<and> row_repository_key env (mg_db m) r = Some key"
    and "d \<in> set (chain_queue (mg_chains m) k) \<Longrightarrow> rs_token c = rs_token d \<Longrightarrow> key = k \<and> c = d"
  using assms unfolding chain_inv_def by blast+

text \<open>Steps that keep the reservations and the keys of stored runs keep the invariant.\<close>

lemma chain_inv_same_chains:
  assumes inv: "chain_inv env m" and "mg_chains m' = mg_chains m" and "valid_runs (mg_db m')"
    and "\<And>i r. get_run (mg_db m) i = Some r \<Longrightarrow> \<exists>s. get_run (mg_db m') i = Some s \<and>
      row_repository_key env (mg_db m') s = row_repository_key env (mg_db m) r"
  shows "chain_inv env m'"
  unfolding chain_inv_def assms(2)
proof (intro conjI allI ballI)
  fix key c assume "c \<in> set (chain_queue (mg_chains m) key)"
  from chain_invD(3) [OF inv this] assms(4)
  show "\<exists>r. get_run (mg_db m') (rs_root c) = Some r \<and> row_repository_key env (mg_db m') r = Some key"
    by fastforce
qed (use inv assms(3) in \<open>auto simp: chain_inv_def\<close>)

text \<open>Marking: the claimed run can only be the root of the first reservation of its queue.\<close>

lemma mark_chain_queue:
  assumes wf: "chains_wf st" and tok: "ch_tokens st i = Some t" "t \<noteq> []"
    and c: "c \<in> set (chain_queue st key)" "rs_token c = t" "rs_root c = i"
    and only: "\<And>k d. d \<in> set (chain_queue st k) \<Longrightarrow> rs_token d = t \<Longrightarrow> k = key"
  shows "chain_queue (mark_repository_chain_started i st) k =
    (if k = key then map (\<lambda>d. if rs_token d = t \<and> rs_root d = i then d\<lparr>rs_started := True\<rparr> else d) (chain_queue st key)
     else chain_queue st k)"
proof -
  let ?q = "chain_queue st key"
  have q: "map_of (ch_queues st) key = Some ?q"
    using c(1) by (cases "map_of (ch_queues st) key") (simp_all add: chain_queue_def)
  have "start_item t i ?q \<noteq> None" using c by (auto simp: start_item_None)
  then obtain q' where q': "start_item t i ?q = Some q'" by auto
  have "map_of (start_in_queues t i (ch_queues st)) = (map_of (ch_queues st))(key \<mapsto> q')"
  proof (rule start_in_queues_found [OF _ q q'])
    show "distinct (map fst (ch_queues st))" using wf by (simp add: chains_wf_def)
    fix k p assume "map_of (ch_queues st) k = Some p" "k \<noteq> key"
    then show "start_item t i p = None"
      using only [of _ k] by (auto simp: start_item_None chain_queue_def)
  qed
  moreover have "distinct (map rs_root ?q)" using chain_queue_ordered [OF wf] by (simp add: queue_ordered_def)
  ultimately show ?thesis
    using tok start_item_eq [OF _ q']
    by (simp add: mark_repository_chain_started_def chain_queue_def)
qed

lemma mark_no_root:
  assumes "\<And>key c. c \<in> set (chain_queue st key) \<Longrightarrow> rs_root c = i \<Longrightarrow> ch_tokens st i \<noteq> Some (rs_token c)"
    and wf: "chains_wf st"
  shows "chain_queue (mark_repository_chain_started i st) key = chain_queue st key"
proof -
  have "start_in_queues t i qs = qs" if "\<And>k q. (k, q) \<in> set qs \<Longrightarrow> start_item t i q = None"
    for t and qs :: "(string \<times> reservation list) list"
    using that by (induction qs) force+
  moreover have "start_item t i q = None" if "(k, q) \<in> set (ch_queues st)" "ch_tokens st i = Some t" for k q t
    using assms(1) [of _ k] chain_queue_eqI [OF wf that(1)] that(2) by (auto simp: start_item_None)
  ultimately show ?thesis
    by (simp add: mark_repository_chain_started_def chain_queue_def split: option.split)
qed

lemma mark_tokens [simp]: "ch_tokens (mark_repository_chain_started i st) = ch_tokens st"
  by (simp add: mark_repository_chain_started_def split: option.split)

text \<open>Marking a reservation as started keeps everything but the flag.\<close>

lemma mark_keeps_chain_inv:
  assumes inv: "chain_inv env m" and runs: "mg_db m' = mg_db m"
    and chs: "mg_chains m' = mark_repository_chain_started i (mg_chains m)"
    and first: "\<And>key c. c \<in> set (chain_queue (mg_chains m) key) \<Longrightarrow> rs_root c = i \<Longrightarrow>
      ch_tokens (mg_chains m) i = Some (rs_token c) \<Longrightarrow> hd (chain_queue (mg_chains m) key) = c"
  shows "chain_inv env m'"
proof (cases "\<exists>key c. c \<in> set (chain_queue (mg_chains m) key) \<and> rs_root c = i")
  case False
  then have q: "chain_queue (mg_chains m') key = chain_queue (mg_chains m) key" for key
    unfolding chs by (intro mark_no_root) (use inv in \<open>auto simp: chain_inv_def\<close>)
  have "chains_wf (mg_chains m')" "ch_tokens (mg_chains m') = ch_tokens (mg_chains m)"
    using inv mark_chains_wf by (simp_all add: chs chain_inv_def)
  with inv show ?thesis unfolding chain_inv_def by (simp only: q runs) blast
next
  case True
  then obtain key c where c: "c \<in> set (chain_queue (mg_chains m) key)" "rs_root c = i" by blast
  let ?t = "rs_token c"
  have tok: "ch_tokens (mg_chains m) i = Some ?t" using chain_invD(2) [OF inv c(1)] c(2) by simp
  have hd: "?t \<noteq> []" "hd (chain_queue (mg_chains m) key) = c"
    using first [OF c tok] chain_invD(1) [OF inv c(1)] by simp_all
  have wf: "chains_wf (mg_chains m)" "chains_wf (mg_chains m')"
    using inv mark_chains_wf by (simp_all add: chs chain_inv_def)
  define f :: "reservation \<Rightarrow> reservation" where
    "f d = (if rs_token d = ?t \<and> rs_root d = i then d\<lparr>rs_started := True\<rparr> else d)" for d
  have q: "chain_queue (mg_chains m') k =
      (if k = key then map f (chain_queue (mg_chains m) key) else chain_queue (mg_chains m) k)" for k
    unfolding chs f_def
    by (rule mark_chain_queue [OF wf(1) tok hd(1) c(1) _ c(2)]) (use chain_invD(4) [OF inv c(1)] in auto)
  have f: "rs_token (f d) = rs_token d" "rs_root (f d) = rs_root d" for d by (simp_all add: f_def)
  obtain rest where rest: "chain_queue (mg_chains m) key = c # rest"
    using c(1) hd(2) by (cases "chain_queue (mg_chains m) key") auto
  have "distinct (map rs_root (c # rest))"
    using chain_queue_ordered [OF wf(1), of key] by (simp add: queue_ordered_def rest)
  then have "f d = d" if "d \<in> set rest" for d
    using that c(2) by (auto simp: f_def image_iff)
  then have map_rest: "map f rest = rest" by (simp add: map_idI)
  have members: "\<exists>e \<in> set (chain_queue (mg_chains m) k). d = f e"
    if d: "d \<in> set (chain_queue (mg_chains m') k)" for k d
  proof (cases "k = key")
    case False
    then have "f d = d" "d \<in> set (chain_queue (mg_chains m) k)"
      using d chain_invD(4) [OF inv c(1), of d k] by (auto simp: q f_def)
    then show ?thesis by metis
  qed (use d in \<open>auto simp: q\<close>)
  show ?thesis
    unfolding chain_inv_def runs
  proof (intro conjI allI ballI impI)
    fix k d assume "d \<in> set (chain_queue (mg_chains m') k)"
    then obtain e where e: "e \<in> set (chain_queue (mg_chains m) k)" "d = f e" using members by blast
    show "rs_token d \<noteq> []" using chain_invD(1) [OF inv e(1)] by (simp add: e(2) f)
    show "ch_tokens (mg_chains m') (rs_root d) = Some (rs_token d)"
      using chain_invD(2) [OF inv e(1)] by (simp add: e(2) f chs)
    show "\<exists>r. get_run (mg_db m) (rs_root d) = Some r \<and> row_repository_key env (mg_db m) r = Some k"
      using chain_invD(3) [OF inv e(1)] by (simp add: e(2) f)
    fix k' d' assume "d' \<in> set (chain_queue (mg_chains m') k')" and same: "rs_token d = rs_token d'"
    then obtain e' where e': "e' \<in> set (chain_queue (mg_chains m) k')" "d' = f e'" using members by blast
    have "rs_token e = rs_token e'" using same by (simp add: e(2) e'(2) f)
    from chain_invD(4) [OF inv e(1) e'(1) this] show "k = k'" "d = d'" by (simp_all add: e(2) e'(2))
  next
    fix k d assume "d \<in> set (tl (chain_queue (mg_chains m') k))"
    moreover have "\<forall>d \<in> set (tl (chain_queue (mg_chains m) k)). \<not> rs_started d"
      using inv unfolding chain_inv_def by blast
    ultimately show "\<not> rs_started d"
      using map_rest by (cases "k = key") (simp_all add: q rest)
  qed (use inv wf in \<open>simp_all add: chain_inv_def\<close>)
qed

lemma get_run_insert_fresh:
  "get_run db i = Some r \<Longrightarrow> rn_id s = next_run_id db \<Longrightarrow> get_run (insert_run s db) i = Some r"
  by (rule run_store.insert_keeps)

lemma fresh_not_root:
  assumes "chain_inv env m" and "c \<in> set (chain_queue (mg_chains m) key)"
  shows "rs_root c \<noteq> next_run_id (mg_db m)"
  using chain_invD(3) [OF assms] run_store.get_fresh [of "mg_db m"] by auto

lemma submit_keeps_chain_inv:
  assumes inv: "chain_inv env m" and r: "rn_id r = next_run_id (mg_db m)"
    and db: "mg_db m' = insert_run r (mg_db m)"
    and chs: "mg_chains m' = register_chain_run (rn_id r) token (mg_chains m)"
  shows "chain_inv env m'"
proof -
  have tokens: "ch_tokens (mg_chains m') j = ch_tokens (mg_chains m) j" if "j \<noteq> next_run_id (mg_db m)" for j
    using that r by (simp add: chs register_chain_run_def)
  have q: "chain_queue (mg_chains m') key = chain_queue (mg_chains m) key" for key by (simp add: chs)
  show ?thesis
    unfolding chain_inv_def q
  proof (intro conjI allI ballI)
    fix key c assume c: "c \<in> set (chain_queue (mg_chains m) key)"
    show "rs_token c \<noteq> []" using chain_invD(1) [OF inv c] .
    show "ch_tokens (mg_chains m') (rs_root c) = Some (rs_token c)"
      using chain_invD(2) [OF inv c] tokens [OF fresh_not_root [OF inv c]] by simp
    show "\<exists>s. get_run (mg_db m') (rs_root c) = Some s \<and> row_repository_key env (mg_db m') s = Some key"
      using chain_invD(3) [OF inv c] get_run_insert_fresh [OF _ r] by (auto simp: db)
  next
    show "valid_runs (mg_db m')"
      using inv r by (simp add: db chain_inv_def run_store.valid_insert_fresh)
    show "chains_wf (mg_chains m')" using inv register_run_chains_wf by (simp add: chs chain_inv_def)
  qed (use inv in \<open>auto simp: chain_inv_def\<close>)
qed

lemma submit_chain_keeps_chain_inv:
  assumes inv: "chain_inv env m" and r: "rn_id r = next_run_id (mg_db m)"
    and key: "row_repository_key env (mg_db m) r = Some key" and ne: "token \<noteq> []"
    and unused: "\<forall>k. \<forall>s \<in> set (chain_queue (mg_chains m) k). rs_token s \<noteq> token"
    and db: "mg_db m' = insert_run r (mg_db m)"
    and chs: "mg_chains m' = register_repository_chain key (rn_id r) token (mg_chains m)"
  shows "chain_inv env m'"
proof -
  let ?new = "\<lparr>rs_token = token, rs_root = rn_id r, rs_started = False\<rparr>"
  let ?q = "chain_queue (mg_chains m) key"
  have older: "rs_root c < rn_id r" if "c \<in> set (chain_queue (mg_chains m) k)" for c k
    using chain_invD(3) [OF inv that] key_less_next [of _ "db_runs (mg_db m)" rn_id] r
    by (auto simp: next_run_id_def dest!: table_get_SomeD) metis
  have wf: "chains_wf (mg_chains m)" using inv by (simp add: chain_inv_def)
  have "sort_key rs_root (?q @ [?new]) = ?q @ [?new]"
    by (rule sort_key_append_largest)
      (use chain_queue_ordered [OF wf, of key] older in \<open>force simp: queue_ordered_def\<close>)+
  then have q: "chain_queue (mg_chains m') k = (if k = key then ?q @ [?new] else chain_queue (mg_chains m) k)" for k
    by (simp add: chs chain_queue_register)
  have members: "c \<in> set (chain_queue (mg_chains m') k) \<Longrightarrow>
      c \<in> set (chain_queue (mg_chains m) k) \<or> k = key \<and> c = ?new" for c k
    by (auto simp: q split: if_splits)
  have tokens: "ch_tokens (mg_chains m') = (ch_tokens (mg_chains m))(rn_id r \<mapsto> token)"
    by (simp add: chs register_repository_chain_def)
  have "get_run (mg_db m') (rn_id r) = Some r"
    unfolding db run_store.get_insert_fresh [OF r] using r by simp
  show ?thesis
    unfolding chain_inv_def
  proof (intro conjI allI ballI impI)
    fix k c assume "c \<in> set (chain_queue (mg_chains m') k)"
    then consider (old) "c \<in> set (chain_queue (mg_chains m) k)" | (new) "k = key" "c = ?new"
      using members by blast
    note c = this
    show "rs_token c \<noteq> []" using c chain_invD(1) [OF inv] ne by cases auto
    show "ch_tokens (mg_chains m') (rs_root c) = Some (rs_token c)"
      using c
    proof cases
      case old
      then show ?thesis using chain_invD(2) [OF inv old] older [OF old] by (simp add: tokens)
    qed (simp add: tokens)
    show "\<exists>s. get_run (mg_db m') (rs_root c) = Some s \<and> row_repository_key env (mg_db m') s = Some k"
      using c
    proof cases
      case old
      then show ?thesis using chain_invD(3) [OF inv] get_run_insert_fresh [OF _ r] by (fastforce simp: db)
    next
      case new
      then show ?thesis using \<open>get_run (mg_db m') (rn_id r) = Some r\<close> key by (simp add: db)
    qed
    fix k' d assume "d \<in> set (chain_queue (mg_chains m') k')" and same: "rs_token c = rs_token d"
    then consider (old') "d \<in> set (chain_queue (mg_chains m) k')" | (new') "k' = key" "d = ?new"
      using members by blast
    then have "k = k' \<and> c = d"
    proof cases
      case old'
      have "rs_token d \<noteq> token" using unused old' by blast
      with same have "c \<noteq> ?new" by auto
      with c have "c \<in> set (chain_queue (mg_chains m) k)" by blast
      from chain_invD(4) [OF inv this old' same] show ?thesis .
    next
      case new'
      then have "rs_token c = token" using same by simp
      with unused have "c \<notin> set (chain_queue (mg_chains m) k)" by blast
      with c new' show ?thesis by blast
    qed
    then show "k = k'" "c = d" by simp_all
  next
    show "valid_runs (mg_db m')"
      using inv r by (simp add: db chain_inv_def run_store.valid_insert_fresh)
    show "chains_wf (mg_chains m')"
      unfolding chs by (rule register_chains_wf [OF wf]) (use older in fastforce)
  next
    fix k c assume "c \<in> set (tl (chain_queue (mg_chains m') k))"
    moreover have "\<forall>c \<in> set (tl (chain_queue (mg_chains m) k)). \<not> rs_started c"
      using inv unfolding chain_inv_def by blast
    ultimately show "\<not> rs_started c"
      by (cases "chain_queue (mg_chains m) k") (auto simp: q split: if_splits)
  qed
qed

lemma release_keeps_chain_inv:
  assumes inv: "chain_inv env m" and db: "mg_db m' = mg_db m"
    and chs: "mg_chains m' = release_repository_chain token (mg_chains m)"
  shows "chain_inv env m'"
proof -
  have wf: "chains_wf (mg_chains m)" using inv by (simp add: chain_inv_def)
  have q: "chain_queue (mg_chains m') key = filter (\<lambda>c. rs_token c \<noteq> token) (chain_queue (mg_chains m) key)" for key
    unfolding chs by (rule chain_queue_release) (use wf in \<open>simp add: chains_wf_def\<close>)
  have tl: "set (tl (filter P xs)) \<subseteq> set (tl xs)" for P and xs :: "reservation list"
  proof (cases xs)
    case (Cons x ys)
    have "set (tl zs) \<subseteq> set zs" for zs :: "reservation list" by (cases zs) auto
    then have "set (tl (filter P ys)) \<subseteq> set ys" by (metis filter_is_subset subset_trans)
    then show ?thesis by (auto simp: Cons)
  qed simp
  have "\<not> rs_started c" if "c \<in> set (tl (chain_queue (mg_chains m') key))" for key c
    using that tl inv unfolding q chain_inv_def by blast
  moreover have "rs_token c \<noteq> [] \<and> ch_tokens (mg_chains m') (rs_root c) = Some (rs_token c) \<and>
      (\<exists>r. get_run (mg_db m') (rs_root c) = Some r \<and> row_repository_key env (mg_db m') r = Some key)"
    if "c \<in> set (chain_queue (mg_chains m') key)" for key c
  proof -
    from that have "c \<in> set (chain_queue (mg_chains m) key)" "rs_token c \<noteq> token" by (simp_all add: q)
    with chain_invD(1-3) [OF inv this(1)] show ?thesis
      by (simp add: db chs release_repository_chain_def)
  qed
  moreover have "key = k \<and> c = d" if "c \<in> set (chain_queue (mg_chains m') key)"
      "d \<in> set (chain_queue (mg_chains m') k)" "rs_token c = rs_token d" for key k c d
    using chain_invD(4) [OF inv, of c key d k] that by (simp add: q)
  moreover have "chains_wf (mg_chains m')" "valid_runs (mg_db m')"
    using wf release_chains_wf inv by (simp_all add: chs db chain_inv_def)
  ultimately show ?thesis unfolding chain_inv_def by blast
qed

lemma modified_run_key:
  assumes "get_run db i = Some r"
    and "\<And>r. rn_id (f r) = rn_id r" "\<And>r. row_repository_key env db (f r) = row_repository_key env db r"
  shows "\<exists>s. get_run (modify_run j f db) i = Some s \<and>
    row_repository_key env (modify_run j f db) s = row_repository_key env db r"
  unfolding run_store.get_modify [OF assms(2)] using assms by auto

lemma other_change_keeps_chain_inv:
  assumes inv: "chain_inv env m" and change: "other_change env m keep f db"
  shows "chain_inv env (m\<lparr>mg_db := db\<rparr>)"
proof -
  have valid: "valid_runs db" using other_change_runs(1) [OF change] inv by (simp add: chain_inv_def)
  have root: "\<exists>s. get_run db (rs_root c) = Some s \<and> row_repository_key env db s = Some key"
    if c: "c \<in> set (chain_queue (mg_chains m) key)" for key c
  proof -
    obtain r where r: "get_run (mg_db m) (rs_root c) = Some r" "row_repository_key env (mg_db m) r = Some key"
      using chain_invD(3) [OF inv c] by blast
    have here: "r \<in> set (db_runs (mg_db m))" "rn_id r = rs_root c" using r(1) by (auto dest: table_get_SomeD)
    then have "pinned_run m r" using c by (auto simp: pinned_run_def)
    then have "f r = r" "row_repository_key env db r = Some key" "r \<in> set (db_runs db)"
      using change here(1) r(2) by (force simp: other_change_def)+
    then show ?thesis using valid here(2) by (auto simp: valid_runs_def table_get_eq_Some)
  qed
  show ?thesis using inv valid root unfolding chain_inv_def by simp
qed

lemma same_chain_inv:
  assumes "pe_resolve view = pe_resolve env"
  shows "chain_inv view m = chain_inv env m"
  unfolding chain_inv_def same_keys [OF assms] ..

lemma claim_keeps_chain_inv:
  assumes inv: "chain_inv env m" and turn: "claim_execution_turn env st now i m = Inr (claimed, reason, m')"
  shows "chain_inv env m'"
proof (cases claimed)
  case False
  with turn have "claim_execution_turn env st now i m = Inr (False, reason, m')" by simp
  note same = claim_failure [OF this]
  show ?thesis
    by (rule chain_inv_same_chains [OF inv]) (use same inv in \<open>simp_all add: chain_inv_def\<close>)
next
  case True
  with turn have claim: "claim_execution_turn env st now i m = Inr (True, reason, m')" by simp
  then obtain r where r: "get_run (mg_db m) i = Some r"
    and m': "mg_db m' = modify_run i (start_run now) (commit_mount_scan env (mg_db m))"
      "mg_chains m' = mark_repository_chain_started i (mg_chains m)"
    by (rule claim_success)
  let ?m = "change_chains (mark_repository_chain_started i) m"
  have "chain_inv env ?m"
  proof (rule mark_keeps_chain_inv [OF inv, of _ i])
    fix key c assume c: "c \<in> set (chain_queue (mg_chains m) key)" "rs_root c = i"
    obtain h rest where h: "chain_queue (mg_chains m) key = h # rest"
      using c(1) by (cases "chain_queue (mg_chains m) key") auto
    have wf: "chains_wf (mg_chains m)" using inv by (simp add: chain_inv_def)
    have "row_repository_key env (mg_db m) r = Some key" using chain_invD(3) [OF inv c(1)] c(2) r by simp
    moreover have "chain_owner (mg_chains m) key = Some h"
      using wf h by (simp add: chain_owner_eq chains_wf_def)
    ultimately have "ch_tokens (mg_chains m) i = Some (rs_token h) \<or> i \<le> rs_root h"
      using claim_not_reserved [OF claim r] inv by (auto simp: chain_inv_def)
    then have "c = h"
    proof
      assume "ch_tokens (mg_chains m) i = Some (rs_token h)"
      then have "rs_token c = rs_token h" using chain_invD(2) [OF inv c(1)] c(2) by simp
      then show ?thesis using chain_invD(4) [OF inv c(1), of h key] h by simp
    next
      assume "i \<le> rs_root h"
      moreover have "queue_ordered (h # rest)" using chain_queue_ordered [OF wf, of key] h by simp
      moreover have False if "c \<in> set rest"
        using that calculation c(2) by (auto simp: queue_ordered_def) (metis image_eqI order_antisym)
      ultimately show ?thesis using c(1) h by auto
    qed
    then show "hd (chain_queue (mg_chains m) key) = c" by (simp add: h)
  qed simp_all
  moreover have "valid_runs (mg_db m')"
    using inv run_store.valid_modify [of "start_run now" "mg_db m" i]
    by (simp add: m' chain_inv_def valid_runs_def)
  ultimately show ?thesis
    using modified_run_key [of "commit_mount_scan env (mg_db m)" _ _ "start_run now" env i]
    by (intro chain_inv_same_chains [of env ?m m']) (simp_all add: m')
qed

lemma chain_inv_step:
  assumes inv: "chain_inv env m" and step: "queue_step env m m'"
  shows "chain_inv env m'"
  using step
proof cases
  case (Submit r token)
  then show ?thesis by (intro submit_keeps_chain_inv [OF inv, of r _ token]) auto
next
  case (Submit_chain r key token)
  then show ?thesis by (intro submit_chain_keeps_chain_inv [OF inv, of r key token]) auto
next
  case (Record r)
  show ?thesis
    using chain_inv_same_chains [OF inv, of m'] Record get_run_insert_fresh inv
    by (force simp: chain_inv_def run_store.valid_insert_fresh simp del: runs_simps)
next
  case (Enter i)
  then show ?thesis by (intro chain_inv_same_chains [OF inv]) (use inv in \<open>auto simp: chain_inv_def\<close>)
next
  case (Claim view i st now claimed reason)
  note same = same_chain_inv [OF Claim(1)]
  have "chain_inv view m'" by (rule claim_keeps_chain_inv [OF _ Claim(3)]) (unfold same, rule inv)
  then show ?thesis unfolding same .
next
  case (Refresh i r repository present now)
  then have m': "m' = change_run i (start_run now) m"
    by (auto simp: start_archive_refresh_def split: option.splits if_splits)
  show ?thesis
    by (rule chain_inv_same_chains [OF inv])
      (use inv modified_run_key in \<open>auto simp: m' chain_inv_def intro!: run_store.valid_modify\<close>)
next
  case (Finish s i now)
  show ?thesis
    by (rule chain_inv_same_chains [OF inv])
      (use inv modified_run_key in \<open>auto simp: Finish chain_inv_def intro!: run_store.valid_modify\<close>)
next
  case (Release token)
  then show ?thesis by (intro release_keeps_chain_inv [OF inv, of _ token]) auto
next
  case (Elsewhere keep f db)
  then show ?thesis using other_change_keeps_chain_inv [OF inv] by simp
qed

interpretation chain_queue: guarded_system queue_start "queue_step env" "chain_inv env" for env
proof
  fix m assume "queue_start m"
  then show "chain_inv env m"
    by (auto simp: queue_start_def chain_inv_def chain_queue_def no_chains_def chains_wf_def)
qed (rule chain_inv_step)

section \<open>An example history\<close>

text \<open>
  Run 1 is a backup with a maintenance chain: it is stored, reserves the repository, claims its
  turn and finishes. Run 2 is an archive refresh that is stored and starts before the chain
  has queued its next run.
\<close>

definition demo_env :: plan_env where
  "demo_env = \<lparr>pe_resolve = (\<lambda>s. Some (path_of_string s)), pe_mounts = [[''repositories'']],
     pe_mountinfo = [], pe_url = plain_url_env\<rparr>"

definition demo_key :: string where
  "demo_key = ''managed:/repositories/main''"

definition demo_idle :: manager where
  "demo_idle = \<lparr>mg_db = sample_db, mg_chains = no_chains, mg_live = \<lparr>lv_tasks = [], lv_executing = []\<rparr>\<rparr>"

definition demo_reserved :: manager where
  "demo_reserved = track_task (rn_id sample_run)
     (change_chains (register_repository_chain demo_key (rn_id sample_run) ''chain'') (store_run sample_run demo_idle))"

definition claim_ok :: "(url_error, bool \<times> blocker option \<times> manager) result \<Rightarrow> bool" where
  "claim_ok r = (case r of Inl _ \<Rightarrow> False | Inr (b, _, _) \<Rightarrow> b)"

definition claim_state :: "(url_error, bool \<times> blocker option \<times> manager) result \<Rightarrow> manager" where
  "claim_state r = (case r of Inl _ \<Rightarrow> demo_idle | Inr (_, _, m) \<Rightarrow> m)"

lemma claim_okD: "claim_ok r \<Longrightarrow> \<exists>reason. r = Inr (True, reason, claim_state r)"
  by (auto simp: claim_ok_def claim_state_def split: sum.splits prod.splits)

definition demo_running :: manager where
  "demo_running = claim_state (claim_execution_turn demo_env sample_settings 0 1 demo_reserved)"

definition demo_finished :: manager where
  "demo_finished = leave_execution 1 (change_run 1 (finish_run Success 5) demo_running)"

definition demo_refresh :: run where
  "demo_refresh = sample_run\<lparr>rn_id := 2, rn_job_id := None, rn_action := ''archive-refresh''\<rparr>"

definition demo_waiting :: manager where
  "demo_waiting = track_task (rn_id demo_refresh)
     (change_chains (register_chain_run (rn_id demo_refresh) None) (store_run demo_refresh demo_finished))"

definition demo_refreshing :: manager where
  "demo_refreshing = (case start_archive_refresh demo_env (\<lambda>_. True) 6 2 1 demo_waiting of
     Started m \<Rightarrow> m | _ \<Rightarrow> demo_waiting)"

definition is_started :: "refresh_start \<Rightarrow> bool" where
  "is_started r = (case r of Started _ \<Rightarrow> True | _ \<Rightarrow> False)"

lemma demo_start: "queue_start demo_idle"
  by (simp add: queue_start_def demo_idle_def sample_db_def valid_runs_def unique_keys_def)

lemma demo_claim: "claim_ok (claim_execution_turn demo_env sample_settings 0 1 demo_reserved)"
  by code_simp

lemma demo_step_reserve: "queue_step demo_env demo_idle demo_reserved"
proof -
  have "row_repository_key demo_env (mg_db demo_idle) sample_run = Some demo_key"
    "rn_id sample_run = next_run_id (mg_db demo_idle)" "rn_status sample_run = Queued" by code_simp+
  then show ?thesis
    unfolding demo_reserved_def
    using Submit_chain [of sample_run demo_idle demo_env demo_key "''chain''"]
    by (simp add: demo_idle_def no_chains_def chain_queue_def)
qed

lemma demo_step_claim: "queue_step demo_env demo_reserved demo_running"
proof -
  have "is_live demo_reserved 1" by code_simp
  then show ?thesis
    using claim_okD [OF demo_claim] unfolding demo_running_def by (metis Claim [OF refl])
qed

lemma demo_steps_running: "(queue_step demo_env)\<^sup>*\<^sup>* demo_idle demo_running"
  using demo_step_reserve demo_step_claim by (meson rtranclp.rtrancl_refl rtranclp.rtrancl_into_rtrancl)

lemma demo_steps_refreshing: "(queue_step demo_env)\<^sup>*\<^sup>* demo_idle demo_refreshing"
proof -
  have "queue_step demo_env demo_running demo_finished"
    unfolding demo_finished_def by (rule Finish) simp
  moreover have "rn_id demo_refresh = next_run_id (mg_db demo_finished)" "rn_status demo_refresh = Queued"
    by code_simp+
  then have "queue_step demo_env demo_finished demo_waiting"
    unfolding demo_waiting_def by (rule Submit)
  moreover have "is_live demo_waiting 2" "get_run (mg_db demo_waiting) 2 = Some demo_refresh"
    "rn_repository_id demo_refresh = Some 1"
    "is_started (start_archive_refresh demo_env (\<lambda>_. True) 6 2 1 demo_waiting)"
    by code_simp+
  then have "queue_step demo_env demo_waiting demo_refreshing"
    unfolding demo_refreshing_def is_started_def
    by (cases "start_archive_refresh demo_env (\<lambda>_. True) 6 2 1 demo_waiting") (auto intro: Refresh)
  ultimately show ?thesis
    using demo_steps_running by (meson rtranclp.rtrancl_into_rtrancl)
qed

section \<open>Properties\<close>

text \<open>
  C1: as long as paths are resolved alike, no other request moves a repository with unfinished runs or a reserved
  chain to another place, and every execution that ends records the end of its run (it does not when its log cannot be closed, C39), at
  every reachable point at most one run holds a physical repository, whatever the order of submissions, claims,
  archive refreshes, ends of runs, released chains and other requests, and even when several repository rows name
  the same place. The condition on moves is needed (\<open>relocation_breaks_exclusion\<close>); no code checks it.
\<close>

theorem repository_mutual_exclusion:
  assumes "queue_start m" and "(queue_step env)\<^sup>*\<^sup>* m m'"
    and "holds_repository env m' key r" and "holds_repository env m' key s"
  shows "r = s"
  using run_queue.inv_reachable [OF assms(1,2)] assms(3,4) by (auto simp: queue_inv_def exclusive_def)

theorem repository_mutual_exclusion_witness:
  "{s. holds_repository demo_env demo_running demo_key s} = {start_run 0 sample_run}"
proof -
  have "holds_repository demo_env demo_running demo_key (start_run 0 sample_run)" by code_simp
  then show ?thesis
    using repository_mutual_exclusion [OF demo_start demo_steps_running] by blast
qed

text \<open>
  C5: the queue implements one lock per physical repository: seen through all the runs the database shows as
  running on a repository, every history is one in which a repository is only taken while nobody holds it and
  is only given back by a holder, and every single step takes one such lock, gives one back, or touches none.
  The conditions are those of C1.
\<close>

theorem queue_refines_locks:
  assumes "queue_start m" and "(queue_step env)\<^sup>*\<^sup>* m m'"
  shows "lock_step\<^sup>*\<^sup>* (\<lambda>_. {}) (held_locks env m') \<and>
    (\<forall>m''. queue_step env m' m'' \<longrightarrow> lock_step\<^sup>=\<^sup>= (held_locks env m') (held_locks env m''))"
  using run_queue_locks.abs_reachable [OF assms] run_queue.inv_reachable [OF assms] queue_step_locks by blast

theorem queue_refines_locks_witness:
  "lock_step\<^sup>*\<^sup>* (\<lambda>_. {}) (held_locks demo_env demo_running) \<and> held_locks demo_env demo_running demo_key = {1}"
proof
  show "lock_step\<^sup>*\<^sup>* (\<lambda>_. {}) (held_locks demo_env demo_running)"
    using queue_refines_locks [OF demo_start demo_steps_running] by (elim conjE)
  show "held_locks demo_env demo_running demo_key = {1}" by code_simp
qed

text \<open>
  C3: once the root run of a maintenance chain has started, no run of another chain and no run
  without a chain can claim the repository before the chain is released; before that, only
  runs queued earlier than the root can.
\<close>

theorem claims_respect_chain:
  assumes "queue_start m0" and "(queue_step env)\<^sup>*\<^sup>* m0 m"
    and "claim_execution_turn env st now i m = Inr (True, reason, m')"
    and "get_run (mg_db m) i = Some r" and "row_repository_key env (mg_db m) r = Some key"
    and "chain_owner (mg_chains m) key = Some c"
  shows "ch_tokens (mg_chains m) i = Some (rs_token c) \<or> (\<not> rs_started c \<and> i \<le> rs_root c)"
  using claim_not_reserved [OF assms(3-5) _ assms(6)] run_queue.inv_reachable [OF assms(1,2)]
  by (auto simp: queue_inv_def)

theorem claims_respect_chain_witness:
  "ch_tokens (mg_chains demo_reserved) 1 = Some ''chain'' \<or> (1 :: nat) \<le> 1"
proof -
  obtain reason where c: "claim_execution_turn demo_env sample_settings 0 1 demo_reserved =
      Inr (True, reason, demo_running)"
    using claim_okD [OF demo_claim] by (auto simp: demo_running_def)
  have steps: "(queue_step demo_env)\<^sup>*\<^sup>* demo_idle demo_reserved" using demo_step_reserve by blast
  have "get_run (mg_db demo_reserved) 1 = Some sample_run"
    "row_repository_key demo_env (mg_db demo_reserved) sample_run = Some demo_key"
    "chain_owner (mg_chains demo_reserved) demo_key =
       Some \<lparr>rs_token = ''chain'', rs_root = 1, rs_started = False\<rparr>" by code_simp+
  from claims_respect_chain [OF demo_start steps c this] show ?thesis by simp
qed

text \<open>
  C6: as long as paths are resolved alike and no other request moves a repository with a reserved chain to another place or deletes the root
  run of one, chains of one repository run strictly one after the other: at every reachable point only the first
  reservation of a queue can be started, and the queue is ordered by root run.
\<close>

theorem only_first_chain_started:
  assumes "queue_start m0" and "(queue_step env)\<^sup>*\<^sup>* m0 m"
  shows "\<not> list_ex rs_started (tl (chain_queue (mg_chains m) key)) \<and>
    sorted (map rs_root (chain_queue (mg_chains m) key)) \<and>
    distinct (map rs_root (chain_queue (mg_chains m) key))"
proof -
  have inv: "chain_inv env m" using assms by (rule chain_queue.inv_reachable)
  then have "\<forall>c \<in> set (tl (chain_queue (mg_chains m) key)). \<not> rs_started c"
    unfolding chain_inv_def by blast
  moreover have "queue_ordered (chain_queue (mg_chains m) key)"
    using inv by (intro chain_queue_ordered) (simp add: chain_inv_def)
  ultimately show ?thesis by (simp add: list_ex_iff queue_ordered_def)
qed

theorem only_first_chain_started_witness:
  "\<not> list_ex rs_started (tl (chain_queue (mg_chains demo_running) demo_key))"
  using only_first_chain_started [OF demo_start demo_steps_running] by blast

section \<open>Moving a repository during a run\<close>

text \<open>
  \<open>update_repository\<close> stores a new location of an external repository without a look at its runs. Here two
  external repositories are backed up at the same time, then one is given the location of the other: both
  running runs now hold the same place, so the condition of the steps is needed.
\<close>

definition far_repository :: "nat \<Rightarrow> string \<Rightarrow> repository" where
  "far_repository i l = sample_repository\<lparr>rp_id := i, rp_name := l, rp_location := ''ssh://store/'' @ l, rp_storage_path := None\<rparr>"

definition far_idle :: manager where
  "far_idle = demo_idle\<lparr>mg_db := sample_db\<lparr>db_repositories := [far_repository 2 ''a'', far_repository 3 ''b'']\<rparr>\<rparr>"

definition far_run :: "nat \<Rightarrow> nat \<Rightarrow> run" where
  "far_run i repository = sample_run\<lparr>rn_id := i, rn_job_id := None, rn_repository_id := Some repository\<rparr>"

definition far_submitted :: "nat \<Rightarrow> nat \<Rightarrow> manager \<Rightarrow> manager" where
  "far_submitted i repository m = track_task (rn_id (far_run i repository))
     (change_chains (register_chain_run (rn_id (far_run i repository)) None) (store_run (far_run i repository) m))"

definition far_claimed :: "nat \<Rightarrow> manager \<Rightarrow> manager" where
  "far_claimed i m = claim_state (claim_execution_turn demo_env sample_settings 0 i m)"

definition far_running :: manager where
  "far_running = far_claimed 2 (far_submitted 2 3 (far_claimed 1 (far_submitted 1 2 far_idle)))"

definition far_moved :: "manager \<Rightarrow> manager" where
  "far_moved m = m\<lparr>mg_db := (mg_db m)\<lparr>db_repositories :=
     table_modify rp_id 3 (\<lambda>p. p\<lparr>rp_location := ''ssh://store/a''\<rparr>) (db_repositories (mg_db m))\<rparr>\<rparr>"

lemma far_steps: "queue_start far_idle \<and> (queue_step demo_env)\<^sup>*\<^sup>* far_idle far_running"
proof
  show "queue_start far_idle"
    by (simp add: queue_start_def far_idle_def demo_idle_def sample_db_def valid_runs_def unique_keys_def)
  have submit: "queue_step demo_env m (far_submitted i r m)" if "i = next_run_id (mg_db m)" for i r m
    unfolding far_submitted_def using that by (intro Submit) (simp_all add: far_run_def sample_run_def blank_run_def)
  have claim: "queue_step demo_env m (far_claimed i m)"
    if "is_live m i" "claim_ok (claim_execution_turn demo_env sample_settings 0 i m)" for i m
    using claim_okD [OF that(2)] that(1) unfolding far_claimed_def by (metis Claim [OF refl])
  have "queue_step demo_env far_idle (far_submitted 1 2 far_idle)" by (rule submit) code_simp
  moreover have "queue_step demo_env (far_submitted 1 2 far_idle) (far_claimed 1 (far_submitted 1 2 far_idle))"
    by (rule claim) code_simp+
  moreover have "queue_step demo_env (far_claimed 1 (far_submitted 1 2 far_idle)) (far_submitted 2 3 (far_claimed 1 (far_submitted 1 2 far_idle)))"
    by (rule submit) code_simp
  moreover have "queue_step demo_env (far_submitted 2 3 (far_claimed 1 (far_submitted 1 2 far_idle))) far_running"
    unfolding far_running_def by (rule claim) code_simp+
  ultimately show "(queue_step demo_env)\<^sup>*\<^sup>* far_idle far_running"
    by (meson rtranclp.rtrancl_into_rtrancl rtranclp.rtrancl_refl)
qed

lemma relocation_breaks_exclusion:
  "\<exists>key. holds_repository demo_env (far_moved far_running) key (start_run 0 (far_run 1 2)) \<and>
     holds_repository demo_env (far_moved far_running) key (start_run 0 (far_run 2 3))"
proof -
  have "\<exists>key. row_repository_key demo_env (mg_db (far_moved far_running)) (far_run 1 2) = Some key \<and>
      row_repository_key demo_env (mg_db (far_moved far_running)) (far_run 2 3) = Some key"
    by (rule exI [of _ "the (row_repository_key demo_env (mg_db (far_moved far_running)) (far_run 1 2))"]) code_simp
  moreover have "db_runs (mg_db (far_moved far_running)) = [start_run 0 (far_run 1 2), start_run 0 (far_run 2 3)]" by code_simp
  ultimately show ?thesis by (auto simp: holds_repository_def)
qed

section \<open>Archive refreshes and chains\<close>

text \<open>
  an archive refresh only looks at runs, not at reservations: in the pause between the backup
  of a started chain and its prune it takes the repository, although the chain still owns it.
\<close>

theorem archive_refresh_enters_started_chain:
  "queue_start demo_idle \<and> (queue_step demo_env)\<^sup>*\<^sup>* demo_idle demo_refreshing \<and>
   holds_repository demo_env demo_refreshing demo_key (start_run 6 demo_refresh) \<and>
   chain_owner (mg_chains demo_refreshing) demo_key =
     Some \<lparr>rs_token = ''chain'', rs_root = 1, rs_started = True\<rparr> \<and>
   ch_tokens (mg_chains demo_refreshing) 2 = None"
proof -
  have "holds_repository demo_env demo_refreshing demo_key (start_run 6 demo_refresh)"
    "chain_owner (mg_chains demo_refreshing) demo_key =
       Some \<lparr>rs_token = ''chain'', rs_root = 1, rs_started = True\<rparr>"
    "ch_tokens (mg_chains demo_refreshing) 2 = None" by code_simp+
  then show ?thesis using demo_start demo_steps_refreshing by blast
qed

end
