(* ===== verification/RepositoryState.thy ===== *)
theory RepositoryState
  imports Model
begin

text \<open>
  The state of managed repositories on disk: \<open>src/app/repository_state.py\<close>. The file system is
  a record of the answers the code asks for; nothing is assumed about them, so the results hold
  for any directory tree, links included.
\<close>

record file_system =
  fs_exists :: "path \<Rightarrow> bool"
  fs_symlink :: "path \<Rightarrow> bool"
  fs_dir :: "path \<Rightarrow> bool"
  fs_file :: "path \<Rightarrow> bool"
  fs_names :: "path \<Rightarrow> string list option"
  fs_resolve :: "bool \<Rightarrow> path \<Rightarrow> (bool, path) result"

datatype path_error =
    Not_managed | Outside_root | Root_itself | Unsafe_segment | Symbolic_link
  | Directory_missing | Unresolvable | Not_a_directory
  | Config_present | Unlistable | Not_empty "string list" nat

text \<open>\<open>Path(text)\<close> is below an absolute root only when it is absolute with a single slash.\<close>

definition absolute_text :: "string \<Rightarrow> bool" where
  "absolute_text s =
     (starts_with ''/'' s \<and> (starts_with ''//'' s \<longrightarrow> starts_with ''///'' s))"

text \<open>The loop over the parts: the first unsafe part or link ends it.\<close>

fun walk_parts :: "file_system \<Rightarrow> path \<Rightarrow> string list \<Rightarrow> path_error option" where
  "walk_parts fs current [] = None"
| "walk_parts fs current (part # parts) =
     (if part \<in> {[], ''.'', ''..''} then Some Unsafe_segment
      else if fs_symlink fs (current @ [part]) then Some Symbolic_link
      else walk_parts fs (current @ [part]) parts)"

text \<open>A failed \<open>resolve\<close> is \<open>Inl True\<close> for \<open>FileNotFoundError\<close> and \<open>Inl False\<close> otherwise.\<close>

definition managed_repository_path ::
    "file_system \<Rightarrow> path \<Rightarrow> repository \<Rightarrow> bool \<Rightarrow> (path_error, path) result" where
  "managed_repository_path fs base r require_directory =
     (if \<not> truthy (rp_storage_path r) then Inl Not_managed
      else (let s = or_empty (rp_storage_path r); configured = path_of_string s in
        if \<not> absolute_text s \<or> \<not> path_within base configured then Inl Outside_root
        else if configured = base then Inl Root_itself
        else case walk_parts fs base (drop (length base) configured) of
          Some e \<Rightarrow> Inl e
        | None \<Rightarrow>
            (case fs_resolve fs require_directory configured of
               Inl missing \<Rightarrow> Inl (if missing then Directory_missing else Unresolvable)
             | Inr p \<Rightarrow>
                 if p = base \<or> \<not> path_within base p then Inl Outside_root
                 else if require_directory \<and> \<not> fs_dir fs p then Inl Not_a_directory
                 else Inr p)))"

text \<open>\<open>managed_repository_present\<close>; a failing query of the file system answers \<open>False\<close>.\<close>

definition managed_repository_present :: "file_system \<Rightarrow> repository \<Rightarrow> bool" where
  "managed_repository_present fs r =
     (if \<not> truthy (rp_storage_path r) then rp_initialized r
      else (let p = path_of_string (or_empty (rp_storage_path r)) in
        \<not> fs_symlink fs p \<and> fs_dir fs p \<and> fs_file fs (p @ [''config''])))"

text \<open>Sorted by \<open>casefold\<close>; the message shows five names and the number of the others.\<close>

definition check_no_entries :: "file_system \<Rightarrow> path \<Rightarrow> (path_error, path) result" where
  "check_no_entries fs p =
     (case fs_names fs p of
        None \<Rightarrow> Inl Unlistable
      | Some names \<Rightarrow>
          (let entries = sort_key py_casefold names in
           if entries \<noteq> [] then Inl (Not_empty (take 5 entries) (length entries - 5)) else Inr p))"

definition require_empty_managed_repository ::
    "file_system \<Rightarrow> path \<Rightarrow> repository \<Rightarrow> (path_error, path) result" where
  "require_empty_managed_repository fs base r =
     try_bind (managed_repository_path fs base r True) (\<lambda>p.
       if fs_exists fs (p @ [''config'']) then Inl Config_present else check_no_entries fs p)"

definition require_initializable_managed_repository ::
    "file_system \<Rightarrow> path \<Rightarrow> repository \<Rightarrow> (path_error, path) result" where
  "require_initializable_managed_repository fs base r =
     try_bind (managed_repository_path fs base r False) (\<lambda>p.
       if \<not> fs_exists fs p then Inr p
       else if fs_symlink fs p \<or> \<not> fs_dir fs p then Inl Not_a_directory
       else if fs_exists fs (p @ [''config'']) then Inl Config_present
       else check_no_entries fs p)"

section \<open>Facts\<close>

lemma walk_parts_ok:
  assumes "walk_parts fs current parts = None"
  shows "set parts \<inter> {[], ''.'', ''..''} = {} \<and>
         (\<forall>k \<in> {1 .. length parts}. \<not> fs_symlink fs (current @ take k parts))"
  using assms
proof (induction fs current parts rule: walk_parts.induct)
  case (2 fs current part parts)
  then have IH: "set parts \<inter> {[], ''.'', ''..''} = {}"
      "\<forall>k \<in> {1 .. length parts}. \<not> fs_symlink fs ((current @ [part]) @ take k parts)"
    and here: "part \<notin> {[], ''.'', ''..''}" "\<not> fs_symlink fs (current @ [part])"
    by (auto split: if_splits)
  have "\<not> fs_symlink fs (current @ take k (part # parts))" if "k \<in> {1 .. Suc (length parts)}" for k
  proof (cases k)
    case (Suc n)
    then show ?thesis using IH(2) here(2) that by (cases "n = 0") auto
  qed (use that in simp)
  with IH(1) here(1) show ?case by auto
qed simp

lemma check_no_entries_ok: "check_no_entries fs p = Inr q \<Longrightarrow> q = p \<and> fs_names fs p = Some []"
proof -
  assume ok: "check_no_entries fs p = Inr q"
  then obtain names where n: "fs_names fs p = Some names" "sort_key py_casefold names = []" "q = p"
    by (auto simp: check_no_entries_def Let_def split: option.splits if_splits)
  have "set names = {}" using n(2) set_sort [of py_casefold names] by simp
  with n show ?thesis by simp
qed

lemma managed_path_strict:
  "managed_repository_path fs base r b = Inr p \<Longrightarrow> path_within base p \<and> p \<noteq> base"
  by (auto simp: managed_repository_path_def Let_def split: if_splits option.splits sum.splits)

section \<open>Properties\<close>

text \<open>
  a managed repository path that is accepted lies strictly below the repository root after
  resolution, the configured path has no parent segment, and no component of it below the root
  is a symbolic link.
\<close>

theorem managed_path_contained:
  assumes "managed_repository_path fs base r b = Inr p"
  defines "configured \<equiv> path_of_string (or_empty (rp_storage_path r))"
  shows "path_within base p \<and> p \<noteq> base \<and> ''..'' \<notin> set (drop (length base) configured) \<and>
    path_within base configured \<and>
    (\<forall>k \<in> {1 .. length configured - length base}. \<not> fs_symlink fs (take (length base + k) configured))"
proof -
  from assms have ok: "walk_parts fs base (drop (length base) configured) = None"
      "path_within base configured" "path_within base p" "p \<noteq> base"
    by (auto simp: managed_repository_path_def Let_def split: if_splits option.splits sum.splits)
  have "take (length base) configured = base" using ok(2) by (simp add: path_within_def)
  then have "take (length base + k) configured = base @ take k (drop (length base) configured)" for k
    by (simp add: take_add)
  with walk_parts_ok [OF ok(1)] ok show ?thesis by simp
qed

definition plain_fs :: file_system where
  "plain_fs = \<lparr>fs_exists = (\<lambda>_. True), fs_symlink = (\<lambda>_. False), fs_dir = (\<lambda>_. True),
     fs_file = (\<lambda>_. False), fs_names = (\<lambda>_. Some []), fs_resolve = (\<lambda>_ p. Inr p)\<rparr>"

theorem managed_path_contained_witness:
  "path_within [''repositories''] [''repositories'', ''main'']"
  using managed_path_contained [of plain_fs "[''repositories'']" sample_repository True "[''repositories'', ''main'']"]
  by code_simp

text \<open>
  manager state is only reset for a repository directory that was listed and found empty
  and has no Borg configuration; it lies strictly below the repository root.
\<close>

theorem reset_only_empty_directory:
  assumes "require_empty_managed_repository fs base r = Inr p"
  shows "fs_names fs p = Some [] \<and> \<not> fs_exists fs (p @ [''config'']) \<and> fs_dir fs p \<and>
    path_within base p \<and> p \<noteq> base"
proof -
  from assms obtain q where q: "managed_repository_path fs base r True = Inr q"
    and c: "\<not> fs_exists fs (q @ [''config''])" "check_no_entries fs q = Inr p"
    by (auto simp: require_empty_managed_repository_def try_bind_Inr_iff split: if_splits)
  have "fs_dir fs q"
    using q by (auto simp: managed_repository_path_def Let_def split: if_splits option.splits sum.splits)
  with c check_no_entries_ok [OF c(2)] managed_path_strict [OF q] show ?thesis by simp
qed

theorem reset_only_empty_directory_witness:
  "fs_names (plain_fs\<lparr>fs_exists := (\<lambda>_. False)\<rparr>) [''repositories'', ''main''] = Some []"
  using reset_only_empty_directory [of "plain_fs\<lparr>fs_exists := (\<lambda>_. False)\<rparr>" "[''repositories'']"
      sample_repository "[''repositories'', ''main'']"]
  by code_simp

end
