(* ===== verification/RunActions.thy ===== *)
theory RunActions
  imports RunQueue RepositoryState
begin

text \<open>
  How runs come into the queue and leave it by request: \<open>queue_job_action\<close>,
  \<open>queue_repository_action\<close>, \<open>queue_repository_archive_refresh\<close>, \<open>queue_repository_init\<close>,
  \<open>cancel_run\<close>, \<open>retry_run\<close>, \<open>_record_schedule_error\<close> and \<open>reset_managed_repository_state\<close> of
  \<open>src/app/service.py\<close>. Each function takes the manager state and returns the new state with
  the id of the run or the exception. The command builders of \<open>src/app/runner.py\<close> only matter
  here by whether they raise: \<open>qe_command\<close> answers that for an action.
\<close>

section \<open>Environment\<close>

record queue_env =
  qe_plan :: plan_env
  qe_fs :: file_system
  qe_root :: path
  qe_disk :: "string \<Rightarrow> disk_usage option"
  qe_settings :: settings
  qe_command :: "string \<Rightarrow> job option \<Rightarrow> repository \<Rightarrow> (string, unit) result"

definition present :: "queue_env \<Rightarrow> repository \<Rightarrow> bool" where
  "present e r = managed_repository_present (qe_fs e) r"

definition build_command :: "queue_env \<Rightarrow> string \<Rightarrow> job option \<Rightarrow> repository \<Rightarrow> (queue_error, unit) result" where
  "build_command e action j r =
     (case qe_command e action j r of Inl msg \<Rightarrow> Inl (Command_error msg) | Inr _ \<Rightarrow> Inr ())"

definition unless_raise :: "bool \<Rightarrow> 'e \<Rightarrow> ('e, unit) result" where
  "unless_raise ok e = (if ok then Inr () else Inl e)"

lemma unless_raise_Inr [simp]: "unless_raise ok e = Inr u \<longleftrightarrow> ok"
  by (simp add: unless_raise_def)

lemma unless_raise_Inl [simp]: "unless_raise ok e = Inl e' \<longleftrightarrow> \<not> ok \<and> e = e'"
  by (auto simp: unless_raise_def)

section \<open>Queries\<close>

text \<open>\<open>repository_access_ready\<close>: an assigned key on an enabled repository.\<close>

definition repository_access_ready :: "manager_db \<Rightarrow> nat \<Rightarrow> nat \<Rightarrow> bool" where
  "repository_access_ready db host repository =
     list_ex (\<lambda>a. ac_host_id a = host \<and> ac_repository_id a = repository \<and> ac_public_key a \<noteq> None \<and>
       (case get_repository db repository of None \<Rightarrow> False | Some r \<Rightarrow> rp_enabled r)) (db_access db)"

definition has_unfinished_job :: "manager_db \<Rightarrow> nat \<Rightarrow> bool" where
  "has_unfinished_job db j = list_ex (\<lambda>r. rn_job_id r = Some j \<and> unfinished r) (db_runs db)"

definition has_unfinished_repository :: "manager_db \<Rightarrow> nat \<Rightarrow> bool" where
  "has_unfinished_repository db i = list_ex (\<lambda>r. rn_repository_id r = Some i \<and> unfinished r) (db_runs db)"

text \<open>The first unfinished relocation approval of the same host and repository.\<close>

definition existing_confirmation :: "manager_db \<Rightarrow> job \<Rightarrow> nat option" where
  "existing_confirmation db j =
     map_option rn_id (find (\<lambda>r. rn_action r = ''confirm-location'' \<and>
         rn_repository_id r = Some (jb_repository_id j) \<and> unfinished r \<and>
         (case rn_job_id r of None \<Rightarrow> False
          | Some i \<Rightarrow> (case get_job db i of None \<Rightarrow> False | Some k \<Rightarrow> jb_host_id k = jb_host_id j)))
       (by_key rn_id (db_runs db)))"

text \<open>\<open>any(isinstance(v, int) and not isinstance(v, bool) and v > 0 for v in retention.values())\<close>.\<close>

definition positive_retention :: "(string \<times> json) list \<Rightarrow> bool" where
  "positive_retention options =
     list_ex (\<lambda>(_, v). case json_int v of None \<Rightarrow> False | Some n \<Rightarrow> 0 < n) options"

definition has_retention :: "job option \<Rightarrow> bool" where
  "has_retention j =
     (case j of None \<Rightarrow> False
      | Some j \<Rightarrow> (case jb_prune_options j of None \<Rightarrow> False | Some d \<Rightarrow> positive_retention d))"

section \<open>\<open>queue_job_action\<close>\<close>

record action_request =
  ar_action :: string
  ar_restore :: bool
  ar_trigger :: trigger
  ar_schedule_name :: "string option"
  ar_schedule_id :: "nat option"
  ar_schedule_limit :: int
  ar_label :: "string option"
  ar_chain_token :: "string option"
  ar_reserve :: bool

definition plain_request :: "string \<Rightarrow> action_request" where
  "plain_request action =
     \<lparr>ar_action = action, ar_restore = False, ar_trigger = Manual, ar_schedule_name = None,
      ar_schedule_id = None, ar_schedule_limit = 0, ar_label = None, ar_chain_token = None,
      ar_reserve = False\<rparr>"

definition managed_checks :: "queue_env \<Rightarrow> manager_db \<Rightarrow> string \<Rightarrow> job \<Rightarrow> repository \<Rightarrow> (queue_error, unit) result" where
  "managed_checks e db action j r =
     (if \<not> truthy (rp_storage_path r) then Inr ()
      else try_bind (unless_raise
          (action \<in> {''version'', ''source-stats''} \<or> rp_initialized r \<and> present e r) Repository_unavailable) (\<lambda>_.
        try_bind (unless_raise
          (action \<notin> {''backup'', ''restore'', ''probe'', ''confirm-location''} \<or>
           repository_access_ready db (jb_host_id j) (jb_repository_id j)) Access_missing) (\<lambda>_.
        if action \<noteq> ''backup'' then Inr ()
        else case repository_storage_status (qe_disk e) r (qe_settings e) of
          Inl msg \<Rightarrow> Inl (Guard_unreadable msg)
        | Inr None \<Rightarrow> Inr ()
        | Inr (Some g) \<Rightarrow> unless_raise (\<not> ss_blocked g)
            (Guard_tripped (rp_name r) (us_percent (ss_usage g)) (ss_threshold g) (ss_path g)))))"

definition repository_actions :: "string list" where
  "repository_actions = [''list'', ''list-all'', ''info'', ''check'', ''verify'', ''compact'', ''version'', ''probe'', ''confirm-location'']"

definition archive_actions :: "string list" where
  "archive_actions = [''restore'', ''delete-archive'', ''rename-archive'', ''diff-archives'']"

definition action_checks :: "queue_env \<Rightarrow> action_request \<Rightarrow> job \<Rightarrow> repository \<Rightarrow> (queue_error, unit) result" where
  "action_checks e q j r =
     (let action = ar_action q in
      if action \<in> {''backup'', ''source-stats''} then build_command e action (Some j) r
      else if action = ''prune'' then
        (case jb_prune_options j of
           None \<Rightarrow> Inl (Command_error ''prune options'')
         | Some d \<Rightarrow> try_bind (unless_raise (positive_retention d) Retention_missing)
             (\<lambda>_. build_command e action (Some j) r))
      else if action \<in> set repository_actions \<or> action \<in> set archive_actions \<and> ar_restore q
      then build_command e action (Some j) r
      else Inl (Unsupported_action action))"

definition job_run :: "manager_db \<Rightarrow> action_request \<Rightarrow> job \<Rightarrow> run" where
  "job_run db q j =
     (let scheduled = ar_trigger q = Scheduled; backup = ar_action q = ''backup'' in
      blank_run\<lparr>rn_id := next_run_id db, rn_job_id := Some (jb_id j),
        rn_job_name := Some (take 100 (if truthy (ar_label q) then or_empty (ar_label q) else jb_name j)),
        rn_repository_id := Some (jb_repository_id j), rn_action := ar_action q, rn_status := Queued,
        rn_trigger := ar_trigger q,
        rn_schedule_name := (if truthy (ar_schedule_name q)
                             then Some (take 100 (py_strip (or_empty (ar_schedule_name q)))) else None),
        rn_schedule_id := (if scheduled then ar_schedule_id q else None),
        rn_schedule_limit := (if scheduled then ar_schedule_limit q else 0),
        rn_source_size := (if backup then jb_source_size_bytes j else None),
        rn_source_files := (if backup then jb_source_file_count j else None)\<rparr>)"

text \<open>The checks before a run is stored; \<open>Inl (Inr i)\<close> returns an existing run instead.\<close>

definition job_checks ::
    "queue_env \<Rightarrow> nat \<Rightarrow> action_request \<Rightarrow> manager_db \<Rightarrow> (queue_error + nat, job \<times> repository) result" where
  "job_checks e job_id q db =
     (case get_job db job_id of
        None \<Rightarrow> Inl (Inl Job_missing)
      | Some j \<Rightarrow>
          (case get_repository db (jb_repository_id j) of
             None \<Rightarrow> Inl (Inl Repository_missing)
           | Some r \<Rightarrow>
               if \<not> rp_enabled r then Inl (Inl Repository_disabled)
               else if ar_action q = ''confirm-location'' \<and> existing_confirmation db j \<noteq> None
               then Inl (Inr (the (existing_confirmation db j)))
               else if has_unfinished_job db job_id then Inl (Inl Job_in_use)
               else case try_bind (managed_checks e db (ar_action q) j r) (\<lambda>_. action_checks e q j r) of
                 Inl err \<Rightarrow> Inl (Inl err)
               | Inr _ \<Rightarrow> Inr (j, r)))"

text \<open>
  A missing chain token is only noticed after the run has been committed, so that exception
  leaves a queued run without a task behind.
\<close>

definition queue_job_action ::
    "queue_env \<Rightarrow> nat \<Rightarrow> action_request \<Rightarrow> manager \<Rightarrow> manager \<times> (queue_error, nat) result" where
  "queue_job_action e job_id q m =
     (case job_checks e job_id q (mg_db m) of
        Inl (Inl err) \<Rightarrow> (m, Inl err)
      | Inl (Inr i) \<Rightarrow> (m, Inr i)
      | Inr (j, r) \<Rightarrow>
          (let run = job_run (mg_db m) q j; m1 = store_run run m; i = rn_id run in
           if ar_reserve q then
             (if truthy (ar_chain_token q)
              then (track_task i (change_chains (register_repository_chain
                      (repository_execution_key (qe_plan e) (Some r) (Some (rp_id r))) i
                      (or_empty (ar_chain_token q))) m1), Inr i)
              else (m1, Inl Chain_token_missing))
           else (track_task i (change_chains (register_chain_run i (ar_chain_token q)) m1), Inr i)))"

section \<open>Actions of a repository\<close>

definition repository_run :: "manager_db \<Rightarrow> repository \<Rightarrow> string \<Rightarrow> string option \<Rightarrow> string option \<Rightarrow> run" where
  "repository_run db r action name archive =
     blank_run\<lparr>rn_id := next_run_id db, rn_job_id := None, rn_job_name := map_option (take 100) name,
       rn_repository_id := Some (rp_id r), rn_action := action, rn_status := Queued,
       rn_archive_name := archive\<rparr>"

definition store_and_track :: "run \<Rightarrow> manager \<Rightarrow> manager" where
  "store_and_track r m = track_task (rn_id r) (store_run r m)"

text \<open>The guards shared by repository actions and archive refreshes.\<close>

definition repository_checks ::
    "queue_env \<Rightarrow> nat \<Rightarrow> bool \<Rightarrow> manager_db \<Rightarrow> (queue_error, repository) result" where
  "repository_checks e i needs_init db =
     (case get_repository db i of
        None \<Rightarrow> Inl Repository_missing
      | Some r \<Rightarrow>
          if \<not> rp_enabled r then Inl Repository_disabled
          else if needs_init \<and> \<not> rp_initialized r then Inl Repository_uninitialized
          else if truthy (rp_storage_path r) \<and> \<not> present e r then Inl Repository_unavailable
          else if has_unfinished_repository db i then Inl Repository_in_use
          else Inr r)"

definition queue_repository_action ::
    "queue_env \<Rightarrow> nat \<Rightarrow> string \<Rightarrow> string list \<Rightarrow> string option \<Rightarrow> manager \<Rightarrow>
     manager \<times> (queue_error, nat) result" where
  "queue_repository_action e i action archives subject m =
     (case try_bind (repository_checks e i (action \<noteq> ''test'') (mg_db m)) (\<lambda>r.
        try_bind (if action \<in> {''test'', ''compact'', ''delete-archive''}
                  then build_command e action None r else Inl (Unsupported_action action)) (\<lambda>_. Inr r)) of
        Inl err \<Rightarrow> (m, Inl err)
      | Inr r \<Rightarrow>
          (let run = repository_run (mg_db m) r
                 (if action = ''test'' then ''repository-test'' else action)
                 (Some (if truthy subject then or_empty subject else ''Repository: '' @ rp_name r))
                 (if action \<noteq> ''delete-archive'' then None
                  else if length archives = 1 then Some (hd archives)
                  else Some (str_nat (length archives) @ '' Archive''))
           in (store_and_track run m, Inr (rn_id run))))"

definition queue_repository_archive_refresh ::
    "queue_env \<Rightarrow> nat \<Rightarrow> manager \<Rightarrow> manager \<times> (queue_error, nat) result" where
  "queue_repository_archive_refresh e i m =
     (case try_bind (repository_checks e i True (mg_db m)) (\<lambda>r.
        try_bind (build_command e ''archive-info'' None r) (\<lambda>_. Inr r)) of
        Inl err \<Rightarrow> (m, Inl err)
      | Inr r \<Rightarrow>
          (let run = repository_run (mg_db m) r ''archive-refresh''
                 (Some (''Archivliste: '' @ rp_name r)) None
           in (store_and_track run m, Inr (rn_id run))))"

section \<open>Initialisation and reset\<close>

datatype init_error =
    Init_running | Init_missing | Init_disabled | Init_stale | Init_done
  | Init_path path_error | Init_command string

text \<open>\<open>_initializing_repositories\<close> is the first component; an exception takes the entry back.\<close>

definition queue_repository_init ::
    "queue_env \<Rightarrow> nat \<Rightarrow> nat list \<times> manager \<Rightarrow> (nat list \<times> manager) \<times> (init_error, nat) result" where
  "queue_repository_init e i s =
     (case s of (initializing, m) \<Rightarrow>
        if i \<in> set initializing then (s, Inl Init_running)
        else case get_repository (mg_db m) i of
          None \<Rightarrow> (s, Inl Init_missing)
        | Some r \<Rightarrow>
            if \<not> rp_enabled r then (s, Inl Init_disabled)
            else if rp_initialized r then
              (s, Inl (if truthy (rp_storage_path r) \<and> \<not> present e r then Init_stale else Init_done))
            else case require_initializable_managed_repository (qe_fs e) (qe_root e) r of
              Inl err \<Rightarrow> (s, Inl (Init_path err))
            | Inr _ \<Rightarrow>
                (case qe_command e ''init'' None r of
                   Inl msg \<Rightarrow> (s, Inl (Init_command msg))
                 | Inr _ \<Rightarrow>
                     (let run = repository_run (mg_db m) r ''repository-init'' None None in
                      ((i # initializing, store_and_track run m), Inr (rn_id run)))))"

text \<open>
  \<open>execute_repository_init\<close> after the run: the repository becomes initialised when the run
  succeeded and a keyfile that its mode needs was written (\<open>keyfile\<close>); otherwise a successful run is
  turned into a failed one. The entry of \<open>_initializing_repositories\<close> always goes.
\<close>

definition finish_repository_init ::
    "(repository \<Rightarrow> bool) \<Rightarrow> time \<Rightarrow> nat \<Rightarrow> nat \<Rightarrow> nat list \<times> manager \<Rightarrow> nat list \<times> manager" where
  "finish_repository_init keyfile now run_id i s =
     (case s of (initializing, m) \<Rightarrow>
        (removeAll i initializing,
         case (get_run (mg_db m) run_id, get_repository (mg_db m) i) of
           (Some run, Some r) \<Rightarrow>
             if rn_status run \<noteq> Success then m
             else if starts_with ''keyfile'' (rp_encryption_mode r) \<and> \<not> keyfile r
             then change_run run_id (finish_run Failed now) m
             else m\<lparr>mg_db := modify_repository i (\<lambda>r. r\<lparr>rp_initialized := True\<rparr>) (mg_db m)\<rparr>
         | _ \<Rightarrow> m))"

datatype reset_error = Reset_missing | Reset_external | Reset_busy | Reset_mounted | Reset_path path_error

definition forget_repository_state :: "repository \<Rightarrow> repository" where
  "forget_repository_state r =
     r\<lparr>rp_initialized := False, rp_validation_error := None, rp_validation_details := None,
       rp_validated_at := None, rp_size_bytes := None, rp_original_size_bytes := None,
       rp_compressed_size_bytes := None, rp_deduplicated_size_bytes := None,
       rp_size_checked_at := None\<rparr>"

definition reset_managed_repository_state ::
    "queue_env \<Rightarrow> time \<Rightarrow> nat \<Rightarrow> manager \<Rightarrow> manager \<times> (reset_error, nat) result" where
  "reset_managed_repository_state e now i m =
     (case get_repository (mg_db m) i of
        None \<Rightarrow> (m, Inl Reset_missing)
      | Some r \<Rightarrow>
          if \<not> truthy (rp_storage_path r) then (m, Inl Reset_external)
          else if has_unfinished_repository (mg_db m) i then (m, Inl Reset_busy)
          else if list_ex (\<lambda>a. am_repository_id a = i \<and> am_status a \<in> {''mounting'', ''mounted''}) (db_mounts (mg_db m))
          then (m, Inl Reset_mounted)
          else case require_empty_managed_repository (qe_fs e) (qe_root e) r of
            Inl err \<Rightarrow> (m, Inl (Reset_path err))
          | Inr _ \<Rightarrow>
              (let run = (repository_run (mg_db m) r ''repository-reset'' (Some (''Repository: '' @ rp_name r)) None)
                     \<lparr>rn_status := Success, rn_started_at := Some now, rn_finished_at := Some now\<rparr>
               in (store_run run (m\<lparr>mg_db := modify_repository i forget_repository_state (mg_db m)\<rparr>),
                   Inr (rn_id run))))"

section \<open>Cancelling and repeating\<close>

text \<open>\<open>cancel_run\<close> requests the cancellation of the task; the run itself ends later.\<close>

definition cancel_run :: "nat \<Rightarrow> manager \<Rightarrow> (queue_error, nat) result" where
  "cancel_run i m =
     (case get_run (mg_db m) i of
        None \<Rightarrow> Inl Run_missing
      | Some r \<Rightarrow>
          if \<not> unfinished r then Inl Not_cancellable
          else if map_of (lv_tasks (mg_live m)) i = None then Inl Task_inactive
          else Inr i)"

definition record_schedule_error ::
    "nat \<Rightarrow> string \<Rightarrow> string option \<Rightarrow> nat option \<Rightarrow> int \<Rightarrow> time \<Rightarrow> manager \<Rightarrow> manager \<times> nat" where
  "record_schedule_error job_id message name schedule_id limit now m =
     (let j = get_job (mg_db m) job_id;
          run = blank_run\<lparr>rn_id := next_run_id (mg_db m), rn_job_id := map_option (\<lambda>_. job_id) j,
            rn_job_name := map_option jb_name j, rn_repository_id := map_option jb_repository_id j,
            rn_action := ''schedule'', rn_status := Failed, rn_error := message, rn_trigger := Scheduled,
            rn_schedule_name := (if truthy name then Some (take 100 (py_strip (or_empty name))) else None),
            rn_schedule_id := schedule_id, rn_schedule_limit := limit,
            rn_started_at := Some now, rn_finished_at := Some now\<rparr>
      in (store_run run m, rn_id run))"

section \<open>Facts\<close>

lemma job_run_simps [simp]:
  "rn_id (job_run db q j) = next_run_id db" "rn_status (job_run db q j) = Queued"
  "rn_job_id (job_run db q j) = Some (jb_id j)" "rn_repository_id (job_run db q j) = Some (jb_repository_id j)"
  "rn_action (job_run db q j) = ar_action q"
  by (simp_all add: job_run_def Let_def)

lemma repository_run_simps [simp]:
  "rn_id (repository_run db r a n x) = next_run_id db" "rn_status (repository_run db r a n x) = Queued"
  "rn_job_id (repository_run db r a n x) = None" "rn_repository_id (repository_run db r a n x) = Some (rp_id r)"
  by (simp_all add: repository_run_def)

lemma job_checks_Inr:
  assumes "job_checks e job_id q db = Inr (j, r)"
  shows "get_job db job_id = Some j" and "get_repository db (jb_repository_id j) = Some r"
    and "rp_enabled r" and "\<not> has_unfinished_job db job_id"
    and "managed_checks e db (ar_action q) j r = Inr ()" and "action_checks e q j r = Inr ()"
  using assms by (auto simp: job_checks_def try_bind_Inr_iff split: option.splits if_splits sum.splits)

lemma repository_checks_Inr:
  assumes "repository_checks e i b db = Inr r"
  shows "get_repository db i = Some r" and "rp_id r = i" and "rp_enabled r" and "b \<Longrightarrow> rp_initialized r"
    and "\<not> has_unfinished_repository db i" and "truthy (rp_storage_path r) \<Longrightarrow> present e r"
  using assms
  by (auto simp: repository_checks_def split: option.splits if_splits dest: table_get_SomeD)

lemma store_and_track_step:
  assumes "rn_id r = next_run_id (mg_db m)" and "rn_status r = Queued"
  shows "queue_step env m (store_and_track r m)"
  using Submit [OF assms, of env None] by (simp add: store_and_track_def change_chains_def register_chain_run_def store_run_def)

text \<open>The key a chain is registered under is the key the planner derives for its root run.\<close>

lemma job_run_key:
  assumes "get_repository db (jb_repository_id j) = Some r" and "ar_action q \<noteq> ''source-stats''"
  shows "row_repository_key env db (job_run db q j) =
    Some (repository_execution_key env (Some r) (Some (rp_id r)))"
proof -
  have "rp_id r = jb_repository_id j" using assms(1) by (auto dest: table_get_SomeD)
  then show ?thesis
    using assms by (simp add: row_repository_key_def run_repository_def is_source_stats_def)
qed

text \<open>A job never has two unfinished runs.\<close>

definition single_run_per_job :: "manager_db \<Rightarrow> bool" where
  "single_run_per_job db \<longleftrightarrow> (\<forall>r \<in> set (db_runs db). \<forall>s \<in> set (db_runs db).
     unfinished r \<and> unfinished s \<and> rn_job_id r = rn_job_id s \<and> rn_job_id r \<noteq> None \<longrightarrow> r = s)"

lemma single_run_insert:
  assumes single: "single_run_per_job db"
    and idle: "\<And>j. rn_job_id r = Some j \<Longrightarrow> \<not> has_unfinished_job db j"
  shows "single_run_per_job (insert_run r db)"
proof -
  have old: "\<not> unfinished s" if "s \<in> set (db_runs db)" "rn_job_id s = rn_job_id r" "rn_job_id r \<noteq> None" for s
    using that idle by (auto simp: has_unfinished_job_def list_ex_iff)
  show ?thesis
    unfolding single_run_per_job_def
  proof (intro ballI impI)
    fix s t assume st: "s \<in> set (db_runs (insert_run r db))" "t \<in> set (db_runs (insert_run r db))"
      "unfinished s \<and> unfinished t \<and> rn_job_id s = rn_job_id t \<and> rn_job_id s \<noteq> None"
    then consider "s \<in> set (db_runs db)" "t \<in> set (db_runs db)" | "s = r" "t = r"
      | "s = r" "t \<in> set (db_runs db)" | "s \<in> set (db_runs db)" "t = r" by auto
    then show "s = t"
    proof cases
      case 1
      with single st(3) show ?thesis unfolding single_run_per_job_def by blast
    next
      case 3
      with old [of t] st(3) show ?thesis by metis
    next
      case 4
      with old [of s] st(3) show ?thesis by metis
    qed simp
  qed
qed

section \<open>Properties\<close>

text \<open>
  C14: whatever is queued for a job enters the queue by a step of the queue system, so its
  guarantees cover it. A call that raises leaves the state as it was, with one exception: a
  reservation without a token is only refused after the run has been stored.
\<close>

theorem queue_job_action_is_step:
  assumes "ar_reserve q \<Longrightarrow> ar_action q \<noteq> ''source-stats'' \<and>
      (\<forall>k. \<forall>c \<in> set (chain_queue (mg_chains m) k). rs_token c \<noteq> or_empty (ar_chain_token q))"
  shows "case queue_job_action e job_id q m of
      (m', Inr i) \<Rightarrow> m' = m \<or> queue_step (qe_plan e) m m' \<and> i = next_run_id (mg_db m) \<and>
        get_run (mg_db m') i \<noteq> None \<and> is_live m' i
    | (m', Inl err) \<Rightarrow> m' = m \<or> err = Chain_token_missing \<and> ar_reserve q"
proof (cases "job_checks e job_id q (mg_db m)")
  case (Inl x)
  then show ?thesis by (cases x) (simp_all add: queue_job_action_def)
next
  case (Inr y)
  then obtain j r where ok: "job_checks e job_id q (mg_db m) = Inr (j, r)" by (cases y) auto
  let ?run = "job_run (mg_db m) q j"
  have stored: "get_run (insert_run ?run (mg_db m)) (next_run_id (mg_db m)) \<noteq> None"
    using run_store.get_insert_fresh [of ?run "mg_db m" "next_run_id (mg_db m)"] by simp
  show ?thesis
  proof (cases "ar_reserve q")
    case False
    with Submit [of ?run m "qe_plan e" "ar_chain_token q"] stored show ?thesis
      by (simp add: queue_job_action_def ok Let_def)
  next
    case True
    show ?thesis
    proof (cases "truthy (ar_chain_token q)")
      case True
      then have "or_empty (ar_chain_token q) \<noteq> []" by (auto elim: truthyE)
      with Submit_chain [of ?run m "qe_plan e" _ "or_empty (ar_chain_token q)"] assms \<open>ar_reserve q\<close>
        job_run_key [OF job_checks_Inr(2) [OF ok]] True stored
      show ?thesis by (simp add: queue_job_action_def ok Let_def)
    next
      case False
      with \<open>ar_reserve q\<close> show ?thesis by (simp add: queue_job_action_def ok Let_def)
    qed
  qed
qed

text \<open>A managed repository, its job and an environment in which everything is ready.\<close>

definition ready_env :: queue_env where
  "ready_env = \<lparr>qe_plan = demo_env, qe_fs = plain_fs\<lparr>fs_file := (\<lambda>_. True)\<rparr>, qe_root = [''repositories''],
     qe_disk = (\<lambda>_. Some \<lparr>du_total = 100, du_used = 40, du_free = 60\<rparr>), qe_settings = sample_settings,
     qe_command = (\<lambda>_ _ _. Inr ())\<rparr>"

definition ready_manager :: manager where
  "ready_manager = demo_idle\<lparr>mg_db := sample_db\<lparr>db_access :=
     [\<lparr>ac_id = 1, ac_host_id = 1, ac_repository_id = 1, ac_public_key = Some ''ssh-ed25519 AAAA''\<rparr>]\<rparr>\<rparr>"

definition chain_request :: action_request where
  "chain_request = (plain_request ''backup'')\<lparr>ar_chain_token := Some ''t'', ar_reserve := True\<rparr>"

definition queued_id :: "manager \<times> (queue_error, nat) result \<Rightarrow> nat option" where
  "queued_id x = (case snd x of Inl _ \<Rightarrow> None | Inr i \<Rightarrow> Some i)"

lemma ready_backup: "queued_id (queue_job_action ready_env 1 chain_request ready_manager) = Some 1"
  by code_simp

theorem queue_job_action_is_step_witness:
  "queue_step demo_env ready_manager (fst (queue_job_action ready_env 1 chain_request ready_manager))"
proof -
  obtain m' where m': "queue_job_action ready_env 1 chain_request ready_manager = (m', Inr 1)"
    using ready_backup by (cases "queue_job_action ready_env 1 chain_request ready_manager")
      (auto simp: queued_id_def split: sum.splits)
  have "\<forall>k. \<forall>c \<in> set (chain_queue (mg_chains ready_manager) k). rs_token c \<noteq> or_empty (ar_chain_token chain_request)"
    by (simp add: ready_manager_def demo_idle_def no_chains_def chain_queue_def)
  moreover have "ar_action chain_request \<noteq> ''source-stats''" by (simp add: chain_request_def plain_request_def)
  ultimately have "m' = ready_manager \<or> queue_step (qe_plan ready_env) ready_manager m'"
    using queue_job_action_is_step [of chain_request ready_manager ready_env 1] unfolding m' prod.case sum.case
    by blast
  moreover have "map rn_id (db_runs (mg_db (fst (queue_job_action ready_env 1 chain_request ready_manager)))) = [1]"
    "map rn_id (db_runs (mg_db ready_manager)) = []" by code_simp+
  ultimately have "queue_step (qe_plan ready_env) ready_manager m'" unfolding m' fst_conv by auto
  then show ?thesis unfolding m' fst_conv by (simp add: ready_env_def)
qed

text \<open>
  C13: a backup of a managed repository is only queued when the repository is enabled,
  initialised and present, the device has an access key for it, its storage guard was readable
  and does not block, and the job has no other unfinished run.
\<close>

theorem backup_queued_only_when_ready:
  assumes "queue_job_action e job_id q m = (m', Inr i)" and "ar_action q = ''backup''"
    and "get_job (mg_db m) job_id = Some j" and "get_repository (mg_db m) (jb_repository_id j) = Some r"
    and "truthy (rp_storage_path r)"
  shows "rp_enabled r \<and> rp_initialized r \<and> present e r \<and>
    repository_access_ready (mg_db m) (jb_host_id j) (jb_repository_id j) \<and>
    (\<exists>g. repository_storage_status (qe_disk e) r (qe_settings e) = Inr (Some g) \<and> \<not> ss_blocked g) \<and>
    \<not> has_unfinished_job (mg_db m) job_id"
proof -
  obtain j' r' where ok: "job_checks e job_id q (mg_db m) = Inr (j', r')"
    using assms(1,2) by (auto simp: queue_job_action_def job_checks_def split: sum.splits option.splits if_splits)
  have eq: "j' = j" "r' = r" using job_checks_Inr(1,2) [OF ok] assms(3,4) by simp_all
  obtain g where "repository_storage_status (qe_disk e) r (qe_settings e) = Inr g"
    and g: "g = None \<or> (\<exists>s. g = Some s \<and> \<not> ss_blocked s)"
    using job_checks_Inr(5) [OF ok] assms(2,5)
    by (auto simp: eq managed_checks_def try_bind_Inr_iff split: sum.splits option.splits)
  moreover have "g \<noteq> None"
    using calculation(1) assms(5)
    by (auto simp: repository_storage_status_def Let_def split: option.splits if_splits prod.splits)
  ultimately show ?thesis
    using job_checks_Inr(3-5) [OF ok] assms(2,5)
    by (auto simp: eq managed_checks_def try_bind_Inr_iff)
qed

theorem backup_queued_only_when_ready_witness:
  "repository_access_ready (mg_db ready_manager) 1 1"
proof -
  obtain m' where m': "queue_job_action ready_env 1 chain_request ready_manager = (m', Inr 1)"
    using ready_backup by (cases "queue_job_action ready_env 1 chain_request ready_manager")
      (auto simp: queued_id_def split: sum.splits)
  have "ar_action chain_request = ''backup''" "get_job (mg_db ready_manager) 1 = Some sample_job"
    "get_repository (mg_db ready_manager) (jb_repository_id sample_job) = Some sample_repository"
    "truthy (rp_storage_path sample_repository)" by code_simp+
  from backup_queued_only_when_ready [OF m' this] show ?thesis by (simp add: sample_job_def)
qed

text \<open>
  a job never has two unfinished runs: queueing an action for a job keeps that no job has.
\<close>

theorem queue_job_action_single_run:
  assumes "single_run_per_job (mg_db m)"
  shows "single_run_per_job (mg_db (fst (queue_job_action e job_id q m)))"
proof (cases "job_checks e job_id q (mg_db m)")
  case (Inl x)
  then show ?thesis using assms by (cases x) (simp_all add: queue_job_action_def)
next
  case (Inr y)
  then obtain j r where ok: "job_checks e job_id q (mg_db m) = Inr (j, r)" by (cases y) auto
  have "jb_id j = job_id" using job_checks_Inr(1) [OF ok] by (auto dest: table_get_SomeD)
  then have "single_run_per_job (insert_run (job_run (mg_db m) q j) (mg_db m))"
    using job_checks_Inr(4) [OF ok] by (intro single_run_insert [OF assms]) auto
  then show ?thesis by (simp add: queue_job_action_def ok Let_def)
qed

theorem queue_job_action_single_run_witness:
  "single_run_per_job (mg_db (fst (queue_job_action ready_env 1 chain_request ready_manager)))"
  by (rule queue_job_action_single_run)
    (simp add: single_run_per_job_def ready_manager_def demo_idle_def sample_db_def)

end
