(* ===== verification/Schedules.thy ===== *)
theory Schedules
  imports Model
begin

text \<open>
  Schedules: \<open>src/app/schedules.py\<close>. Cron expressions are normalised, a schedule selects the
  jobs it runs, and no job may belong to two enabled schedules. \<open>cron_ok\<close> stands for
  \<open>CronTrigger.from_crontab\<close> of APScheduler not raising; nothing is assumed of it.
\<close>

section \<open>Cron expressions\<close>

datatype schedule_error = Invalid_expression string | Too_many_expressions

definition separator_char :: "char \<Rightarrow> bool" where
  "separator_char c = (c = carriage \<or> c = CHR '';'' \<or> c = newline)"

text \<open>\<open>value.replace("\r", "\n").replace(";", "\n").split("\n")\<close>.\<close>

definition raw_expressions :: "string \<Rightarrow> string list" where
  "raw_expressions v = split_on newline (map (\<lambda>c. if separator_char c then newline else c) v)"

definition squeeze :: "string \<Rightarrow> string" where
  "squeeze raw = join_with '' '' (split_ws raw)"

fun collect_expressions :: "(string \<Rightarrow> bool) \<Rightarrow> string list \<Rightarrow> string list \<Rightarrow> (schedule_error, string list) result" where
  "collect_expressions cron_ok acc [] = Inr acc"
| "collect_expressions cron_ok acc (raw # raws) =
     (let e = squeeze raw in
      if e = [] \<or> e \<in> set acc then collect_expressions cron_ok acc raws
      else if \<not> cron_ok e then Inl (Invalid_expression e)
      else collect_expressions cron_ok (acc @ [e]) raws)"

definition max_schedule_expressions :: nat where
  "max_schedule_expressions = 24"

definition schedule_expressions :: "(string \<Rightarrow> bool) \<Rightarrow> string option \<Rightarrow> (schedule_error, string list) result" where
  "schedule_expressions cron_ok v =
     (case v of
        None \<Rightarrow> Inr []
      | Some s \<Rightarrow>
          if py_strip s = [] then Inr []
          else try_bind (collect_expressions cron_ok [] (raw_expressions s)) (\<lambda>es.
            if max_schedule_expressions < length es then Inl Too_many_expressions else Inr es))"

definition normalize_schedule :: "(string \<Rightarrow> bool) \<Rightarrow> string option \<Rightarrow> (schedule_error, string option) result" where
  "normalize_schedule cron_ok v =
     try_bind (schedule_expressions cron_ok v) (\<lambda>es.
       Inr (if es = [] then None else Some (join_with '';'' es)))"

section \<open>Targets\<close>

text \<open>The ids of the jobs a schedule selects; the joins need the host and the repository to exist.\<close>

definition job_joined :: "manager_db \<Rightarrow> bool \<Rightarrow> job \<Rightarrow> bool" where
  "job_joined db enabled_only j =
     (case (get_host db (jb_host_id j), get_repository db (jb_repository_id j)) of
        (Some h, Some r) \<Rightarrow> \<not> enabled_only \<or> jb_enabled j \<and> ho_enabled h \<and> rp_enabled r
      | _ \<Rightarrow> False)"

definition target_matches :: "schedule \<Rightarrow> job \<Rightarrow> bool" where
  "target_matches s j =
     (if sc_target_mode s = ''hosts'' then jb_host_id j \<in> set (sc_target_host_ids s)
      else if sc_target_mode s = ''repository'' then
        (case sc_target_repository_id s of None \<Rightarrow> False | Some i \<Rightarrow> i \<noteq> 0 \<and> jb_repository_id j = i)
      else if sc_target_mode s = ''jobs'' then jb_id j \<in> set (sc_target_job_ids s)
      else False)"

definition schedule_target_job_ids :: "manager_db \<Rightarrow> schedule \<Rightarrow> bool \<Rightarrow> nat list" where
  "schedule_target_job_ids db s enabled_only =
     map jb_id (by_key jb_id (filter (\<lambda>j. job_joined db enabled_only j \<and> target_matches s j) (db_jobs db)))"

text \<open>\<open>schedule_assignments\<close>: the schedules of every job, in the order of their names.\<close>

definition schedule_assignments :: "manager_db \<Rightarrow> bool \<Rightarrow> nat \<Rightarrow> schedule list" where
  "schedule_assignments db enabled_only job_id =
     filter (\<lambda>s. job_id \<in> set (schedule_target_job_ids db s False))
       (sort_key sc_name (filter (\<lambda>s. \<not> enabled_only \<or> sc_enabled s) (db_schedules db)))"

section \<open>Validation\<close>

datatype target_error =
    Unknown_hosts "nat list" | Unknown_repository | Unknown_jobs "nat list" | Unknown_mode
  | Job_conflicts "(nat \<times> string) list" | Many_schedules "string list"

definition missing_ids :: "nat list \<Rightarrow> (nat \<Rightarrow> 'a option) \<Rightarrow> nat list" where
  "missing_ids ids get = sort (remdups (filter (\<lambda>i. get i = None) ids))"

definition validate_schedule_targets_exist :: "manager_db \<Rightarrow> schedule \<Rightarrow> (target_error, unit) result" where
  "validate_schedule_targets_exist db s =
     (if sc_target_mode s = ''hosts'' then
        (let missing = missing_ids (sc_target_host_ids s) (get_host db) in
         if missing \<noteq> [] then Inl (Unknown_hosts missing) else Inr ())
      else if sc_target_mode s = ''repository'' then
        (case sc_target_repository_id s of
           None \<Rightarrow> Inl Unknown_repository
         | Some i \<Rightarrow> if i = 0 \<or> get_repository db i = None then Inl Unknown_repository else Inr ())
      else if sc_target_mode s = ''jobs'' then
        (let missing = missing_ids (sc_target_job_ids s) (get_job db) in
         if missing \<noteq> [] then Inl (Unknown_jobs missing) else Inr ())
      else Inl Unknown_mode)"

text \<open>
  \<open>validate_schedule_conflicts\<close>: the conflict of a job is named after the last enabled schedule
  that overlaps in it; 0 as the excluded id excludes nothing.
\<close>

definition conflicting :: "manager_db \<Rightarrow> nat option \<Rightarrow> nat \<Rightarrow> schedule list" where
  "conflicting db exclude job_id =
     filter (\<lambda>s. sc_enabled s \<and> \<not> (exclude \<noteq> None \<and> exclude \<noteq> Some 0 \<and> Some (sc_id s) = exclude) \<and>
                 job_id \<in> set (schedule_target_job_ids db s False)) (db_schedules db)"

definition validate_schedule_conflicts ::
    "manager_db \<Rightarrow> schedule \<Rightarrow> nat option \<Rightarrow> (target_error, unit) result" where
  "validate_schedule_conflicts db candidate exclude =
     (if \<not> sc_enabled candidate then Inr ()
      else (let targets = remdups (schedule_target_job_ids db candidate False);
                conflicts = filter (\<lambda>i. conflicting db exclude i \<noteq> []) (sort targets) in
        if conflicts = [] then Inr ()
        else Inl (Job_conflicts (map (\<lambda>i. (i, sc_name (last (conflicting db exclude i)))) conflicts))))"

definition job_matches_schedule :: "job \<Rightarrow> schedule \<Rightarrow> bool" where
  "job_matches_schedule j s =
     (if sc_target_mode s = ''hosts'' then jb_host_id j \<in> set (sc_target_host_ids s)
      else if sc_target_mode s = ''repository'' \<and> sc_target_repository_id s = Some (jb_repository_id j) then True
      else sc_target_mode s = ''jobs'' \<and> jb_id j \<noteq> 0 \<and> jb_id j \<in> set (sc_target_job_ids s))"

definition validate_job_schedule_conflicts :: "manager_db \<Rightarrow> job \<Rightarrow> (target_error, unit) result" where
  "validate_job_schedule_conflicts db j =
     (let matches = map sc_name (filter (\<lambda>s. sc_enabled s \<and> job_matches_schedule j s) (db_schedules db)) in
      if 1 < length matches then Inl (Many_schedules matches) else Inr ())"

section \<open>Words\<close>

lemma split_ws_Nil [simp]: "split_ws [] = []"
  by (subst split_ws.simps) simp

lemma split_ws_space: "is_space c \<Longrightarrow> split_ws (c # s) = split_ws s"
  by (subst (1 2) split_ws.simps) simp

lemma split_ws_word:
  assumes "w \<noteq> []" and "\<forall>c \<in> set w. \<not> is_space c" and "rest = [] \<or> is_space (hd rest)"
  shows "split_ws (w @ rest) = w # split_ws rest"
proof -
  have "dropWhile is_space (w @ rest) = w @ rest" using assms(1,2) by (cases w) auto
  moreover have "takeWhile (\<lambda>c. \<not> is_space c) (w @ rest) = w" "dropWhile (\<lambda>c. \<not> is_space c) (w @ rest) = rest"
    using assms(2,3) by (cases rest; simp add: takeWhile_append2 dropWhile_append2)+
  ultimately show ?thesis using assms(1) by (subst split_ws.simps) simp
qed

text \<open>A word has no white space and is not empty.\<close>

definition is_word :: "string \<Rightarrow> bool" where
  "is_word w \<longleftrightarrow> w \<noteq> [] \<and> (\<forall>c \<in> set w. \<not> is_space c)"

lemma split_ws_words: "w \<in> set (split_ws s) \<Longrightarrow> is_word w \<and> set w \<subseteq> set s"
proof (induction s rule: split_ws.induct)
  case (1 s)
  let ?t = "dropWhile is_space s"
  show ?case
  proof (cases "?t = []")
    case True
    with 1 show ?thesis by (subst (asm) (2) split_ws.simps) simp
  next
    case False
    then have hd: "\<not> is_space (hd ?t)" by (rule hd_dropWhile)
    have sub: "set ?t \<subseteq> set s" by (auto dest: set_dropWhileD)
    from 1(2) False consider "w = takeWhile (\<lambda>c. \<not> is_space c) ?t"
      | "w \<in> set (split_ws (dropWhile (\<lambda>c. \<not> is_space c) ?t))"
      by (subst (asm) split_ws.simps) (auto simp: Let_def split: if_splits)
    then show ?thesis
    proof cases
      case 1
      with hd False sub show ?thesis
        by (cases ?t) (auto simp: is_word_def dest: set_takeWhileD)
    next
      case 2
      from "1.IH" [OF refl False this] sub show ?thesis by (auto dest: set_dropWhileD)
    qed
  qed
qed

lemma split_ws_join: "\<forall>w \<in> set ws. is_word w \<Longrightarrow> split_ws (join_with '' '' ws) = ws"
proof (induction ws)
  case (Cons w ws)
  show ?case
  proof (cases ws)
    case Nil
    with Cons split_ws_word [of w "[]"] show ?thesis by (simp add: is_word_def)
  next
    case (Cons v vs)
    have sp: "is_space (CHR '' '')" by (simp add: is_space_def char_code_def)
    have "split_ws (w @ ('' '' @ join_with '' '' ws)) = w # split_ws ('' '' @ join_with '' '' ws)"
      by (rule split_ws_word) (use Cons.prems sp in \<open>auto simp: is_word_def\<close>)
    with Cons Cons.IH Cons.prems sp show ?thesis by (simp add: split_ws_space)
  qed
qed simp

lemma squeeze_squeeze: "squeeze (squeeze s) = squeeze s"
  using split_ws_words by (simp add: squeeze_def split_ws_join)

section \<open>Parsing what was normalised\<close>

lemma split_on_word: "d \<notin> set w \<Longrightarrow> split_on d w = [w]"
  by (induction w) auto

lemma split_on_cons: "d \<notin> set w \<Longrightarrow> split_on d (w @ d # s) = w # split_on d s"
  by (induction w) auto

lemma split_on_join:
  "ws \<noteq> [] \<Longrightarrow> \<forall>w \<in> set ws. d \<notin> set w \<Longrightarrow> split_on d (join_with [d] ws) = ws"
proof (induction ws)
  case (Cons w ws)
  then show ?case by (cases ws) (auto simp: split_on_word split_on_cons)
qed simp

lemma map_join_with: "map f (join_with sep ws) = join_with (map f sep) (map (map f) ws)"
  by (induction sep ws rule: join_with.induct) auto

lemma join_with_set: "set (join_with sep ws) \<subseteq> set sep \<union> (\<Union>w \<in> set ws. set w)"
  by (induction sep ws rule: join_with.induct) auto

text \<open>A normal expression: squeezed, not empty, free of separators and accepted.\<close>

definition normal_expression :: "(string \<Rightarrow> bool) \<Rightarrow> string \<Rightarrow> bool" where
  "normal_expression cron_ok e \<longleftrightarrow> e \<noteq> [] \<and> squeeze e = e \<and> (\<forall>c \<in> set e. \<not> separator_char c) \<and> cron_ok e"

lemma squeeze_chars: "c \<in> set (squeeze s) \<Longrightarrow> c = CHR '' '' \<or> c \<in> set s"
  using join_with_set [of "'' ''" "split_ws s"] split_ws_words [of _ s] by (auto simp: squeeze_def)

lemma raw_no_separator: "raw \<in> set (raw_expressions v) \<Longrightarrow> c \<in> set raw \<Longrightarrow> \<not> separator_char c"
proof -
  assume raw: "raw \<in> set (raw_expressions v)" and c: "c \<in> set raw"
  have in_split: "\<forall>w \<in> set (split_on d s). set w \<subseteq> set s" for d s
  proof (induction s)
    case (Cons c s)
    then show ?case by (cases "split_on d s") auto
  qed simp
  from raw c have "c \<noteq> newline" using split_on_no_sep [of raw newline] by (auto simp: raw_expressions_def)
  moreover have "c \<in> set (map (\<lambda>c. if separator_char c then newline else c) v)"
    using raw c in_split unfolding raw_expressions_def by (meson subsetD)
  ultimately show ?thesis by (auto split: if_splits)
qed

lemma collect_normal:
  assumes "collect_expressions cron_ok acc raws = Inr es"
    and "\<forall>raw \<in> set raws. \<forall>c \<in> set raw. \<not> separator_char c"
    and "distinct acc" and "\<forall>e \<in> set acc. normal_expression cron_ok e"
  shows "distinct es \<and> (\<forall>e \<in> set es. normal_expression cron_ok e)"
  using assms
proof (induction cron_ok acc raws rule: collect_expressions.induct)
  case (2 cron_ok acc raw raws)
  show ?case
  proof (cases "squeeze raw = [] \<or> squeeze raw \<in> set acc")
    case True
    with 2 show ?thesis by (auto simp: Let_def)
  next
    case False
    then have ok: "cron_ok (squeeze raw)"
      and rest: "collect_expressions cron_ok (acc @ [squeeze raw]) raws = Inr es"
      using 2(3) by (auto simp: Let_def split: if_splits)
    have "\<not> separator_char (CHR '' '')" by (simp add: separator_char_def)
    then have "normal_expression cron_ok (squeeze raw)"
      using False ok 2(4) squeeze_chars [of _ raw] by (auto simp: normal_expression_def squeeze_squeeze)
    with 2(2) [OF refl False] ok rest 2(4-6) False show ?thesis by auto
  qed
qed simp

lemma collect_normal_again:
  "distinct (acc @ es) \<Longrightarrow> \<forall>e \<in> set es. normal_expression cron_ok e \<Longrightarrow>
   collect_expressions cron_ok acc es = Inr (acc @ es)"
  by (induction es arbitrary: acc) (auto simp: Let_def normal_expression_def)

lemma py_strip_Nil: "py_strip s = [] \<Longrightarrow> c \<in> set s \<Longrightarrow> is_space c"
proof (rule ccontr)
  assume empty: "py_strip s = []" and c: "c \<in> set s" "\<not> is_space c"
  then have ne: "dropWhile is_space s \<noteq> []" by (auto simp: dropWhile_eq_Nil_conv)
  then have "\<not> is_space (hd (dropWhile is_space s))" by (rule hd_dropWhile)
  moreover have "hd (dropWhile is_space s) \<in> set (rev (dropWhile is_space s))" using ne by simp
  ultimately have "\<not> (\<forall>x \<in> set (rev (dropWhile is_space s)). is_space x)" by blast
  with empty show False by (auto simp: py_strip_def strip_by_def rstrip_by_def lstrip_by_def dropWhile_eq_Nil_conv)
qed

lemma normal_not_blank: "normal_expression cron_ok e \<Longrightarrow> \<exists>c \<in> set e. \<not> is_space c"
proof -
  assume e: "normal_expression cron_ok e"
  then have "split_ws e \<noteq> []" by (auto simp: normal_expression_def squeeze_def)
  then obtain w where "w \<in> set (split_ws e)" by (cases "split_ws e") auto
  from split_ws_words [OF this] show ?thesis by (cases w) (auto simp: is_word_def)
qed

section \<open>Schedules that do not share jobs\<close>

definition exclusive_schedules :: "manager_db \<Rightarrow> bool" where
  "exclusive_schedules db \<longleftrightarrow> (\<forall>s \<in> set (db_schedules db). \<forall>t \<in> set (db_schedules db).
     sc_enabled s \<and> sc_enabled t \<and> sc_id s \<noteq> sc_id t \<longrightarrow>
       set (schedule_target_job_ids db s False) \<inter> set (schedule_target_job_ids db t False) = {})"

text \<open>A schedule is stored under its id: an older version of it is replaced.\<close>

definition store_schedule :: "schedule \<Rightarrow> manager_db \<Rightarrow> manager_db" where
  "store_schedule s db = db\<lparr>db_schedules := table_insert (table_remove sc_id (sc_id s) (db_schedules db)) s\<rparr>"

lemma targets_store_schedule [simp]:
  "schedule_target_job_ids (store_schedule c db) s b = schedule_target_job_ids db s b"
  by (simp add: schedule_target_job_ids_def job_joined_def store_schedule_def cong: filter_cong)

lemma no_conflict_disjoint:
  assumes "validate_schedule_conflicts db c (Some (sc_id c)) = Inr ()" and "sc_enabled c"
    and "s \<in> set (db_schedules db)" and "sc_enabled s" and "sc_id s \<noteq> sc_id c"
  shows "set (schedule_target_job_ids db c False) \<inter> set (schedule_target_job_ids db s False) = {}"
proof -
  have "conflicting db (Some (sc_id c)) i = []" if "i \<in> set (schedule_target_job_ids db c False)" for i
    using assms(1,2) that
    by (auto simp: validate_schedule_conflicts_def Let_def filter_empty_conv split: if_splits)
  with assms(3-5) show ?thesis by (auto simp: conflicting_def filter_empty_conv)
qed

section \<open>Properties\<close>

text \<open>
  C15: no job ever belongs to two enabled schedules: storing a schedule that passed the conflict
  check, new or changed, keeps the enabled schedules pairwise disjoint.
\<close>

theorem schedule_conflicts_prevented:
  assumes "exclusive_schedules db" and "validate_schedule_conflicts db c (Some (sc_id c)) = Inr ()"
  shows "exclusive_schedules (store_schedule c db)"
  unfolding exclusive_schedules_def targets_store_schedule
proof (intro ballI impI)
  fix s t
  assume st: "s \<in> set (db_schedules (store_schedule c db))" "t \<in> set (db_schedules (store_schedule c db))"
    and e: "sc_enabled s \<and> sc_enabled t \<and> sc_id s \<noteq> sc_id t"
  have cases: "u = c \<or> u \<in> set (db_schedules db) \<and> sc_id u \<noteq> sc_id c"
    if "u \<in> set (db_schedules (store_schedule c db))" for u
    using that by (auto simp: store_schedule_def table_insert_def table_remove_def)
  show "set (schedule_target_job_ids db s False) \<inter> set (schedule_target_job_ids db t False) = {}"
    using cases [OF st(1)] cases [OF st(2)] e assms(1) no_conflict_disjoint [OF assms(2)]
    unfolding exclusive_schedules_def by (metis Int_commute)
qed

definition sample_schedule :: "nat \<Rightarrow> string \<Rightarrow> schedule" where
  "sample_schedule i mode = \<lparr>sc_id = i, sc_name = ''nightly'', sc_expressions = ''0 3 * * *'',
     sc_target_mode = mode, sc_target_host_ids = [], sc_target_repository_id = None,
     sc_target_job_ids = [1], sc_parallel_limit = 0, sc_enabled = True\<rparr>"

definition sample_host :: host where
  "sample_host = \<lparr>ho_id = 1, ho_name = ''nas'', ho_address = ''nas.local'', ho_port = 22,
     ho_username = ''root'', ho_enabled = True, ho_host_key = None, ho_repository_ready = True,
     ho_borg_version = None, ho_borg_version_status = None, ho_borg_checked_at = None\<rparr>"

theorem schedule_conflicts_prevented_witness:
  "exclusive_schedules (store_schedule (sample_schedule 2 ''jobs'')
     (sample_db\<lparr>db_hosts := [sample_host], db_schedules := [sample_schedule 1 ''hosts'']\<rparr>))"
proof (rule schedule_conflicts_prevented)
  show "exclusive_schedules (sample_db\<lparr>db_hosts := [sample_host], db_schedules := [sample_schedule 1 ''hosts'']\<rparr>)"
    by (simp add: exclusive_schedules_def)
  show "validate_schedule_conflicts
      (sample_db\<lparr>db_hosts := [sample_host], db_schedules := [sample_schedule 1 ''hosts'']\<rparr>)
      (sample_schedule 2 ''jobs'') (Some (sc_id (sample_schedule 2 ''jobs''))) = Inr ()"
    by code_simp
qed

text \<open>
  a stored schedule means what was entered. Reading a normalised text again gives the same
  expressions, normalising it again changes nothing, and there are at most 24 of them, all
  accepted and without duplicates.
\<close>

theorem normalize_schedule_roundtrip:
  assumes "normalize_schedule cron_ok v = Inr (Some t)"
  shows "\<exists>es. schedule_expressions cron_ok v = Inr es \<and> schedule_expressions cron_ok (Some t) = Inr es \<and>
    normalize_schedule cron_ok (Some t) = Inr (Some t) \<and>
    distinct es \<and> length es \<le> 24 \<and> list_all cron_ok es"
proof -
  obtain es where es: "schedule_expressions cron_ok v = Inr es" "es \<noteq> []" "t = join_with '';'' es"
    using assms by (auto simp: normalize_schedule_def try_bind_Inr_iff split: if_splits)
  obtain s where s: "collect_expressions cron_ok [] (raw_expressions s) = Inr es" "length es \<le> 24"
    using es(1,2)
    by (auto simp: schedule_expressions_def try_bind_Inr_iff max_schedule_expressions_def split: option.splits if_splits)
  have normal: "distinct es" "\<forall>e \<in> set es. normal_expression cron_ok e"
    using collect_normal [OF s(1)] raw_no_separator by auto
  have sep: "map (\<lambda>c. if separator_char c then newline else c) e = e" if "e \<in> set es" for e
    using normal(2) that by (intro map_idI) (auto simp: normal_expression_def)
  then have "map (map (\<lambda>c. if separator_char c then newline else c)) es = es" by (simp add: map_idI)
  moreover have "map (\<lambda>c. if separator_char c then newline else c) '';'' = [newline]"
    by (simp add: separator_char_def)
  ultimately have "raw_expressions t = split_on newline (join_with [newline] es)"
    by (simp add: raw_expressions_def es(3) map_join_with del: map_map)
  also have "\<dots> = es"
    by (rule split_on_join [OF es(2)])
      (use normal(2) in \<open>auto simp: normal_expression_def separator_char_def\<close>)
  finally have raw: "raw_expressions t = es" .
  obtain e rest where cons: "es = e # rest" using es(2) by (cases es) auto
  then have "set e \<subseteq> set t" by (cases rest) (auto simp: es(3))
  then have "py_strip t \<noteq> []"
    using normal_not_blank [of cron_ok e] normal(2) py_strip_Nil [of t] cons by auto
  then have again: "schedule_expressions cron_ok (Some t) = Inr es"
    using collect_normal_again [of "[]" es cron_ok] normal s(2)
    by (simp add: schedule_expressions_def raw max_schedule_expressions_def)
  then show ?thesis
    using es normal s(2) by (auto simp: normalize_schedule_def list_all_iff normal_expression_def)
qed

theorem normalize_schedule_roundtrip_witness:
  "\<exists>es. schedule_expressions (\<lambda>_. True) (Some ''0 3 * * *;5 4 * * 1'') = Inr es \<and> length es \<le> 24"
proof -
  have "normalize_schedule (\<lambda>_. True) (Some ''0  3 * * * ; 5 4 * * 1;0 3 * * *'') = Inr (Some ''0 3 * * *;5 4 * * 1'')"
    by code_simp
  from normalize_schedule_roundtrip [OF this] show ?thesis by blast
qed

end
