(* ===== verification/Maintenance.thy ===== *)
theory Maintenance
  imports RunActions Schedules
begin

text \<open>
  Chains of runs in \<open>src/app/service.py\<close>: the manual backup followed by prune and compact
  (\<open>queue_manual_backup\<close>, \<open>_finish_manual_backup_chain\<close>), the phases of a schedule
  (\<open>_scheduled_backup_group\<close>, \<open>scheduled_schedule\<close>) and \<open>retry_run\<close>. Each function is the code
  between two \<open>await\<close>s; anything may happen to the manager state in between. The notification
  of recorded errors is left out.
\<close>

section \<open>Waiting\<close>

text \<open>\<open>_wait_for_run\<close>: \<open>None\<close> while it still polls; a run that is gone counts as failed.\<close>

definition wait_for_run :: "manager \<Rightarrow> nat \<Rightarrow> run_status option" where
  "wait_for_run m i =
     (case get_run (mg_db m) i of
        None \<Rightarrow> Some Failed
      | Some r \<Rightarrow> if unfinished r then None else Some (rn_status r))"

definition finished_well :: "run_status \<Rightarrow> bool" where
  "finished_well s = (s \<in> {Success, Warning})"

section \<open>Manual chains\<close>

datatype chain_phase = Await_backup nat | Await_prune nat | Await_compact nat | Released

record manual_chain =
  mc_job :: nat
  mc_repository :: nat
  mc_token :: string
  mc_compact :: bool
  mc_phase :: chain_phase

definition chain_action :: "string \<Rightarrow> string \<Rightarrow> action_request" where
  "chain_action token action = (plain_request action)\<lparr>ar_chain_token := Some token\<rparr>"

datatype manual_error = Manual_job_missing | Manual_retention_missing | Manual_queue queue_error

definition queue_manual_backup ::
    "queue_env \<Rightarrow> string \<Rightarrow> nat \<Rightarrow> manager \<Rightarrow> manager \<times> (manual_error, nat \<times> manual_chain option) result" where
  "queue_manual_backup e token job_id m =
     (case get_job (mg_db m) job_id of
        None \<Rightarrow> (m, Inl Manual_job_missing)
      | Some j \<Rightarrow>
          if jb_manual_prune j \<and> \<not> has_retention (Some j) then (m, Inl Manual_retention_missing)
          else (let q = (if jb_manual_prune j
                         then (chain_action token ''backup'')\<lparr>ar_reserve := True\<rparr>
                         else plain_request ''backup'')
            in case queue_job_action e job_id q m of
                 (m', Inl err) \<Rightarrow> (m', Inl (Manual_queue err))
               | (m', Inr i) \<Rightarrow> (m', Inr (i,
                   if jb_manual_prune j
                   then Some \<lparr>mc_job = job_id, mc_repository = jb_repository_id j, mc_token = token,
                     mc_compact = jb_manual_compact j, mc_phase = Await_backup i\<rparr>
                   else None))))"

text \<open>The \<open>finally\<close> part of \<open>_finish_manual_backup_chain\<close>.\<close>

definition release_chain :: "manual_chain \<Rightarrow> manager \<Rightarrow> manual_chain \<times> manager" where
  "release_chain c m = (c\<lparr>mc_phase := Released\<rparr>, change_chains (release_repository_chain (mc_token c)) m)"

definition chain_queue_next ::
    "queue_env \<Rightarrow> string \<Rightarrow> (nat \<Rightarrow> chain_phase) \<Rightarrow> manual_chain \<Rightarrow> manager \<Rightarrow> manual_chain \<times> manager" where
  "chain_queue_next e action phase c m =
     (case queue_job_action e (mc_job c) (chain_action (mc_token c) action) m of
        (m', Inl err) \<Rightarrow> release_chain c m'
      | (m', Inr i) \<Rightarrow> (c\<lparr>mc_phase := phase i\<rparr>, m'))"

text \<open>One wake-up of the task: it goes on when the awaited run is finished.\<close>

definition advance_chain :: "queue_env \<Rightarrow> manual_chain \<Rightarrow> manager \<Rightarrow> manual_chain \<times> manager" where
  "advance_chain e c m =
     (case mc_phase c of
        Released \<Rightarrow> (c, m)
      | Await_backup i \<Rightarrow>
          (case wait_for_run m i of
             None \<Rightarrow> (c, m)
           | Some s \<Rightarrow> if finished_well s then chain_queue_next e ''prune'' Await_prune c m
                       else release_chain c m)
      | Await_prune i \<Rightarrow>
          (case wait_for_run m i of
             None \<Rightarrow> (c, m)
           | Some s \<Rightarrow> if s = Success \<and> mc_compact c then chain_queue_next e ''compact'' Await_compact c m
                       else release_chain c m)
      | Await_compact i \<Rightarrow>
          (case wait_for_run m i of None \<Rightarrow> (c, m) | Some s \<Rightarrow> release_chain c m))"

text \<open>The run a chain waits for.\<close>

definition awaited :: "manual_chain \<Rightarrow> nat option" where
  "awaited c = (case mc_phase c of Await_backup i \<Rightarrow> Some i | Await_prune i \<Rightarrow> Some i
     | Await_compact i \<Rightarrow> Some i | Released \<Rightarrow> None)"

section \<open>\<open>retry_run\<close>\<close>

definition repeatable_actions :: "string list" where
  "repeatable_actions = [''backup'', ''prune'', ''list'', ''list-all'', ''info'', ''check'', ''verify'',
     ''compact'', ''version'', ''probe'']"

datatype retry_error = Retry_missing | Retry_forbidden | Retry_manual manual_error | Retry_queue queue_error

definition retry_run :: "queue_env \<Rightarrow> string \<Rightarrow> nat \<Rightarrow> manager \<Rightarrow> manager \<times> (retry_error, nat) result" where
  "retry_run e token i m =
     (case get_run (mg_db m) i of
        None \<Rightarrow> (m, Inl Retry_missing)
      | Some r \<Rightarrow>
          (case rn_job_id r of
             None \<Rightarrow> (m, Inl Retry_forbidden)
           | Some job_id \<Rightarrow>
               if job_id = 0 \<or> rn_action r \<notin> set repeatable_actions then (m, Inl Retry_forbidden)
               else if rn_action r = ''backup'' then
                 (case queue_manual_backup e token job_id m of
                    (m', Inl err) \<Rightarrow> (m', Inl (Retry_manual err))
                  | (m', Inr (k, _)) \<Rightarrow> (m', Inr k))
               else (case queue_job_action e job_id (plain_request (rn_action r)) m of
                    (m', Inl err) \<Rightarrow> (m', Inl (Retry_queue err))
                  | (m', Inr k) \<Rightarrow> (m', Inr k))))"

section \<open>Schedules\<close>

record group =
  gr_name :: "string option"
  gr_schedule_id :: "nat option"
  gr_limit :: int

definition group_action :: "group \<Rightarrow> string \<Rightarrow> action_request" where
  "group_action g action = (plain_request action)
     \<lparr>ar_trigger := Scheduled, ar_schedule_name := gr_name g, ar_schedule_id := gr_schedule_id g,
      ar_schedule_limit := gr_limit g\<rparr>"

text \<open>
  Queue one run for a job; an exception is recorded as a failed run whose text is made by
  \<open>msg\<close>.
\<close>

definition group_queue ::
    "queue_env \<Rightarrow> (queue_error \<Rightarrow> string) \<Rightarrow> time \<Rightarrow> group \<Rightarrow> string \<Rightarrow> nat \<Rightarrow> manager \<Rightarrow> manager \<times> nat option" where
  "group_queue e msg now g action job_id m =
     (case queue_job_action e job_id (group_action g action) m of
        (m', Inr i) \<Rightarrow> (m', Some i)
      | (m', Inl err) \<Rightarrow>
          (fst (record_schedule_error job_id (msg err) (gr_name g) (gr_schedule_id g) (gr_limit g) now m'), None))"

record backup_phase =
  bp_runs :: "(nat \<times> nat) list"
  bp_repository :: "(nat \<times> nat) list"

definition queue_backup_of ::
    "queue_env \<Rightarrow> (queue_error \<Rightarrow> string) \<Rightarrow> time \<Rightarrow> group \<Rightarrow> nat \<Rightarrow> backup_phase \<times> manager \<Rightarrow> backup_phase \<times> manager" where
  "queue_backup_of e msg now g job_id s =
     (case s of (bp, m) \<Rightarrow>
        let bp1 = (case get_job (mg_db m) job_id of
              None \<Rightarrow> bp
            | Some j \<Rightarrow> bp\<lparr>bp_repository := dict_set job_id (jb_repository_id j) (bp_repository bp)\<rparr>)
        in case group_queue e msg now g ''backup'' job_id m of
             (m', Some i) \<Rightarrow> (bp1\<lparr>bp_runs := dict_set job_id i (bp_runs bp1)\<rparr>, m')
           | (m', None) \<Rightarrow> (bp1, m'))"

definition queue_backups ::
    "queue_env \<Rightarrow> (queue_error \<Rightarrow> string) \<Rightarrow> time \<Rightarrow> group \<Rightarrow> nat list \<Rightarrow> manager \<Rightarrow> backup_phase \<times> manager" where
  "queue_backups e msg now g job_ids m =
     fold (queue_backup_of e msg now g) job_ids (\<lparr>bp_runs = [], bp_repository = []\<rparr>, m)"

definition changed_repositories :: "backup_phase \<Rightarrow> (nat \<times> run_status) list \<Rightarrow> nat list" where
  "changed_repositories bp statuses =
     remdups (List.map_filter (\<lambda>(job_id, s). if finished_well s then map_of (bp_repository bp) job_id else None) statuses)"

record prune_phase =
  pp_runs :: "(nat \<times> nat) list"
  pp_repository :: "(nat \<times> nat) list"

definition queue_prune_of ::
    "queue_env \<Rightarrow> (queue_error \<Rightarrow> string) \<Rightarrow> time \<Rightarrow> group \<Rightarrow> nat \<times> run_status \<Rightarrow>
     prune_phase \<times> manager \<Rightarrow> prune_phase \<times> manager" where
  "queue_prune_of e msg now g js s =
     (case js of (job_id, status) \<Rightarrow> case s of (pp, m) \<Rightarrow>
        if \<not> finished_well status then (pp, m)
        else (case get_job (mg_db m) job_id of
          None \<Rightarrow> (pp, m)
        | Some j \<Rightarrow>
            if \<not> has_retention (Some j) then (pp, m)
            else (case group_queue e msg now g ''prune'' job_id m of
              (m', Some i) \<Rightarrow> (\<lparr>pp_runs = dict_set job_id i (pp_runs pp),
                 pp_repository = dict_set job_id (jb_repository_id j) (pp_repository pp)\<rparr>, m')
            | (m', None) \<Rightarrow> (pp, m'))))"

definition queue_prunes ::
    "queue_env \<Rightarrow> (queue_error \<Rightarrow> string) \<Rightarrow> time \<Rightarrow> group \<Rightarrow> (nat \<times> run_status) list \<Rightarrow> manager \<Rightarrow> prune_phase \<times> manager" where
  "queue_prunes e msg now g statuses m =
     fold (queue_prune_of e msg now g) statuses (\<lparr>pp_runs = [], pp_repository = []\<rparr>, m)"

text \<open>
  The repositories to compact, in ascending order, each with the job that stands for it: those
  whose prune runs all succeeded.
\<close>

definition jobs_of_repository :: "prune_phase \<Rightarrow> nat \<Rightarrow> nat list" where
  "jobs_of_repository pp i = map fst (filter (\<lambda>(_, r). r = i) (pp_repository pp))"

definition compact_targets :: "prune_phase \<Rightarrow> (nat \<times> run_status) list \<Rightarrow> (nat \<times> nat) list" where
  "compact_targets pp statuses =
     map (\<lambda>i. (i, min_id (jobs_of_repository pp i)))
       (filter (\<lambda>i. \<not> list_ex (\<lambda>j. map_of statuses j \<noteq> Some Success) (jobs_of_repository pp i))
         (sort (remdups (map snd (pp_repository pp)))))"

definition queue_compacts ::
    "queue_env \<Rightarrow> (queue_error \<Rightarrow> string) \<Rightarrow> time \<Rightarrow> group \<Rightarrow> (nat \<times> nat) list \<Rightarrow> manager \<Rightarrow> nat list \<times> manager" where
  "queue_compacts e msg now g targets m =
     (if \<not> st_compact_after_prune (qe_settings e) then ([], m)
      else fold (\<lambda>(_, job_id) (runs, m).
        case group_queue e msg now g ''compact'' job_id m of
          (m', Some i) \<Rightarrow> (runs @ [i], m')
        | (m', None) \<Rightarrow> (runs, m')) targets ([], m))"

text \<open>\<open>scheduled_schedule\<close>: the jobs and the group of an enabled schedule that selects any.\<close>

definition scheduled_schedule :: "nat \<Rightarrow> string option \<Rightarrow> int \<Rightarrow> manager \<Rightarrow> (nat list \<times> group) option" where
  "scheduled_schedule i name limit m =
     (case get_schedule (mg_db m) i of
        None \<Rightarrow> None
      | Some s \<Rightarrow>
          if \<not> sc_enabled s then None
          else (let ids = schedule_target_job_ids (mg_db m) s True in
            if ids = [] then None
            else Some (ids, \<lparr>gr_name = (if sc_name s \<noteq> [] then Some (sc_name s) else name),
              gr_schedule_id = Some i,
              gr_limit = (if sc_parallel_limit s \<noteq> 0 then sc_parallel_limit s else limit)\<rparr>)))"

section \<open>Facts\<close>

lemma queue_job_action_fails:
  assumes "queue_job_action e job_id q m = (m', Inl err)" and "\<not> ar_reserve q"
  shows "m' = m"
  using assms by (auto simp: queue_job_action_def Let_def split: sum.splits if_splits)

lemma queue_job_action_queues:
  assumes "queue_job_action e job_id q m = (m', Inr i)" and "ar_action q \<noteq> ''confirm-location''"
  shows "\<exists>r. mg_db m' = insert_run r (mg_db m) \<and> rn_job_id r = Some job_id \<and> rn_action r = ar_action q \<and>
     rn_status r = Queued \<and> rn_id r = i"
proof -
  obtain j r where ok: "job_checks e job_id q (mg_db m) = Inr (j, r)"
    using assms by (auto simp: queue_job_action_def job_checks_def split: sum.splits option.splits if_splits)
  have "jb_id j = job_id" using job_checks_Inr(1) [OF ok] by (auto dest: table_get_SomeD)
  with assms(1) show ?thesis by (auto simp: queue_job_action_def ok Let_def split: if_splits)
qed

lemma chain_run_token:
  assumes "queue_job_action e job_id (chain_action token action) m = (m', Inr i)"
    and "action \<noteq> ''confirm-location''" and "token \<noteq> []"
  shows "ch_tokens (mg_chains m') i = Some token"
proof -
  have "ar_action (chain_action token action) \<noteq> ''confirm-location''"
    using assms(2) by (simp add: chain_action_def plain_request_def)
  with assms(1) obtain j r where ok: "job_checks e job_id (chain_action token action) (mg_db m) = Inr (j, r)"
    by (auto simp: queue_job_action_def job_checks_def split: sum.splits option.splits if_splits)
  with assms(1,3) show ?thesis
    by (auto simp: queue_job_action_def Let_def register_chain_run_def chain_action_def plain_request_def)
qed

lemma group_queue_adds_one:
  assumes "action \<noteq> ''confirm-location''"
  shows "length (db_runs (mg_db (fst (group_queue e msg now g action job_id m)))) = Suc (length (db_runs (mg_db m)))"
proof -
  obtain m' res where q: "queue_job_action e job_id (group_action g action) m = (m', res)"
    by (cases "queue_job_action e job_id (group_action g action) m")
  show ?thesis
  proof (cases res)
    case (Inl err)
    with q have "m' = m" using queue_job_action_fails [of e job_id "group_action g action" m m' err]
      by (simp add: group_action_def plain_request_def)
    with q Inl show ?thesis by (simp add: group_queue_def record_schedule_error_def Let_def)
  next
    case (Inr i)
    with q obtain r where "mg_db m' = insert_run r (mg_db m)"
      using queue_job_action_queues [of e job_id "group_action g action" m m' i] assms
      by (auto simp: group_action_def plain_request_def)
    with q Inr show ?thesis by (simp add: group_queue_def)
  qed
qed

text \<open>What one wake-up of a chain does, by the phase it was in.\<close>

lemma chain_queue_next_cases:
  assumes "chain_queue_next e action phase c m = (c', m')"
    and "action \<noteq> ''confirm-location''" and "mc_token c \<noteq> []"
  obtains (queued) i r where "c' = c\<lparr>mc_phase := phase i\<rparr>" "mg_db m' = insert_run r (mg_db m)"
      "rn_id r = i" "rn_job_id r = Some (mc_job c)" "rn_action r = action"
      "ch_tokens (mg_chains m') i = Some (mc_token c)"
  | (failed) "(c', m') = release_chain c m"
proof (cases "queue_job_action e (mc_job c) (chain_action (mc_token c) action) m")
  case (Pair m1 res)
  show ?thesis
  proof (cases res)
    case (Inl err)
    with Pair have "m1 = m"
      using queue_job_action_fails [of e "mc_job c" "chain_action (mc_token c) action" m m1 err]
      by (simp add: chain_action_def plain_request_def)
    with Inl Pair assms(1) show ?thesis by (intro failed) (simp add: chain_queue_next_def)
  next
    case (Inr i)
    with Pair have q: "queue_job_action e (mc_job c) (chain_action (mc_token c) action) m = (m1, Inr i)" by simp
    obtain r where "mg_db m1 = insert_run r (mg_db m)" "rn_job_id r = Some (mc_job c)" "rn_action r = action" "rn_id r = i"
      using queue_job_action_queues [OF q] assms(2) by (auto simp: chain_action_def plain_request_def)
    moreover have "c' = c\<lparr>mc_phase := phase i\<rparr>" "m' = m1"
      using assms(1) q by (simp_all add: chain_queue_next_def)
    ultimately show ?thesis using chain_run_token [OF q assms(2,3)] by (intro queued [of i r]) simp_all
  qed
qed

fun chain_rank :: "chain_phase \<Rightarrow> nat" where
  "chain_rank (Await_backup _) = 3"
| "chain_rank (Await_prune _) = 2"
| "chain_rank (Await_compact _) = 1"
| "chain_rank Released = 0"

section \<open>An example chain\<close>

definition demo_chain :: manual_chain where
  "demo_chain = \<lparr>mc_job = 1, mc_repository = 1, mc_token = ''t'', mc_compact = True, mc_phase = Await_backup 1\<rparr>"

definition demo_backed_up :: manager where
  "demo_backed_up = change_run 1 (finish_run Success 5)
     (fst (queue_manual_backup ready_env ''t'' 1 ready_manager))"

lemma demo_chain_facts:
  "awaited demo_chain = Some 1" "wait_for_run demo_backed_up 1 = Some Success" "mc_token demo_chain \<noteq> []"
  "awaited (fst (advance_chain ready_env demo_chain demo_backed_up)) = Some 2"
  by code_simp+

lemma demo_chain_wf: "chains_wf (mg_chains demo_backed_up)"
  by code_simp

section \<open>Properties\<close>

text \<open>
  C9: a manual chain always lets go of its repository. Each time the run it waits for has
  finished, however it ended and whatever else happened meanwhile, the chain comes closer to
  its end, in at most three steps; at its end no reservation with its token is left.
\<close>

theorem manual_chain_releases:
  assumes "advance_chain e c m = (c', m')" and "awaited c = Some i" and "wait_for_run m i \<noteq> None"
    and "mc_token c \<noteq> []" and "chains_wf (mg_chains m)"
  shows "chain_rank (mc_phase c') < chain_rank (mc_phase c) \<and> chain_rank (mc_phase c) \<le> 3 \<and>
    (mc_phase c' = Released \<longrightarrow> (\<forall>key. \<forall>r \<in> set (chain_queue (mg_chains m') key). rs_token r \<noteq> mc_token c))"
proof -
  have rel: "(mc_phase c' = Released \<and> (\<forall>key. \<forall>r \<in> set (chain_queue (mg_chains m') key). rs_token r \<noteq> mc_token c))"
    if "(c', m') = release_chain c m"
    using that assms(5) by (auto simp: release_chain_def chain_queue_release chains_wf_def)
  from assms(3) obtain s where s: "wait_for_run m i = Some s" by blast
  show ?thesis
  proof (cases "mc_phase c")
    case (Await_backup k)
    show ?thesis
    proof (cases "finished_well s")
      case True
      with assms(1,2) s Await_backup have "chain_queue_next e ''prune'' Await_prune c m = (c', m')"
        by (simp add: advance_chain_def awaited_def)
      then show ?thesis
        by (rule chain_queue_next_cases) (use assms(4) Await_backup rel in auto)
    next
      case False
      with assms(1,2) s Await_backup rel show ?thesis by (simp add: advance_chain_def awaited_def)
    qed
  next
    case (Await_prune k)
    show ?thesis
    proof (cases "s = Success \<and> mc_compact c")
      case True
      with assms(1,2) s Await_prune have "chain_queue_next e ''compact'' Await_compact c m = (c', m')"
        by (simp add: advance_chain_def awaited_def)
      then show ?thesis
        by (rule chain_queue_next_cases) (use assms(4) Await_prune rel in auto)
    next
      case False
      with assms(1,2) s Await_prune rel show ?thesis by (auto simp: advance_chain_def awaited_def)
    qed
  next
    case (Await_compact k)
    with assms(1,2) s rel show ?thesis by (simp add: advance_chain_def awaited_def)
  next
    case Released
    with assms(2) show ?thesis by (simp add: awaited_def)
  qed
qed

theorem manual_chain_releases_witness:
  "chain_rank (mc_phase (fst (advance_chain ready_env demo_chain demo_backed_up))) < 3"
  using manual_chain_releases [OF prod.collapse [symmetric] demo_chain_facts(1) _ demo_chain_facts(3) demo_chain_wf]
    demo_chain_facts(2) by (simp add: demo_chain_def)

text \<open>
  C10: a manual chain prunes only after its backup ended in success or with warnings, and
  compacts only when that was asked for and the prune ended in success; every run it queues is
  a run of the same job that carries the token of the chain.
\<close>

theorem manual_chain_follows_outcomes:
  assumes "advance_chain e c m = (c', m')" and "awaited c = Some i" and "wait_for_run m i = Some s"
    and "mc_token c \<noteq> []" and "awaited c' = Some k"
  shows "(mc_phase c' = Await_prune k \<and> mc_phase c = Await_backup i \<and> s \<in> {Success, Warning} \<or>
      mc_phase c' = Await_compact k \<and> mc_phase c = Await_prune i \<and> s = Success \<and> mc_compact c) \<and>
    ch_tokens (mg_chains m') k = Some (mc_token c) \<and>
    (\<exists>r. mg_db m' = insert_run r (mg_db m) \<and> rn_id r = k \<and> rn_job_id r = Some (mc_job c))"
proof -
  have not_rel: "(c', m') \<noteq> release_chain c m"
    using assms(5) by (auto simp: release_chain_def awaited_def)
  show ?thesis
  proof (cases "mc_phase c")
    case (Await_backup j)
    with assms(1-3) not_rel have "chain_queue_next e ''prune'' Await_prune c m = (c', m')" "s \<in> {Success, Warning}"
      by (auto simp: advance_chain_def awaited_def finished_well_def split: if_splits)
    then show ?thesis
      by (elim chain_queue_next_cases) (use assms(2,4,5) not_rel Await_backup in \<open>auto simp: awaited_def\<close>)
  next
    case (Await_prune j)
    with assms(1-3) not_rel have "chain_queue_next e ''compact'' Await_compact c m = (c', m')" "s = Success" "mc_compact c"
      by (auto simp: advance_chain_def awaited_def split: if_splits)
    then show ?thesis
      by (elim chain_queue_next_cases) (use assms(2,4,5) not_rel Await_prune in \<open>auto simp: awaited_def\<close>)
  qed (use assms not_rel in \<open>auto simp: advance_chain_def awaited_def\<close>)
qed

theorem manual_chain_follows_outcomes_witness:
  "ch_tokens (mg_chains (snd (advance_chain ready_env demo_chain demo_backed_up))) 2 = Some ''t''"
  using manual_chain_follows_outcomes [OF prod.collapse [symmetric] demo_chain_facts]
  by (simp add: demo_chain_def)

text \<open>
  a schedule compacts a repository at most once, and only when every prune run that was
  queued for it ended in success; the repositories it leaves out are exactly those with a prune
  run that did not.
\<close>

theorem compact_targets_correct:
  assumes "distinct (map fst (pp_repository pp))"
  shows "distinct (map fst (compact_targets pp statuses)) \<and>
    (\<forall>i. i \<in> fst ` set (compact_targets pp statuses) \<longleftrightarrow>
       (\<exists>j. map_of (pp_repository pp) j = Some i) \<and>
       (\<forall>j. map_of (pp_repository pp) j = Some i \<longrightarrow> map_of statuses j = Some Success)) \<and>
    (\<forall>(i, j) \<in> set (compact_targets pp statuses). map_of (pp_repository pp) j = Some i)"
proof -
  have member: "j \<in> set (jobs_of_repository pp i) \<longleftrightarrow> map_of (pp_repository pp) j = Some i" for i j
    using assms by (force simp: jobs_of_repository_def)
  have known: "i \<in> snd ` set (pp_repository pp) \<longleftrightarrow> (\<exists>j. map_of (pp_repository pp) j = Some i)" for i
    using assms by force
  have ids: "i \<in> fst ` set (compact_targets pp statuses) \<longleftrightarrow>
       (\<exists>j. map_of (pp_repository pp) j = Some i) \<and>
       (\<forall>j. map_of (pp_repository pp) j = Some i \<longrightarrow> map_of statuses j = Some Success)" for i
    using known [of i] member [of _ i] by (auto simp: compact_targets_def image_image list_ex_iff)
  have "map_of (pp_repository pp) j = Some i" if "(i, j) \<in> set (compact_targets pp statuses)" for i j
  proof -
    from that have "j = min_id (jobs_of_repository pp i)" by (auto simp: compact_targets_def)
    moreover from that have "i \<in> fst ` set (compact_targets pp statuses)" by force
    then obtain j' where "map_of (pp_repository pp) j' = Some i" using ids by blast
    then have "jobs_of_repository pp i \<noteq> []" using member [of j' i] by auto
    ultimately show ?thesis using min_id_in [of "jobs_of_repository pp i"] member by blast
  qed
  then show ?thesis
    using ids by (auto simp: compact_targets_def comp_def)
qed

theorem compact_targets_correct_witness:
  "(2 :: nat) \<notin> fst ` set (compact_targets \<lparr>pp_runs = [], pp_repository = [(1, 1), (3, 2), (4, 2)]\<rparr>
     [(1, Success), (3, Success), (4, Warning)])"
  using compact_targets_correct [of "\<lparr>pp_runs = [], pp_repository = [(1, 1), (3, 2), (4, 2)]\<rparr>"
      "[(1, Success), (3, Success), (4, Warning)]"]
  by simp

text \<open>
  no job of a schedule is lost. Queueing the backups adds exactly one run per job to the
  database, the queued backup or the recorded error.
\<close>

theorem queue_backups_adds_one_run_per_job:
  "length (db_runs (mg_db (snd (queue_backups e msg now g job_ids m)))) =
     length (db_runs (mg_db m)) + length job_ids"
proof -
  have "length (db_runs (mg_db (snd (fold (queue_backup_of e msg now g) job_ids (bp, m))))) =
      length (db_runs (mg_db m)) + length job_ids" for bp
  proof (induction job_ids arbitrary: bp m)
    case (Cons j js)
    obtain bp' m' where s: "queue_backup_of e msg now g j (bp, m) = (bp', m')" by force
    then have "m' = fst (group_queue e msg now g ''backup'' j m)"
      by (auto simp: queue_backup_of_def Let_def split: prod.splits option.splits)
    then have "length (db_runs (mg_db m')) = Suc (length (db_runs (mg_db m)))"
      by (simp add: group_queue_adds_one)
    with Cons s show ?case by simp
  qed simp
  then show ?thesis by (simp add: queue_backups_def)
qed

end
