(* ===== verification/TextFields.thy ===== *)
theory TextFields
  imports Model
begin

text \<open>
  The text validators the request models of \<open>src/app/schemas.py\<close> share: single-line names,
  archive names, relative archive paths, absolute sources, directory names below the repository
  root, and Borg's compression specification with the grammar it accepts.
\<close>

section \<open>Errors\<close>

text \<open>
  The first four are the constraints declared with \<open>Field\<close>, \<open>Unhashable_value\<close> is the
  \<open>TypeError\<close> of a list or object looked up in a set, and \<open>Value_error\<close> carries the message of the
  \<open>ValueError\<close> a validator raises. A failure carries the name of the field, the empty name for a
  model validator.
\<close>

datatype request_error =
    Too_short | Too_long | Out_of_range | Pattern_mismatch | Unhashable_value | Value_error string

text \<open>The Latin-1 letters of the German messages.\<close>

abbreviation (input) a_uml :: string where "a_uml \<equiv> [CHR 0xE4]"
abbreviation (input) o_uml :: string where "o_uml \<equiv> [CHR 0xF6]"
abbreviation (input) u_uml :: string where "u_uml \<equiv> [CHR 0xFC]"

type_synonym failure = "string \<times> request_error"

definition at_field :: "string \<Rightarrow> (request_error, 'a) result \<Rightarrow> (failure, 'a) result" where
  "at_field f r = (case r of Inl e \<Rightarrow> Inl (f, e) | Inr a \<Rightarrow> Inr a)"

lemma at_field_Inr [simp]: "at_field f r = Inr a \<longleftrightarrow> r = Inr a"
  by (cases r) (simp_all add: at_field_def)

definition guarded :: "bool \<Rightarrow> string \<Rightarrow> 'a \<Rightarrow> (request_error, 'a) result" where
  "guarded ok e a = (if ok then Inr a else Inl (Value_error e))"

lemma guarded_Inr [simp]: "guarded ok e a = Inr b \<longleftrightarrow> ok \<and> a = b"
  by (simp add: guarded_def)

definition optional_field :: "('a \<Rightarrow> (request_error, 'b) result) \<Rightarrow> 'a option \<Rightarrow> (request_error, 'b option) result" where
  "optional_field check v =
     (case v of None \<Rightarrow> Inr None | Some a \<Rightarrow> try_bind (check a) (\<lambda>b. Inr (Some b)))"

section \<open>Constraints\<close>

text \<open>\<open>Field(min_length=lo, max_length=hi)\<close> and \<open>Field(ge=lo, le=hi)\<close>.\<close>

definition length_field :: "nat \<Rightarrow> nat \<Rightarrow> 'a list \<Rightarrow> (request_error, 'a list) result" where
  "length_field lo hi s =
     (if length s < lo then Inl Too_short else if hi < length s then Inl Too_long else Inr s)"

definition range_field :: "int \<Rightarrow> int \<Rightarrow> int \<Rightarrow> (request_error, int) result" where
  "range_field lo hi n = (if lo \<le> n \<and> n \<le> hi then Inr n else Inl Out_of_range)"

definition choice_field :: "string list \<Rightarrow> string \<Rightarrow> (request_error, string) result" where
  "choice_field choices s = (if s \<in> set choices then Inr s else Inl Pattern_mismatch)"

lemma length_field_Inr [simp]:
  "length_field lo hi s = Inr t \<longleftrightarrow> t = s \<and> lo \<le> length s \<and> length s \<le> hi"
  by (auto simp: length_field_def)

lemma range_field_Inr [simp]: "range_field lo hi n = Inr m \<longleftrightarrow> m = n \<and> lo \<le> n \<and> n \<le> hi"
  by (auto simp: range_field_def)

section \<open>Single-line text\<close>

text \<open>\<open>any(c in value for c in "\x00\r\n")\<close>.\<close>

definition breaks_line :: "char \<Rightarrow> bool" where
  "breaks_line c = (char_code c = 0 \<or> char_code c = 13 \<or> char_code c = 10)"

definition single_line :: "string \<Rightarrow> bool" where
  "single_line s = (\<not> list_ex breaks_line s)"

definition has_char :: "nat \<Rightarrow> string \<Rightarrow> bool" where
  "has_char n s = list_ex (\<lambda>c. char_code c = n) s"

text \<open>Strip, then reject an empty text or one with a NUL or a line end.\<close>

definition single_line_name :: "string \<Rightarrow> string \<Rightarrow> (request_error, string) result" where
  "single_line_name e value =
     (let v = py_strip value in guarded (v \<noteq> [] \<and> single_line v) e v)"

text \<open>A secret that is given must be non-empty and single-line.\<close>

definition secret_ok :: "string option \<Rightarrow> bool" where
  "secret_ok s = (case s of None \<Rightarrow> True | Some t \<Rightarrow> t \<noteq> [] \<and> single_line t)"

definition keyfile_ok :: "string option \<Rightarrow> bool" where
  "keyfile_ok s = (case s of None \<Rightarrow> True | Some t \<Rightarrow> t \<noteq> [] \<and> \<not> has_char 0 t)"

lemma dropWhile_idle: "s = [] \<or> \<not> P (hd s) \<Longrightarrow> dropWhile P s = s"
  by (cases s) auto

lemma dropWhile_dropWhile [simp]: "dropWhile P (dropWhile P s) = dropWhile P s"
  by (induction s) auto

lemma rstrip_by_rstrip_by [simp]: "rstrip_by P (rstrip_by P s) = rstrip_by P s"
  by (simp add: rstrip_by_def)

lemma hd_rstrip_by: "rstrip_by P s \<noteq> [] \<Longrightarrow> hd (rstrip_by P s) = hd s"
proof -
  assume ne: "rstrip_by P s \<noteq> []"
  have "s = rstrip_by P s @ rev (takeWhile P (rev s))"
    unfolding rstrip_by_def by (metis rev_append rev_rev_ident takeWhile_dropWhile_id)
  with ne show ?thesis by (metis hd_append2)
qed

lemma strip_by_idem [simp]: "strip_by P (strip_by P s) = strip_by P s"
proof -
  define t where "t = dropWhile P s"
  have "dropWhile P (rstrip_by P t) = rstrip_by P t"
  proof (rule dropWhile_idle)
    show "rstrip_by P t = [] \<or> \<not> P (hd (rstrip_by P t))"
    proof (cases "rstrip_by P t = []")
      case False
      then have "hd (rstrip_by P t) = hd t" by (rule hd_rstrip_by)
      moreover have "t \<noteq> []" using False by (auto simp: rstrip_by_def)
      ultimately show ?thesis using hd_dropWhile [of P s] by (simp add: t_def)
    qed simp
  qed
  then show ?thesis by (simp add: strip_by_def lstrip_by_def t_def)
qed

lemma py_strip_idem [simp]: "py_strip (py_strip s) = py_strip s"
  by (simp add: py_strip_def)

lemma set_strip_by: "set (strip_by P s) \<subseteq> set s"
proof
  fix x assume "x \<in> set (strip_by P s)"
  then have "x \<in> set (dropWhile P (rev (dropWhile P s)))"
    by (simp add: strip_by_def rstrip_by_def lstrip_by_def)
  then have "x \<in> set (dropWhile P s)" by (metis set_dropWhileD set_rev)
  then show "x \<in> set s" by (metis set_dropWhileD)
qed

lemma length_strip_by: "length (strip_by P s) \<le> length s"
  by (simp add: strip_by_def rstrip_by_def lstrip_by_def)
     (metis length_dropWhile_le length_rev order_trans)

lemma length_py_strip: "length (py_strip s) \<le> length s"
  by (simp add: py_strip_def length_strip_by)

lemma strip_by_ends:
  assumes "strip_by P s \<noteq> []"
  shows "\<not> P (hd (strip_by P s))" and "\<not> P (last (strip_by P s))"
proof -
  have idle: "strip_by P s = rstrip_by P (dropWhile P s)" by (simp add: strip_by_def lstrip_by_def)
  then have ne: "rstrip_by P (dropWhile P s) \<noteq> []" using assms by simp
  have t: "dropWhile P s \<noteq> []"
  proof
    assume "dropWhile P s = []"
    then have "rstrip_by P (dropWhile P s) = []" by (simp only: rstrip_by_def) simp
    with ne show False by simp
  qed
  have "hd (strip_by P s) = hd (dropWhile P s)" using hd_rstrip_by [OF ne] idle by simp
  then show "\<not> P (hd (strip_by P s))" using hd_dropWhile [OF t] by simp
  have "dropWhile P (rev (dropWhile P s)) \<noteq> []"
    using ne unfolding rstrip_by_def by (metis rev.simps(1))
  from hd_dropWhile [OF this] show "\<not> P (last (strip_by P s))"
    by (simp add: idle rstrip_by_def last_rev)
qed

section \<open>Lists of texts\<close>

text \<open>
  The loop of the list validators: an element is dropped (\<open>None\<close>), rejected or normalised, and a
  value that is already there is not repeated.
\<close>

fun collect_unique ::
    "('a \<Rightarrow> (request_error, 'b option) result) \<Rightarrow> 'b list \<Rightarrow> 'a list \<Rightarrow> (request_error, 'b list) result" where
  "collect_unique check acc [] = Inr acc"
| "collect_unique check acc (raw # raws) =
     (case check raw of
        Inl e \<Rightarrow> Inl e
      | Inr None \<Rightarrow> collect_unique check acc raws
      | Inr (Some v) \<Rightarrow> collect_unique check (if v \<in> set acc then acc else acc @ [v]) raws)"

fun collect_all :: "('a \<Rightarrow> (request_error, 'b) result) \<Rightarrow> 'a list \<Rightarrow> (request_error, 'b list) result" where
  "collect_all check [] = Inr []"
| "collect_all check (raw # raws) =
     try_bind (check raw) (\<lambda>v. try_bind (collect_all check raws) (\<lambda>vs. Inr (v # vs)))"

lemma collect_all_Inr:
  "collect_all check raws = Inr vs \<longleftrightarrow> list_all2 (\<lambda>raw v. check raw = Inr v) raws vs"
  by (induction raws arbitrary: vs)
     (auto simp: try_bind_Inr_iff list_all2_Cons1)

lemma collect_all_sound: "collect_all check raws = Inr vs \<Longrightarrow> v \<in> set vs \<Longrightarrow> \<exists>raw\<in>set raws. check raw = Inr v"
  by (fastforce simp: collect_all_Inr list_all2_conv_all_nth in_set_conv_nth)

lemma collect_unique_sound:
  assumes "collect_unique check acc raws = Inr vs" and "v \<in> set vs"
  shows "v \<in> set acc \<or> (\<exists>raw\<in>set raws. check raw = Inr (Some v))"
  using assms
  by (induction raws arbitrary: acc) (fastforce split: sum.splits option.splits if_splits)+

lemma collect_unique_distinct:
  "collect_unique check acc raws = Inr vs \<Longrightarrow> distinct acc \<Longrightarrow> distinct vs"
  by (induction raws arbitrary: acc) (auto split: sum.splits option.splits if_splits)

lemma collect_unique_idem:
  assumes "\<And>v. v \<in> set vs \<Longrightarrow> check v = Inr (Some v)" and "distinct (acc @ vs)"
  shows "collect_unique check acc vs = Inr (acc @ vs)"
  using assms by (induction vs arbitrary: acc) auto

section \<open>Names and paths\<close>

definition quoted :: "string \<Rightarrow> string" where
  "quoted s = CHR 0x27 # s @ [CHR 0x27]"

text \<open>\<open>".." in PurePosixPath(value).parts\<close>.\<close>

definition has_parent_part :: "string \<Rightarrow> bool" where
  "has_parent_part s = (''..'' \<in> set (path_of_string s))"

text \<open>\<open>ArchiveDeleteIn.valid_archive\<close>.\<close>

definition valid_archive :: "string \<Rightarrow> (request_error, string) result" where
  "valid_archive value =
     (let v = py_strip value in
      guarded (v \<noteq> [] \<and> \<not> starts_with ''-'' v \<and> \<not> contains ''::'' v \<and> single_line v \<and> CHR ''/'' \<notin> set v)
        ''invalid archive name'' v)"

text \<open>The selection of \<open>RestoreIn\<close> and \<open>ArchiveExportIn\<close>, and the one of \<open>ArchiveDiffIn\<close>.\<close>

definition selected_path :: "string \<Rightarrow> string \<Rightarrow> (request_error, string) result" where
  "selected_path kind value =
     (let v = strip_by (\<lambda>c. c = CHR ''/'') (py_strip value) in
      guarded (v \<noteq> [] \<and> \<not> starts_with ''-'' v \<and> \<not> has_parent_part v \<and> single_line v) 
        (kind @ '' paths must be relative archive paths without '' @ quoted ''..'') v)"

definition diff_path :: "string \<Rightarrow> (request_error, string) result" where
  "diff_path value =
     (let v = py_strip value in
      guarded (v \<noteq> [] \<and> \<not> starts_with ''-'' v \<and> \<not> starts_with ''/'' v \<and> \<not> has_parent_part v \<and> single_line v)
        (''diff paths must be relative archive paths without '' @ quoted ''..'') v)"

definition absolute_source :: "string \<Rightarrow> (request_error, string option) result" where
  "absolute_source raw =
     (let v = py_strip raw in
      if \<not> starts_with ''/'' v \<or> starts_with ''-'' v \<or> has_parent_part v then Inl (Value_error ''source paths must be safe absolute POSIX paths'')
      else guarded (single_line v) ''source paths must be single-line values'' (Some v))"

definition exclude_pattern :: "string \<Rightarrow> string \<Rightarrow> (request_error, string option) result" where
  "exclude_pattern e raw =
     (let v = py_strip raw in
      if v = [] then Inr None else guarded (single_line v) e (Some v))"

definition safe_directory_name :: "string \<Rightarrow> (request_error, string) result" where
  "safe_directory_name value =
     (let v = py_strip value in
      if starts_with ''/'' v then Inl (Value_error ''directory_name must be relative to /repositories'')
      else (let w = strip_by (\<lambda>c. c = CHR ''/'') v; parts = split_on (CHR ''/'') w in
        if w = [] \<or> has_char 92 w \<or> \<not> single_line w then Inl (Value_error ''directory_name must be a safe relative path below /repositories'')
        else if list_ex (\<lambda>p. p \<in> {[], ''.'', ''..''}) parts then Inl (Value_error ''directory_name contains an unsafe path segment'')
        else if 12 < length parts then Inl (Value_error ''directory_name is nested too deeply'')
        else Inr (join_with ''/'' parts)))"

lemma starts_with_slash: "starts_with ''/'' s \<longleftrightarrow> (\<exists>t. s = CHR ''/'' # t)"
  by (cases s) (auto simp: starts_with_def)

lemma path_of_string_append:
  "path_of_string (a @ CHR ''/'' # b) = path_of_string a @ path_of_string b"
proof -
  have "split_on d (a @ d # b) = split_on d a @ split_on d b" for d
  proof (induction a)
    case (Cons c a)
    obtain w ws where "split_on d a = w # ws" by (cases "split_on d a") auto
    with Cons show ?case by simp
  qed simp
  then show ?thesis by (simp add: path_of_string_def)
qed

text \<open>The directory a path names when its parent segments are followed lexically.\<close>

definition follow_parents :: "path \<Rightarrow> path" where
  "follow_parents p = fold (\<lambda>part acc. if part = ''..'' then butlast acc else acc @ [part]) p []"

lemma follow_parents_plain:
  "''..'' \<notin> set q \<Longrightarrow>
   fold (\<lambda>part acc. if part = ''..'' then butlast acc else acc @ [part]) q acc = acc @ q"
  by (induction q arbitrary: acc) auto

lemma follow_parents_append:
  "''..'' \<notin> set q \<Longrightarrow> follow_parents (p @ q) = follow_parents p @ q"
  by (simp add: follow_parents_def follow_parents_plain)

lemma follow_parents_within:
  "\<not> has_parent_part p \<Longrightarrow>
   follow_parents (path_of_string (t @ CHR ''/'' # p)) = follow_parents (path_of_string t) @ path_of_string p"
  by (simp add: path_of_string_append follow_parents_append has_parent_part_def)

end
