(* ===== verification/Compression.thy ===== *)
theory Compression
  imports TextFields
begin

text \<open>
  \<open>validate_compression_spec\<close> of \<open>src/app/schemas.py\<close>: the recursive descent over the tokens of a
  compression specification, and the grammar of specifications it decides. The index of the code
  is the list of the tokens that are left.
\<close>

section \<open>The parser\<close>

text \<open>\<open>str.isdigit\<close> also accepts the superscripts of Latin-1, which \<open>int\<close> then refuses.\<close>

definition py_isdigit :: "string \<Rightarrow> bool" where
  "py_isdigit s = (s \<noteq> [] \<and> list_all (\<lambda>c. is_digit c \<or> char_code c \<in> {178, 179, 185}) s)"

definition py_int :: "string \<Rightarrow> (request_error, nat) result" where
  "py_int s =
     guarded (s \<noteq> [] \<and> list_all is_digit s) (''invalid literal for int() with base 10: '' @ quoted s)
       (digits_value s)"

definition level_bounds :: "string \<Rightarrow> nat \<times> nat" where
  "level_bounds algorithm = (if algorithm = ''zstd'' then (1, 22) else (0, 9))"

definition obfuscate_modes :: "nat list" where
  "obfuscate_modes = [1..<7] @ [110..<124]"

text \<open>The optional level after \<open>zstd\<close>, \<open>zlib\<close> and \<open>lzma\<close>.\<close>

fun parse_level :: "string \<Rightarrow> string list \<Rightarrow> (request_error, string list) result" where
  "parse_level algorithm [] = Inr []"
| "parse_level algorithm (token # rest) =
     (if py_isdigit token then
        try_bind (py_int token) (\<lambda>level.
          guarded (fst (level_bounds algorithm) \<le> level \<and> level \<le> snd (level_bounds algorithm))
            (algorithm @ '' level must be between '' @ str_nat (fst (level_bounds algorithm))
               @ '' and '' @ str_nat (snd (level_bounds algorithm))) rest)
      else Inr (token # rest))"

fun parse_compression :: "string list \<Rightarrow> (request_error, string list) result" where
  "parse_compression [] = Inl (Value_error ''compression specification is incomplete'')"
| "parse_compression (algorithm # rest) =
     (if algorithm \<in> {''none'', ''lz4''} then Inr rest
      else if algorithm \<in> {''zstd'', ''zlib'', ''lzma''} then
        parse_level algorithm rest
      else if algorithm = ''auto'' then parse_compression rest
      else if algorithm = ''obfuscate'' then
        (case rest of
           [] \<Rightarrow> Inl (Value_error ''obfuscate requires a numeric mode'')
         | token # rest' \<Rightarrow>
             if \<not> py_isdigit token then Inl (Value_error ''obfuscate requires a numeric mode'')
             else try_bind (py_int token) (\<lambda>mode.
               if mode \<notin> set obfuscate_modes then Inl (Value_error ''unsupported obfuscate mode for Borg 1.2'')
               else parse_compression rest'))
      else Inl (Value_error ''unsupported Borg compression algorithm''))"

definition validate_compression_spec :: "string \<Rightarrow> (request_error, string) result" where
  "validate_compression_spec value =
     (let tokens = split_on (CHR '','') value in
      if value = [] \<or> list_ex (\<lambda>t. t \<noteq> py_strip t \<or> t = []) tokens
      then Inl (Value_error ''invalid Borg compression specification'')
      else try_bind (parse_compression tokens) (\<lambda>rest.
        guarded (rest = []) ''invalid Borg compression specification'' value))"

section \<open>The grammar\<close>

text \<open>A decimal number between the bounds; leading zeros are allowed.\<close>

definition number_token :: "(nat \<Rightarrow> bool) \<Rightarrow> string \<Rightarrow> bool" where
  "number_token P t = (t \<noteq> [] \<and> list_all is_digit t \<and> P (digits_value t))"

inductive compression :: "string list \<Rightarrow> bool" where
  plain: "algorithm \<in> {''none'', ''lz4'', ''zstd'', ''zlib'', ''lzma''} \<Longrightarrow> compression [algorithm]"
| level: "algorithm \<in> {''zstd'', ''zlib'', ''lzma''} \<Longrightarrow>
    number_token (\<lambda>n. fst (level_bounds algorithm) \<le> n \<and> n \<le> snd (level_bounds algorithm)) t \<Longrightarrow>
    compression [algorithm, t]"
| auto: "compression ts \<Longrightarrow> compression (''auto'' # ts)"
| obfuscate: "number_token (\<lambda>n. (1 \<le> n \<and> n \<le> 6) \<or> (110 \<le> n \<and> n \<le> 123)) t \<Longrightarrow> compression ts \<Longrightarrow>
    compression (''obfuscate'' # t # ts)"

inductive_cases compression_ConsE: "compression (a # ts)"

lemma number_token_parts:
  "number_token P t \<Longrightarrow> py_isdigit t"
  "number_token P t \<Longrightarrow> py_int t = Inr (digits_value t)"
  by (auto simp: number_token_def py_isdigit_def py_int_def guarded_def list_all_iff)

lemma py_int_number: "py_int t = Inr n \<Longrightarrow> P n \<Longrightarrow> number_token P t"
  by (auto simp: py_int_def number_token_def)

lemma obfuscate_modes_iff: "n \<in> set obfuscate_modes \<longleftrightarrow> (1 \<le> n \<and> n \<le> 6) \<or> (110 \<le> n \<and> n \<le> 123)"
  by (simp only: obfuscate_modes_def set_append set_upt) auto

lemma keyword_not_digit:
  "\<not> py_isdigit ''none''" "\<not> py_isdigit ''lz4''" "\<not> py_isdigit ''zstd''" "\<not> py_isdigit ''zlib''"
  "\<not> py_isdigit ''lzma''" "\<not> py_isdigit ''auto''" "\<not> py_isdigit ''obfuscate''"
  by code_simp+

lemma level_sound:
  assumes "algorithm \<in> {''zstd'', ''zlib'', ''lzma''}" and "parse_level algorithm rest = Inr []"
  shows "compression (algorithm # rest)"
proof (cases rest)
  case Nil
  with assms show ?thesis by (auto intro: compression.plain)
next
  case (Cons t us)
  with assms(2) obtain n where "py_int t = Inr n" "us = []"
    "fst (level_bounds algorithm) \<le> n \<and> n \<le> snd (level_bounds algorithm)"
    by (auto simp: try_bind_Inr_iff split: if_splits)
  then show ?thesis
    using assms(1) Cons by (simp only:) (intro compression.level py_int_number; assumption)
qed

lemma parse_complete: "compression ts \<Longrightarrow> parse_compression ts = Inr []"
proof (induction rule: compression.induct)
  case (level algorithm t)
  then show ?case
    by (auto simp: number_token_parts number_token_def guarded_def split: prod.splits)
next
  case (obfuscate t ts)
  then show ?case by (auto simp: number_token_parts number_token_def obfuscate_modes_iff)
qed auto

lemma parse_sound: "parse_compression ts = Inr [] \<Longrightarrow> compression ts"
proof (induction ts rule: parse_compression.induct)
  case 1
  then show ?case by simp
next
  case (2 algorithm rest)
  consider "algorithm \<in> {''none'', ''lz4''}"
    | "algorithm \<in> {''zstd'', ''zlib'', ''lzma''}" | "algorithm = ''auto''" | "algorithm = ''obfuscate''"
    using "2.prems" by (auto split: if_splits)
  then show ?case
  proof cases
    case 1
    with "2.prems" show ?thesis by (auto intro: compression.plain)
  next
    case 2
    then have "parse_level algorithm rest = Inr []" using "2.prems" by auto
    with 2 show ?thesis by (rule level_sound)
  next
    case 3
    with "2.prems" "2.IH"(1) show ?thesis by (auto intro: compression.auto)
  next
    case 4
    with "2.prems" obtain t us where rest: "rest = t # us" by (cases rest) auto
    with 4 "2.prems" obtain n where n: "py_int t = Inr n" "n \<in> set obfuscate_modes"
      "parse_compression us = Inr []" and dig: "py_isdigit t"
      by (auto simp: try_bind_Inr_iff split: if_splits)
    have "compression us" using "2.IH"(2) [of t us n] 4 rest n dig by simp
    moreover have "number_token (\<lambda>n. (1 \<le> n \<and> n \<le> 6) \<or> (110 \<le> n \<and> n \<le> 123)) t"
      by (rule py_int_number [OF n(1)]) (use n(2) in \<open>simp add: obfuscate_modes_iff\<close>)
    ultimately show ?thesis unfolding 4 rest by (intro compression.obfuscate)
  qed
qed

lemma parse_compression_iff: "parse_compression ts = Inr [] \<longleftrightarrow> compression ts"
  using parse_complete parse_sound by blast

lemma digit_not_space: "is_digit c \<Longrightarrow> \<not> is_space c"
  by (auto simp: is_digit_def is_space_def Let_def)

lemma strip_by_idle: "(\<And>c. c \<in> set s \<Longrightarrow> \<not> P c) \<Longrightarrow> strip_by P s = s"
proof -
  assume none: "\<And>c. c \<in> set s \<Longrightarrow> \<not> P c"
  have idle: "dropWhile P t = t" if "set t \<subseteq> set s" for t
    using that none by (intro dropWhile_idle) (metis hd_in_set subsetD)
  show ?thesis by (simp add: strip_by_def lstrip_by_def rstrip_by_def idle)
qed

lemma number_token_strip: "number_token P t \<Longrightarrow> py_strip t = t \<and> t \<noteq> []"
  by (auto simp: number_token_def py_strip_def list_all_iff digit_not_space intro!: strip_by_idle)

lemma not_number_token_Nil [simp]: "\<not> number_token P []"
  by (simp add: number_token_def)

lemma keyword_strip:
  "py_strip ''none'' = ''none''" "py_strip ''lz4'' = ''lz4''" "py_strip ''zstd'' = ''zstd''"
  "py_strip ''zlib'' = ''zlib''" "py_strip ''lzma'' = ''lzma''" "py_strip ''auto'' = ''auto''"
  "py_strip ''obfuscate'' = ''obfuscate''"
  by code_simp+

lemma compression_tokens_clean: "compression ts \<Longrightarrow> t \<in> set ts \<Longrightarrow> py_strip t = t \<and> t \<noteq> []"
  by (induction rule: compression.induct) (auto simp: keyword_strip number_token_strip)

text \<open>
  The validator decides the grammar of compression specifications: a text is accepted, and
  returned unchanged, exactly if its comma-separated tokens are an algorithm with an optional
  level inside the bounds of that algorithm, possibly below \<open>auto\<close> and \<open>obfuscate\<close> prefixes with a
  mode of Borg 1.2. Nothing after a complete specification is tolerated.
\<close>

theorem compression_spec_decides_grammar:
  "validate_compression_spec v = Inr w \<longleftrightarrow> w = v \<and> compression (split_on (CHR '','') v)"
proof -
  have clean: "\<not> list_ex (\<lambda>t. t \<noteq> py_strip t \<or> t = []) (split_on (CHR '','') v)"
    if "compression (split_on (CHR '','') v)"
    using compression_tokens_clean [OF that] by (auto simp: list_ex_iff)
  have ne: "v \<noteq> []" if "compression (split_on (CHR '','') v)"
    using compression_tokens_clean [OF that] by (cases v) auto
  show ?thesis
    using clean ne
    by (auto simp: validate_compression_spec_def Let_def try_bind_Inr_iff parse_compression_iff)
qed

end
