(* ===== verification/Requests.thy ===== *)
theory Requests
  imports Compression
begin

text \<open>
  The request models of \<open>src/app/schemas.py\<close> for hosts, SSH actions, repositories and settings. A
  model is a record; \<open>validate_\<dots>\<close> takes the decoded request and gives the normalised one or the
  first failure in the order of the fields, the model validators last. That the framework reports
  the failures of all fields together is not modelled. A \<open>SecretStr\<close> is its text.
\<close>

section \<open>Hosts\<close>

record host_in =
  hi_name :: string
  hi_address :: string
  hi_port :: int
  hi_username :: string
  hi_enabled :: bool
  hi_host_key :: "string option"

definition normalize_text :: "string \<Rightarrow> (request_error, string) result" where
  "normalize_text value =
     (let v = py_strip value in
      if v = [] then Inl (Value_error ''must not be empty'')
      else guarded (single_line v) ''must be a single line'' v)"

definition safe_ssh_field :: "string \<Rightarrow> (request_error, string) result" where
  "safe_ssh_field v =
     guarded (\<not> (list_ex is_space v \<or> starts_with ''-'' v))
       (''must not contain whitespace or start with '' @ quoted ''-'') v"

definition valid_host_key :: "string \<Rightarrow> (request_error, string) result" where
  "valid_host_key value =
     (if has_char 10 value \<or> has_char 13 value
      then Inl (Value_error ''must contain exactly one known_hosts line'')
      else (let parts = split_ws (py_strip value) in
        guarded (length parts = 3 \<and> parts ! 1 = ''ssh-ed25519'')
          ''must be an ssh-keyscan ed25519 known_hosts line'' (py_strip value)))"

definition ssh_text :: "nat \<Rightarrow> string \<Rightarrow> (request_error, string) result" where
  "ssh_text hi value =
     try_bind (length_field 1 hi value) (\<lambda>v. try_bind (normalize_text v) safe_ssh_field)"

definition validate_host_in :: "host_in \<Rightarrow> (failure, host_in) result" where
  "validate_host_in r =
     try_bind (at_field ''name'' (try_bind (length_field 1 100 (hi_name r)) normalize_text)) (\<lambda>name.
     try_bind (at_field ''address'' (ssh_text 255 (hi_address r))) (\<lambda>address.
     try_bind (at_field ''port'' (range_field 1 65535 (hi_port r))) (\<lambda>port.
     try_bind (at_field ''username'' (ssh_text 100 (hi_username r))) (\<lambda>username.
     try_bind (at_field ''host_key'' (optional_field valid_host_key (hi_host_key r))) (\<lambda>host_key.
     Inr (r\<lparr>hi_name := name, hi_address := address, hi_username := username, hi_host_key := host_key\<rparr>))))))"

record host_ssh_action_in =
  ha_host_id :: int
  ha_name :: string
  ha_command :: string
  ha_timeout_seconds :: int
  ha_enabled :: bool

definition positive_field :: "int \<Rightarrow> (request_error, int) result" where
  "positive_field n = (if 0 < n then Inr n else Inl Out_of_range)"

definition normalize_action_command :: "string \<Rightarrow> (request_error, string) result" where
  "normalize_action_command value =
     (let v = py_strip value in
      guarded (v \<noteq> [] \<and> \<not> has_char 0 v) ''SSH command must not be empty or contain NUL'' v)"

definition validate_host_ssh_action_in :: "host_ssh_action_in \<Rightarrow> (failure, host_ssh_action_in) result" where
  "validate_host_ssh_action_in r =
     try_bind (at_field ''host_id'' (positive_field (ha_host_id r))) (\<lambda>_.
     try_bind (at_field ''name'' (try_bind (length_field 1 100 (ha_name r))
       (single_line_name ''action name must be a non-empty single-line value''))) (\<lambda>name.
     try_bind (at_field ''command'' (try_bind (length_field 1 4000 (ha_command r))
       normalize_action_command)) (\<lambda>command.
     try_bind (at_field ''timeout_seconds'' (range_field 5 3600 (ha_timeout_seconds r))) (\<lambda>_.
     Inr (r\<lparr>ha_name := name, ha_command := command\<rparr>)))))"

record host_scan_in =
  hs_address :: string
  hs_port :: int

definition validate_host_scan_in :: "host_scan_in \<Rightarrow> (failure, host_scan_in) result" where
  "validate_host_scan_in r =
     try_bind (at_field ''address'' (try_bind (length_field 1 255 (hs_address r))
       (\<lambda>v. safe_ssh_field (py_strip v)))) (\<lambda>address.
     try_bind (at_field ''port'' (range_field 1 65535 (hs_port r))) (\<lambda>_.
     Inr (r\<lparr>hs_address := address\<rparr>)))"

section \<open>Repositories\<close>

record repository_in =
  ri_name :: string
  ri_enabled :: bool
  ri_location :: "string option"
  ri_passphrase_env :: "string option"
  ri_passphrase :: "string option"
  ri_encryption_mode :: string
  ri_managed :: bool
  ri_external_private_key :: "string option"
  ri_external_known_hosts :: "string option"
  ri_generate_key :: bool
  ri_scan_host_key :: bool
  ri_keyfile :: "string option"
  ri_extra_env :: "(string \<times> string) list"
  ri_guard_enabled :: "bool option"
  ri_guard_threshold :: "int option"

definition encryption_modes :: "string list" where
  "encryption_modes =
     [''none'', ''authenticated'', ''authenticated-blake2'', ''repokey'', ''repokey-blake2'',
      ''keyfile'', ''keyfile-blake2'']"

definition valid_encryption_mode :: "string \<Rightarrow> (request_error, string) result" where
  "valid_encryption_mode value =
     guarded (value \<in> set encryption_modes) ''unsupported Borg encryption mode'' value"

definition safe_location :: "string \<Rightarrow> (request_error, string) result" where
  "safe_location value =
     (let v = py_strip value in
      guarded (v \<noteq> [] \<and> single_line v \<and> \<not> starts_with ''-'' v) ''invalid repository location'' v)"

definition safe_private_key :: "string \<Rightarrow> (request_error, string) result" where
  "safe_private_key value =
     (let v = py_strip value in
      guarded (v \<noteq> [] \<and> \<not> has_char 0 v \<and> contains ''BEGIN OPENSSH PRIVATE KEY'' v)
        ''external SSH key must be an OpenSSH private key'' (v @ [newline]))"

definition safe_known_hosts :: "string \<Rightarrow> (request_error, string) result" where
  "safe_known_hosts value =
     (let v = py_strip value in
      guarded (v \<noteq> [] \<and> \<not> has_char 0 v) ''known_hosts must not be empty'' (v @ [newline]))"

text \<open>\<open>[A-Z][A-Z0-9_]*\<close>.\<close>

definition env_name :: "string \<Rightarrow> bool" where
  "env_name s = (case s of [] \<Rightarrow> False
     | c # t \<Rightarrow> is_upper c \<and> list_all (\<lambda>d. is_upper d \<or> is_digit d \<or> d = CHR ''_'') t)"

definition env_field :: "string \<Rightarrow> (request_error, string) result" where
  "env_field s = (if env_name s then Inr s else Inl Pattern_mismatch)"

definition reserved_environment :: "string list" where
  "reserved_environment =
     [''BORG_REPO'', ''BORG_RSH'', ''BORG_PASSPHRASE'', ''BORG_PASSPHRASE_FD'', ''BORG_PASSCOMMAND'',
      ''BORG_KEY_FILE'', ''BORG_CACHE_DIR'', ''BORG_SECURITY_DIR'', ''BORG_RELOCATED_REPO_ACCESS_IS_OK'',
      ''TZ'', ''PATH'', ''HOME'', ''SHELL'', ''USER'', ''LOGNAME'', ''PYTHONPATH'', ''PYTHONHOME'',
      ''LD_PRELOAD'', ''LD_LIBRARY_PATH'', ''DYLD_INSERT_LIBRARIES'', ''ENV'', ''BASH_ENV'', ''IFS'',
      ''SSH_AUTH_SOCK'', ''SSH_AGENT_PID'']"

definition safe_environment ::
    "(string \<times> string) list \<Rightarrow> (request_error, (string \<times> string) list) result" where
  "safe_environment values =
     (if list_ex (\<lambda>(k, _). \<not> env_name k) values
      then Inl (Value_error ''environment variable names must be uppercase identifiers'')
      else if list_ex (\<lambda>(_, v). \<not> single_line v) values
      then Inl (Value_error ''environment values must be single-line strings'')
      else guarded (\<not> list_ex (\<lambda>(k, _). k \<in> set reserved_environment) values)
        ''reserved Borg environment variables cannot be overridden'' values)"

definition passphrase_env_message :: string where
  "passphrase_env_message = ''Passwort-Umgebungsvariablen werden aus Sicherheitsgr'' @ u_uml @
     ''nden nicht mehr unterst'' @ u_uml @ ''tzt''"

text \<open>The validators the create and the update model share, in the order of the fields.\<close>

definition validate_repository_fields :: "repository_in \<Rightarrow> (failure, repository_in) result" where
  "validate_repository_fields r =
     try_bind (at_field ''name'' (try_bind (length_field 1 100 (ri_name r))
       (single_line_name ''invalid repository name''))) (\<lambda>name.
     try_bind (at_field ''location'' (optional_field (\<lambda>v. try_bind (length_field 0 500 v) safe_location)
       (ri_location r))) (\<lambda>location.
     try_bind (at_field ''passphrase_env'' (optional_field env_field (ri_passphrase_env r))) (\<lambda>_.
     try_bind (at_field ''encryption_mode'' (valid_encryption_mode (ri_encryption_mode r))) (\<lambda>_.
     try_bind (at_field ''external_ssh_private_key'' (optional_field safe_private_key
       (ri_external_private_key r))) (\<lambda>key.
     try_bind (at_field ''external_known_hosts'' (optional_field safe_known_hosts
       (ri_external_known_hosts r))) (\<lambda>known.
     try_bind (at_field ''extra_env'' (safe_environment (ri_extra_env r))) (\<lambda>_.
     try_bind (at_field ''storage_guard_threshold_percent'' (optional_field (range_field 1 100)
       (ri_guard_threshold r))) (\<lambda>_.
     Inr (r\<lparr>ri_name := name, ri_location := location, ri_external_private_key := key,
            ri_external_known_hosts := known\<rparr>)))))))))"

definition valid_repository_mode :: "repository_in \<Rightarrow> (failure, repository_in) result" where
  "valid_repository_mode r = at_field []
     (if \<not> secret_ok (ri_passphrase r) then Inl (Value_error ''passphrase must be non-empty and single-line'')
      else if \<not> ri_managed r \<and> \<not> truthy (ri_location r)
      then Inl (Value_error ''external repositories require a location'')
      else if ri_managed r \<and> (truthy (ri_external_private_key r) \<or> truthy (ri_external_known_hosts r))
      then Inl (Value_error ''managed repositories must not define external SSH credentials'')
      else if \<not> keyfile_ok (ri_keyfile r) then Inl (Value_error ''keyfile must be non-empty'')
      else if ri_managed r \<and> truthy (ri_location r)
      then Inl (Value_error ''managed repository locations are generated automatically'')
      else if truthy (ri_passphrase_env r) then Inl (Value_error passphrase_env_message)
      else if ri_managed r \<and> ri_encryption_mode r = ''none'' \<and> truthy (ri_passphrase r)
      then Inl (Value_error ''unencrypted repositories must not define a passphrase'')
      else guarded (\<not> (ri_managed r \<and> ri_encryption_mode r \<noteq> ''none'' \<and> \<not> truthy (ri_passphrase r)))
        ''this encryption mode requires a passphrase'' r)"

definition validate_repository_in :: "repository_in \<Rightarrow> (failure, repository_in) result" where
  "validate_repository_in r = try_bind (validate_repository_fields r) valid_repository_mode"

definition valid_repository_update :: "repository_in \<Rightarrow> (failure, repository_in) result" where
  "valid_repository_update r = at_field []
     (if \<not> secret_ok (ri_passphrase r) then Inl (Value_error ''passphrase must be non-empty and single-line'')
      else if \<not> ri_managed r \<and> \<not> truthy (ri_location r)
      then Inl (Value_error ''external repositories require a location'')
      else if ri_managed r \<and> (truthy (ri_external_private_key r) \<or> truthy (ri_external_known_hosts r)
                              \<or> ri_generate_key r \<or> ri_scan_host_key r)
      then Inl (Value_error ''managed repositories must not define external SSH credentials'')
      else if \<not> keyfile_ok (ri_keyfile r) then Inl (Value_error ''keyfile must be non-empty'')
      else guarded (\<not> (ri_encryption_mode r = ''none'' \<and> (truthy (ri_passphrase r) \<or> truthy (ri_passphrase_env r))))
        ''unencrypted repositories must not define a passphrase'' r)"

definition validate_repository_update :: "repository_in \<Rightarrow> (failure, repository_in) result" where
  "validate_repository_update r = try_bind (validate_repository_fields r) valid_repository_update"

record repository_import_in =
  rm_name :: string
  rm_enabled :: bool
  rm_directory_name :: string
  rm_passphrase :: "string option"
  rm_encryption_mode :: string
  rm_keyfile :: "string option"
  rm_guard_enabled :: "bool option"
  rm_guard_threshold :: "int option"

text \<open>\<open>x.get_secret_value() if x else None\<close>: an empty secret counts as absent.\<close>

definition nonempty_secret :: "string option \<Rightarrow> string option" where
  "nonempty_secret s = (if truthy s then s else None)"

definition validate_import_secrets :: "repository_import_in \<Rightarrow> (failure, repository_import_in) result" where
  "validate_import_secrets r =
     (let passphrase = nonempty_secret (rm_passphrase r); keyfile = nonempty_secret (rm_keyfile r);
          uses_keyfile = starts_with ''keyfile'' (rm_encryption_mode r) in
      at_field []
        (if \<not> secret_ok passphrase then Inl (Value_error ''passphrase must be non-empty and single-line'')
         else if \<not> keyfile_ok keyfile then Inl (Value_error ''keyfile must be non-empty'')
         else if rm_encryption_mode r = ''none'' \<and> passphrase \<noteq> None
         then Inl (Value_error ''unencrypted repositories must not define a passphrase'')
         else if rm_encryption_mode r \<noteq> ''none'' \<and> passphrase = None
         then Inl (Value_error ''this encryption mode requires a passphrase'')
         else if uses_keyfile \<and> keyfile = None
         then Inl (Value_error ''importing a keyfile repository requires the Borg keyfile content'')
         else guarded (\<not> (\<not> uses_keyfile \<and> keyfile \<noteq> None))
           ''keyfile content is only valid for keyfile repositories'' r))"

definition validate_repository_import_in :: "repository_import_in \<Rightarrow> (failure, repository_import_in) result" where
  "validate_repository_import_in r =
     try_bind (at_field ''name'' (try_bind (length_field 1 100 (rm_name r))
       (single_line_name ''invalid repository name''))) (\<lambda>name.
     try_bind (at_field ''directory_name'' (try_bind (length_field 1 255 (rm_directory_name r))
       safe_directory_name)) (\<lambda>directory.
     try_bind (at_field ''encryption_mode'' (valid_encryption_mode (rm_encryption_mode r))) (\<lambda>_.
     try_bind (at_field ''storage_guard_threshold_percent'' (optional_field (range_field 1 100)
       (rm_guard_threshold r))) (\<lambda>_.
     validate_import_secrets (r\<lparr>rm_name := name, rm_directory_name := directory\<rparr>)))))"

section \<open>Imported directories\<close>

lemma safe_directory_parts:
  assumes "safe_directory_name value = Inr d"
  shows "path_of_string d = split_on (CHR ''/'') d" and "\<not> has_parent_part d"
    and "length (split_on (CHR ''/'') d) \<le> 12"
proof -
  define w where "w = strip_by (\<lambda>c. c = CHR ''/'') (py_strip value)"
  have d: "d = w" and parts: "\<And>p. p \<in> set (split_on (CHR ''/'') w) \<Longrightarrow> p \<notin> {[], ''.'', ''..''}"
    and len: "length (split_on (CHR ''/'') w) \<le> 12"
    using assms join_split_on [of "CHR ''/''" w]
    by (auto simp: safe_directory_name_def Let_def w_def list_ex_iff split: if_splits)
  have f: "path_of_string w = split_on (CHR ''/'') w"
    unfolding path_of_string_def using parts by (intro filter_True) auto
  show "path_of_string d = split_on (CHR ''/'') d" "length (split_on (CHR ''/'') d) \<le> 12"
    using f len by (simp_all add: d)
  show "\<not> has_parent_part d"
    using parts f by (auto simp: has_parent_part_def d)
qed

text \<open>
  An imported repository lies strictly below the repository root: following the directory
  name of an accepted import from \<open>/repositories\<close> appends exactly its segments, of which there are
  between one and twelve, so no name climbs out of the root or names the root itself.
\<close>

theorem import_directory_contained:
  assumes "validate_repository_import_in r = Inr s"
  shows "follow_parents (path_of_string (''/repositories/'' @ rm_directory_name s)) =
           ''repositories'' # split_on (CHR ''/'') (rm_directory_name s) \<and>
         length (split_on (CHR ''/'') (rm_directory_name s)) \<in> {1..12}"
proof -
  from assms obtain raw where d: "safe_directory_name raw = Inr (rm_directory_name s)"
    unfolding validate_repository_import_in_def validate_import_secrets_def
    by (auto simp: try_bind_Inr_iff Let_def split: if_splits)
  have root: "follow_parents (path_of_string ''/repositories'') = [''repositories'']" by code_simp
  have "length (split_on (CHR ''/'') (rm_directory_name s)) \<noteq> 0" by simp
  then show ?thesis
    using follow_parents_within [OF safe_directory_parts(2) [OF d], of "''/repositories''"]
      safe_directory_parts(1,3) [OF d] root
    by (simp add: Suc_le_eq)
qed

definition demo_import :: repository_import_in where
  "demo_import =
     \<lparr>rm_name = '' nas '', rm_enabled = True, rm_directory_name = '' hosts/web/ '',
      rm_passphrase = Some ''correct horse'', rm_encryption_mode = ''repokey'', rm_keyfile = None,
      rm_guard_enabled = None, rm_guard_threshold = None\<rparr>"

lemma import_directory_contained_witness:
  "follow_parents (path_of_string (''/repositories/'' @ ''hosts/web'')) =
     [''repositories'', ''hosts'', ''web'']"
proof -
  have "validate_repository_import_in demo_import =
      Inr (demo_import\<lparr>rm_name := ''nas'', rm_directory_name := ''hosts/web''\<rparr>)"
    by code_simp
  from import_directory_contained [OF this]
  have "follow_parents (path_of_string (''/repositories/'' @ ''hosts/web'')) =
      ''repositories'' # split_on (CHR ''/'') ''hosts/web''"
    by simp
  then show ?thesis by simp
qed

end
