(* ===== verification/SettingsRequests.thy ===== *)
theory SettingsRequests
  imports Requests
begin

text \<open>
  The settings model of \<open>src/app/schemas.py\<close> with its parallel limits, header interfaces and exclude
  templates. Dictionaries keep their insertion order; the numeric values arrive as integers.
\<close>

section \<open>Exclude templates\<close>

record exclude_template =
  et_name :: string
  et_patterns :: "string list"

definition normalize_patterns :: "string list \<Rightarrow> (request_error, string list) result" where
  "normalize_patterns values =
     try_bind (collect_unique (exclude_pattern ''exclude template patterns must be single-line values'') [] values)
       (\<lambda>ps. guarded (ps \<noteq> []) ''exclude template must contain at least one pattern'' ps)"

definition validate_exclude_template :: "exclude_template \<Rightarrow> (failure, exclude_template) result" where
  "validate_exclude_template t =
     try_bind (at_field ''name'' (try_bind (length_field 1 80 (et_name t))
       (single_line_name ''template name must be a non-empty single-line value''))) (\<lambda>name.
     try_bind (at_field ''patterns'' (try_bind (length_field 1 500 (et_patterns t))
       normalize_patterns)) (\<lambda>patterns.
     Inr \<lparr>et_name = name, et_patterns = patterns\<rparr>))"

fun unique_template_names :: "string list \<Rightarrow> exclude_template list \<Rightarrow> bool" where
  "unique_template_names names [] = True"
| "unique_template_names names (t # ts) =
     (py_casefold (et_name t) \<notin> set names \<and> unique_template_names (py_casefold (et_name t) # names) ts)"

text \<open>A failure inside a template keeps the name of the template's field.\<close>

fun validate_templates :: "exclude_template list \<Rightarrow> (failure, exclude_template list) result" where
  "validate_templates [] = Inr []"
| "validate_templates (t # ts) =
     try_bind (validate_exclude_template t) (\<lambda>t'. try_bind (validate_templates ts) (\<lambda>ts'. Inr (t' # ts')))"

section \<open>Parallel limits\<close>

definition limit_path :: "string \<Rightarrow> string" where
  "limit_path raw = (let p = rstrip_by (\<lambda>c. c = CHR ''/'') (py_strip raw) in if p = [] then ''/'' else p)"

definition repository_limit_path :: "string \<Rightarrow> bool" where
  "repository_limit_path p =
     (starts_with ''/'' p \<and> \<not> has_parent_part p \<and> (p = ''/repositories'' \<or> starts_with ''/repositories/'' p))"

fun safe_mount_parallel_limits ::
    "(string \<times> int) list \<Rightarrow> (string \<times> int) list \<Rightarrow> (request_error, (string \<times> int) list) result" where
  "safe_mount_parallel_limits acc [] = Inr acc"
| "safe_mount_parallel_limits acc ((raw_path, limit) # values) =
     (let path = limit_path raw_path in
      if \<not> repository_limit_path path
      then Inl (Value_error ''mount parallel limit paths must stay below /repositories'')
      else if \<not> (0 \<le> limit \<and> limit \<le> 64)
      then Inl (Value_error ''mount parallel limits must be between 0 and 64'')
      else safe_mount_parallel_limits (if 0 < limit then dict_set path limit acc else acc) values)"

definition external_limit_key :: "string \<Rightarrow> bool" where
  "external_limit_key key = (starts_with ''external:'' key \<and> length key \<le> 1000 \<and> single_line key)"

fun safe_external_parallel_limits ::
    "(string \<times> int) list \<Rightarrow> (string \<times> int) list \<Rightarrow> (request_error, (string \<times> int) list) result" where
  "safe_external_parallel_limits acc [] = Inr acc"
| "safe_external_parallel_limits acc ((raw_key, limit) # values) =
     (let key = py_strip raw_key in
      if \<not> external_limit_key key
      then Inl (Value_error ''external filesystem parallel limit key is invalid'')
      else if \<not> (0 \<le> limit \<and> limit \<le> 64)
      then Inl (Value_error ''external filesystem parallel limits must be between 0 and 64'')
      else safe_external_parallel_limits (if 0 < limit then dict_set key limit acc else acc) values)"

section \<open>Header interfaces\<close>

text \<open>\<open>[A-Za-z0-9_.:-]{1,64}\<close>.\<close>

definition interface_char :: "char \<Rightarrow> bool" where
  "interface_char c = (is_alnum c \<or> c \<in> {CHR ''_'', CHR ''.'', CHR '':'', CHR ''-''})"

definition interface_name :: "string \<Rightarrow> (request_error, string option) result" where
  "interface_name raw =
     (let name = before_first ''@'' (py_strip raw) in
      guarded (name \<noteq> [] \<and> name \<noteq> ''lo'' \<and> length name \<le> 64 \<and> list_all interface_char name)
        ''header network interface name is invalid'' (Some name))"

definition safe_header_interfaces :: "string list \<Rightarrow> (request_error, string list) result" where
  "safe_header_interfaces values =
     try_bind (collect_unique interface_name [] values) (\<lambda>names.
       guarded (length names \<le> 5) ''at most five header network interfaces are allowed'' names)"

section \<open>Settings\<close>

record settings_in =
  si_dashboard_recent_runs_limit :: int
  si_runs_list_limit :: int
  si_auto_refresh_seconds :: int
  si_list_max_height :: int
  si_density :: string
  si_appearance :: string
  si_max_parallel_runs :: int
  si_source_stats_limit :: int
  si_update_check_enabled :: bool
  si_update_check_interval_hours :: int
  si_mount_limits :: "(string \<times> int) list"
  si_external_limits :: "(string \<times> int) list"
  si_size_after_run :: bool
  si_compact_after_prune :: bool
  si_guard_enabled :: bool
  si_guard_threshold :: int
  si_run_retention_days :: int
  si_run_log_max_mib :: int
  si_run_log_view_kib :: int
  si_session_idle_seconds :: int
  si_header_enabled :: bool
  si_header_source :: string
  si_header_host_id :: "int option"
  si_header_interfaces :: "string list"
  si_header_max_interfaces :: int
  si_header_interval_seconds :: int
  si_exclude_templates :: "exclude_template list"

definition default_settings :: settings_in where
  "default_settings =
     \<lparr>si_dashboard_recent_runs_limit = 10, si_runs_list_limit = 100, si_auto_refresh_seconds = 15,
      si_list_max_height = 520, si_density = ''comfortable'', si_appearance = ''auto'',
      si_max_parallel_runs = 0, si_source_stats_limit = 1, si_update_check_enabled = True,
      si_update_check_interval_hours = 24, si_mount_limits = [], si_external_limits = [],
      si_size_after_run = True, si_compact_after_prune = True, si_guard_enabled = True,
      si_guard_threshold = 95, si_run_retention_days = 90, si_run_log_max_mib = 50,
      si_run_log_view_kib = 2048, si_session_idle_seconds = 3600, si_header_enabled = False,
      si_header_source = ''manager'', si_header_host_id = None, si_header_interfaces = [],
      si_header_max_interfaces = 3, si_header_interval_seconds = 5,
      si_exclude_templates =
        [\<lparr>et_name = ''Linux-Systempfade'',
          et_patterns = [''/proc'', ''/sys'', ''/dev'', ''/run'', ''/tmp'', ''/var/tmp'']\<rparr>]\<rparr>"

text \<open>The ranges of the numbers and the choices, each with the name of its field.\<close>

definition settings_ranges :: "settings_in \<Rightarrow> (string \<times> int \<times> int \<times> int) list" where
  "settings_ranges s =
     [(''dashboard_recent_runs_limit'', 1, 200, si_dashboard_recent_runs_limit s),
      (''runs_list_limit'', 10, 500, si_runs_list_limit s),
      (''auto_refresh_seconds'', 5, 300, si_auto_refresh_seconds s),
      (''list_max_height'', 240, 1200, si_list_max_height s),
      (''max_parallel_runs'', 0, 64, si_max_parallel_runs s),
      (''source_stats_parallel_limit'', 1, 64, si_source_stats_limit s),
      (''update_check_interval_hours'', 1, 720, si_update_check_interval_hours s),
      (''storage_guard_threshold_percent'', 1, 100, si_guard_threshold s),
      (''run_retention_days'', 0, 3650, si_run_retention_days s),
      (''run_log_max_mib'', 1, 2048, si_run_log_max_mib s),
      (''run_log_view_kib'', 256, 65536, si_run_log_view_kib s),
      (''session_idle_timeout_seconds'', 60, 604800, si_session_idle_seconds s),
      (''header_network_max_interfaces'', 1, 5, si_header_max_interfaces s),
      (''header_network_interval_seconds'', 2, 60, si_header_interval_seconds s)]"

fun check_ranges :: "(string \<times> int \<times> int \<times> int) list \<Rightarrow> (failure, unit) result" where
  "check_ranges [] = Inr ()"
| "check_ranges ((f, lo, hi, n) # fs) =
     try_bind (at_field f (range_field lo hi n)) (\<lambda>_. check_ranges fs)"

definition settings_choices :: "settings_in \<Rightarrow> (failure, unit) result" where
  "settings_choices s =
     try_bind (at_field ''density'' (choice_field [''comfortable'', ''compact''] (si_density s))) (\<lambda>_.
     try_bind (at_field ''appearance'' (choice_field [''light'', ''dark'', ''auto''] (si_appearance s))) (\<lambda>_.
     try_bind (at_field ''header_network_source'' (choice_field [''manager'', ''host''] (si_header_source s))) (\<lambda>_.
     try_bind (at_field ''header_network_host_id'' (optional_field positive_field (si_header_host_id s))) (\<lambda>_.
     Inr ()))))"

text \<open>
  The numbers and choices are checked before the lists here; as they do not change anything only
  the choice of the reported failure depends on this order.
\<close>

definition validate_settings_in :: "settings_in \<Rightarrow> (failure, settings_in) result" where
  "validate_settings_in s =
     try_bind (check_ranges (settings_ranges s)) (\<lambda>_.
     try_bind (settings_choices s) (\<lambda>_.
     try_bind (at_field ''mount_parallel_limits'' (safe_mount_parallel_limits [] (si_mount_limits s))) (\<lambda>mounts.
     try_bind (at_field ''external_storage_parallel_limits''
       (safe_external_parallel_limits [] (si_external_limits s))) (\<lambda>externals.
     try_bind (at_field ''header_network_interfaces'' (safe_header_interfaces (si_header_interfaces s))) (\<lambda>names.
     try_bind (at_field ''exclude_templates'' (length_field 0 50 (si_exclude_templates s))) (\<lambda>raw.
     try_bind (validate_templates raw) (\<lambda>templates.
     try_bind (at_field ''exclude_templates'' (guarded (unique_template_names [] templates)
       ''exclude template names must be unique'' templates)) (\<lambda>_.
     at_field [] (guarded (int (length names) \<le> si_header_max_interfaces s)
       ''selected header network interfaces exceed configured display limit''
       (s\<lparr>si_mount_limits := mounts, si_external_limits := externals, si_header_interfaces := names,
          si_exclude_templates := templates\<rparr>))))))))))"

section \<open>What accepted settings satisfy\<close>

definition limits_ok :: "(string \<Rightarrow> bool) \<Rightarrow> (string \<times> int) list \<Rightarrow> bool" where
  "limits_ok ok d = (distinct (map fst d) \<and> list_all (\<lambda>(k, n). ok k \<and> 1 \<le> n \<and> n \<le> 64) d)"

lemma dict_set_elems: "(k', v') \<in> set (dict_set k v d) \<Longrightarrow> (k', v') = (k, v) \<or> (k', v') \<in> set d"
  by (induction k v d rule: dict_set.induct) (auto split: if_splits)

lemma limits_ok_set: "limits_ok ok d \<Longrightarrow> ok k \<Longrightarrow> 1 \<le> n \<Longrightarrow> n \<le> 64 \<Longrightarrow> limits_ok ok (dict_set k n d)"
  by (auto simp: limits_ok_def list_all_iff distinct_dict_set dest!: dict_set_elems)

lemma mount_limits_sound:
  "safe_mount_parallel_limits acc values = Inr d \<Longrightarrow> limits_ok repository_limit_path acc \<Longrightarrow>
   limits_ok repository_limit_path d"
  by (induction acc "values" rule: safe_mount_parallel_limits.induct)
     (auto simp: Let_def limits_ok_set split: if_splits)

lemma external_limits_sound:
  "safe_external_parallel_limits acc values = Inr d \<Longrightarrow> limits_ok external_limit_key acc \<Longrightarrow>
   limits_ok external_limit_key d"
  by (induction acc "values" rule: safe_external_parallel_limits.induct)
     (auto simp: Let_def limits_ok_set split: if_splits)

lemma check_ranges_iff: "check_ranges fs = Inr u \<longleftrightarrow> list_all (\<lambda>(f, lo, hi, n). lo \<le> n \<and> n \<le> hi) fs"
  by (induction fs rule: check_ranges.induct) (auto simp: try_bind_Inr_iff)

lemma interface_name_ok: "interface_name raw = Inr (Some v) \<Longrightarrow> v \<noteq> [] \<and> v \<noteq> ''lo'' \<and> list_all interface_char v"
  by (auto simp: interface_name_def Let_def)

lemma header_interfaces_sound:
  assumes "safe_header_interfaces values = Inr names"
  shows "distinct names \<and> list_all (\<lambda>v. v \<noteq> [] \<and> v \<noteq> ''lo'' \<and> list_all interface_char v) names"
proof -
  from assms have c: "collect_unique interface_name [] values = Inr names"
    by (auto simp: safe_header_interfaces_def try_bind_Inr_iff)
  have "list_all (\<lambda>v. v \<noteq> [] \<and> v \<noteq> ''lo'' \<and> list_all interface_char v) names"
    unfolding list_all_iff
  proof
    fix v assume "v \<in> set names"
    then obtain raw where "interface_name raw = Inr (Some v)" using collect_unique_sound [OF c] by auto
    then show "v \<noteq> [] \<and> v \<noteq> ''lo'' \<and> (\<forall>c\<in>set v. interface_char c)"
      using interface_name_ok by (simp add: list_all_iff)
  qed
  then show ?thesis using collect_unique_distinct [OF c] by simp
qed

lemma unique_templates_iff:
  "unique_template_names names ts \<longleftrightarrow>
   distinct (map (\<lambda>t. py_casefold (et_name t)) ts) \<and>
   set names \<inter> set (map (\<lambda>t. py_casefold (et_name t)) ts) = {}"
  by (induction ts arbitrary: names) auto

definition settings_ok :: "settings_in \<Rightarrow> bool" where
  "settings_ok s =
     (list_all (\<lambda>(f, lo, hi, n). lo \<le> n \<and> n \<le> hi) (settings_ranges s) \<and>
      limits_ok repository_limit_path (si_mount_limits s) \<and>
      limits_ok external_limit_key (si_external_limits s) \<and>
      distinct (si_header_interfaces s) \<and> ''lo'' \<notin> set (si_header_interfaces s) \<and>
      int (length (si_header_interfaces s)) \<le> si_header_max_interfaces s \<and>
      distinct (map (\<lambda>t. py_casefold (et_name t)) (si_exclude_templates s)))"

text \<open>
  Accepted settings are within their bounds: every number lies in its declared range, each
  parallel limit is between 1 and 64 under one key that is a path below the repository root
  without parent segments (or an external key), the header interfaces are distinct, never the
  loopback and no more than the configured display limit, and no two exclude templates have the
  same name up to case.
\<close>

theorem accepted_settings_ok:
  assumes "validate_settings_in s = Inr t"
  shows "settings_ok t"
proof -
  from assms obtain mounts externals names templates where
    m: "safe_mount_parallel_limits [] (si_mount_limits s) = Inr mounts" and
    e: "safe_external_parallel_limits [] (si_external_limits s) = Inr externals" and
    n: "safe_header_interfaces (si_header_interfaces s) = Inr names" and
    u: "unique_template_names [] templates" and
    r: "check_ranges (settings_ranges s) = Inr ()" and
    l: "int (length names) \<le> si_header_max_interfaces s" and
    t: "t = s\<lparr>si_mount_limits := mounts, si_external_limits := externals,
              si_header_interfaces := names, si_exclude_templates := templates\<rparr>"
    unfolding validate_settings_in_def by (auto simp: try_bind_Inr_iff)
  have "settings_ranges t = settings_ranges s" by (simp add: t settings_ranges_def)
  then have "list_all (\<lambda>(f, lo, hi, n). lo \<le> n \<and> n \<le> hi) (settings_ranges t)"
    using r by (simp add: check_ranges_iff)
  moreover have "limits_ok repository_limit_path mounts" "limits_ok external_limit_key externals"
    using mount_limits_sound [OF m] external_limits_sound [OF e] by (simp_all add: limits_ok_def)
  ultimately show ?thesis
    using header_interfaces_sound [OF n] u l
    by (simp add: settings_ok_def t unique_templates_iff list_all_iff) blast
qed

definition demo_settings :: settings_in where
  "demo_settings = default_settings
     \<lparr>si_mount_limits := [('' /repositories/usb/ '', 2), (''/repositories'', 0)],
      si_external_limits := [(''external:nas:/data'', 3)],
      si_header_interfaces := [''eth0@if5'', ''eth0'', ''wlan0'']\<rparr>"

lemma accepted_settings_ok_witness:
  "validate_settings_in demo_settings = Inr (demo_settings
     \<lparr>si_mount_limits := [(''/repositories/usb'', 2)], si_header_interfaces := [''eth0'', ''wlan0'']\<rparr>) \<and>
   settings_ok (demo_settings
     \<lparr>si_mount_limits := [(''/repositories/usb'', 2)], si_header_interfaces := [''eth0'', ''wlan0'']\<rparr>)"
proof -
  have a: "validate_settings_in demo_settings = Inr (demo_settings
     \<lparr>si_mount_limits := [(''/repositories/usb'', 2)], si_header_interfaces := [''eth0'', ''wlan0'']\<rparr>)"
    by code_simp
  show ?thesis using a accepted_settings_ok [OF a] by simp
qed

end
