(* ===== verification/JobRequests.thy ===== *)
theory JobRequests
  imports Requests Schedules
begin

text \<open>
  The request models of \<open>src/app/schemas.py\<close> for backup jobs, schedules, restores, archives, accounts
  and backups of the manager itself, as in \<open>Requests\<close>. Values of a free dictionary are JSON.
\<close>

section \<open>Backup jobs\<close>

definition files_cache_modes :: "string list" where
  "files_cache_modes =
     [''ctime,size,inode'', ''mtime,size,inode'', ''ctime,size'', ''mtime,size'',
      ''rechunk,ctime'', ''rechunk,mtime'', ''disabled'']"

definition default_create_options :: "(string \<times> json) list" where
  "default_create_options =
     [(''one_file_system'', JBool True), (''exclude_caches'', JBool True),
      (''exclude_nodump'', JBool True), (''numeric_ids'', JBool False), (''list_files'', JBool True),
      (''files_cache'', JStr ''ctime,size,inode''), (''checkpoint_interval'', JInt 1800)]"

definition merge_options :: "(string \<times> json) list \<Rightarrow> (string \<times> json) list \<Rightarrow> (string \<times> json) list" where
  "merge_options base extra = fold (\<lambda>(k, v) d. dict_set k v d) extra base"

fun json_is_bool :: "json \<Rightarrow> bool" where
  "json_is_bool (JBool b) = True"
| "json_is_bool _ = False"

text \<open>Membership in the set of modes; a list or an object cannot be hashed.\<close>

fun check_files_cache :: "json \<Rightarrow> (request_error, unit) result" where
  "check_files_cache (JStr s) = guarded (s \<in> set files_cache_modes) ''unsupported Borg files-cache mode'' ()"
| "check_files_cache (JList _) = Inl Unhashable_value"
| "check_files_cache (JObj _) = Inl Unhashable_value"
| "check_files_cache _ = Inl (Value_error ''unsupported Borg files-cache mode'')"

definition option_value :: "(string \<times> json) list \<Rightarrow> string \<Rightarrow> json" where
  "option_value d k = (case map_of d k of None \<Rightarrow> JNull | Some v \<Rightarrow> v)"

fun check_booleans :: "(string \<times> json) list \<Rightarrow> string list \<Rightarrow> (request_error, unit) result" where
  "check_booleans d [] = Inr ()"
| "check_booleans d (k # ks) =
     (if json_is_bool (option_value d k) then check_booleans d ks
      else Inl (Value_error (k @ '' must be boolean'')))"

definition checkpoint_ok :: "json \<Rightarrow> bool" where
  "checkpoint_ok v = (case json_int v of None \<Rightarrow> False | Some n \<Rightarrow> 60 \<le> n \<and> n \<le> 86400)"

definition validate_create_options ::
    "(string \<times> json) list \<Rightarrow> (request_error, (string \<times> json) list) result" where
  "validate_create_options given =
     (let merged = merge_options default_create_options given;
          unknown = filter (\<lambda>k. k \<notin> set (map fst default_create_options)) (map fst merged) in
      if unknown \<noteq> []
      then Inl (Value_error (''unsupported create option: '' @ hd (sort unknown)))
      else try_bind (check_booleans merged
          [''one_file_system'', ''exclude_caches'', ''exclude_nodump'', ''numeric_ids'', ''list_files'']) (\<lambda>_.
        try_bind (check_files_cache (option_value merged ''files_cache'')) (\<lambda>_.
        guarded (checkpoint_ok (option_value merged ''checkpoint_interval''))
          ''checkpoint_interval must be between 60 and 86400 seconds'' merged)))"

record job_in =
  ji_name :: string
  ji_host_id :: int
  ji_repository_id :: int
  ji_source_paths :: "string list"
  ji_exclude_patterns :: "string list"
  ji_archive_template :: string
  ji_compression :: string
  ji_prune_options :: "(string \<times> int) list"
  ji_create_options :: "(string \<times> json) list"
  ji_manual_prune :: bool
  ji_manual_compact :: bool
  ji_enabled :: bool

definition valid_archive_template :: "string \<Rightarrow> (request_error, string) result" where
  "valid_archive_template value =
     (let v = py_strip value in
      if \<not> single_line v \<or> CHR ''/'' \<in> set v \<or> contains ''::'' v \<or> starts_with ''-'' v
      then Inl (Value_error ''archive template contains unsafe characters'')
      else guarded (contains ''{now'' v \<or> contains ''{utcnow'' v)
        ''archive template must contain {now...} or {utcnow...} to avoid collisions'' v)"

definition retention_keys :: "string list" where
  "retention_keys = [''last'', ''hourly'', ''daily'', ''weekly'', ''monthly'', ''yearly'']"

definition valid_prune_options :: "(string \<times> int) list \<Rightarrow> (request_error, (string \<times> int) list) result" where
  "valid_prune_options given =
     (if list_ex (\<lambda>(k, _). k \<notin> set retention_keys) given
      then Inl (Value_error ''unsupported prune retention key'')
      else guarded (list_all (\<lambda>(_, n). 0 \<le> n \<and> n \<le> 10000) given)
        ''prune retention values must be integers between 0 and 10000''
        (filter (\<lambda>(_, n). 0 < n) given))"

definition validate_job_in :: "job_in \<Rightarrow> (failure, job_in) result" where
  "validate_job_in j =
     try_bind (at_field ''name'' (try_bind (length_field 1 100 (ji_name j))
       (single_line_name ''invalid job name''))) (\<lambda>name.
     try_bind (at_field ''host_id'' (positive_field (ji_host_id j))) (\<lambda>_.
     try_bind (at_field ''repository_id'' (positive_field (ji_repository_id j))) (\<lambda>_.
     try_bind (at_field ''source_paths'' (if ji_source_paths j = [] then Inl Too_short
       else collect_unique absolute_source [] (ji_source_paths j))) (\<lambda>sources.
     try_bind (at_field ''exclude_patterns'' (collect_unique
       (exclude_pattern ''exclude patterns must be single-line values'') [] (ji_exclude_patterns j))) (\<lambda>excludes.
     try_bind (at_field ''archive_template'' (try_bind (length_field 1 200 (ji_archive_template j))
       valid_archive_template)) (\<lambda>template.
     try_bind (at_field ''compression'' (try_bind (length_field 0 100 (ji_compression j))
       validate_compression_spec)) (\<lambda>_.
     try_bind (at_field ''prune_options'' (valid_prune_options (ji_prune_options j))) (\<lambda>prune.
     try_bind (at_field ''create_options'' (validate_create_options (ji_create_options j))) (\<lambda>options.
     at_field []
       (if ji_manual_compact j \<and> \<not> ji_manual_prune j
        then Inl (Value_error ''manual compact requires manual prune'')
        else guarded (\<not> (ji_manual_prune j \<and> prune = []))
          ''manual prune requires at least one positive retention rule''
          (j\<lparr>ji_name := name, ji_source_paths := sources, ji_exclude_patterns := excludes,
             ji_archive_template := template, ji_prune_options := prune,
             ji_create_options := options\<rparr>)))))))))))"

section \<open>Schedules\<close>

record schedule_in =
  sn_name :: string
  sn_expressions :: string
  sn_target_mode :: string
  sn_target_host_ids :: "int list"
  sn_target_repository_id :: "int option"
  sn_target_job_ids :: "int list"
  sn_parallel_limit :: int
  sn_enabled :: bool

definition id_value :: "int \<Rightarrow> (request_error, int option) result" where
  "id_value n = guarded (0 < n) (''IDs m'' @ u_uml @ ''ssen positiv sein'') (Some n)"

definition normalize_ids :: "int list \<Rightarrow> (request_error, int list) result" where
  "normalize_ids given = try_bind (length_field 0 500 given) (collect_unique id_value [])"

text \<open>The texts of the errors of \<open>schedules.py\<close> are the parameter \<open>schedule_text\<close>.\<close>

definition normalize_expressions ::
    "(schedule_error \<Rightarrow> string) \<Rightarrow> (string \<Rightarrow> bool) \<Rightarrow> string \<Rightarrow> (request_error, string) result" where
  "normalize_expressions schedule_text cron_ok value =
     (case normalize_schedule cron_ok (Some value) of
        Inl e \<Rightarrow> Inl (Value_error (schedule_text e))
      | Inr v \<Rightarrow> Inr (or_empty v))"

definition validate_schedule_in ::
    "(schedule_error \<Rightarrow> string) \<Rightarrow> (string \<Rightarrow> bool) \<Rightarrow> schedule_in \<Rightarrow> (failure, schedule_in) result" where
  "validate_schedule_in schedule_text cron_ok s =
     try_bind (at_field ''name'' (try_bind (length_field 1 100 (sn_name s))
       (single_line_name (''Ung'' @ u_uml @ ''ltiger Zeitplanname'')))) (\<lambda>name.
     try_bind (at_field ''expressions'' (try_bind (length_field 1 2048 (sn_expressions s))
       (normalize_expressions schedule_text cron_ok))) (\<lambda>expressions.
     try_bind (at_field ''target_mode'' (choice_field [''hosts'', ''repository'', ''jobs'']
       (sn_target_mode s))) (\<lambda>mode.
     try_bind (at_field ''target_host_ids'' (normalize_ids (sn_target_host_ids s))) (\<lambda>hosts.
     try_bind (at_field ''target_repository_id'' (optional_field positive_field
       (sn_target_repository_id s))) (\<lambda>repository.
     try_bind (at_field ''target_job_ids'' (normalize_ids (sn_target_job_ids s))) (\<lambda>jobs.
     try_bind (at_field ''parallel_limit'' (range_field 0 64 (sn_parallel_limit s))) (\<lambda>_.
     at_field []
       (if mode = ''hosts'' \<and> hosts = []
        then Inl (Value_error (''Mindestens ein Ger'' @ a_uml @ ''t ausw'' @ a_uml @ ''hlen''))
        else if mode = ''repository'' \<and> repository = None
        then Inl (Value_error (''Repository ausw'' @ a_uml @ ''hlen''))
        else guarded (\<not> (mode = ''jobs'' \<and> jobs = []))
          (''Mindestens einen Backup-Job ausw'' @ a_uml @ ''hlen'')
          (s\<lparr>sn_name := name, sn_expressions := expressions, sn_target_host_ids := hosts,
             sn_target_job_ids := jobs\<rparr>)))))))))"

section \<open>Restores and archives\<close>

record restore_in =
  rs_archive :: string
  rs_paths :: "string list"
  rs_mode :: string
  rs_target_directory :: "string option"
  rs_target_layout :: string
  rs_dry_run :: bool
  rs_overwrite_existing :: bool
  rs_allow_legacy_archive :: bool

definition valid_destination :: "restore_in \<Rightarrow> (request_error, restore_in) result" where
  "valid_destination r =
     (if rs_mode r = ''original'' then
        (if rs_paths r = []
         then Inl (Value_error ''restoring to original locations requires at least one selected file or directory'')
         else guarded (\<not> (\<not> rs_dry_run r \<and> \<not> rs_overwrite_existing r))
           ''in-place restore requires explicit overwrite confirmation'' (r\<lparr>rs_target_directory := None\<rparr>))
      else (let target = py_strip (or_empty (rs_target_directory r)) in
        if target = []
        then Inl (Value_error ''target directory is required for an alternative restore destination'')
        else guarded (\<not> (\<not> starts_with ''/'' target \<or> has_parent_part target \<or> \<not> single_line target))
          ''restore target must be a safe absolute path''
          (r\<lparr>rs_target_directory := Some target, rs_overwrite_existing := False\<rparr>)))"

definition validate_restore_in :: "restore_in \<Rightarrow> (failure, restore_in) result" where
  "validate_restore_in r =
     try_bind (at_field ''archive'' (length_field 1 300 (rs_archive r))) (\<lambda>_.
     try_bind (at_field ''paths'' (collect_all (selected_path ''restore'') (rs_paths r))) (\<lambda>paths.
     try_bind (at_field ''restore_mode'' (choice_field [''original'', ''target''] (rs_mode r))) (\<lambda>_.
     try_bind (at_field ''target_directory'' (optional_field (length_field 0 500) (rs_target_directory r))) (\<lambda>_.
     try_bind (at_field ''target_layout'' (choice_field [''selection-root'', ''archive-paths'']
       (rs_target_layout r))) (\<lambda>_.
     at_field [] (valid_destination (r\<lparr>rs_paths := paths\<rparr>)))))))"

definition archive_field :: "string \<Rightarrow> (request_error, string) result" where
  "archive_field value = try_bind (length_field 1 300 value) valid_archive"

record archive_export_in =
  ae_archive :: string
  ae_paths :: "string list"

definition validate_archive_export_in :: "archive_export_in \<Rightarrow> (failure, archive_export_in) result" where
  "validate_archive_export_in r =
     try_bind (at_field ''archive'' (archive_field (ae_archive r))) (\<lambda>archive.
     try_bind (at_field ''paths'' (try_bind (length_field 1 5000 (ae_paths r)) (\<lambda>given.
       try_bind (collect_all (selected_path ''export'') given) (\<lambda>paths.
         guarded (paths \<noteq> []) ''at least one archive path must be selected'' paths)))) (\<lambda>paths.
     Inr \<lparr>ae_archive = archive, ae_paths = paths\<rparr>))"

record archive_delete_in =
  ad_archive :: string
  ad_compact_after :: bool

definition validate_archive_delete_in :: "archive_delete_in \<Rightarrow> (failure, archive_delete_in) result" where
  "validate_archive_delete_in r =
     try_bind (at_field ''archive'' (archive_field (ad_archive r))) (\<lambda>archive.
     Inr (r\<lparr>ad_archive := archive\<rparr>))"

record archive_bulk_delete_in =
  ab_archives :: "string list"
  ab_compact_after :: bool

definition validate_archive_bulk_delete_in ::
    "archive_bulk_delete_in \<Rightarrow> (failure, archive_bulk_delete_in) result" where
  "validate_archive_bulk_delete_in r =
     try_bind (at_field ''archives'' (try_bind (length_field 1 200 (ab_archives r)) (\<lambda>given.
       try_bind (collect_all valid_archive given) (\<lambda>archives.
         guarded (distinct archives) ''archive names must be unique'' archives)))) (\<lambda>archives.
     Inr (r\<lparr>ab_archives := archives\<rparr>))"

definition validate_archive_mount_in :: "string \<Rightarrow> (failure, string) result" where
  "validate_archive_mount_in archive = at_field ''archive'' (archive_field archive)"

record archive_rename_in =
  ar_archive :: string
  ar_new_name :: string

definition validate_archive_rename_in :: "archive_rename_in \<Rightarrow> (failure, archive_rename_in) result" where
  "validate_archive_rename_in r =
     try_bind (at_field ''archive'' (archive_field (ar_archive r))) (\<lambda>archive.
     try_bind (at_field ''new_name'' (archive_field (ar_new_name r))) (\<lambda>new_name.
     at_field [] (guarded (archive \<noteq> new_name) ''new archive name must differ from the current name''
       \<lparr>ar_archive = archive, ar_new_name = new_name\<rparr>)))"

record archive_diff_in =
  af_archive :: string
  af_second_archive :: string
  af_paths :: "string list"
  af_content_only :: bool

definition validate_archive_diff_in :: "archive_diff_in \<Rightarrow> (failure, archive_diff_in) result" where
  "validate_archive_diff_in r =
     try_bind (at_field ''archive'' (archive_field (af_archive r))) (\<lambda>archive.
     try_bind (at_field ''second_archive'' (archive_field (af_second_archive r))) (\<lambda>second.
     try_bind (at_field ''paths'' (collect_all diff_path (af_paths r))) (\<lambda>paths.
     at_field [] (guarded (archive \<noteq> second) ''two different archives are required''
       (r\<lparr>af_archive := archive, af_second_archive := second, af_paths := paths\<rparr>)))))"

section \<open>What accepted requests promise\<close>

lemma selected_path_Inr:
  assumes "selected_path kind raw = Inr p"
  shows "p \<noteq> [] \<and> \<not> starts_with ''-'' p \<and> \<not> starts_with ''/'' p \<and> \<not> has_parent_part p \<and> single_line p"
proof -
  define v where "v = strip_by (\<lambda>c. c = CHR ''/'') (py_strip raw)"
  have p: "p = v" "v \<noteq> []" "\<not> starts_with ''-'' v" "\<not> has_parent_part v" "single_line v"
    using assms by (auto simp: selected_path_def Let_def v_def)
  have "hd v \<noteq> CHR ''/''" using p(2) strip_by_ends(1) unfolding v_def by fastforce
  with p show ?thesis by (auto simp: starts_with_slash)
qed

definition restore_request_safe :: "restore_in \<Rightarrow> bool" where
  "restore_request_safe s =
     (if rs_mode s = ''original''
      then rs_target_directory s = None \<and> rs_paths s \<noteq> [] \<and> (rs_dry_run s \<or> rs_overwrite_existing s)
      else (case rs_target_directory s of None \<Rightarrow> False
        | Some t \<Rightarrow> starts_with ''/'' t \<and> \<not> has_parent_part t \<and> single_line t \<and>
                   \<not> rs_overwrite_existing s))"

text \<open>
  An accepted restore stays where the user asked for it. Below any directory \<open>t\<close>, following a
  selected path appends its parts to \<open>t\<close>; a selected path is not empty, not absolute and cannot be
  taken for an option. In place nothing is written without the explicit confirmation and a
  selection; otherwise the target is one absolute directory without parent segments and
  overwriting is off.
\<close>

theorem restore_request_contained:
  assumes "validate_restore_in r = Inr s"
  shows "restore_request_safe s \<and>
    (\<forall>p\<in>set (rs_paths s). \<forall>t. p \<noteq> [] \<and> \<not> starts_with ''-'' p \<and> \<not> starts_with ''/'' p \<and>
       follow_parents (path_of_string (t @ CHR ''/'' # p)) =
       follow_parents (path_of_string t) @ path_of_string p)"
proof -
  from assms obtain paths where
    p: "collect_all (selected_path ''restore'') (rs_paths r) = Inr paths" and
    v: "valid_destination (r\<lparr>rs_paths := paths\<rparr>) = Inr s"
    unfolding validate_restore_in_def by (auto simp: try_bind_Inr_iff)
  have same: "rs_paths s = paths" and mode: "rs_mode s = rs_mode r" and safe: "restore_request_safe s"
    using v by (auto simp: valid_destination_def restore_request_safe_def Let_def split: if_splits)
  have "q \<noteq> [] \<and> \<not> starts_with ''-'' q \<and> \<not> starts_with ''/'' q \<and> \<not> has_parent_part q"
    if "q \<in> set paths" for q
    using collect_all_sound [OF p that] selected_path_Inr by blast
  then show ?thesis using safe by (auto simp: same follow_parents_within)
qed

definition demo_restore :: restore_in where
  "demo_restore =
     \<lparr>rs_archive = ''web-1'', rs_paths = ['' /srv/www/ ''], rs_mode = ''target'',
      rs_target_directory = Some ''/restore/web '', rs_target_layout = ''archive-paths'',
      rs_dry_run = False, rs_overwrite_existing = True, rs_allow_legacy_archive = False\<rparr>"

lemma restore_request_contained_witness:
  "restore_request_safe (demo_restore\<lparr>rs_paths := [''srv/www''],
     rs_target_directory := Some ''/restore/web'', rs_overwrite_existing := False\<rparr>) \<and>
   follow_parents (path_of_string ''/restore/web/srv/www'') = [''restore'', ''web'', ''srv'', ''www'']"
proof -
  have "validate_restore_in demo_restore = Inr (demo_restore\<lparr>rs_paths := [''srv/www''],
      rs_target_directory := Some ''/restore/web'', rs_overwrite_existing := False\<rparr>)"
    by code_simp
  note c = restore_request_contained [OF this]
  have "follow_parents (path_of_string (''/restore/web'' @ CHR ''/'' # ''srv/www'')) =
      follow_parents (path_of_string ''/restore/web'') @ path_of_string ''srv/www''"
    using bspec [OF conjunct2 [OF c], of "''srv/www''"] by (simp del: append.simps)
  moreover have "follow_parents (path_of_string ''/restore/web'') @ path_of_string ''srv/www'' =
      [''restore'', ''web'', ''srv'', ''www'']" by code_simp
  ultimately show ?thesis using c by simp
qed

end
