(* ===== verification/AccountRequests.thy ===== *)
theory AccountRequests
  imports Requests
begin

text \<open>
  The remaining request models of \<open>src/app/schemas.py\<close>: sign-in, passwords and accounts, and the
  backups, restores and cleanups of the manager and of the Borg caches. Validation as in
  \<open>Requests\<close>. Host ids arrive as integers.
\<close>

section \<open>Sign-in and accounts\<close>

record login_in =
  lg_username :: string
  lg_password :: string
  lg_second_factor :: "string option"

definition valid_second_factor :: "string \<Rightarrow> (request_error, string) result" where
  "valid_second_factor value =
     (let v = py_strip value in
      guarded (v \<noteq> [] \<and> length v \<le> 64 \<and> single_line v) ''invalid second factor'' v)"

definition validate_login_in :: "login_in \<Rightarrow> (failure, login_in) result" where
  "validate_login_in r =
     try_bind (at_field ''username'' (length_field 1 64 (lg_username r))) (\<lambda>_.
     try_bind (at_field ''second_factor'' (optional_field valid_second_factor (lg_second_factor r))) (\<lambda>factor.
     Inr (r\<lparr>lg_second_factor := factor\<rparr>)))"

definition passwords_match :: "string \<Rightarrow> string \<Rightarrow> string \<Rightarrow> 'a \<Rightarrow> (failure, 'a) result" where
  "passwords_match message password confirm a = at_field [] (guarded (password = confirm) message a)"

record password_change_in =
  pc_current_password :: string
  pc_new_password :: string
  pc_new_password_confirm :: string

definition validate_password_change_in :: "password_change_in \<Rightarrow> (failure, password_change_in) result" where
  "validate_password_change_in r =
     passwords_match (''Neue Passw'' @ o_uml @ ''rter stimmen nicht '' @ u_uml @ ''berein'')
       (pc_new_password r) (pc_new_password_confirm r) r"

record user_create_in =
  uc_username :: string
  uc_password :: string
  uc_password_confirm :: string
  uc_role :: string
  uc_must_change_password :: bool

definition mismatch_message :: string where
  "mismatch_message = ''Passw'' @ o_uml @ ''rter stimmen nicht '' @ u_uml @ ''berein''"

definition validate_user_create_in :: "user_create_in \<Rightarrow> (failure, user_create_in) result" where
  "validate_user_create_in r =
     try_bind (at_field ''username'' (length_field 3 64 (uc_username r))) (\<lambda>_.
     try_bind (at_field ''role'' (choice_field [''admin'', ''user''] (uc_role r))) (\<lambda>_.
     passwords_match mismatch_message (uc_password r) (uc_password_confirm r) r))"

record user_update_in =
  uu_username :: string
  uu_role :: string
  uu_enabled :: bool

definition validate_user_update_in :: "user_update_in \<Rightarrow> (failure, user_update_in) result" where
  "validate_user_update_in r =
     try_bind (at_field ''username'' (length_field 3 64 (uu_username r))) (\<lambda>_.
     try_bind (at_field ''role'' (choice_field [''admin'', ''user''] (uu_role r))) (\<lambda>_. Inr r))"

record user_password_reset_in =
  ur_password :: string
  ur_password_confirm :: string
  ur_must_change_password :: bool

definition validate_user_password_reset_in :: "user_password_reset_in \<Rightarrow> (failure, user_password_reset_in) result" where
  "validate_user_password_reset_in r =
     passwords_match mismatch_message (ur_password r) (ur_password_confirm r) r"

definition confirmed :: "string \<Rightarrow> bool \<Rightarrow> 'a \<Rightarrow> (failure, 'a) result" where
  "confirmed message ok a = at_field [] (guarded ok message a)"

record database_cleanup_in =
  dc_confirm :: bool
  dc_create_safety_copy :: bool
  dc_vacuum :: bool

definition validate_database_cleanup_in :: "database_cleanup_in \<Rightarrow> (failure, database_cleanup_in) result" where
  "validate_database_cleanup_in r =
     confirmed ''database cleanup requires explicit confirmation'' (dc_confirm r) r"

definition rotate_confirmation :: string where
  "rotate_confirmation = ''CONTROLLER-SCHL'' @ [CHR 0xDC] @ ''SSEL ERNEUERN''"

definition validate_controller_key_rotate_in :: "string \<Rightarrow> (failure, string) result" where
  "validate_controller_key_rotate_in confirmation =
     try_bind (at_field ''confirmation'' (length_field 1 80 confirmation)) (\<lambda>_.
     confirmed (''Zur Best'' @ a_uml @ ''tigung exakt '' @ rotate_confirmation @ '' eingeben'')
       (py_strip confirmation = rotate_confirmation) confirmation)"

section \<open>Backups of the manager and of the caches\<close>

definition backup_compressions :: "string list" where
  "backup_compressions = [''none'', ''fast'', ''standard'', ''maximum'']"

definition backup_compression :: "string \<Rightarrow> string \<Rightarrow> (request_error, string) result" where
  "backup_compression message value =
     (let v = py_lower (py_strip value) in guarded (v \<in> set backup_compressions) message v)"

definition safe_label :: "string \<Rightarrow> (request_error, string) result" where
  "safe_label value = (let v = py_strip value in guarded (single_line v) ''backup label must be single-line'' v)"

text \<open>The checks of an encrypted backup; \<open>prefix\<close> is empty or names the cache.\<close>

definition encryption_checks ::
    "string \<Rightarrow> string \<Rightarrow> string option \<Rightarrow> string option \<Rightarrow> 'a \<Rightarrow> (request_error, 'a) result" where
  "encryption_checks kind cache passphrase confirmation a =
     (case nonempty_secret passphrase of
        None \<Rightarrow> Inl (Value_error (''encrypted '' @ kind @ '' require a passphrase with at least 12 characters''))
      | Some secret \<Rightarrow>
          if length secret < 12
          then Inl (Value_error (''encrypted '' @ kind @ '' require a passphrase with at least 12 characters''))
          else if Some secret \<noteq> nonempty_secret confirmation
          then Inl (Value_error (cache @ ''backup passphrase confirmation does not match''))
          else guarded (single_line secret) ''backup passphrase must be single-line'' a)"

record manager_backup_in =
  mb_label :: string
  mb_encrypted :: bool
  mb_compression :: string
  mb_passphrase :: "string option"
  mb_passphrase_confirm :: "string option"

definition validate_manager_backup_in :: "manager_backup_in \<Rightarrow> (failure, manager_backup_in) result" where
  "validate_manager_backup_in r =
     try_bind (at_field ''label'' (try_bind (length_field 0 48 (mb_label r)) safe_label)) (\<lambda>label.
     try_bind (at_field ''compression'' (backup_compression ''unsupported manager backup compression''
       (mb_compression r))) (\<lambda>compression.
     at_field []
       (if \<not> mb_encrypted r then Inl (Value_error ''new manager backups must be encrypted'')
        else encryption_checks ''backups'' [] (mb_passphrase r) (mb_passphrase_confirm r)
          (r\<lparr>mb_label := label, mb_compression := compression\<rparr>))))"

record cache_backup_in =
  cb_label :: string
  cb_encrypted :: bool
  cb_include_manager :: bool
  cb_include_client :: bool
  cb_client_scope :: string
  cb_client_host_ids :: "int list option"
  cb_compression :: string
  cb_passphrase :: "string option"
  cb_passphrase_confirm :: "string option"

text \<open>\<open>sorted(set(\<dots>))\<close> of the selected hosts; without a selection the ids are dropped.\<close>

definition selected_hosts :: "cache_backup_in \<Rightarrow> (request_error, int list option) result" where
  "selected_hosts r =
     (if cb_include_client r \<and> cb_client_scope r = ''selected'' then
        (case cb_client_host_ids r of
           None \<Rightarrow> Inl (Value_error ''selected client cache backup requires at least one device'')
         | Some ids \<Rightarrow>
             if ids = [] then Inl (Value_error ''selected client cache backup requires at least one device'')
             else guarded (list_all (\<lambda>i. 0 < i) ids) ''client host ids must be positive integers''
               (Some (sort (remdups ids))))
      else Inr None)"

definition validate_cache_backup_in :: "cache_backup_in \<Rightarrow> (failure, cache_backup_in) result" where
  "validate_cache_backup_in r =
     try_bind (at_field ''label'' (try_bind (length_field 0 48 (cb_label r)) safe_label)) (\<lambda>label.
     try_bind (at_field ''client_host_ids'' (optional_field (length_field 0 500) (cb_client_host_ids r))) (\<lambda>_.
     try_bind (at_field ''compression'' (backup_compression ''unsupported cache backup compression''
       (cb_compression r))) (\<lambda>compression.
     at_field []
       (if \<not> (cb_include_manager r \<or> cb_include_client r)
        then Inl (Value_error ''cache backup requires manager cache or client caches'')
        else if cb_client_scope r \<notin> {''all'', ''selected''}
        then Inl (Value_error ''client scope must be all or selected'')
        else try_bind (selected_hosts r) (\<lambda>ids.
          let accepted = r\<lparr>cb_label := label, cb_compression := compression, cb_client_host_ids := ids\<rparr> in
          if cb_encrypted r
          then encryption_checks ''cache backups'' ''cache '' (cb_passphrase r) (cb_passphrase_confirm r) accepted
          else guarded (nonempty_secret (cb_passphrase r) = None \<and> nonempty_secret (cb_passphrase_confirm r) = None)
            ''backup passphrase is only valid when encryption is enabled'' accepted)))))"

definition validate_manager_cache_cleanup_in :: "string list option \<Rightarrow> bool \<Rightarrow> (failure, unit) result" where
  "validate_manager_cache_cleanup_in entries confirm =
     try_bind (at_field ''entries'' (optional_field (length_field 0 2000) entries)) (\<lambda>_.
     at_field []
       (if \<not> confirm then Inl (Value_error ''cache cleanup requires explicit confirmation'')
        else guarded (entries \<noteq> Some []) ''cache cleanup requires at least one selected entry'' ()))"

definition validate_client_cache_scan_in :: "int list option \<Rightarrow> (failure, int list option) result" where
  "validate_client_cache_scan_in ids =
     try_bind (at_field ''host_ids'' (optional_field (length_field 0 500) ids)) (\<lambda>_.
     at_field []
       (case ids of
          None \<Rightarrow> Inr None
        | Some hosts \<Rightarrow>
            if hosts = [] then Inl (Value_error ''at least one host must be selected'')
            else guarded (list_all (\<lambda>i. 0 < i) hosts) ''host ids must be positive integers''
              (Some (sort (remdups hosts)))))"

record cache_cleanup_target =
  ct_host_id :: int
  ct_name :: string
  ct_path :: "string option"

definition cleanup_kinds :: "string list" where
  "cleanup_kinds = [''orphan'', ''rollback'', ''security'', ''security_orphan'', ''user_cache'', ''reset'']"

definition validate_cleanup_target :: "cache_cleanup_target \<Rightarrow> (failure, cache_cleanup_target) result" where
  "validate_cleanup_target t =
     try_bind (at_field ''host_id'' (positive_field (ct_host_id t))) (\<lambda>_.
     try_bind (at_field ''name'' (length_field 1 220 (ct_name t))) (\<lambda>_.
     try_bind (at_field ''path'' (optional_field (length_field 0 4096) (ct_path t))) (\<lambda>_. Inr t)))"

fun validate_cleanup_targets :: "cache_cleanup_target list \<Rightarrow> (failure, unit) result" where
  "validate_cleanup_targets [] = Inr ()"
| "validate_cleanup_targets (t # ts) =
     try_bind (validate_cleanup_target t) (\<lambda>_. validate_cleanup_targets ts)"

definition validate_client_cache_cleanup_in ::
    "string \<Rightarrow> cache_cleanup_target list \<Rightarrow> bool \<Rightarrow> (failure, unit) result" where
  "validate_client_cache_cleanup_in kind entries confirm =
     try_bind (at_field ''entries'' (length_field 1 1000 entries)) (\<lambda>_.
     try_bind (validate_cleanup_targets entries) (\<lambda>_.
     at_field []
       (if kind \<notin> set cleanup_kinds
        then Inl (Value_error (''client cache cleanup kind must be orphan, rollback, security, '' @
               ''security_orphan, user_cache or reset''))
        else guarded confirm ''client cache cleanup requires explicit confirmation'' ())))"

definition validate_cache_inspect_in :: "string option \<Rightarrow> (failure, unit) result" where
  "validate_cache_inspect_in passphrase =
     at_field [] (guarded (secret_ok (nonempty_secret passphrase))
       ''backup passphrase must be a non-empty single-line value'' ())"

text \<open>The inherited model validator runs before the one of the subclass.\<close>

definition validate_manager_cache_restore_in :: "string option \<Rightarrow> bool \<Rightarrow> (failure, unit) result" where
  "validate_manager_cache_restore_in passphrase confirm =
     try_bind (validate_cache_inspect_in passphrase) (\<lambda>_.
     confirmed ''manager cache restore requires explicit confirmation'' confirm ())"

definition validate_client_cache_restore_in ::
    "string option \<Rightarrow> int option \<Rightarrow> bool \<Rightarrow> (failure, unit) result" where
  "validate_client_cache_restore_in passphrase target confirm =
     try_bind (at_field ''target_host_id'' (optional_field positive_field target)) (\<lambda>_.
     try_bind (validate_cache_inspect_in passphrase) (\<lambda>_.
     confirmed ''client cache restore requires explicit confirmation'' confirm ()))"

definition validate_manager_restore_in :: "string \<Rightarrow> bool \<Rightarrow> (failure, unit) result" where
  "validate_manager_restore_in passphrase confirm = at_field []
     (if \<not> confirm then Inl (Value_error ''restore requires explicit confirmation'')
      else guarded (12 \<le> length passphrase \<and> single_line passphrase)
        ''backup passphrase must contain at least 12 single-line characters'' ())"

section \<open>Encrypted backups can be restored\<close>

lemma encryption_checks_Inr:
  "encryption_checks kind cache p c a = Inr b \<Longrightarrow>
   b = a \<and> (\<exists>s. p = Some s \<and> c = Some s \<and> 12 \<le> length s \<and> single_line s)"
  by (cases p; cases c) (auto simp: encryption_checks_def nonempty_secret_def split: if_splits)

text \<open>
  A backup of the manager that is accepted is encrypted under a confirmed passphrase that the
  restore request accepts: no manager backup can be created with a passphrase its own restore
  would refuse.
\<close>

theorem manager_backup_restorable:
  assumes "validate_manager_backup_in r = Inr s"
  shows "mb_encrypted s \<and> (\<exists>p. mb_passphrase s = Some p \<and> mb_passphrase_confirm s = Some p \<and>
           validate_manager_restore_in p True = Inr ())"
proof -
  from assms obtain label compression where enc: "mb_encrypted r" and
    c: "encryption_checks ''backups'' [] (mb_passphrase r) (mb_passphrase_confirm r)
          (r\<lparr>mb_label := label, mb_compression := compression\<rparr>) = Inr s"
    unfolding validate_manager_backup_in_def by (auto simp: try_bind_Inr_iff split: if_splits)
  from encryption_checks_Inr [OF c] enc show ?thesis
    by (auto simp: validate_manager_restore_in_def)
qed

definition demo_backup :: manager_backup_in where
  "demo_backup =
     \<lparr>mb_label = '' weekly '', mb_encrypted = True, mb_compression = ''FAST'',
      mb_passphrase = Some ''correct horse battery'', mb_passphrase_confirm = Some ''correct horse battery''\<rparr>"

lemma manager_backup_restorable_witness:
  "validate_manager_restore_in ''correct horse battery'' True = Inr ()"
proof -
  have "validate_manager_backup_in demo_backup =
      Inr (demo_backup\<lparr>mb_label := ''weekly'', mb_compression := ''fast''\<rparr>)"
    by code_simp
  from manager_backup_restorable [OF this] show ?thesis by (simp add: demo_backup_def)
qed

end
