(* ===== verification/LoginGuard.thy ===== *)
theory LoginGuard
  imports Model
begin

text \<open>
  The login rate limiter of \<open>src/app/security_store.py\<close>: one bucket for the source address and one
  for the pair of address and user name. \<open>digest\<close> stands for the SHA-256 of the pair. A function
  works in one immediate transaction, so it is one step here. Stored times always parse, as only
  these functions write them.
\<close>

section \<open>Buckets\<close>

record bucket =
  bk_window_started :: time
  bk_attempts :: int
  bk_blocked_until :: "time option"
  bk_updated :: time

type_synonym buckets = "(string \<times> bucket) list"

text \<open>The four constants of \<open>config.py\<close>; the two intervals are seconds.\<close>

record rate_config =
  rc_window :: int
  rc_block :: int
  rc_max_ip :: int
  rc_max_pair :: int

definition source_address :: "string option \<Rightarrow> string" where
  "source_address remote =
     take 128 (py_lower (py_strip (if truthy remote then or_empty remote else ''unknown'')))"

definition ip_key :: "string option \<Rightarrow> string" where
  "ip_key remote = ''ip:'' @ source_address remote"

definition pair_key :: "(string \<Rightarrow> string) \<Rightarrow> string \<Rightarrow> string option \<Rightarrow> string" where
  "pair_key digest username remote =
     ''pair:'' @ digest (source_address remote @ [CHR 0x00] @ take 128 (py_casefold (py_strip username)))"

definition rate_bucket_keys ::
    "(string \<Rightarrow> string) \<Rightarrow> rate_config \<Rightarrow> string \<Rightarrow> string option \<Rightarrow> (string \<times> int) list" where
  "rate_bucket_keys digest cfg username remote =
     [(ip_key remote, rc_max_ip cfg), (pair_key digest username remote, rc_max_pair cfg)]"

text \<open>An attempt that is not blocked: start a new window when the old one is over, then count.\<close>

definition reserve_attempt :: "rate_config \<Rightarrow> time \<Rightarrow> string \<Rightarrow> int \<Rightarrow> time \<Rightarrow> int \<Rightarrow> buckets \<Rightarrow> buckets \<times> int" where
  "reserve_attempt cfg now key limit started attempts table =
     (let over = seconds (rc_window cfg) \<le> now - started;
          started' = (if over then now else started); attempts' = (if over then 0 else attempts) in
      if limit \<le> attempts'
      then (dict_set key \<lparr>bk_window_started = started', bk_attempts = attempts',
              bk_blocked_until = Some (now + seconds (rc_block cfg)), bk_updated = now\<rparr> table, rc_block cfg)
      else (dict_set key \<lparr>bk_window_started = started', bk_attempts = attempts' + 1,
              bk_blocked_until = None, bk_updated = now\<rparr> table, 0))"

text \<open>One bucket of the loop: the new table and the seconds to wait it asks for, 0 for none.\<close>

definition consume_bucket :: "rate_config \<Rightarrow> time \<Rightarrow> string \<Rightarrow> int \<Rightarrow> buckets \<Rightarrow> buckets \<times> int" where
  "consume_bucket cfg now key limit table =
     (case map_of table key of
        None \<Rightarrow> reserve_attempt cfg now key limit now 0 table
      | Some b \<Rightarrow>
          (case bk_blocked_until b of
             None \<Rightarrow> reserve_attempt cfg now key limit (bk_window_started b) (bk_attempts b) table
           | Some until \<Rightarrow>
               if now < until then (table, max 1 ((until - now) div 1000000))
               else reserve_attempt cfg now key limit (bk_window_started b) (bk_attempts b) table))"

definition cleanup_login_rate_limits :: "rate_config \<Rightarrow> time \<Rightarrow> buckets \<Rightarrow> buckets" where
  "cleanup_login_rate_limits cfg now table =
     filter (\<lambda>(_, b). now - seconds (max (rc_window cfg) (rc_block cfg) * 2) \<le> bk_updated b) table"

definition consume_login_attempt ::
    "(string \<Rightarrow> string) \<Rightarrow> rate_config \<Rightarrow> string \<Rightarrow> string option \<Rightarrow> time \<Rightarrow> buckets \<Rightarrow> buckets \<times> bool \<times> int" where
  "consume_login_attempt digest cfg username remote now table =
     (let (t1, wait1) = consume_bucket cfg now (ip_key remote) (rc_max_ip cfg) table;
          (t2, wait2) = consume_bucket cfg now (pair_key digest username remote) (rc_max_pair cfg) t1;
          retry_after = max (max 0 wait1) wait2 in
      (cleanup_login_rate_limits cfg now t2, retry_after = 0, retry_after))"

definition reset_login_rate_limit ::
    "(string \<Rightarrow> string) \<Rightarrow> string \<Rightarrow> string option \<Rightarrow> buckets \<Rightarrow> buckets" where
  "reset_login_rate_limit digest username remote table = dict_pop (pair_key digest username remote) table"

section \<open>The budget of a source address\<close>

text \<open>
  A history of the limiter: attempts at some time and the clearing of a pair after a valid login.
  Its trace has the source and the decision of every attempt.
\<close>

datatype login_event = Attempt string "string option" time | Cleared string "string option"

fun login_trace ::
    "(string \<Rightarrow> string) \<Rightarrow> rate_config \<Rightarrow> buckets \<Rightarrow> login_event list \<Rightarrow> (string \<times> bool) list" where
  "login_trace digest cfg table [] = []"
| "login_trace digest cfg table (Attempt username remote now # es) =
     (case consume_login_attempt digest cfg username remote now table of
        (table', allowed, _) \<Rightarrow> (source_address remote, allowed) # login_trace digest cfg table' es)"
| "login_trace digest cfg table (Cleared username remote # es) =
     login_trace digest cfg (reset_login_rate_limit digest username remote table) es"

fun event_time :: "login_event \<Rightarrow> time option" where
  "event_time (Attempt _ _ now) = Some now"
| "event_time (Cleared _ _) = None"

definition within_window :: "rate_config \<Rightarrow> time \<Rightarrow> login_event list \<Rightarrow> bool" where
  "within_window cfg t0 es =
     list_all (\<lambda>e. case event_time e of None \<Rightarrow> True | Some t \<Rightarrow> t0 \<le> t \<and> t < t0 + seconds (rc_window cfg)) es"

definition budget_inv :: "rate_config \<Rightarrow> time \<Rightarrow> string \<Rightarrow> buckets \<Rightarrow> int \<Rightarrow> bool" where
  "budget_inv cfg t0 address table n =
     (0 \<le> n \<and> (case map_of table (''ip:'' @ address) of
        None \<Rightarrow> n = 0
      | Some b \<Rightarrow> t0 \<le> bk_window_started b \<and> bk_window_started b < t0 + seconds (rc_window cfg) \<and>
          t0 \<le> bk_updated b \<and> n \<le> bk_attempts b \<and> bk_attempts b \<le> rc_max_ip cfg))"

lemma ip_pair_differ: "''ip:'' @ a \<noteq> pair_key digest u r"
  by (simp add: pair_key_def)

lemma ip_key_eq: "ip_key r = ''ip:'' @ a \<longleftrightarrow> source_address r = a"
  by (simp add: ip_key_def)

lemma consume_bucket_other:
  "k \<noteq> key \<Longrightarrow> map_of (fst (consume_bucket cfg now key limit table)) k = map_of table k"
  by (simp add: consume_bucket_def reserve_attempt_def Let_def split: option.splits)

text \<open>The bucket of the address when an attempt from it is counted.\<close>

lemma consume_bucket_counts:
  assumes inv: "budget_inv cfg t0 a table n" and now: "t0 \<le> now" "now < t0 + seconds (rc_window cfg)"
    and block: "1 \<le> rc_block cfg" and max_ip: "0 \<le> rc_max_ip cfg"
    and c: "consume_bucket cfg now (''ip:'' @ a) (rc_max_ip cfg) table = (table', wait)"
  shows "budget_inv cfg t0 a table' (if wait = 0 then n + 1 else n) \<and> 0 \<le> wait"
proof -
  have reserve: "budget_inv cfg t0 a table' (if wait = 0 then n + 1 else n) \<and> 0 \<le> wait"
    if r: "reserve_attempt cfg now (''ip:'' @ a) (rc_max_ip cfg) started attempts table = (table', wait)"
      and s: "t0 \<le> started" "started < t0 + seconds (rc_window cfg)" and at: "n \<le> attempts"
      and le: "attempts \<le> rc_max_ip cfg"
    for started attempts
  proof -
    have "\<not> seconds (rc_window cfg) \<le> now - started" using now s by simp
    moreover have "0 \<le> n" using inv by (simp add: budget_inv_def)
    ultimately show ?thesis using r s at le now block
      by (auto simp: reserve_attempt_def Let_def budget_inv_def split: if_splits)
  qed
  show ?thesis
  proof (cases "map_of table (''ip:'' @ a)")
    case None
    with inv have "n = 0" by (simp add: budget_inv_def)
    with None c now max_ip show ?thesis by (intro reserve [of now 0]) (auto simp: consume_bucket_def)
  next
    case (Some b)
    with inv have b: "t0 \<le> bk_window_started b" "bk_window_started b < t0 + seconds (rc_window cfg)"
      "n \<le> bk_attempts b" "bk_attempts b \<le> rc_max_ip cfg"
      by (simp_all add: budget_inv_def)
    show ?thesis
    proof (cases "\<exists>until. bk_blocked_until b = Some until \<and> now < until")
      case True
      then have "table' = table" "1 \<le> wait" using c Some by (auto simp: consume_bucket_def)
      then show ?thesis using inv by simp
    next
      case False
      then have "reserve_attempt cfg now (''ip:'' @ a) (rc_max_ip cfg) (bk_window_started b)
          (bk_attempts b) table = (table', wait)"
        using c Some by (auto simp: consume_bucket_def split: option.splits)
      then show ?thesis using b by (rule reserve)
    qed
  qed
qed

lemma budget_inv_cong:
  "map_of table' (''ip:'' @ a) = map_of table (''ip:'' @ a) \<Longrightarrow>
   budget_inv cfg t0 a table' n = budget_inv cfg t0 a table n"
  by (simp add: budget_inv_def)

lemma budget_inv_le: "budget_inv cfg t0 a table n \<Longrightarrow> 0 \<le> rc_max_ip cfg \<Longrightarrow> n \<le> rc_max_ip cfg"
  by (auto simp: budget_inv_def split: option.splits)

lemma map_of_filter_keep:
  "distinct (map fst d) \<Longrightarrow> map_of (filter (\<lambda>(k, v). P v) d) k =
     (case map_of d k of None \<Rightarrow> None | Some v \<Rightarrow> if P v then Some v else None)"
proof (induction d)
  case (Cons kv d)
  obtain k' v where kv: "kv = (k', v)" by (cases kv)
  have "map_of d k' = None" using Cons.prems by (simp add: kv map_of_eq_None_iff)
  with Cons show ?case by (auto simp: kv)
qed simp

lemma cleanup_keeps_budget:
  assumes "budget_inv cfg t0 a table n" and "distinct (map fst table)"
    and "now < t0 + seconds (rc_window cfg)" and "0 < rc_window cfg"
  shows "budget_inv cfg t0 a (cleanup_login_rate_limits cfg now table) n"
proof (cases "map_of table (''ip:'' @ a)")
  case None
  then show ?thesis
    using assms by (simp add: budget_inv_def cleanup_login_rate_limits_def map_of_filter_keep)
next
  case (Some b)
  with assms(1) have "t0 \<le> bk_updated b" by (simp add: budget_inv_def)
  moreover have "now - seconds (max (rc_window cfg) (rc_block cfg) * 2) \<le> t0"
    using assms(3,4) by linarith
  ultimately have "now - seconds (max (rc_window cfg) (rc_block cfg) * 2) \<le> bk_updated b" by linarith
  then have "map_of (cleanup_login_rate_limits cfg now table) (''ip:'' @ a) = map_of table (''ip:'' @ a)"
    using Some by (simp add: cleanup_login_rate_limits_def map_of_filter_keep [OF assms(2)])
  then show ?thesis using assms(1) by (simp add: budget_inv_def)
qed

lemma distinct_consume_bucket:
  "distinct (map fst table) \<Longrightarrow> distinct (map fst (fst (consume_bucket cfg now key limit table)))"
  by (simp add: consume_bucket_def reserve_attempt_def Let_def distinct_dict_set split: option.splits)

lemma distinct_cleanup: "distinct (map fst table) \<Longrightarrow> distinct (map fst (cleanup_login_rate_limits cfg now table))"
  by (simp add: cleanup_login_rate_limits_def distinct_map_filter)

lemma attempt_budget:
  assumes inv: "budget_inv cfg t0 a table n" and d: "distinct (map fst table)"
    and now: "t0 \<le> now" "now < t0 + seconds (rc_window cfg)"
    and cfg: "0 < rc_window cfg" "1 \<le> rc_block cfg" "0 \<le> rc_max_ip cfg"
    and c: "consume_login_attempt digest cfg username remote now table = (table', allowed, wait)"
  shows "budget_inv cfg t0 a table' (if source_address remote = a \<and> allowed then n + 1 else n) \<and>
         distinct (map fst table')"
proof -
  obtain t1 w1 where c1: "consume_bucket cfg now (ip_key remote) (rc_max_ip cfg) table = (t1, w1)"
    by (metis surj_pair)
  obtain t2 w2 where
    c2: "consume_bucket cfg now (pair_key digest username remote) (rc_max_pair cfg) t1 = (t2, w2)"
    by (metis surj_pair)
  have t': "table' = cleanup_login_rate_limits cfg now t2" and al: "allowed \<longleftrightarrow> max (max 0 w1) w2 = 0"
    using c c1 c2 by (auto simp: consume_login_attempt_def Let_def)
  have d1: "distinct (map fst t1)" using distinct_consume_bucket [OF d] c1 by (metis fst_conv)
  have d2: "distinct (map fst t2)" using distinct_consume_bucket [OF d1] c2 by (metis fst_conv)
  have m: "map_of t2 (''ip:'' @ a) = map_of t1 (''ip:'' @ a)"
    using consume_bucket_other [OF ip_pair_differ [of a digest username remote]] c2 by (metis fst_conv)
  have "budget_inv cfg t0 a t1 (if source_address remote = a \<and> allowed then n + 1 else n)"
  proof (cases "source_address remote = a")
    case True
    then have "ip_key remote = ''ip:'' @ a" by (simp add: ip_key_def)
    with c1 have c1': "consume_bucket cfg now (''ip:'' @ a) (rc_max_ip cfg) table = (t1, w1)" by simp
    have k: "budget_inv cfg t0 a t1 (if w1 = 0 then n + 1 else n)" "0 \<le> w1"
      using consume_bucket_counts [OF inv now cfg(2,3) c1'] by simp_all
    show ?thesis
    proof (cases allowed)
      case True
      with al k(2) have "w1 = 0" by simp
      with k(1) True \<open>source_address remote = a\<close> show ?thesis by simp
    next
      case False
      then show ?thesis using k(1) inv by (auto simp: budget_inv_def split: if_splits option.splits)
    qed
  next
    case False
    then have "''ip:'' @ a \<noteq> ip_key remote" by (simp add: ip_key_def)
    then have "map_of t1 (''ip:'' @ a) = map_of table (''ip:'' @ a)"
      using consume_bucket_other c1 by (metis fst_conv)
    then show ?thesis using inv False by (simp add: budget_inv_def)
  qed
  then have "budget_inv cfg t0 a t2 (if source_address remote = a \<and> allowed then n + 1 else n)"
    using m by (simp add: budget_inv_def)
  from cleanup_keeps_budget [OF this d2 now(2) cfg(1)] distinct_cleanup [OF d2] t'
  show ?thesis by simp
qed

definition admitted :: "string \<Rightarrow> (string \<times> bool) list \<Rightarrow> int" where
  "admitted a trace = int (length (filter (\<lambda>(s, ok). s = a \<and> ok) trace))"

lemma trace_budget:
  assumes "budget_inv cfg t0 a table n" and "distinct (map fst table)" and "within_window cfg t0 es"
    and "0 < rc_window cfg" and "1 \<le> rc_block cfg" and "0 \<le> rc_max_ip cfg" and "n \<le> rc_max_ip cfg"
  shows "n + admitted a (login_trace digest cfg table es) \<le> rc_max_ip cfg"
  using assms
proof (induction digest cfg table es arbitrary: n rule: login_trace.induct)
  case (1 digest cfg table)
  then show ?case by (simp add: admitted_def)
next
  case (2 digest cfg table username remote now es)
  obtain table' allowed wait where
    c: "consume_login_attempt digest cfg username remote now table = (table', allowed, wait)"
    by (metis surj_pair)
  define n' where "n' = (if source_address remote = a \<and> allowed then n + 1 else n)"
  have t: "t0 \<le> now" "now < t0 + seconds (rc_window cfg)" "within_window cfg t0 es"
    using "2.prems"(3) by (simp_all add: within_window_def)
  have inv: "budget_inv cfg t0 a table' n'" "distinct (map fst table')"
    using attempt_budget [OF "2.prems"(1,2) t(1,2) "2.prems"(4-6) c] by (simp_all add: n'_def)
  have "n' + admitted a (login_trace digest cfg table' es) \<le> rc_max_ip cfg"
    using inv "2.prems" t(3) budget_inv_le [OF inv(1)] by (intro "2.IH" [OF c [symmetric]]) auto
  moreover have "n + admitted a (login_trace digest cfg table (Attempt username remote now # es)) =
      n' + admitted a (login_trace digest cfg table' es)"
    by (simp add: c admitted_def n'_def)
  ultimately show ?case by simp
next
  case (3 digest cfg table username remote es)
  have "map_of (reset_login_rate_limit digest username remote table) (''ip:'' @ a) = map_of table (''ip:'' @ a)"
    using ip_pair_differ by (simp add: reset_login_rate_limit_def)
  then have "budget_inv cfg t0 a (reset_login_rate_limit digest username remote table) n"
    using "3.prems"(1) by (simp add: budget_inv_def)
  moreover have "distinct (map fst (reset_login_rate_limit digest username remote table))"
    using "3.prems"(2) by (simp add: reset_login_rate_limit_def distinct_dict_pop)
  ultimately show ?case using "3.prems" "3.IH" by (simp add: within_window_def)
qed

text \<open>
  C16: The budget of a source address cannot be refilled. During one window from the first attempt
  of an address, whatever the order of attempts (of this address with any user names, and of
  others), of valid logins clearing their pair and of the clock inside the window, no more attempts
  of that address reach the password check than the configured limit.
\<close>

theorem address_budget_bounded:
  assumes "distinct (map fst table)" and "map_of table (''ip:'' @ a) = None"
    and "within_window cfg t0 es"
    and "0 < rc_window cfg" and "1 \<le> rc_block cfg" and "0 \<le> rc_max_ip cfg"
  shows "admitted a (login_trace digest cfg table es) \<le> rc_max_ip cfg"
  using trace_budget [of cfg t0 a table 0 es digest] assms by (simp add: budget_inv_def)

definition demo_rate :: rate_config where
  "demo_rate = \<lparr>rc_window = 300, rc_block = 900, rc_max_ip = 2, rc_max_pair = 5\<rparr>"

definition demo_logins :: "login_event list" where
  "demo_logins =
     [Attempt ''alice'' (Some ''10.0.0.1'') 0, Cleared ''alice'' (Some ''10.0.0.1''),
      Attempt ''bob'' (Some '' 10.0.0.1 '') 5, Attempt ''alice'' (Some ''10.0.0.1'') 9,
      Attempt ''bob'' None 9]"

lemma address_budget_bounded_witness:
  "login_trace (\<lambda>s. s) demo_rate [] demo_logins =
     [(''10.0.0.1'', True), (''10.0.0.1'', True), (''10.0.0.1'', False), (''unknown'', True)] \<and>
   admitted ''10.0.0.1'' (login_trace (\<lambda>s. s) demo_rate [] demo_logins) \<le> 2"
proof
  show "login_trace (\<lambda>s. s) demo_rate [] demo_logins =
      [(''10.0.0.1'', True), (''10.0.0.1'', True), (''10.0.0.1'', False), (''unknown'', True)]"
    by code_simp
  have "within_window demo_rate 0 demo_logins" by code_simp
  from address_budget_bounded [OF _ _ this, of "[]" "''10.0.0.1''" "\<lambda>s. s"]
  show "admitted ''10.0.0.1'' (login_trace (\<lambda>s. s) demo_rate [] demo_logins) \<le> 2"
    by (simp add: demo_rate_def)
qed

end
