(* ===== verification/Accounts.thy ===== *)
theory Accounts
  imports Model
begin

text \<open>
  Accounts, two-factor codes, sessions and secrets: \<open>src/app/security_store.py\<close> and the code
  handling of \<open>src/app/two_factor.py\<close>. The security database is a record of tables; each function is
  one step on it, a raised exception leaves it as the transaction left it. Scrypt, SHA-256, Fernet
  and the HMAC of a TOTP code are the fields of \<open>crypto\<close>; random secrets are arguments. The event
  log is written best effort and is left out, as are creation and update times.
\<close>

section \<open>State\<close>

record user =
  us_id :: nat
  us_username :: string
  us_password_hash :: string
  us_role :: string
  us_enabled :: bool
  us_must_change :: bool
  us_failed_attempts :: int
  us_locked_until :: "time option"
  us_last_login :: "time option"
  us_language :: string
  us_appearance :: string
  us_tf_enabled :: bool
  us_tf_secret :: "string option"
  us_tf_codes :: "string list"
  us_tf_confirmed :: "time option"

record session =
  se_id :: nat
  se_token_hash :: string
  se_user_id :: nat
  se_expires :: time
  se_last_seen :: time

record reload_token =
  rt_token_hash :: string
  rt_session_id :: nat
  rt_agent_hash :: string
  rt_expires :: time

text \<open>The three sequences are the ones of \<open>AUTOINCREMENT\<close>: an id is never given twice.\<close>

record security_db =
  sd_users :: "user list"
  sd_sessions :: "session list"
  sd_reloads :: "reload_token list"
  sd_secrets :: "((string \<times> string) \<times> string) list"
  sd_user_seq :: nat
  sd_session_seq :: nat

record crypto =
  cr_derive :: "string \<Rightarrow> string"
  cr_verify :: "string \<Rightarrow> string \<Rightarrow> bool"
  cr_digest :: "string \<Rightarrow> string"
  cr_encrypt :: "string \<Rightarrow> string"
  cr_decrypt :: "string \<Rightarrow> string option"
  cr_totp :: "string \<Rightarrow> int \<Rightarrow> string"

datatype account_error =
    Bad_username | Short_password | Bad_password | Weak_password | Bad_role | Username_taken
  | Unknown_user | Last_active_admin | Bad_language | Bad_appearance | Wrong_password
  | Own_account | Last_admin | Two_factor_active | Bad_code | Undecryptable | Code_not_ascii
  | Session_missing | Bad_secret_key | Empty_secret

abbreviation get_user where "get_user db \<equiv> table_get us_id (sd_users db)"

definition modify_user :: "nat \<Rightarrow> (user \<Rightarrow> user) \<Rightarrow> security_db \<Rightarrow> security_db" where
  "modify_user i f db = db\<lparr>sd_users := table_modify us_id i f (sd_users db)\<rparr>"

section \<open>Names and passwords\<close>

text \<open>\<open>^[A-Za-z0-9][A-Za-z0-9_.-]{2,63}$\<close>.\<close>

definition username_pattern :: "string \<Rightarrow> bool" where
  "username_pattern v =
     (case v of [] \<Rightarrow> False
      | c # t \<Rightarrow> is_alnum c \<and> 2 \<le> length t \<and> length t \<le> 63 \<and>
          list_all (\<lambda>d. is_alnum d \<or> d \<in> {CHR ''_'', CHR ''.'', CHR ''-''}) t)"

definition validate_username :: "string \<Rightarrow> (account_error, string) result" where
  "validate_username username =
     (let v = py_strip username in if username_pattern v then Inr v else Inl Bad_username)"

definition password_groups :: "string \<Rightarrow> nat" where
  "password_groups s =
     length (filter (\<lambda>p. list_ex p s) [is_lower, is_upper, is_digit, (\<lambda>c. \<not> is_alnum c)])"

definition validate_password :: "string \<Rightarrow> (account_error, unit) result" where
  "validate_password s =
     (if length s < 12 then Inl Short_password
      else if 1024 < length s \<or> list_ex (\<lambda>c. char_code c = 0) s then Inl Bad_password
      else if password_groups s < 3 then Inl Weak_password
      else Inr ())"

definition hash_password :: "crypto \<Rightarrow> bool \<Rightarrow> string \<Rightarrow> (account_error, string) result" where
  "hash_password cr enforce_policy s =
     (if enforce_policy then try_bind (validate_password s) (\<lambda>_. Inr (cr_derive cr s))
      else if s = [] \<or> 4096 < length s \<or> list_ex (\<lambda>c. char_code c = 0) s then Inl Bad_password
      else Inr (cr_derive cr s))"

text \<open>\<open>COLLATE NOCASE\<close> folds the ASCII letters only.\<close>

definition nocase :: "string \<Rightarrow> string" where
  "nocase s = map (\<lambda>c. if is_upper c then char_of (char_code c + 32) else c) s"

definition find_user :: "security_db \<Rightarrow> string \<Rightarrow> user option" where
  "find_user db name = find (\<lambda>u. nocase (us_username u) = nocase name) (sd_users db)"

section \<open>Sessions\<close>

definition delete_session :: "nat \<Rightarrow> security_db \<Rightarrow> security_db" where
  "delete_session i db =
     db\<lparr>sd_sessions := filter (\<lambda>s. se_id s \<noteq> i) (sd_sessions db),
        sd_reloads := filter (\<lambda>r. rt_session_id r \<noteq> i) (sd_reloads db)\<rparr>"

text \<open>Deleting sessions cascades to their reload tokens.\<close>

definition delete_sessions :: "(session \<Rightarrow> bool) \<Rightarrow> security_db \<Rightarrow> security_db" where
  "delete_sessions P db =
     (let gone = map se_id (filter P (sd_sessions db)) in
      db\<lparr>sd_sessions := filter (\<lambda>s. \<not> P s) (sd_sessions db),
         sd_reloads := filter (\<lambda>r. rt_session_id r \<notin> set gone) (sd_reloads db)\<rparr>)"

definition revoke_user_sessions :: "nat \<Rightarrow> security_db \<Rightarrow> security_db" where
  "revoke_user_sessions i db = delete_sessions (\<lambda>s. se_user_id s = i) db"

definition revoke_session :: "crypto \<Rightarrow> string option \<Rightarrow> security_db \<Rightarrow> security_db" where
  "revoke_session cr token db =
     (if \<not> truthy token then db
      else delete_sessions (\<lambda>s. se_token_hash s = cr_digest cr (filter is_ascii (or_empty token))) db)"

definition effective_idle_seconds :: "int \<Rightarrow> int \<Rightarrow> int" where
  "effective_idle_seconds ttl configured = max 60 (min ttl configured)"

definition cleanup_expired_sessions :: "int \<Rightarrow> time \<Rightarrow> security_db \<Rightarrow> security_db" where
  "cleanup_expired_sessions idle now db =
     delete_sessions (\<lambda>s. se_expires s < now \<or> se_last_seen s < now - seconds idle) db"

definition create_session ::
    "crypto \<Rightarrow> nat \<Rightarrow> int \<Rightarrow> string \<Rightarrow> time \<Rightarrow> security_db \<Rightarrow> security_db" where
  "create_session cr user_id ttl token now db =
     db\<lparr>sd_sessions := sd_sessions db @
          [\<lparr>se_id = Suc (sd_session_seq db), se_token_hash = cr_digest cr token, se_user_id = user_id,
            se_expires = now + seconds ttl, se_last_seen = now\<rparr>],
        sd_session_seq := Suc (sd_session_seq db)\<rparr>"

text \<open>The two best-effort writes are skipped while another connection holds the write lock.\<close>

definition best_effort :: "bool \<Rightarrow> (security_db \<Rightarrow> security_db) \<Rightarrow> security_db \<Rightarrow> security_db" where
  "best_effort writable f db = (if writable then f db else db)"

definition touch_session :: "nat \<Rightarrow> time \<Rightarrow> time \<Rightarrow> security_db \<Rightarrow> security_db" where
  "touch_session i previous now db =
     db\<lparr>sd_sessions := map (\<lambda>s. if se_id s = i \<and> se_last_seen s = previous
                                then s\<lparr>se_last_seen := now\<rparr> else s) (sd_sessions db)\<rparr>"

definition session_row :: "security_db \<Rightarrow> (session \<Rightarrow> bool) \<Rightarrow> (session \<times> user) option" where
  "session_row db P =
     (case find P (sd_sessions db) of
        None \<Rightarrow> None
      | Some s \<Rightarrow> (case get_user db (se_user_id s) of None \<Rightarrow> None | Some u \<Rightarrow> Some (s, u)))"

definition get_session_user ::
    "crypto \<Rightarrow> int \<Rightarrow> bool \<Rightarrow> bool \<Rightarrow> string option \<Rightarrow> time \<Rightarrow> security_db \<Rightarrow> security_db \<times> user option" where
  "get_session_user cr idle writable touch token now db =
     (if \<not> truthy token then (db, None)
      else case session_row db (\<lambda>s. se_token_hash s = cr_digest cr (filter is_ascii (or_empty token))) of
          None \<Rightarrow> (db, None)
        | Some (s, u) \<Rightarrow>
            if \<not> us_enabled u then (db, None)
            else if se_expires s < now \<or> seconds idle < now - se_last_seen s
            then (best_effort writable (delete_session (se_id s)) db, None)
            else if touch \<and> seconds 60 < now - se_last_seen s
            then (best_effort writable (touch_session (se_id s) (se_last_seen s) now) db, Some u)
            else (db, Some u))"

definition create_session_reload_token ::
    "crypto \<Rightarrow> string \<Rightarrow> int \<Rightarrow> string option \<Rightarrow> string \<Rightarrow> time \<Rightarrow> security_db \<Rightarrow>
     (account_error, security_db) result" where
  "create_session_reload_token cr session_token ttl agent reload_token now db =
     (case find (\<lambda>s. se_token_hash s = cr_digest cr (filter is_ascii session_token)) (sd_sessions db) of
        None \<Rightarrow> Inl Session_missing
      | Some s \<Rightarrow> Inr (db\<lparr>sd_reloads := sd_reloads db @
          [\<lparr>rt_token_hash = cr_digest cr reload_token, rt_session_id = se_id s,
            rt_agent_hash = cr_digest cr (or_empty agent),
            rt_expires = min (se_expires s) (now + seconds ttl)\<rparr>]\<rparr>))"

definition get_session_user_by_reload_token ::
    "crypto \<Rightarrow> int \<Rightarrow> bool \<Rightarrow> string option \<Rightarrow> string option \<Rightarrow> time \<Rightarrow> security_db \<Rightarrow>
     security_db \<times> user option" where
  "get_session_user_by_reload_token cr idle writable token agent now db =
     (if \<not> truthy token then (db, None)
      else case find (\<lambda>r. rt_token_hash r = cr_digest cr (filter is_ascii (or_empty token))) (sd_reloads db) of
          None \<Rightarrow> (db, None)
        | Some r \<Rightarrow>
            (case session_row db (\<lambda>s. se_id s = rt_session_id r) of
               None \<Rightarrow> (db, None)
             | Some (s, u) \<Rightarrow>
                 if \<not> us_enabled u then (db, None)
                 else if min (se_expires s) (rt_expires r) < now \<or> seconds idle < now - se_last_seen s
                 then (best_effort writable (delete_session (se_id s)) db, None)
                 else if rt_agent_hash r \<noteq> cr_digest cr (or_empty agent) then (db, None)
                 else (db, Some u)))"

definition revoke_session_by_reload_token :: "crypto \<Rightarrow> string option \<Rightarrow> security_db \<Rightarrow> security_db" where
  "revoke_session_by_reload_token cr token db =
     (if \<not> truthy token then db
      else case find (\<lambda>r. rt_token_hash r = cr_digest cr (filter is_ascii (or_empty token))) (sd_reloads db) of
          None \<Rightarrow> db
        | Some r \<Rightarrow> delete_session (rt_session_id r) db)"

section \<open>Two-factor codes\<close>

text \<open>
  \<open>verify_totp\<close> with the window of one period on each side. \<open>compare_digest\<close> raises for a code with
  a digit outside ASCII, which \<open>isdigit\<close> lets through.
\<close>

definition totp_digits :: "string \<Rightarrow> string" where
  "totp_digits code = filter (\<lambda>c. is_digit c \<or> char_code c \<in> {178, 179, 185}) code"

definition verify_totp :: "crypto \<Rightarrow> string \<Rightarrow> string \<Rightarrow> time \<Rightarrow> (account_error, bool) result" where
  "verify_totp cr secret code now =
     (let candidate = totp_digits code; counter = now div seconds 30 in
      if length candidate \<noteq> 6 then Inr False
      else if \<not> list_all is_ascii candidate then Inl Code_not_ascii
      else Inr (list_ex (\<lambda>k. cr_totp cr secret (counter + k) = candidate) [-1, 0, 1]))"

definition upper_latin :: "char \<Rightarrow> string" where
  "upper_latin c = (let n = char_code c in
     if n = 223 then ''SS''
     else if is_lower c \<or> (224 \<le> n \<and> n \<le> 254 \<and> n \<noteq> 247) then [char_of (n - 32)] else [c])"

definition latin_alnum :: "char \<Rightarrow> bool" where
  "latin_alnum c = (let n = char_code c in
     is_alnum c \<or> n \<in> {170, 178, 179, 181, 185, 186, 188, 189, 190} \<or> (192 \<le> n \<and> n \<noteq> 215 \<and> n \<noteq> 247))"

text \<open>
  The two letters whose capital lies outside Latin-1 stay as they are; like every letter outside
  ASCII they only matter for the test of emptiness.
\<close>

definition normalize_recovery_code :: "string \<Rightarrow> string" where
  "normalize_recovery_code code = filter latin_alnum (concat (map upper_latin code))"

definition hash_recovery_code :: "crypto \<Rightarrow> string \<Rightarrow> string" where
  "hash_recovery_code cr code = cr_digest cr (filter is_ascii (normalize_recovery_code code))"

text \<open>Validity, whether a recovery code was used, and the codes that are left.\<close>

definition verify_second_factor_row ::
    "crypto \<Rightarrow> user \<Rightarrow> string \<Rightarrow> time \<Rightarrow> (account_error, bool \<times> bool \<times> string list) result" where
  "verify_second_factor_row cr u code now =
     (if \<not> us_tf_enabled u then Inr (True, False, us_tf_codes u)
      else if \<not> truthy (us_tf_secret u) then Inr (False, False, us_tf_codes u)
      else case cr_decrypt cr (or_empty (us_tf_secret u)) of
          None \<Rightarrow> Inr (False, False, us_tf_codes u)
        | Some secret \<Rightarrow> try_bind (verify_totp cr secret code now) (\<lambda>ok.
            if ok then Inr (True, False, us_tf_codes u)
            else (let normalized = normalize_recovery_code code; candidate = hash_recovery_code cr normalized in
              if normalized = [] then Inr (False, False, us_tf_codes u)
              else if candidate \<in> set (us_tf_codes u) then Inr (True, True, remove1 candidate (us_tf_codes u))
              else Inr (False, False, us_tf_codes u))))"

definition verify_user_password :: "crypto \<Rightarrow> security_db \<Rightarrow> nat \<Rightarrow> string \<Rightarrow> bool" where
  "verify_user_password cr db i password =
     (case get_user db i of None \<Rightarrow> False | Some u \<Rightarrow> cr_verify cr password (us_password_hash u))"

definition begin_two_factor_setup ::
    "crypto \<Rightarrow> nat \<Rightarrow> string \<Rightarrow> string \<Rightarrow> string list \<Rightarrow> security_db \<Rightarrow> (account_error, security_db) result" where
  "begin_two_factor_setup cr i password secret codes db =
     (if \<not> verify_user_password cr db i password then Inl Wrong_password
      else case get_user db i of
          None \<Rightarrow> Inl Unknown_user
        | Some u \<Rightarrow>
            if us_tf_enabled u then Inl Two_factor_active
            else Inr (modify_user i (\<lambda>u. u\<lparr>us_tf_enabled := False, us_tf_secret := Some (cr_encrypt cr secret),
                   us_tf_codes := map (hash_recovery_code cr) codes, us_tf_confirmed := None\<rparr>) db))"

definition confirm_two_factor_setup ::
    "crypto \<Rightarrow> nat \<Rightarrow> string \<Rightarrow> time \<Rightarrow> security_db \<Rightarrow> (account_error, security_db) result" where
  "confirm_two_factor_setup cr i code now db =
     (case get_user db i of
        None \<Rightarrow> Inl Unknown_user
      | Some u \<Rightarrow>
          if \<not> truthy (us_tf_secret u) then Inl Bad_code
          else case cr_decrypt cr (or_empty (us_tf_secret u)) of
              None \<Rightarrow> Inl Undecryptable
            | Some secret \<Rightarrow> try_bind (verify_totp cr secret code now) (\<lambda>ok.
                if \<not> ok then Inl Bad_code
                else Inr (revoke_user_sessions i (modify_user i (\<lambda>u. u\<lparr>us_tf_enabled := True,
                       us_tf_confirmed := Some now\<rparr>) db))))"

definition reset_two_factor :: "nat \<Rightarrow> security_db \<Rightarrow> (account_error, security_db) result" where
  "reset_two_factor i db =
     (if get_user db i = None then Inl Unknown_user
      else Inr (revoke_user_sessions i (modify_user i (\<lambda>u. u\<lparr>us_tf_enabled := False, us_tf_secret := None,
             us_tf_codes := [], us_tf_confirmed := None\<rparr>) db)))"

definition disable_two_factor ::
    "crypto \<Rightarrow> nat \<Rightarrow> string \<Rightarrow> security_db \<Rightarrow> (account_error, security_db) result" where
  "disable_two_factor cr i password db =
     (if \<not> verify_user_password cr db i password then Inl Wrong_password else reset_two_factor i db)"

definition regenerate_recovery_codes ::
    "crypto \<Rightarrow> nat \<Rightarrow> string \<Rightarrow> string \<Rightarrow> string list \<Rightarrow> time \<Rightarrow> security_db \<Rightarrow>
     (account_error, security_db) result" where
  "regenerate_recovery_codes cr i password code codes now db =
     (if \<not> verify_user_password cr db i password then Inl Wrong_password
      else case get_user db i of
          None \<Rightarrow> Inl Unknown_user
        | Some u \<Rightarrow> try_bind (verify_second_factor_row cr u code now) (\<lambda>(valid, _, _).
            if \<not> valid then Inl Bad_code
            else Inr (modify_user i (\<lambda>u. u\<lparr>us_tf_codes := map (hash_recovery_code cr) codes\<rparr>) db)))"

datatype auth_status = Auth_ok | Auth_recovery_code | Auth_invalid | Auth_code_required | Auth_code_invalid

definition authenticate_user ::
    "crypto \<Rightarrow> string \<Rightarrow> string \<Rightarrow> string option \<Rightarrow> time \<Rightarrow> security_db \<Rightarrow>
     (account_error, security_db \<times> user option \<times> auth_status) result" where
  "authenticate_user cr username password second_factor now db =
     (case find_user db (py_strip username) of
        None \<Rightarrow> Inr (db, None, Auth_invalid)
      | Some u \<Rightarrow>
          if \<not> us_enabled u \<or> \<not> cr_verify cr password (us_password_hash u) then Inr (db, None, Auth_invalid)
          else if us_tf_enabled u \<and> \<not> truthy second_factor then Inr (db, None, Auth_code_required)
          else try_bind (if us_tf_enabled u then verify_second_factor_row cr u (or_empty second_factor) now
                         else Inr (True, False, us_tf_codes u)) (\<lambda>(valid, recovery, codes).
            if \<not> valid then Inr (db, None, Auth_code_invalid)
            else Inr (modify_user (us_id u) (\<lambda>u. u\<lparr>us_tf_codes := codes, us_failed_attempts := 0,
                        us_locked_until := None, us_last_login := Some now\<rparr>) db, Some u,
                      if recovery then Auth_recovery_code else Auth_ok)))"

end
