(* ===== verification/AccountOps.thy ===== *)
theory AccountOps
  imports Accounts Systems
begin

text \<open>
  The operations on accounts and secrets of \<open>src/app/security_store.py\<close> with the guards of their
  endpoints in \<open>src/app/main.py\<close>, the account system as a step relation, and what it promises: an
  active administrator remains while demotions do not overlap, a password change ends every session of the account, and a
  recovery code works once.
\<close>

section \<open>Operations\<close>

definition roles :: "string list" where
  "roles = [''admin'', ''user'']"

definition new_user :: "nat \<Rightarrow> string \<Rightarrow> string \<Rightarrow> string \<Rightarrow> bool \<Rightarrow> user" where
  "new_user i name encoded role must_change =
     \<lparr>us_id = i, us_username = name, us_password_hash = encoded, us_role = role, us_enabled = True,
      us_must_change = must_change, us_failed_attempts = 0, us_locked_until = None, us_last_login = None,
      us_language = ''de'', us_appearance = ''auto'', us_tf_enabled = False, us_tf_secret = None,
      us_tf_codes = [], us_tf_confirmed = None\<rparr>"

definition insert_user :: "string \<Rightarrow> string \<Rightarrow> string \<Rightarrow> bool \<Rightarrow> security_db \<Rightarrow> security_db" where
  "insert_user name encoded role must_change db =
     db\<lparr>sd_users := table_insert (sd_users db) (new_user (Suc (sd_user_seq db)) name encoded role must_change),
        sd_user_seq := Suc (sd_user_seq db)\<rparr>"

definition create_user ::
    "crypto \<Rightarrow> string \<Rightarrow> string \<Rightarrow> string \<Rightarrow> bool \<Rightarrow> security_db \<Rightarrow> (account_error, security_db) result" where
  "create_user cr username password role must_change db =
     try_bind (validate_username username) (\<lambda>name.
       if role \<notin> set roles then Inl Bad_role
       else try_bind (hash_password cr True password) (\<lambda>encoded.
         if find_user db name \<noteq> None then Inl Username_taken
         else Inr (insert_user name encoded role must_change db)))"

definition active_admin :: "user \<Rightarrow> bool" where
  "active_admin u = (us_role u = ''admin'' \<and> us_enabled u)"

definition active_admin_count :: "security_db \<Rightarrow> nat" where
  "active_admin_count db = length (filter active_admin (sd_users db))"

definition admin_count :: "security_db \<Rightarrow> nat" where
  "admin_count db = length (filter (\<lambda>u. us_role u = ''admin'') (sd_users db))"

definition name_taken :: "security_db \<Rightarrow> nat \<Rightarrow> string \<Rightarrow> bool" where
  "name_taken db i name = list_ex (\<lambda>u. us_id u \<noteq> i \<and> nocase (us_username u) = nocase name) (sd_users db)"

definition update_user ::
    "nat \<Rightarrow> string \<Rightarrow> string \<Rightarrow> bool \<Rightarrow> security_db \<Rightarrow> (account_error, security_db) result" where
  "update_user i username role enabled db =
     try_bind (validate_username username) (\<lambda>name.
       if role \<notin> set roles then Inl Bad_role
       else case get_user db i of
           None \<Rightarrow> Inl Unknown_user
         | Some u \<Rightarrow>
             if active_admin u \<and> (role \<noteq> ''admin'' \<or> \<not> enabled) \<and> active_admin_count db \<le> 1
             then Inl Last_active_admin
             else if name_taken db i name then Inl Username_taken
             else (let db' = modify_user i (\<lambda>u. u\<lparr>us_username := name, us_role := role, us_enabled := enabled\<rparr>) db in
               Inr (if enabled then db' else revoke_user_sessions i db')))"

definition update_user_preferences ::
    "nat \<Rightarrow> string \<Rightarrow> string \<Rightarrow> security_db \<Rightarrow> (account_error, security_db) result" where
  "update_user_preferences i language appearance db =
     (if language \<notin> {''de'', ''en''} then Inl Bad_language
      else if appearance \<notin> {''auto'', ''light'', ''dark''} then Inl Bad_appearance
      else if get_user db i = None then Inl Unknown_user
      else Inr (modify_user i (\<lambda>u. u\<lparr>us_language := language, us_appearance := appearance\<rparr>) db))"

definition set_user_password ::
    "crypto \<Rightarrow> nat \<Rightarrow> string \<Rightarrow> bool \<Rightarrow> security_db \<Rightarrow> (account_error, security_db) result" where
  "set_user_password cr i password must_change db =
     try_bind (hash_password cr True password) (\<lambda>encoded.
       if get_user db i = None then Inl Unknown_user
       else Inr (revoke_user_sessions i (modify_user i (\<lambda>u. u\<lparr>us_password_hash := encoded,
              us_must_change := must_change, us_failed_attempts := 0, us_locked_until := None\<rparr>) db)))"

definition drop_secret :: "string \<Rightarrow> string \<Rightarrow> security_db \<Rightarrow> security_db" where
  "drop_secret scope name db = db\<lparr>sd_secrets := dict_pop (scope, name) (sd_secrets db)\<rparr>"

definition change_own_password ::
    "crypto \<Rightarrow> nat \<Rightarrow> string \<Rightarrow> string \<Rightarrow> security_db \<Rightarrow> (account_error, security_db) result" where
  "change_own_password cr i current new db =
     (case get_user db i of
        None \<Rightarrow> Inl Unknown_user
      | Some u \<Rightarrow>
          if \<not> cr_verify cr current (us_password_hash u) then Inl Wrong_password
          else try_bind (hash_password cr True new) (\<lambda>encoded.
            Inr (drop_secret ''bootstrap'' ''initial_admin_startup_announced''
              (drop_secret ''bootstrap'' ''initial_admin_password''
                (revoke_user_sessions i (modify_user i (\<lambda>u. u\<lparr>us_password_hash := encoded,
                   us_must_change := False, us_failed_attempts := 0, us_locked_until := None\<rparr>) db))))))"

definition delete_user :: "nat \<Rightarrow> nat \<Rightarrow> security_db \<Rightarrow> (account_error, security_db) result" where
  "delete_user i current db =
     (if i = current then Inl Own_account
      else case get_user db i of
          None \<Rightarrow> Inl Unknown_user
        | Some u \<Rightarrow>
            if us_role u = ''admin'' \<and> admin_count db \<le> 1 then Inl Last_admin
            else Inr (revoke_user_sessions i (db\<lparr>sd_users := table_remove us_id i (sd_users db)\<rparr>)))"

definition recover_account ::
    "crypto \<Rightarrow> string \<Rightarrow> bool \<Rightarrow> string \<Rightarrow> security_db \<Rightarrow> (account_error, security_db) result" where
  "recover_account cr username make_admin temporary db =
     try_bind (validate_username username) (\<lambda>name.
     try_bind (hash_password cr True temporary) (\<lambda>encoded.
       case find_user db name of
         None \<Rightarrow> Inr (revoke_user_sessions (Suc (sd_user_seq db))
             (insert_user name encoded (if make_admin then ''admin'' else ''user'') True db))
       | Some u \<Rightarrow> Inr (revoke_user_sessions (us_id u) (modify_user (us_id u)
             (\<lambda>u. u\<lparr>us_password_hash := encoded, us_role := (if make_admin then ''admin'' else us_role u),
                    us_enabled := True, us_must_change := True, us_failed_attempts := 0,
                    us_locked_until := None\<rparr>) db))))"

definition unlock_account :: "string \<Rightarrow> security_db \<Rightarrow> (account_error, security_db \<times> bool) result" where
  "unlock_account username db =
     try_bind (validate_username username) (\<lambda>name.
       case find_user db name of
         None \<Rightarrow> Inr (db, False)
       | Some u \<Rightarrow> Inr (modify_user (us_id u)
             (\<lambda>u. u\<lparr>us_failed_attempts := 0, us_locked_until := None\<rparr>) db, True))"

text \<open>The guard of the endpoint: an administrator cannot change the own role or active state.\<close>

definition users_update ::
    "user \<Rightarrow> nat \<Rightarrow> string \<Rightarrow> string \<Rightarrow> bool \<Rightarrow> security_db \<Rightarrow> (account_error, security_db) result" where
  "users_update current i username role enabled db =
     (if i = us_id current \<and> (role \<noteq> us_role current \<or> \<not> enabled) then Inl Own_account
      else update_user i username role enabled db)"

section \<open>What is read before and what is written afterwards\<close>

text \<open>
  \<open>update_user\<close>, \<open>delete_user\<close> and \<open>recover_account\<close> read the table in statements of their own;
  SQLite opens the write transaction only with the statement that writes, and another request may be
  served in between. Both halves are definitions, and one after the other they are the operation.
\<close>

definition update_checks ::
    "nat \<Rightarrow> string \<Rightarrow> string \<Rightarrow> bool \<Rightarrow> security_db \<Rightarrow> (account_error, string) result" where
  "update_checks i username role enabled db =
     try_bind (validate_username username) (\<lambda>name.
       if role \<notin> set roles then Inl Bad_role
       else case get_user db i of
           None \<Rightarrow> Inl Unknown_user
         | Some u \<Rightarrow>
             if active_admin u \<and> (role \<noteq> ''admin'' \<or> \<not> enabled) \<and> active_admin_count db \<le> 1
             then Inl Last_active_admin else Inr name)"

definition update_write ::
    "nat \<Rightarrow> string \<Rightarrow> string \<Rightarrow> bool \<Rightarrow> security_db \<Rightarrow> (account_error, security_db) result" where
  "update_write i name role enabled db =
     (if get_user db i = None then Inl Unknown_user
      else if name_taken db i name then Inl Username_taken
      else (let db' = modify_user i (\<lambda>u. u\<lparr>us_username := name, us_role := role, us_enabled := enabled\<rparr>) db in
        Inr (if enabled then db' else revoke_user_sessions i db')))"

lemma update_user_split:
  "update_user i username role enabled db =
     try_bind (update_checks i username role enabled db) (\<lambda>name. update_write i name role enabled db)"
  by (cases "validate_username username") (auto simp: update_user_def update_checks_def update_write_def split: option.split)

definition delete_checks :: "nat \<Rightarrow> nat \<Rightarrow> security_db \<Rightarrow> (account_error, unit) result" where
  "delete_checks i current db =
     (if i = current then Inl Own_account
      else case get_user db i of
          None \<Rightarrow> Inl Unknown_user
        | Some u \<Rightarrow> if us_role u = ''admin'' \<and> admin_count db \<le> 1 then Inl Last_admin else Inr ())"

definition delete_write :: "nat \<Rightarrow> security_db \<Rightarrow> security_db" where
  "delete_write i db = revoke_user_sessions i (db\<lparr>sd_users := table_remove us_id i (sd_users db)\<rparr>)"

lemma delete_user_split:
  "delete_user i current db = try_bind (delete_checks i current db) (\<lambda>_. Inr (delete_write i db))"
  by (simp add: delete_user_def delete_checks_def delete_write_def split: option.split)

text \<open>The recovery command reads the role and writes it back with the new password.\<close>

definition recover_read ::
    "crypto \<Rightarrow> string \<Rightarrow> bool \<Rightarrow> string \<Rightarrow> security_db \<Rightarrow> (account_error, nat option \<times> string \<times> string \<times> string) result" where
  "recover_read cr username make_admin temporary db =
     try_bind (validate_username username) (\<lambda>name.
     try_bind (hash_password cr True temporary) (\<lambda>encoded.
       case find_user db name of
         None \<Rightarrow> Inr (None, name, encoded, if make_admin then ''admin'' else ''user'')
       | Some u \<Rightarrow> Inr (Some (us_id u), name, encoded, if make_admin then ''admin'' else us_role u)))"

definition recover_write ::
    "nat option \<Rightarrow> string \<Rightarrow> string \<Rightarrow> string \<Rightarrow> security_db \<Rightarrow> (account_error, security_db) result" where
  "recover_write found name encoded role db =
     (case found of
        None \<Rightarrow> if find_user db name \<noteq> None then Inl Username_taken
          else Inr (revoke_user_sessions (Suc (sd_user_seq db)) (insert_user name encoded role True db))
      | Some i \<Rightarrow> Inr (revoke_user_sessions i (modify_user i
          (\<lambda>u. u\<lparr>us_password_hash := encoded, us_role := role, us_enabled := True, us_must_change := True,
                us_failed_attempts := 0, us_locked_until := None\<rparr>) db)))"

lemma recover_account_split:
  assumes "unique_keys us_id (sd_users db)"
  shows "recover_account cr username make_admin temporary db =
    try_bind (recover_read cr username make_admin temporary db)
      (\<lambda>(found, name, encoded, role). recover_write found name encoded role db)"
proof -
  have same: "us_role v = us_role u" if "find_user db name = Some u" "v \<in> set (sd_users db)" "us_id v = us_id u" for name u v
    using that table_get_eq_Some [OF assms, of "us_id u" u] table_get_eq_Some [OF assms, of "us_id u" v]
    by (auto simp: find_user_def dest: find_SomeD)
  have "modify_user (us_id u) (\<lambda>v. f (us_role v) v) db = modify_user (us_id u) (f (us_role u)) db"
    if "find_user db name = Some u" for name u and f :: "string \<Rightarrow> user \<Rightarrow> user"
    unfolding modify_user_def table_modify_def using same [OF that]
    by (intro arg_cong [of _ _ "\<lambda>us. db\<lparr>sd_users := us\<rparr>"] map_cong) auto
  note same_role = this [of _ _ "\<lambda>role v. v\<lparr>us_password_hash := _, us_role := role, us_enabled := True,
    us_must_change := True, us_failed_attempts := 0, us_locked_until := None\<rparr>", simplified]
  show ?thesis
    by (cases "validate_username username"; cases "hash_password cr True temporary")
      (auto simp: recover_account_def recover_read_def recover_write_def same_role split: option.split)
qed

section \<open>Secrets\<close>

definition secret_key :: "string \<Rightarrow> bool" where
  "secret_key s = (s \<noteq> [] \<and> length s \<le> 160 \<and>
     list_all (\<lambda>c. is_alnum c \<or> c \<in> {CHR ''_'', CHR ''.'', CHR '':'', CHR ''-''}) s)"

definition validate_secret_key :: "string \<Rightarrow> string \<Rightarrow> (account_error, string \<times> string) result" where
  "validate_secret_key scope name =
     (let s = py_strip scope; n = py_strip name in
      if \<not> secret_key s \<or> \<not> secret_key n then Inl Bad_secret_key else Inr (s, n))"

definition set_secret ::
    "crypto \<Rightarrow> string \<Rightarrow> string \<Rightarrow> string \<Rightarrow> security_db \<Rightarrow> (account_error, security_db) result" where
  "set_secret cr scope name value db =
     try_bind (validate_secret_key scope name) (\<lambda>key.
       if value = [] \<or> list_ex (\<lambda>c. char_code c = 0) value then Inl Empty_secret
       else Inr (db\<lparr>sd_secrets := dict_set key (cr_encrypt cr value) (sd_secrets db)\<rparr>))"

definition get_secret ::
    "crypto \<Rightarrow> string \<Rightarrow> string \<Rightarrow> string option \<Rightarrow> security_db \<Rightarrow> (account_error, string option) result" where
  "get_secret cr scope name fallback db =
     try_bind (validate_secret_key scope name) (\<lambda>key.
       case map_of (sd_secrets db) key of
         None \<Rightarrow> Inr fallback
       | Some encrypted \<Rightarrow>
           (case cr_decrypt cr encrypted of None \<Rightarrow> Inl Undecryptable | Some v \<Rightarrow> Inr (Some v)))"

definition delete_secret ::
    "string \<Rightarrow> string \<Rightarrow> security_db \<Rightarrow> (account_error, security_db \<times> bool) result" where
  "delete_secret scope name db =
     try_bind (validate_secret_key scope name) (\<lambda>key.
       Inr (db\<lparr>sd_secrets := dict_pop key (sd_secrets db)\<rparr>, map_of (sd_secrets db) key \<noteq> None))"

definition delete_secret_scope :: "string \<Rightarrow> security_db \<Rightarrow> (account_error, security_db \<times> nat) result" where
  "delete_secret_scope scope db =
     (let s = py_strip scope in
      if \<not> secret_key s then Inl Bad_secret_key
      else Inr (db\<lparr>sd_secrets := filter (\<lambda>((s', _), _). s' \<noteq> s) (sd_secrets db)\<rparr>,
                length (filter (\<lambda>((s', _), _). s' = s) (sd_secrets db))))"

definition list_secret_names :: "string \<Rightarrow> security_db \<Rightarrow> (account_error, string list) result" where
  "list_secret_names scope db =
     (let s = py_strip scope in
      if \<not> secret_key s then Inl Bad_secret_key
      else Inr (sort (map (\<lambda>((_, n), _). n) (filter (\<lambda>((s', _), _). s' = s) (sd_secrets db)))))"

section \<open>The account system\<close>

text \<open>
  A request under way between two of its statements: the deletion of a user by an administrator whose
  session was accepted, the same after the checks of \<open>delete_user\<close>, and an update or a recovery that
  has read the table and not yet written it.
\<close>

datatype account_request =
    Delete_allowed nat nat
  | Delete_checked nat nat
  | Update_checked nat string string bool
  | Recover_checked "nat option" string string string

text \<open>
  Every change of the account table, from its endpoint or from the recovery command, interleaved
  statement by statement: the table and the requests under way. A request may also end without
  writing, because a statement fails or the process stops.
\<close>

type_synonym account_state = "security_db \<times> account_request list"

inductive account_step :: "crypto \<Rightarrow> account_state \<Rightarrow> account_state \<Rightarrow> bool" for cr where
  create: "create_user cr username password role must_change db = Inr db' \<Longrightarrow> account_step cr (db, rs) (db', rs)"
| update_check: "update_checks i username role enabled db = Inr name \<Longrightarrow>
    account_step cr (db, rs) (db, Update_checked i name role enabled # rs)"
| update_write: "Update_checked i name role enabled \<in> set rs \<Longrightarrow> update_write i name role enabled db = Inr db' \<Longrightarrow>
    account_step cr (db, rs) (db', remove1 (Update_checked i name role enabled) rs)"
| delete_request: "get_user db requester = Some u \<Longrightarrow> active_admin u \<Longrightarrow>
    account_step cr (db, rs) (db, Delete_allowed i requester # rs)"
| delete_check: "Delete_allowed i requester \<in> set rs \<Longrightarrow> delete_checks i requester db = Inr () \<Longrightarrow>
    account_step cr (db, rs) (db, Delete_checked i requester # remove1 (Delete_allowed i requester) rs)"
| delete_write: "Delete_checked i requester \<in> set rs \<Longrightarrow>
    account_step cr (db, rs) (delete_write i db, remove1 (Delete_checked i requester) rs)"
| recover_read: "recover_read cr username make_admin temporary db = Inr (found, name, encoded, role) \<Longrightarrow>
    account_step cr (db, rs) (db, Recover_checked found name encoded role # rs)"
| recover_write: "Recover_checked found name encoded role \<in> set rs \<Longrightarrow>
    recover_write found name encoded role db = Inr db' \<Longrightarrow>
    account_step cr (db, rs) (db', remove1 (Recover_checked found name encoded role) rs)"
| given_up: "r \<in> set rs \<Longrightarrow> account_step cr (db, rs) (db, remove1 r rs)"
| preferences: "update_user_preferences i language appearance db = Inr db' \<Longrightarrow> account_step cr (db, rs) (db', rs)"
| set_password: "set_user_password cr i password must_change db = Inr db' \<Longrightarrow> account_step cr (db, rs) (db', rs)"
| own_password: "change_own_password cr i old new db = Inr db' \<Longrightarrow> account_step cr (db, rs) (db', rs)"
| unlock: "unlock_account username db = Inr (db', b) \<Longrightarrow> account_step cr (db, rs) (db', rs)"
| authenticate: "authenticate_user cr username password factor now db = Inr (db', u, status) \<Longrightarrow> account_step cr (db, rs) (db', rs)"
| two_factor_setup: "begin_two_factor_setup cr i password secret codes db = Inr db' \<Longrightarrow> account_step cr (db, rs) (db', rs)"
| two_factor_confirm: "confirm_two_factor_setup cr i code now db = Inr db' \<Longrightarrow> account_step cr (db, rs) (db', rs)"
| two_factor_disable: "disable_two_factor cr i password db = Inr db' \<Longrightarrow> account_step cr (db, rs) (db', rs)"
| two_factor_reset: "reset_two_factor i db = Inr db' \<Longrightarrow> account_step cr (db, rs) (db', rs)"
| recovery_codes: "regenerate_recovery_codes cr i password code codes now db = Inr db' \<Longrightarrow> account_step cr (db, rs) (db', rs)"

abbreviation account_steps :: "crypto \<Rightarrow> account_state \<Rightarrow> account_state \<Rightarrow> bool" where
  "account_steps cr \<equiv> (account_step cr)\<^sup>*\<^sup>*"

text \<open>The requests whose write may take an active administrator away.\<close>

fun may_take_admin :: "account_request \<Rightarrow> bool" where
  "may_take_admin (Delete_allowed _ _) = True"
| "may_take_admin (Delete_checked _ _) = True"
| "may_take_admin (Update_checked _ _ role enabled) = (role \<noteq> ''admin'' \<or> \<not> enabled)"
| "may_take_admin (Recover_checked found _ _ role) = (found \<noteq> None \<and> role \<noteq> ''admin'')"

definition one_at_most :: "account_request list \<Rightarrow> bool" where
  "one_at_most rs = (length (filter may_take_admin rs) \<le> 1)"

text \<open>A step after which at most one such request is under way; all others overlap as they like.\<close>

definition orderly_step :: "crypto \<Rightarrow> account_state \<Rightarrow> account_state \<Rightarrow> bool" where
  "orderly_step cr s s' = (account_step cr s s' \<and> one_at_most (snd s'))"

abbreviation orderly_steps :: "crypto \<Rightarrow> account_state \<Rightarrow> account_state \<Rightarrow> bool" where
  "orderly_steps cr \<equiv> (orderly_step cr)\<^sup>*\<^sup>*"

definition accounts_ok :: "security_db \<Rightarrow> bool" where
  "accounts_ok db =
     (unique_keys us_id (sd_users db) \<and> list_all (\<lambda>u. us_id u \<le> sd_user_seq db) (sd_users db) \<and>
      list_ex active_admin (sd_users db))"

section \<open>An active administrator remains\<close>

lemma users_revoke [simp]:
  "sd_users (delete_sessions P db) = sd_users db" "sd_user_seq (delete_sessions P db) = sd_user_seq db"
  "sd_users (revoke_user_sessions i db) = sd_users db" "sd_user_seq (revoke_user_sessions i db) = sd_user_seq db"
  "sd_users (drop_secret a b db) = sd_users db" "sd_user_seq (drop_secret a b db) = sd_user_seq db"
  by (simp_all add: delete_sessions_def revoke_user_sessions_def drop_secret_def Let_def)

lemma users_modify [simp]:
  "sd_users (modify_user i f db) = table_modify us_id i f (sd_users db)"
  "sd_user_seq (modify_user i f db) = sd_user_seq db"
  by (simp_all add: modify_user_def)

lemma accounts_ok_cong:
  "sd_users db' = sd_users db \<Longrightarrow> sd_user_seq db' = sd_user_seq db \<Longrightarrow> accounts_ok db' = accounts_ok db"
  by (simp add: accounts_ok_def)

lemma accounts_ok_revoke [simp]:
  "accounts_ok (revoke_user_sessions i db) = accounts_ok db"
  "accounts_ok (drop_secret a b db) = accounts_ok db"
  by (simp_all add: accounts_ok_def)

lemma accounts_ok_modify:
  assumes "accounts_ok db" and "\<And>u. us_id (f u) = us_id u"
    and "\<exists>u\<in>set (sd_users db). active_admin (if us_id u = i then f u else u)"
  shows "accounts_ok (modify_user i f db)"
proof -
  obtain u where "u \<in> set (sd_users db)" "active_admin (if us_id u = i then f u else u)"
    using assms(3) by blast
  then have "list_ex active_admin (table_modify us_id i f (sd_users db))"
    unfolding table_modify_def list_ex_iff set_map by blast
  moreover have "list_all (\<lambda>u. us_id u \<le> sd_user_seq db) (table_modify us_id i f (sd_users db))"
    using assms(1,2) by (auto simp: accounts_ok_def list_all_iff table_modify_def)
  ultimately show ?thesis
    using assms(1,2) unique_modify [of us_id f "sd_users db" i] by (simp add: accounts_ok_def)
qed

lemma accounts_ok_modify_keep:
  assumes "accounts_ok db" and "\<And>u. us_id (f u) = us_id u" and "\<And>u. active_admin u \<Longrightarrow> active_admin (f u)"
  shows "accounts_ok (modify_user i f db)"
  using assms by (intro accounts_ok_modify) (auto simp: accounts_ok_def list_ex_iff)

lemma accounts_ok_insert:
  assumes "accounts_ok db"
  shows "accounts_ok (insert_user name encoded role must_change db)"
proof -
  have "Suc (sd_user_seq db) \<notin> set (map us_id (sd_users db))"
    using assms by (auto simp: accounts_ok_def list_all_iff)
  then have "unique_keys us_id (sd_users (insert_user name encoded role must_change db))"
    using assms unique_insert [of us_id "sd_users db"]
    by (simp add: accounts_ok_def insert_user_def new_user_def)
  then show ?thesis
    using assms by (auto simp: accounts_ok_def insert_user_def new_user_def table_insert_def list_all_iff)
qed

lemma another_admin:
  assumes ok: "accounts_ok db" and u: "get_user db i = Some u" and guard: "active_admin u \<Longrightarrow> \<not> active_admin_count db \<le> 1"
  shows "\<exists>v \<in> set (sd_users db). active_admin v \<and> us_id v \<noteq> i"
proof -
  have keys: "unique_keys us_id (sd_users db)" using ok by (simp add: accounts_ok_def)
  have same: "v = u" if "v \<in> set (sd_users db)" "us_id v = i" for v
    using table_get_eq_Some [OF keys, of i v] u that by simp
  obtain v where v: "v \<in> set (sd_users db)" "active_admin v" using ok by (auto simp: accounts_ok_def list_ex_iff)
  show ?thesis
  proof (cases "active_admin u")
    case True
    then have two: "1 < length (filter active_admin (sd_users db))" using guard by (simp add: active_admin_count_def)
    have dist: "distinct (filter active_admin (sd_users db))"
      using keys by (simp add: unique_keys_def distinct_map)
    have "\<not> set (filter active_admin (sd_users db)) \<subseteq> {u}"
    proof
      assume "set (filter active_admin (sd_users db)) \<subseteq> {u}"
      then have "card (set (filter active_admin (sd_users db))) \<le> card {u}" by (intro card_mono) simp_all
      with two distinct_card [OF dist] show False by simp
    qed
    then show ?thesis using same by auto
  next
    case False
    with v same show ?thesis by blast
  qed
qed

lemma active_admin_upd [simp]:
  "active_admin (u\<lparr>us_password_hash := a\<rparr>) = active_admin u"
  "active_admin (u\<lparr>us_must_change := b\<rparr>) = active_admin u"
  "active_admin (u\<lparr>us_failed_attempts := c\<rparr>) = active_admin u"
  "active_admin (u\<lparr>us_locked_until := d\<rparr>) = active_admin u"
  "active_admin (u\<lparr>us_last_login := e\<rparr>) = active_admin u"
  "active_admin (u\<lparr>us_language := f\<rparr>) = active_admin u"
  "active_admin (u\<lparr>us_appearance := g\<rparr>) = active_admin u"
  "active_admin (u\<lparr>us_tf_enabled := h\<rparr>) = active_admin u"
  "active_admin (u\<lparr>us_tf_secret := j\<rparr>) = active_admin u"
  "active_admin (u\<lparr>us_tf_codes := k\<rparr>) = active_admin u"
  "active_admin (u\<lparr>us_tf_confirmed := l\<rparr>) = active_admin u"
  by (simp_all add: active_admin_def)

text \<open>A change that leaves every active administrator an active one.\<close>

definition keeps_admins :: "security_db \<Rightarrow> security_db \<Rightarrow> bool" where
  "keeps_admins db db' \<longleftrightarrow> (accounts_ok db \<longrightarrow> accounts_ok db') \<and>
     (\<forall>u \<in> set (sd_users db). active_admin u \<longrightarrow> (\<exists>v \<in> set (sd_users db'). us_id v = us_id u \<and> active_admin v))"

lemma keeps_modify:
  assumes "\<And>u. us_id (f u) = us_id u" and "\<And>u. active_admin u \<Longrightarrow> active_admin (f u)"
  shows "keeps_admins db (modify_user i f db)"
proof -
  have "\<exists>v \<in> set (table_modify us_id i f (sd_users db)). us_id v = us_id u \<and> active_admin v"
    if "u \<in> set (sd_users db)" "active_admin u" for u
  proof (rule bexI)
    show "us_id (if us_id u = i then f u else u) = us_id u \<and> active_admin (if us_id u = i then f u else u)"
      using that(2) assms by simp
    show "(if us_id u = i then f u else u) \<in> set (table_modify us_id i f (sd_users db))"
      using that(1) by (simp add: table_modify_def)
  qed
  then show ?thesis using assms accounts_ok_modify_keep by (simp add: keeps_admins_def)
qed

lemma keeps_insert: "keeps_admins db (insert_user name encoded role must_change db)"
  using accounts_ok_insert by (auto simp: keeps_admins_def insert_user_def table_insert_def)

lemma keeps_revoke [simp]:
  "keeps_admins db (revoke_user_sessions i db') = keeps_admins db db'"
  "keeps_admins db (drop_secret a b db') = keeps_admins db db'"
  "keeps_admins db db"
  by (auto simp: keeps_admins_def)

text \<open>The user whom the write of a request leaves alone.\<close>

fun spared :: "account_request \<Rightarrow> user \<Rightarrow> bool" where
  "spared (Delete_allowed _ requester) u = (us_id u = requester)"
| "spared (Delete_checked i requester) u = (us_id u = requester \<and> requester \<noteq> i)"
| "spared (Update_checked i _ _ _) u = (us_id u \<noteq> i)"
| "spared (Recover_checked found _ _ _) u = (found \<noteq> Some (us_id u))"

definition spares_admin :: "security_db \<Rightarrow> account_request \<Rightarrow> bool" where
  "spares_admin db r \<longleftrightarrow> (may_take_admin r \<longrightarrow> (\<exists>u \<in> set (sd_users db). active_admin u \<and> spared r u))"

definition accounts_safe :: "account_state \<Rightarrow> bool" where
  "accounts_safe s \<longleftrightarrow> accounts_ok (fst s) \<and> one_at_most (snd s) \<and> (\<forall>r \<in> set (snd s). spares_admin (fst s) r)"

lemma spared_same_id: "us_id v = us_id u \<Longrightarrow> spared r v = spared r u"
  by (cases r) simp_all

lemma spares_kept: "keeps_admins db db' \<Longrightarrow> spares_admin db r \<Longrightarrow> spares_admin db' r"
  unfolding keeps_admins_def spares_admin_def using spared_same_id by metis

lemma others_harmless:
  assumes "one_at_most rs" "r \<in> set rs" "may_take_admin r" "x \<in> set (remove1 r rs)"
  shows "\<not> may_take_admin x"
proof -
  have "r \<in> set (filter may_take_admin rs)" using assms(2,3) by simp
  then have "filter may_take_admin rs = [r]"
    using assms(1) unfolding one_at_most_def by (cases "filter may_take_admin rs") auto
  then have "filter may_take_admin (remove1 r rs) = []" by (simp add: filter_remove1)
  then show ?thesis using assms(4) by (simp add: filter_empty_conv)
qed

lemma safe_keep:
  assumes "accounts_safe (db, rs)" "keeps_admins db db'" "set rs' \<subseteq> set rs" "one_at_most rs'"
  shows "accounts_safe (db', rs')"
  using assms spares_kept [OF assms(2)] unfolding accounts_safe_def by (auto simp: keeps_admins_def)

lemma safe_ask:
  assumes "accounts_safe (db, rs)" "spares_admin db r" "set rs' \<subseteq> set rs" "one_at_most (r # rs')"
  shows "accounts_safe (db, r # rs')"
  using assms unfolding accounts_safe_def by auto

lemma safe_take:
  assumes safe: "accounts_safe (db, rs)" and r: "r \<in> set rs" and one: "one_at_most (remove1 r rs)"
    and take: "may_take_admin r \<Longrightarrow> \<exists>u \<in> set (sd_users db). active_admin u \<and> spared r u \<Longrightarrow> accounts_ok db'"
    and kept: "\<not> may_take_admin r \<Longrightarrow> keeps_admins db db'"
  shows "accounts_safe (db', remove1 r rs)"
proof (cases "may_take_admin r")
  case True
  then have "accounts_ok db'" using safe r take by (auto simp: accounts_safe_def spares_admin_def)
  moreover have "spares_admin db' x" if "x \<in> set (remove1 r rs)" for x
    using safe others_harmless [OF _ r True that] by (simp add: accounts_safe_def spares_admin_def)
  ultimately show ?thesis using one by (simp add: accounts_safe_def)
next
  case False
  then show ?thesis using safe_keep [OF safe kept _ one] set_remove1_subset by metis
qed

lemma accounts_ok_modify_other:
  assumes "accounts_ok db" "\<And>u. us_id (f u) = us_id u" "\<exists>u \<in> set (sd_users db). active_admin u \<and> us_id u \<noteq> i"
  shows "accounts_ok (modify_user i f db)"
  using assms by (intro accounts_ok_modify) (auto split: if_splits)

lemma accounts_ok_delete_write:
  assumes ok: "accounts_ok db" and "\<exists>u \<in> set (sd_users db). active_admin u \<and> us_id u \<noteq> i"
  shows "accounts_ok (delete_write i db)"
  using assms unique_remove [of us_id "sd_users db" i]
  by (auto simp: delete_write_def accounts_ok_def list_all_iff list_ex_iff table_remove_def)

text \<open>The operations that leave roles and active states alone.\<close>

lemma keeps_operations:
  "create_user cr username password role must_change db = Inr db' \<Longrightarrow> keeps_admins db db'"
  "update_user_preferences i language appearance db = Inr db' \<Longrightarrow> keeps_admins db db'"
  "set_user_password cr i password must_change db = Inr db' \<Longrightarrow> keeps_admins db db'"
  "change_own_password cr i old new db = Inr db' \<Longrightarrow> keeps_admins db db'"
  "unlock_account username db = Inr (db', b) \<Longrightarrow> keeps_admins db db'"
  by (auto simp: create_user_def update_user_preferences_def set_user_password_def change_own_password_def unlock_account_def
      try_bind_Inr_iff keeps_insert split: if_splits option.splits intro!: keeps_modify)

lemma keeps_sign_in:
  "authenticate_user cr username password factor now db = Inr (db', u, status) \<Longrightarrow> keeps_admins db db'"
  by (auto simp: authenticate_user_def try_bind_Inr_iff split: option.splits if_splits intro!: keeps_modify)

lemma keeps_two_factor:
  "begin_two_factor_setup cr i password secret codes db = Inr db' \<Longrightarrow> keeps_admins db db'"
  "confirm_two_factor_setup cr i code now db = Inr db' \<Longrightarrow> keeps_admins db db'"
  "disable_two_factor cr i password db = Inr db' \<Longrightarrow> keeps_admins db db'"
  "reset_two_factor i db = Inr db' \<Longrightarrow> keeps_admins db db'"
  "regenerate_recovery_codes cr i password code codes now db = Inr db' \<Longrightarrow> keeps_admins db db'"
  by (auto simp: begin_two_factor_setup_def confirm_two_factor_setup_def disable_two_factor_def reset_two_factor_def
      regenerate_recovery_codes_def try_bind_Inr_iff split: option.splits if_splits intro!: keeps_modify)

text \<open>Whoever is allowed to read and decide leaves an active administrator alone.\<close>

lemma spares_update_check:
  assumes "accounts_ok db" "update_checks i username role enabled db = Inr name"
  shows "spares_admin db (Update_checked i name role enabled)"
  using assms another_admin [of db i]
  by (auto simp: update_checks_def spares_admin_def try_bind_Inr_iff split: option.splits if_splits)

lemma spares_delete_request:
  "get_user db requester = Some u \<Longrightarrow> active_admin u \<Longrightarrow> spares_admin db (Delete_allowed i requester)"
  by (auto simp: spares_admin_def dest: table_get_SomeD)

lemma spares_delete_check:
  "spares_admin db (Delete_allowed i requester) \<Longrightarrow> delete_checks i requester db = Inr () \<Longrightarrow>
   spares_admin db (Delete_checked i requester)"
  by (auto simp: spares_admin_def delete_checks_def split: if_splits)

lemma spares_recover_read:
  assumes ok: "accounts_ok db" and read: "recover_read cr username make_admin temporary db = Inr (found, name, encoded, role)"
  shows "spares_admin db (Recover_checked found name encoded role)"
proof (cases found)
  case (Some i)
  then obtain u where u: "u \<in> set (sd_users db)" "us_id u = i" "role = (if make_admin then ''admin'' else us_role u)"
    using read by (auto simp: recover_read_def try_bind_Inr_iff find_user_def split: option.splits dest: find_SomeD)
  have "get_user db i = Some u"
    using ok u(1,2) table_get_eq_Some [of us_id "sd_users db" i u] by (simp add: accounts_ok_def)
  then have "\<exists>v \<in> set (sd_users db). active_admin v \<and> us_id v \<noteq> i" if "role \<noteq> ''admin''"
    using another_admin [OF ok] that u(3) by (auto simp: active_admin_def split: if_splits)
  then show ?thesis using Some by (auto simp: spares_admin_def)
qed (simp add: spares_admin_def)

lemma safe_update_write:
  assumes safe: "accounts_safe (db, rs)" and r: "Update_checked i name role enabled \<in> set rs"
    and one: "one_at_most (remove1 (Update_checked i name role enabled) rs)"
    and wrote: "update_write i name role enabled db = Inr db'"
  shows "accounts_safe (db', remove1 (Update_checked i name role enabled) rs)"
proof (rule safe_take [OF safe r one])
  let ?f = "\<lambda>u. u\<lparr>us_username := name, us_role := role, us_enabled := enabled\<rparr>"
  have db': "db' = (if enabled then modify_user i ?f db else revoke_user_sessions i (modify_user i ?f db))"
    using wrote by (auto simp: update_write_def Let_def split: if_splits)
  show "accounts_ok db'" if "\<exists>u \<in> set (sd_users db). active_admin u \<and> spared (Update_checked i name role enabled) u"
    using safe that accounts_ok_modify_other [of db ?f i] by (cases enabled) (simp_all add: db' accounts_safe_def)
  show "keeps_admins db db'" if "\<not> may_take_admin (Update_checked i name role enabled)"
    using that keeps_modify [of ?f db i] by (cases enabled) (simp_all add: db' active_admin_def)
qed

lemma safe_recover_write:
  assumes safe: "accounts_safe (db, rs)" and r: "Recover_checked found name encoded role \<in> set rs"
    and one: "one_at_most (remove1 (Recover_checked found name encoded role) rs)"
    and wrote: "recover_write found name encoded role db = Inr db'"
  shows "accounts_safe (db', remove1 (Recover_checked found name encoded role) rs)"
proof (rule safe_take [OF safe r one])
  let ?f = "\<lambda>u. u\<lparr>us_password_hash := encoded, us_role := role, us_enabled := True, us_must_change := True,
    us_failed_attempts := 0, us_locked_until := None\<rparr>"
  show "accounts_ok db'"
    if "may_take_admin (Recover_checked found name encoded role)"
      "\<exists>u \<in> set (sd_users db). active_admin u \<and> spared (Recover_checked found name encoded role) u"
    using safe that wrote accounts_ok_modify_other [of db ?f "the found"]
    by (cases found) (fastforce simp: recover_write_def accounts_safe_def)+
  show "keeps_admins db db'" if "\<not> may_take_admin (Recover_checked found name encoded role)"
    using that wrote keeps_modify [of ?f db "the found"]
    by (cases found) (auto simp: recover_write_def keeps_insert active_admin_def split: if_splits)
qed

lemma safe_delete_write:
  assumes safe: "accounts_safe (db, rs)" and r: "Delete_checked i requester \<in> set rs"
    and one: "one_at_most (remove1 (Delete_checked i requester) rs)"
  shows "accounts_safe (delete_write i db, remove1 (Delete_checked i requester) rs)"
  using safe by (intro safe_take [OF safe r one] accounts_ok_delete_write) (auto simp: accounts_safe_def)

lemma accounts_safe_step:
  assumes "accounts_safe s" "orderly_step cr s s'"
  shows "accounts_safe s'"
proof -
  have "account_step cr s s'" "one_at_most (snd s')" using assms(2) by (simp_all add: orderly_step_def)
  then show ?thesis
    using assms(1)
  proof (induction rule: account_step.induct)
    case (update_check i username role enabled db name rs)
    then have "spares_admin db (Update_checked i name role enabled)"
      by (intro spares_update_check) (simp_all add: accounts_safe_def)
    with update_check show ?case by (intro safe_ask [of _ rs]) simp_all
  next
    case (update_write i name role enabled rs db db')
    then show ?case by (intro safe_update_write) simp_all
  next
    case (delete_request db requester u rs i)
    then show ?case by (intro safe_ask [of _ rs] spares_delete_request) simp_all
  next
    case (delete_check i requester rs db)
    then have "spares_admin db (Delete_allowed i requester)" by (auto simp: accounts_safe_def)
    with delete_check show ?case by (intro safe_ask [of _ rs] spares_delete_check) (simp_all add: set_remove1_subset)
  next
    case (delete_write i requester rs db)
    then show ?case by (intro safe_delete_write) simp_all
  next
    case (recover_read username make_admin temporary db found name encoded role rs)
    then have "spares_admin db (Recover_checked found name encoded role)"
      by (intro spares_recover_read) (simp_all add: accounts_safe_def)
    with recover_read show ?case by (intro safe_ask [of _ rs]) simp_all
  next
    case (recover_write found name encoded role rs db db')
    then show ?case by (intro safe_recover_write) simp_all
  next
    case (given_up r rs db)
    then show ?case by (intro safe_keep [of db rs db "remove1 r rs"]) (simp_all add: set_remove1_subset)
  qed (auto intro: safe_keep keeps_operations keeps_sign_in keeps_two_factor)
qed

definition quiet_accounts :: "account_state \<Rightarrow> bool" where
  "quiet_accounts s \<longleftrightarrow> accounts_ok (fst s) \<and> snd s = []"

lemma quiet_accounts_safe: "quiet_accounts s \<Longrightarrow> accounts_safe s"
  by (simp add: quiet_accounts_def accounts_safe_def one_at_most_def)

interpretation account_system: guarded_system quiet_accounts "orderly_step cr" accounts_safe for cr
  by unfold_locales (blast intro: quiet_accounts_safe accounts_safe_step)+

text \<open>
  C30: As long as requests that may take an active administrator away (a deletion, a demotion, a
  deactivation, a recovery that writes a lower role back) do not overlap one another, the account
  table keeps an active administrator and unique user ids: at every point of every history of
  requests, sign-ins and recoveries that starts from such a table, whatever else overlaps, statement
  by statement. The condition is needed: \<open>overlapping_deletions_lock_out\<close>.
\<close>

theorem active_admin_remains:
  assumes "orderly_steps cr (db, []) (db', rs)" and "accounts_ok db"
  shows "accounts_ok db'"
  using account_system.inv_reachable [OF _ assms(1)] assms(2) by (simp add: quiet_accounts_def accounts_safe_def)

definition plain_crypto :: crypto where
  "plain_crypto =
     \<lparr>cr_derive = (\<lambda>s. s), cr_verify = (=), cr_digest = (\<lambda>s. s), cr_encrypt = (\<lambda>s. s),
      cr_decrypt = Some, cr_totp = (\<lambda>s k. ''123456'')\<rparr>"

definition demo_admin :: user where
  "demo_admin = new_user 1 ''root'' ''Secret-Pass-1'' ''admin'' False"

definition demo_security :: security_db where
  "demo_security =
     \<lparr>sd_users = [demo_admin], sd_sessions = [\<lparr>se_id = 1, se_token_hash = ''t'', se_user_id = 1,
        se_expires = seconds 86400, se_last_seen = 0\<rparr>],
      sd_reloads = [\<lparr>rt_token_hash = ''r'', rt_session_id = 1, rt_agent_hash = ''a'',
        rt_expires = seconds 86400\<rparr>],
      sd_secrets = [], sd_user_seq = 1, sd_session_seq = 1\<rparr>"

lemma demo_create:
  "create_user plain_crypto ''alice'' ''Another-Pass-2'' ''admin'' True demo_security =
   Inr (insert_user ''alice'' ''Another-Pass-2'' ''admin'' True demo_security)"
  by code_simp

definition two_admins :: security_db where
  "two_admins = insert_user ''alice'' ''Another-Pass-2'' ''admin'' True demo_security"

definition only_alice :: security_db where
  "only_alice = modify_user 1 (\<lambda>u. u\<lparr>us_username := ''root'', us_role := ''user'', us_enabled := True\<rparr>) two_admins"

lemma demo_demotion:
  "update_checks 1 ''root'' ''user'' True two_admins = Inr ''root''"
  "update_write 1 ''root'' ''user'' True two_admins = Inr only_alice"
  unfolding only_alice_def by code_simp+

lemma active_admin_remains_witness:
  "accounts_ok only_alice"
proof (rule active_admin_remains)
  have "orderly_step plain_crypto (demo_security, []) (two_admins, [])"
    unfolding orderly_step_def two_admins_def by (intro conjI account_step.create [OF demo_create]) (simp add: one_at_most_def)
  moreover have "orderly_step plain_crypto (two_admins, []) (two_admins, [Update_checked 1 ''root'' ''user'' True])"
    unfolding orderly_step_def by (intro conjI account_step.update_check [OF demo_demotion(1)]) (simp add: one_at_most_def)
  moreover have "orderly_step plain_crypto (two_admins, [Update_checked 1 ''root'' ''user'' True]) (only_alice, [])"
    using account_step.update_write [OF _ demo_demotion(2), of "[Update_checked 1 ''root'' ''user'' True]" plain_crypto]
    by (simp add: orderly_step_def one_at_most_def)
  ultimately show "orderly_steps plain_crypto (demo_security, []) (only_alice, [])" by (meson converse_rtranclp_into_rtranclp r_into_rtranclp)
  show "accounts_ok demo_security" by code_simp
qed

text \<open>
  Two administrators who delete each other at the same time, beside a disabled third one: both pass the
  checks of \<open>delete_user\<close>, which counts administrators of any state, and no active one remains.
\<close>

definition three_admins :: security_db where
  "three_admins = demo_security\<lparr>sd_users := [demo_admin, demo_admin\<lparr>us_id := 2, us_username := ''alice''\<rparr>,
     demo_admin\<lparr>us_id := 3, us_username := ''carol'', us_enabled := False\<rparr>], sd_user_seq := 3\<rparr>"

lemma overlapping_deletions_lock_out:
  "accounts_ok three_admins"
  "account_steps plain_crypto (three_admins, []) (delete_write 1 (delete_write 2 three_admins), [])"
  "list_ex (\<lambda>u. us_role u = ''admin'') (sd_users (delete_write 1 (delete_write 2 three_admins)))"
  "\<not> accounts_ok (delete_write 1 (delete_write 2 three_admins))"
proof -
  show "accounts_ok three_admins" "list_ex (\<lambda>u. us_role u = ''admin'') (sd_users (delete_write 1 (delete_write 2 three_admins)))"
    "\<not> accounts_ok (delete_write 1 (delete_write 2 three_admins))" by code_simp+
  have c: "delete_checks 2 1 three_admins = Inr ()" "delete_checks 1 2 three_admins = Inr ()" by code_simp+
  have u: "get_user three_admins 1 = Some demo_admin" "active_admin demo_admin"
    "get_user three_admins 2 = Some (demo_admin\<lparr>us_id := 2, us_username := ''alice''\<rparr>)"
    "active_admin (demo_admin\<lparr>us_id := 2, us_username := ''alice''\<rparr>)" by code_simp+
  note step = account_step.delete_request [OF u(1,2), of plain_crypto "[]" 2]
    account_step.delete_request [OF u(3,4), of plain_crypto "[Delete_allowed 2 1]" 1]
    account_step.delete_check [OF _ c(1), of "[Delete_allowed 1 2, Delete_allowed 2 1]" plain_crypto]
    account_step.delete_check [OF _ c(2), of "[Delete_checked 2 1, Delete_allowed 1 2]" plain_crypto]
    account_step.delete_write [of 2 1 "[Delete_checked 1 2, Delete_checked 2 1]" plain_crypto three_admins]
    account_step.delete_write [of 1 2 "[Delete_checked 1 2]" plain_crypto "delete_write 2 three_admins"]
  show "account_steps plain_crypto (three_admins, []) (delete_write 1 (delete_write 2 three_admins), [])"
    using step by (simp del: One_nat_def)
qed

section \<open>A password change ends the sessions\<close>

lemma session_row_user: "session_row db P = Some (s, u) \<Longrightarrow> s \<in> set (sd_sessions db) \<and> us_id u = se_user_id s"
  by (auto simp: session_row_def dest: table_get_SomeD find_SomeD split: option.splits)

lemma get_session_user_owner:
  "get_session_user cr idle writable touch token now db = (db', Some u) \<Longrightarrow>
   us_id u \<in> se_user_id ` set (sd_sessions db)"
  by (auto simp: get_session_user_def split: if_splits option.splits prod.splits dest!: session_row_user)

lemma reload_user_owner:
  "get_session_user_by_reload_token cr idle writable token agent now db = (db', Some u) \<Longrightarrow>
   us_id u \<in> se_user_id ` set (sd_sessions db)"
  by (auto simp: get_session_user_by_reload_token_def split: if_splits option.splits prod.splits
      dest!: session_row_user)

lemma owners_revoked: "s \<in> set (sd_sessions (revoke_user_sessions i db)) \<Longrightarrow> se_user_id s \<noteq> i"
  by (auto simp: revoke_user_sessions_def delete_sessions_def Let_def)

lemma sessions_drop_secret [simp]: "sd_sessions (drop_secret a b db) = sd_sessions db"
  by (simp add: drop_secret_def)

text \<open>The operations after which the account has to sign in again.\<close>

definition ends_sessions :: "crypto \<Rightarrow> nat \<Rightarrow> security_db \<Rightarrow> security_db \<Rightarrow> bool" where
  "ends_sessions cr i db db' =
     ((\<exists>p m. set_user_password cr i p m db = Inr db') \<or> (\<exists>old new. change_own_password cr i old new db = Inr db') \<or>
      (\<exists>name role. update_user i name role False db = Inr db') \<or> (\<exists>c. delete_user i c db = Inr db') \<or>
      reset_two_factor i db = Inr db' \<or> (\<exists>code now. confirm_two_factor_setup cr i code now db = Inr db'))"

text \<open>
  C31: After a password was set or changed, an account disabled or deleted, or its two-factor setup
  confirmed or reset, no session cookie and no reload token signs that account in any more,
  whatever the token, the time and the user agent: every session of it is gone.
\<close>

theorem credential_change_ends_sessions:
  assumes "ends_sessions cr i db db'"
  shows "(\<nexists>idle writable touch token now db2 u.
            get_session_user cr idle writable touch token now db' = (db2, Some u) \<and> us_id u = i) \<and>
         (\<nexists>idle writable token agent now db2 u.
            get_session_user_by_reload_token cr idle writable token agent now db' = (db2, Some u) \<and> us_id u = i)"
proof -
  have "i \<notin> se_user_id ` set (sd_sessions db')"
    using assms
    by (auto dest: owners_revoked simp: ends_sessions_def set_user_password_def change_own_password_def update_user_def
        delete_user_def reset_two_factor_def confirm_two_factor_setup_def try_bind_Inr_iff Let_def
        split: option.splits if_splits)
  then show ?thesis using get_session_user_owner reload_user_owner by metis
qed

lemma credential_change_ends_sessions_witness:
  "snd (get_session_user plain_crypto 3600 True True (Some ''t'') 5 demo_security) = Some demo_admin \<and>
   (\<exists>db'. set_user_password plain_crypto 1 ''Another-Pass-2'' True demo_security = Inr db' \<and>
     (\<nexists>idle writable touch token now db2 u.
        get_session_user plain_crypto idle writable touch token now db' = (db2, Some u) \<and> us_id u = 1))"
proof
  show "snd (get_session_user plain_crypto 3600 True True (Some ''t'') 5 demo_security) = Some demo_admin"
    by code_simp
  have "is_Inr (set_user_password plain_crypto 1 ''Another-Pass-2'' True demo_security)" by code_simp
  then obtain db' where d: "set_user_password plain_crypto 1 ''Another-Pass-2'' True demo_security = Inr db'"
    by (auto simp: is_Inr_iff)
  then have "ends_sessions plain_crypto 1 demo_security db'" by (auto simp: ends_sessions_def)
  from credential_change_ends_sessions [OF this] d
  show "\<exists>db'. set_user_password plain_crypto 1 ''Another-Pass-2'' True demo_security = Inr db' \<and>
     (\<nexists>idle writable touch token now db2 u.
        get_session_user plain_crypto idle writable touch token now db' = (db2, Some u) \<and> us_id u = 1)"
    by blast
qed

section \<open>A recovery code works once\<close>

lemma verify_recovery:
  assumes "verify_second_factor_row cr u code now = Inr (True, True, codes)"
  shows "codes = remove1 (hash_recovery_code cr (normalize_recovery_code code)) (us_tf_codes u) \<and>
         hash_recovery_code cr (normalize_recovery_code code) \<in> set (us_tf_codes u)"
  using assms
  by (auto simp: verify_second_factor_row_def try_bind_Inr_iff Let_def split: option.splits if_splits)

text \<open>
  A recovery code signs in at most once: when a sign-in was accepted with a recovery code and the
  stored codes of the account were distinct, exactly that code has left the stored ones, and a
  later check of the same code is never accepted as a recovery code again.
\<close>

theorem recovery_code_single_use:
  assumes auth: "authenticate_user cr username password (Some code) now db = Inr (db', Some u, Auth_recovery_code)"
    and keys: "unique_keys us_id (sd_users db)" and codes: "distinct (us_tf_codes u)"
  shows "\<exists>u'. get_user db' (us_id u) = Some u' \<and>
           set (us_tf_codes u') = set (us_tf_codes u) - {hash_recovery_code cr (normalize_recovery_code code)} \<and>
           length (us_tf_codes u') + 1 = length (us_tf_codes u) \<and>
           (\<nexists>later rest. verify_second_factor_row cr u' code later = Inr (True, True, rest))"
proof -
  define h where "h = hash_recovery_code cr (normalize_recovery_code code)"
  from auth obtain rest where f: "find_user db (py_strip username) = Some u"
    and v: "verify_second_factor_row cr u code now = Inr (True, True, rest)"
    and db': "db' = modify_user (us_id u) (\<lambda>u. u\<lparr>us_tf_codes := rest, us_failed_attempts := 0,
                us_locked_until := None, us_last_login := Some now\<rparr>) db"
    by (auto simp: authenticate_user_def try_bind_Inr_iff split: option.splits if_splits)
  have r: "rest = remove1 h (us_tf_codes u)" "h \<in> set (us_tf_codes u)"
    using verify_recovery [OF v] by (simp_all add: h_def)
  have "get_user db (us_id u) = Some u"
    using f table_get_eq_Some [OF keys, of "us_id u" u] by (auto simp: find_user_def dest: find_SomeD)
  then obtain u' where u': "get_user db' (us_id u) = Some u'" "us_tf_codes u' = rest"
    by (simp add: db' table_get_modify)
  have "length rest + 1 = length (us_tf_codes u)"
    using r by (simp add: length_remove1) (metis Suc_pred length_pos_if_in_set)
  moreover have "set rest = set (us_tf_codes u) - {h}" using r codes by simp
  moreover have "\<nexists>later rest'. verify_second_factor_row cr u' code later = Inr (True, True, rest')"
    using verify_recovery [of cr u' code] r codes u'(2) by (auto simp: h_def)
  ultimately show ?thesis using u' by (auto simp: h_def)
qed

definition demo_tf_user :: user where
  "demo_tf_user = demo_admin\<lparr>us_tf_enabled := True, us_tf_secret := Some ''S'',
     us_tf_codes := [''AB12CD34'', ''EF56'']\<rparr>"

lemma recovery_code_single_use_witness:
  "\<exists>db' u'. authenticate_user plain_crypto '' ROOT '' ''Secret-Pass-1'' (Some ''ab12-cd34'') 0
       (demo_security\<lparr>sd_users := [demo_tf_user]\<rparr>) = Inr (db', Some demo_tf_user, Auth_recovery_code) \<and>
     get_user db' 1 = Some u' \<and> length (us_tf_codes u') + 1 = 2"
proof -
  define db where "db = demo_security\<lparr>sd_users := [demo_tf_user]\<rparr>"
  define db' where "db' = modify_user 1 (\<lambda>u. u\<lparr>us_tf_codes := [''EF56''], us_failed_attempts := 0,
    us_locked_until := None, us_last_login := Some 0\<rparr>) db"
  have a: "authenticate_user plain_crypto '' ROOT '' ''Secret-Pass-1'' (Some ''ab12-cd34'') 0 db =
      Inr (db', Some demo_tf_user, Auth_recovery_code)"
    unfolding db_def db'_def by code_simp
  have k: "unique_keys us_id (sd_users db)" "distinct (us_tf_codes demo_tf_user)"
    unfolding db_def by code_simp+
  have "us_id demo_tf_user = 1" "length (us_tf_codes demo_tf_user) = 2" by code_simp+
  with recovery_code_single_use [OF a k] a show ?thesis unfolding db_def by metis
qed

end
