(* ===== verification/Streams.thy ===== *)
theory Streams
  imports Model
begin

text \<open>
  Filters over the output of a run, which arrives in arbitrary chunks of bytes: the interface of a
  filter whose result does not depend on the chunk boundaries, the cutting of a stream into complete
  lines, and the telemetry filter \<open>BorgNetworkStreamFilter\<close> of \<open>src/app/borg_progress.py\<close>. Decoding of
  UTF-8 is not modelled: decoded text stays as its bytes.
\<close>

section \<open>The interface of a chunk filter\<close>

fun feed_chunks :: "('s \<Rightarrow> string \<Rightarrow> 's \<times> string) \<Rightarrow> 's \<Rightarrow> string list \<Rightarrow> 's \<times> string" where
  "feed_chunks feed s [] = (s, [])"
| "feed_chunks feed s (d # ds) =
     (case feed s d of (s1, o1) \<Rightarrow> (case feed_chunks feed s1 ds of (s2, o2) \<Rightarrow> (s2, o1 @ o2)))"

locale chunk_filter =
  fixes feed :: "'s \<Rightarrow> string \<Rightarrow> 's \<times> string"
  assumes feed_nil: "feed s [] = (s, [])"
    and feed_append: "feed s (a @ b) =
      (case feed s a of (s1, o1) \<Rightarrow> (case feed s1 b of (s2, o2) \<Rightarrow> (s2, o1 @ o2)))"
begin

lemma chunks_concat: "feed_chunks feed s ds = feed s (concat ds)"
  by (induction ds arbitrary: s) (simp_all add: feed_nil feed_append split: prod.splits)

lemma same_stream: "concat ds = concat es \<Longrightarrow> feed_chunks feed s ds = feed_chunks feed s es"
  by (simp add: chunks_concat)

end

section \<open>Complete lines\<close>

text \<open>
  \<open>payload[: newline + 1]\<close> and \<open>payload[newline + 1 :]\<close> for the last line feed, and the lines of a
  text that ends with one, without their line feeds.
\<close>

definition cut_lines :: "string \<Rightarrow> string \<times> string" where
  "cut_lines p =
     (rev (dropWhile (\<lambda>c. c \<noteq> newline) (rev p)), rev (takeWhile (\<lambda>c. c \<noteq> newline) (rev p)))"

fun lf_lines :: "string \<Rightarrow> string list" where
  "lf_lines [] = []"
| "lf_lines (c # s) =
     (if c = newline then [] # lf_lines s
      else case lf_lines s of [] \<Rightarrow> [[c]] | w # ws \<Rightarrow> (c # w) # ws)"

definition ends_line :: "string \<Rightarrow> bool" where
  "ends_line s \<longleftrightarrow> s = [] \<or> last s = newline"

lemma cut_lines_append: "fst (cut_lines p) @ snd (cut_lines p) = p"
  by (simp add: cut_lines_def) (metis rev_append rev_rev_ident takeWhile_dropWhile_id)

lemma cut_lines_rest: "newline \<notin> set (snd (cut_lines p))"
  by (auto simp: cut_lines_def dest: set_takeWhileD)

lemma cut_lines_complete: "ends_line (fst (cut_lines p))"
proof (cases "dropWhile (\<lambda>c. c \<noteq> newline) (rev p)")
  case Nil
  then show ?thesis by (simp add: cut_lines_def ends_line_def)
next
  case (Cons x xs)
  then have "x = newline" using hd_dropWhile [of "\<lambda>c. c \<noteq> newline" "rev p"] by simp
  with Cons show ?thesis by (simp add: cut_lines_def ends_line_def)
qed

lemma cut_lines_unique:
  assumes "p = c @ r" and "ends_line c" and "newline \<notin> set r"
  shows "cut_lines p = (c, r)"
proof -
  have r: "takeWhile (\<lambda>x. x \<noteq> newline) (rev r) = rev r" "dropWhile (\<lambda>x. x \<noteq> newline) (rev r) = []"
    using assms(3) by auto
  show ?thesis
  proof (cases "c = []")
    case True
    with assms(1) show ?thesis unfolding cut_lines_def by (simp only: append_Nil r) simp
  next
    case False
    with assms(2) obtain c' where c': "c = c' @ [newline]"
      by (metis append_butlast_last_id ends_line_def)
    have all: "\<And>x. x \<in> set (rev r) \<Longrightarrow> x \<noteq> newline" using assms(3) by auto
    have "dropWhile (\<lambda>x. x \<noteq> newline) (rev r @ newline # rev c') = newline # rev c'"
      by (subst dropWhile_append2 [OF all]) simp_all
    moreover have "takeWhile (\<lambda>x. x \<noteq> newline) (rev r @ newline # rev c') = rev r"
      by (subst takeWhile_append2 [OF all]) simp_all
    ultimately show ?thesis using assms(1) by (simp add: cut_lines_def c')
  qed
qed

lemma cut_lines_cat:
  "cut_lines (a @ b) =
     (fst (cut_lines a) @ fst (cut_lines (snd (cut_lines a) @ b)), snd (cut_lines (snd (cut_lines a) @ b)))"
proof (rule cut_lines_unique)
  show "a @ b = (fst (cut_lines a) @ fst (cut_lines (snd (cut_lines a) @ b))) @
      snd (cut_lines (snd (cut_lines a) @ b))"
    using cut_lines_append [of a] cut_lines_append [of "snd (cut_lines a) @ b"]
    by (metis append.assoc)
  show "ends_line (fst (cut_lines a) @ fst (cut_lines (snd (cut_lines a) @ b)))"
    using cut_lines_complete [of a] cut_lines_complete [of "snd (cut_lines a) @ b"]
    by (auto simp: ends_line_def last_append)
qed (rule cut_lines_rest)

lemma lf_lines_cat: "ends_line a \<Longrightarrow> lf_lines (a @ b) = lf_lines a @ lf_lines b"
proof (induction a)
  case (Cons c a)
  show ?case
  proof (cases "a = []")
    case True
    with Cons.prems show ?thesis by (simp add: ends_line_def)
  next
    case False
    with Cons have IH: "lf_lines (a @ b) = lf_lines a @ lf_lines b" by (simp add: ends_line_def)
    have "lf_lines a \<noteq> []" using False by (cases a) (auto split: list.splits)
    with IH show ?thesis by (auto split: list.splits)
  qed
qed simp

lemma lf_lines_nil [simp]: "lf_lines s = [] \<longleftrightarrow> s = []"
  by (cases s) (auto split: list.splits)

lemma lf_lines_no_lf: "w \<in> set (lf_lines s) \<Longrightarrow> newline \<notin> set w"
  by (induction s arbitrary: w) (auto split: list.splits if_splits)

lemma cut_lines_no_lf: "newline \<notin> set p \<Longrightarrow> cut_lines p = ([], p)"
  by (rule cut_lines_unique) (simp_all add: ends_line_def)

text \<open>\<open>bytes.decode(\<dots>).strip()\<close> with the decoded text kept as bytes.\<close>

definition byte_strip :: "string \<Rightarrow> string" where
  "byte_strip s = strip_by (\<lambda>c. is_space c \<and> is_ascii c) s"

section \<open>Network telemetry\<close>

definition net_prefix :: string where
  "net_prefix = CHR 0x1E # ''BBMNET'' @ [CHR 0x09]"

text \<open>\<open>_NETWORK_RECORD_RE\<close>: interface, address, received, sent, and the mark of the route.\<close>

definition net_fields :: "string \<Rightarrow> (string \<times> string \<times> int \<times> int \<times> bool) option" where
  "net_fields rec =
     (let fields = split_on (CHR 0x09) rec;
          text = (\<lambda>s. s \<noteq> [] \<and> carriage \<notin> set s \<and> newline \<notin> set s);
          number = (\<lambda>s. s \<noteq> [] \<and> list_all is_digit s) in
      if (length fields = 5 \<or> length fields = 6) \<and> fields ! 0 = CHR 0x1E # ''BBMNET'' \<and>
         text (fields ! 1) \<and> text (fields ! 2) \<and> number (fields ! 3) \<and> number (fields ! 4) \<and>
         (length fields = 6 \<longrightarrow> fields ! 5 \<in> {''0'', ''1''})
      then Some (byte_strip (fields ! 1), byte_strip (fields ! 2),
             int (digits_value (fields ! 3)), int (digits_value (fields ! 4)),
             length fields = 5 \<or> fields ! 5 = ''1'')
      else None)"

record net_interface =
  ni_interface :: string
  ni_address :: string
  ni_download_rate :: "rat option"
  ni_upload_rate :: "rat option"
  ni_route :: bool

record net_filter =
  nf_carry :: string
  nf_previous :: "(string \<times> string \<times> int \<times> int \<times> time) list"
  nf_baseline :: "(string \<times> int \<times> int) option"
  nf_latest :: "net_interface list"
  nf_route_interface :: string
  nf_route_address :: string
  nf_download :: int
  nf_upload :: int

definition new_net_filter :: net_filter where
  "new_net_filter =
     \<lparr>nf_carry = [], nf_previous = [], nf_baseline = None, nf_latest = [], nf_route_interface = [],
      nf_route_address = [], nf_download = 0, nf_upload = 0\<rparr>"

text \<open>The route first, then by name; the key is a pair of a flag and the name.\<close>

definition interface_order :: "net_interface list \<Rightarrow> net_interface list" where
  "interface_order is = sort_key (\<lambda>i. (if ni_route i then ''0'' else ''1'') @ ni_interface i) is"

definition net_rate :: "int \<Rightarrow> int \<Rightarrow> time \<Rightarrow> rat" where
  "net_rate old new delta = of_int ((new - old) * 8) / (of_int delta / 1000000)"

text \<open>\<open>_parse\<close> of a record that matched, at the time \<open>now\<close>.\<close>

definition note_route :: "string \<Rightarrow> string \<Rightarrow> int \<Rightarrow> int \<Rightarrow> net_filter \<Rightarrow> net_filter" where
  "note_route interface address rx tx f =
     (let f' = (case nf_baseline f of
          None \<Rightarrow> f\<lparr>nf_baseline := Some (interface, rx, tx), nf_download := 0, nf_upload := 0\<rparr>
        | Some (base, base_rx, base_tx) \<Rightarrow>
            if base \<noteq> interface
            then f\<lparr>nf_baseline := Some (interface, rx, tx), nf_download := 0, nf_upload := 0\<rparr>
            else f\<lparr>nf_download := (if base_rx \<le> rx then rx - base_rx else nf_download f),
                   nf_upload := (if base_tx \<le> tx then tx - base_tx else nf_upload f)\<rparr>) in
      f'\<lparr>nf_route_interface := interface, nf_route_address := address\<rparr>)"

definition net_rates :: "net_filter \<Rightarrow> time \<Rightarrow> string \<Rightarrow> string \<Rightarrow> int \<Rightarrow> int \<Rightarrow> (rat \<times> rat) option" where
  "net_rates f now interface address rx tx =
     (case map_of (nf_previous f) interface of
        None \<Rightarrow> None
      | Some (prev_address, prev_rx, prev_tx, prev_time) \<Rightarrow>
          if address = prev_address \<and> 0 < now - prev_time \<and> prev_rx \<le> rx \<and> prev_tx \<le> tx
          then Some (net_rate prev_rx rx (now - prev_time), net_rate prev_tx tx (now - prev_time))
          else None)"

definition net_record :: "time \<Rightarrow> string \<Rightarrow> net_filter \<Rightarrow> net_filter" where
  "net_record now rec f =
     (case net_fields rec of
        None \<Rightarrow> f
      | Some (interface, address, rx, tx, route) \<Rightarrow>
          (let rates = net_rates f now interface address rx tx;
               f1 = f\<lparr>nf_previous := dict_set interface (address, rx, tx, now) (nf_previous f)\<rparr>;
               f2 = (if route then note_route interface address rx tx f1 else f1);
               entry = \<lparr>ni_interface = interface, ni_address = address,
                        ni_download_rate = map_option fst rates, ni_upload_rate = map_option snd rates,
                        ni_route = route\<rparr>;
               rest = filter (\<lambda>i. ni_interface i \<noteq> interface) (nf_latest f2) in
           f2\<lparr>nf_latest := take 3 (interface_order (rest @ [entry]))\<rparr>))"

text \<open>\<open>payload.find(b"\n", marker)\<close>: the record and the text behind its line feed.\<close>

fun break_line :: "string \<Rightarrow> (string \<times> string) option" where
  "break_line [] = None"
| "break_line (c # s) =
     (if c = newline then Some ([], s) else map_option (\<lambda>(a, b). (c # a, b)) (break_line s))"

lemma break_line_shorter: "break_line s = Some (a, b) \<Longrightarrow> length b < length s"
  by (induction s arbitrary: a) (auto split: if_splits)

text \<open>
  The loop of \<open>feed\<close> over a payload: the output, the new carry and the telemetry records in it. At the
  cursor either a marker begins, or the rest is the beginning of one, or a byte is passed on.
\<close>

function net_scan :: "string \<Rightarrow> string \<times> string \<times> string list" where
  "net_scan [] = ([], [], [])"
| "net_scan (x # s) =
     (if starts_with net_prefix (x # s) then
        (case break_line (x # s) of
           None \<Rightarrow> ([], x # s, [])
         | Some (rec, rest) \<Rightarrow>
             (case net_scan rest of (out, carry, recs) \<Rightarrow>
                if net_fields rec = None then (rec @ newline # out, carry, recs)
                else (out, carry, rec # recs)))
      else if starts_with (x # s) net_prefix then ([], x # s, [])
      else (case net_scan s of (out, carry, recs) \<Rightarrow> (x # out, carry, recs)))"
  by pat_completeness auto
termination
  by (relation "measure length") (auto simp del: break_line.simps dest!: break_line_shorter)

declare net_scan.simps [simp del]

definition net_feed :: "time \<Rightarrow> net_filter \<Rightarrow> string \<Rightarrow> net_filter \<times> string" where
  "net_feed now f data =
     (if data = [] then (f, [])
      else if nf_carry f = [] \<and> CHR 0x1E \<notin> set data then (f, data)
      else case net_scan (nf_carry f @ data) of (out, carry, recs) \<Rightarrow>
        (fold (net_record now) recs (f\<lparr>nf_carry := carry\<rparr>), out))"

definition net_finalize :: "time \<Rightarrow> net_filter \<Rightarrow> net_filter \<times> string" where
  "net_finalize now f =
     (let final = nf_carry f; rec = rstrip_by (\<lambda>c. c = carriage \<or> c = newline) final;
          f' = f\<lparr>nf_carry := []\<rparr> in
      if net_fields rec = None then (f', final) else (net_record now rec f', []))"

subsection \<open>Chunk boundaries do not matter\<close>

lemma starts_with_iff: "starts_with p s \<longleftrightarrow> (\<exists>z. s = p @ z)"
  by (auto simp: starts_with_def) (metis append_take_drop_id)

lemma break_line_append: "break_line a = Some (r, s) \<Longrightarrow> break_line (a @ b) = Some (r, s @ b)"
  by (induction a arbitrary: r) (auto split: if_splits)

lemma net_scan_cat:
  "net_scan (a @ b) =
     (case net_scan a of (o1, c1, r1) \<Rightarrow>
      case net_scan (c1 @ b) of (o2, c2, r2) \<Rightarrow> (o1 @ o2, c2, r1 @ r2))"
proof (induction a rule: net_scan.induct)
  case 1
  then show ?case by (simp add: net_scan.simps(1))
next
  case (2 x s)
  show ?case
  proof (cases "starts_with net_prefix (x # s)")
    case True
    then have ab: "starts_with net_prefix (x # s @ b)"
      by (auto simp: starts_with_iff) (metis append.assoc append_Cons)
    show ?thesis
    proof (cases "break_line (x # s)")
      case None
      with True have "net_scan (x # s) = ([], x # s, [])" by (simp add: net_scan.simps)
      then show ?thesis by simp
    next
      case (Some p)
      then obtain rec rest where p: "break_line (x # s) = Some (rec, rest)" by (cases p) auto
      then have q: "break_line (x # s @ b) = Some (rec, rest @ b)"
        using break_line_append by fastforce
      note IH = "2.IH"(1) [OF True p refl]
      show ?thesis
        using True ab p q IH
        by (simp add: net_scan.simps(2) [of x s] net_scan.simps(2) [of x "s @ b"] split: prod.splits)
    qed
  next
    case no_marker: False
    show ?thesis
    proof (cases "starts_with (x # s) net_prefix")
      case True
      with no_marker have "net_scan (x # s) = ([], x # s, [])" by (simp add: net_scan.simps)
      then show ?thesis by simp
    next
      case False
      have n1: "\<not> starts_with net_prefix (x # s @ b)"
      proof
        assume "starts_with net_prefix (x # s @ b)"
        then obtain z where z: "(x # s) @ b = net_prefix @ z" by (auto simp: starts_with_iff)
        from this [unfolded append_eq_append_conv2]
        have "starts_with net_prefix (x # s) \<or> starts_with (x # s) net_prefix"
          unfolding starts_with_iff by metis
        then show False using no_marker False by simp
      qed
      have n2: "\<not> starts_with (x # s @ b) net_prefix"
        using False by (auto simp: starts_with_iff)
      show ?thesis
        using no_marker False n1 n2 "2.IH"(2) [OF no_marker False]
        by (simp add: net_scan.simps(2) [of x s] net_scan.simps(2) [of x "s @ b"] split: prod.splits)
    qed
  qed
qed

lemma net_scan_plain: "CHR 0x1E \<notin> set s \<Longrightarrow> net_scan s = (s, [], [])"
proof (induction s)
  case (Cons x s)
  then have "\<not> starts_with net_prefix (x # s)" "\<not> starts_with (x # s) net_prefix"
    by (auto simp: starts_with_iff net_prefix_def)
  with Cons show ?case by (simp add: net_scan.simps)
qed (simp add: net_scan.simps)

lemma carry_record [simp]: "nf_carry (net_record now rec f) = nf_carry f"
  by (simp add: net_record_def note_route_def Let_def split: option.splits prod.splits)

lemma carry_records [simp]: "nf_carry (fold (net_record now) recs f) = nf_carry f"
  by (induction recs arbitrary: f) simp_all

text \<open>A stream that arrives at different times: each chunk with the clock of its call.\<close>

fun net_feed_all :: "net_filter \<Rightarrow> (time \<times> string) list \<Rightarrow> net_filter \<times> string" where
  "net_feed_all f [] = (f, [])"
| "net_feed_all f ((now, d) # ds) =
     (case net_feed now f d of (f1, o1) \<Rightarrow> (case net_feed_all f1 ds of (f2, o2) \<Rightarrow> (f2, o1 @ o2)))"

lemma net_feed_scan:
  "snd (net_feed now f d) = fst (net_scan (nf_carry f @ d)) \<and>
   nf_carry (fst (net_feed now f d)) = fst (snd (net_scan (nf_carry f @ d)))"
  if "net_scan (nf_carry f) = ([], nf_carry f, [])"
  using that by (auto simp: net_feed_def net_scan_plain split: prod.splits)

lemma net_scan_carry: "net_scan p = (o1, c, rs) \<Longrightarrow> net_scan c = ([], c, [])"
proof (induction p arbitrary: o1 rs rule: net_scan.induct)
  case (2 x s)
  show ?case
  proof (cases "starts_with net_prefix (x # s)")
    case True
    show ?thesis
    proof (cases "break_line (x # s)")
      case None
      with True have "net_scan (x # s) = ([], x # s, [])" by (simp add: net_scan.simps)
      with "2.prems" show ?thesis by simp
    next
      case (Some p)
      then obtain rec rest where p: "break_line (x # s) = Some (rec, rest)" by (cases p) auto
      obtain o' c' rs' where n: "net_scan rest = (o', c', rs')" by (metis surj_pair)
      have "c' = c" using "2.prems" True p n by (simp add: net_scan.simps split: if_splits)
      with n have n': "net_scan rest = (o', c, rs')" by simp
      show ?thesis by (rule "2.IH"(1) [OF True p refl n'])
    qed
  next
    case no_marker: False
    show ?thesis
    proof (cases "starts_with (x # s) net_prefix")
      case True
      with no_marker have "net_scan (x # s) = ([], x # s, [])" by (simp add: net_scan.simps)
      with "2.prems" show ?thesis by simp
    next
      case False
      obtain o' c' rs' where n: "net_scan s = (o', c', rs')" by (metis surj_pair)
      have "c' = c" using "2.prems" no_marker False n by (simp add: net_scan.simps)
      with n have n': "net_scan s = (o', c, rs')" by simp
      show ?thesis by (rule "2.IH"(2) [OF no_marker False n'])
    qed
  qed
qed (simp add: net_scan.simps)

lemma net_feed_all_scan:
  "net_scan (nf_carry f) = ([], nf_carry f, []) \<Longrightarrow>
   snd (net_feed_all f ds) = fst (net_scan (nf_carry f @ concat (map snd ds))) \<and>
   nf_carry (fst (net_feed_all f ds)) = fst (snd (net_scan (nf_carry f @ concat (map snd ds))))"
proof (induction f ds rule: net_feed_all.induct)
  case (2 f now d ds)
  obtain f1 o1 where f1: "net_feed now f d = (f1, o1)" by (metis surj_pair)
  obtain o' c' rs' where n: "net_scan (nf_carry f @ d) = (o', c', rs')" by (metis surj_pair)
  have e: "o1 = o'" "nf_carry f1 = c'"
    using net_feed_scan [OF "2.prems", of now d] f1 n by simp_all
  have "net_scan (nf_carry f1) = ([], nf_carry f1, [])" using net_scan_carry [OF n] e by simp
  note IH = "2.IH" [OF f1 [symmetric] this]
  have "net_scan (nf_carry f @ d @ concat (map snd ds)) =
      (case net_scan (c' @ concat (map snd ds)) of (o2, c2, r2) \<Rightarrow> (o' @ o2, c2, rs' @ r2))"
    using net_scan_cat [of "nf_carry f @ d" "concat (map snd ds)"] n by simp
  moreover obtain f2 o2 where "net_feed_all f1 ds = (f2, o2)" by (metis surj_pair)
  ultimately show ?case using IH f1 e by (simp split: prod.splits)
qed simp

text \<open>
  Stripping the telemetry from the output of a run does not depend on how the operating system
  cuts the stream into chunks nor on the clock: the log receives, and the filter holds back, exactly
  what one pass over the whole stream gives.
\<close>

theorem network_filter_chunk_independent:
  "snd (net_feed_all new_net_filter ds) = fst (net_scan (concat (map snd ds))) \<and>
   nf_carry (fst (net_feed_all new_net_filter ds)) = fst (snd (net_scan (concat (map snd ds))))"
  using net_feed_all_scan [of new_net_filter ds] by (simp add: new_net_filter_def net_scan.simps)

end
