(* ===== verification/ItemLines.thy ===== *)
theory ItemLines
  imports Streams "HOL-Library.Sublist"
begin

text \<open>
  Filters for the item lines of Borg's \<open>--list\<close> output: \<open>BorgItemActivityStreamFilter\<close> of
  \<open>src/app/borg_progress.py\<close>, which counts them, and \<open>_BackupSqlitePreviewFilter\<close> of \<open>src/app/service.py\<close>,
  which keeps them out of the database. The regular expressions are written as functions on one line;
  none of their repetitions can cross a line feed.
\<close>

section \<open>One item line\<close>

definition is_blank :: "char \<Rightarrow> bool" where
  "is_blank c = (c = CHR '' '' \<or> c = CHR 0x09)"

definition lower_ascii :: "string \<Rightarrow> string" where
  "lower_ascii s = map (\<lambda>c. if is_upper c then char_of (char_code c + 32) else c) s"

text \<open>\<open>[ \t]*(?:[Rr][Ee][Mm][Oo][Tt][Ee]:[ \t]*)?\<close>: the text behind it.\<close>

definition item_head :: "string \<Rightarrow> string" where
  "item_head s = (let t = dropWhile is_blank s in
     if lower_ascii (take 7 t) = ''remote:'' then dropWhile is_blank (drop 7 t) else t)"

text \<open>A status character and the text behind it, which begins with a blank.\<close>

definition item_split :: "string \<Rightarrow> (char \<times> string) option" where
  "item_split s =
     (case item_head s of
        [] \<Rightarrow> None
      | f # r \<Rightarrow> (case r of [] \<Rightarrow> None | c # _ \<Rightarrow> if is_blank c then Some (f, r) else None))"

definition drop_carriage :: "string \<Rightarrow> string" where
  "drop_carriage s = (if s \<noteq> [] \<and> last s = carriage then butlast s else s)"

section \<open>Counting item lines\<close>

record item_filter =
  if_strip :: bool
  if_carry :: string
  if_added :: nat
  if_modified :: nat
  if_changed :: nat
  if_error :: nat
  if_last_status :: string
  if_last_path :: string

definition new_item_filter :: "bool \<Rightarrow> item_filter" where
  "new_item_filter strip_added_modified =
     \<lparr>if_strip = strip_added_modified, if_carry = [], if_added = 0, if_modified = 0, if_changed = 0,
      if_error = 0, if_last_status = [], if_last_path = []\<rparr>"

text \<open>\<open>_ITEM_ACTIVITY_RE\<close> on a line without its line feed: the status and the path.\<close>

definition item_activity :: "string \<Rightarrow> (char \<times> string) option" where
  "item_activity line =
     (case item_split line of
        None \<Rightarrow> None
      | Some (f, r) \<Rightarrow>
          (let path = drop_carriage (tl r) in
           if f \<in> {CHR ''A'', CHR ''M'', CHR ''C'', CHR ''E''} \<and> path \<noteq> [] \<and> carriage \<notin> set path
           then Some (f, path) else None))"

definition count_item :: "string \<Rightarrow> item_filter \<Rightarrow> item_filter" where
  "count_item line f =
     (case item_activity line of
        None \<Rightarrow> f
      | Some (status, path) \<Rightarrow>
          f\<lparr>if_added := if_added f + (if status = CHR ''A'' then 1 else 0),
            if_modified := if_modified f + (if status = CHR ''M'' then 1 else 0),
            if_changed := if_changed f + (if status = CHR ''C'' then 1 else 0),
            if_error := if_error f + (if status = CHR ''E'' then 1 else 0),
            if_last_status := [status], if_last_path := byte_strip path\<rparr>)"

definition consume_items :: "string \<Rightarrow> item_filter \<Rightarrow> item_filter" where
  "consume_items block f = fold count_item (lf_lines block) f"

text \<open>\<open>_ADDED_MODIFIED_LINE_RE\<close> on a line that ends with a line feed, and on an unterminated one.\<close>

definition added_modified :: "bool \<Rightarrow> string \<Rightarrow> bool" where
  "added_modified terminated line =
     (case item_split line of
        None \<Rightarrow> False
      | Some (f, r) \<Rightarrow> f \<in> {CHR ''A'', CHR ''M''} \<and>
          carriage \<notin> set (if terminated then drop_carriage r else r))"

definition strip_items :: "string \<Rightarrow> string" where
  "strip_items block =
     concat (map (\<lambda>l. if added_modified True l then [] else l @ [newline]) (lf_lines block))"

definition item_feed :: "item_filter \<Rightarrow> string \<Rightarrow> item_filter \<times> string" where
  "item_feed f data =
     (if data = [] then (f, [])
      else (let payload = if_carry f @ data; block = fst (cut_lines payload); rest = snd (cut_lines payload) in
        if newline \<notin> set payload then (f\<lparr>if_carry := payload\<rparr>, if if_strip f then [] else data)
        else (consume_items block (f\<lparr>if_carry := rest\<rparr>),
              if if_strip f then strip_items block else data)))"

definition item_finalize :: "item_filter \<Rightarrow> item_filter \<times> string" where
  "item_finalize f =
     (let final = if_carry f; f' = consume_items final (f\<lparr>if_carry := []\<rparr>) in
      if final = [] then (f, [])
      else if if_strip f \<and> added_modified False final then (f', [])
      else (f', if if_strip f then final else []))"

lemma count_item_carry [simp]:
  "count_item l (f\<lparr>if_carry := c\<rparr>) = (count_item l f)\<lparr>if_carry := c\<rparr>"
  "if_carry (count_item l f) = if_carry f" "if_strip (count_item l f) = if_strip f"
  by (simp_all add: count_item_def split: option.splits)

lemma consume_items_carry [simp]:
  "consume_items s (f\<lparr>if_carry := c\<rparr>) = (consume_items s f)\<lparr>if_carry := c\<rparr>"
  "if_carry (consume_items s f) = if_carry f" "if_strip (consume_items s f) = if_strip f"
proof -
  have "fold count_item ls (f\<lparr>if_carry := c\<rparr>) = (fold count_item ls f)\<lparr>if_carry := c\<rparr> \<and>
      if_carry (fold count_item ls f) = if_carry f \<and> if_strip (fold count_item ls f) = if_strip f" for ls
    by (induction ls arbitrary: f) simp_all
  then show "consume_items s (f\<lparr>if_carry := c\<rparr>) = (consume_items s f)\<lparr>if_carry := c\<rparr>"
    "if_carry (consume_items s f) = if_carry f" "if_strip (consume_items s f) = if_strip f"
    by (simp_all add: consume_items_def)
qed

lemma consume_items_cat: "ends_line a \<Longrightarrow> consume_items (a @ b) f = consume_items b (consume_items a f)"
  by (simp add: consume_items_def lf_lines_cat)

lemma consume_items_nil [simp]: "consume_items [] f = f"
  by (simp add: consume_items_def)

lemma strip_items_cat: "ends_line a \<Longrightarrow> strip_items (a @ b) = strip_items a @ strip_items b"
  by (simp add: strip_items_def lf_lines_cat)

lemma strip_items_nil [simp]: "strip_items [] = []"
  by (simp add: strip_items_def)

lemma item_feed_cut:
  "newline \<notin> set (if_carry f) \<Longrightarrow> item_feed f d =
     (consume_items (fst (cut_lines (if_carry f @ d))) (f\<lparr>if_carry := snd (cut_lines (if_carry f @ d))\<rparr>),
      if if_strip f then strip_items (fst (cut_lines (if_carry f @ d))) else d)"
  by (simp add: item_feed_def Let_def cut_lines_no_lf)

text \<open>The carry never holds a complete line, so it is the state of the interface with that fact.\<close>

definition item_step :: "item_filter \<Rightarrow> string \<Rightarrow> item_filter \<times> string" where
  "item_step f d = (if newline \<in> set (if_carry f) then (f, []) else item_feed f d)"

lemma item_feed_rest: "newline \<notin> set (if_carry f) \<Longrightarrow> newline \<notin> set (if_carry (fst (item_feed f d)))"
  by (simp add: item_feed_cut cut_lines_rest)

interpretation item_chunks: chunk_filter item_step
proof
  fix f show "item_step f [] = (f, [])" by (simp add: item_step_def item_feed_def)
next
  fix f a b
  show "item_step f (a @ b) =
      (case item_step f a of (s1, o1) \<Rightarrow> (case item_step s1 b of (s2, o2) \<Rightarrow> (s2, o1 @ o2)))"
  proof (cases "newline \<in> set (if_carry f)")
    case True
    then show ?thesis by (simp add: item_step_def)
  next
    case False
    then show ?thesis
      using item_feed_rest [OF False, of a] cut_lines_cat [of "if_carry f @ a" b]
        cut_lines_complete [of "if_carry f @ a"]
      by (simp add: item_step_def item_feed_cut consume_items_cat strip_items_cat cut_lines_rest)
  qed
qed

lemma item_feed_chunks:
  "newline \<notin> set (if_carry f) \<Longrightarrow> feed_chunks item_feed f ds = feed_chunks item_step f ds"
proof (induction ds arbitrary: f)
  case (Cons d ds)
  have "item_feed f d = item_step f d" using Cons.prems by (simp add: item_step_def)
  moreover have "newline \<notin> set (if_carry (fst (item_feed f d)))" using Cons.prems by (rule item_feed_rest)
  moreover obtain f1 o1 where "item_step f d = (f1, o1)" by (metis surj_pair)
  ultimately show ?case using Cons.IH [of f1] by simp
qed simp

text \<open>
  The counters of added, modified, changed and failed files, the last path, the unfinished line and
  the text that goes to the log do not depend on the chunks in which the output of Borg arrives: any
  sequence of chunks leaves the filter in the state of one call with the whole stream.
\<close>

theorem item_filter_chunk_independent:
  "feed_chunks item_feed (new_item_filter b) ds = item_feed (new_item_filter b) (concat ds)"
  using item_feed_chunks [of "new_item_filter b" ds]
  by (simp add: item_chunks.chunks_concat item_step_def new_item_filter_def)

section \<open>The database preview\<close>

definition preview_flags :: string where
  "preview_flags = ''AMUCERdbchsfipx?+-.''"

text \<open>
  \<open>_SQLITE_BORG_ITEM_LINE_BYTES_RE.match\<close>, and one line of
  \<open>_SQLITE_ONLY_BORG_ITEM_BLOCK_BYTES_RE\<close>, which also takes a line without a path.
\<close>

definition preview_item :: "string \<Rightarrow> bool" where
  "preview_item line =
     (case item_split line of
        None \<Rightarrow> False
      | Some (f, r) \<Rightarrow> f \<in> set preview_flags \<and>
          (case dropWhile is_blank r of [] \<Rightarrow> False | c # _ \<Rightarrow> \<not> is_bspace c))"

definition preview_block_line :: "string \<Rightarrow> bool" where
  "preview_block_line line =
     (case item_split line of
        None \<Rightarrow> False
      | Some (f, r) \<Rightarrow> f \<in> set preview_flags \<and> carriage \<notin> set (drop_carriage r))"

text \<open>\<open>bytes.splitlines(keepends=True)\<close>: lines end with a line feed, a carriage return or both.\<close>

fun split_keep :: "string \<Rightarrow> string list" where
  "split_keep [] = []"
| "split_keep (c # s) =
     (if c = newline then [c] # split_keep s
      else if c = carriage then
        (case s of
           [] \<Rightarrow> [[c]]
         | d # t \<Rightarrow> if d = newline then [c, d] # split_keep t else [c] # split_keep s)
      else (case split_keep s of [] \<Rightarrow> [[c]] | w # ws \<Rightarrow> (c # w) # ws))"

definition preview_text :: "string \<Rightarrow> string" where
  "preview_text block =
     (if block \<noteq> [] \<and> list_all preview_block_line (lf_lines block) then []
      else concat (filter (\<lambda>l. \<not> preview_item l) (split_keep block)))"

definition preview_feed :: "string \<Rightarrow> string \<Rightarrow> string \<times> string" where
  "preview_feed carry data =
     (if data = [] then (carry, [])
      else (let payload = carry @ data in
        if newline \<notin> set payload then (payload, [])
        else (snd (cut_lines payload), preview_text (fst (cut_lines payload)))))"

definition preview_finalize :: "string \<Rightarrow> string \<times> string" where
  "preview_finalize carry =
     (if carry = [] \<or> preview_item carry then ([], []) else ([], carry))"

definition preview_of_chunks :: "string list \<Rightarrow> string" where
  "preview_of_chunks ds =
     (case feed_chunks preview_feed [] ds of (carry, out) \<Rightarrow> out @ snd (preview_finalize carry))"

subsection \<open>No path reaches the preview\<close>

lemma dropWhile_snoc: "dropWhile P l \<noteq> [] \<Longrightarrow> dropWhile P (l @ x) = dropWhile P l @ x"
  by (induction l) auto

lemma remote_length: "lower_ascii (take 7 t) = ''remote:'' \<Longrightarrow> 7 \<le> length t"
proof -
  assume "lower_ascii (take 7 t) = ''remote:''"
  then have "length (lower_ascii (take 7 t)) = length ''remote:''" by (rule arg_cong)
  then show ?thesis by (simp add: lower_ascii_def)
qed

lemma remote_snoc: "lower_ascii (take 7 (t @ [newline])) = ''remote:'' \<longleftrightarrow> lower_ascii (take 7 t) = ''remote:''"
proof (cases "7 \<le> length t")
  case False
  have nl: "\<not> is_upper newline" by code_simp
  have "take 7 (t @ [newline]) = t @ [newline]" using False by simp
  then have "lower_ascii (take 7 (t @ [newline])) = lower_ascii t @ [newline]"
    using nl by (simp add: lower_ascii_def)
  then have "last (lower_ascii (take 7 (t @ [newline]))) = newline" by simp
  moreover have "last ''remote:'' = CHR '':''" by simp
  ultimately have "lower_ascii (take 7 (t @ [newline])) \<noteq> ''remote:''" by auto
  with remote_length [of t] False show ?thesis by auto
qed simp

lemma item_head_snoc:
  assumes "item_head l \<noteq> []"
  shows "item_head (l @ [newline]) = item_head l @ [newline]"
proof -
  define t where "t = dropWhile is_blank l"
  have t: "t \<noteq> []"
  proof
    assume "t = []"
    then have "item_head l = []" by (simp only: item_head_def Let_def t_def [symmetric]) simp
    with assms show False by simp
  qed
  then have tn: "dropWhile is_blank (l @ [newline]) = t @ [newline]"
    unfolding t_def by (rule dropWhile_snoc)
  show ?thesis
  proof (cases "lower_ascii (take 7 t) = ''remote:''")
    case True
    have ne: "dropWhile is_blank (drop 7 t) \<noteq> []"
      using assms True by (simp only: item_head_def Let_def t_def [symmetric]) simp
    have "drop 7 (t @ [newline]) = drop 7 t @ [newline]" using remote_length [OF True] by simp
    then have "dropWhile is_blank (drop 7 (t @ [newline])) = dropWhile is_blank (drop 7 t) @ [newline]"
      using dropWhile_snoc [OF ne] by simp
    then show ?thesis
      using True by (simp only: item_head_def Let_def tn t_def [symmetric] remote_snoc simp_thms if_True)
  next
    case False
    then show ?thesis by (simp only: item_head_def Let_def tn t_def [symmetric] remote_snoc if_False)
  qed
qed

lemma item_split_snoc: "item_split l \<noteq> None \<Longrightarrow> item_split (l @ [newline]) \<noteq> None"
  using item_head_snoc [of l]
  by (auto simp: item_split_def split: list.splits if_splits)

lemma block_line_split: "preview_block_line l \<Longrightarrow> item_split (l @ [newline]) \<noteq> None"
  by (rule item_split_snoc) (simp add: preview_block_line_def split: option.splits)

lemma preview_item_split: "preview_item l \<Longrightarrow> item_split l \<noteq> None"
  by (simp add: preview_item_def split: option.splits)

lemma split_keep_lines:
  "carriage \<notin> set s \<Longrightarrow> ends_line s \<Longrightarrow> split_keep s = map (\<lambda>l. l @ [newline]) (lf_lines s)"
proof (induction s)
  case (Cons c s)
  show ?case
  proof (cases "c = newline")
    case True
    with Cons show ?thesis by (cases s) (auto simp: ends_line_def)
  next
    case False
    with Cons.prems(2) have ne: "s \<noteq> []" by (auto simp: ends_line_def)
    with Cons.prems(2) have "ends_line s" by (simp add: ends_line_def)
    with Cons have IH: "split_keep s = map (\<lambda>l. l @ [newline]) (lf_lines s)" by simp
    obtain w ws where "lf_lines s = w # ws" using ne lf_lines_nil [of s] by (cases "lf_lines s") auto
    moreover have "c \<noteq> carriage" using Cons.prems(1) by auto
    ultimately show ?thesis using False IH by simp
  qed
qed simp

lemma split_keep_ne: "s \<noteq> [] \<Longrightarrow> split_keep s \<noteq> []"
proof
  assume "s \<noteq> []" and "split_keep s = []"
  then show False
    by (elim split_keep.elims) (simp_all split: if_split_asm list.split_asm)
qed

lemma split_keep_cat:
  "carriage \<notin> set a \<Longrightarrow> ends_line a \<Longrightarrow> split_keep (a @ b) = split_keep a @ split_keep b"
proof (induction a)
  case (Cons c a)
  show ?case
  proof (cases "a = []")
    case True
    with Cons.prems show ?thesis by (auto simp: ends_line_def)
  next
    case False
    with Cons have IH: "split_keep (a @ b) = split_keep a @ split_keep b" by (simp add: ends_line_def)
    obtain w ws where "split_keep a = w # ws"
      using False split_keep_ne [of a] by (cases "split_keep a") auto
    moreover have "c \<noteq> carriage" using Cons.prems(1) by auto
    ultimately show ?thesis using IH by simp
  qed
qed simp

lemma split_keep_single: "s \<noteq> [] \<Longrightarrow> newline \<notin> set s \<Longrightarrow> carriage \<notin> set s \<Longrightarrow> split_keep s = [s]"
proof (induction s)
  case (Cons c s)
  have "c \<noteq> newline" "c \<noteq> carriage" using Cons.prems by auto
  with Cons show ?case by (cases "s = []") simp_all
qed simp

text \<open>What may be kept of some lines: no item line, and every line without the shape of one.\<close>

definition preview_keeps :: "string list \<Rightarrow> string list \<Rightarrow> bool" where
  "preview_keeps kept lines \<longleftrightarrow>
     subseq kept lines \<and> (\<forall>l\<in>set kept. \<not> preview_item l) \<and>
     (\<forall>l\<in>set lines. l \<in> set kept \<or> item_split l \<noteq> None)"

lemma preview_keeps_append:
  "preview_keeps k l \<Longrightarrow> preview_keeps k' l' \<Longrightarrow> preview_keeps (k @ k') (l @ l')"
  by (auto simp: preview_keeps_def list_emb_append_mono)

lemma preview_keeps_nil [simp]: "preview_keeps [] []"
  by (simp add: preview_keeps_def)

lemma preview_text_keeps:
  assumes "carriage \<notin> set block" and "ends_line block"
  shows "\<exists>kept. preview_text block = concat kept \<and> preview_keeps kept (split_keep block)"
proof (cases "block \<noteq> [] \<and> list_all preview_block_line (lf_lines block)")
  case True
  then have "\<forall>l\<in>set (split_keep block). item_split l \<noteq> None"
    using block_line_split by (auto simp: split_keep_lines [OF assms] list_all_iff)
  then have "preview_keeps [] (split_keep block)" by (auto simp: preview_keeps_def)
  with True show ?thesis by (intro exI [of _ "[]"]) (simp add: preview_text_def)
next
  case False
  have "preview_keeps (filter (\<lambda>l. \<not> preview_item l) (split_keep block)) (split_keep block)"
    using preview_item_split by (auto simp: preview_keeps_def subseq_filter_left)
  with False show ?thesis
    by (intro exI [of _ "filter (\<lambda>l. \<not> preview_item l) (split_keep block)"]) (auto simp: preview_text_def)
qed

lemma preview_feed_cut:
  "newline \<notin> set carry \<Longrightarrow> preview_feed carry d =
     (snd (cut_lines (carry @ d)), preview_text (fst (cut_lines (carry @ d))))"
  by (simp add: preview_feed_def Let_def cut_lines_no_lf preview_text_def)

lemma preview_chunks_keep:
  "newline \<notin> set carry \<Longrightarrow> carriage \<notin> set (carry @ concat ds) \<Longrightarrow>
   \<exists>kept. feed_chunks preview_feed carry ds = (snd (cut_lines (carry @ concat ds)), concat kept) \<and>
     preview_keeps kept (split_keep (fst (cut_lines (carry @ concat ds))))"
proof (induction ds arbitrary: carry)
  case Nil
  then show ?case by (intro exI [of _ "[]"]) (simp add: cut_lines_no_lf)
next
  case (Cons d ds)
  define a where "a = fst (cut_lines (carry @ d))"
  define r where "r = snd (cut_lines (carry @ d))"
  have ar: "a @ r = carry @ d" unfolding a_def r_def by (rule cut_lines_append)
  have r: "newline \<notin> set r" unfolding r_def by (rule cut_lines_rest)
  have a: "ends_line a" unfolding a_def by (rule cut_lines_complete)
  have cr: "carriage \<notin> set a" "carriage \<notin> set (r @ concat ds)"
    using Cons.prems(2) arg_cong [OF ar, of set] by auto
  obtain k where k: "preview_text a = concat k" "preview_keeps k (split_keep a)"
    using preview_text_keeps [OF cr(1) a] by blast
  obtain k' where k': "feed_chunks preview_feed r ds = (snd (cut_lines (r @ concat ds)), concat k')"
    "preview_keeps k' (split_keep (fst (cut_lines (r @ concat ds))))"
    using Cons.IH [OF r cr(2)] by blast
  have cut: "cut_lines (carry @ d @ concat ds) =
      (a @ fst (cut_lines (r @ concat ds)), snd (cut_lines (r @ concat ds)))"
    using cut_lines_cat [of "carry @ d" "concat ds"] by (simp add: a_def r_def)
  have "preview_feed carry d = (r, concat k)"
    using preview_feed_cut [OF Cons.prems(1), of d] k(1) by (simp add: a_def r_def)
  then have "feed_chunks preview_feed carry (d # ds) = (snd (cut_lines (r @ concat ds)), concat (k @ k'))"
    using k' by simp
  moreover have "preview_keeps (k @ k') (split_keep (a @ fst (cut_lines (r @ concat ds))))"
    using preview_keeps_append [OF k(2) k'(2)] by (simp add: split_keep_cat [OF cr(1) a])
  ultimately show ?case by (intro exI [of _ "k @ k'"]) (simp add: cut)
qed

text \<open>
  No path of an item line reaches the database preview. For output without carriage returns, cut
  into any chunks, the preview consists of lines of the stream in their order, none of them an item
  line, also where a chunk boundary splits a path; and only lines with the shape of an item line are
  left out.
\<close>

theorem preview_keeps_no_item:
  assumes "carriage \<notin> set (concat ds)"
  shows "\<exists>kept. preview_of_chunks ds = concat kept \<and> preview_keeps kept (split_keep (concat ds))"
proof -
  define a where "a = fst (cut_lines (concat ds))"
  define r where "r = snd (cut_lines (concat ds))"
  have ar: "a @ r = concat ds" unfolding a_def r_def by (rule cut_lines_append)
  have r: "newline \<notin> set r" unfolding r_def by (rule cut_lines_rest)
  have a: "ends_line a" unfolding a_def by (rule cut_lines_complete)
  have cr: "carriage \<notin> set a" "carriage \<notin> set r" using assms arg_cong [OF ar, of set] by auto
  obtain k where k: "feed_chunks preview_feed [] ds = (r, concat k)" "preview_keeps k (split_keep a)"
    using preview_chunks_keep [of "[]" ds] assms by (auto simp: a_def r_def)
  define k' where "k' = (if r = [] \<or> preview_item r then [] else [r])"
  have "preview_keeps k' (split_keep r)"
    using preview_item_split [of r] split_keep_single [OF _ r cr(2)]
    by (cases "r = []") (auto simp: k'_def preview_keeps_def)
  from preview_keeps_append [OF k(2) this]
  have "preview_keeps (k @ k') (split_keep (concat ds))"
    by (simp add: ar [symmetric] split_keep_cat [OF cr(1) a])
  moreover have "preview_of_chunks ds = concat (k @ k')"
    by (simp add: preview_of_chunks_def k preview_finalize_def k'_def)
  ultimately show ?thesis by blast
qed

text \<open>A file name with a carriage return: the part behind it is kept as a line of its own.\<close>

lemma preview_leaks_behind_carriage:
  "preview_of_chunks [''A /srv/a'' @ [carriage] @ ''secret'' @ [newline] @ ''x: y'' @ [newline]] =
   ''secret'' @ [newline] @ ''x: y'' @ [newline]"
  by code_simp

lemma preview_keeps_no_item_witness:
  "\<exists>kept. preview_of_chunks [''Archive: a'' @ [newline] @ ''A /srv/te'', ''xt'' @ [newline]] = concat kept \<and>
     preview_keeps kept [''Archive: a'' @ [newline], ''A /srv/text'' @ [newline]]"
proof -
  have "carriage \<notin> set (concat [''Archive: a'' @ [newline] @ ''A /srv/te'', ''xt'' @ [newline]])"
    by code_simp
  from preview_keeps_no_item [OF this]
  show ?thesis by simp
qed

end
