(* ===== verification/Progress.thy ===== *)
theory Progress
  imports ItemLines
begin

text \<open>
  Progress frames in the output of \<open>borg create\<close>: \<open>BorgProgressStreamFilter\<close> of
  \<open>src/app/borg_progress.py\<close> takes them out of the stream, also where a chunk boundary splits a
  frame, and hands everything else on. Floating point numbers are rational.
\<close>

section \<open>Frames of a backup\<close>

record create_progress =
  cp_original :: int
  cp_compressed :: int
  cp_deduplicated :: int
  cp_files :: int
  cp_path :: string

definition skip_space :: "string \<Rightarrow> string" where
  "skip_space s = dropWhile is_bspace s"

text \<open>\<open>\s+\<close>.\<close>

definition some_space :: "string \<Rightarrow> string option" where
  "some_space s = (case s of [] \<Rightarrow> None | c # _ \<Rightarrow> if is_bspace c then Some (skip_space s) else None)"

text \<open>\<open>[0-9]+(?:[.,][0-9]+)?\<close>: the value as a rational number, and the rest.\<close>

definition decimal :: "string \<Rightarrow> (rat \<times> string) option" where
  "decimal s =
     (let whole = takeWhile is_digit s; rest = dropWhile is_digit s;
          frac = takeWhile is_digit (tl rest) in
      if whole = [] then None
      else if rest \<noteq> [] \<and> hd rest \<in> {CHR ''.'', CHR '',''} \<and> frac \<noteq> []
      then Some (of_nat (digits_value whole) + of_nat (digits_value frac) / of_nat (10 ^ length frac),
                 dropWhile is_digit (tl rest))
      else Some (of_nat (digits_value whole), rest))"

text \<open>\<open>[kKMGTPE]?i?B\<close>: the unit in capitals, and the rest.\<close>

definition unit_prefix :: "char \<Rightarrow> bool" where
  "unit_prefix c = (c \<in> set ''kKMGTPE'')"

definition unit_text :: "string \<Rightarrow> (string \<times> string) option" where
  "unit_text s =
     (let a = (if s \<noteq> [] \<and> unit_prefix (hd s) then [hd s] else []); t = drop (length a) s;
          b = (if t \<noteq> [] \<and> hd t = CHR ''i'' then ''i'' else []); u = drop (length b) t in
      case u of [] \<Rightarrow> None
      | c # rest \<Rightarrow> if c = CHR ''B''
          then Some (map (\<lambda>d. if is_lower d then char_of (char_code d - 32) else d) (a @ b @ ''B''), rest) else None)"

definition unit_factor :: "string \<Rightarrow> int option" where
  "unit_factor u = map_of
     [(''KIB'', 1024), (''MIB'', 1024 ^ 2), (''GIB'', 1024 ^ 3), (''TIB'', 1024 ^ 4), (''PIB'', 1024 ^ 5),
      (''EIB'', 1024 ^ 6), (''B'', 1), (''KB'', 1000), (''MB'', 1000 ^ 2), (''GB'', 1000 ^ 3),
      (''TB'', 1000 ^ 4), (''PB'', 1000 ^ 5), (''EB'', 1000 ^ 6)] u"

text \<open>One field of a frame: a size, white space, its letter, white space.\<close>

definition size_field :: "char \<Rightarrow> string \<Rightarrow> ((rat \<times> string) \<times> string) option" where
  "size_field letter s =
     (case decimal s of None \<Rightarrow> None
      | Some (number, s1) \<Rightarrow> (case some_space s1 of None \<Rightarrow> None
      | Some s2 \<Rightarrow> (case unit_text s2 of None \<Rightarrow> None
      | Some (u, s3) \<Rightarrow> (case some_space s3 of None \<Rightarrow> None
      | Some s4 \<Rightarrow> (case expect letter s4 of None \<Rightarrow> None
      | Some s5 \<Rightarrow> map_option (\<lambda>s6. ((number, u), s6)) (some_space s5))))))"

definition size_bytes :: "rat \<times> string \<Rightarrow> int option" where
  "size_bytes nu = map_option (\<lambda>factor. max 0 \<lfloor>fst nu * of_int factor\<rfloor>) (unit_factor (snd nu))"

text \<open>\<open>files\<close>, the letter N, and a path that may be missing.\<close>

definition files_field :: "string \<Rightarrow> (int \<times> string) option" where
  "files_field s =
     (let n = takeWhile is_digit s in
      if n = [] then None
      else (case some_space (dropWhile is_digit s) of None \<Rightarrow> None
        | Some s1 \<Rightarrow> (case expect (CHR ''N'') s1 of None \<Rightarrow> None
          | Some s2 \<Rightarrow> if s2 = [] \<or> is_bspace (hd s2)
              then Some (int (digits_value n), strip_by is_bspace s2) else None)))"

definition parse_create_progress :: "string \<Rightarrow> create_progress option" where
  "parse_create_progress rec =
     (case size_field (CHR ''O'') (skip_space rec) of None \<Rightarrow> None
      | Some (original, s1) \<Rightarrow> (case size_field (CHR ''C'') s1 of None \<Rightarrow> None
      | Some (compressed, s2) \<Rightarrow> (case size_field (CHR ''D'') s2 of None \<Rightarrow> None
      | Some (deduplicated, s3) \<Rightarrow> (case files_field s3 of None \<Rightarrow> None
      | Some (files, path) \<Rightarrow>
          (case (size_bytes original, size_bytes compressed, size_bytes deduplicated) of
             (Some o', Some c', Some d') \<Rightarrow>
               Some \<lparr>cp_original = o', cp_compressed = c', cp_deduplicated = d', cp_files = files,
                     cp_path = byte_strip path\<rparr>
           | _ \<Rightarrow> None)))))"

section \<open>The filter of a backup\<close>

record create_filter =
  cf_carry :: string
  cf_latest :: "create_progress option"

definition new_create_filter :: create_filter where
  "new_create_filter = \<lparr>cf_carry = [], cf_latest = None\<rparr>"

definition frame_candidate :: "string \<Rightarrow> bool" where
  "frame_candidate rec =
     (contains '' O '' rec \<and> contains '' C '' rec \<and> contains '' D '' rec \<and> contains '' N'' rec)"

text \<open>\<open>_PREFIX_RE\<close>: a number, a unit, and possibly the letter O with anything behind it.\<close>

definition frame_prefix :: "string \<Rightarrow> bool" where
  "frame_prefix rec =
     (case decimal (skip_space rec) of None \<Rightarrow> False
      | Some (_, s1) \<Rightarrow> (case some_space s1 of None \<Rightarrow> False
      | Some s2 \<Rightarrow> (case unit_text s2 of None \<Rightarrow> False
      | Some (_, s3) \<Rightarrow> s3 = [] \<or>
          (case some_space s3 of None \<Rightarrow> False
           | Some s4 \<Rightarrow> (case expect (CHR ''O'') s4 of None \<Rightarrow> False
             | Some s5 \<Rightarrow> s5 = [] \<or> is_bspace (hd s5))))))"

definition create_max_carry :: int where
  "create_max_carry = 16 * 1024"

definition could_be_frame :: "string \<Rightarrow> bool" where
  "could_be_frame rec =
     (rec \<noteq> [] \<and> int (length rec) \<le> create_max_carry \<and> (contains '' O '' rec \<or> frame_prefix rec))"

text \<open>The loop over \<open>payload.splitlines(keepends=True)\<close>: the output, the newest frame, the carry.\<close>

definition is_terminated :: "string \<Rightarrow> bool" where
  "is_terminated l = (l \<noteq> [] \<and> (last l = newline \<or> last l = carriage))"

fun create_records ::
    "string list \<Rightarrow> string \<times> create_progress option \<times> string" where
  "create_records [] = ([], None, [])"
| "create_records (framed # rest) =
     (case create_records rest of (out, newest, carry) \<Rightarrow>
        if is_terminated framed then
          (let rec = rstrip_by (\<lambda>c. c = carriage \<or> c = newline) framed;
               progress = (if frame_candidate rec then parse_create_progress rec else None) in
           case progress of
             Some p \<Rightarrow> (out, (if newest = None then Some p else newest), carry)
           | None \<Rightarrow> (framed @ out, newest, carry))
        else if rest = [] \<and> could_be_frame framed then (out, newest, framed)
        else (framed @ out, newest, carry))"

definition create_feed ::
    "create_filter \<Rightarrow> string \<Rightarrow> create_filter \<times> string \<times> create_progress option" where
  "create_feed f data =
     (if data = [] then (f, [], None)
      else if cf_carry f = [] \<and> carriage \<notin> set data \<and> \<not> contains '' O '' data then
        (let tail = snd (cut_lines data) in
         if tail \<noteq> [] \<and> could_be_frame tail then (f\<lparr>cf_carry := tail\<rparr>, fst (cut_lines data), None)
         else (f, data, None))
      else (case create_records (split_keep (cf_carry f @ data)) of (out, newest, carry) \<Rightarrow>
        (f\<lparr>cf_carry := carry, cf_latest := (if newest = None then cf_latest f else newest)\<rparr>, out, newest)))"

definition create_finalize :: "create_filter \<Rightarrow> create_filter \<times> string \<times> create_progress option" where
  "create_finalize f =
     (let trailing = cf_carry f; f' = f\<lparr>cf_carry := []\<rparr>;
          progress = (if frame_candidate trailing then parse_create_progress trailing else None) in
      if trailing = [] then (f, [], None)
      else case progress of
          Some p \<Rightarrow> (f'\<lparr>cf_latest := Some p\<rparr>, [], Some p)
        | None \<Rightarrow> (f', trailing, None))"

text \<open>The log text and the last frame of a stream in chunks.\<close>

fun create_feed_all :: "create_filter \<Rightarrow> string list \<Rightarrow> create_filter \<times> string" where
  "create_feed_all f [] = (f, [])"
| "create_feed_all f (d # ds) =
     (case create_feed f d of (f1, o1, _) \<Rightarrow> (case create_feed_all f1 ds of (f2, o2) \<Rightarrow> (f2, o1 @ o2)))"

definition demo_frame :: string where
  "demo_frame = ''5 GB O 1 B C 1 B D 4 N'' @ [carriage]"

text \<open>
  A frame that the operating system cuts inside its first number is misread: \<open>1.5 GB\<close> arrives as
  \<open>1.\<close> and \<open>5 GB\<close>, the filter passes the first two characters on to the log and reports 5 GB, although
  the same bytes in one chunk give 1.5 GB and leave the log empty. Only a number together with its
  unit is held back at a chunk boundary.
\<close>

lemma split_number_misread:
  "map_option cp_original (cf_latest (fst (create_feed_all new_create_filter [''1.'' @ demo_frame]))) =
     Some 1500000000 \<and>
   snd (create_feed_all new_create_filter [''1.'' @ demo_frame]) = [] \<and>
   map_option cp_original (cf_latest (fst (create_feed_all new_create_filter [''1.'', demo_frame]))) =
     Some 5000000000 \<and>
   snd (create_feed_all new_create_filter [''1.'', demo_frame]) = ''1.''"
  by code_simp

end
