(* ===== verification/RestoreProgress.thy ===== *)
theory RestoreProgress
  imports Streams Systems
begin

text \<open>
  \<open>BorgRestoreProgressStreamFilter\<close> of \<open>src/app/borg_progress.py\<close>: the records of a restore are
  line-delimited, control records announce totals and phases, JSON records carry progress and log
  messages, everything else is passed on. The clock is an argument in microseconds, floating point
  numbers are rational.
\<close>

section \<open>State\<close>

record json_lib =
  jl_loads :: "string \<Rightarrow> json option"
  jl_str :: "json \<Rightarrow> string"

record restore_progress =
  rx_phase :: string
  rx_processed_bytes :: int
  rx_total_bytes :: int
  rx_processed_files :: int
  rx_total_files :: int
  rx_path :: string
  rx_bytes_per_second :: rat
  rx_eta_seconds :: "int option"
  rx_percent :: "rat option"

record restore_filter =
  rf_latest :: restore_progress
  rf_carry :: string
  rf_started :: "time option"
  rf_processed_files :: int
  rf_total_files :: int
  rf_baseline :: int

definition new_restore_filter :: restore_filter where
  "new_restore_filter =
     \<lparr>rf_latest = \<lparr>rx_phase = ''preparing'', rx_processed_bytes = 0, rx_total_bytes = 0,
        rx_processed_files = 0, rx_total_files = 0, rx_path = [], rx_bytes_per_second = 0,
        rx_eta_seconds = None, rx_percent = None\<rparr>,
      rf_carry = [], rf_started = None, rf_processed_files = 0, rf_total_files = 0, rf_baseline = 0\<rparr>"

section \<open>Snapshots\<close>

definition or_else :: "'a option \<Rightarrow> 'a \<Rightarrow> 'a" where
  "or_else v d = (case v of None \<Rightarrow> d | Some a \<Rightarrow> a)"

definition restore_snapshot ::
    "time \<Rightarrow> string option \<Rightarrow> int option \<Rightarrow> int option \<Rightarrow> string option \<Rightarrow> bool \<Rightarrow> restore_filter \<Rightarrow> restore_filter" where
  "restore_snapshot now phase processed goal path finished f =
     (let latest = rf_latest f;
          effective = or_else phase (rx_phase latest);
          current = max 0 (or_else processed (rx_processed_bytes latest));
          total0 = max 0 (or_else goal (rx_total_bytes latest));
          total1 = (if total0 = 0 then max 0 (rf_baseline f) else total0);
          started = (if effective = ''restoring'' \<and> rf_started f = None then Some now else rf_started f);
          elapsed = (case started of None \<Rightarrow> 0 | Some t \<Rightarrow> max 0 (of_int (now - t) / 1000000 :: rat));
          rate = (if 0 < current \<and> 1 / 4 \<le> elapsed then of_int current / elapsed else 0);
          remaining = (if total1 \<noteq> 0 then max 0 (total1 - current) else 0);
          eta = (if 0 < rate \<and> total1 \<noteq> 0 then Some (round_half_even (of_int remaining / rate)) else None);
          percent = (if total1 \<noteq> 0
            then Some (min 100 (max 0 (of_int current / of_int total1 * 100))) else None);
          over = finished \<and> total1 \<noteq> 0 in
      f\<lparr>rf_started := started,
        rf_latest :=
          \<lparr>rx_phase = effective, rx_processed_bytes = (if over then total1 else current),
           rx_total_bytes = total1, rx_processed_files = max 0 (rf_processed_files f),
           rx_total_files = max 0 (rf_total_files f), rx_path = or_else path (rx_path latest),
           rx_bytes_per_second = max 0 rate, rx_eta_seconds = (if over then Some 0 else eta),
           rx_percent = (if over then Some 100 else percent)\<rparr>\<rparr>)"

section \<open>Records\<close>

definition human_line :: "string \<Rightarrow> string" where
  "human_line message =
     (let text = rstrip_by (\<lambda>c. c = carriage \<or> c = newline) message in
      if text = [] then [] else text @ [newline])"

text \<open>\<open>int(bytes)\<close>: surrounding white space, a sign, digits with single underscores between them.\<close>

fun plain_digits :: "string \<Rightarrow> string option" where
  "plain_digits [] = None"
| "plain_digits (c # s) =
     (if \<not> is_digit c then None
      else case s of
          [] \<Rightarrow> Some [c]
        | d # t \<Rightarrow> map_option (Cons c) (plain_digits (if d = CHR ''_'' then t else s)))"

definition parse_int :: "string \<Rightarrow> int option" where
  "parse_int text =
     (let s = strip_by is_bspace text in
      if s \<noteq> [] \<and> hd s = CHR ''-'' then map_option (\<lambda>d. - int (digits_value d)) (plain_digits (tl s))
      else map_option (\<lambda>d. int (digits_value d))
        (plain_digits (if s \<noteq> [] \<and> hd s = CHR ''+'' then tl s else s)))"

definition restore_prefix :: string where
  "restore_prefix = CHR 0x1E # ''BBMRESTORE'' @ [CHR 0x09]"

definition ascii_upper :: "string \<Rightarrow> string" where
  "ascii_upper s = map (\<lambda>c. if is_lower c then char_of (char_code c - 32) else c) (filter is_ascii s)"

definition field_at :: "nat \<Rightarrow> string list \<Rightarrow> string" where
  "field_at n parts = (if n < length parts then parts ! n else [])"

text \<open>The decimal notation of an integer that is not negative.\<close>

definition str_int :: "int \<Rightarrow> string" where
  "str_int n = str_nat (nat n)"

text \<open>The middle dot of the message is U+00B7.\<close>

definition control_record :: "time \<Rightarrow> string \<Rightarrow> restore_filter \<Rightarrow> restore_filter \<times> string \<times> bool" where
  "control_record now rec f =
     (let parts = split_on (CHR 0x09) rec; command = ascii_upper (field_at 1 parts) in
      if command = ''PREPARING''
      then (restore_snapshot now (Some ''preparing'') None None None False f,
            human_line ''RESTORE-VORBEREITUNG: Archivmetadaten werden ausgewertet.'', True)
      else if command = ''BASELINE'' \<and> 4 \<le> length parts then
        (case parse_int (parts ! 2) of
           None \<Rightarrow> (f, human_line ''WARNUNG: Restore-Basisdaten konnten nicht gelesen werden.'', False)
         | Some files \<Rightarrow>
             (let f1 = f\<lparr>rf_total_files := max 0 files\<rparr> in
              case parse_int (parts ! 3) of
                None \<Rightarrow> (f1, human_line ''WARNUNG: Restore-Basisdaten konnten nicht gelesen werden.'', False)
              | Some bytes \<Rightarrow>
                  (let f2 = f1\<lparr>rf_baseline := max 0 bytes\<rparr> in
                   (restore_snapshot now (Some ''preparing'') None (Some (rf_baseline f2)) None False f2,
                    human_line (''RESTORE-BASIS: '' @ str_int (rf_total_files f2) @ '' Dateien/Objekte '' @
                      [CHR 0xC2, CHR 0xB7] @ '' '' @ str_int (rf_baseline f2) @ '' Byte.''), True))))
      else if command = ''RESTORING''
      then (restore_snapshot now (Some ''restoring'') None None None False f,
            human_line ''RESTORE: Daten werden verarbeitet.'', True)
      else if command = ''FINISHED'' then
        (let code = (if 2 < length parts then or_else (parse_int (parts ! 2)) 2 else 0) in
         if code = 0 \<or> code = 1
         then (restore_snapshot now (Some ''finished'') None None None True
                 (f\<lparr>rf_processed_files := max (rf_processed_files f) (rf_total_files f)\<rparr>), [], True)
         else (restore_snapshot now (Some ''failed'') None None None False f, [], True))
      else (f, rec @ [newline], False))"

text \<open>Python truth of a JSON value, \<open>str(x or "")\<close> and \<open>int(x or 0)\<close>, which may raise.\<close>

fun json_truthy :: "json \<Rightarrow> bool" where
  "json_truthy JNull = False"
| "json_truthy (JBool b) = b"
| "json_truthy (JInt n) = (n \<noteq> 0)"
| "json_truthy (JFloat x) = (x \<noteq> 0)"
| "json_truthy (JStr s) = (s \<noteq> [])"
| "json_truthy (JList l) = (l \<noteq> [])"
| "json_truthy (JObj d) = (d \<noteq> [])"

definition json_text :: "json_lib \<Rightarrow> json \<Rightarrow> string" where
  "json_text lib v =
     (if \<not> json_truthy v then []
      else case v of JStr s \<Rightarrow> s | _ \<Rightarrow> jl_str lib v)"

fun json_whole :: "json \<Rightarrow> int option" where
  "json_whole JNull = Some 0"
| "json_whole (JBool b) = Some (if b then 1 else 0)"
| "json_whole (JInt n) = Some n"
| "json_whole (JFloat x) = Some (if x < 0 then \<lceil>x\<rceil> else \<lfloor>x\<rfloor>)"
| "json_whole (JStr s) = (if s = [] then Some 0 else parse_int s)"
| "json_whole (JList l) = (if l = [] then Some 0 else None)"
| "json_whole (JObj d) = (if d = [] then Some 0 else None)"

definition json_get :: "string \<Rightarrow> (string \<times> json) list \<Rightarrow> json" where
  "json_get k d = or_else (map_of d k) JNull"

definition info_path :: "json_lib \<Rightarrow> json \<Rightarrow> string" where
  "info_path lib info = (case info of JList (p # _) \<Rightarrow> json_text lib p | _ \<Rightarrow> [])"

definition json_object_record ::
    "json_lib \<Rightarrow> time \<Rightarrow> (string \<times> json) list \<Rightarrow> restore_filter \<Rightarrow> restore_filter \<times> string \<times> bool" where
  "json_object_record lib now d f =
     (let kind = json_text lib (json_get ''type'' d); msgid = json_text lib (json_get ''msgid'' d);
          message = json_text lib (json_get ''message'' d) in
      if kind = ''progress_percent'' \<and> msgid = ''extract'' then
        (if json_truthy (json_get ''finished'' d)
         then (restore_snapshot now (Some ''permissions'') None None None True f, [], True)
         else case (json_whole (json_get ''current'' d), json_whole (json_get ''total'' d)) of
             (Some current, Some goal) \<Rightarrow>
               (restore_snapshot now (Some ''restoring'') (Some (max 0 current)) (Some (max 0 goal))
                  (Some (info_path lib (json_get ''info'' d))) False f, [], True)
           | _ \<Rightarrow> (f, [], False))
      else if kind = ''progress_percent'' \<and> msgid = ''extract.permissions'' then
        (if json_truthy (json_get ''finished'' d)
         then (restore_snapshot now (Some ''finished'') None None None True f, [], True)
         else (restore_snapshot now (Some ''permissions'') None None None False f, [], True))
      else if kind = ''progress_message'' then (f, human_line message, False)
      else if kind = ''log_message'' then
        (if json_text lib (json_get ''name'' d) = ''borg.output.list''
         then (restore_snapshot now (Some ''restoring'') None None (Some message) False
                 (f\<lparr>rf_processed_files := rf_processed_files f + 1\<rparr>), human_line message, True)
         else (f, human_line message, False))
      else if kind = ''question_prompt'' then (f, human_line message, False)
      else (f, [], False))"

definition json_record ::
    "json_lib \<Rightarrow> time \<Rightarrow> string \<Rightarrow> restore_filter \<Rightarrow> restore_filter \<times> string \<times> bool" where
  "json_record lib now rec f =
     (case jl_loads lib rec of
        Some (JObj d) \<Rightarrow> json_object_record lib now d f
      | _ \<Rightarrow> (f, rec @ [newline], False))"

definition consume_record ::
    "json_lib \<Rightarrow> time \<Rightarrow> string \<Rightarrow> restore_filter \<Rightarrow> restore_filter \<times> string \<times> bool" where
  "consume_record lib now rec f =
     (if starts_with restore_prefix rec then control_record now rec f
      else (let stripped = strip_by is_bspace rec in
        if starts_with ''{'' stripped \<and> ends_with ''}'' stripped then json_record lib now stripped f
        else (f, rec @ [newline], False)))"

section \<open>The filter\<close>

text \<open>The records of a payload in order; the flag tells whether one of them gave progress.\<close>

fun consume_records ::
    "json_lib \<Rightarrow> time \<Rightarrow> string list \<Rightarrow> restore_filter \<Rightarrow> restore_filter \<times> string \<times> bool" where
  "consume_records lib now [] f = (f, [], False)"
| "consume_records lib now (rec # recs) f =
     (case consume_record lib now (rstrip_by (\<lambda>c. c = carriage) rec) f of (f1, o1, p1) \<Rightarrow>
      case consume_records lib now recs f1 of (f2, o2, p2) \<Rightarrow> (f2, o1 @ o2, p1 \<or> p2))"

definition restore_max_carry :: int where
  "restore_max_carry = 256 * 1024"

definition restore_feed ::
    "json_lib \<Rightarrow> time \<Rightarrow> restore_filter \<Rightarrow> string \<Rightarrow> restore_filter \<times> string" where
  "restore_feed lib now f data =
     (if data = [] then (f, [])
      else (let payload = rf_carry f @ data; trailing = snd (cut_lines payload) in
        case consume_records lib now (lf_lines (fst (cut_lines payload))) (f\<lparr>rf_carry := []\<rparr>) of
          (f1, out, _) \<Rightarrow>
            if restore_max_carry < int (length trailing) then (f1, out @ trailing)
            else (f1\<lparr>rf_carry := trailing\<rparr>, out)))"

definition restore_finalize ::
    "json_lib \<Rightarrow> time \<Rightarrow> restore_filter \<Rightarrow> restore_filter \<times> string" where
  "restore_finalize lib now f =
     (if rf_carry f = [] then (f, [])
      else (case consume_record lib now (rstrip_by (\<lambda>c. c = carriage) (rf_carry f)) (f\<lparr>rf_carry := []\<rparr>) of
        (f1, out, _) \<Rightarrow> (f1, out)))"

section \<open>Progress stays in its bounds\<close>

text \<open>What the interface shows of a restore: sizes are not negative and percentages are percentages.\<close>

definition progress_ok :: "restore_progress \<Rightarrow> bool" where
  "progress_ok p \<longleftrightarrow>
     0 \<le> rx_processed_bytes p \<and> 0 \<le> rx_total_bytes p \<and> 0 \<le> rx_processed_files p \<and>
     0 \<le> rx_total_files p \<and> 0 \<le> rx_bytes_per_second p \<and>
     (case rx_percent p of None \<Rightarrow> rx_total_bytes p = 0 | Some x \<Rightarrow> 0 \<le> x \<and> x \<le> 100) \<and>
     (case rx_eta_seconds p of None \<Rightarrow> True | Some n \<Rightarrow> 0 \<le> n)"

lemma round_half_even_nonneg: "0 \<le> x \<Longrightarrow> 0 \<le> round_half_even x"
  using round_half_even_mono [of 0 x] round_half_even_of_int [of 0] by simp

lemma snapshot_ok: "progress_ok (rf_latest (restore_snapshot now phase processed goal path finished f))"
  by (auto simp: restore_snapshot_def progress_ok_def Let_def round_half_even_nonneg
      intro!: divide_nonneg_nonneg split: option.splits)

lemma control_ok:
  "progress_ok (rf_latest f) \<Longrightarrow> progress_ok (rf_latest (fst (control_record now rec f)))"
  by (simp add: control_record_def Let_def snapshot_ok split: option.splits)

lemma json_ok:
  "progress_ok (rf_latest f) \<Longrightarrow> progress_ok (rf_latest (fst (json_record lib now rec f)))"
  by (simp add: json_record_def json_object_record_def Let_def snapshot_ok
      split: option.splits json.splits)

lemma consume_ok:
  "progress_ok (rf_latest f) \<Longrightarrow> progress_ok (rf_latest (fst (consume_record lib now rec f)))"
  by (simp add: consume_record_def Let_def control_ok json_ok)

lemma consume_records_ok:
  "progress_ok (rf_latest f) \<Longrightarrow> progress_ok (rf_latest (fst (consume_records lib now recs f)))"
proof (induction recs arbitrary: f)
  case (Cons r recs)
  obtain f1 o1 p1 where c: "consume_record lib now (rstrip_by (\<lambda>c. c = carriage) r) f = (f1, o1, p1)"
    by (metis surj_pair)
  then have "progress_ok (rf_latest f1)" using consume_ok [OF Cons.prems] by (metis fst_conv)
  with Cons.IH [of f1] have "progress_ok (rf_latest (fst (consume_records lib now recs f1)))" by simp
  then show ?case by (cases "consume_records lib now recs f1") (simp add: c)
qed simp

text \<open>The filter as a system: chunks at any time, and the end of the stream.\<close>

inductive restore_step :: "json_lib \<Rightarrow> restore_filter \<Rightarrow> restore_filter \<Rightarrow> bool" for lib where
  Feed: "restore_feed lib now f data = (f', out) \<Longrightarrow> restore_step lib f f'"
| Finalize: "restore_finalize lib now f = (f', out) \<Longrightarrow> restore_step lib f f'"

lemma restore_step_ok:
  assumes "restore_step lib f f'" and ok: "progress_ok (rf_latest f)"
  shows "progress_ok (rf_latest f')"
  using assms(1)
proof cases
  case (Feed now data out)
  define ls where "ls = lf_lines (fst (cut_lines (rf_carry f @ data)))"
  have "progress_ok (rf_latest (fst (consume_records lib now ls (f\<lparr>rf_carry := []\<rparr>))))"
    using ok by (intro consume_records_ok) simp
  then show ?thesis
    using Feed ok by (auto simp: restore_feed_def Let_def ls_def split: if_splits prod.splits)
next
  case (Finalize now out)
  have "progress_ok (rf_latest (fst (consume_record lib now (rstrip_by (\<lambda>c. c = carriage) (rf_carry f))
      (f\<lparr>rf_carry := []\<rparr>))))"
    using ok by (intro consume_ok) simp
  then show ?thesis
    using Finalize ok by (auto simp: restore_finalize_def split: if_splits prod.splits)
qed

lemma new_restore_filter_ok: "progress_ok (rf_latest new_restore_filter)"
  by (simp add: new_restore_filter_def progress_ok_def)

interpretation restore_system:
  guarded_system "\<lambda>f. f = new_restore_filter" "restore_step lib" "\<lambda>f. progress_ok (rf_latest f)" for lib
  by unfold_locales (use new_restore_filter_ok restore_step_ok in auto)

text \<open>
  Whatever the output of a restore is, whatever its JSON records contain and however the clock
  moves, the progress shown for it has sizes, counts, rates and remaining times that are not
  negative and a percentage between 0 and 100 whenever a total is known.
\<close>

theorem restore_progress_bounded:
  assumes "(restore_step lib)\<^sup>*\<^sup>* new_restore_filter f"
  shows "progress_ok (rf_latest f)"
  using restore_system.inv_reachable [OF refl assms] by simp

definition plain_json :: json_lib where
  "plain_json = \<lparr>jl_loads = (\<lambda>s. None), jl_str = (\<lambda>v. [])\<rparr>"

definition demo_restore_data :: string where
  "demo_restore_data = restore_prefix @ ''baseline'' @ [CHR 0x09] @ ''3'' @ [CHR 0x09] @ ''500'' @ [newline]"

lemma restore_progress_bounded_witness:
  "rx_total_bytes (rf_latest (fst (restore_feed plain_json 0 new_restore_filter demo_restore_data))) = 500 \<and>
   progress_ok (rf_latest (fst (restore_feed plain_json 0 new_restore_filter demo_restore_data)))"
proof
  show "rx_total_bytes (rf_latest (fst (restore_feed plain_json 0 new_restore_filter demo_restore_data))) = 500"
    by code_simp
  have "restore_step plain_json new_restore_filter
      (fst (restore_feed plain_json 0 new_restore_filter demo_restore_data))"
    by (rule restore_step.Feed) (rule prod.collapse [symmetric])
  then have "(restore_step plain_json)\<^sup>*\<^sup>* new_restore_filter
      (fst (restore_feed plain_json 0 new_restore_filter demo_restore_data))"
    by (rule r_into_rtranclp)
  then show "progress_ok (rf_latest (fst (restore_feed plain_json 0 new_restore_filter demo_restore_data)))"
    by (rule restore_progress_bounded)
qed

end
