(* ===== verification/ShellWords.thy ===== *)
theory ShellWords
  imports Prelude
begin

text \<open>
  The words of a command line. \<open>shlex.quote\<close> and \<open>shlex.join\<close> of Python's standard library, which
  \<open>src/app/runner.py\<close> uses for every text it puts into a shell command, and the reader they are
  meant for: the token recognition of the POSIX shell for simple commands, restricted to words whose
  meaning does not depend on the state of the shell. Where another construct would begin, an
  expansion, an operator, a pattern or a comment, the reader gives \<open>None\<close>; where it gives words, a
  shell passes exactly these words on.
\<close>

section \<open>Quoting\<close>

abbreviation (input) quote_mark :: char where "quote_mark \<equiv> CHR 0x27"
abbreviation (input) double_mark :: char where "double_mark \<equiv> CHR 0x22"
abbreviation (input) blank :: char where "blank \<equiv> CHR 0x20"

text \<open>The characters that \<open>shlex.quote\<close> leaves alone: \<open>[\w@%+=:,./-]\<close> in ASCII.\<close>

definition shell_plain :: "char \<Rightarrow> bool" where
  "shell_plain c \<longleftrightarrow> is_alnum c \<or>
     c \<in> {CHR ''_'', CHR ''@'', CHR ''%'', CHR ''+'', CHR ''='', CHR '':'', CHR '','', CHR ''.'', CHR ''/'', CHR ''-''}"

definition quote_char :: "char \<Rightarrow> string" where
  "quote_char c =
     (if c = quote_mark then [quote_mark, double_mark, quote_mark, double_mark, quote_mark] else [c])"

definition shlex_quote :: "string \<Rightarrow> string" where
  "shlex_quote s =
     (if s = [] then [quote_mark, quote_mark]
      else if list_all shell_plain s then s
      else quote_mark # concat (map quote_char s) @ [quote_mark])"

definition shlex_join :: "string list \<Rightarrow> string" where
  "shlex_join parts = join_with '' '' (map shlex_quote parts)"

section \<open>Reading\<close>

text \<open>One word: plain characters, single quotes, and double quotes around plain text.\<close>

datatype read_mode = Outside | Single | Double

definition word_stop :: "char \<Rightarrow> bool" where
  "word_stop c \<longleftrightarrow> c = blank \<or> c = newline"

definition double_plain :: "char \<Rightarrow> bool" where
  "double_plain c \<longleftrightarrow> c \<notin> {CHR ''$'', CHR 0x60, CHR 0x5C}"

fun read_word :: "read_mode \<Rightarrow> string \<Rightarrow> (string \<times> string) option" where
  "read_word m [] = (if m = Outside then Some ([], []) else None)"
| "read_word Outside (c # s) =
     (if word_stop c then Some ([], c # s)
      else if c = quote_mark then read_word Single s
      else if c = double_mark then read_word Double s
      else if shell_plain c then map_option (apfst (Cons c)) (read_word Outside s)
      else None)"
| "read_word Single (c # s) =
     (if c = quote_mark then read_word Outside s
      else map_option (apfst (Cons c)) (read_word Single s))"
| "read_word Double (c # s) =
     (if c = double_mark then read_word Outside s
      else if double_plain c then map_option (apfst (Cons c)) (read_word Double s)
      else None)"

lemma read_word_rest:
  "read_word m s = Some (w, t) \<Longrightarrow> length t \<le> length s"
  by (induction m s arbitrary: w t rule: read_word.induct) (fastforce split: if_splits)+

lemma read_word_shorter:
  "read_word Outside (c # s) = Some (w, t) \<Longrightarrow> \<not> word_stop c \<Longrightarrow> length t < length (c # s)"
  by (auto split: if_splits dest!: read_word_rest)

text \<open>The words up to the end of the line, and what follows the line.\<close>

definition skip_blanks :: "string \<Rightarrow> string" where
  "skip_blanks s = dropWhile (\<lambda>c. c = blank) s"

function read_words :: "string \<Rightarrow> (string list \<times> string) option" where
  "read_words s =
     (case skip_blanks s of
        [] \<Rightarrow> Some ([], [])
      | c # t \<Rightarrow>
          if c = newline then Some ([], t)
          else (case read_word Outside (c # t) of
              None \<Rightarrow> None
            | Some (w, rest) \<Rightarrow> map_option (apfst (Cons w)) (read_words rest)))"
  by pat_completeness auto

lemma skip_blanks_head: "skip_blanks s = c # t \<Longrightarrow> c \<noteq> blank \<and> length (c # t) \<le> length s"
  using hd_dropWhile [of "\<lambda>c. c = blank" s] length_dropWhile_le [of "\<lambda>c. c = blank" s]
  by (auto simp: skip_blanks_def)

termination read_words
proof (relation "measure length")
  fix s c t x w rest
  assume a: "skip_blanks s = c # t" "c \<noteq> newline" "read_word Outside (c # t) = Some x" "(w, rest) = x"
  have "length rest < length (c # t)"
    using a skip_blanks_head [OF a(1)] by (intro read_word_shorter) (auto simp: word_stop_def)
  then show "(rest, s) \<in> measure length" using skip_blanks_head [OF a(1)] by simp
qed simp

declare read_words.simps [simp del]

text \<open>
  A simple command: assignments \<open>NAME=word\<close> in front, then the words of the command. The name and
  the equals sign of an assignment are not quoted.
\<close>

definition name_start :: "char \<Rightarrow> bool" where
  "name_start c \<longleftrightarrow> is_alpha c \<or> c = CHR ''_''"

definition name_char :: "char \<Rightarrow> bool" where
  "name_char c \<longleftrightarrow> is_alnum c \<or> c = CHR ''_''"

definition shell_name :: "string \<Rightarrow> bool" where
  "shell_name n \<longleftrightarrow> n \<noteq> [] \<and> name_start (hd n) \<and> list_all name_char n"

definition split_assignment :: "string \<Rightarrow> (string \<times> string) option" where
  "split_assignment s =
     (let n = takeWhile name_char s; t = dropWhile name_char s in
      if shell_name n \<and> t \<noteq> [] \<and> hd t = CHR ''='' then Some (n, tl t) else None)"

lemma split_assignment_shorter: "split_assignment s = Some (n, t) \<Longrightarrow> length t < length s"
proof -
  assume "split_assignment s = Some (n, t)"
  then have "dropWhile name_char s = CHR ''='' # t"
    by (cases "dropWhile name_char s") (auto simp: split_assignment_def Let_def split: if_splits)
  then show ?thesis using length_dropWhile_le [of name_char s] by simp
qed

function read_command :: "string \<Rightarrow> ((string \<times> string) list \<times> string list) option" where
  "read_command s =
     (case split_assignment (skip_blanks s) of
        Some (n, t) \<Rightarrow>
          (case read_word Outside t of
             None \<Rightarrow> None
           | Some (v, rest) \<Rightarrow> map_option (apfst (Cons (n, v))) (read_command rest))
      | None \<Rightarrow> map_option (\<lambda>(ws, _). ([], ws)) (read_words s))"
  by pat_completeness auto

lemma skip_blanks_le: "length (skip_blanks s) \<le> length s"
  by (simp add: skip_blanks_def length_dropWhile_le)

termination read_command
proof (relation "measure length")
  fix s a n t x v rest
  assume a: "split_assignment (skip_blanks s) = Some a" "(n, t) = a"
    "read_word Outside t = Some x" "(v, rest) = x"
  have "length rest \<le> length t" using a read_word_rest [of Outside t v rest] by simp
  moreover have "length t < length (skip_blanks s)" using a split_assignment_shorter by metis
  ultimately show "(rest, s) \<in> measure length" using skip_blanks_le [of s] by simp
qed simp

declare read_command.simps [simp del]

section \<open>What is quoted is read back\<close>

lemmas char_class_defs = is_alnum_def is_alpha_def is_lower_def is_upper_def is_digit_def char_code_def

lemma plain_not_stop: "shell_plain c \<Longrightarrow> \<not> word_stop c"
  by (auto simp: shell_plain_def word_stop_def char_class_defs)

lemma plain_not_mark: "shell_plain c \<Longrightarrow> c \<noteq> quote_mark \<and> c \<noteq> double_mark"
  by (auto simp: shell_plain_def char_class_defs)

definition at_stop :: "string \<Rightarrow> bool" where
  "at_stop t \<longleftrightarrow> t = [] \<or> word_stop (hd t)"

lemma at_stop_simps [simp]: "at_stop []" "at_stop (c # t) \<longleftrightarrow> word_stop c"
  by (simp_all add: at_stop_def)

lemma word_stop_simps [simp]: "word_stop blank" "word_stop newline"
  by (simp_all add: word_stop_def)

lemma read_at_stop: "at_stop t \<Longrightarrow> read_word Outside t = Some ([], t)"
  by (cases t) auto

lemma read_plain:
  "list_all shell_plain s \<Longrightarrow> at_stop t \<Longrightarrow> read_word Outside (s @ t) = Some (s, t)"
  by (induction s) (auto simp: read_at_stop plain_not_stop plain_not_mark)

lemma read_quoted:
  "at_stop t \<Longrightarrow> read_word Single (concat (map quote_char s) @ quote_mark # t) = Some (s, t)"
  by (induction s) (auto simp: read_at_stop quote_char_def word_stop_def double_plain_def)

lemma read_shlex_quote:
  assumes "at_stop t"
  shows "read_word Outside (shlex_quote s @ t) = Some (s, t)"
proof -
  have "\<not> word_stop quote_mark" by (simp add: word_stop_def)
  then show ?thesis
    using assms read_plain [of s t] read_quoted [of t s]
    by (simp add: shlex_quote_def read_at_stop)
qed

text \<open>A quoted word does not begin with a blank or the end of a line.\<close>

lemma quote_head: "\<exists>c q. shlex_quote s = c # q \<and> \<not> word_stop c"
proof (cases "s = [] \<or> \<not> list_all shell_plain s")
  case True
  then show ?thesis by (auto simp: shlex_quote_def word_stop_def)
next
  case False
  then show ?thesis by (cases s) (auto simp: shlex_quote_def plain_not_stop)
qed

lemma read_words_quote:
  assumes "at_stop t"
  shows "read_words (shlex_quote s @ t) = map_option (apfst (Cons s)) (read_words t)"
proof -
  obtain c q where q: "shlex_quote s = c # q" "\<not> word_stop c" using quote_head by blast
  have "skip_blanks (shlex_quote s @ t) = shlex_quote s @ t"
    using q by (auto simp: skip_blanks_def)
  then show ?thesis
    using q read_shlex_quote [OF assms, of s]
    by (auto simp: read_words.simps [of "c # q @ t"] word_stop_def simp del: read_word.simps)
qed

lemma read_words_blank [simp]: "read_words (blank # t) = read_words t"
  by (simp add: read_words.simps skip_blanks_def)

lemma read_words_end [simp]: "read_words [] = Some ([], [])" "read_words (newline # t) = Some ([], t)"
  by (simp_all add: read_words.simps skip_blanks_def)

text \<open>The line is over: the end of the text or a line break.\<close>

definition line_over :: "string \<Rightarrow> bool" where
  "line_over t \<longleftrightarrow> t = [] \<or> hd t = newline"

lemma line_over_stop: "line_over t \<Longrightarrow> at_stop t"
  by (cases t) (auto simp: line_over_def)

lemma read_words_over: "line_over t \<Longrightarrow> read_words t = Some ([], tl t)"
  by (cases t) (auto simp: line_over_def)

lemma read_shlex_join:
  assumes "line_over t"
  shows "read_words (shlex_join parts @ t) = Some (parts, tl t)"
proof (cases "parts = []")
  case True
  then show ?thesis using assms by (simp add: shlex_join_def read_words_over)
next
  case False
  have "read_words (join_with '' '' (map shlex_quote (p # ps)) @ t) = Some (p # ps, tl t)" for p ps
  proof (induction ps arbitrary: p)
    case Nil
    then show ?case
      using read_words_quote [OF line_over_stop [OF assms], of p] by (simp add: read_words_over assms)
  next
    case (Cons q ps)
    have "read_words (shlex_quote p @ blank # join_with '' '' (map shlex_quote (q # ps)) @ t) =
        Some (p # q # ps, tl t)"
      using Cons.IH [of q] by (subst read_words_quote) simp_all
    then show ?case by simp
  qed
  then show ?thesis using False by (cases parts) (auto simp: shlex_join_def)
qed

text \<open>
  Whatever the words are, with blanks, quotes, line breaks, dollar signs or nothing in them, the
  command line that \<open>shlex.join\<close> builds is read back by the shell as exactly these words; the line
  break after it ends the command and what follows is untouched.
\<close>

lemma shlex_join_read_back:
  "read_words (shlex_join parts) = Some (parts, []) \<and>
   read_words (shlex_join parts @ newline # rest) = Some (parts, rest)"
  using read_shlex_join [of "[]" parts] read_shlex_join [of "newline # rest" parts]
  by (simp add: line_over_def)

section \<open>Assignments in front of a command\<close>

lemma takeWhile_stop: "list_all P n \<Longrightarrow> \<not> P c \<Longrightarrow> takeWhile P (n @ c # t) = n \<and> dropWhile P (n @ c # t) = c # t"
  by (induction n) auto

lemma not_name_char: "\<not> name_char (CHR ''='')"
  by (simp add: name_char_def char_class_defs)

lemma split_assignment_name:
  "shell_name n \<Longrightarrow> split_assignment (n @ CHR ''='' # t) = Some (n, t)"
  using takeWhile_stop [of name_char n "CHR ''=''" t]
  by (simp add: split_assignment_def not_name_char shell_name_def)

lemma name_not_blank: "name_start c \<Longrightarrow> c \<noteq> blank"
  by (auto simp: name_start_def char_class_defs)

lemma skip_blanks_name: "shell_name n \<Longrightarrow> skip_blanks (n @ t) = n @ t"
  by (cases n) (auto simp: shell_name_def skip_blanks_def dest: name_not_blank)

lemma read_command_blank [simp]: "read_command (blank # t) = read_command t"
  by (simp add: read_command.simps [of "blank # t"] read_command.simps [of t] skip_blanks_def
      split: option.split)

text \<open>A word of letters, digits and underscores in front is not taken for an assignment.\<close>

definition plain_program :: "string \<Rightarrow> bool" where
  "plain_program p \<longleftrightarrow> p \<noteq> [] \<and> list_all name_char p"

lemma plain_program_quote: "plain_program p \<Longrightarrow> shlex_quote p = p"
  by (auto simp: plain_program_def shlex_quote_def shell_plain_def name_char_def list_all_iff)

lemma split_assignment_program:
  assumes "plain_program p" and "at_stop t"
  shows "split_assignment (p @ t) = None"
proof -
  have "dropWhile name_char (p @ t) = t" if "t = [] \<or> \<not> name_char (hd t)"
    using assms(1) that by (cases t) (auto simp: plain_program_def takeWhile_stop dropWhile_append2 list_all_iff)
  moreover have "t = [] \<or> \<not> name_char (hd t) \<and> hd t \<noteq> CHR ''=''"
    using assms(2) by (auto simp: at_stop_def word_stop_def name_char_def char_class_defs)
  ultimately show ?thesis by (auto simp: split_assignment_def Let_def)
qed

definition assignment_text :: "string \<times> string \<Rightarrow> string" where
  "assignment_text kv = fst kv @ ''='' @ shlex_quote (snd kv)"

text \<open>The line \<open>_ssh_argv\<close> sends: the assignments and the quoted words, with blanks between them.\<close>

definition command_text :: "(string \<times> string) list \<Rightarrow> string list \<Rightarrow> string" where
  "command_text env parts = join_with '' '' (map assignment_text env @ map shlex_quote parts)"

lemma read_command_words:
  assumes "plain_program p"
  shows "read_command (shlex_join (p # ps)) = Some ([], p # ps)"
proof -
  obtain t where t: "shlex_join (p # ps) = p @ t" "at_stop t"
    using plain_program_quote [OF assms] by (cases ps) (auto simp: shlex_join_def)
  have sb: "skip_blanks (p @ t) = p @ t"
    using assms by (cases p) (auto simp: plain_program_def skip_blanks_def name_char_def char_class_defs)
  have "split_assignment (skip_blanks (shlex_join (p # ps))) = None"
    unfolding t(1) sb by (rule split_assignment_program [OF assms t(2)])
  then show ?thesis
    using read_shlex_join [of "[]" "p # ps"] by (simp add: read_command.simps line_over_def)
qed

lemma read_command_text:
  assumes "list_all (shell_name \<circ> fst) env" and "plain_program p"
  shows "read_command (command_text env (p # ps)) = Some (env, p # ps)"
  using assms(1)
proof (induction env)
  case Nil
  then show ?case using read_command_words [OF assms(2)] by (simp add: command_text_def shlex_join_def)
next
  case (Cons kv env)
  obtain n v where kv: "kv = (n, v)" by (cases kv)
  have n: "shell_name n" using Cons.prems kv by simp
  have ne: "map assignment_text env @ map shlex_quote (p # ps) \<noteq> []" by simp
  have "command_text (kv # env) (p # ps) =
      n @ CHR ''='' # shlex_quote v @ blank # command_text env (p # ps)"
    using ne by (cases "map assignment_text env @ map shlex_quote (p # ps)")
      (simp_all add: command_text_def kv assignment_text_def)
  moreover have "read_command (n @ CHR ''='' # shlex_quote v @ blank # command_text env (p # ps)) =
      Some ((n, v) # env, p # ps)"
    using Cons by (simp add: read_command.simps [of "n @ _"] skip_blanks_name [OF n]
        split_assignment_name [OF n] read_shlex_quote)
  ultimately show ?case by (simp add: kv)
qed

end
