(* ===== verification/Payload.thy ===== *)
theory Payload
  imports Prelude
begin

text \<open>
  The secrets a command gets on its standard input: \<open>_payload_line\<close> and \<open>_secret_payload\<close> of
  \<open>src/app/runner.py\<close>, with \<open>str.encode\<close> and \<open>base64.b64encode\<close> of the standard library, and the
  reader on the other side, which the wrapper script of the same file implements with \<open>read\<close> and
  \<open>base64 -d\<close>.
\<close>

section \<open>UTF-8\<close>

text \<open>\<open>value.encode("utf-8")\<close> for code points below 256.\<close>

fun utf8_encode :: "string \<Rightarrow> string" where
  "utf8_encode [] = []"
| "utf8_encode (c # s) =
     (let n = char_code c in
      if n < 128 then c # utf8_encode s
      else char_of (192 + n div 64) # char_of (128 + n mod 64) # utf8_encode s)"

fun utf8_decode :: "string \<Rightarrow> string option" where
  "utf8_decode [] = Some []"
| "utf8_decode [c] = (if char_code c < 128 then Some [c] else None)"
| "utf8_decode (c # d # s) =
     (if char_code c < 128 then map_option (Cons c) (utf8_decode (d # s))
      else if 194 \<le> char_code c \<and> char_code c \<le> 195 \<and> 128 \<le> char_code d \<and> char_code d < 192
      then map_option (Cons (char_of ((char_code c - 192) * 64 + (char_code d - 128)))) (utf8_decode s)
      else None)"

lemma char_code_less [simp]: "char_code c < 256"
  by (simp add: char_code_def)

lemma char_code_of [simp]: "n < 256 \<Longrightarrow> char_code (char_of n) = n"
  by (simp add: char_code_def)

lemma char_of_code [simp]: "char_of (char_code c) = c"
  by (simp add: char_code_def)

lemma utf8_decode_Cons: "char_code c < 128 \<Longrightarrow> utf8_decode (c # s) = map_option (Cons c) (utf8_decode s)"
  by (cases s) auto

lemma utf8_decode_encode [simp]: "utf8_decode (utf8_encode s) = Some s"
proof (induction s)
  case (Cons c s)
  show ?case
  proof (cases "char_code c < 128")
    case True
    then show ?thesis using Cons by (simp add: Let_def utf8_decode_Cons)
  next
    case False
    then have "2 \<le> char_code c div 64" "char_code c div 64 \<le> 3"
      using char_code_less [of c] by linarith+
    moreover have "char_code c div 64 * 64 + char_code c mod 64 = char_code c"
      by (rule div_mult_mod_eq)
    ultimately show ?thesis using Cons False by (simp add: Let_def)
  qed
qed simp

section \<open>Base64\<close>

definition b64_char :: "nat \<Rightarrow> char" where
  "b64_char n = char_of (if n < 26 then 65 + n else if n < 52 then 71 + n else if n < 62 then n - 4
     else if n = 62 then 43 else 47)"

definition b64_value :: "char \<Rightarrow> nat" where
  "b64_value c = (let n = char_code c in
     if 65 \<le> n \<and> n \<le> 90 then n - 65 else if 97 \<le> n \<and> n \<le> 122 then n - 71
     else if 48 \<le> n \<and> n \<le> 57 then n + 4 else if n = 43 then 62 else 63)"

fun b64encode :: "string \<Rightarrow> string" where
  "b64encode [] = []"
| "b64encode [a] =
     [b64_char (char_code a div 4), b64_char (char_code a mod 4 * 16), CHR ''='', CHR ''='']"
| "b64encode [a, b] =
     [b64_char (char_code a div 4), b64_char (char_code a mod 4 * 16 + char_code b div 16),
      b64_char (char_code b mod 16 * 4), CHR ''='']"
| "b64encode (a # b # c # s) =
     b64_char (char_code a div 4) # b64_char (char_code a mod 4 * 16 + char_code b div 16) #
     b64_char (char_code b mod 16 * 4 + char_code c div 64) # b64_char (char_code c mod 64) # b64encode s"

fun b64decode :: "string \<Rightarrow> string option" where
  "b64decode [] = Some []"
| "b64decode (w # x # y # z # s) =
     (let a = char_of (b64_value w * 4 + b64_value x div 16);
          b = char_of (b64_value x mod 16 * 16 + b64_value y div 4);
          c = char_of (b64_value y mod 4 * 64 + b64_value z) in
      if z = CHR ''='' then (if s \<noteq> [] then None else if y = CHR ''='' then Some [a] else Some [a, b])
      else map_option (\<lambda>t. a # b # c # t) (b64decode s))"
| "b64decode _ = None"

lemma b64_value_char [simp]: "n < 64 \<Longrightarrow> b64_value (b64_char n) = n"
  by (auto simp: b64_value_def b64_char_def Let_def)

lemma b64_char_code: "char_code (b64_char n) \<in> {43, 47} \<union> {48..57} \<union> {65..90} \<union> {97..122}"
  by (auto simp: b64_char_def)

lemma b64_char_text [simp]:
  "b64_char n \<noteq> CHR ''=''" "b64_char n \<noteq> newline" "b64_char n \<noteq> CHR ''-''"
  using b64_char_code [of n] by (auto simp: char_code_def)

lemma parts_small:
  fixes m n :: nat
  assumes "m < 256" and "n < 256"
  shows "m div 4 < 64" "m mod 4 * 16 < 64" "m mod 4 * 16 + n div 16 < 64"
    "m mod 16 * 4 < 64" "m mod 16 * 4 + n div 64 < 64" "m mod 64 < 64"
proof -
  have "n div 16 < 16" "n div 64 < 4" using assms by (simp_all add: div_less_iff_less_mult)
  moreover have "m mod 4 < 4" "m mod 16 < 16" by simp_all
  ultimately show "m div 4 < 64" "m mod 4 * 16 < 64" "m mod 4 * 16 + n div 16 < 64"
    "m mod 16 * 4 < 64" "m mod 16 * 4 + n div 64 < 64" "m mod 64 < 64"
    using assms by (simp_all add: div_less_iff_less_mult)
qed

lemma b64_roundtrip [simp]: "b64decode (b64encode s) = Some s"
proof (induction s rule: b64encode.induct)
  case (2 a)
  have "char_code a div 4 * 4 + char_code a mod 4 = char_code a" by (rule div_mult_mod_eq)
  then show ?case
    using parts_small [of "char_code a" "char_code a"] by (simp add: Let_def)
next
  case (3 a b)
  have "char_code a div 4 * 4 + char_code a mod 4 = char_code a"
    "char_code b div 16 * 16 + char_code b mod 16 = char_code b" by (rule div_mult_mod_eq)+
  moreover have "char_code b div 16 < 16" by (simp add: div_less_iff_less_mult)
  ultimately show ?case
    using parts_small [of "char_code a" "char_code b"] parts_small [of "char_code b" "char_code b"]
    by (simp add: Let_def)
next
  case (4 a b c s)
  have "char_code a div 4 * 4 + char_code a mod 4 = char_code a"
    "char_code b div 16 * 16 + char_code b mod 16 = char_code b"
    "char_code c div 64 * 64 + char_code c mod 64 = char_code c" by (rule div_mult_mod_eq)+
  moreover have "char_code b div 16 < 16" "char_code c div 64 < 4" by (simp_all add: div_less_iff_less_mult)
  ultimately show ?case
    using 4 parts_small [of "char_code a" "char_code b"] parts_small [of "char_code b" "char_code c"]
      parts_small [of "char_code c" "char_code c"]
    by (simp add: Let_def)
qed simp

text \<open>No line break and no minus sign in the encoded text.\<close>

definition b64_text :: "string \<Rightarrow> bool" where
  "b64_text s \<longleftrightarrow> newline \<notin> set s \<and> CHR ''-'' \<notin> set s"

lemma b64encode_text: "b64_text (b64encode s)"
  by (induction s rule: b64encode.induct) (auto simp: b64_text_def dest: sym)

section \<open>The payload\<close>

definition payload_line :: "string option \<Rightarrow> string" where
  "payload_line value =
     (case value of None \<Rightarrow> ''-'' @ [newline] | Some v \<Rightarrow> b64encode (utf8_encode v) @ [newline])"

text \<open>The four values in the order the wrapper reads them.\<close>

definition payload_keys :: "string list" where
  "payload_keys =
     [''_BBM_EXTERNAL_SSH_KEY'', ''_BBM_EXTERNAL_KNOWN_HOSTS'', ''_BBM_KEYFILE'', ''_BBM_STDIN_SECRET'']"

definition payload_values :: "(string \<times> string) list \<Rightarrow> string option list" where
  "payload_values env = map (map_of env) payload_keys"

definition secret_payload :: "(string \<times> string) list \<Rightarrow> bool \<Rightarrow> string option" where
  "secret_payload env required =
     (if \<not> required \<and> list_all (\<lambda>v. v = None) (payload_values env) then None
      else Some (concat (map payload_line (payload_values env))))"

text \<open>The reader: one line per value, a minus sign stands for a missing one.\<close>

definition read_value :: "string \<Rightarrow> string option option" where
  "read_value line =
     (if line = ''-'' then Some None else map_option Some (Option.bind (b64decode line) utf8_decode))"

fun read_values :: "nat \<Rightarrow> string \<Rightarrow> (string option list \<times> string) option" where
  "read_values 0 s = Some ([], s)"
| "read_values (Suc n) s =
     (case py_partition newline s of
        (line, True, rest) \<Rightarrow>
          (case read_value line of
             None \<Rightarrow> None
           | Some v \<Rightarrow> map_option (apfst (Cons v)) (read_values n rest))
      | _ \<Rightarrow> None)"

lemma py_partition_line: "newline \<notin> set a \<Longrightarrow> py_partition newline (a @ newline # b) = (a, True, b)"
  by (induction a) auto

lemma read_payload_line:
  "read_values (Suc n) (payload_line v @ rest) = map_option (apfst (Cons v)) (read_values n rest)"
proof (cases v)
  case None
  then show ?thesis by (simp add: payload_line_def read_value_def)
next
  case (Some w)
  define e where "e = b64encode (utf8_encode w)"
  have t: "b64_text e" unfolding e_def by (rule b64encode_text)
  then have "e \<noteq> ''-''" by (auto simp: b64_text_def)
  moreover have "b64decode e = Some (utf8_encode w)" by (simp add: e_def)
  moreover have "py_partition newline (e @ newline # rest) = (e, True, rest)"
    using t by (intro py_partition_line) (simp add: b64_text_def)
  ultimately show ?thesis by (simp add: payload_line_def Some read_value_def e_def [symmetric])
qed

lemma read_payload_lines:
  "read_values (length vs) (concat (map payload_line vs) @ rest) = Some (vs, rest)"
proof (induction vs)
  case (Cons v vs)
  then show ?case using read_payload_line [of "length vs" v "concat (map payload_line vs) @ rest"] by simp
qed simp

end
