(* ===== verification/Commands.thy ===== *)
theory Commands
  imports ShellWords Payload ExternalLocation Requests Model
begin

text \<open>
  Command lines of \<open>src/app/runner.py\<close>: the environment of a repository, the secrets it needs, and
  the two ways a command is started, in the manager itself (\<open>_manager_repository_command\<close>) and on a
  source device through ssh (\<open>_ssh_argv\<close>). A \<open>ValueError\<close> is \<open>Inl\<close> of its message; the messages of
  \<open>urllib\<close> are not kept. The vault of \<open>src/app/vault.py\<close> is a record of lookups; the texts of the
  constant shell scripts are a field of \<open>runtime\<close>.
\<close>

section \<open>Commands and their surroundings\<close>

record command =
  cm_argv :: "string list"
  cm_preview :: string
  cm_stdin :: "string option"
  cm_env :: "(string \<times> string) list option"
  cm_temp_files :: "(string \<times> string) list"
  cm_controlled_cancel :: bool
  cm_timeout :: "int option"
  cm_cache_repository :: "nat option"
  cm_allow_mount :: bool

definition command_of :: "string list \<Rightarrow> string \<Rightarrow> command" where
  "command_of argv preview =
     \<lparr>cm_argv = argv, cm_preview = preview, cm_stdin = None, cm_env = None, cm_temp_files = [],
      cm_controlled_cancel = False, cm_timeout = None, cm_cache_repository = None, cm_allow_mount = False\<rparr>"

record runtime =
  ru_root :: bool
  ru_timezone :: string
  ru_cache_root :: string
  ru_security_dir :: string
  ru_keyfiles :: string
  ru_export_root :: string
  ru_timeout :: int
  ru_script :: "string \<Rightarrow> string"
  ru_url :: url_env

record vault =
  va_repository :: "nat \<Rightarrow> string \<Rightarrow> string option"
  va_names :: "nat \<Rightarrow> string list"
  va_system :: "string \<Rightarrow> string option"

type_synonym 'a fallible = "(string, 'a) result"

definition url_fallible :: "(url_error, 'a) result \<Rightarrow> 'a fallible" where
  "url_fallible r = (case r of Inr a \<Rightarrow> Inr a
     | Inl Invalid_url \<Rightarrow> Inl ''invalid URL'' | Inl Invalid_port \<Rightarrow> Inl ''invalid port'')"

definition required_text :: "string \<Rightarrow> string option \<Rightarrow> string fallible" where
  "required_text message value =
     (case value of Some t \<Rightarrow> if t = [] then Inl message else Inr t | None \<Rightarrow> Inl message)"

text \<open>\<open>str(n)\<close>.\<close>

definition int_text :: "int \<Rightarrow> string" where
  "int_text n = (if n < 0 then CHR ''-'' # str_nat (nat (- n)) else str_nat (nat n))"

definition manager_borg_argv :: "runtime \<Rightarrow> string list \<Rightarrow> string list" where
  "manager_borg_argv rt parts =
     (if ru_root rt then [''runuser'', ''-u'', ''borg'', ''--''] @ parts else parts)"

text \<open>\<open>execute\<close> replaces the placeholders of temporary files in every argument.\<close>

definition replace_temp_file_placeholders :: "string list \<Rightarrow> (string \<times> string) list \<Rightarrow> string list" where
  "replace_temp_file_placeholders argv replacements =
     map (\<lambda>argument. foldl (\<lambda>a (placeholder, path). py_replace placeholder path a) argument replacements) argv"

definition repository_identity_file :: "repository \<Rightarrow> string" where
  "repository_identity_file r = ''~/.ssh/bbm_repository_'' @ str_nat (rp_id r) @ ''_ed25519''"

definition manager_repository_cache_dir :: "runtime \<Rightarrow> repository \<Rightarrow> string fallible" where
  "manager_repository_cache_dir rt r =
     (if rp_id r = 0 then Inl ''Repository must be persisted before its cache is used''
      else Inr (ru_cache_root rt @ ''/repository-'' @ str_nat (rp_id r)))"

section \<open>The environment of a repository\<close>

definition load_repository_environment :: "vault \<Rightarrow> repository \<Rightarrow> (string \<times> string) list" where
  "load_repository_environment v r =
     fold (\<lambda>name env.
         if starts_with ''env.'' name
         then (case va_repository v (rp_id r) name of None \<Rightarrow> env | Some x \<Rightarrow> dict_set (drop 4 name) x env)
         else env)
       (va_names v (rp_id r)) (rp_extra_env r)"

definition effective_mode :: "repository \<Rightarrow> string" where
  "effective_mode r = (if rp_encryption_mode r = [] then ''repokey-blake2'' else rp_encryption_mode r)"

definition add_keyfile :: "vault \<Rightarrow> repository \<Rightarrow> (string \<times> string) list \<Rightarrow> (string \<times> string) list fallible" where
  "add_keyfile v r env =
     (if starts_with ''keyfile'' (effective_mode r) then
        try_bind (required_text ''Keyfile repository has no stored Borg key'' (va_repository v (rp_id r) ''keyfile''))
          (\<lambda>key. Inr (dict_set ''_BBM_KEYFILE_NAME'' (''bbm_repository_'' @ str_nat (rp_id r))
             (dict_set ''_BBM_KEYFILE'' key env)))
      else Inr env)"

definition add_extra :: "(string \<times> string) list \<Rightarrow> (string \<times> string) list \<Rightarrow> (string \<times> string) list fallible" where
  "add_extra extra env =
     (if list_ex (\<lambda>(k, _). \<not> env_name k) extra
      then Inl ''Repository environment contains an invalid variable name''
      else if list_ex (\<lambda>(k, _). k \<in> set reserved_environment) extra
      then Inl ''Repository environment attempts to override a reserved Borg variable''
      else Inr (fold (\<lambda>(k, x). dict_set k x) extra env))"

definition base_env :: "runtime \<Rightarrow> vault \<Rightarrow> repository \<Rightarrow> (string \<times> string) list" where
  "base_env rt v r =
     (let env0 = [(''BORG_REPO'', rp_location r), (''TZ'', ru_timezone rt)];
          env1 = (if effective_mode r \<in> {''none'', ''authenticated'', ''authenticated-blake2''}
                  then dict_set ''BORG_UNKNOWN_UNENCRYPTED_REPO_ACCESS_IS_OK'' ''yes'' env0 else env0) in
      case va_repository v (rp_id r) ''passphrase'' of None \<Rightarrow> env1
      | Some s \<Rightarrow> dict_set ''_BBM_STDIN_SECRET'' s env1)"

definition common_repository_env :: "runtime \<Rightarrow> vault \<Rightarrow> repository \<Rightarrow> (string \<times> string) list fallible" where
  "common_repository_env rt v r =
     try_bind (add_keyfile v r (base_env rt v r)) (add_extra (load_repository_environment v r))"

text \<open>The key and the known hosts of an external repository reached by ssh.\<close>

definition add_external_key ::
    "vault \<Rightarrow> repository \<Rightarrow> bool \<Rightarrow> (string \<times> string) list \<Rightarrow> (string \<times> string) list fallible" where
  "add_external_key v r verbose env =
     try_bind (required_text ''External repository has no manager SSH key configured''
       (va_repository v (rp_id r) ''external_ssh_private_key'')) (\<lambda>key.
     try_bind (required_text ''External repository has no manager known_hosts entry configured''
       (va_repository v (rp_id r) ''external_known_hosts'')) (\<lambda>known.
     Inr (dict_set ''_BBM_EXTERNAL_SSH_VERBOSE'' (if verbose then ''1'' else ''0'')
       (dict_set ''_BBM_EXTERNAL_KNOWN_HOSTS'' known (dict_set ''_BBM_EXTERNAL_SSH_KEY'' key env)))))"

definition repository_uses_ssh :: "runtime \<Rightarrow> repository \<Rightarrow> bool fallible" where
  "repository_uses_ssh rt r = url_fallible (repository_location_uses_ssh (ru_url rt) (rp_location r))"

definition managed_rsh :: "repository \<Rightarrow> bool \<Rightarrow> string" where
  "managed_rsh r verbose =
     ''ssh'' @ (if verbose then '' -vv'' else []) @ '' -i '' @ repository_identity_file r @
     '' -o BatchMode=yes -o ConnectTimeout=10 -o ConnectionAttempts=1 '' @
     ''-o ServerAliveInterval=10 -o ServerAliveCountMax=30 '' @
     ''-o IdentitiesOnly=yes -o StrictHostKeyChecking=yes '' @
     ''-o UserKnownHostsFile=~/.ssh/bbm_repository_known_hosts''"

definition remote_env :: "runtime \<Rightarrow> vault \<Rightarrow> repository \<Rightarrow> bool \<Rightarrow> (string \<times> string) list fallible" where
  "remote_env rt v r verbose =
     try_bind (common_repository_env rt v r) (\<lambda>env0.
       let env = dict_set ''_BBM_CLIENT_CACHE_KEY'' (''repository-'' @ str_nat (rp_id r)) env0 in
       if truthy (rp_storage_path r) then Inr (dict_set ''BORG_RSH'' (managed_rsh r verbose) env)
       else try_bind (repository_uses_ssh rt r) (\<lambda>ssh.
         if ssh then add_external_key v r verbose env else Inr env))"

definition public_env :: "(string \<times> string) list \<Rightarrow> (string \<times> string) list" where
  "public_env env = filter (\<lambda>(k, _). \<not> starts_with ''_BBM_'' k) env"

definition env_get :: "string \<Rightarrow> string \<Rightarrow> (string \<times> string) list \<Rightarrow> string" where
  "env_get k d env = (case map_of env k of None \<Rightarrow> d | Some x \<Rightarrow> x)"

section \<open>Commands of the manager\<close>

definition manager_env :: "runtime \<Rightarrow> vault \<Rightarrow> repository \<Rightarrow> bool \<Rightarrow> (string \<times> string) list fallible" where
  "manager_env rt v r verbose =
     try_bind (common_repository_env rt v r) (\<lambda>env0.
     try_bind (manager_repository_cache_dir rt r) (\<lambda>cache.
       let env = dict_set ''BORG_SECURITY_DIR'' (ru_security_dir rt) (dict_set ''BORG_CACHE_DIR'' cache env0) in
       if truthy (rp_storage_path r) then Inr (dict_set ''BORG_REPO'' (or_empty (rp_storage_path r)) env)
       else try_bind (repository_uses_ssh rt r) (\<lambda>ssh.
         if ssh then add_external_key v r verbose env else Inr env)))"

definition wrapped_parts :: "runtime \<Rightarrow> (string \<times> string) list \<Rightarrow> string \<Rightarrow> string list \<Rightarrow> string list" where
  "wrapped_parts rt env cache_key parts =
     [''sh'', ''-c'', ru_script rt ''_SECRET_WRAPPER'', ''--'',
      env_get ''_BBM_EXTERNAL_SSH_VERBOSE'' ''0'' env, cache_key] @ parts"

definition shown_location :: "repository \<Rightarrow> string" where
  "shown_location r = (if truthy (rp_storage_path r) then or_empty (rp_storage_path r) else rp_location r)"

definition manager_command_of :: "runtime \<Rightarrow> repository \<Rightarrow> string list \<Rightarrow> (string \<times> string) list \<Rightarrow> command" where
  "manager_command_of rt r parts env =
     (let payload = secret_payload env False; pub = public_env env in
      (command_of
         (manager_borg_argv rt (if payload = None then parts else wrapped_parts rt env ''-'' parts))
         (''[direkt im Manager] BORG_REPO='' @ shlex_quote (shown_location r) @ '' '' @ shlex_join parts))
      \<lparr>cm_stdin := payload, cm_env := (if pub = [] then None else Some pub),
       cm_controlled_cancel := (payload \<noteq> None),
       cm_cache_repository := (if truthy (rp_storage_path r) then None else Some (rp_id r))\<rparr>)"

definition manager_repository_command ::
    "runtime \<Rightarrow> vault \<Rightarrow> repository \<Rightarrow> string list \<Rightarrow> bool \<Rightarrow> command fallible" where
  "manager_repository_command rt v r parts verbose =
     try_bind (manager_env rt v r verbose) (\<lambda>env. Inr (manager_command_of rt r parts env))"

section \<open>Commands on a source device\<close>

definition key_placeholder :: string where
  "key_placeholder = ''__BBM_CONTROLLER_KEY__''"

definition known_placeholder :: string where
  "known_placeholder = ''__BBM_CONTROLLER_KNOWN_HOSTS__''"

definition ssh_options :: "host \<Rightarrow> string list" where
  "ssh_options h =
     [''ssh'', ''-i'', key_placeholder,
      ''-o'', ''BatchMode=yes'', ''-o'', ''ConnectTimeout=10'', ''-o'', ''ConnectionAttempts=1'',
      ''-o'', ''ServerAliveInterval=10'', ''-o'', ''ServerAliveCountMax=30'', ''-o'', ''IdentitiesOnly=yes'',
      ''-o'', ''StrictHostKeyChecking=yes'', ''-o'', ''UserKnownHostsFile='' @ known_placeholder,
      ''-p'', int_text (ho_port h), ''--'', ho_username h @ ''@'' @ ho_address h]"

text \<open>What the remote shell is asked to run: the wrapper around the words, if there is a payload.\<close>

definition remote_parts ::
    "runtime \<Rightarrow> (string \<times> string) list \<Rightarrow> bool \<Rightarrow> string list \<Rightarrow> string list \<times> string option" where
  "remote_parts rt env supervised parts =
     (let cache_key = env_get ''_BBM_CLIENT_CACHE_KEY'' ''-'' env;
          payload = secret_payload env (supervised \<or> cache_key \<noteq> ''-'') in
      (if payload = None then parts else wrapped_parts rt env cache_key parts, payload))"

definition preview_env :: "(string \<times> string) list \<Rightarrow> (string \<times> string) list" where
  "preview_env env =
     (if truthy (map_of env ''_BBM_EXTERNAL_SSH_KEY'')
      then dict_set ''BORG_RSH''
        (''ssh -i [tempor'' @ [CHR 0xE4] @ ''rer Manager-Schl'' @ [CHR 0xFC] @ ''ssel] -o StrictHostKeyChecking=yes'')
        (public_env env)
      else public_env env)"

definition remote_command_of ::
    "runtime \<Rightarrow> host \<Rightarrow> string list \<Rightarrow> (string \<times> string) list \<Rightarrow> bool \<Rightarrow> string \<Rightarrow> string \<Rightarrow> command" where
  "remote_command_of rt h parts env supervised key host_key =
     (case remote_parts rt env supervised parts of (words, payload) \<Rightarrow>
        (command_of (ssh_options h @ [command_text (public_env env) words])
          (''ssh -i [tempor'' @ [CHR 0xE4] @ ''rer Controller-Schl'' @ [CHR 0xFC] @ ''ssel] '' @
           ho_username h @ ''@'' @ ho_address h @ '' -- '' @ command_text (preview_env env) parts))
        \<lparr>cm_stdin := payload,
         cm_temp_files := [(key_placeholder, key), (known_placeholder, py_strip host_key @ [newline])],
         cm_controlled_cancel := (payload \<noteq> None)\<rparr>)"

definition ssh_argv ::
    "runtime \<Rightarrow> vault \<Rightarrow> host \<Rightarrow> string list \<Rightarrow> (string \<times> string) list \<Rightarrow> bool \<Rightarrow> command fallible" where
  "ssh_argv rt v h parts env supervised =
     (if \<not> ho_enabled h then Inl (''Host '' @ ho_name h @ '' is disabled'')
      else try_bind (required_text
            (''Controller-Schl'' @ [CHR 0xFC] @ ''ssel ist im Sicherheitsspeicher nicht vorhanden'')
            (va_system v ''controller_private_key'')) (\<lambda>key.
        try_bind (required_text (''SSH-Hostkey f'' @ [CHR 0xFC] @ ''r '' @ ho_name h @ '' fehlt'') (ho_host_key h))
          (\<lambda>host_key. Inr (remote_command_of rt h parts env supervised key host_key))))"

section \<open>The names of the environment\<close>

text \<open>Every name is an identifier of the shell, so an assignment of it is one.\<close>

definition names_ok :: "(string \<times> string) list \<Rightarrow> bool" where
  "names_ok env \<longleftrightarrow> list_all (shell_name \<circ> fst) env"

lemma names_ok_dict_set [simp]: "shell_name k \<Longrightarrow> names_ok env \<Longrightarrow> names_ok (dict_set k x env)"
  by (induction k x env rule: dict_set.induct) (auto simp: names_ok_def)

lemma names_ok_filter [simp]: "names_ok env \<Longrightarrow> names_ok (filter P env)"
  by (auto simp: names_ok_def list_all_iff)

lemma env_name_shell: "env_name k \<Longrightarrow> shell_name k"
  by (cases k)
    (auto simp: env_name_def shell_name_def name_start_def name_char_def is_alpha_def is_alnum_def list_all_iff)

lemma add_extra_names: "add_extra extra env = Inr env' \<Longrightarrow> names_ok env \<Longrightarrow> names_ok env'"
proof -
  assume a: "add_extra extra env = Inr env'" and ok: "names_ok env"
  then have e: "env' = fold (\<lambda>(k, x). dict_set k x) extra env" and k: "\<forall>(k, _) \<in> set extra. env_name k"
    by (auto simp: add_extra_def list_ex_iff split: if_splits)
  from k ok show "names_ok env'" unfolding e
    by (induction extra arbitrary: env) (auto simp: env_name_shell)
qed

definition fixed_names :: "string list" where
  "fixed_names =
     [''BORG_REPO'', ''TZ'', ''BORG_UNKNOWN_UNENCRYPTED_REPO_ACCESS_IS_OK'', ''_BBM_STDIN_SECRET'',
      ''_BBM_KEYFILE'', ''_BBM_KEYFILE_NAME'', ''_BBM_EXTERNAL_SSH_KEY'', ''_BBM_EXTERNAL_KNOWN_HOSTS'',
      ''_BBM_EXTERNAL_SSH_VERBOSE'', ''_BBM_CLIENT_CACHE_KEY'', ''BORG_RSH'', ''BORG_CACHE_DIR'', ''BORG_SECURITY_DIR'']"

lemma fixed_names_shell: "list_all shell_name fixed_names"
  by code_simp

lemmas fixed_name_simps [simp] = fixed_names_shell [unfolded fixed_names_def, simplified]

lemma base_names: "names_ok (base_env rt v r)"
proof -
  have "names_ok [(''BORG_REPO'', rp_location r), (''TZ'', ru_timezone rt)]" by (simp add: names_ok_def)
  then show ?thesis by (simp add: base_env_def Let_def del: dict_set.simps split: option.split)
qed

lemma keyfile_names: "add_keyfile v r env = Inr env' \<Longrightarrow> names_ok env \<Longrightarrow> names_ok env'"
  by (auto simp: add_keyfile_def try_bind_Inr_iff split: if_splits)

lemma common_names: "common_repository_env rt v r = Inr env \<Longrightarrow> names_ok env"
  unfolding common_repository_env_def try_bind_Inr_iff by (metis add_extra_names base_names keyfile_names)

lemma external_names: "add_external_key v r verbose env = Inr env' \<Longrightarrow> names_ok env \<Longrightarrow> names_ok env'"
  by (auto simp: add_external_key_def try_bind_Inr_iff)

lemma remote_names: "remote_env rt v r verbose = Inr env \<Longrightarrow> names_ok env"
  by (auto simp: remote_env_def try_bind_Inr_iff Let_def common_names split: if_splits intro: external_names)

section \<open>The remote shell reads what was meant\<close>

lemma wrapped_program: "wrapped_parts rt env k parts = ''sh'' # tl (wrapped_parts rt env k parts)"
  by (simp add: wrapped_parts_def)

lemma sh_program: "plain_program ''sh''"
  by code_simp

lemma ssh_argv_Inr:
  assumes "ssh_argv rt v h parts env supervised = Inr c"
  shows "cm_argv c = ssh_options h @ [command_text (public_env env) (fst (remote_parts rt env supervised parts))]"
    and "cm_stdin c = snd (remote_parts rt env supervised parts)"
  using assms
  by (auto simp: ssh_argv_def remote_command_of_def try_bind_Inr_iff command_of_def split_beta split: if_splits)

lemma supervised_parts:
  assumes "supervised \<or> env_get ''_BBM_CLIENT_CACHE_KEY'' ''-'' env \<noteq> ''-''"
  shows "remote_parts rt env supervised parts =
    (wrapped_parts rt env (env_get ''_BBM_CLIENT_CACHE_KEY'' ''-'' env) parts,
     Some (concat (map payload_line (payload_values env))))"
  using assms by (auto simp: remote_parts_def secret_payload_def Let_def)

lemma payload_read: "read_values 4 (concat (map payload_line (payload_values env))) = Some (payload_values env, [])"
proof -
  have "length (payload_values env) = 4" by (simp add: payload_values_def payload_keys_def)
  then show ?thesis using read_payload_lines [of "payload_values env" "[]"] by simp
qed

text \<open>The key of the client cache is not overridden: a variable of the repository begins with a capital letter.\<close>

lemma fold_dict_set_other:
  "\<forall>(k', _) \<in> set extra. k' \<noteq> k \<Longrightarrow> map_of (fold (\<lambda>(k, x). dict_set k x) extra env) k = map_of env k"
  by (induction extra arbitrary: env) auto

lemma env_name_not_private: "env_name k \<Longrightarrow> \<not> starts_with ''_'' k"
  by (cases k) (auto simp: env_name_def starts_with_def is_upper_def char_code_def)

lemma external_other:
  "add_external_key v r verbose env = Inr env' \<Longrightarrow>
   k \<notin> {''_BBM_EXTERNAL_SSH_KEY'', ''_BBM_EXTERNAL_KNOWN_HOSTS'', ''_BBM_EXTERNAL_SSH_VERBOSE''} \<Longrightarrow>
   map_of env' k = map_of env k"
  by (auto simp: add_external_key_def try_bind_Inr_iff)

lemma remote_cache_key:
  "remote_env rt v r verbose = Inr env \<Longrightarrow>
   map_of env ''_BBM_CLIENT_CACHE_KEY'' = Some (''repository-'' @ str_nat (rp_id r))"
  by (auto simp: remote_env_def try_bind_Inr_iff Let_def split: if_splits dest!: external_other [where k = "''_BBM_CLIENT_CACHE_KEY''"])

text \<open>
  C32: Every command for a repository that is sent to a source device arrives there as it was meant.
  The one line that the remote shell gets is read as the public variables of the environment,
  followed by the wrapper script with the private cache of the repository and the words of the
  command, whatever names, paths, patterns and values they hold; the wrapper reads from its input
  exactly the secrets of the repository.
\<close>

theorem remote_command_read_back:
  assumes env: "remote_env rt v r verbose = Inr env"
    and c: "ssh_argv rt v h parts env supervised = Inr c"
  shows "read_command (last (cm_argv c)) =
      Some (public_env env,
        [''sh'', ''-c'', ru_script rt ''_SECRET_WRAPPER'', ''--'',
         env_get ''_BBM_EXTERNAL_SSH_VERBOSE'' ''0'' env, ''repository-'' @ str_nat (rp_id r)] @ parts) \<and>
    map_option (read_values 4) (cm_stdin c) = Some (Some (payload_values env, []))"
proof -
  have key: "env_get ''_BBM_CLIENT_CACHE_KEY'' ''-'' env = ''repository-'' @ str_nat (rp_id r)"
    using remote_cache_key [OF env] by (simp add: env_get_def)
  then have "env_get ''_BBM_CLIENT_CACHE_KEY'' ''-'' env \<noteq> ''-''" by simp
  then have parts: "remote_parts rt env supervised parts =
      (wrapped_parts rt env (''repository-'' @ str_nat (rp_id r)) parts,
       Some (concat (map payload_line (payload_values env))))"
    using supervised_parts [of supervised env rt parts] key by simp
  have "names_ok (public_env env)"
    unfolding public_env_def by (rule names_ok_filter [OF remote_names [OF env]])
  then have "read_command (command_text (public_env env) (wrapped_parts rt env k parts)) =
      Some (public_env env, wrapped_parts rt env k parts)" for k
    using read_command_text [OF _ sh_program, of "public_env env"] wrapped_program [of rt env k parts]
    by (metis names_ok_def)
  then show ?thesis
    using ssh_argv_Inr [OF c] parts payload_read [of env] by (simp add: wrapped_parts_def)
qed

section \<open>Secrets stay out of command lines\<close>

text \<open>
  Two vaults that hold the same names and the same variables, and differ only in the values of the
  passphrase, the keyfile, the external key and the known hosts of a repository.
\<close>

definition same_shape :: "nat \<Rightarrow> vault \<Rightarrow> vault \<Rightarrow> bool" where
  "same_shape n v w \<longleftrightarrow>
     va_names v n = va_names w n \<and>
     list_all (\<lambda>name. starts_with ''env.'' name \<longrightarrow> va_repository v n name = va_repository w n name) (va_names v n) \<and>
     list_all (\<lambda>name. map_option (\<lambda>s. s = []) (va_repository v n name) = map_option (\<lambda>s. s = []) (va_repository w n name))
       [''passphrase'', ''keyfile'', ''external_ssh_private_key'', ''external_known_hosts''] \<and>
     map_option (\<lambda>s. s = []) (va_system v ''controller_private_key'') =
       map_option (\<lambda>s. s = []) (va_system w ''controller_private_key'')"

text \<open>Everything of a command that others can see: its input and its temporary files are hidden.\<close>

definition visible :: "command \<Rightarrow> command" where
  "visible c = c\<lparr>cm_stdin := map_option (\<lambda>_. []) (cm_stdin c), cm_temp_files := map (\<lambda>(p, _). (p, [])) (cm_temp_files c)\<rparr>"

definition private_name :: "string \<Rightarrow> bool" where
  "private_name k \<longleftrightarrow> k \<in> set payload_keys"

definition value_like :: "string \<Rightarrow> string \<Rightarrow> string \<Rightarrow> bool" where
  "value_like k x y \<longleftrightarrow> (if private_name k then (x = []) = (y = []) else x = y)"

definition entry_like :: "string \<times> string \<Rightarrow> string \<times> string \<Rightarrow> bool" where
  "entry_like p q \<longleftrightarrow> fst p = fst q \<and> value_like (fst p) (snd p) (snd q)"

lemma entry_like_simp [simp]: "entry_like (k, x) (k', y) \<longleftrightarrow> k = k' \<and> value_like k x y"
  by (auto simp: entry_like_def)

definition env_like :: "(string \<times> string) list \<Rightarrow> (string \<times> string) list \<Rightarrow> bool" where
  "env_like e f \<longleftrightarrow> list_all2 entry_like e f"

lemma value_like_refl [simp]: "value_like k x x"
  by (simp add: value_like_def)

lemma env_like_refl [simp]: "env_like e e"
  unfolding env_like_def by (rule list_all2_refl) (simp add: entry_like_def)

lemma env_like_set: "env_like e f \<Longrightarrow> value_like k x y \<Longrightarrow> env_like (dict_set k x e) (dict_set k y f)"
  unfolding env_like_def
proof (induction e f rule: list_all2_induct)
  case (Cons p e q f)
  then show ?case by (cases p; cases q) auto
qed simp

lemma env_like_fold:
  "env_like e f \<Longrightarrow> env_like (fold (\<lambda>(k, x). dict_set k x) extra e) (fold (\<lambda>(k, x). dict_set k x) extra f)"
  by (induction extra arbitrary: e f) (auto simp: env_like_set)

lemma private_name_prefix: "private_name k \<Longrightarrow> starts_with ''_BBM_'' k"
  by (auto simp: private_name_def payload_keys_def starts_with_def)

lemma env_like_public: "env_like e f \<Longrightarrow> public_env e = public_env f"
  unfolding env_like_def public_env_def
proof (induction e f rule: list_all2_induct)
  case (Cons p e q f)
  then show ?case by (cases p; cases q) (auto simp: value_like_def dest: private_name_prefix split: if_splits)
qed simp

lemma env_like_get: "env_like e f \<Longrightarrow> \<not> private_name k \<Longrightarrow> map_of e k = map_of f k"
  unfolding env_like_def
proof (induction e f rule: list_all2_induct)
  case (Cons p e q f)
  then show ?case by (cases p; cases q) (auto simp: value_like_def)
qed simp

definition empty_like :: "string option \<Rightarrow> string option \<Rightarrow> bool" where
  "empty_like x y \<longleftrightarrow> map_option (\<lambda>s. s = []) x = map_option (\<lambda>s. s = []) y"

lemma env_like_empty: "env_like e f \<Longrightarrow> empty_like (map_of e k) (map_of f k)"
  unfolding env_like_def
proof (induction e f rule: list_all2_induct)
  case (Cons p e q f)
  then show ?case by (cases p; cases q) (auto simp: empty_like_def value_like_def split: if_splits)
qed (simp add: empty_like_def)

lemma empty_like_None: "empty_like x y \<Longrightarrow> x = None \<longleftrightarrow> y = None"
  by (cases x; cases y) (auto simp: empty_like_def)

lemma empty_like_truthy: "empty_like x y \<Longrightarrow> truthy x \<longleftrightarrow> truthy y"
  by (cases x; cases y) (auto simp: empty_like_def)

lemma env_like_payload:
  assumes "env_like e f"
  shows "secret_payload e required = None \<longleftrightarrow> secret_payload f required = None"
proof -
  have "map_of e k = None \<longleftrightarrow> map_of f k = None" for k
    using env_like_empty [OF assms] by (rule empty_like_None)
  then show ?thesis by (simp add: secret_payload_def payload_values_def list_all_iff)
qed

text \<open>Fallible results that are alike: the same error, or values related by \<open>P\<close>.\<close>

definition result_like :: "('a \<Rightarrow> 'a \<Rightarrow> bool) \<Rightarrow> 'a fallible \<Rightarrow> 'a fallible \<Rightarrow> bool" where
  "result_like P x y = rel_sum (=) P x y"

lemma result_like_bind:
  "result_like P x y \<Longrightarrow> (\<And>a b. P a b \<Longrightarrow> result_like Q (f a) (g b)) \<Longrightarrow> result_like Q (try_bind x f) (try_bind y g)"
  unfolding result_like_def by (cases x; cases y) auto

lemma result_like_Inr [simp]: "result_like P (Inr a) (Inr b) \<longleftrightarrow> P a b"
  by (simp add: result_like_def)

lemma result_like_Inl [simp]: "result_like P (Inl m) (Inl m)"
  by (simp add: result_like_def)

lemma result_like_same: "(\<And>a. P a a) \<Longrightarrow> result_like P x x"
  unfolding result_like_def by (cases x) auto

lemma required_like: "empty_like x y \<Longrightarrow> result_like (\<lambda>a b. (a = []) = (b = [])) (required_text m x) (required_text m y)"
  by (cases x; cases y) (auto simp: empty_like_def required_text_def result_like_def)

lemma same_shape_secret:
  "same_shape n v w \<Longrightarrow> k \<in> {''passphrase'', ''keyfile'', ''external_ssh_private_key'', ''external_known_hosts''} \<Longrightarrow>
   empty_like (va_repository v n k) (va_repository w n k)"
  by (auto simp: same_shape_def empty_like_def)

lemma same_shape_environment: "same_shape (rp_id r) v w \<Longrightarrow> load_repository_environment v r = load_repository_environment w r"
  by (auto simp: same_shape_def load_repository_environment_def list_all_iff intro!: fold_cong)

lemma private_names [simp]:
  "private_name ''_BBM_STDIN_SECRET''" "private_name ''_BBM_KEYFILE''"
  "private_name ''_BBM_EXTERNAL_SSH_KEY''" "private_name ''_BBM_EXTERNAL_KNOWN_HOSTS''"
  "\<not> private_name ''_BBM_EXTERNAL_SSH_VERBOSE''" "\<not> private_name ''_BBM_CLIENT_CACHE_KEY''"
  by (simp_all add: private_name_def payload_keys_def)

lemma base_like:
  assumes "same_shape (rp_id r) v w"
  shows "env_like (base_env rt v r) (base_env rt w r)"
proof -
  have "empty_like (va_repository v (rp_id r) ''passphrase'') (va_repository w (rp_id r) ''passphrase'')"
    using same_shape_secret [OF assms] by simp
  then show ?thesis
    by (cases "va_repository v (rp_id r) ''passphrase''"; cases "va_repository w (rp_id r) ''passphrase''")
      (simp_all add: base_env_def Let_def empty_like_def env_like_set value_like_def del: dict_set.simps)
qed

lemma keyfile_like:
  assumes "same_shape (rp_id r) v w" and "env_like e f"
  shows "result_like env_like (add_keyfile v r e) (add_keyfile w r f)"
proof -
  have "empty_like (va_repository v (rp_id r) ''keyfile'') (va_repository w (rp_id r) ''keyfile'')"
    using same_shape_secret [OF assms(1)] by simp
  from required_like [OF this] assms(2) show ?thesis
    by (auto simp: add_keyfile_def env_like_set value_like_def intro!: result_like_bind)
qed

lemma extra_like: "env_like e f \<Longrightarrow> result_like env_like (add_extra x e) (add_extra x f)"
  by (simp add: add_extra_def env_like_fold)

lemma common_like:
  assumes "same_shape (rp_id r) v w"
  shows "result_like env_like (common_repository_env rt v r) (common_repository_env rt w r)"
  unfolding common_repository_env_def same_shape_environment [OF assms]
  by (rule result_like_bind [OF keyfile_like [OF assms base_like [OF assms]]]) (rule extra_like)

lemma external_like:
  assumes "same_shape (rp_id r) v w" and "env_like e f"
  shows "result_like env_like (add_external_key v r b e) (add_external_key w r b f)"
proof -
  have "empty_like (va_repository v (rp_id r) ''external_ssh_private_key'') (va_repository w (rp_id r) ''external_ssh_private_key'')"
    and k: "empty_like (va_repository v (rp_id r) ''external_known_hosts'') (va_repository w (rp_id r) ''external_known_hosts'')"
    using same_shape_secret [OF assms(1)] by simp_all
  from required_like [OF this(1)] show ?thesis
    unfolding add_external_key_def
  proof (rule result_like_bind)
    fix x y :: string
    assume xy: "(x = []) = (y = [])"
    from required_like [OF k]
    show "result_like env_like
       (try_bind (required_text ''External repository has no manager known_hosts entry configured''
           (va_repository v (rp_id r) ''external_known_hosts''))
         (\<lambda>known. Inr (dict_set ''_BBM_EXTERNAL_SSH_VERBOSE'' (if b then ''1'' else ''0'')
            (dict_set ''_BBM_EXTERNAL_KNOWN_HOSTS'' known (dict_set ''_BBM_EXTERNAL_SSH_KEY'' x e)))))
       (try_bind (required_text ''External repository has no manager known_hosts entry configured''
           (va_repository w (rp_id r) ''external_known_hosts''))
         (\<lambda>known. Inr (dict_set ''_BBM_EXTERNAL_SSH_VERBOSE'' (if b then ''1'' else ''0'')
            (dict_set ''_BBM_EXTERNAL_KNOWN_HOSTS'' known (dict_set ''_BBM_EXTERNAL_SSH_KEY'' y f)))))"
      by (rule result_like_bind) (simp add: env_like_set value_like_def assms(2) xy)
  qed
qed

lemma result_like_bind_same:
  "(\<And>a. result_like Q (f a) (g a)) \<Longrightarrow> result_like Q (try_bind x f) (try_bind x g)"
  by (rule result_like_bind [of "(=)"]) (auto simp: result_like_same)

lemma remote_like:
  assumes "same_shape (rp_id r) v w"
  shows "result_like env_like (remote_env rt v r b) (remote_env rt w r b)"
  unfolding remote_env_def
  by (rule result_like_bind [OF common_like [OF assms]])
    (auto simp: Let_def env_like_set external_like [OF assms] intro!: result_like_bind_same)

lemma manager_like:
  assumes "same_shape (rp_id r) v w"
  shows "result_like env_like (manager_env rt v r b) (manager_env rt w r b)"
  unfolding manager_env_def
  by (rule result_like_bind [OF common_like [OF assms]])
    (auto simp: Let_def env_like_set external_like [OF assms] intro!: result_like_bind_same)

definition visibly_same :: "command \<Rightarrow> command \<Rightarrow> bool" where
  "visibly_same c d \<longleftrightarrow> visible c = visible d"

lemma wrapped_like: "env_like e f \<Longrightarrow> wrapped_parts rt e k parts = wrapped_parts rt f k parts"
  using env_like_get [of e f "''_BBM_EXTERNAL_SSH_VERBOSE''"] by (simp add: wrapped_parts_def env_get_def)

lemma hidden_payload:
  assumes "env_like e f"
  shows "map_option (\<lambda>_. [] :: string) (secret_payload e q) = map_option (\<lambda>_. []) (secret_payload f q)"
    and "(\<exists>y. secret_payload e q = Some y) \<longleftrightarrow> (\<exists>y. secret_payload f q = Some y)"
  using env_like_payload [OF assms, of q]
  by (cases "secret_payload e q"; cases "secret_payload f q"; simp)+

lemma manager_command_like:
  assumes "env_like e f"
  shows "visibly_same (manager_command_of rt r parts e) (manager_command_of rt r parts f)"
  using env_like_public [OF assms] env_like_payload [OF assms, of False] wrapped_like [OF assms]
    hidden_payload [OF assms, of False]
  by (simp add: manager_command_of_def Let_def visibly_same_def visible_def command_of_def)

lemma remote_command_like:
  assumes "env_like e f"
  shows "visibly_same (remote_command_of rt h parts e watched k hk) (remote_command_of rt h parts f watched k' hk)"
proof -
  have key: "env_get ''_BBM_CLIENT_CACHE_KEY'' ''-'' e = env_get ''_BBM_CLIENT_CACHE_KEY'' ''-'' f"
    using env_like_get [OF assms] by (simp add: env_get_def)
  define q where "q = (watched \<or> env_get ''_BBM_CLIENT_CACHE_KEY'' ''-'' f \<noteq> ''-'')"
  have "preview_env e = preview_env f"
    using env_like_public [OF assms] empty_like_truthy [OF env_like_empty [OF assms]]
    by (simp add: preview_env_def)
  moreover have "fst (remote_parts rt e watched parts) = fst (remote_parts rt f watched parts)"
    using key env_like_payload [OF assms, of q] wrapped_like [OF assms]
    by (simp add: remote_parts_def Let_def q_def)
  moreover have "snd (remote_parts rt e watched parts) = secret_payload e q"
    "snd (remote_parts rt f watched parts) = secret_payload f q"
    by (simp_all add: remote_parts_def Let_def q_def key)
  ultimately show ?thesis
    using env_like_public [OF assms] hidden_payload [OF assms, of q]
    by (simp add: remote_command_of_def split_beta visibly_same_def visible_def command_of_def)
qed

definition remote_command ::
    "runtime \<Rightarrow> vault \<Rightarrow> host \<Rightarrow> repository \<Rightarrow> string list \<Rightarrow> bool \<Rightarrow> bool \<Rightarrow> command fallible" where
  "remote_command rt v h r parts verbose supervised =
     try_bind (remote_env rt v r verbose) (\<lambda>env. ssh_argv rt v h parts env supervised)"

lemma remote_result_like:
  assumes shape: "same_shape (rp_id r) v w"
  shows "result_like visibly_same (remote_command rt v h r parts b watched) (remote_command rt w h r parts b watched)"
  unfolding remote_command_def
proof (rule result_like_bind [OF remote_like [OF shape]])
  fix e f assume ef: "env_like e f"
  have "empty_like (va_system v ''controller_private_key'') (va_system w ''controller_private_key'')"
    using shape by (simp add: same_shape_def empty_like_def)
  note key = required_like [OF this]
  show "result_like visibly_same (ssh_argv rt v h parts e watched) (ssh_argv rt w h parts f watched)"
    unfolding ssh_argv_def
    by (simp, intro conjI impI result_like_bind [OF key] result_like_bind_same)
      (simp_all add: remote_command_like [OF ef] result_like_same)
qed

lemma visible_result: "result_like visibly_same x y \<Longrightarrow> map_sum id visible x = map_sum id visible y"
  by (cases x; cases y) (auto simp: result_like_def visibly_same_def)

text \<open>
  C33: The passphrase, the keyfile, the external ssh key, the known hosts and the controller key are
  never part of a command line, of its environment or of the preview that is stored and shown: two
  vaults that differ only in these values give commands that differ only in their standard input and
  in the contents of their temporary files, and fail alike.
\<close>

theorem secrets_not_visible:
  assumes "same_shape (rp_id r) v w"
  shows "map_sum id visible (manager_repository_command rt v r parts b) =
      map_sum id visible (manager_repository_command rt w r parts b) \<and>
    map_sum id visible (remote_command rt v h r parts b watched) =
      map_sum id visible (remote_command rt w h r parts b watched)"
proof
  have "result_like visibly_same (manager_repository_command rt v r parts b) (manager_repository_command rt w r parts b)"
    unfolding manager_repository_command_def
    by (rule result_like_bind [OF manager_like [OF assms]]) (simp add: manager_command_like)
  then show "map_sum id visible (manager_repository_command rt v r parts b) =
      map_sum id visible (manager_repository_command rt w r parts b)"
    by (rule visible_result)
  show "map_sum id visible (remote_command rt v h r parts b watched) =
      map_sum id visible (remote_command rt w h r parts b watched)"
    by (rule visible_result [OF remote_result_like [OF assms]])
qed

section \<open>Sample commands\<close>

definition sample_runtime :: runtime where
  "sample_runtime =
     \<lparr>ru_root = False, ru_timezone = ''UTC'', ru_cache_root = ''/data/borg-cache'',
      ru_security_dir = ''/data/borg-security'', ru_keyfiles = ''/run/keys'', ru_export_root = ''/data/exports'',
      ru_timeout = 86400, ru_script = (\<lambda>name. name), ru_url = plain_url_env\<rparr>"

definition sample_vault :: "string \<Rightarrow> vault" where
  "sample_vault secret =
     \<lparr>va_repository = (\<lambda>_ name. if name = ''passphrase'' then Some secret else None), va_names = (\<lambda>_. [''passphrase'']),
      va_system = (\<lambda>name. if name = ''controller_private_key'' then Some ''key'' else None)\<rparr>"

definition sample_device :: host where
  "sample_device =
     \<lparr>ho_id = 1, ho_name = ''web'', ho_address = ''web.lan'', ho_port = 22, ho_username = ''root'',
      ho_enabled = True, ho_host_key = Some ''web.lan ssh-ed25519 AAAA'', ho_repository_ready = True,
      ho_borg_version = None, ho_borg_version_status = None, ho_borg_checked_at = None\<rparr>"

lemma remote_command_read_back_witness:
  "\<exists>env c. remote_env sample_runtime (sample_vault ''geheim'') sample_repository False = Inr env \<and>
     ssh_argv sample_runtime (sample_vault ''geheim'') sample_device [''borg'', ''info'', ''::a b''] env False = Inr c \<and>
     read_command (last (cm_argv c)) = Some (public_env env,
       [''sh'', ''-c'', ''_SECRET_WRAPPER'', ''--'', env_get ''_BBM_EXTERNAL_SSH_VERBOSE'' ''0'' env,
        ''repository-1'', ''borg'', ''info'', ''::a b'']) \<and>
     map_option (read_values 4) (cm_stdin c) = Some (Some (payload_values env, []))"
proof -
  have "is_Inr (remote_env sample_runtime (sample_vault ''geheim'') sample_repository False)" by code_simp
  then obtain env where env: "remote_env sample_runtime (sample_vault ''geheim'') sample_repository False = Inr env"
    by (auto simp: is_Inr_iff)
  have "is_Inr (ssh_argv sample_runtime (sample_vault ''geheim'') sample_device [''borg'', ''info'', ''::a b''] env False)"
    by (simp add: ssh_argv_def sample_device_def sample_vault_def required_text_def)
  then obtain c where c: "ssh_argv sample_runtime (sample_vault ''geheim'') sample_device
      [''borg'', ''info'', ''::a b''] env False = Inr c"
    by (auto simp: is_Inr_iff)
  have "rp_id sample_repository = 1" "str_nat 1 = ''1''" "ru_script sample_runtime ''_SECRET_WRAPPER'' = ''_SECRET_WRAPPER''"
    by code_simp+
  with remote_command_read_back [OF env c] env c show ?thesis by auto
qed

lemma secrets_not_visible_witness:
  "map_sum id visible (manager_repository_command sample_runtime (sample_vault ''a'') sample_repository [''borg''] False) =
     map_sum id visible (manager_repository_command sample_runtime (sample_vault ''b'') sample_repository [''borg''] False) \<and>
   map_sum id visible (remote_command sample_runtime (sample_vault ''a'') sample_device sample_repository [''borg''] False False) =
     map_sum id visible (remote_command sample_runtime (sample_vault ''b'') sample_device sample_repository [''borg''] False False)"
proof (rule secrets_not_visible)
  show "same_shape (rp_id sample_repository) (sample_vault ''a'') (sample_vault ''b'')"
    by (simp add: same_shape_def sample_vault_def starts_with_def)
qed

text \<open>
  Variables of a repository whose names look sensitive are kept encrypted by \<open>store_repository_environment\<close>,
  but a command for a source device carries them in its command line and in the stored preview.
\<close>

definition secret_variable_vault :: vault where
  "secret_variable_vault =
     (sample_vault ''a'')
       \<lparr>va_repository := (\<lambda>_ name. if name = ''env.AWS_SECRET'' then Some ''geheim'' else None),
        va_names := (\<lambda>_. [''env.AWS_SECRET''])\<rparr>"

lemma secret_variable_in_preview:
  "case remote_command sample_runtime secret_variable_vault sample_device sample_repository [''borg''] False False of
     Inl _ \<Rightarrow> False
   | Inr c \<Rightarrow> contains ''AWS_SECRET=geheim'' (cm_preview c) \<and> contains ''AWS_SECRET=geheim'' (last (cm_argv c))"
  by code_simp

end
