(* ===== verification/ShellScript.thy ===== *)
theory ShellScript
  imports ShellWords
begin

text \<open>
  The scripts of \<open>src/app/runner.py\<close> that run several Borg commands in a row and combine their exit
  codes, as a small language: its lines with their text, and what a POSIX shell does with them. The
  exit code of a command is an argument, a function of the commands that ran before and the command.
\<close>

section \<open>Lines\<close>

datatype shell_line =
    Keep_going
  | Start_result
  | Run_words "string list"
  | Save_status
  | Stop_above nat
  | Raise_result
  | Exit_result

definition backslash_n :: string where
  "backslash_n = [CHR 0x5C, CHR ''n'']"

fun line_text :: "shell_line \<Rightarrow> string" where
  "line_text Keep_going = ''set +e''"
| "line_text Start_result = ''bbm_result=0''"
| "line_text (Run_words ws) = shlex_join ws"
| "line_text Save_status = ''bbm_rc=$?''"
| "line_text (Stop_above n) =
     ''if [ '' @ [double_mark] @ ''$bbm_rc'' @ [double_mark] @ '' -gt '' @ str_nat n @ '' ]; then exit '' @
     [double_mark] @ ''$bbm_rc'' @ [double_mark] @ ''; fi''"
| "line_text Raise_result =
     ''if [ '' @ [double_mark] @ ''$bbm_rc'' @ [double_mark] @ '' -gt '' @ [double_mark] @ ''$bbm_result'' @
     [double_mark] @ '' ]; then bbm_result='' @ [double_mark] @ ''$bbm_rc'' @ [double_mark] @ ''; fi''"
| "line_text Exit_result = ''exit '' @ [double_mark] @ ''$bbm_result'' @ [double_mark]"

definition script_text :: "shell_line list \<Rightarrow> string" where
  "script_text ls = join_with [newline] (map line_text ls)"

section \<open>What they do\<close>

type_synonym exit_codes = "string list list \<Rightarrow> string list \<Rightarrow> nat"

record shell_state =
  sh_ran :: "string list list"
  sh_last :: nat
  sh_rc :: nat
  sh_result :: nat

definition start_shell :: shell_state where
  "start_shell = \<lparr>sh_ran = [], sh_last = 0, sh_rc = 0, sh_result = 0\<rparr>"

text \<open>The commands that ran and the exit code of the script.\<close>

fun run_lines :: "exit_codes \<Rightarrow> shell_state \<Rightarrow> shell_line list \<Rightarrow> string list list \<times> nat" where
  "run_lines ec s [] = (sh_ran s, sh_last s)"
| "run_lines ec s (Keep_going # ls) = run_lines ec (s\<lparr>sh_last := 0\<rparr>) ls"
| "run_lines ec s (Start_result # ls) = run_lines ec (s\<lparr>sh_last := 0, sh_result := 0\<rparr>) ls"
| "run_lines ec s (Run_words ws # ls) =
     run_lines ec (s\<lparr>sh_ran := sh_ran s @ [ws], sh_last := ec (sh_ran s) ws\<rparr>) ls"
| "run_lines ec s (Save_status # ls) = run_lines ec (s\<lparr>sh_last := 0, sh_rc := sh_last s\<rparr>) ls"
| "run_lines ec s (Stop_above n # ls) =
     (if n < sh_rc s then (sh_ran s, sh_rc s) else run_lines ec (s\<lparr>sh_last := 0\<rparr>) ls)"
| "run_lines ec s (Raise_result # ls) =
     run_lines ec (s\<lparr>sh_last := 0, sh_result := max (sh_result s) (sh_rc s)\<rparr>) ls"
| "run_lines ec s (Exit_result # ls) = (sh_ran s, sh_result s)"

definition run_script :: "exit_codes \<Rightarrow> shell_line list \<Rightarrow> string list list \<times> nat" where
  "run_script ec ls = run_lines ec start_shell ls"

text \<open>The exit codes of commands that run one after the other.\<close>

fun codes_of :: "exit_codes \<Rightarrow> string list list \<Rightarrow> string list list \<Rightarrow> nat list" where
  "codes_of ec before [] = []"
| "codes_of ec before (c # cs) = ec before c # codes_of ec (before @ [c]) cs"

lemma length_codes_of [simp]: "length (codes_of ec before cs) = length cs"
  by (induction cs arbitrary: before) auto

lemma codes_of_Nil [simp]: "codes_of ec before cs = [] \<longleftrightarrow> cs = []"
  by (cases cs) auto

lemma codes_of_append: "codes_of ec before (cs @ ds) = codes_of ec before cs @ codes_of ec (before @ cs) ds"
  by (induction cs arbitrary: before) auto

definition worst :: "nat list \<Rightarrow> nat" where
  "worst cs = fold max cs 0"

lemma fold_max: "fold max cs (n :: nat) = max n (fold max cs 0)"
proof (induction cs arbitrary: n)
  case (Cons c cs)
  from Cons.IH [of "max c n"] Cons.IH [of "max c 0"] show ?case by (simp add: max.assoc max.left_commute)
qed simp

lemma worst_simps [simp]: "worst [] = 0" "worst (c # cs) = max c (worst cs)" "worst (xs @ ys) = max (worst xs) (worst ys)"
  using fold_max [of cs c] fold_max [of ys "worst xs"] by (simp_all add: worst_def)

section \<open>Running commands for their worst exit code\<close>

definition collect_lines :: "string list list \<Rightarrow> shell_line list" where
  "collect_lines cs = concat (map (\<lambda>c. [Run_words c, Save_status, Raise_result]) cs)"

lemma run_collect:
  "run_lines ec s (collect_lines cs @ ls) =
     run_lines ec (if cs = [] then s else
       s\<lparr>sh_ran := sh_ran s @ cs, sh_last := 0, sh_rc := last (codes_of ec (sh_ran s) cs),
         sh_result := max (sh_result s) (worst (codes_of ec (sh_ran s) cs))\<rparr>) ls"
proof (induction cs arbitrary: s)
  case (Cons c cs)
  then show ?case by (cases s; cases "cs = []") (simp_all add: collect_lines_def max.assoc)
qed (simp add: collect_lines_def)

definition collect_script :: "string list list \<Rightarrow> shell_line list" where
  "collect_script cs = [Keep_going, Start_result] @ collect_lines cs @ [Exit_result]"

lemma run_collect_script: "run_script ec (collect_script cs) = (cs, worst (codes_of ec [] cs))"
  by (simp add: run_script_def collect_script_def run_collect start_shell_def)

end
