(* ===== verification/Builders.thy ===== *)
theory Builders
  imports Commands ShellScript JobRequests
begin

text \<open>
  The command builders of \<open>src/app/runner.py\<close>: which words and scripts borg gets for a backup, a
  prune, a check, a deletion, a comparison, a restore, an export, a mount. Constant pieces of the
  longer scripts are looked up in \<open>ru_script\<close> of the runtime; the words that hold data are here.
\<close>

section \<open>Names and paths of archives\<close>

definition job_archive_prefix :: "job \<Rightarrow> string" where
  "job_archive_prefix j =
     (if truthy (jb_archive_prefix j) then or_empty (jb_archive_prefix j)
      else ''bbm-'' @ str_nat (jb_id j) @ ''-'')"

fun add_prefixes :: "string list \<Rightarrow> string list \<Rightarrow> string list" where
  "add_prefixes prefixes [] = prefixes"
| "add_prefixes prefixes (p # ps) =
     add_prefixes (if p \<noteq> [] \<and> p \<notin> set prefixes then prefixes @ [p] else prefixes) ps"

definition job_archive_prefixes :: "job \<Rightarrow> string list" where
  "job_archive_prefixes j = add_prefixes [job_archive_prefix j] (jb_archive_prefix_history j)"

definition job_archive_glob :: "job \<Rightarrow> string" where
  "job_archive_glob j = job_archive_prefix j @ ''*''"

definition validate_archive_name :: "string \<Rightarrow> string fallible" where
  "validate_archive_name archive =
     (let a = py_strip archive in
      if a = [] \<or> starts_with ''-'' a \<or> contains ''::'' a \<or> \<not> single_line a \<or> CHR ''/'' \<in> set a
      then Inl ''Invalid archive name'' else Inr a)"

definition validate_archive_path :: "string \<Rightarrow> string \<Rightarrow> string fallible" where
  "validate_archive_path kind value =
     (let v = strip_by (\<lambda>c. c = CHR ''/'') (py_strip value) in
      if v = [] \<or> starts_with ''-'' v \<or> has_parent_part v \<or> \<not> single_line v
      then Inl (kind @ '' paths must be relative archive paths without '' @ quoted ''..'') else Inr v)"

fun map_fallible :: "('a \<Rightarrow> 'b fallible) \<Rightarrow> 'a list \<Rightarrow> 'b list fallible" where
  "map_fallible f [] = Inr []"
| "map_fallible f (x # xs) = try_bind (f x) (\<lambda>y. try_bind (map_fallible f xs) (\<lambda>ys. Inr (y # ys)))"

definition validate_archive_paths :: "string \<Rightarrow> string list \<Rightarrow> string list fallible" where
  "validate_archive_paths kind paths = map_fallible (validate_archive_path kind) paths"

text \<open>\<open>zip(*lists)\<close> up to the first column with two different values: the length of the common start.\<close>

function common_start :: "'a list list \<Rightarrow> nat" where
  "common_start xss =
     (if xss = [] \<or> [] \<in> set xss \<or> \<not> list_all (\<lambda>xs. hd xs = hd (hd xss)) xss then 0
      else Suc (common_start (map tl xss)))"
  by pat_completeness auto
termination
proof (relation "measure (\<lambda>xss. length (hd xss))", goal_cases)
  case (2 xss)
  then have "hd xss \<in> set xss" "hd xss \<noteq> []" by (cases xss; auto)+
  then show ?case using 2 by (cases xss) auto
qed simp

declare common_start.simps [simp del]

definition selection_root_strip_components :: "string list \<Rightarrow> nat" where
  "selection_root_strip_components paths = common_start (map (\<lambda>p. butlast (path_of_string p)) paths)"

definition borg_base :: "string \<Rightarrow> string list" where
  "borg_base command = [''borg'', ''--lock-wait'', ''600'', command]"

text \<open>\<open>re.escape\<close>.\<close>

definition re_special :: "char \<Rightarrow> bool" where
  "re_special c \<longleftrightarrow>
     char_code c \<in> {40, 41, 91, 93, 123, 125, 63, 42, 43, 45, 124, 94, 36, 92, 46, 38, 126, 35, 32, 9, 10, 13, 11, 12}"

definition re_escape :: "string \<Rightarrow> string" where
  "re_escape s = concat (map (\<lambda>c. if re_special c then [CHR 0x5C, c] else [c]) s)"

section \<open>Backup\<close>

definition option_set :: "string \<Rightarrow> (string \<times> json) list \<Rightarrow> bool" where
  "option_set k options = (option_value options k = JBool True)"

definition option_text :: "string \<Rightarrow> (string \<times> json) list \<Rightarrow> string" where
  "option_text k options = (case option_value options k of JStr s \<Rightarrow> s | JInt n \<Rightarrow> int_text n | _ \<Rightarrow> [])"

definition backup_words :: "job \<Rightarrow> (string \<times> json) list \<Rightarrow> string list" where
  "backup_words j options =
     borg_base ''create'' @
     [''--stats'', ''--progress'', ''--show-rc'', ''--compression'', jb_compression j] @
     (if option_set ''list_files'' options then [''--list''] else [''--list'', ''--filter'', ''AMCE'']) @
     (if option_set ''one_file_system'' options then [''--one-file-system''] else []) @
     (if option_set ''exclude_caches'' options then [''--exclude-caches''] else []) @
     (if option_set ''exclude_nodump'' options then [''--exclude-nodump''] else []) @
     (if option_set ''numeric_ids'' options then [''--numeric-ids''] else []) @
     [''--files-cache'', option_text ''files_cache'' options,
      ''--checkpoint-interval'', option_text ''checkpoint_interval'' options] @
     concat (map (\<lambda>p. [''--exclude'', p]) (jb_exclude_patterns j)) @
     (''::'' @ job_archive_prefix j @ jb_archive_template j) # jb_source_paths j"

text \<open>
  \<open>_repository_network_host\<close>: the host of the repository for the network monitor, from an ssh URL
  or from \<open>user@host:path\<close>, with or without brackets around the host.
\<close>

definition open_path :: "string \<Rightarrow> bool" where
  "open_path s \<longleftrightarrow> (case expect (CHR '':'') s of Some (c # _) \<Rightarrow> c \<noteq> newline | _ \<Rightarrow> False)"

definition bracket_host :: "string \<Rightarrow> string option" where
  "bracket_host s =
     (case expect (CHR ''['') s of
        None \<Rightarrow> None
      | Some rest \<Rightarrow>
          (let inner = takeWhile (\<lambda>c. c \<noteq> CHR '']'') rest; tail = dropWhile (\<lambda>c. c \<noteq> CHR '']'') rest in
           if inner \<noteq> [] \<and> tail \<noteq> [] \<and> open_path (tl tail) then Some (CHR ''['' # inner @ '']'') else None))"

definition plain_host :: "string \<Rightarrow> string option" where
  "plain_host s =
     (if takeWhile scp_host_char s \<noteq> [] \<and> open_path (dropWhile scp_host_char s)
      then Some (takeWhile scp_host_char s) else None)"

definition scp_host :: "string \<Rightarrow> string option" where
  "scp_host s =
     (if takeWhile scp_user_char s = [] then None
      else case expect (CHR ''@'') (dropWhile scp_user_char s) of
          None \<Rightarrow> None
        | Some rest \<Rightarrow> (case bracket_host rest of Some h \<Rightarrow> Some h | None \<Rightarrow> plain_host rest))"

definition repository_network_host :: "runtime \<Rightarrow> repository \<Rightarrow> string option fallible" where
  "repository_network_host rt r =
     (let location = py_strip (rp_location r) in
      try_bind (url_fallible (urlsplit (ue_ip_ok (ru_url rt)) location)) (\<lambda>u.
        if su_scheme u = ''ssh'' \<and> url_hostname u \<noteq> [] then Inr (Some (url_hostname u))
        else Inr (case scp_host location of
            None \<Rightarrow> None
          | Some host \<Rightarrow>
              (let h = strip_by (\<lambda>c. c = CHR ''['' \<or> c = CHR '']'') host in if h = [] then None else Some h))))"

definition format_n :: string where
  "format_n = ''%s'' @ backslash_n"

definition script_lines :: "string list \<Rightarrow> string" where
  "script_lines ls = join_with [newline] ls"

definition monitor_lines :: "runtime \<Rightarrow> string option \<Rightarrow> string list" where
  "monitor_lines rt network_host =
     (case network_host of
        None \<Rightarrow> [''bbm_stop_network_monitor() { :; }'']
      | Some target \<Rightarrow>
          [ru_script rt ''network_monitor:head'', ''  bbm_net_target='' @ shlex_quote target,
           ru_script rt ''network_monitor:tail''])"

definition backup_script ::
    "runtime \<Rightarrow> job \<Rightarrow> host \<Rightarrow> repository \<Rightarrow> (string \<times> json) list \<Rightarrow> string option \<Rightarrow> string" where
  "backup_script rt j h r options network_host =
     script_lines ([''set +e'', ru_script rt ''backup:rule'',
       shlex_join [''printf'', ''BACKUP-JOB: '' @ format_n, jb_name j],
       shlex_join [''printf'', ''GER'' @ [CHR 0xC4] @ ''T:      '' @ format_n, ho_name h],
       shlex_join [''printf'', ''QUELLPFADE: '' @ format_n, join_with '', '' (jb_source_paths j)],
       shlex_join [''printf'', ''REPOSITORY: '' @ format_n, rp_name r],
       ru_script rt ''backup:line'', ru_script rt ''version_probe:strict'', ru_script rt ''backup:line''] @
      monitor_lines rt network_host @
      [if option_set ''list_files'' options then ru_script rt ''backup:file_list'' else [],
       shlex_join (backup_words j options), ru_script rt ''backup:result''])"

definition request_fallible :: "(request_error, 'a) result \<Rightarrow> 'a fallible" where
  "request_fallible r = (case r of Inr a \<Rightarrow> Inr a | Inl (Value_error m) \<Rightarrow> Inl m | Inl _ \<Rightarrow> Inl ''invalid value'')"

definition backup_command :: "runtime \<Rightarrow> vault \<Rightarrow> job \<Rightarrow> host \<Rightarrow> repository \<Rightarrow> command fallible" where
  "backup_command rt v j h r =
     try_bind (request_fallible (validate_create_options (jb_create_options j))) (\<lambda>options.
     try_bind (repository_network_host rt r) (\<lambda>network_host.
       remote_command rt v h r [''sh'', ''-c'', backup_script rt j h r options network_host] False False))"

section \<open>Commands on the repository\<close>

definition repository_access_command :: "runtime \<Rightarrow> vault \<Rightarrow> repository \<Rightarrow> string list \<Rightarrow> command fallible" where
  "repository_access_command rt v r parts = manager_repository_command rt v r parts False"

definition retention_words :: "(string \<times> json) list \<Rightarrow> string list" where
  "retention_words options =
     concat (map (\<lambda>key. case option_value options key of
         JInt n \<Rightarrow> if 0 < n then [''--keep-'' @ key, int_text n] else []
       | _ \<Rightarrow> [])
       [''last'', ''hourly'', ''daily'', ''weekly'', ''monthly'', ''yearly''])"

definition prune_words :: "(string \<times> json) list \<Rightarrow> string \<Rightarrow> string list" where
  "prune_words options prefix =
     borg_base ''prune'' @ [''--list'', ''--show-rc'', ''--glob-archives'', prefix @ ''*''] @ retention_words options"

text \<open>One command as it is, several as a script that reports the worst exit code.\<close>

definition sequence_words :: "string list list \<Rightarrow> string list" where
  "sequence_words commands =
     (case commands of
        [c] \<Rightarrow> c
      | _ \<Rightarrow> [''sh'', ''-c'', script_text (collect_script commands)])"

definition prune_command :: "runtime \<Rightarrow> vault \<Rightarrow> job \<Rightarrow> repository \<Rightarrow> command fallible" where
  "prune_command rt v j r =
     (case jb_prune_options j of
        None \<Rightarrow> Inl ''invalid JSON''
      | Some options \<Rightarrow>
          repository_access_command rt v r
            (sequence_words (map (prune_words options) (job_archive_prefixes j))))"

definition scoped_words :: "string \<Rightarrow> bool \<Rightarrow> string \<Rightarrow> string list option" where
  "scoped_words action checkpoints glob =
     (if action = ''list''
      then Some (borg_base ''list'' @ [''--json''] @ (if checkpoints then [''--consider-checkpoints''] else []) @
        [''--glob-archives'', glob])
      else if action = ''info'' then Some (borg_base ''info'' @ [''--json'', ''--glob-archives'', glob])
      else if action = ''check'' then Some (borg_base ''check'' @ [''--show-rc'', ''--glob-archives'', glob])
      else if action = ''verify''
      then Some (borg_base ''check'' @ [''--show-rc'', ''--archives-only'', ''--verify-data'', ''--glob-archives'', glob])
      else None)"

definition or_words :: "string list option \<Rightarrow> string list" where
  "or_words w = (case w of None \<Rightarrow> [] | Some ws \<Rightarrow> ws)"

definition allowed_words :: "string \<Rightarrow> bool \<Rightarrow> string \<Rightarrow> string list option" where
  "allowed_words action checkpoints glob =
     (if action = ''list-all''
      then Some (borg_base ''list'' @ [''--json''] @ (if checkpoints then [''--consider-checkpoints''] else []))
      else if action = ''compact'' then Some (borg_base ''compact'' @ [''--verbose'', ''--show-rc''])
      else scoped_words action checkpoints glob)"

definition confirm_location_script :: "runtime \<Rightarrow> job \<Rightarrow> string" where
  "confirm_location_script rt j =
     script_lines [ru_script rt ''confirm_location:head'',
       ''borg --lock-wait 600 info --json --show-rc --glob-archives '' @ shlex_quote (job_archive_glob j),
       ru_script rt ''confirm_location:tail'']"

text \<open>The keys of a managed repository are checked on the device before borg is asked.\<close>

definition probe_checks :: "runtime \<Rightarrow> repository \<Rightarrow> string fallible" where
  "probe_checks rt r =
     (if \<not> truthy (rp_storage_path r) then Inr []
      else try_bind (url_fallible (urlsplit (ue_ip_ok (ru_url rt)) (rp_location r))) (\<lambda>u.
        if url_hostname u = [] then Inl ''Managed repository URL has no SSH host''
        else try_bind (url_fallible (url_port u)) (\<lambda>port.
          Inr (script_lines [[],
            ''key='' @ [double_mark] @ ''$HOME/'' @ drop 2 (repository_identity_file r) @ [double_mark],
            ru_script rt ''probe:files'',
            ''if ! ssh-keyscan -T 10 -t ed25519 -p '' @ str_nat (port_or_22 port) @ '' '' @
              shlex_quote (url_hostname u) @ '' >'' @ [double_mark] @ ''$scan_file'' @ [double_mark] @ '' 2>&1; then'',
            ru_script rt ''probe:scan'', []]))))"

definition probe_script :: "runtime \<Rightarrow> job \<Rightarrow> string \<Rightarrow> string" where
  "probe_script rt j checks =
     script_lines [ru_script rt ''probe:head'', ru_script rt ''version_probe:strict'', checks,
       ru_script rt ''probe:tail'',
       ''exec borg --debug --lock-wait 30 info --json --show-rc --glob-archives '' @ shlex_quote (job_archive_glob j)]"

definition version_script :: "runtime \<Rightarrow> string" where
  "version_script rt = script_lines [ru_script rt ''version:title'', ru_script rt ''version_probe:lenient'']"

definition repository_command ::
    "runtime \<Rightarrow> vault \<Rightarrow> job \<Rightarrow> host \<Rightarrow> repository \<Rightarrow> string \<Rightarrow> bool \<Rightarrow> command fallible" where
  "repository_command rt v j h r action checkpoints =
     (if action = ''version'' then ssh_argv rt v h [''sh'', ''-c'', version_script rt] [] False
      else if 1 < length (job_archive_prefixes j) \<and> scoped_words action checkpoints [] \<noteq> None
      then repository_access_command rt v r [''sh'', ''-c'', script_text (collect_script
        (map (\<lambda>prefix. or_words (scoped_words action checkpoints (prefix @ ''*''))) (job_archive_prefixes j)))]
      else if action = ''confirm-location'' then
        try_bind (remote_env rt v r False) (\<lambda>env.
          ssh_argv rt v h [''sh'', ''-c'', confirm_location_script rt j]
            (dict_set ''BORG_RELOCATED_REPO_ACCESS_IS_OK'' ''yes'' env) False)
      else if action = ''probe'' then
        try_bind (probe_checks rt r) (\<lambda>checks.
          remote_command rt v h r [''sh'', ''-c'', probe_script rt j checks] (truthy (rp_storage_path r)) False)
      else case allowed_words action checkpoints (job_archive_glob j) of
          None \<Rightarrow> Inl (''Unsupported action: '' @ action)
        | Some words \<Rightarrow> repository_access_command rt v r words)"

section \<open>Commands on archives\<close>

definition archive_ref :: "string \<Rightarrow> string" where
  "archive_ref archive = ''::'' @ archive"

definition archive_info_command :: "runtime \<Rightarrow> vault \<Rightarrow> repository \<Rightarrow> string \<Rightarrow> command fallible" where
  "archive_info_command rt v r archive =
     try_bind (validate_archive_name archive) (\<lambda>a.
       repository_access_command rt v r (borg_base ''info'' @ [''--json'', archive_ref a]))"

definition compact_words :: "string list" where
  "compact_words = borg_base ''compact'' @ [''--verbose'', ''--show-rc'']"

definition repository_compact_command :: "runtime \<Rightarrow> vault \<Rightarrow> repository \<Rightarrow> command fallible" where
  "repository_compact_command rt v r = repository_access_command rt v r compact_words"

definition delete_words :: "string \<Rightarrow> string list" where
  "delete_words archive = borg_base ''delete'' @ [''--stats'', ''--show-rc'', archive_ref archive]"

definition delete_title :: "string \<Rightarrow> string list" where
  "delete_title archive = [''printf'', format_n, ''=== Archiv l'' @ [CHR 0xF6] @ ''schen: '' @ archive @ '' ==='']"

definition delete_lines :: "string \<Rightarrow> shell_line list" where
  "delete_lines archive =
     [Run_words (delete_title archive), Run_words (delete_words archive), Save_status, Stop_above 1, Raise_result]"

definition compact_lines :: "shell_line list" where
  "compact_lines =
     [Run_words [''printf'', format_n, ''=== Repository Compact ===''], Run_words compact_words, Save_status, Raise_result]"

definition delete_script :: "string list \<Rightarrow> bool \<Rightarrow> shell_line list" where
  "delete_script archives compact_after =
     [Keep_going, Start_result] @ concat (map delete_lines archives) @
     (if compact_after then compact_lines else []) @ [Exit_result]"

definition delete_archives_command ::
    "runtime \<Rightarrow> vault \<Rightarrow> repository \<Rightarrow> string list \<Rightarrow> bool \<Rightarrow> command fallible" where
  "delete_archives_command rt v r archives compact_after =
     try_bind (map_fallible validate_archive_name archives) (\<lambda>safe.
       if safe = [] then Inl ''At least one archive must be selected''
       else if \<not> distinct safe then Inl ''Archive names must be unique''
       else if length safe = 1 \<and> \<not> compact_after
       then repository_access_command rt v r (delete_words (hd safe))
       else repository_access_command rt v r [''sh'', ''-c'', script_text (delete_script safe compact_after)])"

definition rename_archive_command :: "runtime \<Rightarrow> vault \<Rightarrow> repository \<Rightarrow> string \<Rightarrow> string \<Rightarrow> command fallible" where
  "rename_archive_command rt v r archive new_name =
     try_bind (validate_archive_name archive) (\<lambda>a. try_bind (validate_archive_name new_name) (\<lambda>n.
       if a = n then Inl ''New archive name must differ from the current name''
       else repository_access_command rt v r (borg_base ''rename'' @ [''--show-rc'', archive_ref a, n])))"

definition diff_safe_path :: "string \<Rightarrow> string fallible" where
  "diff_safe_path value =
     (if value = [] \<or> starts_with ''-'' value \<or> starts_with ''/'' value \<or> has_parent_part value \<or> \<not> single_line value
      then Inl (''Diff paths must be relative archive paths without '' @ quoted ''..'') else Inr value)"

definition diff_words :: "bool \<Rightarrow> string \<Rightarrow> string \<Rightarrow> string list \<Rightarrow> string list" where
  "diff_words content_only archive second paths =
     borg_base ''diff'' @ (if content_only then [''--content-only''] else []) @ [archive_ref archive, second] @ paths"

definition diff_script :: "runtime \<Rightarrow> bool \<Rightarrow> string \<Rightarrow> string \<Rightarrow> string list \<Rightarrow> string" where
  "diff_script rt content_only archive second paths =
     (let format_nl = ''%s'' @ [newline];
          label = (if paths = [] then ''gesamtes Archiv'' else join_with '', '' paths) in
      script_lines [ru_script rt ''diff:head'',
        shlex_join [''printf'', [CHR 0xC4] @ ''LTERES ARCHIV: '' @ format_nl, archive],
        shlex_join [''printf'', ''NEUERES ARCHIV: '' @ format_nl, second],
        shlex_join [''printf'', ''BEREICH:         '' @ format_nl, label],
        ''printf '' @ shlex_quote (''INHALT-ONLY:     '' @ format_nl) @ '' '' @
          quoted (if content_only then ''ja'' else ''nein''),
        ru_script rt ''diff:line'', shlex_join (diff_words content_only archive second paths),
        ru_script rt ''diff:result''])"

definition diff_archives_command ::
    "runtime \<Rightarrow> vault \<Rightarrow> repository \<Rightarrow> string \<Rightarrow> string \<Rightarrow> string list \<Rightarrow> bool \<Rightarrow> command fallible" where
  "diff_archives_command rt v r archive second paths content_only =
     try_bind (validate_archive_name archive) (\<lambda>a. try_bind (validate_archive_name second) (\<lambda>b.
       if a = b then Inl ''Two different archives are required''
       else try_bind (map_fallible diff_safe_path paths) (\<lambda>safe.
         repository_access_command rt v r [''sh'', ''-c'', diff_script rt content_only a b safe])))"

definition browse_words :: "string \<Rightarrow> string \<Rightarrow> string list" where
  "browse_words archive relative =
     (let current = strip_by (\<lambda>c. c = CHR ''/'') relative;
          prefix = re_escape (if current = [] then [] else current @ ''/'') in
      borg_base ''list'' @
      [''--json-lines'', ''--format'', ''{path}{type}{size}{mtime}{source}{mode}{user}{group}{uid}{gid}'',
       ''--pattern'', ''+ re:^'' @ prefix @ ''[^/]+$'', ''--pattern'', ''- re:.*'', archive_ref archive])"

definition browse_archive_command :: "runtime \<Rightarrow> vault \<Rightarrow> repository \<Rightarrow> string \<Rightarrow> string \<Rightarrow> command fallible" where
  "browse_archive_command rt v r archive relative =
     try_bind (validate_archive_name archive) (\<lambda>a.
       if starts_with ''/'' relative \<or> has_parent_part relative \<or> \<not> single_line relative
       then Inl ''Invalid archive browser path''
       else repository_access_command rt v r (browse_words a relative))"

definition safe_absolute :: "string \<Rightarrow> bool" where
  "safe_absolute p \<longleftrightarrow> starts_with ''/'' p \<and> \<not> has_parent_part p \<and> single_line p"

definition manager_archive_mount_command ::
    "runtime \<Rightarrow> vault \<Rightarrow> repository \<Rightarrow> string \<Rightarrow> string \<Rightarrow> command fallible" where
  "manager_archive_mount_command rt v r archive mount_path =
     try_bind (validate_archive_name archive) (\<lambda>a.
       if \<not> safe_absolute mount_path then Inl ''Invalid archive mount path''
       else try_bind (repository_access_command rt v r
           (borg_base ''mount'' @ [''-o'', ''allow_other'', archive_ref a, mount_path])) (\<lambda>c.
         Inr (c\<lparr>cm_allow_mount := True, cm_timeout := Some (min (ru_timeout rt) 900)\<rparr>)))"

definition manager_archive_unmount_command :: "runtime \<Rightarrow> string \<Rightarrow> command fallible" where
  "manager_archive_unmount_command rt mount_path =
     (if \<not> safe_absolute mount_path then Inl ''Invalid archive mount path''
      else Inr ((command_of (manager_borg_argv rt [''sh'', ''-c'', ru_script rt ''unmount'', ''--'', mount_path])
          (''[direkt im Manager] Archiv-Mount aush'' @ [CHR 0xE4] @ ''ngen: '' @ shlex_quote mount_path))
        \<lparr>cm_timeout := Some 18, cm_allow_mount := True\<rparr>))"

section \<open>Repositories and devices\<close>

definition info_words :: "string list" where
  "info_words = [''borg'', ''--lock-wait'', ''30'', ''info'', ''--json'']"

definition repository_validation_command :: "runtime \<Rightarrow> vault \<Rightarrow> repository \<Rightarrow> command fallible" where
  "repository_validation_command rt v r = repository_access_command rt v r info_words"

definition repository_size_command :: "runtime \<Rightarrow> vault \<Rightarrow> repository \<Rightarrow> command fallible" where
  "repository_size_command rt v r = repository_access_command rt v r info_words"

definition repository_archives_info_command :: "runtime \<Rightarrow> vault \<Rightarrow> repository \<Rightarrow> command fallible" where
  "repository_archives_info_command rt v r =
     repository_access_command rt v r (info_words @ [''--glob-archives'', ''*''])"

definition repository_list_command :: "runtime \<Rightarrow> vault \<Rightarrow> repository \<Rightarrow> bool \<Rightarrow> command fallible" where
  "repository_list_command rt v r checkpoints =
     repository_access_command rt v r
       (borg_base ''list'' @ [''--json''] @ (if checkpoints then [''--consider-checkpoints''] else []))"

definition repository_keyfile_path :: "runtime \<Rightarrow> repository \<Rightarrow> string" where
  "repository_keyfile_path rt r = ru_keyfiles rt @ ''/repository-'' @ str_nat (rp_id r) @ ''.key''"

definition repository_init_command :: "runtime \<Rightarrow> vault \<Rightarrow> repository \<Rightarrow> command fallible" where
  "repository_init_command rt v r =
     (let secret = va_repository v (rp_id r) ''passphrase''; mode = effective_mode r in
      if \<not> truthy (rp_storage_path r) then Inl ''Only managed repositories can be initialized by the manager''
      else if mode = ''none'' \<and> secret \<noteq> None then Inl ''Unencrypted repositories cannot use a passphrase''
      else if mode \<noteq> ''none'' \<and> secret = None then Inl (''Encryption mode '' @ mode @ '' requires a passphrase'')
      else try_bind (manager_repository_cache_dir rt r) (\<lambda>cache.
        let path = or_empty (rp_storage_path r) in
        Inr ((command_of
            (manager_borg_argv rt [''borg'', ''--lock-wait'', ''600'', ''init'', ''--encryption='' @ mode, path])
            (''borg --lock-wait 600 init --encryption='' @ mode @ '' '' @ shlex_quote path))
          \<lparr>cm_stdin := map_option (\<lambda>s. utf8_encode (s @ [newline])) secret,
           cm_env := Some ([(''BORG_CACHE_DIR'', cache), (''BORG_SECURITY_DIR'', ru_security_dir rt)] @
             (if secret \<noteq> None then [(''BORG_PASSPHRASE_FD'', ''0'')] else []) @
             (if starts_with ''keyfile'' mode then [(''BORG_KEY_FILE'', repository_keyfile_path rt r)] else []))\<rparr>)))"

definition host_repository_bootstrap_command ::
    "runtime \<Rightarrow> vault \<Rightarrow> host \<Rightarrow> string \<Rightarrow> nat list \<Rightarrow> command fallible" where
  "host_repository_bootstrap_command rt v h known_hosts_line repository_ids =
     (if repository_ids = [] then Inl ''Host has no managed repository assignments''
      else ssh_argv rt v h
        ([''sh'', ''-c'', ru_script rt ''bootstrap'', ''--'', known_hosts_line] @ map str_nat repository_ids) [] False)"

definition host_ssh_action_command :: "runtime \<Rightarrow> vault \<Rightarrow> host \<Rightarrow> string \<Rightarrow> int \<Rightarrow> command fallible" where
  "host_ssh_action_command rt v h shell_command timeout_seconds =
     (let text = py_strip shell_command in
      if text = [] \<or> has_char 0 text then Inl ''SSH command must not be empty''
      else try_bind (ssh_argv rt v h [''sh'', ''-lc'', text] [] False) (\<lambda>c.
        Inr (c\<lparr>cm_preview := ''Gespeicherte SSH-Aktion auf Ger'' @ [CHR 0xE4] @ ''t '' @ ho_name h,
               cm_timeout := Some (clamp 5 3600 timeout_seconds)\<rparr>)))"

definition host_version_command :: "runtime \<Rightarrow> vault \<Rightarrow> host \<Rightarrow> command fallible" where
  "host_version_command rt v h = ssh_argv rt v h [''sh'', ''-c'', version_script rt] [] False"

section \<open>Restore and export\<close>

text \<open>
  What is checked before a restore is built, in the order of the code; the result is the archive, the
  paths and the directory borg will write to.
\<close>

definition restore_target :: "string \<Rightarrow> string option \<Rightarrow> string list \<Rightarrow> bool \<Rightarrow> bool \<Rightarrow> string fallible" where
  "restore_target mode target paths dry_run overwrite =
     (if mode = ''original'' then
        if paths = [] then Inl ''Restore to original locations requires selected archive paths''
        else if \<not> dry_run \<and> \<not> overwrite then Inl ''In-place restore requires explicit overwrite confirmation''
        else Inr ''/''
      else if \<not> truthy target then Inl ''Restore target is required''
      else if \<not> safe_absolute (or_empty target) then Inl ''Restore target must be a safe absolute path''
      else Inr (or_empty target))"

definition restore_checks ::
    "job \<Rightarrow> string \<Rightarrow> string list \<Rightarrow> string option \<Rightarrow> bool \<Rightarrow> bool \<Rightarrow> string \<Rightarrow> string \<Rightarrow> bool \<Rightarrow>
     (string \<times> string list \<times> string) fallible" where
  "restore_checks j archive paths target dry_run legacy mode layout overwrite =
     try_bind (validate_archive_name archive) (\<lambda>a.
       if \<not> legacy \<and> \<not> list_ex (\<lambda>p. starts_with p a) (job_archive_prefixes j)
       then Inl ''Archive does not belong to this job; enable legacy restore explicitly if required''
       else try_bind (validate_archive_paths ''Restore'' paths) (\<lambda>ps.
         if mode \<notin> {''original'', ''target''} then Inl ''Unsupported restore destination mode''
         else if layout \<notin> {''selection-root'', ''archive-paths''} then Inl ''Unsupported restore path layout''
         else try_bind (restore_target mode target ps dry_run overwrite) (\<lambda>t. Inr (a, ps, t))))"

definition baseline_words :: "string \<Rightarrow> string list \<Rightarrow> string list" where
  "baseline_words archive paths =
     borg_base ''list'' @ [''--json-lines'', ''--format'', ''{path}{type}{size}'', archive_ref archive] @ paths"

definition strip_words :: "string list \<Rightarrow> string list" where
  "strip_words paths =
     (let n = selection_root_strip_components paths in
      if n \<noteq> 0 then [''--strip-components'', str_nat n] else [])"

definition extract_words :: "bool \<Rightarrow> string \<Rightarrow> string \<Rightarrow> string \<Rightarrow> string list \<Rightarrow> string list" where
  "extract_words dry_run mode layout archive paths =
     [''borg'', ''--lock-wait'', ''600'', ''--log-json'', ''extract'', ''--progress'', ''--list''] @
     (if dry_run then [''--dry-run''] else []) @
     (if mode = ''target'' \<and> layout = ''selection-root'' \<and> paths \<noteq> [] then strip_words paths else []) @
     archive_ref archive # paths"

definition restore_script :: "runtime \<Rightarrow> string list \<Rightarrow> string list \<Rightarrow> string" where
  "restore_script rt baseline extract =
     script_lines [ru_script rt ''restore:head'',
       shlex_join ([''python3'', ''-S'', ''-c'', ru_script rt ''restore:baseline_program''] @ baseline),
       ru_script rt ''restore:target'', shlex_join extract, ru_script rt ''restore:tail'']"

definition restore_command ::
    "runtime \<Rightarrow> vault \<Rightarrow> job \<Rightarrow> host \<Rightarrow> repository \<Rightarrow> string \<Rightarrow> string list \<Rightarrow> string option \<Rightarrow>
     bool \<Rightarrow> bool \<Rightarrow> string \<Rightarrow> string \<Rightarrow> bool \<Rightarrow> command fallible" where
  "restore_command rt v j h r archive paths target dry_run legacy mode layout overwrite =
     try_bind (restore_checks j archive paths target dry_run legacy mode layout overwrite) (\<lambda>(a, ps, t).
       remote_command rt v h r
         [''sh'', ''-c'', restore_script rt (baseline_words a ps) (extract_words dry_run mode layout a ps),
          ''--'', t, (if dry_run then ''1'' else ''0''), mode, layout] False True)"

definition export_words :: "string \<Rightarrow> string list \<Rightarrow> string list" where
  "export_words archive paths =
     borg_base ''extract'' @ [''--list''] @ strip_words paths @ archive_ref archive # paths"

definition archive_export_command ::
    "runtime \<Rightarrow> vault \<Rightarrow> repository \<Rightarrow> string \<Rightarrow> string list \<Rightarrow> string \<Rightarrow> command fallible" where
  "archive_export_command rt v r archive paths destination =
     try_bind (validate_archive_name archive) (\<lambda>a.
     try_bind (validate_archive_paths ''Export'' paths) (\<lambda>ps.
       if ps = [] then Inl ''At least one archive path must be selected''
       else if \<not> starts_with (ru_export_root rt @ ''/'') destination \<or> has_parent_part destination \<or>
          \<not> single_line destination
       then Inl ''Invalid export working directory''
       else repository_access_command rt v r
         [''sh'', ''-c'', script_lines [ru_script rt ''export:head'', ''exec '' @ shlex_join (export_words a ps)],
          ''--'', destination]))"

section \<open>Source statistics and external storage\<close>

definition source_stats_script :: "runtime \<Rightarrow> job \<Rightarrow> (string \<times> json) list \<Rightarrow> string \<Rightarrow> string" where
  "source_stats_script rt j options patterns_json =
     (let format_nl = ''%s'' @ [newline];
          flag = (\<lambda>name key. name @ ''='' @ (if option_set key options then ''1'' else ''0'')) in
      script_lines [ru_script rt ''source_stats:head'',
        shlex_join [''printf'', ''BACKUP-JOB: '' @ format_nl, jb_name j],
        shlex_join [''printf'', ''QUELLPFADE: '' @ format_nl, join_with '', '' (jb_source_paths j)],
        ru_script rt ''source_stats:note'',
        flag ''one_file_system'' ''one_file_system'', flag ''exclude_caches'' ''exclude_caches'',
        flag ''exclude_nodump'' ''exclude_nodump'', ru_script rt ''source_stats:mounts'',
        ''  python3 -S -c '' @ shlex_quote (ru_script rt ''source_stats:python'') @ '' '' @
          ru_script rt ''source_stats:flags'' @ '' '' @ shlex_quote patterns_json @ '' '' @
          [double_mark] @ ''$@'' @ [double_mark],
        ru_script rt ''source_stats:tail''])"

definition source_stats_command ::
    "runtime \<Rightarrow> vault \<Rightarrow> (string list \<Rightarrow> string) \<Rightarrow> job \<Rightarrow> host \<Rightarrow> command fallible" where
  "source_stats_command rt v dumps j h =
     try_bind (request_fallible (validate_create_options (jb_create_options j))) (\<lambda>options.
     try_bind (ssh_argv rt v h
       ([''sh'', ''-c'', source_stats_script rt j options (dumps (jb_exclude_patterns j)), ''--''] @ jb_source_paths j)
       [] True) (\<lambda>c.
       Inr (c\<lparr>cm_allow_mount := True\<rparr>)))"

definition storage_destination :: "probe_target \<Rightarrow> string" where
  "storage_destination t =
     pt_username t @ ''@'' @
     (if CHR '':'' \<in> set (pt_host t) \<and> \<not> starts_with ''['' (pt_host t) then ''['' @ pt_host t @ '']'' else pt_host t)"

definition external_repository_storage_command :: "runtime \<Rightarrow> vault \<Rightarrow> repository \<Rightarrow> command fallible" where
  "external_repository_storage_command rt v r =
     (if truthy (rp_storage_path r) then Inl ''Filesystem SSH probe is only used for external repositories''
      else try_bind (url_fallible (storage_probe_target_from_location (ru_url rt) (rp_location r))) (\<lambda>found.
        case found of
          None \<Rightarrow> Inl (''Externe Dateisystempr'' @ [CHR 0xFC] @ ''fung ben'' @ [CHR 0xF6] @
            ''tigt ein SSH-Repository mit Benutzer und Host'')
        | Some t \<Rightarrow>
            try_bind (required_text ''External repository has no manager SSH key configured''
              (va_repository v (rp_id r) ''external_ssh_private_key'')) (\<lambda>key.
            try_bind (required_text ''External repository has no manager known_hosts entry configured''
              (va_repository v (rp_id r) ''external_known_hosts'')) (\<lambda>known.
              let path = (if starts_with ''-'' (pt_path t) then ''./'' @ pt_path t else pt_path t);
                  pathless = (if starts_with ''/'' path then ''0'' else ''1'') in
              Inr ((command_of
                  (manager_borg_argv rt [''sh'', ''-c'', ru_script rt ''_EXTERNAL_STORAGE_SSH_WRAPPER'', ''--'',
                     str_nat (pt_port t), storage_destination t, ''df -m '' @ shlex_quote path, pathless])
                  (''[direkt im Manager] ssh -p '' @ str_nat (pt_port t) @ '' '' @ shlex_quote (storage_destination t) @
                   '' -- df -m '' @ shlex_quote (pt_path t) @ (if pathless = ''1'' then '' (Fallback: df -m)'' else [])))
                \<lparr>cm_stdin := Some (payload_line (Some key) @ payload_line (Some known)),
                 cm_timeout := Some 20\<rparr>)))))"

end
