(* ===== verification/BuilderFacts.thy ===== *)
theory BuilderFacts
  imports Builders
begin

text \<open>
  What the commands of \<open>Builders\<close> guarantee: which archives a prune can reach, that nothing a user
  enters is taken for an option of borg, where a restore writes, and what a deletion of several
  archives does when one of them fails.
\<close>

section \<open>Deleting several archives\<close>

definition is_borg :: "string list \<Rightarrow> bool" where
  "is_borg c \<longleftrightarrow> c \<noteq> [] \<and> hd c = ''borg''"

text \<open>The borg commands of a run and their exit codes.\<close>

definition borg_of :: "string list list \<Rightarrow> string list list" where
  "borg_of before = filter is_borg before"

definition borg_codes :: "exit_codes \<Rightarrow> string list list \<Rightarrow> nat list" where
  "borg_codes ec before = map snd (filter (is_borg \<circ> fst) (zip before (codes_of ec [] before)))"

lemma borg_of_simps [simp]:
  "borg_of [] = []" "borg_of (xs @ ys) = borg_of xs @ borg_of ys" "borg_of (c # cs) = (if is_borg c then c # borg_of cs else borg_of cs)"
  by (simp_all add: borg_of_def)

lemma borg_codes_Nil [simp]: "borg_codes ec [] = []"
  by (simp add: borg_codes_def)

lemma borg_codes_snoc [simp]:
  "borg_codes ec (before @ [c]) = borg_codes ec before @ (if is_borg c then [ec before c] else [])"
  by (simp add: borg_codes_def codes_of_append)

lemma borg_codes_pair [simp]:
  "borg_codes ec (before @ [c, d]) =
     borg_codes ec before @ (if is_borg c then [ec before c] else []) @ (if is_borg d then [ec (before @ [c]) d] else [])"
  using borg_codes_snoc [of ec "before @ [c]" d] by simp

lemma delete_commands [simp]:
  "is_borg (delete_words a)" "\<not> is_borg (delete_title a)" "is_borg compact_words" "\<not> is_borg (''printf'' # ws)"
  by (simp_all add: is_borg_def delete_words_def delete_title_def compact_words_def borg_base_def)

definition settled :: "exit_codes \<Rightarrow> shell_state \<Rightarrow> bool" where
  "settled ec s \<longleftrightarrow> sh_result s = worst (borg_codes ec (sh_ran s)) \<and> sh_result s \<le> 1"

lemma delete_run:
  assumes "settled ec s"
  shows "(\<exists>n ran' code. run_lines ec s (concat (map delete_lines as) @ ls) = (ran', code) \<and>
        borg_of ran' = borg_of (sh_ran s) @ take n (map delete_words as) \<and> 1 < code \<and> code = worst (borg_codes ec ran')) \<or>
     (\<exists>s'. run_lines ec s (concat (map delete_lines as) @ ls) = run_lines ec s' ls \<and> settled ec s' \<and>
        borg_of (sh_ran s') = borg_of (sh_ran s) @ map delete_words as)"
  using assms
proof (induction as arbitrary: s)
  case Nil
  then show ?case by auto
next
  case (Cons a as)
  obtain r l rc w where s: "s = \<lparr>sh_ran = r, sh_last = l, sh_rc = rc, sh_result = w\<rparr>" by (cases s)
  define r1 where "r1 = r @ [delete_title a]"
  define code where "code = ec r1 (delete_words a)"
  define r2 where "r2 = r1 @ [delete_words a]"
  define t where "t = \<lparr>sh_ran = r2, sh_last = 0, sh_rc = code, sh_result = max w code\<rparr>"
  have w: "w = worst (borg_codes ec r)" "w \<le> 1" using Cons.prems by (simp_all add: settled_def s)
  have codes: "worst (borg_codes ec r2) = max w code" by (simp add: r2_def r1_def code_def w)
  have borg: "borg_of r2 = borg_of r @ [delete_words a]" by (simp add: r2_def r1_def)
  have run: "run_lines ec s (concat (map delete_lines (a # as)) @ ls) =
      (if 1 < code then (r2, code) else run_lines ec t (concat (map delete_lines as) @ ls))"
    by (simp add: delete_lines_def s r1_def [symmetric] code_def [symmetric] r2_def [symmetric] t_def)
  show ?case
  proof (cases "1 < code")
    case True
    then have "code = worst (borg_codes ec r2)" using codes w by simp
    then show ?thesis
      using True run borg by (intro disjI1 exI [of _ 1] exI [of _ r2] exI [of _ code]) (simp add: s)
  next
    case False
    have "settled ec t" using codes w False by (simp add: settled_def t_def)
    from Cons.IH [OF this] show ?thesis
    proof (elim disjE exE conjE)
      fix n ran' c
      assume *: "run_lines ec t (concat (map delete_lines as) @ ls) = (ran', c)"
        "borg_of ran' = borg_of (sh_ran t) @ take n (map delete_words as)" "1 < c" "c = worst (borg_codes ec ran')"
      then show ?thesis
        using run False borg by (intro disjI1 exI [of _ "Suc n"] exI [of _ ran'] exI [of _ c]) (simp add: s t_def)
    next
      fix s'
      assume "run_lines ec t (concat (map delete_lines as) @ ls) = run_lines ec s' ls" "settled ec s'"
        "borg_of (sh_ran s') = borg_of (sh_ran t) @ map delete_words as"
      then show ?thesis
        using run False borg by (intro disjI2 exI [of _ s']) (simp add: s t_def)
    qed
  qed
qed

definition deletion_plan :: "string list \<Rightarrow> bool \<Rightarrow> string list list" where
  "deletion_plan archives compact_after =
     map delete_words archives @ (if compact_after then [compact_words] else [])"

text \<open>
  The script that deletes several archives runs the deletions in their order and the compaction at
  the end, and nothing after the first deletion that fails with more than a warning; its exit code is
  the worst one of the borg commands it ran, so an incomplete run never looks like a success or a
  warning.
\<close>

theorem delete_script_stops_at_failure:
  "\<exists>n. borg_of (fst (run_script ec (delete_script archives compact_after))) = take n (deletion_plan archives compact_after) \<and>
     snd (run_script ec (delete_script archives compact_after)) =
       worst (borg_codes ec (fst (run_script ec (delete_script archives compact_after)))) \<and>
     (length (deletion_plan archives compact_after) \<le> n \<or>
      1 < snd (run_script ec (delete_script archives compact_after)))"
proof -
  define ls where "ls = (if compact_after then compact_lines else []) @ [Exit_result]"
  define s where "s = \<lparr>sh_ran = [], sh_last = 0, sh_rc = 0, sh_result = 0\<rparr>"
  have run: "run_script ec (delete_script archives compact_after) = run_lines ec s (concat (map delete_lines archives) @ ls)"
    by (simp add: run_script_def delete_script_def start_shell_def s_def ls_def)
  have "settled ec s" by (simp add: settled_def s_def)
  from delete_run [OF this, of archives ls] show ?thesis
  proof (elim disjE exE conjE)
    fix n ran' code
    assume *: "run_lines ec s (concat (map delete_lines archives) @ ls) = (ran', code)"
      "borg_of ran' = borg_of (sh_ran s) @ take n (map delete_words archives)" "1 < code" "code = worst (borg_codes ec ran')"
    show ?thesis
    proof (cases "n \<le> length archives")
      case True
      then show ?thesis using * by (intro exI [of _ n]) (simp add: run s_def deletion_plan_def)
    next
      case False
      then show ?thesis using * by (intro exI [of _ "length archives"]) (simp add: run s_def deletion_plan_def)
    qed
  next
    fix s'
    assume *: "run_lines ec s (concat (map delete_lines archives) @ ls) = run_lines ec s' ls" "settled ec s'"
      "borg_of (sh_ran s') = borg_of (sh_ran s) @ map delete_words archives"
    obtain r l rc w where s': "s' = \<lparr>sh_ran = r, sh_last = l, sh_rc = rc, sh_result = w\<rparr>" by (cases s')
    show ?thesis
      using * by (intro exI [of _ "length (deletion_plan archives compact_after)"])
        (simp add: run ls_def s' s_def settled_def deletion_plan_def compact_lines_def)
  qed
qed

section \<open>A prune reaches the archives of its own job\<close>

text \<open>
  The pattern of \<open>--glob-archives\<close>, as far as the commands use it: a star stands for any text, other
  characters for themselves.
\<close>

fun glob_match :: "string \<Rightarrow> string \<Rightarrow> bool" where
  "glob_match [] s = (s = [])"
| "glob_match (c # p) [] = (c = CHR ''*'' \<and> glob_match p [])"
| "glob_match (c # p) (d # s) =
     (if c = CHR ''*'' then glob_match p (d # s) \<or> glob_match (c # p) s else c = d \<and> glob_match p s)"

lemma glob_star_all: "glob_match ''*'' s"
  by (induction s) auto

lemma glob_prefix: "CHR ''*'' \<notin> set p \<Longrightarrow> glob_match (p @ ''*'') s \<longleftrightarrow> starts_with p s"
proof (induction p arbitrary: s)
  case Nil
  then show ?case by (simp add: glob_star_all starts_with_def)
next
  case (Cons c p)
  then show ?case by (cases s) (auto simp: starts_with_def)
qed

lemma digits_str_nat: "list_all is_digit (str_nat n)"
  by (simp add: list_all_iff str_nat_digits)

lemma digit_not_mark: "is_digit c \<Longrightarrow> c \<noteq> CHR ''-'' \<and> c \<noteq> CHR ''*''"
  by (auto simp: is_digit_def char_code_def)

text \<open>The series of a job created by the program: no own prefix but the default one and no history.\<close>

definition default_series :: "job \<Rightarrow> bool" where
  "default_series j \<longleftrightarrow>
     jb_archive_prefix j \<in> {None, Some (''bbm-'' @ str_nat (jb_id j) @ ''-'')} \<and> jb_archive_prefix_history j = []"

lemma default_prefix: "default_series j \<Longrightarrow> job_archive_prefix j = ''bbm-'' @ str_nat (jb_id j) @ ''-''"
  by (auto simp: default_series_def job_archive_prefix_def)

lemma default_prefixes: "default_series j \<Longrightarrow> job_archive_prefixes j = [job_archive_prefix j]"
  by (simp add: default_series_def job_archive_prefixes_def)

lemma number_before_dash:
  assumes "str_nat m @ CHR ''-'' # x = str_nat n @ CHR ''-'' # y"
  shows "m = n"
proof -
  have "takeWhile is_digit (str_nat k @ CHR ''-'' # z) = str_nat k" for k z
    using digits_str_nat [of k] takeWhile_stop [of is_digit "str_nat k" "CHR ''-''" z] digit_not_mark by blast
  with assms have "str_nat m = str_nat n" by metis
  then show ?thesis by simp
qed

lemma starts_with_append: "starts_with p s \<longleftrightarrow> (\<exists>t. s = p @ t)"
  by (auto simp: starts_with_def) (metis append_take_drop_id)

text \<open>The archives the prune commands of a job reach, when its prefixes hold no wildcard.\<close>

definition plain_prefix :: "string \<Rightarrow> bool" where
  "plain_prefix p \<longleftrightarrow> list_all (\<lambda>c. c \<notin> set ''*?['') p"

definition pruned_by :: "job \<Rightarrow> string \<Rightarrow> bool" where
  "pruned_by j name \<longleftrightarrow> list_ex (\<lambda>p. glob_match (p @ ''*'') name) (job_archive_prefixes j)"

lemma pruned_by_plain:
  "list_all plain_prefix (job_archive_prefixes j) \<Longrightarrow> pruned_by j name = list_ex (\<lambda>p. starts_with p name) (job_archive_prefixes j)"
proof -
  assume plain: "list_all plain_prefix (job_archive_prefixes j)"
  have "glob_match (p @ ''*'') name = starts_with p name" if "p \<in> set (job_archive_prefixes j)" for p
    using plain that by (intro glob_prefix) (auto simp: list_all_iff plain_prefix_def)
  then show ?thesis by (simp add: pruned_by_def list_ex_iff)
qed

lemma default_prefixes_apart:
  assumes "default_series j" and "default_series k" and "jb_id j \<noteq> jb_id k"
  shows "\<not> starts_with (job_archive_prefix j) (job_archive_prefix k @ name)"
proof
  assume "starts_with (job_archive_prefix j) (job_archive_prefix k @ name)"
  then obtain t where "str_nat (jb_id j) @ CHR ''-'' # t = str_nat (jb_id k) @ CHR ''-'' # name"
    by (auto simp: starts_with_append default_prefix [OF assms(1)] default_prefix [OF assms(2)])
  then show False using number_before_dash assms(3) by blast
qed



section \<open>Selected items keep their names\<close>

lemma common_start_column:
  assumes "xs \<in> set xss"
  shows "common_start xss \<le> length xs \<and> take (common_start xss) xs = take (common_start xss) (hd xss)"
  using assms
proof (induction xss arbitrary: xs rule: common_start.induct)
  case (1 xss)
  show ?case
  proof (cases "xss = [] \<or> [] \<in> set xss \<or> \<not> list_all (\<lambda>xs. hd xs = hd (hd xss)) xss")
    case True
    then show ?thesis by (simp add: common_start.simps [of xss])
  next
    case False
    have e: "common_start xss = Suc (common_start (map tl xss))"
      using False by (simp add: common_start.simps [of xss])
    have t: "tl xs \<in> set (map tl xss)" using "1.prems" by simp
    from "1.IH" [OF False t] have ih: "common_start (map tl xss) \<le> length (tl xs)"
      "take (common_start (map tl xss)) (tl xs) = take (common_start (map tl xss)) (hd (map tl xss))" by simp_all
    have ne: "xss \<noteq> []" using False by blast
    have "xs \<noteq> []" "hd xss \<noteq> []" using False "1.prems" hd_in_set [OF ne] by metis+
    moreover have "hd xs = hd (hd xss)" using False "1.prems" unfolding list_all_iff by blast
    moreover note ne
    ultimately have ne: "xss \<noteq> []" "xs \<noteq> []" "hd xss \<noteq> []" "hd xs = hd (hd xss)" by blast+
    obtain x ys where xs: "xs = x # ys" using ne by (cases xs) auto
    obtain z zs where zs: "hd xss = z # zs" using ne by (cases "hd xss") auto
    have "hd (map tl xss) = zs" using ne zs by (simp add: hd_map)
    with ih ne show ?thesis by (simp add: e xs zs)
  qed
qed

text \<open>
  Restoring a selection into one directory strips the common parent of the selected items and
  nothing of their names: at least the last component of every item is left, and two different items
  stay different.
\<close>

theorem selection_keeps_items_apart:
  assumes "p \<in> set paths" and "q \<in> set paths"
    and "path_of_string p \<noteq> []" and "path_of_string q \<noteq> []" and "path_of_string p \<noteq> path_of_string q"
  shows "drop (selection_root_strip_components paths) (path_of_string p) \<noteq> [] \<and>
    drop (selection_root_strip_components paths) (path_of_string p) \<noteq>
      drop (selection_root_strip_components paths) (path_of_string q)"
proof -
  define n where "n = selection_root_strip_components paths"
  define parents where "parents = map (\<lambda>p. butlast (path_of_string p)) paths"
  have col: "n \<le> length (butlast (path_of_string x)) \<and> take n (butlast (path_of_string x)) = take n (hd parents)"
    if "x \<in> set paths" for x
    using common_start_column [of "butlast (path_of_string x)" parents] that
    by (auto simp: n_def selection_root_strip_components_def parents_def)
  have "0 < length (path_of_string p)" "0 < length (path_of_string q)" using assms(3,4) by blast+
  moreover have "n \<le> length (path_of_string p) - 1" "n \<le> length (path_of_string q) - 1"
    using col [OF assms(1)] col [OF assms(2)] by (simp_all only: length_butlast)
  ultimately have "n < length (path_of_string p)" "n < length (path_of_string q)" by linarith+
  moreover have "take n (path_of_string p) = take n (path_of_string q)"
    using col [OF assms(1)] col [OF assms(2)] calculation by (metis take_butlast)
  moreover have "drop n (path_of_string p) \<noteq> drop n (path_of_string q)"
  proof
    assume "drop n (path_of_string p) = drop n (path_of_string q)"
    with \<open>take n (path_of_string p) = take n (path_of_string q)\<close>
    have "take n (path_of_string p) @ drop n (path_of_string p) = take n (path_of_string q) @ drop n (path_of_string q)"
      by simp
    then show False using assms(5) by simp
  qed
  ultimately show ?thesis by (simp flip: n_def)
qed

lemma selection_keeps_items_apart_witness:
  "drop (selection_root_strip_components [''srv/www/a'', ''srv/www/b/c'']) (path_of_string ''srv/www/a'') \<noteq> [] \<and>
   drop (selection_root_strip_components [''srv/www/a'', ''srv/www/b/c'']) (path_of_string ''srv/www/a'') \<noteq>
     drop (selection_root_strip_components [''srv/www/a'', ''srv/www/b/c'']) (path_of_string ''srv/www/b/c'')"
proof (rule selection_keeps_items_apart)
  show "path_of_string ''srv/www/a'' \<noteq> []" "path_of_string ''srv/www/b/c'' \<noteq> []"
    "path_of_string ''srv/www/a'' \<noteq> path_of_string ''srv/www/b/c''" by code_simp+
qed simp_all

section \<open>Restores\<close>

lemma map_fallible_Inr:
  "map_fallible f xs = Inr ys \<Longrightarrow> y \<in> set ys \<Longrightarrow> \<exists>x \<in> set xs. f x = Inr y"
  by (induction xs arbitrary: ys) (auto simp: try_bind_Inr_iff)

definition archive_relative :: "string \<Rightarrow> bool" where
  "archive_relative w \<longleftrightarrow> w \<noteq> [] \<and> \<not> starts_with ''-'' w \<and> \<not> starts_with ''/'' w \<and> \<not> has_parent_part w \<and> single_line w"

lemma validated_path:
  assumes "validate_archive_path kind raw = Inr w"
  shows "archive_relative w"
proof -
  define v where "v = strip_by (\<lambda>c. c = CHR ''/'') (py_strip raw)"
  have v: "w = v" "v \<noteq> []" "\<not> starts_with ''-'' v" "\<not> has_parent_part v" "single_line v"
    using assms by (auto simp: validate_archive_path_def Let_def v_def split: if_splits)
  have "\<not> starts_with ''/'' v"
    using strip_by_ends(1) [of "\<lambda>c. c = CHR ''/''" "py_strip raw"] v(2) by (auto simp: v_def starts_with_slash)
  with v show ?thesis by (simp add: archive_relative_def)
qed

lemma validated_paths: "validate_archive_paths kind paths = Inr ps \<Longrightarrow> w \<in> set ps \<Longrightarrow> archive_relative w"
  unfolding validate_archive_paths_def by (metis map_fallible_Inr validated_path)

definition restore_options :: "string list" where
  "restore_options = [''--lock-wait'', ''--log-json'', ''--progress'', ''--list'', ''--dry-run'', ''--strip-components'']"

text \<open>The options of an extraction, and the archive and paths after them.\<close>

definition extract_options :: "bool \<Rightarrow> string \<Rightarrow> string \<Rightarrow> string list \<Rightarrow> string list" where
  "extract_options dry_run mode layout paths =
     [''borg'', ''--lock-wait'', ''600'', ''--log-json'', ''extract'', ''--progress'', ''--list''] @
     (if dry_run then [''--dry-run''] else []) @
     (if mode = ''target'' \<and> layout = ''selection-root'' \<and> paths \<noteq> [] then strip_words paths else [])"

lemma extract_words_split: "extract_words d m l a ps = extract_options d m l ps @ archive_ref a # ps"
  by (simp add: extract_words_def extract_options_def)

lemma str_nat_no_option: "\<not> starts_with ''-'' (str_nat n)"
  using str_nat_digits [of "CHR ''-''" n] by (cases "str_nat n") (auto simp: starts_with_def is_digit_def char_code_def)

definition option_free :: "string \<Rightarrow> bool" where
  "option_free w \<longleftrightarrow> \<not> starts_with ''-'' w \<or> w \<in> set restore_options"

lemma option_free_words:
  "list_all option_free
     [''borg'', ''--lock-wait'', ''600'', ''--log-json'', ''extract'', ''--progress'', ''--list'']"
  "option_free ''--dry-run''" "option_free ''--strip-components''"
  by code_simp+

lemma option_free_number: "option_free (str_nat n)"
  by (simp add: option_free_def str_nat_no_option)

lemma extract_options_free: "list_all option_free (extract_options d m l ps)"
  unfolding extract_options_def strip_words_def Let_def
  using option_free_words option_free_number by (simp only: list_all_append list.pred_inject if_split) simp

text \<open>
  C35: A restore that is accepted writes where it may and borg reads its words as meant: the archive
  belongs to the job unless an older archive was allowed explicitly, the directory is absolute and
  without parent steps, restoring in place needs selected paths and, unless it is a trial run, the
  confirmation to overwrite; every word before the archive that begins with a dash is one of six
  options of the program, and the selected paths after it are relative, without parent steps and
  never begin with a dash.
\<close>

theorem restore_command_confined:
  assumes "restore_checks j archive paths target dry_run legacy mode layout overwrite = Inr (a, ps, t)"
  shows "(legacy \<or> list_ex (\<lambda>p. starts_with p a) (job_archive_prefixes j)) \<and> safe_absolute t \<and>
    (mode = ''target'' \<or> ps \<noteq> [] \<and> (dry_run \<or> overwrite)) \<and>
    list_all archive_relative ps \<and>
    (\<exists>options. extract_words dry_run mode layout a ps = options @ archive_ref a # ps \<and>
      set (filter (starts_with ''-'') options) \<subseteq> set restore_options)"
proof -
  from assms have a: "legacy \<or> list_ex (\<lambda>p. starts_with p a) (job_archive_prefixes j)"
    and ps: "validate_archive_paths ''Restore'' paths = Inr ps"
    and m: "mode \<in> {''original'', ''target''}" and t: "restore_target mode target ps dry_run overwrite = Inr t"
    by (auto simp: restore_checks_def try_bind_Inr_iff split: if_splits)
  have "safe_absolute ''/''" by code_simp
  then have "safe_absolute t" "mode = ''target'' \<or> ps \<noteq> [] \<and> (dry_run \<or> overwrite)"
    using t m by (auto simp: restore_target_def split: if_splits)
  moreover have "list_all archive_relative ps" using validated_paths [OF ps] by (simp add: list_all_iff)
  moreover have "set (filter (starts_with ''-'') (extract_options dry_run mode layout ps)) \<subseteq> set restore_options"
    using extract_options_free [of dry_run mode layout ps] by (auto simp: list_all_iff option_free_def)
  ultimately show ?thesis using a extract_words_split by blast
qed

lemma restore_command_confined_witness:
  "(False \<or> list_ex (\<lambda>p. starts_with p ''bbm-1-x'') (job_archive_prefixes sample_job)) \<and> safe_absolute ''/restore'' \<and>
    (''target'' = ''target'' \<or> [''srv/a''] \<noteq> [] \<and> (False \<or> False)) \<and>
    list_all archive_relative [''srv/a''] \<and>
    (\<exists>options. extract_words False ''target'' ''selection-root'' ''bbm-1-x'' [''srv/a''] =
        options @ archive_ref ''bbm-1-x'' # [''srv/a''] \<and>
      set (filter (starts_with ''-'') options) \<subseteq> set restore_options)"
proof (rule restore_command_confined)
  show "restore_checks sample_job ''bbm-1-x'' [''/srv/a/''] (Some ''/restore'') False False ''target'' ''selection-root'' False =
      Inr (''bbm-1-x'', [''srv/a''], ''/restore'')"
    by code_simp
qed

section \<open>The storage probe\<close>

text \<open>
  The user name of an external location may begin with a dash; the probe hands it to ssh as the
  destination, without a double dash in front, where ssh reads it as an option.
\<close>

definition option_location :: repository where
  "option_location = sample_repository\<lparr>rp_storage_path := None, rp_location := ''ssh://-oProxyCommand=x@h/./r''\<rparr>"

definition external_vault :: vault where
  "external_vault = (sample_vault ''a'')\<lparr>va_repository := (\<lambda>_ name. Some ''k'')\<rparr>"

lemma storage_destination_may_be_option:
  "case external_repository_storage_command sample_runtime external_vault option_location of
     Inl _ \<Rightarrow> False | Inr c \<Rightarrow> cm_argv c ! 5 = ''-oProxyCommand=x@h''"
  by code_simp

end
