(* ===== verification/Regex.thy ===== *)
theory Regex
  imports Prelude
begin

text \<open>
  Regular expressions of Python's \<open>re\<close> module, as far as the code uses them: a backtracking matcher
  that lists the matches in the order in which the module would try them, so that the first one is
  the match. Repetitions have a body that consumes at least one character in every pattern of the
  code, therefore a repetition is tried at most as often as there are characters left.
\<close>

section \<open>Patterns\<close>

datatype rx =
    Eps
  | One "char \<Rightarrow> bool"
  | Cat rx rx
  | Or rx rx
  | Many bool rx
  | Opt bool rx
  | Grp nat rx
  | Stop bool

text \<open>
  \<open>Many True r\<close> is \<open>r*\<close>, \<open>Many False r\<close> is \<open>r*?\<close>; \<open>Stop False\<close> is \<open>$\<close>, the end or before a line feed at
  the end, \<open>Stop True\<close> is \<open>$\<close> of a multiline pattern, the end or before any line feed.
\<close>

type_synonym captures = "(nat \<times> string) list"
type_synonym rx_state = "string \<times> captures"

fun repeat_match :: "bool \<Rightarrow> (rx_state \<Rightarrow> rx_state list) \<Rightarrow> nat \<Rightarrow> rx_state \<Rightarrow> rx_state list" where
  "repeat_match greedy f 0 st = [st]"
| "repeat_match greedy f (Suc n) st =
     (let more = concat (map (repeat_match greedy f n) (filter (\<lambda>t. length (fst t) < length (fst st)) (f st))) in
      if greedy then more @ [st] else st # more)"

fun rx_matches :: "rx \<Rightarrow> rx_state \<Rightarrow> rx_state list" where
  "rx_matches Eps st = [st]"
| "rx_matches (One p) st = (case fst st of [] \<Rightarrow> [] | c # s \<Rightarrow> if p c then [(s, snd st)] else [])"
| "rx_matches (Cat r q) st = concat (map (rx_matches q) (rx_matches r st))"
| "rx_matches (Or r q) st = rx_matches r st @ rx_matches q st"
| "rx_matches (Many greedy r) st = repeat_match greedy (rx_matches r) (length (fst st)) st"
| "rx_matches (Opt greedy r) st = (if greedy then rx_matches r st @ [st] else st # rx_matches r st)"
| "rx_matches (Grp n r) st =
     map (\<lambda>t. (fst t, (n, take (length (fst st) - length (fst t)) (fst st)) # snd t)) (rx_matches r st)"
| "rx_matches (Stop multi) st =
     (if fst st = [] \<or> hd (fst st) = newline \<and> (multi \<or> tl (fst st) = []) then [st] else [])"

section \<open>Matching\<close>

text \<open>\<open>re.match\<close>, \<open>re.fullmatch\<close> and \<open>re.search\<close>: the groups of the match, the last capture of a group first.\<close>

definition re_match :: "rx \<Rightarrow> string \<Rightarrow> captures option" where
  "re_match r s = (case rx_matches r (s, []) of [] \<Rightarrow> None | t # _ \<Rightarrow> Some (snd t))"

definition re_fullmatch :: "rx \<Rightarrow> string \<Rightarrow> captures option" where
  "re_fullmatch r s = (case filter (\<lambda>t. fst t = []) (rx_matches r (s, [])) of [] \<Rightarrow> None | t # _ \<Rightarrow> Some (snd t))"

fun re_search :: "rx \<Rightarrow> string \<Rightarrow> captures option" where
  "re_search r [] = re_match r []"
| "re_search r (c # s) = (case re_match r (c # s) of None \<Rightarrow> re_search r s | Some g \<Rightarrow> Some g)"

text \<open>\<open>re.search\<close> with a multiline pattern that begins with \<open>^\<close>: tried at the start of every line.\<close>

fun re_search_lines :: "rx \<Rightarrow> bool \<Rightarrow> string \<Rightarrow> captures option" where
  "re_search_lines r at_start [] = (if at_start then re_match r [] else None)"
| "re_search_lines r at_start (c # s) =
     (case (if at_start then re_match r (c # s) else None) of
        None \<Rightarrow> re_search_lines r (c = newline) s
      | Some g \<Rightarrow> Some g)"

definition group :: "nat \<Rightarrow> captures \<Rightarrow> string" where
  "group n g = (case map_of g n of None \<Rightarrow> [] | Some s \<Rightarrow> s)"

section \<open>Pieces\<close>

definition rx_any :: rx where
  "rx_any = One (\<lambda>c. c \<noteq> newline)"

definition rx_space :: rx where
  "rx_space = One is_space"

definition rx_digit :: rx where
  "rx_digit = One is_digit"

definition rx_plus :: "rx \<Rightarrow> rx" where
  "rx_plus r = Cat r (Many True r)"

definition rx_lazy :: "rx \<Rightarrow> rx" where
  "rx_lazy r = Cat r (Many False r)"

definition rx_spaces :: rx where
  "rx_spaces = Many True rx_space"

fun rx_seq :: "rx list \<Rightarrow> rx" where
  "rx_seq [] = Eps"
| "rx_seq [r] = r"
| "rx_seq (r # rs) = Cat r (rx_seq rs)"

fun rx_alt :: "rx list \<Rightarrow> rx" where
  "rx_alt [] = One (\<lambda>_. False)"
| "rx_alt [r] = r"
| "rx_alt (r # rs) = Or r (rx_alt rs)"

text \<open>A literal text, and the same with \<open>re.IGNORECASE\<close>.\<close>

definition rx_text :: "string \<Rightarrow> rx" where
  "rx_text s = rx_seq (map (\<lambda>c. One (\<lambda>d. d = c)) s)"

definition rx_itext :: "string \<Rightarrow> rx" where
  "rx_itext s = rx_seq (map (\<lambda>c. One (\<lambda>d. lower_char d = lower_char c)) s)"

definition rx_of :: "string \<Rightarrow> rx" where
  "rx_of s = One (\<lambda>c. c \<in> set s)"

definition rx_not_of :: "string \<Rightarrow> rx" where
  "rx_not_of s = One (\<lambda>c. c \<notin> set s)"

section \<open>Facts\<close>

text \<open>What is left of the text is always an end of it: a match consumes a prefix.\<close>

definition rx_suffix :: "string \<Rightarrow> string \<Rightarrow> bool" where
  "rx_suffix t s \<longleftrightarrow> (\<exists>u. s = u @ t)"

lemma rx_suffix_refl [simp]: "rx_suffix s s"
  by (simp add: rx_suffix_def)

lemma rx_suffix_trans: "rx_suffix u t \<Longrightarrow> rx_suffix t s \<Longrightarrow> rx_suffix u s"
  by (auto simp: rx_suffix_def)

lemma repeat_suffix:
  assumes f: "\<And>st t. t \<in> set (f st) \<Longrightarrow> rx_suffix (fst t) (fst st)"
  shows "t \<in> set (repeat_match g f n st) \<Longrightarrow> rx_suffix (fst t) (fst st)"
proof (induction n arbitrary: st t)
  case (Suc n)
  then have "t = st \<or> (\<exists>m \<in> set (f st). t \<in> set (repeat_match g f n m))"
    by (auto simp: Let_def split: if_splits)
  then show ?case using Suc.IH f rx_suffix_trans rx_suffix_refl by metis
qed simp

lemma rx_matches_suffix: "t \<in> set (rx_matches r st) \<Longrightarrow> rx_suffix (fst t) (fst st)"
proof (induction r arbitrary: st t)
  case (One p)
  then show ?case by (cases "fst st") (auto simp: rx_suffix_def split: if_splits)
next
  case (Cat r q)
  then obtain m where "m \<in> set (rx_matches r st)" "t \<in> set (rx_matches q m)" by auto
  then show ?case using Cat.IH rx_suffix_trans by blast
next
  case (Many g r)
  then show ?case using repeat_suffix [of "rx_matches r"] by auto
next
  case (Opt g r)
  then have "t = st \<or> t \<in> set (rx_matches r st)" by (auto split: if_splits)
  then show ?case using Opt.IH rx_suffix_refl by blast
qed (auto split: if_splits)

end
