(* ===== verification/Warnings.thy ===== *)
theory Warnings
  imports Regex ItemLines
begin

text \<open>
  The causes of Borg warnings: \<open>src/app/borg_warnings.py\<close>. The regular expressions are patterns of
  \<open>Regex\<close>; decoding bytes as UTF-8 with replacement is an argument of the functions. An item is a
  triple of its kind, path and reason; the German texts of the diagnosis are left out.
\<close>

section \<open>Patterns\<close>

definition rx_remote :: rx where
  "rx_remote = Opt True (rx_seq [rx_itext ''Remote:'', rx_spaces])"

definition rx_errno :: rx where
  "rx_errno = rx_seq [rx_itext ''[Errno'', rx_plus rx_space, rx_plus rx_digit, rx_text '']'', rx_spaces]"

definition status_rx :: rx where
  "status_rx = rx_seq [rx_spaces, rx_remote, Grp 1 (rx_of ''CE''), rx_plus rx_space, Grp 2 (rx_lazy rx_any), rx_spaces, Stop False]"

definition rx_warning :: rx where
  "rx_warning = Opt True (rx_seq [rx_itext ''warning:'', rx_spaces])"

definition changed_rx :: rx where
  "changed_rx = rx_seq [rx_remote, rx_warning, Opt True (rx_seq [rx_itext ''backup:'', rx_spaces]),
     Grp 1 (rx_lazy rx_any), rx_text '':'', rx_spaces, rx_itext ''file changed while we backed it up'', rx_spaces, Stop False]"

definition changed_alt_rx :: rx where
  "changed_alt_rx = rx_seq [rx_remote, rx_warning, rx_itext ''file changed while we backed it up:'', rx_spaces,
     Grp 1 (rx_lazy rx_any), rx_spaces, Stop False]"

definition operation_rx :: rx where
  "operation_rx = rx_seq [rx_remote, rx_warning,
     Grp 1 (rx_alt (map rx_itext [''open'', ''stat'', ''lstat'', ''read'', ''scandir'', ''listdir'', ''access''])),
     rx_text '':'', rx_spaces, Grp 2 (rx_lazy rx_any), rx_text '':'', rx_spaces,
     Grp 3 (rx_seq [Opt True rx_errno, rx_lazy rx_any]), rx_spaces, Stop False]"

definition path_errno_rx :: rx where
  "path_errno_rx = rx_seq [rx_remote, rx_warning, Grp 1 (rx_lazy rx_any), rx_text '':'', rx_spaces,
     Grp 2 (rx_seq [rx_errno, rx_lazy rx_any]), rx_spaces, Stop False]"

definition python_error_rx :: rx where
  "python_error_rx = rx_seq [rx_alt (map rx_itext [''PermissionError'', ''OSError'', ''FileNotFoundError'']),
     rx_text '':'', rx_spaces, Grp 1 (rx_seq [rx_errno, rx_lazy rx_any]), rx_text '':'', rx_spaces,
     rx_of [CHR 0x22, CHR 0x27], Grp 2 (rx_lazy rx_any), rx_of [CHR 0x22, CHR 0x27], rx_spaces, Stop False]"

definition warning_prefix_rx :: rx where
  "warning_prefix_rx = rx_seq [rx_remote, rx_alt (map rx_itext [''warning'', ''warning:'', ''warn'']), rx_spaces,
     Opt True (rx_text '':''), rx_spaces, Grp 1 (rx_lazy rx_any), rx_spaces, Stop False]"

definition unmatched_pattern_rx :: rx where
  "unmatched_pattern_rx = rx_seq [rx_remote,
     Grp 1 (rx_seq [rx_alt [rx_itext ''Include'', rx_itext ''Exclude''], rx_itext '' pattern '', rx_lazy rx_any,
       rx_itext '' never matched'', Opt True (rx_text ''.'')]), rx_spaces, Stop False]"

definition termination_rx :: rx where
  "termination_rx = rx_seq [rx_itext ''terminating with '', rx_alt (map rx_itext [''warning'', ''success'', ''error'']),
     rx_itext '' status,'', rx_spaces, rx_itext ''rc'', rx_spaces, rx_plus rx_digit]"

section \<open>One line\<close>

definition clean_path :: "string \<Rightarrow> string" where
  "clean_path value = strip_by (\<lambda>c. c = CHR 0x22 \<or> c = CHR 0x27) (py_strip value)"

definition kind_for_reason :: "string \<Rightarrow> string" where
  "kind_for_reason reason =
     (let lower = py_casefold reason in
      if contains ''permission denied'' lower \<or> contains ''operation not permitted'' lower then ''permission''
      else if contains ''no such file or directory'' lower \<or> contains ''not found'' lower then ''missing''
      else if contains ''input/output error'' lower \<or> contains ''i/o error'' lower then ''io''
      else ''error'')"

type_synonym warning = "string \<times> string \<times> string"

definition changed_reason :: string where
  "changed_reason = ''file changed while we backed it up''"

definition first_match :: "(string \<Rightarrow> 'a option) list \<Rightarrow> string \<Rightarrow> 'a option" where
  "first_match fs s = (case filter (\<lambda>r. r \<noteq> None) (map (\<lambda>f. f s) fs) of [] \<Rightarrow> None | r # _ \<Rightarrow> r)"

text \<open>The recognisers in their order; the last but one falls through to the last when its message is empty or ends the run.\<close>

definition status_warning :: "string \<Rightarrow> warning option" where
  "status_warning line = map_option (\<lambda>g.
     if group 1 g = ''C'' then (''changed'', clean_path (group 2 g), changed_reason)
     else (''error'', clean_path (group 2 g), ''Borg reported a file access/read error'')) (re_match status_rx line)"

definition changed_warning :: "string \<Rightarrow> warning option" where
  "changed_warning line = map_option (\<lambda>g. (''changed'', clean_path (group 1 g), changed_reason))
     (first_match [re_match changed_rx, re_match changed_alt_rx] line)"

definition operation_warning :: "string \<Rightarrow> warning option" where
  "operation_warning line = map_option (\<lambda>g. let reason = py_strip (group 3 g) in
     (kind_for_reason reason, clean_path (group 2 g), group 1 g @ '': '' @ reason)) (re_match operation_rx line)"

definition python_warning :: "string \<Rightarrow> warning option" where
  "python_warning line = map_option (\<lambda>g. let reason = py_strip (group 1 g) in
     (kind_for_reason reason, clean_path (group 2 g), reason)) (re_match python_error_rx line)"

definition errno_warning :: "string \<Rightarrow> warning option" where
  "errno_warning line = map_option (\<lambda>g. let reason = py_strip (group 2 g) in
     (kind_for_reason reason, clean_path (group 1 g), reason)) (re_match path_errno_rx line)"

definition prefix_warning :: "string \<Rightarrow> warning option" where
  "prefix_warning line = Option.bind (re_match warning_prefix_rx line) (\<lambda>g.
     let message = py_strip (group 1 g) in
     if message \<noteq> [] \<and> re_search termination_rx message = None then Some (''other'', [], message) else None)"

definition unmatched_warning :: "string \<Rightarrow> warning option" where
  "unmatched_warning line =
     map_option (\<lambda>g. (''other'', [], py_strip (group 1 g))) (re_match unmatched_pattern_rx line)"

definition warning_item :: "string \<Rightarrow> warning option" where
  "warning_item raw =
     (let line = py_strip raw in
      if line = [] \<or> re_search termination_rx line \<noteq> None then None
      else first_match [status_warning, changed_warning, operation_warning, python_warning, errno_warning,
        prefix_warning, unmatched_warning] line)"

definition item_statuses :: string where
  "item_statuses = ''AMURdbchsfipx?+.-''"

definition can_skip_item_line :: "string \<Rightarrow> bool" where
  "can_skip_item_line line =
     (let first = dropWhile is_bspace line;
          candidate = (if lower_ascii (take 7 first) = ''remote:'' then dropWhile is_bspace (drop 7 first) else first) in
      2 \<le> length candidate \<and> hd candidate \<in> set item_statuses \<and> is_space (candidate ! 1))"

text \<open>The block pattern on the lines of a block without carriage returns.\<close>

definition quiet_line :: "string \<Rightarrow> bool" where
  "quiet_line line = (case item_split line of None \<Rightarrow> False
     | Some (f, r) \<Rightarrow> f \<in> set item_statuses \<and> carriage \<notin> set r)"

definition quiet_block :: "string \<Rightarrow> bool" where
  "quiet_block block \<longleftrightarrow> block \<noteq> [] \<and> list_all quiet_line (lf_lines block)"

end
