(* ===== verification/WarningCollector.thy ===== *)
theory WarningCollector
  imports Warnings
begin

text \<open>
  \<open>BorgWarningCollector\<close> of \<open>src/app/borg_warnings.py\<close>: the two streams of a run arrive in chunks that
  may be cut anywhere and interleave; warnings are collected once each and counted by kind.
\<close>

section \<open>The collector\<close>

record collector =
  wc_max_items :: nat
  wc_stdout :: string
  wc_stderr :: string
  wc_items :: "warning list"
  wc_seen :: "warning list"
  wc_counts :: "(string \<times> nat) list"
  wc_total :: nat

definition count_keys :: "string list" where
  "count_keys = [''changed'', ''permission'', ''missing'', ''io'', ''error'', ''other'', ''unknown'']"

definition new_collector :: "int \<Rightarrow> collector" where
  "new_collector max_items =
     \<lparr>wc_max_items = nat (max 1 max_items), wc_stdout = [], wc_stderr = [], wc_items = [], wc_seen = [],
      wc_counts = map (\<lambda>k. (k, 0)) count_keys, wc_total = 0\<rparr>"

definition warning_key :: "warning \<Rightarrow> warning" where
  "warning_key w =
     (case w of (kind, path, reason) \<Rightarrow> (if kind = [] then ''other'' else kind, clean_path path, py_strip reason))"

definition record_warning :: "warning \<Rightarrow> collector \<Rightarrow> collector \<times> bool" where
  "record_warning w c =
     (let key = warning_key w; kind = fst key in
      if key \<in> set (wc_seen c) then (c, False)
      else (c\<lparr>wc_seen := wc_seen c @ [key], wc_total := wc_total c + 1,
              wc_counts := dict_set kind ((case map_of (wc_counts c) kind of None \<Rightarrow> 0 | Some n \<Rightarrow> n) + 1) (wc_counts c),
              wc_items := (if length (wc_items c) < wc_max_items c then wc_items c @ [key] else wc_items c)\<rparr>, True))"

definition consume_text :: "string \<Rightarrow> collector \<Rightarrow> collector \<times> bool" where
  "consume_text line c = (case warning_item line of None \<Rightarrow> (c, False) | Some w \<Rightarrow> record_warning w c)"

fun consume_lines :: "(string \<Rightarrow> string) \<Rightarrow> string list \<Rightarrow> collector \<Rightarrow> collector \<times> bool" where
  "consume_lines dec [] c = (c, False)"
| "consume_lines dec (line # ls) c =
     (if can_skip_item_line line then consume_lines dec ls c
      else case consume_text (dec line) c of (c1, b1) \<Rightarrow>
        case consume_lines dec ls c1 of (c2, b2) \<Rightarrow> (c2, b1 \<or> b2))"

definition normalize_breaks :: "string \<Rightarrow> string" where
  "normalize_breaks data = py_replace [carriage] [newline] (py_replace [carriage, newline] [newline] data)"

datatype stream = Stdout | Stderr

definition buffer_of :: "stream \<Rightarrow> collector \<Rightarrow> string" where
  "buffer_of s c = (case s of Stdout \<Rightarrow> wc_stdout c | Stderr \<Rightarrow> wc_stderr c)"

definition set_buffer :: "stream \<Rightarrow> string \<Rightarrow> collector \<Rightarrow> collector" where
  "set_buffer s b c = (case s of Stdout \<Rightarrow> c\<lparr>wc_stdout := b\<rparr> | Stderr \<Rightarrow> c\<lparr>wc_stderr := b\<rparr>)"

definition collect_feed :: "(string \<Rightarrow> string) \<Rightarrow> stream \<times> string \<Rightarrow> collector \<Rightarrow> collector \<times> bool" where
  "collect_feed dec sd c =
     (case sd of (s, data) \<Rightarrow>
        if data = [] then (c, False)
        else (let combined = buffer_of s c @ normalize_breaks data; block = fst (cut_lines combined) in
          if newline \<notin> set combined then (set_buffer s combined c, False)
          else if quiet_block block then (set_buffer s (snd (cut_lines combined)) c, False)
          else consume_lines dec (lf_lines block) (set_buffer s (snd (cut_lines combined)) c)))"

definition finish_stream :: "(string \<Rightarrow> string) \<Rightarrow> stream \<Rightarrow> collector \<Rightarrow> collector \<times> bool" where
  "finish_stream dec s c =
     (case (if buffer_of s c = [] then (c, False) else consume_text (dec (buffer_of s c)) c) of
        (c1, b) \<Rightarrow> (set_buffer s [] c1, b))"

definition collect_finalize :: "(string \<Rightarrow> string) \<Rightarrow> collector \<Rightarrow> collector \<times> bool" where
  "collect_finalize dec c =
     (case finish_stream dec Stdout c of (c1, b1) \<Rightarrow>
        case finish_stream dec Stderr c1 of (c2, b2) \<Rightarrow> (c2, b1 \<or> b2))"

text \<open>A whole run: the chunks in the order of their arrival, then the end.\<close>

definition collect_all :: "(string \<Rightarrow> string) \<Rightarrow> int \<Rightarrow> (stream \<times> string) list \<Rightarrow> collector" where
  "collect_all dec max_items chunks =
     fst (collect_finalize dec (fold (\<lambda>sd c. fst (collect_feed dec sd c)) chunks (new_collector max_items)))"

section \<open>Summaries\<close>

record warning_summary =
  ws_total :: nat
  ws_items :: "warning list"
  ws_truncated :: nat
  ws_counts :: "(string \<times> nat) list"
  ws_unresolved :: bool

definition collector_summary :: "collector \<Rightarrow> warning_summary option" where
  "collector_summary c =
     (if wc_total c = 0 then None
      else Some \<lparr>ws_total = wc_total c, ws_items = wc_items c, ws_truncated = wc_total c - length (wc_items c),
        ws_counts = map (\<lambda>k. (k, case map_of (wc_counts c) k of None \<Rightarrow> 0 | Some n \<Rightarrow> n)) count_keys,
        ws_unresolved = False\<rparr>)"

definition parse_borg_warnings :: "(string \<Rightarrow> string) \<Rightarrow> string \<Rightarrow> int \<Rightarrow> warning_summary option" where
  "parse_borg_warnings dec text max_items =
     (if text = [] then None else collector_summary (collect_all dec max_items [(Stderr, text)]))"

definition unresolved_warning_summary :: warning_summary where
  "unresolved_warning_summary =
     \<lparr>ws_total = 1,
      ws_items = [(''unknown'', [],
        ''Borg returned warning status (rc 1), but no specific warning detail was present '' @
        ''in the captured Borg output.'')],
      ws_truncated = 0, ws_counts = map (\<lambda>k. (k, if k = ''unknown'' then 1 else 0)) count_keys,
      ws_unresolved = True\<rparr>"

text \<open>\<open>warning_diagnosis\<close> up to its texts: which of the four explanations is shown.\<close>

datatype diagnosis = Without_detail | Changed_files nat | Unreadable_files nat | Mixed_warnings nat

definition warning_diagnosis :: "warning_summary option \<Rightarrow> diagnosis option" where
  "warning_diagnosis summary =
     map_option (\<lambda>s.
       let count = (\<lambda>k. case map_of (ws_counts s) k of None \<Rightarrow> 0 | Some n \<Rightarrow> n);
           changed = count ''changed''; other = count ''other'';
           unreadable = sum_list (map count [''permission'', ''missing'', ''io'', ''error'']) in
       if ws_unresolved s \<or> count ''unknown'' \<noteq> 0 then Without_detail
       else if changed \<noteq> 0 \<and> unreadable = 0 \<and> other = 0 then Changed_files changed
       else if unreadable \<noteq> 0 \<and> changed = 0 \<and> other = 0 then Unreadable_files unreadable
       else Mixed_warnings (ws_total s)) summary"

section \<open>The fast path changes nothing\<close>

lemma consume_skipped: "list_all can_skip_item_line ls \<Longrightarrow> consume_lines dec ls c = (c, False)"
  by (induction ls) auto

lemma blank_bspace: "is_blank c \<Longrightarrow> is_bspace c"
  by (auto simp: is_blank_def is_bspace_def char_code_def)

lemma drop_bspace: "dropWhile is_blank s = x # t \<Longrightarrow> \<not> is_bspace x \<Longrightarrow> dropWhile is_bspace s = x # t"
  by (induction s) (auto split: if_splits dest: blank_bspace)

lemma status_not_space: "c \<in> set item_statuses \<Longrightarrow> \<not> is_bspace c"
proof -
  have "list_all (\<lambda>c. \<not> is_bspace c) item_statuses" by code_simp
  then show "c \<in> set item_statuses \<Longrightarrow> \<not> is_bspace c" by (auto simp: list_all_iff)
qed

lemma blank_space: "is_blank c \<Longrightarrow> is_space c"
  by (auto simp: is_blank_def is_space_def char_code_def)

lemma quiet_line_skipped:
  assumes "quiet_line line"
  shows "can_skip_item_line line"
proof -
  obtain f r where fr: "item_split line = Some (f, r)" and f: "f \<in> set item_statuses"
    using assms by (auto simp: quiet_line_def split: option.splits)
  then obtain c r' where head: "item_head line = f # c # r'" and c: "is_blank c"
    by (auto simp: item_split_def split: list.splits if_splits)
  define t where "t = dropWhile is_blank line"
  have fs: "\<not> is_bspace f" by (rule status_not_space [OF f])
  show ?thesis
  proof (cases "lower_ascii (take 7 t) = ''remote:''")
    case True
    then have d: "dropWhile is_blank (drop 7 t) = f # c # r'" using head by (simp add: item_head_def t_def Let_def)
    have "dropWhile is_bspace (drop 7 t) = f # c # r'"
      by (rule drop_bspace [OF d fs])
    moreover have "dropWhile is_bspace line = t"
    proof -
      obtain x xs where x: "t = x # xs" using True by (cases t) (auto simp: lower_ascii_def)
      have "lower_ascii [x] = ''r''" using True by (simp add: x lower_ascii_def)
      then have "\<not> is_bspace x"
        by (auto simp: lower_ascii_def is_bspace_def is_upper_def char_code_def Let_def split: if_splits)
      then show ?thesis using drop_bspace [of line x xs] x t_def by simp
    qed
    ultimately show ?thesis
      using True f c by (simp add: can_skip_item_line_def Let_def blank_space)
  next
    case False
    then have t: "t = f # c # r'" using head by (simp add: item_head_def t_def Let_def)
    have d: "dropWhile is_bspace line = f # c # r'"
      by (rule drop_bspace [OF _ fs]) (simp add: t t_def [symmetric])
    then show ?thesis using False f c by (simp add: can_skip_item_line_def t Let_def blank_space)
  qed
qed

lemma quiet_block_skipped: "quiet_block b \<Longrightarrow> consume_lines dec (lf_lines b) c = (c, False)"
  by (intro consume_skipped) (auto simp: quiet_block_def list_all_iff quiet_line_skipped)

lemma cut_lines_no_newline: "newline \<notin> set s \<Longrightarrow> cut_lines s = ([], s)"
  by (rule cut_lines_no_lf)

text \<open>Feeding a chunk is consuming the lines it completes.\<close>

lemma collect_feed_lines:
  "fst (collect_feed dec (s, data) c) =
     fst (consume_lines dec (lf_lines (fst (cut_lines (buffer_of s c @ normalize_breaks data))))
       (set_buffer s (snd (cut_lines (buffer_of s c @ normalize_breaks data))) c))"
  if "newline \<notin> set (buffer_of s c)"
proof (cases "data = []")
  case True
  have "set_buffer s (buffer_of s c) c = c" by (cases s) (simp_all add: buffer_of_def set_buffer_def)
  then show ?thesis
    using True that by (simp add: collect_feed_def normalize_breaks_def cut_lines_no_newline)
next
  case False
  show ?thesis
  proof (cases "newline \<in> set (buffer_of s c @ normalize_breaks data)")
    case True
    then show ?thesis using False quiet_block_skipped by (simp add: collect_feed_def Let_def)
  next
    case nl: False
    then show ?thesis using False by (simp add: collect_feed_def Let_def cut_lines_no_newline)
  qed
qed

section \<open>What is collected\<close>

definition add_key :: "warning \<Rightarrow> collector \<Rightarrow> collector" where
  "add_key key c =
     (if key \<in> set (wc_seen c) then c
      else c\<lparr>wc_seen := wc_seen c @ [key], wc_total := wc_total c + 1,
             wc_counts := dict_set (fst key) ((case map_of (wc_counts c) (fst key) of None \<Rightarrow> 0 | Some n \<Rightarrow> n) + 1) (wc_counts c),
             wc_items := (if length (wc_items c) < wc_max_items c then wc_items c @ [key] else wc_items c)\<rparr>)"

definition text_keys :: "string \<Rightarrow> warning list" where
  "text_keys line = (case warning_item line of None \<Rightarrow> [] | Some w \<Rightarrow> [warning_key w])"

definition line_keys :: "(string \<Rightarrow> string) \<Rightarrow> string list \<Rightarrow> warning list" where
  "line_keys dec ls = concat (map (\<lambda>l. if can_skip_item_line l then [] else text_keys (dec l)) ls)"

lemma record_add_key: "fst (record_warning w c) = add_key (warning_key w) c"
  by (simp add: record_warning_def add_key_def Let_def)

lemma consume_text_keys: "fst (consume_text line c) = fold add_key (text_keys line) c"
  by (simp add: consume_text_def text_keys_def record_add_key split: option.split)

lemma consume_lines_keys: "fst (consume_lines dec ls c) = fold add_key (line_keys dec ls) c"
proof (induction ls arbitrary: c)
  case (Cons l ls)
  show ?case
    using Cons.IH consume_text_keys [of "dec l" c]
    by (auto simp: line_keys_def split: prod.split) (metis fst_conv)
qed (simp add: line_keys_def)

text \<open>The counters agree with the set of warnings seen; the list of items is its beginning.\<close>

definition collector_ok :: "collector \<Rightarrow> bool" where
  "collector_ok c \<longleftrightarrow>
     distinct (wc_seen c) \<and> wc_total c = length (wc_seen c) \<and> wc_items c = take (wc_max_items c) (wc_seen c) \<and>
     (\<forall>k. (case map_of (wc_counts c) k of None \<Rightarrow> 0 | Some n \<Rightarrow> n) = length (filter (\<lambda>w. fst w = k) (wc_seen c)))"

lemma collector_ok_new: "collector_ok (new_collector n)"
  by (auto simp: collector_ok_def new_collector_def count_keys_def split: option.split)

lemma collector_ok_add: "collector_ok c \<Longrightarrow> collector_ok (add_key k c)"
proof -
  assume ok: "collector_ok c"
  show ?thesis
  proof (cases "k \<in> set (wc_seen c)")
    case True
    then show ?thesis using ok by (simp add: add_key_def)
  next
    case False
    have items: "(if length (wc_items c) < wc_max_items c then wc_items c @ [k] else wc_items c) =
        take (wc_max_items c) (wc_seen c @ [k])"
      using ok by (auto simp: collector_ok_def)
    show ?thesis
      using ok False by (auto simp: collector_ok_def add_key_def items [unfolded collector_ok_def] split: option.splits)
  qed
qed

lemma collector_ok_fold: "collector_ok c \<Longrightarrow> collector_ok (fold add_key ks c)"
  by (induction ks arbitrary: c) (auto simp: collector_ok_add)

lemma seen_add: "set (wc_seen (add_key k c)) = insert k (set (wc_seen c))"
  by (auto simp: add_key_def)

lemma seen_fold: "set (wc_seen (fold add_key ks c)) = set (wc_seen c) \<union> set ks"
  by (induction ks arbitrary: c) (auto simp: seen_add)

lemma add_key_fields [simp]:
  "wc_max_items (add_key k c) = wc_max_items c" "buffer_of s (add_key k c) = buffer_of s c"
  by (auto simp: add_key_def buffer_of_def split: stream.split)

lemma fold_add_fields [simp]:
  "wc_max_items (fold add_key ks c) = wc_max_items c" "buffer_of s (fold add_key ks c) = buffer_of s c"
  by (induction ks arbitrary: c) auto

lemma set_buffer_fields [simp]:
  "wc_seen (set_buffer s b c) = wc_seen c" "wc_max_items (set_buffer s b c) = wc_max_items c"
  "buffer_of s' (set_buffer s b c) = (if s' = s then b else buffer_of s' c)"
  "collector_ok (set_buffer s b c) \<longleftrightarrow> collector_ok c"
  by (cases s; cases s'; simp add: set_buffer_def buffer_of_def collector_ok_def)+

section \<open>Line breaks\<close>

text \<open>Every carriage return as a line feed: the same text lines, up to empty ones.\<close>

definition breaks :: "string \<Rightarrow> string" where
  "breaks s = map (\<lambda>c. if c = carriage then newline else c) s"

lemma breaks_append: "breaks (a @ b) = breaks a @ breaks b"
  by (simp add: breaks_def)

lemma normalize_nil: "normalize_breaks [] = []"
  by (simp add: normalize_breaks_def)

lemma normalize_both: "normalize_breaks (carriage # newline # s) = newline # normalize_breaks s"
  by (simp add: normalize_breaks_def starts_with_def)

lemma normalize_carriage: "s = [] \<or> hd s \<noteq> newline \<Longrightarrow> normalize_breaks (carriage # s) = newline # normalize_breaks s"
  by (cases s) (simp_all add: normalize_breaks_def starts_with_def)

lemma normalize_other: "c \<noteq> carriage \<Longrightarrow> normalize_breaks (c # s) = c # normalize_breaks s"
  by (simp add: normalize_breaks_def starts_with_def)

definition text_lines :: "string list \<Rightarrow> string list" where
  "text_lines ls = filter (\<lambda>l. l \<noteq> []) ls"

lemma cut_at_newline:
  "cut_lines (b @ newline # y) = (b @ newline # fst (cut_lines y), snd (cut_lines y))"
proof (rule cut_lines_unique)
  show "b @ newline # y = (b @ newline # fst (cut_lines y)) @ snd (cut_lines y)"
    using cut_lines_append [of y] by simp
  show "ends_line (b @ newline # fst (cut_lines y))"
    using cut_lines_complete [of y] by (auto simp: ends_line_def)
qed (rule cut_lines_rest)

lemma lf_lines_newline: "newline \<notin> set b \<Longrightarrow> lf_lines (b @ newline # z) = b # lf_lines z"
  by (induction b) auto

text \<open>The unfinished line and the text lines of a buffer and a chunk.\<close>

definition same_lines :: "string \<Rightarrow> string \<Rightarrow> bool" where
  "same_lines x y \<longleftrightarrow> snd (cut_lines x) = snd (cut_lines y) \<and>
     text_lines (lf_lines (fst (cut_lines x))) = text_lines (lf_lines (fst (cut_lines y)))"

lemma same_lines_newline:
  "newline \<notin> set b \<Longrightarrow> same_lines x y \<Longrightarrow> same_lines (b @ newline # x) (b @ newline # y)"
  by (simp add: same_lines_def cut_at_newline lf_lines_newline text_lines_def)

lemma same_lines_double:
  "newline \<notin> set b \<Longrightarrow> same_lines x y \<Longrightarrow> same_lines (b @ newline # x) (b @ newline # newline # y)"
  using cut_at_newline [of "[]" y] lf_lines_newline [of "[]"]
  by (simp add: same_lines_def cut_at_newline lf_lines_newline text_lines_def)

lemma normalize_same_lines: "newline \<notin> set b \<Longrightarrow> same_lines (b @ normalize_breaks x) (b @ breaks x)"
proof (induction x arbitrary: b rule: length_induct)
  case (1 x)
  note IH = 1(1)[rule_format] and b = 1(2)
  show ?case
  proof (cases x)
    case Nil
    then show ?thesis by (simp add: normalize_nil breaks_def same_lines_def)
  next
    case (Cons c s)
    show ?thesis
    proof (cases "c = carriage")
      case True
      show ?thesis
      proof (cases "s \<noteq> [] \<and> hd s = newline")
        case True
        then obtain t where t: "s = newline # t" by (cases s) auto
        have "same_lines ([] @ normalize_breaks t) ([] @ breaks t)" by (rule IH) (simp_all add: Cons t)
        then show ?thesis
          using \<open>c = carriage\<close> same_lines_double [OF b] by (simp add: Cons t normalize_both breaks_def)
      next
        case False
        have "same_lines ([] @ normalize_breaks s) ([] @ breaks s)" by (rule IH) (simp_all add: Cons)
        then show ?thesis
          using True False same_lines_newline [OF b] normalize_carriage [of s] by (auto simp: Cons breaks_def)
      qed
    next
      case False
      show ?thesis
      proof (cases "c = newline")
        case True
        have "same_lines ([] @ normalize_breaks s) ([] @ breaks s)" by (rule IH) (simp_all add: Cons)
        then show ?thesis
          using True same_lines_newline [OF b] normalize_other [of c s] by (simp add: Cons breaks_def)
      next
        case nl: False
        have "same_lines ((b @ [c]) @ normalize_breaks s) ((b @ [c]) @ breaks s)"
          using b nl by (intro IH) (simp_all add: Cons)
        then show ?thesis using False normalize_other [of c s] by (simp add: Cons breaks_def)
      qed
    qed
  qed
qed

section \<open>Chunks and interleaving do not matter\<close>

definition stream_data :: "stream \<Rightarrow> (stream \<times> string) list \<Rightarrow> string" where
  "stream_data s chunks = concat (map snd (filter (\<lambda>sd. fst sd = s) chunks))"

definition fed :: "(string \<Rightarrow> string) \<Rightarrow> (stream \<times> string) list \<Rightarrow> collector \<Rightarrow> collector" where
  "fed dec chunks c = fold (\<lambda>sd c. fst (collect_feed dec sd c)) chunks c"

text \<open>The warnings of the finished lines of a stream, and of the whole stream with its last line.\<close>

definition line_warnings :: "(string \<Rightarrow> string) \<Rightarrow> string \<Rightarrow> warning list" where
  "line_warnings dec s = line_keys dec (lf_lines (fst (cut_lines (breaks s))))"

definition rest_warnings :: "(string \<Rightarrow> string) \<Rightarrow> string \<Rightarrow> warning list" where
  "rest_warnings dec s = (if snd (cut_lines (breaks s)) = [] then [] else text_keys (dec (snd (cut_lines (breaks s)))))"

definition stream_warnings :: "(string \<Rightarrow> string) \<Rightarrow> string \<Rightarrow> warning list" where
  "stream_warnings dec s = line_warnings dec s @ rest_warnings dec s"

lemma stream_data_snoc:
  "stream_data s (cs @ [(t, d)]) = (if t = s then stream_data s cs @ d else stream_data s cs)"
  by (simp add: stream_data_def)

lemma line_keys_append: "line_keys dec (a @ b) = line_keys dec a @ line_keys dec b"
  by (simp add: line_keys_def)

lemma warning_item_nil: "warning_item [] = None"
  by (simp add: warning_item_def py_strip_def strip_by_def lstrip_by_def rstrip_by_def)

lemma line_keys_text_lines: "dec [] = [] \<Longrightarrow> line_keys dec (text_lines ls) = line_keys dec ls"
  by (induction ls) (auto simp: line_keys_def text_lines_def text_keys_def warning_item_nil)

lemma same_lines_keys:
  assumes "same_lines x y" and "dec [] = []"
  shows "line_keys dec (lf_lines (fst (cut_lines x))) = line_keys dec (lf_lines (fst (cut_lines y)))"
  using assms line_keys_text_lines [of dec] by (metis same_lines_def)

lemma line_warnings_append:
  assumes "dec [] = []"
  shows "line_warnings dec (a @ x) = line_warnings dec a @
     line_keys dec (lf_lines (fst (cut_lines (snd (cut_lines (breaks a)) @ normalize_breaks x))))"
  using same_lines_keys [where dec = dec, OF normalize_same_lines assms, of "snd (cut_lines (breaks a))" x]
  by (simp add: line_warnings_def breaks_append cut_lines_cat [of "breaks a"] lf_lines_cat cut_lines_complete
      line_keys_append cut_lines_rest)

lemma rest_append:
  "snd (cut_lines (breaks (a @ x))) = snd (cut_lines (snd (cut_lines (breaks a)) @ normalize_breaks x))"
  using normalize_same_lines [of "snd (cut_lines (breaks a))" x]
  by (simp add: same_lines_def breaks_append cut_lines_cat [of "breaks a"] cut_lines_rest)

lemma fed_buffer: "buffer_of s (fed dec cs (new_collector n)) = snd (cut_lines (breaks (stream_data s cs)))"
proof (induction cs arbitrary: s rule: rev_induct)
  case Nil
  show ?case
    by (cases s) (simp_all add: fed_def stream_data_def new_collector_def buffer_of_def breaks_def cut_lines_def)
next
  case (snoc sd cs)
  obtain t d where sd: "sd = (t, d)" by fastforce
  have "newline \<notin> set (buffer_of t (fed dec cs (new_collector n)))" by (simp add: snoc.IH cut_lines_rest)
  then show ?case
    using snoc.IH [of s] snoc.IH [of t]
    by (auto simp: fed_def sd collect_feed_lines consume_lines_keys stream_data_snoc rest_append)
qed

lemma fed_seen:
  assumes "dec [] = []"
  shows "set (wc_seen (fed dec cs (new_collector n))) =
     set (line_warnings dec (stream_data Stdout cs)) \<union> set (line_warnings dec (stream_data Stderr cs))"
proof (induction cs rule: rev_induct)
  case Nil
  show ?case
    by (simp add: fed_def stream_data_def new_collector_def line_warnings_def breaks_def cut_lines_def line_keys_def)
next
  case (snoc sd cs)
  obtain t d where sd: "sd = (t, d)" by fastforce
  let ?c = "fed dec cs (new_collector n)"
  have nl: "newline \<notin> set (buffer_of t ?c)" by (simp add: fed_buffer cut_lines_rest)
  have step: "fed dec (cs @ [(t, d)]) (new_collector n) = fst (collect_feed dec (t, d) ?c)"
    by (simp add: fed_def)
  have "set (wc_seen (fst (collect_feed dec (t, d) ?c))) = set (wc_seen ?c) \<union>
      set (line_keys dec (lf_lines (fst (cut_lines (snd (cut_lines (breaks (stream_data t cs))) @ normalize_breaks d)))))"
    using nl by (simp add: collect_feed_lines consume_lines_keys seen_fold fed_buffer)
  then show ?case
    unfolding sd step using snoc.IH by (cases t) (simp_all add: stream_data_snoc Un_ac line_warnings_append [where dec = dec, OF assms])
qed

lemma collector_ok_fed: "collector_ok (fed dec cs (new_collector n)) \<and>
    wc_max_items (fed dec cs (new_collector n)) = nat (max 1 n)"
proof (induction cs rule: rev_induct)
  case Nil
  show ?case by (simp add: fed_def collector_ok_new) (simp add: new_collector_def)
next
  case (snoc sd cs)
  obtain t d where sd: "sd = (t, d)" by fastforce
  have "newline \<notin> set (buffer_of t (fed dec cs (new_collector n)))" by (simp add: fed_buffer cut_lines_rest)
  then show ?case
    using snoc.IH by (simp add: fed_def sd collect_feed_lines consume_lines_keys collector_ok_fold)
qed

lemma finish_stream_fst:
  "fst (finish_stream dec s c) =
     set_buffer s [] (fold add_key (if buffer_of s c = [] then [] else text_keys (dec (buffer_of s c))) c)"
  using consume_text_keys [of "dec (buffer_of s c)" c] by (simp add: finish_stream_def split_beta)

lemma collect_all_finish:
  "collect_all dec n cs = fst (finish_stream dec Stderr (fst (finish_stream dec Stdout (fed dec cs (new_collector n)))))"
  by (simp add: collect_all_def collect_finalize_def fed_def split_beta)

lemma collect_all_ok: "collector_ok (collect_all dec n cs)" "wc_max_items (collect_all dec n cs) = nat (max 1 n)"
  using collector_ok_fed [of dec cs n]
  by (simp_all add: collect_all_finish finish_stream_fst collector_ok_fold)

lemma collect_all_seen:
  assumes "dec [] = []"
  shows "set (wc_seen (collect_all dec n cs)) =
     set (stream_warnings dec (stream_data Stdout cs)) \<union> set (stream_warnings dec (stream_data Stderr cs))"
  using fed_seen [where dec = dec, OF assms, of cs n]
  by (auto simp: collect_all_finish finish_stream_fst seen_fold fed_buffer stream_warnings_def rest_warnings_def
      split: if_splits)

lemma count_of_set:
  assumes "distinct xs"
  shows "length (filter P xs) = card {x \<in> set xs. P x}"
  using distinct_card [OF distinct_filter [OF assms, of P]] by simp

text \<open>
  C36: the warnings counted of a run are the distinct warnings of the lines of its two streams: however
  the output is cut into chunks, and however the chunks of the two streams interleave, the total and
  the count of every kind are the same, and the items shown are distinct warnings of the run, all of
  them while they fit into the limit. Neither a block skipped unread nor a line break cut in two loses
  or invents a warning.
\<close>

theorem warnings_independent_of_chunks:
  fixes dec :: "string \<Rightarrow> string"
  assumes "dec [] = []"
  shows "let c = collect_all dec n cs;
             found = set (stream_warnings dec (stream_data Stdout cs)) \<union> set (stream_warnings dec (stream_data Stderr cs)) in
    wc_total c = card found \<and>
    (\<forall>k. (case map_of (wc_counts c) k of None \<Rightarrow> 0 | Some m \<Rightarrow> m) = card {w \<in> found. fst w = k}) \<and>
    set (wc_items c) \<subseteq> found \<and> distinct (wc_items c) \<and> length (wc_items c) = min (card found) (nat (max 1 n))"
proof -
  let ?c = "collect_all dec n cs"
  have ok: "distinct (wc_seen ?c)" "wc_total ?c = length (wc_seen ?c)" "wc_items ?c = take (nat (max 1 n)) (wc_seen ?c)"
    and counts: "\<And>k. (case map_of (wc_counts ?c) k of None \<Rightarrow> 0 | Some n \<Rightarrow> n) = length (filter (\<lambda>w. fst w = k) (wc_seen ?c))"
    using collect_all_ok [of dec n cs] by (auto simp: collector_ok_def)
  have "card (set (wc_seen ?c)) = length (wc_seen ?c)" by (rule distinct_card [OF ok(1)])
  then show ?thesis
    using set_take_subset [of "nat (max 1 n)" "wc_seen ?c"]
    unfolding Let_def collect_all_seen [where dec = dec, OF assms, of n cs, symmetric]
    by (simp add: counts count_of_set [OF ok(1)] ok)
qed

definition sample_chunks :: "(stream \<times> string) list" where
  "sample_chunks = [(Stdout, ''C /a''), (Stderr, ''E /''), (Stdout, [carriage, newline] @ ''A /b''), (Stderr, ''x'' @ [newline]),
     (Stdout, [newline])]"

theorem warnings_independent_of_chunks_witness:
  "(\<lambda>x. x) [] = ([] :: string) \<and>
   wc_total (collect_all (\<lambda>x. x) 1 sample_chunks) =
     card (set (stream_warnings (\<lambda>x. x) (stream_data Stdout sample_chunks)) \<union>
       set (stream_warnings (\<lambda>x. x) (stream_data Stderr sample_chunks)))"
  using warnings_independent_of_chunks [of "\<lambda>x. x" 1 sample_chunks] by (simp add: Let_def)

end
