(* ===== verification/LogFilter.thy ===== *)
theory LogFilter
  imports Regex "HOL-Library.Sublist"
begin

text \<open>
  The views of a log in \<open>src/app/log_filter.py\<close>: the preview without the file list of \<open>borg create --list\<close>
  and the errors of a log, with the properties that say which lines they keep.
\<close>

section \<open>Lines of a text\<close>

text \<open>\<open>str.splitlines\<close> of a text without carriage returns, below code point 256.\<close>

definition is_line_break :: "char \<Rightarrow> bool" where
  "is_line_break c = (let n = char_code c in (10 \<le> n \<and> n \<le> 13) \<or> (28 \<le> n \<and> n \<le> 30) \<or> n = 133)"

fun text_rows :: "string \<Rightarrow> string list" where
  "text_rows [] = []"
| "text_rows (c # s) =
     (if is_line_break c then [] # text_rows s
      else case text_rows s of [] \<Rightarrow> [[c]] | w # ws \<Rightarrow> (c # w) # ws)"

definition unix_breaks :: "string \<Rightarrow> string" where
  "unix_breaks text = py_replace [carriage] [newline] (py_replace [carriage, newline] [newline] text)"

text \<open>The right-stripped lines both views start from.\<close>

definition log_rows :: "string \<Rightarrow> string list" where
  "log_rows text = map (rstrip_by is_space) (text_rows (unix_breaks text))"

section \<open>Patterns\<close>

definition file_status_rx :: rx where
  "file_status_rx = rx_seq [rx_spaces, Opt True (rx_seq [rx_itext ''Remote:'', rx_spaces]),
     Grp 1 (rx_of ''AMUCERdbchsfipx?+-.''), rx_plus rx_space, One (\<lambda>c. \<not> is_space c)]"

definition file_status :: "string \<Rightarrow> string option" where
  "file_status line = map_option (group 1) (re_match file_status_rx line)"

definition permission_error_rx :: rx where
  "permission_error_rx = rx_seq [Opt True (rx_seq [rx_itext ''PermissionError:'', rx_spaces]),
     rx_itext ''[Errno 13] Permission denied:'', rx_spaces, rx_of [CHR 0x22, CHR 0x27],
     rx_plus (rx_not_of [CHR 0x22, CHR 0x27]), rx_of [CHR 0x22, CHR 0x27]]"

text \<open>\<open>findall\<close> of a pattern without an empty match: the matched texts.\<close>

function find_texts :: "rx \<Rightarrow> string \<Rightarrow> string list" where
  "find_texts r s =
     (case rx_matches r (s, []) of
        t # _ \<Rightarrow> (if length (fst t) < length s then take (length s - length (fst t)) s # find_texts r (fst t)
                 else case s of [] \<Rightarrow> [] | c # s' \<Rightarrow> find_texts r s')
      | [] \<Rightarrow> (case s of [] \<Rightarrow> [] | c # s' \<Rightarrow> find_texts r s'))"
  by pat_completeness auto
termination by (relation "measure (length \<circ> snd)") auto

declare find_texts.simps [simp del]

definition error_markers :: "string list" where
  "error_markers =
    [''error'', ''failed'', ''failure'', ''exception'', ''traceback'', ''permission denied'',
     ''connection closed'', ''connection refused'', ''timed out'', ''timeout'', ''no such file'',
     ''not found'', ''repository does not exist'', ''not a borg repository'', ''passphrase'',
     ''integrity'', ''lock timeout'', ''failed to create/acquire the lock'', ''read-only'',
     ''no space left'', ''disk full'', ''terminating with'', ''critical'', ''fatal'', ''invalid'',
     ''refused'', ''denied'', ''unreachable'', ''corrupt'', ''damaged'', ''unsupported'',
     ''cannot'', ''can'' @ [CHR 0x27] @ ''t'', ''could not'', ''unable'', ''not available'', ''authentication'',
     ''host key verification failed'', ''network is unreachable'', ''broken pipe'',
     ''file changed while we backed it up'', ''errno'']"

definition trace_context_prefixes :: "string list" where
  "trace_context_prefixes =
    [''file '', ''platform:'', ''linux:'', ''borg:'', ''pid:'', ''cwd:'', ''sys.argv:'',
     ''ssh_original_command:'', ''during handling of the above exception'', ''the above exception'']"

definition is_file_activity :: "string \<Rightarrow> bool" where
  "is_file_activity line = (case file_status line of None \<Rightarrow> False | Some st \<Rightarrow> st \<noteq> ''C'' \<and> st \<noteq> ''E'')"

definition trace_context :: "string \<Rightarrow> bool" where
  "trace_context lower = list_ex (\<lambda>p. starts_with p lower) trace_context_prefixes"

section \<open>The preview without the file list\<close>

text \<open>\<open>rows\<close> already kept, newest last; an empty line only after a line with text.\<close>

definition keep_blank :: "string list \<Rightarrow> string list" where
  "keep_blank kept = (if kept \<noteq> [] \<and> last kept \<noteq> [] then kept @ [[]] else kept)"

definition keep_row :: "string list \<Rightarrow> string \<Rightarrow> string list" where
  "keep_row kept line =
     (if file_status line \<noteq> None then kept else if line = [] then keep_blank kept else kept @ [line])"

definition trim_rows :: "string list \<Rightarrow> string list" where
  "trim_rows ls = rev (dropWhile (\<lambda>l. l = []) (rev (dropWhile (\<lambda>l. l = []) ls)))"

definition preview_rows :: "string \<Rightarrow> string list" where
  "preview_rows text = trim_rows (foldl keep_row [] (log_rows text))"

definition strip_borg_item_lines :: "string option \<Rightarrow> string" where
  "strip_borg_item_lines text = (if truthy text then join_with [newline] (preview_rows (the text)) else [])"

section \<open>The errors of a log\<close>

definition success_row :: "string \<Rightarrow> bool" where
  "success_row lower = (contains ''terminating with success status'' lower \<or> lower \<in> {''success'', ''rc 0''})"

text \<open>One line: whether a traceback is being copied, and the lines selected so far.\<close>

definition select_row :: "bool \<times> string list \<Rightarrow> string \<Rightarrow> bool \<times> string list" where
  "select_row st line =
     (case st of (tracing, selected) \<Rightarrow>
       let lower = py_lower (py_strip line) in
       if py_strip line = [] then (tracing, keep_blank selected)
       else if is_file_activity line then (tracing, selected)
       else if success_row lower then (tracing, selected)
       else if starts_with ''traceback (most recent call last):'' lower then (True, selected @ [line])
       else if tracing then
         (\<not> (\<not> list_all is_space (take 1 line) \<and> CHR 0x3A \<in> set line \<and> \<not> trace_context lower), selected @ [line])
       else if file_status line = Some ''C'' \<or> file_status line = Some ''E'' then (tracing, selected @ [line])
       else if list_ex (\<lambda>m. contains m lower) error_markers then (tracing, selected @ [line])
       else if trace_context lower \<and> selected \<noteq> [] then (tracing, selected @ [line])
       else (tracing, selected))"

definition clean_row :: "string list \<Rightarrow> string \<Rightarrow> string list" where
  "clean_row cleaned line =
     (if line = [] then keep_blank cleaned
      else if cleaned \<noteq> [] \<and> last cleaned = line then cleaned else cleaned @ [line])"

definition error_rows :: "string \<Rightarrow> string list" where
  "error_rows text = trim_rows (foldl clean_row [] (snd (foldl select_row (False, []) (log_rows text))))"

definition extract_error_output :: "string option \<Rightarrow> string" where
  "extract_error_output text =
     (if \<not> truthy text then []
      else case find_texts permission_error_rx (unix_breaks (the text)) of
        [] \<Rightarrow> join_with [newline] (error_rows (the text))
      | p # ps \<Rightarrow> last (p # ps))"

section \<open>Which lines are kept\<close>

text \<open>Lines with text, in their order.\<close>

definition text_of :: "string list \<Rightarrow> string list" where
  "text_of ls = filter (\<lambda>l. l \<noteq> []) ls"

lemma text_of_append [simp]: "text_of (a @ b) = text_of a @ text_of b"
  by (simp add: text_of_def)

lemma text_of_simps [simp]: "text_of [] = []" "text_of (l # ls) = (if l = [] then text_of ls else l # text_of ls)"
  by (simp_all add: text_of_def)

lemma text_of_dropWhile: "text_of (dropWhile (\<lambda>l. l = []) ls) = text_of ls"
  by (induction ls) auto

lemma text_of_rev: "text_of (rev ls) = rev (text_of ls)"
  by (simp add: text_of_def rev_filter)

lemma text_of_trim [simp]: "text_of (trim_rows ls) = text_of ls"
  by (simp add: trim_rows_def text_of_rev text_of_dropWhile)

lemma text_of_keep_blank [simp]: "text_of (keep_blank ls) = text_of ls"
  by (simp add: keep_blank_def)

lemma trim_rows_ends: "trim_rows ls \<noteq> [] \<Longrightarrow> hd (trim_rows ls) \<noteq> [] \<and> last (trim_rows ls) \<noteq> []"
proof -
  let ?d = "dropWhile (\<lambda>l. l = []) ls"
  assume ne: "trim_rows ls \<noteq> []"
  then have r: "dropWhile (\<lambda>l. l = []) (rev ?d) \<noteq> []" by (simp add: trim_rows_def)
  have "last (trim_rows ls) = hd (dropWhile (\<lambda>l. l = []) (rev ?d))"
    using r by (simp add: trim_rows_def last_rev)
  moreover have "hd (dropWhile (\<lambda>l. l = []) (rev ?d)) \<noteq> []" using hd_dropWhile [OF r] by simp
  moreover have "hd (trim_rows ls) \<noteq> []"
  proof -
    obtain z where z: "?d = trim_rows ls @ z"
      using takeWhile_dropWhile_id [of "\<lambda>l. l = []" "rev ?d"] unfolding trim_rows_def
      by (metis rev_append rev_rev_ident)
    then have "?d \<noteq> []" "hd ?d = hd (trim_rows ls)" using ne by auto
    then show ?thesis using hd_dropWhile [of "\<lambda>l. l = []" ls] by simp
  qed
  ultimately show ?thesis by simp
qed

lemma preview_fold_text:
  "text_of (foldl keep_row ks ls) = text_of ks @ text_of (filter (\<lambda>l. file_status l = None) ls)"
proof (induction ls arbitrary: ks)
  case (Cons l ls)
  then show ?case by (auto simp: keep_row_def)
qed simp

lemma preview_text: "text_of (preview_rows t) = filter (\<lambda>l. file_status l = None \<and> l \<noteq> []) (log_rows t)"
  by (simp add: preview_rows_def preview_fold_text) (simp add: text_of_def)

text \<open>The lines a fold over \<open>select_row\<close> adds are lines of the log in their order.\<close>

definition wanted_row :: "string \<Rightarrow> bool" where
  "wanted_row line \<longleftrightarrow> line \<noteq> [] \<and> \<not> is_file_activity line \<and> \<not> success_row (py_lower (py_strip line)) \<and>
     (file_status line = Some ''C'' \<or> file_status line = Some ''E'' \<or>
      list_ex (\<lambda>m. contains m (py_lower (py_strip line))) error_markers)"

lemma select_row_cases:
  assumes "py_strip line = [] \<longrightarrow> line = []"
  shows "(\<exists>b. text_of (snd (select_row (tr, sel) line)) = text_of sel @ (if b then [line] else []) \<and>
     (b \<longrightarrow> line \<noteq> [] \<and> \<not> is_file_activity line) \<and> (wanted_row line \<longrightarrow> b))"
proof (cases "line = []")
  case True
  then show ?thesis
    by (intro exI [of _ False]) (simp add: select_row_def wanted_row_def py_strip_def strip_by_def lstrip_by_def rstrip_by_def)
next
  case False
  then have "py_strip line \<noteq> []" using assms by simp
  then show ?thesis
    using False
    by (intro exI [of _ "snd (select_row (tr, sel) line) = sel @ [line]"]) (simp add: select_row_def Let_def wanted_row_def)
qed

lemma select_fold_text:
  assumes "\<forall>l \<in> set ls. py_strip l = [] \<longrightarrow> l = []"
  shows "\<exists>bs. length bs = length ls \<and>
     text_of (snd (foldl select_row st ls)) = text_of (snd st) @ map fst (filter snd (zip ls bs)) \<and>
     (\<forall>(l, b) \<in> set (zip ls bs). (b \<longrightarrow> l \<noteq> [] \<and> \<not> is_file_activity l) \<and> (wanted_row l \<longrightarrow> b))"
  using assms
proof (induction ls arbitrary: st)
  case (Cons l ls)
  obtain tr sel where st: "st = (tr, sel)" by fastforce
  obtain b where b: "text_of (snd (select_row (tr, sel) l)) = text_of sel @ (if b then [l] else [])"
      "b \<longrightarrow> l \<noteq> [] \<and> \<not> is_file_activity l" "wanted_row l \<longrightarrow> b"
    using select_row_cases [of l tr sel] Cons.prems by auto
  obtain bs where "length bs = length ls"
      "text_of (snd (foldl select_row (select_row st l) ls)) =
        text_of (snd (select_row st l)) @ map fst (filter snd (zip ls bs))"
      "\<forall>(l, b) \<in> set (zip ls bs). (b \<longrightarrow> l \<noteq> [] \<and> \<not> is_file_activity l) \<and> (wanted_row l \<longrightarrow> b)"
    using Cons.IH [of "select_row st l"] Cons.prems by auto
  then show ?case using b by (intro exI [of _ "b # bs"]) (auto simp: st)
qed simp

lemma clean_row_text:
  "text_of (clean_row ks l) = text_of ks @ (if l = [] \<or> (ks \<noteq> [] \<and> last ks = l) then [] else [l])"
  by (simp add: clean_row_def)

lemma last_text: "ks \<noteq> [] \<Longrightarrow> last ks \<noteq> [] \<Longrightarrow> last ks \<in> set (text_of ks)"
  by (simp add: text_of_def)

lemma clean_fold:
  "\<exists>zs. text_of (foldl clean_row ks ls) = text_of ks @ zs \<and> subseq zs (text_of ls) \<and>
     set (text_of ks) \<union> set zs = set (text_of ks) \<union> set (text_of ls)"
proof (induction ls arbitrary: ks)
  case (Cons l ls)
  define z where "z = (if l = [] \<or> (ks \<noteq> [] \<and> last ks = l) then [] else [l])"
  have t: "text_of (clean_row ks l) = text_of ks @ z" by (simp add: clean_row_text z_def)
  obtain zs where zs: "text_of (foldl clean_row (clean_row ks l) ls) = text_of (clean_row ks l) @ zs"
      "subseq zs (text_of ls)"
      "set (text_of (clean_row ks l)) \<union> set zs = set (text_of (clean_row ks l)) \<union> set (text_of ls)"
    using Cons.IH [of "clean_row ks l"] by blast
  have "subseq (z @ zs) (text_of (l # ls))" using zs(2) by (auto simp: z_def)
  moreover have "set (text_of ks) \<union> set z = set (text_of ks) \<union> set (text_of [l])"
    using last_text [of ks] by (auto simp: z_def)
  then have "set (text_of ks) \<union> set (z @ zs) = set (text_of ks) \<union> set (text_of (l # ls))"
    using zs(3) by (auto simp: t split: if_splits)
  ultimately show ?case using zs(1) t by (intro exI [of _ "z @ zs"]) simp
qed simp

lemma rstrip_row: "py_strip (rstrip_by is_space s) = [] \<Longrightarrow> rstrip_by is_space s = []"
proof -
  have all: "(\<forall>c \<in> set x. is_space c) \<longleftrightarrow> py_strip x = []" for x
  proof (cases "dropWhile is_space x")
    case Nil
    then show ?thesis
      by (auto simp: py_strip_def strip_by_def lstrip_by_def rstrip_by_def dropWhile_eq_Nil_conv dest: set_dropWhileD)
  next
    case (Cons a l)
    then have "\<not> is_space a" using hd_dropWhile [of is_space x] by simp
    moreover have "a \<in> set x" using Cons set_dropWhileD [of a is_space x] by simp
    ultimately show ?thesis
      using Cons by (auto simp: py_strip_def strip_by_def lstrip_by_def rstrip_by_def dropWhile_eq_Nil_conv)
  qed
  show "rstrip_by is_space s = []" if "py_strip (rstrip_by is_space s) = []"
  proof (rule ccontr)
    assume "rstrip_by is_space s \<noteq> []"
    then have "dropWhile is_space (rev s) \<noteq> []" by (simp add: rstrip_by_def)
    then have "\<not> is_space (hd (dropWhile is_space (rev s)))" "hd (dropWhile is_space (rev s)) \<in> set (rstrip_by is_space s)"
      by (auto simp: hd_dropWhile rstrip_by_def)
    then show False using all [of "rstrip_by is_space s"] that by auto
  qed
qed

lemma selected_rows:
  "\<exists>bs. length bs = length (log_rows t) \<and>
     text_of (snd (foldl select_row (False, []) (log_rows t))) = map fst (filter snd (zip (log_rows t) bs)) \<and>
     (\<forall>(l, b) \<in> set (zip (log_rows t) bs). (b \<longrightarrow> l \<noteq> [] \<and> \<not> is_file_activity l) \<and> (wanted_row l \<longrightarrow> b))"
  using select_fold_text [of "log_rows t" "(False, [])"] rstrip_row by (fastforce simp: log_rows_def)

lemma subseq_marked: "length bs = length ls \<Longrightarrow> subseq (map fst (filter snd (zip ls bs))) ls"
  by (induction bs ls rule: list_induct2) auto

lemma marked_set:
  "length bs = length ls \<Longrightarrow> set (map fst (filter snd (zip ls bs))) = {l. (l, True) \<in> set (zip ls bs)}"
  by force

text \<open>
  the error view of a log shows lines of that log in their order and nothing else: no line of
  the file list, and every line that reports a changed or unreadable file or carries one of the error
  words, unless it only reports success. Repetitions of a line that follow each other are shown once.
\<close>

theorem error_view_shows_the_errors:
  "subseq (text_of (error_rows t)) (log_rows t) \<and> list_all (\<lambda>l. \<not> is_file_activity l) (text_of (error_rows t)) \<and>
   set (filter wanted_row (log_rows t)) \<subseteq> set (error_rows t)"
proof -
  obtain bs where bs: "length bs = length (log_rows t)"
      "text_of (snd (foldl select_row (False, []) (log_rows t))) = map fst (filter snd (zip (log_rows t) bs))"
      "\<forall>(l, b) \<in> set (zip (log_rows t) bs). (b \<longrightarrow> l \<noteq> [] \<and> \<not> is_file_activity l) \<and> (wanted_row l \<longrightarrow> b)"
    using selected_rows by blast
  obtain zs where zs: "text_of (error_rows t) = zs" "subseq zs (map fst (filter snd (zip (log_rows t) bs)))"
      "set zs = set (map fst (filter snd (zip (log_rows t) bs)))"
    using clean_fold [of "[]" "snd (foldl select_row (False, []) (log_rows t))"]
    by (auto simp: error_rows_def bs(2) simp del: set_map)
  have "subseq zs (log_rows t)" using zs(2) subseq_marked [OF bs(1)] by (rule subseq_order.trans)
  moreover have "list_all (\<lambda>l. \<not> is_file_activity l) zs"
    using bs(3) by (auto simp: list_all_iff zs(3))
  moreover have "l \<in> set zs" if l: "l \<in> set (log_rows t)" "wanted_row l" for l
  proof -
    obtain b where lb: "(l, b) \<in> set (zip (log_rows t) bs)"
      using l(1) bs(1) by (metis in_set_impl_in_set_zip1)
    then have b using bs(3) l(2) by auto
    then show ?thesis using lb by (force simp: zs(3))
  qed
  ultimately show ?thesis by (auto simp: zs(1) [symmetric] text_of_def)
qed

end
