(* ===== verification/RunLogs.thy ===== *)
theory RunLogs
  imports Compression "HOL-Library.Sublist"
begin

text \<open>
  The log files of runs, \<open>src/app/run_logs.py\<close>: the buffered writer, the compaction that bounds a file,
  the complete and the incremental reading, and the files of the log directory. A file is its bytes;
  \<open>ok\<close> says whether the storage answers a compaction, the clock is an argument of each operation.
\<close>

section \<open>Windows of a file\<close>

definition truncation_marker :: string where
  "truncation_marker =
     [newline, newline] @ ''================ PROTOKOLL GEK'' @ [CHR 0xC3, CHR 0x9C] @ ''RZT ================'' @ [newline] @
     ''Der mittlere Teil wurde wegen der konfigurierten Maximalgr'' @ [CHR 0xC3, CHR 0xB6, CHR 0xC3, CHR 0x9F] @
     ''e entfernt.'' @ [newline] @
     ''===================================================='' @ [newline, newline]"

definition head_bytes :: int where
  "head_bytes = 64 * 1024"

definition compact_margin :: int where
  "compact_margin = 1024 * 1024"

definition head_size :: "int \<Rightarrow> int" where
  "head_size max_bytes = min head_bytes (max_bytes div 4)"

definition tail_size :: "int \<Rightarrow> int" where
  "tail_size max_bytes = max 0 (max_bytes - head_size max_bytes - int (length truncation_marker))"

definition last_bytes :: "int \<Rightarrow> string \<Rightarrow> string" where
  "last_bytes n s = drop (length s - nat n) s"

definition log_window :: "int \<Rightarrow> string \<Rightarrow> string" where
  "log_window max_bytes content =
     take (nat (head_size max_bytes)) content @ truncation_marker @ last_bytes (tail_size max_bytes) content"

definition compact_run_log :: "bool \<Rightarrow> int \<Rightarrow> string \<Rightarrow> string" where
  "compact_run_log ok max_bytes content =
     (if max_bytes \<le> 0 \<or> int (length content) \<le> max_bytes + compact_margin \<or> \<not> ok then content
      else log_window max_bytes content)"

section \<open>The writer\<close>

record log_writer =
  lw_max_bytes :: int
  lw_buffer_bytes :: int
  lw_flush_interval :: time
  lw_buffer :: string
  lw_handle :: bool
  lw_last_flush :: time
  lw_closed :: bool
  lw_written :: int

text \<open>A file that does not exist is \<open>None\<close>; opening it for appending creates it.\<close>

type_synonym log_state = "string option \<times> log_writer"

definition log_bytes :: "string option \<Rightarrow> string" where
  "log_bytes file = (case file of None \<Rightarrow> [] | Some s \<Rightarrow> s)"

definition open_log :: "log_state \<Rightarrow> log_state" where
  "open_log st = (case st of (file, w) \<Rightarrow>
     (Some (log_bytes file), w\<lparr>lw_handle := True, lw_written := int (length (log_bytes file))\<rparr>))"

definition new_log_writer :: "string option \<Rightarrow> int \<Rightarrow> int \<Rightarrow> time \<Rightarrow> time \<Rightarrow> log_state" where
  "new_log_writer file max_bytes buffer_bytes flush_interval now =
     open_log (file,
       \<lparr>lw_max_bytes = max_bytes, lw_buffer_bytes = max 4096 buffer_bytes, lw_flush_interval = max 0 flush_interval,
        lw_buffer = [], lw_handle = False, lw_last_flush = now, lw_closed = False, lw_written = 0\<rparr>)"

definition write_buffer :: "time \<Rightarrow> log_state \<Rightarrow> log_state" where
  "write_buffer now st = (case st of (file, w) \<Rightarrow>
     (Some (log_bytes file @ lw_buffer w),
      w\<lparr>lw_written := lw_written w + int (length (lw_buffer w)), lw_buffer := [], lw_last_flush := now\<rparr>))"

definition compact_if_large :: "bool \<Rightarrow> log_state \<Rightarrow> log_state" where
  "compact_if_large ok st = (case st of (file, w) \<Rightarrow>
     if 0 < lw_max_bytes w \<and> lw_max_bytes w + compact_margin < lw_written w
     then open_log (Some (compact_run_log ok (lw_max_bytes w) (log_bytes file)), w\<lparr>lw_handle := False\<rparr>)
     else st)"

definition flush_log :: "bool \<Rightarrow> time \<Rightarrow> log_state \<Rightarrow> log_state" where
  "flush_log ok now st =
     (if lw_closed (snd st) \<or> lw_buffer (snd st) = [] then st
      else compact_if_large ok (write_buffer now (if lw_handle (snd st) then st else open_log st)))"

definition append_bytes :: "bool \<Rightarrow> time \<Rightarrow> string \<Rightarrow> log_state \<Rightarrow> log_state" where
  "append_bytes ok now data st = (case st of (file, w) \<Rightarrow>
     if lw_closed w \<or> data = [] then st
     else (let w' = w\<lparr>lw_buffer := lw_buffer w @ data\<rparr> in
       if lw_buffer_bytes w' \<le> int (length (lw_buffer w')) \<or> lw_flush_interval w' \<le> now - lw_last_flush w'
       then flush_log ok now (file, w') else (file, w')))"

definition flush_if_due :: "bool \<Rightarrow> time \<Rightarrow> log_state \<Rightarrow> log_state \<times> bool" where
  "flush_if_due ok now st =
     (if lw_closed (snd st) \<or> lw_buffer (snd st) = [] \<or> now - lw_last_flush (snd st) < lw_flush_interval (snd st)
      then (st, False) else (flush_log ok now st, True))"

definition close_log :: "bool \<Rightarrow> time \<Rightarrow> log_state \<Rightarrow> log_state" where
  "close_log ok now st =
     (if lw_closed (snd st) then st
      else case flush_log ok now st of (file, w) \<Rightarrow> (file, w\<lparr>lw_handle := False, lw_closed := True\<rparr>))"

definition append_run_log :: "bool \<Rightarrow> time \<Rightarrow> string \<Rightarrow> int \<Rightarrow> string option \<Rightarrow> string option" where
  "append_run_log ok now text max_bytes file =
     (if text = [] then file
      else fst (close_log ok now (append_bytes ok now text (new_log_writer file max_bytes 4096 0 now))))"

text \<open>The calls a run makes on its writer.\<close>

datatype log_call = Append bool time string | Flush_if_due bool time | Close bool time

fun log_step :: "log_call \<Rightarrow> log_state \<Rightarrow> log_state" where
  "log_step (Append ok now data) st = append_bytes ok now data st"
| "log_step (Flush_if_due ok now) st = fst (flush_if_due ok now st)"
| "log_step (Close ok now) st = close_log ok now st"

definition log_calls :: "log_call list \<Rightarrow> log_state \<Rightarrow> log_state" where
  "log_calls = fold log_step"

section \<open>Reading\<close>

definition read_run_log :: "(string \<Rightarrow> string) \<Rightarrow> string option \<Rightarrow> int option \<Rightarrow> string option" where
  "read_run_log dec file max_bytes =
     map_option (\<lambda>content. case max_bytes of
         None \<Rightarrow> dec content
       | Some m \<Rightarrow> if m \<le> 0 \<or> int (length content) \<le> m then dec content else dec (log_window m content)) file"

record log_delta =
  ld_text :: string
  ld_offset :: int
  ld_reset :: bool
  ld_truncated :: bool

text \<open>A file that cannot be examined is \<open>None\<close>.\<close>

definition read_run_log_delta :: "(string \<Rightarrow> string) \<Rightarrow> string option \<Rightarrow> int \<Rightarrow> int \<Rightarrow> log_delta" where
  "read_run_log_delta dec file offset max_bytes =
     (case file of
        None \<Rightarrow> \<lparr>ld_text = [], ld_offset = 0, ld_reset = offset \<noteq> 0, ld_truncated = False\<rparr>
      | Some content \<Rightarrow>
         (let limit = max 4096 max_bytes; size = int (length content);
              requested = max 0 offset; fresh = requested > size; first = (if fresh then 0 else requested);
              truncated = size - first > limit;
              begin = (if truncated then max 0 (size - limit) else first);
              payload = take (nat limit) (drop (nat begin) content) in
          \<lparr>ld_text = dec payload, ld_offset = begin + int (length payload), ld_reset = fresh \<or> truncated,
           ld_truncated = truncated\<rparr>))"

section \<open>The directory\<close>

definition run_log_name :: "nat \<Rightarrow> string" where
  "run_log_name run_id = ''run-'' @ str_nat run_id @ ''.log''"

text \<open>Directory entries: name, and whether it is a regular file.\<close>

definition log_name_id :: "string \<Rightarrow> string option" where
  "log_name_id name =
     (if starts_with ''run-'' name \<and> ends_with ''.log'' name
      then Some (drop 4 (take (length name - 4) name)) else None)"

fun available_run_log_ids :: "(string \<times> bool) list \<Rightarrow> (request_error, nat list) result" where
  "available_run_log_ids [] = Inr []"
| "available_run_log_ids ((name, is_file) # es) =
     (case (if is_file then log_name_id name else None) of
        None \<Rightarrow> available_run_log_ids es
      | Some raw \<Rightarrow>
          if py_isdigit raw
          then try_bind (py_int raw) (\<lambda>n. try_bind (available_run_log_ids es) (\<lambda>ns. Inr (n # ns)))
          else available_run_log_ids es)"

text \<open>Python's \<open>int\<close> of a text: white space around it, a sign, and underscores between digits.\<close>

definition py_int_text :: "string \<Rightarrow> int option" where
  "py_int_text s =
     (let t = py_strip s; sign = (t \<noteq> [] \<and> (hd t = CHR 0x2B \<or> hd t = CHR 0x2D));
          parts = split_on (CHR 0x5F) (if sign then tl t else t) in
      if list_all (\<lambda>p. p \<noteq> [] \<and> list_all is_digit p) parts
      then Some ((if sign \<and> hd t = CHR 0x2D then -1 else 1) * int (digits_value (concat parts))) else None)"

text \<open>A file goes when its number is no run; \<open>snd\<close> of an entry says whether it can be removed.\<close>

definition orphan_log :: "int set \<Rightarrow> string \<Rightarrow> bool" where
  "orphan_log valid_run_ids name =
     (case Option.bind (log_name_id name) py_int_text of None \<Rightarrow> False | Some n \<Rightarrow> n \<notin> valid_run_ids)"

definition cleanup_orphan_run_logs :: "int set \<Rightarrow> (string \<times> bool) list \<Rightarrow> (string \<times> bool) list \<times> nat" where
  "cleanup_orphan_run_logs valid_run_ids entries =
     (filter (\<lambda>(name, removable). \<not> (orphan_log valid_run_ids name \<and> removable)) entries,
      length (filter (\<lambda>(name, removable). orphan_log valid_run_ids name \<and> removable) entries))"

section \<open>Ends of a text\<close>

definition same_end :: "int \<Rightarrow> string \<Rightarrow> string \<Rightarrow> bool" where
  "same_end n a b \<longleftrightarrow> take (nat n) (rev a) = take (nat n) (rev b)"

lemma same_end_refl [simp]: "same_end n a a"
  by (simp add: same_end_def)

lemma same_end_trans: "same_end n a b \<Longrightarrow> same_end n b c \<Longrightarrow> same_end n a c"
  by (simp add: same_end_def)

lemma same_end_append:
  assumes "same_end n a b" shows "same_end n (a @ x) (b @ x)"
proof -
  have "take (nat n - length x) (take (nat n) (rev a)) = take (nat n - length x) (take (nat n) (rev b))"
    using assms by (simp add: same_end_def)
  then show ?thesis by (simp add: same_end_def min_def)
qed

lemma rev_last_bytes: "rev (last_bytes n s) = take (nat n) (rev s)"
  by (cases "nat n \<le> length s") (simp_all add: last_bytes_def rev_drop)

lemma same_end_window:
  assumes "tail_size m \<le> int (length s)"
  shows "same_end (tail_size m) (log_window m s) s"
proof -
  have n: "nat (tail_size m) \<le> length s" using assms by simp
  show ?thesis using n by (simp add: same_end_def log_window_def rev_last_bytes min.absorb1)
qed

lemma marker_length: "length truncation_marker \<le> 1024"
  by (simp add: truncation_marker_def)

lemma tail_size_le: "0 < m \<Longrightarrow> tail_size m \<le> m"
  by (simp add: tail_size_def head_size_def head_bytes_def)

lemma window_length:
  assumes "0 < m" shows "int (length (log_window m s)) \<le> m + compact_margin"
proof -
  have "int (length (last_bytes (tail_size m) s)) \<le> tail_size m"
    by (auto simp: last_bytes_def tail_size_def)
  moreover have "int (length (take (nat (head_size m)) s)) \<le> head_size m"
  proof -
    have "0 \<le> head_size m" using assms by (simp add: head_size_def head_bytes_def)
    then show ?thesis by simp
  qed
  moreover have "head_size m + int (length truncation_marker) + tail_size m \<le> m + compact_margin"
    using marker_length assms by (auto simp: tail_size_def head_size_def compact_margin_def)
  ultimately show ?thesis by (simp add: log_window_def)
qed

lemma compact_same_end: "0 < m \<Longrightarrow> same_end (tail_size m) (compact_run_log ok m s) s"
  using tail_size_le [of m] same_end_window [of m s]
  by (simp add: compact_run_log_def compact_margin_def)

lemma compact_length: "0 < m \<Longrightarrow> ok \<Longrightarrow> int (length (compact_run_log ok m s)) \<le> m + compact_margin"
  by (simp add: compact_run_log_def window_length)

section \<open>What a log keeps\<close>

text \<open>The bytes accepted by the calls: those appended before the writer is closed.\<close>

fun appended :: "log_call list \<Rightarrow> string" where
  "appended [] = []"
| "appended (Append ok now data # cs) = data @ appended cs"
| "appended (Flush_if_due ok now # cs) = appended cs"
| "appended (Close ok now # cs) = []"

definition all_bytes :: "log_state \<Rightarrow> string" where
  "all_bytes st = log_bytes (fst st) @ lw_buffer (snd st)"

definition log_ok :: "int \<Rightarrow> string \<Rightarrow> log_state \<Rightarrow> bool" where
  "log_ok m written st \<longleftrightarrow>
     lw_max_bytes (snd st) = m \<and> (lw_closed (snd st) \<longrightarrow> lw_buffer (snd st) = []) \<and>
     (lw_handle (snd st) \<longrightarrow> lw_written (snd st) = int (length (log_bytes (fst st)))) \<and>
     (0 < m \<longrightarrow> same_end (tail_size m) (all_bytes st) written) \<and>
     (m \<le> 0 \<or> int (length written) \<le> m + compact_margin \<longrightarrow> all_bytes st = written)"

lemma log_ok_new: "log_ok m (log_bytes file) (new_log_writer file m bb fi now)"
  by (simp add: log_ok_def new_log_writer_def open_log_def all_bytes_def log_bytes_def)

lemma log_ok_open: "log_ok m x st \<Longrightarrow> log_ok m x (open_log st)"
  by (auto simp: log_ok_def open_log_def all_bytes_def log_bytes_def split: prod.splits)

lemma log_ok_write: "log_ok m x st \<Longrightarrow> lw_handle (snd st) \<Longrightarrow> log_ok m x (write_buffer now st)"
  by (auto simp: log_ok_def write_buffer_def all_bytes_def log_bytes_def split: prod.splits)

lemma log_ok_compact:
  assumes ok: "log_ok m x (f, w)" and h: "lw_handle w" and e: "lw_buffer w = []"
  shows "log_ok m x (compact_if_large c (f, w))"
proof (cases "0 < m \<and> m + compact_margin < lw_written w")
  case True
  have wr: "lw_written w = int (length (log_bytes f))" and same: "same_end (tail_size m) (log_bytes f) x"
    and full: "int (length x) \<le> m + compact_margin \<longrightarrow> log_bytes f = x" and m: "lw_max_bytes w = m"
    using ok h e True by (auto simp: log_ok_def all_bytes_def)
  have "same_end (tail_size m) (compact_run_log c m (log_bytes f)) x"
    using compact_same_end [of m c "log_bytes f"] same True by (blast intro: same_end_trans)
  moreover have "\<not> int (length x) \<le> m + compact_margin" using full True wr by auto
  ultimately show ?thesis
    using True e by (simp add: compact_if_large_def m log_ok_def open_log_def all_bytes_def log_bytes_def)
next
  case False
  then show ?thesis using ok by (auto simp: compact_if_large_def log_ok_def)
qed

lemma write_buffer_empty [simp]: "lw_buffer (snd (write_buffer now st)) = []"
  "lw_handle (snd (write_buffer now st)) = lw_handle (snd st)"
  by (simp_all add: write_buffer_def split: prod.split)

lemma open_log_handle [simp]: "lw_handle (snd (open_log st))" "lw_closed (snd (open_log st)) = lw_closed (snd st)"
  by (simp_all add: open_log_def split: prod.split)

lemma log_ok_flush: "log_ok m x st \<Longrightarrow> log_ok m x (flush_log c now st)"
proof -
  assume ok: "log_ok m x st"
  let ?o = "if lw_handle (snd st) then st else open_log st"
  have h: "lw_handle (snd ?o)" and ok1: "log_ok m x ?o" using ok log_ok_open by auto
  obtain f w where fw: "write_buffer now ?o = (f, w)" by fastforce
  have "log_ok m x (f, w)" using log_ok_write [OF ok1 h, of now] fw by simp
  moreover have "lw_handle w" "lw_buffer w = []" using h write_buffer_empty [of now ?o] fw by simp_all
  ultimately show ?thesis using ok log_ok_compact fw by (simp add: flush_log_def)
qed

lemma log_ok_append: "log_ok m x st \<Longrightarrow> log_ok m (if lw_closed (snd st) then x else x @ data) (append_bytes c now data st)"
proof -
  assume ok: "log_ok m x st"
  obtain f w where st: "st = (f, w)" by fastforce
  show ?thesis
  proof (cases "lw_closed w \<or> data = []")
    case True
    then show ?thesis using ok by (auto simp: append_bytes_def st)
  next
    case False
    have "log_ok m (x @ data) (f, w\<lparr>lw_buffer := lw_buffer w @ data\<rparr>)"
      using ok False same_end_append [of "tail_size m" "log_bytes f @ lw_buffer w" x data]
      by (auto simp: st log_ok_def all_bytes_def)
    then show ?thesis using False log_ok_flush by (simp add: append_bytes_def st Let_def)
  qed
qed

lemma log_ok_due: "log_ok m x st \<Longrightarrow> log_ok m x (fst (flush_if_due c now st))"
  by (simp add: flush_if_due_def log_ok_flush)

lemma flush_buffer: "log_ok m x st \<Longrightarrow> lw_buffer (snd (flush_log c now st)) = []"
proof -
  assume ok: "log_ok m x st"
  have "lw_buffer (snd (compact_if_large c st')) = lw_buffer (snd st')" for st'
    by (simp add: compact_if_large_def open_log_def split: prod.split)
  then show ?thesis using ok by (auto simp: flush_log_def log_ok_def)
qed

lemma log_ok_close: "log_ok m x st \<Longrightarrow> log_ok m x (close_log c now st) \<and> lw_closed (snd (close_log c now st))"
proof (cases "lw_closed (snd st)")
  case False
  assume ok: "log_ok m x st"
  obtain f w where fw: "flush_log c now st = (f, w)" by fastforce
  have "log_ok m x (f, w)" "lw_buffer w = []"
    using log_ok_flush [OF ok, of c now] flush_buffer [OF ok, of c now] fw by simp_all
  then show ?thesis using False fw by (auto simp: close_log_def log_ok_def all_bytes_def)
qed (simp add: close_log_def)

lemma closed_append [simp]: "lw_closed (snd (append_bytes c now data st)) = lw_closed (snd st)"
proof -
  have 1: "lw_closed (snd (compact_if_large c st')) = lw_closed (snd st')" for st'
    by (simp add: compact_if_large_def open_log_def split: prod.split)
  have 2: "lw_closed (snd (write_buffer now st')) = lw_closed (snd st')" for st'
    by (simp add: write_buffer_def split: prod.split)
  show ?thesis by (simp add: append_bytes_def flush_log_def 1 2 Let_def split: prod.split)
qed

lemma closed_due [simp]: "lw_closed (snd (fst (flush_if_due c now st))) = lw_closed (snd st)"
proof -
  have 1: "lw_closed (snd (compact_if_large c st')) = lw_closed (snd st')" for st'
    by (simp add: compact_if_large_def open_log_def split: prod.split)
  have 2: "lw_closed (snd (write_buffer now st')) = lw_closed (snd st')" for st'
    by (simp add: write_buffer_def split: prod.split)
  show ?thesis by (simp add: flush_if_due_def flush_log_def 1 2)
qed

lemma log_ok_calls:
  "log_ok m x st \<Longrightarrow> log_ok m (if lw_closed (snd st) then x else x @ appended calls) (log_calls calls st)"
proof (induction calls arbitrary: x st)
  case Nil
  then show ?case by (simp add: log_calls_def)
next
  case (Cons call calls)
  have run: "log_calls (call # calls) st = log_calls calls (log_step call st)" by (simp add: log_calls_def)
  show ?case
  proof (cases call)
    case (Append ok now data)
    then show ?thesis
      using Cons.IH [OF log_ok_append [OF Cons.prems, of data ok now]] unfolding run
      by (simp add: Append split: if_splits)
  next
    case (Flush_if_due ok now)
    then show ?thesis using Cons.IH [OF log_ok_due [OF Cons.prems, of ok now]] unfolding run by (simp split: if_splits)
  next
    case (Close ok now)
    then show ?thesis
      using log_ok_close [OF Cons.prems, of ok now] Cons.IH [of x "close_log ok now st"] unfolding run by (simp split: if_splits)
  qed
qed

text \<open>
  C37: whatever a run appends to its log and however the writer buffers, flushes and compacts it, the
  file and the buffer together end with the newest output, up to the size kept of the end; they hold
  the whole output while it is not longer than the maximum and its margin, or when there is no
  maximum; and a closed log has nothing left in the buffer.
\<close>

theorem log_keeps_newest_output:
  assumes "log_calls calls (new_log_writer file m bb fi now) = st"
  shows "(0 < m \<longrightarrow> same_end (tail_size m) (all_bytes st) (log_bytes file @ appended calls)) \<and>
    (m \<le> 0 \<or> int (length (log_bytes file @ appended calls)) \<le> m + compact_margin \<longrightarrow>
       all_bytes st = log_bytes file @ appended calls) \<and>
    (lw_closed (snd st) \<longrightarrow> lw_buffer (snd st) = [])"
proof -
  have open_at_start: "\<not> lw_closed (snd (new_log_writer file m bb fi now))"
    by (simp add: new_log_writer_def open_log_def)
  have "log_ok m (log_bytes file) (new_log_writer file m bb fi now)" by (rule log_ok_new)
  then have "log_ok m (log_bytes file @ appended calls) st"
    using log_ok_calls [of m "log_bytes file" "new_log_writer file m bb fi now" calls] assms open_at_start by simp
  then show ?thesis by (simp add: log_ok_def)
qed

definition sample_calls :: "log_call list" where
  "sample_calls = [Append True 0 ''one'', Flush_if_due True 1, Append True 900000 ''two'', Close True 900001]"

theorem log_keeps_newest_output_witness:
  "log_calls sample_calls (new_log_writer None 10 0 750000 0) =
     (Some ''onetwo'', \<lparr>lw_max_bytes = 10, lw_buffer_bytes = 4096, lw_flush_interval = 750000, lw_buffer = [],
        lw_handle = False, lw_last_flush = 900000, lw_closed = True, lw_written = 6\<rparr>) \<and>
   all_bytes (log_calls sample_calls (new_log_writer None 10 0 750000 0)) = log_bytes None @ appended sample_calls"
proof (intro conjI)
  show run: "log_calls sample_calls (new_log_writer None 10 0 750000 0) =
     (Some ''onetwo'', \<lparr>lw_max_bytes = 10, lw_buffer_bytes = 4096, lw_flush_interval = 750000, lw_buffer = [],
        lw_handle = False, lw_last_flush = 900000, lw_closed = True, lw_written = 6\<rparr>)"
    by code_simp
  show "all_bytes (log_calls sample_calls (new_log_writer None 10 0 750000 0)) = log_bytes None @ appended sample_calls"
    using log_keeps_newest_output [OF run]
    by (simp only: run) (simp add: sample_calls_def log_bytes_def compact_margin_def)
qed

section \<open>The size of a log\<close>

fun compactions_answer :: "log_call \<Rightarrow> bool" where
  "compactions_answer (Append ok now data) = ok"
| "compactions_answer (Flush_if_due ok now) = ok"
| "compactions_answer (Close ok now) = ok"

definition log_bounded :: "int \<Rightarrow> log_state \<Rightarrow> bool" where
  "log_bounded m st \<longleftrightarrow> lw_max_bytes (snd st) = m \<and> int (length (log_bytes (fst st))) \<le> m + compact_margin \<and>
     (lw_handle (snd st) \<longrightarrow> lw_written (snd st) = int (length (log_bytes (fst st))))"

lemma bounded_flush:
  assumes m: "0 < m" and b: "log_bounded m st"
  shows "log_bounded m (flush_log True now st)"
proof -
  obtain f w where o: "write_buffer now (if lw_handle (snd st) then st else open_log st) = (f, w)" by fastforce
  have "lw_max_bytes w = m" "lw_written w = int (length (log_bytes f))"
    using o b by (auto simp: write_buffer_def open_log_def log_bounded_def log_bytes_def split: prod.splits if_splits)
  then have "log_bounded m (compact_if_large True (f, w))"
    using m compact_length [of m True "log_bytes f"]
    by (auto simp: compact_if_large_def log_bounded_def open_log_def log_bytes_def)
  then show ?thesis using b o by (simp add: flush_log_def)
qed

lemma bounded_buffer: "log_bounded m (f, w\<lparr>lw_buffer := b\<rparr>) = log_bounded m (f, w)"
  by (simp add: log_bounded_def)

lemma bounded_step:
  assumes "0 < m" and "compactions_answer call" and "log_bounded m st"
  shows "log_bounded m (log_step call st)"
proof -
  obtain f w where st: "st = (f, w)" by fastforce
  show ?thesis
  proof (cases call)
    case (Append ok now data)
    then show ?thesis
      using assms bounded_flush [OF assms(1), of "(f, w\<lparr>lw_buffer := lw_buffer w @ data\<rparr>)" now]
      by (simp add: append_bytes_def st Let_def bounded_buffer)
  next
    case (Flush_if_due ok now)
    then show ?thesis using assms bounded_flush [OF assms(1) assms(3)] by (simp add: flush_if_due_def)
  next
    case (Close ok now)
    then show ?thesis
      using assms bounded_flush [OF assms(1) assms(3), of now]
      by (auto simp: close_log_def log_bounded_def split: prod.split)
  qed
qed

text \<open>
  While the storage answers the compactions, the file of a log never grows beyond its maximum
  and the margin of one mebibyte, whatever is appended to it.
\<close>

theorem log_size_bounded:
  assumes "0 < m" and "int (length (log_bytes file)) \<le> m + compact_margin" and "list_all compactions_answer calls"
  shows "int (length (log_bytes (fst (log_calls calls (new_log_writer file m bb fi now))))) \<le> m + compact_margin"
proof -
  have "log_bounded m (new_log_writer file m bb fi now)"
    using assms(2) by (simp add: log_bounded_def new_log_writer_def open_log_def log_bytes_def)
  moreover have "log_bounded m st \<Longrightarrow> list_all compactions_answer cs \<Longrightarrow> log_bounded m (log_calls cs st)" for cs st
    using bounded_step [OF assms(1)] by (induction cs arbitrary: st) (auto simp: log_calls_def)
  ultimately show ?thesis using assms(3) by (simp add: log_bounded_def)
qed

theorem log_size_bounded_witness:
  "int (length (log_bytes (fst (log_calls sample_calls (new_log_writer None 10 0 750000 0))))) \<le> 10 + compact_margin"
  by (rule log_size_bounded) (simp_all add: log_bytes_def compact_margin_def sample_calls_def)

section \<open>Following a log\<close>

text \<open>
  A dialog that follows a running log: it keeps its text and the offset of the last answer, and
  starts over when the answer says so.
\<close>

definition follow_log :: "int \<Rightarrow> string option \<Rightarrow> string \<times> int \<Rightarrow> string \<times> int" where
  "follow_log max_bytes file view =
     (let d = read_run_log_delta (\<lambda>s. s) file (snd view) max_bytes in
      (if ld_reset d then ld_text d else fst view @ ld_text d, ld_offset d))"

text \<open>What a view shows of a file: an end of it, and its offset is the size of the file.\<close>

definition shows_end :: "string \<times> int \<Rightarrow> string \<Rightarrow> bool" where
  "shows_end view content \<longleftrightarrow> suffix (fst view) content \<and> snd view = int (length content)"

lemma suffix_drop: "suffix (drop n s) s"
  by (metis append_take_drop_id suffix_def)

lemma read_delta_grown:
  "read_run_log_delta dec (Some (old @ new)) (int (length old)) m =
     (if int (length new) > max 4096 m
      then \<lparr>ld_text = dec (drop (length (old @ new) - nat (max 4096 m)) (old @ new)),
            ld_offset = int (length (old @ new)), ld_reset = True, ld_truncated = True\<rparr>
      else \<lparr>ld_text = dec new, ld_offset = int (length (old @ new)), ld_reset = False, ld_truncated = False\<rparr>)"
proof -
  obtain L where L: "max 4096 m = L" by blast
  have L0: "0 \<le> L" using L by linarith
  have n: "nat (int (length old + length new) - L) = length old + length new - nat L" if "L < int (length new)"
    using that L0 by linarith
  have e: "int (length old + length new) - L + int (length (drop (length old + length new - nat L) (old @ new))) =
      int (length old + length new)" if "L < int (length new)"
    using that L0 by (simp only: length_drop length_append)
  have t: "take (nat L) (drop (length old + length new - nat L) (old @ new)) = drop (length old + length new - nat L) (old @ new)"
    by (rule take_all) (simp only: length_drop length_append)
  show ?thesis
  proof (cases "L < int (length new)")
    case True
    have "read_run_log_delta dec (Some (old @ new)) (int (length old)) m =
        \<lparr>ld_text = dec (take (nat L) (drop (nat (int (length old + length new) - L)) (old @ new))),
          ld_offset = int (length old + length new) - L +
            int (length (take (nat L) (drop (nat (int (length old + length new) - L)) (old @ new)))),
          ld_reset = True, ld_truncated = True\<rparr>"
      using True L0 by (simp add: read_run_log_delta_def Let_def L del: length_take length_drop drop_append take_append)
    then show ?thesis by (simp only: n [OF True] t e [OF True] L True if_True length_append)
  next
    case False
    then show ?thesis by (simp add: read_run_log_delta_def Let_def L)
  qed
qed

lemma follow_step:
  assumes "shows_end view old" shows "shows_end (follow_log m (Some (old @ new)) view) (old @ new)"
proof -
  have o: "snd view = int (length old)" and v: "suffix (fst view) old" using assms by (auto simp: shows_end_def)
  have "suffix (fst view @ new) (old @ new)" using v by (auto simp: suffix_def)
  then show ?thesis
    using suffix_drop [of "length (old @ new) - nat (max 4096 m)" "old @ new"]
    by (simp add: follow_log_def o read_delta_grown shows_end_def Let_def)
qed

text \<open>
  a dialog that polls a log which only grows shows, after every poll, an end of the log up to its
  last byte, and the whole log as long as no poll is more than the limit behind.
\<close>

theorem follower_sees_the_end:
  "shows_end (foldl (\<lambda>v i. follow_log m (Some (concat (take (Suc i) parts))) v) ([], 0) [0..<length parts]) (concat parts) \<and>
   (list_all (\<lambda>p. int (length p) \<le> max 4096 m) parts \<longrightarrow>
      fst (foldl (\<lambda>v i. follow_log m (Some (concat (take (Suc i) parts))) v) ([], 0) [0..<length parts]) = concat parts)"
proof (induction parts rule: rev_induct)
  case Nil
  show ?case by (simp add: shows_end_def)
next
  case (snoc p parts)
  let ?view = "\<lambda>ps. foldl (\<lambda>v i. follow_log m (Some (concat (take (Suc i) ps))) v) ([], 0) [0..<length parts]"
  have same: "?view (parts @ [p]) = ?view parts"
    by (rule foldl_cong) auto
  have last: "foldl (\<lambda>v i. follow_log m (Some (concat (take (Suc i) (parts @ [p])))) v) ([], 0) [0..<length (parts @ [p])] =
      follow_log m (Some (concat parts @ p)) (?view parts)"
    using same by simp
  have v: "shows_end (?view parts) (concat parts)" using snoc.IH by simp
  show ?case
    unfolding last using follow_step [OF v, of m p] snoc.IH v
    by (auto simp: follow_log_def shows_end_def read_delta_grown Let_def)
qed

theorem follower_sees_the_end_witness:
  "follow_log 0 (Some ''abc'') (follow_log 0 (Some ''a'') ([], 0)) = (''abc'', 3) \<and>
   shows_end (foldl (\<lambda>v i. follow_log 0 (Some (concat (take (Suc i) [''a'', ''bc'']))) v) ([], 0)
     [0..<length [''a'', ''bc'']]) (concat [''a'', ''bc''])"
proof (intro conjI)
  show "follow_log 0 (Some ''abc'') (follow_log 0 (Some ''a'') ([], 0)) = (''abc'', 3)" by code_simp
qed (rule conjunct1 [OF follower_sees_the_end])

text \<open>
  Each answer is decoded by itself. A character whose bytes come with two answers is lost: with any
  decoder that replaces an incomplete sequence, the two texts differ from the decoded bytes.
\<close>

lemma delta_splits_characters:
  assumes "dec [CHR 0xC3] = [CHR 0xEF, CHR 0xBF, CHR 0xBD]" and "dec [CHR 0xC3, CHR 0x9C] = [CHR 0xC3, CHR 0x9C]"
  shows "ld_text (read_run_log_delta dec (Some [CHR 0xC3]) 0 0) @
         ld_text (read_run_log_delta dec (Some [CHR 0xC3, CHR 0x9C]) 1 0) \<noteq> dec [CHR 0xC3, CHR 0x9C]"
  using assms by (simp add: read_run_log_delta_def Let_def)

text \<open>Whether a view must start over is decided by the size of the file alone: a compacted log of the same size goes unnoticed.\<close>

lemma reset_depends_on_size:
  "length a = length b \<Longrightarrow>
   ld_reset (read_run_log_delta dec (Some a) offset m) = ld_reset (read_run_log_delta dec (Some b) offset m)"
  by (simp only: read_run_log_delta_def option.case Let_def log_delta.select_convs)

section \<open>The directory\<close>

lemma log_name_id_name [simp]: "log_name_id (run_log_name n) = Some (str_nat n)"
  by (simp add: log_name_id_def run_log_name_def starts_with_def ends_with_def)

lemma str_nat_all_digits: "list_all is_digit (str_nat n)"
  by (simp add: list_all_iff str_nat_digits)

lemma str_nat_not_empty: "str_nat n \<noteq> []"
  by (simp add: str_nat.simps [of n])

lemma split_on_absent: "c \<notin> set s \<Longrightarrow> split_on c s = [s]"
  by (induction s) auto

lemma py_int_text_name: "py_int_text (str_nat n) = Some (int n)"
proof -
  have d: "\<And>c. c \<in> set (str_nat n) \<Longrightarrow> is_digit c" by (rule str_nat_digits)
  have other: "\<not> is_digit (CHR 0x5F)" "\<not> is_digit (CHR 0x2B)" "\<not> is_digit (CHR 0x2D)" by code_simp+
  have us: "CHR 0x5F \<notin> set (str_nat n)" using d other(1) by blast
  have "dropWhile is_space (str_nat n) = str_nat n" "dropWhile is_space (rev (str_nat n)) = rev (str_nat n)"
    using d digit_not_space str_nat_not_empty [of n] by (simp_all add: dropWhile_eq_self_iff hd_rev)
  then have "py_strip (str_nat n) = str_nat n"
    by (simp add: py_strip_def strip_by_def lstrip_by_def rstrip_by_def)
  moreover have "hd (str_nat n) \<noteq> CHR 0x2B" "hd (str_nat n) \<noteq> CHR 0x2D"
    using d [of "hd (str_nat n)"] str_nat_not_empty [of n] other(2,3) by (metis hd_in_set)+
  ultimately show ?thesis
    using us str_nat_all_digits [of n] str_nat_not_empty [of n] by (simp add: py_int_text_def Let_def split_on_absent)
qed

text \<open>
  The cleanup of the log directory keeps the log of every run that still exists, and removes that
  of a run which does not, if it can be removed.
\<close>

theorem cleanup_keeps_logs_of_runs:
  "((run_log_name n, removable) \<in> set (fst (cleanup_orphan_run_logs valid entries))) =
     ((run_log_name n, removable) \<in> set entries \<and> (if removable then int n \<in> valid else True))"
  by (cases removable) (auto simp: cleanup_orphan_run_logs_def orphan_log_def py_int_text_name)

end
