(* ===== verification/Execution.thy ===== *)
theory Execution
  imports Commands WarningCollector
begin

text \<open>
  \<open>execute\<close> of \<open>src/app/runner.py\<close>: starting a command, pumping its output through the caller's
  filter, and the ways it ends. What the operating system does is an argument: the chunks in the
  order of their arrival, how the wait ends, and whether the process ends in the time given to it
  after each signal. The effects on the system are a list, in their order.
\<close>

section \<open>Effects and answers\<close>

datatype stop_signal = Sigint | Sigterm | Sigkill

datatype effect =
    Write_secret nat string
  | Spawn "string list" "(string \<times> string) list"
  | Send_stdin string
  | Close_stdin
  | Signal stop_signal
  | Remove_secrets

text \<open>How the wait for the process ends: with its return code, which is negative after a signal.\<close>

datatype ending =
    Exited int
  | Timed_out
  | Aborted string
  | Cancelled
  | Callback_failed string

text \<open>
  \<open>ex_exited\<close>: the process has ended although its pipes are still read; \<open>ex_wrapper\<close>: the remote
  wrapper ends after its input is closed; the others: the process ends in time after the signal.
\<close>

record exit_answers =
  ex_exited :: bool
  ex_wrapper :: bool
  ex_after_int :: bool
  ex_after_term :: bool
  ex_after_kill :: bool

datatype execution_result =
    Returned int string string
  | Command_cancelled bool bool
  | Spawn_failed string
  | Output_failed string

section \<open>Capturing the output\<close>

definition capture :: "int option \<Rightarrow> string \<Rightarrow> string \<Rightarrow> string" where
  "capture limit buffer chunk =
     (let buffer' = buffer @ chunk in
      case limit of
        Some n \<Rightarrow> if 0 < n \<and> n < int (length buffer') then drop (length buffer' - nat n) buffer' else buffer'
      | None \<Rightarrow> buffer')"

section \<open>Stopping a process\<close>

text \<open>\<open>wait_after_signal\<close>: no signal goes to a process that has ended.\<close>

definition wait_after_signal :: "exit_answers \<Rightarrow> stop_signal \<Rightarrow> bool \<Rightarrow> effect list \<times> bool" where
  "wait_after_signal a sig answer = (if ex_exited a then ([], True) else ([Signal sig], answer))"

definition terminate_then_kill :: "exit_answers \<Rightarrow> effect list" where
  "terminate_then_kill a =
     (case wait_after_signal a Sigterm (ex_after_term a) of (e1, ended) \<Rightarrow>
        if ended then e1 else e1 @ fst (wait_after_signal a Sigkill (ex_after_kill a)))"

text \<open>The effects, whether the process was forced, and whether the remote wrapper confirmed the end.\<close>

definition stop_process_gracefully :: "command \<Rightarrow> exit_answers \<Rightarrow> effect list \<times> bool \<times> bool" where
  "stop_process_gracefully c a =
     (let controlled = (cm_controlled_cancel c \<and> cm_stdin c \<noteq> None);
          first = (if controlled then [Close_stdin] else []) in
      if controlled \<and> ex_wrapper a then (first, False, True)
      else case wait_after_signal a Sigint (ex_after_int a) of (e1, ended) \<Rightarrow>
        if ended then (first @ e1, False, False)
        else (first @ e1 @ terminate_then_kill a, True, False))"

section \<open>The command\<close>

definition secret_files :: "string \<Rightarrow> (string \<times> string) list \<Rightarrow> (string \<times> string) list" where
  "secret_files directory files =
     map (\<lambda>(i, placeholder, content). (placeholder, directory @ ''/secret-'' @ str_nat i))
       (enumerate 1 files)"

definition write_secrets :: "(string \<times> string) list \<Rightarrow> effect list" where
  "write_secrets files = map (\<lambda>(i, placeholder, content). Write_secret i content) (enumerate 1 files)"

definition process_environment :: "(string \<times> string) list \<Rightarrow> command \<Rightarrow> (string \<times> string) list" where
  "process_environment environ c =
     (case cm_env c of None \<Rightarrow> environ | Some env \<Rightarrow> if env = [] then environ else fold (\<lambda>(k, v). dict_set k v) env environ)"

definition start_effects :: "string \<Rightarrow> (string \<times> string) list \<Rightarrow> command \<Rightarrow> effect list" where
  "start_effects directory environ c =
     write_secrets (cm_temp_files c) @
     [Spawn (replace_temp_file_placeholders (cm_argv c) (secret_files directory (cm_temp_files c)))
        (process_environment environ c)]"

definition stdin_effects :: "command \<Rightarrow> effect list" where
  "stdin_effects c =
     (case cm_stdin c of None \<Rightarrow> []
      | Some data \<Rightarrow> Send_stdin data # (if cm_controlled_cancel c then [] else [Close_stdin]))"

text \<open>The \<open>finally\<close> blocks: an open input is closed, a living process is killed, the files go.\<close>

definition cleanup_effects :: "command \<Rightarrow> bool \<Rightarrow> bool \<Rightarrow> effect list" where
  "cleanup_effects c stdin_open alive =
     (if stdin_open then [Close_stdin] else []) @ (if alive then [Signal Sigkill] else []) @
     (if cm_temp_files c \<noteq> [] then [Remove_secrets] else [])"

type_synonym 's output_filter = "'s \<Rightarrow> stream \<times> string \<Rightarrow> 's \<times> string"

text \<open>Each chunk goes through the filter of the caller; what the filter returns is captured.\<close>

definition pump :: "'s output_filter \<Rightarrow> int option \<Rightarrow> stream \<times> string \<Rightarrow> 's \<times> string \<times> string \<Rightarrow> 's \<times> string \<times> string" where
  "pump on_output limit chunk st =
     (case st of (s, out, err) \<Rightarrow> case on_output s chunk of (s', kept) \<Rightarrow>
        (case fst chunk of Stdout \<Rightarrow> (s', capture limit out kept, err) | Stderr \<Rightarrow> (s', out, capture limit err kept)))"

definition finish_effects :: "command \<Rightarrow> exit_answers \<Rightarrow> ending \<Rightarrow> effect list" where
  "finish_effects c a how =
     (let held = (cm_stdin c \<noteq> None \<and> cm_controlled_cancel c) in
      case how of
        Exited code \<Rightarrow> cleanup_effects c held False
      | Timed_out \<Rightarrow> terminate_then_kill a @ cleanup_effects c held False
      | Aborted reason \<Rightarrow> fst (stop_process_gracefully c a) @ cleanup_effects c False False
      | Cancelled \<Rightarrow> fst (stop_process_gracefully c a) @ cleanup_effects c False False
      | Callback_failed e \<Rightarrow> cleanup_effects c held (\<not> ex_exited a))"

definition result_of :: "command \<Rightarrow> exit_answers \<Rightarrow> ending \<Rightarrow> string \<Rightarrow> string \<Rightarrow> execution_result" where
  "result_of c a how out err =
     (case how of
        Exited code \<Rightarrow> Returned code out err
      | Timed_out \<Rightarrow> Returned 124 out ''Command timed out''
      | Aborted reason \<Rightarrow> Returned 75 out reason
      | Cancelled \<Rightarrow> (case stop_process_gracefully c a of (e, forced, confirmed) \<Rightarrow> Command_cancelled forced confirmed)
      | Callback_failed e \<Rightarrow> Output_failed e)"

text \<open>\<open>spawn\<close> is the error with which the process cannot be started, if any.\<close>

definition execute ::
    "string \<Rightarrow> (string \<times> string) list \<Rightarrow> command \<Rightarrow> int option \<Rightarrow> 's output_filter \<Rightarrow> string option \<Rightarrow>
     (stream \<times> string) list \<Rightarrow> exit_answers \<Rightarrow> ending \<Rightarrow> 's \<Rightarrow> 's \<times> effect list \<times> execution_result" where
  "execute directory environ c limit on_output spawn chunks a how s =
     (case spawn of
        Some e \<Rightarrow> (s, write_secrets (cm_temp_files c) @ cleanup_effects c False False, Spawn_failed e)
      | None \<Rightarrow>
          (case fold (pump on_output limit) chunks (s, [], []) of (s', out, err) \<Rightarrow>
            (s', start_effects directory environ c @ stdin_effects c @ finish_effects c a how,
             result_of c a how out err)))"

section \<open>Facts\<close>

lemma terminate_then_kill_signals:
  "terminate_then_kill a =
     (if ex_exited a then [] else if ex_after_term a then [Signal Sigterm] else [Signal Sigterm, Signal Sigkill])"
  by (simp add: terminate_then_kill_def wait_after_signal_def)

text \<open>
  A command is stopped gently. When the remote wrapper confirms the end no signal is sent; the
  process gets SIGTERM only when it did not end after SIGINT, and SIGKILL only when it ended after
  neither; and the result says that it was forced exactly when more than SIGINT was needed.
\<close>

theorem stopping_escalates:
  "case stop_process_gracefully c a of (effects, forced, confirmed) \<Rightarrow>
     filter (\<lambda>e. e \<noteq> Close_stdin) effects =
       (if confirmed \<or> ex_exited a then []
        else if ex_after_int a then [Signal Sigint]
        else if ex_after_term a then [Signal Sigint, Signal Sigterm]
        else [Signal Sigint, Signal Sigterm, Signal Sigkill]) \<and>
     confirmed = (cm_controlled_cancel c \<and> cm_stdin c \<noteq> None \<and> ex_wrapper a) \<and>
     forced = (if confirmed \<or> ex_exited a then False else \<not> ex_after_int a)"
  by (simp add: stop_process_gracefully_def wait_after_signal_def terminate_then_kill_signals Let_def)

text \<open>The captured text is the end of what the filter let through, however it was cut into chunks.\<close>

definition end_of :: "int option \<Rightarrow> string \<Rightarrow> string" where
  "end_of limit s = (case limit of Some n \<Rightarrow> if 0 < n then drop (length s - nat n) s else s | None \<Rightarrow> s)"

lemma capture_end: "capture limit (end_of limit s) chunk = end_of limit (s @ chunk)"
proof (cases "\<exists>n. limit = Some n \<and> 0 < n")
  case True
  then obtain n where n: "limit = Some n" "0 < n" by blast
  have "drop (length (drop (length s - nat n) s @ chunk) - nat n) (drop (length s - nat n) s @ chunk) =
      drop (length (s @ chunk) - nat n) (s @ chunk)"
  proof (cases "nat n \<le> length s")
    case True
    then have "drop (length s - nat n) s @ chunk = drop (length s - nat n) (s @ chunk)" by simp
    then show ?thesis using True by (simp only: drop_drop length_drop length_append) (simp add: algebra_simps)
  qed simp
  moreover have "capture limit (end_of limit s) chunk =
      drop (length (drop (length s - nat n) s @ chunk) - nat n) (drop (length s - nat n) s @ chunk)"
    using n by (simp add: capture_def end_of_def Let_def)
  ultimately show ?thesis using n by (simp only: end_of_def option.case if_True)
next
  case False
  then show ?thesis by (auto simp: capture_def end_of_def Let_def split: option.splits)
qed

lemma end_of_nil [simp]: "end_of limit [] = []"
  by (simp add: end_of_def split: option.split)

text \<open>What a filter lets through of each stream.\<close>

fun filtered :: "'s output_filter \<Rightarrow> 's \<Rightarrow> (stream \<times> string) list \<Rightarrow> 's \<times> (stream \<times> string) list" where
  "filtered f s [] = (s, [])"
| "filtered f s (chunk # cs) =
     (case f s chunk of (s1, kept) \<Rightarrow> case filtered f s1 cs of (s2, ks) \<Rightarrow> (s2, (fst chunk, kept) # ks))"

lemma stream_data_Cons: "stream_data s ((t, d) # cs) = (if t = s then d @ stream_data s cs else stream_data s cs)"
  by (simp add: stream_data_def)

lemma pump_step:
  "pump f limit (t, d) (s, end_of limit o0, end_of limit e0) =
     (fst (f s (t, d)), end_of limit (if t = Stdout then o0 @ snd (f s (t, d)) else o0),
      end_of limit (if t = Stderr then e0 @ snd (f s (t, d)) else e0))"
  by (cases t) (simp_all add: pump_def capture_end split_beta)

lemma filtered_Cons:
  "filtered f s (chunk # cs) =
     (fst (filtered f (fst (f s chunk)) cs), (fst chunk, snd (f s chunk)) # snd (filtered f (fst (f s chunk)) cs))"
  by (simp add: split_beta)

lemma pump_filtered:
  "fold (pump f limit) cs (s, end_of limit o0, end_of limit e0) =
     (fst (filtered f s cs), end_of limit (o0 @ stream_data Stdout (snd (filtered f s cs))),
      end_of limit (e0 @ stream_data Stderr (snd (filtered f s cs))))"
proof (induction cs arbitrary: s o0 e0)
  case Nil
  show ?case by (simp add: stream_data_def)
next
  case (Cons chunk cs)
  obtain t d where chunk: "chunk = (t, d)" by fastforce
  show ?case
    by (cases t) (simp_all add: chunk pump_step Cons.IH filtered_Cons stream_data_Cons del: filtered.simps)
qed

text \<open>
  However a command ends, the secrets written for it are removed after everything else, no
  secret is written once the process has been started, and the texts returned are the ends of what
  the caller's filter let through of the two streams.
\<close>

theorem execution_cleans_up:
  "case execute directory environ c limit f spawn chunks a how s of (s', effects, result) \<Rightarrow>
     (if cm_temp_files c = [] then Remove_secrets \<notin> set effects
      else last effects = Remove_secrets \<and> Remove_secrets \<notin> set (butlast effects)) \<and>
     list_all (\<lambda>e. case e of Write_secret i t \<Rightarrow> False | _ \<Rightarrow> True)
       (dropWhile (\<lambda>e. case e of Write_secret i t \<Rightarrow> True | _ \<Rightarrow> False) effects) \<and>
     (case result of Returned code out err \<Rightarrow>
        out = end_of limit (stream_data Stdout (snd (filtered f s chunks))) \<and>
        (case how of Exited n \<Rightarrow> code = n \<and> err = end_of limit (stream_data Stderr (snd (filtered f s chunks)))
         | Timed_out \<Rightarrow> code = 124 | Aborted r \<Rightarrow> code = 75 \<and> err = r | _ \<Rightarrow> False)
      | _ \<Rightarrow> True)"
proof -
  define writes where "writes = write_secrets (cm_temp_files c)"
  have w: "list_all (\<lambda>e. case e of Write_secret i t \<Rightarrow> True | _ \<Rightarrow> False) writes"
    by (auto simp: writes_def write_secrets_def list_all_iff)
  define body where "body = (case spawn of Some e \<Rightarrow> []
     | None \<Rightarrow> Spawn (replace_temp_file_placeholders (cm_argv c) (secret_files directory (cm_temp_files c)))
         (process_environment environ c) # stdin_effects c @
       (case how of Timed_out \<Rightarrow> terminate_then_kill a | Aborted r \<Rightarrow> fst (stop_process_gracefully c a)
        | Cancelled \<Rightarrow> fst (stop_process_gracefully c a) | _ \<Rightarrow> []))"
  define rest where "rest = (let held = (cm_stdin c \<noteq> None \<and> cm_controlled_cancel c) in case spawn of Some e \<Rightarrow> []
     | None \<Rightarrow> (case how of Exited n \<Rightarrow> (if held then [Close_stdin] else []) | Timed_out \<Rightarrow> (if held then [Close_stdin] else [])
        | Callback_failed e \<Rightarrow> (if held then [Close_stdin] else []) @ (if ex_exited a then [] else [Signal Sigkill]) | _ \<Rightarrow> []))"
  have plain: "list_all (\<lambda>e. e \<noteq> Remove_secrets \<and> (case e of Write_secret i t \<Rightarrow> False | _ \<Rightarrow> True)) (body @ rest)"
    by (auto simp: body_def rest_def stdin_effects_def stop_process_gracefully_def wait_after_signal_def
        terminate_then_kill_signals Let_def split: option.splits ending.splits)
  have effects: "fst (snd (execute directory environ c limit f spawn chunks a how s)) =
      writes @ body @ rest @ (if cm_temp_files c \<noteq> [] then [Remove_secrets] else [])"
    by (auto simp: execute_def writes_def body_def rest_def start_effects_def finish_effects_def cleanup_effects_def
        Let_def split: option.splits ending.splits prod.splits)
  have drop: "dropWhile (\<lambda>e. case e of Write_secret i t \<Rightarrow> True | _ \<Rightarrow> False) (writes @ z) =
      dropWhile (\<lambda>e. case e of Write_secret i t \<Rightarrow> True | _ \<Rightarrow> False) z" for z
    using w by (simp add: list_all_iff dropWhile_append2)
  have "writes \<noteq> [] \<Longrightarrow> Remove_secrets \<notin> set writes" using w by (auto simp: list_all_iff)
  then have notin: "Remove_secrets \<notin> set (writes @ body @ rest)"
    using w plain by (auto simp: list_all_iff)
  have result: "snd (snd (execute directory environ c limit f spawn chunks a how s)) =
      (case spawn of Some e \<Rightarrow> Spawn_failed e
       | None \<Rightarrow> result_of c a how (end_of limit (stream_data Stdout (snd (filtered f s chunks))))
           (end_of limit (stream_data Stderr (snd (filtered f s chunks)))))"
    using pump_filtered [of f limit chunks s "[]" "[]"] by (auto simp: execute_def split: option.splits)
  show ?thesis
    using notin plain
    by (cases "execute directory environ c limit f spawn chunks a how s")
      (use effects result in \<open>auto simp: drop butlast_append list_all_iff result_of_def
         split: option.splits ending.splits prod.splits dest!: set_dropWhileD\<close>)
qed

end
