(* ===== verification/BorgVersion.thy ===== *)
theory BorgVersion
  imports Regex
begin

text \<open>
  Which Borg versions the manager accepts, \<open>src/app/borg_compat.py\<close>: reading a version from a log,
  its classification, and the decisions of the shell probe that runs on a device. The German titles
  and messages of a classification are left out.
\<close>

section \<open>Reading a version\<close>

definition rx_number :: rx where
  "rx_number = Or (rx_text ''0'') (Cat (One (\<lambda>c. is_digit c \<and> c \<noteq> CHR 0x30)) (Many True rx_digit))"

definition rx_version :: rx where
  "rx_version = Grp 1 (rx_seq [Or (rx_text ''1'') (rx_text ''2''), rx_text ''.'', rx_number, rx_text ''.'', rx_number])"

text \<open>The three patterns, tried one after the other on the whole text.\<close>

definition version_patterns :: "rx list" where
  "version_patterns =
    [rx_seq [rx_spaces, rx_itext ''BORG AUF CLIENT:'', rx_spaces, rx_version, rx_spaces, Stop True],
     rx_seq [rx_spaces, Or (rx_itext ''BBM_BORG_VERSION'') (rx_itext ''BBM_CLIENT_BORG_VERSION''), rx_text ''='',
       rx_version, rx_spaces, Stop True],
     rx_seq [rx_spaces, rx_itext ''borg'', Opt True (rx_itext ''backup''),
       Opt True (rx_seq [rx_plus rx_space, rx_itext ''version'']), rx_plus rx_space, rx_version, Or rx_space (Stop True)]]"

definition parse_borg_version :: "string option \<Rightarrow> string option" where
  "parse_borg_version text =
     (if \<not> truthy text then None
      else case filter (\<lambda>m. m \<noteq> None) (map (\<lambda>r. re_search_lines r True (the text)) version_patterns) of
        [] \<Rightarrow> None
      | m # _ \<Rightarrow> map_option (group 1) m)"

type_synonym version = "nat \<times> nat \<times> nat"

definition version_number_rx :: rx where
  "version_number_rx = rx_seq [Grp 1 rx_number, rx_text ''.'', Grp 2 rx_number, rx_text ''.'', Grp 3 rx_number]"

definition version_tuple :: "string option \<Rightarrow> version option" where
  "version_tuple version =
     (if \<not> truthy version then None
      else map_option (\<lambda>g. (digits_value (group 1 g), digits_value (group 2 g), digits_value (group 3 g)))
        (re_fullmatch version_number_rx (the version)))"

section \<open>Classification\<close>

definition version_less :: "version \<Rightarrow> version \<Rightarrow> bool" where
  "version_less v w =
     (case v of (a, b, c) \<Rightarrow> case w of (x, y, z) \<Rightarrow> a < x \<or> (a = x \<and> (b < y \<or> (b = y \<and> c < z))))"

definition borg_minimum :: version where "borg_minimum = (1, 2, 0)"
definition borg_security_fixed :: version where "borg_security_fixed = (1, 2, 5)"
definition borg_recommended :: version where "borg_recommended = (1, 2, 8)"
definition borg_maximum_exclusive :: version where "borg_maximum_exclusive = (1, 5, 0)"

definition classify_version :: "version option \<Rightarrow> bool \<times> string" where
  "classify_version parsed =
     (case parsed of
        None \<Rightarrow> (False, ''unknown'')
      | Some v \<Rightarrow>
          if version_less v borg_minimum then (False, ''unsupported'')
          else if \<not> version_less v borg_maximum_exclusive then (False, ''unsupported'')
          else if version_less v borg_security_fixed then (True, ''critical'')
          else if version_less v borg_recommended then (True, ''warning'')
          else (True, ''ok''))"

definition classify_borg_version :: "string option \<Rightarrow> bool \<times> string" where
  "classify_borg_version version = classify_version (version_tuple version)"

section \<open>The probe of a device\<close>

text \<open>What the probe ends with: its exit code, and the notice it prints.\<close>

datatype probe_notice = No_notice | Unsupported_notice | Spoofing_notice | Outdated_notice

text \<open>The answers of the three ways to ask a Borg for its version: the output of a command that succeeded.\<close>

definition probe_output :: "string option list \<Rightarrow> string option" where
  "probe_output answers = (case filter (\<lambda>a. a \<noteq> None) answers of [] \<Rightarrow> None | a # _ \<Rightarrow> a)"

text \<open>The \<open>sed\<close> expression on the first line that has a version; its leading \<open>.*\<close> is greedy.\<close>

definition sed_version_rx :: rx where
  "sed_version_rx = rx_seq [Many True rx_any, Grp 1 (rx_seq [rx_plus rx_digit, rx_text ''.'', rx_plus rx_digit, rx_text ''.'',
     rx_plus rx_digit]), Many True rx_any]"

definition sed_version :: "string \<Rightarrow> string" where
  "sed_version output =
     (case filter (\<lambda>m. m \<noteq> None) (map (re_match sed_version_rx) (split_on newline output)) of
        Some g # _ \<Rightarrow> group 1 g
      | _ \<Rightarrow> [])"

definition probe_version :: "bool \<Rightarrow> version \<Rightarrow> nat \<times> probe_notice list" where
  "probe_version fail_unsupported v =
     (case v of (major, minor, patch) \<Rightarrow>
       let unsupported = (if major = 1 \<and> 2 \<le> minor \<and> minor \<le> 4 then [] else [Unsupported_notice]);
           age = (if major = 1 \<and> minor = 2 \<and> patch < 5 then [Spoofing_notice]
                  else if major = 1 \<and> minor = 2 \<and> patch < 8 then [Outdated_notice] else []) in
       if unsupported \<noteq> [] \<and> fail_unsupported then (76, unsupported) else (0, unsupported @ age))"

definition version_of_parts :: "string \<Rightarrow> version" where
  "version_of_parts s =
     (let parts = map digits_value (split_on (CHR 0x2E) s) in
      (parts ! 0, parts ! 1, parts ! 2))"

definition version_probe :: "bool \<Rightarrow> string option list \<Rightarrow> nat \<times> probe_notice list" where
  "version_probe fail_unsupported answers =
     (case probe_output answers of
        None \<Rightarrow> (76, [])
      | Some output \<Rightarrow>
          (let v = sed_version output in
           if v = [] then (76, []) else probe_version fail_unsupported (version_of_parts v)))"

section \<open>The probe and the manager agree\<close>

definition notices_of_level :: "string \<Rightarrow> probe_notice list" where
  "notices_of_level level =
     (if level = ''unsupported'' then [Unsupported_notice] else if level = ''critical'' then [Spoofing_notice]
      else if level = ''warning'' then [Outdated_notice] else [])"

text \<open>
  The probe on a device and the classification of the manager agree on every version: the probe
  ends with code 76 for exactly the versions the manager does not support, and prints the notice of
  the level the manager shows.
\<close>

theorem probe_agrees_with_classification:
  "probe_version True v =
     (if fst (classify_version (Some v)) then 0 else 76, notices_of_level (snd (classify_version (Some v))))"
  by (cases v) (auto simp: probe_version_def classify_version_def version_less_def borg_minimum_def
      borg_maximum_exclusive_def borg_security_fixed_def borg_recommended_def notices_of_level_def)

end
