(* ===== verification/BackupStats.thy ===== *)
theory BackupStats
  imports Regex Progress RestoreProgress
begin

text \<open>
  The statistics at the end of a run, \<open>src/app/backup_stats.py\<close>: the last block \<open>This archive\<close> of
  \<open>borg create --stats\<close>, and the marker line of a source scan, whose JSON is read by the library
  record \<open>json_lib\<close>. Floating point numbers are rational.
\<close>

section \<open>Searching lines\<close>

text \<open>\<open>finditer\<close> with a multiline pattern that begins with \<open>^\<close>: the groups of each match, in order.\<close>

function find_lines :: "rx \<Rightarrow> bool \<Rightarrow> string \<Rightarrow> captures list" where
  "find_lines r at_start s =
     (case (if at_start then rx_matches r (s, []) else []) of
        t # _ \<Rightarrow> (if length (fst t) < length s
                 then snd t # find_lines r (s ! (length s - length (fst t) - 1) = newline) (fst t)
                 else case s of [] \<Rightarrow> [] | c # s' \<Rightarrow> find_lines r (c = newline) s')
      | [] \<Rightarrow> (case s of [] \<Rightarrow> [] | c # s' \<Rightarrow> find_lines r (c = newline) s'))"
  by pat_completeness auto
termination by (relation "measure (\<lambda>(r, b, s). length s)") auto

declare find_lines.simps [simp del]

definition last_match :: "rx \<Rightarrow> string \<Rightarrow> captures option" where
  "last_match r s = (case rev (find_lines r True s) of [] \<Rightarrow> None | g # _ \<Rightarrow> Some g)"

definition rx_gap :: rx where
  "rx_gap = rx_seq [rx_space, rx_space, rx_spaces]"

definition archive_name_rx :: rx where
  "archive_name_rx = rx_seq [rx_itext ''Archive name:'', rx_spaces, Grp 1 (rx_lazy rx_any), rx_spaces, Stop True]"

definition file_count_rx :: rx where
  "file_count_rx = rx_seq [rx_itext ''Number of files:'', rx_spaces, Grp 1 (rx_plus rx_digit), rx_spaces, Stop True]"

definition this_archive_rx :: rx where
  "this_archive_rx = rx_seq [rx_itext ''This archive:'', rx_spaces, Grp 1 (rx_lazy rx_any), rx_gap,
     Grp 2 (rx_lazy rx_any), rx_gap, Grp 3 (rx_lazy rx_any), rx_spaces, Stop True]"

definition source_scan_rx :: rx where
  "source_scan_rx = rx_seq [rx_text ''BBM_SOURCE_STATS_JSON='', Grp 1 (rx_seq [rx_text ''{'', Many True rx_any, rx_text ''}'']),
     rx_spaces, Stop True]"

section \<open>Sizes\<close>

definition size_units :: "(string \<times> int) list" where
  "size_units =
    [(''b'', 1), (''byte'', 1), (''bytes'', 1), (''kb'', 1000), (''mb'', 1000 ^ 2), (''gb'', 1000 ^ 3),
     (''tb'', 1000 ^ 4), (''pb'', 1000 ^ 5), (''eb'', 1000 ^ 6), (''kib'', 1024), (''mib'', 1024 ^ 2),
     (''gib'', 1024 ^ 3), (''tib'', 1024 ^ 4), (''pib'', 1024 ^ 5), (''eib'', 1024 ^ 6)]"

text \<open>A number, white space and a unit without regard to case: \<open>_SIZE_RE\<close>.\<close>

definition parse_human_size :: "string \<Rightarrow> int option" where
  "parse_human_size value =
     (case decimal (py_strip value) of
        None \<Rightarrow> None
      | Some (number, rest) \<Rightarrow>
          map_option (\<lambda>multiplier. max 0 (round_half_even (number * of_int multiplier)))
            (map_of size_units (py_casefold (dropWhile is_space rest))))"

section \<open>The end of a backup\<close>

record run_statistics =
  st_original :: "int option"
  st_compressed :: "int option"
  st_deduplicated :: "int option"
  st_files :: "int option"
  st_archive :: "string option"

definition parse_backup_statistics :: "string \<Rightarrow> run_statistics option" where
  "parse_backup_statistics text =
     map_option (\<lambda>g.
       \<lparr>st_original = parse_human_size (group 1 g), st_compressed = parse_human_size (group 2 g),
        st_deduplicated = parse_human_size (group 3 g),
        st_files = map_option (\<lambda>f. int (digits_value (group 1 f))) (last_match file_count_rx text),
        st_archive = map_option (\<lambda>a. py_strip (group 1 a)) (last_match archive_name_rx text)\<rparr>)
     (last_match this_archive_rx text)"

section \<open>The scan of the sources\<close>

text \<open>\<open>int(v)\<close>, where \<open>None\<close> and the containers raise.\<close>

fun json_int_value :: "json \<Rightarrow> int option" where
  "json_int_value (JBool b) = Some (if b then 1 else 0)"
| "json_int_value (JInt n) = Some n"
| "json_int_value (JFloat x) = Some (if x < 0 then \<lceil>x\<rceil> else \<lfloor>x\<rfloor>)"
| "json_int_value (JStr s) = parse_int s"
| "json_int_value v = None"

record source_statistics =
  ss_size :: int
  ss_files :: int
  ss_method :: string
  ss_warnings :: int
  ss_path_excluded :: int
  ss_unsupported :: "string list"
  ss_nodump :: json
  ss_quality :: string
  ss_sources :: "(string \<times> int \<times> int) list"

definition json_list :: "json \<Rightarrow> json list" where
  "json_list v = (case v of JList l \<Rightarrow> l | _ \<Rightarrow> [])"

definition str_json :: "json_lib \<Rightarrow> json \<Rightarrow> string" where
  "str_json lib v = (case v of JStr s \<Rightarrow> s | _ \<Rightarrow> jl_str lib v)"

definition or_text :: "json_lib \<Rightarrow> json \<Rightarrow> string \<Rightarrow> string" where
  "or_text lib v d = (if json_truthy v then str_json lib v else d)"

definition source_row :: "json_lib \<Rightarrow> json \<Rightarrow> (string \<times> int \<times> int) list" where
  "source_row lib item =
     (case item of
        JObj d \<Rightarrow>
          (case (json_whole (json_get ''size_bytes'' d), json_whole (json_get ''file_count'' d)) of
             (Some bytes, Some count) \<Rightarrow>
               (let path = py_strip (json_text lib (json_get ''path'' d)) in
                if path = [] then [] else [(path, max 0 bytes, max 0 count)])
           | _ \<Rightarrow> [])
      | _ \<Rightarrow> [])"

text \<open>
  The counters at the end are converted outside the exception handler: \<open>Inl\<close> is the exception they
  raise, \<open>Inr None\<close> a log without usable statistics. The counters that nobody reads afterwards are
  converted all the same.
\<close>

definition scan_counters :: "string list" where
  "scan_counters = [''warning_count'', ''skipped_mount_count'', ''included_mount_count'', ''path_excluded_count'',
     ''excluded_file_count'', ''excluded_size_bytes'']"

definition source_statistics_of :: "json_lib \<Rightarrow> (string \<times> json) list \<Rightarrow> int \<Rightarrow> int \<Rightarrow> source_statistics" where
  "source_statistics_of lib d bytes count =
     (let sources = concat (map (source_row lib) (json_list (json_get ''sources'' d)));
          counter = (\<lambda>k. max 0 (or_else (json_whole (json_get k d)) 0)) in
      \<lparr>ss_size = max 0 bytes, ss_files = max 0 count, ss_method = or_text lib (json_get ''method'' d) ''live-scan'',
       ss_warnings = counter ''warning_count'', ss_path_excluded = counter ''path_excluded_count'',
       ss_unsupported = map (str_json lib) (take 50 (json_list (json_get ''unsupported_patterns'' d))),
       ss_nodump = json_get ''nodump_supported'' d,
       ss_quality = or_text lib (json_get ''quality'' d) (if sources \<noteq> [] then ''high'' else ''partial''),
       ss_sources = sources\<rparr>)"

definition parse_source_scan_statistics ::
    "json_lib \<Rightarrow> string \<Rightarrow> (string, source_statistics option) result" where
  "parse_source_scan_statistics lib text =
     (case Option.bind (last_match source_scan_rx text) (\<lambda>g. jl_loads lib (group 1 g)) of
        Some (JObj d) \<Rightarrow>
          (case (json_int_value (json_get ''size_bytes'' d), json_int_value (json_get ''file_count'' d)) of
             (Some bytes, Some count) \<Rightarrow>
               (if list_all (\<lambda>k. json_whole (json_get k d) \<noteq> None) scan_counters
                then Inr (Some (source_statistics_of lib d bytes count))
                else Inl ''invalid literal for int()'')
           | _ \<Rightarrow> Inr None)
      | _ \<Rightarrow> Inr None)"

section \<open>Facts\<close>

lemma decimal_whole:
  assumes "s = [] \<or> \<not> is_digit (hd s) \<and> hd s \<noteq> CHR ''.'' \<and> hd s \<noteq> CHR '',''"
  shows "decimal (str_nat n @ s) = Some (of_nat n, s)"
proof -
  have d: "\<And>c. c \<in> set (str_nat n) \<Longrightarrow> is_digit c" by (rule str_nat_digits)
  have t: "takeWhile is_digit s = []" "dropWhile is_digit s = s" using assms by (cases s; simp)+
  have "takeWhile is_digit (str_nat n @ s) = str_nat n" "dropWhile is_digit (str_nat n @ s) = s"
    using d t by (simp_all add: takeWhile_append2 dropWhile_append2)
  moreover have "str_nat n \<noteq> []" by (simp add: str_nat.simps [of n])
  ultimately show ?thesis using assms by (auto simp: decimal_def Let_def)
qed

text \<open>A size in bytes is read back exactly.\<close>

lemma human_size_bytes: "parse_human_size (str_nat n @ '' B'') = Some (int n)"
proof -
  have ne: "str_nat n \<noteq> []" by (simp add: str_nat.simps [of n])
  have d: "\<And>c. c \<in> set (str_nat n) \<Longrightarrow> is_digit c" by (rule str_nat_digits)
  have "\<not> is_space (hd (str_nat n))"
    using d [of "hd (str_nat n)"] ne by (auto simp: is_digit_def is_space_def Let_def)
  then have l: "dropWhile is_space (str_nat n @ '' B'') = str_nat n @ '' B''"
    using ne by (cases "str_nat n") auto
  have "\<not> is_space (CHR ''B'')" by code_simp
  then have strip: "py_strip (str_nat n @ '' B'') = str_nat n @ '' B''"
    by (simp add: py_strip_def strip_by_def lstrip_by_def rstrip_by_def l)
  have dec: "decimal (str_nat n @ '' B'') = Some (of_nat n, '' B'')"
    by (rule decimal_whole) (simp add: is_digit_def char_code_def)
  have unit: "map_of size_units (py_casefold (dropWhile is_space '' B'')) = Some 1" by code_simp
  have "parse_human_size (str_nat n @ '' B'') = Some (max 0 (round_half_even (of_nat n * of_int 1)))"
    unfolding parse_human_size_def strip dec option.case prod.case unit by simp
  then show ?thesis using round_half_even_of_int [of "int n"] by simp
qed

end
