(* ===== verification/StorageMonitor.thy ===== *)
theory StorageMonitor
  imports Builders StorageGuard LogFilter RunLogs
begin

text \<open>
  The file system of an external repository, probed over SSH: parsing the answer of \<open>df\<close>
  (\<open>parse_external_repository_storage\<close> in \<open>runner.py\<close>), storing it, and the monitor of \<open>service.py\<close>
  that stops a running backup when the storage guard is reached or can no longer be checked. What
  counts as a technical text is \<open>detail_requires_debug_log\<close> of \<open>debug_logging.py\<close>. The answer of
  the command is an argument.
\<close>

section \<open>Technical texts\<close>

definition technical_markers :: "string list" where
  "technical_markers =
    [''Traceback (most recent call last)'', ''During handling of the above exception'',
     ''The above exception was the direct cause'', ''ExceptionGroup Traceback'',
     ''  File '' @ [CHR 0x22], ''  File '' @ [CHR 0x27], ''sqlalchemy.exc.'', ''pydantic_core._pydantic_core'',
     ''starlette.middleware'', ''fastapi.routing'']"

definition exception_line_rx :: rx where
  "exception_line_rx =
     rx_seq [One (\<lambda>c. is_alpha c \<or> c = CHR 0x5F), Many True (One (\<lambda>c. is_alnum c \<or> c = CHR 0x5F \<or> c = CHR 0x2E)),
       Or (rx_text ''Error'') (rx_text ''Exception''), rx_text '':'']"

definition detail_requires_debug_log :: "string \<Rightarrow> bool" where
  "detail_requires_debug_log detail =
     (let text = py_strip detail in
      text \<noteq> [] \<and> (list_ex (\<lambda>m. contains m text) technical_markers \<or>
        (re_search_lines exception_line_rx True text \<noteq> None \<and> newline \<in> set text)))"

definition public_error_message :: "string \<Rightarrow> string" where
  "public_error_message error_id =
     ''Unerwarteter interner Fehler. Details wurden im Debug-Log gespeichert. Fehler-ID: '' @ error_id"

section \<open>The answer of a probe\<close>

record external_usage =
  eu_total :: int
  eu_used :: int
  eu_free :: int
  eu_percent :: rat
  eu_path :: string
  eu_mount_point :: string

definition percent_word :: "string \<Rightarrow> bool" where
  "percent_word w = (w \<noteq> [] \<and> last w = CHR 0x25 \<and> butlast w \<noteq> [] \<and> list_all is_digit (butlast w))"

text \<open>One line of \<open>df -m\<close>: the first word that is a percentage, with three numbers before it.\<close>

definition df_line :: "string \<Rightarrow> string \<Rightarrow> external_usage option" where
  "df_line repository_path line =
     (let parts = split_ws line; i = length (takeWhile (\<lambda>w. \<not> percent_word w) parts) in
      if length parts \<le> i \<or> i < 3 then None
      else case (py_int_text (parts ! (i - 3)), py_int_text (parts ! (i - 2)), py_int_text (parts ! (i - 1))) of
        (Some total_blocks, Some used_blocks, Some free_blocks) \<Rightarrow>
          (let mount_point = join_with '' '' (drop (i + 1) parts) in
           Some \<lparr>eu_total = total_blocks * 1024 * 1024, eu_used = used_blocks * 1024 * 1024,
             eu_free = free_blocks * 1024 * 1024,
             eu_percent = round_tenth (of_nat (digits_value (butlast (parts ! i)))),
             eu_path = repository_path,
             eu_mount_point = (if mount_point = [] then repository_path else mount_point)\<rparr>)
      | _ \<Rightarrow> None)"

text \<open>The last line that can be read counts.\<close>

definition parse_external_repository_storage :: "string \<Rightarrow> string \<Rightarrow> external_usage fallible" where
  "parse_external_repository_storage output repository_path =
     (let lines = filter (\<lambda>l. l \<noteq> []) (map py_strip (text_rows (unix_breaks output))) in
      case List.map_filter (df_line repository_path) (rev lines) of
        u # _ \<Rightarrow> Inr u
      | [] \<Rightarrow> Inl ''Dateisystemausgabe des externen Repositorys konnte nicht ausgewertet werden'')"

text \<open>The ellipsis has no code point below 256; another character stands for it.\<close>

definition ellipsis :: string where
  "ellipsis = [CHR 0x85]"

definition external_storage_error_text :: "string \<Rightarrow> string \<Rightarrow> int \<Rightarrow> string" where
  "external_storage_error_text output error code =
     (let raw = (if error \<noteq> [] then error else if output \<noteq> [] then output else ''SSH/df exit code '' @ int_text code);
          detail = join_with '' '' (split_ws raw);
          detail = (if 500 < length detail then take 497 detail @ ellipsis else detail) in
      if detail = [] then ''Unbekannter Fehler bei der externen Dateisystempr'' @ [CHR 0xFC] @ ''fung'' else detail)"

section \<open>Refreshing a repository\<close>

datatype probe_failure = Lookup_failure string | Value_failure string

definition store_external_storage_error :: "nat \<Rightarrow> string \<Rightarrow> manager_db \<Rightarrow> manager_db" where
  "store_external_storage_error i message db =
     modify_repository i (\<lambda>r. if truthy (rp_storage_path r) then r else r\<lparr>rp_ext_error := Some (take 2000 message)\<rparr>) db"

definition with_usage :: "time \<Rightarrow> external_usage \<Rightarrow> repository \<Rightarrow> repository" where
  "with_usage now u r =
     (let path = take 500 (if eu_mount_point u = [] then eu_path u else eu_mount_point u) in
      r\<lparr>rp_ext_total_bytes := Some (eu_total u), rp_ext_used_bytes := Some (eu_used u),
        rp_ext_free_bytes := Some (eu_free u), rp_ext_usage_percent := Some (eu_percent u),
        rp_ext_path := (if path = [] then None else Some path), rp_ext_checked_at := Some now, rp_ext_error := None\<rparr>)"

text \<open>The guard the answer is compared with: enabled, threshold, and whether it blocks.\<close>

definition store_external_storage_usage ::
    "time \<Rightarrow> settings \<Rightarrow> nat \<Rightarrow> external_usage \<Rightarrow> manager_db \<Rightarrow> (probe_failure, bool \<times> int \<times> bool) result \<times> manager_db" where
  "store_external_storage_usage now st i u db =
     (case get_repository db i of
        None \<Rightarrow> (Inl (Lookup_failure ''Repository not found''), db)
      | Some r \<Rightarrow>
          if truthy (rp_storage_path r)
          then (Inl (Value_failure ''External storage usage can only be stored for external repositories''), db)
          else (case effective_storage_guard r st of (enabled, threshold, source) \<Rightarrow>
            (Inr (enabled, threshold, guard_blocks enabled (eu_percent u) threshold),
             modify_repository i (with_usage now u) db)))"

text \<open>The answer of the probe command: exit code, output and error output.\<close>

type_synonym probe_answer = "int \<times> string \<times> string"

definition probe_error :: "string \<Rightarrow> probe_answer \<Rightarrow> string" where
  "probe_error error_id answer =
     (case answer of (code, output, error) \<Rightarrow>
       (let technical = py_strip (join_with [newline] (filter (\<lambda>p. p \<noteq> []) [output, error])) in
        external_storage_error_text output error code @
          (if detail_requires_debug_log technical
           then '' Technische Details: Debug-Log, Fehler-ID '' @ error_id @ ''.'' else [])))"

definition fail_storage :: "nat \<Rightarrow> string \<Rightarrow> manager_db \<Rightarrow> (probe_failure, 'a) result \<times> manager_db" where
  "fail_storage i message db = (Inl (Value_failure message), store_external_storage_error i message db)"

definition refresh_external_repository_storage ::
    "runtime \<Rightarrow> vault \<Rightarrow> settings \<Rightarrow> time \<Rightarrow> string \<Rightarrow> (command \<Rightarrow> probe_answer) \<Rightarrow> nat \<Rightarrow> manager_db \<Rightarrow>
     (probe_failure, external_usage) result \<times> manager_db" where
  "refresh_external_repository_storage rt v st now error_id probe i db =
     (case get_repository db i of
        None \<Rightarrow> (Inl (Lookup_failure ''Repository not found''), db)
      | Some r \<Rightarrow>
          if truthy (rp_storage_path r) then (Inl (Value_failure ''Repository ist nicht extern''), db)
          else if \<not> rp_enabled r then (Inl (Value_failure ''Repository ist deaktiviert''), db)
          else (case url_fallible (storage_probe_target_from_location (ru_url rt) (rp_location r)) of
             Inl e \<Rightarrow> (Inl (Value_failure e), db)
           | Inr None \<Rightarrow> fail_storage i (''Externe Dateisystempr'' @ [CHR 0xFC] @ ''fung ben'' @ [CHR 0xF6] @
               ''tigt ein SSH-Repository mit Benutzer und Host'') db
           | Inr (Some target) \<Rightarrow>
               (case external_repository_storage_command rt v r of
                  Inl e \<Rightarrow> fail_storage i e db
                | Inr c \<Rightarrow>
                    (case probe c of (code, output, error) \<Rightarrow>
                       if code \<noteq> 0 then fail_storage i (probe_error error_id (code, output, error)) db
                       else (case parse_external_repository_storage output (pt_path target) of
                          Inl e \<Rightarrow> fail_storage i e db
                        | Inr u \<Rightarrow>
                            (case store_external_storage_usage now st i u db of
                               (Inl f, db') \<Rightarrow> (Inl f, db')
                             | (Inr g, db') \<Rightarrow> (Inr u, db')))))))"

section \<open>The monitor of a running backup\<close>

definition max_probe_failures :: nat where
  "max_probe_failures = 2"

definition poll_seconds :: nat where
  "poll_seconds = 15"

text \<open>Why a backup is stopped.\<close>

datatype abort_reason = Unchecked nat probe_failure | Storage_full rat string

text \<open>
  One result per poll; the monitor ends with the poll that stops the backup, or is cancelled when the
  backup ends and there are no more polls.
\<close>

fun monitor_storage ::
    "bool \<Rightarrow> int \<Rightarrow> nat \<Rightarrow> (probe_failure, external_usage) result list \<Rightarrow> (nat \<times> abort_reason) option" where
  "monitor_storage guard threshold failures [] = None"
| "monitor_storage guard threshold failures (Inl e # polls) =
     (if guard \<and> max_probe_failures \<le> Suc failures then Some (0, Unchecked (Suc failures) e)
      else map_option (\<lambda>(k, r). (Suc k, r)) (monitor_storage guard threshold (Suc failures) polls))"
| "monitor_storage guard threshold failures (Inr u # polls) =
     (if guard_blocks guard (eu_percent u) threshold
      then Some (0, Storage_full (eu_percent u) (if eu_mount_point u = [] then eu_path u else eu_mount_point u))
      else map_option (\<lambda>(k, r). (Suc k, r)) (monitor_storage guard threshold 0 polls))"

text \<open>The poll \<open>k\<close> is one that must stop a guarded backup: the threshold, or the second failure in a row.\<close>

definition failed_poll :: "(probe_failure, external_usage) result list \<Rightarrow> nat \<Rightarrow> bool" where
  "failed_poll polls k = (case polls ! k of Inl e \<Rightarrow> True | Inr u \<Rightarrow> False)"

definition stops_at :: "nat \<Rightarrow> int \<Rightarrow> (probe_failure, external_usage) result list \<Rightarrow> nat \<Rightarrow> bool" where
  "stops_at failures threshold polls k =
     (case polls ! k of Inl e \<Rightarrow> (if k = 0 then 0 < failures else failed_poll polls (k - 1))
      | Inr u \<Rightarrow> of_int threshold \<le> eu_percent u)"

lemma monitor_unguarded: "monitor_storage False threshold n polls = None"
proof (induction polls arbitrary: n)
  case (Cons p polls)
  then show ?case by (cases p) (simp_all add: guard_blocks_def)
qed simp

lemma stops_at_Suc:
  "stops_at n th (p # polls) (Suc k) = stops_at (case p of Inl e \<Rightarrow> Suc n | Inr u \<Rightarrow> 0) th polls k"
  by (cases k) (auto simp: stops_at_def failed_poll_def split: sum.splits)

lemma all_less_Suc_shift: "(\<forall>j < Suc k. P j) \<longleftrightarrow> P 0 \<and> (\<forall>j < k. P (Suc j))"
  by (metis less_Suc_eq_0_disj)

lemma monitor_first:
  "case monitor_storage True th n polls of
     None \<Rightarrow> \<forall>j < length polls. \<not> stops_at n th polls j
   | Some (k, r) \<Rightarrow> k < length polls \<and> stops_at n th polls k \<and> (\<forall>j < k. \<not> stops_at n th polls j)"
proof (induction polls arbitrary: n)
  case (Cons p polls)
  show ?case
  proof (cases "stops_at n th (p # polls) 0")
    case True
    then show ?thesis
      by (cases p) (auto simp: stops_at_def guard_blocks_def max_probe_failures_def)
  next
    case False
    define m where "m = (case p of Inl e \<Rightarrow> Suc n | Inr u \<Rightarrow> 0)"
    have step: "monitor_storage True th n (p # polls) = map_option (\<lambda>(k, r). (Suc k, r)) (monitor_storage True th m polls)"
      using False by (cases p) (auto simp: m_def stops_at_def guard_blocks_def max_probe_failures_def)
    show ?thesis
      using Cons.IH [of m] False
      by (auto simp: step all_less_Suc_shift stops_at_Suc m_def [symmetric] split: option.splits)
  qed
qed simp

text \<open>
  A guarded backup is stopped at the first poll that reports the threshold or is the second
  failure in a row, and at no other; a backup whose guard is off is never stopped by the monitor.
\<close>

theorem monitor_stops_at_first_violation:
  "(case monitor_storage guard threshold 0 polls of
      None \<Rightarrow> guard \<longrightarrow> list_all (\<lambda>k. \<not> stops_at 0 threshold polls k) [0..<length polls]
    | Some (k, r) \<Rightarrow> guard \<and> k < length polls \<and> stops_at 0 threshold polls k \<and>
        list_all (\<lambda>j. \<not> stops_at 0 threshold polls j) [0..<k])"
  using monitor_first [where th = threshold and n = 0 and polls = polls]
  by (cases guard) (auto simp: monitor_unguarded list_all_iff split: option.splits)

definition full_usage :: external_usage where
  "full_usage = \<lparr>eu_total = 100, eu_used = 96, eu_free = 4, eu_percent = 96, eu_path = ''.'', eu_mount_point = ''/data''\<rparr>"

theorem monitor_stops_at_first_violation_witness:
  "monitor_storage True 95 0 [Inl (Value_failure ''x''), Inr full_usage] = Some (1, Storage_full 96 ''/data'') \<and>
   stops_at 0 95 [Inl (Value_failure ''x''), Inr full_usage] 1"
proof (intro conjI)
  show m: "monitor_storage True 95 0 [Inl (Value_failure ''x''), Inr full_usage] = Some (1, Storage_full 96 ''/data'')"
    by (simp add: max_probe_failures_def guard_blocks_def full_usage_def)
  show "stops_at 0 95 [Inl (Value_failure ''x''), Inr full_usage] 1"
    using monitor_stops_at_first_violation [where guard = True and threshold = 95 and polls = "[Inl (Value_failure ''x''), Inr full_usage]"] unfolding m by simp
qed

end
