(* ===== verification/RunOutput.thy ===== *)
theory RunOutput
  imports Execution LogFilter RunLogs BorgVersion BackupStats StorageMonitor
begin

text \<open>
  What \<open>_execute_run_inner\<close> of \<open>src/app/service.py\<close> does with the output of a command: the filters of a
  backup or a restore, the log file, the warning collector, the database preview and the version
  probe, chunk by chunk and at the end. Decoding bytes with replacement is the argument \<open>dec\<close>, the
  clock and the answer of the storage are the argument \<open>tick\<close>; progress registers are left out.
\<close>

section \<open>State\<close>

record run_output =
  ro_action :: string
  ro_log :: log_state
  ro_progress :: create_filter
  ro_network :: net_filter
  ro_items :: item_filter
  ro_restore :: restore_filter
  ro_preview :: string
  ro_collector :: collector
  ro_pending :: "string list"
  ro_pending_warning :: "warning_summary option"
  ro_pending_version :: "string option"
  ro_probe :: string
  ro_last_flush :: time
  ro_row :: "run option"
  ro_warning :: "warning_summary option"

record tick =
  tk_now :: time
  tk_storage :: bool

definition stdout_tail :: nat where "stdout_tail = 4 * 1024"
definition stderr_tail :: nat where "stderr_tail = 32 * 1024"
definition db_log_tail :: nat where "db_log_tail = 16 * 1024"
definition probe_limit :: nat where "probe_limit = 8192"

definition tail_chars :: "nat \<Rightarrow> string \<Rightarrow> string" where
  "tail_chars n s = drop (length s - n) s"

definition new_run_output :: "run \<Rightarrow> bool \<Rightarrow> int \<Rightarrow> string option \<Rightarrow> time \<Rightarrow> run_output" where
  "new_run_output r full_file_list log_max file now =
     \<lparr>ro_action = rn_action r, ro_log = new_log_writer file log_max (1024 * 1024) 750000 now,
      ro_progress = new_create_filter, ro_network = new_net_filter, ro_items = new_item_filter (\<not> full_file_list),
      ro_restore = new_restore_filter, ro_preview = [], ro_collector = new_collector 100, ro_pending = [],
      ro_pending_warning = None, ro_pending_version = None, ro_probe = [], ro_last_flush = 0, ro_row = Some r,
      ro_warning = None\<rparr>"

definition is_backup :: "run_output \<Rightarrow> bool" where
  "is_backup o1 = (ro_action o1 = ''backup'')"

section \<open>The database preview\<close>

definition nothing_pending :: "run_output \<Rightarrow> bool" where
  "nothing_pending o1 = (ro_pending o1 = [] \<and> ro_pending_warning o1 = None \<and> ro_pending_version o1 = None)"

definition preview_row :: "run_output \<Rightarrow> run \<Rightarrow> run" where
  "preview_row o1 r =
     (let text = concat (ro_pending o1);
          r1 = (if text = [] then r
                else (let output = tail_chars stdout_tail (rn_output r @ text) in
                  r\<lparr>rn_output := output,
                    rn_borg_version := (case parse_borg_version (Some output) of None \<Rightarrow> rn_borg_version r | Some v \<Rightarrow> Some v)\<rparr>)) in
      case ro_pending_version o1 of None \<Rightarrow> r1 | Some v \<Rightarrow> r1\<lparr>rn_borg_version := Some v\<rparr>)"

definition flush_output :: "bool \<Rightarrow> time \<Rightarrow> run_output \<Rightarrow> run_output" where
  "flush_output force now o1 =
     (if nothing_pending o1 \<or> (\<not> force \<and> now - ro_last_flush o1 < 1500000) then o1
      else o1\<lparr>ro_row := map_option (preview_row o1) (ro_row o1),
             ro_warning := (if ro_row o1 = None \<or> ro_pending_warning o1 = None then ro_warning o1 else ro_pending_warning o1),
             ro_pending := [], ro_pending_warning := None, ro_pending_version := None, ro_last_flush := now\<rparr>)"

section \<open>One chunk\<close>

text \<open>The filters of the error output: what is kept of a chunk.\<close>

definition filter_chunk :: "json_lib \<Rightarrow> time \<Rightarrow> stream \<Rightarrow> string \<Rightarrow> run_output \<Rightarrow> run_output \<times> string" where
  "filter_chunk lib now s data o1 =
     (if s = Stderr \<and> is_backup o1 then
        (case create_feed (ro_progress o1) data of (f1, d1, _) \<Rightarrow>
         case net_feed now (ro_network o1) d1 of (f2, d2) \<Rightarrow>
         case item_feed (ro_items o1) d2 of (f3, d3) \<Rightarrow>
           (o1\<lparr>ro_progress := f1, ro_network := f2, ro_items := f3\<rparr>, d3))
      else if s = Stderr \<and> ro_action o1 = ''restore'' then
        (case restore_feed lib now (ro_restore o1) data of (f, d) \<Rightarrow> (o1\<lparr>ro_restore := f\<rparr>, d))
      else (o1, data))"

definition log_chunk :: "tick \<Rightarrow> string \<Rightarrow> run_output \<Rightarrow> run_output" where
  "log_chunk t data o1 = o1\<lparr>ro_log := append_bytes (tk_storage t) (tk_now t) data (ro_log o1)\<rparr>"

definition collect_chunk :: "(string \<Rightarrow> string) \<Rightarrow> stream \<Rightarrow> string \<Rightarrow> run_output \<Rightarrow> run_output \<times> bool" where
  "collect_chunk dec s data o1 =
     (if \<not> is_backup o1 \<or> data = [] then (o1, False)
      else (case collect_feed dec (s, data) (ro_collector o1) of (c, changed) \<Rightarrow>
        (o1\<lparr>ro_collector := c,
            ro_pending_warning := (if changed then collector_summary c else ro_pending_warning o1)\<rparr>, changed)))"

definition preview_chunk :: "(string \<Rightarrow> string) \<Rightarrow> stream \<Rightarrow> string \<Rightarrow> run_output \<Rightarrow> run_output" where
  "preview_chunk dec s data o1 =
     (if is_backup o1 then
        (if s = Stdout then
           (case preview_feed (ro_preview o1) data of (carry, text) \<Rightarrow>
             o1\<lparr>ro_preview := carry,
                ro_pending := (if dec text = [] then ro_pending o1 else ro_pending o1 @ [dec text])\<rparr>)
         else o1)
      else if s = Stdout then o1\<lparr>ro_pending := ro_pending o1 @ [dec data]\<rparr> else o1)"

definition probe_chunk :: "(string \<Rightarrow> string) \<Rightarrow> string \<Rightarrow> run_output \<Rightarrow> run_output" where
  "probe_chunk dec data o1 =
     (if is_backup o1 \<and> ro_pending_version o1 = None \<and> length (ro_probe o1) < probe_limit then
        (let probe = ro_probe o1 @ take (probe_limit - length (ro_probe o1)) data in
         o1\<lparr>ro_probe := probe, ro_pending_version := parse_borg_version (Some (dec probe))\<rparr>)
      else o1)"

text \<open>\<open>append_output_bytes\<close>: the chunk that goes on to the bounded capture.\<close>

definition append_output_bytes ::
    "(string \<Rightarrow> string) \<Rightarrow> json_lib \<Rightarrow> tick \<Rightarrow> run_output \<Rightarrow> stream \<times> string \<Rightarrow> run_output \<times> string" where
  "append_output_bytes dec lib t o0 chunk =
     (case filter_chunk lib (tk_now t) (fst chunk) (snd chunk) o0 of (o1, persisted) \<Rightarrow>
      case collect_chunk dec (fst chunk) persisted (log_chunk t persisted o1) of (o2, changed) \<Rightarrow>
        (let o3 = probe_chunk dec persisted (preview_chunk dec (fst chunk) persisted o2) in
         (if changed \<or> ro_pending o3 \<noteq> [] \<or> ro_pending_version o3 \<noteq> None
          then flush_output False (tk_now t) o3 else o3, persisted)))"

section \<open>The end of the output\<close>

text \<open>What the filters still hold, in the order of the code.\<close>

definition trailing_of_backup :: "time \<Rightarrow> run_output \<Rightarrow> run_output \<times> string" where
  "trailing_of_backup now o1 =
     (case create_finalize (ro_progress o1) of (f1, d1, _) \<Rightarrow>
      case (if d1 = [] then (ro_network o1, []) else net_feed now (ro_network o1) d1) of (f2, d2) \<Rightarrow>
      case net_finalize now f2 of (f3, d3) \<Rightarrow>
      case (if d2 @ d3 = [] then (ro_items o1, []) else item_feed (ro_items o1) (d2 @ d3)) of (f4, d4) \<Rightarrow>
      case item_finalize f4 of (f5, d5) \<Rightarrow>
        (o1\<lparr>ro_progress := f1, ro_network := f3, ro_items := f5\<rparr>, d4 @ d5))"

definition log_trailing :: "(string \<Rightarrow> string) \<Rightarrow> tick \<Rightarrow> bool \<Rightarrow> string \<Rightarrow> run_output \<Rightarrow> run_output" where
  "log_trailing dec t collect data o1 =
     (if data = [] then o1
      else (let o2 = log_chunk t data o1 in
        if collect then o2\<lparr>ro_collector := fst (collect_feed dec (Stderr, data) (ro_collector o2))\<rparr> else o2))"

definition finish_filters ::
    "(string \<Rightarrow> string) \<Rightarrow> json_lib \<Rightarrow> tick \<Rightarrow> run_output \<Rightarrow> run_output \<times> string" where
  "finish_filters dec lib t o1 =
     (if is_backup o1 then
        (case trailing_of_backup (tk_now t) o1 of (o2, d) \<Rightarrow> (log_trailing dec t True d o2, dec d))
      else if ro_action o1 = ''restore'' then
        (case restore_finalize lib (tk_now t) (ro_restore o1) of (f, d) \<Rightarrow>
           (log_trailing dec t False d (o1\<lparr>ro_restore := f\<rparr>), dec d))
      else (o1, []))"

definition finish_collector :: "(string \<Rightarrow> string) \<Rightarrow> run_output \<Rightarrow> run_output" where
  "finish_collector dec o1 =
     (if is_backup o1 then
        (case collect_finalize dec (ro_collector o1) of (c, changed) \<Rightarrow>
           o1\<lparr>ro_collector := c, ro_pending_warning := (if changed then collector_summary c else ro_pending_warning o1)\<rparr>)
      else o1)"

definition finish_preview :: "(string \<Rightarrow> string) \<Rightarrow> run_output \<Rightarrow> run_output" where
  "finish_preview dec o1 =
     (if is_backup o1 then
        (case preview_finalize (ro_preview o1) of (carry, text) \<Rightarrow>
           o1\<lparr>ro_preview := carry, ro_pending := (if dec text = [] then ro_pending o1 else ro_pending o1 @ [dec text])\<rparr>)
      else o1)"

text \<open>The error text grows by what the filters still held.\<close>

definition finish_output ::
    "(string \<Rightarrow> string) \<Rightarrow> json_lib \<Rightarrow> tick \<Rightarrow> string \<Rightarrow> run_output \<Rightarrow> run_output \<times> string" where
  "finish_output dec lib t error o1 =
     (case finish_filters dec lib t o1 of (o2, rest) \<Rightarrow>
        (flush_output True (tk_now t) (finish_preview dec (finish_collector dec o2)), error @ rest))"

section \<open>A whole output\<close>

text \<open>The chunks of a run with the clock of their arrival; what was kept of each.\<close>

fun run_chunks ::
    "(string \<Rightarrow> string) \<Rightarrow> json_lib \<Rightarrow> (tick \<times> stream \<times> string) list \<Rightarrow> run_output \<Rightarrow> run_output \<times> (stream \<times> string) list" where
  "run_chunks dec lib [] o1 = (o1, [])"
| "run_chunks dec lib ((t, chunk) # cs) o1 =
     (case append_output_bytes dec lib t o1 chunk of (o2, kept) \<Rightarrow>
      case run_chunks dec lib cs o2 of (o3, ks) \<Rightarrow> (o3, (fst chunk, kept) # ks))"

lemma run_chunks_Cons:
  "run_chunks dec lib ((t, chunk) # cs) o1 =
     (fst (run_chunks dec lib cs (fst (append_output_bytes dec lib t o1 chunk))),
      (fst chunk, snd (append_output_bytes dec lib t o1 chunk)) #
        snd (run_chunks dec lib cs (fst (append_output_bytes dec lib t o1 chunk))))"
  by (simp add: split_beta)

lemma flush_output_fields [simp]:
  "ro_log (flush_output force now o1) = ro_log o1" "ro_action (flush_output force now o1) = ro_action o1"
  "ro_progress (flush_output force now o1) = ro_progress o1" "ro_network (flush_output force now o1) = ro_network o1"
  "ro_items (flush_output force now o1) = ro_items o1" "ro_restore (flush_output force now o1) = ro_restore o1" "ro_collector (flush_output force now o1) = ro_collector o1"
  by (simp_all add: flush_output_def)

lemma preview_chunk_fields [simp]:
  "ro_log (preview_chunk dec s d o1) = ro_log o1" "ro_action (preview_chunk dec s d o1) = ro_action o1"
  "ro_progress (preview_chunk dec s d o1) = ro_progress o1" "ro_network (preview_chunk dec s d o1) = ro_network o1"
  "ro_items (preview_chunk dec s d o1) = ro_items o1" "ro_restore (preview_chunk dec s d o1) = ro_restore o1" "ro_collector (preview_chunk dec s d o1) = ro_collector o1"
  by (simp_all add: preview_chunk_def split_beta)

lemma probe_chunk_fields [simp]:
  "ro_log (probe_chunk dec d o1) = ro_log o1" "ro_action (probe_chunk dec d o1) = ro_action o1"
  "ro_progress (probe_chunk dec d o1) = ro_progress o1" "ro_network (probe_chunk dec d o1) = ro_network o1"
  "ro_items (probe_chunk dec d o1) = ro_items o1" "ro_restore (probe_chunk dec d o1) = ro_restore o1" "ro_collector (probe_chunk dec d o1) = ro_collector o1"
  by (simp_all add: probe_chunk_def Let_def)

lemma collect_chunk_fields [simp]:
  "ro_log (fst (collect_chunk dec s d o1)) = ro_log o1" "ro_action (fst (collect_chunk dec s d o1)) = ro_action o1"
  "ro_progress (fst (collect_chunk dec s d o1)) = ro_progress o1" "ro_network (fst (collect_chunk dec s d o1)) = ro_network o1"
  "ro_items (fst (collect_chunk dec s d o1)) = ro_items o1" "ro_restore (fst (collect_chunk dec s d o1)) = ro_restore o1"
  by (simp_all add: collect_chunk_def split_beta)

lemma log_chunk_fields [simp]:
  "ro_action (log_chunk t d o1) = ro_action o1" "ro_progress (log_chunk t d o1) = ro_progress o1"
  "ro_network (log_chunk t d o1) = ro_network o1" "ro_items (log_chunk t d o1) = ro_items o1" "ro_restore (log_chunk t d o1) = ro_restore o1"
  "ro_collector (log_chunk t d o1) = ro_collector o1"
  by (simp_all add: log_chunk_def)

lemma filter_chunk_fields [simp]:
  "ro_log (fst (filter_chunk lib now s d o1)) = ro_log o1" "ro_action (fst (filter_chunk lib now s d o1)) = ro_action o1"
  "ro_collector (fst (filter_chunk lib now s d o1)) = ro_collector o1"
  by (simp_all add: filter_chunk_def split_beta)

abbreviation chunk_filtered where
  "chunk_filtered lib t chunk o1 \<equiv> filter_chunk lib (tk_now t) (fst chunk) (snd chunk) o1"

lemma append_output_fields:
  "snd (append_output_bytes dec lib t o1 chunk) = snd (chunk_filtered lib t chunk o1)"
  "ro_log (fst (append_output_bytes dec lib t o1 chunk)) =
     append_bytes (tk_storage t) (tk_now t) (snd (chunk_filtered lib t chunk o1)) (ro_log o1)"
  "ro_action (fst (append_output_bytes dec lib t o1 chunk)) = ro_action o1"
  "ro_progress (fst (append_output_bytes dec lib t o1 chunk)) = ro_progress (fst (chunk_filtered lib t chunk o1))"
  "ro_network (fst (append_output_bytes dec lib t o1 chunk)) = ro_network (fst (chunk_filtered lib t chunk o1))"
  "ro_items (fst (append_output_bytes dec lib t o1 chunk)) = ro_items (fst (chunk_filtered lib t chunk o1))"
  "ro_restore (fst (append_output_bytes dec lib t o1 chunk)) = ro_restore (fst (chunk_filtered lib t chunk o1))"
  by (simp_all add: append_output_bytes_def split_beta Let_def) (simp add: log_chunk_def)

section \<open>What the log receives\<close>

text \<open>The calls a run makes on its log: each kept chunk, at the time of its arrival.\<close>

definition log_of_chunks :: "(tick \<times> stream \<times> string) list \<Rightarrow> (stream \<times> string) list \<Rightarrow> log_call list" where
  "log_of_chunks cs ks = map (\<lambda>((t, _), (_, d)). Append (tk_storage t) (tk_now t) d) (zip cs ks)"

lemma run_chunks_log:
  "length (snd (run_chunks dec lib cs o1)) = length cs \<and>
   ro_log (fst (run_chunks dec lib cs o1)) = log_calls (log_of_chunks cs (snd (run_chunks dec lib cs o1))) (ro_log o1) \<and>
   ro_action (fst (run_chunks dec lib cs o1)) = ro_action o1"
proof (induction cs arbitrary: o1)
  case (Cons c cs)
  obtain t chunk where c: "c = (t, chunk)" by (cases c)
  show ?case
    using Cons.IH [of "fst (append_output_bytes dec lib t o1 chunk)"]
    by (simp add: c run_chunks_Cons append_output_fields log_of_chunks_def log_calls_def split_beta
        del: run_chunks.simps)
qed (simp add: log_of_chunks_def log_calls_def)

lemma appended_of_chunks: "length ks = length cs \<Longrightarrow> appended (log_of_chunks cs ks) = concat (map snd ks)"
proof (induction cs arbitrary: ks)
  case (Cons c cs)
  then obtain k ks' where "ks = k # ks'" by (cases ks) auto
  then show ?case using Cons by (cases c; cases k) (simp add: log_of_chunks_def)
qed (simp add: log_of_chunks_def)

lemma plain_chunk:
  "fst chunk = Stdout \<or> (ro_action o1 \<noteq> ''backup'' \<and> ro_action o1 \<noteq> ''restore'') \<Longrightarrow>
   filter_chunk lib now (fst chunk) (snd chunk) o1 = (o1, snd chunk)"
  by (auto simp: filter_chunk_def is_backup_def)

lemma stdout_chunk: "filter_chunk lib now Stdout d o1 = (o1, d)"
  by (simp add: filter_chunk_def)

lemma kept_plain:
  assumes "ro_action o1 \<noteq> ''backup''" and "ro_action o1 \<noteq> ''restore''"
  shows "snd (run_chunks dec lib cs o1) = map snd cs"
  using assms
proof (induction cs arbitrary: o1)
  case (Cons c cs)
  obtain t chunk where c: "c = (t, chunk)" by (cases c)
  have "snd (run_chunks dec lib cs (fst (append_output_bytes dec lib t o1 chunk))) = map snd cs"
    using Cons.prems by (intro Cons.IH) (simp_all add: append_output_fields)
  then show ?case
    using Cons.prems by (simp add: c run_chunks_Cons append_output_fields plain_chunk del: run_chunks.simps)
qed simp

lemma kept_stdout: "stream_data Stdout (snd (run_chunks dec lib cs o1)) = stream_data Stdout (map snd cs)"
proof (induction cs arbitrary: o1)
  case (Cons c cs)
  obtain t s d where c: "c = (t, (s, d))" by (metis surj_pair)
  show ?case
    by (cases s) (simp_all add: c run_chunks_Cons append_output_fields stdout_chunk Cons.IH stream_data_Cons
        del: run_chunks.simps)
qed (simp add: stream_data_def)

text \<open>The three filters over the error output of a backup, as lists of what each lets through.\<close>

definition stderr_of :: "(tick \<times> stream \<times> string) list \<Rightarrow> (time \<times> string) list" where
  "stderr_of cs = map (\<lambda>(t, _, d). (tk_now t, d)) (filter (\<lambda>(t, s, d). s = Stderr) cs)"

fun progress_outs :: "create_filter \<Rightarrow> (time \<times> string) list \<Rightarrow> (time \<times> string) list" where
  "progress_outs f [] = []"
| "progress_outs f ((now, d) # ds) = (now, fst (snd (create_feed f d))) # progress_outs (fst (create_feed f d)) ds"

fun network_outs :: "net_filter \<Rightarrow> (time \<times> string) list \<Rightarrow> string list" where
  "network_outs f [] = []"
| "network_outs f ((now, d) # ds) = snd (net_feed now f d) # network_outs (fst (net_feed now f d)) ds"

lemma network_outs_all: "concat (network_outs f ds) = snd (net_feed_all f ds)"
  by (induction f ds rule: network_outs.induct) (simp_all add: split_beta)

lemma stderr_backup:
  assumes "ro_action o1 = ''backup''"
  shows "stream_data Stderr (snd (run_chunks dec lib cs o1)) =
     snd (feed_chunks item_feed (ro_items o1) (network_outs (ro_network o1) (progress_outs (ro_progress o1) (stderr_of cs))))"
  using assms
proof (induction cs arbitrary: o1)
  case (Cons c cs)
  obtain t s d where c: "c = (t, (s, d))" by (metis surj_pair)
  let ?o2 = "fst (append_output_bytes dec lib t o1 (s, d))"
  have a: "ro_action ?o2 = ''backup''" using Cons.prems by (simp add: append_output_fields)
  note IH = Cons.IH [OF a]
  show ?case
  proof (cases s)
    case Stdout
    then show ?thesis
      using IH by (simp add: c run_chunks_Cons append_output_fields stdout_chunk stream_data_Cons stderr_of_def
          del: run_chunks.simps)
  next
    case Stderr
    have f: "filter_chunk lib (tk_now t) Stderr d o1 =
        (o1\<lparr>ro_progress := fst (create_feed (ro_progress o1) d),
            ro_network := fst (net_feed (tk_now t) (ro_network o1) (fst (snd (create_feed (ro_progress o1) d)))),
            ro_items := fst (item_feed (ro_items o1)
              (snd (net_feed (tk_now t) (ro_network o1) (fst (snd (create_feed (ro_progress o1) d))))))\<rparr>,
         snd (item_feed (ro_items o1) (snd (net_feed (tk_now t) (ro_network o1) (fst (snd (create_feed (ro_progress o1) d)))))))"
      using Cons.prems by (simp add: filter_chunk_def is_backup_def split_beta)
    show ?thesis
      using IH by (simp add: c Stderr run_chunks_Cons append_output_fields f stream_data_Cons stderr_of_def split_beta
          del: run_chunks.simps)
  qed
qed (simp add: stream_data_def stderr_of_def)

text \<open>Leaving out records that are progress frames, and nothing else.\<close>

definition progress_record :: "string \<Rightarrow> bool" where
  "progress_record l \<longleftrightarrow> is_terminated l \<and> parse_create_progress (rstrip_by (\<lambda>c. c = carriage \<or> c = newline) l) \<noteq> None"

inductive without_frames :: "string \<Rightarrow> string \<Rightarrow> bool" where
  Nothing: "without_frames [] []"
| Char: "without_frames s t \<Longrightarrow> without_frames (c # s) (c # t)"
| Frame: "progress_record l \<Longrightarrow> without_frames s t \<Longrightarrow> without_frames (l @ s) t"

lemma without_frames_keep: "without_frames s t \<Longrightarrow> without_frames (r @ s) (r @ t)"
  by (induction r) (simp_all add: Char)

lemma without_frames_refl: "without_frames s s"
  using without_frames_keep [OF Nothing, of s] by simp

lemma without_frames_append:
  assumes "without_frames s t" "without_frames s' t'"
  shows "without_frames (s @ s') (t @ t')"
  using assms by (induction rule: without_frames.induct) (simp_all add: Char Frame)

lemma create_records_keep:
  "case create_records ls of (out, newest, carry) \<Rightarrow> \<exists>p. concat ls = p @ carry \<and> without_frames p out"
proof (induction ls rule: create_records.induct)
  case (2 framed rest)
  obtain out newest carry where r: "create_records rest = (out, newest, carry)" by (cases "create_records rest") auto
  obtain p where p: "concat rest = p @ carry" "without_frames p out" using 2 by (auto simp: r)
  have keep: "\<exists>q. framed @ p @ carry = q @ carry \<and> without_frames q (framed @ out)"
    using without_frames_keep [OF p(2)] by (intro exI [of _ "framed @ p"]) simp
  have drop: "\<exists>q. framed @ p @ carry = q @ carry \<and> without_frames q out" if "progress_record framed"
    using Frame [OF that p(2)] by (intro exI [of _ "framed @ p"]) simp
  have ends: "out = [] \<and> carry = [] \<and> p = []" if "rest = []" using that r p(1) by simp
  show ?case
  proof (cases "is_terminated framed")
    case True
    then show ?thesis using keep drop by (auto simp: r p(1) Let_def progress_record_def split: option.split)
  next
    case False
    then show ?thesis using keep ends Nothing by (auto simp: r p(1))
  qed
qed (simp add: Nothing)

lemma concat_split_keep: "concat (split_keep s) = s"
proof (induction s rule: split_keep.induct)
  case (2 c s)
  consider "c = newline" | "c \<noteq> newline" "c = carriage" | "c \<noteq> newline" "c \<noteq> carriage" by blast
  then show ?case
  proof cases
    case 1
    then show ?thesis using 2 by simp
  next
    case 2
    then show ?thesis using "2.IH" by (cases s) auto
  next
    case 3
    then have "concat (split_keep s) = s" using "2.IH" by simp
    then show ?thesis using 3 by (cases "split_keep s") simp_all
  qed
qed simp

lemma create_feed_keep:
  "\<exists>p. cf_carry f @ d = p @ cf_carry (fst (create_feed f d)) \<and> without_frames p (fst (snd (create_feed f d)))"
proof (cases "d = []")
  case True
  then show ?thesis by (simp add: create_feed_def Nothing)
next
  case False
  obtain out newest carry where r: "create_records (split_keep (cf_carry f @ d)) = (out, newest, carry)"
    by (cases "create_records (split_keep (cf_carry f @ d))") auto
  have slow: "\<exists>p. cf_carry f @ d = p @ carry \<and> without_frames p out"
    using create_records_keep [of "split_keep (cf_carry f @ d)"] by (simp add: r concat_split_keep)
  have cut: "\<exists>p. d = p @ snd (cut_lines d) \<and> without_frames p (fst (cut_lines d))"
    using cut_lines_append [of d] without_frames_refl by metis
  show ?thesis
  proof (cases "cf_carry f = [] \<and> carriage \<notin> set d \<and> \<not> contains '' O '' d")
    case True
    then show ?thesis using False cut without_frames_refl by (simp add: create_feed_def Let_def)
  next
    case slow_path: False
    have "create_feed f d = (f\<lparr>cf_carry := carry, cf_latest := (if newest = None then cf_latest f else newest)\<rparr>, out, newest)"
      unfolding create_feed_def if_not_P [OF False] if_not_P [OF slow_path] r by simp
    then show ?thesis using slow by simp
  qed
qed

fun progress_end :: "create_filter \<Rightarrow> (time \<times> string) list \<Rightarrow> create_filter" where
  "progress_end f [] = f"
| "progress_end f ((now, d) # ds) = progress_end (fst (create_feed f d)) ds"

lemma progress_outs_keep:
  "without_frames (cf_carry f @ concat (map snd ds)) (concat (map snd (progress_outs f ds)) @ cf_carry (progress_end f ds))"
proof (induction f ds rule: progress_outs.induct)
  case (2 f now d ds)
  obtain p where p: "cf_carry f @ d = p @ cf_carry (fst (create_feed f d))" "without_frames p (fst (snd (create_feed f d)))"
    using create_feed_keep [of f d] by blast
  have "(cf_carry f @ d) @ concat (map snd ds) = p @ cf_carry (fst (create_feed f d)) @ concat (map snd ds)"
    unfolding p(1) by simp
  then have "cf_carry f @ d @ concat (map snd ds) = p @ cf_carry (fst (create_feed f d)) @ concat (map snd ds)" by simp
  then have "cf_carry f @ concat (map snd ((now, d) # ds)) = p @ cf_carry (fst (create_feed f d)) @ concat (map snd ds)"
    by (simp only: list.map snd_conv concat.simps)
  then show ?case using without_frames_append [OF p(2) 2] by (simp only:) simp
qed (simp add: without_frames_refl)

fun restore_outs :: "json_lib \<Rightarrow> restore_filter \<Rightarrow> (time \<times> string) list \<Rightarrow> string list" where
  "restore_outs lib f [] = []"
| "restore_outs lib f ((now, d) # ds) = snd (restore_feed lib now f d) # restore_outs lib (fst (restore_feed lib now f d)) ds"

lemma stderr_restore:
  assumes "ro_action o1 = ''restore''"
  shows "stream_data Stderr (snd (run_chunks dec lib cs o1)) = concat (restore_outs lib (ro_restore o1) (stderr_of cs))"
  using assms
proof (induction cs arbitrary: o1)
  case (Cons c cs)
  obtain t s d where c: "c = (t, (s, d))" by (metis surj_pair)
  let ?o2 = "fst (append_output_bytes dec lib t o1 (s, d))"
  have a: "ro_action ?o2 = ''restore''" using Cons.prems by (simp add: append_output_fields)
  note IH = Cons.IH [OF a]
  show ?case
  proof (cases s)
    case Stdout
    then show ?thesis
      using IH by (simp add: c run_chunks_Cons append_output_fields stdout_chunk stream_data_Cons stderr_of_def
          del: run_chunks.simps)
  next
    case Stderr
    have f: "filter_chunk lib (tk_now t) Stderr d o1 =
        (o1\<lparr>ro_restore := fst (restore_feed lib (tk_now t) (ro_restore o1) d)\<rparr>, snd (restore_feed lib (tk_now t) (ro_restore o1) d))"
      using Cons.prems by (simp add: filter_chunk_def is_backup_def split_beta)
    show ?thesis
      using IH by (simp add: c Stderr run_chunks_Cons append_output_fields f stream_data_Cons stderr_of_def
          split_beta del: run_chunks.simps)
  qed
qed (simp add: stream_data_def stderr_of_def)

lemma progress_of_run:
  assumes "ro_action o1 = ''backup''"
  shows "ro_progress (fst (run_chunks dec lib cs o1)) = progress_end (ro_progress o1) (stderr_of cs)"
  using assms
proof (induction cs arbitrary: o1)
  case (Cons c cs)
  obtain t s d where c: "c = (t, (s, d))" by (metis surj_pair)
  have a: "ro_action (fst (append_output_bytes dec lib t o1 (s, d))) = ''backup''"
    using Cons.prems by (simp add: append_output_fields)
  show ?case
    using Cons.IH [OF a] Cons.prems
    by (cases s) (simp_all add: c run_chunks_Cons append_output_fields filter_chunk_def is_backup_def split_beta stderr_of_def
        del: run_chunks.simps)
qed (simp add: stderr_of_def)

lemma stderr_data: "stream_data Stderr (map snd cs) = concat (map snd (stderr_of cs))"
  by (induction cs) (auto simp: stream_data_def stderr_of_def)


end
