(* ===== verification/RunExecution.thy ===== *)
theory RunExecution
  imports RunOutput RunQueue
begin

text \<open>
  The life of one run, \<open>_execute_run_inner\<close> and \<open>execute_run\<close> of \<open>src/app/service.py\<close>: waiting for its
  turn, the locks it takes, the probe of an external file system, the command, and what is recorded
  when it has ended. The answers of everything awaited are arguments; the waiting loop may never end.
\<close>

section \<open>Waiting and locks\<close>

text \<open>What one round of the waiting loop finds; \<open>Cancelled_waiting\<close>: the task is cancelled while it
  sleeps, \<open>Claim_failed\<close>: the planner raises.\<close>

datatype turn = Claimed | Not_yet string | Not_queued | Cancelled_waiting | Claim_failed

datatype run_lock = Repository_lock | Manager_lock

datatype run_event =
    Message string
  | Take run_lock
  | Give run_lock
  | Clean_cache
  | Probe_storage
  | Start_monitor
  | Stop_monitor
  | Start_command
  | Close_log_file

text \<open>
  How the guarded part of a run ends. \<open>Cleanup_failed\<close>: an exception comes out of its \<open>finally\<close> part and out of
  the whole function.
\<close>

datatype body_end =
    Left_queue
  | Command_done execution_result
  | Interrupted
  | Unexpected
  | Cleanup_failed

text \<open>
  The \<open>finally\<close> part up to the end of \<open>log_writer.close\<close>: it goes through, the log cannot be written (a full disk), or
  the task is cancelled while it waits for the last update of the preview or the end of its helper tasks.
\<close>

datatype closing = Closed | Close_raised | Close_cancelled

text \<open>A probe that is awaited answers, or the task is cancelled meanwhile, or another exception comes out of it.\<close>

datatype probe_answered = Answered "(probe_failure, external_usage) result" | Probe_cancelled | Probe_raised

text \<open>The cleaning of the manager's cache of an external repository, in a thread that is awaited; the
  number of stale locks it removed.\<close>

datatype clean_answered = Cleaned nat | Clean_cancelled | Clean_raised

text \<open>
  Answers of the awaited calls before the command: a lock is obtained or the task is cancelled while
  it waits for it.
\<close>

record run_world =
  rw_turns :: "turn list"
  rw_repository_lock :: "bool option"
  rw_manager_lock :: "bool option"
  rw_clean :: clean_answered
  rw_external :: bool
  rw_guard :: bool
  rw_threshold :: int
  rw_probe :: probe_answered
  rw_after :: probe_answered
  rw_command :: execution_result
  rw_closing :: closing

text \<open>A message is written when it is not the one before; \<open>None\<close>: the loop goes on for ever.\<close>

fun wait_for_turn :: "string \<Rightarrow> turn list \<Rightarrow> (run_event list \<times> body_end option) option" where
  "wait_for_turn prev [] = None"
| "wait_for_turn prev (Claimed # ts) = Some ([], None)"
| "wait_for_turn prev (Not_queued # ts) = Some ([], Some Left_queue)"
| "wait_for_turn prev (Cancelled_waiting # ts) = Some ([], Some Interrupted)"
| "wait_for_turn prev (Claim_failed # ts) = Some ([], Some Unexpected)"
| "wait_for_turn prev (Not_yet m # ts) =
     map_option (\<lambda>(es, e). ((if m \<noteq> prev then [Message m] else []) @ es, e)) (wait_for_turn m ts)"

text \<open>\<open>None\<close>: there is no such lock for this run; \<open>Some False\<close>: cancelled while waiting.\<close>

definition take_lock :: "run_lock \<Rightarrow> bool option \<Rightarrow> run_event list \<times> bool" where
  "take_lock l answer = (case answer of None \<Rightarrow> ([], True) | Some True \<Rightarrow> ([Take l], True) | Some False \<Rightarrow> ([], False))"

text \<open>
  The probe before a backup into an external repository: the events, and how the run ends there, if it
  does, and whether a monitor watches the command.
\<close>

definition probe_before :: "run_world \<Rightarrow> run_event list \<times> body_end option \<times> bool" where
  "probe_before w =
     (if \<not> rw_external w then ([], None, False)
      else case rw_probe w of
        Probe_cancelled \<Rightarrow> ([Probe_storage], Some Interrupted, False)
      | Probe_raised \<Rightarrow> ([Probe_storage], Some Unexpected, False)
      | Answered (Inl e) \<Rightarrow>
          ([Probe_storage, Message ''not refreshed''], if rw_guard w then Some Unexpected else None, False)
      | Answered (Inr u) \<Rightarrow>
          if guard_blocks (rw_guard w) (eu_percent u) (rw_threshold w)
          then ([Probe_storage, Message ''usage''], Some Unexpected, False)
          else ([Probe_storage, Message ''usage'', Start_monitor], None, True))"

definition command_events :: "bool \<Rightarrow> run_world \<Rightarrow> run_event list" where
  "command_events monitored w =
     (case rw_command w of
        Returned code out err \<Rightarrow>
          Start_command # (if monitored then [Stop_monitor, Probe_storage] @
            (case rw_after w of Answered a \<Rightarrow> [Message ''usage afterwards''] | _ \<Rightarrow> []) else [])
      | Command_cancelled forced confirmed \<Rightarrow> [Start_command, Message ''cancelled''] @ (if monitored then [Stop_monitor] else [])
      | _ \<Rightarrow> Start_command # (if monitored then [Stop_monitor] else []))"

text \<open>A cancellation during the probe after the command discards the result of the command.\<close>

definition body_end_of :: "bool \<Rightarrow> run_world \<Rightarrow> body_end" where
  "body_end_of monitored w =
     (case rw_command w of
        Returned code out err \<Rightarrow>
          (case (if monitored then rw_after w else Answered (Inl (Value_failure []))) of
             Answered a \<Rightarrow> Command_done (rw_command w) | Probe_cancelled \<Rightarrow> Interrupted | Probe_raised \<Rightarrow> Unexpected)
      | Command_cancelled f c \<Rightarrow> Command_done (rw_command w)
      | _ \<Rightarrow> Unexpected)"

text \<open>The \<open>finally\<close> part: the log is closed, and only after that the locks that were obtained are given back.\<close>

definition release_events :: "closing \<Rightarrow> run_lock list \<Rightarrow> run_event list" where
  "release_events c held =
     (case c of Closed \<Rightarrow> Close_log_file # map Give held | Close_raised \<Rightarrow> [Close_log_file] | Close_cancelled \<Rightarrow> [])"

definition end_after :: "closing \<Rightarrow> body_end \<Rightarrow> body_end" where
  "end_after c how = (if c = Closed then how else Cleanup_failed)"

definition locked_part :: "run_world \<Rightarrow> run_lock list \<Rightarrow> run_event list \<times> body_end" where
  "locked_part w held =
     (case probe_before w of (es, stop, monitored) \<Rightarrow>
        (case stop of
           None \<Rightarrow> (es @ command_events monitored w @ release_events (rw_closing w) held, body_end_of monitored w)
         | Some r \<Rightarrow> (es @ release_events (rw_closing w) held, r)))"

definition clean_cache :: "run_world \<Rightarrow> run_event list \<times> body_end option" where
  "clean_cache w =
     (if rw_manager_lock w \<noteq> Some True then ([], None)
      else case rw_clean w of
        Cleaned n \<Rightarrow> (Clean_cache # (if n \<noteq> 0 then [Message ''cache lock removed''] else []), None)
      | Clean_cancelled \<Rightarrow> ([Clean_cache], Some Interrupted)
      | Clean_raised \<Rightarrow> ([Clean_cache], Some Unexpected))"

definition after_claim :: "run_world \<Rightarrow> run_event list \<times> body_end" where
  "after_claim w =
     (case take_lock Repository_lock (rw_repository_lock w) of (e1, ok1) \<Rightarrow>
        let held1 = (if rw_repository_lock w = Some True then [Repository_lock] else []) in
        if \<not> ok1 then (e1 @ release_events (rw_closing w) [], Interrupted)
        else case take_lock Manager_lock (rw_manager_lock w) of (e2, ok2) \<Rightarrow>
          let held2 = (if rw_manager_lock w = Some True then [Manager_lock] else []) in
          if \<not> ok2 then (e1 @ e2 @ release_events (rw_closing w) held1, Interrupted)
          else case clean_cache w of (e3, stop) \<Rightarrow>
            (case stop of
               Some r \<Rightarrow> (e1 @ e2 @ e3 @ release_events (rw_closing w) (held2 @ held1), r)
             | None \<Rightarrow> (case locked_part w (held2 @ held1) of (e4, r) \<Rightarrow> (e1 @ e2 @ e3 @ e4, r))))"

definition run_body :: "run_world \<Rightarrow> (run_event list \<times> body_end) option" where
  "run_body w =
     map_option (\<lambda>(es, stop). case stop of
         Some r \<Rightarrow> (es @ release_events (rw_closing w) [], end_after (rw_closing w) r)
       | None \<Rightarrow> (case after_claim w of (es', r) \<Rightarrow> (es @ es', end_after (rw_closing w) r)))
     (wait_for_turn [] (rw_turns w))"

section \<open>Locks are given back\<close>

fun held_after :: "run_lock set \<Rightarrow> run_event list \<Rightarrow> run_lock set" where
  "held_after h [] = h"
| "held_after h (Take l # es) = held_after (insert l h) es"
| "held_after h (Give l # es) = held_after (h - {l}) es"
| "held_after h (e # es) = held_after h es"

text \<open>The command starts only while the locks \<open>needed\<close> are held.\<close>

fun command_locked :: "run_lock set \<Rightarrow> run_lock set \<Rightarrow> run_event list \<Rightarrow> bool" where
  "command_locked needed h [] = True"
| "command_locked needed h (Take l # es) = command_locked needed (insert l h) es"
| "command_locked needed h (Give l # es) = command_locked needed (h - {l}) es"
| "command_locked needed h (Start_command # es) = (needed \<subseteq> h \<and> command_locked needed h es)"
| "command_locked needed h (e # es) = command_locked needed h es"

lemma held_after_append: "held_after h (a @ b) = held_after (held_after h a) b"
  by (induction h a rule: held_after.induct) auto

lemma command_locked_append:
  "command_locked n h (a @ b) = (command_locked n h a \<and> command_locked n (held_after h a) b)"
  by (induction n h a rule: command_locked.induct) auto

lemma waiting_events:
  "wait_for_turn m ts = Some (es, r) \<Longrightarrow> held_after h es = h \<and> command_locked n h es \<and>
     filter (\<lambda>e. e = Start_command \<or> e = Start_monitor \<or> e = Close_log_file) es = []"
proof (induction m ts arbitrary: es rule: wait_for_turn.induct)
  case (6 prev m ts)
  then show ?case by (auto split: if_splits)
qed auto

text \<open>A run that left the queue starts no command, and only a started command has a result.\<close>

definition starts_as_told :: "run_event list \<Rightarrow> body_end \<Rightarrow> bool" where
  "starts_as_told events how =
     (case how of Left_queue \<Rightarrow> Start_command \<notin> set events | Command_done r \<Rightarrow> Start_command \<in> set events | _ \<Rightarrow> True)"

lemma starts_append: "how \<noteq> Left_queue \<Longrightarrow> starts_as_told b how \<Longrightarrow> starts_as_told (a @ b) how"
  by (auto simp: starts_as_told_def split: body_end.splits)

lemma locked_part_starts: "starts_as_told (fst (locked_part w h)) (snd (locked_part w h)) \<and> snd (locked_part w h) \<noteq> Left_queue"
proof -
  obtain es stop m where p: "probe_before w = (es, stop, m)" by (metis surj_pair)
  have "Start_command \<in> set (command_events m w)" by (auto simp: command_events_def split: execution_result.split)
  moreover have "body_end_of m w \<noteq> Left_queue"
    by (auto simp: body_end_of_def split: execution_result.split probe_answered.split)
  moreover have "stop = None \<or> stop = Some Interrupted \<or> stop = Some Unexpected"
    using p by (auto simp: probe_before_def split: probe_answered.splits sum.splits if_splits)
  ultimately show ?thesis
    by (auto simp: locked_part_def p starts_as_told_def split: body_end.splits)
qed

lemma clean_cache_stop: "clean_cache w = (es, stop) \<Longrightarrow> stop = None \<or> stop = Some Interrupted \<or> stop = Some Unexpected"
  by (auto simp: clean_cache_def split: if_splits clean_answered.splits)

lemma after_claim_cases:
  obtains (cancelled) es h where "after_claim w = (es @ release_events (rw_closing w) h, Interrupted)" "Start_command \<notin> set es"
  | (stopped) es h r where "after_claim w = (es @ release_events (rw_closing w) h, r)" "r = Interrupted \<or> r = Unexpected"
  | (ran) es h where "after_claim w = (es @ fst (locked_part w h), snd (locked_part w h))"
proof -
  obtain e1 ok1 where t1: "take_lock Repository_lock (rw_repository_lock w) = (e1, ok1)" by fastforce
  obtain e2 ok2 where t2: "take_lock Manager_lock (rw_manager_lock w) = (e2, ok2)" by fastforce
  obtain e3 stop where c: "clean_cache w = (e3, stop)" by fastforce
  have no: "Start_command \<notin> set e1" "Start_command \<notin> set e2"
    using t1 t2 by (auto simp: take_lock_def split: option.splits bool.splits)
  let ?h1 = "if rw_repository_lock w = Some True then [Repository_lock] else []"
  let ?h2 = "if rw_manager_lock w = Some True then [Manager_lock] else []"
  obtain e4 r where l: "locked_part w (?h2 @ ?h1) = (e4, r)" by fastforce
  have e: "after_claim w = (if \<not> ok1 then (e1 @ release_events (rw_closing w) [], Interrupted)
      else if \<not> ok2 then ((e1 @ e2) @ release_events (rw_closing w) ?h1, Interrupted)
      else case stop of Some r \<Rightarrow> ((e1 @ e2 @ e3) @ release_events (rw_closing w) (?h2 @ ?h1), r) | None \<Rightarrow> ((e1 @ e2 @ e3) @ e4, r))"
    unfolding after_claim_def Let_def t1 t2 c l prod.case by (cases stop) simp_all
  show thesis
  proof (cases "\<not> ok1 \<or> \<not> ok2")
    case True
    then show thesis using e no that(1) [of e1 "[]"] that(1) [of "e1 @ e2" ?h1] by (auto split: if_splits)
  next
    case False
    show thesis
    proof (cases stop)
      case None
      then show thesis using e False that(3) [of "e1 @ e2 @ e3" "?h2 @ ?h1"] l by (simp del: append_assoc)
    next
      case (Some x)
      then have "x = Interrupted \<or> x = Unexpected" using clean_cache_stop [OF c] by simp
      moreover have "after_claim w = ((e1 @ e2 @ e3) @ release_events (rw_closing w) (?h2 @ ?h1), x)"
        using e False Some by (simp del: append_assoc)
      ultimately show thesis using that(2) by blast
    qed
  qed
qed

lemma after_claim_starts:
  "starts_as_told (fst (after_claim w)) (snd (after_claim w)) \<and> snd (after_claim w) \<noteq> Left_queue"
proof (cases w rule: after_claim_cases)
  case (ran es h)
  then show ?thesis using locked_part_starts [of w h] by (simp add: starts_append)
qed (auto simp: starts_as_told_def)

lemma after_claim_ends: "snd (after_claim w) \<noteq> Cleanup_failed"
proof -
  have "snd (locked_part w h) \<noteq> Cleanup_failed" for h
  proof -
    obtain es stop m where p: "probe_before w = (es, stop, m)" by (metis surj_pair)
    have "stop = None \<or> stop = Some Interrupted \<or> stop = Some Unexpected"
      using p by (auto simp: probe_before_def split: probe_answered.splits sum.splits if_splits)
    moreover have "body_end_of m w \<noteq> Cleanup_failed"
      by (auto simp: body_end_of_def split: execution_result.split probe_answered.split)
    ultimately show ?thesis by (auto simp: locked_part_def p)
  qed
  then show ?thesis by (cases w rule: after_claim_cases) auto
qed

lemma stop_kind: "wait_for_turn m ts = Some (es, stop) \<Longrightarrow> stop \<noteq> Some (Command_done r) \<and> stop \<noteq> Some Cleanup_failed"
  by (induction m ts arbitrary: es rule: wait_for_turn.induct) auto

definition locks_of :: "run_world \<Rightarrow> run_lock set" where
  "locks_of w = (if rw_repository_lock w \<noteq> None then {Repository_lock} else {}) \<union>
     (if rw_manager_lock w \<noteq> None then {Manager_lock} else {})"

lemma probe_before_locks:
  "held_after h (fst (probe_before w)) = h \<and> command_locked n h (fst (probe_before w))"
  by (simp add: probe_before_def split: sum.split probe_answered.split)

lemma command_events_locks:
  "held_after h (command_events b w) = h \<and> command_locked n h (command_events b w) = (n \<subseteq> h)"
  by (simp add: command_events_def split: execution_result.split probe_answered.split)

lemma release_locks:
  "held_after h (release_events c ls) = (if c = Closed then h - set ls else h) \<and> command_locked n h (release_events c ls)"
proof -
  have "held_after h (map Give ls) = h - set ls \<and> command_locked n h (map Give ls)"
    by (induction ls arbitrary: h) auto
  then show ?thesis by (simp add: release_events_def split: closing.split)
qed

lemma clean_cache_locks:
  "held_after h (fst (clean_cache w)) = h \<and> command_locked n h (fst (clean_cache w))"
  by (simp add: clean_cache_def split: clean_answered.split)

lemma after_claim_locks:
  "(rw_closing w = Closed \<longrightarrow> held_after {} (fst (after_claim w)) = {}) \<and> command_locked (locks_of w) {} (fst (after_claim w))"
proof (cases "rw_repository_lock w = Some False \<or> (rw_manager_lock w = Some False)")
  case True
  then show ?thesis
    by (auto simp: after_claim_def take_lock_def Let_def held_after_append command_locked_append release_locks
        split: option.splits bool.splits)
next
  case False
  obtain es go m where p: "probe_before w = (es, go, m)" by (metis surj_pair)
  then have e: "held_after h es = h" "command_locked n h es" for h n using probe_before_locks [of h w n] by simp_all
  obtain e3 stop where c: "clean_cache w = (e3, stop)" by fastforce
  have e3: "held_after h e3 = h" "command_locked n h e3" for h n using clean_cache_locks [of h w n] c by simp_all
  show ?thesis
    using False
    by (auto simp: after_claim_def take_lock_def Let_def locked_part_def p e c e3 held_after_append command_locked_append
        release_locks command_events_locks locks_of_def split: option.splits bool.splits)
qed

text \<open>Nothing but the end of a cleanup that went through gives a lock back.\<close>

definition gives :: "run_event list \<Rightarrow> run_lock list" where
  "gives es = concat (map (\<lambda>e. case e of Give l \<Rightarrow> [l] | _ \<Rightarrow> []) es)"

lemma gives_append [simp]: "gives (a @ b) = gives a @ gives b"
  by (simp add: gives_def)

lemma gives_parts:
  "gives (fst (probe_before w)) = []" "gives (command_events b w) = []" "gives (fst (clean_cache w)) = []"
  "c \<noteq> Closed \<Longrightarrow> gives (release_events c ls) = []" "gives (fst (take_lock l x)) = []"
proof -
  show "gives (fst (probe_before w)) = []"
    by (simp add: gives_def probe_before_def split: sum.split probe_answered.split)
  show "gives (command_events b w) = []"
    by (simp add: gives_def command_events_def split: execution_result.split probe_answered.split)
  show "gives (fst (clean_cache w)) = []" by (simp add: gives_def clean_cache_def split: clean_answered.split)
  show "c \<noteq> Closed \<Longrightarrow> gives (release_events c ls) = []" by (cases c) (simp_all add: gives_def release_events_def)
  show "gives (fst (take_lock l x)) = []" by (simp add: gives_def take_lock_def split: option.split bool.split)
qed

lemma gives_waiting: "wait_for_turn m ts = Some (es, r) \<Longrightarrow> gives es = []"
  by (induction m ts arbitrary: es rule: wait_for_turn.induct) (auto simp: gives_def split: if_splits)

lemma gives_claim: "rw_closing w \<noteq> Closed \<Longrightarrow> gives (fst (after_claim w)) = []"
proof -
  assume c: "rw_closing w \<noteq> Closed"
  obtain es go m where p: "probe_before w = (es, go, m)" by (metis surj_pair)
  then have es: "gives es = []" using gives_parts(1) [of w] by simp
  obtain e3 stop where e3: "clean_cache w = (e3, stop)" by fastforce
  then have g3: "gives e3 = []" using gives_parts(3) [of w] by simp
  obtain e1 ok1 where t1: "take_lock Repository_lock (rw_repository_lock w) = (e1, ok1)" by fastforce
  obtain e2 ok2 where t2: "take_lock Manager_lock (rw_manager_lock w) = (e2, ok2)" by fastforce
  have "gives e1 = []" "gives e2 = []"
    using gives_parts(5) [of Repository_lock "rw_repository_lock w"] gives_parts(5) [of Manager_lock "rw_manager_lock w"] t1 t2 by simp_all
  then show ?thesis
    using es g3 by (simp add: after_claim_def t1 t2 e3 Let_def locked_part_def p gives_parts(2) gives_parts(4) [OF c] split: option.split)
qed

text \<open>
  C39: the waiting of a run ends as soon as a round finds the turn claimed, the run gone from the queue, the task
  cancelled or the planner failing, and only then. The command is started only while the run holds every lock that
  exists for it; a run that left the queue starts no command, and only a started command gives a result. When the
  log can be closed and the task is not cancelled during its cleanup, every lock it obtained is given back, however
  the run ended; otherwise none is, and nothing is recorded.
\<close>

theorem run_returns_its_locks:
  "case run_body w of
     None \<Rightarrow> list_all (\<lambda>t. case t of Not_yet m \<Rightarrow> True | _ \<Rightarrow> False) (rw_turns w)
   | Some (events, how) \<Rightarrow>
       command_locked (locks_of w) {} events \<and>
       list_ex (\<lambda>t. case t of Not_yet m \<Rightarrow> False | _ \<Rightarrow> True) (rw_turns w) \<and>
       starts_as_told events how \<and>
       (if rw_closing w = Closed then held_after {} events = {} \<and> how \<noteq> Cleanup_failed
        else gives events = [] \<and> how = Cleanup_failed)"
proof -
  have waits: "wait_for_turn m ts = None \<longleftrightarrow> list_all (\<lambda>t. case t of Not_yet m \<Rightarrow> True | _ \<Rightarrow> False) ts" for m ts
    by (induction m ts rule: wait_for_turn.induct) auto
  have found: "wait_for_turn m ts = Some x \<Longrightarrow> list_ex (\<lambda>t. case t of Not_yet m \<Rightarrow> False | _ \<Rightarrow> True) ts" for m ts x
    by (induction m ts arbitrary: x rule: wait_for_turn.induct) auto
  show ?thesis
  proof (cases "wait_for_turn [] (rw_turns w)")
    case None
    moreover from None have "list_all (\<lambda>t. case t of Not_yet m \<Rightarrow> True | _ \<Rightarrow> False) (rw_turns w)"
      using waits by blast
    ultimately show ?thesis by (simp add: run_body_def)
  next
    case (Some x)
    obtain es stop where x: "x = (es, stop)" by fastforce
    have w1: "held_after {} es = {}" "command_locked n {} es" "Start_command \<notin> set es" for n
      using waiting_events [OF Some [unfolded x], of "{}" n] by (auto simp: filter_empty_conv)
    have g1: "gives es = []" using gives_waiting [OF Some [unfolded x]] .
    have told: "starts_as_told ev how \<Longrightarrow> starts_as_told ev (end_after c how)" for ev how c
      by (simp add: end_after_def starts_as_told_def)
    show ?thesis
    proof (cases stop)
      case None
      have claim: "starts_as_told (es @ fst (after_claim w)) (snd (after_claim w))"
        using after_claim_starts by (simp add: starts_append)
      show ?thesis
        using None Some x w1 g1 found [OF Some] after_claim_locks [of w] told [OF claim] gives_claim [of w] after_claim_ends [of w]
        by (simp add: run_body_def held_after_append command_locked_append split_beta end_after_def)
    next
      case (Some r)
      have stops: "r \<noteq> Command_done q" "r \<noteq> Cleanup_failed" for q
        using \<open>wait_for_turn [] (rw_turns w) = Some x\<close> x Some stop_kind [of "[]" "rw_turns w"] by blast+
      have "starts_as_told (es @ release_events (rw_closing w) []) r"
        using w1(3) stops by (auto simp: starts_as_told_def release_events_def split: body_end.split closing.split)
      then show ?thesis
        using Some \<open>wait_for_turn [] (rw_turns w) = Some x\<close> x w1 g1 found [OF \<open>wait_for_turn [] (rw_turns w) = Some x\<close>] stops told
          gives_parts(4) [of "rw_closing w" "[]"]
        by (simp add: run_body_def held_after_append command_locked_append release_locks end_after_def)
    qed
  qed
qed

end
