(* ===== verification/RunConclusion.thy ===== *)
theory RunConclusion
  imports RunExecution
begin

text \<open>
  What \<open>_execute_run_inner\<close> of \<open>src/app/service.py\<close> records when a run has ended: the status, the texts
  kept in the database, the warning summary, the version of Borg, the statistics of the archive and of
  the sources, and which caches are dropped. The copy of the log in the database is only computed for
  the version it may contain. \<open>hook\<close> is the caller's last step in the same transaction.
\<close>

section \<open>The outcome\<close>

record outcome =
  oc_code :: int
  oc_out :: string
  oc_err :: string
  oc_status :: run_status

definition status_of_code :: "int \<Rightarrow> run_status" where
  "status_of_code code = (if code = 0 then Success else if code = 1 then Warning else Failed)"

definition cancel_text :: "bool \<Rightarrow> bool \<Rightarrow> string" where
  "cancel_text forced confirmed =
     (if forced then ''Execution cancelled by user after forced process termination''
      else if confirmed then ''Execution cancelled by user; remote Borg shutdown confirmed''
      else ''Execution cancelled by user; Borg process group stopped cleanly'')"

text \<open>\<open>held_back\<close> is what the filters still held of the error output.\<close>

definition outcome_of :: "string \<Rightarrow> string \<Rightarrow> body_end \<Rightarrow> outcome option" where
  "outcome_of error_id held_back how =
     (let unexpected = \<lparr>oc_code = 255, oc_out = [], oc_err = public_error_message error_id, oc_status = Failed\<rparr> in
      case how of
        Left_queue \<Rightarrow> None
      | Cleanup_failed \<Rightarrow> None
      | Interrupted \<Rightarrow> Some \<lparr>oc_code = 130, oc_out = [], oc_err = ''Execution cancelled by user'', oc_status = Stopped\<rparr>
      | Unexpected \<Rightarrow> Some unexpected
      | Command_done r \<Rightarrow> Some (case r of
            Returned code out err \<Rightarrow> \<lparr>oc_code = code, oc_out = out, oc_err = err @ held_back, oc_status = status_of_code code\<rparr>
          | Command_cancelled forced confirmed \<Rightarrow>
              \<lparr>oc_code = 130, oc_out = [], oc_err = cancel_text forced confirmed, oc_status = Stopped\<rparr>
          | _ \<Rightarrow> unexpected))"

text \<open>A technical output gets the identifier of its entry in the debug log.\<close>

definition technical_id :: "string \<Rightarrow> outcome \<Rightarrow> string option" where
  "technical_id new_id oc =
     (if detail_requires_debug_log (py_strip (join_with [newline] (filter (\<lambda>p. p \<noteq> []) [oc_out oc, oc_err oc])))
      then Some new_id else None)"

definition invalidates_archives :: "string \<Rightarrow> run_status \<Rightarrow> bool" where
  "invalidates_archives action status \<longleftrightarrow>
     (status \<in> {Success, Warning} \<and>
        action \<in> {''repository-init'', ''backup'', ''prune'', ''delete-archive'', ''rename-archive''}) \<or>
     action = ''delete-archive''"

definition refreshes_size :: "bool \<Rightarrow> bool \<Rightarrow> string \<Rightarrow> run_status \<Rightarrow> bool" where
  "refreshes_size refresh_size_after setting action status \<longleftrightarrow>
     status \<in> {Success, Warning} \<and> refresh_size_after \<and>
     action \<in> {''repository-init'', ''backup'', ''prune'', ''compact'', ''delete-archive''} \<and> setting"

section \<open>The texts of a run\<close>

definition stored_warning ::
    "string \<Rightarrow> run_status \<Rightarrow> collector \<Rightarrow> warning_summary option \<Rightarrow> warning_summary option" where
  "stored_warning action status c old =
     (if action = ''backup'' \<and> status = Warning
      then Some (case collector_summary c of None \<Rightarrow> unresolved_warning_summary | Some s \<Rightarrow> s)
      else if action = ''backup'' \<and> status = Success then None else old)"

definition clean_output :: "outcome \<Rightarrow> run \<Rightarrow> string" where
  "clean_output oc r =
     (let source = (if rn_action r = ''backup'' then oc_out oc else if rn_output r \<noteq> [] then rn_output r else oc_out oc) in
      tail_chars stdout_tail (strip_borg_item_lines (Some source)))"

definition filtered_error :: "string option \<Rightarrow> outcome \<Rightarrow> string" where
  "filtered_error technical oc =
     (let shown = tail_chars stderr_tail (strip_borg_item_lines (Some (extract_error_output (Some (oc_err oc))))) in
      case technical of
        None \<Rightarrow> shown
      | Some i \<Rightarrow>
          if detail_requires_debug_log shown then public_error_message i
          else if shown \<noteq> [] then tail_chars stderr_tail
            (rstrip_by is_space shown @ newline # ''Technische Details: Debug-Log, Fehler-ID '' @ i @ ''.'')
          else public_error_message i)"

definition with_texts :: "string option \<Rightarrow> outcome \<Rightarrow> run \<Rightarrow> run" where
  "with_texts technical oc r =
     (let output = clean_output oc r; shown = filtered_error technical oc;
          log = tail_chars db_log_tail (join_with [newline] (filter (\<lambda>p. p \<noteq> []) [output, shown]));
          error = (if shown = [] \<and> oc_code oc \<noteq> 0 then ''Exit code: '' @ int_text (oc_code oc) else shown);
          version = (if version_tuple (rn_borg_version r) \<noteq> None then rn_borg_version r
                     else parse_borg_version (Some (if log \<noteq> [] then log else output @ newline # error))) in
      r\<lparr>rn_status := oc_status oc, rn_output := output, rn_error := error,
        rn_borg_version := (if truthy version then version else rn_borg_version r)\<rparr>)"

text \<open>The version the run brought to light, which is also recorded for its host.\<close>

definition found_version :: "run \<Rightarrow> string option" where
  "found_version r = (if version_tuple (rn_borg_version r) \<noteq> None then rn_borg_version r else None)"

section \<open>Counters and statistics\<close>

definition with_transfer :: "(int \<times> int) option \<Rightarrow> restore_progress option \<Rightarrow> run \<Rightarrow> run" where
  "with_transfer network restored r =
     (if rn_action r = ''backup'' then
        (case network of None \<Rightarrow> r
         | Some (down, up) \<Rightarrow> r\<lparr>rn_network_download := Some down, rn_network_upload := Some up\<rparr>)
      else if rn_action r = ''restore'' then
        (case restored of None \<Rightarrow> r
         | Some p \<Rightarrow> r\<lparr>rn_restore_total_size := Some (rx_total_bytes p), rn_restore_processed_size := Some (rx_processed_bytes p),
             rn_restore_total_files := Some (rx_total_files p), rn_restore_processed_files := Some (rx_processed_files p)\<rparr>)
      else r)"

definition statistic :: "(run_statistics \<Rightarrow> 'a option) \<Rightarrow> run_statistics option \<Rightarrow> 'a option" where
  "statistic f s = Option.bind s f"

definition with_archive :: "run_statistics option \<Rightarrow> run \<Rightarrow> run" where
  "with_archive s r =
     r\<lparr>rn_archive_name := statistic st_archive s, rn_original_size := statistic st_original s,
       rn_compressed_size := statistic st_compressed s, rn_deduplicated_size := statistic st_deduplicated s,
       rn_file_count := statistic st_files s\<rparr>"

definition job_with_sources :: "time \<Rightarrow> string \<Rightarrow> int \<Rightarrow> int option \<Rightarrow> (string \<times> json) list \<Rightarrow> job \<Rightarrow> job" where
  "job_with_sources now origin bytes files detail j =
     j\<lparr>jb_source_size_bytes := Some bytes, jb_source_file_count := files, jb_source_checked_at := Some now,
       jb_source_origin := Some origin, jb_source_detail := detail\<rparr>"

definition scan_detail :: "string \<Rightarrow> source_statistics \<Rightarrow> (string \<times> json) list" where
  "scan_detail stamp s =
     [(''version'', JInt 2), (''quality'', JStr (if ss_quality s = [] then ''partial'' else ss_quality s)),
      (''scan_method'', JStr (ss_method s)), (''warning_count'', JInt (ss_warnings s)),
      (''path_excluded_count'', JInt (ss_path_excluded s)),
      (''unsupported_patterns'', JList (map JStr (ss_unsupported s))), (''nodump_supported'', ss_nodump s),
      (''checked_at'', JStr stamp)]"

section \<open>The transaction\<close>

definition run_job :: "manager_db \<Rightarrow> run \<Rightarrow> job option" where
  "run_job db r = Option.bind (rn_job_id r) (get_job db)"

definition record_host_version :: "time \<Rightarrow> run \<Rightarrow> string option \<Rightarrow> manager_db \<Rightarrow> manager_db" where
  "record_host_version now r version db =
     (case (version, run_job db r) of
        (Some v, Some j) \<Rightarrow>
          modify_host (jb_host_id j)
            (\<lambda>h. h\<lparr>ho_borg_version := Some v, ho_borg_version_status := Some (snd (classify_borg_version (Some v))),
                   ho_borg_checked_at := Some now\<rparr>) db
      | _ \<Rightarrow> db)"

definition record_sources ::
    "time \<Rightarrow> string \<Rightarrow> int option \<Rightarrow> int option \<Rightarrow> (string \<times> json) list \<Rightarrow> run \<Rightarrow> manager_db \<Rightarrow> manager_db" where
  "record_sources now origin bytes files detail r db =
     (case (bytes, run_job db r) of
        (Some n, Some j) \<Rightarrow> modify_job (jb_id j) (job_with_sources now origin n files detail) db
      | _ \<Rightarrow> db)"

text \<open>
  The statistics of a successful backup or scan: the run and the database, or the exception that
  comes out of the conversion of a scan's counters.
\<close>

definition record_statistics ::
    "json_lib \<Rightarrow> time \<Rightarrow> string \<Rightarrow> outcome \<Rightarrow> run \<Rightarrow> manager_db \<Rightarrow> (string, run \<times> manager_db) result" where
  "record_statistics lib now stamp oc r db =
     (let text = oc_out oc @ newline # oc_err oc in
      if oc_status oc \<notin> {Success, Warning} then Inr (r, db)
      else if rn_action r = ''backup'' then
        (let s = parse_backup_statistics text in
         Inr (with_archive s r, record_sources now ''backup'' (statistic st_original s) (statistic st_files s) [] r db))
      else if rn_action r = ''source-stats'' then
        try_bind (parse_source_scan_statistics lib text) (\<lambda>found. Inr (r,
          case found of None \<Rightarrow> db
          | Some s \<Rightarrow> record_sources now ''scan'' (Some (ss_size s)) (Some (ss_files s)) (scan_detail stamp s) r db))
      else Inr (r, db))"

record conclusion_input =
  ci_new_id :: string
  ci_stamp :: string
  ci_network :: "(int \<times> int) option"
  ci_restored :: "restore_progress option"
  ci_collector :: collector

definition conclude_run ::
    "json_lib \<Rightarrow> time \<Rightarrow> conclusion_input \<Rightarrow> (run \<Rightarrow> run_status \<Rightarrow> manager_db \<Rightarrow> manager_db) \<Rightarrow> outcome \<Rightarrow> nat \<Rightarrow>
     warning_summary option \<Rightarrow> manager_db \<Rightarrow> (string, manager_db \<times> warning_summary option) result" where
  "conclude_run lib now x hook oc i warning db =
     (case get_run db i of
        None \<Rightarrow> Inr (db, warning)
      | Some r \<Rightarrow>
          (let r1 = with_texts (technical_id (ci_new_id x) oc) oc r;
               db1 = record_host_version now r1 (found_version r1) db;
               r2 = with_transfer (ci_network x) (ci_restored x) r1 in
           try_bind (record_statistics lib now (ci_stamp x) oc r2 db1) (\<lambda>(r3, db2).
             let db3 = hook r3 (oc_status oc) (modify_run i (\<lambda>_. r3) db2) in
             Inr (modify_run i (\<lambda>q. q\<lparr>rn_finished_at := Some now\<rparr>) db3,
                  stored_warning (rn_action r) (oc_status oc) (ci_collector x) warning))))"

section \<open>What a run shows afterwards\<close>

lemma with_texts_fields [simp]:
  "rn_id (with_texts t oc r) = rn_id r" "rn_status (with_texts t oc r) = oc_status oc"
  "rn_action (with_texts t oc r) = rn_action r" "rn_job_id (with_texts t oc r) = rn_job_id r"
  "rn_repository_id (with_texts t oc r) = rn_repository_id r"
  by (simp_all add: with_texts_def Let_def)

lemma with_texts_error: "oc_code oc \<noteq> 0 \<Longrightarrow> rn_error (with_texts t oc r) \<noteq> []"
  by (simp add: with_texts_def Let_def)

lemma with_transfer_fields [simp]:
  "rn_id (with_transfer n p r) = rn_id r" "rn_status (with_transfer n p r) = rn_status r"
  "rn_action (with_transfer n p r) = rn_action r" "rn_error (with_transfer n p r) = rn_error r"
  "rn_job_id (with_transfer n p r) = rn_job_id r"
  by (simp_all add: with_transfer_def split: option.split prod.split)

lemma with_archive_fields [simp]:
  "rn_id (with_archive s r) = rn_id r" "rn_status (with_archive s r) = rn_status r"
  "rn_error (with_archive s r) = rn_error r" "rn_action (with_archive s r) = rn_action r"
  by (simp_all add: with_archive_def)

lemma record_sources_runs [simp]: "db_runs (record_sources now origin b f d q db) = db_runs db"
  by (simp add: record_sources_def modify_job_def split: option.split)

lemma record_statistics_run:
  assumes "record_statistics lib now stamp oc r db = Inr (r', db')"
  shows "rn_id r' = rn_id r \<and> rn_status r' = rn_status r \<and> rn_error r' = rn_error r \<and> db_runs db' = db_runs db"
  using assms
  by (auto simp: record_statistics_def Let_def try_bind_Inr_iff split: if_splits option.splits)

lemma record_host_version_runs [simp]: "db_runs (record_host_version now r v db) = db_runs db"
  by (simp add: record_host_version_def modify_host_def split: option.split)

lemma collector_summary_total: "collector_summary c = Some s \<Longrightarrow> 0 < ws_total s"
  by (auto simp: collector_summary_def split: if_splits)

lemma table_get_replace:
  "key v = i \<Longrightarrow> table_get key (table_modify key i (\<lambda>_. v) rows) j =
     (if j = i then map_option (\<lambda>_. v) (table_get key rows i) else table_get key rows j)"
  by (induction rows) (auto simp: table_get_def table_modify_def)

text \<open>A caller's step that leaves the runs alone.\<close>

definition keeps_runs :: "(run \<Rightarrow> run_status \<Rightarrow> manager_db \<Rightarrow> manager_db) \<Rightarrow> bool" where
  "keeps_runs hook \<longleftrightarrow> (\<forall>r s db. db_runs (hook r s db) = db_runs db)"

text \<open>
  C40: a run that is concluded has the status of its outcome and the time of its end. When the code is
  not 0 it has an error text, whatever the command printed; a backup that ended with a warning has a
  summary with at least one warning, and a successful one has none; and no other run changes.
\<close>

theorem concluded_run_tells_outcome:
  assumes hook: "keeps_runs hook" and run: "get_run db i = Some r"
    and concluded: "conclude_run lib now x hook oc i warning db = Inr (db', warning')"
  shows "(case get_run db' i of None \<Rightarrow> False | Some q \<Rightarrow>
      rn_status q = oc_status oc \<and> rn_finished_at q = Some now \<and> (if oc_code oc = 0 then True else rn_error q \<noteq> [])) \<and>
    (if rn_action r = ''backup'' \<and> oc_status oc = Warning then (case warning' of None \<Rightarrow> False | Some s \<Rightarrow> 0 < ws_total s)
     else if rn_action r = ''backup'' \<and> oc_status oc = Success then warning' = None else warning' = warning) \<and>
    list_all (\<lambda>j. j = i \<or> get_run db' j = get_run db j) (map rn_id (db_runs db))"
proof -
  define r1 where "r1 = with_texts (technical_id (ci_new_id x) oc) oc r"
  define db1 where "db1 = record_host_version now r1 (found_version r1) db"
  define r2 where "r2 = with_transfer (ci_network x) (ci_restored x) r1"
  obtain r3 db2 where st: "record_statistics lib now (ci_stamp x) oc r2 db1 = Inr (r3, db2)"
      and db': "db' = modify_run i (\<lambda>q. q\<lparr>rn_finished_at := Some now\<rparr>) (hook r3 (oc_status oc) (modify_run i (\<lambda>_. r3) db2))"
      and w: "warning' = stored_warning (rn_action r) (oc_status oc) (ci_collector x) warning"
    using concluded run by (auto simp: conclude_run_def Let_def try_bind_Inr_iff r1_def db1_def r2_def)
  have r3: "rn_id r3 = rn_id r" "rn_status r3 = oc_status oc" "rn_error r3 = rn_error r1" "db_runs db2 = db_runs db"
    using record_statistics_run [OF st] by (simp_all add: r2_def r1_def db1_def)
  have i: "rn_id r = i" using run by (auto dest: table_get_SomeD)
  have runs: "db_runs db' = table_modify rn_id i (\<lambda>q. q\<lparr>rn_finished_at := Some now\<rparr>) (table_modify rn_id i (\<lambda>_. r3) (db_runs db))"
    using hook r3 by (simp add: db' modify_run_def keeps_runs_def)
  have keep: "rn_id (r3\<lparr>rn_finished_at := t\<rparr>) = i" for t using r3 i by simp
  have same: "get_run db' i = Some (r3\<lparr>rn_finished_at := Some now\<rparr>)"
    using run i r3 by (simp add: runs table_get_modify table_get_replace)
  have other: "j \<noteq> i \<Longrightarrow> get_run db' j = get_run db j" for j
    using r3 i by (simp add: runs table_get_modify table_get_replace)
  have "oc_code oc \<noteq> 0 \<Longrightarrow> rn_error r3 \<noteq> []" using r3 with_texts_error by (simp add: r1_def)
  moreover have "rn_action r = ''backup'' \<and> oc_status oc = Warning \<Longrightarrow>
      (case warning' of None \<Rightarrow> False | Some s \<Rightarrow> 0 < ws_total s)"
    by (auto simp: w stored_warning_def unresolved_warning_summary_def dest: collector_summary_total split: option.split)
  ultimately show ?thesis using same other r3 by (auto simp: w stored_warning_def list_all_iff)
qed

lemma conclude_without_statistics:
  "oc_status oc \<notin> {Success, Warning} \<Longrightarrow> \<exists>db' w. conclude_run lib now x hook oc i warning db = Inr (db', w)"
  by (simp add: conclude_run_def record_statistics_def Let_def split: option.split)

lemma concluded_run_tells_outcome_witness:
  "\<exists>db' w. conclude_run plain_json 5 \<lparr>ci_new_id = ''E1'', ci_stamp = ''now'', ci_network = None, ci_restored = None,
       ci_collector = new_collector 10\<rparr> (\<lambda>r s db. db)
       \<lparr>oc_code = 2, oc_out = [], oc_err = [], oc_status = Failed\<rparr> 1 None (sample_db\<lparr>db_runs := [sample_run]\<rparr>) = Inr (db', w) \<and>
     map_option (\<lambda>q. (rn_status q, rn_finished_at q, rn_error q = [])) (get_run db' 1) = Some (Failed, Some 5, False)"
proof -
  let ?x = "\<lparr>ci_new_id = ''E1'', ci_stamp = ''now'', ci_network = None, ci_restored = None, ci_collector = new_collector 10\<rparr>"
  let ?oc = "\<lparr>oc_code = 2, oc_out = [], oc_err = [], oc_status = Failed\<rparr>"
  let ?db = "sample_db\<lparr>db_runs := [sample_run]\<rparr>"
  obtain db' w where c: "conclude_run plain_json 5 ?x (\<lambda>r s db. db) ?oc 1 None ?db = Inr (db', w)"
    using conclude_without_statistics [of ?oc] by fastforce
  have "keeps_runs (\<lambda>r s db. db)" "get_run ?db 1 = Some sample_run"
    by (simp_all add: keeps_runs_def table_get_def sample_run_def)
  then show ?thesis
    using concluded_run_tells_outcome [OF _ _ c] c by (auto split: option.splits)
qed

text \<open>
  A counter of a scan that \<open>int()\<close> refuses ends the transaction: nothing is written and the run
  keeps its status, although its task is over.
\<close>

lemma bad_scan_counter_leaves_run:
  assumes "get_run db i = Some r" "rn_action r = ''source-stats''" "oc_status oc \<in> {Success, Warning}"
    and "parse_source_scan_statistics lib (oc_out oc @ newline # oc_err oc) = Inl e"
  shows "conclude_run lib now x hook oc i warning db = Inl e"
  using assms by (simp add: conclude_run_def record_statistics_def Let_def)

end
