(* ===== verification/Inventory.thy ===== *)
theory Inventory
  imports RunActions JobRequests Commands
begin

text \<open>
  What the manager administers: hosts, repositories, jobs, schedules, the access of hosts to
  repositories and the saved SSH actions. This theory has the state, the two synchronisations that
  follow a change (\<open>sync_repository_access_assignments\<close> of \<open>src/app/service.py\<close> with the authorized
  keys of the repository server, \<open>sync_schedules\<close> of \<open>src/app/main.py\<close> with the timers) and the
  endpoints for hosts, jobs, schedules and SSH actions. A database transaction is one step; an
  exception that leaves an endpoint keeps what was committed before it. The cron parser and
  \<open>Path.resolve\<close> are arguments.
\<close>

section \<open>State\<close>

record timer =
  tm_schedule :: nat
  tm_index :: nat
  tm_name :: string
  tm_limit :: int
  tm_expression :: string

record ssh_action =
  sa_id :: nat
  sa_host_id :: nat
  sa_name :: string
  sa_command :: string
  sa_timeout :: int
  sa_enabled :: bool

text \<open>
  \<open>iv_reserved\<close> is the table \<open>job_id_reservations\<close>, \<open>iv_vault\<close> the secrets of the repositories,
  \<open>iv_cached\<close> the repositories with a stored archive list, \<open>iv_keys\<close> the lines of the authorized keys.
\<close>

record inventory =
  iv_db :: manager_db
  iv_reserved :: "nat list"
  iv_vault :: "((nat \<times> string) \<times> string) list"
  iv_cached :: "nat list"
  iv_keys :: "string list"
  iv_timers :: "timer list"
  iv_actions :: "ssh_action list"

text \<open>
  \<open>en_base\<close> is \<open>REPOSITORY_ROOT\<close> and \<open>en_root\<close> the same path resolved; \<open>en_fold_ascii\<close> the lower case of the
  compatible ASCII form of a text, \<open>en_sha256\<close> the hexadecimal digest of its bytes.
\<close>

record inventory_env =
  en_base :: path
  en_root :: path
  en_resolve :: "string \<Rightarrow> path"
  en_cron_ok :: "string \<Rightarrow> bool"
  en_fold_ascii :: "string \<Rightarrow> string"
  en_sha256 :: "string \<Rightarrow> string"
  en_public_host :: string
  en_ssh_port :: int

section \<open>Requests\<close>

text \<open>One constructor per exception; \<open>Internal_error\<close> is one that no handler of the endpoint catches.\<close>

datatype inventory_error =
    No_host | No_repository | No_job | No_schedule | No_action
  | Unknown_references
  | Name_taken | Host_active | Host_used | Repository_active | Repository_used | Repository_mounted
  | Job_active | Directory_registered | Schedule_refused target_error
  | Type_fixed | Encryption_fixed | Credentials_refused string | Bad_directory path_error | Not_a_repository
  | Open_refused string | Access_refused string
  | Internal_error

definition status_code :: "inventory_error \<Rightarrow> int" where
  "status_code e =
     (if e \<in> {No_host, No_repository, No_job, No_schedule, No_action, Bad_directory Directory_missing} then 404
      else if e = Internal_error then 500
      else case e of
        Unknown_references \<Rightarrow> 400 | Type_fixed \<Rightarrow> 400 | Encryption_fixed \<Rightarrow> 400 | Credentials_refused m \<Rightarrow> 400
      | Bad_directory p \<Rightarrow> 400 | Not_a_repository \<Rightarrow> 400 | Open_refused m \<Rightarrow> 400 | Access_refused m \<Rightarrow> 400
      | _ \<Rightarrow> 409)"

type_synonym 'a operation = "inventory \<Rightarrow> inventory \<times> (inventory_error, 'a) result"

definition and_then :: "'a operation \<Rightarrow> ('a \<Rightarrow> 'b operation) \<Rightarrow> 'b operation" where
  "and_then m k s = (case m s of (s', Inl e) \<Rightarrow> (s', Inl e) | (s', Inr a) \<Rightarrow> k a s')"

definition give :: "'a \<Rightarrow> 'a operation" where
  "give a s = (s, Inr a)"

definition refuse :: "inventory_error \<Rightarrow> 'a operation" where
  "refuse e s = (s, Inl e)"

definition change :: "(inventory \<Rightarrow> inventory) \<Rightarrow> unit operation" where
  "change f s = (f s, Inr ())"

text \<open>A transaction on the manager database: nothing is written when it fails.\<close>

definition transact :: "(manager_db \<Rightarrow> (inventory_error, 'a \<times> manager_db) result) \<Rightarrow> 'a operation" where
  "transact f s = (case f (iv_db s) of Inl e \<Rightarrow> (s, Inl e) | Inr (a, db) \<Rightarrow> (s\<lparr>iv_db := db\<rparr>, Inr a))"

text \<open>The \<open>UNIQUE\<close> constraint on the names of a table, for a row with id \<open>i\<close>.\<close>

definition name_taken :: "('r \<Rightarrow> nat) \<Rightarrow> ('r \<Rightarrow> string) \<Rightarrow> nat \<Rightarrow> string \<Rightarrow> 'r list \<Rightarrow> bool" where
  "name_taken key name i n rows = list_ex (\<lambda>r. key r \<noteq> i \<and> name r = n) rows"

section \<open>Access of hosts to repositories\<close>

definition ac_pair :: "access \<Rightarrow> nat \<times> nat" where
  "ac_pair a = (ac_host_id a, ac_repository_id a)"

text \<open>The pairs of the jobs on managed repositories.\<close>

definition desired_pairs :: "manager_db \<Rightarrow> (nat \<times> nat) list" where
  "desired_pairs db =
     remdups (map (\<lambda>j. (jb_host_id j, jb_repository_id j))
       (filter (\<lambda>j. case get_repository db (jb_repository_id j) of None \<Rightarrow> False | Some r \<Rightarrow> rp_storage_path r \<noteq> None)
         (db_jobs db)))"

fun new_accesses :: "nat \<Rightarrow> (nat \<times> nat) list \<Rightarrow> access list" where
  "new_accesses i [] = []"
| "new_accesses i ((h, r) # ps) =
     \<lparr>ac_id = i, ac_host_id = h, ac_repository_id = r, ac_public_key = None\<rparr> # new_accesses (Suc i) ps"

text \<open>The order of the new rows, that of a Python set, is taken to be the order of the jobs.\<close>

definition assigned_access :: "manager_db \<Rightarrow> access list" where
  "assigned_access db =
     filter (\<lambda>a. ac_pair a \<in> set (desired_pairs db)) (db_access db) @
     new_accesses (next_key ac_id (db_access db))
       (filter (\<lambda>p. p \<notin> ac_pair ` set (db_access db)) (desired_pairs db))"

definition host_access_ready :: "manager_db \<Rightarrow> host \<Rightarrow> bool" where
  "host_access_ready db h =
     (let mine = filter (\<lambda>a. ac_host_id a = ho_id h \<and>
            (case get_repository db (ac_repository_id a) of None \<Rightarrow> False | Some r \<Rightarrow> rp_enabled r)) (db_access db) in
      mine \<noteq> [] \<and> list_all (\<lambda>a. truthy (ac_public_key a)) mine)"

definition sync_access_rows :: "manager_db \<Rightarrow> manager_db" where
  "sync_access_rows db =
     (let db1 = db\<lparr>db_access := assigned_access db\<rparr> in
      db1\<lparr>db_hosts := map (\<lambda>h. h\<lparr>ho_repository_ready := host_access_ready db1 h\<rparr>) (db_hosts db1)\<rparr>)"

definition base64_char :: "char \<Rightarrow> bool" where
  "base64_char c \<longleftrightarrow> is_ascii c \<and> is_alnum c \<or> c \<in> set ''+/=''"

definition normalize_public_key :: "string \<Rightarrow> string \<Rightarrow> string option" where
  "normalize_public_key key comment =
     (let parts = split_ws (py_strip key) in
      if length parts < 2 \<or> parts ! 0 \<noteq> ''ssh-ed25519'' \<or> parts ! 1 = [] \<or> \<not> list_all base64_char (parts ! 1) then None
      else Some (parts ! 0 @ '' '' @ parts ! 1 @ '' '' @ comment))"

definition access_comment :: "nat \<Rightarrow> nat \<Rightarrow> string" where
  "access_comment h r = ''bbm-access-h'' @ str_nat h @ ''-r'' @ str_nat r"

definition forced_command :: "path \<Rightarrow> string" where
  "forced_command p = ''/usr/local/bin/bbm-borg-serve --repository '' @ path_string p"

definition key_line :: "path \<Rightarrow> string \<Rightarrow> string" where
  "key_line p key = ''restrict,command='' @ CHR 0x22 # forced_command p @ CHR 0x22 # CHR '' '' # key"

text \<open>The line of one access, if it has one; \<open>None\<close> is an exception.\<close>

definition access_line :: "inventory_env \<Rightarrow> manager_db \<Rightarrow> access \<Rightarrow> string list option" where
  "access_line env db a =
     (case (get_host db (ac_host_id a), get_repository db (ac_repository_id a)) of
        (Some h, Some r) \<Rightarrow>
          if \<not> truthy (ac_public_key a) \<or> \<not> ho_enabled h \<or> \<not> rp_enabled r \<or> \<not> truthy (rp_storage_path r) then Some []
          else (let p = en_resolve env (or_empty (rp_storage_path r)) in
            if p = en_root env \<or> \<not> path_within (en_root env) p then Some []
            else map_option (\<lambda>key. [key_line p key])
              (normalize_public_key (or_empty (ac_public_key a)) (access_comment (ho_id h) (rp_id r))))
      | _ \<Rightarrow> None)"

fun access_lines :: "inventory_env \<Rightarrow> manager_db \<Rightarrow> access list \<Rightarrow> string list option" where
  "access_lines env db [] = Some []"
| "access_lines env db (a # rows) =
     (case access_line env db a of
        None \<Rightarrow> None
      | Some l \<Rightarrow> map_option (\<lambda>ls. l @ ls) (access_lines env db rows))"

text \<open>\<open>ORDER BY host_id, repository_id\<close>.\<close>

definition by_pair :: "access list \<Rightarrow> access list" where
  "by_pair rows = sort_key ac_host_id (sort_key ac_repository_id rows)"

definition rebuild_repository_authorized_keys :: "inventory_env \<Rightarrow> unit operation" where
  "rebuild_repository_authorized_keys env s =
     (case access_lines env (iv_db s) (by_pair (db_access (iv_db s))) of
        None \<Rightarrow> (s, Inl Internal_error)
      | Some ls \<Rightarrow> (s\<lparr>iv_keys := ls\<rparr>, Inr ()))"

definition sync_repository_access_assignments :: "inventory_env \<Rightarrow> unit operation" where
  "sync_repository_access_assignments env =
     and_then (transact (\<lambda>db. Inr ((), sync_access_rows db))) (\<lambda>_. rebuild_repository_authorized_keys env)"

definition revoke_host_repository_access :: "inventory_env \<Rightarrow> nat \<Rightarrow> unit operation" where
  "revoke_host_repository_access env i =
     and_then (transact (\<lambda>db. Inr ((),
         modify_host i (\<lambda>h. h\<lparr>ho_repository_ready := False\<rparr>)
           (db\<lparr>db_access := filter (\<lambda>a. ac_host_id a \<noteq> i) (db_access db)\<rparr>))))
       (\<lambda>_. sync_repository_access_assignments env)"

section \<open>Timers\<close>

fun schedule_timers :: "schedule \<Rightarrow> nat \<Rightarrow> string list \<Rightarrow> timer list" where
  "schedule_timers s k [] = []"
| "schedule_timers s k (e # es) =
     \<lparr>tm_schedule = sc_id s, tm_index = k, tm_name = sc_name s, tm_limit = sc_parallel_limit s, tm_expression = e\<rparr>
       # schedule_timers s (Suc k) es"

definition timers_of :: "inventory_env \<Rightarrow> manager_db \<Rightarrow> schedule \<Rightarrow> timer list" where
  "timers_of env db s =
     (case schedule_expressions (en_cron_ok env) (Some (sc_expressions s)) of
        Inl e \<Rightarrow> []
      | Inr es \<Rightarrow> if schedule_target_job_ids db s True = [] then [] else schedule_timers s 1 es)"

definition timetable :: "inventory_env \<Rightarrow> manager_db \<Rightarrow> timer list" where
  "timetable env db = concat (map (timers_of env db) (by_key sc_id (filter sc_enabled (db_schedules db))))"

definition sync_schedules :: "inventory_env \<Rightarrow> unit operation" where
  "sync_schedules env = change (\<lambda>s. s\<lparr>iv_timers := timetable env (iv_db s)\<rparr>)"

definition sync_both :: "inventory_env \<Rightarrow> unit operation" where
  "sync_both env = and_then (sync_repository_access_assignments env) (\<lambda>_. sync_schedules env)"

section \<open>Hosts\<close>

definition host_of :: "nat \<Rightarrow> host_in \<Rightarrow> host" where
  "host_of i d =
     \<lparr>ho_id = i, ho_name = hi_name d, ho_address = hi_address d, ho_port = hi_port d, ho_username = hi_username d,
      ho_enabled = hi_enabled d, ho_host_key = hi_host_key d, ho_repository_ready = False, ho_borg_version = None,
      ho_borg_version_status = None, ho_borg_checked_at = None\<rparr>"

text \<open>\<open>if row.host_key: trust_host_key(row.host_key)\<close>, after the commit.\<close>

definition trust_host_key :: "string option \<Rightarrow> unit operation" where
  "trust_host_key key = (if truthy key \<and> py_strip (or_empty key) = [] then refuse Internal_error else give ())"

definition create_host :: "host_in \<Rightarrow> nat operation" where
  "create_host d =
     and_then (transact (\<lambda>db.
         let i = next_key ho_id (db_hosts db) in
         if name_taken ho_id ho_name i (hi_name d) (db_hosts db) then Inl Name_taken
         else Inr (i, db\<lparr>db_hosts := table_insert (db_hosts db) (host_of i d)\<rparr>)))
       (\<lambda>i. and_then (trust_host_key (hi_host_key d)) (\<lambda>_. give i))"

definition host_active :: "manager_db \<Rightarrow> nat \<Rightarrow> bool" where
  "host_active db i =
     list_ex (\<lambda>r. unfinished r \<and>
       (case rn_job_id r of None \<Rightarrow> False
        | Some k \<Rightarrow> (case get_job db k of None \<Rightarrow> False | Some j \<Rightarrow> jb_host_id j = i))) (db_runs db)"

text \<open>
  \<open>_apply_host_enabled_state\<close>. The query for active runs first writes what is pending; \<open>clash\<close>
  says that this breaks the uniqueness of the names, outside any handler.
\<close>

definition apply_host_enabled_state :: "bool \<Rightarrow> nat \<Rightarrow> bool \<Rightarrow> manager_db \<Rightarrow> (inventory_error, manager_db) result" where
  "apply_host_enabled_state clash i enabled db =
     (if enabled then Inr (modify_host i (\<lambda>h. h\<lparr>ho_enabled := True\<rparr>) db)
      else if clash then Inl Internal_error
      else if host_active db i then Inl Host_active
      else Inr (modify_host i (\<lambda>h. h\<lparr>ho_enabled := False\<rparr>)
        (db\<lparr>db_jobs := map (\<lambda>j. if jb_host_id j = i then j\<lparr>jb_enabled := False\<rparr> else j) (db_jobs db)\<rparr>)))"

definition with_host_data :: "host_in \<Rightarrow> host \<Rightarrow> host" where
  "with_host_data d h =
     h\<lparr>ho_name := hi_name d, ho_address := hi_address d, ho_port := hi_port d, ho_username := hi_username d,
       ho_host_key := hi_host_key d\<rparr>"

definition connection_changed :: "host_in \<Rightarrow> host \<Rightarrow> bool" where
  "connection_changed d h \<longleftrightarrow>
     ho_address h \<noteq> hi_address d \<or> ho_port h \<noteq> hi_port d \<or> ho_username h \<noteq> hi_username d"

definition update_host_row :: "nat \<Rightarrow> host_in \<Rightarrow> manager_db \<Rightarrow> (inventory_error, (bool \<times> bool) \<times> manager_db) result" where
  "update_host_row i d db =
     (case get_host db i of
        None \<Rightarrow> Inl No_host
      | Some h \<Rightarrow>
          (let clash = name_taken ho_id ho_name i (hi_name d) (db_hosts db) in
           try_bind (apply_host_enabled_state clash i (hi_enabled d) (modify_host i (with_host_data d) db)) (\<lambda>db1.
             let db2 = (if connection_changed d h then modify_host i (\<lambda>h. h\<lparr>ho_repository_ready := False\<rparr>) db1 else db1) in
             if clash then Inl Name_taken
             else Inr ((connection_changed d h, ho_enabled h \<noteq> hi_enabled d), db2))))"

definition update_host :: "inventory_env \<Rightarrow> nat \<Rightarrow> host_in \<Rightarrow> unit operation" where
  "update_host env i d =
     and_then (transact (update_host_row i d)) (\<lambda>(moved, toggled).
     and_then (trust_host_key (hi_host_key d)) (\<lambda>_.
     and_then (if moved then revoke_host_repository_access env i else sync_repository_access_assignments env) (\<lambda>_.
       if toggled \<or> \<not> hi_enabled d then sync_schedules env else give ())))"

definition set_host_enabled :: "inventory_env \<Rightarrow> nat \<Rightarrow> bool \<Rightarrow> unit operation" where
  "set_host_enabled env i enabled =
     and_then (transact (\<lambda>db. if get_host db i = None then Inl No_host
         else try_bind (apply_host_enabled_state False i enabled db) (\<lambda>db1. Inr ((), db1))))
       (\<lambda>_. sync_both env)"

text \<open>\<open>_drop_host_schedule_references\<close> and \<open>_drop_job_schedule_references\<close>: a schedule without targets goes.\<close>

definition drop_host_references :: "nat \<Rightarrow> schedule list \<Rightarrow> schedule list" where
  "drop_host_references i rows =
     concat (map (\<lambda>s. if sc_target_mode s \<noteq> ''hosts'' then [s]
       else (let ids = filter (\<lambda>k. k \<noteq> i) (sc_target_host_ids s) in
         if ids = [] then [] else [s\<lparr>sc_target_host_ids := ids\<rparr>])) rows)"

definition drop_job_references :: "nat \<Rightarrow> schedule list \<Rightarrow> schedule list" where
  "drop_job_references i rows =
     concat (map (\<lambda>s. if sc_target_mode s \<noteq> ''jobs'' then [s]
       else (let ids = filter (\<lambda>k. k \<noteq> i) (sc_target_job_ids s) in
         if ids = [] then [] else [s\<lparr>sc_target_job_ids := ids\<rparr>])) rows)"

definition delete_host_row :: "nat \<Rightarrow> manager_db \<Rightarrow> (inventory_error, unit \<times> manager_db) result" where
  "delete_host_row i db =
     (if get_host db i = None then Inl No_host
      else if list_ex (\<lambda>j. jb_host_id j = i) (db_jobs db) then Inl Host_used
      else Inr ((), db\<lparr>db_access := filter (\<lambda>a. ac_host_id a \<noteq> i) (db_access db),
                      db_schedules := drop_host_references i (db_schedules db),
                      db_hosts := table_remove ho_id i (db_hosts db)\<rparr>))"

definition delete_host_ssh_actions_for_host :: "nat \<Rightarrow> inventory \<Rightarrow> inventory" where
  "delete_host_ssh_actions_for_host i s = s\<lparr>iv_actions := filter (\<lambda>a. sa_host_id a \<noteq> i) (iv_actions s)\<rparr>"

definition delete_host :: "inventory_env \<Rightarrow> nat \<Rightarrow> unit operation" where
  "delete_host env i =
     and_then (transact (delete_host_row i)) (\<lambda>_.
     and_then (change (delete_host_ssh_actions_for_host i)) (\<lambda>_. sync_both env))"

section \<open>SSH actions\<close>

definition action_of :: "nat \<Rightarrow> host_ssh_action_in \<Rightarrow> ssh_action" where
  "action_of i d =
     \<lparr>sa_id = i, sa_host_id = nat (ha_host_id d), sa_name = ha_name d, sa_command = ha_command d,
      sa_timeout = ha_timeout_seconds d, sa_enabled = ha_enabled d\<rparr>"

text \<open>\<open>UNIQUE(host_id, name)\<close>.\<close>

definition action_taken :: "nat \<Rightarrow> host_ssh_action_in \<Rightarrow> ssh_action list \<Rightarrow> bool" where
  "action_taken i d rows =
     list_ex (\<lambda>a. sa_id a \<noteq> i \<and> sa_host_id a = nat (ha_host_id d) \<and> sa_name a = ha_name d) rows"

definition create_host_ssh_action :: "host_ssh_action_in \<Rightarrow> nat operation" where
  "create_host_ssh_action d s =
     (let i = next_key sa_id (iv_actions s) in
      if get_host (iv_db s) (nat (ha_host_id d)) = None then (s, Inl No_host)
      else if action_taken i d (iv_actions s) then (s, Inl Name_taken)
      else (s\<lparr>iv_actions := table_insert (iv_actions s) (action_of i d)\<rparr>, Inr i))"

definition update_host_ssh_action :: "nat \<Rightarrow> host_ssh_action_in \<Rightarrow> unit operation" where
  "update_host_ssh_action i d s =
     (if get_host (iv_db s) (nat (ha_host_id d)) = None then (s, Inl No_host)
      else if table_get sa_id (iv_actions s) i = None then (s, Inl No_action)
      else if action_taken i d (iv_actions s) then (s, Inl Name_taken)
      else (s\<lparr>iv_actions := table_modify sa_id i (\<lambda>_. action_of i d) (iv_actions s)\<rparr>, Inr ()))"

definition delete_host_ssh_action :: "nat \<Rightarrow> unit operation" where
  "delete_host_ssh_action i s =
     (if table_get sa_id (iv_actions s) i = None then (s, Inl No_action)
      else (s\<lparr>iv_actions := table_remove sa_id i (iv_actions s)\<rparr>, Inr ()))"

section \<open>Jobs\<close>

text \<open>\<open>allocate_job_id\<close>: no id that was ever given to a job comes back.\<close>

definition allocate_job_id :: "inventory \<Rightarrow> nat" where
  "allocate_job_id s =
     Suc (fold max (map jb_id (db_jobs (iv_db s)) @ iv_reserved s @
       concat (map (\<lambda>r. case rn_job_id r of None \<Rightarrow> [] | Some j \<Rightarrow> [j]) (db_runs (iv_db s)))) 0)"

definition without_statistics :: "job \<Rightarrow> job" where
  "without_statistics j =
     j\<lparr>jb_source_size_bytes := None, jb_source_file_count := None, jb_source_checked_at := None,
       jb_source_origin := None, jb_source_detail := []\<rparr>"

definition statistics_inputs_changed :: "job_in \<Rightarrow> job \<Rightarrow> bool" where
  "statistics_inputs_changed d j \<longleftrightarrow>
     jb_host_id j \<noteq> nat (ji_host_id d) \<or> jb_source_paths j \<noteq> ji_source_paths d \<or>
     jb_exclude_patterns j \<noteq> ji_exclude_patterns d \<or> jb_create_options j \<noteq> ji_create_options d"

definition with_job_data :: "job_in \<Rightarrow> job \<Rightarrow> job" where
  "with_job_data d j =
     j\<lparr>jb_name := ji_name d, jb_host_id := nat (ji_host_id d), jb_repository_id := nat (ji_repository_id d),
       jb_source_paths := ji_source_paths d, jb_exclude_patterns := ji_exclude_patterns d,
       jb_archive_template := ji_archive_template d, jb_compression := ji_compression d,
       jb_prune_options := Some (map (\<lambda>(k, n). (k, JInt n)) (ji_prune_options d)),
       jb_create_options := ji_create_options d, jb_manual_prune := ji_manual_prune d,
       jb_manual_compact := (if ji_manual_prune d then ji_manual_compact d else False), jb_enabled := ji_enabled d\<rparr>"

definition apply_job :: "job_in \<Rightarrow> job \<Rightarrow> job" where
  "apply_job d j = (if statistics_inputs_changed d j then without_statistics (with_job_data d j) else with_job_data d j)"

text \<open>A new row has no values yet, so nothing counts as changed.\<close>

definition new_job :: "nat \<Rightarrow> job_in \<Rightarrow> job" where
  "new_job i d =
     with_job_data d \<lparr>jb_id = i, jb_name = [], jb_host_id = 0, jb_repository_id = 0, jb_source_paths = [],
       jb_exclude_patterns = [], jb_archive_template = [], jb_archive_prefix = Some (''bbm-'' @ str_nat i @ ''-''),
       jb_archive_prefix_history = [], jb_compression = [], jb_prune_options = None, jb_create_options = [],
       jb_manual_prune = False, jb_manual_compact = False, jb_enabled = True, jb_source_size_bytes = None,
       jb_source_file_count = None, jb_source_checked_at = None, jb_source_origin = None, jb_source_detail = []\<rparr>"

definition known_references :: "manager_db \<Rightarrow> job_in \<Rightarrow> bool" where
  "known_references db d \<longleftrightarrow> get_host db (nat (ji_host_id d)) \<noteq> None \<and> get_repository db (nat (ji_repository_id d)) \<noteq> None"

definition schedule_checked :: "(target_error, unit) result \<Rightarrow> (inventory_error, unit) result" where
  "schedule_checked r = (case r of Inl e \<Rightarrow> Inl (Schedule_refused e) | Inr _ \<Rightarrow> Inr ())"

definition create_job_row :: "job_in \<Rightarrow> nat operation" where
  "create_job_row d s =
     (let db = iv_db s; i = allocate_job_id s; j = new_job i d; db1 = db\<lparr>db_jobs := table_insert (db_jobs db) j\<rparr> in
      if \<not> known_references db d then (s, Inl Unknown_references)
      else if name_taken jb_id jb_name i (ji_name d) (db_jobs db) then (s, Inl Name_taken)
      else case schedule_checked (validate_job_schedule_conflicts db1 j) of
        Inl e \<Rightarrow> (s, Inl e)
      | Inr _ \<Rightarrow> (s\<lparr>iv_db := db1, iv_reserved := iv_reserved s @ [i]\<rparr>, Inr i))"

definition create_job :: "inventory_env \<Rightarrow> job_in \<Rightarrow> nat operation" where
  "create_job env d = and_then (create_job_row d) (\<lambda>i. and_then (sync_both env) (\<lambda>_. give i))"

definition update_job_row :: "nat \<Rightarrow> job_in \<Rightarrow> manager_db \<Rightarrow> (inventory_error, unit \<times> manager_db) result" where
  "update_job_row i d db =
     (case get_job db i of
        None \<Rightarrow> Inl No_job
      | Some j \<Rightarrow>
          if \<not> known_references db d then Inl Unknown_references
          else if name_taken jb_id jb_name i (ji_name d) (db_jobs db) then Inl Name_taken
          else try_bind (schedule_checked (validate_job_schedule_conflicts (modify_job i (apply_job d) db) (apply_job d j)))
            (\<lambda>_. Inr ((), modify_job i (apply_job d) db)))"

definition update_job :: "inventory_env \<Rightarrow> nat \<Rightarrow> job_in \<Rightarrow> unit operation" where
  "update_job env i d = and_then (transact (update_job_row i d)) (\<lambda>_. sync_both env)"

definition set_job_enabled :: "inventory_env \<Rightarrow> nat \<Rightarrow> bool \<Rightarrow> unit operation" where
  "set_job_enabled env i enabled =
     and_then (transact (\<lambda>db.
         if get_job db i = None then Inl No_job
         else if \<not> enabled \<and> has_unfinished_job db i then Inl Job_active
         else Inr ((), modify_job i (\<lambda>j. j\<lparr>jb_enabled := enabled\<rparr>) db)))
       (\<lambda>_. sync_schedules env)"

definition detach_run :: "nat \<Rightarrow> string \<Rightarrow> run \<Rightarrow> run" where
  "detach_run i name r =
     (if rn_job_id r = Some i
      then r\<lparr>rn_job_name := (if truthy (rn_job_name r) then rn_job_name r else Some name), rn_job_id := None\<rparr> else r)"

definition delete_job_row :: "nat \<Rightarrow> manager_db \<Rightarrow> (inventory_error, unit \<times> manager_db) result" where
  "delete_job_row i db =
     (case get_job db i of
        None \<Rightarrow> Inl No_job
      | Some j \<Rightarrow>
          if has_unfinished_job db i then Inl Job_active
          else Inr ((), db\<lparr>db_runs := map (detach_run i (jb_name j)) (db_runs db),
                          db_schedules := drop_job_references i (db_schedules db),
                          db_jobs := table_remove jb_id i (db_jobs db)\<rparr>))"

definition delete_job :: "inventory_env \<Rightarrow> nat \<Rightarrow> unit operation" where
  "delete_job env i = and_then (transact (delete_job_row i)) (\<lambda>_. sync_both env)"

section \<open>Schedules\<close>

definition schedule_of :: "nat \<Rightarrow> schedule_in \<Rightarrow> schedule" where
  "schedule_of i d =
     \<lparr>sc_id = i, sc_name = sn_name d, sc_expressions = sn_expressions d, sc_target_mode = sn_target_mode d,
      sc_target_host_ids = map nat (sn_target_host_ids d),
      sc_target_repository_id = (if sn_target_mode d = ''repository'' then map_option nat (sn_target_repository_id d) else None),
      sc_target_job_ids = map nat (sn_target_job_ids d), sc_parallel_limit = sn_parallel_limit d, sc_enabled = sn_enabled d\<rparr>"

text \<open>
  Flushing a schedule, new or changed, checks the name and the foreign key of the repository; both
  are reported as a name that exists. Then the targets and the conflicts are checked.
\<close>

definition store_schedule_row :: "schedule \<Rightarrow> manager_db \<Rightarrow> manager_db \<Rightarrow> (inventory_error, manager_db) result" where
  "store_schedule_row c db db1 =
     (if name_taken sc_id sc_name (sc_id c) (sc_name c) (db_schedules db) then Inl Name_taken
      else if (case sc_target_repository_id c of None \<Rightarrow> False | Some r \<Rightarrow> get_repository db r = None) then Inl Name_taken
      else try_bind (schedule_checked (validate_schedule_targets_exist db1 c)) (\<lambda>_.
        try_bind (schedule_checked (validate_schedule_conflicts db1 c (Some (sc_id c)))) (\<lambda>_. Inr db1)))"

definition create_schedule_row :: "schedule_in \<Rightarrow> manager_db \<Rightarrow> (inventory_error, nat \<times> manager_db) result" where
  "create_schedule_row d db =
     (let i = next_key sc_id (db_schedules db); c = schedule_of i d in
      try_bind (store_schedule_row c db (db\<lparr>db_schedules := table_insert (db_schedules db) c\<rparr>)) (\<lambda>db1. Inr (i, db1)))"

definition create_schedule :: "inventory_env \<Rightarrow> schedule_in \<Rightarrow> nat operation" where
  "create_schedule env d =
     and_then (transact (create_schedule_row d)) (\<lambda>i. and_then (sync_schedules env) (\<lambda>_. give i))"

definition update_schedule_row :: "nat \<Rightarrow> schedule_in \<Rightarrow> manager_db \<Rightarrow> (inventory_error, unit \<times> manager_db) result" where
  "update_schedule_row i d db =
     (if get_schedule db i = None then Inl No_schedule
      else (let c = schedule_of i d in
        try_bind (store_schedule_row c db
            (db\<lparr>db_schedules := table_modify sc_id i (\<lambda>_. c) (db_schedules db)\<rparr>)) (\<lambda>db1. Inr ((), db1))))"

definition update_schedule :: "inventory_env \<Rightarrow> nat \<Rightarrow> schedule_in \<Rightarrow> unit operation" where
  "update_schedule env i d = and_then (transact (update_schedule_row i d)) (\<lambda>_. sync_schedules env)"

definition delete_schedule :: "inventory_env \<Rightarrow> nat \<Rightarrow> unit operation" where
  "delete_schedule env i =
     and_then (transact (\<lambda>db. if get_schedule db i = None then Inl No_schedule
         else Inr ((), db\<lparr>db_schedules := table_remove sc_id i (db_schedules db)\<rparr>)))
       (\<lambda>_. sync_schedules env)"

end
