(* ===== verification/InventoryRepositories.thy ===== *)
theory InventoryRepositories
  imports Inventory
begin

text \<open>
  The endpoints of \<open>src/app/main.py\<close> that register, import, change and delete repositories, the
  credentials of external repositories (\<open>src/app/external_repository.py\<close>) and the secrets in
  \<open>src/app/vault.py\<close>. An import awaits Borg between two transactions, so it is two operations.
  The scan of a host key is taken to be over before the change that asked for it.
  Key generation, SHA-256 and \<open>ssh-keyscan\<close> are arguments.
\<close>

section \<open>Secrets\<close>

definition set_repository_secret :: "nat \<Rightarrow> string \<Rightarrow> string option \<Rightarrow> inventory \<Rightarrow> inventory" where
  "set_repository_secret i name value s =
     s\<lparr>iv_vault := (if truthy value then dict_set (i, name) (or_empty value) (iv_vault s) else dict_pop (i, name) (iv_vault s))\<rparr>"

definition repository_secret :: "inventory \<Rightarrow> nat \<Rightarrow> string \<Rightarrow> string option" where
  "repository_secret s i name = map_of (iv_vault s) (i, name)"

definition delete_repository_secrets :: "nat \<Rightarrow> inventory \<Rightarrow> inventory" where
  "delete_repository_secrets i s = s\<lparr>iv_vault := filter (\<lambda>e. fst (fst e) \<noteq> i) (iv_vault s)\<rparr>"

definition sensitive_env :: "string \<Rightarrow> bool" where
  "sensitive_env key =
     list_ex (\<lambda>w. contains w (py_lower key))
       [''pass'', ''password'', ''passphrase'', ''secret'', ''token'', ''private'', ''credential'', ''key'']"

definition split_repository_environment ::
    "(string \<times> string) list \<Rightarrow> (string \<times> string) list \<times> (string \<times> string) list" where
  "split_repository_environment values =
     (filter (\<lambda>e. \<not> sensitive_env (fst e)) values, filter (\<lambda>e. sensitive_env (fst e)) values)"

text \<open>The public part, and the vault with exactly the sensitive variables given.\<close>

definition store_repository_environment ::
    "nat \<Rightarrow> (string \<times> string) list \<Rightarrow> inventory \<Rightarrow> inventory \<times> (string \<times> string) list" where
  "store_repository_environment i values s =
     (case split_repository_environment values of (public, sensitive) \<Rightarrow>
        let desired = map (\<lambda>e. ''env.'' @ fst e) sensitive;
            kept = filter (\<lambda>e. \<not> (fst (fst e) = i \<and> starts_with ''env.'' (snd (fst e)) \<and> snd (fst e) \<notin> set desired)) (iv_vault s)
        in (s\<lparr>iv_vault := fold (\<lambda>e. dict_set (i, ''env.'' @ fst e) (snd e)) sensitive kept\<rparr>, public))"

definition invalidate_archive_cache :: "nat \<Rightarrow> inventory \<Rightarrow> inventory" where
  "invalidate_archive_cache i s = s\<lparr>iv_cached := removeAll i (iv_cached s)\<rparr>"

section \<open>Credentials of external repositories\<close>

text \<open>\<open>str.splitlines\<close> below code point 256.\<close>

definition line_break :: "char \<Rightarrow> bool" where
  "line_break c \<longleftrightarrow> char_code c \<in> {10, 11, 12, 13, 28, 29, 30, 133}"

function py_splitlines :: "string \<Rightarrow> string list" where
  "py_splitlines s =
     (if s = [] then []
      else takeWhile (\<lambda>c. \<not> line_break c) s #
        (case dropWhile (\<lambda>c. \<not> line_break c) s of
           [] \<Rightarrow> []
         | c # rest \<Rightarrow>
             if c = carriage \<and> starts_with [newline] rest then py_splitlines (tl rest) else py_splitlines rest))"
  by pat_completeness auto

termination
proof (relation "measure length")
  fix s :: string and c rest
  assume d: "dropWhile (\<lambda>c. \<not> line_break c) s = c # rest"
  have "length (dropWhile (\<lambda>c. \<not> line_break c) s) \<le> length s" by (rule length_dropWhile_le)
  then show "(rest, s) \<in> measure length" "(tl rest, s) \<in> measure length" by (simp_all add: d)
qed simp

declare py_splitlines.simps [simp del]

text \<open>
  \<open>kt_public\<close> fails for a key that is not an unencrypted Ed25519 key, \<open>kt_digest\<close> for a key that is
  not base64; \<open>kt_keyscan\<close> gives the exit code, the output and the error text.
\<close>

record key_tools =
  kt_url :: url_env
  kt_generate :: "string \<Rightarrow> string \<times> string"
  kt_public :: "string \<Rightarrow> string \<Rightarrow> (string, string) result"
  kt_digest :: "string \<Rightarrow> (string, string) result"
  kt_keyscan :: "string \<Rightarrow> nat \<Rightarrow> int \<times> string \<times> string"

definition host_key_types :: "string list" where
  "host_key_types = [''ssh-ed25519'', ''ecdsa-sha2-nistp256'', ''rsa-sha2-512'', ''rsa-sha2-256'', ''ssh-rsa'']"

definition known_host_lines :: "string \<Rightarrow> string list" where
  "known_host_lines value =
     map py_strip (filter (\<lambda>l. py_strip l \<noteq> [] \<and> \<not> starts_with ''#'' (lstrip_by is_space l)) (py_splitlines value))"

definition normalize_known_hosts :: "string \<Rightarrow> (string, string) result" where
  "normalize_known_hosts value =
     (let ls = known_host_lines value in
      if ls = [] then Inl ''known_hosts is empty''
      else if list_ex (\<lambda>l. length (split_ws l) < 3 \<or> split_ws l ! 1 \<notin> set host_key_types) ls
      then Inl ''known_hosts has an invalid line''
      else Inr (join_with [newline] ls @ [newline]))"

definition fingerprint_known_hosts :: "key_tools \<Rightarrow> string \<Rightarrow> (string, string) result" where
  "fingerprint_known_hosts kt value =
     try_bind (normalize_known_hosts value) (\<lambda>n.
       map_sum id (\<lambda>d. ''SHA256:'' @ d) (kt_digest kt (split_ws (hd (py_splitlines n)) ! 2)))"

definition scan_repository_host_key :: "key_tools \<Rightarrow> string \<Rightarrow> (string, string \<times> string) result" where
  "scan_repository_host_key kt location =
     (case ssh_target_from_location (kt_url kt) location of
        Inl e \<Rightarrow> Inl ''invalid URL''
      | Inr None \<Rightarrow> Inl ''the scan needs an ssh URL''
      | Inr (Some (host, port)) \<Rightarrow>
          (case kt_keyscan kt host port of (code, out, err) \<Rightarrow>
             let ls = filter (\<lambda>l. l \<noteq> [] \<and> \<not> starts_with ''#'' l) (py_splitlines out) in
             if code \<noteq> 0 \<or> ls = [] then Inl ''the scan failed''
             else try_bind (normalize_known_hosts (hd ls)) (\<lambda>known.
               map_sum id (Pair known) (fingerprint_known_hosts kt known))))"

record credentials =
  cr_private :: "string option"
  cr_public :: "string option"
  cr_known_hosts :: "string option"
  cr_fingerprint :: "string option"

definition no_credentials :: credentials where
  "no_credentials = \<lparr>cr_private = None, cr_public = None, cr_known_hosts = None, cr_fingerprint = None\<rparr>"

definition key_comment :: "repository option \<Rightarrow> string" where
  "key_comment existing = ''bbm-repository-'' @ (case existing of None \<Rightarrow> ''new'' | Some r \<Rightarrow> str_nat (rp_id r))"

text \<open>\<open>existing_secret\<close> reads the vault of the existing repository.\<close>

definition chosen_key ::
    "key_tools \<Rightarrow> (string \<Rightarrow> string option) \<Rightarrow> repository_in \<Rightarrow> repository option \<Rightarrow>
     (string, string option \<times> string option) result" where
  "chosen_key kt existing_secret d existing =
     (if ri_generate_key d
      then (case kt_generate kt (key_comment existing) of (private, public) \<Rightarrow> Inr (Some private, Some public))
      else if truthy (ri_external_private_key d)
      then map_sum id (\<lambda>public. (ri_external_private_key d, Some public))
        (kt_public kt (or_empty (ri_external_private_key d)) (key_comment existing))
      else case existing of
        None \<Rightarrow> Inr (None, None)
      | Some r \<Rightarrow>
          (let private = existing_secret ''external_ssh_private_key'' in
           if truthy (rp_external_public_key r) then Inr (private, rp_external_public_key r)
           else if truthy private
           then map_sum id (\<lambda>public. (private, Some public)) (kt_public kt (or_empty private) ''borgbackup-manager'')
           else Inr (private, None)))"

definition chosen_host_key ::
    "key_tools \<Rightarrow> (string \<Rightarrow> string option) \<Rightarrow> string \<Rightarrow> repository_in \<Rightarrow> repository option \<Rightarrow>
     (string, string option \<times> string option) result" where
  "chosen_host_key kt existing_secret location d existing =
     (if truthy (ri_external_known_hosts d)
      then try_bind (normalize_known_hosts (or_empty (ri_external_known_hosts d))) (\<lambda>known.
        map_sum id (\<lambda>f. (Some known, Some f)) (fingerprint_known_hosts kt known))
      else if ri_scan_host_key d
      then map_sum id (\<lambda>(known, f). (Some known, Some f)) (scan_repository_host_key kt location)
      else case existing of
        None \<Rightarrow> Inr (None, None)
      | Some r \<Rightarrow>
          (let known = existing_secret ''external_known_hosts'' in
           if truthy (rp_external_fingerprint r) then Inr (known, rp_external_fingerprint r)
           else if truthy known then map_sum id (\<lambda>f. (known, Some f)) (fingerprint_known_hosts kt (or_empty known))
           else Inr (known, None)))"

definition prepare_external_repository_credentials ::
    "key_tools \<Rightarrow> (string \<Rightarrow> string option) \<Rightarrow> repository_in \<Rightarrow> repository option \<Rightarrow> (string, credentials) result" where
  "prepare_external_repository_credentials kt existing_secret d existing =
     (let location = (if truthy (ri_location d) then or_empty (ri_location d)
                      else case existing of None \<Rightarrow> [] | Some r \<Rightarrow> rp_location r) in
      case repository_location_uses_ssh (kt_url kt) location of
        Inl e \<Rightarrow> Inl ''invalid URL''
      | Inr ssh \<Rightarrow>
          if \<not> ssh then Inr no_credentials
          else try_bind (chosen_key kt existing_secret d existing) (\<lambda>(private, public).
            if \<not> truthy private \<or> \<not> truthy public then Inl ''an Ed25519 key is needed''
            else try_bind (chosen_host_key kt existing_secret location d existing) (\<lambda>(known, fingerprint).
              if \<not> truthy known \<or> \<not> truthy fingerprint then Inl ''known_hosts is needed''
              else Inr \<lparr>cr_private = private, cr_public = public, cr_known_hosts = known, cr_fingerprint = fingerprint\<rparr>)))"

section \<open>New repositories\<close>

definition slug_plain :: "char \<Rightarrow> bool" where
  "slug_plain c \<longleftrightarrow> is_lower c \<and> is_ascii c \<or> is_digit c \<and> is_ascii c"

fun dash_others :: "bool \<Rightarrow> string \<Rightarrow> string" where
  "dash_others inside [] = []"
| "dash_others inside (c # s) =
     (if slug_plain c then c # dash_others False s
      else if inside then dash_others True s else CHR ''-'' # dash_others True s)"

definition repository_slug :: "inventory_env \<Rightarrow> string \<Rightarrow> string" where
  "repository_slug env name =
     (let prefix = take 48 (strip_by (\<lambda>c. c = CHR ''-'') (dash_others False (en_fold_ascii env name))) in
      (if prefix = [] then ''repository'' else prefix) @ CHR ''-'' # take 8 (en_sha256 env name))"

definition bracket :: "char \<Rightarrow> bool" where
  "bracket c \<longleftrightarrow> c = CHR ''['' \<or> c = CHR '']''"

definition managed_repository_location :: "inventory_env \<Rightarrow> string \<Rightarrow> string" where
  "managed_repository_location env directory =
     (let host = strip_by bracket (en_public_host env);
          shown = (if CHR '':'' \<in> set host \<and> \<not> starts_with ''['' host then CHR ''['' # host @ '']'' else host) in
      ''ssh://borg@'' @ shown @ '':'' @ int_text (en_ssh_port env) @ ''/./'' @ directory)"

definition blank_repository :: "nat \<Rightarrow> repository" where
  "blank_repository i =
     \<lparr>rp_id = i, rp_name = [], rp_enabled = True, rp_location = [], rp_passphrase_env = None,
      rp_encryption_mode = ''repokey-blake2'', rp_storage_path = None, rp_external_public_key = None,
      rp_external_fingerprint = None, rp_validation_error = None, rp_validation_details = None, rp_validated_at = None,
      rp_initialized = False, rp_size_bytes = None, rp_original_size_bytes = None, rp_compressed_size_bytes = None,
      rp_deduplicated_size_bytes = None, rp_size_checked_at = None, rp_guard_enabled = None, rp_guard_threshold = None,
      rp_ext_total_bytes = None, rp_ext_used_bytes = None, rp_ext_free_bytes = None, rp_ext_usage_percent = None,
      rp_ext_path = None, rp_ext_checked_at = None, rp_ext_error = None, rp_extra_env = []\<rparr>"

definition repository_of :: "inventory_env \<Rightarrow> nat \<Rightarrow> repository_in \<Rightarrow> credentials \<Rightarrow> repository" where
  "repository_of env i d c =
     (let directory = repository_slug env (ri_name d) in
      (blank_repository i)\<lparr>rp_name := ri_name d, rp_enabled := ri_enabled d,
        rp_location := (if ri_managed d then managed_repository_location env directory else or_empty (ri_location d)),
        rp_encryption_mode := ri_encryption_mode d,
        rp_storage_path := (if ri_managed d then Some (path_string (en_base env @ [directory])) else None),
        rp_external_public_key := cr_public c, rp_external_fingerprint := cr_fingerprint c,
        rp_guard_enabled := ri_guard_enabled d, rp_guard_threshold := ri_guard_threshold d\<rparr>)"

definition insert_repository :: "repository \<Rightarrow> manager_db \<Rightarrow> (inventory_error, nat \<times> manager_db) result" where
  "insert_repository r db =
     (if name_taken rp_id rp_name (rp_id r) (rp_name r) (db_repositories db) then Inl Name_taken
      else Inr (rp_id r, db\<lparr>db_repositories := table_insert (db_repositories db) r\<rparr>))"

definition store_new_secrets :: "nat \<Rightarrow> repository_in \<Rightarrow> credentials \<Rightarrow> inventory \<Rightarrow> inventory" where
  "store_new_secrets i d c s =
     (let s1 = set_repository_secret i ''keyfile'' (nonempty_secret (ri_keyfile d))
            (set_repository_secret i ''passphrase'' (nonempty_secret (ri_passphrase d)) s);
          s2 = (if ri_managed d then s1
                else set_repository_secret i ''external_known_hosts'' (cr_known_hosts c)
                  (set_repository_secret i ''external_ssh_private_key'' (cr_private c) s1)) in
      case store_repository_environment i (ri_extra_env d) s2 of (s3, public) \<Rightarrow>
        s3\<lparr>iv_db := modify_repository i (\<lambda>r. r\<lparr>rp_extra_env := public\<rparr>) (iv_db s3)\<rparr>)"

text \<open>The queueing of \<open>borg init\<close> that follows for an enabled managed repository is \<open>queue_repository_init\<close>.\<close>

definition create_repository :: "inventory_env \<Rightarrow> key_tools \<Rightarrow> repository_in \<Rightarrow> nat operation" where
  "create_repository env kt d s =
     (case (if ri_managed d then Inr no_credentials
            else prepare_external_repository_credentials kt (\<lambda>_. None) d None) of
        Inl message \<Rightarrow> (s, Inl (Credentials_refused message))
      | Inr c \<Rightarrow>
          and_then (transact (\<lambda>db. insert_repository
              (repository_of env (next_key rp_id (db_repositories db)) d c) db))
            (\<lambda>i. and_then (change (store_new_secrets i d c)) (\<lambda>_. give i)) s)"

section \<open>Import\<close>

text \<open>\<open>_safe_repository_browser_path\<close>.\<close>

definition browser_text :: "string \<Rightarrow> string" where
  "browser_text relative =
     strip_by (\<lambda>c. c = CHR ''/'') (map (\<lambda>c. if char_code c = 92 then CHR ''/'' else c) (py_strip relative))"

definition safe_repository_browser_path ::
    "file_system \<Rightarrow> inventory_env \<Rightarrow> string \<Rightarrow> (inventory_error, path) result" where
  "safe_repository_browser_path fs env relative =
     (let raw = browser_text relative; parts = (if raw = [] then [] else split_on (CHR ''/'') raw) in
      if list_ex (\<lambda>p. p \<in> {[], ''.'', ''..''}) parts \<or> list_ex (\<lambda>c. char_code c = 0) raw then Inl (Bad_directory Unsafe_segment)
      else case walk_parts fs (en_root env) parts of
        Some e \<Rightarrow> Inl (Bad_directory e)
      | None \<Rightarrow>
          (case fs_resolve fs True (en_root env @ parts) of
             Inl missing \<Rightarrow> Inl (Bad_directory (if missing then Directory_missing else Unresolvable))
           | Inr p \<Rightarrow>
               if p \<noteq> en_root env \<and> \<not> path_within (en_root env) p then Inl (Bad_directory Outside_root)
               else if \<not> fs_dir fs p then Inl (Bad_directory Not_a_directory)
               else Inr p))"

definition imported_repository :: "inventory_env \<Rightarrow> nat \<Rightarrow> repository_import_in \<Rightarrow> path \<Rightarrow> repository" where
  "imported_repository env i d p =
     (blank_repository i)\<lparr>rp_name := rm_name d, rp_enabled := rm_enabled d,
       rp_location := managed_repository_location env (join_with ''/'' (drop (length (en_root env)) p)),
       rp_encryption_mode := rm_encryption_mode d, rp_storage_path := Some (path_string p),
       rp_guard_enabled := rm_guard_enabled d, rp_guard_threshold := rm_guard_threshold d\<rparr>"

definition import_begin :: "file_system \<Rightarrow> inventory_env \<Rightarrow> repository_import_in \<Rightarrow> nat operation" where
  "import_begin fs env d s =
     (case safe_repository_browser_path fs env (rm_directory_name d) of
        Inl e \<Rightarrow> (s, Inl e)
      | Inr p \<Rightarrow>
          if p = en_root env \<or> \<not> fs_file fs (p @ [''config'']) then (s, Inl Not_a_repository)
          else and_then (transact (\<lambda>db.
              if list_ex (\<lambda>r. rp_storage_path r = Some (path_string p)) (db_repositories db) then Inl Directory_registered
              else insert_repository (imported_repository env (next_key rp_id (db_repositories db)) d p) db))
            (\<lambda>i. and_then (change (\<lambda>s. set_repository_secret i ''keyfile'' (nonempty_secret (rm_keyfile d))
                 (set_repository_secret i ''passphrase'' (nonempty_secret (rm_passphrase d)) s))) (\<lambda>_. give i)) s)"

text \<open>
  What came of opening the imported repository: an exit code, an exception that is reported as 400,
  or any other exception.
\<close>

datatype opened = Exit_code int | Value_exception string | Other_exception

text \<open>Rows of tables without a rule for deletion that name the repository.\<close>

definition repository_referenced :: "manager_db \<Rightarrow> nat \<Rightarrow> bool" where
  "repository_referenced db i \<longleftrightarrow>
     list_ex (\<lambda>j. jb_repository_id j = i) (db_jobs db) \<or> list_ex (\<lambda>r. rn_repository_id r = Some i) (db_runs db) \<or>
     list_ex (\<lambda>c. sc_target_repository_id c = Some i) (db_schedules db)"

text \<open>A deleted repository takes its access rows and archive mounts along.\<close>

definition drop_repository_row :: "nat \<Rightarrow> manager_db \<Rightarrow> manager_db" where
  "drop_repository_row i db =
     db\<lparr>db_repositories := table_remove rp_id i (db_repositories db),
        db_access := filter (\<lambda>a. ac_repository_id a \<noteq> i) (db_access db),
        db_mounts := filter (\<lambda>m. am_repository_id m \<noteq> i) (db_mounts db)\<rparr>"

definition import_failed :: "nat \<Rightarrow> inventory_error \<Rightarrow> unit operation" where
  "import_failed i e =
     and_then (transact (\<lambda>db.
         if get_repository db i = None then Inr ((), db)
         else if repository_referenced db i then Inl Internal_error
         else Inr ((), drop_repository_row i db)))
       (\<lambda>_. and_then (change (delete_repository_secrets i)) (\<lambda>_. refuse e))"

definition import_finish :: "nat \<Rightarrow> opened \<Rightarrow> unit operation" where
  "import_finish i outcome s =
     (case outcome of
        Exit_code code \<Rightarrow>
          if code \<notin> {0, 1} then import_failed i (Open_refused ''the repository cannot be opened'') s
          else if get_repository (iv_db s) i = None
          then import_failed i (Open_refused ''Repository registration disappeared'') s
          else (s\<lparr>iv_db := modify_repository i (\<lambda>r. r\<lparr>rp_initialized := True\<rparr>) (iv_db s)\<rparr>, Inr ())
      | Value_exception message \<Rightarrow> import_failed i (Open_refused message) s
      | Other_exception \<Rightarrow> import_failed i Internal_error s)"

section \<open>Changes\<close>

text \<open>\<open>_set_repository_enabled_state\<close>; \<open>clash\<close> as for hosts.\<close>

definition set_repository_enabled_state ::
    "bool \<Rightarrow> repository \<Rightarrow> bool \<Rightarrow> manager_db \<Rightarrow> (inventory_error, manager_db) result" where
  "set_repository_enabled_state clash r enabled db =
     (if rp_enabled r = enabled then Inr db
      else if \<not> enabled \<and> clash then Inl Internal_error
      else if \<not> enabled \<and> has_unfinished_repository db (rp_id r) then Inl Repository_active
      else Inr (modify_repository (rp_id r) (\<lambda>q. q\<lparr>rp_enabled := enabled\<rparr>) db))"

definition forget_external_storage :: "repository \<Rightarrow> repository" where
  "forget_external_storage r =
     r\<lparr>rp_ext_total_bytes := None, rp_ext_used_bytes := None, rp_ext_free_bytes := None, rp_ext_usage_percent := None,
       rp_ext_path := None, rp_ext_checked_at := None, rp_ext_error := None\<rparr>"

definition with_connection :: "repository_in \<Rightarrow> credentials \<Rightarrow> repository \<Rightarrow> repository" where
  "with_connection d c r =
     (let location = (if truthy (ri_location d) then or_empty (ri_location d) else rp_location r);
          changed = (location \<noteq> rp_location r \<or> cr_public c \<noteq> rp_external_public_key r \<or>
                     cr_fingerprint c \<noteq> rp_external_fingerprint r);
          r1 = (if changed then forget_external_storage r else r)\<lparr>rp_location := location,
                 rp_external_public_key := cr_public c, rp_external_fingerprint := cr_fingerprint c\<rparr> in
      if changed then r1\<lparr>rp_initialized := False, rp_validation_error := None, rp_validation_details := None\<rparr> else r1)"

definition with_repository_data :: "repository_in \<Rightarrow> credentials \<Rightarrow> (string \<times> string) list \<Rightarrow> repository \<Rightarrow> repository" where
  "with_repository_data d c public r =
     (let r1 = r\<lparr>rp_name := ri_name d, rp_passphrase_env := None, rp_encryption_mode := ri_encryption_mode d,
                 rp_guard_enabled := ri_guard_enabled d, rp_guard_threshold := ri_guard_threshold d\<rparr> in
      (if ri_managed d then r1 else with_connection d c r1)\<lparr>rp_extra_env := public\<rparr>)"

definition store_changed_secrets :: "nat \<Rightarrow> repository_in \<Rightarrow> credentials \<Rightarrow> inventory \<Rightarrow> inventory" where
  "store_changed_secrets i d c s =
     (let plain = (ri_encryption_mode d = ''none'');
          s1 = (if truthy (ri_passphrase d) \<or> plain
                then set_repository_secret i ''passphrase'' (if plain then None else ri_passphrase d) s else s);
          s2 = (if truthy (ri_keyfile d) \<or> plain
                then set_repository_secret i ''keyfile'' (if plain then None else ri_keyfile d) s1 else s1) in
      if ri_managed d then s2
      else set_repository_secret i ''external_known_hosts'' (cr_known_hosts c)
        (set_repository_secret i ''external_ssh_private_key'' (cr_private c) s2))"

text \<open>
  \<open>update_repository\<close>: the sensitive variables go to the vault before the transaction commits.
  \<open>enabled\<close> is the optional field of the request.
\<close>

definition update_repository_row ::
    "key_tools \<Rightarrow> nat \<Rightarrow> bool option \<Rightarrow> repository_in \<Rightarrow> credentials operation" where
  "update_repository_row kt i enabled d s =
     (case get_repository (iv_db s) i of
        None \<Rightarrow> (s, Inl No_repository)
      | Some r \<Rightarrow>
          if truthy (rp_storage_path r) \<noteq> ri_managed d then (s, Inl Type_fixed)
          else if rp_initialized r \<and> rp_encryption_mode r \<noteq> ri_encryption_mode d then (s, Inl Encryption_fixed)
          else case (if ri_managed d then Inr no_credentials
                     else prepare_external_repository_credentials kt (repository_secret s i) d (Some r)) of
            Inl message \<Rightarrow> (s, Inl (Credentials_refused message))
          | Inr c \<Rightarrow>
              (let clash = name_taken rp_id rp_name i (ri_name d) (db_repositories (iv_db s)) in
               case (case enabled of None \<Rightarrow> Inr (iv_db s) | Some e \<Rightarrow> set_repository_enabled_state clash r e (iv_db s)) of
                 Inl err \<Rightarrow> (s, Inl err)
               | Inr db1 \<Rightarrow>
                   (case store_repository_environment i (ri_extra_env d) s of (s1, public) \<Rightarrow>
                      if clash then (s1, Inl Name_taken)
                      else (s1\<lparr>iv_db := modify_repository i (with_repository_data d c public) db1\<rparr>, Inr c))))"

definition update_repository ::
    "inventory_env \<Rightarrow> key_tools \<Rightarrow> nat \<Rightarrow> bool option \<Rightarrow> repository_in \<Rightarrow> unit operation" where
  "update_repository env kt i enabled d =
     and_then (update_repository_row kt i enabled d) (\<lambda>c.
     and_then (change (store_changed_secrets i d c)) (\<lambda>_.
     and_then (sync_both env) (\<lambda>_. change (invalidate_archive_cache i))))"

definition set_repository_enabled :: "inventory_env \<Rightarrow> nat \<Rightarrow> bool \<Rightarrow> unit operation" where
  "set_repository_enabled env i enabled =
     and_then (transact (\<lambda>db. case get_repository db i of
          None \<Rightarrow> Inl No_repository
        | Some r \<Rightarrow> try_bind (set_repository_enabled_state False r enabled db) (\<lambda>db1. Inr ((), db1))))
       (\<lambda>_. sync_both env)"

definition repository_mounted :: "manager_db \<Rightarrow> nat \<Rightarrow> bool" where
  "repository_mounted db i =
     list_ex (\<lambda>m. am_repository_id m = i \<and> am_status m \<in> {''mounting'', ''mounted''}) (db_mounts db)"

definition delete_repository_row :: "nat \<Rightarrow> manager_db \<Rightarrow> (inventory_error, unit \<times> manager_db) result" where
  "delete_repository_row i db =
     (if get_repository db i = None then Inl No_repository
      else if list_ex (\<lambda>j. jb_repository_id j = i) (db_jobs db) then Inl Repository_used
      else if repository_mounted db i then Inl Repository_mounted
      else if has_unfinished_repository db i then Inl Repository_active
      else Inr ((), drop_repository_row i
        (db\<lparr>db_runs := map (\<lambda>r. if rn_repository_id r = Some i then r\<lparr>rn_repository_id := None\<rparr> else r) (db_runs db),
            db_schedules := filter (\<lambda>c. \<not> (sc_target_mode c = ''repository'' \<and> sc_target_repository_id c = Some i))
              (db_schedules db)\<rparr>)))"

definition delete_repository :: "inventory_env \<Rightarrow> nat \<Rightarrow> unit operation" where
  "delete_repository env i =
     and_then (transact (delete_repository_row i)) (\<lambda>_.
     and_then (change (\<lambda>s. invalidate_archive_cache i (delete_repository_secrets i s))) (\<lambda>_. sync_both env))"

section \<open>Access of a device\<close>

text \<open>The key lines a device prints: \<open>BBM_REPOSITORY_KEY <id> ssh-ed25519 <key> ...\<close>.\<close>

definition repository_key_line :: "string \<Rightarrow> (nat \<times> string) option" where
  "repository_key_line line =
     (let l = py_strip line; ws = split_ws l in
      if length ws \<ge> 4 \<and> ws ! 0 = ''BBM_REPOSITORY_KEY'' \<and> ws ! 1 \<noteq> [] \<and> list_all is_digit (ws ! 1) \<and> ws ! 2 = ''ssh-ed25519''
      then Some (digits_value (ws ! 1), lstrip_by is_space (drop (length (ws ! 1)) (lstrip_by is_space (drop 18 l))))
      else None)"

fun returned_keys :: "(nat \<times> string) list \<Rightarrow> string list \<Rightarrow> (nat \<times> string) list" where
  "returned_keys ks [] = ks"
| "returned_keys ks (l # ls) =
     (case repository_key_line l of None \<Rightarrow> returned_keys ks ls | Some (i, k) \<Rightarrow> returned_keys (dict_set i k ks) ls)"

definition bootstrap_checks :: "nat \<Rightarrow> nat list \<Rightarrow> manager_db \<Rightarrow> (inventory_error, nat list) result" where
  "bootstrap_checks h ids db =
     (let assigned = map ac_repository_id (filter (\<lambda>a. ac_host_id a = h \<and>
            (case get_repository db (ac_repository_id a) of None \<Rightarrow> False | Some r \<Rightarrow> rp_enabled r)) (db_access db));
          selected = sort (remdups ids) in
      if get_host db h = None then Inl No_host
      else if selected = [] then Inl (Access_refused ''nothing selected'')
      else if \<not> set selected \<subseteq> set assigned then Inl (Access_refused ''not assigned'')
      else Inr selected)"

definition bootstrap_begin :: "inventory_env \<Rightarrow> nat \<Rightarrow> nat list \<Rightarrow> nat list operation" where
  "bootstrap_begin env h ids =
     and_then (sync_repository_access_assignments env) (\<lambda>_ s.
       case bootstrap_checks h ids (iv_db s) of Inl e \<Rightarrow> (s, Inl e) | Inr selected \<Rightarrow> (s, Inr selected))"

fun store_keys :: "nat \<Rightarrow> (nat \<times> string) list \<Rightarrow> access list \<Rightarrow> access list option" where
  "store_keys h [] rows = Some rows"
| "store_keys h ((r, key) # ks) rows =
     (if list_ex (\<lambda>a. ac_pair a = (h, r)) rows
      then (case normalize_public_key key (access_comment h r) of
          None \<Rightarrow> None
        | Some k \<Rightarrow> store_keys h ks (map (\<lambda>a. if ac_pair a = (h, r) then a\<lparr>ac_public_key := Some k\<rparr> else a) rows))
      else store_keys h ks rows)"

definition bootstrap_finish :: "inventory_env \<Rightarrow> nat \<Rightarrow> nat list \<Rightarrow> int \<Rightarrow> string \<Rightarrow> unit operation" where
  "bootstrap_finish env h selected code output s =
     (let keys = returned_keys [] (py_splitlines output) in
      if code \<noteq> 0 then (s, Inl (Access_refused ''the device refused''))
      else if set (map fst keys) \<noteq> set selected then (s, Inl (Access_refused ''keys are missing''))
      else and_then (transact (\<lambda>db. case store_keys h keys (db_access db) of
            None \<Rightarrow> Inl (Access_refused ''invalid key'') | Some rows \<Rightarrow> Inr ((), db\<lparr>db_access := rows\<rparr>)))
          (\<lambda>_. sync_repository_access_assignments env) s)"

end
