(* ===== verification/InventoryFacts.thy ===== *)
theory InventoryFacts
  imports InventoryRepositories
begin

text \<open>
  The invariant of the inventory: ids and names are unique, every reference names a row that
  exists, no job matches two enabled schedules, stored keys are well formed and every job id is
  reserved. Each change of rows keeps it.
\<close>

section \<open>The invariant\<close>

definition host_ids :: "manager_db \<Rightarrow> nat set" where
  "host_ids db = ho_id ` set (db_hosts db)"

definition repository_ids :: "manager_db \<Rightarrow> nat set" where
  "repository_ids db = rp_id ` set (db_repositories db)"

definition job_ids :: "manager_db \<Rightarrow> nat set" where
  "job_ids db = jb_id ` set (db_jobs db)"

definition unique_rows :: "manager_db \<Rightarrow> bool" where
  "unique_rows db \<longleftrightarrow>
     distinct (map ho_id (db_hosts db)) \<and> distinct (map ho_name (db_hosts db)) \<and>
     distinct (map rp_id (db_repositories db)) \<and> distinct (map rp_name (db_repositories db)) \<and>
     distinct (map jb_id (db_jobs db)) \<and> distinct (map jb_name (db_jobs db)) \<and>
     distinct (map sc_id (db_schedules db)) \<and> distinct (map sc_name (db_schedules db)) \<and>
     distinct (map ac_id (db_access db)) \<and> distinct (map ac_pair (db_access db)) \<and>
     0 \<notin> repository_ids db \<and> 0 \<notin> job_ids db \<and> 0 \<notin> sc_id ` set (db_schedules db)"

definition schedule_refs :: "nat set \<Rightarrow> nat set \<Rightarrow> nat set \<Rightarrow> schedule \<Rightarrow> bool" where
  "schedule_refs hosts repositories jobs c \<longleftrightarrow>
     (sc_target_mode c = ''hosts'' \<longrightarrow> sc_target_host_ids c \<noteq> [] \<and> set (sc_target_host_ids c) \<subseteq> hosts) \<and>
     (sc_target_mode c = ''jobs'' \<longrightarrow> sc_target_job_ids c \<noteq> [] \<and> set (sc_target_job_ids c) \<subseteq> jobs) \<and>
     (sc_target_mode c = ''repository'' \<longrightarrow> sc_target_repository_id c \<noteq> None) \<and>
     (\<forall>r. sc_target_repository_id c = Some r \<longrightarrow> sc_target_mode c = ''repository'' \<and> r \<in> repositories)"

definition references_ok :: "manager_db \<Rightarrow> bool" where
  "references_ok db \<longleftrightarrow>
     (\<forall>j \<in> set (db_jobs db). jb_host_id j \<in> host_ids db \<and> jb_repository_id j \<in> repository_ids db) \<and>
     (\<forall>a \<in> set (db_access db). ac_host_id a \<in> host_ids db \<and> ac_repository_id a \<in> repository_ids db) \<and>
     (\<forall>r \<in> set (db_runs db). set_option (rn_job_id r) \<subseteq> job_ids db \<and> set_option (rn_repository_id r) \<subseteq> repository_ids db) \<and>
     (\<forall>c \<in> set (db_schedules db). schedule_refs (host_ids db) (repository_ids db) (job_ids db) c) \<and>
     (\<forall>m \<in> set (db_mounts db). am_repository_id m \<in> repository_ids db)"

text \<open>A job matches at most one enabled schedule.\<close>

definition exclusive_targets :: "manager_db \<Rightarrow> bool" where
  "exclusive_targets db \<longleftrightarrow> (\<forall>j \<in> set (db_jobs db). \<forall>c \<in> set (db_schedules db). \<forall>d \<in> set (db_schedules db).
     sc_enabled c \<and> sc_enabled d \<and> target_matches c j \<and> target_matches d j \<longrightarrow> sc_id c = sc_id d)"

definition valid_key :: "string \<Rightarrow> bool" where
  "valid_key k \<longleftrightarrow> normalize_public_key k [] \<noteq> None"

definition keys_valid :: "manager_db \<Rightarrow> bool" where
  "keys_valid db \<longleftrightarrow> (\<forall>a \<in> set (db_access db). \<forall>k. ac_public_key a = Some k \<longrightarrow> valid_key k)"

definition db_ok :: "manager_db \<Rightarrow> bool" where
  "db_ok db \<longleftrightarrow> unique_rows db \<and> references_ok db \<and> exclusive_targets db \<and> keys_valid db"

definition inventory_ok :: "inventory \<Rightarrow> bool" where
  "inventory_ok s \<longleftrightarrow> db_ok (iv_db s) \<and> job_ids (iv_db s) \<subseteq> set (iv_reserved s) \<and>
     (\<forall>a \<in> set (iv_actions s). sa_host_id a \<in> host_ids (iv_db s))"

section \<open>Tables\<close>

lemma get_host_None [simp]: "get_host db i = None \<longleftrightarrow> i \<notin> host_ids db"
  by (auto simp: table_get_None_iff host_ids_def)

lemma get_repository_None [simp]: "get_repository db i = None \<longleftrightarrow> i \<notin> repository_ids db"
  by (auto simp: table_get_None_iff repository_ids_def)

lemma get_job_None [simp]: "get_job db i = None \<longleftrightarrow> i \<notin> job_ids db"
  by (auto simp: table_get_None_iff job_ids_def)

lemma get_hostD: "get_host db i = Some h \<Longrightarrow> h \<in> set (db_hosts db) \<and> ho_id h = i \<and> i \<in> host_ids db"
  by (auto dest: table_get_SomeD simp: host_ids_def)

lemma get_repositoryD: "get_repository db i = Some r \<Longrightarrow> r \<in> set (db_repositories db) \<and> rp_id r = i \<and> i \<in> repository_ids db"
  by (auto dest: table_get_SomeD simp: repository_ids_def)

lemma get_jobD: "get_job db i = Some j \<Longrightarrow> j \<in> set (db_jobs db) \<and> jb_id j = i \<and> i \<in> job_ids db"
  by (auto dest: table_get_SomeD simp: job_ids_def)

text \<open>Changing rows without changing their key, and names.\<close>

lemma map_table_modify:
  "(\<And>r. g (f r) = g r) \<Longrightarrow> map g (table_modify key i f rows) = map g rows"
  by (simp add: table_modify_def)

lemma image_table_modify:
  assumes "\<And>r. g (f r) = g r" shows "g ` set (table_modify key i f rows) = g ` set rows"
proof -
  have "set (map g (table_modify key i f rows)) = set (map g rows)" by (simp add: map_table_modify assms)
  then show ?thesis by simp
qed

lemma distinct_names_insert:
  "distinct (map name rows) \<Longrightarrow> \<not> name_taken key name (key r) (name r) rows \<Longrightarrow> key r \<notin> key ` set rows \<Longrightarrow>
   distinct (map name (table_insert rows r))"
  by (auto simp: table_insert_def name_taken_def list_ex_iff) (metis imageI)

lemma distinct_names_modify:
  assumes "distinct (map name rows)" and "distinct (map key rows)" and "\<not> name_taken key name i n rows"
    and "\<And>r. name (f r) = n"
  shows "distinct (map name (table_modify key i f rows))"
  using assms(1-3)
proof (induction rows)
  case (Cons r rows)
  have IH: "distinct (map name (table_modify key i f rows))"
    using Cons by (simp add: name_taken_def)
  show ?case
  proof (cases "key r = i")
    case True
    then have "table_modify key i f rows = rows"
      using Cons.prems(2) by (auto simp: table_modify_def intro!: map_idI) (metis imageI)
    moreover have "n \<notin> name ` set rows"
      using Cons.prems True by (auto simp: name_taken_def list_ex_iff) (metis imageI)
    ultimately show ?thesis
      using True Cons.prems assms(4) by (simp add: table_modify_def)
  next
    case False
    have "name r \<notin> name ` set (table_modify key i f rows)"
    proof
      assume "name r \<in> name ` set (table_modify key i f rows)"
      then obtain q where q: "q \<in> set rows" "name r = (if key q = i then name (f q) else name q)"
        by (auto simp: table_modify_def)
      then have "key q = i" using Cons.prems by (auto split: if_splits)
      then have "name r = n" using q assms(4) by simp
      then show False using False Cons.prems(3) by (simp add: name_taken_def)
    qed
    moreover have "table_modify key i f (r # rows) = r # table_modify key i f rows"
      using False by (simp add: table_modify_def)
    ultimately show ?thesis using IH by simp
  qed
qed (simp add: table_modify_def)

lemma next_key_not_in: "next_key key rows \<notin> key ` set rows"
  using next_key_fresh [of key rows] by simp

lemma next_key_not_zero [simp]: "next_key key rows \<noteq> 0" "0 < next_key key rows"
  by (simp_all add: next_key_def)

lemma distinct_insert_fresh:
  "distinct (map key rows) \<Longrightarrow> key r = next_key key rows \<Longrightarrow> distinct (map key (table_insert rows r))"
  using next_key_not_in [of key rows] by (auto simp: table_insert_def)

section \<open>Schedules\<close>

lemma job_joined_ok: "references_ok db \<Longrightarrow> j \<in> set (db_jobs db) \<Longrightarrow> job_joined db False j"
  using get_host_None [of db "jb_host_id j"] get_repository_None [of db "jb_repository_id j"]
  by (auto simp: job_joined_def references_ok_def split: option.split)

lemma target_ids_ok:
  "references_ok db \<Longrightarrow> set (schedule_target_job_ids db c False) = jb_id ` {j \<in> set (db_jobs db). target_matches c j}"
  by (auto simp: schedule_target_job_ids_def job_joined_ok)

text \<open>The check of a schedule and the check of a job look at the same matches.\<close>

lemma job_matches_iff:
  "jb_id j \<noteq> 0 \<Longrightarrow> jb_repository_id j \<noteq> 0 \<Longrightarrow> job_matches_schedule j c = target_matches c j"
  by (auto simp: job_matches_schedule_def target_matches_def split: option.split)

lemma checked_job_exclusive:
  assumes "validate_job_schedule_conflicts db j = Inr u" "jb_id j \<noteq> 0" "jb_repository_id j \<noteq> 0"
    and "c \<in> set (db_schedules db)" "d \<in> set (db_schedules db)" "distinct (map sc_id (db_schedules db))"
    and "sc_enabled c" "sc_enabled d" "target_matches c j" "target_matches d j"
  shows "sc_id c = sc_id d"
proof (rule ccontr)
  assume n: "sc_id c \<noteq> sc_id d"
  define m where "m = filter (\<lambda>s. sc_enabled s \<and> job_matches_schedule j s) (db_schedules db)"
  have "length m \<le> 1"
    using assms(1) by (auto simp: validate_job_schedule_conflicts_def Let_def m_def split: if_splits)
  moreover have "c \<in> set m" "d \<in> set m" using assms by (auto simp: m_def job_matches_iff)
  ultimately show False using n by (cases m; cases "tl m") auto
qed

lemma schedule_checked_Inr [simp]: "schedule_checked r = Inr u \<longleftrightarrow> r = Inr u"
  by (cases r) (auto simp: schedule_checked_def)

lemma missing_ids_Nil: "missing_ids ids get = [] \<longleftrightarrow> (\<forall>i \<in> set ids. get i \<noteq> None)"
proof -
  have "missing_ids ids get = [] \<longleftrightarrow> set (missing_ids ids get) = {}" by (metis set_empty)
  also have "set (missing_ids ids get) = {i \<in> set ids. get i = None}" by (auto simp: missing_ids_def)
  finally show ?thesis by auto
qed

lemma checked_targets:
  assumes "validate_schedule_targets_exist db c = Inr u"
    and "sc_target_mode c \<noteq> ''repository'' \<Longrightarrow> sc_target_repository_id c = None"
    and "sc_target_mode c = ''hosts'' \<Longrightarrow> sc_target_host_ids c \<noteq> []"
    and "sc_target_mode c = ''jobs'' \<Longrightarrow> sc_target_job_ids c \<noteq> []"
  shows "schedule_refs (host_ids db) (repository_ids db) (job_ids db) c"
  using assms
  by (auto simp: schedule_refs_def validate_schedule_targets_exist_def Let_def missing_ids_Nil
      split: if_splits option.splits)

text \<open>Storing a schedule that passed both checks.\<close>

lemma exclusive_store:
  assumes ok: "references_ok db" "exclusive_targets db" "0 \<notin> sc_id ` set (db_schedules db1)"
    and same: "db_jobs db1 = db_jobs db" "db_hosts db1 = db_hosts db" "db_repositories db1 = db_repositories db"
    and rows: "\<And>d. d \<in> set (db_schedules db1) \<Longrightarrow> d = c \<or> d \<in> set (db_schedules db) \<and> sc_id d \<noteq> sc_id c"
    and valid: "validate_schedule_conflicts db1 c (Some (sc_id c)) = Inr u"
  shows "exclusive_targets db1"
proof -
  have ids: "set (schedule_target_job_ids db1 d False) = jb_id ` {j \<in> set (db_jobs db). target_matches d j}" for d
  proof -
    have "schedule_target_job_ids db1 d False = schedule_target_job_ids db d False"
      by (simp add: schedule_target_job_ids_def job_joined_def same cong: filter_cong)
    then show ?thesis using target_ids_ok [OF ok(1)] by simp
  qed
  have apart: False
    if "d \<in> set (db_schedules db1)" "sc_enabled d" "sc_enabled c" "sc_id d \<noteq> sc_id c"
      "j \<in> set (db_jobs db)" "target_matches d j" "target_matches c j" for d j
    using no_conflict_disjoint [of db1 c d] valid that unfolding ids by auto
  show ?thesis
    unfolding exclusive_targets_def same
  proof (intro ballI impI)
    fix j a b
    assume j: "j \<in> set (db_jobs db)" and a: "a \<in> set (db_schedules db1)" and b: "b \<in> set (db_schedules db1)"
      and e: "sc_enabled a \<and> sc_enabled b \<and> target_matches a j \<and> target_matches b j"
    show "sc_id a = sc_id b"
    proof (cases "sc_id a = sc_id c \<or> sc_id b = sc_id c")
      case True
      then show ?thesis using apart [of a j] apart [of b j] rows [OF a] rows [OF b] a b e j by metis
    next
      case False
      then show ?thesis using rows [OF a] rows [OF b] ok(2) e j by (auto simp: exclusive_targets_def)
    qed
  qed
qed

section \<open>Changes of rows keep the invariant\<close>

lemma exclusive_mono:
  assumes "exclusive_targets db"
    and "\<And>j'. j' \<in> set (db_jobs db') \<Longrightarrow> \<exists>j \<in> set (db_jobs db).
      jb_id j = jb_id j' \<and> jb_host_id j = jb_host_id j' \<and> jb_repository_id j = jb_repository_id j'"
    and "\<And>c'. c' \<in> set (db_schedules db') \<Longrightarrow> sc_enabled c' \<Longrightarrow> \<exists>c \<in> set (db_schedules db).
      sc_enabled c \<and> sc_id c = sc_id c' \<and> (\<forall>j. target_matches c' j \<longrightarrow> target_matches c j)"
  shows "exclusive_targets db'"
  unfolding exclusive_targets_def
proof (intro ballI impI)
  fix j' c' d'
  assume j': "j' \<in> set (db_jobs db')" and c': "c' \<in> set (db_schedules db')" and d': "d' \<in> set (db_schedules db')"
    and e: "sc_enabled c' \<and> sc_enabled d' \<and> target_matches c' j' \<and> target_matches d' j'"
  obtain j where j: "j \<in> set (db_jobs db)" "jb_id j = jb_id j'" "jb_host_id j = jb_host_id j'"
      "jb_repository_id j = jb_repository_id j'" using assms(2) [OF j'] by blast
  have m: "target_matches x j = target_matches x j'" for x using j by (simp add: target_matches_def split: option.split)
  obtain c d where "c \<in> set (db_schedules db)" "sc_enabled c" "sc_id c = sc_id c'" "target_matches c j"
      "d \<in> set (db_schedules db)" "sc_enabled d" "sc_id d = sc_id d'" "target_matches d j"
    using assms(3) [OF c'] assms(3) [OF d'] e m by blast
  then show "sc_id c' = sc_id d'" using assms(1) j(1) unfolding exclusive_targets_def by metis
qed

lemma exclusive_same_schedules:
  assumes "exclusive_targets db" "db_schedules db' = db_schedules db"
    and "\<And>j'. j' \<in> set (db_jobs db') \<Longrightarrow> \<exists>j \<in> set (db_jobs db).
      jb_id j = jb_id j' \<and> jb_host_id j = jb_host_id j' \<and> jb_repository_id j = jb_repository_id j'"
  shows "exclusive_targets db'"
  by (rule exclusive_mono [OF assms(1)]) (use assms(2,3) in auto)

lemma host_of_fields [simp]: "ho_id (host_of i d) = i" "ho_name (host_of i d) = hi_name d"
  "ho_enabled (host_of i d) = hi_enabled d" "ho_repository_ready (host_of i d) = False"
  by (simp_all add: host_of_def)

lemma insert_host_ok:
  assumes "db_ok db" "i = next_key ho_id (db_hosts db)" "\<not> name_taken ho_id ho_name i (hi_name d) (db_hosts db)"
  shows "db_ok (db\<lparr>db_hosts := table_insert (db_hosts db) (host_of i d)\<rparr>)"
proof -
  let ?db = "db\<lparr>db_hosts := table_insert (db_hosts db) (host_of i d)\<rparr>"
  have fresh: "i \<notin> ho_id ` set (db_hosts db)" using assms(2) next_key_not_in by metis
  have ids: "host_ids ?db = insert i (host_ids db)" "repository_ids ?db = repository_ids db" "job_ids ?db = job_ids db"
    by (auto simp: host_ids_def repository_ids_def job_ids_def table_insert_def)
  have "distinct (map ho_id (table_insert (db_hosts db) (host_of i d)))"
    using assms fresh by (auto simp: db_ok_def unique_rows_def table_insert_def)
  moreover have "distinct (map ho_name (table_insert (db_hosts db) (host_of i d)))"
    using assms fresh by (intro distinct_names_insert [where key = ho_id]) (auto simp: db_ok_def unique_rows_def)
  ultimately have "unique_rows ?db" using assms(1) by (simp add: db_ok_def unique_rows_def ids)
  moreover have "references_ok ?db"
    using assms(1) unfolding db_ok_def references_ok_def ids by (auto simp: schedule_refs_def)
  moreover have "exclusive_targets ?db"
    by (rule exclusive_same_schedules [of db]) (use assms(1) in \<open>auto simp: db_ok_def\<close>)
  moreover have "keys_valid ?db" using assms(1) unfolding db_ok_def keys_valid_def by simp
  ultimately show ?thesis by (simp add: db_ok_def)
qed

text \<open>Changes of hosts and jobs that leave every id and name as it is.\<close>

lemma db_ok_cong:
  assumes "db_ok db"
    and "map ho_id (db_hosts db') = map ho_id (db_hosts db)" "distinct (map ho_name (db_hosts db'))"
    and "map rp_id (db_repositories db') = map rp_id (db_repositories db)" "distinct (map rp_name (db_repositories db'))"
    and "map (\<lambda>j. (jb_id j, jb_host_id j, jb_repository_id j, jb_name j)) (db_jobs db') =
      map (\<lambda>j. (jb_id j, jb_host_id j, jb_repository_id j, jb_name j)) (db_jobs db)"
    and "db_schedules db' = db_schedules db" "db_access db' = db_access db" "db_mounts db' = db_mounts db"
    and "\<And>r. r \<in> set (db_runs db') \<Longrightarrow> set_option (rn_job_id r) \<subseteq> job_ids db \<and> set_option (rn_repository_id r) \<subseteq> repository_ids db"
  shows "db_ok db'" "host_ids db' = host_ids db" "repository_ids db' = repository_ids db" "job_ids db' = job_ids db"
proof -
  show h: "host_ids db' = host_ids db" unfolding host_ids_def using assms(2) by (metis set_map)
  show r: "repository_ids db' = repository_ids db" unfolding repository_ids_def using assms(4) by (metis set_map)
  have jids: "map jb_id (db_jobs db') = map jb_id (db_jobs db)"
    using arg_cong [OF assms(6), of "map fst"] by (simp add: o_def)
  have jnames: "map jb_name (db_jobs db') = map jb_name (db_jobs db)"
    using arg_cong [OF assms(6), of "map (\<lambda>x. snd (snd (snd x)))"] by (simp add: o_def)
  show j: "job_ids db' = job_ids db" unfolding job_ids_def using jids by (metis set_map)
  have views: "(\<lambda>j. (jb_id j, jb_host_id j, jb_repository_id j, jb_name j)) ` set (db_jobs db') =
      (\<lambda>j. (jb_id j, jb_host_id j, jb_repository_id j, jb_name j)) ` set (db_jobs db)"
    using arg_cong [OF assms(6), of set] by simp
  have view: "\<exists>q \<in> set (db_jobs db). jb_id q = jb_id p \<and> jb_host_id q = jb_host_id p \<and> jb_repository_id q = jb_repository_id p"
    if "p \<in> set (db_jobs db')" for p
  proof -
    have "(jb_id p, jb_host_id p, jb_repository_id p, jb_name p) \<in>
        (\<lambda>j. (jb_id j, jb_host_id j, jb_repository_id j, jb_name j)) ` set (db_jobs db)"
      using that unfolding views [symmetric] by (rule imageI)
    then show ?thesis by auto
  qed
  have "unique_rows db'"
    using assms(1-5,7,8) jids jnames by (simp add: db_ok_def unique_rows_def r j)
  moreover have "references_ok db'"
    unfolding references_ok_def h r j assms(7-9)
  proof (intro conjI ballI)
    fix p assume "p \<in> set (db_jobs db')"
    then obtain q where "q \<in> set (db_jobs db)" "jb_host_id q = jb_host_id p" "jb_repository_id q = jb_repository_id p"
      using view by blast
    then show "jb_host_id p \<in> host_ids db" "jb_repository_id p \<in> repository_ids db"
      using assms(1) unfolding db_ok_def references_ok_def by metis+
  next
    fix r assume "r \<in> set (db_runs db')"
    then show "set_option (rn_job_id r) \<subseteq> job_ids db" "set_option (rn_repository_id r) \<subseteq> repository_ids db"
      using assms(10) by blast+
  qed (use assms(1) in \<open>auto simp: db_ok_def references_ok_def\<close>)
  moreover have "exclusive_targets db'"
    by (rule exclusive_same_schedules [of db]) (use assms(1,7) view in \<open>auto simp: db_ok_def\<close>)
  moreover have "keys_valid db'" using assms(1,8) by (simp add: db_ok_def keys_valid_def)
  ultimately show "db_ok db'" by (simp add: db_ok_def)
qed

lemma runs_ok: "db_ok db \<Longrightarrow> r \<in> set (db_runs db) \<Longrightarrow>
    set_option (rn_job_id r) \<subseteq> job_ids db \<and> set_option (rn_repository_id r) \<subseteq> repository_ids db"
  by (auto simp: db_ok_def references_ok_def)

lemma names_ok: "db_ok db \<Longrightarrow> distinct (map ho_name (db_hosts db)) \<and> distinct (map rp_name (db_repositories db)) \<and>
    distinct (map ho_id (db_hosts db)) \<and> distinct (map rp_id (db_repositories db)) \<and> distinct (map jb_id (db_jobs db)) \<and>
    distinct (map sc_id (db_schedules db))"
  by (simp add: db_ok_def unique_rows_def)

lemma modify_host_parts [simp]:
  "db_repositories (modify_host i f db) = db_repositories db" "db_jobs (modify_host i f db) = db_jobs db"
  "db_schedules (modify_host i f db) = db_schedules db" "db_access (modify_host i f db) = db_access db"
  "db_mounts (modify_host i f db) = db_mounts db" "db_runs (modify_host i f db) = db_runs db"
  "db_hosts (modify_host i f db) = table_modify ho_id i f (db_hosts db)"
  by (simp_all add: modify_host_def)

lemma modify_job_parts [simp]:
  "db_repositories (modify_job i f db) = db_repositories db" "db_hosts (modify_job i f db) = db_hosts db"
  "db_schedules (modify_job i f db) = db_schedules db" "db_access (modify_job i f db) = db_access db"
  "db_mounts (modify_job i f db) = db_mounts db" "db_runs (modify_job i f db) = db_runs db"
  "db_jobs (modify_job i f db) = table_modify jb_id i f (db_jobs db)"
  by (simp_all add: modify_job_def)

lemma modify_repository_parts [simp]:
  "db_hosts (modify_repository i f db) = db_hosts db" "db_jobs (modify_repository i f db) = db_jobs db"
  "db_schedules (modify_repository i f db) = db_schedules db" "db_access (modify_repository i f db) = db_access db"
  "db_mounts (modify_repository i f db) = db_mounts db" "db_runs (modify_repository i f db) = db_runs db"
  "db_repositories (modify_repository i f db) = table_modify rp_id i f (db_repositories db)"
  by (simp_all add: modify_repository_def)

lemma modify_host_ok:
  assumes "db_ok db" "\<And>h. ho_id (f h) = ho_id h" "distinct (map ho_name (table_modify ho_id i f (db_hosts db)))"
  shows "db_ok (modify_host i f db)" "host_ids (modify_host i f db) = host_ids db"
    "repository_ids (modify_host i f db) = repository_ids db" "job_ids (modify_host i f db) = job_ids db"
  using assms(2,3) names_ok [OF assms(1)]
  by (intro db_ok_cong [OF assms(1)]; simp add: map_table_modify runs_ok [OF assms(1)])+

lemma modify_repository_ok:
  assumes "db_ok db" "\<And>h. rp_id (f h) = rp_id h" "distinct (map rp_name (table_modify rp_id i f (db_repositories db)))"
  shows "db_ok (modify_repository i f db)" "host_ids (modify_repository i f db) = host_ids db"
    "repository_ids (modify_repository i f db) = repository_ids db" "job_ids (modify_repository i f db) = job_ids db"
  using assms(2,3) names_ok [OF assms(1)]
  by (intro db_ok_cong [OF assms(1)]; simp add: map_table_modify runs_ok [OF assms(1)])+

definition toggle_jobs :: "(job \<Rightarrow> bool) \<Rightarrow> bool \<Rightarrow> manager_db \<Rightarrow> manager_db" where
  "toggle_jobs P e db = db\<lparr>db_jobs := map (\<lambda>j. if P j then j\<lparr>jb_enabled := e\<rparr> else j) (db_jobs db)\<rparr>"

lemma toggle_jobs_ok:
  assumes "db_ok db"
  shows "db_ok (toggle_jobs P e db)" "host_ids (toggle_jobs P e db) = host_ids db"
    "repository_ids (toggle_jobs P e db) = repository_ids db" "job_ids (toggle_jobs P e db) = job_ids db"
    "db_hosts (toggle_jobs P e db) = db_hosts db"
proof -
  have same: "map ho_id (db_hosts (toggle_jobs P e db)) = map ho_id (db_hosts db)" "distinct (map ho_name (db_hosts (toggle_jobs P e db)))"
    "map rp_id (db_repositories (toggle_jobs P e db)) = map rp_id (db_repositories db)"
    "distinct (map rp_name (db_repositories (toggle_jobs P e db)))"
    "map (\<lambda>j. (jb_id j, jb_host_id j, jb_repository_id j, jb_name j)) (db_jobs (toggle_jobs P e db)) =
      map (\<lambda>j. (jb_id j, jb_host_id j, jb_repository_id j, jb_name j)) (db_jobs db)"
    "db_schedules (toggle_jobs P e db) = db_schedules db" "db_access (toggle_jobs P e db) = db_access db"
    "db_mounts (toggle_jobs P e db) = db_mounts db" "db_runs (toggle_jobs P e db) = db_runs db"
    using names_ok [OF assms] by (simp_all add: toggle_jobs_def)
  have runs: "set_option (rn_job_id r) \<subseteq> job_ids db \<and> set_option (rn_repository_id r) \<subseteq> repository_ids db"
    if "r \<in> set (db_runs (toggle_jobs P e db))" for r
    using runs_ok [OF assms] that unfolding same by blast
  show "db_ok (toggle_jobs P e db)" "host_ids (toggle_jobs P e db) = host_ids db"
    "repository_ids (toggle_jobs P e db) = repository_ids db" "job_ids (toggle_jobs P e db) = job_ids db"
    by (rule db_ok_cong [OF assms same(1-8)]; erule runs)+
  show "db_hosts (toggle_jobs P e db) = db_hosts db" by (simp add: toggle_jobs_def)
qed

lemma apply_host_ok:
  assumes "db_ok db" "apply_host_enabled_state clash i e db = Inr db'"
  shows "db_ok db' \<and> host_ids db' = host_ids db \<and> repository_ids db' = repository_ids db \<and> job_ids db' = job_ids db \<and>
    map ho_name (db_hosts db') = map ho_name (db_hosts db)"
proof -
  have plain: "db_ok (modify_host i (\<lambda>h. h\<lparr>ho_enabled := e\<rparr>) d) \<and> host_ids (modify_host i (\<lambda>h. h\<lparr>ho_enabled := e\<rparr>) d) = host_ids d \<and>
      repository_ids (modify_host i (\<lambda>h. h\<lparr>ho_enabled := e\<rparr>) d) = repository_ids d \<and>
      job_ids (modify_host i (\<lambda>h. h\<lparr>ho_enabled := e\<rparr>) d) = job_ids d \<and>
      map ho_name (db_hosts (modify_host i (\<lambda>h. h\<lparr>ho_enabled := e\<rparr>) d)) = map ho_name (db_hosts d)" if "db_ok d" for d e
    using that names_ok [OF that] modify_host_ok [OF that, of "\<lambda>h. h\<lparr>ho_enabled := e\<rparr>" i] by (simp add: map_table_modify)
  show ?thesis
    using assms(2) plain [OF assms(1), of True] plain [OF toggle_jobs_ok(1) [OF assms(1), of "\<lambda>j. jb_host_id j = i" False], of False]
      toggle_jobs_ok [OF assms(1), of "\<lambda>j. jb_host_id j = i" False]
    by (auto simp: apply_host_enabled_state_def toggle_jobs_def [symmetric] split: if_splits)
qed

lemma update_host_row_ok:
  assumes "db_ok db" "update_host_row i d db = Inr (a, db')"
  shows "db_ok db' \<and> host_ids db' = host_ids db \<and> repository_ids db' = repository_ids db \<and> job_ids db' = job_ids db"
proof -
  obtain h db1 where h: "get_host db i = Some h" and clash: "\<not> name_taken ho_id ho_name i (hi_name d) (db_hosts db)"
    and s1: "apply_host_enabled_state False i (hi_enabled d) (modify_host i (with_host_data d) db) = Inr db1"
    and db': "db' = (if connection_changed d h then modify_host i (\<lambda>h. h\<lparr>ho_repository_ready := False\<rparr>) db1 else db1)"
    using assms(2) by (auto simp: update_host_row_def Let_def try_bind_Inr_iff split: option.splits if_splits)
  have m: "db_ok (modify_host i (with_host_data d) db)" "host_ids (modify_host i (with_host_data d) db) = host_ids db"
    "repository_ids (modify_host i (with_host_data d) db) = repository_ids db" "job_ids (modify_host i (with_host_data d) db) = job_ids db"
    using names_ok [OF assms(1)] clash
    by (auto intro!: modify_host_ok [OF assms(1)] distinct_names_modify [where n = "hi_name d"] simp: with_host_data_def)
  have a: "db_ok db1 \<and> host_ids db1 = host_ids db \<and> repository_ids db1 = repository_ids db \<and> job_ids db1 = job_ids db"
    using apply_host_ok [OF m(1) s1] m by simp
  have "db_ok (modify_host i (\<lambda>h. h\<lparr>ho_repository_ready := False\<rparr>) db1) \<and>
      host_ids (modify_host i (\<lambda>h. h\<lparr>ho_repository_ready := False\<rparr>) db1) = host_ids db1 \<and>
      repository_ids (modify_host i (\<lambda>h. h\<lparr>ho_repository_ready := False\<rparr>) db1) = repository_ids db1 \<and>
      job_ids (modify_host i (\<lambda>h. h\<lparr>ho_repository_ready := False\<rparr>) db1) = job_ids db1"
    using modify_host_ok [of db1 "\<lambda>h. h\<lparr>ho_repository_ready := False\<rparr>" i] a names_ok [of db1] by (simp add: map_table_modify)
  then show ?thesis using a db' by simp
qed

section \<open>Removed rows\<close>

text \<open>What a row whose key goes must not leave behind.\<close>

lemma drop_host_references_iff:
  "c' \<in> set (drop_host_references i rows) \<longleftrightarrow> (\<exists>c \<in> set rows. if sc_target_mode c \<noteq> ''hosts'' then c' = c
     else filter (\<lambda>k. k \<noteq> i) (sc_target_host_ids c) \<noteq> [] \<and> c' = c\<lparr>sc_target_host_ids := filter (\<lambda>k. k \<noteq> i) (sc_target_host_ids c)\<rparr>)"
  unfolding drop_host_references_def Let_def by (induction rows) auto

lemma drop_job_references_iff:
  "c' \<in> set (drop_job_references i rows) \<longleftrightarrow> (\<exists>c \<in> set rows. if sc_target_mode c \<noteq> ''jobs'' then c' = c
     else filter (\<lambda>k. k \<noteq> i) (sc_target_job_ids c) \<noteq> [] \<and> c' = c\<lparr>sc_target_job_ids := filter (\<lambda>k. k \<noteq> i) (sc_target_job_ids c)\<rparr>)"
  unfolding drop_job_references_def Let_def by (induction rows) auto

lemma distinct_map_concat:
  assumes "distinct (map g rows)" and "\<And>x y. x \<in> set rows \<Longrightarrow> y \<in> set (f x) \<Longrightarrow> g y = g x"
    and "\<And>x. length (f x) \<le> 1"
  shows "distinct (map g (concat (map f rows)))"
  using assms(1,2)
proof (induction rows)
  case (Cons x rows)
  have short: "f x = [] \<or> (\<exists>y. f x = [y] \<and> g y = g x)"
  proof (cases "f x")
    case step: (Cons y ys)
    then have "ys = []" using assms(3) [of x] step by simp
    then show ?thesis using Cons.prems(2) [of x y] step by simp
  qed simp
  have "g x \<notin> g ` set (concat (map f rows))"
  proof
    assume "g x \<in> g ` set (concat (map f rows))"
    then obtain z y where "z \<in> set rows" "y \<in> set (f z)" "g y = g x" by auto
    then have "z \<in> set rows \<and> g z = g x" using Cons.prems(2) [of z y] by simp
    then show False using Cons.prems(1) by (auto simp: image_iff)
  qed
  moreover have "distinct (map g (concat (map f rows)))" using Cons by simp
  ultimately show ?case using short by auto
qed simp

lemma drop_references_distinct:
  "(\<And>c ids. g (c\<lparr>sc_target_host_ids := ids\<rparr>) = g c) \<Longrightarrow> distinct (map g rows) \<Longrightarrow> distinct (map g (drop_host_references i rows))"
  "(\<And>c ids. g (c\<lparr>sc_target_job_ids := ids\<rparr>) = g c) \<Longrightarrow> distinct (map g rows) \<Longrightarrow> distinct (map g (drop_job_references i rows))"
  unfolding drop_host_references_def drop_job_references_def Let_def
  by (rule distinct_map_concat; auto split: if_splits)+

lemma distinct_map_filter': "distinct (map g xs) \<Longrightarrow> distinct (map g (filter P xs))"
  by (rule distinct_map_filter)

lemma table_remove_facts:
  "set (table_remove key i rows) = {r \<in> set rows. key r \<noteq> i}"
  "distinct (map g rows) \<Longrightarrow> distinct (map g (table_remove key i rows))"
  by (simp_all add: table_remove_def distinct_map_filter)

lemma dropped_host_target:
  assumes "schedule_refs H R J c" "if sc_target_mode c \<noteq> ''hosts'' then c' = c
      else filter (\<lambda>k. k \<noteq> i) (sc_target_host_ids c) \<noteq> [] \<and> c' = c\<lparr>sc_target_host_ids := filter (\<lambda>k. k \<noteq> i) (sc_target_host_ids c)\<rparr>"
  shows "sc_id c = sc_id c'" "sc_enabled c = sc_enabled c'" "target_matches c' j \<Longrightarrow> target_matches c j"
    "schedule_refs (H - {i}) R J c'"
proof -
  show "sc_id c = sc_id c'" "sc_enabled c = sc_enabled c'" using assms(2) by (cases "sc_target_mode c = ''hosts''"; simp)+
  show "schedule_refs (H - {i}) R J c'"
    using assms by (cases "sc_target_mode c = ''hosts''") (auto simp: schedule_refs_def)
  show "target_matches c' j \<Longrightarrow> target_matches c j"
    using assms(2) by (cases "sc_target_mode c = ''hosts''") (simp_all add: target_matches_def)
qed

lemma dropped_job_target:
  assumes "schedule_refs H R J c" "if sc_target_mode c \<noteq> ''jobs'' then c' = c
      else filter (\<lambda>k. k \<noteq> i) (sc_target_job_ids c) \<noteq> [] \<and> c' = c\<lparr>sc_target_job_ids := filter (\<lambda>k. k \<noteq> i) (sc_target_job_ids c)\<rparr>"
  shows "sc_id c = sc_id c'" "sc_enabled c = sc_enabled c'" "target_matches c' j \<Longrightarrow> target_matches c j"
    "schedule_refs H R (J - {i}) c'"
proof -
  show "sc_id c = sc_id c'" "sc_enabled c = sc_enabled c'" using assms(2) by (cases "sc_target_mode c = ''jobs''"; simp)+
  show "schedule_refs H R (J - {i}) c'"
    using assms by (cases "sc_target_mode c = ''jobs''") (auto simp: schedule_refs_def)
  show "target_matches c' j \<Longrightarrow> target_matches c j"
    using assms(2) by (cases "sc_target_mode c = ''jobs''") (simp_all add: target_matches_def)
qed

lemma delete_host_row_ok:
  assumes "db_ok db" "delete_host_row i db = Inr (u, db')"
  shows "db_ok db' \<and> host_ids db' = host_ids db - {i} \<and> repository_ids db' = repository_ids db \<and> job_ids db' = job_ids db"
proof -
  have unused: "\<forall>j \<in> set (db_jobs db). jb_host_id j \<noteq> i"
    and db': "db' = db\<lparr>db_access := filter (\<lambda>a. ac_host_id a \<noteq> i) (db_access db),
      db_schedules := drop_host_references i (db_schedules db), db_hosts := table_remove ho_id i (db_hosts db)\<rparr>"
    using assms(2) by (auto simp: delete_host_row_def list_ex_iff split: if_splits)
  have ids: "host_ids db' = host_ids db - {i}" "repository_ids db' = repository_ids db" "job_ids db' = job_ids db"
    by (auto simp: db' host_ids_def repository_ids_def job_ids_def table_remove_facts)
  have u: "unique_rows db" and r: "references_ok db" and e: "exclusive_targets db" and k: "keys_valid db"
    using assms(1) by (simp_all add: db_ok_def)
  have drop: "\<exists>c \<in> set (db_schedules db). sc_id c = sc_id c' \<and> sc_enabled c = sc_enabled c' \<and>
      (\<forall>j. target_matches c' j \<longrightarrow> target_matches c j) \<and> schedule_refs (host_ids db - {i}) (repository_ids db) (job_ids db) c'"
    if inside: "c' \<in> set (db_schedules db')" for c'
  proof -
    obtain c where c: "c \<in> set (db_schedules db)" and c': "if sc_target_mode c \<noteq> ''hosts'' then c' = c
        else filter (\<lambda>k. k \<noteq> i) (sc_target_host_ids c) \<noteq> [] \<and> c' = c\<lparr>sc_target_host_ids := filter (\<lambda>k. k \<noteq> i) (sc_target_host_ids c)\<rparr>"
      using inside by (auto simp: db' drop_host_references_iff)
    have "schedule_refs (host_ids db) (repository_ids db) (job_ids db) c" using r c by (simp add: references_ok_def)
    from dropped_host_target [OF this c'] show ?thesis using c by blast
  qed
  have "sc_id ` set (db_schedules db') \<subseteq> sc_id ` set (db_schedules db)"
  proof (rule image_subsetI)
    fix c' assume "c' \<in> set (db_schedules db')"
    then obtain c where "c \<in> set (db_schedules db)" "sc_id c = sc_id c'" using drop by blast
    then show "sc_id c' \<in> sc_id ` set (db_schedules db)" by (metis imageI)
  qed
  then have "unique_rows db'"
    using u unfolding unique_rows_def ids
    by (simp add: db' table_remove_facts distinct_map_filter' drop_references_distinct) blast
  moreover have "references_ok db'"
    unfolding references_ok_def ids
  proof (intro conjI ballI)
    fix c' assume "c' \<in> set (db_schedules db')"
    then show "schedule_refs (host_ids db - {i}) (repository_ids db) (job_ids db) c'" using drop by blast
  qed (use r unused in \<open>auto simp: references_ok_def db'\<close>)
  moreover have "exclusive_targets db'"
    by (rule exclusive_mono [OF e]) (use drop in \<open>auto simp: db'\<close>)
  moreover have "keys_valid db'" using k by (auto simp: keys_valid_def db')
  ultimately show ?thesis using ids by (simp add: db_ok_def)
qed

lemma has_no_job_runs: "\<not> rn_job_id (detach_run i n r) = Some i"
  by (simp add: detach_run_def)

lemma detach_run_refs: "set_option (rn_job_id (detach_run i n r)) \<subseteq> set_option (rn_job_id r) - {i} \<and>
    rn_repository_id (detach_run i n r) = rn_repository_id r"
  by (auto simp: detach_run_def)

lemma delete_job_row_ok:
  assumes "db_ok db" "delete_job_row i db = Inr (u, db')"
  shows "db_ok db' \<and> host_ids db' = host_ids db \<and> repository_ids db' = repository_ids db \<and> job_ids db' = job_ids db - {i}"
proof -
  obtain j :: job where db': "db' = db\<lparr>db_runs := map (detach_run i (jb_name j)) (db_runs db),
      db_schedules := drop_job_references i (db_schedules db), db_jobs := table_remove jb_id i (db_jobs db)\<rparr>"
    using assms(2) by (auto simp: delete_job_row_def split: option.splits if_splits)
  have ids: "host_ids db' = host_ids db" "repository_ids db' = repository_ids db" "job_ids db' = job_ids db - {i}"
    by (auto simp: db' host_ids_def repository_ids_def job_ids_def table_remove_facts)
  have u: "unique_rows db" and r: "references_ok db" and e: "exclusive_targets db" and k: "keys_valid db"
    using assms(1) by (simp_all add: db_ok_def)
  have drop: "\<exists>c \<in> set (db_schedules db). sc_id c = sc_id c' \<and> sc_enabled c = sc_enabled c' \<and>
      (\<forall>j. target_matches c' j \<longrightarrow> target_matches c j) \<and> schedule_refs (host_ids db) (repository_ids db) (job_ids db - {i}) c'"
    if inside: "c' \<in> set (db_schedules db')" for c'
  proof -
    obtain c where c: "c \<in> set (db_schedules db)" and c': "if sc_target_mode c \<noteq> ''jobs'' then c' = c
        else filter (\<lambda>k. k \<noteq> i) (sc_target_job_ids c) \<noteq> [] \<and> c' = c\<lparr>sc_target_job_ids := filter (\<lambda>k. k \<noteq> i) (sc_target_job_ids c)\<rparr>"
      using inside by (auto simp: db' drop_job_references_iff)
    have "schedule_refs (host_ids db) (repository_ids db) (job_ids db) c" using r c by (simp add: references_ok_def)
    from dropped_job_target [OF this c'] show ?thesis using c by blast
  qed
  have "sc_id ` set (db_schedules db') \<subseteq> sc_id ` set (db_schedules db)"
  proof (rule image_subsetI)
    fix c' assume "c' \<in> set (db_schedules db')"
    then obtain c where "c \<in> set (db_schedules db)" "sc_id c = sc_id c'" using drop by blast
    then show "sc_id c' \<in> sc_id ` set (db_schedules db)" by (metis imageI)
  qed
  then have "unique_rows db'"
    using u unfolding unique_rows_def ids
    by (simp add: db' table_remove_facts distinct_map_filter' drop_references_distinct) blast
  moreover have "references_ok db'"
    unfolding references_ok_def ids
  proof (intro conjI ballI)
    fix c' assume "c' \<in> set (db_schedules db')"
    then show "schedule_refs (host_ids db) (repository_ids db) (job_ids db - {i}) c'" using drop by blast
  next
    fix q assume "q \<in> set (db_runs db')"
    then obtain p where "p \<in> set (db_runs db)" "q = detach_run i (jb_name j) p" by (auto simp: db')
    then show "set_option (rn_job_id q) \<subseteq> job_ids db - {i}" "set_option (rn_repository_id q) \<subseteq> repository_ids db"
      using runs_ok [OF assms(1), of p] detach_run_refs [of i "jb_name j" p] by auto
  qed (use r in \<open>auto simp: references_ok_def db' table_remove_facts\<close>)
  moreover have "exclusive_targets db'"
    by (rule exclusive_mono [OF e]) (use drop in \<open>auto simp: db' table_remove_facts\<close>)
  moreover have "keys_valid db'" using k by (auto simp: keys_valid_def db')
  ultimately show ?thesis using ids by (simp add: db_ok_def)
qed

end
