(* ===== verification/InventoryRows.thy ===== *)
theory InventoryRows
  imports InventoryFacts
begin

text \<open>
  The rest of the changes of rows that keep the invariant of the inventory: jobs, schedules,
  repositories and the access rows.
\<close>

section \<open>Jobs\<close>

lemma fold_max_bound: "x \<in> set xs \<Longrightarrow> x \<le> fold max xs (m :: nat)"
proof (induction xs arbitrary: m)
  case (Cons y ys)
  have "m \<le> fold max ys m" for m :: nat
    by (induction ys arbitrary: m) (auto intro: order_trans [OF max.cobounded2])
  then have "y \<le> fold max ys (max y m)" by (meson max.cobounded1 order_trans)
  then show ?case using Cons by auto
qed simp

lemma allocated_fresh:
  "allocate_job_id s \<notin> job_ids (iv_db s)" "allocate_job_id s \<notin> set (iv_reserved s)"
  "r \<in> set (db_runs (iv_db s)) \<Longrightarrow> rn_job_id r \<noteq> Some (allocate_job_id s)"
proof -
  have less: "k < allocate_job_id s" if "k \<in> set (map jb_id (db_jobs (iv_db s)) @ iv_reserved s @
      concat (map (\<lambda>r. case rn_job_id r of None \<Rightarrow> [] | Some j \<Rightarrow> [j]) (db_runs (iv_db s))))" for k
    using fold_max_bound [OF that, of 0] by (simp add: allocate_job_id_def)
  show "allocate_job_id s \<notin> job_ids (iv_db s)"
    using less [of "allocate_job_id s"] by (auto simp: job_ids_def)
  show "allocate_job_id s \<notin> set (iv_reserved s)" using less [of "allocate_job_id s"] by auto
  show "r \<in> set (db_runs (iv_db s)) \<Longrightarrow> rn_job_id r \<noteq> Some (allocate_job_id s)"
    using less [of "allocate_job_id s"] by force
qed

lemma new_job_fields [simp]: "jb_id (new_job i d) = i" "jb_name (new_job i d) = ji_name d"
  "jb_host_id (new_job i d) = nat (ji_host_id d)" "jb_repository_id (new_job i d) = nat (ji_repository_id d)"
  by (simp_all add: new_job_def with_job_data_def)

lemma apply_job_fields [simp]: "jb_id (apply_job d j) = jb_id j" "jb_name (apply_job d j) = ji_name d"
  "jb_host_id (apply_job d j) = nat (ji_host_id d)" "jb_repository_id (apply_job d j) = nat (ji_repository_id d)"
  by (simp_all add: apply_job_def without_statistics_def with_job_data_def)

text \<open>A new or changed job that passed the check of its schedules.\<close>

lemma exclusive_job:
  assumes e: "exclusive_targets db" and u: "distinct (map sc_id (db_schedules db))"
    and valid: "validate_job_schedule_conflicts db' j = Inr x" "jb_id j \<noteq> 0" "jb_repository_id j \<noteq> 0"
    and same: "db_schedules db' = db_schedules db"
    and jobs: "\<And>q. q \<in> set (db_jobs db') \<Longrightarrow> q = j \<or> q \<in> set (db_jobs db)"
  shows "exclusive_targets db'"
  unfolding exclusive_targets_def same
proof (intro ballI impI)
  fix q c d
  assume q: "q \<in> set (db_jobs db')" and c: "c \<in> set (db_schedules db)" and d: "d \<in> set (db_schedules db)"
    and m: "sc_enabled c \<and> sc_enabled d \<and> target_matches c q \<and> target_matches d q"
  show "sc_id c = sc_id d"
  proof (cases "q = j")
    case True
    then show ?thesis using checked_job_exclusive [OF valid, of c d] c d m u by (simp add: same)
  next
    case False
    then show ?thesis using jobs [OF q] e c d m unfolding exclusive_targets_def by blast
  qed
qed

lemma distinct_map_eq: "distinct (map f xs) \<Longrightarrow> x \<in> set xs \<Longrightarrow> y \<in> set xs \<Longrightarrow> f x = f y \<Longrightarrow> x = y"
  by (simp add: distinct_map inj_on_def)

lemma known_references_iff:
  "known_references db d \<longleftrightarrow> nat (ji_host_id d) \<in> host_ids db \<and> nat (ji_repository_id d) \<in> repository_ids db"
  by (simp add: known_references_def)

lemma insert_job_ok:
  assumes "db_ok db" "i \<notin> job_ids db" "i \<noteq> 0" "known_references db d" "\<not> name_taken jb_id jb_name i (ji_name d) (db_jobs db)"
    and "validate_job_schedule_conflicts (db\<lparr>db_jobs := table_insert (db_jobs db) (new_job i d)\<rparr>) (new_job i d) = Inr u"
  shows "db_ok (db\<lparr>db_jobs := table_insert (db_jobs db) (new_job i d)\<rparr>)"
proof -
  let ?db = "db\<lparr>db_jobs := table_insert (db_jobs db) (new_job i d)\<rparr>"
  have u: "unique_rows db" and r: "references_ok db" and e: "exclusive_targets db" and k: "keys_valid db"
    using assms(1) by (simp_all add: db_ok_def)
  have ids: "host_ids ?db = host_ids db" "repository_ids ?db = repository_ids db" "job_ids ?db = insert i (job_ids db)"
    by (auto simp: host_ids_def repository_ids_def job_ids_def table_insert_def)
  have "distinct (map jb_id (table_insert (db_jobs db) (new_job i d)))"
    using u assms(2) by (auto simp: unique_rows_def job_ids_def table_insert_def)
  moreover have "distinct (map jb_name (table_insert (db_jobs db) (new_job i d)))"
    using u assms(2,5) by (intro distinct_names_insert [where key = jb_id]) (auto simp: unique_rows_def job_ids_def)
  ultimately have "unique_rows ?db" using u assms(3) by (simp add: unique_rows_def ids)
  moreover have "references_ok ?db"
    unfolding references_ok_def ids
  proof (intro conjI ballI)
    fix q assume "q \<in> set (db_jobs ?db)"
    then show "jb_host_id q \<in> host_ids db" "jb_repository_id q \<in> repository_ids db"
      using r assms(4) by (auto simp: references_ok_def known_references_iff table_insert_def)
  next
    fix c assume "c \<in> set (db_schedules ?db)"
    then have "schedule_refs (host_ids db) (repository_ids db) (job_ids db) c" using r by (simp add: references_ok_def)
    then show "schedule_refs (host_ids db) (repository_ids db) (insert i (job_ids db)) c" by (auto simp: schedule_refs_def)
  qed (use r in \<open>auto simp: references_ok_def\<close>)
  moreover have "exclusive_targets ?db"
  proof (rule exclusive_job [OF e _ assms(6)])
    have "nat (ji_repository_id d) \<noteq> 0" using assms(4) u unfolding known_references_iff unique_rows_def by metis
    then show "jb_repository_id (new_job i d) \<noteq> 0" by simp
  qed (use u assms(3) in \<open>auto simp: unique_rows_def table_insert_def\<close>)
  moreover have "keys_valid ?db" using k unfolding keys_valid_def by simp
  ultimately show ?thesis by (simp add: db_ok_def)
qed

lemma update_job_row_ok:
  assumes "db_ok db" "update_job_row i d db = Inr (u, db')"
  shows "db_ok db' \<and> host_ids db' = host_ids db \<and> repository_ids db' = repository_ids db \<and> job_ids db' = job_ids db"
proof -
  obtain j where j: "get_job db i = Some j" using assms(2) by (auto simp: update_job_row_def split: option.splits)
  have known: "known_references db d" and name: "\<not> name_taken jb_id jb_name i (ji_name d) (db_jobs db)"
    and valid: "validate_job_schedule_conflicts (modify_job i (apply_job d) db) (apply_job d j) = Inr ()"
    and db': "db' = modify_job i (apply_job d) db"
    using assms(2) by (auto simp: update_job_row_def j try_bind_Inr_iff split: if_splits)
  have u: "unique_rows db" and r: "references_ok db" and e: "exclusive_targets db" and k: "keys_valid db"
    using assms(1) by (simp_all add: db_ok_def)
  have ids: "host_ids db' = host_ids db" "repository_ids db' = repository_ids db" "job_ids db' = job_ids db"
    by (simp_all add: db' host_ids_def repository_ids_def job_ids_def image_table_modify)
  have jobs: "q \<in> set (db_jobs db) \<and> jb_id q \<noteq> i \<or> q = apply_job d j" if inside: "q \<in> set (db_jobs db')" for q
  proof -
    obtain p where p: "p \<in> set (db_jobs db)" "q = (if jb_id p = i then apply_job d p else p)"
      using inside by (auto simp: db' table_modify_def)
    have "distinct (map jb_id (db_jobs db))" using u by (simp add: unique_rows_def)
    then have "p = j" if "jb_id p = i" using distinct_map_eq [of jb_id "db_jobs db" p j] that p(1) get_jobD [OF j] by simp
    then show ?thesis using p by auto
  qed
  have "unique_rows db'"
    using u name unfolding unique_rows_def ids
    by (auto simp: db' map_table_modify intro!: distinct_names_modify [where n = "ji_name d"])
  moreover have "references_ok db'"
    unfolding references_ok_def ids
  proof (intro conjI ballI)
    fix q assume "q \<in> set (db_jobs db')"
    then show "jb_host_id q \<in> host_ids db" "jb_repository_id q \<in> repository_ids db"
      using jobs [of q] r known by (auto simp: references_ok_def known_references_iff)
  qed (use r in \<open>auto simp: references_ok_def db'\<close>)
  moreover have "exclusive_targets db'"
  proof (rule exclusive_job [OF e _ valid [folded db']])
    have "nat (ji_repository_id d) \<noteq> 0" using known u unfolding known_references_iff unique_rows_def by metis
    then show "jb_repository_id (apply_job d j) \<noteq> 0" by simp
    have "jb_id j \<in> job_ids db" using get_jobD [OF j] by simp
    then have "jb_id j \<noteq> 0" using u unfolding unique_rows_def by metis
    then show "jb_id (apply_job d j) \<noteq> 0" by simp
  next
    fix q assume "q \<in> set (db_jobs db')"
    then show "q = apply_job d j \<or> q \<in> set (db_jobs db)" using jobs by blast
  qed (use u in \<open>auto simp: unique_rows_def db'\<close>)
  moreover have "keys_valid db'" using k unfolding keys_valid_def db' by simp
  ultimately show ?thesis using ids by (simp add: db_ok_def)
qed

lemma set_job_enabled_ok:
  assumes "db_ok db"
  shows "db_ok (modify_job i (\<lambda>j. j\<lparr>jb_enabled := e\<rparr>) db) \<and> host_ids (modify_job i (\<lambda>j. j\<lparr>jb_enabled := e\<rparr>) db) = host_ids db \<and>
    job_ids (modify_job i (\<lambda>j. j\<lparr>jb_enabled := e\<rparr>) db) = job_ids db"
proof -
  have "modify_job i (\<lambda>j. j\<lparr>jb_enabled := e\<rparr>) db = toggle_jobs (\<lambda>j. jb_id j = i) e db"
    by (simp add: modify_job_def toggle_jobs_def table_modify_def)
  then show ?thesis using toggle_jobs_ok [OF assms, of "\<lambda>j. jb_id j = i" e] by simp
qed

section \<open>Schedules\<close>

lemma schedule_of_fields [simp]: "sc_id (schedule_of i d) = i" "sc_name (schedule_of i d) = sn_name d"
  "sc_target_mode (schedule_of i d) = sn_target_mode d" "sc_enabled (schedule_of i d) = sn_enabled d"
  by (simp_all add: schedule_of_def)

text \<open>What the request model guarantees of a schedule.\<close>

definition schedule_in_ok :: "schedule_in \<Rightarrow> bool" where
  "schedule_in_ok d \<longleftrightarrow> (sn_target_mode d = ''hosts'' \<longrightarrow> sn_target_host_ids d \<noteq> []) \<and>
     (sn_target_mode d = ''jobs'' \<longrightarrow> sn_target_job_ids d \<noteq> [])"

lemma store_schedule_ok:
  assumes ok: "db_ok db" and d: "schedule_in_ok d" and i: "i \<noteq> 0"
    and stored: "store_schedule_row (schedule_of i d) db db1 = Inr db'"
    and rows: "\<And>c. c \<in> set (db_schedules db1) \<Longrightarrow> c = schedule_of i d \<or> c \<in> set (db_schedules db) \<and> sc_id c \<noteq> i"
    and parts: "db1 = db\<lparr>db_schedules := db_schedules db1\<rparr>"
    and unique: "distinct (map sc_id (db_schedules db1))"
    and names: "\<not> name_taken sc_id sc_name i (sn_name d) (db_schedules db) \<Longrightarrow> distinct (map sc_name (db_schedules db1))"
  shows "db_ok db' \<and> host_ids db' = host_ids db \<and> job_ids db' = job_ids db \<and> db' = db1"
proof -
  let ?c = "schedule_of i d"
  have db': "db' = db1" and name: "\<not> name_taken sc_id sc_name i (sn_name d) (db_schedules db)"
    and targets: "validate_schedule_targets_exist db1 ?c = Inr ()"
    and conflicts: "validate_schedule_conflicts db1 ?c (Some i) = Inr ()"
    using stored by (auto simp: store_schedule_row_def try_bind_Inr_iff split: if_splits)
  have p: "db_hosts db1 = db_hosts db" "db_jobs db1 = db_jobs db" "db_repositories db1 = db_repositories db"
    "db_access db1 = db_access db" "db_runs db1 = db_runs db" "db_mounts db1 = db_mounts db"
    by (subst parts, simp)+
  have ids: "host_ids db1 = host_ids db" "repository_ids db1 = repository_ids db" "job_ids db1 = job_ids db"
    by (simp_all add: host_ids_def repository_ids_def job_ids_def p)
  have u: "unique_rows db" and r: "references_ok db" and e: "exclusive_targets db" and k: "keys_valid db"
    using ok by (simp_all add: db_ok_def)
  have z: "0 \<notin> sc_id ` set (db_schedules db1)"
  proof
    assume "0 \<in> sc_id ` set (db_schedules db1)"
    then obtain c where "c \<in> set (db_schedules db1)" "sc_id c = 0" by auto
    then have "c \<in> set (db_schedules db) \<and> sc_id c = 0" using rows [of c] i by auto
    then show False using u unfolding unique_rows_def by (metis imageI)
  qed
  have new: "schedule_refs (host_ids db) (repository_ids db) (job_ids db) ?c"
    using checked_targets [OF targets] d unfolding ids by (auto simp: schedule_in_ok_def schedule_of_def)
  have "unique_rows db1"
    using u unique names [OF name] z by (simp add: unique_rows_def ids p)
  moreover have "references_ok db1"
    unfolding references_ok_def ids p
  proof (intro conjI ballI)
    fix c assume "c \<in> set (db_schedules db1)"
    then show "schedule_refs (host_ids db) (repository_ids db) (job_ids db) c"
      using rows [of c] new r by (auto simp: references_ok_def)
  qed (use r in \<open>auto simp: references_ok_def\<close>)
  moreover have "exclusive_targets db1"
  proof (rule exclusive_store [OF r e z p(2,1,3)])
    fix q assume "q \<in> set (db_schedules db1)"
    then show "q = ?c \<or> q \<in> set (db_schedules db) \<and> sc_id q \<noteq> sc_id ?c" using rows [of q] by simp
  next
    show "validate_schedule_conflicts db1 ?c (Some (sc_id ?c)) = Inr ()" using conflicts by simp
  qed
  moreover have "keys_valid db1" using k unfolding keys_valid_def p by simp
  ultimately show ?thesis using ids db' by (simp add: db_ok_def)
qed

lemma create_schedule_row_ok:
  assumes "db_ok db" "schedule_in_ok d" "create_schedule_row d db = Inr (i, db')"
  shows "db_ok db' \<and> host_ids db' = host_ids db \<and> job_ids db' = job_ids db \<and>
    db' = db\<lparr>db_schedules := db_schedules db'\<rparr>"
proof -
  define c where "c = schedule_of (next_key sc_id (db_schedules db)) d"
  define db1 where "db1 = db\<lparr>db_schedules := table_insert (db_schedules db) c\<rparr>"
  have s: "store_schedule_row c db db1 = Inr db'"
    using assms(3) by (auto simp: create_schedule_row_def Let_def try_bind_Inr_iff c_def db1_def)
  have fresh: "next_key sc_id (db_schedules db) \<notin> sc_id ` set (db_schedules db)" by (rule next_key_not_in)
  have "db_ok db' \<and> host_ids db' = host_ids db \<and> job_ids db' = job_ids db \<and> db' = db1"
  proof (rule store_schedule_ok [OF assms(1,2) _ s [unfolded c_def]])
    fix q assume "q \<in> set (db_schedules db1)"
    then show "q = schedule_of (next_key sc_id (db_schedules db)) d \<or>
        q \<in> set (db_schedules db) \<and> sc_id q \<noteq> next_key sc_id (db_schedules db)"
      using fresh by (auto simp: db1_def c_def table_insert_def) (metis imageI)
  next
    show "distinct (map sc_id (db_schedules db1))"
      using names_ok [OF assms(1)] fresh by (auto simp: db1_def c_def table_insert_def)
    assume "\<not> name_taken sc_id sc_name (next_key sc_id (db_schedules db)) (sn_name d) (db_schedules db)"
    then show "distinct (map sc_name (db_schedules db1))"
      using assms(1) fresh unfolding db1_def c_def
      by (auto simp: db_ok_def unique_rows_def intro!: distinct_names_insert [where key = sc_id])
  qed (simp_all add: db1_def)
  moreover from this have "db' = db\<lparr>db_schedules := db_schedules db'\<rparr>" by (simp add: db1_def)
  ultimately show ?thesis by blast
qed

lemma update_schedule_row_ok:
  assumes "db_ok db" "schedule_in_ok d" "update_schedule_row i d db = Inr (u, db')"
  shows "db_ok db' \<and> host_ids db' = host_ids db \<and> job_ids db' = job_ids db \<and>
    db' = db\<lparr>db_schedules := db_schedules db'\<rparr>"
proof -
  define c where "c = schedule_of i d"
  define db1 where "db1 = db\<lparr>db_schedules := table_modify sc_id i (\<lambda>_. c) (db_schedules db)\<rparr>"
  have s: "store_schedule_row c db db1 = Inr db'" and found: "get_schedule db i \<noteq> None"
    using assms(3) by (auto simp: update_schedule_row_def Let_def try_bind_Inr_iff c_def db1_def split: if_splits)
  have u: "unique_rows db" using assms(1) by (simp add: db_ok_def)
  have "i \<in> sc_id ` set (db_schedules db)" using found by (simp add: table_get_None_iff)
  then have i: "i \<noteq> 0" using u unfolding unique_rows_def by metis
  have ids: "map sc_id (table_modify sc_id i (\<lambda>_. c) (db_schedules db)) = map sc_id (db_schedules db)"
    by (simp add: table_modify_def c_def)
  have "db_ok db' \<and> host_ids db' = host_ids db \<and> job_ids db' = job_ids db \<and> db' = db1"
  proof (rule store_schedule_ok [OF assms(1,2) i s [unfolded c_def]])
    show "distinct (map sc_id (db_schedules db1))"
      using u ids by (simp add: db1_def unique_rows_def)
    assume n: "\<not> name_taken sc_id sc_name i (sn_name d) (db_schedules db)"
    show "distinct (map sc_name (db_schedules db1))"
      using u n unfolding db1_def
      by (auto simp: unique_rows_def c_def intro!: distinct_names_modify [where n = "sn_name d"])
  qed (auto simp: db1_def c_def table_modify_def)
  moreover from this have "db' = db\<lparr>db_schedules := db_schedules db'\<rparr>" by (simp add: db1_def)
  ultimately show ?thesis by blast
qed

lemma delete_schedule_ok:
  assumes "db_ok db"
  shows "db_ok (db\<lparr>db_schedules := table_remove sc_id i (db_schedules db)\<rparr>)"
proof -
  let ?db = "db\<lparr>db_schedules := table_remove sc_id i (db_schedules db)\<rparr>"
  have u: "unique_rows db" and r: "references_ok db" and e: "exclusive_targets db" and k: "keys_valid db"
    using assms(1) by (simp_all add: db_ok_def)
  have ids: "host_ids ?db = host_ids db" "repository_ids ?db = repository_ids db" "job_ids ?db = job_ids db"
    by (simp_all add: host_ids_def repository_ids_def job_ids_def)
  have "unique_rows ?db" using u unfolding unique_rows_def ids by (auto simp: table_remove_facts)
  moreover have "references_ok ?db" using r unfolding references_ok_def ids by (auto simp: table_remove_facts)
  moreover have "exclusive_targets ?db" by (rule exclusive_mono [OF e]) (auto simp: table_remove_facts)
  moreover have "keys_valid ?db" using k unfolding keys_valid_def by simp
  ultimately show ?thesis by (simp add: db_ok_def)
qed

section \<open>Repositories\<close>

lemma insert_repository_ok:
  assumes "db_ok db" "insert_repository r db = Inr (i, db')" "rp_id r = next_key rp_id (db_repositories db)"
  shows "db_ok db' \<and> host_ids db' = host_ids db \<and> job_ids db' = job_ids db \<and>
    db' = db\<lparr>db_repositories := table_insert (db_repositories db) r\<rparr> \<and> i = rp_id r"
proof -
  have db': "db' = db\<lparr>db_repositories := table_insert (db_repositories db) r\<rparr>" and i: "i = rp_id r"
    and name: "\<not> name_taken rp_id rp_name (rp_id r) (rp_name r) (db_repositories db)"
    using assms(2) by (auto simp: insert_repository_def split: if_splits)
  have fresh: "rp_id r \<notin> rp_id ` set (db_repositories db)" using assms(3) next_key_not_in by metis
  have ids: "host_ids db' = host_ids db" "repository_ids db' = insert (rp_id r) (repository_ids db)" "job_ids db' = job_ids db"
    by (auto simp: db' host_ids_def repository_ids_def job_ids_def table_insert_def)
  have u: "unique_rows db" and ref: "references_ok db" and e: "exclusive_targets db" and k: "keys_valid db"
    using assms(1) by (simp_all add: db_ok_def)
  have "distinct (map rp_id (table_insert (db_repositories db) r))"
    using u fresh by (auto simp: unique_rows_def table_insert_def)
  moreover have "distinct (map rp_name (table_insert (db_repositories db) r))"
    using u fresh name by (intro distinct_names_insert [where key = rp_id]) (auto simp: unique_rows_def)
  moreover have "rp_id r \<noteq> 0" using assms(3) by simp
  ultimately have "unique_rows db'" using u unfolding unique_rows_def ids by (simp add: db')
  moreover have "references_ok db'"
    using ref unfolding references_ok_def ids by (auto simp: db' schedule_refs_def)
  moreover have "exclusive_targets db'" by (rule exclusive_same_schedules [OF e]) (auto simp: db')
  moreover have "keys_valid db'" using k unfolding keys_valid_def by (simp add: db')
  ultimately show ?thesis using ids db' i by (simp add: db_ok_def)
qed

lemma table_remove_absent: "i \<notin> key ` set rows \<Longrightarrow> table_remove key i rows = rows"
  by (auto simp: table_remove_def intro!: filter_True)

text \<open>Removing a repository that no job, run or schedule names.\<close>

lemma drop_repository_ok:
  assumes "db_ok db" "\<not> repository_referenced db i"
  shows "db_ok (drop_repository_row i db) \<and> host_ids (drop_repository_row i db) = host_ids db \<and>
    job_ids (drop_repository_row i db) = job_ids db"
proof -
  let ?db = "drop_repository_row i db"
  have u: "unique_rows db" and r: "references_ok db" and e: "exclusive_targets db" and k: "keys_valid db"
    using assms(1) by (simp_all add: db_ok_def)
  have ids: "host_ids ?db = host_ids db" "repository_ids ?db = repository_ids db - {i}" "job_ids ?db = job_ids db"
    by (auto simp: drop_repository_row_def host_ids_def repository_ids_def job_ids_def table_remove_facts)
  have p: "db_jobs ?db = db_jobs db" "db_schedules ?db = db_schedules db" "db_runs ?db = db_runs db" "db_hosts ?db = db_hosts db"
    "set (db_access ?db) = {a \<in> set (db_access db). ac_repository_id a \<noteq> i}"
    "set (db_mounts ?db) = {m \<in> set (db_mounts db). am_repository_id m \<noteq> i}"
    by (simp_all add: drop_repository_row_def)
  have unused: "j \<in> set (db_jobs db) \<Longrightarrow> jb_repository_id j \<noteq> i" "q \<in> set (db_runs db) \<Longrightarrow> rn_repository_id q \<noteq> Some i"
    "c \<in> set (db_schedules db) \<Longrightarrow> sc_target_repository_id c \<noteq> Some i" for j q c
    using assms(2) by (auto simp: repository_referenced_def list_ex_iff)
  have "unique_rows ?db"
    using u unfolding unique_rows_def ids by (simp add: drop_repository_row_def table_remove_facts distinct_map_filter')
  moreover have "references_ok ?db"
    unfolding references_ok_def ids p
  proof (intro conjI ballI)
    fix q assume "q \<in> set (db_runs db)"
    then show "set_option (rn_job_id q) \<subseteq> job_ids db" "set_option (rn_repository_id q) \<subseteq> repository_ids db - {i}"
      using runs_ok [OF assms(1), of q] unused(2) [of q] by auto
  next
    fix c assume c: "c \<in> set (db_schedules db)"
    then have "schedule_refs (host_ids db) (repository_ids db) (job_ids db) c" using r by (simp add: references_ok_def)
    then show "schedule_refs (host_ids db) (repository_ids db - {i}) (job_ids db) c"
      using unused(3) [OF c] by (auto simp: schedule_refs_def)
  qed (use r unused(1) in \<open>auto simp: references_ok_def\<close>)
  moreover have "exclusive_targets ?db" by (rule exclusive_same_schedules [OF e]) (auto simp: p)
  moreover have "keys_valid ?db" using k unfolding keys_valid_def p by auto
  ultimately show ?thesis using ids by (simp add: db_ok_def)
qed

definition release_repository :: "nat \<Rightarrow> manager_db \<Rightarrow> manager_db" where
  "release_repository i db =
     db\<lparr>db_runs := map (\<lambda>r. if rn_repository_id r = Some i then r\<lparr>rn_repository_id := None\<rparr> else r) (db_runs db),
        db_schedules := filter (\<lambda>c. \<not> (sc_target_mode c = ''repository'' \<and> sc_target_repository_id c = Some i)) (db_schedules db)\<rparr>"

lemma delete_repository_row_ok:
  assumes "db_ok db" "delete_repository_row i db = Inr (x, db')"
  shows "db_ok db' \<and> host_ids db' = host_ids db \<and> job_ids db' = job_ids db"
proof -
  let ?d = "release_repository i db"
  have unused: "\<forall>j \<in> set (db_jobs db). jb_repository_id j \<noteq> i" and db': "db' = drop_repository_row i ?d"
    using assms(2) by (auto simp: delete_repository_row_def release_repository_def list_ex_iff split: if_splits)
  have u: "unique_rows db" and r: "references_ok db" and e: "exclusive_targets db" and k: "keys_valid db"
    using assms(1) by (simp_all add: db_ok_def)
  have ids: "host_ids ?d = host_ids db" "repository_ids ?d = repository_ids db" "job_ids ?d = job_ids db"
    by (simp_all add: release_repository_def host_ids_def repository_ids_def job_ids_def)
  have "unique_rows ?d"
    using u unfolding unique_rows_def ids by (auto simp: release_repository_def distinct_map_filter')
  moreover have "references_ok ?d"
    using r unfolding references_ok_def ids by (auto simp: release_repository_def)
  moreover have "exclusive_targets ?d" by (rule exclusive_mono [OF e]) (auto simp: release_repository_def)
  moreover have "keys_valid ?d" using k unfolding keys_valid_def by (simp add: release_repository_def)
  ultimately have d: "db_ok ?d" by (simp add: db_ok_def)
  have "\<not> repository_referenced ?d i"
    using unused r
    by (auto simp: repository_referenced_def list_ex_iff release_repository_def references_ok_def schedule_refs_def)
  from drop_repository_ok [OF d this] show ?thesis using ids by (simp add: db')
qed

lemma set_repository_enabled_ok:
  assumes "db_ok db" "set_repository_enabled_state clash r e db = Inr db'"
  shows "db_ok db' \<and> host_ids db' = host_ids db \<and> job_ids db' = job_ids db \<and>
    map rp_name (db_repositories db') = map rp_name (db_repositories db) \<and>
    map rp_id (db_repositories db') = map rp_id (db_repositories db)"
proof -
  have "db_ok (modify_repository (rp_id r) (\<lambda>q. q\<lparr>rp_enabled := e\<rparr>) db) \<and>
      host_ids (modify_repository (rp_id r) (\<lambda>q. q\<lparr>rp_enabled := e\<rparr>) db) = host_ids db \<and>
      job_ids (modify_repository (rp_id r) (\<lambda>q. q\<lparr>rp_enabled := e\<rparr>) db) = job_ids db"
    using modify_repository_ok [OF assms(1), of "\<lambda>q. q\<lparr>rp_enabled := e\<rparr>" "rp_id r"] names_ok [OF assms(1)]
    by (simp add: map_table_modify)
  then show ?thesis
    using assms by (auto simp: set_repository_enabled_state_def map_table_modify split: if_splits)
qed

lemma with_repository_data_fields [simp]:
  "rp_id (with_repository_data d c p r) = rp_id r" "rp_name (with_repository_data d c p r) = ri_name d"
  by (simp_all add: with_repository_data_def with_connection_def forget_external_storage_def Let_def)

section \<open>Access rows\<close>

lemma set_new_accesses: "ac_pair ` set (new_accesses i ps) = set ps"
  by (induction i ps rule: new_accesses.induct) (auto simp: ac_pair_def)

lemma map_pair_new_accesses: "map ac_pair (new_accesses i ps) = ps"
  by (induction i ps rule: new_accesses.induct) (auto simp: ac_pair_def)

lemma ids_new_accesses: "a \<in> set (new_accesses i ps) \<Longrightarrow> i \<le> ac_id a \<and> ac_public_key a = None"
  by (induction i ps rule: new_accesses.induct) fastforce+

lemma distinct_new_accesses: "distinct (map ac_id (new_accesses i ps))"
proof (induction i ps rule: new_accesses.induct)
  case (2 i h r ps)
  have "i \<notin> ac_id ` set (new_accesses (Suc i) ps)" using ids_new_accesses [of _ "Suc i" ps] by fastforce
  then show ?case using 2 by simp
qed simp

lemma desired_pairs_ids:
  "references_ok db \<Longrightarrow> (h, r) \<in> set (desired_pairs db) \<Longrightarrow> h \<in> host_ids db \<and> r \<in> repository_ids db"
  by (auto simp: desired_pairs_def references_ok_def)

text \<open>The rows after the synchronisation: one for each pair of a job, old keys kept.\<close>

lemma assigned_pairs: "ac_pair ` set (assigned_access db) = set (desired_pairs db)"
  by (auto simp: assigned_access_def image_Un set_new_accesses)

lemma sync_access_rows_parts [simp]:
  "db_jobs (sync_access_rows db) = db_jobs db" "db_repositories (sync_access_rows db) = db_repositories db"
  "db_schedules (sync_access_rows db) = db_schedules db" "db_runs (sync_access_rows db) = db_runs db"
  "db_mounts (sync_access_rows db) = db_mounts db" "db_access (sync_access_rows db) = assigned_access db"
  "map ho_id (db_hosts (sync_access_rows db)) = map ho_id (db_hosts db)"
  "map ho_name (db_hosts (sync_access_rows db)) = map ho_name (db_hosts db)"
  by (simp_all add: sync_access_rows_def Let_def)

lemma access_rows_ok:
  assumes "db_ok db" "distinct (map ac_id rows)" "distinct (map ac_pair rows)"
    and "\<And>a. a \<in> set rows \<Longrightarrow> ac_host_id a \<in> host_ids db \<and> ac_repository_id a \<in> repository_ids db"
    and "\<And>a k. a \<in> set rows \<Longrightarrow> ac_public_key a = Some k \<Longrightarrow> valid_key k"
  shows "db_ok (db\<lparr>db_access := rows\<rparr>)"
proof -
  let ?db = "db\<lparr>db_access := rows\<rparr>"
  have u: "unique_rows db" and r: "references_ok db" and e: "exclusive_targets db"
    using assms(1) by (simp_all add: db_ok_def)
  have ids: "host_ids ?db = host_ids db" "repository_ids ?db = repository_ids db" "job_ids ?db = job_ids db"
    by (simp_all add: host_ids_def repository_ids_def job_ids_def)
  have "unique_rows ?db" using u assms(2,3) unfolding unique_rows_def ids by simp
  moreover have "references_ok ?db" using r assms(4) unfolding references_ok_def ids by simp
  moreover have "exclusive_targets ?db" by (rule exclusive_same_schedules [OF e]) auto
  moreover have "keys_valid ?db" using assms(5) unfolding keys_valid_def by simp
  ultimately show ?thesis by (simp add: db_ok_def)
qed

lemma assigned_access_ok:
  assumes "db_ok db"
  shows "db_ok (db\<lparr>db_access := assigned_access db\<rparr>)"
proof (rule access_rows_ok [OF assms])
  have u: "unique_rows db" and r: "references_ok db" and k: "keys_valid db"
    using assms(1) by (simp_all add: db_ok_def)
  let ?new = "new_accesses (next_key ac_id (db_access db)) (filter (\<lambda>p. p \<notin> ac_pair ` set (db_access db)) (desired_pairs db))"
  have "ac_id a < ac_id b" if "a \<in> set (db_access db)" "b \<in> set ?new" for a b
    using key_less_next [OF that(1), of ac_id] ids_new_accesses [OF that(2)] by simp
  then show "distinct (map ac_id (assigned_access db))"
    using u by (auto simp: assigned_access_def unique_rows_def distinct_map_filter' distinct_new_accesses) (metis less_irrefl)
  show "distinct (map ac_pair (assigned_access db))"
    using u by (auto simp: assigned_access_def unique_rows_def distinct_map_filter' map_pair_new_accesses
        set_new_accesses [unfolded image_def] desired_pairs_def dest: arg_cong [of _ _ ac_pair])
  fix a assume a: "a \<in> set (assigned_access db)"
  then have "ac_pair a \<in> set (desired_pairs db)" using assigned_pairs [of db] by blast
  then show "ac_host_id a \<in> host_ids db \<and> ac_repository_id a \<in> repository_ids db"
    using desired_pairs_ids [OF r] by (simp add: ac_pair_def)
  show "valid_key key" if "ac_public_key a = Some key" for key
    using a that k ids_new_accesses [of a] by (auto simp: assigned_access_def keys_valid_def)
qed

lemma sync_access_rows_ok:
  assumes "db_ok db"
  shows "db_ok (sync_access_rows db)" "host_ids (sync_access_rows db) = host_ids db"
    "repository_ids (sync_access_rows db) = repository_ids db" "job_ids (sync_access_rows db) = job_ids db"
proof -
  let ?d = "db\<lparr>db_access := assigned_access db\<rparr>"
  have d: "db_ok ?d" by (rule assigned_access_ok [OF assms])
  have same: "host_ids ?d = host_ids db" "repository_ids ?d = repository_ids db" "job_ids ?d = job_ids db"
    by (simp_all add: host_ids_def repository_ids_def job_ids_def)
  have hosts: "map ho_id (db_hosts (sync_access_rows db)) = map ho_id (db_hosts ?d)"
    "distinct (map ho_name (db_hosts (sync_access_rows db)))"
    "map rp_id (db_repositories (sync_access_rows db)) = map rp_id (db_repositories ?d)"
    "distinct (map rp_name (db_repositories (sync_access_rows db)))"
    "map (\<lambda>j. (jb_id j, jb_host_id j, jb_repository_id j, jb_name j)) (db_jobs (sync_access_rows db)) =
      map (\<lambda>j. (jb_id j, jb_host_id j, jb_repository_id j, jb_name j)) (db_jobs ?d)"
    "db_schedules (sync_access_rows db) = db_schedules ?d" "db_access (sync_access_rows db) = db_access ?d"
    "db_mounts (sync_access_rows db) = db_mounts ?d" "db_runs (sync_access_rows db) = db_runs ?d"
    using names_ok [OF assms] by simp_all
  have runs: "set_option (rn_job_id r) \<subseteq> job_ids ?d \<and> set_option (rn_repository_id r) \<subseteq> repository_ids ?d"
    if "r \<in> set (db_runs (sync_access_rows db))" for r
    using runs_ok [OF d, of r] that by simp
  show "db_ok (sync_access_rows db)" by (rule db_ok_cong [OF d hosts(1-8) runs])
  show "host_ids (sync_access_rows db) = host_ids db" "repository_ids (sync_access_rows db) = repository_ids db"
    "job_ids (sync_access_rows db) = job_ids db"
    using db_ok_cong(2-4) [OF d hosts(1-8) runs] same by simp_all
qed

lemma removed_access_ok:
  assumes "db_ok db"
  shows "db_ok (db\<lparr>db_access := filter P (db_access db)\<rparr>)"
proof (rule access_rows_ok [OF assms])
  show "distinct (map ac_id (filter P (db_access db)))" "distinct (map ac_pair (filter P (db_access db)))"
    using assms by (simp_all add: db_ok_def unique_rows_def distinct_map_filter')
qed (use assms in \<open>auto simp: db_ok_def references_ok_def keys_valid_def\<close>)

lemma valid_key_iff:
  "valid_key k \<longleftrightarrow> (case split_ws (py_strip k) of t # b # ws \<Rightarrow> t = ''ssh-ed25519'' \<and> b \<noteq> [] \<and> list_all base64_char b | _ \<Rightarrow> False)"
  by (auto simp: valid_key_def normalize_public_key_def Let_def split: list.split)

lemma normalize_valid:
  "valid_key k \<Longrightarrow> \<exists>l. normalize_public_key k c = Some l"
  by (auto simp: valid_key_def normalize_public_key_def Let_def split: if_splits)

lemma strip_by_hd_last:
  assumes "s \<noteq> []" "\<not> P (hd s)" "\<not> P (last s)"
  shows "strip_by P s = s"
proof -
  have "dropWhile P s = s" using assms(1,2) by (cases s) auto
  moreover have "dropWhile P (rev s) = rev s" using assms(1,3) by (cases "rev s") (auto simp: hd_rev [symmetric])
  ultimately show ?thesis by (simp add: strip_by_def lstrip_by_def rstrip_by_def)
qed

lemma access_comment_word: "is_word (access_comment h r)"
proof -
  have "\<not> is_space c" if "c \<in> set (str_nat n)" for c n
    using str_nat_digits [OF that] by (auto simp: is_digit_def is_space_def Let_def)
  then show ?thesis
    by (auto simp: is_word_def access_comment_def is_space_def char_code_def Let_def)
qed

text \<open>A stored key can be read again.\<close>

lemma normalized_valid:
  assumes "normalize_public_key key (access_comment h r) = Some k" shows "valid_key k"
proof -
  define ws where "ws = split_ws (py_strip key)"
  define c where "c = access_comment h r"
  have ws: "2 \<le> length ws" "ws ! 0 = ''ssh-ed25519''" "ws ! 1 \<noteq> []" "list_all base64_char (ws ! 1)"
    and k: "k = ws ! 0 @ '' '' @ ws ! 1 @ '' '' @ c"
    using assms by (auto simp: normalize_public_key_def Let_def ws_def c_def split: if_splits)
  have "ws ! 0 \<in> set ws" "ws ! 1 \<in> set ws" using ws(1) by (auto intro!: nth_mem)
  then have words: "is_word (ws ! 0)" "is_word (ws ! 1)" "is_word c"
    using split_ws_words [of _ "py_strip key", folded ws_def] access_comment_word by (auto simp: c_def)
  then have ne: "c \<noteq> []" "\<not> is_space (hd (ws ! 0))" "\<not> is_space (last c)" "ws ! 0 \<noteq> []"
    by (auto simp: is_word_def)
  have "py_strip k = k" unfolding py_strip_def using ne k by (intro strip_by_hd_last) auto
  moreover have "split_ws k = [ws ! 0, ws ! 1, c]"
    using split_ws_join [of "[ws ! 0, ws ! 1, c]"] words by (simp add: k)
  ultimately show ?thesis using ws by (simp add: valid_key_iff)
qed

lemma store_keys_ok:
  "store_keys h ks rows = Some rows' \<Longrightarrow> (\<And>a k. a \<in> set rows \<Longrightarrow> ac_public_key a = Some k \<Longrightarrow> valid_key k) \<Longrightarrow>
   map ac_id rows' = map ac_id rows \<and> map ac_pair rows' = map ac_pair rows \<and>
   (\<forall>a \<in> set rows'. \<forall>k. ac_public_key a = Some k \<longrightarrow> valid_key k)"
proof (induction h ks rows rule: store_keys.induct)
  case (2 h r key ks rows)
  show ?case
  proof (cases "list_ex (\<lambda>a. ac_pair a = (h, r)) rows")
    case True
    then obtain k where k: "normalize_public_key key (access_comment h r) = Some k"
      using 2(3) by (auto split: option.splits)
    let ?rows = "map (\<lambda>a. if ac_pair a = (h, r) then a\<lparr>ac_public_key := Some k\<rparr> else a) rows"
    have same: "map ac_id ?rows = map ac_id rows" "map ac_pair ?rows = map ac_pair rows"
      by (auto simp: ac_pair_def)
    have "store_keys h ks ?rows = Some rows'" using 2(3) True k by simp
    then have "map ac_id rows' = map ac_id ?rows \<and> map ac_pair rows' = map ac_pair ?rows \<and>
        (\<forall>a \<in> set rows'. \<forall>k. ac_public_key a = Some k \<longrightarrow> valid_key k)"
      using normalized_valid [OF k] 2(4) by (intro "2.IH"(1) [OF True k]) (auto split: if_splits)
    then show ?thesis unfolding same .
  next
    case False
    then show ?thesis using "2.IH"(2) 2(3,4) by simp
  qed
qed simp

lemma store_keys_db_ok:
  assumes "db_ok db" "store_keys h ks (db_access db) = Some rows"
  shows "db_ok (db\<lparr>db_access := rows\<rparr>)"
proof -
  have u: "unique_rows db" and r: "references_ok db" and k: "keys_valid db"
    using assms(1) by (simp_all add: db_ok_def)
  have s: "map ac_id rows = map ac_id (db_access db)" "map ac_pair rows = map ac_pair (db_access db)"
    "\<forall>a \<in> set rows. \<forall>k. ac_public_key a = Some k \<longrightarrow> valid_key k"
    using store_keys_ok [OF assms(2)] k by (auto simp: keys_valid_def)
  show ?thesis
  proof (rule access_rows_ok [OF assms(1)])
    show "distinct (map ac_id rows)" "distinct (map ac_pair rows)" using u s by (simp_all add: unique_rows_def)
    fix a assume "a \<in> set rows"
    then have "ac_pair a \<in> ac_pair ` set (db_access db)" using s(2) by (metis imageI list.set_map)
    then show "ac_host_id a \<in> host_ids db \<and> ac_repository_id a \<in> repository_ids db"
      using r by (auto simp: ac_pair_def references_ok_def)
  qed (use s in auto)
qed

end
