(* ===== verification/InventorySync.thy ===== *)
theory InventorySync
  imports InventoryRows
begin

text \<open>
  After every request the three derived things agree with the database again: the access rows with
  the jobs, the authorized keys with the access rows, the timers with the schedules.
\<close>

section \<open>Views of the database\<close>

text \<open>The authorized keys and the timers only see this much of hosts and repositories.\<close>

definition host_view :: "manager_db \<Rightarrow> nat \<Rightarrow> bool option" where
  "host_view db i = map_option ho_enabled (get_host db i)"

definition repository_view :: "manager_db \<Rightarrow> nat \<Rightarrow> (bool \<times> string option) option" where
  "repository_view db i = map_option (\<lambda>r. (rp_enabled r, rp_storage_path r)) (get_repository db i)"

text \<open>They agree on the hosts and repositories that jobs and access rows name.\<close>

definition used_hosts :: "manager_db \<Rightarrow> nat set" where
  "used_hosts db = jb_host_id ` set (db_jobs db) \<union> ac_host_id ` set (db_access db)"

definition used_repositories :: "manager_db \<Rightarrow> nat set" where
  "used_repositories db = jb_repository_id ` set (db_jobs db) \<union> ac_repository_id ` set (db_access db)"

definition views_agree :: "manager_db \<Rightarrow> manager_db \<Rightarrow> bool" where
  "views_agree db db' \<longleftrightarrow> (\<forall>i \<in> used_hosts db. host_view db' i = host_view db i) \<and>
     (\<forall>i \<in> used_repositories db. repository_view db' i = repository_view db i)"

lemma views_agree_refl [simp]: "views_agree db db"
  by (simp add: views_agree_def)

lemma access_line_view:
  "access_line env db a =
     (case (host_view db (ac_host_id a), repository_view db (ac_repository_id a)) of
        (Some he, Some (re, sp)) \<Rightarrow>
          if \<not> truthy (ac_public_key a) \<or> \<not> he \<or> \<not> re \<or> \<not> truthy sp then Some []
          else (let p = en_resolve env (or_empty sp) in
            if p = en_root env \<or> \<not> path_within (en_root env) p then Some []
            else map_option (\<lambda>key. [key_line p key])
              (normalize_public_key (or_empty (ac_public_key a)) (access_comment (ac_host_id a) (ac_repository_id a))))
      | _ \<Rightarrow> None)"
proof (cases "get_host db (ac_host_id a)")
  case (Some h)
  note h = this
  show ?thesis
  proof (cases "get_repository db (ac_repository_id a)")
    case (Some r)
    have "ho_id h = ac_host_id a" "rp_id r = ac_repository_id a" using h Some by (simp_all add: table_get_SomeD)
    then show ?thesis by (simp add: access_line_def host_view_def repository_view_def h Some Let_def)
  qed (simp add: access_line_def host_view_def repository_view_def h del: get_host_None get_repository_None)
qed (simp add: access_line_def host_view_def del: get_host_None get_repository_None)

lemma access_lines_cong:
  "(\<And>a. a \<in> set rows \<Longrightarrow> access_line env db' a = access_line env db a) \<Longrightarrow> access_lines env db' rows = access_lines env db rows"
  by (induction rows) (simp_all split: option.split)

lemma set_by_pair [simp]: "set (by_pair rows) = set rows"
  by (simp add: by_pair_def)

lemma access_lines_view:
  assumes "views_agree db db'"
  shows "access_lines env db' (by_pair (db_access db)) = access_lines env db (by_pair (db_access db))"
proof (rule access_lines_cong)
  fix a assume "a \<in> set (by_pair (db_access db))"
  then have "ac_host_id a \<in> used_hosts db" "ac_repository_id a \<in> used_repositories db"
    by (auto simp: used_hosts_def used_repositories_def)
  then show "access_line env db' a = access_line env db a"
    using assms by (simp add: access_line_view views_agree_def)
qed

lemma desired_pairs_view:
  assumes "views_agree db db'"
    and "map (\<lambda>j. (jb_host_id j, jb_repository_id j)) (db_jobs db') = map (\<lambda>j. (jb_host_id j, jb_repository_id j)) (db_jobs db)"
  shows "desired_pairs db' = desired_pairs db"
proof -
  define managed where "managed = (\<lambda>d i. case repository_view d i of None \<Rightarrow> False | Some (e, sp) \<Rightarrow> sp \<noteq> None)"
  have filtered: "map f (filter (\<lambda>x. P (f x)) xs) = filter P (map f xs)" for f :: "job \<Rightarrow> nat \<times> nat" and P xs
    by (simp add: filter_map o_def)
  have by_view: "desired_pairs d = remdups (filter (\<lambda>p. managed d (snd p)) (map (\<lambda>j. (jb_host_id j, jb_repository_id j)) (db_jobs d)))" for d
  proof -
    have "(case get_repository d i of None \<Rightarrow> False | Some r \<Rightarrow> rp_storage_path r \<noteq> None) = managed d i" for i
      by (cases "get_repository d i") (simp_all add: managed_def repository_view_def del: get_repository_None)
    then show ?thesis by (simp add: desired_pairs_def filter_map o_def)
  qed
  have "managed db' (snd p) = managed db (snd p)"
    if "p \<in> set (map (\<lambda>j. (jb_host_id j, jb_repository_id j)) (db_jobs db))" for p
    using that assms(1) by (auto simp: managed_def used_repositories_def views_agree_def)
  then show ?thesis unfolding by_view assms(2) by (intro arg_cong [where f = remdups] filter_cong refl) simp
qed

lemma host_access_ready_view:
  assumes "views_agree db db'" "db_access db' = db_access db"
  shows "host_access_ready db' h = host_access_ready db h"
proof -
  have "(case get_repository db' i of None \<Rightarrow> False | Some r \<Rightarrow> rp_enabled r) =
      (case get_repository db i of None \<Rightarrow> False | Some r \<Rightarrow> rp_enabled r)" if "i \<in> used_repositories db" for i
  proof -
    have e: "(case get_repository d i of None \<Rightarrow> False | Some r \<Rightarrow> rp_enabled r) =
        (case repository_view d i of None \<Rightarrow> False | Some (e, sp) \<Rightarrow> e)" for d
      by (cases "get_repository d i") (simp_all add: repository_view_def del: get_repository_None)
    show ?thesis using assms(1) that by (simp add: e views_agree_def)
  qed
  then have "filter (\<lambda>a. ac_host_id a = ho_id h \<and> (case get_repository db' (ac_repository_id a) of None \<Rightarrow> False | Some r \<Rightarrow> rp_enabled r)) (db_access db) =
      filter (\<lambda>a. ac_host_id a = ho_id h \<and> (case get_repository db (ac_repository_id a) of None \<Rightarrow> False | Some r \<Rightarrow> rp_enabled r)) (db_access db)"
    by (intro filter_cong) (auto simp: used_repositories_def)
  then show ?thesis by (simp add: host_access_ready_def assms(2))
qed

lemma host_access_ready_id: "ho_id g = ho_id h \<Longrightarrow> host_access_ready db g = host_access_ready db h"
  by (simp add: host_access_ready_def)

lemma timetable_view:
  assumes "views_agree db db'" "db_schedules db' = db_schedules db" "db_jobs db' = db_jobs db"
  shows "timetable env db' = timetable env db"
proof -
  have e: "job_joined d True j = (case (host_view d (jb_host_id j), repository_view d (jb_repository_id j)) of
      (Some he, Some (re, sp)) \<Rightarrow> jb_enabled j \<and> he \<and> re | _ \<Rightarrow> False)" for d j
    by (cases "get_host d (jb_host_id j)"; cases "get_repository d (jb_repository_id j)")
      (simp_all add: job_joined_def host_view_def repository_view_def del: get_host_None get_repository_None)
  have "job_joined db' True j = job_joined db True j" if "j \<in> set (db_jobs db)" for j
    using that assms(1) by (simp add: e used_hosts_def used_repositories_def views_agree_def)
  then have "schedule_target_job_ids db' c True = schedule_target_job_ids db c True" for c
    unfolding schedule_target_job_ids_def assms(3)
    by (intro arg_cong [where f = "by_key jb_id"] arg_cong [where f = "map jb_id"] filter_cong refl) simp
  then have "timers_of env db' c = timers_of env db c" for c by (simp only: timers_of_def)
  then have "timers_of env db' = timers_of env db" by blast
  then show ?thesis by (simp add: timetable_def assms(2))
qed

section \<open>Agreement\<close>

definition access_synced :: "manager_db \<Rightarrow> bool" where
  "access_synced db \<longleftrightarrow> ac_pair ` set (db_access db) = set (desired_pairs db) \<and>
     (\<forall>h \<in> set (db_hosts db). ho_repository_ready h = host_access_ready db h)"

definition keys_synced :: "inventory_env \<Rightarrow> inventory \<Rightarrow> bool" where
  "keys_synced env s \<longleftrightarrow> access_lines env (iv_db s) (by_pair (db_access (iv_db s))) = Some (iv_keys s)"

definition timers_synced :: "inventory_env \<Rightarrow> inventory \<Rightarrow> bool" where
  "timers_synced env s \<longleftrightarrow> iv_timers s = timetable env (iv_db s)"

definition settled :: "inventory_env \<Rightarrow> inventory \<Rightarrow> bool" where
  "settled env s \<longleftrightarrow> inventory_ok s \<and> access_synced (iv_db s) \<and> keys_synced env s \<and> timers_synced env s"

lemma settled_ok: "settled env s \<Longrightarrow> inventory_ok s \<and> db_ok (iv_db s) \<and> references_ok (iv_db s) \<and> unique_rows (iv_db s)"
  by (simp add: settled_def inventory_ok_def db_ok_def)

text \<open>Rebuilding the keys never fails while the invariant holds.\<close>

lemma access_lines_total:
  assumes "db_ok db" "set rows \<subseteq> set (db_access db)"
  shows "\<exists>ls. access_lines env db rows = Some ls"
  using assms(2)
proof (induction rows)
  case (Cons a rows)
  have "ac_host_id a \<in> host_ids db" "ac_repository_id a \<in> repository_ids db"
    using assms(1) Cons.prems by (auto simp: db_ok_def references_ok_def)
  then obtain h r where hr: "get_host db (ac_host_id a) = Some h" "get_repository db (ac_repository_id a) = Some r"
    by (metis get_host_None get_repository_None option.exhaust)
  have "\<exists>l. access_line env db a = Some l"
  proof (cases "ac_public_key a")
    case (Some k)
    then have "valid_key k" using assms(1) Cons.prems by (auto simp: db_ok_def keys_valid_def)
    then obtain l where "normalize_public_key k (access_comment (ho_id h) (rp_id r)) = Some l" using normalize_valid by blast
    then show ?thesis by (simp add: access_line_def hr Some or_empty_def Let_def)
  qed (simp add: access_line_def hr)
  then show ?case using Cons by auto
qed simp

lemma sync_access_rows_view: "views_agree db (sync_access_rows db)"
proof -
  have "map_option ho_enabled (table_get ho_id (map (\<lambda>h. h\<lparr>ho_repository_ready := f h\<rparr>) hs) i) =
      map_option ho_enabled (table_get ho_id hs i)" for i f hs
    by (induction hs) (auto simp: table_get_def)
  then have "host_view (sync_access_rows db) i = host_view db i" for i
    by (simp add: host_view_def sync_access_rows_def Let_def)
  then show ?thesis by (simp add: views_agree_def repository_view_def)
qed

lemma sync_access_rows_synced:
  assumes "db_ok db" shows "access_synced (sync_access_rows db)"
proof -
  have "desired_pairs (sync_access_rows db) = desired_pairs db"
    by (rule desired_pairs_view [OF sync_access_rows_view]) simp
  moreover have "ho_repository_ready h = host_access_ready (sync_access_rows db) h"
    if inside: "h \<in> set (db_hosts (sync_access_rows db))" for h
  proof -
    obtain g where "g \<in> set (db_hosts db)"
      and h: "h = g\<lparr>ho_repository_ready := host_access_ready (db\<lparr>db_access := assigned_access db\<rparr>) g\<rparr>"
      using inside by (auto simp: sync_access_rows_def Let_def)
    have "host_access_ready (sync_access_rows db) h = host_access_ready (db\<lparr>db_access := assigned_access db\<rparr>) h"
      by (simp add: host_access_ready_def)
    also have "\<dots> = host_access_ready (db\<lparr>db_access := assigned_access db\<rparr>) g"
      by (rule host_access_ready_id) (simp add: h)
    finally show ?thesis by (simp add: h)
  qed
  ultimately show ?thesis by (simp add: access_synced_def assigned_pairs)
qed

lemma inventory_ok_db:
  "inventory_ok s \<Longrightarrow> db_ok db \<Longrightarrow> host_ids db = host_ids (iv_db s) \<Longrightarrow> job_ids db \<subseteq> job_ids (iv_db s) \<Longrightarrow>
   inventory_ok (s\<lparr>iv_db := db\<rparr>)"
  by (auto simp: inventory_ok_def)

lemma sync_access_result:
  assumes "inventory_ok s"
  obtains ls where "sync_repository_access_assignments env s = (s\<lparr>iv_db := sync_access_rows (iv_db s), iv_keys := ls\<rparr>, Inr ())"
    and "access_lines env (sync_access_rows (iv_db s)) (by_pair (db_access (sync_access_rows (iv_db s)))) = Some ls"
proof -
  have ok: "db_ok (sync_access_rows (iv_db s))" using assms sync_access_rows_ok(1) by (simp add: inventory_ok_def)
  obtain ls where "access_lines env (sync_access_rows (iv_db s)) (by_pair (db_access (sync_access_rows (iv_db s)))) = Some ls"
    using access_lines_total [OF ok, of "by_pair (db_access (sync_access_rows (iv_db s)))"] by auto
  then show thesis
    using that [of ls]
    by (simp add: sync_repository_access_assignments_def and_then_def transact_def rebuild_repository_authorized_keys_def)
qed

lemma sync_access_settles:
  assumes "inventory_ok s" "timers_synced env s"
  shows "settled env (fst (sync_repository_access_assignments env s)) \<and> snd (sync_repository_access_assignments env s) = Inr ()"
proof -
  obtain ls where r: "sync_repository_access_assignments env s = (s\<lparr>iv_db := sync_access_rows (iv_db s), iv_keys := ls\<rparr>, Inr ())"
    and ls: "access_lines env (sync_access_rows (iv_db s)) (by_pair (db_access (sync_access_rows (iv_db s)))) = Some ls"
    using sync_access_result [OF assms(1), of env] by blast
  have db: "db_ok (iv_db s)" using assms(1) by (simp add: inventory_ok_def)
  have "inventory_ok (s\<lparr>iv_db := sync_access_rows (iv_db s), iv_keys := ls\<rparr>)"
    using assms(1) sync_access_rows_ok [OF db] by (simp add: inventory_ok_def)
  moreover have "timetable env (sync_access_rows (iv_db s)) = timetable env (iv_db s)"
    by (intro timetable_view sync_access_rows_view) simp_all
  ultimately show ?thesis
    using assms(2) ls sync_access_rows_synced [OF db] by (simp add: r settled_def keys_synced_def timers_synced_def)
qed

lemma sync_both_settles:
  assumes "inventory_ok s" shows "settled env (fst (sync_both env s)) \<and> snd (sync_both env s) = Inr ()"
proof -
  obtain ls where r: "sync_repository_access_assignments env s = (s\<lparr>iv_db := sync_access_rows (iv_db s), iv_keys := ls\<rparr>, Inr ())"
    and ls: "access_lines env (sync_access_rows (iv_db s)) (by_pair (db_access (sync_access_rows (iv_db s)))) = Some ls"
    using sync_access_result [OF assms(1), of env] by blast
  have db: "db_ok (iv_db s)" using assms(1) by (simp add: inventory_ok_def)
  show ?thesis
    using assms(1) sync_access_rows_ok [OF db] ls sync_access_rows_synced [OF db]
    by (simp add: sync_both_def and_then_def r sync_schedules_def change_def settled_def keys_synced_def timers_synced_def
        inventory_ok_def)
qed

section \<open>Rules for the endpoints\<close>

lemma and_then_fst:
  "fst (and_then m k s) = (case snd (m s) of Inl e \<Rightarrow> fst (m s) | Inr a \<Rightarrow> fst (k a (fst (m s))))"
  by (simp add: and_then_def split: prod.split sum.split)

text \<open>A transaction followed by both synchronisations.\<close>

lemma transact_sync:
  assumes "settled env s" "\<And>a db'. f (iv_db s) = Inr (a, db') \<Longrightarrow> inventory_ok (s\<lparr>iv_db := db'\<rparr>)"
  shows "settled env (fst (and_then (transact f) (\<lambda>_. sync_both env) s))"
proof (cases "f (iv_db s)")
  case (Inl e)
  then show ?thesis using assms(1) by (simp add: and_then_def transact_def)
next
  case (Inr x)
  obtain a db' where x: "x = (a, db')" by fastforce
  then show ?thesis using sync_both_settles [OF assms(2) [OF Inr [unfolded x]], of env] Inr
    by (simp add: and_then_def transact_def)
qed

text \<open>Changes that leave the derived things as they are.\<close>

lemma unchanged_settled:
  assumes s: "settled env s" and ok: "inventory_ok s'" and views: "views_agree (iv_db s) (iv_db s')"
    and rows: "db_access (iv_db s') = db_access (iv_db s)"
    and jobs: "map (\<lambda>j. (jb_host_id j, jb_repository_id j)) (db_jobs (iv_db s')) =
      map (\<lambda>j. (jb_host_id j, jb_repository_id j)) (db_jobs (iv_db s))"
    and hosts: "\<And>h'. h' \<in> set (db_hosts (iv_db s')) \<Longrightarrow>
      (\<exists>h \<in> set (db_hosts (iv_db s)). ho_id h = ho_id h' \<and> ho_repository_ready h = ho_repository_ready h') \<or>
      \<not> ho_repository_ready h' \<and> ho_id h' \<notin> host_ids (iv_db s)"
    and keys: "iv_keys s' = iv_keys s" and timers: "timers_synced env s'"
  shows "settled env s'"
proof -
  have r: "references_ok (iv_db s)" using settled_ok [OF s] by simp
  have "ac_pair ` set (db_access (iv_db s')) = set (desired_pairs (iv_db s'))"
    using s desired_pairs_view [OF views jobs] rows by (simp add: settled_def access_synced_def)
  moreover have "ho_repository_ready h' = host_access_ready (iv_db s') h'" if "h' \<in> set (db_hosts (iv_db s'))" for h'
  proof -
    have e: "host_access_ready (iv_db s') h' = host_access_ready (iv_db s) h'"
      by (rule host_access_ready_view [OF views rows])
    from hosts [OF that] show ?thesis
    proof
      assume "\<exists>h \<in> set (db_hosts (iv_db s)). ho_id h = ho_id h' \<and> ho_repository_ready h = ho_repository_ready h'"
      then obtain h where h: "h \<in> set (db_hosts (iv_db s))" "ho_id h = ho_id h'" "ho_repository_ready h = ho_repository_ready h'"
        by blast
      then have "ho_repository_ready h = host_access_ready (iv_db s) h" using s by (simp add: settled_def access_synced_def)
      also have "\<dots> = host_access_ready (iv_db s) h'" by (rule host_access_ready_id [OF h(2)])
      finally show ?thesis using e h by simp
    next
      assume new: "\<not> ho_repository_ready h' \<and> ho_id h' \<notin> host_ids (iv_db s)"
      then have "\<not> host_access_ready (iv_db s) h'"
        using r by (auto simp: host_access_ready_def references_ok_def Let_def filter_empty_conv)
      then show ?thesis using new e by simp
    qed
  qed
  moreover have "keys_synced env s'"
    using s access_lines_view [OF views, of env] rows keys by (simp add: settled_def keys_synced_def)
  ultimately show ?thesis using ok timers by (simp add: settled_def access_synced_def)
qed

lemma unchanged_timers:
  assumes "settled env s" "views_agree (iv_db s) (iv_db s')" "db_schedules (iv_db s') = db_schedules (iv_db s)"
    "db_jobs (iv_db s') = db_jobs (iv_db s)" "iv_timers s' = iv_timers s"
  shows "timers_synced env s'"
  using assms timetable_view [of "iv_db s" "iv_db s'" env]
  by (simp add: settled_def timers_synced_def)

end
