(* ===== verification/InventorySteps.thy ===== *)
theory InventorySteps
  imports InventorySync
begin

text \<open>
  Every request to the inventory, with the validation of its data in front, as a step of a
  transition system; runs may change in between. Every step keeps the inventory settled: the
  invariant holds and access rows, authorized keys and timers agree with the database.
\<close>

section \<open>Requests that end with a synchronisation\<close>

lemma fst_then_give: "fst (and_then m (\<lambda>_. give i) s) = fst (m s)"
  by (auto simp: and_then_def give_def split: prod.split sum.split)

lemma fst_then_give' [simp]: "fst (and_then m give s) = fst (m s)"
  by (auto simp: and_then_def give_def split: prod.split sum.split)

lemma fst_transact_then:
  "fst (and_then (transact f) k s) =
     (case f (iv_db s) of Inl e \<Rightarrow> s | Inr (a, db) \<Rightarrow> fst (k a (s\<lparr>iv_db := db\<rparr>)))"
  by (simp add: and_then_def transact_def split: sum.split prod.split)

lemma give_then: "and_then (give a) k s = k a s"
  by (simp add: and_then_def give_def)

lemma and_then_same: "m s = m' s' \<Longrightarrow> and_then m k s = and_then m' k s'"
  by (simp add: and_then_def)

lemma fst_change_then [simp]: "fst (and_then (change f) k s) = fst (k () (f s))"
  by (simp add: and_then_def change_def)

lemma settled_settles: "settled env s \<Longrightarrow> settled env (fst (sync_repository_access_assignments env s))"
  using sync_access_settles by (simp add: settled_def)

text \<open>After a change of schedules or of jobs that keeps their pairs, the timers are enough.\<close>

lemma timers_settle:
  assumes "settled env s" "inventory_ok s'"
    and "db_hosts (iv_db s') = db_hosts (iv_db s)" "db_repositories (iv_db s') = db_repositories (iv_db s)"
    and "db_access (iv_db s') = db_access (iv_db s)" "iv_keys s' = iv_keys s"
    and "map (\<lambda>j. (jb_host_id j, jb_repository_id j)) (db_jobs (iv_db s')) =
      map (\<lambda>j. (jb_host_id j, jb_repository_id j)) (db_jobs (iv_db s))"
  shows "settled env (fst (sync_schedules env s'))"
proof -
  let ?t = "fst (sync_schedules env s')"
  have t: "?t = s'\<lparr>iv_timers := timetable env (iv_db s')\<rparr>" by (simp add: sync_schedules_def change_def)
  show ?thesis
  proof (rule unchanged_settled [OF assms(1)])
    show "inventory_ok ?t" using assms(2) by (simp add: t inventory_ok_def)
    show "timers_synced env ?t" by (simp add: t timers_synced_def)
  qed (use assms in \<open>auto simp: t views_agree_def host_view_def repository_view_def\<close>)
qed

text \<open>A request that touches none of the three.\<close>

lemma aside_settled:
  assumes "settled env s" "inventory_ok s'"
    and "db_hosts (iv_db s') = db_hosts (iv_db s)" "db_schedules (iv_db s') = db_schedules (iv_db s)"
    and "db_jobs (iv_db s') = db_jobs (iv_db s)" "db_access (iv_db s') = db_access (iv_db s)"
    and "\<And>i. i \<in> used_repositories (iv_db s) \<Longrightarrow> repository_view (iv_db s') i = repository_view (iv_db s) i"
    and "iv_keys s' = iv_keys s" "iv_timers s' = iv_timers s"
  shows "settled env s'"
proof -
  have v: "views_agree (iv_db s) (iv_db s')" using assms(3,7) by (simp add: views_agree_def host_view_def)
  show ?thesis
    by (rule unchanged_settled [OF assms(1,2) v])
      (use assms unchanged_timers [OF assms(1) v] in auto)
qed

section \<open>Hosts\<close>

lemma create_host_settled:
  assumes "settled env s"
  shows "settled env (fst (create_host d s))"
proof -
  define i where "i = next_key ho_id (db_hosts (iv_db s))"
  define s' where "s' = s\<lparr>iv_db := (iv_db s)\<lparr>db_hosts := table_insert (db_hosts (iv_db s)) (host_of i d)\<rparr>\<rparr>"
  have ok: "inventory_ok s" and r: "references_ok (iv_db s)" using settled_ok [OF assms] by simp_all
  have new: "i \<notin> host_ids (iv_db s)" using next_key_not_in [of ho_id] by (simp add: i_def host_ids_def)
  have f: "fst (create_host d s) = (if name_taken ho_id ho_name i (hi_name d) (db_hosts (iv_db s)) then s else s')"
    by (simp add: create_host_def and_then_def transact_def Let_def i_def s'_def trust_host_key_def refuse_def give_def)
  have "settled env s'" if free: "\<not> name_taken ho_id ho_name i (hi_name d) (db_hosts (iv_db s))"
  proof -
    have "db_ok (iv_db s')" using insert_host_ok [of "iv_db s" i d] ok free by (simp add: inventory_ok_def i_def s'_def)
    moreover have "host_ids (iv_db s') = insert i (host_ids (iv_db s))" "job_ids (iv_db s') = job_ids (iv_db s)"
      by (auto simp: host_ids_def job_ids_def s'_def table_insert_def)
    ultimately have db: "db_ok (iv_db s')" "host_ids (iv_db s') = insert i (host_ids (iv_db s))" "job_ids (iv_db s') = job_ids (iv_db s)"
      by simp_all
    have "host_view (iv_db s') k = host_view (iv_db s) k" if "k \<in> used_hosts (iv_db s)" for k
    proof -
      have "k \<noteq> i" using that new r by (auto simp: used_hosts_def references_ok_def)
      moreover have "i \<notin> set (map ho_id (db_hosts (iv_db s)))" using new by (simp add: host_ids_def)
      ultimately show ?thesis by (simp add: host_view_def s'_def table_get_insert)
    qed
    then have v: "views_agree (iv_db s) (iv_db s')" by (simp add: views_agree_def repository_view_def s'_def)
    show ?thesis
    proof (rule unchanged_settled [OF assms _ v])
      show "inventory_ok s'" using ok db by (auto simp: inventory_ok_def s'_def)
      show "timers_synced env s'" by (rule unchanged_timers [OF assms v]) (simp_all add: s'_def)
      fix h' assume h': "h' \<in> set (db_hosts (iv_db s'))"
      then consider "h' = host_of i d" | "h' \<in> set (db_hosts (iv_db s))" by (auto simp: s'_def table_insert_def)
      then show "(\<exists>h \<in> set (db_hosts (iv_db s)). ho_id h = ho_id h' \<and> ho_repository_ready h = ho_repository_ready h') \<or>
          \<not> ho_repository_ready h' \<and> ho_id h' \<notin> host_ids (iv_db s)"
        using new by cases auto
    qed (simp_all add: s'_def)
  qed
  then show ?thesis using assms f by simp
qed

lemma set_host_enabled_settled:
  assumes "settled env s" shows "settled env (fst (set_host_enabled env i e s))"
  unfolding set_host_enabled_def
proof (rule transact_sync [OF assms])
  fix a :: unit and db'
  assume "(if get_host (iv_db s) i = None then Inl No_host
      else try_bind (apply_host_enabled_state False i e (iv_db s)) (\<lambda>db1. Inr ((), db1))) = Inr (a, db')"
  then have "apply_host_enabled_state False i e (iv_db s) = Inr db'" by (auto simp: try_bind_Inr_iff split: if_splits)
  then show "inventory_ok (s\<lparr>iv_db := db'\<rparr>)"
    using apply_host_ok settled_ok [OF assms] by (blast intro: inventory_ok_db equalityD1)
qed

lemma delete_host_settled:
  assumes "settled env s" shows "settled env (fst (delete_host env i s))"
proof (cases "delete_host_row i (iv_db s)")
  case (Inr x)
  obtain db where x: "x = ((), db)" by (cases x) auto
  have ok: "inventory_ok s" using settled_ok [OF assms] by simp
  let ?s = "delete_host_ssh_actions_for_host i (s\<lparr>iv_db := db\<rparr>)"
  have db: "db_ok db" "host_ids db = host_ids (iv_db s) - {i}" "job_ids db = job_ids (iv_db s)"
    using delete_host_row_ok [of "iv_db s" i "()" db] ok Inr x by (auto simp: inventory_ok_def)
  have "inventory_ok ?s"
    using ok db by (auto simp: inventory_ok_def delete_host_ssh_actions_for_host_def)
  then show ?thesis
    using sync_both_settles [of ?s env] Inr x
    by (simp add: delete_host_def fst_transact_then)
qed (simp add: delete_host_def fst_transact_then assms)

text \<open>A change of a host whose connection stays and that stays enabled leaves the timers as they are.\<close>

lemma update_host_row_views:
  assumes "update_host_row i d db = Inr ((moved, toggled), db')" "hi_enabled d" "\<not> toggled"
  shows "views_agree db db' \<and> db_schedules db' = db_schedules db \<and> db_jobs db' = db_jobs db"
proof -
  obtain h where h: "get_host db i = Some h" using assms(1) by (auto simp: update_host_row_def split: option.splits)
  define f where "f = (\<lambda>h. (if moved then (\<lambda>h. h\<lparr>ho_repository_ready := False\<rparr>) else id) ((with_host_data d h)\<lparr>ho_enabled := True\<rparr>))"
  have t: "ho_enabled h" and m: "moved = connection_changed d h"
    using assms h by (auto simp: update_host_row_def Let_def try_bind_Inr_iff split: if_splits)
  have f: "ho_id (f x) = ho_id x" "ho_enabled (f x)" for x by (auto simp: f_def with_host_data_def)
  have db': "db' = modify_host i f db"
    using assms(1,2) h m
    by (auto simp: update_host_row_def Let_def apply_host_enabled_state_def modify_host_def table_modify_def f_def
        with_host_data_def split: if_splits intro!: arg_cong [where f = "\<lambda>x. db\<lparr>db_hosts := x\<rparr>"])
  have "host_view db' k = host_view db k" for k
    using h t f by (simp add: db' host_view_def modify_host_def table_get_modify option.map_comp o_def)
  then show ?thesis by (simp add: views_agree_def repository_view_def db' modify_host_def)
qed

lemma validated_host_key:
  assumes "validate_host_in raw = Inr d" shows "trust_host_key (hi_host_key d) = give ()"
proof -
  have "optional_field valid_host_key (hi_host_key raw) = Inr (hi_host_key d)"
    using assms by (auto simp: validate_host_in_def try_bind_Inr_iff)
  then have "py_strip (or_empty (hi_host_key d)) \<noteq> []" if "truthy (hi_host_key d)"
    using that by (auto simp: optional_field_def valid_host_key_def try_bind_Inr_iff Let_def truthy_def or_empty_def
        split: option.splits if_splits)
  then show ?thesis by (auto simp: trust_host_key_def)
qed

definition revoked :: "nat \<Rightarrow> inventory \<Rightarrow> inventory" where
  "revoked i s = s\<lparr>iv_db := modify_host i (\<lambda>h. h\<lparr>ho_repository_ready := False\<rparr>)
     ((iv_db s)\<lparr>db_access := filter (\<lambda>a. ac_host_id a \<noteq> i) (db_access (iv_db s))\<rparr>)\<rparr>"

lemma revoked_ok:
  assumes "inventory_ok s" shows "inventory_ok (revoked i s)"
proof -
  have db: "db_ok ((iv_db s)\<lparr>db_access := filter (\<lambda>a. ac_host_id a \<noteq> i) (db_access (iv_db s))\<rparr>)" (is "db_ok ?db")
    using assms removed_access_ok by (simp add: inventory_ok_def)
  have "distinct (map ho_name (table_modify ho_id i (\<lambda>h. h\<lparr>ho_repository_ready := False\<rparr>) (db_hosts ?db)))"
    using db by (subst map_table_modify) (simp_all add: db_ok_def unique_rows_def)
  note m = modify_host_ok [OF db _ this, simplified]
  have "host_ids ?db = host_ids (iv_db s)" "job_ids ?db = job_ids (iv_db s)" by (simp_all add: host_ids_def job_ids_def)
  with m assms show ?thesis by (simp add: inventory_ok_def revoked_def)
qed

lemma revoke_is: "revoke_host_repository_access env i s = sync_repository_access_assignments env (revoked i s)"
  by (simp add: revoke_host_repository_access_def and_then_def transact_def revoked_def)

lemma update_host_settled:
  assumes "settled env s" "validate_host_in raw = Inr d"
  shows "settled env (fst (update_host env i d s))"
proof (cases "update_host_row i d (iv_db s)")
  case (Inr x)
  obtain moved toggled db where x: "x = ((moved, toggled), db)" by (metis prod.exhaust)
  have ok: "inventory_ok s" using settled_ok [OF assms(1)] by simp
  have "db_ok db \<and> host_ids db = host_ids (iv_db s) \<and> repository_ids db = repository_ids (iv_db s) \<and> job_ids db = job_ids (iv_db s)"
    using update_host_row_ok [of "iv_db s" i d "(moved, toggled)" db] ok Inr x by (simp add: inventory_ok_def)
  then have s1: "inventory_ok (s\<lparr>iv_db := db\<rparr>)" using inventory_ok_db [OF ok] by simp
  define s2 where "s2 = (if moved then revoked i (s\<lparr>iv_db := db\<rparr>) else s\<lparr>iv_db := db\<rparr>)"
  have s2: "inventory_ok s2" using s1 revoked_ok by (simp add: s2_def)
  have trust: "trust_host_key (hi_host_key d) = give ()" using validated_host_key [OF assms(2)] by simp
  have sync: "(if moved then revoke_host_repository_access env i else sync_repository_access_assignments env) (s\<lparr>iv_db := db\<rparr>) =
      sync_repository_access_assignments env s2"
    by (simp add: s2_def revoke_is)
  have f: "fst (update_host env i d s) =
      (if toggled \<or> \<not> hi_enabled d then fst (sync_both env s2) else fst (sync_repository_access_assignments env s2))"
  proof -
    have "fst (update_host env i d s) = fst (and_then (give ()) (\<lambda>_. and_then
        (if moved then revoke_host_repository_access env i else sync_repository_access_assignments env)
        (\<lambda>_. if toggled \<or> \<not> hi_enabled d then sync_schedules env else give ())) (s\<lparr>iv_db := db\<rparr>))"
      by (simp add: update_host_def fst_transact_then Inr x trust)
    also have "\<dots> = fst (and_then (sync_repository_access_assignments env)
        (\<lambda>_. if toggled \<or> \<not> hi_enabled d then sync_schedules env else give ()) s2)"
      by (simp only: give_then) (rule arg_cong [where f = fst], rule and_then_same, rule sync)
    finally show ?thesis by (simp add: sync_both_def fst_then_give)
  qed
  show ?thesis
  proof (cases "toggled \<or> \<not> hi_enabled d")
    case True
    then show ?thesis using f sync_both_settles [OF s2] by simp
  next
    case False
    have v: "views_agree (iv_db s) db \<and> db_schedules db = db_schedules (iv_db s) \<and> db_jobs db = db_jobs (iv_db s)"
      using update_host_row_views [of i d "iv_db s" moved toggled db] Inr x False by simp
    have "timers_synced env s2"
    proof -
      have "timetable env db = timetable env (iv_db s)" using v by (intro timetable_view) simp_all
      moreover have "timetable env (iv_db (revoked i (s\<lparr>iv_db := db\<rparr>))) = timetable env db"
        by (rule timetable_view) (auto simp: views_agree_def host_view_def repository_view_def revoked_def modify_host_def
            table_get_modify option.map_comp o_def)
      ultimately show ?thesis using assms(1) by (simp add: settled_def timers_synced_def s2_def revoked_def)
    qed
    then show ?thesis using f sync_access_settles [OF s2] False by simp
  qed
qed (simp add: update_host_def fst_transact_then assms(1))

section \<open>SSH actions\<close>

lemma actions_settled:
  assumes "settled env s" "\<And>a. a \<in> set rows \<Longrightarrow> sa_host_id a \<in> host_ids (iv_db s)"
  shows "settled env (s\<lparr>iv_actions := rows\<rparr>)"
  using assms by (simp add: settled_def inventory_ok_def keys_synced_def timers_synced_def)

lemma ssh_action_settled:
  assumes "settled env s"
  shows "settled env (fst (create_host_ssh_action d s))" "settled env (fst (update_host_ssh_action i d s))"
    "settled env (fst (delete_host_ssh_action i s))"
proof -
  have hosts: "\<forall>a \<in> set (iv_actions s). sa_host_id a \<in> host_ids (iv_db s)"
    using settled_ok [OF assms] by (simp add: inventory_ok_def)
  show "settled env (fst (create_host_ssh_action d s))"
    using assms hosts by (auto simp: create_host_ssh_action_def Let_def table_insert_def action_of_def intro!: actions_settled)
  show "settled env (fst (update_host_ssh_action i d s))"
    using assms hosts by (auto simp: update_host_ssh_action_def table_modify_def action_of_def intro!: actions_settled)
  show "settled env (fst (delete_host_ssh_action i s))"
    using assms hosts by (auto simp: delete_host_ssh_action_def table_remove_def intro!: actions_settled)
qed

section \<open>Jobs\<close>

lemma create_job_row_ok:
  assumes "inventory_ok s" "create_job_row d s = (s', Inr i)"
  shows "inventory_ok s' \<and> i = allocate_job_id s"
proof -
  let ?db = "(iv_db s)\<lparr>db_jobs := table_insert (db_jobs (iv_db s)) (new_job i d)\<rparr>"
  have i: "i = allocate_job_id s" and s': "s' = s\<lparr>iv_db := ?db, iv_reserved := iv_reserved s @ [i]\<rparr>"
    and refs: "known_references (iv_db s) d" and name: "\<not> name_taken jb_id jb_name i (ji_name d) (db_jobs (iv_db s))"
    and valid: "validate_job_schedule_conflicts ?db (new_job i d) = Inr ()"
    using assms(2) by (auto simp: create_job_row_def Let_def split: if_splits sum.splits)
  have "db_ok ?db"
    using insert_job_ok [OF _ _ _ refs name valid] assms(1) allocated_fresh(1) [of s] i by (simp add: inventory_ok_def allocate_job_id_def)
  moreover have "job_ids ?db = insert i (job_ids (iv_db s))" "host_ids ?db = host_ids (iv_db s)"
    by (auto simp: job_ids_def host_ids_def table_insert_def)
  ultimately show ?thesis using assms(1) i by (auto simp: inventory_ok_def s')
qed

lemma create_job_row_refused: "create_job_row d s = (s', Inl e) \<Longrightarrow> s' = s"
  by (auto simp: create_job_row_def Let_def split: if_splits sum.splits)

lemma create_job_settled:
  assumes "settled env s" shows "settled env (fst (create_job env d s))"
proof -
  obtain s' r where row: "create_job_row d s = (s', r)" by fastforce
  show ?thesis
  proof (cases r)
    case (Inl e)
    then show ?thesis using create_job_row_refused row assms by (auto simp: create_job_def and_then_def)
  next
    case (Inr i)
    have "fst (create_job env d s) = fst (sync_both env s')" by (simp add: create_job_def and_then_def [of "create_job_row d"] row Inr fst_then_give)
    then show ?thesis using sync_both_settles create_job_row_ok [of s d s' i] row Inr settled_ok [OF assms] by simp
  qed
qed

lemma update_job_settled:
  assumes "settled env s" shows "settled env (fst (update_job env i d s))"
  unfolding update_job_def
proof (rule transact_sync [OF assms])
  fix a db' assume "update_job_row i d (iv_db s) = Inr (a, db')"
  then show "inventory_ok (s\<lparr>iv_db := db'\<rparr>)"
    using update_job_row_ok settled_ok [OF assms] by (metis inventory_ok_db order_refl)
qed

lemma delete_job_settled:
  assumes "settled env s" shows "settled env (fst (delete_job env i s))"
  unfolding delete_job_def
proof (rule transact_sync [OF assms])
  fix a db' assume "delete_job_row i (iv_db s) = Inr (a, db')"
  then show "inventory_ok (s\<lparr>iv_db := db'\<rparr>)"
    using delete_job_row_ok settled_ok [OF assms] by (metis inventory_ok_db Diff_subset)
qed

lemma set_job_enabled_settled:
  assumes "settled env s" shows "settled env (fst (set_job_enabled env i e s))"
proof -
  let ?db = "modify_job i (\<lambda>j. j\<lparr>jb_enabled := e\<rparr>) (iv_db s)"
  have "inventory_ok (s\<lparr>iv_db := ?db\<rparr>)"
    using set_job_enabled_ok settled_ok [OF assms] by (metis inventory_ok_db order_refl)
  moreover have "map (\<lambda>j. (jb_host_id j, jb_repository_id j)) (db_jobs ?db) = map (\<lambda>j. (jb_host_id j, jb_repository_id j)) (db_jobs (iv_db s))"
    by (simp add: modify_job_def map_table_modify)
  ultimately have "settled env (fst (sync_schedules env (s\<lparr>iv_db := ?db\<rparr>)))"
    by (intro timers_settle [OF assms]) (simp_all add: modify_job_def)
  then show ?thesis using assms by (simp add: set_job_enabled_def fst_transact_then)
qed

section \<open>Schedules\<close>

lemma validated_schedule: "validate_schedule_in t ok raw = Inr d \<Longrightarrow> schedule_in_ok d"
  by (auto simp: validate_schedule_in_def try_bind_Inr_iff schedule_in_ok_def choice_field_def split: if_splits)

lemma schedule_rows_settle:
  assumes "settled env s" "db_ok db'" "host_ids db' = host_ids (iv_db s)" "job_ids db' = job_ids (iv_db s)"
    "db' = (iv_db s)\<lparr>db_schedules := db_schedules db'\<rparr>"
  shows "settled env (fst (sync_schedules env (s\<lparr>iv_db := db'\<rparr>)))"
proof (rule timers_settle [OF assms(1)])
  show "inventory_ok (s\<lparr>iv_db := db'\<rparr>)" using inventory_ok_db [of s db'] settled_ok [OF assms(1)] assms(2-4) by simp
qed (subst assms(5), simp)+

lemma create_schedule_settled:
  assumes "settled env s" "schedule_in_ok d" shows "settled env (fst (create_schedule env d s))"
proof (cases "create_schedule_row d (iv_db s)")
  case (Inr x)
  obtain i db where x: "x = (i, db)" by (cases x)
  then have "settled env (fst (sync_schedules env (s\<lparr>iv_db := db\<rparr>)))"
    using schedule_rows_settle [OF assms(1)] create_schedule_row_ok [of "iv_db s" d i db] Inr assms settled_ok [OF assms(1)] by blast
  then show ?thesis using Inr x by (simp add: create_schedule_def fst_transact_then fst_then_give)
qed (simp add: create_schedule_def fst_transact_then assms)

lemma update_schedule_settled:
  assumes "settled env s" "schedule_in_ok d" shows "settled env (fst (update_schedule env i d s))"
proof (cases "update_schedule_row i d (iv_db s)")
  case (Inr x)
  obtain u db where x: "x = (u, db)" by (cases x)
  then have "settled env (fst (sync_schedules env (s\<lparr>iv_db := db\<rparr>)))"
    using schedule_rows_settle [OF assms(1)] update_schedule_row_ok [of "iv_db s" d i u db] Inr assms settled_ok [OF assms(1)] by blast
  then show ?thesis using Inr x by (simp add: update_schedule_def fst_transact_then)
qed (simp add: update_schedule_def fst_transact_then assms)

lemma delete_schedule_settled:
  assumes "settled env s" shows "settled env (fst (delete_schedule env i s))"
proof -
  have "settled env (fst (sync_schedules env (s\<lparr>iv_db := (iv_db s)\<lparr>db_schedules := table_remove sc_id i (db_schedules (iv_db s))\<rparr>\<rparr>)))"
    using delete_schedule_ok settled_ok [OF assms] by (intro schedule_rows_settle [OF assms]) (auto simp: host_ids_def job_ids_def)
  then show ?thesis using assms by (simp add: delete_schedule_def fst_transact_then)
qed

end
