(* ===== verification/InventoryRequests.thy ===== *)
theory InventoryRequests
  imports InventorySteps
begin

text \<open>
  The requests for repositories and for the access of devices, and the transition system of all
  requests with what it guarantees in every state that can be reached.
\<close>

section \<open>New repositories\<close>

lemma secrets_parts [simp]:
  "iv_db (set_repository_secret i n v s) = iv_db s" "iv_reserved (set_repository_secret i n v s) = iv_reserved s"
  "iv_keys (set_repository_secret i n v s) = iv_keys s" "iv_timers (set_repository_secret i n v s) = iv_timers s"
  "iv_actions (set_repository_secret i n v s) = iv_actions s"
  by (simp_all add: set_repository_secret_def)

lemma environment_parts [simp]:
  "iv_db (fst (store_repository_environment i vs s)) = iv_db s"
  "iv_reserved (fst (store_repository_environment i vs s)) = iv_reserved s"
  "iv_keys (fst (store_repository_environment i vs s)) = iv_keys s"
  "iv_timers (fst (store_repository_environment i vs s)) = iv_timers s"
  "iv_actions (fst (store_repository_environment i vs s)) = iv_actions s"
  by (simp_all add: store_repository_environment_def split_repository_environment_def Let_def)

definition same_derived :: "inventory \<Rightarrow> inventory \<Rightarrow> bool" where
  "same_derived s s' \<longleftrightarrow> iv_reserved s' = iv_reserved s \<and> iv_keys s' = iv_keys s \<and> iv_timers s' = iv_timers s \<and>
     iv_actions s' = iv_actions s"

lemma same_derived_ok:
  "same_derived s s' \<Longrightarrow> inventory_ok s \<Longrightarrow> db_ok (iv_db s') \<Longrightarrow> host_ids (iv_db s') = host_ids (iv_db s) \<Longrightarrow>
   job_ids (iv_db s') = job_ids (iv_db s) \<Longrightarrow> inventory_ok s'"
  by (simp add: inventory_ok_def same_derived_def)

text \<open>Only the vault changes.\<close>

lemma vault_settled: "settled env s \<Longrightarrow> same_derived s s' \<Longrightarrow> iv_db s' = iv_db s \<Longrightarrow> settled env s'"
  by (simp add: settled_def inventory_ok_def keys_synced_def timers_synced_def same_derived_def)

lemma store_new_secrets_db:
  "\<exists>public. iv_db (store_new_secrets i d c s) = modify_repository i (\<lambda>r. r\<lparr>rp_extra_env := public\<rparr>) (iv_db s)"
  "same_derived s (store_new_secrets i d c s)"
  by (auto simp: store_new_secrets_def Let_def split_beta same_derived_def)

lemma repository_changed_ok:
  assumes "db_ok db" "\<And>r. rp_id (f r) = rp_id r" "\<And>r. rp_name (f r) = rp_name r"
  shows "db_ok (modify_repository i f db)" "host_ids (modify_repository i f db) = host_ids db"
    "job_ids (modify_repository i f db) = job_ids db"
proof -
  have "distinct (map rp_name (table_modify rp_id i f (db_repositories db)))"
    using assms(1) by (simp add: map_table_modify assms(3) db_ok_def unique_rows_def)
  note m = modify_repository_ok [OF assms(1,2) this]
  show "db_ok (modify_repository i f db)" "host_ids (modify_repository i f db) = host_ids db"
    "job_ids (modify_repository i f db) = job_ids db"
    using m by simp_all
qed

lemma repository_view_insert:
  "k \<noteq> rp_id r \<Longrightarrow> repository_view (db\<lparr>db_repositories := table_insert (db_repositories db) r\<rparr>) k = repository_view db k"
proof -
  assume "k \<noteq> rp_id r"
  then have "table_get rp_id (table_insert rows r) k = table_get rp_id rows k" for rows
    by (induction rows) (auto simp: table_get_def table_insert_def)
  then show ?thesis by (simp add: repository_view_def)
qed

lemma repository_view_modify:
  "(\<And>r. rp_id (f r) = rp_id r) \<Longrightarrow> k \<noteq> i \<or> (\<forall>r. rp_enabled (f r) = rp_enabled r \<and> rp_storage_path (f r) = rp_storage_path r) \<Longrightarrow>
   repository_view (modify_repository i f db) k = repository_view db k"
  by (auto simp: repository_view_def modify_repository_def table_get_modify option.map_comp o_def)

text \<open>A new row and a change of its details.\<close>

lemma added_settled:
  assumes "settled env s" "insert_repository r (iv_db s) = Inr (i, db)" "rp_id r = next_key rp_id (db_repositories (iv_db s))"
    and "same_derived s s'" "iv_db s' = modify_repository i f db" "\<And>r. rp_id (f r) = rp_id r" "\<And>r. rp_name (f r) = rp_name r"
  shows "settled env s'"
proof -
  have ok: "inventory_ok s" "db_ok (iv_db s)" using settled_ok [OF assms(1)] by simp_all
  have db: "db_ok db" "host_ids db = host_ids (iv_db s)" "job_ids db = job_ids (iv_db s)"
    "db = (iv_db s)\<lparr>db_repositories := table_insert (db_repositories (iv_db s)) r\<rparr>" "i = rp_id r"
    using insert_repository_ok [OF ok(2) assms(2,3)] by blast+
  have new: "i \<notin> used_repositories (iv_db s)"
    using settled_ok [OF assms(1)] next_key_not_in [of rp_id "db_repositories (iv_db s)"] assms(3) db(5)
    by (auto simp: used_repositories_def references_ok_def repository_ids_def)
  show ?thesis
  proof (rule aside_settled [OF assms(1)])
    show "inventory_ok s'"
      using same_derived_ok [OF assms(4) ok(1)] repository_changed_ok [OF db(1), of f i] assms(5-7) db(2,3) by simp
    fix k assume "k \<in> used_repositories (iv_db s)"
    then have "k \<noteq> i" using new by blast
    then show "repository_view (iv_db s') k = repository_view (iv_db s) k"
      using assms(5,6) db(5) repository_view_insert [of k r "iv_db s"] by (simp add: repository_view_modify db(4))
  qed (use assms(4,5) in \<open>simp_all add: db(4) same_derived_def\<close>)
qed

lemma create_repository_settled:
  assumes "settled env s" shows "settled env (fst (create_repository env kt d s))"
proof (cases "if ri_managed d then Inr no_credentials else prepare_external_repository_credentials kt (\<lambda>_. None) d None")
  case (Inl m)
  then show ?thesis using assms by (simp add: create_repository_def)
next
  case (Inr c)
  let ?r = "repository_of env (next_key rp_id (db_repositories (iv_db s))) d c"
  have f: "fst (create_repository env kt d s) = (case insert_repository ?r (iv_db s) of Inl e \<Rightarrow> s
      | Inr (i, db) \<Rightarrow> store_new_secrets i d c (s\<lparr>iv_db := db\<rparr>))"
    using Inr by (simp add: create_repository_def fst_transact_then fst_then_give change_def split: sum.split)
  show ?thesis
  proof (cases "insert_repository ?r (iv_db s)")
    case (Inr x)
    obtain i db where x: "x = (i, db)" by (cases x)
    obtain public where "iv_db (store_new_secrets i d c (s\<lparr>iv_db := db\<rparr>)) = modify_repository i (\<lambda>r. r\<lparr>rp_extra_env := public\<rparr>) db"
      using store_new_secrets_db(1) [of i d c "s\<lparr>iv_db := db\<rparr>"] by auto
    moreover have "same_derived s (store_new_secrets i d c (s\<lparr>iv_db := db\<rparr>))"
      using store_new_secrets_db(2) [of "s\<lparr>iv_db := db\<rparr>" i d c] by (simp add: same_derived_def)
    moreover have "rp_id ?r = next_key rp_id (db_repositories (iv_db s))"
      by (simp add: repository_of_def blank_repository_def Let_def)
    ultimately have "settled env (store_new_secrets i d c (s\<lparr>iv_db := db\<rparr>))"
      using Inr x by (intro added_settled [OF assms, where f = "\<lambda>r. r\<lparr>rp_extra_env := public\<rparr>"]) simp_all
    then show ?thesis using f Inr x by simp
  qed (use f assms in simp)
qed

section \<open>Import\<close>

lemma import_begin_settled:
  assumes "settled env s" shows "settled env (fst (import_begin fs env d s))"
proof (cases "safe_repository_browser_path fs env (rm_directory_name d)")
  case (Inr p)
  let ?r = "imported_repository env (next_key rp_id (db_repositories (iv_db s))) d p"
  show ?thesis
  proof (cases "p = en_root env \<or> \<not> fs_file fs (p @ [''config'']) \<or>
      list_ex (\<lambda>r. rp_storage_path r = Some (path_string p)) (db_repositories (iv_db s)) \<or> (\<exists>e. insert_repository ?r (iv_db s) = Inl e)")
    case True
    then have "fst (import_begin fs env d s) = s"
      using Inr by (auto simp: import_begin_def fst_transact_then)
    then show ?thesis using assms by simp
  next
    case False
    then obtain x where "insert_repository ?r (iv_db s) = Inr x" by (metis sumE)
    then obtain i db where x: "insert_repository ?r (iv_db s) = Inr (i, db)" by (cases x) auto
    let ?s = "set_repository_secret i ''keyfile'' (nonempty_secret (rm_keyfile d))
        (set_repository_secret i ''passphrase'' (nonempty_secret (rm_passphrase d)) (s\<lparr>iv_db := db\<rparr>))"
    have "fst (import_begin fs env d s) = ?s"
      using False Inr x by (simp add: import_begin_def fst_transact_then give_def)
    moreover have "settled env ?s"
    proof (rule added_settled [OF assms x, where f = id])
      show "rp_id ?r = next_key rp_id (db_repositories (iv_db s))"
        by (simp add: imported_repository_def blank_repository_def)
      show "same_derived s ?s" by (simp add: same_derived_def)
      show "iv_db ?s = modify_repository i id db" by (simp add: modify_repository_def table_modify_def if_distrib id_def cong: map_cong)
    qed simp_all
    ultimately show ?thesis by simp
  qed
qed (use assms in \<open>simp add: import_begin_def\<close>)

text \<open>An imported repository that cannot be opened is dropped; nothing used it.\<close>

lemma import_failed_settled:
  assumes "settled env s" shows "settled env (fst (import_failed i e s))"
proof -
  have vault: "settled env t \<Longrightarrow> settled env (delete_repository_secrets i t)" for t
    by (rule vault_settled) (simp_all add: same_derived_def delete_repository_secrets_def)
  have ok: "inventory_ok s" "db_ok (iv_db s)" and sy: "access_synced (iv_db s)"
    using settled_ok [OF assms] assms by (simp_all add: settled_def)
  have dropped: "settled env (s\<lparr>iv_db := drop_repository_row i (iv_db s)\<rparr>)" if "\<not> repository_referenced (iv_db s) i"
  proof -
    have jobs: "jb_repository_id j \<noteq> i" if "j \<in> set (db_jobs (iv_db s))" for j
      using that \<open>\<not> repository_referenced (iv_db s) i\<close> by (auto simp: repository_referenced_def list_ex_iff)
    have rows: "ac_repository_id a \<noteq> i" if inside: "a \<in> set (db_access (iv_db s))" for a
    proof -
      have "ac_pair a \<in> set (desired_pairs (iv_db s))" using sy inside by (auto simp: access_synced_def)
      then obtain j where "j \<in> set (db_jobs (iv_db s))" "ac_repository_id a = jb_repository_id j"
        by (auto simp: desired_pairs_def ac_pair_def)
      then show ?thesis using jobs [of j] by simp
    qed
    show ?thesis
    proof (rule aside_settled [OF assms])
      show "inventory_ok (s\<lparr>iv_db := drop_repository_row i (iv_db s)\<rparr>)"
        using drop_repository_ok [OF ok(2) that] inventory_ok_db [OF ok(1)] by simp
      show "db_access (iv_db (s\<lparr>iv_db := drop_repository_row i (iv_db s)\<rparr>)) = db_access (iv_db s)"
        using rows by (simp add: drop_repository_row_def filter_id_conv)
      fix k assume "k \<in> used_repositories (iv_db s)"
      then have "k \<noteq> i" using jobs rows by (auto simp: used_repositories_def)
      then show "repository_view (iv_db (s\<lparr>iv_db := drop_repository_row i (iv_db s)\<rparr>)) k = repository_view (iv_db s) k"
        by (simp add: repository_view_def drop_repository_row_def table_get_remove)
    qed (simp_all add: drop_repository_row_def)
  qed
  then show ?thesis
    using assms vault dropped by (auto simp: import_failed_def fst_transact_then refuse_def)
qed

lemma import_finish_settled:
  assumes "settled env s" shows "settled env (fst (import_finish i outcome s))"
proof -
  have "settled env (s\<lparr>iv_db := modify_repository i (\<lambda>r. r\<lparr>rp_initialized := True\<rparr>) (iv_db s)\<rparr>)" (is "settled env ?s")
  proof (rule aside_settled [OF assms])
    show "inventory_ok ?s"
      using settled_ok [OF assms] repository_changed_ok [of "iv_db s" "\<lambda>r. r\<lparr>rp_initialized := True\<rparr>" i]
      by (intro same_derived_ok [of s ?s]) (simp_all add: same_derived_def)
  qed (simp_all add: repository_view_modify)
  then show ?thesis
    using import_failed_settled [OF assms] by (simp add: import_finish_def split: opened.split)
qed

section \<open>Changes of repositories\<close>

lemma store_changed_secrets_parts [simp]:
  "iv_db (store_changed_secrets i d c s) = iv_db s" "same_derived s (store_changed_secrets i d c s)"
  by (simp_all add: store_changed_secrets_def Let_def same_derived_def)

lemma invalidate_settled: "settled env s \<Longrightarrow> settled env (invalidate_archive_cache i s)"
  by (rule vault_settled) (simp_all add: invalidate_archive_cache_def same_derived_def)

lemma update_repository_row_cases:
  assumes "update_repository_row kt i enabled d s = (s', Inr c)" "inventory_ok s"
  shows "inventory_ok s'"
proof -
  obtain r where r: "get_repository (iv_db s) i = Some r"
    using assms(1) by (auto simp: update_repository_row_def split: option.splits)
  obtain db1 public where
    enabled: "(case enabled of None \<Rightarrow> Inr (iv_db s)
      | Some e \<Rightarrow> set_repository_enabled_state (name_taken rp_id rp_name i (ri_name d) (db_repositories (iv_db s))) r e (iv_db s)) = Inr db1"
    and name: "\<not> name_taken rp_id rp_name i (ri_name d) (db_repositories (iv_db s))"
    and s': "s' = (fst (store_repository_environment i (ri_extra_env d) s))\<lparr>iv_db := modify_repository i (with_repository_data d c public) db1\<rparr>"
    using assms(1) r by (auto simp: update_repository_row_def Let_def split_beta split: if_splits sum.splits)
  have ok: "db_ok (iv_db s)" using assms(2) by (simp add: inventory_ok_def)
  have db1: "db_ok db1 \<and> host_ids db1 = host_ids (iv_db s) \<and> job_ids db1 = job_ids (iv_db s) \<and>
      map rp_name (db_repositories db1) = map rp_name (db_repositories (iv_db s)) \<and>
      map rp_id (db_repositories db1) = map rp_id (db_repositories (iv_db s))"
    using enabled set_repository_enabled_ok [OF ok] ok by (cases enabled) auto
  have "name_taken rp_id rp_name i n xs = name_taken rp_id rp_name i n ys"
    if "map rp_name xs = map rp_name ys" "map rp_id xs = map rp_id ys" for n and xs ys :: "repository list"
    using that by (induction xs ys rule: list_induct2') (auto simp: name_taken_def)
  then have "\<not> name_taken rp_id rp_name i (ri_name d) (db_repositories db1)" using name db1 by metis
  then have "distinct (map rp_name (table_modify rp_id i (with_repository_data d c public) (db_repositories db1)))"
    using db1 by (intro distinct_names_modify) (auto simp: db_ok_def unique_rows_def)
  then have "db_ok (modify_repository i (with_repository_data d c public) db1)"
    "host_ids (modify_repository i (with_repository_data d c public) db1) = host_ids db1"
    "job_ids (modify_repository i (with_repository_data d c public) db1) = job_ids db1"
    using modify_repository_ok [of db1 "with_repository_data d c public" i] db1 by simp_all
  then show ?thesis using assms(2) db1 by (simp add: s' inventory_ok_def)
qed

lemma update_repository_row_refused:
  "update_repository_row kt i enabled d s = (s', Inl e) \<Longrightarrow> iv_db s' = iv_db s \<and> same_derived s s'"
  by (auto simp: update_repository_row_def Let_def split_beta same_derived_def split: if_splits sum.splits option.splits)

lemma update_repository_settled:
  assumes "settled env s" shows "settled env (fst (update_repository env kt i enabled d s))"
proof -
  obtain s' r where row: "update_repository_row kt i enabled d s = (s', r)" by fastforce
  show ?thesis
  proof (cases r)
    case (Inl e)
    then have "settled env s'" using update_repository_row_refused row vault_settled [OF assms] by blast
    then show ?thesis using Inl row by (simp add: update_repository_def and_then_def)
  next
    case (Inr c)
    let ?s = "store_changed_secrets i d c s'"
    have "inventory_ok s'" using update_repository_row_cases row Inr settled_ok [OF assms] by blast
    then have "inventory_ok ?s" by (intro same_derived_ok [of s' ?s]) (simp_all add: inventory_ok_def)
    then have "settled env (fst (sync_both env ?s)) \<and> snd (sync_both env ?s) = Inr ()" by (rule sync_both_settles)
    moreover have "fst (update_repository env kt i enabled d s) =
        fst (and_then (sync_both env) (\<lambda>_. change (invalidate_archive_cache i)) ?s)"
      by (simp add: update_repository_def and_then_def [of "update_repository_row kt i enabled d"] row Inr)
    ultimately show ?thesis by (simp add: and_then_fst change_def invalidate_settled)
  qed
qed

lemma set_repository_enabled_settled:
  assumes "settled env s" shows "settled env (fst (set_repository_enabled env i e s))"
  unfolding set_repository_enabled_def
proof (rule transact_sync [OF assms])
  fix a :: unit and db'
  assume "(case get_repository (iv_db s) i of None \<Rightarrow> Inl No_repository
      | Some r \<Rightarrow> try_bind (set_repository_enabled_state False r e (iv_db s)) (\<lambda>db1. Inr ((), db1))) = Inr (a, db')"
  then obtain r where "set_repository_enabled_state False r e (iv_db s) = Inr db'"
    by (auto simp: try_bind_Inr_iff split: option.splits)
  then show "inventory_ok (s\<lparr>iv_db := db'\<rparr>)"
    using set_repository_enabled_ok settled_ok [OF assms] by (metis inventory_ok_db order_refl)
qed

lemma delete_repository_settled:
  assumes "settled env s" shows "settled env (fst (delete_repository env i s))"
proof (cases "delete_repository_row i (iv_db s)")
  case (Inr x)
  obtain db where x: "x = ((), db)" by (cases x) auto
  have ok: "inventory_ok s" using settled_ok [OF assms] by simp
  have db: "db_ok db" "host_ids db = host_ids (iv_db s)" "job_ids db = job_ids (iv_db s)"
    using delete_repository_row_ok [of "iv_db s" i "()" db] ok Inr x by (simp_all add: inventory_ok_def)
  let ?s = "invalidate_archive_cache i (delete_repository_secrets i (s\<lparr>iv_db := db\<rparr>))"
  have "inventory_ok ?s"
    using ok db by (simp add: inventory_ok_def invalidate_archive_cache_def delete_repository_secrets_def)
  then show ?thesis using sync_both_settles [of ?s env] Inr x by (simp add: delete_repository_def fst_transact_then)
qed (simp add: delete_repository_def fst_transact_then assms)

section \<open>Access of devices\<close>

lemma bootstrap_settled:
  assumes "settled env s"
  shows "settled env (fst (bootstrap_begin env h ids s))" "settled env (fst (bootstrap_finish env h sel code out s))"
proof -
  have "fst (bootstrap_begin env h ids s) = fst (sync_repository_access_assignments env s)"
    by (auto simp: bootstrap_begin_def and_then_fst split: sum.split)
  then show "settled env (fst (bootstrap_begin env h ids s))" using settled_settles [OF assms] by simp
  have ok: "inventory_ok s" "db_ok (iv_db s)" using settled_ok [OF assms] by simp_all
  have stored: "settled env (fst (sync_repository_access_assignments env (s\<lparr>iv_db := (iv_db s)\<lparr>db_access := rows\<rparr>\<rparr>)))"
    if "store_keys h ks (db_access (iv_db s)) = Some rows" for ks rows
  proof -
    let ?s = "s\<lparr>iv_db := (iv_db s)\<lparr>db_access := rows\<rparr>\<rparr>"
    have "inventory_ok ?s"
      using store_keys_db_ok [OF ok(2) that] inventory_ok_db [OF ok(1)] by (simp add: host_ids_def job_ids_def)
    moreover have "timetable env (iv_db ?s) = timetable env (iv_db s)"
      by (rule timetable_view) (simp_all add: views_agree_def host_view_def repository_view_def)
    then have "timers_synced env ?s" using assms by (simp add: settled_def timers_synced_def)
    ultimately show ?thesis using sync_access_settles by blast
  qed
  show "settled env (fst (bootstrap_finish env h sel code out s))"
    using assms stored by (simp add: bootstrap_finish_def Let_def fst_transact_then split: option.split)
qed

section \<open>The transition system\<close>

text \<open>Runs come, go and change while their references stay valid.\<close>

definition run_references_ok :: "manager_db \<Rightarrow> run list \<Rightarrow> bool" where
  "run_references_ok db rows \<longleftrightarrow>
     (\<forall>r \<in> set rows. set_option (rn_job_id r) \<subseteq> job_ids db \<and> set_option (rn_repository_id r) \<subseteq> repository_ids db)"

lemma runs_settled:
  assumes "settled env s" "run_references_ok (iv_db s) rows"
  shows "settled env (s\<lparr>iv_db := (iv_db s)\<lparr>db_runs := rows\<rparr>\<rparr>)" (is "settled env ?s")
proof (rule aside_settled [OF assms(1)])
  have ok: "inventory_ok s" "db_ok (iv_db s)" using settled_ok [OF assms(1)] by simp_all
  let ?db = "(iv_db s)\<lparr>db_runs := rows\<rparr>"
  have ids: "host_ids ?db = host_ids (iv_db s)" "repository_ids ?db = repository_ids (iv_db s)" "job_ids ?db = job_ids (iv_db s)"
    by (simp_all add: host_ids_def repository_ids_def job_ids_def)
  have "unique_rows ?db" using ok(2) ids by (simp add: db_ok_def unique_rows_def)
  moreover have "references_ok ?db" using ok(2) ids assms(2) by (simp add: db_ok_def references_ok_def run_references_ok_def)
  moreover have "exclusive_targets ?db"
    by (rule exclusive_same_schedules [of "iv_db s"]) (use ok(2) in \<open>auto simp: db_ok_def\<close>)
  moreover have "keys_valid ?db" using ok(2) by (simp add: db_ok_def keys_valid_def)
  ultimately have "db_ok ?db" by (simp add: db_ok_def)
  then show "inventory_ok ?s" using inventory_ok_db [OF ok(1)] by (simp add: host_ids_def job_ids_def)
qed (simp_all add: repository_view_def)

text \<open>What a device or Borg answers is arbitrary. Data that the models refuse does not get here.\<close>

inductive inventory_step :: "inventory_env \<Rightarrow> inventory \<Rightarrow> inventory \<Rightarrow> bool" for env :: inventory_env where
  host_created: "validate_host_in raw = Inr d \<Longrightarrow> inventory_step env s (fst (create_host d s))"
| host_updated: "validate_host_in raw = Inr d \<Longrightarrow> inventory_step env s (fst (update_host env i d s))"
| host_switched: "inventory_step env s (fst (set_host_enabled env i e s))"
| host_deleted: "inventory_step env s (fst (delete_host env i s))"
| action_created: "validate_host_ssh_action_in raw_action = Inr a \<Longrightarrow> inventory_step env s (fst (create_host_ssh_action a s))"
| action_updated: "validate_host_ssh_action_in raw_action = Inr a \<Longrightarrow> inventory_step env s (fst (update_host_ssh_action i a s))"
| action_deleted: "inventory_step env s (fst (delete_host_ssh_action i s))"
| job_created: "validate_job_in raw_job = Inr j \<Longrightarrow> inventory_step env s (fst (create_job env j s))"
| job_updated: "validate_job_in raw_job = Inr j \<Longrightarrow> inventory_step env s (fst (update_job env i j s))"
| job_switched: "inventory_step env s (fst (set_job_enabled env i e s))"
| job_deleted: "inventory_step env s (fst (delete_job env i s))"
| schedule_created: "validate_schedule_in t (en_cron_ok env) raw_schedule = Inr c \<Longrightarrow>
    inventory_step env s (fst (create_schedule env c s))"
| schedule_updated: "validate_schedule_in t (en_cron_ok env) raw_schedule = Inr c \<Longrightarrow>
    inventory_step env s (fst (update_schedule env i c s))"
| schedule_deleted: "inventory_step env s (fst (delete_schedule env i s))"
| repository_created: "inventory_step env s (fst (create_repository env kt r s))"
| import_begun: "inventory_step env s (fst (import_begin fs env m s))"
| import_finished: "inventory_step env s (fst (import_finish i outcome s))"
| repository_updated: "inventory_step env s (fst (update_repository env kt i enabled r s))"
| repository_switched: "inventory_step env s (fst (set_repository_enabled env i e s))"
| repository_deleted: "inventory_step env s (fst (delete_repository env i s))"
| access_begun: "inventory_step env s (fst (bootstrap_begin env i ids s))"
| access_finished: "inventory_step env s (fst (bootstrap_finish env i ids code out s))"
| runs_changed: "run_references_ok (iv_db s) rows \<Longrightarrow>
    inventory_step env s (s\<lparr>iv_db := (iv_db s)\<lparr>db_runs := rows\<rparr>\<rparr>)"

lemma step_settled:
  assumes "inventory_step env s t" "settled env s" shows "settled env t"
  using assms
proof (cases rule: inventory_step.cases)
  case (schedule_created t raw_schedule c)
  then show ?thesis using assms create_schedule_settled validated_schedule by blast
next
  case (schedule_updated t raw_schedule c i)
  then show ?thesis using assms update_schedule_settled validated_schedule by blast
qed (use assms in \<open>auto intro: create_host_settled update_host_settled set_host_enabled_settled delete_host_settled
    ssh_action_settled create_job_settled update_job_settled set_job_enabled_settled delete_job_settled
    delete_schedule_settled create_repository_settled import_begin_settled import_finish_settled
    update_repository_settled set_repository_enabled_settled delete_repository_settled bootstrap_settled runs_settled\<close>)

end
