(* ===== verification/InventoryProperties.thy ===== *)
theory InventoryProperties
  imports InventoryRequests
begin

text \<open>
  What holds in every state of the inventory that requests can reach: the invariant and the three
  agreements, whom an authorized key admits, and that the id of a job never comes back.
\<close>

section \<open>Reachable states\<close>

definition fresh_inventory :: "inventory \<Rightarrow> bool" where
  "fresh_inventory s \<longleftrightarrow> db_hosts (iv_db s) = [] \<and> db_repositories (iv_db s) = [] \<and> db_jobs (iv_db s) = [] \<and>
     db_schedules (iv_db s) = [] \<and> db_access (iv_db s) = [] \<and> db_runs (iv_db s) = [] \<and> db_mounts (iv_db s) = [] \<and>
     iv_keys s = [] \<and> iv_timers s = [] \<and> iv_actions s = []"

lemma fresh_settled:
  assumes "fresh_inventory s" shows "settled env s"
proof -
  have "db_ok (iv_db s)"
    using assms
    by (simp add: fresh_inventory_def db_ok_def unique_rows_def references_ok_def exclusive_targets_def keys_valid_def
        repository_ids_def job_ids_def)
  then show ?thesis
    using assms
    by (simp add: fresh_inventory_def settled_def inventory_ok_def job_ids_def access_synced_def desired_pairs_def
        keys_synced_def by_pair_def timers_synced_def timetable_def by_key_def)
qed

interpretation inventory_system: guarded_system fresh_inventory "inventory_step env" "settled env" for env
  by standard (auto intro: fresh_settled step_settled)

section \<open>Keys and timers\<close>

lemma access_lines_in:
  "access_lines env db rows = Some ls \<Longrightarrow> l \<in> set ls \<Longrightarrow> \<exists>a \<in> set rows. \<exists>x. access_line env db a = Some x \<and> l \<in> set x"
  by (induction rows arbitrary: ls) (auto split: option.splits)

lemma access_line_key:
  assumes "access_line env db a = Some x" "l \<in> set x"
  obtains h r k where "get_host db (ac_host_id a) = Some h" "ho_enabled h" "get_repository db (ac_repository_id a) = Some r"
    "rp_enabled r" "rp_storage_path r \<noteq> None" "ac_public_key a \<noteq> None"
    "en_resolve env (or_empty (rp_storage_path r)) \<noteq> en_root env"
    "path_within (en_root env) (en_resolve env (or_empty (rp_storage_path r)))"
    "normalize_public_key (or_empty (ac_public_key a)) (access_comment (ho_id h) (rp_id r)) = Some k"
    "l = key_line (en_resolve env (or_empty (rp_storage_path r))) k"
proof -
  obtain h where h: "get_host db (ac_host_id a) = Some h"
    using assms(1) by (cases "get_host db (ac_host_id a)") (simp_all add: access_line_def del: get_host_None)
  obtain r where r: "get_repository db (ac_repository_id a) = Some r"
    using assms(1) h by (cases "get_repository db (ac_repository_id a)") (simp_all add: access_line_def del: get_repository_None)
  show thesis
    using assms h r by (auto simp: access_line_def Let_def truthy_def intro!: that split: if_splits option.splits)
qed

lemma desired_pair_job: "p \<in> set (desired_pairs db) \<Longrightarrow> \<exists>j \<in> set (db_jobs db). p = (jb_host_id j, jb_repository_id j)"
  by (auto simp: desired_pairs_def)

lemma schedule_timers_in:
  "t \<in> set (schedule_timers c k es) \<Longrightarrow> tm_schedule t = sc_id c \<and> tm_limit t = sc_parallel_limit c \<and> tm_expression t \<in> set es"
  by (induction c k es rule: schedule_timers.induct) auto

section \<open>Reserved ids\<close>

text \<open>An operation that never forgets a reserved id.\<close>

definition keeps_reserved :: "'a operation \<Rightarrow> bool" where
  "keeps_reserved m \<longleftrightarrow> (\<forall>s. set (iv_reserved s) \<subseteq> set (iv_reserved (fst (m s))))"

lemma keeps_and_then: "keeps_reserved m \<Longrightarrow> (\<And>a. keeps_reserved (k a)) \<Longrightarrow> keeps_reserved (and_then m k)"
  unfolding keeps_reserved_def and_then_fst by (fastforce split: sum.split)

lemma keeps_basic [simp]:
  "keeps_reserved (give a)" "keeps_reserved (refuse e)" "keeps_reserved (transact f)"
  by (auto simp: keeps_reserved_def give_def refuse_def transact_def split: sum.split prod.split)

lemma keeps_change: "(\<And>s. iv_reserved (g s) = iv_reserved s) \<Longrightarrow> keeps_reserved (change g)"
  by (simp add: keeps_reserved_def change_def)

lemma keeps_unchanged: "(\<And>s. iv_reserved (fst (m s)) = iv_reserved s) \<Longrightarrow> keeps_reserved m"
  by (simp add: keeps_reserved_def)

lemma keeps_syncs [simp]:
  "keeps_reserved (sync_repository_access_assignments env)" "keeps_reserved (sync_schedules env)"
  "keeps_reserved (sync_both env)" "keeps_reserved (revoke_host_repository_access env i)"
proof -
  have "keeps_reserved (rebuild_repository_authorized_keys env)"
    by (rule keeps_unchanged) (simp add: rebuild_repository_authorized_keys_def split: option.split)
  then have a: "keeps_reserved (sync_repository_access_assignments env)"
    unfolding sync_repository_access_assignments_def by (intro keeps_and_then) simp_all
  have t: "keeps_reserved (sync_schedules env)" unfolding sync_schedules_def by (rule keeps_change) simp
  show "keeps_reserved (sync_repository_access_assignments env)" "keeps_reserved (sync_schedules env)"
    "keeps_reserved (sync_both env)" "keeps_reserved (revoke_host_repository_access env i)"
    unfolding sync_both_def revoke_host_repository_access_def using a t by (auto intro!: keeps_and_then)
qed

lemma keeps_jobs: "keeps_reserved (create_job env j)" "keeps_reserved (update_job env i j)"
  "keeps_reserved (set_job_enabled env i e)" "keeps_reserved (delete_job env i)"
proof -
  have "keeps_reserved (create_job_row j)"
    unfolding keeps_reserved_def by (auto simp: create_job_row_def Let_def split: sum.split)
  then show "keeps_reserved (create_job env j)" unfolding create_job_def by (intro keeps_and_then) simp_all
qed (auto simp: update_job_def set_job_enabled_def delete_job_def intro!: keeps_and_then)

lemma keeps_schedules: "keeps_reserved (create_schedule env c)" "keeps_reserved (update_schedule env i c)"
  "keeps_reserved (delete_schedule env i)"
  by (auto simp: create_schedule_def update_schedule_def delete_schedule_def intro!: keeps_and_then)

lemma keeps_hosts: "keeps_reserved (create_host h)" "keeps_reserved (update_host env i h)"
  "keeps_reserved (set_host_enabled env i e)" "keeps_reserved (delete_host env i)"
  "keeps_reserved (create_host_ssh_action a)" "keeps_reserved (update_host_ssh_action i a)"
  "keeps_reserved (delete_host_ssh_action i)"
proof -
  have t: "keeps_reserved (trust_host_key k)" for k by (simp add: trust_host_key_def)
  show "keeps_reserved (create_host h)" "keeps_reserved (update_host env i h)"
    "keeps_reserved (set_host_enabled env i e)" "keeps_reserved (delete_host env i)"
    unfolding create_host_def update_host_def set_host_enabled_def delete_host_def
    by (auto simp: t delete_host_ssh_actions_for_host_def split: prod.split intro!: keeps_and_then keeps_change)
qed (auto intro!: keeps_unchanged simp: create_host_ssh_action_def update_host_ssh_action_def delete_host_ssh_action_def Let_def)

lemma fst_case_result: "fst (case r of Inl e \<Rightarrow> (s, Inl e) | Inr a \<Rightarrow> (s, Inr a)) = s"
  by (simp split: sum.split)

lemma keeps_repositories: "keeps_reserved (create_repository env kt r)" "keeps_reserved (import_begin fs env m)"
  "keeps_reserved (import_finish i outcome)" "keeps_reserved (update_repository env kt i enabled r)"
  "keeps_reserved (set_repository_enabled env i e)" "keeps_reserved (delete_repository env i)"
  "keeps_reserved (bootstrap_begin env i ids)" "keeps_reserved (bootstrap_finish env i ids code out)"
proof -
  have stored: "iv_reserved (store_new_secrets i d c s) = iv_reserved s" for i d c s
    using store_new_secrets_db(2) [of s i d c] by (simp add: same_derived_def)
  have changed: "iv_reserved (store_changed_secrets i d c s) = iv_reserved s" for i d c s
    using store_changed_secrets_parts(2) [of s i d c] by (simp add: same_derived_def)
  have lift: "keeps_reserved (\<lambda>s. if P s then (s, Inl e) else m s)" if "keeps_reserved m" for P e and m :: "'a operation"
    using that by (simp add: keeps_reserved_def)
  have "keeps_reserved (and_then (transact f) (\<lambda>i. and_then (change (store_new_secrets i r c)) (\<lambda>_. give i)))" for f c
    by (intro keeps_and_then keeps_change) (simp_all add: stored)
  then show "keeps_reserved (create_repository env kt r)"
    by (simp add: keeps_reserved_def create_repository_def split: sum.split)
  have "keeps_reserved (and_then (transact f) (\<lambda>i. and_then (change (\<lambda>s. set_repository_secret i ''keyfile'' (nonempty_secret (rm_keyfile m))
      (set_repository_secret i ''passphrase'' (nonempty_secret (rm_passphrase m)) s))) (\<lambda>_. give i)))" for f
    by (intro keeps_and_then keeps_change) simp_all
  then show "keeps_reserved (import_begin fs env m)"
    by (simp add: keeps_reserved_def import_begin_def split: sum.split)
  have "keeps_reserved (import_failed i e)" for e
    unfolding import_failed_def by (intro keeps_and_then keeps_change) (simp_all add: delete_repository_secrets_def)
  then show "keeps_reserved (import_finish i outcome)"
    by (simp add: keeps_reserved_def import_finish_def split: opened.split)
  have "iv_reserved (fst (update_repository_row kt i enabled r s)) = iv_reserved s" for s
    by (auto simp: update_repository_row_def Let_def split_beta split: option.split sum.split)
  then have "keeps_reserved (update_repository_row kt i enabled r)" by (rule keeps_unchanged)
  then show "keeps_reserved (update_repository env kt i enabled r)"
    unfolding update_repository_def
    by (intro keeps_and_then keeps_change) (simp_all add: changed invalidate_archive_cache_def)
  show "keeps_reserved (set_repository_enabled env i e)"
    unfolding set_repository_enabled_def by (intro keeps_and_then) simp_all
  show "keeps_reserved (delete_repository env i)"
    unfolding delete_repository_def
    by (intro keeps_and_then keeps_change) (simp_all add: delete_repository_secrets_def invalidate_archive_cache_def)
  show "keeps_reserved (bootstrap_begin env i ids)"
    unfolding bootstrap_begin_def
    by (intro keeps_and_then) (auto intro!: keeps_unchanged split: sum.split)
  have "keeps_reserved (and_then (transact f) (\<lambda>_. sync_repository_access_assignments env))" for f :: "manager_db \<Rightarrow> (inventory_error, unit \<times> manager_db) result"
    by (intro keeps_and_then) simp_all
  then show "keeps_reserved (bootstrap_finish env i ids code out)"
    by (simp add: keeps_reserved_def bootstrap_finish_def Let_def)
qed

lemma step_reserved:
  assumes "inventory_step env s t" shows "set (iv_reserved s) \<subseteq> set (iv_reserved t)"
proof -
  have keeps: "set (iv_reserved s) \<subseteq> set (iv_reserved (fst (m s)))" if "keeps_reserved m" for m :: "'a operation"
    using that by (simp add: keeps_reserved_def)
  show ?thesis
    using assms
    by (cases rule: inventory_step.cases)
      (simp_all add: keeps keeps_hosts keeps_jobs keeps_schedules keeps_repositories)
qed

lemma steps_reserved:
  assumes "(inventory_step env)\<^sup>*\<^sup>* s t" shows "set (iv_reserved s) \<subseteq> set (iv_reserved t)"
  using assms by (induction rule: rtranclp_induct) (auto dest: step_reserved)

section \<open>Properties\<close>

text \<open>
  C11: From an empty database on, after every request (accepted or refused) ids and names are unique,
  every reference names an existing row, no job matches two enabled schedules, the stored keys are
  well formed, and the access rows agree with the jobs, the authorized keys with the access rows
  and the timers with the schedules.
\<close>

theorem requests_keep_the_inventory_settled:
  assumes "fresh_inventory s" "(inventory_step env)\<^sup>*\<^sup>* s t"
  shows "inventory_ok t \<and> access_synced (iv_db t) \<and> keys_synced env t \<and> timers_synced env t"
  using inventory_system.inv_reachable [OF assms] by (simp add: settled_def)

text \<open>
  C12: Every line of the authorized keys is that of a stored key and admits one host to one
  repository: a job of an existing host uses the repository, both are enabled, the repository is a
  managed one and the directory of the forced command lies strictly below the repository root.
\<close>

theorem authorized_keys_follow_the_jobs:
  assumes "fresh_inventory s" "(inventory_step env)\<^sup>*\<^sup>* s t" "l \<in> set (iv_keys t)"
  shows "\<exists>a j h r k. a \<in> set (db_access (iv_db t)) \<and> j \<in> set (db_jobs (iv_db t)) \<and>
    jb_host_id j = ac_host_id a \<and> jb_repository_id j = ac_repository_id a \<and>
    get_host (iv_db t) (jb_host_id j) = Some h \<and> get_repository (iv_db t) (jb_repository_id j) = Some r \<and>
    ho_enabled h \<and> rp_enabled r \<and> rp_storage_path r \<noteq> None \<and>
    en_resolve env (or_empty (rp_storage_path r)) \<noteq> en_root env \<and>
    path_within (en_root env) (en_resolve env (or_empty (rp_storage_path r))) \<and>
    normalize_public_key (or_empty (ac_public_key a)) (access_comment (ho_id h) (rp_id r)) = Some k \<and>
    l = key_line (en_resolve env (or_empty (rp_storage_path r))) k"
proof -
  have t: "access_lines env (iv_db t) (by_pair (db_access (iv_db t))) = Some (iv_keys t)" and sy: "access_synced (iv_db t)"
    using inventory_system.inv_reachable [OF assms(1,2)] by (simp_all add: settled_def keys_synced_def)
  obtain a x where a: "a \<in> set (db_access (iv_db t))" and x: "access_line env (iv_db t) a = Some x" "l \<in> set x"
    using access_lines_in [OF t assms(3)] by auto
  then have "ac_pair a \<in> set (desired_pairs (iv_db t))" using sy by (auto simp: access_synced_def)
  then obtain j where j: "j \<in> set (db_jobs (iv_db t))" "jb_host_id j = ac_host_id a" "jb_repository_id j = ac_repository_id a"
    using desired_pair_job [of "ac_pair a" "iv_db t"] by (auto simp: ac_pair_def)
  show ?thesis using access_line_key [OF x] a j by metis
qed

text \<open>
  The id given to a job is never given to another one later, whatever requests come in between,
  the deletion of the job included.
\<close>

theorem job_ids_are_never_reused:
  assumes "create_job_row d s = (s1, Inr i)" "(inventory_step env)\<^sup>*\<^sup>* s1 s2" "create_job_row e s2 = (s3, Inr k)"
  shows "k \<noteq> i"
proof -
  have "i \<in> set (iv_reserved s1)"
    using assms(1) by (auto simp: create_job_row_def Let_def split: if_splits sum.splits)
  then have "i \<in> set (iv_reserved s2)" using steps_reserved [OF assms(2)] by blast
  moreover have "k = allocate_job_id s2"
    using assms(3) by (auto simp: create_job_row_def Let_def split: if_splits sum.splits)
  ultimately show ?thesis using allocated_fresh(2) [of s2] by blast
qed

section \<open>Witnesses\<close>

definition demo_env :: inventory_env where
  "demo_env = \<lparr>en_base = [''r''], en_root = [''r''], en_resolve = (\<lambda>p. split_on (CHR ''/'') (tl p)), en_cron_ok = (\<lambda>_. True),
     en_fold_ascii = id, en_sha256 = id, en_public_host = ''m'', en_ssh_port = 22\<rparr>"

definition demo_start :: inventory where
  "demo_start = \<lparr>iv_db = \<lparr>db_hosts = [], db_repositories = [], db_jobs = [], db_schedules = [], db_access = [], db_runs = [],
     db_mounts = []\<rparr>, iv_reserved = [], iv_vault = [], iv_cached = [], iv_keys = [], iv_timers = [], iv_actions = []\<rparr>"

definition demo_host :: host_in where
  "demo_host = \<lparr>hi_name = ''h'', hi_address = ''h'', hi_port = 22, hi_username = ''u'', hi_enabled = True, hi_host_key = None\<rparr>"

definition demo_repository :: repository_in where
  "demo_repository = \<lparr>ri_name = ''r'', ri_enabled = True, ri_location = None, ri_passphrase_env = None, ri_passphrase = None,
     ri_encryption_mode = ''none'', ri_managed = True, ri_external_private_key = None, ri_external_known_hosts = None,
     ri_generate_key = False, ri_scan_host_key = False, ri_keyfile = None, ri_extra_env = [], ri_guard_enabled = None,
     ri_guard_threshold = None\<rparr>"

definition demo_job :: job_in where
  "demo_job = \<lparr>ji_name = ''j'', ji_host_id = 1, ji_repository_id = 1, ji_source_paths = [''/d''], ji_exclude_patterns = [],
     ji_archive_template = ''{now}'', ji_compression = ''lz4'', ji_prune_options = [],
     ji_create_options = [(''one_file_system'', JBool True), (''exclude_caches'', JBool True), (''exclude_nodump'', JBool True),
       (''numeric_ids'', JBool False), (''list_files'', JBool True), (''files_cache'', JStr ''ctime,size,inode''),
       (''checkpoint_interval'', JInt 1800)],
     ji_manual_prune = False, ji_manual_compact = False, ji_enabled = True\<rparr>"

definition demo_tools :: key_tools where
  "demo_tools = \<lparr>kt_url = \<lparr>ue_ip_ok = (\<lambda>_. True), ue_utf8 = id\<rparr>, kt_generate = (\<lambda>_. ([], [])), kt_public = (\<lambda>_ _. Inl []),
     kt_digest = (\<lambda>_. Inl []), kt_keyscan = (\<lambda>_ _. (1, [], []))\<rparr>"

definition demo_1 :: inventory where "demo_1 = fst (create_host demo_host demo_start)"
definition demo_2 :: inventory where "demo_2 = fst (create_repository demo_env demo_tools demo_repository demo_1)"
definition demo_3 :: inventory where "demo_3 = fst (create_job demo_env demo_job demo_2)"
definition demo_4 :: inventory where
  "demo_4 = fst (bootstrap_finish demo_env 1 [1] 0 ''BBM_REPOSITORY_KEY 1 ssh-ed25519 AAAA x'' demo_3)"

lemma demo_valid: "validate_host_in demo_host = Inr demo_host" "validate_job_in demo_job = Inr demo_job"
  by code_simp+

lemma demo_fresh: "fresh_inventory demo_start"
  by (simp add: fresh_inventory_def demo_start_def)

lemma demo_steps: "(inventory_step demo_env)\<^sup>*\<^sup>* demo_start demo_4"
proof -
  have "inventory_step demo_env demo_start demo_1" "inventory_step demo_env demo_1 demo_2"
    "inventory_step demo_env demo_2 demo_3" "inventory_step demo_env demo_3 demo_4"
    unfolding demo_1_def demo_2_def demo_3_def demo_4_def
    by (rule host_created job_created repository_created access_finished, (rule demo_valid)?)+
  then show ?thesis by (blast intro: converse_rtranclp_into_rtranclp)
qed

lemma demo_keys: "iv_keys demo_4 =
    [''restrict,command='' @ CHR 0x22 # ''/usr/local/bin/bbm-borg-serve --repository /r/r-r'' @ CHR 0x22 # '' ssh-ed25519 AAAA bbm-access-h1-r1'']"
  by code_simp

lemma requests_keep_the_inventory_settled_witness: "inventory_ok demo_4 \<and> keys_synced demo_env demo_4"
  using requests_keep_the_inventory_settled [OF demo_fresh demo_steps] by blast

lemma authorized_keys_follow_the_jobs_witness: "\<exists>j \<in> set (db_jobs (iv_db demo_4)). jb_host_id j = 1 \<and> jb_repository_id j = 1"
proof -
  have "hd (iv_keys demo_4) \<in> set (iv_keys demo_4)" by (simp add: demo_keys)
  from authorized_keys_follow_the_jobs [OF demo_fresh demo_steps this]
  have "\<exists>j. j \<in> set (db_jobs (iv_db demo_4))" by blast
  moreover have "list_all (\<lambda>j. jb_host_id j = 1 \<and> jb_repository_id j = 1) (db_jobs (iv_db demo_4))" by code_simp
  ultimately show ?thesis by (auto simp: list_all_iff)
qed

definition demo_second :: inventory where
  "demo_second = fst (delete_job demo_env 1 (fst (create_job_row demo_job demo_2)))"

lemma job_ids_are_never_reused_witness:
  "snd (create_job_row demo_job demo_2) = Inr 1 \<and> snd (create_job_row demo_job demo_second) = Inr 2 \<and> (2 :: nat) \<noteq> 1"
proof -
  have first: "snd (create_job_row demo_job demo_2) = Inr 1" and second: "snd (create_job_row demo_job demo_second) = Inr 2"
    by code_simp+
  have a: "create_job_row demo_job demo_2 = (fst (create_job_row demo_job demo_2), Inr 1)" using first by (metis prod.collapse)
  have b: "create_job_row demo_job demo_second = (fst (create_job_row demo_job demo_second), Inr 2)" using second by (metis prod.collapse)
  have "(inventory_step demo_env)\<^sup>*\<^sup>* (fst (create_job_row demo_job demo_2)) demo_second"
    unfolding demo_second_def by (rule r_into_rtranclp) (rule job_deleted)
  from job_ids_are_never_reused [OF a this b] first second show ?thesis by simp
qed

section \<open>Two observations\<close>

text \<open>
  A change of a repository that is refused because the name is taken has already replaced the
  sensitive variables in the vault.
\<close>

lemma refused_update_stores_secrets:
  assumes "get_repository (iv_db s) i = Some r" "truthy (rp_storage_path r)" "ri_managed d"
    "rp_encryption_mode r = ri_encryption_mode d" "name_taken rp_id rp_name i (ri_name d) (db_repositories (iv_db s))"
  shows "update_repository_row kt i None d s = (fst (store_repository_environment i (ri_extra_env d) s), Inl Name_taken)"
  using assms by (simp add: update_repository_row_def Let_def split_beta)

text \<open>
  The directory of a new repository comes from its name alone: after a repository was renamed, one
  created with the old name gets the same directory.
\<close>

lemma renamed_repository_shares_directory:
  "map rp_storage_path (db_repositories (iv_db
     (fst (create_repository demo_env demo_tools demo_repository
       (fst (update_repository demo_env demo_tools 1 None (demo_repository\<lparr>ri_name := ''x''\<rparr>) demo_2)))))) =
   [Some ''/r/r-r'', Some ''/r/r-r'']"
  by code_simp

end
