(* ===== verification/ArchiveListing.thy ===== *)
theory ArchiveListing
  imports Regex RestoreProgress "HOL-Library.Product_Lexorder"
begin

text \<open>
  Archives as the manager reads them from Borg: \<open>src/app/borg_stats.py\<close> normalises the JSON of
  \<open>borg list\<close> and \<open>borg info\<close>, \<open>src/app/archive_metadata.py\<close> orders archives and guesses their device
  from the name. An archive is a Python dictionary of JSON values. \<open>datetime\<close> is a parameter.
\<close>

type_synonym archive = "(string \<times> json) list"

text \<open>
  \<open>ba_parse\<close> is \<open>fromisoformat\<close> with the application's timezone for a naive value, \<open>ba_iso\<close> the text of
  the same value; \<open>ba_raw\<close> decodes the value at the start of a text and ignores what follows.
\<close>

record archive_lib =
  ba_json :: json_lib
  ba_raw :: "string \<Rightarrow> json option"
  ba_parse :: "string \<Rightarrow> time option"
  ba_iso :: "string \<Rightarrow> string option"

section \<open>Names\<close>

text \<open>\<open>re.search\<close> with the place of the match.\<close>

fun re_search_at :: "rx \<Rightarrow> nat \<Rightarrow> string \<Rightarrow> (nat \<times> captures) option" where
  "re_search_at r k [] = map_option (Pair k) (re_match r [])"
| "re_search_at r k (c # s) = (case re_match r (c # s) of None \<Rightarrow> re_search_at r (Suc k) s | Some g \<Rightarrow> Some (k, g))"

definition rx_checkpoint :: rx where
  "rx_checkpoint = rx_seq [rx_itext ''.checkpoint'', Opt True (rx_seq [rx_text ''.'', rx_plus rx_digit]), Stop False]"

definition rx_plain_checkpoint :: rx where
  "rx_plain_checkpoint = rx_seq [rx_text ''.checkpoint'', Opt True (rx_seq [rx_text ''.'', rx_plus rx_digit]), Stop False]"

fun rx_times :: "nat \<Rightarrow> rx \<Rightarrow> rx" where
  "rx_times 0 r = Eps"
| "rx_times (Suc n) r = Cat r (rx_times n r)"

fun rx_up_to :: "nat \<Rightarrow> rx \<Rightarrow> rx" where
  "rx_up_to 0 r = Eps"
| "rx_up_to (Suc n) r = Opt True (Cat r (rx_up_to n r))"

definition rx_digits :: "nat \<Rightarrow> rx" where
  "rx_digits n = rx_times n rx_digit"

definition rx_date :: rx where
  "rx_date = rx_seq [rx_digits 4, rx_text ''-'', rx_digits 2, rx_text ''-'', rx_digits 2]"

definition rx_fraction :: rx where
  "rx_fraction = Opt True (rx_seq [rx_text ''.'', rx_plus rx_digit])"

definition rx_offset :: rx where
  "rx_offset = Or (rx_text ''Z'') (rx_seq [rx_of ''+-'', rx_digits 2, Opt True (rx_text '':''), rx_digits 2])"

definition rx_iso_stamp :: rx where
  "rx_iso_stamp = Cat (Grp 1 (rx_seq [rx_date, rx_text ''T'', rx_digits 2, rx_text '':'', rx_digits 2,
     Opt True (rx_seq [rx_text '':'', rx_digits 2, rx_fraction]), Opt True rx_offset])) (Stop False)"

definition rx_file_stamp :: rx where
  "rx_file_stamp = Cat (Grp 1 (rx_seq [rx_date, rx_of ''T_ -'', rx_digits 2, rx_of ''-:'', rx_digits 2,
     Opt True (rx_seq [rx_of ''-:'', rx_digits 2, rx_fraction])])) (Stop False)"

definition rx_hex :: rx where
  "rx_hex = One (\<lambda>c. is_digit c \<or> lower_char c \<in> set ''abcdef'')"

definition manager_prefixes :: "rx list" where
  "manager_prefixes =
     [rx_seq [rx_itext ''bbm-job-'', rx_plus rx_digit, rx_text ''-'', rx_times 8 rx_hex, rx_up_to 56 rx_hex, rx_text ''-''],
      rx_seq [rx_itext ''bbm-job-'', rx_plus rx_digit, rx_text ''-''],
      rx_seq [rx_itext ''bbm-'', rx_plus rx_digit, rx_text ''-'']]"

definition without_checkpoint_suffix :: "string \<Rightarrow> string" where
  "without_checkpoint_suffix name =
     (case re_search_at rx_checkpoint 0 (py_strip name) of None \<Rightarrow> py_strip name | Some (k, _) \<Rightarrow> take k (py_strip name))"

definition timestamp_match :: "string \<Rightarrow> (nat \<times> string) option" where
  "timestamp_match name =
     (let base = without_checkpoint_suffix name in
      map_option (\<lambda>(k, g). (k, group 1 g))
        (case re_search_at rx_iso_stamp 0 base of None \<Rightarrow> re_search_at rx_file_stamp 0 base | Some m \<Rightarrow> Some m))"

definition replace_char :: "char \<Rightarrow> char \<Rightarrow> string \<Rightarrow> string" where
  "replace_char a b s = map (\<lambda>c. if c = a then b else c) s"

text \<open>\<open>value.replace("Z", "+00:00")\<close>.\<close>

definition zulu :: "string \<Rightarrow> string" where
  "zulu s = concat (map (\<lambda>c. if c = CHR ''Z'' then ''+00:00'' else [c]) s)"

definition archive_timestamp_from_name :: "archive_lib \<Rightarrow> string \<Rightarrow> time option" where
  "archive_timestamp_from_name lib name =
     (case timestamp_match (without_checkpoint_suffix name) of
        None \<Rightarrow> None
      | Some (k, stamp) \<Rightarrow>
          (let v = (if CHR ''T'' \<in> set stamp then stamp else take 10 stamp @ CHR ''T'' # drop 11 stamp) in
           case py_partition (CHR ''T'') v of (date, found, clock) \<Rightarrow>
             let suffix = (case re_search (Grp 1 (Cat rx_offset (Stop False))) clock of None \<Rightarrow> [] | Some g \<Rightarrow> group 1 g);
                 clock1 = replace_char (CHR ''-'') (CHR '':'') (take (length clock - length suffix) clock) in
             ba_parse lib (zulu (date @ CHR ''T'' # clock1 @ suffix))))"

definition drop_prefix_match :: "rx \<Rightarrow> string \<Rightarrow> string" where
  "drop_prefix_match r s = (case re_match (Grp 1 r) s of None \<Rightarrow> s | Some g \<Rightarrow> drop (length (group 1 g)) s)"

definition name_padding :: "char \<Rightarrow> bool" where
  "name_padding c = (c \<in> set ''-_. '')"

definition infer_archive_device :: "string \<Rightarrow> string option" where
  "infer_archive_device name =
     (if py_strip name = [] then None
      else let base = without_checkpoint_suffix name in
        case timestamp_match base of
          None \<Rightarrow> None
        | Some (k, stamp) \<Rightarrow>
            (let candidate = strip_by name_padding
                   (fold drop_prefix_match manager_prefixes (rstrip_by name_padding (take k base))) in
             if candidate = [] then None else Some candidate))"

section \<open>Order\<close>

definition parse_archive_start :: "archive_lib \<Rightarrow> json \<Rightarrow> time option" where
  "parse_archive_start lib v =
     (case v of JStr s \<Rightarrow> (if py_strip s = [] then None else ba_parse lib (zulu (py_strip s))) | _ \<Rightarrow> None)"

definition archive_name :: "archive_lib \<Rightarrow> archive \<Rightarrow> string" where
  "archive_name lib a = json_text (ba_json lib) (json_get ''name'' a)"

definition archive_time :: "archive_lib \<Rightarrow> archive \<Rightarrow> time option" where
  "archive_time lib a =
     (case parse_archive_start lib (json_get ''start'' a) of
        None \<Rightarrow> archive_timestamp_from_name lib (archive_name lib a)
      | Some t \<Rightarrow> Some t)"

definition archive_sort_key :: "archive_lib \<Rightarrow> archive \<Rightarrow> nat \<times> time \<times> string" where
  "archive_sort_key lib a =
     (case archive_time lib a of
        None \<Rightarrow> (0, 0, py_casefold (archive_name lib a))
      | Some t \<Rightarrow> (1, t, py_casefold (archive_name lib a)))"

text \<open>\<open>sorted(\<dots>, reverse=True)\<close> keeps the order of equal elements.\<close>

definition sort_reverse :: "('a \<Rightarrow> 'k :: linorder) \<Rightarrow> 'a list \<Rightarrow> 'a list" where
  "sort_reverse key xs = rev (sort_key key (rev xs))"

definition sort_archives_newest_first :: "archive_lib \<Rightarrow> archive list \<Rightarrow> archive list" where
  "sort_archives_newest_first lib archives = sort_reverse (archive_sort_key lib) archives"

definition optional_text :: "string option \<Rightarrow> json" where
  "optional_text v = (case v of None \<Rightarrow> JNull | Some s \<Rightarrow> JStr s)"

definition annotate_archive_devices :: "archive_lib \<Rightarrow> archive list \<Rightarrow> archive list" where
  "annotate_archive_devices lib =
     map (\<lambda>a. dict_set ''archive_device'' (optional_text (infer_archive_device (archive_name lib a))) a)"

section \<open>JSON of Borg\<close>

definition json_number :: "json \<Rightarrow> json" where
  "json_number v =
     (case v of
        JInt n \<Rightarrow> if 0 \<le> n then JInt n else JNull
      | JFloat x \<Rightarrow> if 0 \<le> x then JInt \<lfloor>x\<rfloor> else JNull
      | _ \<Rightarrow> JNull)"

fun json_path :: "string list \<Rightarrow> json \<Rightarrow> json" where
  "json_path [] v = v"
| "json_path (k # ks) (JObj d) = (case map_of d k of None \<Rightarrow> JNull | Some v \<Rightarrow> json_path ks v)"
| "json_path (k # ks) v = JNull"

text \<open>\<open>value == n\<close> of Python.\<close>

fun json_equals :: "int \<Rightarrow> json \<Rightarrow> bool" where
  "json_equals n (JInt m) = (m = n)"
| "json_equals n (JFloat x) = (x = of_int n)"
| "json_equals n (JBool b) = (n = (if b then 1 else 0))"
| "json_equals n v = False"

text \<open>\<open>a or b\<close> of Python.\<close>

definition json_or :: "json \<Rightarrow> json \<Rightarrow> json" where
  "json_or a b = (if json_truthy a then a else b)"

definition normalize_borg_timestamp :: "archive_lib \<Rightarrow> json \<Rightarrow> json" where
  "normalize_borg_timestamp lib v =
     (case v of
        JStr s \<Rightarrow>
          (if py_strip s = [] then JNull
           else case ba_iso lib (zulu (py_strip s)) of None \<Rightarrow> JStr (py_strip s) | Some t \<Rightarrow> JStr t)
      | _ \<Rightarrow> JNull)"

definition seconds_between :: "time \<Rightarrow> time \<Rightarrow> json" where
  "seconds_between a b = JFloat (max 0 (of_int (b - a) / 1000000))"

definition duration_seconds :: "archive_lib \<Rightarrow> archive \<Rightarrow> json" where
  "duration_seconds lib item =
     (let between = (case (parse_archive_start lib (json_or (json_get ''start'' item) (json_get ''time'' item)),
                           parse_archive_start lib (json_get ''end'' item)) of
            (Some a, Some b) \<Rightarrow> seconds_between a b | _ \<Rightarrow> JNull) in
      case json_get ''duration'' item of
        JInt n \<Rightarrow> if 0 \<le> n then JFloat (of_int n) else between
      | JFloat x \<Rightarrow> if 0 \<le> x then JFloat x else between
      | _ \<Rightarrow> between)"

fun obj_fields :: "json \<Rightarrow> (string \<times> json) list" where
  "obj_fields (JObj d) = d"
| "obj_fields v = []"

fun is_number :: "json \<Rightarrow> bool" where
  "is_number (JInt n) = True"
| "is_number (JFloat x) = True"
| "is_number (JBool b) = True"
| "is_number v = False"

definition archive_stats :: "archive_lib \<Rightarrow> archive \<Rightarrow> archive" where
  "archive_stats lib item =
     (let stats = obj_fields (json_get ''stats'' item); limits = obj_fields (json_get ''limits'' item);
          name = json_text (ba_json lib) (json_or (json_get ''name'' item) (json_get ''archive'' item));
          used = json_get ''max_archive_size'' limits in
      [(''name'', JStr name), (''id'', json_get ''id'' item),
       (''start'', normalize_borg_timestamp lib (json_or (json_get ''start'' item) (json_get ''time'' item))),
       (''end'', normalize_borg_timestamp lib (json_get ''end'' item)), (''duration'', duration_seconds lib item),
       (''hostname'', json_get ''hostname'' item), (''username'', json_get ''username'' item),
       (''comment'', json_or (json_get ''comment'' item) (JStr [])),
       (''command_line'', case json_get ''command_line'' item of JList l \<Rightarrow> JList l | _ \<Rightarrow> JList []),
       (''nfiles'', json_number (json_get ''nfiles'' stats)),
       (''original_size'', json_number (json_get ''original_size'' stats)),
       (''compressed_size'', json_number (json_get ''compressed_size'' stats)),
       (''deduplicated_size'', json_number (json_get ''deduplicated_size'' stats)),
       (''checkpoint'', JBool (re_search rx_checkpoint name \<noteq> None)),
       (''max_archive_size_utilization'', if is_number used then used else JNull)])"

fun scan_document :: "archive_lib \<Rightarrow> string list \<Rightarrow> string \<Rightarrow> json option" where
  "scan_document lib expected [] = None"
| "scan_document lib expected (c # s) =
     (case (if c \<in> set ''{['' then ba_raw lib (c # s) else None) of
        None \<Rightarrow> scan_document lib expected s
      | Some v \<Rightarrow>
          if list_ex (\<lambda>k. k \<in> set expected) (map fst (obj_fields v)) then Some v else scan_document lib expected s)"

text \<open>
  The texts are below code point 256, so there is no byte order mark to remove. Every caller names
  the keys it expects.
\<close>

definition load_borg_json_document :: "archive_lib \<Rightarrow> string list \<Rightarrow> string \<Rightarrow> json option" where
  "load_borg_json_document lib expected output =
     (case jl_loads (ba_json lib) output of Some v \<Rightarrow> Some v | None \<Rightarrow> scan_document lib expected output)"

definition listed_archive :: "archive_lib \<Rightarrow> archive \<Rightarrow> archive" where
  "listed_archive lib item =
     (let start = normalize_borg_timestamp lib (json_or (json_get ''start'' item) (json_get ''time'' item));
          finish = normalize_borg_timestamp lib (json_get ''end'' item);
          explicit = json_get ''duration'' item;
          duration = (if is_number explicit then explicit
            else case (start, finish) of
              (JStr a, JStr b) \<Rightarrow> (case (ba_parse lib (zulu a), ba_parse lib (zulu b)) of
                 (Some x, Some y) \<Rightarrow> seconds_between x y | _ \<Rightarrow> JNull)
            | _ \<Rightarrow> JNull);
          name = json_text (ba_json lib) (json_get ''name'' item) in
      [(''name'', JStr name), (''id'', json_get ''id'' item), (''start'', start), (''end'', finish),
       (''duration'', duration), (''hostname'', json_get ''hostname'' item), (''username'', json_get ''username'' item),
       (''comment'', json_or (json_get ''comment'' item) (JStr [])), (''nfiles'', json_get ''nfiles'' item),
       (''original_size'', json_get ''original_size'' item), (''compressed_size'', json_get ''compressed_size'' item),
       (''deduplicated_size'', json_get ''deduplicated_size'' item),
       (''checkpoint'', JBool (re_search rx_plain_checkpoint name \<noteq> None))])"

datatype listing_error = Invalid_json | Unexpected_structure

definition parse_archive_listing :: "archive_lib \<Rightarrow> string \<Rightarrow> (listing_error, archive list) result" where
  "parse_archive_listing lib output =
     (case load_borg_json_document lib [''archives''] output of
        None \<Rightarrow> Inl Invalid_json
      | Some v \<Rightarrow>
          (case (case v of JObj d \<Rightarrow> or_else (map_of d ''archives'') (JList []) | _ \<Rightarrow> JList []) of
             JList items \<Rightarrow> Inr (sort_archives_newest_first lib
               (map (\<lambda>item. listed_archive lib (obj_fields item))
                 (filter (\<lambda>item. json_truthy (json_get ''name'' (obj_fields item))) items)))
           | _ \<Rightarrow> Inl Unexpected_structure))"

definition repository_stats :: "json \<Rightarrow> (string \<times> json) list" where
  "repository_stats candidate =
     (let d = obj_fields candidate; n = (\<lambda>k. json_number (json_get k d)) in
      if n ''total_size'' = JNull \<and> n ''total_csize'' = JNull \<and> n ''unique_csize'' = JNull \<and> n ''unique_size'' = JNull then []
      else [(''original_size'', n ''total_size''), (''compressed_size'', n ''total_csize''),
            (''deduplicated_size'', n ''unique_csize''), (''deduplicated_uncompressed_size'', n ''unique_size''),
            (''total_chunks'', n ''total_chunks''), (''unique_chunks'', n ''total_unique_chunks'')])"

text \<open>The first candidate that has statistics.\<close>

fun first_stats :: "json list \<Rightarrow> (string \<times> json) list" where
  "first_stats [] = []"
| "first_stats (c # cs) = (if repository_stats c \<noteq> [] then repository_stats c else first_stats cs)"

record borg_info =
  bi_repository :: "(string \<times> json) list"
  bi_archives :: "archive list"
  bi_encryption :: "(string \<times> json) list"
  bi_metadata :: "(string \<times> json) list"

fun is_object :: "json \<Rightarrow> bool" where
  "is_object (JObj d) = True"
| "is_object v = False"

definition parse_borg_info :: "archive_lib \<Rightarrow> string \<Rightarrow> (listing_error, borg_info) result" where
  "parse_borg_info lib output =
     (case load_borg_json_document lib [''archives'', ''archive'', ''cache'', ''repository'', ''encryption'', ''stats''] output of
        None \<Rightarrow> Inl Invalid_json
      | Some (JObj d) \<Rightarrow>
          (let several = (case json_get ''archives'' d of JList l \<Rightarrow> l | _ \<Rightarrow> []);
               single = (if is_object (json_get ''archive'' d) then [json_get ''archive'' d] else []);
               archives = map (\<lambda>item. archive_stats lib (obj_fields item)) (filter is_object (several @ single)) in
           Inr \<lparr>bi_repository = first_stats [json_path [''cache'', ''stats''] (JObj d), json_path [''repository'', ''stats''] (JObj d),
                  json_get ''stats'' d],
                bi_archives = sort_archives_newest_first lib (filter (\<lambda>a. json_truthy (json_get ''name'' a)) archives),
                bi_encryption = obj_fields (json_get ''encryption'' d), bi_metadata = obj_fields (json_get ''repository'' d)\<rparr>)
      | Some v \<Rightarrow> Inl Unexpected_structure)"

definition merged_keys :: "string list" where
  "merged_keys = [''end'', ''duration'', ''hostname'', ''username'', ''comment'', ''nfiles'', ''original_size'',
     ''compressed_size'', ''deduplicated_size'', ''max_archive_size_utilization'']"

definition json_str :: "archive_lib \<Rightarrow> json \<Rightarrow> string" where
  "json_str lib v = (case v of JStr s \<Rightarrow> s | _ \<Rightarrow> jl_str (ba_json lib) v)"

text \<open>Of two details with the same name the later one counts.\<close>

definition detail_of :: "archive_lib \<Rightarrow> archive list \<Rightarrow> string \<Rightarrow> archive option" where
  "detail_of lib details name =
     find (\<lambda>d. json_truthy (json_get ''name'' d) \<and> json_str lib (json_get ''name'' d) = name) (rev details)"

definition merge_archive_statistics :: "archive_lib \<Rightarrow> archive list \<Rightarrow> archive list \<Rightarrow> archive list" where
  "merge_archive_statistics lib archives details =
     sort_archives_newest_first lib
       (map (\<lambda>a. case detail_of lib details (json_str lib (json_get ''name'' a)) of
            None \<Rightarrow> a
          | Some d \<Rightarrow> if d = [] then a
              else fold (\<lambda>k a. if json_get k d \<noteq> JNull then dict_set k (json_get k d) a else a) merged_keys a) archives)"

section \<open>Facts\<close>

text \<open>The order is newest first, it loses nothing and keeps archives with the same key in place.\<close>

lemma sort_reverse_facts:
  "length (sort_reverse key xs) = length xs" "sorted (map key (rev (sort_reverse key xs)))"
  "filter (\<lambda>x. key x = k) (sort_reverse key xs) = filter (\<lambda>x. key x = k) xs"
proof -
  show "length (sort_reverse key xs) = length xs" "sorted (map key (rev (sort_reverse key xs)))"
    by (simp_all add: sort_reverse_def)
  have "filter (\<lambda>x. key x = k) (sort_reverse key xs) = rev (filter (\<lambda>x. key x = k) (sort_key key (rev xs)))"
    by (simp add: sort_reverse_def rev_filter)
  also have "\<dots> = filter (\<lambda>x. key x = k) xs" by (simp add: sort_key_stable rev_filter [symmetric])
  finally show "filter (\<lambda>x. key x = k) (sort_reverse key xs) = filter (\<lambda>x. key x = k) xs" .
qed

lemma set_sort_reverse [simp]: "set (sort_reverse key xs) = set xs"
  by (simp add: sort_reverse_def)

text \<open>\<open>max(xs, key=\<dots>)\<close>: the first of the largest.\<close>

fun py_max :: "('a \<Rightarrow> 'k :: linorder) \<Rightarrow> 'a list \<Rightarrow> 'a option" where
  "py_max key [] = None"
| "py_max key (x # xs) = (case py_max key xs of None \<Rightarrow> Some x | Some y \<Rightarrow> if key x < key y then Some y else Some x)"

lemma py_max_None [simp]: "py_max key xs = None \<longleftrightarrow> xs = []"
  by (cases xs) (auto split: option.split)

lemma py_max_Some:
  "py_max key xs = Some x \<Longrightarrow> x \<in> set xs \<and> (\<forall>y \<in> set xs. key y \<le> key x) \<and> find (\<lambda>y. key y = key x) xs = Some x"
  by (induction xs arbitrary: x) (force split: option.splits if_splits)+

lemma find_filter: "find P xs = (case filter P xs of [] \<Rightarrow> None | x # _ \<Rightarrow> Some x)"
  by (induction xs) auto

text \<open>Looking for the first match in the order of falling keys is taking the largest match.\<close>

lemma find_sort_reverse: "find P (sort_reverse key xs) = py_max key (filter P xs)"
proof -
  let ?ys = "filter P xs"
  have f: "filter P (sort_reverse key xs) = sort_reverse key ?ys"
    by (simp add: sort_reverse_def rev_filter [symmetric] filter_sort)
  show ?thesis
  proof (cases "?ys = []")
    case True
    then show ?thesis using f by (simp add: find_filter [of P] sort_reverse_def)
  next
    case False
    obtain m where m: "py_max key ?ys = Some m" using False by (cases "py_max key ?ys") auto
    obtain x zs where x: "sort_reverse key ?ys = x # zs"
      using False set_sort_reverse [of key ?ys] by (cases "sort_reverse key ?ys") auto
    have big: "key y \<le> key x" if "y \<in> set ?ys" for y
    proof -
      have "y \<in> set (x # zs)" using that set_sort_reverse [of key ?ys] x by simp
      moreover have "sorted (map key (rev (x # zs)))" using sort_reverse_facts(2) [of key ?ys] x by simp
      ultimately show ?thesis by (auto simp: sorted_append)
    qed
    have "x \<in> set ?ys" using set_sort_reverse [of key ?ys] x by auto
    then have k: "key x = key m" using py_max_Some [OF m] big by (metis order.antisym)
    have "filter (\<lambda>y. key y = key m) ?ys = filter (\<lambda>y. key y = key m) (x # zs)"
      using sort_reverse_facts(3) [of key "key m" ?ys] x by simp
    then have "find (\<lambda>y. key y = key m) ?ys = Some x" using k by (simp add: find_filter [of _ ?ys])
    then have "x = m" using py_max_Some [OF m] by simp
    then show ?thesis using f x m by (simp add: find_filter [of P])
  qed
qed

end
