(* ===== verification/ArchiveOwners.thy ===== *)
theory ArchiveOwners
  imports ArchiveListing RunActions BuilderFacts
begin

text \<open>
  Which job and which device an archive belongs to: \<open>assign_archive_owners\<close>, \<open>archive_owner_job\<close> and
  \<open>resolve_archive_devices\<close> of \<open>src/app/main.py\<close>. The lists of the program name every archive with a
  text; \<open>device_fold\<close> is the compatible normal form of a text, case folded.
\<close>

type_synonym device_fold = "string \<Rightarrow> string"

section \<open>Owners\<close>

definition prefix_items :: "job list \<Rightarrow> (string \<times> job) list" where
  "prefix_items jobs = concat (map (\<lambda>j. map (\<lambda>p. (p, j)) (job_archive_prefixes j)) jobs)"

definition item_length :: "string \<times> job \<Rightarrow> nat" where
  "item_length x = length (fst x)"

definition item_owns :: "string \<Rightarrow> string \<times> job \<Rightarrow> bool" where
  "item_owns name x = starts_with (fst x) name"

definition archive_owner_job :: "string \<Rightarrow> job list \<Rightarrow> job option" where
  "archive_owner_job name jobs = map_option snd (py_max item_length (filter (item_owns name) (prefix_items jobs)))"

definition int_json :: "nat \<Rightarrow> json" where
  "int_json n = JInt (int n)"

fun dict_update :: "(string \<times> json) list \<Rightarrow> archive \<Rightarrow> archive" where
  "dict_update [] a = a"
| "dict_update ((k, v) # kvs) a = dict_update kvs (dict_set k v a)"

definition owner_fields :: "manager_db \<Rightarrow> nat option \<Rightarrow> job option \<Rightarrow> (string \<times> json) list" where
  "owner_fields db selected owner =
     (case owner of
        None \<Rightarrow> [(''job_id'', JNull), (''job_name'', JNull), (''host_id'', JNull), (''device_name'', JNull),
                 (''legacy'', JBool True), (''selected_job'', JBool False)]
      | Some j \<Rightarrow>
          [(''job_id'', int_json (jb_id j)), (''job_name'', JStr (jb_name j)), (''host_id'', int_json (jb_host_id j)),
           (''device_name'', optional_text (map_option ho_name (get_host db (jb_host_id j)))),
           (''legacy'', JBool False), (''selected_job'', JBool (selected \<noteq> None \<and> selected \<noteq> Some 0 \<and> selected = Some (jb_id j)))])"

definition assign_owner :: "archive_lib \<Rightarrow> manager_db \<Rightarrow> (string \<times> job) list \<Rightarrow> nat option \<Rightarrow> archive \<Rightarrow> archive" where
  "assign_owner lib db prefixes selected a =
     dict_update (owner_fields db selected (map_option snd (find (item_owns (archive_name lib a)) prefixes))) a"

definition assign_archive_owners :: "archive_lib \<Rightarrow> manager_db \<Rightarrow> archive list \<Rightarrow> job list \<Rightarrow> nat option \<Rightarrow> archive list" where
  "assign_archive_owners lib db archives jobs selected =
     map (assign_owner lib db (sort_reverse item_length (prefix_items jobs)) selected) archives"

section \<open>Devices\<close>

definition archive_device_key :: "device_fold \<Rightarrow> string option \<Rightarrow> string" where
  "archive_device_key nf v = filter is_alnum (nf (or_empty v))"

definition device_keys :: "device_fold \<Rightarrow> string option list \<Rightarrow> string list" where
  "device_keys nf vs = filter (\<lambda>k. k \<noteq> []) (map (archive_device_key nf) vs)"

definition host_device_keys :: "device_fold \<Rightarrow> manager_db \<Rightarrow> nat \<Rightarrow> string list" where
  "host_device_keys nf db i =
     device_keys nf [map_option ho_name (get_host db i), map_option ho_address (get_host db i)]"

text \<open>\<open>str(value or "")\<close> of a member of the archive.\<close>

definition member_text :: "archive_lib \<Rightarrow> string \<Rightarrow> archive \<Rightarrow> string option" where
  "member_text lib k a = Some (json_text (ba_json lib) (json_get k a))"

definition matching_hosts :: "archive_lib \<Rightarrow> device_fold \<Rightarrow> manager_db \<Rightarrow> job list \<Rightarrow> archive \<Rightarrow> nat list" where
  "matching_hosts lib nf db jobs a =
     (let candidates = device_keys nf [member_text lib ''hostname'' a, member_text lib ''archive_device'' a] in
      filter (\<lambda>i. list_ex (\<lambda>k. k \<in> set candidates) (host_device_keys nf db i)) (remdups (map jb_host_id jobs)))"

definition first_job_of :: "nat \<Rightarrow> job list \<Rightarrow> job option" where
  "first_job_of host jobs = (case by_key jb_id (filter (\<lambda>j. jb_host_id j = host) jobs) of [] \<Rightarrow> None | j # _ \<Rightarrow> Some j)"

definition resolve_archive_device :: "archive_lib \<Rightarrow> device_fold \<Rightarrow> manager_db \<Rightarrow> job list \<Rightarrow> archive \<Rightarrow> archive" where
  "resolve_archive_device lib nf db jobs a =
     (if json_truthy (json_get ''job_id'' a) then dict_set ''action_job_id'' (json_get ''job_id'' a) a
      else case matching_hosts lib nf db jobs a of
        [i] \<Rightarrow> (case first_job_of i jobs of
            None \<Rightarrow> a
          | Some j \<Rightarrow> dict_update [(''action_job_id'', int_json (jb_id j)), (''host_id'', int_json (jb_host_id j)),
              (''device_name'', optional_text (map_option ho_name (get_host db i)))] a)
      | _ \<Rightarrow> dict_update [(''action_job_id'', JNull),
          (''device_name'', let d = json_or (json_get ''hostname'' a) (json_get ''archive_device'' a) in
             if json_truthy d then d else JNull)] a)"

definition resolve_archive_devices ::
    "archive_lib \<Rightarrow> device_fold \<Rightarrow> manager_db \<Rightarrow> archive list \<Rightarrow> job list \<Rightarrow> archive list" where
  "resolve_archive_devices lib nf db archives jobs =
     map (resolve_archive_device lib nf db jobs) (annotate_archive_devices lib archives)"

section \<open>Facts\<close>

lemma json_get_dict_set [simp]: "json_get k (dict_set k' v d) = (if k = k' then v else json_get k d)"
  by (simp add: json_get_def or_else_def)

text \<open>The list and the single lookup name the same job: the one with the longest prefix, the first of several.\<close>

lemma owner_of_list:
  "map_option snd (find (item_owns name) (sort_reverse item_length (prefix_items jobs))) = archive_owner_job name jobs"
  by (simp add: find_sort_reverse archive_owner_job_def)

lemma assigned_owner:
  "json_get ''job_id'' (assign_owner lib db (sort_reverse item_length (prefix_items jobs)) selected a) =
     (case archive_owner_job (archive_name lib a) jobs of None \<Rightarrow> JNull | Some j \<Rightarrow> int_json (jb_id j))"
  by (simp add: assign_owner_def owner_of_list owner_fields_def split: option.split)

lemma owner_facts:
  assumes "archive_owner_job name jobs = Some j"
  shows "j \<in> set jobs" "\<exists>p \<in> set (job_archive_prefixes j). starts_with p name \<and>
      (\<forall>k \<in> set jobs. \<forall>q \<in> set (job_archive_prefixes k). starts_with q name \<longrightarrow> length q \<le> length p)"
proof -
  obtain p where p: "py_max item_length (filter (item_owns name) (prefix_items jobs)) = Some (p, j)"
    using assms by (auto simp: archive_owner_job_def)
  note facts = py_max_Some [OF p]
  then show "j \<in> set jobs" by (auto simp: prefix_items_def)
  have "\<forall>k \<in> set jobs. \<forall>q \<in> set (job_archive_prefixes k). starts_with q name \<longrightarrow> length q \<le> length p"
    using facts by (force simp: prefix_items_def item_owns_def item_length_def)
  then show "\<exists>p \<in> set (job_archive_prefixes j). starts_with p name \<and>
      (\<forall>k \<in> set jobs. \<forall>q \<in> set (job_archive_prefixes k). starts_with q name \<longrightarrow> length q \<le> length p)"
    using facts by (auto simp: prefix_items_def item_owns_def)
qed

lemma owner_None:
  "archive_owner_job name jobs = None \<longleftrightarrow> (\<forall>k \<in> set jobs. \<forall>q \<in> set (job_archive_prefixes k). \<not> starts_with q name)"
  by (force simp: archive_owner_job_def filter_empty_conv prefix_items_def item_owns_def)

text \<open>With the prefixes the program gives to new jobs, the number in the name decides.\<close>

lemma default_owner_iff:
  assumes "default_series j" and "default_series k" and "starts_with (job_archive_prefix j) name"
  shows "starts_with (job_archive_prefix k) name \<longleftrightarrow> jb_id j = jb_id k"
proof
  obtain s where s: "name = ''bbm-'' @ str_nat (jb_id j) @ ''-'' @ s"
    using assms(3) by (auto simp: starts_with_append default_prefix [OF assms(1)])
  assume "starts_with (job_archive_prefix k) name"
  then obtain t where "name = ''bbm-'' @ str_nat (jb_id k) @ ''-'' @ t"
    by (auto simp: starts_with_append default_prefix [OF assms(2)])
  with s have "str_nat (jb_id j) @ CHR ''-'' # s = str_nat (jb_id k) @ CHR ''-'' # t" by simp
  then show "jb_id j = jb_id k" by (rule number_before_dash)
next
  assume "jb_id j = jb_id k"
  then show "starts_with (job_archive_prefix k) name"
    using assms(3) by (simp add: default_prefix [OF assms(1)] default_prefix [OF assms(2)])
qed

lemma default_owner:
  assumes "\<forall>k \<in> set jobs. default_series k" and "distinct (map jb_id jobs)"
    and "j \<in> set jobs" and "starts_with (job_archive_prefix j) name"
  shows "archive_owner_job name jobs = Some j"
proof -
  have dj: "default_series j" using assms(1,3) by blast
  have "archive_owner_job name jobs \<noteq> None"
    using assms(3,4) default_prefixes [OF dj] by (simp add: owner_None) (metis list.set_intros(1))
  then obtain k where k: "archive_owner_job name jobs = Some k" by auto
  have dk: "default_series k" "k \<in> set jobs" using owner_facts(1) [OF k] assms(1) by auto
  have "starts_with (job_archive_prefix k) name" using owner_facts(2) [OF k] default_prefixes [OF dk(1)] by auto
  then have "jb_id j = jb_id k" using default_owner_iff [OF dj dk(1) assms(4)] by simp
  then have "j = k" using assms(2,3) dk(2) distinct_map_inj by metis
  then show ?thesis using k by simp
qed

end
