(* ===== verification/ArchiveAccess.thy ===== *)
theory ArchiveAccess
  imports ArchiveOwners InventoryRepositories
begin

text \<open>
  The endpoints on archives in \<open>src/app/main.py\<close> and the archive cache of \<open>src/app/archive_cache.py\<close>.
  An endpoint that asks Borg for the names takes the database before, the answer, and the state
  after the wait. A cache is the list of the texts of its files.
\<close>

section \<open>Environment and errors\<close>

type_synonym archive_cache = "((nat \<times> bool) \<times> string) list"

type_synonym borg_answer = "int \<times> string \<times> string"

text \<open>
  \<open>ax_dumps\<close> is \<open>json.dumps\<close>, \<open>ax_arrow\<close> the text between two names in the label of a comparison (its
  arrow is no character of the model).
\<close>

record archive_env =
  ax_queue :: queue_env
  ax_lib :: archive_lib
  ax_url :: url_env
  ax_fold :: device_fold
  ax_dumps :: "json \<Rightarrow> string"
  ax_arrow :: string

datatype archive_error =
    Unknown_job | Unknown_repository | Unknown_archives "string list"
  | Repository_off | Managed_missing | Key_missing | Not_validated "string option" | External_incomplete
  | Repository_busy | Archives_mounted "string list" | Archive_mounted | Name_exists | Prefix_lost string
  | Scan_needed | Borg_refused | Listing_refused | No_statistics
  | Refused_by_queue int queue_error | Server_error

fun archive_status :: "archive_error \<Rightarrow> int" where
  "archive_status Unknown_job = 404"
| "archive_status Unknown_repository = 404"
| "archive_status (Unknown_archives names) = 404"
| "archive_status Repository_off = 409"
| "archive_status Repository_busy = 409"
| "archive_status (Archives_mounted names) = 409"
| "archive_status Archive_mounted = 409"
| "archive_status Name_exists = 409"
| "archive_status Scan_needed = 409"
| "archive_status (Refused_by_queue code e) = code"
| "archive_status Server_error = 500"
| "archive_status e = 400"

text \<open>A \<open>LookupError\<close> of the functions that queue runs; the others are \<open>ValueError\<close>.\<close>

definition is_lookup :: "queue_error \<Rightarrow> bool" where
  "is_lookup e = (e \<in> {Job_missing, Run_missing, Repository_missing})"

section \<open>Repositories and jobs that can be read\<close>

definition location_ssh :: "archive_env \<Rightarrow> repository \<Rightarrow> (archive_error, bool) result" where
  "location_ssh e r =
     (case repository_location_uses_ssh (ax_url e) (rp_location r) of Inl _ \<Rightarrow> Inl Server_error | Inr b \<Rightarrow> Inr b)"

definition access_key_of :: "manager_db \<Rightarrow> nat \<Rightarrow> nat \<Rightarrow> bool" where
  "access_key_of db host repository =
     list_ex (\<lambda>a. ac_host_id a = host \<and> ac_repository_id a = repository \<and> ac_public_key a \<noteq> None) (db_access db)"

definition load_job_with_connections ::
    "archive_env \<Rightarrow> bool \<Rightarrow> manager_db \<Rightarrow> nat \<Rightarrow> (archive_error, job \<times> repository) result" where
  "load_job_with_connections e client db i =
     (case get_job db i of
        None \<Rightarrow> Inl Unknown_job
      | Some j \<Rightarrow>
          (case get_repository db (jb_repository_id j) of
             None \<Rightarrow> Inl Server_error
           | Some r \<Rightarrow>
               if \<not> rp_enabled r then Inl Repository_off
               else if truthy (rp_storage_path r) \<and> (\<not> rp_initialized r \<or> \<not> present (ax_queue e) r) then Inl Managed_missing
               else if truthy (rp_storage_path r) \<and> client \<and> \<not> access_key_of db (jb_host_id j) (rp_id r) then Inl Key_missing
               else Inr (j, r)))"

definition load_repository_with_access ::
    "archive_env \<Rightarrow> inventory \<Rightarrow> nat \<Rightarrow> (archive_error, repository) result" where
  "load_repository_with_access e s i =
     (case get_repository (iv_db s) i of
        None \<Rightarrow> Inl Unknown_repository
      | Some r \<Rightarrow>
          let managed = truthy (rp_storage_path r) in
          if \<not> rp_enabled r then Inl Repository_off
          else if managed \<and> (\<not> rp_initialized r \<or> \<not> present (ax_queue e) r) then Inl Managed_missing
          else if \<not> rp_initialized r \<and> \<not> managed then Inl (Not_validated (rp_validation_error r))
          else if managed then Inr r
          else try_bind (location_ssh e r) (\<lambda>ssh.
            if ssh \<and> (\<not> truthy (repository_secret s i ''external_ssh_private_key'') \<or>
                      \<not> truthy (repository_secret s i ''external_known_hosts''))
            then Inl External_incomplete else Inr r))"

definition repository_jobs :: "manager_db \<Rightarrow> nat \<Rightarrow> job list" where
  "repository_jobs db i = filter (\<lambda>j. jb_repository_id j = i) (db_jobs db)"

definition is_mounting :: "archive_mount \<Rightarrow> bool" where
  "is_mounting a = (am_status a \<in> {''mounting'', ''mounted''})"

definition archive_is_mounted :: "manager_db \<Rightarrow> nat \<Rightarrow> string \<Rightarrow> bool" where
  "archive_is_mounted db i name =
     list_ex (\<lambda>a. am_repository_id a = i \<and> am_archive a = name \<and> is_mounting a) (db_mounts db)"

definition refused_by_queue :: "int \<Rightarrow> queue_error \<Rightarrow> archive_error" where
  "refused_by_queue code err = Refused_by_queue code err"

section \<open>Borg's answers\<close>

definition answered :: "borg_answer \<Rightarrow> (archive_error, string) result" where
  "answered a = (case a of (code, out, err) \<Rightarrow> if code \<in> {0, 1} then Inr (out @ newline # err) else Inl Borg_refused)"

definition repository_archive_names :: "archive_lib \<Rightarrow> borg_answer \<Rightarrow> (archive_error, string list) result" where
  "repository_archive_names lib a =
     try_bind (answered a) (\<lambda>text. case parse_archive_listing lib text of
        Inl _ \<Rightarrow> Inl Listing_refused | Inr archives \<Rightarrow> Inr (map (archive_name lib) archives))"

definition archive_info :: "archive_lib \<Rightarrow> borg_answer \<Rightarrow> (archive_error, archive \<times> (string \<times> json) list) result" where
  "archive_info lib a =
     try_bind (answered a) (\<lambda>text. case parse_borg_info lib text of
        Inl _ \<Rightarrow> Inl Listing_refused
      | Inr info \<Rightarrow> (case bi_archives info of [] \<Rightarrow> Inl No_statistics | d # _ \<Rightarrow> Inr (d, bi_repository info)))"

section \<open>The archive cache\<close>

definition valid_payload :: "nat \<Rightarrow> bool \<Rightarrow> (string \<times> json) list \<Rightarrow> bool" where
  "valid_payload i checkpoints d \<longleftrightarrow>
     json_equals 1 (json_get ''version'' d) \<and> json_equals (int i) (json_get ''repository_id'' d) \<and>
     json_truthy (json_get ''consider_checkpoints'' d) = checkpoints \<and>
     (case json_get ''data'' d of JObj data \<Rightarrow> (case json_get ''archives'' data of JList l \<Rightarrow> True | _ \<Rightarrow> False) | _ \<Rightarrow> False)"

definition load_archive_cache :: "archive_lib \<Rightarrow> nat \<Rightarrow> bool \<Rightarrow> archive_cache \<Rightarrow> (string \<times> json) list option" where
  "load_archive_cache lib i checkpoints c =
     (case map_of c (i, checkpoints) of
        None \<Rightarrow> None
      | Some text \<Rightarrow>
          (case jl_loads (ba_json lib) text of
             Some (JObj d) \<Rightarrow> if valid_payload i checkpoints d then Some d else None
           | _ \<Rightarrow> None))"

definition cache_payload :: "nat \<Rightarrow> bool \<Rightarrow> string \<Rightarrow> (string \<times> json) list \<Rightarrow> (string \<times> json) list" where
  "cache_payload i checkpoints now data =
     [(''version'', JInt 1), (''repository_id'', JInt (int i)), (''consider_checkpoints'', JBool checkpoints),
      (''generated_at'', JStr now), (''data'', JObj data)]"

definition store_archive_cache ::
    "archive_env \<Rightarrow> string \<Rightarrow> nat \<Rightarrow> bool \<Rightarrow> (string \<times> json) list \<Rightarrow> archive_cache \<Rightarrow> archive_cache" where
  "store_archive_cache e now i checkpoints data c =
     dict_set (i, checkpoints) (ax_dumps e (JObj (cache_payload i checkpoints now data)) @ [newline]) c"

definition forget_archive_cache :: "nat \<Rightarrow> archive_cache \<Rightarrow> archive_cache \<times> nat" where
  "forget_archive_cache i c =
     (dict_pop (i, True) (dict_pop (i, False) c), length (filter (\<lambda>k. map_of c (i, k) \<noteq> None) [False, True]))"

definition cached_archives :: "(string \<times> json) list \<Rightarrow> archive list" where
  "cached_archives payload =
     (case json_get ''archives'' (obj_fields (json_get ''data'' payload)) of JList l \<Rightarrow> map obj_fields l | _ \<Rightarrow> [])"

section \<open>Listing\<close>

text \<open>The archives, the statistics and the time of the cache.\<close>

definition repository_archive_dataset ::
    "archive_env \<Rightarrow> inventory \<Rightarrow> archive_cache \<Rightarrow> nat \<Rightarrow> bool \<Rightarrow> bool \<Rightarrow> bool \<Rightarrow>
     (archive_error, archive list \<times> json \<times> json option) result" where
  "repository_archive_dataset e s c i checkpoints refresh unvalidated =
     try_bind (if unvalidated
         then (case get_repository (iv_db s) i of None \<Rightarrow> Inl Unknown_repository | Some r \<Rightarrow> Inr r)
         else load_repository_with_access e s i) (\<lambda>_.
       if refresh then Inl Scan_needed
       else case load_archive_cache (ax_lib e) i checkpoints c of
         None \<Rightarrow> Inr ([], JObj [], None)
       | Some p \<Rightarrow> Inr (cached_archives p,
           or_else (map_of (obj_fields (json_get ''data'' p)) ''repository_statistics'') (JObj []),
           Some (json_get ''generated_at'' p)))"

definition shown_archives :: "archive_env \<Rightarrow> manager_db \<Rightarrow> nat \<Rightarrow> nat option \<Rightarrow> archive list \<Rightarrow> archive list" where
  "shown_archives e db i selected archives =
     (let jobs = repository_jobs db i in
      resolve_archive_devices (ax_lib e) (ax_fold e) db (assign_archive_owners (ax_lib e) db archives jobs selected) jobs)"

definition list_repository_archives ::
    "archive_env \<Rightarrow> inventory \<Rightarrow> archive_cache \<Rightarrow> nat \<Rightarrow> bool \<Rightarrow> bool \<Rightarrow>
     (archive_error, archive list \<times> json \<times> json option) result" where
  "list_repository_archives e s c i checkpoints refresh =
     try_bind (repository_archive_dataset e s c i checkpoints refresh False) (\<lambda>(archives, stats, stamp).
       Inr (shown_archives e (iv_db s) i None (sort_archives_newest_first (ax_lib e) archives), stats, stamp))"

definition list_job_archives ::
    "archive_env \<Rightarrow> inventory \<Rightarrow> archive_cache \<Rightarrow> nat \<Rightarrow> bool \<Rightarrow> bool \<Rightarrow> bool \<Rightarrow>
     (archive_error, archive list \<times> json \<times> json option) result" where
  "list_job_archives e s c job_id all_archives checkpoints refresh =
     try_bind (load_job_with_connections e False (iv_db s) job_id) (\<lambda>(j, r).
     try_bind (repository_archive_dataset e s c (rp_id r) checkpoints refresh True) (\<lambda>(archives, stats, stamp).
       let newest = sort_archives_newest_first (ax_lib e) archives;
           mine = (if all_archives then newest
             else filter (\<lambda>a. list_ex (\<lambda>p. starts_with p (archive_name (ax_lib e) a)) (job_archive_prefixes j)) newest) in
       Inr (shown_archives e (iv_db s) (rp_id r) (Some job_id) mine, stats, stamp)))"

section \<open>Requests on archives\<close>

definition restore_request :: "string \<Rightarrow> action_request" where
  "restore_request action = (plain_request action)\<lparr>ar_restore := True\<rparr>"

text \<open>What the queue refuses becomes the answer: 404 for a missing row (if told apart), 400 otherwise.\<close>

definition queued :: "(queue_error \<Rightarrow> int) \<Rightarrow> manager \<times> (queue_error, 'a) result \<Rightarrow> manager \<times> (archive_error, 'a) result" where
  "queued code x = (fst x, case snd x of Inl err \<Rightarrow> Inl (Refused_by_queue (code err) err) | Inr a \<Rightarrow> Inr a)"

definition missing_or_bad :: "queue_error \<Rightarrow> int" where
  "missing_or_bad err = (if is_lookup err then 404 else 400)"

text \<open>The answer of a request that has a state \<open>m\<close> before the wait and \<open>m'\<close> after it.\<close>

definition after_wait :: "manager \<Rightarrow> (archive_error, 'a) result \<Rightarrow> ('a \<Rightarrow> manager \<times> (archive_error, 'b) result) \<Rightarrow>
     manager \<times> (archive_error, 'b) result" where
  "after_wait m r f = (case r of Inl err \<Rightarrow> (m, Inl err) | Inr a \<Rightarrow> f a)"

definition restore_archive ::
    "archive_env \<Rightarrow> manager \<Rightarrow> nat \<Rightarrow> string \<Rightarrow> borg_answer \<Rightarrow> manager \<Rightarrow> manager \<times> (archive_error, nat) result" where
  "restore_archive e m job_id name answer m' =
     after_wait m' (try_bind (load_job_with_connections e True (mg_db m) job_id) (\<lambda>_.
         try_bind (repository_archive_names (ax_lib e) answer) (\<lambda>names.
           if name \<in> set names then Inr () else Inl (Unknown_archives [name]))))
       (\<lambda>_. queued missing_or_bad (queue_job_action (ax_queue e) job_id (restore_request ''restore'') m'))"

text \<open>The first prefix of the first job that fits.\<close>

definition first_owner_prefix :: "job list \<Rightarrow> string \<Rightarrow> string option" where
  "first_owner_prefix jobs name = map_option fst (find (item_owns name) (prefix_items jobs))"

definition rename_checks ::
    "archive_env \<Rightarrow> manager_db \<Rightarrow> nat \<Rightarrow> archive_rename_in \<Rightarrow> borg_answer \<Rightarrow> (archive_error, unit) result" where
  "rename_checks e db job_id q answer =
     try_bind (load_job_with_connections e False db job_id) (\<lambda>(j, r).
     if archive_is_mounted db (rp_id r) (ar_archive q) then Inl Archive_mounted
     else try_bind (repository_archive_names (ax_lib e) answer) (\<lambda>names.
       if ar_archive q \<notin> set names then Inl (Unknown_archives [ar_archive q])
       else if ar_new_name q \<in> set names then Inl Name_exists
       else case first_owner_prefix (repository_jobs db (rp_id r)) (ar_archive q) of
         None \<Rightarrow> Inr ()
       | Some p \<Rightarrow> if p \<noteq> [] \<and> \<not> starts_with p (ar_new_name q) then Inl (Prefix_lost p) else Inr ()))"

definition rename_archive ::
    "archive_env \<Rightarrow> manager \<Rightarrow> nat \<Rightarrow> archive_rename_in \<Rightarrow> borg_answer \<Rightarrow> manager \<Rightarrow> manager \<times> (archive_error, nat) result" where
  "rename_archive e m job_id q answer m' =
     after_wait m' (rename_checks e (mg_db m) job_id q answer)
       (\<lambda>_. queued (\<lambda>_. 400) (queue_job_action (ax_queue e) job_id (restore_request ''rename-archive'') m'))"

definition owner_label :: "job option \<Rightarrow> string \<Rightarrow> string" where
  "owner_label owner name =
     (case owner of
        Some j \<Rightarrow> jb_name j
      | None \<Rightarrow> (let d = infer_archive_device name in if truthy d then or_empty d else name))"

text \<open>The job through which two archives are compared and the label of the run.\<close>

definition comparison :: "archive_env \<Rightarrow> manager_db \<Rightarrow> job \<Rightarrow> archive_diff_in \<Rightarrow> job \<times> string" where
  "comparison e db requested q =
     (let jobs = repository_jobs db (jb_repository_id requested);
          one = archive_owner_job (af_archive q) jobs; two = archive_owner_job (af_second_archive q) jobs;
          first_label = owner_label one (af_archive q); second_label = owner_label two (af_second_archive q) in
      (or_else one (or_else two requested),
       take 100 (if one \<noteq> None \<and> map_option jb_id one = map_option jb_id two then first_label
                 else first_label @ ax_arrow e @ second_label)))"

definition diff_archives ::
    "archive_env \<Rightarrow> manager \<Rightarrow> nat \<Rightarrow> archive_diff_in \<Rightarrow> borg_answer \<Rightarrow> manager \<Rightarrow> manager \<times> (archive_error, nat) result" where
  "diff_archives e m job_id q answer m' =
     (case load_job_with_connections e False (mg_db m) job_id of
        Inl err \<Rightarrow> (m', Inl err)
      | Inr (requested, r) \<Rightarrow>
          (case comparison e (mg_db m) requested q of (job, label) \<Rightarrow>
             after_wait m' (try_bind (repository_archive_names (ax_lib e) answer) (\<lambda>names.
                 let missing = filter (\<lambda>n. n \<notin> set names) [af_archive q, af_second_archive q] in
                 if missing \<noteq> [] then Inl (Unknown_archives missing) else Inr ()))
               (\<lambda>_. queued (\<lambda>_. 400) (queue_job_action (ax_queue e) (jb_id job)
                 ((restore_request ''diff-archives'')\<lparr>ar_label := Some label\<rparr>) m'))))"

section \<open>Deleting several archives\<close>

text \<open>What the caches know of the archives: the regular list first.\<close>

definition known_archive :: "archive_lib \<Rightarrow> archive_cache \<Rightarrow> nat \<Rightarrow> string \<Rightarrow> archive" where
  "known_archive lib c i name =
     (case find (\<lambda>a. archive_name lib a = name)
         (concat (map (\<lambda>k. case load_archive_cache lib i k c of None \<Rightarrow> [] | Some p \<Rightarrow> cached_archives p) [False, True])) of
        Some a \<Rightarrow> a | None \<Rightarrow> [(''name'', JStr name)])"

definition deletion_subject :: "archive_lib \<Rightarrow> repository \<Rightarrow> archive list \<Rightarrow> string" where
  "deletion_subject lib r selected =
     (let labels = map (\<lambda>a. py_strip (json_text (ba_json lib) (json_get ''device_name'' a))) selected;
          known = remdups (filter (\<lambda>l. l \<noteq> []) labels); unknown = list_ex (\<lambda>l. l = []) labels in
      if 1 < length selected \<and> (1 < length known \<or> known \<noteq> [] \<and> unknown) then ''Mehrere Ger'' @ CHR 0xE4 # ''te''
      else if length known = 1 \<and> \<not> unknown then ''Ger'' @ CHR 0xE4 # ''t: '' @ hd known
      else ''Repository: '' @ rp_name r)"

text \<open>The messages of \<open>queue_repository_action\<close>.\<close>

definition repository_error_text :: "queue_error \<Rightarrow> string" where
  "repository_error_text err =
     (case err of
        Repository_missing \<Rightarrow> ''Repository not found''
      | Repository_disabled \<Rightarrow> ''Repository ist deaktiviert''
      | Repository_uninitialized \<Rightarrow> ''Repository is not initialized''
      | Repository_unavailable \<Rightarrow> ''Verwaltetes Repository ist derzeit nicht verf'' @ CHR 0xFC #
          ''gbar; Mount pr'' @ CHR 0xFC # ''fen und Status erneut aktualisieren''
      | Repository_in_use \<Rightarrow> ''Repository hat eine wartende oder laufende Ausf'' @ CHR 0xFC # ''hrung''
      | Unsupported_action action \<Rightarrow> ''Unsupported repository action: '' @ action
      | Command_error msg \<Rightarrow> msg
      | _ \<Rightarrow> [])"

definition deletion_code :: "queue_error \<Rightarrow> int" where
  "deletion_code err =
     (if is_lookup err then 404 else if contains ''queued or running'' (repository_error_text err) then 409 else 400)"

definition mounted_names :: "manager_db \<Rightarrow> nat \<Rightarrow> string list \<Rightarrow> string list" where
  "mounted_names db i names = filter (archive_is_mounted db i) names"

text \<open>The request runs without a wait: the state of the inventory is also that of the queue.\<close>

definition delete_repository_archives ::
    "archive_env \<Rightarrow> inventory \<Rightarrow> archive_cache \<Rightarrow> nat \<Rightarrow> archive_bulk_delete_in \<Rightarrow> manager \<Rightarrow>
     manager \<times> (archive_error, nat \<times> string) result" where
  "delete_repository_archives e s c i q m =
     (case load_repository_with_access e s i of
        Inl err \<Rightarrow> (m, Inl err)
      | Inr r \<Rightarrow>
          let names = ab_archives q; db = iv_db s; lib = ax_lib e in
          if has_unfinished_repository db i then (m, Inl Repository_busy)
          else if mounted_names db i names \<noteq> [] then (m, Inl (Archives_mounted (sort (mounted_names db i names))))
          else (let selected = shown_archives e db i None (map (known_archive lib c i) names);
                    subject = deletion_subject lib r selected;
                    res = queued deletion_code (queue_repository_action (ax_queue e) i ''delete-archive'' names (Some subject) m) in
            (fst res, case snd res of Inl err \<Rightarrow> Inl err | Inr run \<Rightarrow> Inr (run, subject))))"

end
