(* ===== verification/MountLifecycle.thy ===== *)
theory MountLifecycle
  imports ArchiveAccess ArchiveMounts
begin

text \<open>
  Mounting an archive in the manager and taking it away again: the handlers of \<open>/api/archive-mounts\<close> in
  \<open>src/app/main.py\<close>, cut where they wait, with the kernel's mount table beside the database.
  A request in flight is an entry of the state. Whether the system lets a directory be removed is an answer of the
  environment; the directory of the repository above a mount directory is left out.
\<close>

section \<open>State\<close>

datatype post_phase = Mounting | Awaiting | Undoing

record mount_post =
  po_repository :: nat
  po_archive :: string
  po_path :: string
  po_row :: nat
  po_phase :: post_phase

datatype delete_phase = Unmount_running | Unmount_settling

record mount_delete =
  de_row :: nat
  de_path :: string
  de_phase :: delete_phase

text \<open>\<open>ms_live\<close> are the paths with a FUSE entry in the mount table, \<open>ms_dirs\<close> the mount directories.\<close>

record mount_state =
  ms_inv :: inventory
  ms_live :: "string list"
  ms_dirs :: "string list"
  ms_posts :: "(nat \<times> mount_post) list"
  ms_deletes :: "(nat \<times> mount_delete) list"

definition ms_rows :: "mount_state \<Rightarrow> archive_mount list" where
  "ms_rows s = db_mounts (iv_db (ms_inv s))"

definition set_rows :: "archive_mount list \<Rightarrow> mount_state \<Rightarrow> mount_state" where
  "set_rows rows s = s\<lparr>ms_inv := (ms_inv s)\<lparr>iv_db := (iv_db (ms_inv s))\<lparr>db_mounts := rows\<rparr>\<rparr>\<rparr>"

definition path_active :: "mount_state \<Rightarrow> string \<Rightarrow> bool" where
  "path_active s p = (p \<in> set (ms_live s))"

record mount_env =
  me_archive :: archive_env
  me_facts :: mount_facts
  me_base :: "path option"
  me_ascii :: "string \<Rightarrow> string"
  me_sha256 :: "string \<Rightarrow> string"
  me_rmdir :: "string \<Rightarrow> bool"

section \<open>Directories\<close>

text \<open>What \<open>prepare_archive_mount_path\<close> finds: the root, the directory of the repository and the target.\<close>

record prepare_facts =
  pf_root_dir :: bool
  pf_root_symlink :: bool
  pf_repository_symlink :: bool
  pf_repository_in_root :: bool
  pf_target_symlink :: bool
  pf_target_in_repository :: bool
  pf_readable :: bool
  pf_empty :: bool

datatype prepare_error =
  Root_unsafe | Outside_root | Repository_symlink | Repository_escaped | Target_symlink | Target_escaped
  | Target_unreadable | Target_not_empty

definition inside_root :: "mount_env \<Rightarrow> string \<Rightarrow> bool" where
  "inside_root e p = (case me_base e of None \<Rightarrow> False | Some b \<Rightarrow> path_within b (path_of_string p))"

definition prepare_archive_mount_path :: "mount_env \<Rightarrow> prepare_facts \<Rightarrow> bool \<Rightarrow> string \<Rightarrow> (prepare_error, string) result" where
  "prepare_archive_mount_path e f active p =
     (if \<not> pf_root_dir f \<or> pf_root_symlink f then Inl Root_unsafe
      else if \<not> inside_root e p then Inl Outside_root
      else if pf_repository_symlink f then Inl Repository_symlink
      else if \<not> pf_repository_in_root f then Inl Repository_escaped
      else if pf_target_symlink f then Inl Target_symlink
      else if \<not> pf_target_in_repository f then Inl Target_escaped
      else if \<not> pf_readable f then Inl Target_unreadable
      else if \<not> pf_empty f \<and> \<not> active then Inl Target_not_empty
      else Inr p)"

text \<open>An error of \<open>rmdir\<close> is swallowed and the directory stays.\<close>

definition cleanup_archive_mount_path :: "mount_env \<Rightarrow> string \<Rightarrow> mount_state \<Rightarrow> mount_state" where
  "cleanup_archive_mount_path e p s =
     (if \<not> inside_root e p \<or> path_active s p \<or> \<not> me_rmdir e p then s else s\<lparr>ms_dirs := removeAll p (ms_dirs s)\<rparr>)"

section \<open>Rows\<close>

definition stale_text :: string where
  "stale_text = ''Mount ist nicht mehr im Container aktiv. Eintrag kann entfernt werden.''"

definition set_status :: "string \<Rightarrow> string \<Rightarrow> archive_mount \<Rightarrow> archive_mount" where
  "set_status status err r = r\<lparr>am_status := status, am_error := err\<rparr>"

abbreviation get_mount where "get_mount s \<equiv> table_get am_id (ms_rows s)"

definition modify_mount :: "nat \<Rightarrow> (archive_mount \<Rightarrow> archive_mount) \<Rightarrow> mount_state \<Rightarrow> mount_state" where
  "modify_mount i f s = set_rows (table_modify am_id i f (ms_rows s)) s"

definition remove_mount :: "nat \<Rightarrow> mount_state \<Rightarrow> mount_state" where
  "remove_mount i s = set_rows (table_remove am_id i (ms_rows s)) s"

definition repository_mount_row :: "mount_state \<Rightarrow> nat \<Rightarrow> archive_mount option" where
  "repository_mount_row s i = find (\<lambda>r. am_repository_id r = i) (ms_rows s)"

text \<open>\<open>_active_manager_archive_mount\<close>: the row that keeps other commands from the repository; another row is marked.\<close>

definition active_manager_archive_mount :: "mount_state \<Rightarrow> nat \<Rightarrow> mount_state \<times> archive_mount option" where
  "active_manager_archive_mount s i =
     (case repository_mount_row s i of
        None \<Rightarrow> (s, None)
      | Some r \<Rightarrow>
          if am_status r = ''mounting'' \<or> path_active s (am_mount_path r) then (s, Some r)
          else (if am_status r \<noteq> ''stale'' then modify_mount (am_id r) (set_status ''stale'' stale_text) s else s, None))"

text \<open>The status the list shows.\<close>

definition shown_mount_status :: "mount_state \<Rightarrow> archive_mount \<Rightarrow> string" where
  "shown_mount_status s r =
     (if path_active s (am_mount_path r) \<and> am_status r \<notin> {''mounting'', ''unmounting'', ''error''} then ''mounted'' else am_status r)"

text \<open>\<open>recent\<close> tells of a row whether it changed less than 30 seconds ago.\<close>

definition listed_mount :: "(archive_mount \<Rightarrow> bool) \<Rightarrow> mount_state \<Rightarrow> archive_mount \<Rightarrow> archive_mount" where
  "listed_mount recent s r =
     (let active = path_active s (am_mount_path r);
          transition = am_status r \<in> {''mounting'', ''unmounting''} \<and> recent r in
      if active \<and> am_status r \<notin> {''mounted'', ''mounting'', ''unmounting'', ''error''} then set_status ''mounted'' [] r
      else if active \<and> am_status r = ''mounting'' \<and> \<not> transition then set_status ''mounted'' [] r
      else if \<not> active \<and> am_status r \<in> {''mounting'', ''mounted'', ''unmounting''} \<and> \<not> transition
      then set_status ''stale'' stale_text r
      else r)"

definition list_manager_archive_mounts :: "(archive_mount \<Rightarrow> bool) \<Rightarrow> mount_state \<Rightarrow> mount_state" where
  "list_manager_archive_mounts recent s = set_rows (map (listed_mount recent s) (ms_rows s)) s"

text \<open>At the start: every row without a mount goes.\<close>

definition reconcile_manager_archive_mounts :: "mount_env \<Rightarrow> mount_state \<Rightarrow> mount_state" where
  "reconcile_manager_archive_mounts e s =
     (let dead = filter (\<lambda>r. \<not> path_active s (am_mount_path r)) (ms_rows s);
          live = filter (\<lambda>r. path_active s (am_mount_path r)) (ms_rows s) in
      fold (\<lambda>r. cleanup_archive_mount_path e (am_mount_path r)) dead (set_rows (map (set_status ''mounted'' []) live) s))"

section \<open>Mounting\<close>

datatype mount_error =
    Capability_missing "mount_issue list" | Not_accessible archive_error | Not_managed | Run_in_progress
  | Other_archive_mounted string | Path_refused mount_path_error | Directory_refused prepare_error | Row_exists
  | Mount_failed int | Mount_not_active | Row_lost
  | No_such_mount | Already_unmounting | Unmount_timed_out | Unmount_failed int | Still_active

text \<open>What a step of a request answers; \<open>Pending\<close> while it waits.\<close>

datatype mount_answer = Pending | Mounted archive_mount | Mount_cancelled | Unmounted | Mount_refused mount_error

definition mount_admission :: "mount_env \<Rightarrow> mount_state \<Rightarrow> nat \<Rightarrow> (mount_error, repository) result" where
  "mount_admission e s i =
     (if capability_issues (me_facts e) \<noteq> [] then Inl (Capability_missing (capability_issues (me_facts e)))
      else case load_repository_with_access (me_archive e) (ms_inv s) i of
        Inl err \<Rightarrow> Inl (Not_accessible err)
      | Inr r \<Rightarrow>
          if \<not> truthy (rp_storage_path r) then Inl Not_managed
          else if has_unfinished_repository (iv_db (ms_inv s)) i then Inl Run_in_progress
          else Inr r)"

text \<open>
  The row of an earlier mount that is no longer active is dropped first, and that is committed even if
  the path is refused afterwards.
\<close>

definition drop_inactive :: "mount_env \<Rightarrow> archive_mount option \<Rightarrow> mount_state \<Rightarrow> mount_state" where
  "drop_inactive e row s =
     (case row of None \<Rightarrow> s | Some r \<Rightarrow> cleanup_archive_mount_path e (am_mount_path r) (remove_mount (am_id r) s))"

definition enter_mount ::
    "mount_env \<Rightarrow> prepare_facts \<Rightarrow> nat \<Rightarrow> repository \<Rightarrow> string \<Rightarrow> mount_state \<Rightarrow> mount_state \<times> mount_answer" where
  "enter_mount e f t r archive s =
     (case archive_mount_path (me_ascii e) (me_sha256 e) (me_base e) (int (rp_id r)) (rp_name r) archive of
        Inl err \<Rightarrow> (s, Mount_refused (Path_refused err))
      | Inr path \<Rightarrow>
          (let p = path_string path in
           case prepare_archive_mount_path e f (path_active s p) p of
             Inl err \<Rightarrow> (s, Mount_refused (Directory_refused err))
           | Inr p \<Rightarrow>
               (let s1 = s\<lparr>ms_dirs := List.insert p (ms_dirs s)\<rparr>; i = next_key am_id (ms_rows s) in
                if list_ex (\<lambda>a. am_repository_id a = rp_id r \<or> am_mount_path a = p) (ms_rows s)
                then (cleanup_archive_mount_path e p s1, Mount_refused Row_exists)
                else ((set_rows (table_insert (ms_rows s1)
                        \<lparr>am_id = i, am_repository_id = rp_id r, am_archive = archive, am_mount_path = p,
                          am_status = ''mounting'', am_error = []\<rparr>) s1)
                      \<lparr>ms_posts := dict_set t \<lparr>po_repository = rp_id r, po_archive = archive, po_path = p, po_row = i,
                          po_phase = Mounting\<rparr> (ms_posts s)\<rparr>, Pending))))"

definition create_manager_archive_mount ::
    "mount_env \<Rightarrow> prepare_facts \<Rightarrow> nat \<Rightarrow> nat \<Rightarrow> string \<Rightarrow> mount_state \<Rightarrow> mount_state \<times> mount_answer" where
  "create_manager_archive_mount e f t i archive s =
     (case mount_admission e s i of
        Inl err \<Rightarrow> (s, Mount_refused err)
      | Inr r \<Rightarrow>
          (case repository_mount_row s i of
             Some a \<Rightarrow>
               if path_active s (am_mount_path a)
               then (s, if am_archive a = archive then Mounted a else Mount_refused (Other_archive_mounted (am_archive a)))
               else enter_mount e f t r archive (drop_inactive e (Some a) s)
           | None \<Rightarrow> enter_mount e f t r archive s))"

definition end_post :: "nat \<Rightarrow> mount_state \<Rightarrow> mount_state" where
  "end_post t s = s\<lparr>ms_posts := dict_pop t (ms_posts s)\<rparr>"

definition post_phase_to :: "nat \<Rightarrow> mount_post \<Rightarrow> post_phase \<Rightarrow> mount_state \<Rightarrow> mount_state" where
  "post_phase_to t p phase s = s\<lparr>ms_posts := dict_set t (p\<lparr>po_phase := phase\<rparr>) (ms_posts s)\<rparr>"

text \<open>The handler's \<open>except\<close>: an active mount is taken away first, then the row goes whatever came of it.\<close>

definition finish_failed_post :: "mount_env \<Rightarrow> nat \<Rightarrow> mount_post \<Rightarrow> mount_state \<Rightarrow> mount_state" where
  "finish_failed_post e t p s = cleanup_archive_mount_path e (po_path p) (remove_mount (po_row p) (end_post t s))"

definition fail_post :: "mount_env \<Rightarrow> nat \<Rightarrow> mount_post \<Rightarrow> mount_error \<Rightarrow> mount_state \<Rightarrow> mount_state \<times> mount_answer" where
  "fail_post e t p err s =
     (if path_active s (po_path p) then (post_phase_to t p Undoing s, Pending)
      else (finish_failed_post e t p s, Mount_refused err))"

text \<open>One round of \<open>wait_for_archive_mount_activation\<close> with what the handler does with its answer.\<close>

definition poll_mount :: "mount_env \<Rightarrow> nat \<Rightarrow> mount_post \<Rightarrow> bool \<Rightarrow> mount_state \<Rightarrow> mount_state \<times> mount_answer" where
  "poll_mount e t p expired s =
     (case get_mount s (po_row p) of
        None \<Rightarrow> (end_post t s, Mount_cancelled)
      | Some r \<Rightarrow>
          if am_status r \<in> {''unmounting'', ''stale''} then (end_post t s, Mount_cancelled)
          else if path_active s (po_path p)
          then (modify_mount (po_row p) (set_status ''mounted'' []) (end_post t s), Mounted (set_status ''mounted'' [] r))
          else if expired then fail_post e t p Mount_not_active s
          else (post_phase_to t p Awaiting s, Pending))"

definition mount_command_done :: "mount_env \<Rightarrow> nat \<Rightarrow> mount_post \<Rightarrow> int \<Rightarrow> mount_state \<Rightarrow> mount_state \<times> mount_answer" where
  "mount_command_done e t p code s =
     (if code \<noteq> 0 then fail_post e t p (Mount_failed code) s else poll_mount e t p False s)"

section \<open>Taking a mount away\<close>

definition end_delete :: "nat \<Rightarrow> mount_state \<Rightarrow> mount_state" where
  "end_delete t s = s\<lparr>ms_deletes := dict_pop t (ms_deletes s)\<rparr>"

definition finish_delete :: "mount_env \<Rightarrow> nat \<Rightarrow> nat \<Rightarrow> string \<Rightarrow> mount_state \<Rightarrow> mount_state \<times> mount_answer" where
  "finish_delete e t i p s = (cleanup_archive_mount_path e p (remove_mount i (end_delete t s)), Unmounted)"

definition delete_manager_archive_mount :: "mount_env \<Rightarrow> nat \<Rightarrow> nat \<Rightarrow> mount_state \<Rightarrow> mount_state \<times> mount_answer" where
  "delete_manager_archive_mount e t i s =
     (case get_mount s i of
        None \<Rightarrow> (s, Mount_refused No_such_mount)
      | Some r \<Rightarrow>
          if am_status r = ''unmounting'' then (s, Mount_refused Already_unmounting)
          else (let s1 = modify_mount i (set_status ''unmounting'' []) s; p = am_mount_path r in
            if path_active s p
            then (s1\<lparr>ms_deletes := dict_set t \<lparr>de_row = i, de_path = p, de_phase = Unmount_running\<rparr> (ms_deletes s)\<rparr>, Pending)
            else finish_delete e t i p s1))"

text \<open>\<open>archive_unmount_incident\<close>: the row stays, with the error.\<close>

definition archive_unmount_incident :: "nat \<Rightarrow> nat \<Rightarrow> string \<Rightarrow> mount_error \<Rightarrow> mount_state \<Rightarrow> mount_state \<times> mount_answer" where
  "archive_unmount_incident t i message err s =
     (modify_mount i (set_status ''error'' message) (end_delete t s), Mount_refused err)"

text \<open>One round of \<open>wait_for_archive_mount_state\<close> for a mount that should be gone.\<close>

definition poll_unmount :: "mount_env \<Rightarrow> nat \<Rightarrow> mount_delete \<Rightarrow> bool \<Rightarrow> string \<Rightarrow> mount_state \<Rightarrow> mount_state \<times> mount_answer" where
  "poll_unmount e t d expired message s =
     (if \<not> path_active s (de_path d) then finish_delete e t (de_row d) (de_path d) s
      else if expired then archive_unmount_incident t (de_row d) message Still_active s
      else (s\<lparr>ms_deletes := dict_set t (d\<lparr>de_phase := Unmount_settling\<rparr>) (ms_deletes s)\<rparr>, Pending))"

text \<open>The result of the command; \<open>None\<close> when it took longer than the request may.\<close>

definition unmount_command_done ::
    "mount_env \<Rightarrow> nat \<Rightarrow> mount_delete \<Rightarrow> int option \<Rightarrow> string \<Rightarrow> mount_state \<Rightarrow> mount_state \<times> mount_answer" where
  "unmount_command_done e t d code message s =
     (case code of
        None \<Rightarrow> archive_unmount_incident t (de_row d) message Unmount_timed_out s
      | Some c \<Rightarrow>
          if c = 124 then archive_unmount_incident t (de_row d) message Unmount_timed_out s
          else if c \<noteq> 0 then archive_unmount_incident t (de_row d) message (Unmount_failed c) s
          else poll_unmount e t d False message s)"

end
