(* ===== verification/MountSystem.thy ===== *)
theory MountSystem
  imports MountLifecycle Systems
begin

text \<open>
  The mount handlers as a transition system. A step is one stretch of a handler between two waits, one
  pass of the list or of the check before a command, the deletion of a repository with its rows, or a change of
  the kernel's mount table: a mount appears while its request is in flight and its directory exists, and may go
  at any time. In the strict system no two requests on a repository overlap, a mount that failed after all could
  be taken away again, and no repository is deleted while one of its archives is mounted.
\<close>

section \<open>Steps\<close>

definition row_core :: "archive_mount \<Rightarrow> nat \<times> nat \<times> string" where
  "row_core r = (am_id r, am_repository_id r, am_mount_path r)"

definition cores :: "mount_state \<Rightarrow> (nat \<times> nat \<times> string) list" where
  "cores s = map row_core (ms_rows s)"

definition post_core :: "mount_post \<Rightarrow> nat \<times> nat \<times> string" where
  "post_core p = (po_row p, po_repository p, po_path p)"

definition delete_core :: "mount_delete \<Rightarrow> nat \<times> string" where
  "delete_core d = (de_row d, de_path d)"

definition post_claims :: "mount_state \<Rightarrow> (nat \<times> nat \<times> string) list" where
  "post_claims s = map (\<lambda>x. post_core (snd x)) (ms_posts s)"

definition delete_claims :: "mount_state \<Rightarrow> (nat \<times> string) list" where
  "delete_claims s = map (\<lambda>x. delete_core (snd x)) (ms_deletes s)"

text \<open>No request in flight has to do with the repository, by its post or by the row it deletes.\<close>

definition quiet :: "mount_state \<Rightarrow> nat \<Rightarrow> bool" where
  "quiet s i \<longleftrightarrow>
     list_all (\<lambda>(row, k, p). k \<noteq> i) (post_claims s) \<and>
     list_all (\<lambda>(row, p). list_all (\<lambda>(j, k, q). j = row \<longrightarrow> k \<noteq> i) (cores s)) (delete_claims s)"

definition row_repository :: "mount_state \<Rightarrow> nat \<Rightarrow> nat" where
  "row_repository s i = (case get_mount s i of None \<Rightarrow> 0 | Some r \<Rightarrow> am_repository_id r)"

text \<open>
  The check of \<open>delete_repository\<close> on mounts; the rows go with the repository (\<open>ON DELETE CASCADE\<close>). It does not see
  a mount that could not be taken away, whose row has the status \<open>error\<close> or still \<open>unmounting\<close>.
\<close>

definition deletion_allowed :: "mount_state \<Rightarrow> nat \<Rightarrow> bool" where
  "deletion_allowed s i \<longleftrightarrow>
     \<not> list_ex (\<lambda>r. am_repository_id r = i \<and> am_status r \<in> {''mounting'', ''mounted''}) (ms_rows s)"

definition repository_unmounted :: "mount_state \<Rightarrow> nat \<Rightarrow> bool" where
  "repository_unmounted s i \<longleftrightarrow> list_all (\<lambda>r. am_repository_id r = i \<longrightarrow> \<not> path_active s (am_mount_path r)) (ms_rows s)"

inductive mount_step :: "bool \<Rightarrow> mount_env \<Rightarrow> mount_state \<Rightarrow> mount_state \<Rightarrow> bool" for strict e where
  begin_mount: "map_of (ms_posts s) t = None \<Longrightarrow> strict \<longrightarrow> quiet s i \<Longrightarrow>
    mount_step strict e s (fst (create_manager_archive_mount e f t i archive s))"
| mount_done: "map_of (ms_posts s) t = Some p \<Longrightarrow> po_phase p = Mounting \<Longrightarrow>
    mount_step strict e s (fst (mount_command_done e t p code s))"
| poll: "map_of (ms_posts s) t = Some p \<Longrightarrow> po_phase p = Awaiting \<Longrightarrow>
    mount_step strict e s (fst (poll_mount e t p expired s))"
| undone: "map_of (ms_posts s) t = Some p \<Longrightarrow> po_phase p = Undoing \<Longrightarrow> strict \<longrightarrow> \<not> path_active s (po_path p) \<Longrightarrow>
    mount_step strict e s (finish_failed_post e t p s)"
| begin_delete: "map_of (ms_deletes s) t = None \<Longrightarrow> strict \<longrightarrow> quiet s (row_repository s i) \<Longrightarrow>
    mount_step strict e s (fst (delete_manager_archive_mount e t i s))"
| unmount_done: "map_of (ms_deletes s) t = Some d \<Longrightarrow> de_phase d = Unmount_running \<Longrightarrow>
    mount_step strict e s (fst (unmount_command_done e t d result message s))"
| unmount_poll: "map_of (ms_deletes s) t = Some d \<Longrightarrow> de_phase d = Unmount_settling \<Longrightarrow>
    mount_step strict e s (fst (poll_unmount e t d expired message s))"
| show_list: "mount_step strict e s (list_manager_archive_mounts recent s)"
| plan_scan: "(\<And>r. r \<in> set (ms_rows s) \<Longrightarrow>
      archive_mount_is_active (pe_mountinfo v) (am_mount_path r) = path_active s (am_mount_path r)) \<Longrightarrow>
    mount_step strict e s (set_rows (snd (scan_archive_mounts v (ms_rows s))) s)"
| check_repository: "mount_step strict e s (fst (active_manager_archive_mount s i))"
| appear: "map_of (ms_posts s) t = Some p \<Longrightarrow> po_path p \<in> set (ms_dirs s) \<Longrightarrow>
    mount_step strict e s (s\<lparr>ms_live := List.insert (po_path p) (ms_live s)\<rparr>)"
| vanish: "mount_step strict e s (s\<lparr>ms_live := filter P (ms_live s)\<rparr>)"
| delete_repository: "deletion_allowed s i \<Longrightarrow> strict \<longrightarrow> quiet s i \<and> repository_unmounted s i \<Longrightarrow>
    db_mounts (iv_db v) = filter (\<lambda>r. am_repository_id r \<noteq> i) (ms_rows s) \<Longrightarrow> mount_step strict e s (s\<lparr>ms_inv := v\<rparr>)"
| elsewhere: "db_mounts (iv_db v) = ms_rows s \<Longrightarrow> mount_step strict e s (s\<lparr>ms_inv := v\<rparr>)"

definition idle_mounts :: "mount_state \<Rightarrow> bool" where
  "idle_mounts s \<longleftrightarrow> ms_rows s = [] \<and> ms_live s = [] \<and> ms_posts s = [] \<and> ms_deletes s = []"

section \<open>The invariant\<close>

definition rows_ok :: "mount_state \<Rightarrow> bool" where
  "rows_ok s \<longleftrightarrow> distinct (map fst (cores s)) \<and> distinct (map (\<lambda>c. fst (snd c)) (cores s)) \<and>
     distinct (map (\<lambda>c. snd (snd c)) (cores s))"

definition mounts_owned :: "mount_state \<Rightarrow> bool" where
  "mounts_owned s \<longleftrightarrow>
     set (ms_live s) \<subseteq> (\<lambda>c. snd (snd c)) ` set (cores s) \<and> set (post_claims s) \<subseteq> set (cores s) \<and>
     (\<forall>(row, p) \<in> set (delete_claims s). \<exists>k. (row, k, p) \<in> set (cores s)) \<and>
     distinct (map fst (post_claims s) @ map fst (delete_claims s))"

definition mount_inv :: "bool \<Rightarrow> mount_state \<Rightarrow> bool" where
  "mount_inv strict s \<longleftrightarrow> rows_ok s \<and> (strict \<longrightarrow> mounts_owned s)"

subsection \<open>What the pieces change\<close>

lemma rows_simps [simp]:
  "ms_rows (set_rows rows s) = rows" "ms_live (set_rows rows s) = ms_live s" "ms_dirs (set_rows rows s) = ms_dirs s"
  "ms_posts (set_rows rows s) = ms_posts s" "ms_deletes (set_rows rows s) = ms_deletes s"
  "ms_rows (s\<lparr>ms_live := l\<rparr>) = ms_rows s" "ms_rows (s\<lparr>ms_dirs := d\<rparr>) = ms_rows s"
  "ms_rows (s\<lparr>ms_posts := ps\<rparr>) = ms_rows s" "ms_rows (s\<lparr>ms_deletes := ds\<rparr>) = ms_rows s"
  by (simp_all add: ms_rows_def set_rows_def)

lemma cleanup_simps [simp]:
  "ms_rows (cleanup_archive_mount_path e p s) = ms_rows s" "ms_live (cleanup_archive_mount_path e p s) = ms_live s"
  "ms_posts (cleanup_archive_mount_path e p s) = ms_posts s" "ms_deletes (cleanup_archive_mount_path e p s) = ms_deletes s"
  by (simp_all add: cleanup_archive_mount_path_def)

lemma core_status [simp]: "row_core (set_status x y r) = row_core r"
  by (simp add: row_core_def set_status_def)

lemma cores_modify [simp]: "cores (modify_mount i (set_status x y) s) = cores s"
  by (simp add: cores_def modify_mount_def table_modify_def)

lemma cores_remove: "cores (remove_mount i s) = filter (\<lambda>c. fst c \<noteq> i) (cores s)"
  by (simp add: cores_def remove_mount_def table_remove_def filter_map row_core_def comp_def)

lemma modify_simps [simp]:
  "ms_live (modify_mount i f s) = ms_live s" "ms_posts (modify_mount i f s) = ms_posts s"
  "ms_deletes (modify_mount i f s) = ms_deletes s" "ms_live (remove_mount i s) = ms_live s"
  "ms_posts (remove_mount i s) = ms_posts s" "ms_deletes (remove_mount i s) = ms_deletes s"
  by (simp_all add: modify_mount_def remove_mount_def)

lemma ended_simps [simp]:
  "ms_rows (end_post t s) = ms_rows s" "ms_live (end_post t s) = ms_live s" "ms_deletes (end_post t s) = ms_deletes s"
  "ms_rows (end_delete t s) = ms_rows s" "ms_live (end_delete t s) = ms_live s" "ms_posts (end_delete t s) = ms_posts s"
  "ms_rows (post_phase_to t p ph s) = ms_rows s" "ms_live (post_phase_to t p ph s) = ms_live s"
  "ms_deletes (post_phase_to t p ph s) = ms_deletes s"
  by (simp_all add: end_post_def end_delete_def post_phase_to_def)

lemma map_dict_set:
  "map_of d t = Some p \<Longrightarrow> f p' = f p \<Longrightarrow> map (\<lambda>x. f (snd x)) (dict_set t p' d) = map (\<lambda>x. f (snd x)) d"
  by (induction d) (auto split: if_splits)

lemma claims_phase [simp]:
  "map_of (ms_posts s) t = Some p \<Longrightarrow> post_claims (post_phase_to t p ph s) = post_claims s"
  unfolding post_claims_def post_phase_to_def by simp (rule map_dict_set, auto simp: post_core_def)

lemma claims_delete_phase:
  "map_of (ms_deletes s) t = Some d \<Longrightarrow>
   map (\<lambda>x. delete_core (snd x)) (dict_set t (d\<lparr>de_phase := ph\<rparr>) (ms_deletes s)) = delete_claims s"
  unfolding delete_claims_def by (rule map_dict_set) (auto simp: delete_core_def)

text \<open>Only the rows, the live mounts and the claims matter.\<close>

lemma inv_cong:
  assumes "mount_inv strict s" and "cores s' = cores s" and "set (ms_live s') \<subseteq> set (ms_live s)"
    and "post_claims s' = post_claims s" and "delete_claims s' = delete_claims s"
  shows "mount_inv strict s'"
  using assms unfolding mount_inv_def rows_ok_def mounts_owned_def by auto

lemma cores_cong: "ms_rows s' = ms_rows s \<Longrightarrow> cores s' = cores s"
  by (simp add: cores_def)

lemma claims_cong:
  "ms_posts s' = ms_posts s \<Longrightarrow> post_claims s' = post_claims s"
  "ms_deletes s' = ms_deletes s \<Longrightarrow> delete_claims s' = delete_claims s"
  by (simp_all add: post_claims_def delete_claims_def)

lemma inv_claims:
  assumes "mount_inv strict s" and "cores s' = cores s" and "set (ms_live s') \<subseteq> set (ms_live s)"
    and "set (post_claims s') \<subseteq> set (post_claims s)" and "set (delete_claims s') \<subseteq> set (delete_claims s)"
    and "strict \<Longrightarrow> distinct (map fst (post_claims s') @ map fst (delete_claims s'))"
  shows "mount_inv strict s'"
proof -
  have "rows_ok s'" using assms(1,2) by (simp add: mount_inv_def rows_ok_def)
  moreover have "mounts_owned s'" if strict
  proof -
    have o: "mounts_owned s" using assms(1) that by (simp add: mount_inv_def)
    show ?thesis unfolding mounts_owned_def assms(2)
    proof (intro conjI)
      show "set (ms_live s') \<subseteq> (\<lambda>c. snd (snd c)) ` set (cores s)" "set (post_claims s') \<subseteq> set (cores s)"
        using o assms(3,4) by (simp_all only: mounts_owned_def) blast+
      show "\<forall>(row, p) \<in> set (delete_claims s'). \<exists>k. (row, k, p) \<in> set (cores s)"
        using o assms(5) by (simp only: mounts_owned_def) blast
    qed (rule assms(6) [OF that])
  qed
  ultimately show ?thesis by (simp add: mount_inv_def)
qed

text \<open>A row goes when its path is not mounted and no other request has to do with it.\<close>

lemma inv_removed:
  assumes inv: "mount_inv strict s" and c: "cores s' = filter (\<lambda>c. fst c \<noteq> i) (cores s)"
    and live: "set (ms_live s') \<subseteq> set (ms_live s)"
    and p: "set (post_claims s') \<subseteq> set (post_claims s)" and d: "set (delete_claims s') \<subseteq> set (delete_claims s)"
    and dist: "strict \<Longrightarrow> distinct (map fst (post_claims s') @ map fst (delete_claims s'))"
    and free: "strict \<Longrightarrow> i \<notin> fst ` set (post_claims s') \<union> fst ` set (delete_claims s')"
    and gone: "\<And>k q. strict \<Longrightarrow> (i, k, q) \<in> set (cores s) \<Longrightarrow> q \<notin> set (ms_live s)"
  shows "mount_inv strict s'"
proof -
  have r: "rows_ok s" using inv by (simp add: mount_inv_def)
  then have "rows_ok s'" by (simp add: rows_ok_def c distinct_map_filter)
  moreover have "mounts_owned s'" if strict
  proof -
    have o: "mounts_owned s" using inv that by (simp add: mount_inv_def)
    have "set (ms_live s') \<subseteq> (\<lambda>c. snd (snd c)) ` set (cores s')"
    proof
      fix q assume q: "q \<in> set (ms_live s')"
      then have "q \<in> (\<lambda>c. snd (snd c)) ` set (cores s)" using o live by (simp only: mounts_owned_def) blast
      then obtain j k where jk: "(j, k, q) \<in> set (cores s)" by auto
      then have "j \<noteq> i" using gone [OF that] live q by blast
      then have "(j, k, q) \<in> set (cores s')" using jk by (simp add: c)
      then show "q \<in> (\<lambda>c. snd (snd c)) ` set (cores s')" by force
    qed
    moreover have "set (post_claims s') \<subseteq> set (cores s')"
    proof
      fix x assume x: "x \<in> set (post_claims s')"
      then have "x \<in> set (cores s)" using p o by (auto simp: mounts_owned_def)
      moreover have "fst x \<noteq> i" using free [OF that] x by force
      ultimately show "x \<in> set (cores s')" by (simp add: c)
    qed
    moreover have "\<forall>(row, q) \<in> set (delete_claims s'). \<exists>k. (row, k, q) \<in> set (cores s')"
    proof (intro ballI, clarify)
      fix row q assume x: "(row, q) \<in> set (delete_claims s')"
      then have "(row, q) \<in> set (delete_claims s)" using d by blast
      then obtain k where "(row, k, q) \<in> set (cores s)" using o unfolding mounts_owned_def by blast
      moreover have "row \<noteq> i" using free [OF that] x by force
      ultimately have "(row, k, q) \<in> set (cores s')" by (simp add: c)
      then show "\<exists>k. (row, k, q) \<in> set (cores s')" ..
    qed
    ultimately show ?thesis using dist [OF that] unfolding mounts_owned_def by blast
  qed
  ultimately show ?thesis by (simp add: mount_inv_def)
qed

lemma popped:
  assumes "map_of d t = Some p" and "distinct (map (\<lambda>x. f (snd x)) d)"
  shows "f p \<notin> (\<lambda>x. f (snd x)) ` set (dict_pop t d)" "distinct (map (\<lambda>x. f (snd x)) (dict_pop t d))"
proof -
  have inj: "inj_on (\<lambda>x. f (snd x)) (set d)" using assms(2) by (simp add: distinct_map)
  show "distinct (map (\<lambda>x. f (snd x)) (dict_pop t d))"
    using assms(2) by (simp add: dict_pop_def distinct_map_filter)
  show "f p \<notin> (\<lambda>x. f (snd x)) ` set (dict_pop t d)"
  proof
    assume "f p \<in> (\<lambda>x. f (snd x)) ` set (dict_pop t d)"
    then obtain x where x: "x \<in> set d" "fst x \<noteq> t" "f (snd x) = f p" by (auto simp: dict_pop_def)
    then have "x = (t, p)" using map_of_SomeD [OF assms(1)] inj_onD [OF inj, of x "(t, p)"] by simp
    then show False using x(2) by simp
  qed
qed

lemma set_dict_pop: "set (dict_pop t d) \<subseteq> set d"
  by (auto simp: dict_pop_def)

lemma end_post_claims:
  assumes "map_of (ms_posts s) t = Some p"
  shows "set (post_claims (end_post t s)) \<subseteq> set (post_claims s)" "post_core p \<in> set (post_claims s)"
    "distinct (map fst (post_claims s) @ X) \<Longrightarrow> distinct (map fst (post_claims (end_post t s)) @ X)"
    "distinct (map fst (post_claims s) @ X) \<Longrightarrow> po_row p \<notin> fst ` set (post_claims (end_post t s)) \<union> set X"
proof -
  show sub: "set (post_claims (end_post t s)) \<subseteq> set (post_claims s)"
    using set_dict_pop [of t "ms_posts s"] by (auto simp: post_claims_def end_post_def)
  show p: "post_core p \<in> set (post_claims s)"
    using map_of_SomeD [OF assms] by (force simp: post_claims_def)
  assume dist: "distinct (map fst (post_claims s) @ X)"
  then have d: "distinct (map (\<lambda>x. po_row (snd x)) (ms_posts s))"
    by (simp add: post_claims_def comp_def post_core_def)
  note pop = popped [OF assms d]
  have rows: "map fst (post_claims (end_post t s)) = map (\<lambda>x. po_row (snd x)) (dict_pop t (ms_posts s))"
    by (simp add: post_claims_def end_post_def comp_def post_core_def)
  show "distinct (map fst (post_claims (end_post t s)) @ X)"
    using dist pop(2) sub by (auto simp: rows [symmetric])
  have "po_row p \<in> set (map fst (post_claims s))" using p by (force simp: post_core_def)
  then have "po_row p \<notin> set X" using dist by auto
  moreover have "po_row p \<notin> set (map fst (post_claims (end_post t s)))" unfolding rows using pop(1) by simp
  ultimately show "po_row p \<notin> fst ` set (post_claims (end_post t s)) \<union> set X" by auto
qed

lemma end_delete_claims:
  assumes "map_of (ms_deletes s) t = Some d"
  shows "set (delete_claims (end_delete t s)) \<subseteq> set (delete_claims s)" "delete_core d \<in> set (delete_claims s)"
    "distinct (X @ map fst (delete_claims s)) \<Longrightarrow> distinct (X @ map fst (delete_claims (end_delete t s)))"
    "distinct (X @ map fst (delete_claims s)) \<Longrightarrow> de_row d \<notin> set X \<union> fst ` set (delete_claims (end_delete t s))"
proof -
  show sub: "set (delete_claims (end_delete t s)) \<subseteq> set (delete_claims s)"
    using set_dict_pop [of t "ms_deletes s"] by (auto simp: delete_claims_def end_delete_def)
  show p: "delete_core d \<in> set (delete_claims s)"
    using map_of_SomeD [OF assms] by (force simp: delete_claims_def)
  assume dist: "distinct (X @ map fst (delete_claims s))"
  then have d: "distinct (map (\<lambda>x. de_row (snd x)) (ms_deletes s))"
    by (simp add: delete_claims_def comp_def delete_core_def)
  note pop = popped [OF assms d]
  have rows: "map fst (delete_claims (end_delete t s)) = map (\<lambda>x. de_row (snd x)) (dict_pop t (ms_deletes s))"
    by (simp add: delete_claims_def end_delete_def comp_def delete_core_def)
  show "distinct (X @ map fst (delete_claims (end_delete t s)))"
    using dist pop(2) sub by (auto simp: rows [symmetric])
  have "de_row d \<in> set (map fst (delete_claims s))" using p by (force simp: delete_core_def)
  then have "de_row d \<notin> set X" using dist by auto
  moreover have "de_row d \<notin> set (map fst (delete_claims (end_delete t s)))" unfolding rows using pop(1) by simp
  ultimately show "de_row d \<notin> set X \<union> fst ` set (delete_claims (end_delete t s))" by auto
qed

subsection \<open>Every step keeps it\<close>

lemma end_post_cores [simp]: "cores (end_post t s) = cores s" "delete_claims (end_post t s) = delete_claims s"
  by (simp_all add: cores_def delete_claims_def)

lemma end_delete_cores [simp]: "cores (end_delete t s) = cores s" "post_claims (end_delete t s) = post_claims s"
  by (simp_all add: cores_def post_claims_def)

lemma modified_claims [simp]:
  "post_claims (modify_mount i f s) = post_claims s" "delete_claims (modify_mount i f s) = delete_claims s"
  "post_claims (remove_mount i s) = post_claims s" "delete_claims (remove_mount i s) = delete_claims s"
  "post_claims (cleanup_archive_mount_path e p s) = post_claims s"
  "delete_claims (cleanup_archive_mount_path e p s) = delete_claims s"
  "cores (cleanup_archive_mount_path e p s) = cores s"
  by (simp_all add: post_claims_def delete_claims_def cores_def)

lemma phase_cores [simp]:
  "cores (post_phase_to t p ph s) = cores s" "delete_claims (post_phase_to t p ph s) = delete_claims s"
  by (simp_all add: cores_def delete_claims_def)

lemma inv_phase:
  assumes "mount_inv strict s" and "map_of (ms_posts s) t = Some p"
  shows "mount_inv strict (post_phase_to t p ph s)"
  by (rule inv_cong [OF assms(1)]) (simp_all add: assms(2))

lemma inv_owned: "mount_inv strict s \<Longrightarrow> strict \<Longrightarrow> mounts_owned s"
  by (simp add: mount_inv_def)

lemma owned_distinct: "mounts_owned s \<Longrightarrow> distinct (map fst (post_claims s) @ map fst (delete_claims s))"
  by (simp add: mounts_owned_def)

lemma inv_end_post:
  assumes "mount_inv strict s" and "map_of (ms_posts s) t = Some p"
  shows "mount_inv strict (end_post t s)"
  by (rule inv_claims [OF assms(1)])
    (use end_post_claims(1) [OF assms(2)] end_post_claims(3) [OF assms(2) owned_distinct [OF inv_owned [OF assms(1)]]]
      in \<open>simp_all\<close>)

lemma core_unique: "rows_ok s \<Longrightarrow> (i, k, q) \<in> set (cores s) \<Longrightarrow> (i, k', q') \<in> set (cores s) \<Longrightarrow> k = k' \<and> q = q'"
  unfolding rows_ok_def using distinct_map_inj [of fst "cores s" "(i, k, q)" "(i, k', q')"] by simp

lemma inv_rows_ok: "mount_inv strict s \<Longrightarrow> rows_ok s"
  by (simp add: mount_inv_def)

lemma inv_finish_failed:
  assumes "mount_inv strict s" and "map_of (ms_posts s) t = Some p" and "strict \<Longrightarrow> \<not> path_active s (po_path p)"
  shows "mount_inv strict (finish_failed_post e t p s)"
proof (rule inv_removed [OF assms(1), where i = "po_row p"])
  note c = end_post_claims [OF assms(2)]
  note o = owned_distinct [OF inv_owned [OF assms(1)]]
  show "cores (finish_failed_post e t p s) = filter (\<lambda>c. fst c \<noteq> po_row p) (cores s)"
    by (simp add: finish_failed_post_def cores_remove)
  show "set (ms_live (finish_failed_post e t p s)) \<subseteq> set (ms_live s)"
    "set (delete_claims (finish_failed_post e t p s)) \<subseteq> set (delete_claims s)"
    "set (post_claims (finish_failed_post e t p s)) \<subseteq> set (post_claims s)"
    using c(1) by (simp_all add: finish_failed_post_def)
  show "distinct (map fst (post_claims (finish_failed_post e t p s)) @ map fst (delete_claims (finish_failed_post e t p s)))" if strict
    using c(3) [OF o [OF that]] by (simp add: finish_failed_post_def)
  show "po_row p \<notin> fst ` set (post_claims (finish_failed_post e t p s)) \<union> fst ` set (delete_claims (finish_failed_post e t p s))" if strict
    using c(4) [OF o [OF that]] by (simp add: finish_failed_post_def)
  fix k q assume strict "(po_row p, k, q) \<in> set (cores s)"
  moreover have "post_core p \<in> set (cores s)" using c(2) inv_owned [OF assms(1) \<open>strict\<close>] by (auto simp: mounts_owned_def)
  ultimately have "q = po_path p" using core_unique [OF inv_rows_ok [OF assms(1)]] unfolding post_core_def by blast
  then show "q \<notin> set (ms_live s)" using assms(3) [OF \<open>strict\<close>] by (simp add: path_active_def)
qed

lemma inv_fail:
  assumes "mount_inv strict s" and "map_of (ms_posts s) t = Some p"
  shows "mount_inv strict (fst (fail_post e t p err s))"
  using inv_phase [OF assms] inv_finish_failed [OF assms] by (simp add: fail_post_def)

lemma inv_poll:
  assumes "mount_inv strict s" and "map_of (ms_posts s) t = Some p"
  shows "mount_inv strict (fst (poll_mount e t p expired s))"
proof -
  have "mount_inv strict (modify_mount (po_row p) (set_status ''mounted'' []) (end_post t s))"
    by (rule inv_cong [OF inv_end_post [OF assms]]) simp_all
  then show ?thesis
    using inv_end_post [OF assms] inv_fail [OF assms] inv_phase [OF assms]
    by (simp add: poll_mount_def split: option.split)
qed

lemma inv_finish_delete:
  assumes "mount_inv strict s" and "strict \<Longrightarrow> \<not> path_active s q"
    and "strict \<Longrightarrow> \<exists>k. (i, k, q) \<in> set (cores s)"
    and "strict \<Longrightarrow> i \<notin> fst ` set (post_claims s) \<union> fst ` set (delete_claims (end_delete t s))"
    and "strict \<Longrightarrow> distinct (map fst (post_claims s) @ map fst (delete_claims (end_delete t s)))"
  shows "mount_inv strict (fst (finish_delete e t i q s))"
proof (rule inv_removed [OF assms(1), where i = i])
  show "set (delete_claims (fst (finish_delete e t i q s))) \<subseteq> set (delete_claims s)"
    using set_dict_pop [of t "ms_deletes s"] by (auto simp: finish_delete_def delete_claims_def end_delete_def)
  fix k q' assume strict "(i, k, q') \<in> set (cores s)"
  then have "q' = q" using assms(3) core_unique [OF inv_rows_ok [OF assms(1)]] by blast
  then show "q' \<notin> set (ms_live s)" using assms(2) [OF \<open>strict\<close>] by (simp add: path_active_def)
qed (use assms(4,5) in \<open>simp_all add: finish_delete_def cores_remove\<close>)

lemma inv_incident:
  assumes "mount_inv strict s" and "map_of (ms_deletes s) t = Some d"
  shows "mount_inv strict (fst (archive_unmount_incident t i message err s))"
  by (rule inv_claims [OF assms(1)])
    (use end_delete_claims(1) [OF assms(2)] end_delete_claims(3) [OF assms(2) owned_distinct [OF inv_owned [OF assms(1)]]]
      in \<open>simp_all add: archive_unmount_incident_def\<close>)

lemma inv_poll_unmount:
  assumes "mount_inv strict s" and "map_of (ms_deletes s) t = Some d"
  shows "mount_inv strict (fst (poll_unmount e t d expired message s))"
proof -
  note c = end_delete_claims [OF assms(2)]
  note o = inv_owned [OF assms(1)]
  have "mount_inv strict (fst (finish_delete e t (de_row d) (de_path d) s))" if "\<not> path_active s (de_path d)"
  proof (rule inv_finish_delete [OF assms(1)])
    show "\<exists>k. (de_row d, k, de_path d) \<in> set (cores s)" if strict
      using c(2) o [OF that] unfolding mounts_owned_def delete_core_def by blast
  qed (use that c(3) [OF owned_distinct [OF o]] c(4) [OF owned_distinct [OF o]] in \<open>simp_all\<close>)
  moreover have "mount_inv strict (s\<lparr>ms_deletes := dict_set t (d\<lparr>de_phase := Unmount_settling\<rparr>) (ms_deletes s)\<rparr>)"
    by (rule inv_cong [OF assms(1)])
      (simp_all add: cores_def post_claims_def delete_claims_def [of "s\<lparr>ms_deletes := _\<rparr>"] claims_delete_phase [OF assms(2)])
  ultimately show ?thesis using inv_incident [OF assms] by (simp add: poll_unmount_def)
qed

lemma inv_unmount_done:
  assumes "mount_inv strict s" and "map_of (ms_deletes s) t = Some d"
  shows "mount_inv strict (fst (unmount_command_done e t d result message s))"
  using inv_incident [OF assms] inv_poll_unmount [OF assms] by (simp add: unmount_command_done_def split: option.split)

end
