(* ===== verification/ArchiveBrowser.thy ===== *)
theory ArchiveBrowser
  imports ArchiveAccess
begin

text \<open>
  Looking into an archive: \<open>parse_archive_browser_listing\<close> of \<open>src/app/main.py\<close> turns the lines of
  \<open>borg list --json-lines\<close> into the entries of one directory.
\<close>

record browser_entry =
  be_name :: string
  be_path :: string
  be_type :: string
  be_size :: int
  be_mtime :: json
  be_target :: json
  be_mode :: "string option"
  be_user :: "string option"
  be_group :: "string option"
  be_uid :: json
  be_gid :: json

definition is_slash :: "char \<Rightarrow> bool" where
  "is_slash c = (c = CHR ''/'')"

definition listing_prefix :: "string \<Rightarrow> string" where
  "listing_prefix current = (let p = strip_by is_slash current in if p = [] then [] else p @ ''/'')"

definition entry_type :: "string \<Rightarrow> string \<Rightarrow> string" where
  "entry_type raw mode =
     (if raw \<in> {''directory'', ''dir''} then ''directory''
      else if raw \<in> {''symlink'', ''link''} then ''symlink''
      else if raw \<in> {''file'', ''regular''} then ''file''
      else let marker = (if raw \<noteq> [] then take 1 raw else take 1 mode) in
        if marker = ''d'' then ''directory'' else if marker = ''f'' then ''file'' else if marker = ''l'' then ''symlink''
        else ''other'')"

text \<open>\<open>str(v) if v is not None and v != "" else None\<close>.\<close>

definition shown_text :: "json_lib \<Rightarrow> json \<Rightarrow> string option" where
  "shown_text lib v = (case v of JNull \<Rightarrow> None | JStr s \<Rightarrow> if s = [] then None else Some s | _ \<Rightarrow> Some (jl_str lib v))"

definition or_null :: "json \<Rightarrow> json" where
  "or_null v = (if json_truthy v then v else JNull)"

definition browser_entry_of :: "json_lib \<Rightarrow> string \<Rightarrow> (string \<times> json) list \<Rightarrow> browser_entry option" where
  "browser_entry_of lib prefix item =
     (let p = strip_by is_slash (json_text lib (json_get ''path'' item)); name = drop (length prefix) p;
          raw = py_lower (py_strip (json_text lib (json_get ''type'' item)));
          mode = json_text lib (json_get ''mode'' item) in
      if p = [] \<or> \<not> starts_with prefix p \<or> name = [] \<or> CHR ''/'' \<in> set name then None
      else Some \<lparr>be_name = name, be_path = p, be_type = entry_type raw mode,
        be_size = max 0 (or_else (json_whole (json_get ''size'' item)) 0),
        be_mtime = json_or (json_get ''mtime'' item) (json_get ''isomtime'' item),
        be_target = or_null (json_or (json_get ''source'' item) (json_get ''linktarget'' item)),
        be_mode = (if py_strip mode = [] then None else Some (py_strip mode)),
        be_user = shown_text lib (json_get ''user'' item), be_group = shown_text lib (json_get ''group'' item),
        be_uid = json_get ''uid'' item, be_gid = json_get ''gid'' item\<rparr>)"

datatype browse_error = Bad_line | Not_an_object

fun browse_lines :: "json_lib \<Rightarrow> string \<Rightarrow> string list \<Rightarrow> (browse_error, browser_entry list) result" where
  "browse_lines lib prefix [] = Inr []"
| "browse_lines lib prefix (line # lines) =
     (if py_strip line = [] then browse_lines lib prefix lines
      else case jl_loads lib line of
        None \<Rightarrow> Inl Bad_line
      | Some (JObj item) \<Rightarrow>
          try_bind (browse_lines lib prefix lines) (\<lambda>entries.
            Inr (case browser_entry_of lib prefix item of None \<Rightarrow> entries | Some x \<Rightarrow> x # entries))
      | Some v \<Rightarrow> Inl Not_an_object)"

definition entry_key :: "browser_entry \<Rightarrow> bool \<times> string" where
  "entry_key x = (be_type x \<noteq> ''directory'', py_casefold (be_name x))"

definition parse_archive_browser_listing :: "json_lib \<Rightarrow> string \<Rightarrow> string \<Rightarrow> (browse_error, browser_entry list) result" where
  "parse_archive_browser_listing lib output current =
     try_bind (browse_lines lib (listing_prefix current) (py_splitlines output)) (\<lambda>entries.
       Inr (sort_key entry_key entries))"

definition browser_parent :: "string \<Rightarrow> string option" where
  "browser_parent path =
     (let current = strip_by is_slash path in
      if current = [] then None else Some (join_with ''/'' (butlast (split_on (CHR ''/'') current))))"

definition browse_archive :: "json_lib \<Rightarrow> borg_answer \<Rightarrow> string \<Rightarrow>
     (archive_error, string \<times> string option \<times> browser_entry list) result" where
  "browse_archive lib a path =
     (case a of (code, out, err) \<Rightarrow>
        if code \<notin> {0, 1} then Inl Borg_refused
        else case parse_archive_browser_listing lib out path of
          Inl Bad_line \<Rightarrow> Inl Listing_refused
        | Inl Not_an_object \<Rightarrow> Inl Server_error
        | Inr entries \<Rightarrow> Inr (strip_by is_slash path, browser_parent path, entries))"

section \<open>Facts\<close>

lemma browse_lines_entries:
  "browse_lines lib prefix lines = Inr entries \<Longrightarrow>
   x \<in> set entries \<longleftrightarrow> (\<exists>line \<in> set lines. \<exists>item. py_strip line \<noteq> [] \<and> jl_loads lib line = Some (JObj item) \<and>
     browser_entry_of lib prefix item = Some x)"
proof (induction lines arbitrary: entries)
  case (Cons line lines)
  show ?case
  proof (cases "py_strip line = []")
    case True
    then show ?thesis using Cons by simp
  next
    case False
    obtain item where i: "jl_loads lib line = Some (JObj item)"
      using Cons.prems False by (auto split: option.splits json.splits)
    obtain rest where r: "browse_lines lib prefix lines = Inr rest"
      using Cons.prems False i by (auto simp: try_bind_Inr_iff)
    have "entries = (case browser_entry_of lib prefix item of None \<Rightarrow> rest | Some x \<Rightarrow> x # rest)"
      using Cons.prems False i r by simp
    then show ?thesis using Cons.IH [OF r] False i by (auto split: option.splits)
  qed
qed simp

lemma entry_place:
  assumes "browser_entry_of lib prefix item = Some x"
  shows "be_path x = prefix @ be_name x" "be_name x \<noteq> []" "CHR ''/'' \<notin> set (be_name x)" "0 \<le> be_size x"
proof -
  have p: "starts_with prefix (be_path x)" "be_name x = drop (length prefix) (be_path x)"
    "be_name x \<noteq> []" "CHR ''/'' \<notin> set (be_name x)" "0 \<le> be_size x"
    using assms by (auto simp: browser_entry_of_def Let_def split: if_splits)
  then show "be_name x \<noteq> []" "CHR ''/'' \<notin> set (be_name x)" "0 \<le> be_size x" by simp_all
  show "be_path x = prefix @ be_name x"
    using p(1,2) by (metis append_take_drop_id starts_with_def)
qed

text \<open>The entries are the direct children of the directory, directories first, then by name.\<close>

lemma browser_shows_children:
  assumes "parse_archive_browser_listing lib output current = Inr entries"
  shows "sorted (map entry_key entries)"
    "x \<in> set entries \<Longrightarrow> be_path x = listing_prefix current @ be_name x \<and> be_name x \<noteq> [] \<and> CHR ''/'' \<notin> set (be_name x) \<and> 0 \<le> be_size x"
    "line \<in> set (py_splitlines output) \<Longrightarrow> py_strip line \<noteq> [] \<Longrightarrow> jl_loads lib line = Some (JObj item) \<Longrightarrow>
      browser_entry_of lib (listing_prefix current) item = Some x \<Longrightarrow> x \<in> set entries"
proof -
  obtain raw where raw: "browse_lines lib (listing_prefix current) (py_splitlines output) = Inr raw"
    and e: "entries = sort_key entry_key raw"
    using assms by (auto simp: parse_archive_browser_listing_def try_bind_Inr_iff)
  show "sorted (map entry_key entries)" by (simp add: e)
  show "be_path x = listing_prefix current @ be_name x \<and> be_name x \<noteq> [] \<and> CHR ''/'' \<notin> set (be_name x) \<and> 0 \<le> be_size x"
    if "x \<in> set entries"
    using that browse_lines_entries [OF raw, of x] entry_place by (auto simp: e)
  show "x \<in> set entries" if "line \<in> set (py_splitlines output)" "py_strip line \<noteq> []" "jl_loads lib line = Some (JObj item)"
      "browser_entry_of lib (listing_prefix current) item = Some x"
    using that browse_lines_entries [OF raw, of x] by (auto simp: e)
qed

end
