(* ===== verification/ArchiveProperties.thy ===== *)
theory ArchiveProperties
  imports ArchiveBrowser "HOL-Library.Multiset"
begin

text \<open>What the lists of archives, renaming and deleting promise.\<close>

section \<open>A repository with two archives\<close>

definition demo_name :: "string \<Rightarrow> json" where
  "demo_name n = JObj [(''name'', JStr n)]"

definition demo_listing :: json where
  "demo_listing = JObj [(''archives'', JList [demo_name ''bbm-1-a'', demo_name ''foreign''])]"

definition demo_payload :: json where
  "demo_payload = JObj [(''version'', JInt 1), (''repository_id'', JInt 1), (''consider_checkpoints'', JBool False),
     (''data'', demo_listing)]"

definition demo_archive_env :: archive_env where
  "demo_archive_env =
     \<lparr>ax_queue = ready_env,
      ax_lib = \<lparr>ba_json = \<lparr>jl_loads = (\<lambda>s. if s = ''list'' @ [newline] then Some demo_listing
           else if s = ''cache'' then Some demo_payload else None), jl_str = (\<lambda>_. [])\<rparr>,
        ba_raw = (\<lambda>_. None), ba_parse = (\<lambda>_. None), ba_iso = (\<lambda>_. None)\<rparr>,
      ax_url = plain_url_env, ax_fold = py_casefold, ax_dumps = (\<lambda>_. []), ax_arrow = '' - ''\<rparr>"

definition demo_cache :: archive_cache where
  "demo_cache = [((1, False), ''cache'')]"

definition demo_archive_inventory :: inventory where
  "demo_archive_inventory = \<lparr>iv_db = mg_db ready_manager, iv_reserved = [], iv_vault = [], iv_cached = [], iv_keys = [],
     iv_timers = [], iv_actions = []\<rparr>"

definition demo_rename :: archive_rename_in where
  "demo_rename = \<lparr>ar_archive = ''bbm-1-a'', ar_new_name = ''bbm-1-b''\<rparr>"

section \<open>The owner in a list\<close>

lemma archive_name_dict_set [simp]: "k \<noteq> ''name'' \<Longrightarrow> archive_name lib (dict_set k v a) = archive_name lib a"
  by (simp add: archive_name_def)

lemma archive_name_update: "''name'' \<notin> fst ` set kvs \<Longrightarrow> archive_name lib (dict_update kvs a) = archive_name lib a"
  by (induction kvs a rule: dict_update.induct) auto

lemma update_keeps: "k \<notin> fst ` set kvs \<Longrightarrow> json_get k (dict_update kvs a) = json_get k a"
  by (induction kvs a rule: dict_update.induct) auto

lemma assign_name: "archive_name lib (assign_owner lib db ps selected a) = archive_name lib a"
  unfolding assign_owner_def by (rule archive_name_update) (auto simp: owner_fields_def split: option.splits)

lemma resolve_keeps:
  "archive_name lib (resolve_archive_device lib nf db jobs a) = archive_name lib a"
  "json_get ''job_id'' (resolve_archive_device lib nf db jobs a) = json_get ''job_id'' a"
  by (auto simp: resolve_archive_device_def archive_name_update split: option.split list.split)

lemma annotate_keeps:
  "x \<in> set (annotate_archive_devices lib archives) \<Longrightarrow>
   \<exists>a \<in> set archives. archive_name lib x = archive_name lib a \<and> json_get ''job_id'' x = json_get ''job_id'' a"
  by (force simp: annotate_archive_devices_def)

definition owner_id :: "string \<Rightarrow> job list \<Rightarrow> json" where
  "owner_id name jobs = (case archive_owner_job name jobs of None \<Rightarrow> JNull | Some j \<Rightarrow> int_json (jb_id j))"

lemma shown_owner:
  assumes "x \<in> set (shown_archives e db i selected archives)"
  shows "json_get ''job_id'' x = owner_id (archive_name (ax_lib e) x) (repository_jobs db i)"
    "archive_name (ax_lib e) x \<in> archive_name (ax_lib e) ` set archives"
proof -
  let ?lib = "ax_lib e" and ?jobs = "repository_jobs db i"
  obtain y where y: "x = resolve_archive_device ?lib (ax_fold e) db ?jobs y"
    and yin: "y \<in> set (annotate_archive_devices ?lib (assign_archive_owners ?lib db archives ?jobs selected))"
    using assms by (auto simp: shown_archives_def Let_def resolve_archive_devices_def)
  obtain z where z: "z \<in> set (assign_archive_owners ?lib db archives ?jobs selected)"
    "archive_name ?lib y = archive_name ?lib z" "json_get ''job_id'' y = json_get ''job_id'' z"
    using annotate_keeps [OF yin] by blast
  obtain a where a: "a \<in> set archives" "z = assign_owner ?lib db (sort_reverse item_length (prefix_items ?jobs)) selected a"
    using z(1) by (auto simp: assign_archive_owners_def)
  have n: "archive_name ?lib x = archive_name ?lib a" by (simp add: y resolve_keeps z(2) a(2) assign_name)
  then show "archive_name ?lib x \<in> archive_name ?lib ` set archives" using a(1) by blast
  show "json_get ''job_id'' x = owner_id (archive_name ?lib x) ?jobs"
    unfolding n by (simp add: y resolve_keeps z(3) a(2) assigned_owner owner_id_def split: option.split)
qed

lemma shown_names:
  "map (archive_name (ax_lib e)) (shown_archives e db i selected archives) = map (archive_name (ax_lib e)) archives"
  by (simp add: shown_archives_def Let_def resolve_archive_devices_def annotate_archive_devices_def assign_archive_owners_def
      resolve_keeps assign_name comp_def)

lemma mset_sort_reverse: "mset (sort_reverse key xs) = mset xs"
  by (simp add: sort_reverse_def)

text \<open>
  C19: the list of a repository and the comparison of two archives agree on who owns an archive: the
  job id shown for an archive in the list is that of \<open>archive_owner_job\<close>, and the list shows exactly
  the archives of the cache, the newest first: each name as often as the cache has it.
\<close>

theorem list_and_lookup_agree:
  assumes "list_repository_archives e s c i checkpoints refresh = Inr (shown, stats, stamp)"
    and "load_archive_cache (ax_lib e) i checkpoints c = Some payload"
  shows "(\<forall>x \<in> set shown. json_get ''job_id'' x = owner_id (archive_name (ax_lib e) x) (repository_jobs (iv_db s) i)) \<and>
    map (archive_name (ax_lib e)) shown =
      map (archive_name (ax_lib e)) (sort_archives_newest_first (ax_lib e) (cached_archives payload)) \<and>
    mset (map (archive_name (ax_lib e)) shown) = mset (map (archive_name (ax_lib e)) (cached_archives payload))"
proof -
  have s: "shown = shown_archives e (iv_db s) i None (sort_archives_newest_first (ax_lib e) (cached_archives payload))"
    using assms by (auto simp: list_repository_archives_def repository_archive_dataset_def try_bind_Inr_iff split: if_splits)
  then show ?thesis
    using shown_owner(1) by (auto simp: shown_names sort_archives_newest_first_def mset_sort_reverse)
qed

theorem list_and_lookup_agree_witness:
  "\<exists>shown stats stamp. list_repository_archives demo_archive_env demo_archive_inventory demo_cache 1 False False = Inr (shown, stats, stamp) \<and>
     set (map (archive_name (ax_lib demo_archive_env)) shown) = {''bbm-1-a'', ''foreign''} \<and> (\<forall>x \<in> set shown. json_get ''job_id'' x = owner_id (archive_name (ax_lib demo_archive_env) x)
       (repository_jobs (iv_db demo_archive_inventory) 1))"
proof -
  have c: "load_archive_cache (ax_lib demo_archive_env) 1 False demo_cache = Some (obj_fields demo_payload)"
    "map (archive_name (ax_lib demo_archive_env)) (cached_archives (obj_fields demo_payload)) = [''bbm-1-a'', ''foreign'']"
    by (simp_all add: load_archive_cache_def demo_cache_def demo_archive_env_def demo_payload_def valid_payload_def
        json_get_def or_else_def demo_listing_def demo_name_def cached_archives_def archive_name_def json_text_def)
  have "is_Inr (list_repository_archives demo_archive_env demo_archive_inventory demo_cache 1 False False)" by code_simp
  then obtain shown stats stamp
    where l: "list_repository_archives demo_archive_env demo_archive_inventory demo_cache 1 False False = Inr (shown, stats, stamp)"
    by (auto simp: is_Inr_iff)
  note agree = list_and_lookup_agree [OF l c(1)]
  have "mset (map (archive_name (ax_lib demo_archive_env)) shown) = mset [''bbm-1-a'', ''foreign'']"
    using agree unfolding c(2) by (elim conjE)
  then have "set (map (archive_name (ax_lib demo_archive_env)) shown) = set [''bbm-1-a'', ''foreign'']" by (rule mset_eq_setD)
  moreover have "\<forall>x \<in> set shown. json_get ''job_id'' x = owner_id (archive_name (ax_lib demo_archive_env) x)
       (repository_jobs (iv_db demo_archive_inventory) 1)" using agree by (elim conjE)
  ultimately show ?thesis using l unfolding list.set by blast
qed

section \<open>Renaming\<close>

lemma load_job_Inr:
  assumes "load_job_with_connections e client db i = Inr (j, r)"
  shows "get_job db i = Some j" "get_repository db (jb_repository_id j) = Some r" "rp_enabled r"
    "truthy (rp_storage_path r) \<Longrightarrow> rp_initialized r \<and> present (ax_queue e) r"
    "truthy (rp_storage_path r) \<Longrightarrow> client \<Longrightarrow> access_key_of db (jb_host_id j) (rp_id r)"
  using assms by (auto simp: load_job_with_connections_def split: option.splits if_splits)

lemma after_wait_Inr: "after_wait m r f = (m', Inr x) \<longleftrightarrow> (\<exists>a. r = Inr a \<and> f a = (m', Inr x))"
  by (cases r) (auto simp: after_wait_def)

lemma rename_checks_Inr:
  assumes "rename_checks e db job_id q answer = Inr u" and "get_job db job_id = Some j"
  shows "\<not> archive_is_mounted db (jb_repository_id j) (ar_archive q)"
    "\<exists>names. repository_archive_names (ax_lib e) answer = Inr names \<and> ar_archive q \<in> set names \<and> ar_new_name q \<notin> set names"
    "first_owner_prefix (repository_jobs db (jb_repository_id j)) (ar_archive q) = Some p \<Longrightarrow> starts_with p (ar_new_name q)"
proof -
  obtain r where l: "load_job_with_connections e False db job_id = Inr (j, r)"
    using assms load_job_Inr(1) by (fastforce simp: rename_checks_def try_bind_Inr_iff)
  then have r: "rp_id r = jb_repository_id j" using load_job_Inr(2) by (blast dest: table_get_SomeD)
  show "\<not> archive_is_mounted db (jb_repository_id j) (ar_archive q)"
    "\<exists>names. repository_archive_names (ax_lib e) answer = Inr names \<and> ar_archive q \<in> set names \<and> ar_new_name q \<notin> set names"
    using assms(1) by (auto simp: rename_checks_def try_bind_Inr_iff l r split: if_splits option.splits)
  show "starts_with p (ar_new_name q)"
    if "first_owner_prefix (repository_jobs db (jb_repository_id j)) (ar_archive q) = Some p"
    using assms(1) that by (auto simp: rename_checks_def try_bind_Inr_iff l r starts_with_def split: if_splits option.splits)
qed

lemma first_prefix_owner:
  assumes "\<forall>k \<in> set jobs. default_series k" and "distinct (map jb_id jobs)" and "archive_owner_job name jobs = Some j"
  shows "first_owner_prefix jobs name = Some (job_archive_prefix j)"
proof -
  have j: "j \<in> set jobs" "starts_with (job_archive_prefix j) name"
    using owner_facts [OF assms(3)] assms(1) by (auto simp: default_prefixes)
  then have "(job_archive_prefix j, j) \<in> set (prefix_items jobs)"
    using assms(1) by (force simp: prefix_items_def default_prefixes)
  then have "find (item_owns name) (prefix_items jobs) \<noteq> None" using j(2) by (auto simp: find_None_iff item_owns_def)
  then obtain p k where f: "find (item_owns name) (prefix_items jobs) = Some (p, k)" by auto
  have k: "k \<in> set jobs" "p \<in> set (job_archive_prefixes k)" "starts_with p name"
    using find_SomeD [OF f] by (auto simp: prefix_items_def item_owns_def)
  then have "p = job_archive_prefix k" using assms(1) by (simp add: default_prefixes)
  moreover have "jb_id k = jb_id j"
    using k j assms(1) calculation default_owner_iff [of k j name] by auto
  then have "k = j" using k(1) j(1) assms(2) distinct_map_inj by metis
  ultimately show ?thesis using f by (simp add: first_owner_prefix_def)
qed

text \<open>
  C20: when the jobs of a repository have unique numbers, the prefixes the program gives to new jobs and no earlier
  ones, renaming an archive of a job never moves it to another job and never covers another archive: an accepted
  request names an archive Borg listed, that is not mounted, with a new name Borg did not list, and the owner of
  the new name is the owner of the old one. With other prefixes the owner may change, see
  \<open>rename_can_change_the_owner\<close>.
\<close>

theorem rename_keeps_the_owner:
  assumes "rename_archive e m job_id q answer m' = (m'', Inr run_id)" and "get_job (mg_db m) job_id = Some j"
    and "\<forall>k \<in> set (repository_jobs (mg_db m) (jb_repository_id j)). default_series k"
    and "unique_keys jb_id (db_jobs (mg_db m))"
    and "archive_owner_job (ar_archive q) (repository_jobs (mg_db m) (jb_repository_id j)) = Some k"
  shows "archive_owner_job (ar_new_name q) (repository_jobs (mg_db m) (jb_repository_id j)) = Some k \<and>
    \<not> archive_is_mounted (mg_db m) (jb_repository_id j) (ar_archive q) \<and>
    (\<exists>names. repository_archive_names (ax_lib e) answer = Inr names \<and> ar_archive q \<in> set names \<and> ar_new_name q \<notin> set names)"
proof -
  let ?jobs = "repository_jobs (mg_db m) (jb_repository_id j)"
  obtain u where "rename_checks e (mg_db m) job_id q answer = Inr u"
    using assms(1) by (auto simp: rename_archive_def after_wait_Inr)
  note checked = rename_checks_Inr [OF this assms(2)]
  have d: "distinct (map jb_id ?jobs)"
    using assms(4) by (simp add: unique_keys_def repository_jobs_def distinct_map_filter)
  have "starts_with (job_archive_prefix k) (ar_new_name q)"
    using checked(3) first_prefix_owner [OF assms(3) d assms(5)] by simp
  then have "archive_owner_job (ar_new_name q) ?jobs = Some k"
    using default_owner [OF assms(3) d] owner_facts(1) [OF assms(5)] by blast
  then show ?thesis using checked(1,2) by blast
qed

lemma demo_names: "repository_archive_names (ax_lib demo_archive_env) (0, ''list'', []) = Inr [''foreign'', ''bbm-1-a'']"
  by code_simp

theorem rename_keeps_the_owner_witness:
  "archive_owner_job ''bbm-1-b'' (repository_jobs (mg_db ready_manager) 1) = Some sample_job"
proof -
  have "is_Inr (snd (rename_archive demo_archive_env ready_manager 1 demo_rename (0, ''list'', []) ready_manager))" by code_simp
  then obtain m run where r: "rename_archive demo_archive_env ready_manager 1 demo_rename (0, ''list'', []) ready_manager = (m, Inr run)"
    by (cases "rename_archive demo_archive_env ready_manager 1 demo_rename (0, ''list'', []) ready_manager") (auto simp: is_Inr_iff)
  have j: "get_job (mg_db ready_manager) 1 = Some sample_job" "repository_jobs (mg_db ready_manager) 1 = [sample_job]"
    "archive_owner_job ''bbm-1-a'' [sample_job] = Some sample_job" "unique_keys jb_id (db_jobs (mg_db ready_manager))"
    "jb_repository_id sample_job = 1" by code_simp+
  have "default_series sample_job" by (simp add: default_series_def sample_job_def)
  then show ?thesis using rename_keeps_the_owner [OF r j(1)] j by (simp add: demo_rename_def)
qed

text \<open>
  The check of a rename keeps the first prefix that fits, but the owner is found by the longest one: an archive of
  the second job here may be given a name of the first.
\<close>

definition outer_job :: job where
  "outer_job = sample_job\<lparr>jb_archive_prefix := Some ''srv-''\<rparr>"

definition inner_job :: job where
  "inner_job = sample_job\<lparr>jb_id := 2, jb_archive_prefix := Some ''srv-db-''\<rparr>"

lemma rename_can_change_the_owner:
  "archive_owner_job ''srv-db-1'' [outer_job, inner_job] = Some inner_job"
  "first_owner_prefix [outer_job, inner_job] ''srv-db-1'' = Some ''srv-''"
  "archive_owner_job ''srv-1'' [outer_job, inner_job] = Some outer_job"
  by code_simp+

section \<open>Deleting\<close>

lemma load_repository_Inr:
  assumes "load_repository_with_access e s i = Inr r"
  shows "get_repository (iv_db s) i = Some r" "rp_enabled r" "rp_initialized r"
    "truthy (rp_storage_path r) \<Longrightarrow> present (ax_queue e) r"
  using assms by (auto simp: load_repository_with_access_def Let_def try_bind_Inr_iff split: option.splits if_splits)

lemma mounted_names_empty: "mounted_names db i names = [] \<longleftrightarrow> (\<forall>n \<in> set names. \<not> archive_is_mounted db i n)"
  by (simp add: mounted_names_def filter_empty_conv)

text \<open>
  C21: archives are only deleted when nothing else is going on: an accepted request finds the repository
  enabled, initialised and, if the manager holds it, present, without a queued or running run and with
  none of the archives mounted or being mounted; it adds exactly one run, queued, of this repository.
\<close>

theorem deletion_only_when_idle:
  assumes "delete_repository_archives e s c i q m = (m', Inr (run_id, subject))" and "iv_db s = mg_db m"
  shows "\<exists>r run. get_repository (mg_db m) i = Some r \<and> rp_enabled r \<and> rp_initialized r \<and>
      (rp_storage_path r \<in> {None, Some []} \<or> present (ax_queue e) r) \<and>
      db_runs (mg_db m') = db_runs (mg_db m) @ [run] \<and> rn_id run = run_id \<and> rn_action run = ''delete-archive'' \<and>
      rn_repository_id run = Some i \<and> rn_status run = Queued \<and>
      list_all (\<lambda>n. \<not> archive_is_mounted (mg_db m) i n) (ab_archives q) \<and> \<not> has_unfinished_repository (mg_db m) i"
proof -
  obtain r where l: "load_repository_with_access e s i = Inr r"
    using assms(1) by (auto simp: delete_repository_archives_def split: sum.splits)
  have ok: "\<not> has_unfinished_repository (mg_db m) i" "mounted_names (mg_db m) i (ab_archives q) = []"
    using assms by (auto simp: delete_repository_archives_def l Let_def split: if_splits)
  then have free: "list_all (\<lambda>n. \<not> archive_is_mounted (mg_db m) i n) (ab_archives q)" "\<not> has_unfinished_repository (mg_db m) i"
    by (simp_all add: mounted_names_empty list_all_iff)
  have res: "queue_repository_action (ax_queue e) i ''delete-archive'' (ab_archives q) (Some subject) m = (m', Inr run_id)"
    using assms ok
    by (auto simp: delete_repository_archives_def l Let_def queued_def prod_eq_iff split: sum.splits if_splits)
  obtain r' where r': "repository_checks (ax_queue e) i True (mg_db m) = Inr r'"
    using res by (auto simp: queue_repository_action_def try_bind_Inr_iff split: sum.splits)
  have "r' = r" using repository_checks_Inr(1) [OF r'] load_repository_Inr(1) [OF l] assms(2) by simp
  then have run: "\<exists>run. db_runs (mg_db m') = db_runs (mg_db m) @ [run] \<and> rn_id run = run_id \<and> rn_action run = ''delete-archive'' \<and>
      rn_repository_id run = Some i \<and> rn_status run = Queued"
    using res r' repository_checks_Inr(2) [OF r']
    by (auto simp: queue_repository_action_def try_bind_Inr_iff Let_def repository_run_def store_and_track_def store_run_def
        track_task_def insert_run_def table_insert_def blank_run_def split: sum.splits if_splits)
  have "rp_storage_path r \<in> {None, Some []} \<or> present (ax_queue e) r"
    using load_repository_Inr(4) [OF l] by (cases "rp_storage_path r") auto
  then show ?thesis using load_repository_Inr(1-3) [OF l] assms(2) run free by auto
qed

definition demo_delete :: archive_bulk_delete_in where
  "demo_delete = \<lparr>ab_archives = [''bbm-1-a'', ''foreign''], ab_compact_after = True\<rparr>"

theorem deletion_only_when_idle_witness:
  "\<exists>run. db_runs (mg_db (fst (delete_repository_archives demo_archive_env demo_archive_inventory demo_cache 1 demo_delete ready_manager))) = [run] \<and>
     rn_action run = ''delete-archive'' \<and> rn_status run = Queued"
proof -
  let ?d = "delete_repository_archives demo_archive_env demo_archive_inventory demo_cache 1 demo_delete ready_manager"
  have "is_Inr (snd ?d)" by code_simp
  then obtain m run subject where d: "?d = (m, Inr (run, subject))" by (cases ?d) (auto simp: is_Inr_iff)
  have "db_runs (mg_db ready_manager) = []" "iv_db demo_archive_inventory = mg_db ready_manager"
    by (code_simp, simp add: demo_archive_inventory_def)
  then show ?thesis using deletion_only_when_idle [OF d] unfolding d fst_conv by auto
qed

text \<open>
  The answer 409 is meant for a run that came in between, but the message the queue has for it is not the
  one the endpoint looks for, so the answer is 400.
\<close>

lemma busy_deletion_is_bad_request: "deletion_code Repository_in_use = 400"
  by (simp add: deletion_code_def is_lookup_def repository_error_text_def starts_with_def)

section \<open>The cache\<close>

text \<open>A stored list is read back as it was and no other list changes.\<close>

lemma archive_cache_roundtrip:
  assumes "\<And>v. jl_loads (ba_json (ax_lib e)) (ax_dumps e v @ [newline]) = Some v"
    and "json_get ''archives'' data = JList l"
  shows "load_archive_cache (ax_lib e) i k (store_archive_cache e now i k data c) = Some (cache_payload i k now data)"
    "(i', k') \<noteq> (i, k) \<Longrightarrow> load_archive_cache (ax_lib e) i' k' (store_archive_cache e now i k data c) = load_archive_cache (ax_lib e) i' k' c"
proof -
  have "valid_payload i k (cache_payload i k now data)"
    using assms(2) by (simp add: valid_payload_def cache_payload_def json_get_def or_else_def)
  then show "load_archive_cache (ax_lib e) i k (store_archive_cache e now i k data c) = Some (cache_payload i k now data)"
    by (simp add: load_archive_cache_def store_archive_cache_def assms(1))
  show "load_archive_cache (ax_lib e) i' k' (store_archive_cache e now i k data c) = load_archive_cache (ax_lib e) i' k' c"
    if "(i', k') \<noteq> (i, k)"
    using that by (auto simp: load_archive_cache_def store_archive_cache_def)
qed

text \<open>A file of another repository or of the other kind is never used.\<close>

lemma loaded_cache_is_of_the_repository:
  assumes "load_archive_cache lib i k c = Some d"
  shows "json_equals (int i) (json_get ''repository_id'' d)" "json_truthy (json_get ''consider_checkpoints'' d) = k"
  using assms by (auto simp: load_archive_cache_def valid_payload_def split: option.splits json.splits if_splits)

lemma forgotten_cache:
  "load_archive_cache lib i k (fst (forget_archive_cache i c)) = None"
  "i' \<noteq> i \<Longrightarrow> load_archive_cache lib i' k (fst (forget_archive_cache i c)) = load_archive_cache lib i' k c"
  by (cases k; simp add: load_archive_cache_def forget_archive_cache_def)+

end
