(* ===== verification/MountProperties.thy ===== *)
theory MountProperties
  imports MountSystem ArchiveProperties
begin

text \<open>What the mount handlers promise, and where requests that overlap break it.\<close>

section \<open>Beginning a request\<close>

lemma quiet_post: "quiet s i \<Longrightarrow> (row, k, q) \<in> set (post_claims s) \<Longrightarrow> k \<noteq> i"
  by (auto simp: quiet_def list_all_iff)

lemma quiet_delete: "quiet s i \<Longrightarrow> (row, q) \<in> set (delete_claims s) \<Longrightarrow> (row, k, q') \<in> set (cores s) \<Longrightarrow> k \<noteq> i"
  by (force simp: quiet_def list_all_iff)

text \<open>No claim is on a row of a quiet repository.\<close>

lemma quiet_free:
  assumes "rows_ok s" and "mounts_owned s" and "quiet s k" and "(i, k, q) \<in> set (cores s)"
  shows "i \<notin> fst ` set (post_claims s) \<union> fst ` set (delete_claims s)"
proof
  assume "i \<in> fst ` set (post_claims s) \<union> fst ` set (delete_claims s)"
  then consider k' q' where "(i, k', q') \<in> set (post_claims s)" | q' where "(i, q') \<in> set (delete_claims s)" by auto
  then show False
  proof cases
    case 1
    then have "(i, k', q') \<in> set (cores s)" using assms(2) by (auto simp: mounts_owned_def)
    then have "k' = k" using core_unique [OF assms(1)] assms(4) by blast
    then show False using quiet_post [OF assms(3) 1] by simp
  next
    case 2
    then show False using quiet_delete [OF assms(3) 2 assms(4)] by simp
  qed
qed

lemma row_core_in: "r \<in> set (ms_rows s) \<Longrightarrow> (am_id r, am_repository_id r, am_mount_path r) \<in> set (cores s)"
  by (force simp: cores_def row_core_def)

lemma get_mount_core: "get_mount s i = Some r \<Longrightarrow> (i, am_repository_id r, am_mount_path r) \<in> set (cores s)"
  using row_core_in by (auto dest!: table_get_SomeD)

lemma repository_row_core:
  "repository_mount_row s i = Some r \<Longrightarrow> (am_id r, i, am_mount_path r) \<in> set (cores s)"
  unfolding repository_mount_row_def using row_core_in find_SomeD by fastforce

lemma inv_drop:
  assumes "mount_inv strict s" and "strict \<Longrightarrow> quiet s i" and "repository_mount_row s i = Some r"
    and "\<not> path_active s (am_mount_path r)"
  shows "mount_inv strict (drop_inactive e (Some r) s)"
proof (rule inv_removed [OF assms(1), where i = "am_id r"])
  note o = inv_owned [OF assms(1)]
  have c: "(am_id r, i, am_mount_path r) \<in> set (cores s)" by (rule repository_row_core [OF assms(3)])
  show "am_id r \<notin> fst ` set (post_claims (drop_inactive e (Some r) s)) \<union> fst ` set (delete_claims (drop_inactive e (Some r) s))"
    if strict using quiet_free [OF inv_rows_ok [OF assms(1)] o assms(2) c] that by (simp add: drop_inactive_def)
  show "distinct (map fst (post_claims (drop_inactive e (Some r) s)) @ map fst (delete_claims (drop_inactive e (Some r) s)))"
    if strict using owned_distinct [OF o [OF that]] by (simp add: drop_inactive_def)
  fix k q assume "(am_id r, k, q) \<in> set (cores s)"
  then have "q = am_mount_path r" using core_unique [OF inv_rows_ok [OF assms(1)]] c by blast
  then show "q \<notin> set (ms_live s)" using assms(4) by (simp add: path_active_def)
qed (simp_all add: drop_inactive_def cores_remove)

lemma owned_ids:
  assumes "mounts_owned s" and "i \<in> fst ` set (post_claims s) \<union> fst ` set (delete_claims s)"
  shows "i \<in> fst ` set (cores s)"
  using assms(2)
proof
  assume "i \<in> fst ` set (post_claims s)"
  then show ?thesis using assms(1) by (auto simp: mounts_owned_def)
next
  assume "i \<in> fst ` set (delete_claims s)"
  then obtain q where "(i, q) \<in> set (delete_claims s)" by auto
  then obtain k where "(i, k, q) \<in> set (cores s)" using assms(1) unfolding mounts_owned_def by blast
  then show ?thesis by force
qed

lemma dict_pop_missing: "map_of d t = None \<Longrightarrow> dict_pop t d = d"
  by (induction d) (auto simp: dict_pop_def split: if_splits)

lemma dict_set_new: "map_of d t = None \<Longrightarrow> dict_set t p d = d @ [(t, p)]"
  by (induction d) (auto split: if_splits)

lemma inv_enter:
  assumes "mount_inv strict s" and "map_of (ms_posts s) t = None"
  shows "mount_inv strict (fst (enter_mount e f t r archive s))"
proof (cases "enter_mount e f t r archive s")
  case (Pair s' a)
  have keep: "mount_inv strict (s\<lparr>ms_dirs := ds\<rparr>)" for ds
    by (rule inv_cong [OF assms(1)]) (simp_all add: cores_def post_claims_def delete_claims_def)
  have cleaned: "mount_inv strict (cleanup_archive_mount_path e p (s\<lparr>ms_dirs := ds\<rparr>))" for p ds
    by (rule inv_cong [OF keep]) simp_all
  show ?thesis
  proof (cases "a = Pending")
    case False
    then have "s' = s \<or> (\<exists>p ds. s' = cleanup_archive_mount_path e p (s\<lparr>ms_dirs := ds\<rparr>))"
      using Pair by (auto simp: enter_mount_def Let_def split: sum.splits if_splits)
    then show ?thesis using assms(1) cleaned Pair by auto
  next
    case True
    then obtain p where new: "\<not> list_ex (\<lambda>a. am_repository_id a = rp_id r \<or> am_mount_path a = p) (ms_rows s)"
      and c: "cores s' = cores s @ [(next_key am_id (ms_rows s), rp_id r, p)]" and l: "ms_live s' = ms_live s"
      and posts: "ms_posts s' = dict_set t \<lparr>po_repository = rp_id r, po_archive = archive, po_path = p,
        po_row = next_key am_id (ms_rows s), po_phase = Mounting\<rparr> (ms_posts s)" and d: "delete_claims s' = delete_claims s"
      using Pair by (auto simp: enter_mount_def Let_def cores_def row_core_def table_insert_def delete_claims_def split: sum.splits if_splits)
    let ?i = "next_key am_id (ms_rows s)"
    have ids: "map fst (cores s) = map am_id (ms_rows s)" by (simp add: cores_def row_core_def comp_def)
    have fresh: "?i \<notin> set (map fst (cores s))" unfolding ids by (rule next_key_fresh)
    have pc: "post_claims s' = post_claims s @ [(?i, rp_id r, p)]"
      by (simp add: post_claims_def posts dict_set_new [OF assms(2)] post_core_def)
    have other: "rp_id r \<notin> (\<lambda>c. fst (snd c)) ` set (cores s)" "p \<notin> (\<lambda>c. snd (snd c)) ` set (cores s)"
      using new by (auto simp: cores_def row_core_def list_ex_iff)
    have "rows_ok s'" using inv_rows_ok [OF assms(1)] fresh other by (simp add: rows_ok_def c)
    moreover have "mounts_owned s'" if strict
    proof -
      have o: "mounts_owned s" by (rule inv_owned [OF assms(1) that])
      have "?i \<notin> fst ` set (post_claims s) \<union> fst ` set (delete_claims s)" using owned_ids [OF o] fresh by auto
      then have dist: "distinct (map fst (post_claims s') @ map fst (delete_claims s'))"
        using owned_distinct [OF o] by (simp add: pc d)
      show ?thesis unfolding mounts_owned_def
      proof (intro conjI)
        show "set (ms_live s') \<subseteq> (\<lambda>c. snd (snd c)) ` set (cores s')" "set (post_claims s') \<subseteq> set (cores s')"
          using o by (auto simp: mounts_owned_def c l pc)
        show "\<forall>(row, q) \<in> set (delete_claims s'). \<exists>k. (row, k, q) \<in> set (cores s')"
          using o unfolding mounts_owned_def c d by fastforce
      qed (rule dist)
    qed
    ultimately show ?thesis using Pair by (simp add: mount_inv_def)
  qed
qed

lemma inv_create:
  assumes "mount_inv strict s" and "map_of (ms_posts s) t = None" and "strict \<longrightarrow> quiet s i"
  shows "mount_inv strict (fst (create_manager_archive_mount e f t i archive s))"
proof -
  have "map_of (ms_posts (drop_inactive e a s)) t = None" for a
    using assms(2) by (cases a) (simp_all add: drop_inactive_def)
  then show ?thesis
    using assms inv_enter inv_drop [OF assms(1)]
    by (auto simp: create_manager_archive_mount_def split: sum.split option.split)
qed

lemma inv_delete:
  assumes "mount_inv strict s" and "map_of (ms_deletes s) t = None" and "strict \<longrightarrow> quiet s (row_repository s i)"
  shows "mount_inv strict (fst (delete_manager_archive_mount e t i s))"
proof (cases "get_mount s i")
  case None
  then show ?thesis using assms(1) by (simp add: delete_manager_archive_mount_def)
next
  case (Some r)
  let ?s1 = "modify_mount i (set_status ''unmounting'' []) s"
  have inv1: "mount_inv strict ?s1" by (rule inv_cong [OF assms(1)]) simp_all
  have c: "(i, am_repository_id r, am_mount_path r) \<in> set (cores s)" by (rule get_mount_core [OF Some])
  have free: "i \<notin> fst ` set (post_claims s) \<union> fst ` set (delete_claims s)" if strict
    using quiet_free [OF inv_rows_ok [OF assms(1)] inv_owned [OF assms(1) that] _ c] assms(3) that
    by (simp add: row_repository_def Some)
  show ?thesis
  proof (cases "am_status r = ''unmounting''")
    case True
    then show ?thesis using assms(1) Some by (simp add: delete_manager_archive_mount_def)
  next
    case False
    show ?thesis
    proof (cases "path_active s (am_mount_path r)")
      case True
      let ?d = "\<lparr>de_row = i, de_path = am_mount_path r, de_phase = Unmount_running\<rparr>"
      let ?s2 = "?s1\<lparr>ms_deletes := dict_set t ?d (ms_deletes s)\<rparr>"
      have dc: "delete_claims ?s2 = delete_claims s @ [(i, am_mount_path r)]"
        by (simp add: delete_claims_def dict_set_new [OF assms(2)] delete_core_def)
      have same: "cores ?s2 = cores s" "post_claims ?s2 = post_claims s" "ms_live ?s2 = ms_live s"
        by (simp_all add: cores_def post_claims_def modify_mount_def table_modify_def)
      have "mounts_owned ?s2" if strict
      proof -
        have o: "mounts_owned s" by (rule inv_owned [OF assms(1) that])
        show ?thesis unfolding mounts_owned_def same dc
        proof (intro conjI)
          show "set (ms_live s) \<subseteq> (\<lambda>c. snd (snd c)) ` set (cores s)" "set (post_claims s) \<subseteq> set (cores s)"
            using o by (simp_all add: mounts_owned_def)
          show "\<forall>(row, p) \<in> set (delete_claims s @ [(i, am_mount_path r)]). \<exists>k. (row, k, p) \<in> set (cores s)"
            using o c unfolding mounts_owned_def by auto
          show "distinct (map fst (post_claims s) @ map fst (delete_claims s @ [(i, am_mount_path r)]))"
            using owned_distinct [OF o] free [OF that] by auto
        qed
      qed
      then have "mount_inv strict ?s2" using inv_rows_ok [OF assms(1)] by (simp add: mount_inv_def rows_ok_def same)
      then show ?thesis using Some False True by (simp add: delete_manager_archive_mount_def Let_def)
    next
      case inactive: False
      have "end_delete t ?s1 = ?s1" by (simp add: end_delete_def dict_pop_missing [OF assms(2)])
      then have "mount_inv strict (fst (finish_delete e t i (am_mount_path r) ?s1))"
        using inactive c free owned_distinct [OF inv_owned [OF assms(1)]]
        by (intro inv_finish_delete [OF inv1]) (auto simp: path_active_def)
      then show ?thesis using Some False inactive by (simp add: delete_manager_archive_mount_def Let_def)
    qed
  qed
qed

section \<open>Reachable states\<close>

lemma listed_core [simp]: "row_core (listed_mount recent s r) = row_core r"
  by (simp add: listed_mount_def Let_def)

lemma inv_rows_mapped:
  assumes "mount_inv strict s" and "map row_core rows = cores s"
  shows "mount_inv strict (set_rows rows s)"
  by (rule inv_cong [OF assms(1)]) (use assms(2) in \<open>simp_all add: cores_def post_claims_def delete_claims_def\<close>)

lemma inv_delete_repository:
  assumes "mount_inv strict s" and "strict \<longrightarrow> quiet s i \<and> repository_unmounted s i"
    and "db_mounts (iv_db v) = filter (\<lambda>r. am_repository_id r \<noteq> i) (ms_rows s)"
  shows "mount_inv strict (s\<lparr>ms_inv := v\<rparr>)"
proof -
  let ?s = "s\<lparr>ms_inv := v\<rparr>"
  have c: "cores ?s = filter (\<lambda>c. fst (snd c) \<noteq> i) (cores s)"
    using assms(3) by (simp add: cores_def ms_rows_def filter_map row_core_def comp_def)
  have claims: "post_claims ?s = post_claims s" "delete_claims ?s = delete_claims s"
    by (simp_all add: post_claims_def delete_claims_def)
  have "rows_ok ?s" using inv_rows_ok [OF assms(1)] by (simp add: rows_ok_def c distinct_map_filter)
  moreover have "mounts_owned ?s" if strict
  proof -
    have o: "mounts_owned s" and q: "quiet s i" and u: "repository_unmounted s i"
      using assms(1,2) that by (auto simp: mount_inv_def)
    have "\<exists>c \<in> set (cores ?s). p = snd (snd c)" if p: "p \<in> set (ms_live s)" for p
    proof -
      obtain r where r: "r \<in> set (ms_rows s)" "p = am_mount_path r"
        using o p unfolding mounts_owned_def cores_def row_core_def by auto
      moreover have "am_repository_id r \<noteq> i"
        using u r p by (auto simp: repository_unmounted_def list_all_iff path_active_def)
      ultimately show ?thesis using row_core_in [OF r(1)] by (auto simp: c intro!: bexI)
    qed
    moreover have "x \<in> set (cores ?s)" if "x \<in> set (post_claims s)" for x
      using that o quiet_post [OF q, of "fst x" "fst (snd x)" "snd (snd x)"] by (auto simp: c mounts_owned_def)
    moreover have "\<exists>k. (row, k, p) \<in> set (cores ?s)" if d: "(row, p) \<in> set (delete_claims s)" for row p
    proof -
      obtain k where k: "(row, k, p) \<in> set (cores s)" using o d unfolding mounts_owned_def by blast
      then have "k \<noteq> i" by (rule quiet_delete [OF q d])
      then show ?thesis using k by (auto simp: c)
    qed
    ultimately show ?thesis using o unfolding mounts_owned_def claims by auto
  qed
  ultimately show ?thesis by (simp add: mount_inv_def)
qed

lemma step_inv:
  assumes "mount_step strict e s s'" and "mount_inv strict s"
  shows "mount_inv strict s'"
  using assms
proof (induction rule: mount_step.induct)
  case (begin_mount s t i f archive)
  then show ?case by (blast intro: inv_create)
next
  case (mount_done s t p code)
  then show ?case using inv_fail inv_poll by (simp add: mount_command_done_def)
next
  case (poll s t p expired)
  then show ?case by (blast intro: inv_poll)
next
  case (undone s t p)
  then show ?case by (blast intro: inv_finish_failed)
next
  case (begin_delete s t i)
  then show ?case by (blast intro: inv_delete)
next
  case (unmount_done s t d result message)
  then show ?case by (blast intro: inv_unmount_done)
next
  case (unmount_poll s t d expired message)
  then show ?case by (blast intro: inv_poll_unmount)
next
  case (show_list s recent)
  then show ?case unfolding list_manager_archive_mounts_def
    by (intro inv_rows_mapped) (simp_all add: cores_def)
next
  case (plan_scan v s)
  then show ?case
    by (intro inv_rows_mapped) (simp_all add: cores_def scan_archive_mounts_def row_core_def)
next
  case (check_repository s i)
  have "mount_inv strict (modify_mount j (set_status x y) s)" for j x y
    by (rule inv_cong [OF check_repository]) simp_all
  then show ?case using check_repository
    by (simp add: active_manager_archive_mount_def split: option.split)
next
  case (appear s t p)
  have same: "cores (s\<lparr>ms_live := l\<rparr>) = cores s" "post_claims (s\<lparr>ms_live := l\<rparr>) = post_claims s"
    "delete_claims (s\<lparr>ms_live := l\<rparr>) = delete_claims s" for l
    by (simp_all add: cores_def post_claims_def delete_claims_def)
  have "po_path p \<in> (\<lambda>c. snd (snd c)) ` set (cores s)" if "mounts_owned s"
  proof -
    have "post_core p \<in> set (cores s)" using end_post_claims(2) [OF appear(1)] that by (auto simp: mounts_owned_def)
    then show ?thesis unfolding post_core_def by force
  qed
  then show ?case using appear(3) by (auto simp: mount_inv_def rows_ok_def mounts_owned_def same)
next
  case (vanish s P)
  then show ?case by (rule inv_cong) (auto simp: cores_def post_claims_def delete_claims_def)
next
  case (delete_repository s i v)
  then show ?case by (blast intro: inv_delete_repository)
next
  case (elsewhere v s)
  then have "ms_rows (s\<lparr>ms_inv := v\<rparr>) = ms_rows s" by (simp add: ms_rows_def)
  then show ?case by (intro inv_cong [OF elsewhere(2)]) (simp_all add: cores_def post_claims_def delete_claims_def)
qed

lemma idle_inv: "idle_mounts s \<Longrightarrow> mount_inv strict s"
  by (simp add: idle_mounts_def mount_inv_def rows_ok_def mounts_owned_def cores_def post_claims_def delete_claims_def)

interpretation mount_system: guarded_system idle_mounts "mount_step strict e" "mount_inv strict" for strict e
  by unfold_locales (auto intro: idle_inv step_inv)

lemma unique_repository_row:
  assumes "rows_ok s" and "r \<in> set (ms_rows s)"
  shows "repository_mount_row s (am_repository_id r) = Some r"
proof -
  obtain r' where r': "repository_mount_row s (am_repository_id r) = Some r'"
    using assms(2) by (cases "repository_mount_row s (am_repository_id r)") (auto simp: repository_mount_row_def find_None_iff)
  then have in': "r' \<in> set (ms_rows s)" "am_repository_id r' = am_repository_id r"
    using find_SomeD by (fastforce simp: repository_mount_row_def)+
  have "distinct (map am_repository_id (ms_rows s))"
    using assms(1) by (simp add: rows_ok_def cores_def row_core_def comp_def)
  then have "r' = r" using in' assms(2) distinct_map_inj by metis
  then show ?thesis using r' by simp
qed

text \<open>
  C17: as long as the requests on a repository do not overlap, no mount is left behind by a failed cleanup and no
  repository is deleted while one of its archives is mounted, every archive the kernel shows as mounted has its
  row, and that row keeps its repository: other commands are refused, and the planner starts nothing there.
\<close>

theorem mounted_archive_blocks_repository:
  assumes "idle_mounts start" and "(mount_step True e)\<^sup>*\<^sup>* start s" and "p \<in> set (ms_live s)"
    and "archive_mount_is_active (pe_mountinfo v) p"
  shows "\<exists>r \<in> set (ms_rows s). am_mount_path r = p \<and> active_manager_archive_mount s (am_repository_id r) = (s, Some r) \<and>
    am_repository_id r \<in> set (fst (scan_archive_mounts v (ms_rows s)))"
proof -
  have inv: "mount_inv True s" by (rule mount_system.inv_reachable [OF assms(1,2)])
  then have "p \<in> (\<lambda>c. snd (snd c)) ` set (cores s)" using assms(3) by (auto simp: mount_inv_def mounts_owned_def)
  then obtain r where r: "r \<in> set (ms_rows s)" "am_mount_path r = p" by (auto simp: cores_def row_core_def)
  have "active_manager_archive_mount s (am_repository_id r) = (s, Some r)"
    using unique_repository_row [OF inv_rows_ok [OF inv] r(1)] r(2) assms(3)
    by (simp add: active_manager_archive_mount_def path_active_def)
  moreover have "mount_active v r" using assms(3,4) r(2) by (simp add: mount_active_def path_active_def)
  then have "am_repository_id r \<in> set (fst (scan_archive_mounts v (ms_rows s)))"
    using r(1) by (auto simp: scan_archive_mounts_def)
  ultimately show ?thesis using r by blast
qed

section \<open>An answer of success\<close>

lemma get_removed [simp]: "get_mount (remove_mount i s) i = None"
  by (simp add: remove_mount_def table_get_remove)

lemma path_active_simps [simp]:
  "path_active (cleanup_archive_mount_path e p s) q = path_active s q" "path_active (remove_mount i s) q = path_active s q"
  "path_active (modify_mount i f s) q = path_active s q" "path_active (end_delete t s) q = path_active s q"
  by (simp_all add: path_active_def)

lemma cleanup_gone:
  "\<not> path_active s p \<Longrightarrow> inside_root e p \<Longrightarrow> me_rmdir e p \<Longrightarrow> p \<notin> set (ms_dirs (cleanup_archive_mount_path e p s))"
  by (simp add: cleanup_archive_mount_path_def)

text \<open>
  C18: when the manager answers that an archive has been unmounted, it is: the kernel no longer has the mount and
  the row is gone; the directory is gone too if it lies below the root and the system let it be removed.
\<close>

theorem unmounted_means_gone:
  assumes "(s', Unmounted) \<in> {delete_manager_archive_mount e t (de_row d) s, unmount_command_done e t d result message s,
      poll_unmount e t d expired message s}"
    and "get_mount s (de_row d) = Some r" and "am_mount_path r = de_path d"
  shows "\<not> path_active s' (de_path d) \<and> get_mount s' (de_row d) = None \<and>
    (inside_root e (de_path d) \<and> me_rmdir e (de_path d) \<longrightarrow> de_path d \<notin> set (ms_dirs s'))"
proof -
  consider "s' = fst (finish_delete e t (de_row d) (de_path d) s)" "\<not> path_active s (de_path d)"
    | "s' = fst (finish_delete e t (de_row d) (de_path d) (modify_mount (de_row d) (set_status ''unmounting'' []) s))"
      "\<not> path_active s (de_path d)"
    using assms
    by (auto simp: delete_manager_archive_mount_def unmount_command_done_def poll_unmount_def finish_delete_def
        archive_unmount_incident_def Let_def split: if_splits option.splits)
  then show ?thesis
    by cases (simp_all add: finish_delete_def cleanup_gone)
qed

section \<open>Examples\<close>

definition demo_mount_env :: mount_env where
  "demo_mount_env =
     \<lparr>me_archive = demo_archive_env,
      me_facts = \<lparr>mf_enabled = True, mf_absolute = True, mf_exists = True, mf_symlink = False, mf_accessible = True,
        mf_fuse_device = True, mf_fusermount = True,
        mf_mountinfo = [''1 2 0:3 / /mnt rw shared:1 - ext4 /dev/sda rw''], mf_status = [''CapEff: 200000''],
        mf_fuse_conf = [''user_allow_other''], mf_root = [''mnt'']\<rparr>,
      me_base = Some [''mnt''], me_ascii = (\<lambda>s. s), me_sha256 = (\<lambda>_. ''0123456789abcdef''),
      me_rmdir = (\<lambda>p. True)\<rparr>"

definition demo_prepare :: prepare_facts where
  "demo_prepare = \<lparr>pf_root_dir = True, pf_root_symlink = False, pf_repository_symlink = False, pf_repository_in_root = True,
     pf_target_symlink = False, pf_target_in_repository = True, pf_readable = True, pf_empty = True\<rparr>"

definition demo_idle_mounts :: mount_state where
  "demo_idle_mounts = \<lparr>ms_inv = demo_archive_inventory, ms_live = [], ms_dirs = [], ms_posts = [], ms_deletes = []\<rparr>"

lemma demo_capable: "capability_issues (me_facts demo_mount_env) = []"
proof -
  have "fuse_user_allow_other_enabled [''user_allow_other'']" by code_simp
  moreover have "mount_root_propagation [''mnt''] [''1 2 0:3 / /mnt rw shared:1 - ext4 /dev/sda rw''] = ''shared''" by code_simp
  moreover have "starts_with ''CapEff:'' ''CapEff: 200000''" "parse_hex (py_strip (drop 7 ''CapEff: 200000'')) = Some 2097152"
    by (code_simp, simp add: py_strip_def strip_by_def rstrip_by_def lstrip_by_def is_space_def char_code_def parse_hex_def
        is_hex_def is_digit_def hex_value_def digit_value_def Let_def)
  then have "cap_eff_has_sys_admin [''CapEff: 200000'']" by (simp add: cap_eff_has_sys_admin_def)
  ultimately show ?thesis by (simp add: capability_issues_def demo_mount_env_def)
qed

lemma demo_admitted:
  assumes "iv_db (ms_inv s) = mg_db ready_manager\<lparr>db_mounts := rows\<rparr>"
  shows "mount_admission demo_mount_env s 1 = Inr sample_repository"
proof -
  have "get_repository (mg_db ready_manager) 1 = Some sample_repository" "\<not> has_unfinished_repository (mg_db ready_manager) 1"
    "present ready_env sample_repository" "rp_enabled sample_repository" "rp_initialized sample_repository"
    "truthy (rp_storage_path sample_repository)" by code_simp+
  then show ?thesis
    using assms demo_capable
    by (simp add: mount_admission_def load_repository_with_access_def has_unfinished_repository_def)
      (simp add: demo_mount_env_def demo_archive_env_def)
qed

definition demo_begun :: mount_state where
  "demo_begun = fst (create_manager_archive_mount demo_mount_env demo_prepare 1 1 ''bbm-1-a'' demo_idle_mounts)"

definition demo_path :: string where
  "demo_path = ''/mnt/main-r1/bbm-1-a-0123456789ab''"

definition demo_post :: mount_post where
  "demo_post = \<lparr>po_repository = 1, po_archive = ''bbm-1-a'', po_path = demo_path, po_row = 1, po_phase = Mounting\<rparr>"

lemma demo_begun_enter: "demo_begun = fst (enter_mount demo_mount_env demo_prepare 1 sample_repository ''bbm-1-a'' demo_idle_mounts)"
proof -
  have "iv_db (ms_inv demo_idle_mounts) = mg_db ready_manager\<lparr>db_mounts := []\<rparr>" "repository_mount_row demo_idle_mounts 1 = None"
    by (simp_all add: demo_idle_mounts_def demo_archive_inventory_def ready_manager_def sample_db_def repository_mount_row_def ms_rows_def)
  then show ?thesis
    using demo_admitted by (simp add: demo_begun_def create_manager_archive_mount_def)
qed

lemma demo_begun_facts:
  "map_of (ms_posts demo_begun) 1 = Some demo_post" "demo_path \<in> set (ms_dirs demo_begun)" "ms_live demo_begun = []"
  unfolding demo_begun_enter by code_simp+

lemma demo_begun_row: "map am_repository_id (ms_rows demo_begun) = [1]"
  unfolding demo_begun_enter by code_simp

definition demo_mounted :: mount_state where
  "demo_mounted = demo_begun\<lparr>ms_live := List.insert demo_path (ms_live demo_begun)\<rparr>"

lemma demo_reaches: "(mount_step strict demo_mount_env)\<^sup>*\<^sup>* demo_idle_mounts demo_mounted"
proof -
  have "map_of (ms_posts demo_idle_mounts) 1 = None" "quiet demo_idle_mounts 1" by code_simp+
  then have "mount_step strict demo_mount_env demo_idle_mounts demo_begun"
    unfolding demo_begun_def by (intro mount_step.begin_mount) simp_all
  moreover have "mount_step strict demo_mount_env demo_begun demo_mounted"
    using mount_step.appear [OF demo_begun_facts(1), of strict demo_mount_env] demo_begun_facts(2)
    by (simp add: demo_mounted_def demo_post_def)
  ultimately show ?thesis by simp
qed

lemma demo_idle: "idle_mounts demo_idle_mounts"
  by code_simp

definition demo_plan_view :: plan_env where
  "demo_plan_view = demo_env\<lparr>pe_mountinfo := [''1 2 0:3 / /mnt/main-r1/bbm-1-a-0123456789ab rw - fuse borgfs rw'']\<rparr>"

theorem mounted_archive_blocks_repository_witness:
  "\<exists>r \<in> set (ms_rows demo_mounted). am_mount_path r = demo_path \<and>
     active_manager_archive_mount demo_mounted (am_repository_id r) = (demo_mounted, Some r)"
proof -
  have "demo_path \<in> set (ms_live demo_mounted)" by (simp add: demo_mounted_def)
  moreover have "archive_mount_is_active (pe_mountinfo demo_plan_view) demo_path" by code_simp
  ultimately show ?thesis
    using mounted_archive_blocks_repository [OF demo_idle demo_reaches] by blast
qed

definition demo_delete_mount :: mount_delete where
  "demo_delete_mount = \<lparr>de_row = 1, de_path = demo_path, de_phase = Unmount_running\<rparr>"

theorem unmounted_means_gone_witness:
  "demo_path \<notin> set (ms_dirs (fst (delete_manager_archive_mount demo_mount_env 7 1 demo_begun)))"
proof -
  have a: "snd (delete_manager_archive_mount demo_mount_env 7 1 demo_begun) = Unmounted"
    "inside_root demo_mount_env demo_path \<and> me_rmdir demo_mount_env demo_path" "map_option am_mount_path (get_mount demo_begun 1) = Some demo_path"
    unfolding demo_begun_enter by code_simp+
  then obtain r where r: "get_mount demo_begun 1 = Some r" "am_mount_path r = demo_path" by auto
  obtain s' where s': "delete_manager_archive_mount demo_mount_env 7 1 demo_begun = (s', Unmounted)"
    using a(1) by (cases "delete_manager_archive_mount demo_mount_env 7 1 demo_begun") auto
  have "(s', Unmounted) \<in> {delete_manager_archive_mount demo_mount_env 7 (de_row demo_delete_mount) demo_begun,
      unmount_command_done demo_mount_env 7 demo_delete_mount None [] demo_begun,
      poll_unmount demo_mount_env 7 demo_delete_mount False [] demo_begun}"
    using s' by (simp add: demo_delete_mount_def del: One_nat_def)
  from unmounted_means_gone [OF this] show ?thesis using r a(2) s' by (simp add: demo_delete_mount_def del: One_nat_def)
qed

section \<open>A repository deleted under its mount\<close>

text \<open>
  After a failed attempt to unmount the row says \<open>error\<close>, so the repository may be deleted; its row goes with it
  and the mount stays without one.
\<close>

definition demo_unmounting :: mount_state where
  "demo_unmounting = fst (delete_manager_archive_mount demo_mount_env 7 1 demo_mounted)"

definition demo_unmount_failed :: mount_state where
  "demo_unmount_failed = fst (unmount_command_done demo_mount_env 7 demo_delete_mount (Some 1) [] demo_unmounting)"

definition demo_without_rows :: mount_state where
  "demo_without_rows = set_rows [] demo_unmount_failed"

lemma demo_unmount_facts:
  "map_of (ms_deletes demo_mounted) 7 = None" "map_of (ms_deletes demo_unmounting) 7 = Some demo_delete_mount"
  "deletion_allowed demo_unmount_failed 1" "map am_repository_id (ms_rows demo_unmount_failed) = [1]"
  "ms_live demo_without_rows = [demo_path]"
  unfolding demo_without_rows_def demo_unmount_failed_def demo_unmounting_def demo_mounted_def demo_begun_enter by code_simp+

lemma deleted_repository_leaves_mount:
  "\<exists>s. (mount_step False demo_mount_env)\<^sup>*\<^sup>* demo_idle_mounts s \<and> ms_live s \<noteq> [] \<and> ms_rows s = []"
proof -
  let ?step = "mount_step False demo_mount_env"
  have a: "?step demo_mounted demo_unmounting"
    unfolding demo_unmounting_def by (intro mount_step.begin_delete demo_unmount_facts(1)) simp
  have b: "?step demo_unmounting demo_unmount_failed"
    unfolding demo_unmount_failed_def
    by (rule mount_step.unmount_done [OF demo_unmount_facts(2)]) (simp add: demo_delete_mount_def)
  have none: "filter (\<lambda>r. am_repository_id r \<noteq> 1) (ms_rows demo_unmount_failed) = []"
    using demo_unmount_facts(4) by (auto simp: filter_empty_conv simp del: One_nat_def)
  have "?step demo_unmount_failed (demo_unmount_failed\<lparr>ms_inv := ms_inv demo_without_rows\<rparr>)"
    by (rule mount_step.delete_repository [OF demo_unmount_facts(3)])
      (simp_all add: none demo_without_rows_def set_rows_def del: One_nat_def)
  moreover have "demo_unmount_failed\<lparr>ms_inv := ms_inv demo_without_rows\<rparr> = demo_without_rows"
    by (simp add: demo_without_rows_def set_rows_def)
  ultimately have c: "?step demo_unmount_failed demo_without_rows" by simp
  note into = rtranclp.rtrancl_into_rtrancl
  have "?step\<^sup>*\<^sup>* demo_idle_mounts demo_without_rows" by (rule into [OF into [OF into [OF demo_reaches a] b] c])
  then show ?thesis using demo_unmount_facts(5)
    by (intro exI [of _ demo_without_rows]) (simp add: demo_without_rows_def)
qed

section \<open>Requests that overlap\<close>

text \<open>
  A list taken while a slow mount is still starting marks its row as stale, and the request then takes
  the mount for cancelled although it is there.
\<close>

lemma slow_mount_taken_for_cancelled:
  assumes "get_mount s (po_row p) = Some r" and "am_status r = ''mounting''" and "\<not> recent r"
    and "\<not> path_active s (am_mount_path r)" and "s' = (list_manager_archive_mounts recent s)\<lparr>ms_live := [po_path p]\<rparr>"
  shows "snd (mount_command_done e t p 0 s') = Mount_cancelled" "path_active s' (po_path p)"
proof -
  have "get_mount (list_manager_archive_mounts recent s) (po_row p) = Some (set_status ''stale'' stale_text r)"
  proof -
    have id: "am_id (listed_mount recent s x) = am_id x" for x using listed_core [of recent s x] by (simp add: row_core_def)
    have "find (\<lambda>r. am_id r = i) (map (listed_mount recent s) rows) = map_option (listed_mount recent s) (find (\<lambda>r. am_id r = i) rows)"
      for i rows by (induction rows) (auto simp: id)
    then have "get_mount (list_manager_archive_mounts recent s) (po_row p) = map_option (listed_mount recent s) (get_mount s (po_row p))"
      unfolding list_manager_archive_mounts_def rows_simps table_get_def by blast
    moreover have "listed_mount recent s r = set_status ''stale'' stale_text r"
      using assms(2-4) by (simp add: listed_mount_def)
    ultimately show ?thesis using assms(1) by simp
  qed
  then have "get_mount s' (po_row p) = Some (set_status ''stale'' stale_text r)" by (simp add: assms(5))
  then show "snd (mount_command_done e t p 0 s') = Mount_cancelled"
    by (simp add: mount_command_done_def poll_mount_def set_status_def)
  show "path_active s' (po_path p)" by (simp add: assms(5) path_active_def)
qed

text \<open>
  Two requests for different archives of one repository: the second drops the row of the first, SQLite
  gives its own row the same number, the failing first request deletes that row, and the mount of the
  second stays without a row. Nothing keeps other commands from the repository then.
\<close>

definition demo_second :: mount_post where
  "demo_second = \<lparr>po_repository = 1, po_archive = ''foreign'', po_path = ''/mnt/main-r1/foreign-0123456789ab'', po_row = 1,
     po_phase = Mounting\<rparr>"

definition demo_both :: mount_state where
  "demo_both = fst (create_manager_archive_mount demo_mount_env demo_prepare 2 1 ''foreign'' demo_begun)"

definition demo_first_failed :: mount_state where
  "demo_first_failed = fst (mount_command_done demo_mount_env 1 demo_post 2 demo_both)"

definition demo_appeared :: mount_state where
  "demo_appeared = demo_first_failed\<lparr>ms_live := List.insert (po_path demo_second) (ms_live demo_first_failed)\<rparr>"

lemma demo_both_enter:
  "demo_both = fst (enter_mount demo_mount_env demo_prepare 2 sample_repository ''foreign''
     (drop_inactive demo_mount_env (repository_mount_row demo_begun 1) demo_begun))"
proof -
  have "iv_db (ms_inv demo_begun) = mg_db ready_manager\<lparr>db_mounts := ms_rows demo_begun\<rparr>"
    unfolding demo_begun_enter
    by (simp add: enter_mount_def Let_def set_rows_def ms_rows_def cleanup_archive_mount_path_def demo_idle_mounts_def
        demo_archive_inventory_def split: sum.split)
  note adm = demo_admitted [OF this]
  obtain a where a: "repository_mount_row demo_begun 1 = Some a"
    using find_None_iff [of "\<lambda>r. am_repository_id r = 1" "ms_rows demo_begun"] repository_row_core
    by (cases "repository_mount_row demo_begun 1") (use demo_begun_row in \<open>auto simp: repository_mount_row_def\<close>)
  show ?thesis by (simp add: demo_both_def create_manager_archive_mount_def adm a path_active_def demo_begun_facts(3)
        del: One_nat_def)
qed

lemma demo_both_facts:
  "map_of (ms_posts demo_both) 1 = Some demo_post"
  "map_of (ms_posts demo_first_failed) 2 = Some demo_second" "po_path demo_second \<in> set (ms_dirs demo_first_failed)"
  "map_of (ms_posts demo_appeared) 2 = Some demo_second"
  "ms_rows (fst (mount_command_done demo_mount_env 2 demo_second 0 demo_appeared)) = []"
  "ms_live (fst (mount_command_done demo_mount_env 2 demo_second 0 demo_appeared)) = [po_path demo_second]"
  unfolding demo_appeared_def demo_first_failed_def demo_both_enter demo_begun_enter by code_simp+

lemma overlapping_mounts_lose_a_row:
  "\<exists>s. (mount_step False demo_mount_env)\<^sup>*\<^sup>* demo_idle_mounts s \<and> ms_live s \<noteq> [] \<and> ms_rows s = []"
proof -
  let ?step = "mount_step False demo_mount_env" and ?orphaned = "fst (mount_command_done demo_mount_env 2 demo_second 0 demo_appeared)"
  have "map_of (ms_posts demo_idle_mounts) 1 = None" by code_simp
  then have a: "?step demo_idle_mounts demo_begun" unfolding demo_begun_def by (intro mount_step.begin_mount) simp_all
  have "map_of (ms_posts demo_begun) 2 = None" unfolding demo_begun_enter by code_simp
  then have b: "?step demo_begun demo_both" unfolding demo_both_def by (intro mount_step.begin_mount) simp_all
  have c: "?step demo_both demo_first_failed"
    unfolding demo_first_failed_def by (rule mount_step.mount_done [OF demo_both_facts(1)]) (simp add: demo_post_def)
  have d: "?step demo_first_failed demo_appeared"
    unfolding demo_appeared_def by (rule mount_step.appear [OF demo_both_facts(2) demo_both_facts(3)])
  have e: "?step demo_appeared ?orphaned"
    by (rule mount_step.mount_done [OF demo_both_facts(4)]) (simp add: demo_second_def)
  note into = rtranclp.rtrancl_into_rtrancl
  have "?step\<^sup>*\<^sup>* demo_idle_mounts ?orphaned" by (rule into [OF into [OF into [OF into [OF r_into_rtranclp [of ?step, OF a] b] c] d] e])
  then show ?thesis using demo_both_facts(5,6) by (intro exI [of _ ?orphaned]) simp
qed

end
