(* ===== verification/BackupFormat.thy ===== *)
theory BackupFormat
  imports ArchiveListing Payload
begin

text \<open>
  The files of manager backups, \<open>src/app/backups.py\<close>: names, versions, safe paths, the encrypted
  envelope and the manifests. A file is the string of its bytes. Scrypt, AES-GCM, \<open>json\<close> and the ZIP
  format are arguments.
\<close>

section \<open>Environment\<close>

text \<open>
  An entry of a ZIP file: \<open>ze_mode\<close> are the upper 16 bits of the external attributes, \<open>ze_size\<close> and
  \<open>ze_packed\<close> the declared sizes, \<open>ze_data\<close> the unpacked bytes.
\<close>

record zip_entry =
  ze_name :: string
  ze_mode :: nat
  ze_size :: nat
  ze_packed :: nat
  ze_data :: string

record backup_limits =
  bl_file :: nat
  bl_uncompressed :: nat
  bl_entries :: nat
  bl_ratio :: nat

text \<open>
  \<open>bk_dumps\<close> writes a header, \<open>bk_pretty\<close> a manifest; \<open>bk_seal\<close> gives the ciphertext and the tag;
  \<open>bk_unzip\<close> is \<open>None\<close> for a file that is no ZIP file, \<open>bk_packed\<close> the size a compression gives.
\<close>

record backup_env =
  bk_json :: json_lib
  bk_dumps :: "json \<Rightarrow> string"
  bk_pretty :: "json \<Rightarrow> string"
  bk_kdf :: "string \<Rightarrow> string \<Rightarrow> string"
  bk_seal :: "string \<Rightarrow> string \<Rightarrow> string \<Rightarrow> string \<Rightarrow> string \<times> string"
  bk_open :: "string \<Rightarrow> string \<Rightarrow> string \<Rightarrow> string \<Rightarrow> string \<Rightarrow> string option"
  bk_zip :: "string \<Rightarrow> zip_entry list \<Rightarrow> string"
  bk_unzip :: "string \<Rightarrow> zip_entry list option"
  bk_packed :: "string \<Rightarrow> string \<Rightarrow> nat"
  bk_limits :: backup_limits
  bk_cache_limits :: backup_limits

datatype (plugins del: lifting transfer quickcheck_exhaustive quickcheck_random quickcheck_narrowing
    quickcheck_full_exhaustive size) backup_error =
    File_empty | File_too_large nat | File_unreadable
  | Unsafe_path string | Path_escapes | No_version | Old_version
  | Bad_compression | Environment_line string
  | Passphrase_missing | Passphrase_short | Passphrase_lines | Passphrase_unexpected | Unencrypted
  | Unknown_magic | Header_incomplete | Header_size nat | Header_invalid | Not_an_envelope | Cipher_unsupported
  | Bad_parameters | Bad_tag_size | Payload_incomplete | Wrong_key_or_changed
  | Not_a_zip | Manifest_missing | Manifest_size | Manifest_invalid | Not_a_backup | Format_unsupported
  | Not_a_cache_backup | Bad_artifact_kind | Unexpected_client_cache | Unexpected_manager_cache
  | Too_many_entries | Duplicate_entry string | Symlink_entry string | Entry_ratio string | Content_too_large | Ratio_too_high
  | Permissions_invalid
  | Cache_kind_for_restore | Environment_missing | Database_missing | Database_damaged
  | Key_missing | Key_invalid | Security_incomplete | No_accounts | Secret_format | Secret_undecryptable | Identities_missing
  | Snapshot_differs | Database_unsupported | Artifact_choice | Host_unknown | No_artifact | Client_entry | Client_restore string
  | Exchange_failed | Member_missing | Member_size | Other_repository | No_source | Not_saved string
  | Bad_name | Bad_suffix | Name_mismatch | Unknown_type | Name_exists_already | File_missing
  | Python_error

section \<open>Names, versions, labels\<close>

definition rx_version_char :: rx where
  "rx_version_char = One (\<lambda>c. is_ascii c \<and> is_alnum c \<or> c \<in> set ''.+-'')"

definition rx_word_char :: rx where
  "rx_word_char = One (\<lambda>c. is_ascii c \<and> is_alnum c \<or> c \<in> set ''_-'')"

definition rx_stamped :: "string list \<Rightarrow> rx" where
  "rx_stamped suffixes = rx_seq [rx_plus rx_version_char, rx_text ''-'', rx_times 8 rx_digit, rx_text ''-'',
     rx_times 6 rx_digit, rx_text ''-'', rx_plus rx_word_char, rx_alt (map rx_text suffixes)]"

definition rx_cache_prefix :: rx where
  "rx_cache_prefix = rx_seq [rx_text ''borgbackup-manager-cache-'',
     Opt True (Cat (Or (rx_text ''manager'') (rx_seq [rx_text ''client-'', rx_plus rx_word_char, rx_text ''-h'', rx_plus rx_digit]))
       (rx_text ''-'')), rx_text ''v'']"

definition manager_backup_name :: "string \<Rightarrow> bool" where
  "manager_backup_name name \<longleftrightarrow>
     re_fullmatch (Cat (rx_text ''borgbackup-manager-backup-v'') (rx_stamped [''.bbm''])) name \<noteq> None"

definition cache_backup_name :: "string \<Rightarrow> bool" where
  "cache_backup_name name \<longleftrightarrow> re_fullmatch (Cat rx_cache_prefix (rx_stamped [''.zip'', ''.bbm''])) name \<noteq> None"

definition backup_name :: "string \<Rightarrow> bool" where
  "backup_name name \<longleftrightarrow>
     re_fullmatch (Cat (Or (rx_text ''borgbackup-manager-backup-v'') rx_cache_prefix) (rx_stamped [''.zip'', ''.bbm''])) name \<noteq> None"

definition rx_version :: rx where
  "rx_version = rx_seq [Opt True (rx_text ''v''), Grp 1 (rx_plus rx_digit), rx_text ''.'', Grp 2 (rx_plus rx_digit), rx_text ''.'',
     Grp 3 (rx_plus rx_digit), Opt True (Cat (rx_of ''-+'') (rx_plus rx_version_char))]"

definition version_tuple :: "json_lib \<Rightarrow> json \<Rightarrow> (backup_error, nat \<times> nat \<times> nat) result" where
  "version_tuple lib v =
     (case re_fullmatch rx_version (py_strip (json_text lib v)) of
        None \<Rightarrow> Inl No_version
      | Some g \<Rightarrow> Inr (digits_value (group 1 g), digits_value (group 2 g), digits_value (group 3 g)))"

definition require_supported_backup_version :: "json_lib \<Rightarrow> (string \<times> json) list \<Rightarrow> (backup_error, unit) result" where
  "require_supported_backup_version lib metadata =
     try_bind (version_tuple lib (json_get ''app_version'' metadata)) (\<lambda>v.
       if v < (1, 3, 5) then Inl Old_version else Inr ())"

definition backup_type_from_manifest :: "(string \<times> json) list \<Rightarrow> string" where
  "backup_type_from_manifest m =
     (if json_get ''format'' m = JStr ''borgbackup-manager-cache-backup'' then ''cache'' else ''manager'')"

text \<open>A run of other characters becomes one dash.\<close>

fun label_runs :: "bool \<Rightarrow> string \<Rightarrow> string" where
  "label_runs inside [] = []"
| "label_runs inside (c # s) =
     (if is_ascii c \<and> is_alnum c \<or> c \<in> set ''_-'' then c # label_runs False s
      else if inside then label_runs True s else CHR ''-'' # label_runs True s)"

definition label_of :: "string \<Rightarrow> string" where
  "label_of value =
     (let cleaned = take 48 (strip_by (\<lambda>c. c = CHR ''-'') (label_runs False (py_strip value))) in
      if cleaned = [] then ''manual'' else cleaned)"

text \<open>The level and the name of a compression.\<close>

definition compression_settings :: "string \<Rightarrow> (backup_error, nat option \<times> string) result" where
  "compression_settings value =
     (let n = py_lower (py_strip (if value = [] then ''standard'' else value)) in
      if n = ''none'' then Inr (None, ''none'')
      else if n = ''fast'' then Inr (Some 1, ''deflate-1'')
      else if n = ''standard'' then Inr (Some 6, ''deflate-6'')
      else if n = ''maximum'' then Inr (Some 9, ''deflate-9'')
      else Inl Bad_compression)"

section \<open>Paths\<close>

definition safe_relative_path :: "string \<Rightarrow> (backup_error, path) result" where
  "safe_relative_path value =
     (if value = [] \<or> CHR 0x00 \<in> set value \<or> CHR 0x5C \<in> set value \<or> hd value = CHR ''/'' then Inl (Unsafe_path value)
      else if ''..'' \<in> set (path_of_string value) then Inl (Unsafe_path value)
      else Inr (path_of_string value))"

text \<open>The destination is a fresh directory without links, so resolving adds nothing.\<close>

definition contained_target :: "path \<Rightarrow> path \<Rightarrow> (backup_error, path) result" where
  "contained_target dest relative = (if relative = [] then Inl Path_escapes else Inr (dest @ relative))"

section \<open>Sizes\<close>

definition backup_file_limit :: "backup_env \<Rightarrow> bool \<Rightarrow> bool \<Rightarrow> nat" where
  "backup_file_limit e cache client = (if cache \<or> client then bl_file (bk_cache_limits e) else bl_file (bk_limits e))"

definition validate_backup_file_size :: "backup_env \<Rightarrow> bool \<Rightarrow> bool \<Rightarrow> string \<Rightarrow> (backup_error, unit) result" where
  "validate_backup_file_size e cache client bytes =
     (if bytes = [] then Inl File_empty
      else if backup_file_limit e cache client < length bytes then Inl (File_too_large (backup_file_limit e cache client))
      else Inr ())"

section \<open>The envelope\<close>

definition backup_magic :: string where
  "backup_magic = ''BBM-BACKUP-1'' @ [newline]"

text \<open>\<open>struct.pack(">I", n)\<close> and back, for numbers below \<open>2^32\<close>.\<close>

definition be32 :: "nat \<Rightarrow> string" where
  "be32 n = map (\<lambda>k. char_of (n div k mod 256)) [16777216, 65536, 256, 1]"

definition un_be32 :: "string \<Rightarrow> nat" where
  "un_be32 s = fold (\<lambda>c n. 256 * n + char_code c) s 0"

definition backup_header :: "(string \<times> json) list \<Rightarrow> string \<Rightarrow> string \<Rightarrow> (string \<times> json) list" where
  "backup_header m salt nonce =
     (let flag = (\<lambda>k. (k, JBool (json_truthy (json_get k m)))); keep = (\<lambda>k. (k, json_get k m));
          number = (\<lambda>k. (k, JInt (or_else (json_whole (json_get k m)) 0))) in
      [(''format'', JStr ''borgbackup-manager-encrypted-backup''), (''format_version'', JInt 2), keep ''app_version'', keep ''created_at'',
       keep ''label'', (''backup_type'', JStr (backup_type_from_manifest m)), (''content_format'', json_get ''format'' m),
       (''encrypted'', JBool True), (''cipher'', JStr ''AES-256-GCM-stream''), (''kdf'', JStr ''scrypt-n32768-r8-p1''),
       (''salt'', JStr (b64encode salt)), (''nonce'', JStr (b64encode nonce)), (''tag_bytes'', JInt 16),
       flag ''borg_cache_included'', flag ''borg_security_included'', flag ''client_borg_cache_included'',
       number ''client_borg_cache_target_count'', number ''client_borg_cache_saved_count'',
       number ''client_borg_cache_missing_count'', number ''client_borg_cache_skipped_count'',
       number ''client_borg_cache_warning_count'', flag ''client_borg_security_included'',
       number ''client_borg_security_saved_count'', number ''client_borg_security_missing_count'',
       number ''client_borg_security_unresolved_count'', keep ''cache_artifact_kind'', keep ''source_host_id'', keep ''source_host_name'',
       (''compression'', or_else (map_of m ''compression'') (JStr ''deflate-6''))])"

definition derive_backup_key :: "backup_env \<Rightarrow> string \<Rightarrow> string \<Rightarrow> (backup_error, string) result" where
  "derive_backup_key e passphrase salt =
     (if length passphrase < 8 then Inl Passphrase_short else Inr (bk_kdf e (utf8_encode passphrase) salt))"

definition envelope_start :: "backup_env \<Rightarrow> (string \<times> json) list \<Rightarrow> string" where
  "envelope_start e header = backup_magic @ be32 (length (bk_dumps e (JObj header))) @ bk_dumps e (JObj header)"

text \<open>\<open>salt\<close> and \<open>nonce\<close> are the 16 and 12 random bytes; the stream is sealed as a whole.\<close>

definition encrypt_backup ::
    "backup_env \<Rightarrow> string \<Rightarrow> string \<Rightarrow> string \<Rightarrow> (string \<times> json) list \<Rightarrow> string \<Rightarrow> (backup_error, string) result" where
  "encrypt_backup e salt nonce passphrase m plain =
     (if length passphrase < 12 then Inl Passphrase_short
      else if list_ex (\<lambda>c. char_code c \<in> {0, 10, 13}) passphrase then Inl Passphrase_lines
      else try_bind (derive_backup_key e passphrase salt) (\<lambda>key.
        let start = envelope_start e (backup_header m salt nonce) in
        case bk_seal e key nonce start plain of (cipher, tag) \<Rightarrow> Inr (start @ cipher @ tag)))"

definition read_encrypted_header ::
    "backup_env \<Rightarrow> bool \<Rightarrow> string \<Rightarrow> (backup_error, (string \<times> json) list \<times> string \<times> nat) result" where
  "read_encrypted_header e validate_size bytes =
     (let rest = drop 13 bytes; n = un_be32 (take 4 rest); text = take n (drop 4 rest) in
      if bytes = [] then Inl File_empty
      else if take 13 bytes \<noteq> backup_magic then Inl Unknown_magic
      else if length (take 4 rest) \<noteq> 4 then Inl Header_incomplete
      else if n < 32 \<or> 65536 < n then Inl (Header_size n)
      else if length text \<noteq> n then Inl Header_incomplete
      else case jl_loads (bk_json e) text of
        None \<Rightarrow> Inl Header_invalid
      | Some (JObj h) \<Rightarrow>
          if json_get ''format'' h \<noteq> JStr ''borgbackup-manager-encrypted-backup'' then Inl Not_an_envelope
          else try_bind (require_supported_backup_version (bk_json e) h) (\<lambda>_.
            if \<not> json_equals 2 (json_get ''format_version'' h) \<or> json_get ''cipher'' h \<noteq> JStr ''AES-256-GCM-stream''
            then Inl Cipher_unsupported
            else try_bind (if \<not> validate_size then Inr () else validate_backup_file_size e
                (json_truthy (json_get ''borg_cache_included'' h)) (json_truthy (json_get ''client_borg_cache_included'' h)) bytes)
              (\<lambda>_. Inr (h, take (17 + n) bytes, 17 + n)))
      | Some v \<Rightarrow> Inl Python_error)"

text \<open>\<open>base64.b64decode(value, validate=True)\<close> of a member of the header; other values are no text.\<close>

definition b64_strict :: "json \<Rightarrow> string option" where
  "b64_strict v =
     (case v of
        JStr s \<Rightarrow>
          (let body = rstrip_by (\<lambda>c. c = CHR ''='') s in
           if length s mod 4 = 0 \<and> length s - length body \<le> 2 \<and>
              list_all (\<lambda>c. is_ascii c \<and> is_alnum c \<or> c \<in> set ''+/'') body
           then b64decode s else None)
      | _ \<Rightarrow> None)"

text \<open>\<open>int\<close> of a member of the header.\<close>

fun json_number :: "json \<Rightarrow> int option" where
  "json_number (JInt n) = Some n"
| "json_number (JFloat x) = json_whole (JFloat x)"
| "json_number (JBool b) = json_whole (JBool b)"
| "json_number (JStr s) = parse_int s"
| "json_number v = None"

definition decrypt_backup :: "backup_env \<Rightarrow> string option \<Rightarrow> string \<Rightarrow> (backup_error, string) result" where
  "decrypt_backup e passphrase bytes =
     (if \<not> truthy passphrase then Inl Passphrase_missing
      else try_bind (read_encrypted_header e True bytes) (\<lambda>(h, aad, offset).
        case (b64_strict (json_get ''salt'' h), b64_strict (json_get ''nonce'' h)) of
          (Some salt, Some nonce) \<Rightarrow>
            try_bind (derive_backup_key e (or_empty passphrase) salt) (\<lambda>key.
              if json_number (or_else (map_of h ''tag_bytes'') (JInt 16)) \<noteq> Some 16 then Inl Bad_tag_size
              else if length bytes \<le> offset + 16 then Inl Payload_incomplete
              else (let body = drop offset bytes; k = length body - 16 in
                case bk_open e key nonce aad (take k body) (drop k body) of
                  None \<Rightarrow> Inl Wrong_key_or_changed
                | Some plain \<Rightarrow> Inr plain))
        | _ \<Rightarrow> Inl Bad_parameters))"

section \<open>Manifests\<close>

definition zip_member :: "string \<Rightarrow> zip_entry list \<Rightarrow> zip_entry option" where
  "zip_member name entries = find (\<lambda>z. ze_name z = name) (rev entries)"

definition json_of_bytes :: "json_lib \<Rightarrow> string \<Rightarrow> json option" where
  "json_of_bytes lib bytes = (case utf8_decode bytes of None \<Rightarrow> None | Some t \<Rightarrow> jl_loads lib t)"

text \<open>\<open>int(value or 0)\<close> may raise.\<close>

definition read_any_backup_manifest :: "backup_env \<Rightarrow> zip_entry list \<Rightarrow> (backup_error, (string \<times> json) list) result" where
  "read_any_backup_manifest e entries =
     (case zip_member ''manifest.json'' entries of
        None \<Rightarrow> Inl Manifest_missing
      | Some z \<Rightarrow>
          if ze_size z < 2 \<or> 1048576 < ze_size z then Inl Manifest_size
          else case json_of_bytes (bk_json e) (ze_data z) of
            None \<Rightarrow> Inl Manifest_invalid
          | Some (JObj m) \<Rightarrow>
              (let full = (json_get ''format'' m = JStr ''borgbackup-manager-full-backup'') in
               if \<not> full \<and> json_get ''format'' m \<noteq> JStr ''borgbackup-manager-cache-backup'' then Inl Not_a_backup
               else try_bind (require_supported_backup_version (bk_json e) m) (\<lambda>_.
                 case json_whole (json_get ''format_version'' m) of
                   None \<Rightarrow> Inl Python_error
                 | Some v \<Rightarrow> if v \<noteq> (if full then 7 else 2) then Inl Format_unsupported else Inr m))
          | Some v \<Rightarrow> Inl Not_a_backup)"

definition read_cache_backup_manifest :: "backup_env \<Rightarrow> zip_entry list \<Rightarrow> (backup_error, (string \<times> json) list) result" where
  "read_cache_backup_manifest e entries =
     try_bind (read_any_backup_manifest e entries) (\<lambda>m.
       let kind = json_text (bk_json e) (json_get ''cache_artifact_kind'' m) in
       if backup_type_from_manifest m \<noteq> ''cache'' then Inl Not_a_cache_backup
       else if kind \<notin> {''manager'', ''client''} then Inl Bad_artifact_kind
       else if kind = ''manager'' \<and> json_truthy (json_get ''client_borg_cache_included'' m) then Inl Unexpected_client_cache
       else if kind = ''client'' \<and> json_truthy (json_get ''borg_cache_included'' m) then Inl Unexpected_manager_cache
       else Inr m)"

text \<open>\<open>plain_backup_file\<close>: the bytes of the ZIP file behind a backup.\<close>

definition zip_entries :: "backup_env \<Rightarrow> string \<Rightarrow> (backup_error, zip_entry list) result" where
  "zip_entries e bytes = (case bk_unzip e bytes of None \<Rightarrow> Inl Not_a_zip | Some z \<Rightarrow> Inr z)"

definition plain_backup_file :: "backup_env \<Rightarrow> string \<Rightarrow> string \<Rightarrow> string option \<Rightarrow> (backup_error, string) result" where
  "plain_backup_file e name bytes passphrase =
     (if ends_with ''.zip'' name
      then try_bind (zip_entries e bytes) (\<lambda>entries. try_bind (read_any_backup_manifest e entries) (\<lambda>m.
        try_bind (validate_backup_file_size e
            (json_truthy (json_get ''borg_cache_included'' m) \<or> backup_type_from_manifest m = ''cache'')
            (json_truthy (json_get ''client_borg_cache_included'' m)) bytes) (\<lambda>_. Inr bytes)))
      else decrypt_backup e passphrase bytes)"

section \<open>Unpacking\<close>

type_synonym extracted = "path \<times> string \<times> nat option"

definition entry_is_dir :: "zip_entry \<Rightarrow> bool" where
  "entry_is_dir z = ends_with ''/'' (ze_name z)"

definition entry_path :: "zip_entry \<Rightarrow> (backup_error, path) result" where
  "entry_path z = safe_relative_path
     (if entry_is_dir z then rstrip_by (\<lambda>c. c = CHR ''/'') (ze_name z) else ze_name z)"

definition manifest_limits :: "backup_env \<Rightarrow> (string \<times> json) list \<Rightarrow> backup_limits" where
  "manifest_limits e m =
     (if json_truthy (json_get ''borg_cache_included'' m) \<or> json_truthy (json_get ''client_borg_cache_included'' m)
      then bk_cache_limits e else bk_limits e)"

text \<open>The file type bits \<open>0o170000\<close> of a symbolic link are \<open>0o120000\<close>.\<close>

definition is_symlink_mode :: "nat \<Rightarrow> bool" where
  "is_symlink_mode mode = (mode div 4096 mod 16 = 10)"

text \<open>The names so far, the sizes so far.\<close>

fun check_entries :: "backup_limits \<Rightarrow> path list \<Rightarrow> nat \<Rightarrow> nat \<Rightarrow> zip_entry list \<Rightarrow> (backup_error, nat \<times> nat) result" where
  "check_entries l seen used packed [] = Inr (used, packed)"
| "check_entries l seen used packed (z # zs) =
     try_bind (entry_path z) (\<lambda>p.
       if p \<in> set seen then Inl (Duplicate_entry (ze_name z))
       else if p = [] then Inl Path_escapes
       else if is_symlink_mode (ze_mode z) then Inl (Symlink_entry (ze_name z))
       else if ze_size z \<noteq> 0 \<and> bl_ratio l * max 1 (ze_packed z) < ze_size z then Inl (Entry_ratio (ze_name z))
       else if bl_uncompressed l < used + ze_size z then Inl Content_too_large
       else check_entries l (p # seen) (used + ze_size z) (packed + ze_packed z) zs)"

definition kept_entries :: "string list \<Rightarrow> zip_entry list \<Rightarrow> zip_entry list" where
  "kept_entries skip entries =
     filter (\<lambda>z. case entry_path z of Inl _ \<Rightarrow> False
       | Inr p \<Rightarrow> \<not> list_ex (\<lambda>prefix. starts_with prefix (join_with ''/'' p)) skip) entries"

text \<open>A file of the archive has at most as many bytes as it declares.\<close>

definition extracted_files :: "zip_entry list \<Rightarrow> (path \<times> string) list" where
  "extracted_files entries =
     List.map_filter (\<lambda>z. if entry_is_dir z then None
       else case entry_path z of Inl _ \<Rightarrow> None | Inr p \<Rightarrow> Some (p, take (ze_size z) (ze_data z))) entries"

definition extracted_dirs :: "zip_entry list \<Rightarrow> path list" where
  "extracted_dirs entries =
     List.map_filter (\<lambda>z. if entry_is_dir z then (case entry_path z of Inl _ \<Rightarrow> None | Inr p \<Rightarrow> Some p) else None) entries"

text \<open>A file where another entry needs a directory raises.\<close>

definition tree_conflict :: "path list \<Rightarrow> (path \<times> string) list \<Rightarrow> bool" where
  "tree_conflict dirs files =
     list_ex (\<lambda>f. list_ex (\<lambda>g. fst f \<noteq> fst g \<and> path_within (fst f) (fst g)) files \<or> list_ex (path_within (fst f)) dirs) files"

fun permission_modes :: "(string \<times> json) list \<Rightarrow> (backup_error, (path \<times> nat) list) result" where
  "permission_modes [] = Inr []"
| "permission_modes ((k, v) # rest) =
     (case v of
        JInt n \<Rightarrow>
          if n < 0 \<or> 4095 < n then Inl Permissions_invalid
          else try_bind (safe_relative_path k) (\<lambda>p. if p = [] then Inl Path_escapes
            else try_bind (permission_modes rest) (\<lambda>ms. Inr ((p, nat n mod 512) # ms)))
      | _ \<Rightarrow> Inl Permissions_invalid)"

definition with_permissions :: "backup_env \<Rightarrow> backup_limits \<Rightarrow> (path \<times> string) list \<Rightarrow> (backup_error, extracted list) result" where
  "with_permissions e l files =
     (case map_of files [''permissions.json''] of
        None \<Rightarrow> Inr (map (\<lambda>(p, d). (p, d, None)) files)
      | Some bytes \<Rightarrow>
          (case json_of_bytes (bk_json e) bytes of
             Some (JObj d) \<Rightarrow>
               if bl_entries l < length d then Inl Permissions_invalid
               else try_bind (permission_modes d) (\<lambda>ms. Inr (map (\<lambda>(p, data). (p, data, map_of (rev ms) p)) files))
           | _ \<Rightarrow> Inl Permissions_invalid))"

text \<open>The directories and the files below the destination, with the modes that were set.\<close>

definition safe_extract :: "backup_env \<Rightarrow> string list \<Rightarrow> zip_entry list \<Rightarrow>
     (backup_error, (string \<times> json) list \<times> path list \<times> extracted list) result" where
  "safe_extract e skip entries =
     try_bind (read_any_backup_manifest e entries) (\<lambda>m.
       let l = manifest_limits e m in
       if bl_entries l < length entries then Inl Too_many_entries
       else try_bind (check_entries l [] 0 0 entries) (\<lambda>(used, packed).
         if used \<noteq> 0 \<and> bl_ratio l * max 1 packed < used then Inl Ratio_too_high
         else (let kept = kept_entries skip entries; files = extracted_files kept; dirs = extracted_dirs kept in
           if tree_conflict dirs files then Inl Python_error
           else try_bind (with_permissions e l files) (\<lambda>xs. Inr (m, dirs, xs)))))"

end
