(* ===== verification/BackupCreate.thy ===== *)
theory BackupCreate
  imports BackupFormat
begin

text \<open>
  Writing backups, \<open>src/app/backups.py\<close>: the checks of the databases and the master key, the ZIP file of a
  manager backup, the cache files of the manager and of the devices. SQLite and Fernet are arguments, and so is
  what collects the caches of a device.
\<close>

section \<open>Environment\<close>

text \<open>
  What reading \<open>security.db\<close> shows: tables, number of accounts, secrets (scope, name, value), second factors
  and the commands of SSH actions, where the columns exist.
\<close>

record security_tables =
  st_tables :: "string list"
  st_users :: nat
  st_secrets :: "(string \<times> string \<times> string) list"
  st_two_factor :: "string list"
  st_actions :: "string list"

text \<open>
  \<open>sq_check\<close> is the answer of \<open>PRAGMA quick_check\<close>, \<open>sq_snapshot\<close> the backup of a database,
  \<open>sq_without_sessions\<close> the deletion of sessions and reload tokens.
\<close>

record sqlite_env =
  sq_check :: "string \<Rightarrow> string option"
  sq_security :: "string \<Rightarrow> security_tables option"
  sq_snapshot :: "string \<Rightarrow> string"
  sq_without_sessions :: "string \<Rightarrow> string"
  fernet_key :: "string \<Rightarrow> bool"
  fernet_opens :: "string \<Rightarrow> string \<Rightarrow> bool"

record manager_files =
  mf_url :: string
  mf_database :: "string option"
  mf_settings :: "string option"
  mf_notifications :: "string option"
  mf_security :: "string option"
  mf_master_key :: "string option"
  mf_environment :: "string \<Rightarrow> string"

section \<open>The databases and the key\<close>

definition database_path :: "string \<Rightarrow> (backup_error, string) result" where
  "database_path url =
     (if \<not> starts_with ''sqlite:///'' url \<or> url \<in> {''sqlite://'', ''sqlite:///:memory:''} then Inl Database_unsupported
      else Inr (drop 10 url))"

definition sqlite_integrity_check :: "sqlite_env \<Rightarrow> string option \<Rightarrow> (backup_error, unit) result" where
  "sqlite_integrity_check q file =
     (case file of None \<Rightarrow> Inl Database_missing
      | Some bytes \<Rightarrow>
          (case sq_check q bytes of None \<Rightarrow> Inl Database_damaged
           | Some t \<Rightarrow> if py_lower t = ''ok'' then Inr () else Inl Database_damaged))"

definition required_system_secrets :: "string list" where
  "required_system_secrets = [''controller_private_key'', ''controller_public_key'', ''repository_ssh_host_private_key'',
     ''repository_ssh_host_public_key'', ''tls_certificate'', ''tls_private_key'']"

definition secret_readable :: "sqlite_env \<Rightarrow> string \<Rightarrow> string \<Rightarrow> (backup_error, unit) result" where
  "secret_readable q key v =
     (if \<not> starts_with ''v2:'' v then Inl Secret_format
      else if \<not> list_all is_ascii v \<or> \<not> fernet_opens q key (drop 3 v) then Inl Secret_undecryptable
      else Inr ())"

fun secrets_readable :: "sqlite_env \<Rightarrow> string \<Rightarrow> string list \<Rightarrow> (backup_error, unit) result" where
  "secrets_readable q key [] = Inr ()"
| "secrets_readable q key (v # vs) = try_bind (secret_readable q key v) (\<lambda>_. secrets_readable q key vs)"

definition system_secret_names :: "security_tables \<Rightarrow> string list" where
  "system_secret_names t = remdups (map (\<lambda>(scope, name, v). name) (filter (\<lambda>(scope, name, v). scope = ''system'') (st_secrets t)))"

definition security_inventory :: "security_tables \<Rightarrow> (string \<times> json) list" where
  "security_inventory t =
     (let number = (\<lambda>n. JInt (int n)) in
      [(''users'', number (st_users t)), (''secrets'', number (length (st_secrets t))),
       (''system_secrets'', number (length (system_secret_names t))), (''two_factor_users'', number (length (st_two_factor t))),
       (''host_ssh_actions'', number (length (st_actions t)))])"

definition bytes_strip :: "string \<Rightarrow> string" where
  "bytes_strip = strip_by (\<lambda>c. char_code c \<in> {9, 10, 11, 12, 13, 32})"

definition validate_security_backup_pair ::
    "sqlite_env \<Rightarrow> bool \<Rightarrow> string option \<Rightarrow> string option \<Rightarrow> (backup_error, (string \<times> json) list) result" where
  "validate_security_backup_pair q require_runtime_identity database key_file =
     try_bind (sqlite_integrity_check q database) (\<lambda>_.
       case key_file of None \<Rightarrow> Inl Key_missing
       | Some raw \<Rightarrow>
           (let key = bytes_strip raw in
            if \<not> fernet_key q key then Inl Key_invalid
            else case sq_security q (or_empty database) of None \<Rightarrow> Inl Database_damaged
            | Some t \<Rightarrow>
                if \<not> {''users'', ''secrets''} \<subseteq> set (st_tables t) then Inl Security_incomplete
                else if st_users t < 1 then Inl No_accounts
                else try_bind (secrets_readable q key (map (\<lambda>(scope, name, v). v) (st_secrets t))) (\<lambda>_.
                  try_bind (secrets_readable q key (st_two_factor t)) (\<lambda>_.
                  try_bind (secrets_readable q key (st_actions t)) (\<lambda>_.
                    if require_runtime_identity \<and> \<not> set required_system_secrets \<subseteq> set (system_secret_names t) then Inl Identities_missing
                    else Inr (security_inventory t))))))"

section \<open>The ZIP file of a manager backup\<close>

definition environment_keys :: "string list" where
  "environment_keys =
    [''TZ'', ''BBM_HTTPS_PORT'', ''BBM_TLS_HOSTS'', ''BBM_SESSION_TTL_SECONDS'',
     ''BBM_SESSION_IDLE_TIMEOUT_SECONDS'', ''BBM_SESSION_COOKIE_NAME'', ''BBM_SESSION_COOKIE_SECURE'',
     ''BBM_TRUSTED_PROXY_CIDRS'', ''BBM_LOGIN_RATE_WINDOW_SECONDS'', ''BBM_LOGIN_RATE_BLOCK_SECONDS'',
     ''BBM_LOGIN_RATE_MAX_PER_IP'', ''BBM_LOGIN_RATE_MAX_PER_IP_USER'',
     ''BBM_SECURITY_EVENT_RETENTION_DAYS'', ''BBM_SECURITY_EVENT_MAX_ROWS'',
     ''BBM_BACKUP_MAX_FILE_BYTES'', ''BBM_BACKUP_MAX_UNCOMPRESSED_BYTES'',
     ''BBM_BACKUP_MAX_ENTRIES'', ''BBM_BACKUP_MAX_COMPRESSION_RATIO'',
     ''BBM_BACKUP_CACHE_MAX_FILE_BYTES'', ''BBM_BACKUP_CACHE_MAX_UNCOMPRESSED_BYTES'',
     ''BBM_BACKUP_CACHE_MAX_ENTRIES'', ''BBM_BACKUP_CACHE_MAX_COMPRESSION_RATIO'',
     ''BBM_COMMAND_TIMEOUT'', ''BBM_APPEARANCE'',
     ''BBM_REPOSITORY_SIZE_AFTER_RUN'', ''BBM_REPOSITORY_PUBLIC_HOST'',
     ''BBM_REPOSITORY_SSH_PORT'', ''BBM_BORG_UID'', ''BBM_BORG_GID'',
     ''BBM_STORAGE_GUARD_ENABLED'', ''BBM_STORAGE_GUARD_THRESHOLD_PERCENT'',
     ''BBM_HEALTH_REQUIRE_SSHD'', ''BBM_LOG_MAX_BYTES'', ''BBM_LOG_ROTATIONS'',
     ''BBM_DATA_PATH'', ''BBM_REPOSITORY_PATH'', ''BBM_ARCHIVE_MOUNT_PATH'']"

fun environment_lines :: "(string \<Rightarrow> string) \<Rightarrow> string list \<Rightarrow> (backup_error, string list) result" where
  "environment_lines env [] = Inr []"
| "environment_lines env (k # ks) =
     (if list_ex (\<lambda>c. char_code c \<in> {10, 13}) (env k) then Inl (Environment_line k)
      else try_bind (environment_lines env ks) (\<lambda>ls. Inr ((k @ ''='' @ env k) # ls)))"

definition environment_snapshot :: "(string \<Rightarrow> string) \<Rightarrow> (backup_error, string) result" where
  "environment_snapshot env =
     try_bind (environment_lines env environment_keys) (\<lambda>ls. Inr (join_with [newline] ls @ [newline]))"

text \<open>A member of the ZIP file; a regular file has \<open>0o100000\<close> in its mode.\<close>

definition packed_entry :: "backup_env \<Rightarrow> string \<Rightarrow> string \<Rightarrow> string \<Rightarrow> zip_entry" where
  "packed_entry e compression name bytes =
     \<lparr>ze_name = name, ze_mode = 33152, ze_size = length bytes, ze_packed = bk_packed e compression bytes, ze_data = bytes\<rparr>"

definition json_file :: "backup_env \<Rightarrow> (string \<times> json) list \<Rightarrow> string" where
  "json_file e d = utf8_encode (bk_pretty e (JObj d) @ [newline])"

definition full_manifest :: "string \<Rightarrow> string \<Rightarrow> string \<Rightarrow> string \<Rightarrow> (string \<times> json) list \<Rightarrow> (string \<times> json) list" where
  "full_manifest now version label compression inventory =
     (let names = (\<lambda>xs. JList (map JStr xs)) in
     [(''format'', JStr ''borgbackup-manager-full-backup''), (''format_version'', JInt 7), (''backup_type'', JStr ''manager''),
      (''app_version'', JStr version), (''created_at'', JStr now), (''label'', JStr label), (''encrypted'', JBool False),
      (''repository_data_included'', JBool False), (''run_logs_included'', JBool False), (''borg_cache_included'', JBool False),
      (''borg_security_included'', JBool False), (''client_borg_cache_included'', JBool False), (''compression'', JStr compression),
      (''includes'', names [''database'', ''security_database'', ''master_key'', ''settings'', ''notification_settings'',
         ''environment_snapshot'', ''controller_keys'', ''repository_ssh_host_keys'', ''repository_credentials'', ''borg_keyfiles'',
         ''tls_material'', ''notification_secrets'']),
      (''security_inventory'', JObj inventory),
      (''regenerable_not_included'', names [''authorized_keys'', ''runtime_secret_files'', ''run_logs'', ''debug_logs'', ''exports'',
         ''backup_artifacts'', ''archive_cache'', ''borg_cache'', ''borg_security''])])"

text \<open>The files of the manager in the backup, in the order they are written, and their modes \<open>0o600\<close>.\<close>

definition saved_files :: "manager_files \<Rightarrow> string \<Rightarrow> string \<Rightarrow> string \<Rightarrow> (string \<times> string) list" where
  "saved_files f database security key =
     [(''data/manager.db'', database)] @
     (case mf_settings f of None \<Rightarrow> [] | Some b \<Rightarrow> [(''data/settings.json'', b)]) @
     (case mf_notifications f of None \<Rightarrow> [] | Some b \<Rightarrow> [(''data/notifications.json'', b)]) @
     [(''data/security/security.db'', security), (''data/security/master.key'', key)]"

definition saved_permissions :: "(string \<times> string) list \<Rightarrow> (string \<times> json) list" where
  "saved_permissions files = map (\<lambda>(name, b). (name, JInt 384)) (sort_key (\<lambda>(name, b). map char_code name) files)"

definition write_plain_backup :: "backup_env \<Rightarrow> sqlite_env \<Rightarrow> string \<Rightarrow> string \<Rightarrow> string \<Rightarrow> string \<Rightarrow> manager_files \<Rightarrow>
     (backup_error, (string \<times> json) list \<times> zip_entry list) result" where
  "write_plain_backup e q now version label compression f =
     try_bind (database_path (mf_url f)) (\<lambda>_.
     try_bind (sqlite_integrity_check q (mf_database f)) (\<lambda>_.
     try_bind (validate_security_backup_pair q True (mf_security f) (mf_master_key f)) (\<lambda>inventory.
       let database = sq_snapshot q (or_empty (mf_database f));
           security = sq_without_sessions q (sq_snapshot q (or_empty (mf_security f))) in
       try_bind (sqlite_integrity_check q (Some database)) (\<lambda>_.
       try_bind (compression_settings compression) (\<lambda>(level, cname).
       try_bind (environment_snapshot (mf_environment f)) (\<lambda>env.
       try_bind (validate_security_backup_pair q True (Some security) (mf_master_key f)) (\<lambda>inventory'.
         if inventory' \<noteq> inventory then Inl Snapshot_differs
         else (let m = full_manifest now version label cname inventory;
                   files = saved_files f database security (or_empty (mf_master_key f)) in
           Inr (m, map (\<lambda>(name, b). packed_entry e cname name b)
             ((''migration.env'', utf8_encode env) # files @
              [(''manifest.json'', json_file e m), (''permissions.json'', json_file e (saved_permissions files))]))))))))))"

section \<open>A manager backup\<close>

type_synonym backup_dir = "string \<Rightarrow> string option"

definition manager_backup_file_name :: "string \<Rightarrow> string \<Rightarrow> string \<Rightarrow> string" where
  "manager_backup_file_name version stamp label =
     ''borgbackup-manager-backup-v'' @ version @ ''-'' @ stamp @ ''-'' @ label_of label @ ''.bbm''"

definition or_manual :: "string \<Rightarrow> string" where
  "or_manual label = (if py_strip label = [] then ''Manuell'' else py_strip label)"

text \<open>The name of the new file, and the directory afterwards. A file of the same name is replaced, or lost.\<close>

definition create_full_backup ::
    "backup_env \<Rightarrow> sqlite_env \<Rightarrow> string \<Rightarrow> string \<Rightarrow> string \<Rightarrow> string \<Rightarrow> string \<Rightarrow> string \<Rightarrow> string option \<Rightarrow> string \<Rightarrow>
     manager_files \<Rightarrow> backup_dir \<Rightarrow> (backup_error, string) result \<times> backup_dir" where
  "create_full_backup e q salt nonce now stamp version label passphrase compression f dir =
     (if \<not> truthy passphrase then (Inl Unencrypted, dir)
      else case write_plain_backup e q now version (or_manual label) compression f of
        Inl err \<Rightarrow> (Inl err, dir)
      | Inr (m, entries) \<Rightarrow>
          (let name = manager_backup_file_name version stamp label in
           case try_bind (encrypt_backup e salt nonce (or_empty passphrase) m (bk_zip e compression entries))
               (\<lambda>bytes. try_bind (validate_backup_file_size e False False bytes) (\<lambda>_. Inr bytes)) of
             Inl err \<Rightarrow> (Inl err, dir(name := None))
           | Inr bytes \<Rightarrow> (Inr name, dir(name := Some bytes))))"

section \<open>Snapshots left behind\<close>

text \<open>
  The files of the data directory with their times. A family is a base and its two sidecars; it goes when the base is missing or
  all of it is old.
\<close>

definition security_snapshot_name :: "string \<Rightarrow> bool" where
  "security_snapshot_name n \<longleftrightarrow> starts_with ''bbm-security-'' n \<and> contains ''.sqlite3'' (drop 13 n)"

definition snapshot_base :: "string \<Rightarrow> string" where
  "snapshot_base n = (if ends_with ''-wal'' n \<or> ends_with ''-shm'' n then take (length n - 4) n else n)"

definition snapshot_family :: "string \<Rightarrow> (string \<times> int) list \<Rightarrow> (string \<times> int) list" where
  "snapshot_family b files = filter (\<lambda>(n, t). n \<in> {b, b @ ''-wal'', b @ ''-shm''}) files"

definition stale_family :: "int \<Rightarrow> (string \<times> int) list \<Rightarrow> string \<Rightarrow> bool" where
  "stale_family cutoff files b \<longleftrightarrow>
     b \<notin> fst ` set files \<or> list_all (\<lambda>(n, t). t < cutoff) (snapshot_family b files)"

definition cleanup_stale_security_snapshots :: "int \<Rightarrow> int \<Rightarrow> (string \<times> int) list \<Rightarrow> (string \<times> int) list \<times> nat" where
  "cleanup_stale_security_snapshots now older_than files =
     (let bases = remdups (map snapshot_base (filter security_snapshot_name (map fst files)));
          gone = concat (map (\<lambda>b. snapshot_family b files) (filter (stale_family (now - max 60 older_than) files) bases)) in
      (filter (\<lambda>f. f \<notin> set gone) files, length gone))"

end
