(* ===== verification/ClientTransfer.thy ===== *)
theory ClientTransfer
  imports BackupFormat InventoryRepositories
begin

text \<open>
  The Borg caches of the devices, \<open>src/app/client_cache.py\<close>: which device and repository pairs are saved, what
  is read from the SSH process, the entries of the manifest and the way back to a device. What an SSH process
  gave is an argument; the commands are those of \<open>Builders\<close>.
\<close>

section \<open>Processes\<close>

text \<open>
  What a process gave: output, error text, exit code, the time limit, an error while writing to it.
  A process that could not be started is \<open>None\<close>.
\<close>

record ssh_run =
  sr_output :: string
  sr_error :: string
  sr_code :: int
  sr_timed_out :: bool
  sr_write_error :: "string option"

datatype transfer_error =
    Not_started | Timed_out | Bad_answer string | Exit_code int string | Bad_repository_id | No_repository_id
  | Not_confirmed

definition safe_error_text :: "string \<Rightarrow> nat \<Rightarrow> string" where
  "safe_error_text value limit =
     (let text = py_strip (filter (\<lambda>c. c \<noteq> CHR 0x00) value) in
      if text = [] then ''Unbekannter SSH-/Tar-Fehler'' else drop (length text - limit) text)"

text \<open>\<open>readline(256)\<close>: up to the next line feed, at most 256 bytes.\<close>

definition read_line :: "string \<Rightarrow> string \<times> string" where
  "read_line s =
     (let l = takeWhile (\<lambda>c. c \<noteq> newline) s; n = min 256 (if length l < length s then Suc (length l) else length l) in
      (take n s, drop n s))"

text \<open>\<open>run_text_command\<close>: the output of a command that succeeded.\<close>

definition run_text_command :: "(string \<Rightarrow> string) \<Rightarrow> ssh_run option \<Rightarrow> (transfer_error, string) result" where
  "run_text_command dec p =
     (case p of None \<Rightarrow> Inl Not_started
      | Some r \<Rightarrow>
          if sr_timed_out r then Inl Timed_out
          else if sr_code r \<noteq> 0 then Inl (Exit_code (sr_code r) (safe_error_text (dec (sr_error r)) 4000))
          else Inr (dec (sr_output r)))"

section \<open>Which caches\<close>

text \<open>The pairs in the order of the names, each once; \<open>None\<close> takes every device.\<close>

fun first_pairs :: "(nat \<times> nat) list \<Rightarrow> (host \<times> repository) list \<Rightarrow> (host \<times> repository) list" where
  "first_pairs seen [] = []"
| "first_pairs seen ((h, r) # xs) =
     (if (ho_id h, rp_id r) \<in> set seen then first_pairs seen xs
      else (h, r) # first_pairs ((ho_id h, rp_id r) # seen) xs)"

definition joined_rows :: "manager_db \<Rightarrow> (job \<times> host \<times> repository) list" where
  "joined_rows db = List.map_filter (\<lambda>j.
     case (get_host db (jb_host_id j), get_repository db (jb_repository_id j)) of
       (Some h, Some r) \<Rightarrow> Some (j, h, r) | _ \<Rightarrow> None) (db_jobs db)"

definition target_rows :: "int list option \<Rightarrow> manager_db \<Rightarrow> (host \<times> repository) list" where
  "target_rows host_ids db =
     first_pairs [] (map snd (sort_key (\<lambda>(j, h, r). (map char_code (ho_name h), ho_id h, map char_code (rp_name r), rp_id r, jb_id j))
       (filter (\<lambda>(j, h, r). case host_ids of None \<Rightarrow> True | Some ids \<Rightarrow> int (ho_id h) \<in> set ids) (joined_rows db))))"

definition archive_slug :: "string \<Rightarrow> string \<Rightarrow> string" where
  "archive_slug value fallback =
     (let cleaned = take 64 (strip_by (\<lambda>c. c = CHR ''-'') (label_runs False (py_strip value))) in
      if cleaned = [] then fallback else cleaned)"

definition client_archive_paths :: "host \<Rightarrow> repository \<Rightarrow> string \<times> string" where
  "client_archive_paths h r =
     (let rest = ''/'' @ archive_slug (ho_name h) ''device'' @ ''-h'' @ str_nat (ho_id h) @ ''/'' @
        archive_slug (rp_name r) ''repository'' @ ''-r'' @ str_nat (rp_id r) @ ''.tar'' in
      (''data/client-borg-cache'' @ rest, ''data/client-borg-security'' @ rest))"

definition base_metadata :: "string \<Rightarrow> host \<Rightarrow> repository \<Rightarrow> (string \<times> json) list" where
  "base_metadata now h r =
     [(''host_id'', JInt (int (ho_id h))), (''host_name'', JStr (ho_name h)),
      (''repository_id'', JInt (int (rp_id r))), (''repository_name'', JStr (rp_name r)),
      (''borg_version'', case ho_borg_version h of None \<Rightarrow> JNull | Some v \<Rightarrow> JStr v),
      (''cache_path'', JStr (''$HOME/.cache/borgbackup-manager/repository-'' @ str_nat (rp_id r))),
      (''security_base_path'', JStr ''$HOME/.config/borg/security''), (''collected_at'', JStr now)]"

section \<open>Reading a cache from a device\<close>

text \<open>The file written to the archive so far, and the status: a failed transfer may leave a file behind.\<close>

definition stream_one_cache :: "(string \<Rightarrow> string) \<Rightarrow> ssh_run option \<Rightarrow> string option \<times> (transfer_error, bool \<times> nat) result" where
  "stream_one_cache dec p =
     (case p of None \<Rightarrow> (None, Inl Not_started)
      | Some r \<Rightarrow>
          (case read_line (sr_output r) of (l1, rest1) \<Rightarrow> (case read_line rest1 of (l2, body) \<Rightarrow>
             let protocol = py_strip (dec l1); status = py_strip (dec l2); error = safe_error_text (dec (sr_error r)) 4000 in
             if protocol \<noteq> ''BBM_CLIENT_CACHE_V1'' \<or> status \<notin> {''PRESENT'', ''MISSING''} then (None, Inl (Bad_answer error))
             else (let found = (status = ''PRESENT''); file = (if found then Some body else None) in
               if sr_timed_out r then (file, Inl Timed_out)
               else if sr_code r \<noteq> 0 then (file, Inl (Exit_code (sr_code r) error))
               else (file, Inr (found, if found then length body else 0))))))"

definition valid_borg_id :: "string \<Rightarrow> bool" where
  "valid_borg_id v \<longleftrightarrow> length v = 64 \<and> list_all (\<lambda>c. c \<in> set ''0123456789abcdef'') v"

text \<open>After the three lines: protocol, status and repository id.\<close>

definition security_answer :: "ssh_run \<Rightarrow> string \<Rightarrow> string \<Rightarrow> string \<Rightarrow> string \<Rightarrow> string \<Rightarrow>
     string option \<times> (transfer_error, string \<times> string option \<times> nat) result" where
  "security_answer r error protocol status borg_id body =
     (if protocol \<noteq> ''BBM_CLIENT_SECURITY_V1'' \<or> status \<notin> {''PRESENT'', ''MISSING'', ''UNRESOLVED'', ''ERROR''}
      then (None, Inl (Bad_answer error))
      else if borg_id \<noteq> [] \<and> \<not> valid_borg_id borg_id then (None, Inl Bad_repository_id)
      else if status = ''PRESENT'' \<and> borg_id = [] then (None, Inl No_repository_id)
      else (let file = (if status = ''PRESENT'' then Some body else None) in
        if sr_timed_out r then (file, Inl Timed_out)
        else if sr_code r \<noteq> 0 \<or> status = ''ERROR'' then (file, Inl (Exit_code (sr_code r) error))
        else (file, Inr (if status = ''PRESENT'' then ''saved'' else py_lower status, if borg_id = [] then None else Some borg_id,
          if status = ''PRESENT'' then length body else 0))))"

definition stream_one_security ::
    "(string \<Rightarrow> string) \<Rightarrow> ssh_run option \<Rightarrow> string option \<times> (transfer_error, string \<times> string option \<times> nat) result" where
  "stream_one_security dec p =
     (case p of None \<Rightarrow> (None, Inl Not_started)
      | Some r \<Rightarrow>
          (case read_line (sr_output r) of (l1, rest1) \<Rightarrow> (case read_line rest1 of (l2, rest2) \<Rightarrow> (case read_line rest2 of (l3, body) \<Rightarrow>
             let raw_id = py_lower (py_strip (dec l3)) in
             security_answer r (safe_error_text (dec (sr_error r)) 4000) (py_strip (dec l1)) (py_strip (dec l2))
               (if raw_id = ''-'' then [] else raw_id) body))))"

text \<open>
  \<open>ce_cache\<close> and \<open>ce_security\<close> are the runs of the export commands, \<open>ce_dec\<close> decodes with replacement,
  \<open>ce_reason\<close> is the text of a failure.
\<close>

record client_env =
  ce_cache :: "host \<Rightarrow> repository \<Rightarrow> ssh_run option"
  ce_security :: "host \<Rightarrow> repository \<Rightarrow> ssh_run option"
  ce_dec :: "string \<Rightarrow> string"
  ce_reason :: "host \<Rightarrow> repository \<Rightarrow> transfer_error \<Rightarrow> string"

type_synonym zip_files = "(string \<times> string) list"

definition named_file :: "string \<Rightarrow> string option \<Rightarrow> zip_files" where
  "named_file name b = (case b of None \<Rightarrow> [] | Some bytes \<Rightarrow> [(name, bytes)])"

definition disabled_text :: string where
  "disabled_text = ''Ger'' @ [CHR 0xE4] @ ''t ist deaktiviert und wurde f'' @ [CHR 0xFC] @ ''r das Cache-Backup nicht kontaktiert.''"

definition missing_cache_text :: string where
  "missing_cache_text = ''Auf dem Ger'' @ [CHR 0xE4] @ ''t ist f'' @ [CHR 0xFC] @ ''r dieses Repository noch kein BBM-Borg-Cache vorhanden.''"

definition missing_security_text :: string where
  "missing_security_text =
     ''F'' @ [CHR 0xFC] @ ''r dieses Repository ist auf dem Client noch kein Borg-Sicherheitsstatus vorhanden.''"

definition unresolved_security_text :: string where
  "unresolved_security_text =
     ''Der Borg-Sicherheitsstatus konnte keinem Repository eindeutig zugeordnet werden und wurde nicht gesichert.''"

definition collect_one :: "client_env \<Rightarrow> string \<Rightarrow> host \<times> repository \<Rightarrow> zip_files \<times> (string \<times> json) list" where
  "collect_one c now target =
     (case target of (h, r) \<Rightarrow>
      let base = base_metadata now h r; member = (\<lambda>k v. (k, JStr v)) in
      if \<not> ho_enabled h then
        ([], base @ [member ''status'' ''skipped_disabled'', member ''security_status'' ''skipped_disabled'',
           member ''reason'' disabled_text])
      else (case client_archive_paths h r of (cache_name, security_name) \<Rightarrow>
        (case stream_one_cache (ce_dec c) (ce_cache c h r) of (cache_file, cache) \<Rightarrow>
          let failed = (\<lambda>err. base @ [member ''status'' ''warning'', member ''security_status'' ''warning'',
                member ''reason'' (ce_reason c h r err), member ''security_reason'' (ce_reason c h r err), (''warning'', JBool True)]) in
          case cache of Inl err \<Rightarrow> (named_file cache_name cache_file, failed err)
          | Inr (found, tar_bytes) \<Rightarrow>
              (case stream_one_security (ce_dec c) (ce_security c h r) of (security_file, security) \<Rightarrow>
                let files = named_file cache_name cache_file @ named_file security_name security_file in
                case security of Inl err \<Rightarrow> (files, failed err)
                | Inr (security_status, borg_id, security_bytes) \<Rightarrow>
                    (files, base @
                      (if \<not> found then [member ''status'' ''missing'', member ''reason'' missing_cache_text]
                       else [member ''status'' ''saved'', member ''archive_path'' cache_name, (''tar_bytes'', JInt (int tar_bytes))]) @
                      [member ''security_status'' security_status, (''borg_repository_id'', case borg_id of None \<Rightarrow> JNull | Some i \<Rightarrow> JStr i)] @
                      (case borg_id of None \<Rightarrow> [] | Some i \<Rightarrow> [member ''security_path'' (''$HOME/.config/borg/security/'' @ i)]) @
                      (if security_status = ''saved''
                       then [member ''security_archive_path'' security_name, (''security_tar_bytes'', JInt (int security_bytes))]
                       else if security_status = ''missing'' then [member ''security_reason'' missing_security_text]
                       else if security_status = ''unresolved'' then [member ''security_reason'' unresolved_security_text]
                       else []))))))"

definition collect_client_borg_caches ::
    "client_env \<Rightarrow> string \<Rightarrow> int list option \<Rightarrow> manager_db \<Rightarrow> zip_files \<times> (string \<times> json) list list" where
  "collect_client_borg_caches c now host_ids db =
     (let parts = map (collect_one c now) (target_rows host_ids db) in (concat (map fst parts), map snd parts))"

section \<open>The summary\<close>

definition with_member :: "string \<Rightarrow> string \<Rightarrow> (string \<times> json) list list \<Rightarrow> (string \<times> json) list list" where
  "with_member k v entries = filter (\<lambda>d. json_get k d = JStr v) entries"

definition bytes_member :: "string \<Rightarrow> (string \<times> json) list \<Rightarrow> int" where
  "bytes_member k d = (case json_get k d of JInt n \<Rightarrow> n | _ \<Rightarrow> 0)"

definition client_cache_summary :: "(string \<times> json) list list \<Rightarrow> (string \<times> int) list" where
  "client_cache_summary entries =
     (let number = (\<lambda>k v. int (length (with_member k v entries))) in
      [(''target_count'', int (length entries)),
       (''saved_count'', number ''status'' ''saved''),
       (''missing_count'', number ''status'' ''missing''),
       (''skipped_count'', int (length (filter (\<lambda>d. case json_get ''status'' d of JStr s \<Rightarrow> starts_with ''skipped_'' s | _ \<Rightarrow> False) entries))),
       (''warning_count'', number ''status'' ''warning''),
       (''tar_bytes'', sum_list (map (bytes_member ''tar_bytes'') (with_member ''status'' ''saved'' entries))),
       (''security_saved_count'', number ''security_status'' ''saved''),
       (''security_missing_count'', number ''security_status'' ''missing''),
       (''security_unresolved_count'', number ''security_status'' ''unresolved''),
       (''security_tar_bytes'', sum_list (map (bytes_member ''security_tar_bytes'') (with_member ''security_status'' ''saved'' entries)))])"

section \<open>Back to a device\<close>

text \<open>The checks of a finished restore process; the text after the first \<open>=\<close> of the last line naming the old cache.\<close>

definition restore_answer :: "(string \<Rightarrow> string) \<Rightarrow> ssh_run option \<Rightarrow> (transfer_error, string) result" where
  "restore_answer dec p =
     (case p of None \<Rightarrow> Inl Not_started
      | Some r \<Rightarrow>
          if sr_timed_out r then Inl Timed_out
          else if sr_code r \<noteq> 0 \<or> sr_write_error r \<noteq> None
          then Inl (Exit_code (sr_code r) (safe_error_text
            (if dec (sr_error r) \<noteq> [] then dec (sr_error r) else or_empty (sr_write_error r)) 4000))
          else Inr (dec (sr_output r)))"

definition after_equals :: "string \<Rightarrow> string" where
  "after_equals s = drop 1 (dropWhile (\<lambda>c. c \<noteq> CHR ''='') s)"

definition previous_cache :: "string \<Rightarrow> string option" where
  "previous_cache output =
     (case rev (filter (starts_with ''BBM_PREVIOUS_CACHE='') (py_splitlines output)) of
        [] \<Rightarrow> None
      | l # _ \<Rightarrow> (let v = py_strip (after_equals l) in if v = [] then None else Some v))"

text \<open>The path of the old cache on the device.\<close>

definition restore_client_borg_cache_stream :: "(string \<Rightarrow> string) \<Rightarrow> ssh_run option \<Rightarrow> (transfer_error, string option) result" where
  "restore_client_borg_cache_stream dec p =
     try_bind (restore_answer dec p) (\<lambda>out.
       if \<not> contains ''BBM_CLIENT_CACHE_RESTORED'' out then Inl Not_confirmed else Inr (previous_cache out))"

text \<open>\<open>True\<close> when the state was restored, \<open>False\<close> when the device kept its own.\<close>

definition restore_client_borg_security_stream :: "(string \<Rightarrow> string) \<Rightarrow> ssh_run option \<Rightarrow> (transfer_error, bool) result" where
  "restore_client_borg_security_stream dec p =
     try_bind (restore_answer dec p) (\<lambda>out.
       if contains ''BBM_CLIENT_SECURITY_KEPT_EXISTING'' out then Inr False
       else if \<not> contains ''BBM_CLIENT_SECURITY_RESTORED'' out then Inl Not_confirmed
       else Inr True)"

end
