(* ===== verification/BackupInventory.thy ===== *)
theory BackupInventory
  imports BackupCreate ClientTransfer
begin

text \<open>
  Backups of Borg caches, \<open>src/app/backups.py\<close>: one file for the manager, one for each device, the set of cache files of
  one request, what a cache file lists for the devices, the swap of the manager's cache with the way back, and one
  cache back to a device.
\<close>

section \<open>The tree of a cache directory\<close>

datatype tree =
    Tree_dir string "tree list"
  | Tree_file string nat string
  | Tree_link string
  | Tree_other string

fun tree_dirs :: "path \<Rightarrow> tree list \<Rightarrow> (path \<times> tree list) list" where
  "tree_dirs p [] = []"
| "tree_dirs p (Tree_dir n ts # rest) = (p @ [n], ts) # tree_dirs p rest"
| "tree_dirs p (t # rest) = tree_dirs p rest"

text \<open>The name in the archive, the mode and the bytes; locks of Borg are left out.\<close>

fun tree_files :: "bool \<Rightarrow> string \<Rightarrow> path \<Rightarrow> tree list \<Rightarrow> (string \<times> nat \<times> string) list" where
  "tree_files skip_locks prefix p [] = []"
| "tree_files skip_locks prefix p (Tree_file n mode b # rest) =
     (if skip_locks \<and> n \<in> {''lock.exclusive'', ''lock.roster''} then []
      else [(''data/'' @ prefix @ ''/'' @ join_with ''/'' (p @ [n]), mode mod 512, b)]) @ tree_files skip_locks prefix p rest"
| "tree_files skip_locks prefix p (t # rest) = tree_files skip_locks prefix p rest"

lemma tree_dirs_size: "sum_list (map (\<lambda>(p, ts). Suc (size_list size ts)) (tree_dirs p ts)) \<le> size_list size ts"
  by (induction p ts rule: tree_dirs.induct) auto

text \<open>The directories still to visit, the next one first.\<close>

function walk_tree :: "bool \<Rightarrow> string \<Rightarrow> (path \<times> tree list) list \<Rightarrow> (string \<times> nat \<times> string) list" where
  "walk_tree skip_locks prefix [] = []"
| "walk_tree skip_locks prefix ((p, ts) # stack) =
     tree_files skip_locks prefix p ts @ walk_tree skip_locks prefix (rev (tree_dirs p ts) @ stack)"
  by pat_completeness auto

termination
proof (relation "measure (\<lambda>(skip_locks, prefix, stack). sum_list (map (\<lambda>(p, ts). Suc (size_list size ts)) stack))")
  fix skip_locks :: bool and prefix :: string and p :: path and ts :: "tree list" and stack
  show "((skip_locks, prefix, rev (tree_dirs p ts) @ stack), (skip_locks, prefix, (p, ts) # stack))
      \<in> measure (\<lambda>(skip_locks, prefix, stack). sum_list (map (\<lambda>(p, ts). Suc (size_list size ts)) stack))"
    using tree_dirs_size [of p ts] by (simp add: rev_map [symmetric])
qed simp

definition add_tree :: "bool \<Rightarrow> string \<Rightarrow> tree list option \<Rightarrow> (string \<times> nat \<times> string) list" where
  "add_tree skip_locks prefix source =
     (case source of None \<Rightarrow> [] | Some ts \<Rightarrow> walk_tree skip_locks prefix [([], ts)])"

section \<open>One cache file\<close>

datatype artifact_kind = Manager_cache | Client_cache

record cache_sources =
  cs_cache :: "tree list option"
  cs_security :: "tree list option"
  cs_client :: client_env
  cs_db :: manager_db

definition cache_manifest_start :: "string \<Rightarrow> string \<Rightarrow> string \<Rightarrow> string \<Rightarrow> artifact_kind \<Rightarrow> (string \<times> json) list" where
  "cache_manifest_start now version label pack kind =
     (let manager = JBool (kind = Manager_cache); client = JBool (kind = Client_cache) in
      [(''format'', JStr ''borgbackup-manager-cache-backup''), (''format_version'', JInt 2), (''backup_type'', JStr ''cache''),
       (''cache_artifact_kind'', JStr (if kind = Manager_cache then ''manager'' else ''client'')), (''app_version'', JStr version),
       (''created_at'', JStr now), (''label'', JStr label), (''encrypted'', JBool False), (''borg_cache_included'', manager),
       (''borg_security_included'', manager), (''client_borg_cache_included'', client),
       (''client_borg_security_included'', client), (''compression'', JStr pack)])"

definition includes_member :: "artifact_kind \<Rightarrow> string \<times> json" where
  "includes_member kind =
     (''includes'', JList (map JStr (if kind = Manager_cache then [''borg_cache'', ''borg_security'']
        else [''client_borg_cache'', ''client_borg_security''])))"

definition manager_members :: "(string \<times> nat \<times> string) list \<Rightarrow> (string \<times> nat \<times> string) list \<Rightarrow> (string \<times> json) list" where
  "manager_members cache security =
     (let bytes = (\<lambda>fs. JInt (int (sum_list (map (\<lambda>(n, mode, b). length b) fs)))) in
      [(''borg_cache_files'', JInt (int (length cache))), (''borg_cache_source_bytes'', bytes cache),
       (''borg_security_files'', JInt (int (length security))), (''borg_security_source_bytes'', bytes security)])"

definition client_members :: "int \<Rightarrow> (string \<times> json) list list \<Rightarrow> (string \<times> json) list" where
  "client_members host_id entries =
     (let summary = client_cache_summary entries; number = (\<lambda>k. JInt (or_else (map_of summary k) 0)) in
      [(''client_borg_caches'', JList (map JObj entries)),
       (''client_borg_cache_target_count'', number ''target_count''), (''client_borg_cache_saved_count'', number ''saved_count''),
       (''client_borg_cache_missing_count'', number ''missing_count''), (''client_borg_cache_skipped_count'', number ''skipped_count''),
       (''client_borg_cache_warning_count'', number ''warning_count''), (''client_borg_cache_source_bytes'', number ''tar_bytes''),
       (''client_borg_security_saved_count'', number ''security_saved_count''),
       (''client_borg_security_missing_count'', number ''security_missing_count''),
       (''client_borg_security_unresolved_count'', number ''security_unresolved_count''),
       (''client_borg_security_source_bytes'', number ''security_tar_bytes''), (''source_host_id'', JInt host_id)] @
      (case entries of [] \<Rightarrow> [] | d # _ \<Rightarrow>
         [(''source_host_name'', case json_get ''host_name'' d of JStr (c # s) \<Rightarrow> JStr (c # s)
           | _ \<Rightarrow> JStr (''Ger'' @ [CHR 0xE4] @ ''t-'' @ int_text host_id))]))"

text \<open>
  The manifest and the members of the ZIP file. \<open>permissions.json\<close> lists the modes of the files of the manager only.
\<close>

definition write_cache_backup :: "backup_env \<Rightarrow> string \<Rightarrow> string \<Rightarrow> string \<Rightarrow> bool \<Rightarrow> bool \<Rightarrow> int list option \<Rightarrow> string \<Rightarrow> cache_sources \<Rightarrow>
     (backup_error, (string \<times> json) list \<times> zip_entry list) result" where
  "write_cache_backup e now version label manager client host_ids pack src =
     (let ids = sort (remdups (or_else host_ids [])); kind = (if manager then Manager_cache else Client_cache) in
      if manager = client then Inl Artifact_choice
      else if client \<and> length ids \<noteq> 1 then Inl Artifact_choice
      else try_bind (compression_settings pack) (\<lambda>(level, cname).
        let start = cache_manifest_start now version label cname kind;
            result = (if manager
              then (let cache = add_tree True ''borg-cache'' (cs_cache src); security = add_tree False ''borg-security'' (cs_security src) in
                (manager_members cache security, cache @ security))
              else (case collect_client_borg_caches (cs_client src) now (Some ids) (cs_db src) of (files, entries) \<Rightarrow>
                (client_members (hd ids) entries, map (\<lambda>(n, b). (n, 384, b)) files)));
            m = start @ [includes_member kind] @ fst result; files = snd result;
            modes = (if manager then map (\<lambda>(n, mode, b). (n, JInt (int mode))) (sort_key (\<lambda>(n, mode, b). map char_code n) files) else []) in
        Inr (m, map (\<lambda>(n, b). packed_entry e cname n b)
          (map (\<lambda>(n, mode, b). (n, b)) files @ [(''manifest.json'', json_file e m), (''permissions.json'', json_file e modes)]))))"

definition cache_artifact_name :: "string \<Rightarrow> string \<Rightarrow> string \<Rightarrow> bool \<Rightarrow> artifact_kind \<Rightarrow> (nat \<times> string) option \<Rightarrow> (backup_error, string) result" where
  "cache_artifact_name version stamp label encrypted kind host =
     (let rest = ''-v'' @ version @ ''-'' @ stamp @ ''-'' @ label_of label @ (if encrypted then ''.bbm'' else ''.zip'') in
      case kind of
        Manager_cache \<Rightarrow> Inr (''borgbackup-manager-cache-manager'' @ rest)
      | Client_cache \<Rightarrow>
          (case host of None \<Rightarrow> Inl Artifact_choice
           | Some (i, n) \<Rightarrow> Inr (''borgbackup-manager-cache-client-'' @ label_of (if n = [] then ''device'' else n) @ ''-h'' @ str_nat i @ rest)))"

definition client_host_record :: "manager_db \<Rightarrow> int \<Rightarrow> (nat \<times> string \<times> bool) option" where
  "client_host_record db i =
     (if i < 0 then None
      else case get_host db (nat i) of None \<Rightarrow> None | Some h \<Rightarrow> Some (ho_id h, ho_name h, ho_enabled h))"

definition create_cache_backup :: "backup_env \<Rightarrow> string \<Rightarrow> string \<Rightarrow> string \<Rightarrow> string \<Rightarrow> string \<Rightarrow> string \<Rightarrow> string option \<Rightarrow> bool \<Rightarrow>
     bool \<Rightarrow> bool \<Rightarrow> int list option \<Rightarrow> string \<Rightarrow> cache_sources \<Rightarrow> backup_dir \<Rightarrow> (backup_error, string) result \<times> backup_dir" where
  "create_cache_backup e salt nonce now stamp version label passphrase encrypted manager client host_ids pack src dir =
     (let ids = sort (remdups (or_else host_ids [])); text = or_manual label in
      case (if encrypted \<and> \<not> truthy passphrase then Inl Passphrase_missing
            else if \<not> encrypted \<and> truthy passphrase then Inl Passphrase_unexpected
            else if manager = client then Inl Artifact_choice
            else if \<not> client then Inr None
            else if length ids \<noteq> 1 then Inl Artifact_choice
            else case client_host_record (cs_db src) (hd ids) of None \<Rightarrow> Inl Host_unknown | Some (i, n, on) \<Rightarrow> Inr (Some (i, n))) of
        Inl err \<Rightarrow> (Inl err, dir)
      | Inr host \<Rightarrow>
          (case try_bind (cache_artifact_name version stamp text encrypted (if manager then Manager_cache else Client_cache) host) (\<lambda>name.
              try_bind (write_cache_backup e now version text manager client (Some ids) pack src) (\<lambda>w. Inr (name, w))) of
            Inl err \<Rightarrow> (Inl err, dir)
          | Inr (name, m, entries) \<Rightarrow>
              (let plain = bk_zip e pack entries in
               case try_bind (if encrypted then encrypt_backup e salt nonce (or_empty passphrase) m plain else Inr plain)
                   (\<lambda>bytes. try_bind (validate_backup_file_size e manager client bytes) (\<lambda>_. Inr bytes)) of
                 Inl err \<Rightarrow> (Inl err, dir(name := None))
               | Inr bytes \<Rightarrow> (Inr name, dir(name := Some bytes)))))"
section \<open>A set of cache files\<close>

datatype cache_warning =
    Device_missing int
  | Device_disabled string
  | Device_failed string backup_error
  | Nothing_saved string
  | Partly_saved string int

definition host_order :: "host \<Rightarrow> nat list \<times> nat" where
  "host_order h = (map char_code (ho_name h), ho_id h)"

definition all_client_cache_host_ids :: "manager_db \<Rightarrow> int list" where
  "all_client_cache_host_ids db =
     map (\<lambda>h. int (ho_id h)) (sort_key host_order
       (filter (\<lambda>h. ho_enabled h \<and> list_ex (\<lambda>j. jb_host_id j = ho_id h) (db_jobs db)) (db_hosts db)))"

text \<open>What a new file of a device says about itself.\<close>

definition artifact_metadata :: "backup_env \<Rightarrow> bool \<Rightarrow> string \<Rightarrow> (backup_error, (string \<times> json) list) result" where
  "artifact_metadata e encrypted bytes =
     (if encrypted then try_bind (read_encrypted_header e True bytes) (\<lambda>(h, aad, offset). Inr h)
      else try_bind (zip_entries e bytes) (read_cache_backup_manifest e))"

definition artifact_counts :: "(string \<times> json) list \<Rightarrow> (backup_error, int \<times> int) result" where
  "artifact_counts m =
     (case (json_whole (json_get ''client_borg_cache_saved_count'' m), json_whole (json_get ''client_borg_security_saved_count'' m),
            json_whole (json_get ''client_borg_cache_warning_count'' m)) of
        (Some a, Some b, Some w) \<Rightarrow> Inr (if a \<noteq> 0 then a else b, w)
      | _ \<Rightarrow> Inl Python_error)"

record set_request =
  sq_version :: string
  sq_label :: string
  sq_passphrase :: "string option"
  sq_encrypted :: bool
  sq_pack :: string
  sq_now :: string
  sq_stamp :: string
  sq_random :: "nat \<Rightarrow> string \<times> string"

record set_result =
  sr_paths :: "string list"
  sr_warnings :: "cache_warning list"

text \<open>The files of one position: a file, a warning, or the error that ends the request.\<close>

definition make_artifact :: "backup_env \<Rightarrow> set_request \<Rightarrow> cache_sources \<Rightarrow> nat \<Rightarrow> int option \<Rightarrow> backup_dir \<Rightarrow>
     (backup_error, string list \<times> cache_warning list) result \<times> backup_dir" where
  "make_artifact e q src position host_id dir =
     (case sq_random q position of (salt, nonce) \<Rightarrow>
      let create = (\<lambda>ids. create_cache_backup e salt nonce (sq_now q) (sq_stamp q) (sq_version q) (sq_label q) (sq_passphrase q)
            (sq_encrypted q) (host_id = None) (host_id \<noteq> None) ids (sq_pack q) src dir) in
      case host_id of
        None \<Rightarrow> (case create None of (Inl err, d) \<Rightarrow> (Inl err, d) | (Inr name, d) \<Rightarrow> (Inr ([name], []), d))
      | Some i \<Rightarrow>
          (case client_host_record (cs_db src) i of
             None \<Rightarrow> (Inr ([], [Device_missing i]), dir)
           | Some (_, display, on) \<Rightarrow>
               if \<not> on then (Inr ([], [Device_disabled display]), dir)
               else (case create (Some [i]) of
                 (Inl err, d) \<Rightarrow> (Inr ([], [Device_failed display err]), d)
               | (Inr name, d) \<Rightarrow>
                   (case try_bind (artifact_metadata e (sq_encrypted q) (or_empty (d name))) artifact_counts of
                      Inl err \<Rightarrow> (Inl err, d(name := None))
                    | Inr (saved, warned) \<Rightarrow>
                        if saved = 0 then (Inr ([], [Nothing_saved display]), d(name := None))
                        else (Inr ([name], if warned \<noteq> 0 then [Partly_saved display warned] else []), d)))))"

fun make_artifacts :: "backup_env \<Rightarrow> set_request \<Rightarrow> cache_sources \<Rightarrow> nat \<Rightarrow> int option list \<Rightarrow> backup_dir \<Rightarrow>
     (backup_error, string list \<times> cache_warning list) result \<times> backup_dir" where
  "make_artifacts e q src position [] dir = (Inr ([], []), dir)"
| "make_artifacts e q src position (host_id # plan) dir =
     (case make_artifact e q src position host_id dir of
        (Inl err, d) \<Rightarrow> (Inl err, d)
      | (Inr (paths, warnings), d) \<Rightarrow>
          (case make_artifacts e q src (Suc position) plan d of
             (Inl err, d') \<Rightarrow> (Inl err, d')
           | (Inr (paths', warnings'), d') \<Rightarrow> (Inr (paths @ paths', warnings @ warnings'), d')))"

definition create_cache_backup_set :: "backup_env \<Rightarrow> set_request \<Rightarrow> bool \<Rightarrow> bool \<Rightarrow> int list option \<Rightarrow> cache_sources \<Rightarrow> backup_dir \<Rightarrow>
     (backup_error, set_result) result \<times> backup_dir" where
  "create_cache_backup_set e q manager client host_ids src dir =
     (let selected = (if \<not> client then [] else case host_ids of None \<Rightarrow> all_client_cache_host_ids (cs_db src)
            | Some ids \<Rightarrow> sort (remdups ids)) in
      if \<not> (manager \<or> client) then (Inl Artifact_choice, dir)
      else if client \<and> selected = [] \<and> \<not> manager then (Inl Host_unknown, dir)
      else (case make_artifacts e q src 1 ((if manager then [None] else []) @ map Some selected) dir of
          (Inl err, d) \<Rightarrow> (Inl err, d)
        | (Inr (paths, warnings), d) \<Rightarrow>
            if paths = [] then (Inl No_artifact, d)
            else (Inr \<lparr>sr_paths = paths, sr_warnings = warnings\<rparr>, d)))"

section \<open>The devices of a cache file\<close>

record client_entry =
  ck_host_id :: int
  ck_host_name :: string
  ck_repository_id :: int
  ck_repository_name :: string
  ck_collected_at :: json
  ck_status :: string
  ck_reason :: "string option"
  ck_tar_bytes :: int
  ck_security_status :: string
  ck_borg_id :: "string option"
  ck_security_tar_bytes :: int
  ck_archive_path :: "string option"
  ck_security_archive_path :: "string option"

fun json_id :: "json \<Rightarrow> int option" where
  "json_id (JInt n) = Some n"
| "json_id (JFloat x) = json_whole (JFloat x)"
| "json_id (JStr s) = parse_int s"
| "json_id v = None"

definition rx_cache_member :: "string \<Rightarrow> int \<Rightarrow> int \<Rightarrow> rx" where
  "rx_cache_member directory host repository =
     rx_seq [rx_text (directory @ ''/''), rx_plus rx_word_char, rx_text (''-h'' @ int_text host @ ''/''),
       rx_plus rx_word_char, rx_text (''-r'' @ int_text repository @ ''.tar'')]"

definition member_path :: "json_lib \<Rightarrow> string \<Rightarrow> int \<Rightarrow> int \<Rightarrow> json \<Rightarrow> (backup_error, string) result" where
  "member_path lib directory host repository v =
     (let p = json_text lib v in
      if re_fullmatch (rx_cache_member directory host repository) p = None then Inl Client_entry
      else try_bind (safe_relative_path p) (\<lambda>_. Inr p))"

definition text_or :: "json_lib \<Rightarrow> string \<Rightarrow> json \<Rightarrow> string" where
  "text_or lib d v = (if json_text lib v = [] then d else json_text lib v)"

definition none_if_empty :: "string \<Rightarrow> string option" where
  "none_if_empty s = (if s = [] then None else Some s)"

definition client_entry_of :: "json_lib \<Rightarrow> (int \<times> int) list \<Rightarrow> (string \<times> json) list \<Rightarrow> (backup_error, client_entry) result" where
  "client_entry_of lib seen d =
     (let get = (\<lambda>k. json_get k d); text = (\<lambda>k. json_text lib (get k)) in
      case (json_id (get ''host_id''), json_id (get ''repository_id'')) of
        (Some h, Some r) \<Rightarrow>
          (let status = text ''status''; security = text ''security_status'';
               borg_id = none_if_empty (py_lower (py_strip (text ''borg_repository_id''))) in
           if h \<le> 0 \<or> r \<le> 0 \<or> (h, r) \<in> set seen then Inl Client_entry
           else if status \<notin> {''saved'', ''missing'', ''skipped_disabled'', ''warning''} then Inl Client_entry
           else if security \<notin> {''saved'', ''missing'', ''unresolved'', ''skipped_disabled'', []} then Inl Client_entry
           else if borg_id \<noteq> None \<and> \<not> valid_borg_id (or_empty borg_id) then Inl Client_entry
           else case (json_whole (get ''tar_bytes''), json_whole (get ''security_tar_bytes'')) of
             (Some bytes, Some security_bytes) \<Rightarrow>
               try_bind (if status = ''saved'' then try_bind (member_path lib ''data/client-borg-cache'' h r (get ''archive_path'')) (Inr \<circ> Some)
                 else Inr None) (\<lambda>path.
               try_bind (if security \<noteq> ''saved'' then Inr None
                 else if borg_id = None then Inl Client_entry
                 else try_bind (member_path lib ''data/client-borg-security'' h r (get ''security_archive_path'')) (Inr \<circ> Some)) (\<lambda>security_path.
               Inr \<lparr>ck_host_id = h, ck_host_name = text_or lib (CHR ''#'' # int_text h) (get ''host_name''),
                  ck_repository_id = r, ck_repository_name = text_or lib (CHR ''#'' # int_text r) (get ''repository_name''),
                  ck_collected_at = get ''collected_at'', ck_status = status, ck_reason = none_if_empty (text ''reason''),
                  ck_tar_bytes = bytes, ck_security_status = security, ck_borg_id = borg_id, ck_security_tar_bytes = security_bytes,
                  ck_archive_path = path, ck_security_archive_path = security_path\<rparr>))
           | _ \<Rightarrow> Inl Python_error)
      | _ \<Rightarrow> Inl Client_entry)"

fun client_entries_of :: "json_lib \<Rightarrow> (int \<times> int) list \<Rightarrow> json list \<Rightarrow> (backup_error, client_entry list) result" where
  "client_entries_of lib seen [] = Inr []"
| "client_entries_of lib seen (v # vs) =
     (case v of
        JObj d \<Rightarrow> try_bind (client_entry_of lib seen d) (\<lambda>x.
          try_bind (client_entries_of lib ((ck_host_id x, ck_repository_id x) # seen) vs) (\<lambda>xs. Inr (x # xs)))
      | _ \<Rightarrow> Inl Client_entry)"

definition client_cache_entries_from_manifest :: "json_lib \<Rightarrow> (string \<times> json) list \<Rightarrow> (backup_error, client_entry list) result" where
  "client_cache_entries_from_manifest lib m =
     (if \<not> json_truthy (json_get ''client_borg_cache_included'' m) then Inr []
      else case or_else (map_of m ''client_borg_caches'') (JList []) of
        JList raw \<Rightarrow> if 10000 < length raw then Inl Client_entry else client_entries_of lib [] raw
      | _ \<Rightarrow> Inl Client_entry)"

definition cache_backup_contents ::
    "backup_env \<Rightarrow> string \<Rightarrow> string \<Rightarrow> string option \<Rightarrow> (backup_error, (string \<times> json) list \<times> client_entry list \<times> zip_entry list) result" where
  "cache_backup_contents e name bytes passphrase =
     try_bind (plain_backup_file e name bytes passphrase) (\<lambda>plain.
     try_bind (zip_entries e plain) (\<lambda>entries.
     try_bind (read_cache_backup_manifest e entries) (\<lambda>m.
     try_bind (client_cache_entries_from_manifest (bk_json e) m) (\<lambda>cs. Inr (m, cs, entries)))))"

text \<open>The numbers of the answer, in the order of the code.\<close>

definition client_borg_cache_inventory ::
    "backup_env \<Rightarrow> string \<Rightarrow> string \<Rightarrow> string option \<Rightarrow> (backup_error, (string \<times> nat) list \<times> client_entry list) result" where
  "client_borg_cache_inventory e name bytes passphrase =
     try_bind (cache_backup_contents e name bytes passphrase) (\<lambda>(m, cs, entries).
       let number = (\<lambda>P. length (filter P cs)) in
       Inr ([(''saved_count'', number (\<lambda>c. ck_status c = ''saved'')), (''missing_count'', number (\<lambda>c. ck_status c = ''missing'')),
             (''skipped_count'', number (\<lambda>c. starts_with ''skipped_'' (ck_status c))),
             (''warning_count'', number (\<lambda>c. ck_status c = ''warning'')),
             (''security_saved_count'', number (\<lambda>c. ck_security_status c = ''saved'')),
             (''security_missing_count'', number (\<lambda>c. ck_security_status c = ''missing'')),
             (''security_unresolved_count'', number (\<lambda>c. ck_security_status c = ''unresolved''))], cs))"

section \<open>One cache back to a device\<close>

text \<open>The processes of the restore commands, for the bytes written to them.\<close>

record restore_runs =
  rr_cache :: "host \<Rightarrow> int \<Rightarrow> string \<Rightarrow> ssh_run option"
  rr_security :: "host \<Rightarrow> string \<Rightarrow> string \<Rightarrow> ssh_run option"
  rr_dec :: "string \<Rightarrow> string"
  rr_text :: "transfer_error \<Rightarrow> string"

definition saved_member :: "backup_env \<Rightarrow> zip_entry list \<Rightarrow> string \<Rightarrow> (backup_error, string) result" where
  "saved_member e entries name =
     (case zip_member name entries of
        None \<Rightarrow> Inl Member_missing
      | Some z \<Rightarrow>
          if entry_is_dir z \<or> ze_size z = 0 \<or> bl_uncompressed (bk_cache_limits e) < ze_size z then Inl Member_size
          else Inr (take (ze_size z) (ze_data z)))"

definition of_transfer :: "restore_runs \<Rightarrow> (transfer_error, 'a) result \<Rightarrow> (backup_error, 'a) result" where
  "of_transfer rr r = (case r of Inl err \<Rightarrow> Inl (Client_restore (rr_text rr err)) | Inr a \<Rightarrow> Inr a)"

record client_restored =
  cr_source :: client_entry
  cr_previous :: "string option"
  cr_security :: "bool option"

text \<open>\<open>cr_security\<close> is \<open>None\<close> when the file has no security state for this cache.\<close>

definition restore_client_borg_cache_from_backup ::
    "backup_env \<Rightarrow> restore_runs \<Rightarrow> string \<Rightarrow> string \<Rightarrow> string option \<Rightarrow> host \<Rightarrow> int \<Rightarrow> int \<Rightarrow> int \<Rightarrow>
     (backup_error, client_restored) result" where
  "restore_client_borg_cache_from_backup e rr name bytes passphrase target target_repository source_host source_repository =
     (if target_repository \<noteq> source_repository then Inl Other_repository
      else try_bind (cache_backup_contents e name bytes passphrase) (\<lambda>(m, cs, entries).
        case find (\<lambda>c. ck_host_id c = source_host \<and> ck_repository_id c = source_repository) cs of
          None \<Rightarrow> Inl No_source
        | Some c \<Rightarrow>
            if ck_status c \<noteq> ''saved'' then Inl (Not_saved (or_empty (ck_reason c)))
            else try_bind (saved_member e entries (or_empty (ck_archive_path c))) (\<lambda>data.
              try_bind (of_transfer rr (restore_client_borg_cache_stream (rr_dec rr) (rr_cache rr target target_repository data))) (\<lambda>previous.
              if ck_security_status c \<noteq> ''saved'' then Inr \<lparr>cr_source = c, cr_previous = previous, cr_security = None\<rparr>
              else try_bind (saved_member e entries (or_empty (ck_security_archive_path c))) (\<lambda>security.
                try_bind (of_transfer rr (restore_client_borg_security_stream (rr_dec rr)
                    (rr_security rr target (or_empty (ck_borg_id c)) security))) (\<lambda>fresh.
                  Inr \<lparr>cr_source = c, cr_previous = previous, cr_security = Some fresh\<rparr>))))))"

end
