(* ===== verification/BackupRestore.thy ===== *)
theory BackupRestore
  imports BackupCreate
begin

text \<open>
  Restoring the manager, \<open>src/app/backups.py\<close>: unpacking and checking a backup, exchanging the live data with a
  way back, the caches of the manager, and the files of uploaded backups. Every copy, rename and removal may
  fail: a list of faults says which; after its last element nothing fails any more.
\<close>

section \<open>Unpacking a manager backup\<close>

definition client_prefixes :: "string list" where
  "client_prefixes = [''data/client-borg-cache/'', ''data/client-borg-security/'']"

definition staged_file :: "extracted list \<Rightarrow> path \<Rightarrow> string option" where
  "staged_file xs p = map_option fst (map_of xs p)"

type_synonym staging = "path list \<times> extracted list"

definition prepare_full_backup_restore :: "backup_env \<Rightarrow> sqlite_env \<Rightarrow> string \<Rightarrow> string \<Rightarrow> string option \<Rightarrow>
     (backup_error, staging \<times> (string \<times> json) list) result" where
  "prepare_full_backup_restore e q name bytes passphrase =
     try_bind (plain_backup_file e name bytes passphrase) (\<lambda>plain.
     try_bind (zip_entries e plain) (\<lambda>entries.
     try_bind (safe_extract e client_prefixes entries) (\<lambda>(m, dirs, xs).
       let security = [''data'', ''security'', ''security.db'']; key = [''data'', ''security'', ''master.key''] in
       if json_get ''format'' m \<noteq> JStr ''borgbackup-manager-full-backup'' then Inl Cache_kind_for_restore
       else case staged_file xs [''migration.env''] of None \<Rightarrow> Inl Environment_missing
       | Some env \<Rightarrow>
           if utf8_decode env = None then Inl Python_error
           else if staged_file xs [''data'', ''manager.db''] = None then Inl Database_missing
           else try_bind (sqlite_integrity_check q (staged_file xs [''data'', ''manager.db''])) (\<lambda>_.
             try_bind (validate_security_backup_pair q True (staged_file xs security) (staged_file xs key)) (\<lambda>_.
               Inr ((dirs, xs), m))))))"

section \<open>Exchanging the live data\<close>

text \<open>
  Entries of the data directory by name, what was copied beside them (\<open>new\<close>) and what was put aside (\<open>old\<close>).
\<close>

record 'a exchange =
  ex_live :: "string \<Rightarrow> 'a option"
  ex_new :: "string \<Rightarrow> 'a option"
  ex_old :: "string \<Rightarrow> 'a option"
  ex_faults :: "bool list"

definition next_fault :: "'a exchange \<Rightarrow> bool \<times> 'a exchange" where
  "next_fault s = (case ex_faults s of [] \<Rightarrow> (False, s) | f # fs \<Rightarrow> (f, s\<lparr>ex_faults := fs\<rparr>))"

text \<open>Each step tells whether it failed. A rename that fails changes nothing.\<close>

definition copy_in :: "(string \<Rightarrow> 'a option) \<Rightarrow> string \<Rightarrow> 'a exchange \<Rightarrow> bool \<times> 'a exchange" where
  "copy_in source c s =
     (case next_fault s of (True, t) \<Rightarrow> (True, t) | (False, t) \<Rightarrow> (False, t\<lparr>ex_new := (ex_new t)(c := source c)\<rparr>))"

definition put_aside :: "string \<Rightarrow> 'a exchange \<Rightarrow> bool \<times> 'a exchange" where
  "put_aside c s =
     (if ex_live s c = None then (False, s)
      else case next_fault s of (True, t) \<Rightarrow> (True, t)
      | (False, t) \<Rightarrow> (False, t\<lparr>ex_old := (ex_old t)(c := ex_live t c), ex_live := (ex_live t)(c := None)\<rparr>))"

definition move_in :: "string \<Rightarrow> 'a exchange \<Rightarrow> bool \<times> 'a exchange" where
  "move_in c s =
     (case next_fault s of (True, t) \<Rightarrow> (True, t)
      | (False, t) \<Rightarrow> (False, t\<lparr>ex_live := (ex_live t)(c := ex_new t c), ex_new := (ex_new t)(c := None)\<rparr>))"

definition take_out :: "string \<Rightarrow> 'a exchange \<Rightarrow> bool \<times> 'a exchange" where
  "take_out c s =
     (case next_fault s of (True, t) \<Rightarrow> (True, t)
      | (False, t) \<Rightarrow> (False, t\<lparr>ex_new := (ex_new t)(c := ex_live t c), ex_live := (ex_live t)(c := None)\<rparr>))"

definition put_back :: "string \<Rightarrow> 'a exchange \<Rightarrow> bool \<times> 'a exchange" where
  "put_back c s =
     (if ex_old s c = None then (False, s)
      else case next_fault s of (True, t) \<Rightarrow> (True, t)
      | (False, t) \<Rightarrow> (False, t\<lparr>ex_live := (ex_live t)(c := ex_old t c), ex_old := (ex_old t)(c := None)\<rparr>))"

definition restore_components :: "string list" where
  "restore_components = [''manager.db'', ''settings.json'', ''notifications.json'', ''ssh'', ''repository-ssh'', ''repository-keys'',
     ''tls'', ''security'', ''borg-cache'', ''borg-security'']"

text \<open>The components of the backup; the notification settings always, so that old ones do not stay.\<close>

fun copy_components :: "(string \<Rightarrow> 'a option) \<Rightarrow> string list \<Rightarrow> 'a exchange \<Rightarrow> bool \<times> string list \<times> 'a exchange" where
  "copy_components source [] s = (False, [], s)"
| "copy_components source (c # cs) s =
     (if source c = None
      then (case copy_components source cs s of (failed, ks, t) \<Rightarrow>
        (failed, if c = ''notifications.json'' then c # ks else ks, t))
      else case copy_in source c s of
        (True, t) \<Rightarrow> (True, [], t)
      | (False, t) \<Rightarrow> (case copy_components source cs t of (failed, ks, u) \<Rightarrow> (failed, c # ks, u)))"

definition with_sidecars :: "string list \<Rightarrow> string list" where
  "with_sidecars ks = (if ''manager.db'' \<in> set ks then ks @ [''manager.db-wal'', ''manager.db-shm''] else ks)"

text \<open>
  \<open>changed\<close> lists the components put aside, the last first, and \<open>installed\<close> those moved in.
\<close>

fun exchange_components :: "string list \<Rightarrow> string list \<Rightarrow> string list \<Rightarrow> 'a exchange \<Rightarrow>
     bool \<times> string list \<times> string list \<times> 'a exchange" where
  "exchange_components [] changed installed s = (False, changed, installed, s)"
| "exchange_components (c # cs) changed installed s =
     (case put_aside c s of
        (True, t) \<Rightarrow> (True, changed, installed, t)
      | (False, t) \<Rightarrow>
          if ex_new t c = None then exchange_components cs (c # changed) installed t
          else case move_in c t of
            (True, u) \<Rightarrow> (True, c # changed, installed, u)
          | (False, u) \<Rightarrow> exchange_components cs (c # changed) (c # installed) u)"

text \<open>One component on the way back; an error skips the rest of this component only.\<close>

definition roll_back_one :: "string list \<Rightarrow> string \<Rightarrow> 'a exchange \<Rightarrow> bool \<times> 'a exchange" where
  "roll_back_one installed c s =
     (if c \<in> set installed
      then (case take_out c s of (True, t) \<Rightarrow> (True, t) | (False, t) \<Rightarrow> put_back c t)
      else put_back c s)"

fun roll_back :: "string list \<Rightarrow> string list \<Rightarrow> 'a exchange \<Rightarrow> bool \<times> 'a exchange" where
  "roll_back installed [] s = (False, s)"
| "roll_back installed (c # cs) s =
     (case roll_back_one installed c s of (failed, t) \<Rightarrow>
       (case roll_back installed cs t of (failed', u) \<Rightarrow> (failed \<or> failed', u)))"

datatype apply_outcome = Applied | No_data | Rolled_back | Roll_back_failed

text \<open>
  The outcome, the live data, and the originals that were kept: only a failed way back keeps them. \<open>None\<close> for the
  data of the backup means that the staging directory has none.
\<close>

definition apply_prepared_restore :: "bool list \<Rightarrow> (string \<Rightarrow> 'a option) option \<Rightarrow> (string \<Rightarrow> 'a option) \<Rightarrow>
     apply_outcome \<times> (string \<Rightarrow> 'a option) \<times> (string \<Rightarrow> 'a option)" where
  "apply_prepared_restore faults source live =
     (case source of None \<Rightarrow> (No_data, live, Map.empty)
      | Some src \<Rightarrow>
          (let s = \<lparr>ex_live = live, ex_new = Map.empty, ex_old = Map.empty, ex_faults = faults\<rparr> in
           case copy_components src restore_components s of
             (True, ks, t) \<Rightarrow> (Rolled_back, ex_live t, Map.empty)
           | (False, ks, t) \<Rightarrow>
               (case exchange_components (with_sidecars ks) [] [] t of
                  (False, changed, installed, u) \<Rightarrow> (Applied, ex_live u, Map.empty)
                | (True, changed, installed, u) \<Rightarrow>
                    (case roll_back installed changed u of
                       (False, v) \<Rightarrow> (Rolled_back, ex_live v, Map.empty)
                     | (True, v) \<Rightarrow> (Roll_back_failed, ex_live v, ex_old v)))))"

text \<open>What a component of the unpacked backup is: the directories and the files below \<open>data/c\<close>.\<close>

definition staged_data :: "staging \<Rightarrow> (string \<Rightarrow> staging option) option" where
  "staged_data st =
     (case st of (dirs, xs) \<Rightarrow>
      if \<not> (list_ex (path_within [''data'']) dirs \<or> list_ex (\<lambda>x. path_within [''data''] (fst x)) xs) then None
      else Some (\<lambda>c.
        let place = [''data'', c]; ds = filter (path_within place) dirs; fs = filter (\<lambda>x. path_within place (fst x)) xs in
        if ds = [] \<and> fs = [] then None else Some (ds, fs)))"

section \<open>The caches of the manager\<close>

text \<open>
  Two directories, \<open>borg-cache\<close> and \<open>borg-security\<close>; \<open>mc_previous\<close> are the safety copies with the time of this
  restore. Removing a tree while going back may fail silently.
\<close>

record 'a cache_swap =
  mc_live :: "string \<Rightarrow> 'a option"
  mc_previous :: "string \<Rightarrow> 'a option"
  mc_faults :: "bool list"

definition mc_fault :: "'a cache_swap \<Rightarrow> bool \<times> 'a cache_swap" where
  "mc_fault s = (case mc_faults s of [] \<Rightarrow> (False, s) | f # fs \<Rightarrow> (f, s\<lparr>mc_faults := fs\<rparr>))"

definition mc_clear_previous :: "string \<Rightarrow> 'a cache_swap \<Rightarrow> bool \<times> 'a cache_swap" where
  "mc_clear_previous c s =
     (if mc_previous s c = None then (False, s)
      else case mc_fault s of (True, t) \<Rightarrow> (True, t) | (False, t) \<Rightarrow> (False, t\<lparr>mc_previous := (mc_previous t)(c := None)\<rparr>))"

definition mc_put_aside :: "string \<Rightarrow> 'a cache_swap \<Rightarrow> bool \<times> 'a cache_swap" where
  "mc_put_aside c s =
     (case mc_fault s of (True, t) \<Rightarrow> (True, t)
      | (False, t) \<Rightarrow> (False, t\<lparr>mc_previous := (mc_previous t)(c := mc_live t c), mc_live := (mc_live t)(c := None)\<rparr>))"

definition mc_install :: "'a \<Rightarrow> string \<Rightarrow> 'a cache_swap \<Rightarrow> bool \<times> 'a cache_swap" where
  "mc_install a c s =
     (case mc_fault s of (True, t) \<Rightarrow> (True, t) | (False, t) \<Rightarrow> (False, t\<lparr>mc_live := (mc_live t)(c := Some a)\<rparr>))"

fun mc_exchange :: "(string \<times> 'a) list \<Rightarrow> string list \<Rightarrow> string list \<Rightarrow> 'a cache_swap \<Rightarrow> bool \<times> string list \<times> string list \<times> 'a cache_swap" where
  "mc_exchange [] moved installed s = (False, moved, installed, s)"
| "mc_exchange ((c, a) # rest) moved installed s =
     (case mc_clear_previous c s of
        (True, t) \<Rightarrow> (True, moved, installed, t)
      | (False, t) \<Rightarrow>
          (case (if mc_live t c = None then (False, t) else mc_put_aside c t) of
             (True, u) \<Rightarrow> (True, moved, installed, u)
           | (False, u) \<Rightarrow>
               (let moved' = (if mc_live t c = None then moved else c # moved) in
                case mc_install a c u of
                  (True, v) \<Rightarrow> (True, moved', installed, v)
                | (False, v) \<Rightarrow> mc_exchange rest moved' (c # installed) v)))"

text \<open>The installed trees go first, then the old ones come back where nothing is in the way; an error ends it.\<close>

fun mc_remove_installed :: "string list \<Rightarrow> 'a cache_swap \<Rightarrow> 'a cache_swap" where
  "mc_remove_installed [] s = s"
| "mc_remove_installed (c # cs) s =
     (case mc_fault s of (failed, t) \<Rightarrow>
       mc_remove_installed cs (if failed then t else t\<lparr>mc_live := (mc_live t)(c := None)\<rparr>))"

fun mc_move_back :: "string list \<Rightarrow> 'a cache_swap \<Rightarrow> 'a cache_swap" where
  "mc_move_back [] s = s"
| "mc_move_back (c # cs) s =
     (if mc_previous s c = None \<or> mc_live s c \<noteq> None then mc_move_back cs s
      else case mc_fault s of
        (True, t) \<Rightarrow> t
      | (False, t) \<Rightarrow> mc_move_back cs (t\<lparr>mc_live := (mc_live t)(c := mc_previous t c), mc_previous := (mc_previous t)(c := None)\<rparr>))"

definition swap_manager_caches :: "(string \<times> 'a) list \<Rightarrow> 'a cache_swap \<Rightarrow> bool \<times> 'a cache_swap" where
  "swap_manager_caches incoming s =
     (case mc_exchange incoming [] [] s of
        (False, moved, installed, t) \<Rightarrow> (True, t)
      | (True, moved, installed, t) \<Rightarrow> (False, mc_move_back moved (mc_remove_installed installed t)))"

definition staged_tree :: "staging \<Rightarrow> string \<Rightarrow> staging" where
  "staged_tree st c =
     (let place = [''data'', c] in (filter (path_within place) (fst st), filter (\<lambda>x. path_within place (fst x)) (snd st)))"

text \<open>An empty cache has no member in the file, and is restored as an empty directory.\<close>

definition restore_manager_borg_cache_from_backup ::
    "backup_env \<Rightarrow> string \<Rightarrow> string \<Rightarrow> string option \<Rightarrow> staging cache_swap \<Rightarrow> (backup_error, (string \<times> json) list) result \<times> staging cache_swap" where
  "restore_manager_borg_cache_from_backup e name bytes passphrase s =
     (case try_bind (plain_backup_file e name bytes passphrase) (\<lambda>plain. try_bind (zip_entries e plain) (\<lambda>entries.
         try_bind (read_cache_backup_manifest e entries) (\<lambda>m.
           if \<not> json_truthy (json_get ''borg_cache_included'' m) then Inl Not_a_cache_backup
           else safe_extract e client_prefixes entries))) of
        Inl err \<Rightarrow> (Inl err, s)
      | Inr (m, st) \<Rightarrow>
          (case swap_manager_caches (map (\<lambda>c. (c, staged_tree st c)) [''borg-cache'', ''borg-security'']) s of
             (True, t) \<Rightarrow> (Inr m, t)
           | (False, t) \<Rightarrow> (Inl Exchange_failed, t)))"

section \<open>Uploaded backups\<close>

record upload_facts =
  uf_encrypted :: bool
  uf_type :: string
  uf_manifest :: "(string \<times> json) list"

definition name_fits_type :: "string \<Rightarrow> string \<Rightarrow> (backup_error, unit) result" where
  "name_fits_type kind name =
     (if kind = ''cache'' \<and> \<not> cache_backup_name name then Inl Name_mismatch
      else if kind = ''manager'' \<and> \<not> manager_backup_name name then Inl Name_mismatch
      else Inr ())"

definition validate_encrypted_upload :: "backup_env \<Rightarrow> string \<Rightarrow> string \<Rightarrow> (backup_error, upload_facts) result" where
  "validate_encrypted_upload e name bytes =
     try_bind (read_encrypted_header e True bytes) (\<lambda>(h, aad, offset).
       let kind = json_text (bk_json e) (json_get ''backup_type'' h) in
       if json_get ''cipher'' h \<notin> {JStr ''AES-256-GCM'', JStr ''AES-256-GCM-stream''} \<or>
          json_get ''kdf'' h \<noteq> JStr ''scrypt-n32768-r8-p1'' then Inl Cipher_unsupported
       else case (b64_strict (json_get ''salt'' h), b64_strict (json_get ''nonce'' h)) of
         (Some salt, Some nonce) \<Rightarrow>
           if length salt \<noteq> 16 \<or> length nonce \<noteq> 12 \<or> length bytes \<le> offset + 16 then Inl Payload_incomplete
           else if kind \<notin> {''manager'', ''cache''} then Inl Unknown_type
           else try_bind (name_fits_type kind name) (\<lambda>_. Inr \<lparr>uf_encrypted = True, uf_type = kind, uf_manifest = h\<rparr>)
       | _ \<Rightarrow> Inl Bad_parameters)"

definition validate_plain_upload :: "backup_env \<Rightarrow> string \<Rightarrow> string \<Rightarrow> (backup_error, upload_facts) result" where
  "validate_plain_upload e name bytes =
     try_bind (zip_entries e bytes) (\<lambda>entries.
     try_bind (read_any_backup_manifest e entries) (\<lambda>m.
       let kind = backup_type_from_manifest m in
       try_bind (name_fits_type kind name) (\<lambda>_.
       try_bind (validate_backup_file_size e (json_truthy (json_get ''borg_cache_included'' m) \<or> kind = ''cache'')
           (json_truthy (json_get ''client_borg_cache_included'' m)) bytes) (\<lambda>_.
       try_bind (safe_extract e [''data/''] entries) (\<lambda>(m', st).
         Inr \<lparr>uf_encrypted = False, uf_type = kind, uf_manifest = m'\<rparr>)))))"

definition validate_uploaded_backup :: "backup_env \<Rightarrow> string \<Rightarrow> string \<Rightarrow> (backup_error, upload_facts) result" where
  "validate_uploaded_backup e name bytes =
     (if \<not> backup_name name then Inl Bad_name
      else if ends_with ''.bbm'' name then validate_encrypted_upload e name bytes
      else if \<not> ends_with ''.zip'' name then Inl Bad_suffix
      else validate_plain_upload e name bytes)"

text \<open>\<open>os.link\<close> never replaces a file.\<close>

definition store_uploaded_backup ::
    "backup_env \<Rightarrow> string \<Rightarrow> string \<Rightarrow> backup_dir \<Rightarrow> (backup_error, upload_facts) result \<times> backup_dir" where
  "store_uploaded_backup e bytes name dir =
     (case validate_uploaded_backup e name bytes of
        Inl err \<Rightarrow> (Inl err, dir)
      | Inr facts \<Rightarrow>
          if dir name \<noteq> None then (Inl Name_exists_already, dir)
          else (Inr facts, dir(name := Some bytes)))"

definition backup_path :: "string \<Rightarrow> backup_dir \<Rightarrow> (backup_error, string) result" where
  "backup_path name dir =
     (if \<not> backup_name name then Inl Bad_name
      else case dir name of None \<Rightarrow> Inl File_missing | Some bytes \<Rightarrow> Inr bytes)"

text \<open>An entry of the list: the manifest is empty when the file cannot be read.\<close>

definition listed_backup :: "backup_env \<Rightarrow> string \<Rightarrow> string \<Rightarrow> bool \<times> string \<times> (string \<times> json) list" where
  "listed_backup e name bytes =
     (let m = (if ends_with ''.bbm'' name
          then (case read_encrypted_header e True bytes of Inl _ \<Rightarrow> [] | Inr (h, _) \<Rightarrow> h)
          else (case try_bind (zip_entries e bytes) (read_any_backup_manifest e) of Inl _ \<Rightarrow> [] | Inr m \<Rightarrow> m)) in
      (ends_with ''.bbm'' name, json_text (bk_json e) (json_get ''backup_type'' m), m))"

end
