(* ===== verification/BackupTasks.thy ===== *)
theory BackupTasks
  imports BackupInventory BackupRestore
begin

text \<open>
  The tasks that create backups, \<open>src/app/manager_backup_progress.py\<close>, their workers and the endpoints on
  backups in \<open>src/app/main.py\<close>. The tasks are a dictionary in the order of insertion, kept with the id of the
  current one under a lock.
\<close>

section \<open>Tasks\<close>

datatype task_status = Task_queued | Task_running | Task_finished | Task_warning | Task_failed

definition task_active :: "task_status \<Rightarrow> bool" where
  "task_active st = (st \<in> {Task_queued, Task_running})"

text \<open>\<open>bt_numbers\<close> are the members a progress report may set beside stage, message and percent.\<close>

record backup_task =
  bt_id :: string
  bt_cache :: bool
  bt_status :: task_status
  bt_stage :: string
  bt_message :: string
  bt_percent :: rat
  bt_label :: string
  bt_with_manager :: bool
  bt_with_clients :: bool
  bt_created_at :: time
  bt_started_at :: "time option"
  bt_finished_at :: "time option"
  bt_updated_at :: "time option"
  bt_numbers :: "(string \<times> json) list"
  bt_backups :: "string list"
  bt_error :: "string option"
  bt_notice :: "string option"
  bt_events :: "(time \<times> string) list"

record backup_tasks =
  ts_tasks :: "backup_task list"
  ts_current :: "string option"

definition get_task :: "string \<Rightarrow> backup_tasks \<Rightarrow> backup_task option" where
  "get_task i s = find (\<lambda>t. bt_id t = i) (ts_tasks s)"

definition put_task :: "backup_task \<Rightarrow> backup_task list \<Rightarrow> backup_task list" where
  "put_task t ts = (if list_ex (\<lambda>u. bt_id u = bt_id t) ts then map (\<lambda>u. if bt_id u = bt_id t then t else u) ts else ts @ [t])"

definition last_events :: "(time \<times> string) list \<Rightarrow> (time \<times> string) list" where
  "last_events es = drop (length es - 12) es"

definition task_end_time :: "backup_task \<Rightarrow> time" where
  "task_end_time t = (case bt_finished_at t of None \<Rightarrow> bt_created_at t | Some f \<Rightarrow> f)"

text \<open>At most 12 tasks stay; the oldest finished ones go first.\<close>

definition prune_tasks :: "backup_tasks \<Rightarrow> backup_tasks" where
  "prune_tasks s =
     (let n = length (ts_tasks s) in
      if n \<le> 12 then s
      else (let old = sort_key task_end_time (filter (\<lambda>t. Some (bt_id t) \<noteq> ts_current s \<and> \<not> task_active (bt_status t)) (ts_tasks s));
                gone = map bt_id (take (n - 12) old) in
        s\<lparr>ts_tasks := filter (\<lambda>t. bt_id t \<notin> set gone) (ts_tasks s)\<rparr>))"

definition current_active :: "backup_tasks \<Rightarrow> bool" where
  "current_active s =
     (case ts_current s of None \<Rightarrow> False
      | Some i \<Rightarrow> (case get_task i s of None \<Rightarrow> False | Some t \<Rightarrow> task_active (bt_status t)))"

definition noun :: "bool \<Rightarrow> string" where
  "noun cache = (if cache then ''Cache-Backup'' else ''Manager-Backup'')"

text \<open>The ellipsis of the message is three dots here.\<close>

definition first_message :: "bool \<Rightarrow> string" where
  "first_message cache = noun cache @ '' wird vorbereitet ...''"

datatype begin_error = Task_running_already | Unknown_backup_type

definition begin_task :: "time \<Rightarrow> string \<Rightarrow> string \<Rightarrow> string \<Rightarrow> bool \<Rightarrow> bool \<Rightarrow> backup_tasks \<Rightarrow>
     (begin_error, backup_task) result \<times> backup_tasks" where
  "begin_task now i label backup_type with_manager with_clients s =
     (if current_active s then (Inl Task_running_already, s)
      else if backup_type \<notin> {''manager'', ''cache''} then (Inl Unknown_backup_type, s)
      else (let cache = (backup_type = ''cache'');
                t = \<lparr>bt_id = i, bt_cache = cache, bt_status = Task_queued, bt_stage = ''queued'', bt_message = first_message cache,
                  bt_percent = 0, bt_label = label, bt_with_manager = with_manager, bt_with_clients = with_clients, bt_created_at = now,
                  bt_started_at = None, bt_finished_at = None, bt_updated_at = None, bt_numbers = [], bt_backups = [], bt_error = None,
                  bt_notice = None, bt_events = [(now, first_message cache)]\<rparr> in
        (Inr t, prune_tasks (s\<lparr>ts_tasks := put_task t (ts_tasks s), ts_current := Some i\<rparr>))))"

text \<open>What a report of the worker sets; every report of a worker sets the status \<open>running\<close>.\<close>

record task_change =
  tc_stage :: "string option"
  tc_message :: "string option"
  tc_percent :: "rat option"
  tc_numbers :: "(string \<times> json) list"

definition apply_change :: "time \<Rightarrow> task_change \<Rightarrow> backup_task \<Rightarrow> backup_task" where
  "apply_change now c t =
     (let events = (case tc_message c of None \<Rightarrow> bt_events t
            | Some m \<Rightarrow> if m \<noteq> [] \<and> m \<noteq> bt_message t then last_events (bt_events t @ [(now, m)]) else bt_events t) in
      t\<lparr>bt_started_at := (if bt_started_at t = None then Some now else bt_started_at t), bt_events := events,
        bt_status := Task_running, bt_stage := or_else (tc_stage c) (bt_stage t), bt_message := or_else (tc_message c) (bt_message t),
        bt_percent := or_else (tc_percent c) (bt_percent t), bt_numbers := fold (\<lambda>(k, v). dict_set k v) (tc_numbers c) (bt_numbers t),
        bt_updated_at := Some now\<rparr>)"

definition update_task :: "time \<Rightarrow> string \<Rightarrow> task_change \<Rightarrow> backup_tasks \<Rightarrow> backup_tasks" where
  "update_task now i c s =
     (case get_task i s of None \<Rightarrow> s | Some t \<Rightarrow> s\<lparr>ts_tasks := put_task (apply_change now c t) (ts_tasks s)\<rparr>)"

definition close_task :: "backup_task \<Rightarrow> backup_tasks \<Rightarrow> backup_tasks" where
  "close_task t s =
     prune_tasks (s\<lparr>ts_tasks := put_task t (ts_tasks s), ts_current := (if ts_current s = Some (bt_id t) then None else ts_current s)\<rparr>)"

definition finish_task :: "time \<Rightarrow> string \<Rightarrow> string list \<Rightarrow> string option \<Rightarrow> backup_tasks \<Rightarrow> backup_tasks" where
  "finish_task now i backups warning s =
     (case get_task i s of None \<Rightarrow> s
      | Some t \<Rightarrow>
          (let text = noun (bt_cache t) @ (if truthy warning then '' wurde mit Warnungen erstellt.'' else '' wurde erfolgreich erstellt.'');
               events = bt_events t @ [(now, text)] @ (if truthy warning then [(now, ''Warnung: '' @ or_empty warning)] else []) in
           close_task (t\<lparr>bt_events := last_events events, bt_status := (if truthy warning then Task_warning else Task_finished),
             bt_stage := ''finished'', bt_message := text, bt_percent := 100, bt_finished_at := Some now, bt_backups := backups,
             bt_error := None, bt_notice := warning, bt_updated_at := Some now\<rparr>) s))"

definition fail_task :: "time \<Rightarrow> string \<Rightarrow> string \<Rightarrow> backup_tasks \<Rightarrow> backup_tasks" where
  "fail_task now i error s =
     (case get_task i s of None \<Rightarrow> s
      | Some t \<Rightarrow>
          close_task (t\<lparr>bt_events := last_events (bt_events t @ [(now, ''Fehler: '' @ error)]), bt_status := Task_failed,
            bt_stage := ''failed'', bt_message := noun (bt_cache t) @ '' konnte nicht erstellt werden.'', bt_finished_at := Some now,
            bt_error := Some error, bt_updated_at := Some now\<rparr>) s)"

text \<open>With \<open>include_last\<close> the newest task when none is current; the first of equal times.\<close>

definition current_task :: "bool \<Rightarrow> backup_tasks \<Rightarrow> backup_task option" where
  "current_task include_last s =
     (case Option.bind (ts_current s) (\<lambda>i. get_task i s) of
        Some t \<Rightarrow> Some t
      | None \<Rightarrow> if \<not> include_last \<or> ts_tasks s = [] then None
          else Some (fold (\<lambda>t best. if bt_created_at best < bt_created_at t then t else best) (tl (ts_tasks s)) (hd (ts_tasks s))))"

section \<open>The system of tasks\<close>

text \<open>
  A request begins a task with a fresh random id; only the worker of the current task reports, and it ends with
  \<open>finish\<close> or \<open>fail\<close>.
\<close>

inductive task_step :: "backup_tasks \<Rightarrow> backup_tasks \<Rightarrow> bool" where
  step_begin: "get_task i s = None \<Longrightarrow> task_step s (snd (begin_task now i label kind m c s))"
| step_update: "ts_current s = Some i \<Longrightarrow> task_step s (update_task now i ch s)"
| step_finish: "ts_current s = Some i \<Longrightarrow> task_step s (finish_task now i backups warning s)"
| step_fail: "ts_current s = Some i \<Longrightarrow> task_step s (fail_task now i error s)"

inductive task_reachable :: "backup_tasks \<Rightarrow> bool" where
  task_start: "task_reachable \<lparr>ts_tasks = [], ts_current = None\<rparr>"
| task_next: "task_reachable s \<Longrightarrow> task_step s t \<Longrightarrow> task_reachable t"

text \<open>At most 12 tasks with ids of their own and at most 12 events each; exactly the current one is active.\<close>

definition tasks_ok :: "backup_tasks \<Rightarrow> bool" where
  "tasks_ok s \<longleftrightarrow>
     distinct (map bt_id (ts_tasks s)) \<and> length (ts_tasks s) \<le> 12 \<and>
     list_all (\<lambda>t. length (bt_events t) \<le> 12 \<and> (task_active (bt_status t) \<longleftrightarrow> ts_current s = Some (bt_id t))) (ts_tasks s) \<and>
     (case ts_current s of None \<Rightarrow> True | Some i \<Rightarrow> i \<in> bt_id ` set (ts_tasks s))"

text \<open>The same without the bound: as it is before pruning.\<close>

definition tasks_open :: "backup_tasks \<Rightarrow> bool" where
  "tasks_open s \<longleftrightarrow>
     distinct (map bt_id (ts_tasks s)) \<and>
     list_all (\<lambda>t. length (bt_events t) \<le> 12 \<and> (task_active (bt_status t) \<longleftrightarrow> ts_current s = Some (bt_id t))) (ts_tasks s) \<and>
     (case ts_current s of None \<Rightarrow> True | Some i \<Rightarrow> i \<in> bt_id ` set (ts_tasks s))"

lemma prune_tasks_ok:
  assumes "tasks_open s" "length (ts_tasks s) \<le> 13"
  shows "tasks_ok (prune_tasks s)"
proof (cases "length (ts_tasks s) \<le> 12")
  case True
  then show ?thesis using assms(1) by (simp add: prune_tasks_def tasks_ok_def tasks_open_def)
next
  case False
  then have n: "length (ts_tasks s) = 13" using assms(2) by simp
  define P where "P = (\<lambda>t :: backup_task. Some (bt_id t) \<noteq> ts_current s \<and> \<not> task_active (bt_status t))"
  define old where "old = sort_key task_end_time (filter P (ts_tasks s))"
  have d: "distinct (map bt_id (ts_tasks s))" using assms(1) by (simp add: tasks_open_def)
  have P: "P t \<longleftrightarrow> ts_current s \<noteq> Some (bt_id t)" if "t \<in> set (ts_tasks s)" for t
  proof -
    have "task_active (bt_status t) \<longleftrightarrow> ts_current s = Some (bt_id t)" using assms(1) that unfolding tasks_open_def list_all_iff by blast
    then show ?thesis unfolding P_def by metis
  qed
  have "old \<noteq> []"
  proof
    assume "old = []"
    then have "\<forall>t \<in> set (ts_tasks s). ts_current s = Some (bt_id t)" using P by (auto simp: old_def filter_empty_conv dest: arg_cong [where f = set])
    then have "set (map bt_id (ts_tasks s)) \<subseteq> {the (ts_current s)}" by auto
    then have "card (set (map bt_id (ts_tasks s))) \<le> 1" using card_mono [of "{the (ts_current s)}"] by simp
    then show False using distinct_card [OF d] n by simp
  qed
  then obtain g rest where o: "old = g # rest" by (cases old) auto
  have "set old = {t \<in> set (ts_tasks s). P t}" by (simp add: old_def)
  then have g: "take 1 old = [g]" "g \<in> set (ts_tasks s)" "P g" unfolding o by auto
  have "prune_tasks s = s\<lparr>ts_tasks := filter (\<lambda>t. bt_id t \<noteq> bt_id g) (ts_tasks s)\<rparr>"
    using n g(1) by (simp add: prune_tasks_def Let_def old_def P_def)
  moreover have "length (filter (\<lambda>t. bt_id t \<noteq> bt_id g) (ts_tasks s)) < length (ts_tasks s)"
    using g(2) by (intro length_filter_less) auto
  moreover have "ts_current s \<noteq> Some (bt_id g)" using P g(2,3) by simp
  ultimately show ?thesis using assms(1) n
    by (auto simp: tasks_ok_def tasks_open_def list_all_iff distinct_map_filter split: option.splits)
qed

lemma last_events_length: "length (last_events es) \<le> 12"
  by (simp add: last_events_def)

lemma get_task_member:
  assumes "get_task i s = Some t"
  shows "t \<in> set (ts_tasks s)" "bt_id t = i"
  using assms by (auto simp: get_task_def find_Some_iff)

lemma get_task_none: "get_task i s = None \<longleftrightarrow> i \<notin> bt_id ` set (ts_tasks s)"
  by (auto simp: get_task_def find_None_iff)

lemma put_task_ids:
  assumes "bt_id t \<in> bt_id ` set ts"
  shows "map bt_id (put_task t ts) = map bt_id ts" "set (put_task t ts) \<subseteq> insert t {u \<in> set ts. bt_id u \<noteq> bt_id t}"
  using assms by (auto simp: put_task_def list_ex_iff)

text \<open>Replacing the current task: it stays active, or it is no longer current.\<close>

lemma tasks_open_replace:
  assumes ok: "tasks_ok s" and u: "get_task i s = Some u" "bt_id t = i" "length (bt_events t) \<le> 12" and cur: "ts_current s = Some i"
    and new: "c = (if task_active (bt_status t) then Some i else None)"
  shows "tasks_open (s\<lparr>ts_tasks := put_task t (ts_tasks s), ts_current := c\<rparr>)"
    and "length (put_task t (ts_tasks s)) \<le> 12"
proof -
  have mem: "bt_id t \<in> bt_id ` set (ts_tasks s)" using get_task_member [OF u(1)] u(2) by auto
  note ids = put_task_ids [OF mem]
  have len: "length (put_task t (ts_tasks s)) = length (ts_tasks s)" using arg_cong [OF ids(1), of length] by simp
  then show "length (put_task t (ts_tasks s)) \<le> 12" using ok by (simp add: tasks_ok_def)
  have image: "bt_id ` set (put_task t (ts_tasks s)) = bt_id ` set (ts_tasks s)" using arg_cong [OF ids(1), of set] by simp
  have "length (bt_events v) \<le> 12 \<and> (task_active (bt_status v) \<longleftrightarrow> c = Some (bt_id v))" if "v \<in> set (put_task t (ts_tasks s))" for v
  proof (cases "v = t")
    case True
    then show ?thesis using u(2,3) new by auto
  next
    case False
    with that ids(2) have "v \<in> set (ts_tasks s)" "bt_id v \<noteq> i" using u(2) by auto
    then show ?thesis using ok cur new by (auto simp: tasks_ok_def list_all_iff)
  qed
  then show "tasks_open (s\<lparr>ts_tasks := put_task t (ts_tasks s), ts_current := c\<rparr>)"
    using ok ids(1) image mem u(2) new by (auto simp: tasks_open_def tasks_ok_def list_all_iff split: option.splits)
qed

lemma begin_task_ok:
  assumes ok: "tasks_ok s" and new: "get_task i s = None"
  shows "tasks_ok (snd (begin_task now i label kind m c s))"
proof (cases "current_active s \<or> kind \<notin> {''manager'', ''cache''}")
  case True
  then show ?thesis using ok by (auto simp: begin_task_def)
next
  case False
  have none: "ts_current s = None"
  proof (rule ccontr)
    assume "ts_current s \<noteq> None"
    then obtain j where j: "ts_current s = Some j" "j \<in> bt_id ` set (ts_tasks s)" using ok by (auto simp: tasks_ok_def)
    then obtain t where t: "get_task j s = Some t" using get_task_none [of j s] by auto
    then have "task_active (bt_status t)" using ok j(1) get_task_member [OF t] by (auto simp: tasks_ok_def list_all_iff)
    then show False using False j(1) t by (simp add: current_active_def)
  qed
  have ids: "i \<notin> bt_id ` set (ts_tasks s)" using new by (simp add: get_task_none)
  obtain t where t: "snd (begin_task now i label kind m c s) = prune_tasks (s\<lparr>ts_tasks := put_task t (ts_tasks s), ts_current := Some i\<rparr>)"
      "bt_id t = i" "task_active (bt_status t)" "length (bt_events t) \<le> 12"
    using False that by (auto simp: begin_task_def Let_def task_active_def)
  have "\<not> list_ex (\<lambda>u. bt_id u = bt_id t) (ts_tasks s)" using ids t(2) unfolding list_ex_iff by (metis image_eqI)
  then have put: "put_task t (ts_tasks s) = ts_tasks s @ [t]" by (simp add: put_task_def)
  have "tasks_open (s\<lparr>ts_tasks := put_task t (ts_tasks s), ts_current := Some i\<rparr>)"
    using ok none ids t(2-4) unfolding put by (auto simp: tasks_open_def tasks_ok_def list_all_iff)
  moreover have "length (ts_tasks (s\<lparr>ts_tasks := put_task t (ts_tasks s), ts_current := Some i\<rparr>)) \<le> 13"
    using ok by (simp add: put tasks_ok_def)
  ultimately show ?thesis unfolding t(1) by (rule prune_tasks_ok)
qed

lemma close_task_ok:
  assumes "tasks_ok s" "get_task i s = Some u" "ts_current s = Some i" "bt_id t = i" "length (bt_events t) \<le> 12" "\<not> task_active (bt_status t)"
  shows "tasks_ok (close_task t s)"
proof -
  have "tasks_open (s\<lparr>ts_tasks := put_task t (ts_tasks s), ts_current := None\<rparr>)" "length (put_task t (ts_tasks s)) \<le> 12"
    using tasks_open_replace [OF assms(1,2,4,5,3), of None] assms(6) by auto
  then show ?thesis using assms(3,4) by (simp add: close_task_def prune_tasks_ok)
qed

lemma update_task_ok:
  assumes ok: "tasks_ok s" and cur: "ts_current s = Some i"
  shows "tasks_ok (update_task now i ch s)"
proof -
  obtain u where u: "get_task i s = Some u" using ok cur get_task_none [of i s] by (auto simp: tasks_ok_def)
  have "length (bt_events u) \<le> 12" using ok get_task_member [OF u] by (auto simp: tasks_ok_def list_all_iff)
  then have t: "bt_id (apply_change now ch u) = i" "length (bt_events (apply_change now ch u)) \<le> 12"
      "task_active (bt_status (apply_change now ch u))"
    using get_task_member [OF u] last_events_length by (auto simp: apply_change_def Let_def task_active_def split: option.splits)
  have "s\<lparr>ts_current := Some i\<rparr> = s" using cur by (cases s) simp
  then have "tasks_open (s\<lparr>ts_tasks := put_task (apply_change now ch u) (ts_tasks s)\<rparr>)" "length (put_task (apply_change now ch u) (ts_tasks s)) \<le> 12"
    using tasks_open_replace [OF ok u t(1,2) cur, of "Some i"] t(3) cur by (cases s, simp)+
  then show ?thesis using u by (simp add: update_task_def tasks_open_def tasks_ok_def)
qed

lemma task_step_ok:
  assumes "task_step s t" "tasks_ok s"
  shows "tasks_ok t"
  using assms
proof (induction rule: task_step.induct)
  case (step_begin i s)
  then show ?case by (intro begin_task_ok)
next
  case (step_update s i)
  then show ?case by (intro update_task_ok)
next
  case (step_finish s i)
  then obtain u where u: "get_task i s = Some u" using get_task_none [of i s] by (auto simp: tasks_ok_def)
  show ?case using u get_task_member [OF u] step_finish last_events_length
    by (auto simp: finish_task_def Let_def task_active_def intro!: close_task_ok [of s i u])
next
  case (step_fail s i)
  then obtain u where u: "get_task i s = Some u" using get_task_none [of i s] by (auto simp: tasks_ok_def)
  show ?case using u get_task_member [OF u] step_fail last_events_length
    by (auto simp: fail_task_def Let_def task_active_def intro!: close_task_ok [of s i u])
qed

lemma reachable_tasks_ok: "task_reachable s \<Longrightarrow> tasks_ok s"
  by (induction rule: task_reachable.induct) (auto simp: tasks_ok_def [of "\<lparr>ts_tasks = [], ts_current = None\<rparr>"] intro: task_step_ok)

end
