(* ===== verification/BackupApi.thy ===== *)
theory BackupApi
  imports BackupTasks AccountRequests RunLogs
begin

text \<open>
  The endpoints on backups in \<open>src/app/main.py\<close>, after the validation of their requests, and the workers of the
  tasks. The backup directory, the tasks and the database are passed explicitly.
\<close>

section \<open>Errors\<close>

datatype backup_failure =
    Runs_active | Backup_running | Backup_missing | Task_unknown | No_passphrase | Too_big | Bad_length | Name_taken
  | Target_missing | Repository_unknown | Not_assigned | Target_off | Refused backup_error | Crash

fun failure_status :: "backup_failure \<Rightarrow> int" where
  "failure_status Runs_active = 409"
| "failure_status Backup_running = 409"
| "failure_status Name_taken = 409"
| "failure_status Not_assigned = 409"
| "failure_status Target_off = 409"
| "failure_status Backup_missing = 404"
| "failure_status Task_unknown = 404"
| "failure_status Target_missing = 404"
| "failure_status Repository_unknown = 404"
| "failure_status Too_big = 413"
| "failure_status Crash = 500"
| "failure_status e = 400"

text \<open>\<open>FileNotFoundError\<close> and the other expected errors; any other error is a crash.\<close>

definition failure_of :: "backup_error \<Rightarrow> backup_failure" where
  "failure_of err = (if err = File_missing then Backup_missing else if err = Python_error then Crash else Refused err)"

definition expected :: "(backup_error, 'a) result \<Rightarrow> (backup_failure, 'a) result" where
  "expected r = (case r of Inl err \<Rightarrow> Inl (failure_of err) | Inr a \<Rightarrow> Inr a)"

definition runs_pending :: "manager_db \<Rightarrow> bool" where
  "runs_pending db = list_ex (\<lambda>r. rn_status r \<in> {Queued, Running}) (db_runs db)"

section \<open>Creating\<close>

definition start_backup :: "time \<Rightarrow> string \<Rightarrow> manager_backup_in \<Rightarrow> backup_tasks \<Rightarrow> (backup_failure, backup_task) result \<times> backup_tasks" where
  "start_backup now i r s =
     (if \<not> truthy (mb_passphrase r) then (Inl No_passphrase, s)
      else case begin_task now i (or_manual (mb_label r)) ''manager'' False False s of
        (Inl _, s') \<Rightarrow> (Inl Backup_running, s')
      | (Inr t, s') \<Rightarrow> (Inr t, s'))"

definition start_cache_backup ::
    "time \<Rightarrow> string \<Rightarrow> cache_backup_in \<Rightarrow> manager_db \<Rightarrow> backup_tasks \<Rightarrow> (backup_failure, backup_task) result \<times> backup_tasks" where
  "start_cache_backup now i r db s =
     (if runs_pending db then (Inl Runs_active, s)
      else case begin_task now i (or_manual (cb_label r)) ''cache'' (cb_include_manager r) (cb_include_client r) s of
        (Inl _, s') \<Rightarrow> (Inl Backup_running, s')
      | (Inr t, s') \<Rightarrow> (Inr t, s'))"

definition set_request_of :: "string \<Rightarrow> string \<Rightarrow> string \<Rightarrow> (nat \<Rightarrow> string \<times> string) \<Rightarrow> cache_backup_in \<Rightarrow> set_request" where
  "set_request_of version now stamp random r =
     \<lparr>sq_version = version, sq_label = cb_label r, sq_passphrase = cb_passphrase r, sq_encrypted = cb_encrypted r, sq_pack = cb_compression r,
      sq_now = now, sq_stamp = stamp, sq_random = random\<rparr>"

definition create_cache_backup_sync :: "backup_env \<Rightarrow> set_request \<Rightarrow> cache_backup_in \<Rightarrow> cache_sources \<Rightarrow> backup_tasks \<Rightarrow> backup_dir \<Rightarrow>
     (backup_failure, set_result) result \<times> backup_dir" where
  "create_cache_backup_sync e q r src s dir =
     (if current_task False s \<noteq> None then (Inl Backup_running, dir)
      else if runs_pending (cs_db src) then (Inl Runs_active, dir)
      else case create_cache_backup_set e q (cb_include_manager r) (cb_include_client r) (cb_client_host_ids r) src dir of
        (res, d) \<Rightarrow> (expected res, d))"

text \<open>The reports of a worker, then the end; \<open>public\<close> is the text with the id of the logged error.\<close>

definition report_all :: "time \<Rightarrow> string \<Rightarrow> task_change list \<Rightarrow> backup_tasks \<Rightarrow> backup_tasks" where
  "report_all now i reports s = fold (update_task now i) reports s"

definition prepare_report :: "string \<Rightarrow> task_change" where
  "prepare_report n =
     \<lparr>tc_stage = Some ''prepare'', tc_message = Some (n @ '' wird vorbereitet ...''), tc_percent = Some 1, tc_numbers = []\<rparr>"

definition manager_backup_worker :: "time \<Rightarrow> string \<Rightarrow> string \<Rightarrow> task_change list \<Rightarrow> (backup_error, string) result \<times> backup_dir \<Rightarrow>
     backup_tasks \<Rightarrow> backup_tasks \<times> backup_dir" where
  "manager_backup_worker now i public reports outcome s =
     (let s' = report_all now i (prepare_report ''Manager-Backup'' # reports) s in
      case outcome of
        (Inl err, d) \<Rightarrow> (fail_task now i public s', d)
      | (Inr name, d) \<Rightarrow> (finish_task now i [name] None s', d))"

definition cache_backup_worker :: "time \<Rightarrow> string \<Rightarrow> string \<Rightarrow> (cache_warning \<Rightarrow> string) \<Rightarrow> task_change list \<Rightarrow>
     (backup_error, set_result) result \<times> backup_dir \<Rightarrow> backup_tasks \<Rightarrow> backup_tasks \<times> backup_dir" where
  "cache_backup_worker now i public warning_text reports outcome s =
     (let s' = report_all now i (prepare_report ''Cache-Backup'' # reports) s in
      case outcome of
        (Inl err, d) \<Rightarrow> (fail_task now i public s', d)
      | (Inr r, d) \<Rightarrow>
          (let text = join_with '' '' (map warning_text (sr_warnings r)) in
           (finish_task now i (sort_key (map char_code) (sr_paths r)) (none_if_empty text) s', d)))"

definition get_backup_task :: "string \<Rightarrow> backup_tasks \<Rightarrow> (backup_failure, backup_task) result" where
  "get_backup_task i s = (case get_task i s of None \<Rightarrow> Inl Task_unknown | Some t \<Rightarrow> Inr t)"

section \<open>Upload, download, deletion\<close>

definition upload_limit :: "backup_env \<Rightarrow> nat" where
  "upload_limit e = max (bl_file (bk_limits e)) (bl_file (bk_cache_limits e))"

text \<open>The bytes that arrived, or the chunk that is too much.\<close>

fun receive_chunks :: "nat \<Rightarrow> string \<Rightarrow> string list \<Rightarrow> (backup_failure, string) result" where
  "receive_chunks limit got [] = Inr got"
| "receive_chunks limit got (c # cs) =
     (if limit < length got + length c then Inl Too_big else receive_chunks limit (got @ c) cs)"

definition upload_manager_backup ::
    "backup_env \<Rightarrow> string \<Rightarrow> string option \<Rightarrow> string list \<Rightarrow> backup_dir \<Rightarrow> (backup_failure, upload_facts) result \<times> backup_dir" where
  "upload_manager_backup e header_name content_length chunks dir =
     (case (if \<not> truthy content_length then Inr ()
            else case py_int_text (or_empty content_length) of
              None \<Rightarrow> Inl Bad_length
            | Some n \<Rightarrow> if int (upload_limit e) < n then Inl Too_big else Inr ()) of
        Inl f \<Rightarrow> (Inl f, dir)
      | Inr _ \<Rightarrow>
          (case receive_chunks (upload_limit e) [] chunks of
             Inl f \<Rightarrow> (Inl f, dir)
           | Inr bytes \<Rightarrow>
               (case store_uploaded_backup e bytes (py_strip header_name) dir of
                  (Inl err, d) \<Rightarrow> (Inl (if err = Name_exists_already then Name_taken else failure_of err), d)
                | (Inr facts, d) \<Rightarrow> (Inr facts, d))))"

definition download_backup :: "string \<Rightarrow> backup_dir \<Rightarrow> (backup_failure, string) result" where
  "download_backup name dir = expected (backup_path name dir)"

definition delete_backup :: "string \<Rightarrow> backup_dir \<Rightarrow> (backup_failure, unit) result \<times> backup_dir" where
  "delete_backup name dir =
     (case backup_path name dir of Inl err \<Rightarrow> (Inl (failure_of err), dir) | Inr _ \<Rightarrow> (Inr (), dir(name := None)))"

section \<open>Restoring\<close>

record restore_ready =
  ry_staging :: staging
  ry_manifest :: "(string \<times> json) list"
  ry_safety :: string

text \<open>The answer 202 names what the background task will apply and the backup made before it.\<close>

definition restore_manager_backup :: "backup_env \<Rightarrow> sqlite_env \<Rightarrow> string \<Rightarrow> string \<Rightarrow> string \<Rightarrow> string \<Rightarrow> string \<Rightarrow> string \<Rightarrow> string \<Rightarrow>
     manager_files \<Rightarrow> manager_db \<Rightarrow> backup_dir \<Rightarrow> (backup_failure, restore_ready) result \<times> backup_dir" where
  "restore_manager_backup e q salt nonce now stamp version name passphrase f db dir =
     (if runs_pending db then (Inl Runs_active, dir)
      else case try_bind (backup_path name dir) (\<lambda>bytes. prepare_full_backup_restore e q name bytes (Some passphrase)) of
        Inl err \<Rightarrow> (Inl (failure_of err), dir)
      | Inr (st, m) \<Rightarrow>
          (case create_full_backup e q salt nonce now stamp version ''vor-wiederherstellung'' (Some passphrase) ''standard'' f dir of
             (Inl err, d) \<Rightarrow> (Inl (failure_of err), d)
           | (Inr safety, d) \<Rightarrow> (Inr \<lparr>ry_staging = st, ry_manifest = m, ry_safety = safety\<rparr>, d)))"

text \<open>
  Afterwards: whether the process ends and is started again, whether its scheduler runs, and the data. A failed
  restore raises in the background task; the scheduler is not started again.
\<close>

record after_restore =
  ar_restarts :: bool
  ar_scheduler :: bool
  ar_live :: "string \<Rightarrow> staging option"
  ar_kept :: "string \<Rightarrow> staging option"

definition apply_manager_restore_and_restart :: "bool list \<Rightarrow> staging \<Rightarrow> (string \<Rightarrow> staging option) \<Rightarrow> after_restore" where
  "apply_manager_restore_and_restart faults st live =
     (case apply_prepared_restore faults (staged_data st) live of (outcome, live', kept) \<Rightarrow>
       \<lparr>ar_restarts = (outcome = Applied), ar_scheduler = False, ar_live = live', ar_kept = kept\<rparr>)"

definition restore_manager_cache_backup :: "backup_env \<Rightarrow> string \<Rightarrow> string option \<Rightarrow> manager_db \<Rightarrow> backup_dir \<Rightarrow> staging cache_swap \<Rightarrow>
     (backup_failure, (string \<times> json) list) result \<times> staging cache_swap" where
  "restore_manager_cache_backup e name passphrase db dir s =
     (if runs_pending db then (Inl Runs_active, s)
      else case backup_path name dir of
        Inl err \<Rightarrow> (Inl (failure_of err), s)
      | Inr bytes \<Rightarrow>
          (case restore_manager_borg_cache_from_backup e name bytes passphrase s of (res, t) \<Rightarrow> (expected res, t)))"

definition inspect_client_caches ::
    "backup_env \<Rightarrow> string \<Rightarrow> string option \<Rightarrow> backup_dir \<Rightarrow> (backup_failure, (string \<times> nat) list \<times> client_entry list) result" where
  "inspect_client_caches e name passphrase dir =
     expected (try_bind (backup_path name dir) (\<lambda>bytes. client_borg_cache_inventory e name bytes passphrase))"

text \<open>
  The message is built from \<open>result.get("security_restore", {}).get("status")\<close>: with the value \<open>None\<close> this raises,
  after the device has its cache. \<open>snd\<close> tells whether the cache was restored.
\<close>

definition restore_client_cache :: "backup_env \<Rightarrow> restore_runs \<Rightarrow> string \<Rightarrow> nat \<Rightarrow> nat \<Rightarrow> nat option \<Rightarrow> string option \<Rightarrow>
     manager_db \<Rightarrow> backup_dir \<Rightarrow> (backup_failure, client_restored) result \<times> bool" where
  "restore_client_cache e rr name host_id repository_id target_host_id passphrase db dir =
     (let target_id = (case target_host_id of None \<Rightarrow> host_id | Some i \<Rightarrow> i);
          assigned = list_ex (\<lambda>j. jb_host_id j = target_id \<and> jb_repository_id j = repository_id) (db_jobs db) in
      if runs_pending db then (Inl Runs_active, False)
      else case get_host db target_id of None \<Rightarrow> (Inl Target_missing, False)
      | Some target \<Rightarrow>
          if get_repository db repository_id = None then (Inl Repository_unknown, False)
          else if \<not> assigned then (Inl Not_assigned, False)
          else if \<not> ho_enabled target then (Inl Target_off, False)
          else case try_bind (backup_path name dir) (\<lambda>bytes. restore_client_borg_cache_from_backup e rr name bytes passphrase target
              (int repository_id) (int host_id) (int repository_id)) of
            Inl err \<Rightarrow> (Inl (failure_of err), False)
          | Inr r \<Rightarrow> if cr_security r = None then (Inl Crash, True) else (Inr r, True))"

end
