(* ===== verification/BackupNames.thy ===== *)
theory BackupNames
  imports BackupInventory BackupRestore
begin

text \<open>
  The names of backups and of the files in them: those the program makes pass its own patterns, and a name that
  passes has no separator, so that a request never leaves the directory of backups.
\<close>

section \<open>Patterns\<close>

text \<open>\<open>rx_takes r w\<close>: the pattern can consume \<open>w\<close>, whatever follows.\<close>

definition rx_takes :: "rx \<Rightarrow> string \<Rightarrow> bool" where
  "rx_takes r w \<longleftrightarrow> (\<forall>u g. (u, g) \<in> set (rx_matches r (w @ u, g)))"

lemma rx_takes_Eps: "rx_takes Eps []"
  by (simp add: rx_takes_def)

lemma rx_takes_One: "p c \<Longrightarrow> rx_takes (One p) [c]"
  by (simp add: rx_takes_def)

lemma rx_takes_Cat: "rx_takes r v \<Longrightarrow> rx_takes q w \<Longrightarrow> rx_takes (Cat r q) (v @ w)"
  unfolding rx_takes_def by (simp add: bex_Un) (metis append_assoc)

lemma rx_takes_Or: "rx_takes r w \<or> rx_takes q w \<Longrightarrow> rx_takes (Or r q) w"
  by (auto simp: rx_takes_def)

lemma rx_takes_Opt: "w = [] \<or> rx_takes r w \<Longrightarrow> rx_takes (Opt True r) w"
  by (auto simp: rx_takes_def)

lemma rx_takes_seq_Cons: "rs \<noteq> [] \<Longrightarrow> rx_takes r v \<Longrightarrow> rx_takes (rx_seq rs) w \<Longrightarrow> rx_takes (rx_seq (r # rs)) (v @ w)"
  by (cases rs) (simp_all add: rx_takes_Cat)

lemma rx_takes_text: "rx_takes (rx_text w) w"
proof (induction w)
  case Nil
  then show ?case by (simp add: rx_text_def rx_takes_Eps)
next
  case (Cons c w)
  show ?case
  proof (cases w)
    case Nil
    then show ?thesis by (simp add: rx_text_def rx_takes_One)
  next
    case w: Cons
    have "rx_takes (rx_seq (One (\<lambda>d. d = c) # map (\<lambda>c. One (\<lambda>d. d = c)) w)) ([c] @ w)"
      using Cons.IH w by (intro rx_takes_seq_Cons rx_takes_One) (simp_all add: rx_text_def)
    then show ?thesis by (simp add: rx_text_def)
  qed
qed

lemma rx_takes_many:
  assumes "list_all p w" "length w \<le> n" and f: "\<And>c s. p c \<Longrightarrow> f (c # s, g) = [(s, g)]"
  shows "(u, g) \<in> set (repeat_match True f n (w @ u, g))"
  using assms(1,2)
proof (induction n arbitrary: w)
  case (Suc n)
  show ?case
  proof (cases w)
    case Nil
    then show ?thesis by (simp add: Let_def)
  next
    case (Cons c v)
    with Suc have "(u, g) \<in> set (repeat_match True f n (v @ u, g))" by (intro Suc.IH) simp_all
    with Cons Suc.prems show ?thesis by (simp add: Let_def f)
  qed
qed simp

lemma rx_takes_plus: "list_all p w \<Longrightarrow> w \<noteq> [] \<Longrightarrow> rx_takes (rx_plus (One p)) w"
proof -
  assume w: "list_all p w" "w \<noteq> []"
  have "rx_takes (Many True (One p)) v" if "list_all p v" for v
    unfolding rx_takes_def rx_matches.simps by (intro allI rx_takes_many [OF that]) simp_all
  then show "rx_takes (rx_plus (One p)) w"
    using w by (cases w) (auto simp: rx_plus_def intro: rx_takes_Cat [of _ "[c]" for c, simplified] rx_takes_One)
qed

lemma rx_takes_times: "list_all p w \<Longrightarrow> rx_takes (rx_times (length w) (One p)) w"
proof (induction w)
  case Nil
  then show ?case by (simp add: rx_takes_Eps)
next
  case (Cons c w)
  then have "rx_takes (Cat (One p) (rx_times (length w) (One p))) ([c] @ w)"
    by (intro rx_takes_Cat rx_takes_One) simp_all
  then show ?case by simp
qed

lemma rx_takes_fullmatch:
  assumes "rx_takes r w"
  shows "re_fullmatch r w \<noteq> None"
proof -
  have "([], []) \<in> set (filter (\<lambda>t. fst t = []) (rx_matches r (w, [])))"
    using assms [unfolded rx_takes_def, rule_format, of "[]" "[]"] by simp
  then show ?thesis unfolding re_fullmatch_def by (cases "filter (\<lambda>t. fst t = []) (rx_matches r (w, []))") auto
qed

section \<open>What a pattern can consume\<close>

fun rx_within :: "(char \<Rightarrow> bool) \<Rightarrow> rx \<Rightarrow> bool" where
  "rx_within q Eps = True"
| "rx_within q (One p) = (\<forall>c. p c \<longrightarrow> q c)"
| "rx_within q (Cat r s) = (rx_within q r \<and> rx_within q s)"
| "rx_within q (Or r s) = (rx_within q r \<and> rx_within q s)"
| "rx_within q (Many g r) = rx_within q r"
| "rx_within q (Opt g r) = rx_within q r"
| "rx_within q (Grp n r) = rx_within q r"
| "rx_within q (Stop m) = True"

definition consumed_within :: "(char \<Rightarrow> bool) \<Rightarrow> string \<Rightarrow> string \<Rightarrow> bool" where
  "consumed_within q s t \<longleftrightarrow> (\<exists>u. s = u @ t \<and> list_all q u)"

lemma consumed_within_refl [simp]: "consumed_within q s s"
  by (simp add: consumed_within_def)

lemma consumed_within_trans: "consumed_within q s t \<Longrightarrow> consumed_within q t u \<Longrightarrow> consumed_within q s u"
  unfolding consumed_within_def by (metis append_assoc list_all_append)

lemma repeat_within:
  assumes f: "\<And>st t. t \<in> set (f st) \<Longrightarrow> consumed_within q (fst st) (fst t)"
  shows "t \<in> set (repeat_match g f n st) \<Longrightarrow> consumed_within q (fst st) (fst t)"
proof (induction n arbitrary: st t)
  case (Suc n)
  then have "t = st \<or> (\<exists>m \<in> set (f st). t \<in> set (repeat_match g f n m))"
    by (auto simp: Let_def split: if_splits)
  then show ?case using Suc.IH f consumed_within_trans consumed_within_refl by metis
qed simp

lemma rx_matches_within: "rx_within q r \<Longrightarrow> t \<in> set (rx_matches r st) \<Longrightarrow> consumed_within q (fst st) (fst t)"
proof (induction r arbitrary: st t)
  case (One p)
  then show ?case by (cases "fst st") (auto simp: consumed_within_def split: if_splits)
next
  case (Cat r s)
  then obtain m where "m \<in> set (rx_matches r st)" "t \<in> set (rx_matches s m)" by auto
  then show ?case using Cat consumed_within_trans by (metis rx_within.simps(3))
next
  case (Many g r)
  then show ?case using repeat_within [of "rx_matches r" q t g] by auto
qed (auto split: if_splits)

lemma fullmatch_within:
  assumes "rx_within q r" "re_fullmatch r s \<noteq> None"
  shows "list_all q s"
proof -
  obtain t where "t \<in> set (rx_matches r (s, []))" "fst t = []"
    using assms(2) unfolding re_fullmatch_def by (force simp: filter_eq_Cons_iff split: list.splits)
  with rx_matches_within [OF assms(1) this(1)] show ?thesis by (simp add: consumed_within_def)
qed

lemma rx_within_text: "rx_within q (rx_text w) \<longleftrightarrow> list_all q w"
proof -
  have "rx_within q (rx_seq rs) \<longleftrightarrow> list_all (rx_within q) rs" for rs by (induction rs rule: rx_seq.induct) simp_all
  then show ?thesis by (simp add: rx_text_def list_all_iff)
qed

lemma rx_within_seq: "rx_within q (rx_seq rs) \<longleftrightarrow> list_all (rx_within q) rs"
  by (induction rs rule: rx_seq.induct) simp_all

lemma rx_within_alt: "rs \<noteq> [] \<Longrightarrow> rx_within q (rx_alt rs) \<longleftrightarrow> list_all (rx_within q) rs"
  by (induction rs rule: rx_alt.induct) simp_all

lemma rx_within_times: "rx_within q r \<Longrightarrow> rx_within q (rx_times n r)"
  by (induction n) simp_all

section \<open>Names that pass\<close>

definition word_char :: "char \<Rightarrow> bool" where
  "word_char c \<longleftrightarrow> is_ascii c \<and> is_alnum c \<or> c \<in> set ''_-''"

definition version_char :: "char \<Rightarrow> bool" where
  "version_char c \<longleftrightarrow> is_ascii c \<and> is_alnum c \<or> c \<in> set ''.+-''"

lemma rx_word_char_eq: "rx_word_char = One word_char" and rx_version_char_eq: "rx_version_char = One version_char"
  by (simp_all add: rx_word_char_def rx_version_char_def word_char_def [abs_def] version_char_def [abs_def])

definition name_char :: "char \<Rightarrow> bool" where
  "name_char c \<longleftrightarrow> c \<noteq> CHR ''/'' \<and> c \<noteq> CHR 0x00 \<and> c \<noteq> CHR 0x5C"

lemma chars_are_name_chars: "word_char c \<or> version_char c \<or> is_digit c \<Longrightarrow> name_char c"
proof -
  assume c: "word_char c \<or> version_char c \<or> is_digit c"
  have "\<not> (word_char d \<or> version_char d \<or> is_digit d)" if "d \<in> {CHR ''/'', CHR 0x00, CHR 0x5C}" for d
    using that by (elim insertE emptyE) (simp_all, code_simp+)
  with c show "name_char c" unfolding name_char_def by blast
qed

lemma rx_stamped_within: "list_all (list_all name_char) suffixes \<Longrightarrow> suffixes \<noteq> [] \<Longrightarrow> rx_within name_char (rx_stamped suffixes)"
  by (auto simp: rx_stamped_def rx_within_seq rx_within_text rx_within_alt rx_plus_def rx_word_char_eq rx_version_char_eq rx_digit_def
      list_all_iff rx_within_times chars_are_name_chars name_char_def [of "CHR ''-''"])

lemma backup_name_chars:
  assumes "backup_name name"
  shows "list_all name_char name"
proof -
  have texts: "list_all (list_all name_char) [''borgbackup-manager-backup-v'', ''borgbackup-manager-cache-'', ''manager'', ''client-'', ''-h'', ''-'', ''v'', ''.zip'', ''.bbm'']"
    by code_simp
  have "rx_within name_char (rx_stamped [''.zip'', ''.bbm''])" using texts by (intro rx_stamped_within) simp_all
  moreover have "rx_within name_char rx_cache_prefix"
    using texts by (auto simp: rx_cache_prefix_def rx_within_seq rx_within_text rx_plus_def rx_word_char_eq rx_digit_def chars_are_name_chars)
  ultimately have "rx_within name_char (Cat (Or (rx_text ''borgbackup-manager-backup-v'') rx_cache_prefix) (rx_stamped [''.zip'', ''.bbm'']))"
    using texts by (simp add: rx_within_text)
  then show ?thesis using assms unfolding backup_name_def by (rule fullmatch_within)
qed

text \<open>A label and a slug are made of the characters of a word.\<close>

lemma label_runs_chars: "list_all word_char (label_runs inside s)"
proof (induction inside s rule: label_runs.induct)
  case (2 inside c s)
  have "word_char (CHR ''-'')" by code_simp
  with 2 show ?case by (simp add: word_char_def)
qed simp

lemma list_all_strip: "list_all p s \<Longrightarrow> list_all p (strip_by q s)"
  by (auto simp: strip_by_def rstrip_by_def lstrip_by_def list_all_iff dest!: set_dropWhileD)

lemma list_all_take: "list_all p s \<Longrightarrow> list_all p (take n s)"
  by (auto simp: list_all_iff dest: in_set_takeD)

lemma label_of_word: "list_all word_char (label_of value) \<and> label_of value \<noteq> []"
proof -
  have "list_all word_char ''manual''" by code_simp
  then show ?thesis by (simp add: label_of_def Let_def list_all_take list_all_strip label_runs_chars)
qed

lemma archive_slug_word: "list_all word_char fallback \<Longrightarrow> fallback \<noteq> [] \<Longrightarrow> list_all word_char (archive_slug value fallback) \<and> archive_slug value fallback \<noteq> []"
  by (simp add: archive_slug_def Let_def list_all_take list_all_strip label_runs_chars)

text \<open>A version and a time as the program writes them.\<close>

definition stamped_by :: "string \<Rightarrow> string \<Rightarrow> bool" where
  "stamped_by version stamp \<longleftrightarrow> version \<noteq> [] \<and> list_all version_char version \<and>
     (length stamp = 15 \<and> stamp ! 8 = CHR ''-'' \<and> list_all is_digit (take 8 stamp) \<and> list_all is_digit (drop 9 stamp))"

lemma rx_takes_stamped:
  assumes "stamped_by version stamp" "label \<noteq> []" "list_all word_char label" "suffix \<in> set suffixes"
  shows "rx_takes (rx_stamped suffixes) (version @ ''-'' @ stamp @ ''-'' @ label @ suffix)"
proof -
  define d t where "d = take 8 stamp" and "t = drop 9 stamp"
  have "stamp = d @ drop 8 stamp" "drop 8 stamp = stamp ! 8 # t"
    using assms(1) Cons_nth_drop_Suc [of 8 stamp] by (simp_all add: d_def t_def stamped_by_def eval_nat_numeral)
  then have stamp: "stamp = d @ ''-'' @ t" using assms(1) by (simp add: stamped_by_def)
  have len: "length d = 8" "length t = 6" "list_all is_digit d" "list_all is_digit t"
    using assms(1) by (simp_all add: d_def t_def stamped_by_def)
  have alt: "rx_takes (rx_alt (map rx_text ks)) k" if "k \<in> set ks" for k ks
    using that by (induction ks rule: induct_list012) (auto intro: rx_takes_text rx_takes_Or)
  have digits: "rx_takes (rx_times 8 rx_digit) d" "rx_takes (rx_times 6 rx_digit) t"
    unfolding rx_digit_def using rx_takes_times [OF len(3)] rx_takes_times [OF len(4)] by (simp_all only: len)
  have "rx_takes (rx_seq [rx_plus rx_version_char, rx_text ''-'', rx_times 8 rx_digit, rx_text ''-'',
     rx_times 6 rx_digit, rx_text ''-'', rx_plus rx_word_char, rx_alt (map rx_text suffixes)])
       (version @ ''-'' @ d @ ''-'' @ t @ ''-'' @ label @ suffix)"
    using assms digits alt [OF assms(4)]
    by (intro rx_takes_seq_Cons) (auto simp: stamped_by_def rx_word_char_eq rx_version_char_eq intro: rx_takes_plus rx_takes_text [of "''-''", simplified])
  then show ?thesis by (simp add: rx_stamped_def stamp)
qed

lemma manager_name_passes:
  assumes "stamped_by version stamp"
  shows "manager_backup_name (manager_backup_file_name version stamp label) \<and> backup_name (manager_backup_file_name version stamp label)"
proof -
  define rest where "rest = version @ ''-'' @ stamp @ ''-'' @ label_of label @ ''.bbm''"
  have take: "rx_takes (rx_stamped suffixes) rest" if "''.bbm'' \<in> set suffixes" for suffixes
    unfolding rest_def using assms label_of_word [of label] that by (intro rx_takes_stamped) auto
  have name: "manager_backup_file_name version stamp label = ''borgbackup-manager-backup-v'' @ rest"
    by (simp only: manager_backup_file_name_def rest_def)
  show ?thesis unfolding manager_backup_name_def backup_name_def name
    by (intro conjI rx_takes_fullmatch rx_takes_Cat rx_takes_Or disjI1 rx_takes_text take) simp_all
qed

lemma str_nat_number: "list_all is_digit (str_nat i) \<and> str_nat i \<noteq> []"
proof
  show "list_all is_digit (str_nat i)" by (auto simp: list_all_iff dest: str_nat_digits)
  show "str_nat i \<noteq> []" by (simp add: str_nat.simps [of i])
qed

lemma rx_takes_cache_prefix:
  assumes "w = ''manager'' \<or> (\<exists>l i. w = ''client-'' @ l @ ''-h'' @ str_nat i \<and> l \<noteq> [] \<and> list_all word_char l)"
  shows "rx_takes rx_cache_prefix (''borgbackup-manager-cache-'' @ (w @ ''-'') @ ''v'')"
proof -
  have "rx_takes (Or (rx_text ''manager'') (rx_seq [rx_text ''client-'', rx_plus rx_word_char, rx_text ''-h'', rx_plus rx_digit])) w"
  proof (rule rx_takes_Or, cases "w = ''manager''")
    case True
    then show "rx_takes (rx_text ''manager'') w \<or> rx_takes (rx_seq [rx_text ''client-'', rx_plus rx_word_char, rx_text ''-h'', rx_plus rx_digit]) w"
      using rx_takes_text by blast
  next
    case False
    then obtain l i where w: "w = ''client-'' @ l @ ''-h'' @ str_nat i" "l \<noteq> []" "list_all word_char l" using assms by blast
    have "rx_takes (rx_seq [rx_text ''client-'', rx_plus rx_word_char, rx_text ''-h'', rx_plus rx_digit]) (''client-'' @ l @ ''-h'' @ str_nat i)"
      unfolding rx_word_char_eq rx_digit_def using w(2,3)
      by (intro rx_takes_seq_Cons rx_takes_text) (auto intro!: rx_takes_plus simp: str_nat_number)
    then show "rx_takes (rx_text ''manager'') w \<or> rx_takes (rx_seq [rx_text ''client-'', rx_plus rx_word_char, rx_text ''-h'', rx_plus rx_digit]) w"
      using w(1) by simp
  qed
  then show ?thesis unfolding rx_cache_prefix_def
    by (intro rx_takes_seq_Cons rx_takes_text) (auto intro!: rx_takes_Opt rx_takes_Cat rx_takes_text)
qed

lemma cache_name_passes:
  assumes "stamped_by version stamp" "cache_artifact_name version stamp label encrypted kind host = Inr name"
  shows "cache_backup_name name \<and> backup_name name"
proof -
  define suffix where "suffix = (if encrypted then ''.bbm'' else ''.zip'')"
  define rest where "rest = version @ ''-'' @ stamp @ ''-'' @ label_of label @ suffix"
  obtain w where w: "w = ''manager'' \<or> (\<exists>l i. w = ''client-'' @ l @ ''-h'' @ str_nat i \<and> l \<noteq> [] \<and> list_all word_char l)"
      "name = (''borgbackup-manager-cache-'' @ (w @ ''-'') @ ''v'') @ rest"
  proof (cases kind)
    case Manager_cache
    then have "name = (''borgbackup-manager-cache-'' @ (''manager'' @ ''-'') @ ''v'') @ rest"
      using assms(2) by (simp add: cache_artifact_name_def rest_def suffix_def Let_def)
    then show thesis using that by blast
  next
    case Client_cache
    then obtain i n where h: "host = Some (i, n)" using assms(2) by (auto simp: cache_artifact_name_def Let_def split: option.splits)
    define l where "l = label_of (if n = [] then ''device'' else n)"
    have "name = (''borgbackup-manager-cache-'' @ ((''client-'' @ l @ ''-h'' @ str_nat i) @ ''-'') @ ''v'') @ rest"
      using assms(2) Client_cache by (simp add: cache_artifact_name_def rest_def suffix_def l_def h Let_def)
    moreover have "l \<noteq> []" "list_all word_char l" using label_of_word by (simp_all add: l_def)
    ultimately show thesis using that [of "''client-'' @ l @ ''-h'' @ str_nat i"] by blast
  qed
  have "suffix \<in> set [''.zip'', ''.bbm'']" by (simp add: suffix_def)
  then have take: "rx_takes (rx_stamped [''.zip'', ''.bbm'']) rest"
    unfolding rest_def using assms(1) label_of_word [of label] by (intro rx_takes_stamped) auto
  show ?thesis unfolding cache_backup_name_def backup_name_def w(2)
    by (intro conjI rx_takes_fullmatch rx_takes_Cat rx_takes_Or disjI2 rx_takes_cache_prefix [OF w(1)] take)
qed

section \<open>What was collected from a device is read back\<close>

lemma rx_takes_member:
  assumes "list_all word_char s1" "s1 \<noteq> []" "list_all word_char s2" "s2 \<noteq> []"
  shows "rx_takes (rx_seq [rx_text a, rx_plus rx_word_char, rx_text b, rx_plus rx_word_char, rx_text c]) (a @ s1 @ b @ s2 @ c)"
  unfolding rx_word_char_eq using assms by (intro rx_takes_seq_Cons rx_takes_text rx_takes_plus) (simp_all add: rx_takes_text)

text \<open>A path \<open>data/d/x/y\<close> of parts without separators.\<close>

lemma safe_member_path:
  assumes "CHR ''/'' \<notin> set d" "CHR ''/'' \<notin> set x" "CHR ''/'' \<notin> set y" "''..'' \<notin> {d, x, y}"
    and "CHR 0x00 \<notin> set (d @ x @ y)" "CHR 0x5C \<notin> set (d @ x @ y)"
  shows "\<exists>p. safe_relative_path (''data/'' @ d @ CHR ''/'' # x @ CHR ''/'' # y) = Inr p"
proof -
  have "split_on (CHR ''/'') (''data'' @ CHR ''/'' # d @ CHR ''/'' # x @ CHR ''/'' # y) = [''data'', d, x, y]"
    using assms(1-3) by (simp add: split_on_cons split_on_word)
  then have "''..'' \<notin> set (path_of_string (''data/'' @ d @ CHR ''/'' # x @ CHR ''/'' # y))"
    using assms(4) by (simp add: path_of_string_def)
  then show ?thesis using assms(5,6) by (simp add: safe_relative_path_def)
qed

lemma word_char_plain: "word_char c \<or> is_digit c \<Longrightarrow> c \<noteq> CHR ''/'' \<and> c \<noteq> CHR 0x00 \<and> c \<noteq> CHR 0x5C"
  using chars_are_name_chars [of c] by (auto simp: name_char_def)

lemma member_path_collected:
  assumes "d \<in> {''client-borg-cache'', ''client-borg-security''}" "v = ''data/'' @ d @ ''/'' @ archive_slug a ''device'' @ ''-h'' @ str_nat i @ ''/'' @
    archive_slug b ''repository'' @ ''-r'' @ str_nat k @ ''.tar''"
  shows "member_path lib (''data/'' @ d) (int i) (int k) (JStr v) = Inr v"
proof -
  have fallbacks: "list_all word_char ''device''" "list_all word_char ''repository''" by code_simp+
  define s1 s2 where "s1 = archive_slug a ''device''" and "s2 = archive_slug b ''repository''"
  have slugs: "list_all word_char s1" "s1 \<noteq> []" "list_all word_char s2" "s2 \<noteq> []"
    unfolding s1_def s2_def using fallbacks archive_slug_word by auto
  have v: "v = ((''data/'' @ d) @ ''/'') @ s1 @ (''-h'' @ str_nat i @ ''/'') @ s2 @ (''-r'' @ str_nat k @ ''.tar'')"
    by (simp add: assms(2) s1_def s2_def)
  have m: "re_fullmatch (rx_cache_member (''data/'' @ d) (int i) (int k)) v \<noteq> None"
    unfolding rx_cache_member_def v using slugs
    by (simp only: int_text_def of_nat_less_0_iff if_False nat_int) (intro rx_takes_fullmatch rx_takes_member)
  define x y where "x = s1 @ ''-h'' @ str_nat i" and "y = s2 @ ''-r'' @ str_nat k @ ''.tar''"
  have chars: "word_char c \<or> is_digit c \<or> c = CHR ''.''" if "c \<in> set x \<or> c \<in> set y" for c
  proof -
    have "list_all word_char ''-h''" "list_all word_char ''-r''" "list_all (\<lambda>c. word_char c \<or> c = CHR ''.'') ''.tar''" by code_simp+
    then show ?thesis using that slugs(1,3) str_nat_number [of i] str_nat_number [of k] by (auto simp: x_def y_def list_all_iff)
  qed
  then have plain: "c \<noteq> CHR ''/'' \<and> c \<noteq> CHR 0x00 \<and> c \<noteq> CHR 0x5C" if "c \<in> set x \<or> c \<in> set y" for c
    using chars [OF that] word_char_plain [of c] by auto
  have "length x > 2" "length y > 2" using slugs(2,4) str_nat_number [of i] by (auto simp: x_def y_def neq_Nil_conv)
  then have dots: "''..'' \<notin> {d, x, y}" using assms(1) by auto
  have "\<exists>p. safe_relative_path (''data/'' @ d @ CHR ''/'' # x @ CHR ''/'' # y) = Inr p"
    using assms(1) plain dots by (intro safe_member_path) auto
  then obtain p where p: "safe_relative_path v = Inr p" by (auto simp: v x_def y_def)
  have "v \<noteq> []" by (simp add: assms(2))
  then have "json_text lib (JStr v) = v" by (simp add: json_text_def)
  then show ?thesis using m p by (simp add: member_path_def Let_def)
qed

text \<open>What a transfer of the security state gives.\<close>

lemma stream_one_security_result:
  assumes "stream_one_security dec p = (file, Inr (status, borg_id, n))"
  shows "status \<in> {''saved'', ''missing'', ''unresolved''} \<and> (\<forall>i. borg_id = Some i \<longrightarrow> valid_borg_id i) \<and>
    (status = ''saved'' \<longrightarrow> borg_id \<noteq> None)"
proof -
  have low: "py_lower ''MISSING'' = ''missing''" "py_lower ''UNRESOLVED'' = ''unresolved''" by code_simp+
  have answer: "security_answer r e protocol st i body = (file, Inr (status, borg_id, n)) \<Longrightarrow> ?thesis" for r e protocol st i body
  proof -
    assume a: "security_answer r e protocol st i body = (file, Inr (status, borg_id, n))"
    have st: "st = ''PRESENT'' \<or> st = ''MISSING'' \<or> st = ''UNRESOLVED''" and i: "i = [] \<or> valid_borg_id i"
      and out: "status = (if st = ''PRESENT'' then ''saved'' else py_lower st)" "borg_id = (if i = [] then None else Some i)"
        "st = ''PRESENT'' \<longrightarrow> i \<noteq> []"
      using a unfolding security_answer_def Let_def insert_iff empty_iff by (simp_all split: if_split_asm)
    have "status \<in> {''saved'', ''missing'', ''unresolved''} \<and> (status = ''saved'' \<longrightarrow> i \<noteq> [])" 
      using st by (elim disjE) (simp_all add: out(1,3) low)
    then show ?thesis using out(2) i by auto
  qed
  obtain r e protocol st i body where "security_answer r e protocol st i body = (file, Inr (status, borg_id, n))"
    using assms by (auto simp: stream_one_security_def Let_def split: option.splits prod.splits)
  then show ?thesis by (rule answer)
qed

lemma valid_borg_id_plain:
  assumes "valid_borg_id i"
  shows "py_lower (py_strip i) = i" "i \<noteq> []"
proof -
  have hex: "\<forall>c \<in> set ''0123456789abcdef''. \<not> is_space c \<and> lower_char c = c" by code_simp
  have i: "\<forall>c \<in> set i. \<not> is_space c \<and> lower_char c = c"
    using assms hex unfolding valid_borg_id_def list_all_iff by blast
  have drop: "dropWhile is_space l = l" if "\<forall>c \<in> set l. \<not> is_space c" for l using that by (cases l) auto
  have "dropWhile is_space i = i" "dropWhile is_space (rev i) = rev i" using i by (simp_all add: drop)
  then have "py_strip i = i" by (simp add: py_strip_def strip_by_def rstrip_by_def lstrip_by_def)
  moreover have "py_lower i = i" using i by (simp add: py_lower_def map_idI)
  ultimately show "py_lower (py_strip i) = i" by simp
  show "i \<noteq> []" using assms by (auto simp: valid_borg_id_def)
qed

lemma base_metadata_get:
  "map_of (base_metadata now h r @ ms) ''host_id'' = Some (JInt (int (ho_id h)))"
  "map_of (base_metadata now h r @ ms) ''repository_id'' = Some (JInt (int (rp_id r)))"
  "k \<notin> {''host_id'', ''host_name'', ''repository_id'', ''repository_name'', ''borg_version'', ''cache_path'', ''security_base_path'', ''collected_at''} \<Longrightarrow>
     map_of (base_metadata now h r @ ms) k = map_of ms k"
  by (auto simp: base_metadata_def)

lemma stored_id_text:
  "json_text lib (case borg_id of None \<Rightarrow> JNull | Some i \<Rightarrow> JStr i) = or_empty borg_id"
  by (cases borg_id) (auto simp: json_text_def or_empty_def)

lemma none_if_empty_id:
  assumes "\<forall>i. borg_id = Some i \<longrightarrow> valid_borg_id i"
  shows "none_if_empty (py_lower (py_strip (or_empty borg_id))) = borg_id"
proof (cases borg_id)
  case None
  have "py_lower (py_strip []) = []" by code_simp
  with None show ?thesis by (simp add: none_if_empty_def or_empty_def)
next
  case (Some i)
  then show ?thesis using valid_borg_id_plain [of i] assms by (simp add: none_if_empty_def or_empty_def)
qed

lemma client_archive_paths_parts:
  "member_path lib ''data/client-borg-cache'' (int (ho_id h)) (int (rp_id r)) (JStr (fst (client_archive_paths h r))) = Inr (fst (client_archive_paths h r))"
  "member_path lib ''data/client-borg-security'' (int (ho_id h)) (int (rp_id r)) (JStr (snd (client_archive_paths h r))) = Inr (snd (client_archive_paths h r))"
  using member_path_collected [of "''client-borg-cache''" _ "ho_name h" "ho_id h" "rp_name r" "rp_id r" lib]
    member_path_collected [of "''client-borg-security''" _ "ho_name h" "ho_id h" "rp_name r" "rp_id r" lib]
  by (simp_all add: client_archive_paths_def Let_def)

text \<open>An entry without errors comes back with the paths of the files that were written.\<close>

definition read_back_as :: "host \<Rightarrow> repository \<Rightarrow> bool \<Rightarrow> string \<Rightarrow> string option \<Rightarrow> client_entry \<Rightarrow> bool" where
  "read_back_as h r found security borg_id x \<longleftrightarrow>
     ck_host_id x = int (ho_id h) \<and> ck_repository_id x = int (rp_id r) \<and>
     ck_status x = (if found then ''saved'' else ''missing'') \<and> ck_security_status x = security \<and> ck_borg_id x = borg_id \<and>
     ck_archive_path x = (if found then Some (fst (client_archive_paths h r)) else None) \<and>
     ck_security_archive_path x = (if security = ''saved'' then Some (snd (client_archive_paths h r)) else None)"

definition collected_members :: "host \<Rightarrow> repository \<Rightarrow> bool \<Rightarrow> nat \<Rightarrow> string \<Rightarrow> string option \<Rightarrow> nat \<Rightarrow> (string \<times> json) list" where
  "collected_members h r found n security borg_id k =
     (let member = (\<lambda>k v. (k, JStr v)) in
      (if \<not> found then [member ''status'' ''missing'', member ''reason'' missing_cache_text]
       else [member ''status'' ''saved'', member ''archive_path'' (fst (client_archive_paths h r)), (''tar_bytes'', JInt (int n))]) @
      [member ''security_status'' security, (''borg_repository_id'', case borg_id of None \<Rightarrow> JNull | Some i \<Rightarrow> JStr i)] @
      (case borg_id of None \<Rightarrow> [] | Some i \<Rightarrow> [member ''security_path'' (''$HOME/.config/borg/security/'' @ i)]) @
      (if security = ''saved'' then [member ''security_archive_path'' (snd (client_archive_paths h r)), (''security_tar_bytes'', JInt (int k))]
       else if security = ''missing'' then [member ''security_reason'' missing_security_text]
       else if security = ''unresolved'' then [member ''security_reason'' unresolved_security_text]
       else []))"

lemma collect_one_members:
  assumes "ho_enabled h" "stream_one_cache (ce_dec c) (ce_cache c h r) = (f1, Inr (found, n))"
    and "stream_one_security (ce_dec c) (ce_security c h r) = (f2, Inr (security, borg_id, k))"
  shows "collect_one c now (h, r) = (named_file (fst (client_archive_paths h r)) f1 @ named_file (snd (client_archive_paths h r)) f2,
    base_metadata now h r @ collected_members h r found n security borg_id k)"
  using assms by (cases "client_archive_paths h r") (simp add: collect_one_def collected_members_def Let_def)

lemma collected_members_get:
  assumes "security \<in> {''saved'', ''missing'', ''unresolved''}"
  shows "map_of (collected_members h r found n security borg_id k) ''status'' = Some (JStr (if found then ''saved'' else ''missing''))"
    "map_of (collected_members h r found n security borg_id k) ''security_status'' = Some (JStr security)"
    "map_of (collected_members h r found n security borg_id k) ''borg_repository_id'' = Some (case borg_id of None \<Rightarrow> JNull | Some i \<Rightarrow> JStr i)"
    "map_of (collected_members h r found n security borg_id k) ''tar_bytes'' = (if found then Some (JInt (int n)) else None)"
    "map_of (collected_members h r found n security borg_id k) ''security_tar_bytes'' = (if security = ''saved'' then Some (JInt (int k)) else None)"
    "map_of (collected_members h r found n security borg_id k) ''archive_path'' = (if found then Some (JStr (fst (client_archive_paths h r))) else None)"
    "map_of (collected_members h r found n security borg_id k) ''security_archive_path'' =
       (if security = ''saved'' then Some (JStr (snd (client_archive_paths h r))) else None)"
  using assms by (auto simp: collected_members_def Let_def split: option.splits)

lemma collected_entry_read_back:
  assumes "ho_enabled h" "stream_one_cache (ce_dec c) (ce_cache c h r) = (f1, Inr (found, n))"
    and "stream_one_security (ce_dec c) (ce_security c h r) = (f2, Inr (security, borg_id, k))"
    and "0 < ho_id h" "0 < rp_id r" "(int (ho_id h), int (rp_id r)) \<notin> set seen"
  shows "\<exists>x. client_entry_of lib seen (snd (collect_one c now (h, r))) = Inr x \<and> read_back_as h r found security borg_id x"
proof -
  define d where "d = base_metadata now h r @ collected_members h r found n security borg_id k"
  note sec = stream_one_security_result [OF assms(3)]
  have s: "security \<in> {''saved'', ''missing'', ''unresolved''}" using sec by simp
  note get = collected_members_get [OF s, of h r found n borg_id k]
  have ids: "json_get ''host_id'' d = JInt (int (ho_id h))" "json_get ''repository_id'' d = JInt (int (rp_id r))"
    unfolding json_get_def d_def base_metadata_get(1,2) by (simp_all add: or_else_def)
  have members: "json_get ''status'' d = JStr (if found then ''saved'' else ''missing'')" "json_get ''security_status'' d = JStr security"
      "json_get ''borg_repository_id'' d = (case borg_id of None \<Rightarrow> JNull | Some i \<Rightarrow> JStr i)"
      "json_get ''tar_bytes'' d = (if found then JInt (int n) else JNull)"
      "json_get ''security_tar_bytes'' d = (if security = ''saved'' then JInt (int k) else JNull)"
      "json_get ''archive_path'' d = (if found then JStr (fst (client_archive_paths h r)) else JNull)"
      "json_get ''security_archive_path'' d = (if security = ''saved'' then JStr (snd (client_archive_paths h r)) else JNull)"
    unfolding json_get_def d_def by (subst base_metadata_get(3), simp, simp add: get or_else_def)+
  have texts: "json_text lib (JStr (if found then ''saved'' else ''missing'')) = (if found then ''saved'' else ''missing'')"
      "json_text lib (JStr security) = security"
    using s by (auto simp: json_text_def)
  have bytes: "\<exists>a. json_whole (json_get ''tar_bytes'' d) = Some a" "\<exists>b. json_whole (json_get ''security_tar_bytes'' d) = Some b"
    by (simp_all add: members)
  obtain a b where ab: "json_whole (json_get ''tar_bytes'' d) = Some a" "json_whole (json_get ''security_tar_bytes'' d) = Some b"
    using bytes by blast
  have id: "none_if_empty (py_lower (py_strip (json_text lib (json_get ''borg_repository_id'' d)))) = borg_id"
    unfolding members(3) stored_id_text using sec by (intro none_if_empty_id) simp
  have valid: "\<not> (borg_id \<noteq> None \<and> \<not> valid_borg_id (or_empty borg_id))" using sec by (auto simp: or_empty_def)
  have status: "(if found then ''saved'' else ''missing'') \<in> {''saved'', ''missing'', ''skipped_disabled'', ''warning''}"
      "((if found then ''saved'' else ''missing'') = ''saved'') = found" by simp_all
  have sstatus: "security \<in> {''saved'', ''missing'', ''unresolved'', ''skipped_disabled'', []}" using s by auto
  have positive: "\<not> (int (ho_id h) \<le> 0 \<or> int (rp_id r) \<le> 0 \<or> (int (ho_id h), int (rp_id r)) \<in> set seen)" using assms(4-6) by simp
  have "\<exists>x. client_entry_of lib seen d = Inr x \<and> read_back_as h r found security borg_id x"
  proof (cases found; cases "security = ''saved''")
  qed (use sec positive status sstatus valid id ab members texts client_archive_paths_parts in
      \<open>simp_all add: client_entry_of_def Let_def ids read_back_as_def\<close>)
  then show ?thesis using collect_one_members [OF assms(1-3), of now] by (simp add: d_def)
qed

end
