(* ===== verification/BackupFacts.thy ===== *)
theory BackupFacts
  imports BackupFormat
begin

text \<open>The envelope gives back what was put in, and unpacking stays below the destination and the limits.\<close>

section \<open>The envelope\<close>

lemma be32_length [simp]: "length (be32 n) = 4"
  by (simp add: be32_def)

lemma char_code_mod: "char_code (char_of n) = n mod 256"
  by (simp add: char_code_def)

lemma be32_roundtrip:
  assumes "n < 4294967296"
  shows "un_be32 (be32 n) = n"
proof -
  have "n = 256 * (n div 256) + n mod 256" "n div 256 = 256 * (n div 65536) + n div 256 mod 256"
    "n div 65536 = 256 * (n div 16777216) + n div 65536 mod 256" "n div 16777216 < 256"
    using assms by (simp_all add: div_mult2_eq [of n 256 256, simplified] div_mult2_eq [of n 65536 256, simplified] div_less_iff_less_mult)
  then show ?thesis by (simp add: un_be32_def be32_def char_code_mod)
qed

lemma magic_length [simp]: "length backup_magic = 13"
  by (simp add: backup_magic_def)

definition b64_body :: "char \<Rightarrow> bool" where
  "b64_body c \<longleftrightarrow> is_ascii c \<and> is_alnum c \<or> c \<in> set ''+/''"

lemma b64_char_body [simp]: "b64_body (b64_char n)"
proof -
  have eq: "c = d" if "char_code c = char_code d" for c d using that by (metis char_of_code)
  have "char_code c \<in> {43, 47} \<union> {48..57} \<union> {65..90} \<union> {97..122} \<Longrightarrow> b64_body c" for c
    using eq [of c "CHR ''+''"] eq [of c "CHR ''/''"]
    by (auto simp: b64_body_def is_ascii_def is_alnum_def is_alpha_def is_lower_def is_upper_def is_digit_def Let_def)
      (auto simp: char_code_def)
  then show ?thesis using b64_char_code by blast
qed

lemma encode_quad: "\<exists>q. b64encode (a # b # c # s) = q @ b64encode s \<and> length q = 4 \<and> list_all b64_body q"
proof -
  have quad: "\<exists>q. b64_char i # b64_char j # b64_char k # b64_char l # t = q @ t \<and> length q = 4 \<and> list_all b64_body q" for i j k l t
    by (intro exI [of _ "[b64_char i, b64_char j, b64_char k, b64_char l]"]) simp
  show ?thesis unfolding b64encode.simps(4) by (rule quad)
qed

definition padded_body :: "string \<Rightarrow> bool" where
  "padded_body t \<longleftrightarrow> (\<exists>body k. t = body @ replicate k (CHR ''='') \<and> k \<le> 2 \<and> list_all b64_body body \<and> length t mod 4 = 0)"

lemma padded_bodies:
  "padded_body []"
  "b64_body i \<Longrightarrow> b64_body j \<Longrightarrow> padded_body [i, j, CHR ''='', CHR ''='']"
  "b64_body i \<Longrightarrow> b64_body j \<Longrightarrow> b64_body k \<Longrightarrow> padded_body [i, j, k, CHR ''='']"
  unfolding padded_body_def
  subgoal by (intro exI [of _ "[]"] exI [of _ 0]) simp
  subgoal by (intro exI [of _ "[i, j]"] exI [of _ 2]) (simp add: numeral_2_eq_2)
  subgoal by (intro exI [of _ "[i, j, k]"] exI [of _ "Suc 0"]) simp
  done

lemma padded_body_append:
  assumes "padded_body t" "length q = 4" "list_all b64_body q"
  shows "padded_body (q @ t)"
proof -
  obtain body k where t: "t = body @ replicate k (CHR ''='')" "k \<le> 2" "list_all b64_body body" "length t mod 4 = 0"
    using assms(1) unfolding padded_body_def by (elim exE conjE) (rule that)
  have "length (q @ t) mod 4 = 0" using assms(2) t(4) by simp
  moreover have "q @ t = (q @ body) @ replicate k (CHR ''='')" using t(1) by simp
  moreover have "list_all b64_body (q @ body)" using assms(3) t(3) by simp
  ultimately show ?thesis unfolding padded_body_def using t(2) by (intro exI [of _ "q @ body"] exI [of _ k] conjI)
qed

lemma encoded_chars: "padded_body (b64encode s)"
proof (induction s rule: b64encode.induct)
  case 1
  show ?case unfolding b64encode.simps(1) by (rule padded_bodies)
next
  case (2 a)
  show ?case unfolding b64encode.simps(2) by (intro padded_bodies b64_char_body)
next
  case (3 a b)
  show ?case unfolding b64encode.simps(3) by (intro padded_bodies b64_char_body)
next
  case (4 a b c s)
  obtain q where q: "b64encode (a # b # c # s) = q @ b64encode s" "length q = 4" "list_all b64_body q"
    using encode_quad [of a b c s] by (elim exE conjE) (rule that)
  show ?case unfolding q(1) by (rule padded_body_append [OF 4 q(2,3)])
qed

lemma b64_strict_encode: "b64_strict (JStr (b64encode s)) = Some s"
proof -
  obtain body k where b: "b64encode s = body @ replicate k (CHR ''='')" "k \<le> 2" "list_all b64_body body" "length (b64encode s) mod 4 = 0"
    using encoded_chars [of s] unfolding padded_body_def by (elim exE conjE) (rule that)
  have "\<not> b64_body (CHR ''='')" by code_simp
  then have "dropWhile (\<lambda>c. c = CHR ''='') (rev body) = rev body"
    using b(3) by (cases "rev body") (auto simp: list_all_iff)
  then have r: "rstrip_by (\<lambda>c. c = CHR ''='') (b64encode s) = body"
    unfolding b(1) rstrip_by_def by (simp add: dropWhile_append)
  have "length (b64encode s) - length body \<le> 2" using b(1,2) by simp
  then show ?thesis using b(3,4) by (simp add: b64_strict_def Let_def r b64_body_def [abs_def])
qed

section \<open>What is encrypted comes back\<close>

text \<open>
  What the program relies on: AES-GCM undoes what it did, its ciphertext is as long as the plaintext, and its
  tag has 16 bytes.
\<close>

definition codec_laws :: "backup_env \<Rightarrow> bool" where
  "codec_laws e \<longleftrightarrow>
     (\<forall>k n a p. length (snd (bk_seal e k n a p)) = 16 \<and> length (fst (bk_seal e k n a p)) = length p \<and>
        bk_open e k n a (fst (bk_seal e k n a p)) (snd (bk_seal e k n a p)) = Some p)"

lemma codec_lawsD:
  assumes "codec_laws e"
  shows "length (snd (bk_seal e k n a p)) = 16" "length (fst (bk_seal e k n a p)) = length p"
    "bk_open e k n a (fst (bk_seal e k n a p)) (snd (bk_seal e k n a p)) = Some p"
  using assms by (auto simp: codec_laws_def)

lemma header_members:
  "json_get ''format'' (backup_header m salt nonce) = JStr ''borgbackup-manager-encrypted-backup''"
  "json_get ''format_version'' (backup_header m salt nonce) = JInt 2"
  "json_get ''cipher'' (backup_header m salt nonce) = JStr ''AES-256-GCM-stream''"
  "json_get ''app_version'' (backup_header m salt nonce) = json_get ''app_version'' m"
  "json_get ''salt'' (backup_header m salt nonce) = JStr (b64encode salt)"
  "json_get ''nonce'' (backup_header m salt nonce) = JStr (b64encode nonce)"
  "json_get ''borg_cache_included'' (backup_header m salt nonce) = JBool (json_truthy (json_get ''borg_cache_included'' m))"
  "json_get ''client_borg_cache_included'' (backup_header m salt nonce) = JBool (json_truthy (json_get ''client_borg_cache_included'' m))"
  "map_of (backup_header m salt nonce) ''tag_bytes'' = Some (JInt 16)"
  unfolding json_get_def [of _ "backup_header m salt nonce"] by (simp_all add: backup_header_def Let_def or_else_def)

text \<open>
  The header is read back with the members it had, in the order of its keys, and has the size and the version that reading
  asks for.
\<close>

definition readable_backup :: "backup_env \<Rightarrow> string \<Rightarrow> string \<Rightarrow> (string \<times> json) list \<Rightarrow> string \<Rightarrow> bool" where
  "readable_backup e salt nonce m bytes \<longleftrightarrow>
     (\<exists>h. jl_loads (bk_json e) (bk_dumps e (JObj (backup_header m salt nonce))) = Some (JObj h) \<and> map_of h = map_of (backup_header m salt nonce)) \<and>
     length (bk_dumps e (JObj (backup_header m salt nonce))) \<in> {32..65536} \<and>
     require_supported_backup_version (bk_json e) m = Inr () \<and>
     length bytes \<le> backup_file_limit e (json_truthy (json_get ''borg_cache_included'' m))
       (json_truthy (json_get ''client_borg_cache_included'' m))"

lemma read_envelope:
  assumes r: "readable_backup e salt nonce m (envelope_start e (backup_header m salt nonce) @ body)"
  shows "\<exists>h. map_of h = map_of (backup_header m salt nonce) \<and>
    read_encrypted_header e True (envelope_start e (backup_header m salt nonce) @ body) =
      Inr (h, envelope_start e (backup_header m salt nonce), length (envelope_start e (backup_header m salt nonce)))"
proof -
  define start where "start = envelope_start e (backup_header m salt nonce)"
  define t where "t = bk_dumps e (JObj (backup_header m salt nonce))"
  obtain h where load: "jl_loads (bk_json e) t = Some (JObj h)" and same: "map_of h = map_of (backup_header m salt nonce)"
    using r by (auto simp: readable_backup_def t_def)
  have get: "json_get k h = json_get k (backup_header m salt nonce)" for k by (simp add: json_get_def same)
  have t: "32 \<le> length t" "length t \<le> 65536" using r by (simp_all add: readable_backup_def t_def)
  have start: "start = backup_magic @ be32 (length t) @ t" by (simp add: start_def envelope_start_def t_def)
  have n: "un_be32 (be32 (length t)) = length t" using t by (intro be32_roundtrip) simp
  have ver: "require_supported_backup_version (bk_json e) h = Inr ()"
    using r header_members(4) [of m salt nonce] by (simp add: require_supported_backup_version_def readable_backup_def get)
  have ne: "start @ body \<noteq> []" unfolding start by (simp add: backup_magic_def)
  have size: "validate_backup_file_size e (json_truthy (json_get ''borg_cache_included'' h))
      (json_truthy (json_get ''client_borg_cache_included'' h)) (start @ body) = Inr ()"
    using r ne header_members(7,8) [of m salt nonce]
    by (simp add: validate_backup_file_size_def readable_backup_def get start_def del: append_is_Nil_conv)
  have rest: "drop 13 (start @ body) = be32 (length t) @ t @ body" "take 13 (start @ body) = backup_magic"
    unfolding start by simp_all
  have off: "take (17 + length t) (start @ body) = start" "length start = 17 + length t"
    unfolding start by simp_all
  have nn: "\<not> (length t < 32 \<or> 65536 < length t)" using t by simp
  have "read_encrypted_header e True (start @ body) = Inr (h, start, length start)"
    using ne load ver size rest off n nn
    by (simp add: read_encrypted_header_def Let_def get header_members)
  with same show ?thesis unfolding start_def by blast
qed

lemma encrypted_start:
  assumes "encrypt_backup e salt nonce pw m plain = Inr bytes"
  shows "12 \<le> length pw \<and> bytes = envelope_start e (backup_header m salt nonce) @
    fst (bk_seal e (bk_kdf e (utf8_encode pw) salt) nonce (envelope_start e (backup_header m salt nonce)) plain) @
    snd (bk_seal e (bk_kdf e (utf8_encode pw) salt) nonce (envelope_start e (backup_header m salt nonce)) plain)"
  using assms by (auto simp: encrypt_backup_def derive_backup_key_def Let_def split: if_splits prod.splits)

lemma decrypt_encrypted:
  assumes laws: "codec_laws e" and enc: "encrypt_backup e salt nonce pw m plain = Inr bytes"
    and r: "readable_backup e salt nonce m bytes" and some: "plain \<noteq> []"
  shows "decrypt_backup e (Some pw) bytes = Inr plain"
proof -
  define start where "start = envelope_start e (backup_header m salt nonce)"
  define key where "key = bk_kdf e (utf8_encode pw) salt"
  obtain cipher tag where ct: "bk_seal e key nonce start plain = (cipher, tag)" by fastforce
  have b: "bytes = start @ cipher @ tag" "12 \<le> length pw"
    using encrypted_start [OF enc] ct by (simp_all add: start_def key_def)
  have law: "length tag = 16" "length cipher = length plain" "bk_open e key nonce start cipher tag = Some plain"
    using codec_lawsD [OF laws, of key nonce start plain] by (simp_all add: ct)
  have ne: "cipher \<noteq> []" using law(2) some by auto
  obtain h where h: "map_of h = map_of (backup_header m salt nonce)" and rd: "read_encrypted_header e True bytes = Inr (h, start, length start)"
    using read_envelope [OF r [unfolded b(1) start_def]] unfolding b(1) start_def by blast
  have get: "json_get k h = json_get k (backup_header m salt nonce)" for k by (simp add: json_get_def h)
  have key: "derive_backup_key e pw salt = Inr key" using b(2) by (simp add: derive_backup_key_def key_def)
  have pw: "truthy (Some pw)" "or_empty (Some pw) = pw" using b(2) by auto
  have parts: "\<not> length bytes \<le> length start + 16" "length (drop (length start) bytes) - 16 = length cipher"
    "take (length cipher) (drop (length start) bytes) = cipher" "drop (length cipher) (drop (length start) bytes) = tag"
    using law(1) ne by (simp_all add: b(1))
  show ?thesis
    using rd key pw parts law(3)
    by (simp add: decrypt_backup_def get h header_members b64_strict_encode or_else_def Let_def)
qed

section \<open>Unpacking stays below the destination\<close>

text \<open>What a file that was unpacked may be.\<close>

definition inner_path :: "path \<Rightarrow> bool" where
  "inner_path p \<longleftrightarrow> p \<noteq> [] \<and> list_all (\<lambda>w. w \<noteq> [] \<and> w \<noteq> ''.'' \<and> w \<noteq> ''..'') p"

lemma safe_relative_path_inner:
  assumes "safe_relative_path v = Inr p" "p \<noteq> []"
  shows "inner_path p"
  using assms by (auto simp: safe_relative_path_def inner_path_def path_of_string_def list_all_iff split: if_splits)

lemma check_entries_step:
  assumes "check_entries l seen used packed (y # zs) = Inr r"
  obtains p where "entry_path y = Inr p" "inner_path p" "p \<notin> set seen" "\<not> is_symlink_mode (ze_mode y)"
    "used + ze_size y \<le> bl_uncompressed l"
    "check_entries l (p # seen) (used + ze_size y) (packed + ze_packed y) zs = Inr r"
proof -
  obtain p where p: "entry_path y = Inr p" "p \<notin> set seen" "p \<noteq> []" "\<not> is_symlink_mode (ze_mode y)"
      "\<not> bl_uncompressed l < used + ze_size y"
      "check_entries l (p # seen) (used + ze_size y) (packed + ze_packed y) zs = Inr r"
    using assms by (auto simp: try_bind_Inr_iff split: if_splits)
  moreover have "inner_path p" using p(1,3) by (auto simp: entry_path_def dest: safe_relative_path_inner split: if_splits)
  ultimately show thesis using that by simp
qed

lemma check_entries_paths:
  assumes "check_entries l seen used packed zs = Inr r"
  shows "\<forall>z \<in> set zs. \<exists>p. entry_path z = Inr p \<and> inner_path p \<and> p \<notin> set seen \<and> \<not> is_symlink_mode (ze_mode z)"
  using assms
proof (induction zs arbitrary: seen used packed)
  case (Cons y zs)
  from Cons.prems obtain p where "entry_path y = Inr p" "inner_path p" "p \<notin> set seen" "\<not> is_symlink_mode (ze_mode y)"
      "check_entries l (p # seen) (used + ze_size y) (packed + ze_packed y) zs = Inr r"
    by (rule check_entries_step)
  with Cons.IH [OF this(5)] show ?case by auto
qed simp

lemma check_entries_distinct:
  assumes "check_entries l seen used packed zs = Inr r"
  shows "distinct (map entry_path zs)"
  using assms
proof (induction zs arbitrary: seen used packed)
  case (Cons y zs)
  from Cons.prems obtain p where p: "entry_path y = Inr p"
      "check_entries l (p # seen) (used + ze_size y) (packed + ze_packed y) zs = Inr r"
    by (rule check_entries_step)
  with Cons.IH [OF this(2)] check_entries_paths [OF p(2)] show ?case by auto
qed simp

lemma check_entries_bound:
  assumes "check_entries l seen used packed zs = Inr r" "used \<le> bl_uncompressed l"
  shows "used + sum_list (map ze_size zs) \<le> bl_uncompressed l"
  using assms
proof (induction zs arbitrary: seen used packed)
  case (Cons y zs)
  from Cons.prems(1) obtain p where p: "used + ze_size y \<le> bl_uncompressed l"
      "check_entries l (p # seen) (used + ze_size y) (packed + ze_packed y) zs = Inr r"
    by (rule check_entries_step)
  from Cons.IH [OF p(2,1)] show ?case by simp
qed simp

lemma extracted_files_from:
  "extracted_files zs = map (\<lambda>z. (case entry_path z of Inr p \<Rightarrow> p, take (ze_size z) (ze_data z)))
     (filter (\<lambda>z. \<not> entry_is_dir z \<and> (\<exists>p. entry_path z = Inr p)) zs)"
  by (induction zs) (auto simp: extracted_files_def List.map_filter_def split: sum.splits)

lemma sum_filter_le: "sum_list (map f (filter P xs)) \<le> sum_list (map (f :: 'a \<Rightarrow> nat) xs)"
  by (induction xs) auto

lemma extracted_files_ok:
  assumes "check_entries l [] 0 0 zs = Inr r" and files_def: "files = extracted_files (kept_entries skip zs)"
  shows "\<forall>f \<in> set files. inner_path (fst f)"
    and "distinct (map fst files)"
    and "sum_list (map (\<lambda>f. length (snd f)) files) \<le> bl_uncompressed l"
proof -
  note c = check_entries_paths [OF assms(1)] check_entries_distinct [OF assms(1)]
  have bound: "sum_list (map ze_size zs) \<le> bl_uncompressed l" using check_entries_bound [OF assms(1)] by simp
  define ks where "ks = filter (\<lambda>z. \<not> entry_is_dir z \<and> (\<exists>p. entry_path z = Inr p)) (kept_entries skip zs)"
  have files: "files = map (\<lambda>z. (case entry_path z of Inr p \<Rightarrow> p, take (ze_size z) (ze_data z))) ks"
    unfolding files_def ks_def by (rule extracted_files_from)
  have sub: "set ks \<subseteq> set zs" by (auto simp: ks_def kept_entries_def)
  show "\<forall>f \<in> set files. inner_path (fst f)" using c(1) sub unfolding files by fastforce
  have d: "distinct (map entry_path ks)" unfolding ks_def kept_entries_def
    by (intro distinct_map_filter c(2))
  have "distinct (map (\<lambda>z. Inr (case entry_path z of Inr p \<Rightarrow> p) :: backup_error + path) ks)"
    using d by (rule back_subst [of distinct]) (auto simp: ks_def)
  then show "distinct (map fst files)" unfolding files by (simp add: distinct_map inj_on_def comp_def)
  have "sum_list (map (\<lambda>z. length (take (ze_size z) (ze_data z))) ks) \<le> sum_list (map ze_size ks)"
    by (rule sum_list_mono) simp
  also have "\<dots> \<le> sum_list (map ze_size zs)"
    unfolding ks_def kept_entries_def by (intro order_trans [OF sum_filter_le] sum_filter_le)
  also have "\<dots> \<le> bl_uncompressed l" by (rule bound)
  finally show "sum_list (map (\<lambda>f. length (snd f)) files) \<le> bl_uncompressed l" unfolding files by (simp add: comp_def)
qed

lemma permission_modes_small:
  "permission_modes d = Inr ms \<Longrightarrow> (p, n) \<in> set ms \<Longrightarrow> n < 512"
  by (induction d arbitrary: ms rule: permission_modes.induct) (auto simp: try_bind_Inr_iff split: json.splits if_splits)

lemma permission_modes_lookup:
  assumes "permission_modes d = Inr ms"
  shows "\<forall>n. map_of (rev ms) p = Some n \<longrightarrow> n < 512"
  using permission_modes_small [OF assms] map_of_SomeD [of "rev ms" p] by auto

lemma with_permissions_files:
  assumes "with_permissions e l files = Inr xs"
  shows "map (\<lambda>(p, d, _). (p, d)) xs = files" "\<forall>(p, d, mode) \<in> set xs. \<forall>n. mode = Some n \<longrightarrow> n < 512"
proof -
  show "map (\<lambda>(p, d, _). (p, d)) xs = files"
    using assms by (auto simp: with_permissions_def try_bind_Inr_iff comp_def case_prod_beta split: option.splits json.splits if_splits)
  show "\<forall>(p, d, mode) \<in> set xs. \<forall>n. mode = Some n \<longrightarrow> n < 512"
  proof (cases "map_of files [''permissions.json'']")
    case None
    then show ?thesis using assms by (auto simp: with_permissions_def)
  next
    case (Some bytes)
    then obtain d ms where "permission_modes d = Inr ms" "xs = map (\<lambda>(p, data). (p, data, map_of (rev ms) p)) files"
      using assms by (auto simp: with_permissions_def try_bind_Inr_iff split: option.splits json.splits if_splits)
    then show ?thesis using permission_modes_lookup by fastforce
  qed
qed

text \<open>Everything unpacked: below the destination, once, in total no more than the limit, no special bits.\<close>

definition safely_unpacked :: "backup_limits \<Rightarrow> path list \<Rightarrow> extracted list \<Rightarrow> bool" where
  "safely_unpacked l dirs xs \<longleftrightarrow> list_all inner_path dirs \<and>
     distinct (map fst xs) \<and> list_all (\<lambda>x. inner_path (fst x)) xs \<and>
     sum_list (map (\<lambda>x. length (fst (snd x))) xs) \<le> bl_uncompressed l \<and>
     list_all (\<lambda>(p, d, mode). case mode of None \<Rightarrow> True | Some n \<Rightarrow> n < 512) xs"

lemma safe_extract_safe:
  assumes "safe_extract e skip zs = Inr (m, dirs, xs)"
  shows "safely_unpacked (manifest_limits e m) dirs xs"
proof -
  define files where "files = extracted_files (kept_entries skip zs)"
  obtain r where c: "check_entries (manifest_limits e m) [] 0 0 zs = Inr r"
    and dirs: "dirs = extracted_dirs (kept_entries skip zs)" and w: "with_permissions e (manifest_limits e m) files = Inr xs"
    using assms by (auto simp: safe_extract_def try_bind_Inr_iff Let_def files_def split: if_splits)
  note f = extracted_files_ok [OF c, OF files_def] and p = with_permissions_files [OF w]
  have "map fst xs = map fst files" "map (\<lambda>x. fst (snd x)) xs = map snd files"
    unfolding p(1) [symmetric] by (simp_all add: comp_def case_prod_beta)
  moreover from this(1) have "fst ` set xs = fst ` set files" by (metis set_map)
  moreover from calculation(2) have "map (\<lambda>x. length (fst (snd x))) xs = map (\<lambda>f. length (snd f)) files"
    by (metis (no_types, lifting) map_eq_conv map_map comp_apply)
  moreover have "inner_path (fst x)" if "x \<in> set xs" for x
    using f(1) \<open>fst ` set xs = fst ` set files\<close> imageI [OF that, of fst] by auto
  moreover have "inner_path d" if "d \<in> set dirs" for d
    using that check_entries_paths [OF c] unfolding dirs kept_entries_def
    by (force simp: extracted_dirs_def List.map_filter_def split: if_splits sum.splits)
  ultimately show ?thesis using f p(2)
    by (auto simp: safely_unpacked_def list_all_iff split: option.splits)
qed

end
