(* ===== verification/BackupRoundtrip.thy ===== *)
theory BackupRoundtrip
  imports BackupFacts BackupRestore
begin

text \<open>
  The exchange of the live data is all or nothing, the swap of the caches loses nothing, and a manager backup that was
  written can be unpacked again and holds the files that were saved.
\<close>

section \<open>Single steps\<close>

lemma next_fault_frame:
  "ex_live (snd (next_fault s)) = ex_live s \<and> ex_new (snd (next_fault s)) = ex_new s \<and> ex_old (snd (next_fault s)) = ex_old s"
  by (simp add: next_fault_def split: list.splits)

lemma next_fault_cases:
  obtains f t where "next_fault s = (f, t)" "ex_live t = ex_live s" "ex_new t = ex_new s" "ex_old t = ex_old s"
  using next_fault_frame [of s] by (cases "next_fault s") auto

lemma copy_in_frame:
  assumes "copy_in source c s = (f, t)"
  shows "ex_live t = ex_live s \<and> ex_old t = ex_old s \<and> (\<not> f \<longrightarrow> ex_new t = (ex_new s)(c := source c))"
  using assms by (cases s rule: next_fault_cases) (auto simp: copy_in_def split: bool.splits)

lemma put_aside_frame:
  assumes "put_aside c s = (f, t)"
  shows "ex_new t = ex_new s \<and>
    (if f then ex_live t = ex_live s \<and> ex_old t = ex_old s
     else ex_live t = (ex_live s)(c := None) \<and> ex_old t = (if ex_live s c = None then ex_old s else (ex_old s)(c := ex_live s c)))"
  using assms by (cases s rule: next_fault_cases) (auto simp: put_aside_def split: bool.splits if_splits)

lemma move_in_frame:
  assumes "move_in c s = (f, t)"
  shows "ex_old t = ex_old s \<and>
    (if f then ex_live t = ex_live s \<and> ex_new t = ex_new s
     else ex_live t = (ex_live s)(c := ex_new s c) \<and> ex_new t = (ex_new s)(c := None))"
  using assms by (cases s rule: next_fault_cases) (auto simp: move_in_def split: bool.splits)

lemma take_out_frame:
  assumes "take_out c s = (f, t)"
  shows "ex_old t = ex_old s \<and> ex_live t = (if f then ex_live s else (ex_live s)(c := None))"
  using assms by (cases s rule: next_fault_cases) (auto simp: take_out_def split: bool.splits)

lemma put_back_frame:
  assumes "put_back c s = (f, t)"
  shows "if f \<or> ex_old s c = None then ex_live t = ex_live s \<and> ex_old t = ex_old s
    else ex_live t = (ex_live s)(c := ex_old s c) \<and> ex_old t = (ex_old s)(c := None)"
  using assms by (cases s rule: next_fault_cases) (auto simp: put_back_def split: bool.splits if_splits)

section \<open>Copying\<close>

definition exchanged_names :: "(string \<Rightarrow> 'a option) \<Rightarrow> string list \<Rightarrow> string list" where
  "exchanged_names source cs = filter (\<lambda>c. source c \<noteq> None \<or> c = ''notifications.json'') cs"

lemma copy_components_frame:
  assumes "copy_components source cs s = (f, ks, t)"
  shows "ex_live t = ex_live s \<and> ex_old t = ex_old s \<and>
    (\<not> f \<longrightarrow> ks = exchanged_names source cs \<and>
      ex_new t = (\<lambda>c. if c \<in> set cs \<and> source c \<noteq> None then source c else ex_new s c))"
  using assms
proof (induction cs arbitrary: s ks t)
  case (Cons c cs)
  show ?case
  proof (cases "source c = None")
    case True
    with Cons.prems obtain ls where "copy_components source cs s = (f, ls, t)"
        "ks = (if c = ''notifications.json'' then c # ls else ls)"
      by (auto split: prod.splits)
    with Cons.IH [OF this(1)] True show ?thesis by (auto simp: exchanged_names_def intro!: ext)
  next
    case False
    obtain g u where u: "copy_in source c s = (g, u)" by (cases "copy_in source c s")
    note fr = copy_in_frame [OF u]
    show ?thesis
    proof (cases g)
      case True
      then show ?thesis using Cons.prems False u fr by simp
    next
      case g: False
      with Cons.prems False u obtain ls where ls: "copy_components source cs u = (f, ls, t)" "ks = c # ls"
        by (auto split: prod.splits)
      show ?thesis using Cons.IH [OF ls(1)] fr g False ls(2) by (auto simp: exchanged_names_def fun_eq_iff)
    qed
  qed
qed (simp add: exchanged_names_def fun_eq_iff)

section \<open>The exchange\<close>

text \<open>What holds while components are exchanged: \<open>L\<close> are the live data from before.\<close>

definition exchanging :: "(string \<Rightarrow> 'a option) \<Rightarrow> string list \<Rightarrow> string list \<Rightarrow> 'a exchange \<Rightarrow> bool" where
  "exchanging L changed installed s \<longleftrightarrow>
     distinct changed \<and> set installed \<subseteq> set changed \<and>
     (\<forall>c. if c \<in> set changed then ex_old s c = L c \<and> (c \<in> set installed \<or> ex_live s c = None)
          else ex_live s c = L c \<and> ex_old s c = None)"

lemma exchanging_put_aside:
  assumes "exchanging L changed installed s" "c \<notin> set changed" "put_aside c s = (False, t)"
  shows "exchanging L (c # changed) installed t"
  using assms(1,2) put_aside_frame [OF assms(3)] by (auto simp: exchanging_def)

lemma exchanging_move_in:
  assumes "exchanging L (c # changed) installed s" "move_in c s = (False, t)"
  shows "exchanging L (c # changed) (c # installed) t"
  using assms(1) move_in_frame [OF assms(2)] by (auto simp: exchanging_def)

lemma exchanging_cong:
  assumes "exchanging L changed installed s" "ex_live t = ex_live s" "ex_old t = ex_old s"
  shows "exchanging L changed installed t"
  using assms by (simp add: exchanging_def)

lemma exchange_components_exchanging:
  assumes "exchange_components cs changed installed s = (f, changed', installed', t)"
    and "exchanging L changed installed s" "distinct cs" "set cs \<inter> set changed = {}"
  shows "exchanging L changed' installed' t"
  using assms
proof (induction cs arbitrary: changed installed s)
  case (Cons c cs)
  obtain g u where u: "put_aside c s = (g, u)" by (cases "put_aside c s")
  show ?case
  proof (cases g)
    case True
    then show ?thesis using Cons.prems(1,2) u put_aside_frame [OF u] exchanging_cong [of L changed installed s u] by auto
  next
    case False
    with u have ex: "exchanging L (c # changed) installed u"
      using exchanging_put_aside [OF Cons.prems(2)] Cons.prems(4) by auto
    have rest: "distinct cs" "set cs \<inter> set (c # changed) = {}" using Cons.prems(3,4) by auto
    show ?thesis
    proof (cases "ex_new u c = None")
      case True
      then show ?thesis using Cons.IH [OF _ ex rest] Cons.prems(1) u False by simp
    next
      case new: False
      obtain h v where v: "move_in c u = (h, v)" by (cases "move_in c u")
      show ?thesis
      proof (cases h)
        case True
        then show ?thesis using Cons.prems(1) u False new v move_in_frame [OF v] exchanging_cong [OF ex, of v] by auto
      next
        case nh: False
        with v have "exchanging L (c # changed) (c # installed) v" by (auto intro: exchanging_move_in [OF ex])
        then show ?thesis using Cons.IH [OF _ _ rest] Cons.prems(1) u False new v nh by simp
      qed
    qed
  qed
qed simp

lemma exchange_components_result:
  assumes "exchange_components cs changed installed s = (False, changed', installed', t)" "distinct cs"
  shows "ex_live t = (\<lambda>c. if c \<in> set cs then ex_new s c else ex_live s c)"
  using assms
proof (induction cs arbitrary: changed installed s)
  case (Cons c cs)
  obtain g u where u: "put_aside c s = (g, u)" by (cases "put_aside c s")
  then have g: "\<not> g" using Cons.prems(1) by (cases g) auto
  note fr = put_aside_frame [OF u]
  show ?case
  proof (cases "ex_new u c = None")
    case True
    then have "exchange_components cs (c # changed) installed u = (False, changed', installed', t)"
      using Cons.prems(1) u g by simp
    from Cons.IH [OF this] Cons.prems(2) show ?thesis using fr g True by (auto simp: fun_eq_iff)
  next
    case new: False
    obtain h v where v: "move_in c u = (h, v)" by (cases "move_in c u")
    then have h: "\<not> h" using Cons.prems(1) u g new by (cases h) auto
    have "exchange_components cs (c # changed) (c # installed) v = (False, changed', installed', t)"
      using Cons.prems(1) u g new v h by simp
    from Cons.IH [OF this] Cons.prems(2) show ?thesis using fr g move_in_frame [OF v] h by (auto simp: fun_eq_iff)
  qed
qed (simp add: fun_eq_iff)

section \<open>The way back\<close>

text \<open>A component whose original is put aside, with nothing at its place unless it was installed.\<close>

definition set_aside :: "(string \<Rightarrow> 'a option) \<Rightarrow> string list \<Rightarrow> 'a exchange \<Rightarrow> string \<Rightarrow> bool" where
  "set_aside L installed s c \<longleftrightarrow> ex_old s c = L c \<and> (c \<in> set installed \<or> ex_live s c = None)"

lemma roll_back_one_result:
  assumes "set_aside L installed s c" "roll_back_one installed c s = (f, t)"
  shows "(\<forall>d. d \<noteq> c \<longrightarrow> ex_live t d = ex_live s d \<and> ex_old t d = ex_old s d) \<and>
    (ex_live t c = L c \<or> ex_old t c = L c) \<and> (\<not> f \<longrightarrow> ex_live t c = L c)"
proof (cases "c \<in> set installed")
  case True
  obtain g u where u: "take_out c s = (g, u)" by (cases "take_out c s")
  show ?thesis
  proof (cases g)
    case True
    with assms u \<open>c \<in> set installed\<close> take_out_frame [OF u] show ?thesis
      by (auto simp: roll_back_one_def set_aside_def)
  next
    case False
    then have "put_back c u = (f, t)" using assms(2) True u by (simp add: roll_back_one_def)
    from put_back_frame [OF this] take_out_frame [OF u] False assms(1) show ?thesis
      by (auto simp: set_aside_def split: if_splits)
  qed
next
  case False
  then have "put_back c s = (f, t)" using assms(2) by (simp add: roll_back_one_def)
  from put_back_frame [OF this] False assms(1) show ?thesis by (auto simp: set_aside_def split: if_splits)
qed

lemma roll_back_result:
  assumes "roll_back installed cs s = (f, t)" "\<forall>c \<in> set cs. set_aside L installed s c" "distinct cs"
  shows "\<forall>c. if c \<in> set cs then (ex_live t c = L c \<or> ex_old t c = L c) \<and> (f \<or> ex_live t c = L c)
    else ex_live t c = ex_live s c \<and> ex_old t c = ex_old s c"
  using assms
proof (induction cs arbitrary: s f)
  case (Cons c cs)
  obtain g u where u: "roll_back_one installed c s = (g, u)" by (cases "roll_back_one installed c s")
  obtain h where h: "roll_back installed cs u = (h, t)" "f = (g \<or> h)" using Cons.prems(1) u by (auto split: prod.splits)
  have one: "(\<forall>d. d \<noteq> c \<longrightarrow> ex_live u d = ex_live s d \<and> ex_old u d = ex_old s d) \<and>
      (ex_live u c = L c \<or> ex_old u c = L c) \<and> (\<not> g \<longrightarrow> ex_live u c = L c)"
    using roll_back_one_result [OF _ u] Cons.prems(2) by auto
  have "\<forall>d \<in> set cs. set_aside L installed u d"
  proof
    fix d assume d: "d \<in> set cs"
    then have "d \<noteq> c" "set_aside L installed s d" using Cons.prems(2,3) by auto
    then show "set_aside L installed u d" using one by (simp add: set_aside_def)
  qed
  from Cons.IH [OF h(1) this] Cons.prems(3) have rest: "\<forall>d. if d \<in> set cs then (ex_live t d = L d \<or> ex_old t d = L d) \<and> (h \<or> ex_live t d = L d)
      else ex_live t d = ex_live u d \<and> ex_old t d = ex_old u d" by simp
  show ?case
  proof
    fix d
    show "if d \<in> set (c # cs) then (ex_live t d = L d \<or> ex_old t d = L d) \<and> (f \<or> ex_live t d = L d)
      else ex_live t d = ex_live s d \<and> ex_old t d = ex_old s d"
      using rest [rule_format, of d] one Cons.prems(3) h(2) by (cases "d = c") auto
  qed
qed simp

section \<open>The whole restore\<close>

lemma sidecars_distinct: "distinct (with_sidecars (exchanged_names src restore_components))"
proof -
  have "distinct restore_components" "''manager.db-wal'' \<notin> set restore_components" "''manager.db-shm'' \<notin> set restore_components"
    by code_simp+
  then show ?thesis by (auto simp: with_sidecars_def exchanged_names_def)
qed

text \<open>
  All or nothing: after success the components of the backup and nothing else are new; otherwise the data are
  those from before, or an original lies with the kept files.
\<close>

definition all_or_nothing :: "(string \<Rightarrow> 'a option) option \<Rightarrow> (string \<Rightarrow> 'a option) \<Rightarrow>
    apply_outcome \<times> (string \<Rightarrow> 'a option) \<times> (string \<Rightarrow> 'a option) \<Rightarrow> bool" where
  "all_or_nothing source before result \<longleftrightarrow>
     (case (result, source) of
        ((Applied, live, kept), Some src) \<Rightarrow>
          (\<forall>c. live c = (if c \<in> set (with_sidecars (exchanged_names src restore_components))
             then (if c \<in> set restore_components then src c else None) else before c))
      | ((Applied, live, kept), None) \<Rightarrow> False
      | ((Roll_back_failed, live, kept), _) \<Rightarrow> (\<forall>c. live c = before c \<or> kept c = before c)
      | ((_, live, kept), _) \<Rightarrow> live = before)"

lemma apply_prepared_restore_result:
  "all_or_nothing source live (apply_prepared_restore faults source live)"
proof (cases source)
  case None
  then show ?thesis by (simp add: apply_prepared_restore_def all_or_nothing_def)
next
  case (Some src)
  define s where "s = \<lparr>ex_live = live, ex_new = Map.empty, ex_old = Map.empty, ex_faults = faults\<rparr>"
  obtain f ks t where c: "copy_components src restore_components s = (f, ks, t)" by (cases "copy_components src restore_components s") auto
  note fr = copy_components_frame [OF c]
  show ?thesis
  proof (cases f)
    case True
    then show ?thesis using c fr Some by (simp add: apply_prepared_restore_def all_or_nothing_def s_def Let_def)
  next
    case nf: False
    then have ks: "ks = exchanged_names src restore_components"
      and new: "ex_new t = (\<lambda>c. if c \<in> set restore_components \<and> src c \<noteq> None then src c else None)"
      using fr by (auto simp: s_def fun_eq_iff)
    obtain g changed installed u where e: "exchange_components (with_sidecars ks) [] [] t = (g, changed, installed, u)"
      by (cases "exchange_components (with_sidecars ks) [] [] t") auto
    have dist: "distinct (with_sidecars ks)" unfolding ks by (rule sidecars_distinct)
    have "exchanging live [] [] t" using fr by (simp add: exchanging_def s_def)
    from exchange_components_exchanging [OF e this dist] have ex: "exchanging live changed installed u" by simp
    show ?thesis
    proof (cases g)
      case False
      have "ex_live u = (\<lambda>c. if c \<in> set (with_sidecars ks) then ex_new t c else ex_live t c)"
        using exchange_components_result [of "with_sidecars ks" "[]" "[]" t changed installed u] e False dist by simp
      then show ?thesis using c e nf False fr Some new ks
        by (simp add: apply_prepared_restore_def all_or_nothing_def s_def Let_def)
    next
      case True
      obtain h v where r: "roll_back installed changed u = (h, v)" by (cases "roll_back installed changed u")
      have "\<forall>d \<in> set changed. set_aside live installed u d" "distinct changed"
        using ex by (auto simp: exchanging_def set_aside_def)
      from roll_back_result [OF r this] have rb: "\<forall>d. if d \<in> set changed then (ex_live v d = live d \<or> ex_old v d = live d) \<and> (h \<or> ex_live v d = live d)
        else ex_live v d = ex_live u d \<and> ex_old v d = ex_old u d" .
      have outside: "d \<in> set changed \<or> ex_live u d = live d" for d using ex by (auto simp: exchanging_def split: if_splits)
      have "ex_live v d = live d \<or> ex_old v d = live d" "h \<or> ex_live v d = live d" for d
        using rb [rule_format, of d] outside [of d] by (auto split: if_splits)
      then show ?thesis using c e r nf True Some
        by (cases h) (auto simp: apply_prepared_restore_def all_or_nothing_def s_def Let_def fun_eq_iff)
    qed
  qed
qed

section \<open>The caches of the manager\<close>

lemma mc_fault_cases:
  obtains f t where "mc_fault s = (f, t)" "mc_live t = mc_live s" "mc_previous t = mc_previous s"
  by (cases "mc_faults s") (auto simp: mc_fault_def)

lemma mc_clear_previous_frame:
  assumes "mc_clear_previous c s = (f, t)"
  shows "mc_live t = mc_live s \<and> (\<forall>d. d \<noteq> c \<longrightarrow> mc_previous t d = mc_previous s d) \<and> (\<not> f \<longrightarrow> mc_previous t c = None)"
  using assms by (cases s rule: mc_fault_cases) (auto simp: mc_clear_previous_def split: bool.splits if_splits)

lemma mc_put_aside_frame:
  assumes "mc_put_aside c s = (f, t)"
  shows "if f then mc_live t = mc_live s \<and> mc_previous t = mc_previous s
    else mc_live t = (mc_live s)(c := None) \<and> mc_previous t = (mc_previous s)(c := mc_live s c)"
  using assms by (cases s rule: mc_fault_cases) (auto simp: mc_put_aside_def split: bool.splits)

lemma mc_install_frame:
  assumes "mc_install a c s = (f, t)"
  shows "mc_previous t = mc_previous s \<and> mc_live t = (if f then mc_live s else (mc_live s)(c := Some a))"
  using assms by (cases s rule: mc_fault_cases) (auto simp: mc_install_def split: bool.splits)

text \<open>Every tree from before is at its place or is the safety copy; those installed are safety copies.\<close>

definition caches_kept :: "(string \<Rightarrow> 'a option) \<Rightarrow> string list \<Rightarrow> 'a cache_swap \<Rightarrow> bool" where
  "caches_kept L installed s \<longleftrightarrow>
     (\<forall>c. mc_live s c = L c \<or> mc_previous s c = L c) \<and> (\<forall>c \<in> set installed. mc_previous s c = L c)"

text \<open>Clearing and putting aside one tree: afterwards its place is empty and the safety copy is the tree.\<close>

definition mc_make_room :: "string \<Rightarrow> 'a cache_swap \<Rightarrow> bool \<times> 'a cache_swap" where
  "mc_make_room c s =
     (case mc_clear_previous c s of (True, t) \<Rightarrow> (True, t)
      | (False, t) \<Rightarrow> if mc_live t c = None then (False, t) else mc_put_aside c t)"

lemma mc_make_room_frame:
  assumes "mc_make_room c s = (f, t)"
  shows "(\<forall>d. d \<noteq> c \<longrightarrow> mc_live t d = mc_live s d \<and> mc_previous t d = mc_previous s d) \<and>
    (if f then mc_live t c = mc_live s c else mc_live t c = None \<and> mc_previous t c = mc_live s c)"
proof -
  obtain g u where u: "mc_clear_previous c s = (g, u)" by (cases "mc_clear_previous c s")
  note fr = mc_clear_previous_frame [OF u]
  show ?thesis
  proof (cases "g \<or> mc_live u c = None")
    case True
    then show ?thesis using assms u fr by (auto simp: mc_make_room_def split: bool.splits if_splits)
  next
    case False
    then have "mc_put_aside c u = (f, t)" using assms u by (auto simp: mc_make_room_def)
    from mc_put_aside_frame [OF this] fr show ?thesis by (auto split: if_splits)
  qed
qed

lemma mc_exchange_step:
  "mc_exchange ((c, a) # rest) moved installed s =
     (case mc_make_room c s of
        (True, t) \<Rightarrow> (True, moved, installed, t)
      | (False, t) \<Rightarrow>
          (let moved' = (if mc_live s c = None then moved else c # moved) in
           case mc_install a c t of
             (True, u) \<Rightarrow> (True, moved', installed, u)
           | (False, u) \<Rightarrow> mc_exchange rest moved' (c # installed) u))"
proof -
  obtain g u where u: "mc_clear_previous c s = (g, u)" by (cases "mc_clear_previous c s")
  then have "mc_live u = mc_live s" using mc_clear_previous_frame by blast
  with u show ?thesis by (auto simp: mc_make_room_def Let_def split: bool.splits prod.splits)
qed

lemma mc_exchange_kept:
  assumes "mc_exchange cs moved installed s = (f, moved', installed', t)" "caches_kept L installed s"
    and "\<forall>c \<in> fst ` set cs. mc_live s c = L c" "distinct (map fst cs)" "set installed \<inter> fst ` set cs = {}"
  shows "caches_kept L installed' t \<and>
    (\<not> f \<longrightarrow> (\<forall>c. mc_live t c = (case map_of cs c of None \<Rightarrow> mc_live s c | Some a \<Rightarrow> Some a)) \<and>
      (\<forall>c \<in> fst ` set cs. mc_previous t c = L c) \<and> (\<forall>c. c \<notin> fst ` set cs \<longrightarrow> mc_previous t c = mc_previous s c))"
  using assms
proof (induction cs arbitrary: moved installed s)
  case (Cons x cs)
  obtain c a where x: "x = (c, a)" by (cases x)
  obtain g u where u: "mc_make_room c s = (g, u)" by (cases "mc_make_room c s")
  note fr = mc_make_room_frame [OF u] and Lc = Cons.prems(3)
  have Lc: "mc_live s c = L c" using Cons.prems(3) x by simp
  have nc: "c \<notin> set installed" "c \<notin> fst ` set cs" using Cons.prems(4,5) x by (auto simp: image_iff)
  have kept: "caches_kept L installed u"
    using Cons.prems(2) fr Lc nc(1) unfolding caches_kept_def by (metis (full_types))
  show ?case
  proof (cases g)
    case True
    then show ?thesis using Cons.prems(1) x u kept by (simp add: mc_exchange_step del: mc_exchange.simps)
  next
    case False
    define ms where "ms = (if mc_live s c = None then moved else c # moved)"
    obtain h v where v: "mc_install a c u = (h, v)" by (cases "mc_install a c u")
    note ins = mc_install_frame [OF v]
    have pu: "mc_previous u c = L c" using fr False Lc by simp
    have ku: "mc_live u d = L d \<or> mc_previous u d = L d" "d \<in> set installed \<Longrightarrow> mc_previous u d = L d" for d
      using kept by (auto simp: caches_kept_def)
    have "mc_live v d = L d \<or> mc_previous v d = L d" "d \<in> set installed \<Longrightarrow> mc_previous v d = L d" "mc_previous v c = L c" for d
      using ku [of d] pu ins by (cases "d = c"; cases h; simp)+
    then have kv: "caches_kept L installed v" "\<not> h \<longrightarrow> caches_kept L (c # installed) v"
      by (auto simp: caches_kept_def)
    show ?thesis
    proof (cases h)
      case True
      then show ?thesis using Cons.prems(1) x u v False kv(1) by (simp add: mc_exchange_step Let_def del: mc_exchange.simps)
    next
      case nh: False
      have run: "mc_exchange cs ms (c # installed) v = (f, moved', installed', t)"
        using Cons.prems(1) x u v False nh by (simp add: mc_exchange_step Let_def ms_def del: mc_exchange.simps)
      have live: "\<forall>d \<in> fst ` set cs. mc_live v d = L d"
      proof
        fix d assume d: "d \<in> fst ` set cs"
        then have "d \<noteq> c" "mc_live s d = L d" using nc(2) Cons.prems(3) x by auto
        then show "mc_live v d = L d" using fr ins nh by simp
      qed
      have "caches_kept L (c # installed) v" using kv(2) nh by simp
      from Cons.IH [OF run this live] Cons.prems(4,5) nc x
      have IH: "caches_kept L installed' t"
        "\<not> f \<Longrightarrow> mc_live t d = (case map_of cs d of None \<Rightarrow> mc_live v d | Some a \<Rightarrow> Some a)"
        "\<not> f \<Longrightarrow> d \<in> fst ` set cs \<Longrightarrow> mc_previous t d = L d"
        "\<not> f \<Longrightarrow> d \<notin> fst ` set cs \<Longrightarrow> mc_previous t d = mc_previous v d" for d
        by auto
      have no: "map_of cs c = None" using nc(2) by (simp add: map_of_eq_None_iff)
      have vc: "mc_live v c = Some a" "mc_previous v c = L c" using fr ins False nh Lc by simp_all
      have vd: "mc_live v d = mc_live s d" "mc_previous v d = mc_previous s d" if "d \<noteq> c" for d using fr ins nh that by simp_all
      have live_t: "mc_live t d = (case map_of (x # cs) d of None \<Rightarrow> mc_live s d | Some a \<Rightarrow> Some a)" if "\<not> f" for d
        using IH(2) [OF that, of d] vc(1) vd(1) [of d] no by (cases "d = c") (simp_all add: x split: option.splits)
      have prev_t: "mc_previous t d = L d" if "\<not> f" "d \<in> fst ` set (x # cs)" for d
        using IH(3) [OF that(1), of d] IH(4) [OF that(1), of d] vc(2) nc(2) that(2) by (cases "d = c") (simp_all add: x)
      have other_t: "mc_previous t d = mc_previous s d" if "\<not> f" "d \<notin> fst ` set (x # cs)" for d
        using IH(4) [OF that(1), of d] vd(2) [of d] that(2) by (simp add: x)
      show ?thesis using IH(1) live_t prev_t other_t by blast
    qed
  qed
qed simp

lemma mc_remove_installed_kept:
  assumes "caches_kept L installed s"
  shows "\<forall>c. mc_live (mc_remove_installed installed s) c = L c \<or> mc_previous (mc_remove_installed installed s) c = L c"
  using assms
proof (induction installed arbitrary: s)
  case (Cons c cs)
  obtain f t where t: "mc_fault s = (f, t)" "mc_live t = mc_live s" "mc_previous t = mc_previous s" by (rule mc_fault_cases)
  have "caches_kept L cs (if f then t else t\<lparr>mc_live := (mc_live t)(c := None)\<rparr>)"
    using Cons.prems t(2,3) by (auto simp: caches_kept_def)
  from Cons.IH [OF this] show ?case by (simp add: t(1))
qed (simp add: caches_kept_def)

lemma mc_move_back_kept:
  assumes "\<forall>c. mc_live s c = L c \<or> mc_previous s c = L c"
  shows "\<forall>c. mc_live (mc_move_back moved s) c = L c \<or> mc_previous (mc_move_back moved s) c = L c"
  using assms
proof (induction moved arbitrary: s)
  case (Cons c cs)
  obtain f t where t: "mc_fault s = (f, t)" "mc_live t = mc_live s" "mc_previous t = mc_previous s" by (rule mc_fault_cases)
  show ?case
  proof (cases "(mc_previous s c = None \<or> mc_live s c \<noteq> None) \<or> f")
    case True
    then show ?thesis using Cons t by auto
  next
    case False
    define u where "u = t\<lparr>mc_live := (mc_live t)(c := mc_previous t c), mc_previous := (mc_previous t)(c := None)\<rparr>"
    have "\<forall>d. mc_live u d = L d \<or> mc_previous u d = L d"
      using Cons.prems False t(2,3) unfolding u_def by (auto split: if_splits) (metis)+
    from Cons.IH [OF this] show ?thesis using False t(1) by (auto simp: u_def)
  qed
qed simp

text \<open>After success the new trees are in place and the old ones are the safety copies; otherwise nothing is lost.\<close>

definition caches_swapped :: "(string \<times> 'a) list \<Rightarrow> 'a cache_swap \<Rightarrow> bool \<times> 'a cache_swap \<Rightarrow> bool" where
  "caches_swapped incoming s result \<longleftrightarrow>
     (case result of
        (True, t) \<Rightarrow> (\<forall>c. mc_live t c = (case map_of incoming c of None \<Rightarrow> mc_live s c | Some a \<Rightarrow> Some a)) \<and>
          list_all (\<lambda>(c, a). mc_previous t c = mc_live s c) incoming
      | (False, t) \<Rightarrow> (\<forall>c. mc_live t c = mc_live s c \<or> mc_previous t c = mc_live s c))"

lemma swap_manager_caches_result:
  assumes "distinct (map fst incoming)"
  shows "caches_swapped incoming s (swap_manager_caches incoming s)"
proof -
  obtain f moved installed t where e: "mc_exchange incoming [] [] s = (f, moved, installed, t)"
    by (cases "mc_exchange incoming [] [] s") auto
  have "caches_kept (mc_live s) [] s" by (simp add: caches_kept_def)
  note k = mc_exchange_kept [OF e this _ assms]
  show ?thesis
  proof (cases f)
    case False
    then show ?thesis using k e by (auto simp: caches_swapped_def swap_manager_caches_def list_all_iff image_iff)
  next
    case True
    have "caches_kept (mc_live s) installed t" using k by simp
    from mc_move_back_kept [OF mc_remove_installed_kept [OF this]] show ?thesis
      using e True by (simp add: caches_swapped_def swap_manager_caches_def)
  qed
qed
section \<open>Entries that pass the checks\<close>

definition entry_passes :: "backup_limits \<Rightarrow> zip_entry \<Rightarrow> bool" where
  "entry_passes l z \<longleftrightarrow> \<not> is_symlink_mode (ze_mode z) \<and> ze_size z \<le> bl_ratio l * max 1 (ze_packed z)"

lemma check_entries_passes:
  assumes "list_all (entry_passes l) zs" "map entry_path zs = map Inr ps" "distinct ps" "[] \<notin> set ps"
    "set ps \<inter> set seen = {}" "used + sum_list (map ze_size zs) \<le> bl_uncompressed l"
  shows "check_entries l seen used packed zs = Inr (used + sum_list (map ze_size zs), packed + sum_list (map ze_packed zs))"
  using assms
proof (induction zs arbitrary: seen used packed ps)
  case (Cons z zs)
  obtain p qs where ps: "ps = p # qs" "entry_path z = Inr p" "map entry_path zs = map Inr qs"
    using Cons.prems(2) by (cases ps) auto
  have "check_entries l (p # seen) (used + ze_size z) (packed + ze_packed z) zs =
      Inr (used + ze_size z + sum_list (map ze_size zs), packed + ze_packed z + sum_list (map ze_packed zs))"
    using Cons.prems ps by (intro Cons.IH [of qs]) auto
  moreover have "\<not> bl_uncompressed l < used + ze_size z" using Cons.prems(6) by simp
  ultimately show ?case using Cons.prems(1,3-5) ps by (auto simp: entry_passes_def)
qed simp

section \<open>The names in a manager backup\<close>

definition all_saved_names :: "string list" where
  "all_saved_names = [''migration.env'', ''data/manager.db'', ''data/settings.json'', ''data/notifications.json'',
     ''data/security/security.db'', ''data/security/master.key'', ''manifest.json'', ''permissions.json'']"

definition plain_name :: "string \<Rightarrow> bool" where
  "plain_name n \<longleftrightarrow> \<not> ends_with ''/'' n \<and> safe_relative_path n = Inr (path_of_string n) \<and> path_of_string n \<noteq> [] \<and>
     \<not> list_ex (\<lambda>prefix. starts_with prefix (join_with ''/'' (path_of_string n))) client_prefixes"

lemma all_saved_names_plain: "list_all plain_name all_saved_names"
  by code_simp

lemma all_saved_names_distinct: "distinct (map path_of_string all_saved_names)"
  by code_simp

lemma all_saved_names_apart:
  "list_all (\<lambda>n. list_all (\<lambda>k. path_of_string n = path_of_string k \<or> \<not> path_within (path_of_string n) (path_of_string k)) all_saved_names)
     all_saved_names"
  by code_simp

lemma saved_paths:
  "path_of_string ''migration.env'' = [''migration.env'']" "path_of_string ''data/manager.db'' = [''data'', ''manager.db'']"
  "path_of_string ''data/settings.json'' = [''data'', ''settings.json'']"
  "path_of_string ''data/notifications.json'' = [''data'', ''notifications.json'']"
  "path_of_string ''data/security/security.db'' = [''data'', ''security'', ''security.db'']"
  "path_of_string ''data/security/master.key'' = [''data'', ''security'', ''master.key'']"
  "path_of_string ''manifest.json'' = [''manifest.json'']" "path_of_string ''permissions.json'' = [''permissions.json'']"
  by code_simp+

text \<open>A selection of these names.\<close>

definition saved_names :: "string list \<Rightarrow> bool" where
  "saved_names ns \<longleftrightarrow> distinct ns \<and> set ns \<subseteq> set all_saved_names"

lemma saved_namesD:
  assumes "saved_names ns"
  shows "n \<in> set ns \<Longrightarrow> plain_name n" "distinct (map path_of_string ns)"
    "n \<in> set ns \<Longrightarrow> k \<in> set ns \<Longrightarrow> path_of_string n \<noteq> path_of_string k \<Longrightarrow> \<not> path_within (path_of_string n) (path_of_string k)"
proof -
  show "n \<in> set ns \<Longrightarrow> plain_name n" using assms all_saved_names_plain by (auto simp: saved_names_def list_all_iff)
  have "inj_on path_of_string (set ns)"
    using assms all_saved_names_distinct by (auto simp: saved_names_def distinct_map intro: inj_on_subset)
  then show "distinct (map path_of_string ns)" using assms by (simp add: saved_names_def distinct_map)
  show "n \<in> set ns \<Longrightarrow> k \<in> set ns \<Longrightarrow> path_of_string n \<noteq> path_of_string k \<Longrightarrow> \<not> path_within (path_of_string n) (path_of_string k)"
    using assms all_saved_names_apart unfolding saved_names_def list_all_iff by blast
qed

section \<open>Unpacking such entries\<close>

abbreviation packed_files :: "backup_env \<Rightarrow> string \<Rightarrow> (string \<times> string) list \<Rightarrow> zip_entry list" where
  "packed_files e c files \<equiv> map (\<lambda>(n, b). packed_entry e c n b) files"

lemma packed_entry_simps [simp]:
  "ze_name (packed_entry e c n b) = n" "ze_data (packed_entry e c n b) = b" "ze_size (packed_entry e c n b) = length b"
  "ze_mode (packed_entry e c n b) = 33152"
  by (simp_all add: packed_entry_def)

lemma packed_entry_path:
  assumes "plain_name n"
  shows "entry_path (packed_entry e c n b) = Inr (path_of_string n)" "\<not> entry_is_dir (packed_entry e c n b)"
  using assms by (simp_all add: plain_name_def entry_path_def entry_is_dir_def)

lemma packed_files_unpacked:
  assumes "saved_names (map fst files)"
  shows "map entry_path (packed_files e c files) = map Inr (map (path_of_string \<circ> fst) files)"
    "kept_entries client_prefixes (packed_files e c files) = packed_files e c files"
    "extracted_files (packed_files e c files) = map (\<lambda>(n, b). (path_of_string n, b)) files"
    "extracted_dirs (packed_files e c files) = []"
    "\<not> tree_conflict [] (map (\<lambda>(n, b). (path_of_string n, b)) files)"
proof -
  have plain: "plain_name n" if "(n, b) \<in> set files" for n b
    using saved_namesD(1) [OF assms] that by force
  then have good: "\<forall>x \<in> set files. plain_name (fst x)" by auto
  show "map entry_path (packed_files e c files) = map Inr (map (path_of_string \<circ> fst) files)"
    using good by (induction files) (auto simp: packed_entry_path)
  show "kept_entries client_prefixes (packed_files e c files) = packed_files e c files"
    unfolding kept_entries_def using good
    by (intro filter_True) (auto simp: packed_entry_path plain_name_def)
  show "extracted_files (packed_files e c files) = map (\<lambda>(n, b). (path_of_string n, b)) files"
    using good by (induction files) (auto simp: extracted_files_def List.map_filter_def packed_entry_path)
  show "extracted_dirs (packed_files e c files) = []"
    using good by (induction files) (auto simp: extracted_dirs_def List.map_filter_def packed_entry_path)
  have "\<not> path_within (path_of_string n) (path_of_string k)"
    if "(n, b) \<in> set files" "(k, d) \<in> set files" "path_of_string n \<noteq> path_of_string k" for n k b d
    using saved_namesD(3) [OF assms, of n k] that by force
  then show "\<not> tree_conflict [] (map (\<lambda>(n, b). (path_of_string n, b)) files)"
    by (auto simp: tree_conflict_def list_ex_iff)
qed

lemma saved_permissions_modes:
  assumes "\<forall>x \<in> set files. plain_name (fst x)"
  shows "\<exists>ms. permission_modes (saved_permissions files) = Inr ms"
proof -
  have "\<exists>ms. permission_modes (map (\<lambda>(name, b). (name, JInt 384)) fs) = Inr ms" if "\<forall>x \<in> set fs. plain_name (fst x)" for fs :: "(string \<times> string) list"
    using that by (induction fs) (auto simp: plain_name_def)
  then show ?thesis using assms by (simp add: saved_permissions_def)
qed

section \<open>What was written\<close>

definition saved_state :: "sqlite_env \<Rightarrow> manager_files \<Rightarrow> (string \<times> string) list" where
  "saved_state q f = saved_files f (sq_snapshot q (or_empty (mf_database f)))
     (sq_without_sessions q (sq_snapshot q (or_empty (mf_security f)))) (or_empty (mf_master_key f))"

definition zip_state :: "backup_env \<Rightarrow> sqlite_env \<Rightarrow> string \<Rightarrow> (string \<times> json) list \<Rightarrow> manager_files \<Rightarrow> (string \<times> string) list" where
  "zip_state e q env m f = (''migration.env'', utf8_encode env) # saved_state q f @
     [(''manifest.json'', json_file e m), (''permissions.json'', json_file e (saved_permissions (saved_state q f)))]"

lemma write_plain_backup_shape:
  assumes "write_plain_backup e q now version label pack f = Inr (m, zs)"
  obtains cname inventory env where "m = full_manifest now version label cname inventory"
    "zs = packed_files e cname (zip_state e q env m f)"
    "sqlite_integrity_check q (Some (sq_snapshot q (or_empty (mf_database f)))) = Inr ()"
    "validate_security_backup_pair q True (Some (sq_without_sessions q (sq_snapshot q (or_empty (mf_security f))))) (mf_master_key f) = Inr inventory"
    "mf_master_key f \<noteq> None"
proof -
  have key: "validate_security_backup_pair q True d k = Inr i \<Longrightarrow> k \<noteq> None" for d k i
    by (auto simp: validate_security_backup_pair_def try_bind_Inr_iff split: option.splits)
  show thesis
    using assms key
    by (auto simp: write_plain_backup_def try_bind_Inr_iff Let_def zip_state_def saved_state_def split: if_splits intro: that)
qed

lemma zip_state_names: "saved_names (map fst (zip_state e q env m f))"
proof -
  have "saved_names ([''migration.env'', ''data/manager.db''] @ a @ b @
      [''data/security/security.db'', ''data/security/master.key'', ''manifest.json'', ''permissions.json''])"
    if "a \<in> {[], [''data/settings.json'']}" "b \<in> {[], [''data/notifications.json'']}" for a b
    using that by (auto simp: saved_names_def all_saved_names_def)
  moreover have "map fst (zip_state e q env m f) = [''migration.env'', ''data/manager.db''] @
      (if mf_settings f = None then [] else [''data/settings.json'']) @
      (if mf_notifications f = None then [] else [''data/notifications.json'']) @
      [''data/security/security.db'', ''data/security/master.key'', ''manifest.json'', ''permissions.json'']"
    by (simp add: zip_state_def saved_state_def saved_files_def split: option.splits)
  ultimately show ?thesis by simp
qed

text \<open>
  What unpacking asks for: the limits, and that the JSON and ZIP libraries read back what they wrote; a ZIP
  archive ends with its directory and is never empty.
\<close>

definition reads_back :: "backup_env \<Rightarrow> (string \<times> json) list \<Rightarrow> bool" where
  "reads_back e d \<longleftrightarrow> jl_loads (bk_json e) (bk_pretty e (JObj d) @ [newline]) = Some (JObj d)"

definition restorable :: "backup_env \<Rightarrow> string \<Rightarrow> (string \<times> json) list \<Rightarrow> (string \<times> json) list \<Rightarrow> zip_entry list \<Rightarrow> bool" where
  "restorable e pack m permissions zs \<longleftrightarrow>
     bk_zip e pack zs \<noteq> [] \<and> bk_unzip e (bk_zip e pack zs) = Some zs \<and> reads_back e m \<and> reads_back e permissions \<and>
     length (json_file e m) \<in> {2..1048576} \<and>
     length zs \<le> bl_entries (bk_limits e) \<and>
     list_all (entry_passes (bk_limits e)) zs \<and>
     sum_list (map ze_size zs) \<le> bl_uncompressed (bk_limits e) \<and>
     sum_list (map ze_size zs) \<le> bl_ratio (bk_limits e) * max 1 (sum_list (map ze_packed zs))"

lemma reads_back_file: "reads_back e d \<Longrightarrow> json_of_bytes (bk_json e) (json_file e d) = Some (JObj d)"
  by (simp add: reads_back_def json_of_bytes_def json_file_def)

lemma full_manifest_members:
  "json_get ''format'' (full_manifest now version label cname inventory) = JStr ''borgbackup-manager-full-backup''"
  "json_get ''format_version'' (full_manifest now version label cname inventory) = JInt 7"
  "json_get ''borg_cache_included'' (full_manifest now version label cname inventory) = JBool False"
  "json_get ''client_borg_cache_included'' (full_manifest now version label cname inventory) = JBool False"
  by (simp_all add: full_manifest_def json_get_def or_else_def Let_def)

lemma manifest_read_back:
  assumes "restorable e pack m permissions zs" "zs = packed_files e cname (zip_state e q env m f)"
    and "m = full_manifest now version label cname inventory" "require_supported_backup_version (bk_json e) m = Inr ()"
  shows "read_any_backup_manifest e zs = Inr m"
proof -
  have "zip_member ''manifest.json'' zs = Some (packed_entry e cname ''manifest.json'' (json_file e m))"
    by (simp add: zip_member_def assms(2) zip_state_def)
  moreover have "json_of_bytes (bk_json e) (json_file e m) = Some (JObj m)"
    using assms(1) by (auto simp: restorable_def intro: reads_back_file)
  moreover have "\<not> (length (json_file e m) < 2 \<or> 1048576 < length (json_file e m))"
    using assms(1) by (auto simp: restorable_def)
  ultimately show ?thesis using assms(4) full_manifest_members [of now version label cname inventory]
    by (simp add: read_any_backup_manifest_def assms(3))
qed

text \<open>The files that unpacking gives, each with a mode or without.\<close>

lemma zip_state_unpacked:
  assumes r: "restorable e pack m (saved_permissions (saved_state q f)) zs" and zs: "zs = packed_files e cname (zip_state e q env m f)"
    and m: "m = full_manifest now version label cname inventory" and version: "require_supported_backup_version (bk_json e) m = Inr ()"
  shows "\<exists>mode. safe_extract e client_prefixes zs = Inr (m, [], map (\<lambda>(n, b). (path_of_string n, b, mode (path_of_string n))) (zip_state e q env m f))"
proof -
  define files where "files = zip_state e q env m f"
  note names = zip_state_names [of e q env m f, folded files_def]
  note un = packed_files_unpacked [OF names]
  have limits: "manifest_limits e m = bk_limits e"
    using full_manifest_members(3,4) [of now version label cname inventory] by (simp add: manifest_limits_def m)
  have paths: "distinct (map (path_of_string \<circ> fst) files)" "[] \<notin> set (map (path_of_string \<circ> fst) files)"
    using saved_namesD(1,2) [OF names] by (force simp: plain_name_def)+
  have r': "length zs \<le> bl_entries (bk_limits e)" "list_all (entry_passes (bk_limits e)) zs"
    "sum_list (map ze_size zs) \<le> bl_uncompressed (bk_limits e)"
    "sum_list (map ze_size zs) \<le> bl_ratio (bk_limits e) * max 1 (sum_list (map ze_packed zs))"
    using r by (simp_all add: restorable_def)
  have check: "check_entries (bk_limits e) [] 0 0 zs = Inr (0 + sum_list (map ze_size zs), 0 + sum_list (map ze_packed zs))"
    by (rule check_entries_passes [OF r'(2) _ paths]) (use un(1) r'(3) in \<open>auto simp: zs files_def\<close>)
  define fs where "fs = map (\<lambda>(n, b). (path_of_string n, b)) files"
  have "distinct (map fst fs)" using paths(1) by (simp add: fs_def case_prod_beta comp_def)
  moreover have "([''permissions.json''], json_file e (saved_permissions (saved_state q f))) \<in> set fs"
    using saved_paths(8) by (force simp: fs_def files_def zip_state_def)
  ultimately have perm: "map_of fs [''permissions.json''] = Some (json_file e (saved_permissions (saved_state q f)))" by simp
  have "\<forall>x \<in> set (saved_state q f). plain_name (fst x)"
  proof
    fix x assume "x \<in> set (saved_state q f)"
    then have "x \<in> set files" by (simp add: files_def zip_state_def)
    then show "plain_name (fst x)" by (intro saved_namesD(1) [OF names]) simp
  qed
  then obtain ms where ms: "permission_modes (saved_permissions (saved_state q f)) = Inr ms" using saved_permissions_modes by blast
  have "json_of_bytes (bk_json e) (json_file e (saved_permissions (saved_state q f))) = Some (JObj (saved_permissions (saved_state q f)))"
    using r by (auto simp: restorable_def intro: reads_back_file)
  moreover have "length (saved_permissions (saved_state q f)) \<le> bl_entries (bk_limits e)"
    using r'(1) by (simp add: zs zip_state_def saved_permissions_def)
  ultimately have w: "with_permissions e (bk_limits e) fs = Inr (map (\<lambda>(p, d). (p, d, map_of (rev ms) p)) fs)"
    by (simp add: with_permissions_def perm ms)
  have kept: "extracted_files (kept_entries client_prefixes zs) = fs" "extracted_dirs (kept_entries client_prefixes zs) = []"
      "\<not> tree_conflict [] fs"
    using un(2-5) by (simp_all add: zs files_def fs_def)
  have read: "read_any_backup_manifest e zs = Inr m" by (rule manifest_read_back [OF r zs m version])
  have "safe_extract e client_prefixes zs = Inr (m, [], map (\<lambda>(p, d). (p, d, map_of (rev ms) p)) fs)"
    using r'(1,4) check kept w by (simp add: safe_extract_def read limits Let_def)
  then show ?thesis by (intro exI [of _ "map_of (rev ms)"]) (simp add: fs_def files_def case_prod_beta comp_def)
qed

section \<open>From creating to restoring\<close>

text \<open>The data of the backup are those that were saved.\<close>

definition restores_state :: "sqlite_env \<Rightarrow> manager_files \<Rightarrow> staging \<Rightarrow> bool" where
  "restores_state q f st \<longleftrightarrow>
     staged_file (snd st) [''data'', ''manager.db''] = Some (sq_snapshot q (or_empty (mf_database f))) \<and>
     staged_file (snd st) [''data'', ''security'', ''security.db''] =
       Some (sq_without_sessions q (sq_snapshot q (or_empty (mf_security f)))) \<and>
     staged_file (snd st) [''data'', ''security'', ''master.key''] = mf_master_key f \<and>
     staged_file (snd st) [''data'', ''settings.json''] = mf_settings f \<and>
     staged_file (snd st) [''data'', ''notifications.json''] = mf_notifications f"

lemma staged_file_lookup:
  assumes "xs = map (\<lambda>(n, b). (path_of_string n, b, mode (path_of_string n))) files" "distinct (map (path_of_string \<circ> fst) files)"
  shows "(n, b) \<in> set files \<Longrightarrow> staged_file xs (path_of_string n) = Some b"
    and "path_of_string n \<notin> set (map (path_of_string \<circ> fst) files) \<Longrightarrow> staged_file xs (path_of_string n) = None"
proof -
  have d: "distinct (map fst xs)" using assms by (simp add: case_prod_beta comp_def)
  show "staged_file xs (path_of_string n) = Some b" if "(n, b) \<in> set files"
  proof -
    have "(path_of_string n, b, mode (path_of_string n)) \<in> set xs" using that by (force simp: assms(1))
    with d show ?thesis by (simp add: staged_file_def)
  qed
  show "staged_file xs (path_of_string n) = None" if "path_of_string n \<notin> set (map (path_of_string \<circ> fst) files)"
    using that by (auto simp: staged_file_def map_of_eq_None_iff assms(1) image_iff)
qed

lemma zip_state_staged:
  assumes "xs = map (\<lambda>(n, b). (path_of_string n, b, mode (path_of_string n))) (zip_state e q env m f)" "mf_master_key f \<noteq> None"
  shows "restores_state q f (dirs, xs)" "staged_file xs [''migration.env''] = Some (utf8_encode env)"
proof -
  have d: "distinct (map (path_of_string \<circ> fst) (zip_state e q env m f))"
    using saved_namesD(2) [OF zip_state_names] by (simp only: map_map)
  note look = staged_file_lookup [OF assms(1) d]
  have opt: "staged_file xs (path_of_string n) = v"
    if "n = ''data/settings.json'' \<and> v = mf_settings f \<or> n = ''data/notifications.json'' \<and> v = mf_notifications f" for n v
  proof (cases v)
    case None
    have "path_of_string n \<notin> set (map (path_of_string \<circ> fst) (zip_state e q env m f))"
      using that None by (auto simp: zip_state_def saved_state_def saved_files_def saved_paths split: option.splits)
    with look(2) None show ?thesis by simp
  next
    case (Some b)
    have "(n, b) \<in> set (zip_state e q env m f)"
      using that Some by (auto simp: zip_state_def saved_state_def saved_files_def)
    with look(1) Some show ?thesis by simp
  qed
  have named: "(n, b) \<in> set (zip_state e q env m f)"
    if "(n, b) \<in> {(''migration.env'', utf8_encode env), (''data/manager.db'', sq_snapshot q (or_empty (mf_database f))),
      (''data/security/security.db'', sq_without_sessions q (sq_snapshot q (or_empty (mf_security f)))),
      (''data/security/master.key'', or_empty (mf_master_key f))}" for n b
    using that by (auto simp: zip_state_def saved_state_def saved_files_def)
  have key: "Some (or_empty (mf_master_key f)) = mf_master_key f" using assms(2) by (auto simp: or_empty_def)
  show "restores_state q f (dirs, xs)" "staged_file xs [''migration.env''] = Some (utf8_encode env)"
    using look(1) [OF named, of "''data/manager.db''"] look(1) [OF named, of "''data/security/security.db''"]
      look(1) [OF named, of "''data/security/master.key''"] look(1) [OF named, of "''migration.env''"]
      opt [of "''data/settings.json''"] opt [of "''data/notifications.json''"] key
    by (simp_all add: restores_state_def saved_paths)
qed

lemma manager_name_no_zip: "\<not> ends_with ''.zip'' (manager_backup_file_name version stamp label)"
proof -
  have "\<not> ends_with ''.zip'' (x @ ''.bbm'')" for x by (simp add: ends_with_def)
  from this [of "''borgbackup-manager-backup-v'' @ version @ ''-'' @ stamp @ ''-'' @ label_of label"] show ?thesis
    unfolding manager_backup_file_name_def by (simp only: append_assoc not_False_eq_True)
qed

lemma created_file:
  assumes written: "write_plain_backup e q now version (or_manual label) pack f = Inr (m, zs)"
    and created: "create_full_backup e q salt nonce now stamp version label (Some pw) pack f dir = (Inr name, dir')"
  shows "\<exists>bytes. encrypt_backup e salt nonce pw m (bk_zip e pack zs) = Inr bytes \<and> dir' name = Some bytes \<and>
    name = manager_backup_file_name version stamp label"
proof -
  define r where "r = try_bind (encrypt_backup e salt nonce pw m (bk_zip e pack zs))
      (\<lambda>bytes. try_bind (validate_backup_file_size e False False bytes) (\<lambda>_. Inr bytes))"
  have pw: "pw \<noteq> []" using created by (cases pw) (simp_all add: create_full_backup_def)
  have c: "(case r of Inl err \<Rightarrow> (Inl err, dir(manager_backup_file_name version stamp label := None))
      | Inr bytes \<Rightarrow> (Inr (manager_backup_file_name version stamp label), dir(manager_backup_file_name version stamp label := Some bytes))) = (Inr name, dir')"
    using created pw unfolding r_def create_full_backup_def written by (simp add: Let_def or_empty_def)
  then obtain bytes where b: "r = Inr bytes" by (cases r) auto
  then have "encrypt_backup e salt nonce pw m (bk_zip e pack zs) = Inr bytes" unfolding r_def by (auto simp: try_bind_Inr_iff)
  with c b show ?thesis by auto
qed

lemma created_backup_restores:
  assumes written: "write_plain_backup e q now version (or_manual label) pack f = Inr (m, zs)"
    and created: "create_full_backup e q salt nonce now stamp version label (Some pw) pack f dir = (Inr name, dir')"
    and laws: "codec_laws e" and readable: "readable_backup e salt nonce m (or_empty (dir' name))"
    and r: "restorable e pack m (saved_permissions (saved_state q f)) zs"
  shows "\<exists>st. prepare_full_backup_restore e q name (or_empty (dir' name)) (Some pw) = Inr (st, m) \<and> restores_state q f st"
proof -
  obtain cname inventory env where w: "m = full_manifest now version (or_manual label) cname inventory"
      "zs = packed_files e cname (zip_state e q env m f)"
      "sqlite_integrity_check q (Some (sq_snapshot q (or_empty (mf_database f)))) = Inr ()"
      "validate_security_backup_pair q True (Some (sq_without_sessions q (sq_snapshot q (or_empty (mf_security f))))) (mf_master_key f) = Inr inventory"
      "mf_master_key f \<noteq> None"
    by (rule write_plain_backup_shape [OF written])
  obtain bytes where bytes: "encrypt_backup e salt nonce pw m (bk_zip e pack zs) = Inr bytes" "dir' name = Some bytes"
      "name = manager_backup_file_name version stamp label"
    using created_file [OF written created] by (elim exE conjE) (rule that)
  have version: "require_supported_backup_version (bk_json e) m = Inr ()" using readable by (simp add: readable_backup_def)
  have no_zip: "\<not> ends_with ''.zip'' name" unfolding bytes(3) by (rule manager_name_no_zip)
  have plain: "plain_backup_file e name bytes (Some pw) = Inr (bk_zip e pack zs)"
    using decrypt_encrypted [OF laws bytes(1)] readable bytes(2) no_zip r by (simp add: plain_backup_file_def restorable_def)
  have unzip: "zip_entries e (bk_zip e pack zs) = Inr zs" using r by (simp add: restorable_def zip_entries_def)
  obtain mode where x: "safe_extract e client_prefixes zs = Inr (m, [], map (\<lambda>(n, b). (path_of_string n, b, mode (path_of_string n))) (zip_state e q env m f))"
    using zip_state_unpacked [OF r w(2,1) version] by blast
  define xs where "xs = map (\<lambda>(n, b). (path_of_string n, b, mode (path_of_string n))) (zip_state e q env m f)"
  have st: "restores_state q f ([], xs)" "staged_file xs [''migration.env''] = Some (utf8_encode env)"
    unfolding xs_def by (rule zip_state_staged [OF refl w(5)])+
  have "prepare_full_backup_restore e q name bytes (Some pw) = Inr (([], xs), m)"
    using st w(3,4) full_manifest_members(1) [of now version "or_manual label" cname inventory] w(1)
    by (simp add: prepare_full_backup_restore_def plain unzip x [folded xs_def] restores_state_def Let_def)
  with st(1) bytes(2) show ?thesis by auto
qed

end
