(* ===== verification/BackupProperties.thy ===== *)
theory BackupProperties
  imports BackupApi BackupNames BackupRoundtrip
begin

text \<open>What holds of backups of the manager as a whole, with an example of each; and what does not hold.\<close>

section \<open>An example\<close>

definition example_tables :: security_tables where
  "example_tables = \<lparr>st_tables = [''users'', ''secrets''], st_users = 1,
     st_secrets = map (\<lambda>n. (''system'', n, ''v2:x'')) required_system_secrets, st_two_factor = [], st_actions = []\<rparr>"

definition example_sqlite :: sqlite_env where
  "example_sqlite = \<lparr>sq_check = (\<lambda>b. Some ''ok''), sq_security = (\<lambda>b. Some example_tables), sq_snapshot = (\<lambda>b. CHR ''s'' # b),
     sq_without_sessions = (\<lambda>b. b), fernet_key = (\<lambda>k. True), fernet_opens = (\<lambda>k v. True)\<rparr>"

definition example_files :: manager_files where
  "example_files = \<lparr>mf_url = ''sqlite:////data/manager.db'', mf_database = Some ''d'', mf_settings = Some ''t'', mf_notifications = None,
     mf_security = Some ''u'', mf_master_key = Some ''k'', mf_environment = (\<lambda>k. [])\<rparr>"

definition example_manifest :: "(string \<times> json) list" where
  "example_manifest = full_manifest ''now'' ''1.3.5'' ''Test'' ''deflate-6'' (security_inventory example_tables)"

definition example_permissions :: "(string \<times> json) list" where
  "example_permissions = saved_permissions (saved_state example_sqlite example_files)"

definition example_header :: "(string \<times> json) list" where
  "example_header = backup_header example_manifest ''salt'' ''nonce''"

definition example_json :: json_lib where
  "example_json = \<lparr>jl_loads = (\<lambda>t. if t = replicate 40 (CHR ''h'') then Some (JObj example_header)
     else if t = ''mm'' @ [newline] then Some (JObj example_manifest)
     else if t = ''p'' @ [newline] then Some (JObj example_permissions) else None), jl_str = (\<lambda>v. [])\<rparr>"

definition example_env_of :: "zip_entry list \<Rightarrow> backup_env" where
  "example_env_of zs = \<lparr>bk_json = example_json, bk_dumps = (\<lambda>v. replicate 40 (CHR ''h'')),
     bk_pretty = (\<lambda>v. if v = JObj example_manifest then ''mm'' else ''p''), bk_kdf = (\<lambda>p s. ''k''),
     bk_seal = (\<lambda>k n a p. (rev p, replicate 16 (CHR ''t''))), bk_open = (\<lambda>k n a c t. Some (rev c)),
     bk_zip = (\<lambda>c z. ''Z''), bk_unzip = (\<lambda>b. Some zs), bk_packed = (\<lambda>c b. length b),
     bk_limits = \<lparr>bl_file = 1000, bl_uncompressed = sum_list (map ze_size zs), bl_entries = 100, bl_ratio = 1\<rparr>,
     bk_cache_limits = \<lparr>bl_file = 1000, bl_uncompressed = 1000, bl_entries = 100, bl_ratio = 1\<rparr>\<rparr>"

definition example_environment :: string where
  "example_environment = join_with [newline] (map (\<lambda>k. k @ ''='') environment_keys) @ [newline]"

definition example_entries :: "zip_entry list" where
  "example_entries = packed_files (example_env_of []) ''deflate-6''
     (zip_state (example_env_of []) example_sqlite example_environment example_manifest example_files)"

definition example_env :: backup_env where
  "example_env = example_env_of example_entries"

lemma example_packed: "packed_files (example_env_of zs) c files = packed_files (example_env_of zs') c files"
  by (simp add: packed_entry_def example_env_of_def)

lemma example_zip_state: "zip_state (example_env_of zs) q env m f = zip_state (example_env_of zs') q env m f"
  by (simp add: zip_state_def json_file_def example_env_of_def)

lemma example_entries: "example_entries = packed_files example_env ''deflate-6''
    (zip_state example_env example_sqlite example_environment example_manifest example_files)"
  unfolding example_env_def example_entries_def
  by (subst example_packed [of _ _ _ "[]"], subst example_zip_state [of _ _ _ _ _ "[]"]) (rule refl)

lemma example_environment: "environment_snapshot (\<lambda>k. []) = Inr example_environment"
proof -
  have "environment_lines (\<lambda>k. []) ks = Inr (map (\<lambda>k. k @ ''='') ks)" for ks by (induction ks) simp_all
  then show ?thesis by (simp add: environment_snapshot_def example_environment_def)
qed

lemma example_parts [simp]:
  "sq_check example_sqlite b = Some ''ok''" "sq_security example_sqlite b = Some example_tables" "fernet_key example_sqlite k"
  "st_tables example_tables = [''users'', ''secrets'']" "st_users example_tables = 1" "st_two_factor example_tables = []"
  "st_actions example_tables = []" "mf_security example_files = Some ''u''" "mf_master_key example_files = Some ''k''"
  "mf_environment example_files = (\<lambda>k. [])"
  by (simp_all add: example_sqlite_def example_tables_def example_files_def)

lemma example_pair:
  "validate_security_backup_pair example_sqlite True (Some b) (Some ''k'') = Inr (security_inventory example_tables)"
proof -
  have "secrets_readable example_sqlite ''k'' (map (\<lambda>(scope, name, v). v) (st_secrets example_tables)) = Inr ()" by code_simp
  moreover have "bytes_strip ''k'' = ''k''" by code_simp
  moreover have "set required_system_secrets \<subseteq> set (system_secret_names example_tables)" by code_simp
  moreover have "py_lower ''ok'' = ''ok''" by code_simp
  ultimately show ?thesis
    by (simp add: validate_security_backup_pair_def sqlite_integrity_check_def Let_def del: One_nat_def)
qed

lemma example_written:
  "write_plain_backup example_env example_sqlite ''now'' ''1.3.5'' (or_manual ''Test'') ''standard'' example_files =
     Inr (example_manifest, example_entries)"
proof -
  have c: "compression_settings ''standard'' = Inr (Some 6, ''deflate-6'')" "or_manual ''Test'' = ''Test''"
    "database_path (mf_url example_files) = Inr ''/data/manager.db''"
    "sqlite_integrity_check example_sqlite (mf_database example_files) = Inr ()"
    by code_simp+
  have d: "sqlite_integrity_check example_sqlite (Some b) = Inr ()" for b
    using c(4) by (simp add: sqlite_integrity_check_def example_files_def)
  show ?thesis
    by (simp add: write_plain_backup_def c d example_pair example_environment Let_def)
      (simp add: example_entries zip_state_def saved_state_def example_manifest_def)
qed

lemma example_env_parts [simp]:
  "bk_json example_env = example_json" "bk_dumps example_env v = replicate 40 (CHR ''h'')"
  "bk_pretty example_env v = (if v = JObj example_manifest then ''mm'' else ''p'')" "bk_kdf example_env p t = ''k''"
  "bk_seal example_env k n a p = (rev p, replicate 16 (CHR ''t''))" "bk_open example_env k n a c t = Some (rev c)"
  "bk_zip example_env c z = ''Z''" "bk_unzip example_env b = Some example_entries" "bk_packed example_env c b = length b"
  "bk_limits example_env = \<lparr>bl_file = 1000, bl_uncompressed = sum_list (map ze_size example_entries), bl_entries = 100, bl_ratio = 1\<rparr>"
  by (simp_all add: example_env_def example_env_of_def)

lemma example_laws: "codec_laws example_env"
  by (simp add: codec_laws_def)

lemma example_version: "require_supported_backup_version lib example_manifest = Inr ()"
proof -
  have "json_get ''app_version'' example_manifest = JStr ''1.3.5''"
    by (simp add: example_manifest_def full_manifest_def json_get_def or_else_def Let_def)
  moreover have "json_text lib (JStr ''1.3.5'') = ''1.3.5''" by (simp add: json_text_def)
  moreover have "(case re_fullmatch rx_version (py_strip ''1.3.5'') of None \<Rightarrow> False
      | Some g \<Rightarrow> (digits_value (group 1 g), digits_value (group 2 g), digits_value (group 3 g)) = (1, 3, 5))" by code_simp
  ultimately show ?thesis by (auto simp: require_supported_backup_version_def version_tuple_def split: option.splits)
qed

definition example_bytes :: string where
  "example_bytes = envelope_start example_env example_header @ ''Z'' @ replicate 16 (CHR ''t'')"

lemma example_bytes_length: "length example_bytes = 74" "example_bytes \<noteq> []"
proof -
  show "length example_bytes = 74" by (simp add: example_bytes_def envelope_start_def)
  then show "example_bytes \<noteq> []" by auto
qed

lemma example_encrypted:
  "encrypt_backup example_env ''salt'' ''nonce'' ''correct horse'' example_manifest ''Z'' = Inr example_bytes"
proof -
  have "\<not> list_ex (\<lambda>c. char_code c \<in> {0, 10, 13}) ''correct horse''" by code_simp
  then show ?thesis
    by (simp add: encrypt_backup_def derive_backup_key_def example_bytes_def example_header_def Let_def)
qed

abbreviation example_name :: string where
  "example_name \<equiv> manager_backup_file_name ''1.3.5'' ''20240101-000000'' ''Test''"

lemma example_created:
  "create_full_backup example_env example_sqlite ''salt'' ''nonce'' ''now'' ''20240101-000000'' ''1.3.5'' ''Test'' (Some ''correct horse'')
     ''standard'' example_files Map.empty = (Inr example_name, Map.empty(example_name := Some example_bytes))"
proof -
  have "validate_backup_file_size example_env False False example_bytes = Inr ()"
    using example_bytes_length by (simp add: validate_backup_file_size_def backup_file_limit_def)
  then show ?thesis
    by (simp add: create_full_backup_def example_written Let_def or_empty_def example_encrypted del: fun_upd_apply)
qed

lemma example_readable: "readable_backup example_env ''salt'' ''nonce'' example_manifest example_bytes"
proof -
  have "json_get ''borg_cache_included'' example_manifest = JBool False" "json_get ''client_borg_cache_included'' example_manifest = JBool False"
    unfolding example_manifest_def by (rule full_manifest_members)+
  then show ?thesis
    using example_version example_bytes_length
    by (simp add: readable_backup_def backup_file_limit_def example_json_def example_header_def)
qed

lemma example_restorable:
  "restorable example_env ''standard'' example_manifest (saved_permissions (saved_state example_sqlite example_files)) example_entries"
proof -
  have diff: "example_permissions \<noteq> example_manifest" by code_simp
  have other: "''mm'' @ [newline] \<noteq> replicate 40 (CHR ''h'')" "''p'' @ [newline] \<noteq> replicate 40 (CHR ''h'')"
    "''p'' @ [newline] \<noteq> ''mm'' @ [newline]"
    by (auto dest: arg_cong [where f = length])
  have readback: "reads_back example_env example_manifest" "reads_back example_env example_permissions"
    using other diff by (simp_all add: reads_back_def example_json_def del: append_Cons)
  have "length (utf8_encode (''mm'' @ [newline])) = 3" by code_simp
  then have size: "length (json_file example_env example_manifest) \<in> {2..1048576}" by (simp add: json_file_def)
  have passes: "list_all (entry_passes (bk_limits example_env)) example_entries"
    unfolding example_entries by (auto simp: list_all_iff entry_passes_def packed_entry_def is_symlink_mode_def)
  have packed: "map ze_packed example_entries = map ze_size example_entries"
    unfolding example_entries by (auto simp: packed_entry_def)
  have number: "length example_entries \<le> 100" unfolding example_entries zip_state_def saved_state_def saved_files_def by (simp split: option.splits)
  show ?thesis
    using readback size passes number unfolding restorable_def example_permissions_def by (simp add: packed)
qed

section \<open>Backup and restore\<close>

text \<open>C22: A manager backup that was reported as created can be unpacked with its passphrase, and holds the snapshots of the
  databases, the master key and the settings that were saved: provided that the JSON, ZIP and cipher libraries give back what
  they were given (\<open>codec_laws\<close>, \<open>readable_backup\<close>, \<open>restorable\<close>) and that the backup is within the limits that unpacking
  checks and making it does not (\<open>restorable\<close>; beyond them see \<open>oversized_backup_cannot_be_restored\<close>).\<close>

theorem full_backup_restores:
  assumes "write_plain_backup e q now version (or_manual label) pack f = Inr (m, zs)"
    and "create_full_backup e q salt nonce now stamp version label (Some pw) pack f dir = (Inr name, dir')"
    and "codec_laws e" and "readable_backup e salt nonce m (or_empty (dir' name))"
    and "restorable e pack m (saved_permissions (saved_state q f)) zs"
  shows "\<exists>st. prepare_full_backup_restore e q name (or_empty (dir' name)) (Some pw) = Inr (st, m) \<and> restores_state q f st"
  using assms by (rule created_backup_restores)

theorem full_backup_restores_witness:
  "\<exists>st. prepare_full_backup_restore example_env example_sqlite example_name example_bytes (Some ''correct horse'') = Inr (st, example_manifest) \<and>
     restores_state example_sqlite example_files st"
  using full_backup_restores [OF example_written example_created example_laws _ example_restorable] example_readable
  by (simp add: or_empty_def)

text \<open>C25: What unpacking a backup writes lies strictly below the destination, without a parent directory in its path, each file
  once, in total no more than the limit for the kind of backup, and no mode has a special bit.\<close>

theorem unpacking_stays_below_the_destination:
  assumes "safe_extract e skip zs = Inr (m, dirs, xs)"
  shows "safely_unpacked (manifest_limits e m) dirs xs"
  using assms by (rule safe_extract_safe)

lemma example_extracted: "\<exists>mode. safe_extract example_env client_prefixes example_entries =
    Inr (example_manifest, [], map (\<lambda>(n, b). (path_of_string n, b, mode (path_of_string n)))
      (zip_state example_env example_sqlite example_environment example_manifest example_files))"
  by (rule zip_state_unpacked [OF example_restorable example_entries _ example_version]) (rule example_manifest_def)

theorem unpacking_stays_below_the_destination_witness:
  "\<exists>xs. safe_extract example_env client_prefixes example_entries = Inr (example_manifest, [], xs) \<and>
     safely_unpacked (manifest_limits example_env example_manifest) [] xs"
  using example_extracted unpacking_stays_below_the_destination by blast

text \<open>C23: Applying a restore is all or nothing, whatever copy or rename fails: on success the components of the backup replace
  the live ones, with the sidecars of the old database gone and the rest untouched; otherwise the live data are as before, or each
  original lies in its place or in the directory that is kept and named in the error.\<close>

theorem restore_is_all_or_nothing:
  "all_or_nothing source live (apply_prepared_restore faults source live)"
  by (rule apply_prepared_restore_result)

text \<open>C26: At every moment at most one backup task is active, it is the current one, and no more than twelve tasks with twelve events
  each are kept.\<close>

theorem one_backup_task_at_a_time:
  assumes "task_reachable s"
  shows "tasks_ok s \<and> length (filter (\<lambda>t. task_active (bt_status t)) (ts_tasks s)) \<le> 1"
proof
  show ok: "tasks_ok s" using assms by (rule reachable_tasks_ok)
  define as where "as = map bt_id (filter (\<lambda>t. task_active (bt_status t)) (ts_tasks s))"
  have "distinct as" using ok by (auto simp: as_def tasks_ok_def distinct_map_filter)
  moreover have "\<forall>i \<in> set as. ts_current s = Some i" using ok by (auto simp: as_def tasks_ok_def list_all_iff)
  then have "set as \<subseteq> {the (ts_current s)}" by auto
  then have "card (set as) \<le> 1" using card_mono [of "{the (ts_current s)}" "set as"] by simp
  ultimately have "length as \<le> 1" by (simp add: distinct_card)
  then show "length (filter (\<lambda>t. task_active (bt_status t)) (ts_tasks s)) \<le> 1" by (simp add: as_def)
qed

definition example_tasks :: backup_tasks where
  "example_tasks = snd (begin_task 5 ''a1'' ''Manuell'' ''manager'' False False \<lparr>ts_tasks = [], ts_current = None\<rparr>)"

lemma example_tasks_reachable: "task_reachable example_tasks"
  unfolding example_tasks_def by (intro task_next [OF task_start] step_begin) (simp add: get_task_def)

theorem one_backup_task_at_a_time_witness:
  "tasks_ok example_tasks \<and> length (filter (\<lambda>t. task_active (bt_status t)) (ts_tasks example_tasks)) \<le> 1"
  by (rule one_backup_task_at_a_time [OF example_tasks_reachable])

section \<open>The endpoint\<close>

text \<open>The data that are about to become live were checked.\<close>

definition checked_staging :: "sqlite_env \<Rightarrow> staging \<Rightarrow> bool" where
  "checked_staging q st \<longleftrightarrow>
     sqlite_integrity_check q (staged_file (snd st) [''data'', ''manager.db'']) = Inr () \<and>
     (\<exists>inventory. validate_security_backup_pair q True (staged_file (snd st) [''data'', ''security'', ''security.db''])
        (staged_file (snd st) [''data'', ''security'', ''master.key'']) = Inr inventory)"

lemma prepared_is_checked:
  "prepare_full_backup_restore e q name bytes pw = Inr (st, m) \<Longrightarrow> checked_staging q st"
  by (auto simp: prepare_full_backup_restore_def checked_staging_def try_bind_Inr_iff Let_def split: option.split_asm if_split_asm)
    (metis option.distinct(1))+

definition safety_name :: "string \<Rightarrow> string \<Rightarrow> string" where
  "safety_name version stamp = manager_backup_file_name version stamp ''vor-wiederherstellung''"

lemma create_full_backup_frame:
  assumes "create_full_backup e q salt nonce now stamp version label pw pack f dir = (r, d)"
  shows "(\<forall>n. n \<noteq> manager_backup_file_name version stamp label \<longrightarrow> d n = dir n) \<and>
    (\<forall>name. r = Inr name \<longrightarrow> name = manager_backup_file_name version stamp label \<and>
      (\<exists>m zs bytes. write_plain_backup e q now version (or_manual label) pack f = Inr (m, zs) \<and>
        encrypt_backup e salt nonce (or_empty pw) m (bk_zip e pack zs) = Inr bytes \<and> d name = Some bytes))"
proof (cases "truthy pw")
  case False
  then show ?thesis using assms by (auto simp: create_full_backup_def)
next
  case True
  show ?thesis
  proof (cases "write_plain_backup e q now version (or_manual label) pack f")
    case (Inl err)
    then show ?thesis using assms True by (auto simp: create_full_backup_def)
  next
    case (Inr w)
    obtain m zs where w: "w = (m, zs)" by (cases w)
    define r' where "r' = try_bind (encrypt_backup e salt nonce (or_empty pw) m (bk_zip e pack zs))
        (\<lambda>bytes. try_bind (validate_backup_file_size e False False bytes) (\<lambda>_. Inr bytes))"
    have c: "(case r' of Inl err \<Rightarrow> (Inl err, dir(manager_backup_file_name version stamp label := None))
        | Inr bytes \<Rightarrow> (Inr (manager_backup_file_name version stamp label), dir(manager_backup_file_name version stamp label := Some bytes))) = (r, d)"
      using assms True unfolding r'_def create_full_backup_def Inr w by (simp add: Let_def)
    show ?thesis
    proof (cases r')
      case (Inl err)
      then show ?thesis using c by auto
    next
      case (Inr bytes)
      then have "encrypt_backup e salt nonce (or_empty pw) m (bk_zip e pack zs) = Inr bytes" unfolding r'_def by (auto simp: try_bind_Inr_iff)
      then show ?thesis using c Inr \<open>write_plain_backup e q now version (or_manual label) pack f = Inr w\<close> w by auto
    qed
  qed
qed

text \<open>C24: A restore is only announced when no run is queued or running, the unpacked databases and the master key were checked, and an
  encrypted backup of the present state was written; in no case is another backup changed.\<close>

theorem restore_announced_only_when_safe:
  "case restore_manager_backup e q salt nonce now stamp version name passphrase f db dir of
     (Inl err, d) \<Rightarrow> d(safety_name version stamp := None) = dir(safety_name version stamp := None)
   | (Inr r, d) \<Rightarrow> \<not> runs_pending db \<and> checked_staging q (ry_staging r) \<and> ry_safety r = safety_name version stamp \<and>
       (\<exists>m zs bytes. write_plain_backup e q now version ''vor-wiederherstellung'' ''standard'' f = Inr (m, zs) \<and>
         encrypt_backup e salt nonce passphrase m (bk_zip e ''standard'' zs) = Inr bytes \<and> d (ry_safety r) = Some bytes) \<and>
       d(safety_name version stamp := None) = dir(safety_name version stamp := None)"
proof -
  have manual: "or_manual ''vor-wiederherstellung'' = ''vor-wiederherstellung''" by code_simp
  define p where "p = try_bind (backup_path name dir) (\<lambda>bytes. prepare_full_backup_restore e q name bytes (Some passphrase))"
  show ?thesis
  proof (cases "runs_pending db")
    case True
    then show ?thesis by (simp add: restore_manager_backup_def)
  next
    case idle: False
    show ?thesis
    proof (cases p)
      case (Inl err)
      then show ?thesis using idle by (simp add: restore_manager_backup_def p_def)
    next
      case (Inr sm)
      obtain st m where sm: "sm = (st, m)" by (cases sm)
      have checked: "checked_staging q st" using Inr sm by (auto simp: p_def try_bind_Inr_iff dest: prepared_is_checked)
      obtain r d where c: "create_full_backup e q salt nonce now stamp version ''vor-wiederherstellung'' (Some passphrase) ''standard'' f dir = (r, d)"
        by (cases "create_full_backup e q salt nonce now stamp version ''vor-wiederherstellung'' (Some passphrase) ''standard'' f dir")
      note fr = create_full_backup_frame [OF c, unfolded manual, folded safety_name_def]
      show ?thesis using idle Inr sm checked c fr
        by (cases r) (auto simp: restore_manager_backup_def p_def [symmetric] or_empty_def fun_eq_iff)
    qed
  qed
qed

section \<open>Caches of the devices\<close>

text \<open>C27: What was collected from a device without an error is accepted again when the cache file is read: the entry has the same
  device, repository, states and repository id, and its paths are exactly those under which the caches were stored.\<close>

theorem collected_caches_are_read_back:
  assumes "ho_enabled h" "0 < ho_id h" "0 < rp_id r" "(int (ho_id h), int (rp_id r)) \<notin> set seen"
    and "stream_one_cache (ce_dec c) (ce_cache c h r) = (f1, Inr (found, n))"
    and "stream_one_security (ce_dec c) (ce_security c h r) = (f2, Inr (security, borg_id, k))"
  shows "\<exists>x. client_entry_of lib seen (snd (collect_one c now (h, r))) = Inr x \<and> read_back_as h r found security borg_id x \<and>
    fst (collect_one c now (h, r)) = named_file (fst (client_archive_paths h r)) f1 @ named_file (snd (client_archive_paths h r)) f2"
  using collected_entry_read_back [OF assms(1,5,6,2-4), of lib now] collect_one_members [OF assms(1,5,6), of now] by auto

definition example_host :: host where
  "example_host = \<lparr>ho_id = 4, ho_name = ''web 1'', ho_address = ''10.0.0.4'', ho_port = 22, ho_username = ''root'', ho_enabled = True,
     ho_host_key = None, ho_repository_ready = True, ho_borg_version = Some ''1.2.8'', ho_borg_version_status = None, ho_borg_checked_at = None\<rparr>"

definition example_repository :: repository where
  "example_repository = hd (db_repositories sample_db)\<lparr>rp_id := 7\<rparr>"

definition answer_lines :: "string list \<Rightarrow> string \<Rightarrow> ssh_run option" where
  "answer_lines lines body = Some \<lparr>sr_output = concat (map (\<lambda>l. l @ [newline]) lines) @ body, sr_error = [], sr_code = 0, sr_timed_out = False,
     sr_write_error = None\<rparr>"

definition example_client :: client_env where
  "example_client = \<lparr>ce_cache = (\<lambda>h r. answer_lines [''BBM_CLIENT_CACHE_V1'', ''PRESENT''] ''tar''),
     ce_security = (\<lambda>h r. answer_lines [''BBM_CLIENT_SECURITY_V1'', ''MISSING'', ''-''] []), ce_dec = (\<lambda>b. b), ce_reason = (\<lambda>h r err. ''reason'')\<rparr>"

lemma example_streams:
  "stream_one_cache (ce_dec example_client) (ce_cache example_client h r) = (Some ''tar'', Inr (True, 3))"
  "stream_one_security (ce_dec example_client) (ce_security example_client h r) = (None, Inr (''missing'', None, 0))"
proof -
  have "stream_one_cache (\<lambda>b. b) (answer_lines [''BBM_CLIENT_CACHE_V1'', ''PRESENT''] ''tar'') = (Some ''tar'', Inr (True, 3))"
    "stream_one_security (\<lambda>b. b) (answer_lines [''BBM_CLIENT_SECURITY_V1'', ''MISSING'', ''-''] []) = (None, Inr (''missing'', None, 0))"
    by code_simp+
  then show "stream_one_cache (ce_dec example_client) (ce_cache example_client h r) = (Some ''tar'', Inr (True, 3))"
    "stream_one_security (ce_dec example_client) (ce_security example_client h r) = (None, Inr (''missing'', None, 0))"
    by (simp_all add: example_client_def)
qed

theorem collected_caches_are_read_back_witness:
  "\<exists>x. client_entry_of example_json [] (snd (collect_one example_client ''now'' (example_host, example_repository))) = Inr x \<and>
     read_back_as example_host example_repository True ''missing'' None x"
proof -
  have "ho_enabled example_host" "0 < ho_id example_host" "0 < rp_id example_repository"
    by (simp_all add: example_host_def example_repository_def)
  from collected_caches_are_read_back [OF this _ example_streams, of "[]" example_json "''now''"] show ?thesis by auto
qed

section \<open>What does not hold\<close>

text \<open>
  A device whose transfer fails for one repository: the entry has the security state \<open>warning\<close>, which reading does not
  know. The file that was reported as partly saved can be neither inspected nor restored, its other caches included.
\<close>

lemma failed_transfer_members:
  assumes "ho_enabled h" "\<exists>f err. stream_one_cache (ce_dec c) (ce_cache c h r) = (f, Inl err)"
  shows "json_get ''security_status'' (snd (collect_one c now (h, r))) = JStr ''warning''"
proof -
  obtain f err where "stream_one_cache (ce_dec c) (ce_cache c h r) = (f, Inl err)" using assms(2) by blast
  then show ?thesis using assms(1)
    by (cases "client_archive_paths h r") (simp add: collect_one_def Let_def json_get_def or_else_def base_metadata_def)
qed

lemma unknown_security_state_refused:
  assumes "json_get ''security_status'' d = JStr ''warning''"
  shows "client_entry_of lib seen d = Inl Client_entry"
proof -
  have "json_text lib (JStr ''warning'') = ''warning''" by (simp add: json_text_def)
  then show ?thesis using assms by (simp add: client_entry_of_def Let_def split: option.splits)
qed

theorem partly_saved_device_cannot_be_read:
  assumes "ho_enabled h" "\<exists>f err. stream_one_cache (ce_dec c) (ce_cache c h r) = (f, Inl err)"
    and "json_truthy (json_get ''client_borg_cache_included'' m)"
    and "map_of m ''client_borg_caches'' = Some (JList (as @ JObj (snd (collect_one c now (h, r))) # bs))"
  shows "\<exists>err. client_cache_entries_from_manifest lib m = Inl err"
proof -
  have refused: "\<exists>err. client_entries_of lib seen (xs @ JObj (snd (collect_one c now (h, r))) # bs) = Inl err" for seen xs
  proof (induction xs arbitrary: seen)
    case Nil
    show ?case using unknown_security_state_refused [OF failed_transfer_members [OF assms(1,2)]] by simp
  next
    case (Cons v xs)
    show ?case
    proof (cases v)
      case (JObj d)
      show ?thesis
      proof (cases "client_entry_of lib seen d")
        case (Inr x)
        obtain err where "client_entries_of lib ((ck_host_id x, ck_repository_id x) # seen) (xs @ JObj (snd (collect_one c now (h, r))) # bs) = Inl err"
          using Cons.IH by blast
        with Inr JObj show ?thesis by simp
      qed (simp add: JObj)
    qed simp_all
  qed
  show ?thesis using assms(3,4) refused [of "[]" as]
    by (auto simp: client_cache_entries_from_manifest_def or_else_def)
qed

text \<open>A cache without a saved security state: the device gets it, and the request ends with an internal error.\<close>

lemma restored_without_security:
  assumes "restore_client_borg_cache_from_backup e rr name bytes pw target k h k = Inr r" "ck_security_status (cr_source r) \<noteq> ''saved''"
  shows "cr_security r = None"
proof -
  obtain m cs entries where "cache_backup_contents e name bytes pw = Inr (m, cs, entries)"
    using assms(1) by (auto simp: restore_client_borg_cache_from_backup_def try_bind_Inr_iff)
  with assms(1) obtain c where c: "(if ck_status c \<noteq> ''saved'' then Inl (Not_saved (or_empty (ck_reason c)))
      else try_bind (saved_member e entries (or_empty (ck_archive_path c))) (\<lambda>data.
        try_bind (of_transfer rr (restore_client_borg_cache_stream (rr_dec rr) (rr_cache rr target k data))) (\<lambda>previous.
        if ck_security_status c \<noteq> ''saved'' then Inr \<lparr>cr_source = c, cr_previous = previous, cr_security = None\<rparr>
        else try_bind (saved_member e entries (or_empty (ck_security_archive_path c))) (\<lambda>security.
          try_bind (of_transfer rr (restore_client_borg_security_stream (rr_dec rr) (rr_security rr target (or_empty (ck_borg_id c)) security))) (\<lambda>fresh.
            Inr \<lparr>cr_source = c, cr_previous = previous, cr_security = Some fresh\<rparr>))))) = Inr r"
    unfolding restore_client_borg_cache_from_backup_def by (simp split: option.split_asm)
  show ?thesis
  proof (cases "ck_security_status c = ''saved''")
    case True
    then have "cr_source r = c" using c by (auto simp: try_bind_Inr_iff split: if_split_asm)
    with True assms(2) show ?thesis by simp
  next
    case False
    then show ?thesis using c by (auto simp: try_bind_Inr_iff split: if_split_asm)
  qed
qed

theorem cache_without_security_state_crashes:
  assumes "\<not> runs_pending db" "get_host db host_id = Some target" "ho_enabled target" "get_repository db repository_id \<noteq> None"
    and "list_ex (\<lambda>j. jb_host_id j = host_id \<and> jb_repository_id j = repository_id) (db_jobs db)"
    and "backup_path name dir = Inr bytes"
    and "restore_client_borg_cache_from_backup e rr name bytes pw target (int repository_id) (int host_id) (int repository_id) = Inr r"
    and "ck_security_status (cr_source r) \<noteq> ''saved''"
  shows "restore_client_cache e rr name host_id repository_id None pw db dir = (Inl Crash, True)"
proof -
  have "cr_security r = None"
    by (rule restored_without_security [OF assms(7,8)])
  then show ?thesis using assms by (simp add: restore_client_cache_def Let_def)
qed

text \<open>After a failed restore the process goes on without its scheduler.\<close>

theorem failed_restore_leaves_no_scheduler:
  "ar_restarts (apply_manager_restore_and_restart faults st live) \<or> \<not> ar_scheduler (apply_manager_restore_and_restart faults st live)"
  by (simp add: apply_manager_restore_and_restart_def split: prod.splits)

text \<open>The limits on unpacking are not looked at when a backup is made: a larger one is reported as created.\<close>

theorem oversized_backup_cannot_be_restored:
  assumes "bl_uncompressed (manifest_limits e m) < sum_list (map ze_size zs)" "read_any_backup_manifest e zs = Inr m"
  shows "\<exists>err. safe_extract e skip zs = Inl err"
proof (cases "safe_extract e skip zs")
  case (Inr r)
  then obtain t where "check_entries (manifest_limits e m) [] 0 0 zs = Inr t"
    using assms(2) by (auto simp: safe_extract_def Let_def try_bind_Inr_iff split: if_splits)
  from check_entries_bound [OF this] assms(1) show ?thesis by simp
qed simp

text \<open>The name of a created backup passes the pattern of names, so that it is found again, and has no separator.\<close>

lemma created_backup_is_found:
  assumes "create_full_backup e q salt nonce now stamp version label pw pack f dir = (Inr name, dir')" "stamped_by version stamp"
  shows "\<exists>bytes. backup_path name dir' = Inr bytes \<and> manager_backup_name name \<and> CHR ''/'' \<notin> set name"
proof -
  from create_full_backup_frame [OF assms(1)] obtain bytes where n: "name = manager_backup_file_name version stamp label" "dir' name = Some bytes"
    by auto
  have pass: "manager_backup_name name \<and> backup_name name" unfolding n(1) by (rule manager_name_passes [OF assms(2)])
  then have "CHR ''/'' \<notin> set name" using backup_name_chars by (auto simp: list_all_iff name_char_def)
  with pass n(2) show ?thesis by (simp add: backup_path_def)
qed

end
