(* ===== verification/WebSecurity.thy ===== *)
theory WebSecurity
  imports AccountOps AccountRequests LoginGuard ExternalLocation
begin

text \<open>
  What stands between a browser and the endpoints: which proxy headers count and where a request
  comes from (\<open>src/app/request_security.py\<close>), which account it acts for (\<open>src/app/security.py\<close>), the
  guard of changing requests, login, logout and the session status (\<open>src/app/main.py\<close>). IP addresses
  and networks are those of the library \<open>ipaddress\<close>, a parameter; random tokens are arguments.
\<close>

section \<open>Requests\<close>

text \<open>\<open>il_network\<close> parses a network, \<open>il_address\<close> gives the canonical text of an address.\<close>

record 'n ip_lib =
  il_network :: "string \<Rightarrow> 'n option"
  il_contains :: "'n \<Rightarrow> string \<Rightarrow> bool"
  il_address :: "string \<Rightarrow> string option"

definition trusted_proxy_networks :: "'n ip_lib \<Rightarrow> string \<Rightarrow> (string, 'n list) result" where
  "trusted_proxy_networks lib cidrs =
     (let values = filter (\<lambda>v. v \<noteq> []) (map py_strip (split_on (CHR '','') cidrs)) in
      case find (\<lambda>v. il_network lib v = None) values of
        Some v \<Rightarrow> Inl v
      | None \<Rightarrow> Inr (map (\<lambda>v. the (il_network lib v)) values))"

text \<open>The names of headers are in lower case; \<open>wr_peer\<close> is the address of the connection.\<close>

record web_request =
  wr_peer :: "string option"
  wr_scheme :: string
  wr_method :: string
  wr_path :: string
  wr_headers :: "(string \<times> string) list"

record 'n web_env =
  we_lib :: "'n ip_lib"
  we_networks :: "'n list"
  we_secure_mode :: string
  we_cookie_name :: string
  we_ttl :: int
  we_idle :: int
  we_urls :: url_env

definition header :: "web_request \<Rightarrow> string \<Rightarrow> string" where
  "header r name = or_empty (map_of (wr_headers r) name)"

definition is_trusted_proxy :: "'n web_env \<Rightarrow> string option \<Rightarrow> bool" where
  "is_trusted_proxy env address \<longleftrightarrow>
     truthy address \<and> il_address (we_lib env) (or_empty address) \<noteq> None \<and>
     list_ex (\<lambda>n. il_contains (we_lib env) n (or_empty address)) (we_networks env)"

definition first_header_value :: "string \<Rightarrow> string" where
  "first_header_value v = py_strip (fst (py_partition (CHR '','') v))"

definition schemes :: "string list" where
  "schemes = [''http'', ''https'']"

definition forwarded_item_scheme :: "string \<Rightarrow> string option" where
  "forwarded_item_scheme item =
     (case py_partition (CHR ''='') (py_strip item) of (name, found, v) \<Rightarrow>
        let value = py_lower (strip_by (\<lambda>c. c = CHR 0x22) (py_strip v)) in
        if found \<and> py_lower name = ''proto'' \<and> value \<in> set schemes then Some value else None)"

text \<open>The first of several candidates.\<close>

definition or_else :: "'a option \<Rightarrow> 'a option \<Rightarrow> 'a option" where
  "or_else a b = (case a of None \<Rightarrow> b | Some _ \<Rightarrow> a)"

fun first_some :: "('a \<Rightarrow> 'b option) \<Rightarrow> 'a list \<Rightarrow> 'b option" where
  "first_some f [] = None"
| "first_some f (x # xs) = or_else (f x) (first_some f xs)"

definition header_scheme :: "web_request \<Rightarrow> string \<Rightarrow> string option" where
  "header_scheme r name =
     (let v = py_lower (first_header_value (header r name)) in if v \<in> set schemes then Some v else None)"

definition forwarded_request_scheme :: "'n web_env \<Rightarrow> web_request \<Rightarrow> string" where
  "forwarded_request_scheme env r =
     (if \<not> is_trusted_proxy env (wr_peer r) then []
      else or_empty
        (or_else (first_some (header_scheme r) [''x-forwarded-proto'', ''x-forwarded-scheme''])
        (or_else (first_some forwarded_item_scheme (split_on (CHR '';'') (first_header_value (header r ''forwarded''))))
          (if py_lower (py_strip (header r ''x-forwarded-ssl'')) \<in> {''on'', ''1'', ''true''} then Some ''https'' else None))))"

definition request_uses_https :: "'n web_env \<Rightarrow> web_request \<Rightarrow> bool" where
  "request_uses_https env r =
     (if we_secure_mode env = ''always'' then True
      else if we_secure_mode env = ''never'' then False
      else let forwarded = forwarded_request_scheme env r in
        if forwarded \<noteq> [] then forwarded = ''https'' else py_lower (wr_scheme r) = ''https'')"

definition client_address :: "'n web_env \<Rightarrow> web_request \<Rightarrow> string" where
  "client_address env r =
     (let peer = (case wr_peer r of None \<Rightarrow> ''unknown'' | Some p \<Rightarrow> p) in
      if \<not> is_trusted_proxy env (Some peer) then peer
      else case first_some (\<lambda>raw. il_address (we_lib env) (py_strip raw)) (split_on (CHR '','') (header r ''x-forwarded-for'')) of
        None \<Rightarrow> peer
      | Some a \<Rightarrow> a)"

definition host_unsafe :: "char \<Rightarrow> bool" where
  "host_unsafe c \<longleftrightarrow> char_code c \<in> {0, 10, 13, 92} \<or> c = CHR ''/'' \<or> c = CHR ''@'' \<or> is_space c"

text \<open>A name with an at sign is refused before it is parsed, so there is no user or password in it.\<close>

definition browser_origin :: "'n web_env \<Rightarrow> web_request \<Rightarrow> string" where
  "browser_origin env r =
     (let forwarded = forwarded_request_scheme env r;
          scheme = (if forwarded \<noteq> [] then forwarded else py_lower (wr_scheme r));
          sent = py_strip (header r ''host'');
          told = first_header_value (header r ''x-forwarded-host'');
          host = (if is_trusted_proxy env (wr_peer r) \<and> told \<noteq> [] then told else sent) in
      if host = [] \<or> list_ex host_unsafe host then []
      else case urlsplit (ue_ip_ok (we_urls env)) (''//'' @ host) of
        Inl e \<Rightarrow> []
      | Inr u \<Rightarrow>
          if url_hostname u = [] \<or> (case url_port u of Inl e \<Rightarrow> True | Inr p \<Rightarrow> False) then []
          else py_lower (scheme @ ''://'' @ host))"

text \<open>The query and the fragment of a URL, the parts \<open>split_url\<close> does not keep.\<close>

definition url_rest :: "string \<Rightarrow> string" where
  "url_rest location =
     (case split_scheme (filter (\<lambda>c. \<not> url_unsafe c) (lstrip_by url_control location)) of
        (scheme, url) \<Rightarrow> if starts_with ''//'' url then dropWhile (\<lambda>c. \<not> netloc_end c) (drop 2 url) else url)"

definition url_query :: "string \<Rightarrow> string" where
  "url_query location = (case py_partition (CHR ''?'') (takeWhile (\<lambda>c. c \<noteq> CHR ''#'') (url_rest location)) of (_, _, q) \<Rightarrow> q)"

definition url_fragment :: "string \<Rightarrow> string" where
  "url_fragment location = (case py_partition (CHR ''#'') (url_rest location) of (_, _, f) \<Rightarrow> f)"

definition origin_matches_request :: "'n web_env \<Rightarrow> web_request \<Rightarrow> bool" where
  "origin_matches_request env r =
     (let origin = py_strip (header r ''origin'') in
      if origin = [] then True
      else case urlsplit (ue_ip_ok (we_urls env)) origin of
        Inl e \<Rightarrow> False
      | Inr u \<Rightarrow>
          if su_path u \<notin> {[], ''/''} \<or> url_query origin \<noteq> [] \<or> url_fragment origin \<noteq> [] \<or> su_scheme u = [] \<or> su_netloc u = []
          then False
          else py_lower (su_scheme u) @ ''://'' @ py_lower (su_netloc u) = browser_origin env r)"

datatype web_error =
    Forbidden_header | Forbidden_origin | Invalid_session | Missing_session | Must_change_password | Not_admin
  | Too_many_attempts int | Second_factor_required | Bad_credentials | Bad_second_factor | Server_error

definition web_status :: "web_error \<Rightarrow> int" where
  "web_status e =
     (case e of
        Forbidden_header \<Rightarrow> 403 | Forbidden_origin \<Rightarrow> 403 | Invalid_session \<Rightarrow> 401 | Missing_session \<Rightarrow> 401
      | Must_change_password \<Rightarrow> 403 | Not_admin \<Rightarrow> 403 | Too_many_attempts n \<Rightarrow> 429 | Second_factor_required \<Rightarrow> 202
      | Bad_credentials \<Rightarrow> 401 | Bad_second_factor \<Rightarrow> 401 | Server_error \<Rightarrow> 500)"

text \<open>The first lines of \<open>browser_security_headers\<close>: \<open>None\<close> lets the request through.\<close>

definition changing_request :: "web_request \<Rightarrow> bool" where
  "changing_request r \<longleftrightarrow>
     concat (map upper_latin (wr_method r)) \<in> {''POST'', ''PUT'', ''PATCH'', ''DELETE''} \<and> starts_with ''/api/'' (wr_path r)"

definition request_refused :: "'n web_env \<Rightarrow> web_request \<Rightarrow> web_error option" where
  "request_refused env r =
     (if changing_request r
      then (if header r ''x-bbm-request'' \<noteq> ''1'' then Some Forbidden_header
            else if \<not> origin_matches_request env r then Some Forbidden_origin else None)
      else None)"

section \<open>Sessions\<close>

fun cookie_values :: "(string \<Rightarrow> string) \<Rightarrow> string \<Rightarrow> string list \<Rightarrow> string list \<Rightarrow> string list" where
  "cookie_values utf8 name values [] = values"
| "cookie_values utf8 name values (item # items) =
     (case py_partition (CHR ''='') (py_strip item) of (n, found, v) \<Rightarrow>
        let candidate = unquote utf8 (py_strip v) in
        if found \<and> n = name \<and> candidate \<noteq> [] \<and> candidate \<notin> set values
        then cookie_values utf8 name (values @ [candidate]) items
        else cookie_values utf8 name values items)"

definition session_cookie_values :: "'n web_env \<Rightarrow> web_request \<Rightarrow> string option \<Rightarrow> string list" where
  "session_cookie_values env r fallback =
     (let values = cookie_values (ue_utf8 (we_urls env)) (we_cookie_name env) [] (split_on (CHR '';'') (header r ''cookie'')) in
      if truthy fallback \<and> or_empty fallback \<notin> set values then values @ [or_empty fallback] else values)"

text \<open>The token behind \<open>BBM-Reload\<close> in the authorization header.\<close>

definition reload_token_of :: "string option \<Rightarrow> string option" where
  "reload_token_of authorization =
     (if truthy authorization \<and> starts_with ''BBM-Reload '' (or_empty authorization)
      then Some (drop 11 (or_empty authorization)) else None)"

definition user_agent :: "web_request \<Rightarrow> string option" where
  "user_agent r = map_of (wr_headers r) ''user-agent''"

text \<open>The first token with a session; every lookup may write.\<close>

fun first_session_user ::
    "crypto \<Rightarrow> 'n web_env \<Rightarrow> bool \<Rightarrow> time \<Rightarrow> string list \<Rightarrow> security_db \<Rightarrow> security_db \<times> (string \<times> user) option" where
  "first_session_user cr env writable now [] db = (db, None)"
| "first_session_user cr env writable now (t # ts) db =
     (case get_session_user cr (we_idle env) writable True (Some t) now db of
        (db', Some u) \<Rightarrow> (db', Some (t, u))
      | (db', None) \<Rightarrow> first_session_user cr env writable now ts db')"

definition session_from_request ::
    "crypto \<Rightarrow> 'n web_env \<Rightarrow> bool \<Rightarrow> bool \<Rightarrow> time \<Rightarrow> web_request \<Rightarrow> string option \<Rightarrow> string option \<Rightarrow> security_db \<Rightarrow>
     security_db \<times> (web_error, user) result" where
  "session_from_request cr env allow_forced writable now r authorization cookie db =
     (case (case reload_token_of authorization of
              None \<Rightarrow> (db, None)
            | Some t \<Rightarrow> get_session_user_by_reload_token cr (we_idle env) writable (Some t) (user_agent r) now db) of
        (db1, Some u) \<Rightarrow> (db1, if us_must_change u \<and> \<not> allow_forced then Inl Must_change_password else Inr u)
      | (db1, None) \<Rightarrow>
          (case first_session_user cr env writable now (session_cookie_values env r cookie) db1 of
             (db2, None) \<Rightarrow> (db2, Inl Invalid_session)
           | (db2, Some (t, u)) \<Rightarrow>
               (db2, if us_must_change u \<and> \<not> allow_forced then Inl Must_change_password else Inr u)))"

definition require_authenticated_user where
  "require_authenticated_user cr env = session_from_request cr env True"

definition require_token where
  "require_token cr env = session_from_request cr env False"

definition require_admin_access ::
    "crypto \<Rightarrow> 'n web_env \<Rightarrow> bool \<Rightarrow> time \<Rightarrow> web_request \<Rightarrow> string option \<Rightarrow> string option \<Rightarrow> security_db \<Rightarrow>
     security_db \<times> (web_error, user) result" where
  "require_admin_access cr env writable now r authorization cookie db =
     (case require_token cr env writable now r authorization cookie db of
        (db', Inl e) \<Rightarrow> (db', Inl e)
      | (db', Inr u) \<Rightarrow> (db', if us_role u \<noteq> ''admin'' then Inl Not_admin else Inr u))"

section \<open>Login and logout\<close>

record login_state =
  ln_buckets :: buckets
  ln_db :: security_db

record login_answer =
  la_user :: user
  la_status :: auth_status
  la_cookie :: string
  la_secure :: bool
  la_reload :: string

text \<open>Every transaction of the login commits for itself, so an error keeps the ones before it.\<close>

definition login ::
    "crypto \<Rightarrow> rate_config \<Rightarrow> 'n web_env \<Rightarrow> login_in \<Rightarrow> web_request \<Rightarrow> string \<Rightarrow> string \<Rightarrow> time \<Rightarrow> login_state \<Rightarrow>
     login_state \<times> (web_error, login_answer) result" where
  "login cr cfg env d r token reload now s =
     (case consume_login_attempt (cr_digest cr) cfg (lg_username d) (Some (client_address env r)) now (ln_buckets s) of
        (buckets, allowed, retry_after) \<Rightarrow>
          let s1 = s\<lparr>ln_buckets := buckets\<rparr> in
          if \<not> allowed then (s1, Inl (Too_many_attempts retry_after))
          else case authenticate_user cr (lg_username d) (lg_password d)
                 (if truthy (lg_second_factor d) then lg_second_factor d else None) now (ln_db s1) of
            Inl e \<Rightarrow> (s1, Inl Server_error)
          | Inr (db, user, status) \<Rightarrow>
              let s2 = s1\<lparr>ln_db := db\<rparr> in
              if status = Auth_code_required then (s2, Inl Second_factor_required)
              else case user of
                None \<Rightarrow> (s2, Inl (if status = Auth_code_invalid then Bad_second_factor else Bad_credentials))
              | Some u \<Rightarrow>
                  let s3 = s2\<lparr>ln_buckets := reset_login_rate_limit (cr_digest cr) (lg_username d) (Some (client_address env r))
                               (ln_buckets s2)\<rparr>;
                      s4 = s3\<lparr>ln_db := create_session cr (us_id u) (we_ttl env) token now (ln_db s3)\<rparr> in
                  case create_session_reload_token cr token (we_ttl env) (user_agent r) reload now (ln_db s4) of
                    Inl e \<Rightarrow> (s4, Inl Server_error)
                  | Inr db' \<Rightarrow> (s4\<lparr>ln_db := db'\<rparr>,
                      Inr \<lparr>la_user = u, la_status = status, la_cookie = token, la_secure = request_uses_https env r,
                           la_reload = reload\<rparr>))"

definition auth_logout ::
    "crypto \<Rightarrow> 'n web_env \<Rightarrow> web_request \<Rightarrow> string option \<Rightarrow> string option \<Rightarrow> security_db \<Rightarrow> security_db" where
  "auth_logout cr env r authorization cookie db =
     (let db1 = fold (\<lambda>t. revoke_session cr (Some t)) (session_cookie_values env r cookie) db in
      case reload_token_of authorization of
        None \<Rightarrow> db1
      | Some t \<Rightarrow> revoke_session_by_reload_token cr (Some t) db1)"

text \<open>The account, whether the cookie or the reload token proved it, and the cookie to renew.\<close>

definition auth_status_of ::
    "crypto \<Rightarrow> 'n web_env \<Rightarrow> bool \<Rightarrow> time \<Rightarrow> web_request \<Rightarrow> string option \<Rightarrow> string option \<Rightarrow> security_db \<Rightarrow>
     security_db \<times> (web_error, user \<times> bool \<times> string option) result" where
  "auth_status_of cr env writable now r authorization cookie db =
     (let values = session_cookie_values env r cookie in
      case first_session_user cr env writable now values db of
        (db1, Some (t, u)) \<Rightarrow> (db1, Inr (u, True, Some t))
      | (db1, None) \<Rightarrow>
          (case (case reload_token_of authorization of
                   None \<Rightarrow> (db1, None)
                 | Some t \<Rightarrow> get_session_user_by_reload_token cr (we_idle env) writable (Some t) (user_agent r) now db1) of
             (db2, Some u) \<Rightarrow> (db2, Inr (u, False, None))
           | (db2, None) \<Rightarrow>
               (db2, Inl (if values = [] \<and> \<not> truthy authorization then Missing_session else Invalid_session))))"

end
