(* ===== verification/WebProperties.thy ===== *)
theory WebProperties
  imports WebSecurity
begin

text \<open>
  What the web layer promises: headers of proxies that are not trusted change nothing, a changing
  request of a browser comes from a page of the manager, an account is only granted for a live
  session of its own, and a login opens a session that a logout ends.
\<close>

section \<open>Proxy headers\<close>

definition forwarding_headers :: "string list" where
  "forwarding_headers =
     [''x-forwarded-for'', ''x-forwarded-proto'', ''x-forwarded-scheme'', ''x-forwarded-ssl'', ''x-forwarded-host'', ''forwarded'']"

definition same_but_forwarding :: "web_request \<Rightarrow> web_request \<Rightarrow> bool" where
  "same_but_forwarding r r' \<longleftrightarrow>
     wr_peer r' = wr_peer r \<and> wr_scheme r' = wr_scheme r \<and> wr_method r' = wr_method r \<and> wr_path r' = wr_path r \<and>
     filter (\<lambda>h. fst h \<notin> set forwarding_headers) (wr_headers r') = filter (\<lambda>h. fst h \<notin> set forwarding_headers) (wr_headers r)"

lemma map_of_filter_key: "P n \<Longrightarrow> map_of (filter (\<lambda>h. P (fst h)) hs) n = map_of hs n"
  by (induction hs) auto

lemma same_header:
  assumes "same_but_forwarding r r'" "n \<notin> set forwarding_headers" shows "header r' n = header r n"
proof -
  have "map_of (wr_headers r') n = map_of (filter (\<lambda>h. fst h \<notin> set forwarding_headers) (wr_headers r')) n"
    using assms(2) by (simp add: map_of_filter_key [where P = "\<lambda>k. k \<notin> set forwarding_headers"])
  also have "\<dots> = map_of (wr_headers r) n"
    using assms by (simp add: same_but_forwarding_def map_of_filter_key [where P = "\<lambda>k. k \<notin> set forwarding_headers"])
  finally show ?thesis by (simp add: header_def)
qed

text \<open>
  The headers by which a proxy reports the browser are ignored unless the connection comes from
  a trusted proxy: the address, the transport, the origin and the decision on the request are those
  without them.
\<close>

theorem untrusted_proxy_headers_ignored:
  assumes "wr_peer r = Some peer" "\<not> is_trusted_proxy env (Some peer)" "same_but_forwarding r r'"
  shows "client_address env r' = peer \<and> request_uses_https env r' = request_uses_https env r \<and>
    browser_origin env r' = browser_origin env r \<and> request_refused env r' = request_refused env r"
proof -
  have same: "wr_peer r' = Some peer" "wr_scheme r' = wr_scheme r" "wr_method r' = wr_method r" "wr_path r' = wr_path r"
    using assms(1,3) by (simp_all add: same_but_forwarding_def)
  have other: "header r' ''host'' = header r ''host''" "header r' ''origin'' = header r ''origin''"
    "header r' ''x-bbm-request'' = header r ''x-bbm-request''"
    using same_header [OF assms(3)] by (simp_all add: forwarding_headers_def)
  have scheme: "forwarded_request_scheme env r' = []" "forwarded_request_scheme env r = []"
    using assms(1,2) same(1) by (simp_all add: forwarded_request_scheme_def)
  have origin: "browser_origin env r' = browser_origin env r"
    using assms(1,2) by (simp add: browser_origin_def scheme same other Let_def split: sum.split)
  have "origin_matches_request env r' = origin_matches_request env r"
    unfolding origin_matches_request_def other origin ..
  then have "request_refused env r' = request_refused env r"
    by (simp add: request_refused_def changing_request_def other same)
  then show ?thesis
    using assms(2) origin by (simp add: client_address_def request_uses_https_def scheme same)
qed

text \<open>A changing request with an origin that is let through comes from a page with the address of the request.\<close>

lemma changing_request_same_origin:
  assumes "wr_peer r = Some peer" "\<not> is_trusted_proxy env (Some peer)" "changing_request r" "request_refused env r = None"
    and "py_strip (header r ''origin'') \<noteq> []"
  shows "header r ''x-bbm-request'' = ''1'' \<and> (\<exists>u. urlsplit (ue_ip_ok (we_urls env)) (py_strip (header r ''origin'')) = Inr u \<and>
    py_lower (su_scheme u) @ ''://'' @ py_lower (su_netloc u) = py_lower (py_lower (wr_scheme r) @ ''://'' @ py_strip (header r ''host'')))"
proof -
  have x: "header r ''x-bbm-request'' = ''1''" and o: "origin_matches_request env r"
    using assms(3,4) by (auto simp: request_refused_def split: if_splits)
  obtain u where u: "urlsplit (ue_ip_ok (we_urls env)) (py_strip (header r ''origin'')) = Inr u"
    and e: "py_lower (su_scheme u) @ ''://'' @ py_lower (su_netloc u) = browser_origin env r"
    using o assms(5) by (auto simp: origin_matches_request_def Let_def split: sum.splits if_splits)
  then have "browser_origin env r \<noteq> []" by (metis append_is_Nil_conv list.distinct(1))
  then have "browser_origin env r = py_lower (py_lower (wr_scheme r) @ ''://'' @ py_strip (header r ''host''))"
    using assms(1,2)
    by (auto simp: browser_origin_def forwarded_request_scheme_def Let_def split: if_splits sum.splits)
  then show ?thesis using x u e by simp
qed

section \<open>Sessions\<close>

text \<open>What a session has to be for its account to be granted.\<close>

definition live_session :: "security_db \<Rightarrow> int \<Rightarrow> time \<Rightarrow> session \<Rightarrow> user \<Rightarrow> bool" where
  "live_session db idle now s u \<longleftrightarrow>
     s \<in> set (sd_sessions db) \<and> get_user db (se_user_id s) = Some u \<and> us_enabled u \<and>
     now \<le> se_expires s \<and> now - se_last_seen s \<le> seconds idle"

definition token_of :: "crypto \<Rightarrow> string \<Rightarrow> string" where
  "token_of cr t = cr_digest cr (filter is_ascii t)"

definition shrunk :: "security_db \<Rightarrow> security_db \<Rightarrow> bool" where
  "shrunk db db' \<longleftrightarrow> sd_users db' = sd_users db \<and> set (sd_sessions db') \<subseteq> set (sd_sessions db) \<and>
     set (sd_reloads db') \<subseteq> set (sd_reloads db)"

lemma shrunk_refl [simp]: "shrunk db db"
  by (simp add: shrunk_def)

lemma shrunk_delete: "shrunk db (best_effort w (delete_session i) db)"
  by (auto simp: shrunk_def best_effort_def delete_session_def)

lemma live_shrunk: "shrunk db db' \<Longrightarrow> live_session db' idle now s u \<Longrightarrow> live_session db idle now s u"
  by (auto simp: live_session_def shrunk_def)

lemma session_rowD: "session_row db P = Some (s, u) \<Longrightarrow> s \<in> set (sd_sessions db) \<and> P s \<and> get_user db (se_user_id s) = Some u"
  by (auto simp: session_row_def dest: find_SomeD split: option.splits)

lemma cookie_lookup:
  "get_session_user cr idle w True (Some t) now db = (db', None) \<Longrightarrow> shrunk db db'"
  "get_session_user cr idle w True (Some t) now db = (db', Some u) \<Longrightarrow>
   \<exists>s. live_session db idle now s u \<and> se_token_hash s = token_of cr t"
  by (auto simp: get_session_user_def shrunk_delete token_of_def live_session_def
      split: if_splits option.splits prod.splits dest!: session_rowD)

lemma reload_lookup:
  "get_session_user_by_reload_token cr idle w (Some t) agent now db = (db', None) \<Longrightarrow> shrunk db db'"
  "get_session_user_by_reload_token cr idle w (Some t) agent now db = (db', Some u) \<Longrightarrow>
   \<exists>s r. live_session db idle now s u \<and> r \<in> set (sd_reloads db) \<and> rt_session_id r = se_id s \<and>
     rt_token_hash r = token_of cr t \<and> rt_agent_hash r = cr_digest cr (or_empty agent) \<and> now \<le> rt_expires r"
proof -
  show "get_session_user_by_reload_token cr idle w (Some t) agent now db = (db', None) \<Longrightarrow> shrunk db db'"
    by (auto simp: get_session_user_by_reload_token_def shrunk_delete split: if_splits option.splits prod.splits)
  assume a: "get_session_user_by_reload_token cr idle w (Some t) agent now db = (db', Some u)"
  obtain r where r: "find (\<lambda>r. rt_token_hash r = token_of cr t) (sd_reloads db) = Some r"
    using a by (auto simp: get_session_user_by_reload_token_def token_of_def split: if_splits option.splits)
  obtain s v where s: "session_row db (\<lambda>s. se_id s = rt_session_id r) = Some (s, v)"
    using a r by (auto simp: get_session_user_by_reload_token_def token_of_def split: if_splits option.splits)
  have "u = v" "us_enabled u" "now \<le> min (se_expires s) (rt_expires r)" "now - se_last_seen s \<le> seconds idle"
    "rt_agent_hash r = cr_digest cr (or_empty agent)"
    using a r s by (auto simp: get_session_user_by_reload_token_def token_of_def split: if_splits)
  then have "live_session db idle now s u \<and> r \<in> set (sd_reloads db) \<and> rt_session_id r = se_id s \<and>
      rt_token_hash r = token_of cr t \<and> rt_agent_hash r = cr_digest cr (or_empty agent) \<and> now \<le> rt_expires r"
    using session_rowD [OF s] find_SomeD [OF r] by (simp add: live_session_def)
  then show "\<exists>s r. live_session db idle now s u \<and> r \<in> set (sd_reloads db) \<and> rt_session_id r = se_id s \<and>
      rt_token_hash r = token_of cr t \<and> rt_agent_hash r = cr_digest cr (or_empty agent) \<and> now \<le> rt_expires r"
    by blast
qed

lemma first_session_user_live:
  "first_session_user cr env w now ts db = (db', Some (t, u)) \<Longrightarrow>
   t \<in> set ts \<and> (\<exists>s. live_session db (we_idle env) now s u \<and> se_token_hash s = token_of cr t)"
proof (induction ts arbitrary: db)
  case (Cons x xs)
  obtain db1 found where g: "get_session_user cr (we_idle env) w True (Some x) now db = (db1, found)" by fastforce
  show ?case
  proof (cases found)
    case None
    then have "first_session_user cr env w now xs db1 = (db', Some (t, u))" using Cons.prems g by simp
    from Cons.IH [OF this] live_shrunk cookie_lookup(1) g None show ?thesis by (metis list.set_intros(2))
  next
    case (Some v)
    then show ?thesis using Cons.prems g cookie_lookup(2) [of cr "we_idle env" w x now db db1 v] by auto
  qed
qed simp

text \<open>
  C28: An account is granted to a request only for a live session of its own: the session exists, is
  not expired and not idle for too long, the account is enabled and need not change its password,
  and the request shows the token of the session in a cookie or a reload token that belongs to the
  session and to the browser of the request.
\<close>

theorem granted_only_for_a_live_session:
  assumes "require_token cr env w now r authorization cookie db = (db', Inr u)"
  shows "\<not> us_must_change u \<and> (\<exists>s. live_session db (we_idle env) now s u \<and>
    ((\<exists>t \<in> set (session_cookie_values env r cookie). se_token_hash s = token_of cr t) \<or>
     (\<exists>t k. reload_token_of authorization = Some t \<and> k \<in> set (sd_reloads db) \<and> rt_session_id k = se_id s \<and>
        rt_token_hash k = token_of cr t \<and> rt_agent_hash k = cr_digest cr (or_empty (user_agent r)) \<and> now \<le> rt_expires k)))"
proof -
  define first where "first = (case reload_token_of authorization of None \<Rightarrow> (db, None)
    | Some t \<Rightarrow> get_session_user_by_reload_token cr (we_idle env) w (Some t) (user_agent r) now db)"
  obtain db1 found where f: "first = (db1, found)" by fastforce
  show ?thesis
  proof (cases found)
    case (Some v)
    then obtain t where t: "reload_token_of authorization = Some t"
      using f by (auto simp: first_def split: option.splits)
    have "u = v" "\<not> us_must_change u"
      using assms f Some by (auto simp: require_token_def session_from_request_def first_def [symmetric] split: if_splits)
    then show ?thesis using reload_lookup(2) [of cr "we_idle env" w t "user_agent r" now db db1 v] f Some t
      by (auto simp: first_def)
  next
    case None
    have sh: "shrunk db db1"
      using f None reload_lookup(1) by (auto simp: first_def split: option.splits)
    have "\<not> us_must_change u \<and> (\<exists>t db2. first_session_user cr env w now (session_cookie_values env r cookie) db1 = (db2, Some (t, u)))"
      using assms f None
      by (auto simp: require_token_def session_from_request_def first_def [symmetric] split: if_splits prod.splits option.splits)
    then show ?thesis using first_session_user_live live_shrunk [OF sh] by metis
  qed
qed

section \<open>Login and logout\<close>

lemma authenticated_user:
  assumes "authenticate_user cr name password factor now db = Inr (db', Some u, status)"
  shows "u \<in> set (sd_users db) \<and> us_enabled u \<and> cr_verify cr password (us_password_hash u) \<and>
    sd_sessions db' = sd_sessions db \<and> sd_session_seq db' = sd_session_seq db \<and>
    (\<exists>codes. sd_users db' = table_modify us_id (us_id u) (\<lambda>u. u\<lparr>us_tf_codes := codes, us_failed_attempts := 0,
       us_locked_until := None, us_last_login := Some now\<rparr>) (sd_users db))"
  using assms
  by (auto simp: authenticate_user_def find_user_def modify_user_def try_bind_Inr_iff
      split: option.splits if_splits dest!: find_SomeD)

text \<open>
  C29: A login that succeeds names an enabled account whose password was given. From then on a request
  that shows the cookie is granted this account, until the session expires or idles out; after a
  logout with the cookie it is not granted any more.
\<close>

theorem login_opens_a_session_until_logout:
  assumes "login cr cfg env d r token reload now s = (s', Inr a)" "accounts_ok (ln_db s)"
    and "token \<noteq> []" "list_all is_ascii token" "cr_digest cr token \<notin> se_token_hash ` set (sd_sessions (ln_db s))"
    and "session_cookie_values env r' None = [token]"
    and "now \<le> later" "later - now \<le> seconds (we_idle env)" "later - now \<le> seconds (we_ttl env)"
  shows "la_cookie a = token \<and>
    (\<exists>v. us_id v = us_id (la_user a) \<and> us_enabled v \<and> cr_verify cr (lg_password d) (us_password_hash v) \<and>
       snd (require_authenticated_user cr env w later r' None None (ln_db s')) = Inr v) \<and>
    snd (require_authenticated_user cr env w later r' None None (auth_logout cr env r' None None (ln_db s'))) = Inl Invalid_session"
proof -
  obtain db u status where auth: "authenticate_user cr (lg_username d) (lg_password d)
      (if truthy (lg_second_factor d) then lg_second_factor d else None) now (ln_db s) = Inr (db, Some u, status)"
    and a: "la_user a = u" "la_cookie a = token"
    and reload: "create_session_reload_token cr token (we_ttl env) (user_agent r) reload now
      (create_session cr (us_id u) (we_ttl env) token now db) = Inr (ln_db s')"
    using assms(1)
    by (auto simp: login_def Let_def split: prod.splits if_splits sum.splits option.splits)
  obtain codes where u: "u \<in> set (sd_users (ln_db s))" "us_enabled u" "cr_verify cr (lg_password d) (us_password_hash u)"
    and db: "sd_sessions db = sd_sessions (ln_db s)"
      "sd_users db = table_modify us_id (us_id u) (\<lambda>u. u\<lparr>us_tf_codes := codes, us_failed_attempts := 0,
         us_locked_until := None, us_last_login := Some now\<rparr>) (sd_users (ln_db s))"
    using authenticated_user [OF auth] by blast
  let ?v = "u\<lparr>us_tf_codes := codes, us_failed_attempts := 0, us_locked_until := None, us_last_login := Some now\<rparr>"
  let ?se = "\<lparr>se_id = Suc (sd_session_seq db), se_token_hash = cr_digest cr token, se_user_id = us_id u,
      se_expires = now + seconds (we_ttl env), se_last_seen = now\<rparr>"
  have s': "sd_users (ln_db s') = sd_users db" "sd_sessions (ln_db s') = sd_sessions db @ [?se]"
    using reload
    by (auto simp: create_session_reload_token_def create_session_def split: option.splits dest!: sym [of _ "ln_db s'"])
  have unique: "unique_keys us_id (sd_users (ln_db s))" using assms(2) by (simp add: accounts_ok_def)
  then have "get_user (ln_db s) (us_id u) = Some u" using u(1) by (simp add: table_get_eq_Some)
  then have row: "get_user (ln_db s') (us_id u) = Some ?v" by (simp add: s' db table_get_modify)
  have fil: "filter is_ascii token = token" using assms(4) by (simp add: filter_id_conv list_all_iff)
  have old: "\<forall>x \<in> set (sd_sessions db). se_token_hash x \<noteq> cr_digest cr token" using assms(5) by (metis db(1) imageI)
  have "find (\<lambda>x. se_token_hash x = cr_digest cr token) (xs @ [?se]) = Some ?se"
    if "\<forall>x \<in> set xs. se_token_hash x \<noteq> cr_digest cr token" for xs
    using that by (induction xs) auto
  from this [OF old] have "find (\<lambda>x. se_token_hash x = cr_digest cr token) (sd_sessions (ln_db s')) = Some ?se"
    by (simp add: s')
  then have found: "session_row (ln_db s') (\<lambda>x. se_token_hash x = cr_digest cr token) = Some (?se, ?v)"
    using row by (simp add: session_row_def)
  have "snd (get_session_user cr (we_idle env) w True (Some token) later (ln_db s')) = Some ?v"
    using found u(2) assms(3,7-9) by (auto simp: get_session_user_def fil truthy_def)
  then obtain dbx where "get_session_user cr (we_idle env) w True (Some token) later (ln_db s') = (dbx, Some ?v)"
    by (metis prod.collapse)
  then have granted: "snd (require_authenticated_user cr env w later r' None None (ln_db s')) = Inr ?v"
    by (simp add: require_authenticated_user_def session_from_request_def reload_token_of_def assms(6))
  have out: "auth_logout cr env r' None None (ln_db s') = delete_sessions (\<lambda>x. se_token_hash x = cr_digest cr token) (ln_db s')"
    using assms(3) by (simp add: auth_logout_def assms(6) reload_token_of_def revoke_session_def fil truthy_def)
  have "find (\<lambda>x. se_token_hash x = cr_digest cr token)
      (sd_sessions (delete_sessions (\<lambda>x. se_token_hash x = cr_digest cr token) (ln_db s'))) = None"
    by (auto simp: delete_sessions_def Let_def find_None_iff)
  then have "get_session_user cr (we_idle env) w True (Some token) later (auth_logout cr env r' None None (ln_db s')) =
      (auth_logout cr env r' None None (ln_db s'), None)"
    using assms(3) by (simp add: out get_session_user_def fil session_row_def truthy_def)
  then have refused: "snd (require_authenticated_user cr env w later r' None None (auth_logout cr env r' None None (ln_db s'))) = Inl Invalid_session"
    by (simp add: require_authenticated_user_def session_from_request_def reload_token_of_def assms(6))
  show ?thesis using a granted refused u(2,3) by auto
qed

section \<open>Witnesses\<close>

text \<open>Addresses of one proxy network, \<open>10.\<close>\<open>*\<close>, over addresses of digits and dots.\<close>

definition demo_ip :: "string ip_lib" where
  "demo_ip = \<lparr>il_network = Some, il_contains = (\<lambda>n a. starts_with n a), il_address = (\<lambda>a. if a = [] then None else Some a)\<rparr>"

definition demo_web :: "string web_env" where
  "demo_web = \<lparr>we_lib = demo_ip, we_networks = [''10.''], we_secure_mode = ''auto'', we_cookie_name = ''s'', we_ttl = 86400,
     we_idle = 3600, we_urls = plain_url_env\<rparr>"

definition demo_request :: web_request where
  "demo_request = \<lparr>wr_peer = Some ''1.2'', wr_scheme = ''http'', wr_method = ''POST'', wr_path = ''/api/jobs'',
     wr_headers = [(''host'', ''m''), (''origin'', ''http://m''), (''x-bbm-request'', ''1''), (''cookie'', ''s=tok'')]\<rparr>"

definition demo_forged :: web_request where
  "demo_forged = demo_request\<lparr>wr_headers := (''x-forwarded-host'', ''evil'') # (''x-forwarded-for'', ''9.9'') # wr_headers demo_request\<rparr>"

lemma untrusted_proxy_headers_ignored_witness:
  "client_address demo_web demo_forged = ''1.2'' \<and> request_refused demo_web demo_forged = None"
proof -
  have "client_address demo_web demo_forged = ''1.2'' \<and> request_uses_https demo_web demo_forged = request_uses_https demo_web demo_request \<and>
    browser_origin demo_web demo_forged = browser_origin demo_web demo_request \<and>
    request_refused demo_web demo_forged = request_refused demo_web demo_request"
  proof (rule untrusted_proxy_headers_ignored)
    show "wr_peer demo_request = Some ''1.2''" by (simp add: demo_request_def)
    show "\<not> is_trusted_proxy demo_web (Some ''1.2'')" by code_simp
    show "same_but_forwarding demo_request demo_forged" by code_simp
  qed
  moreover have "request_refused demo_web demo_request = None" by code_simp
  ultimately show ?thesis by simp
qed

lemma granted_only_for_a_live_session_witness:
  "\<exists>s. live_session demo_security 3600 5 s demo_admin"
proof -
  let ?r = "demo_request\<lparr>wr_headers := [(''cookie'', ''s=t'')]\<rparr>"
  have "snd (require_token plain_crypto demo_web True 5 ?r None None demo_security) = Inr demo_admin" by code_simp
  then obtain db where "require_token plain_crypto demo_web True 5 ?r None None demo_security = (db, Inr demo_admin)"
    by (metis prod.collapse)
  from granted_only_for_a_live_session [OF this] show ?thesis by (auto simp: demo_web_def)
qed

definition demo_login :: login_in where
  "demo_login = \<lparr>lg_username = ''root'', lg_password = ''Secret-Pass-1'', lg_second_factor = None\<rparr>"

definition demo_rates :: rate_config where
  "demo_rates = \<lparr>rc_window = 900, rc_block = 900, rc_max_ip = 5, rc_max_pair = 5\<rparr>"

definition demo_session :: "login_state \<times> (web_error, login_answer) result" where
  "demo_session = login plain_crypto demo_rates demo_web demo_login demo_request ''tok'' ''rel'' 10 \<lparr>ln_buckets = [], ln_db = demo_security\<rparr>"

lemma login_opens_a_session_until_logout_witness:
  "\<exists>v. snd (require_authenticated_user plain_crypto demo_web True 20 demo_request None None (ln_db (fst demo_session))) = Inr v \<and>
     us_enabled v"
proof -
  have "is_Inr (snd demo_session)" by code_simp
  then obtain a where "snd demo_session = Inr a" by (auto simp: is_Inr_iff)
  then have "login plain_crypto demo_rates demo_web demo_login demo_request ''tok'' ''rel'' 10 \<lparr>ln_buckets = [], ln_db = demo_security\<rparr> =
      (fst demo_session, Inr a)" by (metis demo_session_def prod.collapse)
  note logged_in = this
  have ok: "accounts_ok (ln_db \<lparr>ln_buckets = [], ln_db = demo_security\<rparr>)" by code_simp
  have ascii: "list_all is_ascii ''tok''" by code_simp
  have new: "cr_digest plain_crypto ''tok'' \<notin> se_token_hash ` set (sd_sessions (ln_db \<lparr>ln_buckets = [], ln_db = demo_security\<rparr>))"
    by (simp add: plain_crypto_def demo_security_def)
  have cookie: "session_cookie_values demo_web demo_request None = [''tok'']" by code_simp
  have times: "(10 :: time) \<le> 20" "(20 :: time) - 10 \<le> seconds (we_idle demo_web)" "(20 :: time) - 10 \<le> seconds (we_ttl demo_web)"
    by code_simp+
  show ?thesis
    using login_opens_a_session_until_logout [OF logged_in ok _ ascii new cookie times, of True] by auto
qed

end
