(* ===== verification/ClientScripts.thy ===== *)
theory ClientScripts
  imports ClientTransfer
begin

text \<open>
  The shell scripts that \<open>src/app/runner.py\<close> runs on a device for its Borg caches and its security state: listing,
  deleting, sending and putting back. A script that lists or deletes is a function of the directories of the device
  that gives its output, its exit code and the directories afterwards; what \<open>du\<close> and \<open>rm\<close> do is part of the device.
  The scripts that send the cache or the security state of a repository from a device and put it back work in one
  directory, a map from names to files; \<open>tar\<close> is a parameter, and whether \<open>mkdir\<close> and \<open>mv\<close> succeed is part of the
  run. Names and paths hold no line feed.
\<close>

section \<open>Patterns of \<open>case\<close>\<close>

datatype pattern_part = Is "char \<Rightarrow> bool" | Any_text

fun case_match :: "pattern_part list \<Rightarrow> string \<Rightarrow> bool" where
  "case_match [] s = (s = [])"
| "case_match (Is P # ps) [] = False"
| "case_match (Is P # ps) (c # s) = (P c \<and> case_match ps s)"
| "case_match (Any_text # ps) [] = case_match ps []"
| "case_match (Any_text # ps) (c # s) = (case_match ps (c # s) \<or> case_match (Any_text # ps) s)"

definition exactly :: "string \<Rightarrow> pattern_part list" where
  "exactly s = map (\<lambda>c. Is (\<lambda>d. d = c)) s"

definition range_part :: "string \<Rightarrow> pattern_part" where
  "range_part s = Is (\<lambda>c. c \<in> set s)"

text \<open>\<open>repository-[1-9][0-9]*\<close>: the star is any text, not a repetition.\<close>

definition cache_pattern :: "pattern_part list" where
  "cache_pattern = exactly ''repository-'' @ [range_part ''123456789'', range_part ''0123456789'', Any_text]"

definition rollback_pattern :: "pattern_part list" where
  "rollback_pattern = cache_pattern @ exactly ''.pre-bbm-restore-'' @ replicate 8 (range_part ''0123456789'') @ exactly ''-'' @
     replicate 6 (range_part ''0123456789'')"

text \<open>\<open>*[!0-9a-f]*|''\<close> is refused.\<close>

definition hex_text :: "string \<Rightarrow> bool" where
  "hex_text s \<longleftrightarrow> s \<noteq> [] \<and> list_all (\<lambda>c. c \<in> set ''0123456789abcdef'') s"

definition digits_text :: "string \<Rightarrow> bool" where
  "digits_text s \<longleftrightarrow> s \<noteq> [] \<and> list_all (\<lambda>c. c \<in> set ''0123456789'') s"

section \<open>Files of a device\<close>

datatype link_target = Nowhere | To_directory | To_other

datatype node = Dir "(string \<times> node) list" | File string | Link link_target | Special

text \<open>The tests \<open>-d\<close> and \<open>-e\<close>, which follow links, and a regular file that is no link.\<close>

fun test_d :: "node option \<Rightarrow> bool" where
  "test_d (Some (Dir ds)) = True"
| "test_d (Some (Link To_directory)) = True"
| "test_d n = False"

fun test_e :: "node option \<Rightarrow> bool" where
  "test_e None = False"
| "test_e (Some (Link Nowhere)) = False"
| "test_e n = True"

fun test_l :: "node option \<Rightarrow> bool" where
  "test_l (Some (Link t)) = True"
| "test_l n = False"

fun plain_file :: "node option \<Rightarrow> string option" where
  "plain_file (Some (File b)) = Some b"
| "plain_file n = None"

fun child :: "node option \<Rightarrow> string \<Rightarrow> node option" where
  "child (Some (Dir ds)) n = map_of ds n"
| "child d n = None"

text \<open>\<open>find -type l\<close>: a link anywhere.\<close>

fun links_in :: "node \<Rightarrow> bool" where
  "links_in (Dir ds) = list_ex (\<lambda>(n, d). links_in d) ds"
| "links_in (Link t) = True"
| "links_in d = False"

text \<open>The tree without what \<open>tar\<close> leaves out: entries of these names at any depth below the cache.\<close>

fun without_names :: "(string \<Rightarrow> node \<Rightarrow> bool) \<Rightarrow> node \<Rightarrow> node" where
  "without_names drop_it (Dir ds) =
     Dir (map (\<lambda>(n, d). (n, without_names drop_it d)) (filter (\<lambda>(n, d). \<not> drop_it n d) ds))"
| "without_names drop_it d = d"

definition lock_name :: "string \<Rightarrow> node \<Rightarrow> bool" where
  "lock_name n d \<longleftrightarrow> n \<in> {''lock.exclusive'', ''lock.roster''}"

definition restored_lock :: "string \<Rightarrow> node \<Rightarrow> bool" where
  "restored_lock n d \<longleftrightarrow> n = ''lock.exclusive'' \<and> test_d (Some d) \<and> \<not> test_l (Some d) \<or> n = ''lock.roster'' \<and> plain_file (Some d) \<noteq> None"

section \<open>Output\<close>

abbreviation (input) tab :: char where "tab \<equiv> CHR 0x09"

definition fields :: "string list \<Rightarrow> string" where
  "fields ws = join_with [tab] ws @ [newline]"

definition print_lines :: "string list list \<Rightarrow> string" where
  "print_lines ls = concat (map fields ls)"

text \<open>\<open>awk\<close> prints the repository of the section \<open>[cache]\<close> of a configuration, or nothing.\<close>

definition awk_space :: "char \<Rightarrow> bool" where
  "awk_space c \<longleftrightarrow> char_code c \<in> {9, 10, 11, 12, 13, 32}"

definition section_line :: "string \<Rightarrow> bool" where
  "section_line l \<longleftrightarrow> starts_with ''['' (lstrip_by awk_space l)"

definition cache_section :: "string \<Rightarrow> bool" where
  "cache_section l \<longleftrightarrow> strip_by awk_space l = ''[cache]''"

definition repository_value :: "string \<Rightarrow> string option" where
  "repository_value l =
     (let t = lstrip_by awk_space l; r = lstrip_by awk_space (drop 10 t) in
      if starts_with ''repository'' t \<and> starts_with ''='' r
      then Some (py_lower (filter (\<lambda>c. \<not> awk_space c) (drop 1 (dropWhile (\<lambda>c. c \<noteq> CHR ''='') l)))) else None)"

fun awk_repository :: "bool \<Rightarrow> string list \<Rightarrow> string" where
  "awk_repository in_cache [] = []"
| "awk_repository in_cache (l # ls) =
     (if section_line l then awk_repository (cache_section l) ls
      else case (if in_cache then repository_value l else None) of
        None \<Rightarrow> awk_repository in_cache ls
      | Some v \<Rightarrow> v)"

definition config_repository :: "node option \<Rightarrow> string" where
  "config_repository config =
     (case plain_file config of None \<Rightarrow> [] | Some text \<Rightarrow>
        (let v = awk_repository False (split_on newline text) in if hex_text v \<and> length v = 64 then v else []))"

section \<open>Where the directories are\<close>

text \<open>
  What the scripts see: the environment, the home directory of the user table, the file at each path, the entries of
  a directory, and the first word of \<open>du\<close>. \<open>sd_rm\<close>: whether \<open>rm\<close> removes the file at a path; a failing \<open>rm\<close>
  is taken to leave it as it is.
\<close>

record shell_device =
  sd_home :: "string option"
  sd_passwd_home :: string
  sd_variable :: "string \<Rightarrow> string option"
  sd_file :: "string \<Rightarrow> node option"
  sd_names :: "string \<Rightarrow> string list"
  sd_du :: "string \<Rightarrow> string"
  sd_rm :: "string \<Rightarrow> bool"

text \<open>\<open>${NAME:-default}\<close>.\<close>

definition variable_or :: "shell_device \<Rightarrow> string \<Rightarrow> string \<Rightarrow> string" where
  "variable_or v k d = (case sd_variable v k of None \<Rightarrow> d | Some t \<Rightarrow> if t = [] then d else t)"

definition home_dir :: "shell_device \<Rightarrow> string" where
  "home_dir v = (let h = (if truthy (sd_home v) then or_empty (sd_home v) else sd_passwd_home v) in
     if h \<noteq> [] then h else ''/root'')"

definition cache_home :: "shell_device \<Rightarrow> string" where
  "cache_home v = variable_or v ''XDG_CACHE_HOME'' (home_dir v @ ''/.cache'')"

definition bbm_cache_base :: "shell_device \<Rightarrow> string" where
  "bbm_cache_base v = cache_home v @ ''/borgbackup-manager''"

definition config_base :: "shell_device \<Rightarrow> string" where
  "config_base v = variable_or v ''BORG_CONFIG_DIR'' (variable_or v ''XDG_CONFIG_HOME'' (home_dir v @ ''/.config'') @ ''/borg'')"

definition security_base :: "shell_device \<Rightarrow> string" where
  "security_base v = variable_or v ''BORG_SECURITY_DIR'' (config_base v @ ''/security'')"

text \<open>\<open>add_legacy_base\<close>: not the manager's own cache, each once.\<close>

definition add_legacy_base :: "shell_device \<Rightarrow> string \<Rightarrow> string list \<Rightarrow> string list" where
  "add_legacy_base v c cs = (if c = [] \<or> c = bbm_cache_base v \<or> c \<in> set cs then cs else cs @ [c])"

definition legacy_bases :: "shell_device \<Rightarrow> string list" where
  "legacy_bases v =
     fold (add_legacy_base v)
       [variable_or v ''BORG_CACHE_DIR'' [], cache_home v @ ''/borg'', home_dir v @ ''/.cache/borg'',
        if sd_passwd_home v = [] then [] else sd_passwd_home v @ ''/.cache/borg''] []"

section \<open>Listing\<close>

definition below :: "string \<Rightarrow> string \<Rightarrow> string" where
  "below base n = base @ ''/'' @ n"

definition kib :: "shell_device \<Rightarrow> string \<Rightarrow> string" where
  "kib v p = (if digits_text (sd_du v p) then sd_du v p else ''0'')"

definition listed :: "shell_device \<Rightarrow> string \<Rightarrow> bool" where
  "listed v p \<longleftrightarrow> test_e (sd_file v p) \<or> test_l (sd_file v p)"

text \<open>One entry of each of the three directories; \<open>repository-*\<close> was expanded by the shell.\<close>

definition scan_cache :: "shell_device \<Rightarrow> string \<Rightarrow> string list list" where
  "scan_cache v n =
     (let p = below (bbm_cache_base v) n; d = sd_file v p; path = b64encode p; b = config_repository (child d ''config'') in
      if \<not> listed v p then []
      else if test_l d then [[''ENTRY5'', n, ''SYMLINK'', path]]
      else if \<not> test_d d then [[''ENTRY5'', n, ''OTHER'', path]]
      else [''ENTRY5'', n, kib v p, path] #
        (if case_match cache_pattern n \<and> b \<noteq> [] then [[''CACHE_REPO'', n, b]] else []))"

definition scan_legacy :: "shell_device \<Rightarrow> string \<Rightarrow> string \<Rightarrow> string list list" where
  "scan_legacy v base n =
     (let p = below base n; d = sd_file v p; path = b64encode p in
      if \<not> listed v p then []
      else if n \<in> {''CACHEDIR.TAG'', ''cachedir.tag''} then [[''USER_CACHE_META5'', n, kib v p, ''CACHEDIR_TAG'', path]]
      else if test_l d then [[''USER_CACHE5'', n, ''0'', ''SYMLINK'', path]]
      else [[''USER_CACHE5'', n, kib v p, if test_d d then ''DIR'' else if plain_file d \<noteq> None then ''FILE'' else ''OTHER'', path]])"

definition encoded_or_dash :: "string option \<Rightarrow> string" where
  "encoded_or_dash b = (case b of None \<Rightarrow> ''-'' | Some t \<Rightarrow> if t = [] then ''-'' else b64encode t)"

definition scan_security :: "shell_device \<Rightarrow> string \<Rightarrow> string list list" where
  "scan_security v n =
     (let p = below (security_base v) n; d = sd_file v p; path = b64encode p in
      if \<not> listed v p then []
      else if test_l d then [[''SECURITY5'', n, ''0'', ''SYMLINK'', ''-'', ''-'', path]]
      else if \<not> test_d d then [[''SECURITY5'', n, ''0'', ''OTHER'', ''-'', ''-'', path]]
      else [[''SECURITY5'', n, kib v p, ''DIR'', encoded_or_dash (plain_file (child d ''location'')),
        encoded_or_dash (plain_file (child d ''manifest-timestamp'')), path]])"

text \<open>The names a pattern of the shell does not hide: no leading dot.\<close>

definition shown_names :: "shell_device \<Rightarrow> string \<Rightarrow> string list" where
  "shown_names v base = filter (\<lambda>n. \<not> starts_with ''.'' n) (sd_names v base)"

text \<open>\<open>find\<close> does not follow a root that is a link.\<close>

definition found_names :: "shell_device \<Rightarrow> string \<Rightarrow> string list" where
  "found_names v base = (if test_l (sd_file v base) then [] else sd_names v base)"

definition scan_root :: "shell_device \<Rightarrow> string \<Rightarrow> string \<Rightarrow> string list list \<Rightarrow> string list list" where
  "scan_root v tag base entries =
     (if test_d (sd_file v base) then [tag, ''PRESENT'', b64encode base] # entries else [[tag, ''MISSING'', b64encode base]])"

definition scan_script :: "shell_device \<Rightarrow> string" where
  "scan_script v = print_lines
     ([[''BBM_CLIENT_CACHE_SCAN_V5''], [''SCAN_HOME'', b64encode (home_dir v)], [''PASSWD_HOME'', b64encode (sd_passwd_home v)]] @
      scan_root v ''BBM_BASE'' (bbm_cache_base v)
        (concat (map (scan_cache v) (filter (starts_with ''repository-'') (shown_names v (bbm_cache_base v))))) @
      concat (map (\<lambda>base. scan_root v ''USER_CACHE_BASE5'' base (concat (map (scan_legacy v base) (found_names v base)))) (legacy_bases v)) @
      scan_root v ''SECURITY_BASE5'' (security_base v) (concat (map (scan_security v) (shown_names v (security_base v)))))"

section \<open>Deleting\<close>

definition without_file :: "string \<Rightarrow> shell_device \<Rightarrow> shell_device" where
  "without_file p v = v\<lparr>sd_file := (\<lambda>q. if q = p \<or> starts_with (p @ ''/'') q then None else sd_file v q)\<rparr>"

text \<open>A directory; \<open>refusal\<close> is the reason a name is not accepted.\<close>

definition delete_directory :: "string option \<Rightarrow> string \<Rightarrow> string \<Rightarrow> shell_device \<Rightarrow> shell_device \<times> string list" where
  "delete_directory refusal n p v =
     (case refusal of Some r \<Rightarrow> (v, [''SKIPPED'', n, r]) | None \<Rightarrow>
       if test_l (sd_file v p) then (v, [''SKIPPED'', n, ''symlink''])
       else if \<not> test_e (sd_file v p) then (v, [''MISSING'', n])
       else if \<not> test_d (sd_file v p) then (v, [''SKIPPED'', n, ''not-directory''])
       else if sd_rm v p then (without_file p v, [''REMOVED'', n])
       else (v, [''FAILED'', n]))"

fun for_each :: "(string \<Rightarrow> shell_device \<Rightarrow> shell_device \<times> string list) \<Rightarrow> string list \<Rightarrow> shell_device \<Rightarrow> shell_device \<times> string list list" where
  "for_each step [] v = (v, [])"
| "for_each step (n # ns) v =
     (case step n v of (v1, l) \<Rightarrow> case for_each step ns v1 of (v2, ls) \<Rightarrow> (v2, l # ls))"

text \<open>Without the directory (\<open>set -u\<close> and no \<open>$HOME\<close>) a script ends before it has printed anything.\<close>

type_synonym script_result = "shell_device \<times> int \<times> string"

definition run_for_each ::
    "string option \<Rightarrow> string \<Rightarrow> (string \<Rightarrow> string \<Rightarrow> shell_device \<Rightarrow> shell_device \<times> string list) \<Rightarrow> string list \<Rightarrow> shell_device \<Rightarrow> script_result" where
  "run_for_each base header step ns v =
     (case base of None \<Rightarrow> (v, 2, [])
      | Some b \<Rightarrow> (case for_each (step b) ns v of (v', ls) \<Rightarrow> (v', 0, print_lines ([header] # ls))))"

definition variable_or_home :: "shell_device \<Rightarrow> string \<Rightarrow> string \<Rightarrow> string option" where
  "variable_or_home v k d =
     (if truthy (sd_variable v k) then sd_variable v k else map_option (\<lambda>h. h @ d) (sd_home v))"

definition own_cache_base :: "shell_device \<Rightarrow> string option" where
  "own_cache_base v = map_option (\<lambda>d. d @ ''/borgbackup-manager'') (variable_or_home v ''XDG_CACHE_HOME'' ''/.cache'')"

definition own_config_base :: "shell_device \<Rightarrow> string option" where
  "own_config_base v =
     (if truthy (sd_variable v ''BORG_CONFIG_DIR'') then sd_variable v ''BORG_CONFIG_DIR''
      else map_option (\<lambda>d. d @ ''/borg'') (variable_or_home v ''XDG_CONFIG_HOME'' ''/.config''))"

definition own_security_base :: "shell_device \<Rightarrow> string option" where
  "own_security_base v =
     map_option (\<lambda>c. variable_or v ''BORG_SECURITY_DIR'' (c @ ''/security'')) (own_config_base v)"

definition delete_cache :: "string \<Rightarrow> string \<Rightarrow> shell_device \<Rightarrow> shell_device \<times> string list" where
  "delete_cache base n v =
     delete_directory (if case_match cache_pattern n \<or> case_match rollback_pattern n then None else Some ''invalid-name'')
       n (below base n) v"

definition cache_cleanup_script :: "string list \<Rightarrow> shell_device \<Rightarrow> script_result" where
  "cache_cleanup_script ns v = run_for_each (own_cache_base v) ''BBM_CLIENT_CACHE_CLEANUP_V1'' delete_cache ns v"

definition delete_security :: "string \<Rightarrow> string \<Rightarrow> shell_device \<Rightarrow> shell_device \<times> string list" where
  "delete_security base n v =
     delete_directory (if hex_text n \<and> length n = 64 then None else Some ''invalid-id'') n (below base n) v"

definition security_cleanup_script :: "string list \<Rightarrow> shell_device \<Rightarrow> script_result" where
  "security_cleanup_script ns v = run_for_each (own_security_base v) ''BBM_CLIENT_SECURITY_CLEANUP_V1'' delete_security ns v"

text \<open>\<open>${target##*/}\<close> and \<open>${target%/*}\<close>.\<close>

definition base_name :: "string \<Rightarrow> string" where
  "base_name t = rev (takeWhile (\<lambda>c. c \<noteq> CHR ''/'') (rev t))"

definition parent_name :: "string \<Rightarrow> string" where
  "parent_name t = (if CHR ''/'' \<in> set t then rev (drop 1 (dropWhile (\<lambda>c. c \<noteq> CHR ''/'') (rev t))) else t)"

definition delete_legacy :: "string \<Rightarrow> string \<Rightarrow> shell_device \<Rightarrow> shell_device \<times> string list" where
  "delete_legacy home requested v =
     (let t = (if starts_with ''/'' requested then requested else home @ ''/.cache/borg/'' @ requested);
          n = base_name t in
      if n \<in> {[], ''.'', ''..'', ''CACHEDIR.TAG'', ''cachedir.tag''} then (v, [''SKIPPED'', n, ''invalid-name''])
      else if parent_name t \<notin> set (legacy_bases v) then (v, [''SKIPPED'', n, ''outside-legacy-cache-roots''])
      else if test_l (sd_file v t) then (v, [''SKIPPED'', n, ''symlink''])
      else if \<not> test_e (sd_file v t) then (v, [''MISSING'', n])
      else if test_d (sd_file v t) \<or> plain_file (sd_file v t) \<noteq> None
      then (if sd_rm v t then (without_file t v, [''REMOVED'', n]) else (v, [''FAILED'', n]))
      else (v, [''SKIPPED'', n, ''not-regular'']))"

definition user_cache_cleanup_script :: "string list \<Rightarrow> shell_device \<Rightarrow> script_result" where
  "user_cache_cleanup_script ts v = run_for_each (Some (home_dir v)) ''BBM_CLIENT_USER_CACHE_CLEANUP_V3'' delete_legacy ts v"
text \<open>\<open>ta_make\<close>: exit code and bytes for one named file; \<open>ta_read\<close>: the files in an archive, if it can be read.\<close>

record tar_tool =
  ta_make :: "string \<Rightarrow> node \<Rightarrow> int \<times> string"
  ta_read :: "string \<Rightarrow> (string \<times> node) list option"

type_synonym entries = "string \<Rightarrow> node option"

definition out_line :: "string \<Rightarrow> string" where
  "out_line s = s @ [newline]"

definition has_links :: "node option \<Rightarrow> bool" where
  "has_links d = (case d of None \<Rightarrow> False | Some x \<Rightarrow> links_in x)"

definition cache_dir_name :: "string \<Rightarrow> string" where
  "cache_dir_name i = ''repository-'' @ i"

section \<open>Sending\<close>

definition send_tar :: "tar_tool \<Rightarrow> string \<Rightarrow> string \<Rightarrow> node option \<Rightarrow> int \<times> string" where
  "send_tar t before n d = (case d of None \<Rightarrow> (2, before) | Some x \<Rightarrow> (case ta_make t n x of (code, b) \<Rightarrow> (code, before @ b)))"

definition cache_export_script :: "tar_tool \<Rightarrow> string option \<Rightarrow> string \<Rightarrow> entries \<Rightarrow> int \<times> string" where
  "cache_export_script t base i es =
     (let n = cache_dir_name i; d = es n; protocol = out_line ''BBM_CLIENT_CACHE_V1'' in
      if \<not> digits_text i then (86, out_line ''BBM_CLIENT_CACHE_ERROR'')
      else if base = None then (2, [])
      else if \<not> test_d d then (0, protocol @ out_line ''MISSING'')
      else if has_links d then (91, protocol @ out_line ''ERROR'')
      else send_tar t (protocol @ out_line ''PRESENT'') n (map_option (without_names lock_name) d))"

text \<open>The security directory of a repository: the one the cache names, else the only one with its location.\<close>

definition location_matches :: "string \<Rightarrow> entries \<Rightarrow> string \<Rightarrow> bool" where
  "location_matches location es n \<longleftrightarrow>
     \<not> starts_with ''.'' n \<and> test_d (es n) \<and> \<not> test_l (es n) \<and> hex_text n \<and> length n = 64 \<and>
     map_option (rstrip_by (\<lambda>c. c = newline)) (plain_file (child (es n) ''location'')) = Some location"

definition security_dir_of :: "node option \<Rightarrow> string \<Rightarrow> string list \<Rightarrow> entries \<Rightarrow> string" where
  "security_dir_of config location names es =
     (if config_repository config \<noteq> [] then config_repository config
      else (case filter (location_matches location es) names of [n] \<Rightarrow> n | _ \<Rightarrow> []))"

definition security_export_script ::
    "tar_tool \<Rightarrow> string option \<Rightarrow> string \<Rightarrow> string \<Rightarrow> node option \<Rightarrow> bool \<Rightarrow> string list \<Rightarrow> entries \<Rightarrow> int \<times> string" where
  "security_export_script t base i location config there names es =
     (let b = security_dir_of config location (if there then names else []) es;
          protocol = out_line ''BBM_CLIENT_SECURITY_V1''; d = (if there then es b else None) in
      if \<not> digits_text i then (86, out_line ''BBM_CLIENT_SECURITY_ERROR'')
      else if base = None then (2, [])
      else if b = [] then (0, protocol @ out_line (if there then ''UNRESOLVED'' else ''MISSING'') @ out_line ''-'')
      else if \<not> test_d d then (0, protocol @ out_line ''MISSING'' @ out_line b)
      else if has_links d then (91, protocol @ out_line ''ERROR'' @ out_line b)
      else send_tar t (protocol @ out_line ''PRESENT'' @ out_line b) b d)"

section \<open>Putting back\<close>

text \<open>Whether \<open>mkdir\<close>, the \<open>mv\<close> of the old cache, of the new one and of the old one back succeed; a signal while \<open>tar\<close> runs.\<close>

record restore_steps =
  rs_mkdir :: bool
  rs_aside :: bool
  rs_activate :: bool
  rs_back :: bool
  rs_signal :: bool

definition unexpected_names :: "string \<Rightarrow> (string \<times> node) list \<Rightarrow> bool" where
  "unexpected_names n fs = list_ex (\<lambda>(m, d). m \<noteq> n) fs"

text \<open>The handler of a signal and of a failed activation.\<close>

definition roll_back_cache :: "bool \<Rightarrow> bool \<Rightarrow> string \<Rightarrow> string \<Rightarrow> entries \<Rightarrow> entries" where
  "roll_back_cache moved back target previous es =
     (let es1 = es(target := None) in
      if moved \<and> back then es1(target := es previous, previous := None) else es1)"

definition activate_cache ::
    "restore_steps \<Rightarrow> string \<Rightarrow> string \<Rightarrow> string \<Rightarrow> string \<Rightarrow> node \<Rightarrow> entries \<Rightarrow> entries \<times> int \<times> string" where
  "activate_cache st base target previous stage new es =
     (let moved = test_e (es target) in
      if moved \<and> test_e (es previous) then (es, 89, [])
      else if moved \<and> \<not> rs_aside st then (es(stage := Some (Dir [(target, new)])), 1, [])
      else let es1 = (if moved then es(previous := es target, target := None) else es) in
        if \<not> rs_activate st then (roll_back_cache moved (rs_back st) target previous es1, 90, [])
        else (es1(target := Some new), 0, out_line ''BBM_CLIENT_CACHE_RESTORED'' @
          (if moved then out_line (''BBM_PREVIOUS_CACHE='' @ below base previous) else [])))"

definition cache_restore_script ::
    "tar_tool \<Rightarrow> restore_steps \<Rightarrow> string option \<Rightarrow> string \<Rightarrow> string \<Rightarrow> string \<Rightarrow> string \<Rightarrow> entries \<Rightarrow> entries \<times> int \<times> string" where
  "cache_restore_script t st base i stamp pid bytes es =
     (let n = cache_dir_name i; previous = n @ ''.pre-bbm-restore-'' @ stamp; stage = ''.'' @ n @ ''.bbm-restore.'' @ pid;
          es0 = es(stage := None); es1 = (if rs_signal st then roll_back_cache False False n previous es0 else es0) in
      if \<not> digits_text i then (es, 86, [])
      else (case base of None \<Rightarrow> (es, 2, []) | Some b \<Rightarrow>
        if \<not> rs_mkdir st then (es, 1, [])
        else (case ta_read t bytes of None \<Rightarrow> (es1, 87, []) | Some fs \<Rightarrow>
          let incoming = (if rs_signal st then None else map_of fs n) in
          if \<not> rs_signal st \<and> unexpected_names n fs then (es1, 88, [])
          else if \<not> test_d incoming then (es1, 88, [])
          else if has_links incoming then (es1, 88, [])
          else (case incoming of None \<Rightarrow> (es1, 88, [])
            | Some new \<Rightarrow> activate_cache st b n previous stage (without_names restored_lock new) es1))))"

definition required_files :: "node option \<Rightarrow> bool" where
  "required_files d = list_all (\<lambda>n. plain_file (child d n) \<noteq> None) [''location'', ''key-type'', ''manifest-timestamp'']"

text \<open>A signal cleans the stage, so nothing is found afterwards.\<close>

definition security_restore_script ::
    "tar_tool \<Rightarrow> restore_steps \<Rightarrow> string option \<Rightarrow> string \<Rightarrow> string \<Rightarrow> string \<Rightarrow> entries \<Rightarrow> entries \<times> int \<times> string" where
  "security_restore_script t st base i pid bytes es =
     (let es0 = es((''.'' @ i @ ''.bbm-restore.'' @ pid) := None) in
      if \<not> (hex_text i \<and> length i = 64) then (es, 86, [])
      else if base = None then (es, 2, [])
      else if test_e (es i) \<or> test_l (es i) then (es, 0, out_line ''BBM_CLIENT_SECURITY_KEPT_EXISTING'')
      else if \<not> rs_mkdir st then (es0, 1, [])
      else (case ta_read t bytes of None \<Rightarrow> (es0, 87, []) | Some fs \<Rightarrow>
        let incoming = (if rs_signal st then None else map_of fs i) in
        if \<not> rs_signal st \<and> unexpected_names i fs then (es0, 88, [])
        else if \<not> test_d incoming \<or> test_l incoming then (es0, 89, [])
        else if has_links incoming then (es0, 90, [])
        else if \<not> required_files incoming then (es0, 91, [])
        else if \<not> rs_activate st then (es0, 1, [])
        else (es0(i := incoming), 0, out_line ''BBM_CLIENT_SECURITY_RESTORED'')))"

end
