(* ===== verification/ClientCleanup.thy ===== *)
theory ClientCleanup
  imports ClientScripts BackupInventory BackupApi Commands ClientTransfer RunLogs
begin

text \<open>
  Scanning the devices and deleting what was selected, \<open>src/app/client_cache.py\<close>, with the commands of
  \<open>src/app/runner.py\<close>: the lines a device reports about its Borg caches and security directories, their
  classification, and the requests. Texts shown to the user are left out; the parser of time stamps is an argument.
  Every command started is recorded; what it gives may depend on how many ran before it. The database does not change
  while a request is handled.
\<close>

section \<open>Values in a line\<close>

definition rx_cache_number :: rx where
  "rx_cache_number = Grp 1 (Cat (One (\<lambda>c. c \<in> set ''123456789'')) (Many True rx_digit))"

definition client_cache_name :: "string \<Rightarrow> nat option" where
  "client_cache_name n =
     map_option (\<lambda>g. digits_value (group 1 g)) (re_fullmatch (Cat (rx_text ''repository-'') rx_cache_number) n)"

definition rollback_name :: "string \<Rightarrow> nat option" where
  "rollback_name n =
     map_option (\<lambda>g. digits_value (group 1 g)) (re_fullmatch (rx_seq [rx_text ''repository-'', rx_cache_number, rx_text ''.pre-bbm-restore-'',
       rx_times 8 rx_digit, rx_text ''-'', rx_times 6 rx_digit]) n)"

definition normalize_location :: "string \<Rightarrow> string" where
  "normalize_location v =
     (let slash = (\<lambda>c. c = CHR ''/''); t = rstrip_by slash (py_strip v) in
      if starts_with ''file://'' t then rstrip_by slash (drop 7 t) else t)"

definition decode_text :: "string \<Rightarrow> string option" where
  "decode_text v =
     (if v = [] \<or> v = ''-'' then None
      else case b64_strict (JStr v) of None \<Rightarrow> None
      | Some raw \<Rightarrow>
          (case utf8_decode raw of None \<Rightarrow> None
           | Some t \<Rightarrow> if list_ex (\<lambda>c. char_code c \<in> {0, 10, 13}) t \<or> py_strip t = [] then None else Some (py_strip t)))"

definition decode_location :: "string \<Rightarrow> string option" where
  "decode_location v =
     (case decode_text v of None \<Rightarrow> None
      | Some t \<Rightarrow> if normalize_location t = [] then None else Some (normalize_location t))"

definition kilobytes :: "string \<Rightarrow> int" where
  "kilobytes s = (case py_int_text s of None \<Rightarrow> 0 | Some n \<Rightarrow> max 0 n * 1024)"

section \<open>Entries\<close>

datatype entry_type = Cache_entry | User_cache_entry | Security_entry

datatype entry_kind =
    Cache_active | Cache_orphan | Cache_rollback | Cache_unknown
  | Security_active | Security_orphan | Security_unknown | Security_duplicate_old
  | User_cache_active | User_cache_orphan | User_cache_unknown | User_cache_misc

datatype duplicate_state = Ambiguous | Newest | Older

record scan_entry =
  sc_name :: string
  sc_path :: "string option"
  sc_type :: entry_type
  sc_kind :: entry_kind
  sc_repository :: "nat option"
  sc_borg_id :: "string option"
  sc_location :: "string option"
  sc_stamp :: "time option"
  sc_size :: int
  sc_selectable :: bool
  sc_selected :: bool
  sc_duplicate :: "duplicate_state option"

definition plain_entry :: "string \<Rightarrow> string option \<Rightarrow> entry_type \<Rightarrow> entry_kind \<Rightarrow> int \<Rightarrow> bool \<Rightarrow> bool \<Rightarrow> scan_entry" where
  "plain_entry n p ty k bytes selectable selected =
     \<lparr>sc_name = n, sc_path = p, sc_type = ty, sc_kind = k, sc_repository = None, sc_borg_id = None, sc_location = None, sc_stamp = None,
      sc_size = bytes, sc_selectable = selectable, sc_selected = selected, sc_duplicate = None\<rparr>"

text \<open>A directory of the manager's cache on the device, in the lines \<open>ENTRY5\<close> and \<open>ENTRY\<close>.\<close>

definition cache_entry :: "nat list \<Rightarrow> string \<Rightarrow> string \<Rightarrow> string option \<Rightarrow> scan_entry" where
  "cache_entry assigned n raw_size p =
     (if raw_size \<in> {''SYMLINK'', ''OTHER''} then plain_entry n p Cache_entry Cache_unknown 0 False False
      else case client_cache_name n of
        Some i \<Rightarrow>
          (let on = (i \<in> set assigned) in
           (plain_entry n p Cache_entry (if on then Cache_active else Cache_orphan) (kilobytes raw_size) True (\<not> on))\<lparr>sc_repository := Some i\<rparr>)
      | None \<Rightarrow>
          (case rollback_name n of
             Some i \<Rightarrow> (plain_entry n p Cache_entry Cache_rollback (kilobytes raw_size) True True)\<lparr>sc_repository := Some i\<rparr>
           | None \<Rightarrow> plain_entry n p Cache_entry Cache_unknown (kilobytes raw_size) False False))"

record raw_directory =
  rd_name :: string
  rd_path :: "string option"
  rd_size :: int
  rd_type :: string
  rd_location :: "string option"
  rd_stamp :: "time option"

record scan_parts =
  sp_ids :: "(string \<times> string) list"
  sp_security :: "raw_directory list"
  sp_user :: "raw_directory list"
  sp_entries :: "scan_entry list"

text \<open>One line; other lines and the tags of cache directories are ignored. \<open>stamp\<close> reads a time stamp.\<close>

definition security_line :: "(string \<Rightarrow> time option) \<Rightarrow> string \<Rightarrow> string \<Rightarrow> string \<Rightarrow> string \<Rightarrow> string \<Rightarrow> string option \<Rightarrow> raw_directory" where
  "security_line stamp n kb ty location manifest p =
     \<lparr>rd_name = py_lower n, rd_path = p, rd_size = kilobytes kb, rd_type = ty, rd_location = decode_location location,
      rd_stamp = Option.bind (decode_text manifest) stamp\<rparr>"

definition user_line :: "string \<Rightarrow> string \<Rightarrow> string \<Rightarrow> string option \<Rightarrow> raw_directory" where
  "user_line n kb ty p =
     \<lparr>rd_name = n, rd_path = p, rd_size = kilobytes kb, rd_type = ty, rd_location = None, rd_stamp = None\<rparr>"

definition scan_line :: "(string \<Rightarrow> time option) \<Rightarrow> nat list \<Rightarrow> string \<Rightarrow> scan_parts \<Rightarrow> scan_parts" where
  "scan_line stamp assigned line s =
     (case split_on (CHR 0x09) line of
        [k, a, b, c] \<Rightarrow>
          if k = ''ENTRY5'' then s\<lparr>sp_entries := sp_entries s @ [cache_entry assigned a b (decode_text c)]\<rparr>
          else if k = ''USER_CACHE'' then s\<lparr>sp_user := sp_user s @ [user_line a b c None]\<rparr>
          else s
      | [k, a, b, c, d] \<Rightarrow>
          if k = ''USER_CACHE5'' then s\<lparr>sp_user := sp_user s @ [user_line a b c (decode_text d)]\<rparr>
          else if k = ''SECURITY'' then s\<lparr>sp_security := sp_security s @ [security_line stamp a b c d ''-'' None]\<rparr>
          else s
      | [k, a, b, c, d, m] \<Rightarrow>
          if k = ''SECURITY'' then s\<lparr>sp_security := sp_security s @ [security_line stamp a b c d m None]\<rparr> else s
      | [k, a, b, c, d, m, p] \<Rightarrow>
          if k = ''SECURITY5'' then s\<lparr>sp_security := sp_security s @ [security_line stamp a b c d m (decode_text p)]\<rparr> else s
      | [k, a, b] \<Rightarrow>
          if k = ''CACHE_REPO''
          then (if client_cache_name a \<noteq> None \<and> valid_borg_id (py_lower b) then s\<lparr>sp_ids := dict_set a (py_lower b) (sp_ids s)\<rparr> else s)
          else if k = ''ENTRY'' then s\<lparr>sp_entries := sp_entries s @ [cache_entry assigned a b None]\<rparr>
          else s
      | _ \<Rightarrow> s)"

section \<open>Classification\<close>

text \<open>The repository ids of the caches that are assigned to the device, and of those that are not.\<close>

definition active_borg_ids :: "nat list \<Rightarrow> (string \<times> string) list \<Rightarrow> string list" where
  "active_borg_ids assigned ids =
     map snd (filter (\<lambda>(n, b). case client_cache_name n of None \<Rightarrow> False | Some i \<Rightarrow> i \<in> set assigned) ids)"

definition orphan_borg_ids :: "nat list \<Rightarrow> (string \<times> string) list \<Rightarrow> string list" where
  "orphan_borg_ids assigned ids =
     filter (\<lambda>b. b \<notin> set (active_borg_ids assigned ids))
       (map snd (filter (\<lambda>(n, b). case client_cache_name n of None \<Rightarrow> False | Some i \<Rightarrow> i \<notin> set assigned) ids))"

record scan_context =
  cx_active :: "string list"
  cx_orphan :: "string list"
  cx_assigned :: "string list"
  cx_known :: "string list"

definition location_in :: "string option \<Rightarrow> string list \<Rightarrow> bool" where
  "location_in l ls = (case l of None \<Rightarrow> False | Some x \<Rightarrow> x \<in> set ls)"

definition security_entry :: "scan_context \<Rightarrow> raw_directory \<Rightarrow> scan_entry" where
  "security_entry cx r =
     (let valid = valid_borg_id (rd_name r); l = rd_location r;
          kind = (if rd_name r \<in> set (cx_active cx) \<or> location_in l (cx_assigned cx) then Security_active
            else if rd_name r \<in> set (cx_orphan cx) \<or> (location_in l (cx_known cx) \<and> \<not> location_in l (cx_assigned cx)) then Security_orphan
            else Security_unknown) in
      if \<not> (rd_type r = ''DIR'' \<and> valid)
      then (plain_entry (rd_name r) (rd_path r) Security_entry Security_unknown (rd_size r) False False)
        \<lparr>sc_borg_id := (if valid then Some (rd_name r) else None), sc_location := l, sc_stamp := rd_stamp r\<rparr>
      else (plain_entry (rd_name r) (rd_path r) Security_entry kind (rd_size r) (kind \<noteq> Security_active) (kind = Security_orphan))
        \<lparr>sc_borg_id := Some (rd_name r), sc_location := l, sc_stamp := rd_stamp r\<rparr>)"

text \<open>The members of a group with one location; the newest by time stamp is unique or nothing is decided.\<close>

definition in_group :: "string \<Rightarrow> scan_entry \<Rightarrow> bool" where
  "in_group l x \<longleftrightarrow> sc_location x = Some l \<and> l \<noteq> [] \<and> sc_borg_id x \<noteq> None \<and> sc_stamp x \<noteq> None"

definition older_duplicate :: "scan_context \<Rightarrow> scan_entry \<Rightarrow> scan_entry" where
  "older_duplicate cx x =
     (if sc_kind x = Security_active \<and> sc_name x \<in> set (cx_active cx)
      then x\<lparr>sc_duplicate := Some Older, sc_selectable := False, sc_selected := False\<rparr>
      else x\<lparr>sc_duplicate := Some Older, sc_kind := Security_duplicate_old, sc_selectable := True, sc_selected := True\<rparr>)"

definition mark_group :: "scan_context \<Rightarrow> string \<Rightarrow> scan_entry list \<Rightarrow> scan_entry list" where
  "mark_group cx l xs =
     (let stamps = List.map_filter sc_stamp (filter (in_group l) xs); newest = fold max stamps (hd stamps) in
      if length stamps < 2 then xs
      else if length (filter (\<lambda>t. t = newest) stamps) \<noteq> 1
      then map (\<lambda>x. if in_group l x then x\<lparr>sc_duplicate := Some Ambiguous\<rparr> else x) xs
      else map (\<lambda>x. if \<not> in_group l x then x
        else if sc_stamp x = Some newest then x\<lparr>sc_duplicate := Some Newest\<rparr>
        else older_duplicate cx x) xs)"

definition mark_duplicates :: "scan_context \<Rightarrow> scan_entry list \<Rightarrow> scan_entry list" where
  "mark_duplicates cx xs = fold (mark_group cx) (remdups (List.map_filter sc_location xs)) xs"

definition user_cache_entry :: "scan_context \<Rightarrow> scan_entry list \<Rightarrow> raw_directory \<Rightarrow> scan_entry" where
  "user_cache_entry cx security r =
     (let low = py_lower (rd_name r); valid = valid_borg_id low; regular = (rd_type r = ''DIR'' \<and> valid);
          sec = (if valid then find (\<lambda>x. sc_borg_id x = Some low) (rev security) else None);
          sec_kind = map_option sc_kind sec;
          (kind, selectable, selected) =
            (if regular \<and> (low \<in> set (cx_active cx) \<or> sec_kind = Some Security_active) then (User_cache_active, True, False)
             else if regular \<and> (low \<in> set (cx_orphan cx) \<or> sec_kind \<in> {Some Security_orphan, Some Security_duplicate_old})
             then (User_cache_orphan, True, True)
             else if regular then (User_cache_unknown, True, False)
             else (User_cache_misc, rd_type r \<in> {''DIR'', ''FILE''}, False)) in
      (plain_entry (if valid then low else rd_name r) (rd_path r) User_cache_entry kind (rd_size r) selectable selected)
        \<lparr>sc_borg_id := (if valid then Some low else None), sc_location := Option.bind sec sc_location\<rparr>)"

definition scan_protocols :: "string list" where
  "scan_protocols = map (\<lambda>v. ''BBM_CLIENT_CACHE_SCAN_V'' @ v) [''1'', ''2'', ''3'', ''4'', ''5'']"

definition scan_lines :: "string \<Rightarrow> string list" where
  "scan_lines output = map (rstrip_by (\<lambda>c. c = carriage)) (filter (\<lambda>l. py_strip l \<noteq> []) (py_splitlines output))"

definition normalized :: "string list \<Rightarrow> string list" where
  "normalized ls = filter (\<lambda>l. l \<noteq> []) (map normalize_location ls)"

definition scan_context_of :: "nat list \<Rightarrow> string list \<Rightarrow> string list \<Rightarrow> scan_parts \<Rightarrow> scan_context" where
  "scan_context_of assigned assigned_locations known_locations s =
     \<lparr>cx_active = active_borg_ids assigned (sp_ids s), cx_orphan = orphan_borg_ids assigned (sp_ids s),
      cx_assigned = normalized assigned_locations, cx_known = normalized known_locations\<rparr>"

text \<open>What the lines after the first say.\<close>

definition scan_parts_of :: "(string \<Rightarrow> time option) \<Rightarrow> nat list \<Rightarrow> string \<Rightarrow> scan_parts" where
  "scan_parts_of stamp assigned output =
     fold (scan_line stamp assigned) (tl (scan_lines output)) \<lparr>sp_ids = [], sp_security = [], sp_user = [], sp_entries = []\<rparr>"

definition with_borg_id :: "(string \<times> string) list \<Rightarrow> scan_entry \<Rightarrow> scan_entry" where
  "with_borg_id ids x = (case map_of ids (sc_name x) of None \<Rightarrow> x | Some b \<Rightarrow> x\<lparr>sc_borg_id := Some b\<rparr>)"

text \<open>All entries: caches, then the caches of the user, then the security directories. \<open>None\<close>: no answer of the scan.\<close>

definition parse_scan_output ::
    "(string \<Rightarrow> time option) \<Rightarrow> string \<Rightarrow> nat list \<Rightarrow> string list \<Rightarrow> string list \<Rightarrow> scan_entry list option" where
  "parse_scan_output stamp output assigned assigned_locations known_locations =
     (if scan_lines output = [] \<or> hd (scan_lines output) \<notin> set scan_protocols then None
      else (let s = scan_parts_of stamp assigned output;
                cx = scan_context_of assigned assigned_locations known_locations s;
                security = mark_duplicates cx (map (security_entry cx) (sp_security s)) in
        Some (map (with_borg_id (sp_ids s)) (sp_entries s) @ map (user_cache_entry cx security) (sp_user s) @ security)))"
section \<open>Commands\<close>

datatype script_call =
    Scan_call
  | Delete_caches "string list"
  | Delete_security "string list"
  | Delete_legacy "string list"

fun first_uniques :: "string list \<Rightarrow> string list" where
  "first_uniques [] = []"
| "first_uniques (n # ns) = n # first_uniques (filter (\<lambda>m. m \<noteq> n) ns)"

definition maintenance_command :: "runtime \<Rightarrow> vault \<Rightarrow> host \<Rightarrow> string \<Rightarrow> string list \<Rightarrow> string \<Rightarrow> command fallible" where
  "maintenance_command rt v h script args label =
     try_bind (ssh_argv rt v h ([''sh'', ''-c'', ru_script rt script] @ args) [] False) (\<lambda>c.
       Inr (c\<lparr>cm_timeout := Some (ru_timeout rt),
         cm_preview := ''ssh -i [tempor'' @ [CHR 0xE4] @ ''rer Controller-Schl'' @ [CHR 0xFC] @ ''ssel] '' @ ho_username h @ ''@'' @
           ho_address h @ '' -- '' @ label\<rparr>))"

definition client_borg_cache_scan_command :: "runtime \<Rightarrow> vault \<Rightarrow> host \<Rightarrow> command fallible" where
  "client_borg_cache_scan_command rt v h =
     maintenance_command rt v h ''client_scan'' []
       (''BBM-Client-Cache, Legacy-Borg-Cache und Borg-Sicherheitsstatus pr'' @ [CHR 0xFC] @ ''fen'')"

text \<open>At most a thousand names, each in its form and each sent once.\<close>

definition cleaned_names :: "(string \<Rightarrow> string option) \<Rightarrow> string list \<Rightarrow> string list fallible" where
  "cleaned_names accept names =
     (if names = [] then Inl ''no names''
      else if 1000 < length names then Inl ''too many names''
      else if list_ex (\<lambda>n. accept n = None) names then Inl ''invalid name''
      else Inr (first_uniques (List.map_filter accept names)))"

definition accept_cache :: "string \<Rightarrow> string option" where
  "accept_cache n = (if client_cache_name n \<noteq> None \<or> rollback_name n \<noteq> None then Some n else None)"

definition client_borg_cache_cleanup_command :: "runtime \<Rightarrow> vault \<Rightarrow> host \<Rightarrow> string list \<Rightarrow> command fallible" where
  "client_borg_cache_cleanup_command rt v h names =
     try_bind (cleaned_names accept_cache names) (\<lambda>ns.
       maintenance_command rt v h ''client_cache_cleanup'' (''--'' # ns) (str_nat (length ns) @ '' BBM-Client-Cache-Verzeichnis(se) bereinigen''))"

definition accept_security :: "string \<Rightarrow> string option" where
  "accept_security n = (let i = py_lower (py_strip n) in if valid_borg_id i then Some i else None)"

definition client_borg_security_cleanup_command :: "runtime \<Rightarrow> vault \<Rightarrow> host \<Rightarrow> string list \<Rightarrow> command fallible" where
  "client_borg_security_cleanup_command rt v h names =
     try_bind (cleaned_names accept_security names) (\<lambda>ns.
       maintenance_command rt v h ''client_security_cleanup'' (''--'' # ns)
         (str_nat (length ns) @ '' verwaiste Borg-Sicherheitsstatus-Verzeichnis(se) bereinigen''))"

definition one_line :: "string \<Rightarrow> bool" where
  "one_line s \<longleftrightarrow> list_all (\<lambda>c. char_code c \<notin> {0, 10, 13}) s"

definition accept_legacy :: "string \<Rightarrow> string option" where
  "accept_legacy s =
     (let t = py_strip s; n = base_name t in
      if t = [] \<or> py_lower n = ''cachedir.tag'' \<or> n \<in> {''.'', ''..''} \<or> \<not> one_line t \<or> 4096 < length (utf8_encode t) then None else Some t)"

definition client_borg_user_cache_cleanup_command :: "runtime \<Rightarrow> vault \<Rightarrow> host \<Rightarrow> string list \<Rightarrow> command fallible" where
  "client_borg_user_cache_cleanup_command rt v h targets =
     try_bind (cleaned_names accept_legacy targets) (\<lambda>ns.
       maintenance_command rt v h ''client_user_cache_cleanup'' (''--'' # ns)
         (str_nat (length ns) @ '' Legacy-Borg-Cache-Eintr'' @ [CHR 0xE4] @ ''ge bereinigen''))"

fun call_command :: "runtime \<Rightarrow> vault \<Rightarrow> host \<Rightarrow> script_call \<Rightarrow> command fallible" where
  "call_command rt v h Scan_call = client_borg_cache_scan_command rt v h"
| "call_command rt v h (Delete_caches ns) = client_borg_cache_cleanup_command rt v h ns"
| "call_command rt v h (Delete_security ns) = client_borg_security_cleanup_command rt v h ns"
| "call_command rt v h (Delete_legacy ns) = client_borg_user_cache_cleanup_command rt v h ns"

record cleanup_env =
  cl_runtime :: runtime
  cl_vault :: vault
  cl_dec :: "string \<Rightarrow> string"
  cl_stamp :: "string \<Rightarrow> time option"
  cl_run :: "nat \<Rightarrow> host \<Rightarrow> command \<Rightarrow> ssh_run option"

type_synonym calls = "(host \<times> script_call) list"

definition call_answer :: "cleanup_env \<Rightarrow> nat \<Rightarrow> host \<Rightarrow> script_call \<Rightarrow> string option" where
  "call_answer e i h c =
     (case call_command (cl_runtime e) (cl_vault e) h c of
        Inl _ \<Rightarrow> None
      | Inr command \<Rightarrow>
          (case run_text_command (cl_dec e) (cl_run e i h command) of Inl _ \<Rightarrow> None | Inr out \<Rightarrow> Some out))"

definition run_call :: "cleanup_env \<Rightarrow> host \<Rightarrow> script_call \<Rightarrow> calls \<Rightarrow> string option \<times> calls" where
  "run_call e h c tr =
     (call_answer e (length tr) h c,
      case call_command (cl_runtime e) (cl_vault e) h c of Inl _ \<Rightarrow> tr | Inr _ \<Rightarrow> tr @ [(h, c)])"

section \<open>Devices\<close>

text \<open>The devices by name, each with the repositories its jobs use.\<close>

definition assigned_repositories :: "manager_db \<Rightarrow> host \<Rightarrow> nat list" where
  "assigned_repositories db h = remdups (map jb_repository_id (filter (\<lambda>j. jb_host_id j = ho_id h) (db_jobs db)))"

definition host_cache_assignments :: "int list \<Rightarrow> manager_db \<Rightarrow> (host \<times> nat list) list" where
  "host_cache_assignments ids db =
     (let selected = filter (\<lambda>i. 0 < i) ids in
      map (\<lambda>h. (h, assigned_repositories db h))
        (sort_key host_order (filter (\<lambda>h. selected = [] \<or> int (ho_id h) \<in> set selected) (db_hosts db))))"

definition repository_locations :: "manager_db \<Rightarrow> (nat \<times> string) list" where
  "repository_locations db =
     filter (\<lambda>(i, l). l \<noteq> []) (map (\<lambda>r. (rp_id r, normalize_location (rp_location r))) (db_repositories db))"

definition locations_of :: "(nat \<times> string) list \<Rightarrow> nat list \<Rightarrow> string list" where
  "locations_of ls assigned = map snd (filter (\<lambda>(i, l). i \<in> set assigned) ls)"

definition scan_host :: "cleanup_env \<Rightarrow> (nat \<times> string) list \<Rightarrow> host \<Rightarrow> nat list \<Rightarrow> calls \<Rightarrow> scan_entry list option \<times> calls" where
  "scan_host e locations h assigned tr =
     (case run_call e h Scan_call tr of
        (None, tr') \<Rightarrow> (None, tr')
      | (Some output, tr') \<Rightarrow>
          (parse_scan_output (cl_stamp e) output assigned (locations_of locations assigned) (map snd locations), tr'))"

datatype device_status = Device_ok | Device_error | Device_skipped

record device_scan =
  dv_host :: host
  dv_assigned :: "nat list"
  dv_status :: device_status
  dv_entries :: "scan_entry list"

fun scan_devices :: "cleanup_env \<Rightarrow> (nat \<times> string) list \<Rightarrow> (host \<times> nat list) list \<Rightarrow> calls \<Rightarrow> device_scan list \<times> calls" where
  "scan_devices e locations [] tr = ([], tr)"
| "scan_devices e locations ((h, assigned) # rest) tr =
     (case (if ho_enabled h then scan_host e locations h assigned tr else (None, tr)) of (found, tr1) \<Rightarrow>
      case scan_devices e locations rest tr1 of (ds, tr2) \<Rightarrow>
        (\<lparr>dv_host = h, dv_assigned = sort assigned,
          dv_status = (if \<not> ho_enabled h then Device_skipped else if found = None then Device_error else Device_ok),
          dv_entries = (case found of None \<Rightarrow> [] | Some es \<Rightarrow> es)\<rparr> # ds, tr2))"

record scan_report =
  sn_devices :: "device_scan list"
  sn_requested :: "int list"
  sn_missing :: "int list"
  sn_counts :: "(device_status \<times> nat) list"
  sn_kinds :: "(entry_kind \<times> nat \<times> int) list"

definition counted_kinds :: "entry_kind list" where
  "counted_kinds = [Cache_orphan, Cache_rollback, Security_orphan, Security_unknown, Security_duplicate_old, User_cache_orphan,
     User_cache_unknown, User_cache_misc]"

definition kind_total :: "scan_entry list \<Rightarrow> entry_kind \<Rightarrow> entry_kind \<times> nat \<times> int" where
  "kind_total es k = (let xs = filter (\<lambda>x. sc_kind x = k) es in (k, length xs, sum_list (map sc_size xs)))"

definition scan_client_borg_caches :: "cleanup_env \<Rightarrow> int list \<Rightarrow> manager_db \<Rightarrow> calls \<Rightarrow> scan_report \<times> calls" where
  "scan_client_borg_caches e ids db tr =
     (let requested = sort (remdups (filter (\<lambda>i. 0 < i) ids)); assignments = host_cache_assignments ids db in
      case scan_devices e (repository_locations db) assignments tr of (ds, tr') \<Rightarrow>
        (\<lparr>sn_devices = ds, sn_requested = requested,
          sn_missing = filter (\<lambda>i. i \<notin> set (map (\<lambda>(h, a). int (ho_id h)) assignments)) requested,
          sn_counts = map (\<lambda>s. (s, length (filter (\<lambda>d. dv_status d = s) ds))) [Device_ok, Device_error, Device_skipped],
          sn_kinds = map (kind_total (concat (map dv_entries ds))) counted_kinds\<rparr>, tr'))"

section \<open>Deleting what was selected\<close>

datatype cleanup_kind = Delete_orphan | Delete_rollback | Delete_security_any | Delete_security_orphan | Delete_user_cache | Reset_cache

definition kind_of :: "string \<Rightarrow> cleanup_kind option" where
  "kind_of k = map_of [(''orphan'', Delete_orphan), (''rollback'', Delete_rollback), (''security'', Delete_security_any),
     (''security_orphan'', Delete_security_orphan), (''user_cache'', Delete_user_cache), (''reset'', Reset_cache)] k"

record cleanup_target =
  tg_host :: int
  tg_name :: string
  tg_path :: "string option"

definition target_of :: "cleanup_kind \<Rightarrow> cache_cleanup_target \<Rightarrow> cleanup_target" where
  "target_of k t =
     (let p = py_strip (or_empty (ct_path t)) in
      \<lparr>tg_host = ct_host_id t, tg_name = (if k = Delete_user_cache then ct_name t else py_lower (ct_name t)),
       tg_path = (if p = [] then None else Some p)\<rparr>)"

definition valid_target :: "cleanup_kind \<Rightarrow> cleanup_target \<Rightarrow> bool" where
  "valid_target k t \<longleftrightarrow> 0 < tg_host t \<and>
     (case k of
        Delete_orphan \<Rightarrow> client_cache_name (tg_name t) \<noteq> None
      | Reset_cache \<Rightarrow> client_cache_name (tg_name t) \<noteq> None
      | Delete_rollback \<Rightarrow> rollback_name (tg_name t) \<noteq> None
      | Delete_user_cache \<Rightarrow>
          tg_name t \<notin> {[], ''.'', ''..''} \<and> CHR ''/'' \<notin> set (tg_name t) \<and> one_line (tg_name t) \<and> length (utf8_encode (tg_name t)) \<le> 255 \<and>
          py_lower (tg_name t) \<noteq> ''cachedir.tag'' \<and>
          (case tg_path t of None \<Rightarrow> True | Some p \<Rightarrow> starts_with ''/'' p \<and> one_line p)
      | _ \<Rightarrow> valid_borg_id (tg_name t))"

datatype skip_reason =
    Device_gone | Device_disabled | Not_checked | Not_allowed_any_more | Assigned_again | Command_failed | Told string

record skipped_entry =
  sk_host :: int
  sk_name :: string
  sk_reason :: skip_reason

definition skip :: "cleanup_target \<Rightarrow> skip_reason \<Rightarrow> skipped_entry" where
  "skip t r = \<lparr>sk_host = tg_host t, sk_name = tg_name t, sk_reason = r\<rparr>"

text \<open>The only entry of a list, if there is just one.\<close>

definition the_only :: "'a list \<Rightarrow> 'a option" where
  "the_only xs = (case xs of [x] \<Rightarrow> Some x | _ \<Rightarrow> None)"

definition allowed_kinds :: "cleanup_kind \<Rightarrow> entry_kind list" where
  "allowed_kinds k =
     (if k = Delete_user_cache then [User_cache_active, User_cache_orphan, User_cache_unknown, User_cache_misc]
      else if k = Delete_security_orphan then [Security_orphan]
      else [Security_orphan, Security_unknown, Security_duplicate_old])"

text \<open>What may be sent for a target, given the entries found just before.\<close>

definition reset_value :: "nat list \<Rightarrow> scan_entry list \<Rightarrow> cleanup_target \<Rightarrow> (skip_reason, string) result" where
  "reset_value assigned es t =
     (case the_only (filter (\<lambda>x. sc_type x = Cache_entry \<and> sc_kind x = Cache_active \<and> sc_name x = tg_name t) es) of
        None \<Rightarrow> Inl Not_allowed_any_more
      | Some x \<Rightarrow>
          (case sc_repository x of None \<Rightarrow> Inl Not_allowed_any_more
           | Some i \<Rightarrow> if i \<in> set assigned then Inr (tg_name t) else Inl Not_allowed_any_more))"

definition same_entry :: "cleanup_kind \<Rightarrow> cleanup_target \<Rightarrow> scan_entry \<Rightarrow> bool" where
  "same_entry k t x \<longleftrightarrow>
     sc_type x = (if k = Delete_user_cache then User_cache_entry else Security_entry) \<and> sc_name x = tg_name t \<and>
     (case tg_path t of None \<Rightarrow> True | Some p \<Rightarrow> or_empty (sc_path x) = p)"

definition checked_value :: "cleanup_kind \<Rightarrow> scan_entry list \<Rightarrow> cleanup_target \<Rightarrow> (skip_reason, string) result" where
  "checked_value k es t =
     (case the_only (filter (same_entry k t) es) of
        None \<Rightarrow> Inl Not_allowed_any_more
      | Some x \<Rightarrow>
          if \<not> (sc_kind x \<in> set (allowed_kinds k) \<and> sc_selectable x) then Inl Not_allowed_any_more
          else Inr (if k = Delete_user_cache \<and> truthy (sc_path x) then or_empty (sc_path x) else
            if k = Delete_user_cache then sc_name x else tg_name t))"

definition unchecked_value :: "cleanup_kind \<Rightarrow> nat list \<Rightarrow> cleanup_target \<Rightarrow> (skip_reason, string) result" where
  "unchecked_value k assigned t =
     (case client_cache_name (tg_name t) of
        Some i \<Rightarrow> if k = Delete_orphan \<and> i \<in> set assigned then Inl Assigned_again else Inr (tg_name t)
      | None \<Rightarrow> Inr (tg_name t))"

fun split_values :: "(cleanup_target \<Rightarrow> (skip_reason, string) result) \<Rightarrow> cleanup_target list \<Rightarrow> string list \<times> skipped_entry list" where
  "split_values f [] = ([], [])"
| "split_values f (t # ts) =
     (case split_values f ts of (ns, sk) \<Rightarrow> (case f t of Inr n \<Rightarrow> (n # ns, sk) | Inl r \<Rightarrow> (ns, skip t r # sk)))"

text \<open>The values to send for one device: after a new scan, except for orphans and rollback copies.\<close>

definition safe_values ::
    "cleanup_env \<Rightarrow> (nat \<times> string) list \<Rightarrow> cleanup_kind \<Rightarrow> host \<Rightarrow> nat list \<Rightarrow> cleanup_target list \<Rightarrow> calls \<Rightarrow>
     (string list \<times> skipped_entry list) \<times> calls" where
  "safe_values e locations k h assigned ts tr =
     (if k \<in> {Delete_orphan, Delete_rollback} then (split_values (unchecked_value k assigned) ts, tr)
      else (case scan_host e locations h assigned tr of
          (None, tr') \<Rightarrow> (([], map (\<lambda>t. skip t Not_checked) ts), tr')
        | (Some es, tr') \<Rightarrow> (split_values (if k = Reset_cache then reset_value assigned es else checked_value k es) ts, tr')))"

definition delete_call :: "cleanup_kind \<Rightarrow> string list \<Rightarrow> script_call" where
  "delete_call k ns =
     (if k \<in> {Delete_security_any, Delete_security_orphan} then Delete_security ns
      else if k = Delete_user_cache then Delete_legacy ns else Delete_caches ns)"

text \<open>A line of a deletion: removed, or skipped for a reason.\<close>

definition removed_lines :: "nat \<Rightarrow> string list list \<Rightarrow> (nat \<times> string) list" where
  "removed_lines h ls = List.map_filter (\<lambda>p. case p of a # n # rest \<Rightarrow> if a = ''REMOVED'' then Some (h, n) else None | _ \<Rightarrow> None) ls"

definition skipped_lines :: "nat \<Rightarrow> string list list \<Rightarrow> skipped_entry list" where
  "skipped_lines h ls = List.map_filter (\<lambda>p. case p of
       a # n # rest \<Rightarrow>
         if a \<in> {''SKIPPED'', ''MISSING'', ''FAILED''}
         then Some \<lparr>sk_host = int h, sk_name = n, sk_reason = Told (case rest of [] \<Rightarrow> py_lower a | r # _ \<Rightarrow> r)\<rparr> else None
     | _ \<Rightarrow> None) ls"

definition answer_lines :: "string \<Rightarrow> string list list" where
  "answer_lines output = map (\<lambda>l. split_on (CHR 0x09) (rstrip_by (\<lambda>c. c = carriage) l)) (py_splitlines output)"

record cleanup_report =
  cr_removed :: "(nat \<times> string) list"
  cr_skipped :: "skipped_entry list"

definition clean_device ::
    "cleanup_env \<Rightarrow> (nat \<times> string) list \<Rightarrow> cleanup_kind \<Rightarrow> (host \<times> nat list) option \<Rightarrow> cleanup_target list \<Rightarrow> calls \<Rightarrow> cleanup_report \<times> calls" where
  "clean_device e locations k found ts tr =
     (case found of
        None \<Rightarrow> (\<lparr>cr_removed = [], cr_skipped = map (\<lambda>t. skip t Device_gone) ts\<rparr>, tr)
      | Some (h, assigned) \<Rightarrow>
          if \<not> ho_enabled h then (\<lparr>cr_removed = [], cr_skipped = map (\<lambda>t. skip t Device_disabled) ts\<rparr>, tr)
          else (case safe_values e locations k h assigned ts tr of ((ns, sk), tr1) \<Rightarrow>
            if ns = [] then (\<lparr>cr_removed = [], cr_skipped = sk\<rparr>, tr1)
            else (case run_call e h (delete_call k ns) tr1 of
                (None, tr2) \<Rightarrow> (\<lparr>cr_removed = [], cr_skipped = sk @ map (\<lambda>n. \<lparr>sk_host = int (ho_id h), sk_name = n, sk_reason = Command_failed\<rparr>) ns\<rparr>, tr2)
              | (Some output, tr2) \<Rightarrow>
                  (\<lparr>cr_removed = removed_lines (ho_id h) (answer_lines output),
                    cr_skipped = sk @ skipped_lines (ho_id h) (answer_lines output)\<rparr>, tr2))))"

fun first_hosts :: "cleanup_target list \<Rightarrow> int list \<Rightarrow> int list" where
  "first_hosts [] seen = []"
| "first_hosts (t # ts) seen =
     (if tg_host t \<in> set seen then first_hosts ts seen else tg_host t # first_hosts ts (tg_host t # seen))"

fun clean_devices ::
    "cleanup_env \<Rightarrow> (nat \<times> string) list \<Rightarrow> cleanup_kind \<Rightarrow> (host \<times> nat list) list \<Rightarrow> cleanup_target list \<Rightarrow> int list \<Rightarrow> calls \<Rightarrow>
     cleanup_report \<times> calls" where
  "clean_devices e locations k assignments ts [] tr = (\<lparr>cr_removed = [], cr_skipped = []\<rparr>, tr)"
| "clean_devices e locations k assignments ts (i # is) tr =
     (case clean_device e locations k (find (\<lambda>(h, a). int (ho_id h) = i) assignments) (filter (\<lambda>t. tg_host t = i) ts) tr of
        (r1, tr1) \<Rightarrow> (case clean_devices e locations k assignments ts is tr1 of (r2, tr2) \<Rightarrow>
          (\<lparr>cr_removed = cr_removed r1 @ cr_removed r2, cr_skipped = cr_skipped r1 @ cr_skipped r2\<rparr>, tr2)))"

datatype cleanup_error = Unknown_kind | Nothing_selected | Bad_selection | Runs_pending | Backup_pending

definition cleanup_client_borg_caches ::
    "cleanup_env \<Rightarrow> string \<Rightarrow> cache_cleanup_target list \<Rightarrow> manager_db \<Rightarrow> backup_tasks \<Rightarrow> calls \<Rightarrow>
     (cleanup_error, cleanup_report \<times> scan_report) result \<times> calls" where
  "cleanup_client_borg_caches e kind requested db tasks tr =
     (case kind_of kind of None \<Rightarrow> (Inl Unknown_kind, tr)
      | Some k \<Rightarrow>
          let ts = map (target_of k) requested; is = first_hosts ts [] in
          if ts = [] then (Inl Nothing_selected, tr)
          else if \<not> list_all (valid_target k) ts then (Inl Bad_selection, tr)
          else if k = Reset_cache \<and> runs_pending db then (Inl Runs_pending, tr)
          else if k = Reset_cache \<and> (case current_task False tasks of None \<Rightarrow> False | Some t \<Rightarrow> task_active (bt_status t))
          then (Inl Backup_pending, tr)
          else (case clean_devices e (if k \<in> {Delete_orphan, Delete_rollback} then [] else repository_locations db) k
                (host_cache_assignments is db) ts is tr of (r, tr1) \<Rightarrow>
            case scan_client_borg_caches e (sort is) db tr1 of (sn, tr2) \<Rightarrow> (Inr (r, sn), tr2)))"

end
