(* ===== verification/ClientProperties.thy ===== *)
theory ClientProperties
  imports ClientScripts ClientCleanup
begin

text \<open>
  What holds of scanning and cleaning the caches of devices: entries confirmed by a cache in use are never offered for
  deletion, only what the last scan released is sent, and a device loses only the paths that were named.
\<close>

section \<open>Security entries stay protected\<close>

text \<open>Only directories come with a location, as the script prints them.\<close>

definition directories_have_locations :: "raw_directory list \<Rightarrow> bool" where
  "directories_have_locations rs \<longleftrightarrow> list_all (\<lambda>r. rd_type r = ''DIR'' \<or> rd_location r = None) rs"

definition security_shape :: "scan_context \<Rightarrow> scan_entry \<Rightarrow> bool" where
  "security_shape cx x \<longleftrightarrow> sc_type x = Security_entry \<and>
     (sc_name x \<in> set (cx_active cx) \<longrightarrow> \<not> sc_selectable x \<and> (sc_kind x = Security_active \<or> sc_location x = None))"

lemma security_entry_type [simp]: "sc_type (security_entry cx r) = Security_entry"
  by (simp add: security_entry_def plain_entry_def Let_def)

lemma security_entry_shape:
  "list_all valid_borg_id (cx_active cx) \<Longrightarrow> rd_type r = ''DIR'' \<or> rd_location r = None \<Longrightarrow> security_shape cx (security_entry cx r)"
  by (auto simp: security_shape_def security_entry_def plain_entry_def Let_def list_all_iff)

lemma mark_group_shape:
  assumes "list_all (security_shape cx) xs"
  shows "list_all (security_shape cx) (mark_group cx l xs)"
proof -
  have m: "security_shape cx x \<Longrightarrow> security_shape cx (x\<lparr>sc_duplicate := d\<rparr>)" for x d
    by (simp add: security_shape_def)
  have o1: "security_shape cx x \<Longrightarrow> in_group l x \<Longrightarrow> security_shape cx (older_duplicate cx x)" for x
    by (auto simp: security_shape_def older_duplicate_def in_group_def)
  show ?thesis using assms m o1 by (auto simp: mark_group_def Let_def list_all_iff)
qed

lemma mark_duplicates_shape:
  assumes "list_all (security_shape cx) xs"
  shows "list_all (security_shape cx) (mark_duplicates cx xs)"
proof -
  have "list_all (security_shape cx) (fold (mark_group cx) ls xs)" if "list_all (security_shape cx) xs" for ls xs
    using that by (induction ls arbitrary: xs) (simp_all add: mark_group_shape)
  then show ?thesis using assms by (simp add: mark_duplicates_def)
qed

text \<open>Every repository id the lines name has the form of one.\<close>

lemma dict_set_values: "set (map snd (dict_set k v d)) \<subseteq> insert v (set (map snd d))"
  by (induction k v d rule: dict_set.induct) auto

lemma scan_line_ids:
  assumes "list_all valid_borg_id (map snd (sp_ids s))"
  shows "list_all valid_borg_id (map snd (sp_ids (scan_line stamp assigned l s)))"
proof -
  have d: "list_all valid_borg_id (map snd (dict_set a b (sp_ids s)))" if "valid_borg_id b" for a b
    using assms that dict_set_values [of a b "sp_ids s"] by (force simp: list_all_iff)
  show ?thesis using assms d by (simp add: scan_line_def split: list.splits)
qed

lemma scan_parts_ids: "list_all valid_borg_id (map snd (sp_ids (scan_parts_of stamp assigned out)))"
proof -
  have "list_all valid_borg_id (map snd (sp_ids (fold (scan_line stamp assigned) ls s)))"
    if "list_all valid_borg_id (map snd (sp_ids s))" for ls s
    using that by (induction ls arbitrary: s) (auto simp: scan_line_ids)
  then show ?thesis by (simp add: scan_parts_of_def)
qed

lemma active_ids_valid: "list_all valid_borg_id (active_borg_ids assigned (sp_ids (scan_parts_of stamp assigned' out)))"
  using scan_parts_ids [of stamp assigned' out] by (auto simp: active_borg_ids_def list_all_iff)

text \<open>The other entries are of other types.\<close>

lemma cache_entry_type [simp]: "sc_type (cache_entry assigned n b p) = Cache_entry"
  by (simp add: cache_entry_def plain_entry_def Let_def split: option.splits)

lemma scan_line_entries:
  assumes "list_all P (sp_entries s)" "\<And>n b p. P (cache_entry assigned n b p)"
  shows "list_all P (sp_entries (scan_line stamp assigned l s))"
  using assms by (simp add: scan_line_def split: list.splits)

lemma scan_parts_entries:
  assumes "\<And>n b p. P (cache_entry assigned n b p)"
  shows "list_all P (sp_entries (scan_parts_of stamp assigned out))"
proof -
  have "list_all P (sp_entries (fold (scan_line stamp assigned) ls s))" if "list_all P (sp_entries s)" for ls s
    using that by (induction ls arbitrary: s) (auto intro: scan_line_entries assms)
  then show ?thesis by (simp add: scan_parts_of_def)
qed

lemma user_cache_entry_type [simp]: "sc_type (user_cache_entry cx security r) = User_cache_entry"
  by (simp add: user_cache_entry_def plain_entry_def Let_def split: prod.split)

text \<open>A security directory whose id the cache of an assigned repository names is never selectable.\<close>

definition confirmed_ids :: "nat list \<Rightarrow> (string \<Rightarrow> time option) \<Rightarrow> string \<Rightarrow> string list" where
  "confirmed_ids assigned stamp out = active_borg_ids assigned (sp_ids (scan_parts_of stamp assigned out))"

lemma confirmed_not_selectable:
  assumes parsed: "parse_scan_output stamp out assigned al kl = Some es"
    and honest: "directories_have_locations (sp_security (scan_parts_of stamp assigned out))"
    and x: "x \<in> set es" "sc_type x = Security_entry" "sc_name x \<in> set (confirmed_ids assigned stamp out)"
  shows "\<not> sc_selectable x"
proof -
  define s where "s = scan_parts_of stamp assigned out"
  define cx where "cx = scan_context_of assigned al kl s"
  have es: "es = map (with_borg_id (sp_ids s)) (sp_entries s) @
      map (user_cache_entry cx (mark_duplicates cx (map (security_entry cx) (sp_security s)))) (sp_user s) @
      mark_duplicates cx (map (security_entry cx) (sp_security s))"
    using parsed by (simp add: parse_scan_output_def s_def cx_def Let_def split: if_splits)
  have w: "sc_type (with_borg_id ids y) = sc_type y" for ids y
    by (simp add: with_borg_id_def split: option.splits)
  have caches: "\<forall>y\<in>set (sp_entries s). sc_type y = Cache_entry"
    using scan_parts_entries [of "\<lambda>y. sc_type y = Cache_entry" assigned stamp out] by (simp add: s_def list_all_iff)
  have a: "cx_active cx = confirmed_ids assigned stamp out"
    by (simp add: cx_def scan_context_of_def confirmed_ids_def s_def)
  have "list_all (security_shape cx) (map (security_entry cx) (sp_security s))"
    using honest active_ids_valid [of assigned stamp assigned out]
    by (auto simp: list_all_iff directories_have_locations_def s_def a confirmed_ids_def intro!: security_entry_shape)
  then have sh: "list_all (security_shape cx) (mark_duplicates cx (map (security_entry cx) (sp_security s)))"
    by (rule mark_duplicates_shape)
  have "x \<in> set (mark_duplicates cx (map (security_entry cx) (sp_security s)))"
    using x(1,2) caches by (auto simp: es w)
  then show ?thesis using sh x(3) by (simp add: list_all_iff security_shape_def a)
qed

section \<open>What may be deleted\<close>

text \<open>The output and the entries of the scan of the same device that ran just before.\<close>

definition found_before :: "cleanup_env \<Rightarrow> manager_db \<Rightarrow> calls \<Rightarrow> nat \<Rightarrow> (string \<times> scan_entry list) option" where
  "found_before e db tr i =
     (let h = fst (tr ! i); a = assigned_repositories db h; ls = repository_locations db in
      if i = 0 \<or> tr ! (i - 1) \<noteq> (h, Scan_call) then None
      else case call_answer e (i - 1) h Scan_call of None \<Rightarrow> None
      | Some out \<Rightarrow> map_option (\<lambda>es. (out, es)) (parse_scan_output (cl_stamp e) out a (locations_of ls a) (map snd ls)))"

definition security_released :: "cleanup_env \<Rightarrow> nat list \<Rightarrow> cleanup_kind \<Rightarrow> string \<times> scan_entry list \<Rightarrow> string \<Rightarrow> bool" where
  "security_released e assigned k found n \<longleftrightarrow>
     (\<exists>x\<in>set (snd found). sc_type x = Security_entry \<and> sc_name x = n \<and> sc_kind x \<in> set (allowed_kinds k) \<and> sc_selectable x) \<and>
     (directories_have_locations (sp_security (scan_parts_of (cl_stamp e) assigned (fst found))) \<longrightarrow>
        n \<notin> set (confirmed_ids assigned (cl_stamp e) (fst found)))"

definition legacy_released :: "string \<times> scan_entry list \<Rightarrow> string \<Rightarrow> bool" where
  "legacy_released found n \<longleftrightarrow>
     (\<exists>x\<in>set (snd found). sc_type x = User_cache_entry \<and> n \<in> {or_empty (sc_path x), sc_name x} \<and> sc_selectable x)"

definition cache_released :: "manager_db \<Rightarrow> cleanup_kind \<Rightarrow> host \<Rightarrow> string \<Rightarrow> bool" where
  "cache_released db k h n \<longleftrightarrow>
     (case client_cache_name n of
        None \<Rightarrow> k = Delete_rollback \<and> rollback_name n \<noteq> None
      | Some i \<Rightarrow> (k = Delete_orphan \<and> i \<notin> set (assigned_repositories db h)) \<or>
          (k = Reset_cache \<and> i \<in> set (assigned_repositories db h) \<and> \<not> runs_pending db) \<or>
          (k = Delete_rollback \<and> rollback_name n \<noteq> None))"

definition released :: "cleanup_env \<Rightarrow> manager_db \<Rightarrow> cleanup_kind \<Rightarrow> calls \<Rightarrow> nat \<Rightarrow> bool" where
  "released e db k tr i =
     (case tr ! i of (h, c) \<Rightarrow> (case c of
        Scan_call \<Rightarrow> True
      | Delete_caches ns \<Rightarrow> list_all (cache_released db k h) ns
      | Delete_security ns \<Rightarrow>
          (case found_before e db tr i of None \<Rightarrow> False
           | Some f \<Rightarrow> list_all (security_released e (assigned_repositories db h) k f) ns)
      | Delete_legacy ns \<Rightarrow>
          (case found_before e db tr i of None \<Rightarrow> False | Some f \<Rightarrow> list_all (legacy_released f) ns)))"

definition all_released :: "cleanup_env \<Rightarrow> manager_db \<Rightarrow> cleanup_kind \<Rightarrow> calls \<Rightarrow> bool" where
  "all_released e db k tr \<longleftrightarrow> (\<forall>i < length tr. released e db k tr i)"

lemma released_append: "i < length tr \<Longrightarrow> released e db k (tr @ us) i = released e db k tr i"
  by (auto simp: released_def found_before_def nth_append Let_def split: prod.splits script_call.splits)

lemma all_released_snoc:
  "all_released e db k (tr @ [(h, c)]) \<longleftrightarrow> all_released e db k tr \<and> released e db k (tr @ [(h, c)]) (length tr)"
  by (auto simp: all_released_def less_Suc_eq released_append)

lemma scan_released: "released e db k (tr @ [(h, Scan_call)]) (length tr)"
  by (simp add: released_def)

lemma scan_host_released:
  assumes "scan_host e ls h a tr = (r, tr')" "all_released e db k tr"
  shows "all_released e db k tr'"
  using assms by (auto simp: scan_host_def run_call_def all_released_snoc scan_released split: option.splits sum.splits)

lemma scan_devices_released:
  "scan_devices e ls hs tr = (ds, tr') \<Longrightarrow> all_released e db k tr \<Longrightarrow> all_released e db k tr'"
  by (induction e ls hs tr arbitrary: ds tr' rule: scan_devices.induct)
    (auto split: prod.splits if_splits dest!: scan_host_released)

lemma split_values_from: "split_values f ts = (ns, sk) \<Longrightarrow> n \<in> set ns \<Longrightarrow> \<exists>t\<in>set ts. f t = Inr n"
  by (induction ts arbitrary: ns sk) (auto split: prod.splits sum.splits)

lemma assigned_of: "(h, a) \<in> set (host_cache_assignments is db) \<Longrightarrow> a = assigned_repositories db h"
  by (auto simp: host_cache_assignments_def Let_def)

lemma the_only_in: "the_only (filter P xs) = Some x \<Longrightarrow> x \<in> set xs \<and> P x"
proof -
  assume "the_only (filter P xs) = Some x"
  then have "filter P xs = [x]" by (simp add: the_only_def split: list.splits)
  then have "x \<in> set (filter P xs)" by simp
  then show ?thesis by simp
qed

text \<open>The scan that is the last call so far.\<close>

lemma scan_host_found:
  assumes "scan_host e (repository_locations db) h (assigned_repositories db h) tr = (Some es, tr')"
  obtains out where "tr' = tr @ [(h, Scan_call)]" "\<And>c. found_before e db (tr' @ [(h, c)]) (length tr') = Some (out, es)"
    "parse_scan_output (cl_stamp e) out (assigned_repositories db h)
       (locations_of (repository_locations db) (assigned_repositories db h)) (map snd (repository_locations db)) = Some es"
proof -
  obtain out where o1: "call_answer e (length tr) h Scan_call = Some out"
    "parse_scan_output (cl_stamp e) out (assigned_repositories db h)
       (locations_of (repository_locations db) (assigned_repositories db h)) (map snd (repository_locations db)) = Some es"
    "tr' = (case call_command (cl_runtime e) (cl_vault e) h Scan_call of Inl _ \<Rightarrow> tr | Inr _ \<Rightarrow> tr @ [(h, Scan_call)])"
    using assms by (auto simp: scan_host_def run_call_def split: option.splits)
  then have t: "tr' = tr @ [(h, Scan_call)]" by (auto simp: call_answer_def split: sum.splits)
  have "found_before e db (tr' @ [(h, c)]) (length tr') = Some (out, es)" for c
    using o1(1,2) by (simp add: t found_before_def Let_def nth_append)
  then show thesis using that [OF t _ o1(2)] by blast
qed

lemma unchecked_released:
  assumes "valid_target k t" "k \<in> {Delete_orphan, Delete_rollback}"
    "unchecked_value k (assigned_repositories db h) t = Inr n"
  shows "cache_released db k h n"
  using assms by (auto simp: unchecked_value_def valid_target_def cache_released_def split: option.splits if_splits)

text \<open>An active cache is that of an assigned repository.\<close>

definition active_shape :: "scan_entry \<Rightarrow> bool" where
  "active_shape x \<longleftrightarrow> (sc_kind x = Cache_active \<longrightarrow> client_cache_name (sc_name x) = sc_repository x)"

lemma cache_entry_active: "active_shape (cache_entry assigned n b p)"
  by (simp add: active_shape_def cache_entry_def plain_entry_def Let_def split: option.splits)

lemma mark_group_type: "list_all (\<lambda>x. sc_type x = Security_entry) xs \<Longrightarrow>
    list_all (\<lambda>x. sc_type x = Security_entry) (mark_group cx l xs)"
  by (auto simp: mark_group_def Let_def list_all_iff older_duplicate_def)

lemma mark_duplicates_type: "list_all (\<lambda>x. sc_type x = Security_entry) xs \<Longrightarrow>
    list_all (\<lambda>x. sc_type x = Security_entry) (mark_duplicates cx xs)"
proof -
  have "list_all (\<lambda>x. sc_type x = Security_entry) (fold (mark_group cx) ls xs)"
    if "list_all (\<lambda>x. sc_type x = Security_entry) xs" for ls xs
    using that by (induction ls arbitrary: xs) (simp_all add: mark_group_type)
  then show "list_all (\<lambda>x. sc_type x = Security_entry) xs \<Longrightarrow> ?thesis" by (simp add: mark_duplicates_def)
qed

lemma parsed_active:
  assumes "parse_scan_output stamp out assigned al kl = Some es" "x \<in> set es" "sc_type x = Cache_entry"
  shows "active_shape x"
proof -
  have w: "active_shape y \<Longrightarrow> active_shape (with_borg_id ids y)" for ids y
    by (simp add: with_borg_id_def active_shape_def split: option.splits)
  have e: "\<forall>y\<in>set (sp_entries (scan_parts_of stamp assigned out)). active_shape y"
    using scan_parts_entries [of active_shape assigned stamp out, OF cache_entry_active] by (simp add: list_all_iff)
  have m: "\<forall>y\<in>set (mark_duplicates cx (map (security_entry cx) rs)). sc_type y = Security_entry" for cx rs
    using mark_duplicates_type [of "map (security_entry cx) rs" cx] by (simp add: list_all_iff)
  show ?thesis
    using assms(1) assms(2,3) w e by (auto simp: parse_scan_output_def Let_def split: if_splits dest!: bspec [OF m])
qed

lemma reset_released:
  assumes "valid_target Reset_cache t" "\<not> runs_pending db"
    "reset_value (assigned_repositories db h) es t = Inr n"
    "parse_scan_output stamp out (assigned_repositories db h) al kl = Some es"
  shows "cache_released db Reset_cache h n"
proof -
  obtain x i where x: "the_only (filter (\<lambda>x. sc_type x = Cache_entry \<and> sc_kind x = Cache_active \<and> sc_name x = tg_name t) es) = Some x"
    "sc_repository x = Some i" "i \<in> set (assigned_repositories db h)" "n = tg_name t"
    using assms(3) by (auto simp: reset_value_def split: option.splits if_splits)
  have "active_shape x" using parsed_active [OF assms(4)] the_only_in [OF x(1)] by blast
  then show ?thesis using the_only_in [OF x(1)] x assms(2) by (auto simp: active_shape_def cache_released_def)
qed

lemma checked_released:
  assumes "checked_value k es t = Inr n"
    "parse_scan_output (cl_stamp e) out assigned al kl = Some es"
  shows "k = Delete_user_cache \<Longrightarrow> legacy_released (out, es) n"
    and "k \<noteq> Delete_user_cache \<Longrightarrow> security_released e assigned k (out, es) n"
proof -
  obtain x where x: "the_only (filter (same_entry k t) es) = Some x" "sc_kind x \<in> set (allowed_kinds k)" "sc_selectable x"
    "n = (if k = Delete_user_cache \<and> truthy (sc_path x) then or_empty (sc_path x) else if k = Delete_user_cache then sc_name x else tg_name t)"
    using assms(1) by (auto simp: checked_value_def split: option.splits if_splits)
  have in_es: "x \<in> set es" "same_entry k t x" using the_only_in [OF x(1)] by auto
  show "legacy_released (out, es) n" if "k = Delete_user_cache"
    using in_es x that by (auto simp: legacy_released_def same_entry_def split: if_splits)
  show "security_released e assigned k (out, es) n" if "k \<noteq> Delete_user_cache"
    using in_es x that confirmed_not_selectable [OF assms(2)] by (auto simp: security_released_def same_entry_def)
qed

lemma run_call_released:
  assumes "run_call e h c tr = (r, tr')" "all_released e db k tr" "released e db k (tr @ [(h, c)]) (length tr)"
  shows "all_released e db k tr'"
  using assms by (auto simp: run_call_def all_released_snoc split: sum.splits)

lemma safe_values_released:
  assumes "safe_values e locations k h a ts tr = ((ns, sk), tr')" "all_released e db k tr"
    "locations = (if k \<in> {Delete_orphan, Delete_rollback} then [] else repository_locations db)"
    "a = assigned_repositories db h" "list_all (valid_target k) ts" "k = Reset_cache \<Longrightarrow> \<not> runs_pending db"
  shows "all_released e db k tr' \<and> (ns \<noteq> [] \<longrightarrow> released e db k (tr' @ [(h, delete_call k ns)]) (length tr'))"
proof (cases "k \<in> {Delete_orphan, Delete_rollback}")
  case True
  then have "list_all (cache_released db k h) ns"
    using assms by (auto simp: safe_values_def list_all_iff dest!: split_values_from intro: unchecked_released)
  then show ?thesis using True assms(1,2) by (auto simp: safe_values_def delete_call_def released_def)
next
  case False
  have ls: "locations = repository_locations db" using False assms(3) by auto
  show ?thesis
  proof (cases "scan_host e locations h a tr")
    case (Pair r t1)
    have rel: "all_released e db k t1" using scan_host_released [OF Pair assms(2)] .
    show ?thesis
    proof (cases r)
      case None
      then show ?thesis using False assms(1) Pair rel by (auto simp: safe_values_def)
    next
      case (Some es)
      obtain out where f: "\<And>c. found_before e db (t1 @ [(h, c)]) (length t1) = Some (out, es)"
        "parse_scan_output (cl_stamp e) out (assigned_repositories db h)
           (locations_of (repository_locations db) (assigned_repositories db h)) (map snd (repository_locations db)) = Some es"
        using scan_host_found [of e db h tr es t1] Pair Some by (metis ls assms(4))
      have s: "split_values (if k = Reset_cache then reset_value a es else checked_value k es) ts = (ns, sk)" "tr' = t1"
        using False assms(1) Pair Some by (auto simp: safe_values_def)
      have "released e db k (t1 @ [(h, delete_call k ns)]) (length t1)"
      proof (cases "k = Reset_cache")
        case True
        then have "list_all (cache_released db k h) ns"
          using s(1) assms(4,5,6) f(2) by (auto simp: list_all_iff dest!: split_values_from intro: reset_released)
        then show ?thesis using True by (simp add: delete_call_def released_def)
      next
        case not_reset: False
        then have origin: "\<forall>n\<in>set ns. \<exists>t. checked_value k es t = Inr n" using s(1) split_values_from by fastforce
        show ?thesis
        proof (cases "k = Delete_user_cache")
          case True
          then show ?thesis using origin checked_released(1) [OF _ f(2)]
            by (auto simp: delete_call_def released_def f(1) list_all_iff)
        next
          case other: False
          then have "delete_call k ns = Delete_security ns" using False not_reset by (cases k) (auto simp: delete_call_def)
          then show ?thesis using origin checked_released(2) [OF _ f(2)] other
            by (auto simp: released_def f(1) list_all_iff)
        qed
      qed
      then show ?thesis using rel s(2) by simp
    qed
  qed
qed

lemma clean_device_released:
  assumes "clean_device e locations k found ts tr = (r, tr')" "all_released e db k tr"
    "locations = (if k \<in> {Delete_orphan, Delete_rollback} then [] else repository_locations db)"
    "\<And>h a. found = Some (h, a) \<Longrightarrow> a = assigned_repositories db h" "list_all (valid_target k) ts"
    "k = Reset_cache \<Longrightarrow> \<not> runs_pending db"
  shows "all_released e db k tr'"
proof (cases found)
  case None
  then show ?thesis using assms(1,2) by (simp add: clean_device_def)
next
  case (Some ha)
  obtain h a where ha: "ha = (h, a)" by (cases ha)
  obtain ns sk t1 where sv: "safe_values e locations k h a ts tr = ((ns, sk), t1)" by (metis prod.exhaust)
  have rel: "all_released e db k t1" "ns \<noteq> [] \<longrightarrow> released e db k (t1 @ [(h, delete_call k ns)]) (length t1)"
    using safe_values_released [OF sv assms(2,3) _ assms(5,6)] assms(4) Some ha by auto
  show ?thesis
    using assms(1,2) Some ha sv rel
    by (auto simp: clean_device_def split: if_splits option.splits prod.splits dest!: run_call_released [OF _ rel(1)])
qed

lemma clean_devices_released:
  assumes "locations = (if k \<in> {Delete_orphan, Delete_rollback} then [] else repository_locations db)"
    "list_all (valid_target k) ts" "k = Reset_cache \<Longrightarrow> \<not> runs_pending db"
    "\<And>h a. (h, a) \<in> set assignments \<Longrightarrow> a = assigned_repositories db h"
  shows "clean_devices e locations k assignments ts is tr = (r, tr') \<Longrightarrow> all_released e db k tr \<Longrightarrow> all_released e db k tr'"
proof (induction "is" arbitrary: tr r)
  case Nil
  then show ?case by simp
next
  case (Cons i rest)
  obtain r1 t1 r2 where c: "clean_device e locations k (find (\<lambda>(h, a). int (ho_id h) = i) assignments) (filter (\<lambda>t. tg_host t = i) ts) tr = (r1, t1)"
    "clean_devices e locations k assignments ts rest t1 = (r2, tr')"
    using Cons.prems(1) by (auto split: prod.splits)
  have a: "a = assigned_repositories db h" if "find (\<lambda>(h, a). int (ho_id h) = i) assignments = Some (h, a)" for h a
    using that assms(4) by (auto simp: find_Some_iff) (metis nth_mem)
  have v: "list_all (valid_target k) (filter (\<lambda>t. tg_host t = i) ts)" using assms(2) by (auto simp: list_all_iff)
  have "all_released e db k t1" by (rule clean_device_released [OF c(1) Cons.prems(2) assms(1) a v assms(3)])
  then show ?case using Cons.IH [OF c(2)] by blast
qed

lemma cleanup_released:
  assumes "cleanup_client_borg_caches e kind requested db tasks [] = (res, calls)"
  shows "case kind_of kind of None \<Rightarrow> calls = [] | Some k \<Rightarrow> all_released e db k calls"
proof (cases "kind_of kind")
  case None
  then show ?thesis using assms by (simp add: cleanup_client_borg_caches_def)
next
  case (Some k)
  have start: "all_released e db k []" by (simp add: all_released_def)
  show ?thesis
  proof (cases "calls = []")
    case True
    then show ?thesis using Some start by simp
  next
    case False
    define ts where "ts = map (target_of k) requested"
    have ok: "list_all (valid_target k) ts" "\<not> (k = Reset_cache \<and> runs_pending db)"
      using assms Some False by (auto simp: cleanup_client_borg_caches_def ts_def Let_def split: if_splits)
    obtain r t1 sn where c: "clean_devices e (if k \<in> {Delete_orphan, Delete_rollback} then [] else repository_locations db) k
        (host_cache_assignments (first_hosts ts []) db) ts (first_hosts ts []) [] = (r, t1)"
      "scan_client_borg_caches e (sort (first_hosts ts [])) db t1 = (sn, calls)"
      using assms Some False by (auto simp: cleanup_client_borg_caches_def ts_def [symmetric] Let_def split: if_splits prod.splits)
    have "all_released e db k t1"
      by (rule clean_devices_released [OF refl ok(1) _ assigned_of c(1) start]) (use ok(2) in auto)
    then have "all_released e db k calls" using c(2)
      by (auto simp: scan_client_borg_caches_def Let_def split: prod.splits dest!: scan_devices_released)
    then show ?thesis using Some by simp
  qed
qed
section \<open>What a device loses\<close>

fun run_script :: "script_call \<Rightarrow> shell_device \<Rightarrow> script_result" where
  "run_script Scan_call v = (v, 0, scan_script v)"
| "run_script (Delete_caches ns) v = cache_cleanup_script ns v"
| "run_script (Delete_security ns) v = security_cleanup_script ns v"
| "run_script (Delete_legacy ns) v = user_cache_cleanup_script ns v"

definition paths_below :: "string option \<Rightarrow> (string \<Rightarrow> bool) \<Rightarrow> string list \<Rightarrow> string list" where
  "paths_below base ok ns = (case base of None \<Rightarrow> [] | Some b \<Rightarrow> map (below b) (filter ok ns))"

definition legacy_path :: "shell_device \<Rightarrow> string \<Rightarrow> string" where
  "legacy_path v n = (if starts_with ''/'' n then n else home_dir v @ ''/.cache/borg/'' @ n)"

definition legacy_target :: "shell_device \<Rightarrow> string \<Rightarrow> bool" where
  "legacy_target v p \<longleftrightarrow> parent_name p \<in> set (legacy_bases v) \<and> base_name p \<notin> {[], ''.'', ''..'', ''CACHEDIR.TAG'', ''cachedir.tag''}"

text \<open>The paths a call names on a device.\<close>

fun call_targets :: "script_call \<Rightarrow> shell_device \<Rightarrow> string list" where
  "call_targets Scan_call v = []"
| "call_targets (Delete_caches ns) v =
     paths_below (own_cache_base v) (\<lambda>n. case_match cache_pattern n \<or> case_match rollback_pattern n) ns"
| "call_targets (Delete_security ns) v = paths_below (own_security_base v) (\<lambda>n. hex_text n \<and> length n = 64) ns"
| "call_targets (Delete_legacy ns) v = filter (legacy_target v) (map (legacy_path v) ns)"

text \<open>The environment stays, and a file that changed is gone with the named path it lies in, which was there and is no link.\<close>

definition may_lose :: "string list \<Rightarrow> shell_device \<Rightarrow> string \<Rightarrow> bool" where
  "may_lose qs v p \<longleftrightarrow> (\<exists>q\<in>set qs. (p = q \<or> starts_with (q @ ''/'') p) \<and> test_e (sd_file v q) \<and> \<not> test_l (sd_file v q))"

definition loses_only :: "string list \<Rightarrow> shell_device \<Rightarrow> shell_device \<Rightarrow> bool" where
  "loses_only qs v w \<longleftrightarrow> w = v\<lparr>sd_file := sd_file w\<rparr> \<and>
     (\<forall>p. sd_file w p = sd_file v p \<or> (sd_file w p = None \<and> may_lose qs v p))"

lemma loses_nothing [simp]: "loses_only qs v v"
  by (simp add: loses_only_def)

lemma loses_one: "q \<in> set qs \<Longrightarrow> test_e (sd_file v q) \<Longrightarrow> \<not> test_l (sd_file v q) \<Longrightarrow> loses_only qs v (without_file q v)"
  by (auto simp: loses_only_def without_file_def may_lose_def)

lemma loses_trans:
  assumes "loses_only qs u v" "loses_only qs v w"
  shows "loses_only qs u w"
proof -
  have env: "v = u\<lparr>sd_file := sd_file v\<rparr>" "w = v\<lparr>sd_file := sd_file w\<rparr>" using assms by (auto simp: loses_only_def)
  have v: "sd_file v p = sd_file u p \<or> (sd_file v p = None \<and> may_lose qs u p)" for p
    using assms(1) by (auto simp: loses_only_def)
  have same: "sd_file u q = sd_file v q" if "test_e (sd_file v q)" for q
    using v [of q] that by auto
  have "may_lose qs v p \<Longrightarrow> may_lose qs u p" for p
    unfolding may_lose_def using same by metis
  then have "sd_file w p = sd_file u p \<or> (sd_file w p = None \<and> may_lose qs u p)" for p
    using v [of p] assms(2) unfolding loses_only_def by metis
  moreover have "w = u\<lparr>sd_file := sd_file w\<rparr>" by (subst env(2), subst env(1)) simp
  ultimately show ?thesis by (simp add: loses_only_def)
qed

lemma for_each_loses:
  assumes "\<And>n u w l. n \<in> set ns \<Longrightarrow> loses_only qs v u \<Longrightarrow> step n u = (w, l) \<Longrightarrow> loses_only qs u w"
  shows "loses_only qs v u \<Longrightarrow> for_each step ns u = (w, ls) \<Longrightarrow> loses_only qs v w"
  using assms
proof (induction ns arbitrary: u ls)
  case Nil
  then show ?case by simp
next
  case (Cons n ns)
  obtain u1 l ls' where s: "step n u = (u1, l)" "for_each step ns u1 = (w, ls')"
    using Cons.prems(2) by (auto split: prod.splits)
  have one: "loses_only qs u u1" by (rule Cons.prems(3) [OF _ Cons.prems(1) s(1)]) simp
  show ?case
    by (rule Cons.IH [OF loses_trans [OF Cons.prems(1) one] s(2)]) (rule Cons.prems(3), auto)
qed

lemma delete_directory_loses:
  "delete_directory refusal n p u = (w, l) \<Longrightarrow> refusal = None \<Longrightarrow> p \<in> set qs \<Longrightarrow> loses_only qs u w"
  by (auto simp: delete_directory_def loses_one split: if_splits)

lemma delete_directory_refused: "delete_directory (Some r) n p u = (w, l) \<Longrightarrow> w = u"
  by (simp add: delete_directory_def)

lemma run_for_each_loses:
  assumes "\<And>b n u w l. base = Some b \<Longrightarrow> n \<in> set ns \<Longrightarrow> loses_only qs v u \<Longrightarrow> step b n u = (w, l) \<Longrightarrow> loses_only qs u w"
    "run_for_each base header step ns v = (w, code, out)"
  shows "loses_only qs v w"
proof (cases base)
  case None
  then show ?thesis using assms(2) by (simp add: run_for_each_def)
next
  case (Some b)
  obtain ls where "for_each (step b) ns v = (w, ls)"
    using assms(2) Some by (auto simp: run_for_each_def split: prod.splits)
  then show ?thesis using for_each_loses [where ns = ns and v = v and qs = qs and step = "step b" and u = v and w = w and ls = ls] assms(1) Some by auto
qed

lemma bases_of_files:
  "home_dir (v\<lparr>sd_file := f\<rparr>) = home_dir v" "legacy_bases (v\<lparr>sd_file := f\<rparr>) = legacy_bases v"
proof -
  show h: "home_dir (v\<lparr>sd_file := f\<rparr>) = home_dir v" by (simp add: home_dir_def)
  have k: "variable_or (v\<lparr>sd_file := f\<rparr>) = variable_or v" by (intro ext) (simp add: variable_or_def)
  have c: "cache_home (v\<lparr>sd_file := f\<rparr>) = cache_home v" by (simp add: cache_home_def h k)
  then have "add_legacy_base (v\<lparr>sd_file := f\<rparr>) = add_legacy_base v"
    by (intro ext) (simp add: add_legacy_base_def bbm_cache_base_def)
  moreover have "sd_passwd_home (v\<lparr>sd_file := f\<rparr>) = sd_passwd_home v" by simp
  ultimately show "legacy_bases (v\<lparr>sd_file := f\<rparr>) = legacy_bases v"
    unfolding legacy_bases_def by (simp only: h k c)
qed

lemma legacy_bases_env:
  assumes "loses_only qs v u"
  shows "legacy_bases u = legacy_bases v" "home_dir u = home_dir v"
proof -
  have u: "u = v\<lparr>sd_file := sd_file u\<rparr>" using assms unfolding loses_only_def by (rule conjunct1)
  show "legacy_bases u = legacy_bases v" "home_dir u = home_dir v" by (subst u, rule bases_of_files)+
qed

lemma delete_legacy_loses:
  assumes "delete_legacy (home_dir v) n u = (w, l)" "loses_only qs v u" "legacy_target v (legacy_path v n) \<Longrightarrow> legacy_path v n \<in> set qs"
  shows "loses_only qs u w"
proof (cases "w = u")
  case False
  note b = legacy_bases_env [OF assms(2)]
  have t: "(if starts_with ''/'' n then n else home_dir v @ ''/.cache/borg/'' @ n) = legacy_path v n" by (simp add: legacy_path_def)
  have "legacy_target v (legacy_path v n)" "w = without_file (legacy_path v n) u"
    "test_e (sd_file u (legacy_path v n))" "\<not> test_l (sd_file u (legacy_path v n))"
    using assms(1) False b unfolding delete_legacy_def t Let_def legacy_target_def by (auto split: if_splits)
  then show ?thesis using assms(3) loses_one by simp
qed simp

theorem devices_lose_only_named_paths:
  "case run_script c v of (w, code, out) \<Rightarrow> loses_only (call_targets c v) v w"
proof (cases "run_script c v")
  case (fields w code out)
  have dir: "loses_only qs u w"
    if "delete_directory (if P then None else Some r) n p u = (w, l)" "P \<Longrightarrow> p \<in> set qs" for P r n p u w l qs
    using that delete_directory_loses delete_directory_refused by (cases P) fastforce+
  have "loses_only (call_targets c v) v w"
  proof (cases c)
    case Scan_call
    then show ?thesis using fields by simp
  next
    case (Delete_caches ns)
    show ?thesis
      by (rule run_for_each_loses [OF _ fields [unfolded Delete_caches run_script.simps cache_cleanup_script_def]])
        (auto simp: Delete_caches delete_cache_def paths_below_def elim!: dir)
  next
    case (Delete_security ns)
    show ?thesis
      by (rule run_for_each_loses [OF _ fields [unfolded Delete_security run_script.simps security_cleanup_script_def]])
        (auto simp: Delete_security delete_security_def paths_below_def elim!: dir)
  next
    case (Delete_legacy ns)
    show ?thesis
      by (rule run_for_each_loses [OF _ fields [unfolded Delete_legacy run_script.simps user_cache_cleanup_script_def]])
        (auto simp: Delete_legacy intro: delete_legacy_loses)
  qed
  then show ?thesis using fields by simp
qed

end
