(* ===== verification/Spec2Isabelle.thy ===== *)
theory Spec2Isabelle
  imports Capacity Maintenance SettingsRequests JobRequests AccountRequests LoginGuard AccountOps
    Progress RestoreProgress BuilderFacts WarningCollector LogFilter RunLogs RunConclusion InventoryProperties MountProperties
    BackupProperties WebProperties ClientProperties
begin

text \<open>
  Verification library of the BorgBackup Manager, a web service that queues and runs Borg backups
  of many hosts into managed and external repositories.

  The program. \<open>src/app/main.py\<close> validates requests with the models of \<open>schemas.py\<close> and calls
  \<open>service.py\<close>, which stores runs in the database of \<open>models.py\<close>, lets one task per run wait for its
  turn in the queue, and continues a backup with prune and compact runs of the same maintenance
  chain. Whether a run may be queued depends on the state of its repository
  (\<open>repository_state.py\<close>), on the fill level of its file system (\<open>storage_guard.py\<close>), on archive
  mounts (\<open>archive_mounts.py\<close>) and on the location of external repositories
  (\<open>external_repository.py\<close>); \<open>schedules.py\<close> decides which jobs a cron schedule starts.
  \<open>runner.py\<close> builds the command of a run and executes it; its output passes the filters of
  \<open>borg_progress.py\<close> and \<open>borg_warnings.py\<close> into the log of \<open>run_logs.py\<close>. \<open>backups.py\<close> and
  \<open>client_cache.py\<close> save and restore the manager itself and the Borg caches of the devices. Accounts,
  sessions, two-factor codes, the login limiter and secrets live in a database of their own
  (\<open>security_store.py\<close>, \<open>two_factor.py\<close>), and \<open>security.py\<close> with \<open>request_security.py\<close> decides which
  account a request acts for.

  Theories and code. \<open>Prelude\<close> has Python's strings, dictionaries, results and rounding, \<open>Tables\<close> the
  tables of a database and JSON values, \<open>Regex\<close> the matcher for Python's patterns, \<open>Systems\<close> the two
  interfaces of transition systems, \<open>Model\<close> the rows of \<open>models.py\<close>.
  \<^item> \<open>Capacity\<close>: \<open>service.py\<close>, class \<open>_AdjustableCapacity\<close>, the semaphore whose limit changes while
    tasks wait; tasks are interleaved by the step relation \<open>cap_step\<close>.
  \<^item> \<open>StorageGuard\<close>, \<open>StorageMonitor\<close>, \<open>ArchiveMounts\<close>, \<open>ExternalLocation\<close>, \<open>RepositoryState\<close>,
    \<open>Schedules\<close>: the modules of these names; \<open>BorgVersion\<close> and \<open>BackupStats\<close>: \<open>borg_compat.py\<close> and
    \<open>backup_stats.py\<close>.
  \<^item> \<open>Chains\<close>, \<open>ExecPlan\<close>, \<open>PlanCorrect\<close>: \<open>service.py\<close>, the reservations of maintenance chains,
    \<open>_execution_plan\<close> and \<open>_claim_execution_turn\<close>, and what a plan guarantees.
  \<^item> \<open>RunQueue\<close>: the queue as the transition system \<open>queue_step\<close>. A step is the code between two awaits:
    submitting a run, entering execution, claiming a slot, starting an archive refresh, finishing,
    releasing a chain, or another request. Its state \<open>manager\<close> has the database, the reservations and
    the live tasks.
  \<^item> \<open>RunActions\<close>, \<open>Maintenance\<close>: \<open>queue_job_action\<close>, \<open>queue_repository_action\<close>, \<open>cancel_run\<close>,
    \<open>reset_managed_repository_state\<close> and their neighbours; manual chains and scheduled groups.
  \<^item> \<open>ShellWords\<close>, \<open>ShellScript\<close>, \<open>Payload\<close>, \<open>Commands\<close>, \<open>Builders\<close>, \<open>BuilderFacts\<close>: \<open>runner.py\<close>, how a
    command line is quoted and read back, the secrets on standard input, the scripts, and the
    builders of every action.
  \<^item> \<open>Execution\<close>, \<open>RunExecution\<close>, \<open>RunOutput\<close>, \<open>RunConclusion\<close>: \<open>execute\<close> of \<open>runner.py\<close> and
    \<open>_execute_run_inner\<close> of \<open>service.py\<close>: waiting and locks, the output chunk by chunk, and what is
    recorded at the end.
  \<^item> \<open>Streams\<close>, \<open>ItemLines\<close>, \<open>Progress\<close>, \<open>RestoreProgress\<close>, \<open>Warnings\<close>, \<open>WarningCollector\<close>, \<open>LogFilter\<close>,
    \<open>RunLogs\<close>: the filters over the output of a run, the warnings counted in it and its log file.
  \<^item> \<open>TextFields\<close>, \<open>Compression\<close>, \<open>Requests\<close>, \<open>SettingsRequests\<close>, \<open>JobRequests\<close>, \<open>AccountRequests\<close>:
    the request models of \<open>schemas.py\<close>, a record and a \<open>validate_\<dots>\<close> function each.
  \<^item> \<open>Inventory\<close>, \<open>InventoryRepositories\<close>, \<open>InventoryRequests\<close>, \<open>InventoryRows\<close>, \<open>InventoryFacts\<close>,
    \<open>InventorySync\<close>, \<open>InventorySteps\<close>, \<open>InventoryProperties\<close>: the endpoints of \<open>main.py\<close> on hosts,
    repositories, jobs, schedules and access, the two synchronisations after them, their invariant,
    and all requests as a transition system.
  \<^item> \<open>ArchiveListing\<close>, \<open>ArchiveOwners\<close>, \<open>ArchiveAccess\<close>, \<open>ArchiveBrowser\<close>, \<open>ArchiveProperties\<close>:
    \<open>borg_stats.py\<close>, \<open>archive_cache.py\<close> and the endpoints of \<open>main.py\<close> on archives.
  \<^item> \<open>MountLifecycle\<close>, \<open>MountSystem\<close>, \<open>MountProperties\<close>: the handlers of archive mounts in \<open>main.py\<close> and
    the transition system \<open>mount_step\<close> of their stretches between waits.
  \<^item> \<open>BackupNames\<close>, \<open>BackupFormat\<close>, \<open>BackupCreate\<close>, \<open>BackupRestore\<close>, \<open>BackupInventory\<close>,
    \<open>BackupTasks\<close>, \<open>BackupApi\<close>, \<open>ClientTransfer\<close> with \<open>BackupFacts\<close>, \<open>BackupRoundtrip\<close>,
    \<open>BackupProperties\<close>: \<open>backups.py\<close>, \<open>manager_backup_progress.py\<close>, the transfers of
    \<open>client_cache.py\<close> and their endpoints.
  \<^item> \<open>ClientScripts\<close>, \<open>ClientCleanup\<close>, \<open>ClientProperties\<close>:
    scanning and cleaning the Borg caches of devices in \<open>client_cache.py\<close>, and the shell scripts of
    \<open>runner.py\<close> for them as functions of the files of a device.
  \<^item> \<open>LoginGuard\<close>, \<open>Accounts\<close>, \<open>AccountOps\<close>: \<open>security_store.py\<close> and \<open>two_factor.py\<close>; \<open>account_step\<close> is the
    system of all changes of the account table, statement by statement.
  \<^item> \<open>WebSecurity\<close>, \<open>WebProperties\<close>: \<open>security.py\<close>, \<open>request_security.py\<close> and the endpoints of login and
    logout.

  What is shown. Of the queue: at every reachable point one physical repository is held by at most one
  run, a started chain shuts other claims out until it is released, chains of a repository run in
  the order of their root runs, and the queue refines one lock per repository. Of the planner: it
  decides every queued run once, respects every limit, starts the first run when nothing runs,
  overtakes only for a cause of the overtaken run, and the reasons it gives are real. Of the
  semaphore: bounded holders, no lost wake-up, first come first served. Of actions and chains: what
  must hold before a backup is queued, how a chain follows the outcomes of its runs and that it
  leaves no reservation behind. Of a run: the command only runs while its locks are held, they come
  back when the cleanup goes through, its log and its warnings are those of its output however that
  is cut, and its row tells its outcome. Of commands: the words that a shell reads are the words that
  were meant, secrets are not among them, a restore writes where it was allowed to. Of the inventory:
  its invariant and the agreement of access rows, authorized keys and timers with it after every
  request. Of archives and mounts: owners, renames and deletions, and that a mounted archive keeps
  commands from its repository. Of backups: what was saved comes back, unpacking stays below its
  destination, a restore is all or nothing. Of the caches of devices: only what the last scan released
  is sent for deletion, and a device loses only the paths that were named. Of the accounts and the web layer: an active administrator
  remains, a change of credentials ends every session, a recovery code works once, the budget of a
  source address is never refilled within its window, and an account is granted only for a live
  session.

  Conditions. Some guarantees hold only under conditions that the code does not enforce; each is part
  of the step relation or of a hypothesis, named in the text of its property, and shown to be needed
  by a lemma with a concrete history. The queue excludes two runs on one place unless another request
  moves a repository under them (\<open>relocation_breaks_exclusion\<close>); a run gives its locks back unless its
  log cannot be closed (\<open>Cleanup_failed\<close>); an active administrator remains unless two requests that
  could take one away overlap (\<open>overlapping_deletions_lock_out\<close>); a mount keeps its row unless requests
  on its repository overlap or the repository is deleted under it (\<open>deleted_repository_leaves_mount\<close>); a
  rename keeps the owner unless prefixes overlap (\<open>rename_can_change_the_owner\<close>); a backup comes back
  unless it exceeds the limits of unpacking (\<open>oversized_backup_cannot_be_restored\<close>); the log of a backup
  is independent of the cut of its output behind the progress filter only (\<open>split_number_misread\<close>).

  Interfaces. \<open>Tables.row_store\<close> states what a table promises and is interpreted for lists of rows and
  for the runs of the database; \<open>Systems.guarded_system\<close> and \<open>Systems.refined_system\<close> carry the
  induction over reachable states and the simulation and are interpreted for the semaphore, the
  queue, the chains, the accounts, the inventory and the mounts; \<open>Streams.chunk_filter\<close> states that the result of
  a filter does not depend on the chunks and is interpreted for the item filter.

  Bounds. No definition needs fuel: every recursion is structural or has a measure. Times are integers
  in microseconds, percentages are rational numbers, Python's integers are \<open>int\<close>. Characters are
  code points below 256.

  Parameters. Code outside the repository enters as arguments: disk usage and mount tables of the
  operating system, resolution of paths, APScheduler's cron parser, the URL decoding tables of the
  standard library, JSON, ZIP, SQLite's own checks, IP addresses, scrypt, SHA-256, Fernet, AES-GCM and
  the HMAC of one-time codes. The properties assume nothing of them beyond what their statements say.

  Not modelled: HTTP routing, subprocesses and network connections, the Borg cache of the
  manager itself, the export of archives as tar files, notifications, schema migrations, the diagnosis texts
  and the display-only columns. A transaction of SQLite is one step; writes that the code makes best
  effort may be skipped in the model as well.
\<close>

end
